(* ===== verification/Prelude.thy ===== *)
theory Prelude
  imports Main "HOL-Library.List_Lexorder" "HOL-Library.Char_ord"
    "HOL-Library.Product_Lexorder" "HOL-Library.Multiset"
begin

text \<open>
  Shared vocabulary of the development: decoded Python values, results with Python
  exceptions, the construction validators that every contract module of scarcity_router
  repeats, closed vocabularies, serialised records and the list facts the components share.

  Strings are lists of code points below 256, in code-point order (\<open>sorted\<close> of Python
  compares strings that way). Python integers are unbounded and are modelled by \<open>int\<close>.
\<close>

named_theorems result_simps \<open>rewriting of results: bind, guards, traversals\<close>
named_theorems valid_simps \<open>success conditions of the validators\<close>
named_theorems shape_simps \<open>serialised records: shape and member lookup\<close>

section \<open>Exceptions and results\<close>

text \<open>
  The exception classes of errors.py that the modelled code raises, and those that
  model_inventory.py, execution_sources.py and server_config.py define themselves, with the field
  label that opens the message. \<open>KeyError\<close>, \<open>ValueError\<close>, \<open>StopIteration\<close> and \<open>AssertionError\<close> are the
  built-in ones.
\<close>

datatype py_error =
    CapacityValidationError string
  | SelectionContractValidationError string
  | SimulationOverrideApplicationError string
  | RouteContractValidationError string
  | ModelInventoryError string
  | SourceAdoptionError string
  | ServerConfigError string
  | KeyError string
  | ValueError string
  | StopIteration string
  | AssertionError string

type_synonym 'a result = "py_error + 'a"

fun bind_r :: "'a result \<Rightarrow> ('a \<Rightarrow> 'b result) \<Rightarrow> 'b result" where
  "bind_r (Inl e) f = Inl e"
| "bind_r (Inr x) f = f x"

definition guard_r :: "bool \<Rightarrow> py_error \<Rightarrow> unit result" where
  "guard_r b e = (if b then Inr () else Inl e)"

fun traverse :: "('a \<Rightarrow> 'b result) \<Rightarrow> 'a list \<Rightarrow> 'b list result" where
  "traverse f [] = Inr []"
| "traverse f (x # xs) = bind_r (f x) (\<lambda>y. bind_r (traverse f xs) (\<lambda>ys. Inr (y # ys)))"

definition is_ok :: "'a result \<Rightarrow> bool" where
  "is_ok r = (case r of Inl _ \<Rightarrow> False | Inr _ \<Rightarrow> True)"

lemma is_ok_simps [simp]: "is_ok (Inr x)" "\<not> is_ok (Inl e)"
  by (simp_all add: is_ok_def)

lemma is_ok_iff: "is_ok r \<longleftrightarrow> (\<exists>x. r = Inr x)"
  by (cases r) auto

lemma bind_r_Inr_iff [result_simps]:
  "bind_r m f = Inr y \<longleftrightarrow> (\<exists>x. m = Inr x \<and> f x = Inr y)"
  by (cases m) auto

lemma bind_r_cong [fundef_cong, cong]:
  "m = m' \<Longrightarrow> (\<And>x. m' = Inr x \<Longrightarrow> f x = g x) \<Longrightarrow> bind_r m f = bind_r m' g"
  by (cases m') auto

lemma guard_r_Inr_iff [result_simps]: "guard_r b e = Inr u \<longleftrightarrow> b"
  by (simp add: guard_r_def)

lemma guard_r_simps [simp]: "guard_r True e = Inr ()" "guard_r False e = Inl e"
  by (simp_all add: guard_r_def)

lemma traverse_Inr_iff:
  "traverse f xs = Inr ys \<longleftrightarrow> list_all2 (\<lambda>x y. f x = Inr y) xs ys"
  by (induction xs arbitrary: ys) (auto simp: result_simps list_all2_Cons1)

lemma traverse_map_Inr:
  "(\<And>x. x \<in> set xs \<Longrightarrow> f (g x) = Inr x) \<Longrightarrow> traverse f (map g xs) = Inr xs"
  by (induction xs) auto

lemma traverse_total:
  "(\<And>x. x \<in> set xs \<Longrightarrow> f x = Inr (g x)) \<Longrightarrow> traverse f xs = Inr (map g xs)"
  by (induction xs) auto

definition each :: "('a \<Rightarrow> unit result) \<Rightarrow> 'a list \<Rightarrow> unit result" where
  \<comment> \<open>a loop whose body only checks\<close>
  "each f xs = bind_r (traverse f xs) (\<lambda>_. Inr ())"

lemma each_Inr [result_simps]: "each f xs = Inr u \<longleftrightarrow> list_all (\<lambda>x. f x = Inr ()) xs"
  by (induction xs) (auto simp: each_def result_simps)

lemma list_all2_Inr_set:
  "list_all2 (\<lambda>x y. f x = Inr y) xs ys \<Longrightarrow> y \<in> set ys \<Longrightarrow> \<exists>x \<in> set xs. f x = Inr y"
  by (induction rule: list_all2_induct) auto

section \<open>Decoded Python values\<close>

text \<open>
  A decoded JSON-compatible value. \<open>POther\<close> stands for every other Python object (a
  float, a tuple, \<dots>) under the name of its type: the validators reject all of them alike.
  A mapping is its list of items in insertion order.
\<close>

datatype pyval =
    PNone
  | PBool bool
  | PInt int
  | PStr string
  | PList "pyval list"
  | PDict "(string \<times> pyval) list"
  | POther string

type_synonym pymap = "(string \<times> pyval) list"

definition opt_py :: "('a \<Rightarrow> pyval) \<Rightarrow> 'a option \<Rightarrow> pyval" where
  \<comment> \<open>a typed optional attribute as a Python value\<close>
  "opt_py g x = (case x of None \<Rightarrow> PNone | Some y \<Rightarrow> g y)"

lemma opt_py_simps [simp]: "opt_py g None = PNone" "opt_py g (Some y) = g y"
  by (simp_all add: opt_py_def)

definition py_get :: "pymap \<Rightarrow> string \<Rightarrow> pyval" where
  \<comment> \<open>\<open>m.get(k)\<close>\<close>
  "py_get m k = opt_py (\<lambda>v. v) (map_of m k)"

definition py_item :: "pymap \<Rightarrow> string \<Rightarrow> pyval result" where
  \<comment> \<open>\<open>m[k]\<close>\<close>
  "py_item m k = (case map_of m k of None \<Rightarrow> Inl (KeyError k) | Some v \<Rightarrow> Inr v)"

definition py_has :: "pymap \<Rightarrow> string \<Rightarrow> bool" where
  \<comment> \<open>\<open>k in m\<close>\<close>
  "py_has m k = (map_of m k \<noteq> None)"

section \<open>Construction validators\<close>

text \<open>
  Each contract module carries its own copy of these validators and raises its own
  exception class; the class is the parameter \<open>exn\<close>.
\<close>

definition v_str :: "(string \<Rightarrow> py_error) \<Rightarrow> pyval \<Rightarrow> string \<Rightarrow> string result" where
  "v_str exn v fld = (case v of PStr s \<Rightarrow> Inr s | _ \<Rightarrow> Inl (exn fld))"

definition v_bool :: "(string \<Rightarrow> py_error) \<Rightarrow> pyval \<Rightarrow> string \<Rightarrow> bool result" where
  "v_bool exn v fld = (case v of PBool b \<Rightarrow> Inr b | _ \<Rightarrow> Inl (exn fld))"

definition v_int ::
  "(string \<Rightarrow> py_error) \<Rightarrow> int option \<Rightarrow> int option \<Rightarrow> pyval \<Rightarrow> string \<Rightarrow> int result" where
  "v_int exn lo hi v fld =
     (case v of
        PInt n \<Rightarrow>
          (if (case lo of None \<Rightarrow> False | Some l \<Rightarrow> n < l) then Inl (exn fld)
           else if (case hi of None \<Rightarrow> False | Some h \<Rightarrow> n > h) then Inl (exn fld)
           else Inr n)
      | _ \<Rightarrow> Inl (exn fld))"

definition v_opt ::
  "(pyval \<Rightarrow> string \<Rightarrow> 'a result) \<Rightarrow> pyval \<Rightarrow> string \<Rightarrow> 'a option result" where
  \<comment> \<open>the \<open>_v_opt_*\<close> family: None stays None\<close>
  "v_opt w v fld = (case v of PNone \<Rightarrow> Inr None | _ \<Rightarrow> bind_r (w v fld) (\<lambda>x. Inr (Some x)))"

definition v_list :: "(string \<Rightarrow> py_error) \<Rightarrow> pyval \<Rightarrow> string \<Rightarrow> pyval list result" where
  \<comment> \<open>the \<open>isinstance(raw, list)\<close> guard of every \<open>from_dict\<close>\<close>
  "v_list exn v fld = (case v of PList xs \<Rightarrow> Inr xs | _ \<Rightarrow> Inl (exn fld))"

definition v_item ::
  "pymap \<Rightarrow> string \<Rightarrow> (pyval \<Rightarrow> string \<Rightarrow> 'a result) \<Rightarrow> string \<Rightarrow> 'a result" where
  \<comment> \<open>a validator applied to \<open>dd[k]\<close>\<close>
  "v_item dd k w fld = bind_r (py_item dd k) (\<lambda>v. w v fld)"

lemma v_item_Inr [result_simps]:
  "v_item dd k w fld = Inr x \<longleftrightarrow> (\<exists>v. py_item dd k = Inr v \<and> w v fld = Inr x)"
  by (simp add: v_item_def result_simps)

lemma v_str_Inr [valid_simps]: "v_str exn v fld = Inr s \<longleftrightarrow> v = PStr s"
  by (cases v) (auto simp: v_str_def)

lemma v_bool_Inr [valid_simps]: "v_bool exn v fld = Inr b \<longleftrightarrow> v = PBool b"
  by (cases v) (auto simp: v_bool_def)

lemma v_list_Inr [valid_simps]: "v_list exn v fld = Inr xs \<longleftrightarrow> v = PList xs"
  by (cases v) (auto simp: v_list_def)

lemma v_int_Inr [valid_simps]:
  "v_int exn lo hi v fld = Inr n \<longleftrightarrow>
     v = PInt n \<and> (\<forall>l. lo = Some l \<longrightarrow> l \<le> n) \<and> (\<forall>h. hi = Some h \<longrightarrow> n \<le> h)"
  by (cases v) (auto simp: v_int_def split: option.splits)

lemma v_opt_Inr:
  "v_opt w v fld = Inr x \<longleftrightarrow>
     (v = PNone \<and> x = None) \<or> (v \<noteq> PNone \<and> (\<exists>y. x = Some y \<and> w v fld = Inr y))"
  by (cases v) (auto simp: v_opt_def result_simps)

lemma v_opt_simps [simp]:
  "v_opt w PNone fld = Inr None"
  "v_opt w (PStr s) fld = bind_r (w (PStr s) fld) (\<lambda>x. Inr (Some x))"
  "v_opt w (PInt i) fld = bind_r (w (PInt i) fld) (\<lambda>x. Inr (Some x))"
  "v_opt w (PBool b) fld = bind_r (w (PBool b) fld) (\<lambda>x. Inr (Some x))"
  "v_opt w (PList xs) fld = bind_r (w (PList xs) fld) (\<lambda>x. Inr (Some x))"
  "v_opt w (PDict m) fld = bind_r (w (PDict m) fld) (\<lambda>x. Inr (Some x))"
  by (simp_all add: v_opt_def)

definition v_list_of ::
  "(string \<Rightarrow> py_error) \<Rightarrow> (pyval \<Rightarrow> 'a result) \<Rightarrow> pyval \<Rightarrow> string \<Rightarrow> 'a list result" where
  \<comment> \<open>the list guard, then \<open>tuple(f(x) for x in raw)\<close>\<close>
  "v_list_of exn f v fld = bind_r (v_list exn v fld) (traverse f)"

lemma v_list_of_PList [simp]: "v_list_of exn f (PList xs) fld = traverse f xs"
  by (simp add: v_list_of_def v_list_def)

lemma v_list_of_Inr:
  "v_list_of exn f v fld = Inr ys \<longleftrightarrow> (\<exists>xs. v = PList xs \<and> traverse f xs = Inr ys)"
  by (auto simp: v_list_of_def result_simps valid_simps)

lemma v_list_of_all:
  "v_list_of exn f v fld = Inr ys \<Longrightarrow> (\<And>x y. f x = Inr y \<Longrightarrow> P y) \<Longrightarrow> list_all P ys"
  by (auto simp: v_list_of_Inr traverse_Inr_iff list_all_iff dest!: list_all2_Inr_set)

subsection \<open>Safe identifiers\<close>

text \<open>
  \<^verbatim>\<open>_SAFE_ID_RE = re.compile(r"^[a-z0-9][a-z0-9._:-]{0,63}$")\<close>, applied with
  \<open>match\<close>. Without \<open>re.MULTILINE\<close> the anchor \<open>$\<close> matches at the end of the string and also
  just before a newline that ends it, so one trailing newline is accepted.
\<close>

definition in_range :: "char \<Rightarrow> char \<Rightarrow> char \<Rightarrow> bool" where
  "in_range lo hi c = (lo \<le> c \<and> c \<le> hi)"

definition id_first :: "char \<Rightarrow> bool" where
  "id_first c = (in_range (CHR ''a'') (CHR ''z'') c \<or> in_range (CHR ''0'') (CHR ''9'') c)"

definition id_rest :: "char \<Rightarrow> bool" where
  "id_rest c = (id_first c \<or> c = CHR ''.'' \<or> c = CHR ''_'' \<or> c = CHR '':'' \<or> c = CHR ''-'')"

definition id_grammar :: "string \<Rightarrow> bool" where
  "id_grammar s =
     (case s of [] \<Rightarrow> False | c # cs \<Rightarrow> id_first c \<and> list_all id_rest cs \<and> length cs \<le> 63)"

definition dollar :: "(string \<Rightarrow> bool) \<Rightarrow> string \<Rightarrow> bool" where
  \<comment> \<open>\<open>re.match\<close> of an anchored pattern whose own text cannot contain a newline\<close>
  "dollar p s = (p s \<or> (s \<noteq> [] \<and> last s = CHR 0x0A \<and> p (butlast s)))"

definition safe_id_match :: "string \<Rightarrow> bool" where
  "safe_id_match s = dollar id_grammar s"

definition v_safe_id :: "(string \<Rightarrow> py_error) \<Rightarrow> pyval \<Rightarrow> string \<Rightarrow> string result" where
  "v_safe_id exn v fld =
     bind_r (v_str exn v fld) (\<lambda>s. if safe_id_match s then Inr s else Inl (exn fld))"

lemma v_safe_id_Inr [valid_simps]:
  "v_safe_id exn v fld = Inr s \<longleftrightarrow> v = PStr s \<and> safe_id_match s"
  by (auto simp: v_safe_id_def result_simps valid_simps)

lemma traverse_safe_id [valid_simps]:
  "traverse (\<lambda>v. v_safe_id exn v fld) (map PStr xs) = Inr ys \<longleftrightarrow> ys = xs \<and> list_all safe_id_match xs"
  by (induction xs arbitrary: ys) (auto simp: result_simps valid_simps)

lemma traverse_safe_id_ok:
  "traverse (\<lambda>v. v_safe_id exn v fld) vs = Inr ys \<Longrightarrow> list_all safe_id_match ys"
  by (induction vs arbitrary: ys) (auto simp: result_simps valid_simps)

lemma safe_id_nonempty: "safe_id_match s \<Longrightarrow> s \<noteq> []"
  by (auto simp: safe_id_match_def dollar_def id_grammar_def)

subsection \<open>Bounded text\<close>

definition is_cc :: "char \<Rightarrow> bool" where
  \<comment> \<open>\<open>unicodedata.category(ch) == "Cc"\<close>\<close>
  "is_cc c = (let n = (of_char c :: nat) in n < 32 \<or> (127 \<le> n \<and> n < 160))"

definition is_space :: "char \<Rightarrow> bool" where
  \<comment> \<open>the characters \<open>str.strip()\<close> removes\<close>
  "is_space c = (let n = (of_char c :: nat) in
     (9 \<le> n \<and> n \<le> 13) \<or> (28 \<le> n \<and> n \<le> 32) \<or> n = 133 \<or> n = 160)"

definition text_ok :: "nat \<Rightarrow> string \<Rightarrow> bool" where
  "text_ok max_len s =
     (s \<noteq> [] \<and> length s \<le> max_len \<and> \<not> list_ex is_cc s \<and> \<not> is_space (hd s) \<and> \<not> is_space (last s))"

definition v_text :: "(string \<Rightarrow> py_error) \<Rightarrow> nat \<Rightarrow> pyval \<Rightarrow> string \<Rightarrow> string result" where
  "v_text exn max_len v fld =
     bind_r (v_str exn v fld) (\<lambda>s.
       if s = [] then Inl (exn fld)
       else if length s > max_len then Inl (exn fld)
       else if list_ex is_cc s then Inl (exn fld)
       else if is_space (hd s) \<or> is_space (last s) then Inl (exn fld)
       else Inr s)"

lemma v_text_Inr [valid_simps]:
  "v_text exn n v fld = Inr s \<longleftrightarrow> v = PStr s \<and> text_ok n s"
  by (auto simp: v_text_def text_ok_def result_simps valid_simps)

definition v_nonempty_str :: "(string \<Rightarrow> py_error) \<Rightarrow> pyval \<Rightarrow> string \<Rightarrow> string result" where
  "v_nonempty_str exn v fld =
     bind_r (v_str exn v fld) (\<lambda>s. if s = [] then Inl (exn fld) else Inr s)"

lemma v_nonempty_str_Inr [valid_simps]:
  "v_nonempty_str exn v fld = Inr s \<longleftrightarrow> v = PStr s \<and> s \<noteq> []"
  by (auto simp: v_nonempty_str_def result_simps valid_simps)

section \<open>Closed vocabularies\<close>

text \<open>
  A closed set of strings is a datatype with its rendering \<open>str\<close>. \<open>v_enum\<close> is the code's
  \<open>_v_enum(value, allowed, fld)\<close> followed by reading the string as the constructor.
\<close>

definition v_enum ::
  "(string \<Rightarrow> py_error) \<Rightarrow> ('a \<Rightarrow> string) \<Rightarrow> 'a list \<Rightarrow> pyval \<Rightarrow> string \<Rightarrow> 'a result" where
  "v_enum exn str allowed v fld =
     bind_r (v_str exn v fld) (\<lambda>s.
       case find (\<lambda>x. str x = s) allowed of None \<Rightarrow> Inl (exn fld) | Some x \<Rightarrow> Inr x)"

locale vocabulary =
  fixes str :: "'a \<Rightarrow> string" and members :: "'a list"
  assumes str_inject: "str x = str y \<Longrightarrow> x = y"
    and members_complete [simp]: "x \<in> set members"
begin

lemma str_eq_iff [simp]: "str x = str y \<longleftrightarrow> x = y"
  by (auto dest: str_inject)

lemma inj_str: "inj_on str A"
  by (auto intro: inj_onI)

lemma find_str:
  "find (\<lambda>y. str y = s) allowed = Some x \<longleftrightarrow> s = str x \<and> x \<in> set allowed"
  by (induction allowed) auto

lemma v_enum_subset_Inr [valid_simps]:
  "v_enum exn str allowed v fld = Inr x \<longleftrightarrow> v = PStr (str x) \<and> x \<in> set allowed"
  by (cases v) (auto simp: v_enum_def v_str_def find_str find_None_iff split: option.splits)

lemma v_enum_Inr [valid_simps]:
  "v_enum exn str members v fld = Inr x \<longleftrightarrow> v = PStr (str x)"
  by (simp add: v_enum_subset_Inr members_complete)

lemma v_enum_str [simp]: "v_enum exn str members (PStr (str x)) fld = Inr x"
  by (simp add: v_enum_Inr)

end

lemma vocabularyI:
  assumes "distinct (map str members)" and "\<And>x. x \<in> set members"
  shows "vocabulary str members"
  using assms by unfold_locales (auto simp: distinct_map dest: inj_onD)

section \<open>Serialised records\<close>

text \<open>
  \<open>obj\<close> builds the dictionary a \<open>to_dict\<close> returns: a member whose value is absent is left
  out, as the code's \<open>if self.x is not None\<close> does.
\<close>

definition obj_fields :: "(string \<times> pyval option) list \<Rightarrow> pymap" where
  "obj_fields fs = List.map_filter (\<lambda>(k, v). map_option (Pair k) v) fs"

definition obj :: "(string \<times> pyval option) list \<Rightarrow> pyval" where
  "obj fs = PDict (obj_fields fs)"

definition v_exact_shape ::
  "(string \<Rightarrow> py_error) \<Rightarrow> pyval \<Rightarrow> string list \<Rightarrow> string list \<Rightarrow> string \<Rightarrow> pymap result" where
  "v_exact_shape exn v required optional label =
     (case v of
        PDict m \<Rightarrow>
          (if \<not> list_all (\<lambda>(k, _). k \<in> set required \<union> set optional) m then Inl (exn label)
           else if \<not> list_all (\<lambda>k. py_has m k) required then Inl (exn label)
           else Inr m)
      | _ \<Rightarrow> Inl (exn label))"

lemma v_exact_shape_Inr [valid_simps]:
  "v_exact_shape exn v req opt l = Inr m \<longleftrightarrow>
     v = PDict m \<and> fst ` set m \<subseteq> set req \<union> set opt \<and> (\<forall>k \<in> set req. py_has m k)"
  by (cases v) (auto simp: v_exact_shape_def list_all_iff)

lemma obj_fields_simps:
  "obj_fields [] = []"
  "obj_fields ((k, None) # fs) = obj_fields fs"
  "obj_fields ((k, Some v) # fs) = (k, v) # obj_fields fs"
  by (simp_all add: obj_fields_def map_filter_simps)

lemma keys_obj_fields: "fst ` set (obj_fields fs) \<subseteq> fst ` set fs"
  by (induction fs rule: list.induct) (auto simp: obj_fields_def map_filter_simps split: option.splits)

lemma map_of_obj_fields [shape_simps]:
  "map_of (obj_fields []) k' = None"
  "k' \<noteq> k \<Longrightarrow> map_of (obj_fields ((k, x) # fs)) k' = map_of (obj_fields fs) k'"
  "k \<notin> fst ` set fs \<Longrightarrow> map_of (obj_fields ((k, x) # fs)) k = x"
proof -
  show "map_of (obj_fields []) k' = None" by (simp add: obj_fields_simps)
  show "k' \<noteq> k \<Longrightarrow> map_of (obj_fields ((k, x) # fs)) k' = map_of (obj_fields fs) k'"
    by (cases x) (simp_all add: obj_fields_simps)
  assume "k \<notin> fst ` set fs"
  then have "map_of (obj_fields fs) k = None"
    using keys_obj_fields [of fs] by (auto simp: map_of_eq_None_iff)
  then show "map_of (obj_fields ((k, x) # fs)) k = x"
    by (cases x) (simp_all add: obj_fields_simps)
qed

lemma v_exact_shape_obj [shape_simps]:
  "list_all (\<lambda>(k, _). k \<in> set req \<union> set opt) fs \<Longrightarrow>
   list_all (\<lambda>k. map_of (obj_fields fs) k \<noteq> None) req \<Longrightarrow>
   v_exact_shape exn (obj fs) req opt l = Inr (obj_fields fs)"
  using keys_obj_fields [of fs]
  by (fastforce simp: v_exact_shape_Inr obj_def list_all_iff py_has_def)

lemma py_get_obj [shape_simps]:
  "py_get (obj_fields fs) k = opt_py (\<lambda>v. v) (map_of (obj_fields fs) k)"
  by (simp add: py_get_def)

lemma py_item_obj [shape_simps]:
  "py_item (obj_fields fs) k =
     (case map_of (obj_fields fs) k of None \<Rightarrow> Inl (KeyError k) | Some v \<Rightarrow> Inr v)"
  by (simp add: py_item_def)

lemma py_has_obj [shape_simps]:
  "py_has (obj_fields fs) k = (map_of (obj_fields fs) k \<noteq> None)"
  by (simp add: py_has_def)

lemma obj_not_None [simp]: "obj fs \<noteq> PNone"
  by (simp add: obj_def)

lemma opt_py_map_option [shape_simps]: "opt_py (\<lambda>v. v) (map_option g x) = opt_py g x"
  by (cases x) simp_all

lemma pred_option_code [code]:
  "pred_option P None = True" "pred_option P (Some x) = P x"
  by simp_all

lemma pred_option_True [simp]: "pred_option (\<lambda>_. True) x"
  by (cases x) simp_all

lemma opt_py_eq_PNone [valid_simps]:
  "opt_py PStr x = PNone \<longleftrightarrow> x = None" "opt_py PInt i = PNone \<longleftrightarrow> i = None"
  "opt_py PBool b = PNone \<longleftrightarrow> b = None"
  by (auto simp: opt_py_def split: option.splits)

lemma opt_py_eq_value [valid_simps]:
  "opt_py PStr x = PStr s \<longleftrightarrow> x = Some s" "opt_py PInt i = PInt n \<longleftrightarrow> i = Some n"
  "opt_py PBool b = PBool c \<longleftrightarrow> b = Some c"
  by (auto simp: opt_py_def split: option.splits)

text \<open>
  An optional attribute that is validated and stored as it is: the validator accepts it
  exactly when its value, if present, is accepted.
\<close>

lemma v_opt_str:
  assumes "\<And>s t. w (PStr s) fld = Inr t \<longleftrightarrow> t = s \<and> P s"
  shows "v_opt w (opt_py PStr x) fld = Inr y \<longleftrightarrow> y = x \<and> pred_option P x"
  using assms by (cases x) (auto simp: v_opt_Inr result_simps)

lemma v_opt_num:
  assumes "\<And>s t. w (PInt s) fld = Inr t \<longleftrightarrow> t = s \<and> P s"
  shows "v_opt w (opt_py PInt x) fld = Inr y \<longleftrightarrow> y = x \<and> pred_option P x"
  using assms by (cases x) (auto simp: v_opt_Inr result_simps)

lemma v_opt_truth:
  "v_opt (v_bool exn) (opt_py PBool x) fld = Inr y \<longleftrightarrow> y = x"
  by (cases x) (auto simp: result_simps valid_simps)

lemma v_opt_safe_id [valid_simps]:
  "v_opt (v_safe_id exn) (opt_py PStr x) fld = Inr y \<longleftrightarrow> y = x \<and> pred_option safe_id_match x"
  by (rule v_opt_str) (auto simp: valid_simps)

lemma v_opt_text [valid_simps]:
  "v_opt (v_text exn n) (opt_py PStr x) fld = Inr y \<longleftrightarrow> y = x \<and> pred_option (text_ok n) x"
  by (rule v_opt_str) (auto simp: valid_simps)

lemma v_opt_int [valid_simps]:
  "v_opt (v_int exn lo hi) (opt_py PInt x) fld = Inr y \<longleftrightarrow>
     y = x \<and> pred_option (\<lambda>n. pred_option (\<lambda>l. l \<le> n) lo \<and> pred_option (\<lambda>h. n \<le> h) hi) x"
  by (rule v_opt_num) (cases lo; cases hi; auto simp: valid_simps)

declare v_opt_truth [valid_simps]

text \<open>
  What every serialisable class promises about the wire: reading back what was written gives
  the value up to its canonical form \<open>canon\<close>, and writing depends on the canonical form only.
  \<open>ok\<close> is the class invariant: what holds of every live object of the class.
\<close>

locale serial =
  fixes ok :: "'r \<Rightarrow> bool" and canon :: "'r \<Rightarrow> 'r"
    and from_d :: "pyval \<Rightarrow> 'r result" and to_d :: "'r \<Rightarrow> pyval"
  assumes from_d_ok: "from_d d = Inr r \<Longrightarrow> ok r"
    and from_to_canon: "ok r \<Longrightarrow> from_d (to_d r) = Inr (canon r)"
    and to_d_canon: "ok r \<Longrightarrow> to_d (canon r) = to_d r"
begin

lemma reread_same_wire:
  "from_d d = Inr r \<Longrightarrow> \<exists>q. from_d (to_d r) = Inr q \<and> to_d q = to_d r"
  by (auto dest!: from_d_ok simp: from_to_canon to_d_canon)

lemma ok_canon: "ok r \<Longrightarrow> ok (canon r)"
  by (rule from_d_ok [of "to_d r"]) (rule from_to_canon)

lemma same_wire_iff:
  assumes "ok r" "ok q"
  shows "to_d r = to_d q \<longleftrightarrow> canon r = canon q"
proof
  assume "to_d r = to_d q"
  then have "from_d (to_d r) = from_d (to_d q)" by simp
  then show "canon r = canon q" by (simp add: from_to_canon assms)
next
  assume "canon r = canon q"
  then have "to_d (canon r) = to_d (canon q)" by simp
  then show "to_d r = to_d q" by (simp add: to_d_canon assms)
qed

lemma list_from_to_canon: "list_all ok rs \<Longrightarrow> traverse from_d (map to_d rs) = Inr (map canon rs)"
  by (induction rs) (auto simp: from_to_canon)

lemma list_ok: "traverse from_d ds = Inr rs \<Longrightarrow> list_all ok rs"
  by (auto simp: traverse_Inr_iff list_all_iff dest!: list_all2_Inr_set intro: from_d_ok)

lemma list_of_ok: "v_list_of exn from_d v fld = Inr rs \<Longrightarrow> list_all ok rs"
  by (auto simp: v_list_of_Inr dest: list_ok)

lemma opt_list_ok: "v_opt (v_list_of exn from_d) v fld = Inr x \<Longrightarrow> pred_option (list_all ok) x"
  by (auto simp: v_opt_Inr intro: list_of_ok)

lemma item_opt_list_ok:
  "v_item dd k (v_opt (v_list_of exn from_d)) fld = Inr x \<Longrightarrow> pred_option (list_all ok) x"
  by (auto simp: v_item_Inr intro: opt_list_ok)

lemma item_list_ok: "v_item dd k (v_list_of exn from_d) fld = Inr x \<Longrightarrow> list_all ok x"
  by (auto simp: v_item_Inr intro: list_of_ok)

lemma opt_ok: "v_opt (\<lambda>v fld. from_d v) v fld = Inr x \<Longrightarrow> pred_option ok x"
  by (auto simp: v_opt_Inr intro: from_d_ok)

lemma item_ok: "v_item dd k (\<lambda>v fld. from_d v) fld = Inr x \<Longrightarrow> ok x"
  by (auto simp: v_item_Inr intro: from_d_ok)

end

text \<open>
  The contract of a class whose \<open>__post_init__\<close> (\<open>mk\<close>) already stores the canonical form, so
  that reading back is the identity. \<open>parts\<close> says that the attributes that are contract values
  themselves were constructed (in the code: that they are instances of their class).
\<close>

locale contract =
  fixes parts :: "'r \<Rightarrow> bool" and ok :: "'r \<Rightarrow> bool" and mk :: "'r \<Rightarrow> 'r result"
    and from_d :: "pyval \<Rightarrow> 'r result" and to_d :: "'r \<Rightarrow> pyval"
  assumes mk_ok: "parts r \<Longrightarrow> mk r = Inr r' \<Longrightarrow> ok r'"
    and ok_mk: "ok r \<Longrightarrow> mk r = Inr r"
    and parsed_ok: "from_d d = Inr r \<Longrightarrow> ok r"
    and from_to: "ok r \<Longrightarrow> from_d (to_d r) = Inr r"

sublocale contract \<subseteq> serial ok "\<lambda>r. r" from_d to_d
  by unfold_locales (auto intro: parsed_ok from_to)

context contract
begin

lemma mk_idem: "parts r \<Longrightarrow> mk r = Inr r' \<Longrightarrow> mk r' = Inr r'"
  by (rule ok_mk) (rule mk_ok)

lemma list_from_to: "list_all ok rs \<Longrightarrow> traverse from_d (map to_d rs) = Inr rs"
  by (simp add: list_from_to_canon)

lemma opt_from_to:
  assumes "pred_option ok x" and "\<And>r. to_d r \<noteq> PNone"
  shows "v_opt (\<lambda>v fld. from_d v) (opt_py to_d x) fld = Inr x"
  using assms by (cases x) (auto simp: v_opt_Inr from_to)

end

section \<open>Uniqueness loops and canonical order\<close>

text \<open>
  The code's loops over a growing \<open>seen\<close> set that raise at the first repetition.
\<close>

fun seen_check :: "py_error \<Rightarrow> 'k set \<Rightarrow> 'k list \<Rightarrow> unit result" where
  "seen_check e seen [] = Inr ()"
| "seen_check e seen (k # ks) =
     (if k \<in> seen then Inl e else seen_check e (insert k seen) ks)"

lemma seen_check_eq:
  "seen_check e seen ks = (if distinct ks \<and> set ks \<inter> seen = {} then Inr () else Inl e)"
  by (induction ks arbitrary: seen) auto

lemma seen_check_empty [simp]:
  "seen_check e {} ks = (if distinct ks then Inr () else Inl e)"
  by (simp add: seen_check_eq)

lemma seen_check_Inr [result_simps]: "seen_check e {} ks = Inr u \<longleftrightarrow> distinct ks"
  by simp

lemma sort_key_perm_eq:
  fixes f :: "'a \<Rightarrow> 'b::linorder"
  assumes "mset xs = mset ys" and "inj_on f (set xs)"
  shows "sort_key f xs = sort_key f ys"
  using assms by (intro sort_key_inj_key_eq) (auto dest: mset_eq_setD)

lemma sort_key_sorted_id [simp]:
  fixes f :: "'a \<Rightarrow> 'b::linorder"
  shows "sorted (map f xs) \<Longrightarrow> sort_key f xs = xs"
  by (induction xs) (auto simp: insort_is_Cons)

lemma sort_key_remdups_iff:
  fixes f :: "'a \<Rightarrow> 'b::linorder"
  shows "sort_key f (remdups xs) = xs \<longleftrightarrow> sorted (map f xs) \<and> distinct xs"
proof
  assume *: "sort_key f (remdups xs) = xs"
  have "distinct (sort_key f (remdups xs))" "sorted (map f (sort_key f (remdups xs)))"
    by simp_all
  then show "sorted (map f xs) \<and> distinct xs" by (simp add: *)
qed (simp add: distinct_remdups_id)

lemma distinct_key_inj:
  "distinct (map f xs) \<Longrightarrow> inj_on f (set xs)"
  by (simp add: distinct_map)

lemma distinct_map_mset:
  "mset xs = mset ys \<Longrightarrow> distinct (map f xs) = distinct (map f ys)"
  by (metis distinct_map mset_eq_imp_distinct_iff mset_eq_setD)

end
