(* ===== verification/Py_Time.thy ===== *)
theory Py_Time
  imports Prelude
begin

text \<open>
  Calendar dates, canonical timestamps and aware instants as the contract modules use them.

  \<^item> A calendar date is its proleptic Gregorian ordinal (\<open>date.toordinal()\<close>, 1 is 0001-01-01).
  \<^item> An instant is a number of microseconds since 1970-01-01T00:00Z; a \<open>datetime\<close> value is
    aware (an instant) or naive.
  \<^item> \<open>fromisoformat\<close> is modelled on the strings the regular expressions in front of it let
    through, with the ranges of Python 3.12 and 3.13 (hour at most 23).
  \<^item> The IANA database is the environment's: a parameter \<open>zones\<close> that gives, for a zone name
    that loads, the UTC offset at each instant.
\<close>

section \<open>Fixed-width patterns\<close>

definition is_digit :: "char \<Rightarrow> bool" where
  "is_digit c = in_range (CHR ''0'') (CHR ''9'') c"

definition fits :: "string \<Rightarrow> string \<Rightarrow> bool" where
  \<comment> \<open>\<open>d\<close> in the template is a digit, every other character is itself\<close>
  "fits tmpl s = list_all2 (\<lambda>t c. if t = CHR ''d'' then is_digit c else c = t) tmpl s"

definition digits_value :: "string \<Rightarrow> int" where
  "digits_value s = foldl (\<lambda>a c. 10 * a + (of_char c - 48)) 0 s"

definition slice :: "nat \<Rightarrow> nat \<Rightarrow> string \<Rightarrow> string" where
  "slice i n s = take n (drop i s)"

lemma fits_length: "fits tmpl s \<Longrightarrow> length s = length tmpl"
  by (auto simp: fits_def dest: list_all2_lengthD)

section \<open>Calendar dates\<close>

definition is_leap :: "int \<Rightarrow> bool" where
  "is_leap y = (y mod 4 = 0 \<and> (y mod 100 \<noteq> 0 \<or> y mod 400 = 0))"

definition days_in_month :: "int \<Rightarrow> int \<Rightarrow> int" where
  "days_in_month y m =
     (if m = 2 then (if is_leap y then 29 else 28)
      else if m = 4 \<or> m = 6 \<or> m = 9 \<or> m = 11 then 30 else 31)"

definition days_before_month :: "int \<Rightarrow> int \<Rightarrow> int" where
  "days_before_month y m =
     [0, 31, 59, 90, 120, 151, 181, 212, 243, 273, 304, 334] ! nat (m - 1)
       + (if m > 2 \<and> is_leap y then 1 else 0)"

definition days_before_year :: "int \<Rightarrow> int" where
  "days_before_year y = (let p = y - 1 in p * 365 + p div 4 - p div 100 + p div 400)"

definition ymd_ordinal :: "int \<Rightarrow> int \<Rightarrow> int \<Rightarrow> int" where
  "ymd_ordinal y m d = days_before_year y + days_before_month y m + d"

definition valid_ymd :: "int \<Rightarrow> int \<Rightarrow> int \<Rightarrow> bool" where
  "valid_ymd y m d = (1 \<le> y \<and> y \<le> 9999 \<and> 1 \<le> m \<and> m \<le> 12 \<and> 1 \<le> d \<and> d \<le> days_in_month y m)"

definition date_fromisoformat :: "string \<Rightarrow> int option" where
  "date_fromisoformat s =
     (if fits ''dddd-dd-dd'' s then
        (let y = digits_value (slice 0 4 s); m = digits_value (slice 5 2 s);
             d = digits_value (slice 8 2 s)
         in if valid_ymd y m d then Some (ymd_ordinal y m d) else None)
      else None)"

definition date_re :: "string \<Rightarrow> bool" where
  \<comment> \<open>\<^verbatim>\<open>_DATE_RE = ^\d{4}-\d{2}-\d{2}$\<close>\<close>
  "date_re s = dollar (fits ''dddd-dd-dd'') s"

definition date_ok :: "string \<Rightarrow> bool" where
  "date_ok s = (date_fromisoformat s \<noteq> None)"

definition v_date :: "(string \<Rightarrow> py_error) \<Rightarrow> pyval \<Rightarrow> string \<Rightarrow> string result" where
  "v_date exn v fld =
     bind_r (v_str exn v fld) (\<lambda>s.
       if \<not> date_re s then Inl (exn fld)
       else case date_fromisoformat s of None \<Rightarrow> Inl (exn fld) | Some _ \<Rightarrow> Inr s)"

lemma date_ok_fits: "date_ok s \<Longrightarrow> fits ''dddd-dd-dd'' s"
  by (auto simp: date_ok_def date_fromisoformat_def split: if_splits)

lemma v_date_Inr [valid_simps]: "v_date exn v fld = Inr s \<longleftrightarrow> v = PStr s \<and> date_ok s"
  using date_ok_fits [of s]
  by (cases v) (auto simp: v_date_def v_str_def date_ok_def date_re_def dollar_def
      split: option.splits if_splits)

lemma v_opt_date [valid_simps]:
  "v_opt (v_date exn) (opt_py PStr x) fld = Inr y \<longleftrightarrow> y = x \<and> pred_option date_ok x"
  by (rule v_opt_str) (auto simp: valid_simps)

section \<open>Canonical timestamps\<close>

definition ts_re :: "string \<Rightarrow> bool" where
  \<comment> \<open>\<^verbatim>\<open>_CANONICAL_TS_RE = ^\d{4}-\d{2}-\d{2}T\d{2}:\d{2}:\d{2}\.\d{3}Z$\<close>\<close>
  "ts_re s = dollar (fits ''dddd-dd-ddTdd:dd:dd.dddZ'') s"

definition iso_utc :: "string \<Rightarrow> bool" where
  \<comment> \<open>\<open>datetime.fromisoformat\<close> accepts the millisecond form with the offset \<open>+00:00\<close>\<close>
  "iso_utc s =
     (fits ''dddd-dd-ddTdd:dd:dd.ddd+00:00'' s
      \<and> valid_ymd (digits_value (slice 0 4 s)) (digits_value (slice 5 2 s)) (digits_value (slice 8 2 s))
      \<and> digits_value (slice 11 2 s) \<le> 23 \<and> digits_value (slice 14 2 s) \<le> 59
      \<and> digits_value (slice 17 2 s) \<le> 59)"

definition ts_ok :: "string \<Rightarrow> bool" where
  "ts_ok s = (ts_re s \<and> iso_utc (butlast s @ ''+00:00''))"

definition v_ts :: "(string \<Rightarrow> py_error) \<Rightarrow> pyval \<Rightarrow> string \<Rightarrow> string result" where
  "v_ts exn v fld =
     bind_r (v_str exn v fld) (\<lambda>s.
       if \<not> ts_re s then Inl (exn fld)
       else if iso_utc (butlast s @ ''+00:00'') then Inr s else Inl (exn fld))"

lemma v_ts_Inr [valid_simps]: "v_ts exn v fld = Inr s \<longleftrightarrow> v = PStr s \<and> ts_ok s"
  by (auto simp: v_ts_def result_simps valid_simps ts_ok_def split: if_splits)

lemma v_opt_ts [valid_simps]:
  "v_opt (v_ts exn) (opt_py PStr x) fld = Inr y \<longleftrightarrow> y = x \<and> pred_option ts_ok x"
  by (rule v_opt_str) (auto simp: valid_simps)

text \<open>The second check closes the gap that \<open>$\<close> leaves: no canonical timestamp ends in a newline.\<close>

lemma ts_ok_fits: "ts_ok s \<Longrightarrow> fits ''dddd-dd-ddTdd:dd:dd.dddZ'' s"
proof -
  assume ok: "ts_ok s"
  then have len: "length (butlast s @ ''+00:00'') = length ''dddd-dd-ddTdd:dd:dd.ddd+00:00''"
    by (intro fits_length) (simp add: ts_ok_def iso_utc_def)
  from ok have "dollar (fits ''dddd-dd-ddTdd:dd:dd.dddZ'') s"
    by (simp add: ts_ok_def ts_re_def)
  then show ?thesis
    using len by (auto simp: dollar_def dest: fits_length)
qed

section \<open>Instants\<close>

datatype py_datetime = Naive int | Aware int

definition v_aware_datetime :: "(string \<Rightarrow> py_error) \<Rightarrow> py_datetime \<Rightarrow> string \<Rightarrow> int result" where
  "v_aware_datetime exn d fld = (case d of Aware t \<Rightarrow> Inr t | Naive _ \<Rightarrow> Inl (exn fld))"

lemma v_aware_datetime_Inr [valid_simps]: "v_aware_datetime exn d fld = Inr t \<longleftrightarrow> d = Aware t"
  by (cases d) (auto simp: v_aware_datetime_def)

lemma v_aware_datetime_Aware [simp]: "v_aware_datetime exn (Aware t) fld = Inr t"
  by (simp add: v_aware_datetime_def)

type_synonym zones = "string \<Rightarrow> (int \<Rightarrow> int) option"

definition us_per_minute :: int where "us_per_minute = 60000000"

definition local_us :: "(int \<Rightarrow> int) \<Rightarrow> int \<Rightarrow> int" where
  \<comment> \<open>\<open>at.astimezone(zone)\<close> as wall-clock microseconds\<close>
  "local_us off t = t + off t"

definition local_ordinal :: "(int \<Rightarrow> int) \<Rightarrow> int \<Rightarrow> int" where
  \<comment> \<open>\<open>local.date()\<close>; 1970-01-01 has ordinal 719163\<close>
  "local_ordinal off t = local_us off t div (1440 * us_per_minute) + 719163"

definition local_minute :: "(int \<Rightarrow> int) \<Rightarrow> int \<Rightarrow> int" where
  \<comment> \<open>\<open>local.hour * 60 + local.minute\<close>\<close>
  "local_minute off t = (local_us off t div us_per_minute) mod 1440"

definition local_weekday :: "(int \<Rightarrow> int) \<Rightarrow> int \<Rightarrow> int" where
  \<comment> \<open>\<open>local.weekday()\<close>: Monday is 0\<close>
  "local_weekday off t = (local_ordinal off t + 6) mod 7"

lemma local_minute_bounds [simp]: "0 \<le> local_minute off t" "local_minute off t < 1440"
  by (simp_all add: local_minute_def)

lemma local_weekday_bounds [simp]: "0 \<le> local_weekday off t" "local_weekday off t < 7"
  by (simp_all add: local_weekday_def)

end
