(* ===== verification/Selection_Types.thy ===== *)
theory Selection_Types
  imports Py_Time
begin

text \<open>
  selection_types.py, first half: identities and capacity scopes, the six-dimension
  capability minima, the nine hard constraints, task requirements and task profiles.
\<close>

abbreviation sel_exn :: "string \<Rightarrow> py_error" where
  "sel_exn \<equiv> SelectionContractValidationError"

section \<open>Frozen value sets\<close>

datatype task_level = L0 | L1 | L2 | L3 | L4 | L5

fun level_str :: "task_level \<Rightarrow> string" where
  "level_str L0 = ''L0''" | "level_str L1 = ''L1''" | "level_str L2 = ''L2''"
| "level_str L3 = ''L3''" | "level_str L4 = ''L4''" | "level_str L5 = ''L5''"

definition TASK_LEVELS :: "task_level list" where
  "TASK_LEVELS = [L0, L1, L2, L3, L4, L5]"

fun level_index :: "task_level \<Rightarrow> nat" where
  \<comment> \<open>\<open>TASK_LEVELS.index(level)\<close>\<close>
  "level_index L0 = 0" | "level_index L1 = 1" | "level_index L2 = 2"
| "level_index L3 = 3" | "level_index L4 = 4" | "level_index L5 = 5"

datatype reasoning_effort = Eff_none | Eff_low | Eff_medium | Eff_high | Eff_xhigh | Eff_max | Eff_ultra

fun effort_str :: "reasoning_effort \<Rightarrow> string" where
  "effort_str Eff_none = ''none''"
| "effort_str Eff_low = ''low''"
| "effort_str Eff_medium = ''medium''"
| "effort_str Eff_high = ''high''"
| "effort_str Eff_xhigh = ''xhigh''"
| "effort_str Eff_max = ''max''"
| "effort_str Eff_ultra = ''ultra''"

definition REASONING_EFFORTS :: "reasoning_effort list" where
  "REASONING_EFFORTS = [Eff_none, Eff_low, Eff_medium, Eff_high, Eff_xhigh, Eff_max, Eff_ultra]"

fun effort_index :: "reasoning_effort \<Rightarrow> int" where
  "effort_index Eff_none = 0"
| "effort_index Eff_low = 1"
| "effort_index Eff_medium = 2"
| "effort_index Eff_high = 3"
| "effort_index Eff_xhigh = 4"
| "effort_index Eff_max = 5"
| "effort_index Eff_ultra = 6"

datatype confidence = Conf_low | Conf_medium | Conf_high

fun confidence_str :: "confidence \<Rightarrow> string" where
  "confidence_str Conf_low = ''low''"
| "confidence_str Conf_medium = ''medium''"
| "confidence_str Conf_high = ''high''"

definition CONFIDENCE_VALUES :: "confidence list" where
  "CONFIDENCE_VALUES = [Conf_low, Conf_medium, Conf_high]"

interpretation level_vocab: vocabulary level_str TASK_LEVELS
  by (rule vocabularyI, simp add: TASK_LEVELS_def, case_tac x, simp_all add: TASK_LEVELS_def)

interpretation effort_vocab: vocabulary effort_str REASONING_EFFORTS
  by (rule vocabularyI, simp add: REASONING_EFFORTS_def, case_tac x, simp_all add: REASONING_EFFORTS_def)

interpretation confidence_vocab: vocabulary confidence_str CONFIDENCE_VALUES
  by (rule vocabularyI, simp add: CONFIDENCE_VALUES_def, case_tac x, simp_all add: CONFIDENCE_VALUES_def)

lemma level_index_inject [simp]: "level_index a = level_index b \<longleftrightarrow> a = b"
  by (cases a; cases b; simp)

lemma effort_index_inject [simp]: "effort_index a = effort_index b \<longleftrightarrow> a = b"
  by (cases a; cases b; simp)

instantiation task_level :: linorder
begin

definition less_eq_task_level :: "task_level \<Rightarrow> task_level \<Rightarrow> bool" where
  "less_eq_task_level a b \<longleftrightarrow> level_index a \<le> level_index b"

definition less_task_level :: "task_level \<Rightarrow> task_level \<Rightarrow> bool" where
  "less_task_level a b \<longleftrightarrow> level_index a < level_index b"

instance
  by intro_classes (auto simp: less_eq_task_level_def less_task_level_def)

end

definition v_rating :: "pyval \<Rightarrow> string \<Rightarrow> int result" where
  \<comment> \<open>an ordinal rating between MIN_RATING = 1 and MAX_RATING = 5\<close>
  "v_rating v fld = v_int sel_exn (Some 1) (Some 5) v fld"

definition rating_ok :: "int \<Rightarrow> bool" where
  "rating_ok n = (1 \<le> n \<and> n \<le> 5)"

lemma v_rating_Inr [valid_simps]: "v_rating v fld = Inr n \<longleftrightarrow> v = PInt n \<and> rating_ok n"
  by (auto simp: v_rating_def valid_simps rating_ok_def)

lemma v_opt_rating [valid_simps]:
  "v_opt v_rating (opt_py PInt x) fld = Inr y \<longleftrightarrow> y = x \<and> pred_option rating_ok x"
  by (rule v_opt_num) (auto simp: valid_simps)

definition optional_bool_field :: "pymap \<Rightarrow> string \<Rightarrow> string \<Rightarrow> bool result" where
  "optional_bool_field d key label =
     (if \<not> py_has d key then Inr False
      else v_item d key (v_bool sel_exn) (label @ ''.'' @ key))"

section \<open>Identity primitives\<close>

datatype model_ref = ModelRef (mr_provider: string) (mr_model: string)

datatype model_identity = ModelIdentity (mi_provider: string) (mi_model: string) (mi_variant: string)

datatype capacity_scope_ref = CapacityScopeRef (cs_provider: string) (cs_scope_id: string)

definition scope_key :: "capacity_scope_ref \<Rightarrow> string \<times> string" where
  "scope_key s = (cs_provider s, cs_scope_id s)"

definition identity_key :: "model_identity \<Rightarrow> string \<times> string \<times> string" where
  "identity_key i = (mi_provider i, mi_model i, mi_variant i)"

lemma scope_key_inject [simp]: "scope_key a = scope_key b \<longleftrightarrow> a = b"
  by (cases a; cases b) (simp add: scope_key_def)

lemma identity_key_inject [simp]: "identity_key a = identity_key b \<longleftrightarrow> a = b"
  by (cases a; cases b) (simp add: identity_key_def)

text \<open>Both are ordered by their key tuples, the order of every canonical serialisation.\<close>

instantiation capacity_scope_ref :: linorder
begin

definition less_eq_capacity_scope_ref :: "capacity_scope_ref \<Rightarrow> capacity_scope_ref \<Rightarrow> bool" where
  "less_eq_capacity_scope_ref a b \<longleftrightarrow> scope_key a \<le> scope_key b"

definition less_capacity_scope_ref :: "capacity_scope_ref \<Rightarrow> capacity_scope_ref \<Rightarrow> bool" where
  "less_capacity_scope_ref a b \<longleftrightarrow> scope_key a < scope_key b"

instance
  by intro_classes
    (auto simp: less_eq_capacity_scope_ref_def less_capacity_scope_ref_def order.strict_iff_order)

end

instantiation model_identity :: linorder
begin

definition less_eq_model_identity :: "model_identity \<Rightarrow> model_identity \<Rightarrow> bool" where
  "less_eq_model_identity a b \<longleftrightarrow> identity_key a \<le> identity_key b"

definition less_model_identity :: "model_identity \<Rightarrow> model_identity \<Rightarrow> bool" where
  "less_model_identity a b \<longleftrightarrow> identity_key a < identity_key b"

instance
  by intro_classes
    (auto simp: less_eq_model_identity_def less_model_identity_def order.strict_iff_order)

end

definition mk_model_ref :: "model_ref \<Rightarrow> model_ref result" where
  "mk_model_ref r =
     bind_r (v_safe_id sel_exn (PStr (mr_provider r)) ''model_ref.provider'') (\<lambda>_.
     bind_r (v_safe_id sel_exn (PStr (mr_model r)) ''model_ref.model'') (\<lambda>_. Inr r))"

definition model_ref_from_dict :: "pyval \<Rightarrow> model_ref result" where
  "model_ref_from_dict d =
     bind_r (v_exact_shape sel_exn d [''provider'', ''model''] [] ''model_ref'') (\<lambda>dd.
     bind_r (v_item dd ''provider'' (v_safe_id sel_exn) ''model_ref.provider'') (\<lambda>p.
     bind_r (v_item dd ''model'' (v_safe_id sel_exn) ''model_ref.model'') (\<lambda>m.
       mk_model_ref (ModelRef p m))))"

definition model_ref_to_dict :: "model_ref \<Rightarrow> pyval" where
  "model_ref_to_dict r =
     obj [(''provider'', Some (PStr (mr_provider r))), (''model'', Some (PStr (mr_model r)))]"

definition mk_identity :: "model_identity \<Rightarrow> model_identity result" where
  "mk_identity i =
     bind_r (v_safe_id sel_exn (PStr (mi_provider i)) ''model_identity.provider'') (\<lambda>_.
     bind_r (v_safe_id sel_exn (PStr (mi_model i)) ''model_identity.model'') (\<lambda>_.
     bind_r (v_safe_id sel_exn (PStr (mi_variant i)) ''model_identity.variant'') (\<lambda>_. Inr i)))"

definition identity_from_dict :: "pyval \<Rightarrow> model_identity result" where
  "identity_from_dict d =
     bind_r (v_exact_shape sel_exn d [''provider'', ''model'', ''variant''] [] ''model_identity'') (\<lambda>dd.
     bind_r (v_item dd ''provider'' (v_safe_id sel_exn) ''model_identity.provider'') (\<lambda>p.
     bind_r (v_item dd ''model'' (v_safe_id sel_exn) ''model_identity.model'') (\<lambda>m.
     bind_r (v_item dd ''variant'' (v_safe_id sel_exn) ''model_identity.variant'') (\<lambda>v.
       mk_identity (ModelIdentity p m v)))))"

definition identity_to_dict :: "model_identity \<Rightarrow> pyval" where
  "identity_to_dict i =
     obj [(''provider'', Some (PStr (mi_provider i))), (''model'', Some (PStr (mi_model i))),
          (''variant'', Some (PStr (mi_variant i)))]"

definition mk_scope :: "capacity_scope_ref \<Rightarrow> capacity_scope_ref result" where
  "mk_scope s =
     bind_r (v_safe_id sel_exn (PStr (cs_provider s)) ''capacity_scope_ref.provider'') (\<lambda>_.
     bind_r (v_safe_id sel_exn (PStr (cs_scope_id s)) ''capacity_scope_ref.scope_id'') (\<lambda>_. Inr s))"

definition scope_from_dict :: "pyval \<Rightarrow> capacity_scope_ref result" where
  "scope_from_dict d =
     bind_r (v_exact_shape sel_exn d [''provider'', ''scope_id''] [] ''capacity_scope_ref'') (\<lambda>dd.
     bind_r (v_item dd ''provider'' (v_safe_id sel_exn) ''capacity_scope_ref.provider'') (\<lambda>p.
     bind_r (v_item dd ''scope_id'' (v_safe_id sel_exn) ''capacity_scope_ref.scope_id'') (\<lambda>s.
       mk_scope (CapacityScopeRef p s))))"

definition scope_to_dict :: "capacity_scope_ref \<Rightarrow> pyval" where
  "scope_to_dict s =
     obj [(''provider'', Some (PStr (cs_provider s))), (''scope_id'', Some (PStr (cs_scope_id s)))]"

definition valid_model_ref :: "model_ref \<Rightarrow> bool" where
  "valid_model_ref r = (safe_id_match (mr_provider r) \<and> safe_id_match (mr_model r))"

definition valid_identity :: "model_identity \<Rightarrow> bool" where
  "valid_identity i =
     (safe_id_match (mi_provider i) \<and> safe_id_match (mi_model i) \<and> safe_id_match (mi_variant i))"

definition valid_scope :: "capacity_scope_ref \<Rightarrow> bool" where
  "valid_scope s = (safe_id_match (cs_provider s) \<and> safe_id_match (cs_scope_id s))"

lemma mk_model_ref_Inr [valid_simps]: "mk_model_ref r = Inr r' \<longleftrightarrow> r' = r \<and> valid_model_ref r"
  by (auto simp: mk_model_ref_def valid_model_ref_def result_simps valid_simps)

lemma mk_identity_Inr [valid_simps]: "mk_identity i = Inr i' \<longleftrightarrow> i' = i \<and> valid_identity i"
  by (auto simp: mk_identity_def valid_identity_def result_simps valid_simps)

lemma mk_scope_Inr [valid_simps]: "mk_scope s = Inr s' \<longleftrightarrow> s' = s \<and> valid_scope s"
  by (auto simp: mk_scope_def valid_scope_def result_simps valid_simps)

lemma to_dict_not_None [simp]:
  "model_ref_to_dict r \<noteq> PNone" "identity_to_dict i \<noteq> PNone" "scope_to_dict s \<noteq> PNone"
  by (simp_all add: model_ref_to_dict_def identity_to_dict_def scope_to_dict_def)

interpretation model_ref_contract:
  contract "\<lambda>_. True" valid_model_ref mk_model_ref model_ref_from_dict model_ref_to_dict
proof unfold_locales
  fix r d
  show "model_ref_from_dict d = Inr r \<Longrightarrow> valid_model_ref r"
    by (auto simp: model_ref_from_dict_def result_simps mk_model_ref_Inr)
  show "valid_model_ref r \<Longrightarrow> model_ref_from_dict (model_ref_to_dict r) = Inr r"
    by (cases r) (auto simp: model_ref_from_dict_def model_ref_to_dict_def shape_simps
        result_simps valid_simps valid_model_ref_def)
qed (auto simp: valid_simps)

interpretation identity_contract:
  contract "\<lambda>_. True" valid_identity mk_identity identity_from_dict identity_to_dict
proof unfold_locales
  fix r d
  show "identity_from_dict d = Inr r \<Longrightarrow> valid_identity r"
    by (auto simp: identity_from_dict_def result_simps mk_identity_Inr)
  show "valid_identity r \<Longrightarrow> identity_from_dict (identity_to_dict r) = Inr r"
    by (cases r) (auto simp: identity_from_dict_def identity_to_dict_def shape_simps
        result_simps valid_simps valid_identity_def)
qed (auto simp: valid_simps)

interpretation scope_contract:
  contract "\<lambda>_. True" valid_scope mk_scope scope_from_dict scope_to_dict
proof unfold_locales
  fix r d
  show "scope_from_dict d = Inr r \<Longrightarrow> valid_scope r"
    by (auto simp: scope_from_dict_def result_simps mk_scope_Inr)
  show "valid_scope r \<Longrightarrow> scope_from_dict (scope_to_dict r) = Inr r"
    by (cases r) (auto simp: scope_from_dict_def scope_to_dict_def shape_simps
        result_simps valid_simps valid_scope_def)
qed (auto simp: valid_simps)

section \<open>Task requirements\<close>

record capability_minima =
  cm_reasoning :: "int option"
  cm_coding :: "int option"
  cm_scientific_methodological :: "int option"
  cm_writing_editorial :: "int option"
  cm_tool_use :: "int option"
  cm_translation_multilingual :: "int option"

definition CAPABILITY_DIMENSIONS :: "string list" where
  "CAPABILITY_DIMENSIONS = [''reasoning'', ''coding'', ''scientific_methodological'',
     ''writing_editorial'', ''tool_use'', ''translation_multilingual'']"

definition mk_minima :: "capability_minima \<Rightarrow> capability_minima result" where
  "mk_minima m =
     bind_r (v_opt v_rating (opt_py PInt (cm_reasoning m)) ''capability_minima.reasoning'') (\<lambda>_.
     bind_r (v_opt v_rating (opt_py PInt (cm_coding m)) ''capability_minima.coding'') (\<lambda>_.
     bind_r (v_opt v_rating (opt_py PInt (cm_scientific_methodological m))
               ''capability_minima.scientific_methodological'') (\<lambda>_.
     bind_r (v_opt v_rating (opt_py PInt (cm_writing_editorial m))
               ''capability_minima.writing_editorial'') (\<lambda>_.
     bind_r (v_opt v_rating (opt_py PInt (cm_tool_use m)) ''capability_minima.tool_use'') (\<lambda>_.
     bind_r (v_opt v_rating (opt_py PInt (cm_translation_multilingual m))
               ''capability_minima.translation_multilingual'') (\<lambda>_. Inr m))))))"

definition minima_from_dict :: "pyval \<Rightarrow> capability_minima result" where
  "minima_from_dict d =
     bind_r (v_exact_shape sel_exn d [] CAPABILITY_DIMENSIONS ''capability_minima'') (\<lambda>dd.
     bind_r (v_opt v_rating (py_get dd ''reasoning'') ''capability_minima.reasoning'') (\<lambda>a.
     bind_r (v_opt v_rating (py_get dd ''coding'') ''capability_minima.coding'') (\<lambda>b.
     bind_r (v_opt v_rating (py_get dd ''scientific_methodological'')
               ''capability_minima.scientific_methodological'') (\<lambda>c.
     bind_r (v_opt v_rating (py_get dd ''writing_editorial'')
               ''capability_minima.writing_editorial'') (\<lambda>e.
     bind_r (v_opt v_rating (py_get dd ''tool_use'') ''capability_minima.tool_use'') (\<lambda>f.
     bind_r (v_opt v_rating (py_get dd ''translation_multilingual'')
               ''capability_minima.translation_multilingual'') (\<lambda>g.
       mk_minima \<lparr>cm_reasoning = a, cm_coding = b, cm_scientific_methodological = c,
         cm_writing_editorial = e, cm_tool_use = f, cm_translation_multilingual = g\<rparr>)))))))"

definition minima_to_dict :: "capability_minima \<Rightarrow> pyval" where
  "minima_to_dict m =
     obj [(''reasoning'', map_option PInt (cm_reasoning m)),
          (''coding'', map_option PInt (cm_coding m)),
          (''scientific_methodological'', map_option PInt (cm_scientific_methodological m)),
          (''writing_editorial'', map_option PInt (cm_writing_editorial m)),
          (''tool_use'', map_option PInt (cm_tool_use m)),
          (''translation_multilingual'', map_option PInt (cm_translation_multilingual m))]"

record hard_constraints =
  hc_minimum_input_context_tokens :: "int option"
  hc_minimum_output_tokens :: "int option"
  hc_requires_tool_use :: bool
  hc_requires_vision :: bool
  hc_requires_reasoning_mode :: bool
  hc_required_provider :: "string option"
  hc_required_model :: "model_ref option"
  hc_required_variant :: "string option"
  hc_privacy_constraint :: "string option"

definition HARD_CONSTRAINT_FIELDS :: "string list" where
  "HARD_CONSTRAINT_FIELDS = [''minimum_input_context_tokens'', ''minimum_output_tokens'',
     ''requires_tool_use'', ''requires_vision'', ''requires_reasoning_mode'', ''required_provider'',
     ''required_model'', ''required_variant'', ''privacy_constraint'']"

definition mk_hard_constraints :: "hard_constraints \<Rightarrow> hard_constraints result" where
  "mk_hard_constraints h =
     bind_r (v_opt (v_int sel_exn (Some 1) None) (opt_py PInt (hc_minimum_input_context_tokens h))
               ''hard_constraints.minimum_input_context_tokens'') (\<lambda>_.
     bind_r (v_opt (v_int sel_exn (Some 1) None) (opt_py PInt (hc_minimum_output_tokens h))
               ''hard_constraints.minimum_output_tokens'') (\<lambda>_.
     bind_r (v_opt (v_safe_id sel_exn) (opt_py PStr (hc_required_provider h))
               ''hard_constraints.required_provider'') (\<lambda>_.
     bind_r (v_opt (v_safe_id sel_exn) (opt_py PStr (hc_required_variant h))
               ''hard_constraints.required_variant'') (\<lambda>_.
     bind_r (v_opt (v_safe_id sel_exn) (opt_py PStr (hc_privacy_constraint h))
               ''hard_constraints.privacy_constraint'') (\<lambda>_.
       case (hc_required_provider h, hc_required_model h) of
         (Some p, Some m) \<Rightarrow> if mr_provider m \<noteq> p then Inl (sel_exn ''hard_constraints'') else Inr h
       | _ \<Rightarrow> Inr h)))))"

definition hard_constraints_from_dict :: "pyval \<Rightarrow> hard_constraints result" where
  "hard_constraints_from_dict d =
     bind_r (v_exact_shape sel_exn d [] HARD_CONSTRAINT_FIELDS ''hard_constraints'') (\<lambda>dd.
     bind_r (v_opt (\<lambda>v _. model_ref_from_dict v) (py_get dd ''required_model'')
               ''hard_constraints.required_model'') (\<lambda>required_model.
     bind_r (v_opt (v_int sel_exn (Some 1) None) (py_get dd ''minimum_input_context_tokens'')
               ''hard_constraints.minimum_input_context_tokens'') (\<lambda>min_in.
     bind_r (v_opt (v_int sel_exn (Some 1) None) (py_get dd ''minimum_output_tokens'')
               ''hard_constraints.minimum_output_tokens'') (\<lambda>min_out.
     bind_r (optional_bool_field dd ''requires_tool_use'' ''hard_constraints'') (\<lambda>tool.
     bind_r (optional_bool_field dd ''requires_vision'' ''hard_constraints'') (\<lambda>vision.
     bind_r (optional_bool_field dd ''requires_reasoning_mode'' ''hard_constraints'') (\<lambda>reason.
     bind_r (v_opt (v_safe_id sel_exn) (py_get dd ''required_provider'')
               ''hard_constraints.required_provider'') (\<lambda>provider.
     bind_r (v_opt (v_safe_id sel_exn) (py_get dd ''required_variant'')
               ''hard_constraints.required_variant'') (\<lambda>variant.
     bind_r (v_opt (v_safe_id sel_exn) (py_get dd ''privacy_constraint'')
               ''hard_constraints.privacy_constraint'') (\<lambda>privacy.
       mk_hard_constraints \<lparr>hc_minimum_input_context_tokens = min_in,
         hc_minimum_output_tokens = min_out, hc_requires_tool_use = tool,
         hc_requires_vision = vision, hc_requires_reasoning_mode = reason,
         hc_required_provider = provider, hc_required_model = required_model,
         hc_required_variant = variant, hc_privacy_constraint = privacy\<rparr>))))))))))"

definition true_flag :: "bool \<Rightarrow> pyval option" where
  \<comment> \<open>a \<open>requires_*\<close> flag is written only when it is set\<close>
  "true_flag b = (if b then Some (PBool True) else None)"

definition hard_constraints_to_dict :: "hard_constraints \<Rightarrow> pyval" where
  "hard_constraints_to_dict h =
     obj [(''minimum_input_context_tokens'', map_option PInt (hc_minimum_input_context_tokens h)),
          (''minimum_output_tokens'', map_option PInt (hc_minimum_output_tokens h)),
          (''requires_tool_use'', true_flag (hc_requires_tool_use h)),
          (''requires_vision'', true_flag (hc_requires_vision h)),
          (''requires_reasoning_mode'', true_flag (hc_requires_reasoning_mode h)),
          (''required_provider'', map_option PStr (hc_required_provider h)),
          (''required_model'', map_option model_ref_to_dict (hc_required_model h)),
          (''required_variant'', map_option PStr (hc_required_variant h)),
          (''privacy_constraint'', map_option PStr (hc_privacy_constraint h))]"

record task_requirement =
  tr_task_level :: task_level
  tr_capability_minima :: capability_minima
  tr_hard_constraints :: hard_constraints

definition mk_requirement :: "task_requirement \<Rightarrow> task_requirement result" where
  \<comment> \<open>level and instance checks are the typing\<close>
  "mk_requirement r = Inr r"

definition requirement_from_dict :: "pyval \<Rightarrow> task_requirement result" where
  "requirement_from_dict d =
     bind_r (v_exact_shape sel_exn d [''task_level'', ''capability_minima'', ''hard_constraints''] []
               ''task_requirement'') (\<lambda>dd.
     bind_r (v_item dd ''task_level'' (v_enum sel_exn level_str TASK_LEVELS)
               ''task_requirement.task_level'') (\<lambda>level.
     bind_r (v_item dd ''capability_minima'' (\<lambda>v _. minima_from_dict v) '''') (\<lambda>minima.
     bind_r (v_item dd ''hard_constraints'' (\<lambda>v _. hard_constraints_from_dict v) '''') (\<lambda>hard.
       mk_requirement \<lparr>tr_task_level = level, tr_capability_minima = minima,
         tr_hard_constraints = hard\<rparr>))))"

definition requirement_to_dict :: "task_requirement \<Rightarrow> pyval" where
  "requirement_to_dict r =
     obj [(''task_level'', Some (PStr (level_str (tr_task_level r)))),
          (''capability_minima'', Some (minima_to_dict (tr_capability_minima r))),
          (''hard_constraints'', Some (hard_constraints_to_dict (tr_hard_constraints r)))]"

section \<open>Task profiles\<close>

record task_profile_definition =
  tp_profile_id :: string
  tp_requirement :: task_requirement

definition mk_profile :: "task_profile_definition \<Rightarrow> task_profile_definition result" where
  "mk_profile p =
     bind_r (v_safe_id sel_exn (PStr (tp_profile_id p)) ''task_profile_definition.profile_id'')
       (\<lambda>_. Inr p)"

definition profile_from_dict :: "pyval \<Rightarrow> task_profile_definition result" where
  "profile_from_dict d =
     bind_r (v_exact_shape sel_exn d [''profile_id'', ''requirement''] [] ''task_profile_definition'') (\<lambda>dd.
     bind_r (v_item dd ''profile_id'' (v_safe_id sel_exn) ''task_profile_definition.profile_id'') (\<lambda>pid.
     bind_r (v_item dd ''requirement'' (\<lambda>v _. requirement_from_dict v) '''') (\<lambda>req.
       mk_profile \<lparr>tp_profile_id = pid, tp_requirement = req\<rparr>)))"

definition profile_to_dict :: "task_profile_definition \<Rightarrow> pyval" where
  "profile_to_dict p =
     obj [(''profile_id'', Some (PStr (tp_profile_id p))),
          (''requirement'', Some (requirement_to_dict (tp_requirement p)))]"

datatype task_profile_catalog = TaskProfileCatalog (tpc_definitions: "task_profile_definition list")

definition mk_profile_catalog :: "task_profile_catalog \<Rightarrow> task_profile_catalog result" where
  "mk_profile_catalog c =
     bind_r (seen_check (sel_exn ''task_profile_catalog.definitions'') {}
               (map tp_profile_id (tpc_definitions c))) (\<lambda>_.
       Inr (TaskProfileCatalog (sort_key tp_profile_id (tpc_definitions c))))"

fun resolve_in :: "task_profile_definition list \<Rightarrow> string \<Rightarrow> task_requirement result" where
  "resolve_in [] pid = Inl (sel_exn ''task_profile_catalog.resolve'')"
| "resolve_in (d # ds) pid = (if tp_profile_id d = pid then Inr (tp_requirement d) else resolve_in ds pid)"

definition resolve :: "task_profile_catalog \<Rightarrow> string \<Rightarrow> task_requirement result" where
  "resolve c pid = resolve_in (tpc_definitions c) pid"

definition profile_catalog_from_dict :: "pyval \<Rightarrow> task_profile_catalog result" where
  "profile_catalog_from_dict d =
     bind_r (v_exact_shape sel_exn d [''definitions''] [] ''task_profile_catalog'') (\<lambda>dd.
     bind_r (v_item dd ''definitions'' (v_list sel_exn) ''task_profile_catalog.definitions'') (\<lambda>raw.
     bind_r (traverse profile_from_dict raw) (\<lambda>defs.
       mk_profile_catalog (TaskProfileCatalog defs))))"

definition profile_catalog_to_dict :: "task_profile_catalog \<Rightarrow> pyval" where
  "profile_catalog_to_dict c =
     obj [(''definitions'',
       Some (PList (map profile_to_dict (sort_key tp_profile_id (tpc_definitions c)))))]"

section \<open>Their class invariants and serialisation contracts\<close>

definition valid_minima :: "capability_minima \<Rightarrow> bool" where
  "valid_minima m =
     (pred_option rating_ok (cm_reasoning m) \<and> pred_option rating_ok (cm_coding m)
      \<and> pred_option rating_ok (cm_scientific_methodological m)
      \<and> pred_option rating_ok (cm_writing_editorial m) \<and> pred_option rating_ok (cm_tool_use m)
      \<and> pred_option rating_ok (cm_translation_multilingual m))"

definition valid_hard_constraints :: "hard_constraints \<Rightarrow> bool" where
  "valid_hard_constraints h =
     (pred_option (\<lambda>n. 1 \<le> n) (hc_minimum_input_context_tokens h)
      \<and> pred_option (\<lambda>n. 1 \<le> n) (hc_minimum_output_tokens h)
      \<and> pred_option safe_id_match (hc_required_provider h)
      \<and> pred_option valid_model_ref (hc_required_model h)
      \<and> pred_option safe_id_match (hc_required_variant h)
      \<and> pred_option safe_id_match (hc_privacy_constraint h)
      \<and> pred_option (\<lambda>p. pred_option (\<lambda>m. mr_provider m = p) (hc_required_model h))
          (hc_required_provider h))"

definition valid_requirement :: "task_requirement \<Rightarrow> bool" where
  "valid_requirement r =
     (valid_minima (tr_capability_minima r) \<and> valid_hard_constraints (tr_hard_constraints r))"

definition valid_profile :: "task_profile_definition \<Rightarrow> bool" where
  "valid_profile p = (safe_id_match (tp_profile_id p) \<and> valid_requirement (tp_requirement p))"

definition valid_profile_catalog :: "task_profile_catalog \<Rightarrow> bool" where
  "valid_profile_catalog c =
     (list_all valid_profile (tpc_definitions c) \<and> distinct (map tp_profile_id (tpc_definitions c))
      \<and> sorted (map tp_profile_id (tpc_definitions c)))"

lemma mk_minima_Inr [valid_simps]: "mk_minima m = Inr m' \<longleftrightarrow> m' = m \<and> valid_minima m"
  by (auto simp: mk_minima_def valid_minima_def result_simps valid_simps)

lemma mk_hard_constraints_Inr [valid_simps]:
  "pred_option valid_model_ref (hc_required_model h) \<Longrightarrow>
   mk_hard_constraints h = Inr h' \<longleftrightarrow> h' = h \<and> valid_hard_constraints h"
  by (cases "hc_required_provider h"; cases "hc_required_model h")
    (auto simp: mk_hard_constraints_def valid_hard_constraints_def result_simps valid_simps)

lemma mk_profile_Inr [valid_simps]:
  "valid_requirement (tp_requirement p) \<Longrightarrow> mk_profile p = Inr p' \<longleftrightarrow> p' = p \<and> valid_profile p"
  by (auto simp: mk_profile_def valid_profile_def result_simps valid_simps)

lemma mk_profile_catalog_Inr [valid_simps]:
  "mk_profile_catalog c = Inr c' \<longleftrightarrow>
     distinct (map tp_profile_id (tpc_definitions c))
     \<and> c' = TaskProfileCatalog (sort_key tp_profile_id (tpc_definitions c))"
  by (auto simp: mk_profile_catalog_def result_simps)

lemma optional_bool_field_flag [valid_simps]:
  "map_of m k = true_flag b \<Longrightarrow> optional_bool_field m k l = Inr b' \<longleftrightarrow> b' = b"
  by (cases b) (auto simp: optional_bool_field_def py_has_def true_flag_def v_item_def py_item_def v_bool_def)

interpretation minima_contract:
  contract "\<lambda>_. True" valid_minima mk_minima minima_from_dict minima_to_dict
proof unfold_locales
  fix r d
  show "minima_from_dict d = Inr r \<Longrightarrow> valid_minima r"
    by (auto simp: minima_from_dict_def result_simps mk_minima_Inr)
  show "valid_minima r \<Longrightarrow> minima_from_dict (minima_to_dict r) = Inr r"
    by (cases r) (auto simp: minima_from_dict_def minima_to_dict_def CAPABILITY_DIMENSIONS_def
        shape_simps result_simps valid_simps valid_minima_def)
qed (auto simp: valid_simps)

interpretation hard_constraints_contract:
  contract "\<lambda>h. pred_option valid_model_ref (hc_required_model h)" valid_hard_constraints
    mk_hard_constraints hard_constraints_from_dict hard_constraints_to_dict
proof unfold_locales
  fix r d
  show "hard_constraints_from_dict d = Inr r \<Longrightarrow> valid_hard_constraints r"
    by (auto simp: hard_constraints_from_dict_def result_simps mk_hard_constraints_Inr
        dest!: model_ref_contract.opt_ok)
  show "valid_hard_constraints r \<Longrightarrow> hard_constraints_from_dict (hard_constraints_to_dict r) = Inr r"
    by (cases r) (auto simp: hard_constraints_from_dict_def hard_constraints_to_dict_def
        HARD_CONSTRAINT_FIELDS_def shape_simps result_simps valid_simps valid_hard_constraints_def
        model_ref_contract.opt_from_to)
  show "valid_hard_constraints r \<Longrightarrow> mk_hard_constraints r = Inr r"
    by (simp add: valid_hard_constraints_def mk_hard_constraints_Inr)
qed (simp_all add: mk_hard_constraints_Inr)

interpretation requirement_contract:
  contract valid_requirement valid_requirement mk_requirement requirement_from_dict requirement_to_dict
proof unfold_locales
  fix r d
  show "requirement_from_dict d = Inr r \<Longrightarrow> valid_requirement r"
    by (auto simp: requirement_from_dict_def mk_requirement_def bind_r_Inr_iff valid_requirement_def
        dest!: minima_contract.item_ok hard_constraints_contract.item_ok)
  show "valid_requirement r \<Longrightarrow> requirement_from_dict (requirement_to_dict r) = Inr r"
    by (cases r) (auto simp: requirement_from_dict_def requirement_to_dict_def mk_requirement_def
        shape_simps result_simps valid_simps valid_requirement_def level_vocab.v_enum_str
        minima_contract.from_to hard_constraints_contract.from_to)
qed (simp_all add: mk_requirement_def)

interpretation profile_contract:
  contract "\<lambda>p. valid_requirement (tp_requirement p)" valid_profile mk_profile profile_from_dict
    profile_to_dict
proof unfold_locales
  fix r d
  show "profile_from_dict d = Inr r \<Longrightarrow> valid_profile r"
    by (auto simp: profile_from_dict_def bind_r_Inr_iff mk_profile_Inr dest!: requirement_contract.item_ok)
  show "valid_profile r \<Longrightarrow> profile_from_dict (profile_to_dict r) = Inr r"
    by (cases r) (auto simp: profile_from_dict_def profile_to_dict_def shape_simps result_simps
        valid_simps valid_profile_def requirement_contract.from_to)
qed (simp_all add: mk_profile_Inr valid_profile_def)

lemma catalog_of_sorted:
  "distinct (map f xs) \<Longrightarrow> distinct (map f (sort_key (f :: 'a \<Rightarrow> 'b::linorder) xs))"
  by (simp add: distinct_map)

interpretation profile_catalog_contract:
  contract "\<lambda>c. list_all valid_profile (tpc_definitions c)" valid_profile_catalog mk_profile_catalog
    profile_catalog_from_dict profile_catalog_to_dict
proof unfold_locales
  fix r r' d
  show "list_all valid_profile (tpc_definitions r) \<Longrightarrow> mk_profile_catalog r = Inr r' \<Longrightarrow> valid_profile_catalog r'"
    by (auto simp: mk_profile_catalog_Inr valid_profile_catalog_def list_all_iff catalog_of_sorted)
  show "profile_catalog_from_dict d = Inr r \<Longrightarrow> valid_profile_catalog r"
    by (auto simp: profile_catalog_from_dict_def result_simps mk_profile_catalog_Inr
        valid_profile_catalog_def catalog_of_sorted list_all_iff
        dest!: profile_contract.list_ok)
  show "valid_profile_catalog r \<Longrightarrow> mk_profile_catalog r = Inr r"
    by (cases r) (simp add: mk_profile_catalog_Inr valid_profile_catalog_def)
  show "valid_profile_catalog r \<Longrightarrow> profile_catalog_from_dict (profile_catalog_to_dict r) = Inr r"
    by (cases r) (auto simp: profile_catalog_from_dict_def profile_catalog_to_dict_def shape_simps
        result_simps valid_simps valid_profile_catalog_def profile_contract.list_from_to)
qed

lemma resolve_in_Inr:
  "distinct (map tp_profile_id ds) \<Longrightarrow>
   resolve_in ds pid = Inr r \<longleftrightarrow> (\<exists>d \<in> set ds. tp_profile_id d = pid \<and> tp_requirement d = r)"
  by (induction ds) (auto simp: image_iff)

end
