(* ===== verification/Policy_Schedule.thy ===== *)
theory Policy_Schedule
  imports Selection_Types
begin

text \<open>
  policy.py, the weekly schedules: local wall times, IANA zone names, weekdays, the half-open
  weekly window with its cross-midnight form, inclusive campaign dates, availability targets and
  the two weekly rule classes. The two classes are the same code under two labels, so they share
  one record and differ in the label that opens their messages.
\<close>

section \<open>Local times, zones, weekdays\<close>

datatype weekday = Mon | Tue | Wed | Thu | Fri | Sat | Sun

fun weekday_str :: "weekday \<Rightarrow> string" where
  "weekday_str Mon = ''mon''" | "weekday_str Tue = ''tue''" | "weekday_str Wed = ''wed''"
| "weekday_str Thu = ''thu''" | "weekday_str Fri = ''fri''" | "weekday_str Sat = ''sat''"
| "weekday_str Sun = ''sun''"

definition WEEKDAYS :: "weekday list" where
  "WEEKDAYS = [Mon, Tue, Wed, Thu, Fri, Sat, Sun]"

fun weekday_index :: "weekday \<Rightarrow> int" where
  "weekday_index Mon = 0" | "weekday_index Tue = 1" | "weekday_index Wed = 2"
| "weekday_index Thu = 3" | "weekday_index Fri = 4" | "weekday_index Sat = 5"
| "weekday_index Sun = 6"

interpretation weekday_vocab: vocabulary weekday_str WEEKDAYS
  by (rule vocabularyI, simp add: WEEKDAYS_def, case_tac x, simp_all add: WEEKDAYS_def)

definition hm_grammar :: "string \<Rightarrow> bool" where
  "hm_grammar s =
     (fits ''dd:dd'' s
      \<and> (in_range (CHR ''0'') (CHR ''1'') (s ! 0)
         \<or> (s ! 0 = CHR ''2'' \<and> in_range (CHR ''0'') (CHR ''3'') (s ! 1)))
      \<and> in_range (CHR ''0'') (CHR ''5'') (s ! 3))"

definition hm_match :: "string \<Rightarrow> bool" where
  \<comment> \<open>\<^verbatim>\<open>_HM_RE = ^([01][0-9]|2[0-3]):([0-5][0-9])$\<close>\<close>
  "hm_match s = dollar hm_grammar s"

definition v_hm :: "pyval \<Rightarrow> string \<Rightarrow> string result" where
  "v_hm v fld = bind_r (v_str sel_exn v fld) (\<lambda>s. if hm_match s then Inr s else Inl (sel_exn fld))"

definition hm_value :: "string \<Rightarrow> int" where
  "hm_value s = digits_value (slice 0 2 s) * 60 + digits_value (slice 3 2 s)"

definition hm_minutes :: "string \<Rightarrow> int result" where
  "hm_minutes s = (if \<not> hm_match s then Inl (sel_exn ''local time'') else Inr (hm_value s))"

definition tz_first :: "char \<Rightarrow> bool" where
  "tz_first c = (in_range (CHR ''A'') (CHR ''Z'') c \<or> in_range (CHR ''a'') (CHR ''z'') c \<or> is_digit c)"

fun tz_scan :: "bool \<Rightarrow> string \<Rightarrow> bool" where
  \<comment> \<open>the flag says that a segment starts here\<close>
  "tz_scan st [] = (\<not> st)"
| "tz_scan st (c # cs) =
     (if st then tz_first c \<and> tz_scan False cs
      else if c = CHR ''/'' then tz_scan True cs
      else (tz_first c \<or> c \<in> {CHR ''_'', CHR ''+'', CHR ''-''}) \<and> tz_scan False cs)"

definition tz_match :: "string \<Rightarrow> bool" where
  \<comment> \<open>\<open>_TZ_KEY_RE\<close>: segments of name characters between slashes\<close>
  "tz_match s = dollar (tz_scan True) s"

definition v_timezone :: "zones \<Rightarrow> pyval \<Rightarrow> string \<Rightarrow> string result" where
  "v_timezone zs v fld =
     bind_r (v_str sel_exn v fld) (\<lambda>s.
       if \<not> tz_match s then Inl (sel_exn fld)
       else if zs s = None then Inl (sel_exn fld) else Inr s)"

definition zone_of :: "zones \<Rightarrow> string \<Rightarrow> (int \<Rightarrow> int) result" where
  "zone_of zs tz = (case zs tz of None \<Rightarrow> Inl (sel_exn ''time zone'') | Some off \<Rightarrow> Inr off)"

definition v_weekdays :: "weekday list \<Rightarrow> string \<Rightarrow> weekday list result" where
  "v_weekdays days fld =
     bind_r (seen_check (sel_exn fld) {} days) (\<lambda>_.
       if days = [] then Inl (sel_exn fld)
       else Inr (filter (\<lambda>d. d \<in> set days) WEEKDAYS))"

section \<open>The weekly window and the campaign dates\<close>

definition weekly_window_contains ::
  "zones \<Rightarrow> string \<Rightarrow> weekday list \<Rightarrow> string \<Rightarrow> string \<Rightarrow> int \<Rightarrow> bool result" where
  "weekly_window_contains zs tz weekdays start_local end_local at =
     bind_r (zone_of zs tz) (\<lambda>off.
     let minute_of_day = local_minute off at in
     bind_r (hm_minutes start_local) (\<lambda>start.
     bind_r (hm_minutes end_local) (\<lambda>fin.
     let day = WEEKDAYS ! nat (local_weekday off at);
         previous_day = WEEKDAYS ! nat ((local_weekday off at - 1) mod 7) in
     if start < fin then
       Inr (day \<in> set weekdays \<and> start \<le> minute_of_day \<and> minute_of_day < fin)
     else if day \<in> set weekdays \<and> minute_of_day \<ge> start then Inr True
     else Inr (previous_day \<in> set weekdays \<and> minute_of_day < fin))))"

definition parse_date :: "string \<Rightarrow> int result" where
  \<comment> \<open>\<open>date.fromisoformat\<close>, raising\<close>
  "parse_date s = (case date_fromisoformat s of None \<Rightarrow> Inl (ValueError ''date'') | Some d \<Rightarrow> Inr d)"

definition v_date_bounds :: "string option \<Rightarrow> string option \<Rightarrow> string \<Rightarrow> unit result" where
  "v_date_bounds start_date end_date label =
     bind_r (v_opt (v_date sel_exn) (opt_py PStr start_date) (label @ ''.start_date'')) (\<lambda>_.
     bind_r (v_opt (v_date sel_exn) (opt_py PStr end_date) (label @ ''.end_date'')) (\<lambda>_.
       case (start_date, end_date) of
         (Some s, Some e) \<Rightarrow>
           bind_r (parse_date s) (\<lambda>sd. bind_r (parse_date e) (\<lambda>ed.
             if sd > ed then Inl (sel_exn label) else Inr ()))
       | _ \<Rightarrow> Inr ()))"

definition date_bounds_contain ::
  "zones \<Rightarrow> string \<Rightarrow> string option \<Rightarrow> string option \<Rightarrow> int \<Rightarrow> bool result" where
  "date_bounds_contain zs tz start_date end_date at =
     (if start_date = None \<and> end_date = None then Inr True
      else bind_r (zone_of zs tz) (\<lambda>off.
        let local_date = local_ordinal off at in
        bind_r (case start_date of None \<Rightarrow> Inr False
                | Some s \<Rightarrow> bind_r (parse_date s) (\<lambda>d. Inr (local_date < d))) (\<lambda>before.
        if before then Inr False
        else bind_r (case end_date of None \<Rightarrow> Inr False
                     | Some e \<Rightarrow> bind_r (parse_date e) (\<lambda>d. Inr (local_date > d))) (\<lambda>after.
          Inr (\<not> after)))))"

definition date_bounds_expired ::
  "zones \<Rightarrow> string \<Rightarrow> string option \<Rightarrow> string option \<Rightarrow> int \<Rightarrow> bool result" where
  "date_bounds_expired zs tz start_date end_date at =
     (if start_date = None \<and> end_date = None then Inr False
      else bind_r (zone_of zs tz) (\<lambda>off.
        let local_date = local_ordinal off at in
        bind_r (case start_date of None \<Rightarrow> Inr False
                | Some s \<Rightarrow> bind_r (parse_date s) (\<lambda>d. Inr (local_date < d))) (\<lambda>before.
        if before then Inr True
        else (case end_date of None \<Rightarrow> Inr False
              | Some e \<Rightarrow> bind_r (parse_date e) (\<lambda>d. Inr (local_date > d))))))"

section \<open>Targets\<close>

record availability_target =
  at_provider :: string
  at_model :: "string option"
  at_variant :: "string option"

definition SUPPORTED_PROVIDERS :: "string list" where
  "SUPPORTED_PROVIDERS = [''openai'', ''zai'']"

definition v_policy_provider :: "pyval \<Rightarrow> string \<Rightarrow> string result" where
  "v_policy_provider v fld =
     bind_r (v_safe_id sel_exn v fld) (\<lambda>s.
       if s \<in> set SUPPORTED_PROVIDERS then Inr s else Inl (sel_exn fld))"

definition mk_target :: "availability_target \<Rightarrow> availability_target result" where
  "mk_target t =
     bind_r (v_policy_provider (PStr (at_provider t)) ''availability_target.provider'') (\<lambda>_.
     bind_r (v_opt (v_safe_id sel_exn) (opt_py PStr (at_model t)) ''availability_target.model'') (\<lambda>_.
       case at_variant t of
         None \<Rightarrow> Inr t
       | Some v \<Rightarrow>
           if at_model t = None then Inl (sel_exn ''availability_target'')
           else bind_r (v_safe_id sel_exn (PStr v) ''availability_target.variant'') (\<lambda>_. Inr t)))"

definition target_matches :: "availability_target \<Rightarrow> model_identity \<Rightarrow> bool" where
  "target_matches t i =
     (if mi_provider i \<noteq> at_provider t then False
      else if at_model t \<noteq> None \<and> Some (mi_model i) \<noteq> at_model t then False
      else if at_variant t \<noteq> None \<and> Some (mi_variant i) \<noteq> at_variant t then False
      else True)"

definition target_from_dict :: "pyval \<Rightarrow> availability_target result" where
  "target_from_dict d =
     bind_r (v_exact_shape sel_exn d [''provider''] [''model'', ''variant''] ''availability_target'') (\<lambda>dd.
     bind_r (v_opt (v_safe_id sel_exn) (py_get dd ''model'') ''availability_target.model'') (\<lambda>model.
     bind_r (v_opt (v_safe_id sel_exn) (py_get dd ''variant'') ''availability_target.variant'') (\<lambda>variant.
     bind_r (v_item dd ''provider'' v_policy_provider ''availability_target.provider'') (\<lambda>provider.
       mk_target \<lparr>at_provider = provider, at_model = model, at_variant = variant\<rparr>))))"

definition target_to_dict :: "availability_target \<Rightarrow> pyval" where
  "target_to_dict t =
     obj [(''provider'', Some (PStr (at_provider t))), (''model'', map_option PStr (at_model t)),
          (''variant'', map_option PStr (at_variant t))]"

section \<open>Weekly rules\<close>

record weekly_rule =
  wr_rule_id :: string
  wr_target :: availability_target
  wr_timezone :: string
  wr_weekdays :: "weekday list"
  wr_start_local :: string
  wr_end_local :: string
  wr_reason_code :: string
  wr_start_date :: "string option"
  wr_end_date :: "string option"

definition mk_weekly_rule :: "string \<Rightarrow> zones \<Rightarrow> weekly_rule \<Rightarrow> weekly_rule result" where
  "mk_weekly_rule label zs r =
     bind_r (v_safe_id sel_exn (PStr (wr_rule_id r)) (label @ ''.rule_id'')) (\<lambda>_.
     bind_r (v_timezone zs (PStr (wr_timezone r)) (label @ ''.timezone'')) (\<lambda>_.
     bind_r (v_weekdays (wr_weekdays r) (label @ ''.weekdays'')) (\<lambda>days.
     bind_r (v_hm (PStr (wr_start_local r)) (label @ ''.start_local'')) (\<lambda>start.
     bind_r (v_hm (PStr (wr_end_local r)) (label @ ''.end_local'')) (\<lambda>fin.
     bind_r (guard_r (start \<noteq> fin) (sel_exn label)) (\<lambda>_.
     bind_r (v_safe_id sel_exn (PStr (wr_reason_code r)) (label @ ''.reason_code'')) (\<lambda>_.
     bind_r (v_date_bounds (wr_start_date r) (wr_end_date r) label) (\<lambda>_.
       Inr (r\<lparr>wr_weekdays := days\<rparr>)))))))))"

definition active_at :: "string \<Rightarrow> zones \<Rightarrow> weekly_rule \<Rightarrow> py_datetime \<Rightarrow> bool result" where
  "active_at fld zs r at =
     bind_r (v_aware_datetime sel_exn at fld) (\<lambda>t.
     bind_r (weekly_window_contains zs (wr_timezone r) (wr_weekdays r) (wr_start_local r)
               (wr_end_local r) t) (\<lambda>covered.
       if \<not> covered then Inr False
       else date_bounds_contain zs (wr_timezone r) (wr_start_date r) (wr_end_date r) t))"

definition is_date_expired_at :: "string \<Rightarrow> zones \<Rightarrow> weekly_rule \<Rightarrow> py_datetime \<Rightarrow> bool result" where
  "is_date_expired_at fld zs r at =
     bind_r (v_aware_datetime sel_exn at fld) (\<lambda>t.
     bind_r (weekly_window_contains zs (wr_timezone r) (wr_weekdays r) (wr_start_local r)
               (wr_end_local r) t) (\<lambda>covered.
       if \<not> covered then Inr False
       else date_bounds_expired zs (wr_timezone r) (wr_start_date r) (wr_end_date r) t))"

definition WEEKLY_REQUIRED :: "string list" where
  "WEEKLY_REQUIRED = [''rule_id'', ''target'', ''timezone'', ''weekdays'', ''start_local'',
     ''end_local'', ''reason_code'']"

definition weekly_rule_from_dict :: "string \<Rightarrow> zones \<Rightarrow> pyval \<Rightarrow> weekly_rule result" where
  "weekly_rule_from_dict label zs d =
     bind_r (v_exact_shape sel_exn d WEEKLY_REQUIRED [''start_date'', ''end_date''] label) (\<lambda>dd.
     bind_r (v_item dd ''weekdays'' (v_list_of sel_exn
                (\<lambda>x. v_enum sel_exn weekday_str WEEKDAYS x (label @ ''.weekdays''))) (label @ ''.weekdays'')) (\<lambda>days.
     bind_r (v_opt (v_date sel_exn) (py_get dd ''start_date'') (label @ ''.start_date'')) (\<lambda>sdate.
     bind_r (v_opt (v_date sel_exn) (py_get dd ''end_date'') (label @ ''.end_date'')) (\<lambda>edate.
     bind_r (v_item dd ''rule_id'' (v_safe_id sel_exn) (label @ ''.rule_id'')) (\<lambda>rid.
     bind_r (v_item dd ''target'' (\<lambda>v _. target_from_dict v) '''') (\<lambda>target.
     bind_r (v_item dd ''timezone'' (v_timezone zs) (label @ ''.timezone'')) (\<lambda>tz.
     bind_r (v_item dd ''start_local'' v_hm (label @ ''.start_local'')) (\<lambda>start.
     bind_r (v_item dd ''end_local'' v_hm (label @ ''.end_local'')) (\<lambda>fin.
     bind_r (v_item dd ''reason_code'' (v_safe_id sel_exn) (label @ ''.reason_code'')) (\<lambda>reason.
       mk_weekly_rule label zs \<lparr>wr_rule_id = rid, wr_target = target, wr_timezone = tz,
         wr_weekdays = days, wr_start_local = start, wr_end_local = fin, wr_reason_code = reason,
         wr_start_date = sdate, wr_end_date = edate\<rparr>))))))))))"

definition weekly_rule_to_dict :: "weekly_rule \<Rightarrow> pyval" where
  "weekly_rule_to_dict r =
     obj [(''rule_id'', Some (PStr (wr_rule_id r))),
          (''target'', Some (target_to_dict (wr_target r))),
          (''timezone'', Some (PStr (wr_timezone r))),
          (''weekdays'', Some (PList (map (\<lambda>d. PStr (weekday_str d)) (wr_weekdays r)))),
          (''start_local'', Some (PStr (wr_start_local r))),
          (''end_local'', Some (PStr (wr_end_local r))),
          (''reason_code'', Some (PStr (wr_reason_code r))),
          (''start_date'', map_option PStr (wr_start_date r)),
          (''end_date'', map_option PStr (wr_end_date r))]"

definition BLACKOUT :: string where "BLACKOUT = ''weekly_blackout_rule''"

definition HAPPY_HOUR :: string where "HAPPY_HOUR = ''weekly_happy_hour_rule''"

definition mk_blackout :: "zones \<Rightarrow> weekly_rule \<Rightarrow> weekly_rule result" where
  "mk_blackout zs r = mk_weekly_rule BLACKOUT zs r"

definition blocks_at :: "zones \<Rightarrow> weekly_rule \<Rightarrow> py_datetime \<Rightarrow> bool result" where
  "blocks_at zs r at = active_at (BLACKOUT @ ''.blocks_at.at'') zs r at"

definition blackout_expired_at :: "zones \<Rightarrow> weekly_rule \<Rightarrow> py_datetime \<Rightarrow> bool result" where
  "blackout_expired_at zs r at = is_date_expired_at (BLACKOUT @ ''.is_date_expired_at.at'') zs r at"

definition blackout_from_dict :: "zones \<Rightarrow> pyval \<Rightarrow> weekly_rule result" where
  "blackout_from_dict zs d = weekly_rule_from_dict BLACKOUT zs d"

definition mk_happy_hour :: "zones \<Rightarrow> weekly_rule \<Rightarrow> weekly_rule result" where
  "mk_happy_hour zs r = mk_weekly_rule HAPPY_HOUR zs r"

definition happy_hour_active_at :: "zones \<Rightarrow> weekly_rule \<Rightarrow> py_datetime \<Rightarrow> bool result" where
  "happy_hour_active_at zs r at = active_at (HAPPY_HOUR @ ''.active_at.at'') zs r at"

definition happy_hour_expired_at :: "zones \<Rightarrow> weekly_rule \<Rightarrow> py_datetime \<Rightarrow> bool result" where
  "happy_hour_expired_at zs r at = is_date_expired_at (HAPPY_HOUR @ ''.is_date_expired_at.at'') zs r at"

definition happy_hour_from_dict :: "zones \<Rightarrow> pyval \<Rightarrow> weekly_rule result" where
  "happy_hour_from_dict zs d = weekly_rule_from_dict HAPPY_HOUR zs d"

section \<open>Class invariants and serialisation\<close>

definition valid_target :: "availability_target \<Rightarrow> bool" where
  "valid_target t =
     (safe_id_match (at_provider t) \<and> at_provider t \<in> set SUPPORTED_PROVIDERS
      \<and> pred_option safe_id_match (at_model t) \<and> pred_option safe_id_match (at_variant t)
      \<and> (at_variant t \<noteq> None \<longrightarrow> at_model t \<noteq> None))"

definition canonical_days :: "weekday list \<Rightarrow> bool" where
  "canonical_days ds = (ds \<noteq> [] \<and> filter (\<lambda>d. d \<in> set ds) WEEKDAYS = ds)"

definition dates_ok :: "string option \<Rightarrow> string option \<Rightarrow> bool" where
  "dates_ok s e =
     (pred_option date_ok s \<and> pred_option date_ok e
      \<and> (case (s, e) of
           (Some a, Some b) \<Rightarrow> the (date_fromisoformat a) \<le> the (date_fromisoformat b)
         | _ \<Rightarrow> True))"

definition valid_weekly_rule :: "zones \<Rightarrow> weekly_rule \<Rightarrow> bool" where
  "valid_weekly_rule zs r =
     (safe_id_match (wr_rule_id r) \<and> valid_target (wr_target r)
      \<and> tz_match (wr_timezone r) \<and> zs (wr_timezone r) \<noteq> None
      \<and> canonical_days (wr_weekdays r)
      \<and> hm_match (wr_start_local r) \<and> hm_match (wr_end_local r) \<and> wr_start_local r \<noteq> wr_end_local r
      \<and> safe_id_match (wr_reason_code r) \<and> dates_ok (wr_start_date r) (wr_end_date r))"

lemma v_policy_provider_Inr [valid_simps]:
  "v_policy_provider v fld = Inr s \<longleftrightarrow> v = PStr s \<and> safe_id_match s \<and> s \<in> set SUPPORTED_PROVIDERS"
  by (auto simp: v_policy_provider_def result_simps valid_simps)

lemma v_hm_Inr [valid_simps]: "v_hm v fld = Inr s \<longleftrightarrow> v = PStr s \<and> hm_match s"
  by (auto simp: v_hm_def result_simps valid_simps)

lemma v_timezone_Inr [valid_simps]:
  "v_timezone zs v fld = Inr s \<longleftrightarrow> v = PStr s \<and> tz_match s \<and> zs s \<noteq> None"
  by (auto simp: v_timezone_def result_simps valid_simps)

lemma set_WEEKDAYS [simp]: "set WEEKDAYS = UNIV"
  by (auto simp: weekday_vocab.members_complete)

lemma v_weekdays_Inr [valid_simps]:
  "v_weekdays ds fld = Inr ds' \<longleftrightarrow> distinct ds \<and> ds \<noteq> [] \<and> ds' = filter (\<lambda>d. d \<in> set ds) WEEKDAYS"
  by (auto simp: v_weekdays_def result_simps)

lemma canonical_days_filter: "ds \<noteq> [] \<Longrightarrow> canonical_days (filter (\<lambda>d. d \<in> set ds) WEEKDAYS)"
  by (cases ds) (auto simp: canonical_days_def filter_empty_conv)

lemma canonical_days_distinct: "canonical_days ds \<Longrightarrow> distinct ds"
proof -
  assume "canonical_days ds"
  then have "filter (\<lambda>d. d \<in> set ds) WEEKDAYS = ds" by (simp add: canonical_days_def)
  moreover have "distinct (filter (\<lambda>d. d \<in> set ds) WEEKDAYS)" by (simp add: WEEKDAYS_def)
  ultimately show ?thesis by simp
qed

lemma v_date_bounds_Inr [valid_simps]: "v_date_bounds s e label = Inr u \<longleftrightarrow> dates_ok s e"
proof -
  have parse: "date_ok a \<Longrightarrow> parse_date a = Inr (the (date_fromisoformat a))" for a
    by (auto simp: parse_date_def date_ok_def)
  show ?thesis
    by (cases s; cases e)
      (simp_all add: v_date_bounds_def dates_ok_def parse result_simps valid_simps not_less
        cong: conj_cong)
qed

lemma mk_target_Inr [valid_simps]: "mk_target t = Inr t' \<longleftrightarrow> t' = t \<and> valid_target t"
  by (cases "at_variant t")
    (auto simp: mk_target_def valid_target_def result_simps valid_simps)

interpretation target_contract:
  contract "\<lambda>_. True" valid_target mk_target target_from_dict target_to_dict
proof unfold_locales
  fix r d
  show "target_from_dict d = Inr r \<Longrightarrow> valid_target r"
    by (auto simp: target_from_dict_def bind_r_Inr_iff mk_target_Inr)
  show "valid_target r \<Longrightarrow> target_from_dict (target_to_dict r) = Inr r"
    by (cases r) (auto simp: target_from_dict_def target_to_dict_def shape_simps result_simps
        valid_simps valid_target_def)
qed (auto simp: valid_simps)

lemma mk_weekly_rule_Inr:
  "valid_target (wr_target r) \<Longrightarrow> mk_weekly_rule label zs r = Inr r' \<longleftrightarrow>
     r' = r\<lparr>wr_weekdays := filter (\<lambda>d. d \<in> set (wr_weekdays r)) WEEKDAYS\<rparr>
     \<and> distinct (wr_weekdays r) \<and> valid_weekly_rule zs r'"
  unfolding mk_weekly_rule_def valid_weekly_rule_def
  by (auto simp: result_simps valid_simps canonical_days_filter)
    (auto simp: canonical_days_def)

lemma mk_valid_weekly_rule: "valid_weekly_rule zs r \<Longrightarrow> mk_weekly_rule label zs r = Inr r"
  by (simp add: mk_weekly_rule_Inr valid_weekly_rule_def canonical_days_distinct)
    (simp add: canonical_days_def)

lemma weekdays_wire:
  "traverse (\<lambda>x. v_enum sel_exn weekday_str WEEKDAYS x fld) (map (\<lambda>d. PStr (weekday_str d)) ds) = Inr ds"
  by (rule traverse_map_Inr) (rule weekday_vocab.v_enum_str)

interpretation weekly_rule_contract:
  contract "\<lambda>r. valid_target (wr_target r)" "valid_weekly_rule zs" "mk_weekly_rule label zs"
    "weekly_rule_from_dict label zs" weekly_rule_to_dict
  for zs :: zones and label :: string
proof unfold_locales
  fix r d
  show "weekly_rule_from_dict label zs d = Inr r \<Longrightarrow> valid_weekly_rule zs r"
    by (auto simp: weekly_rule_from_dict_def bind_r_Inr_iff mk_weekly_rule_Inr
        dest!: target_contract.item_ok)
  show "valid_weekly_rule zs r \<Longrightarrow> mk_weekly_rule label zs r = Inr r" by (rule mk_valid_weekly_rule)
  show "valid_weekly_rule zs r \<Longrightarrow> weekly_rule_from_dict label zs (weekly_rule_to_dict r) = Inr r"
    by (frule mk_valid_weekly_rule [of zs r label]; cases r)
      (auto simp: weekly_rule_from_dict_def weekly_rule_to_dict_def WEEKLY_REQUIRED_def shape_simps
        result_simps valid_simps valid_weekly_rule_def dates_ok_def weekdays_wire
        target_contract.from_to)
qed (simp_all add: mk_weekly_rule_Inr)

interpretation blackout_contract:
  contract "\<lambda>r. valid_target (wr_target r)" "valid_weekly_rule zs" "mk_blackout zs"
    "blackout_from_dict zs" weekly_rule_to_dict
  for zs :: zones
  by unfold_locales (auto simp: mk_blackout_def blackout_from_dict_def
      intro: weekly_rule_contract.mk_ok weekly_rule_contract.ok_mk weekly_rule_contract.parsed_ok
        weekly_rule_contract.from_to)

interpretation happy_hour_contract:
  contract "\<lambda>r. valid_target (wr_target r)" "valid_weekly_rule zs" "mk_happy_hour zs"
    "happy_hour_from_dict zs" weekly_rule_to_dict
  for zs :: zones
  by unfold_locales (auto simp: mk_happy_hour_def happy_hour_from_dict_def
      intro: weekly_rule_contract.mk_ok weekly_rule_contract.ok_mk weekly_rule_contract.parsed_ok
        weekly_rule_contract.from_to)

section \<open>What a valid rule covers\<close>

text \<open>
  The specification reads the week as a circle of 10080 minutes: a configured day opens an arc
  of \<open>window_length\<close> minutes at its start time.
\<close>

definition minute_of_week :: "(int \<Rightarrow> int) \<Rightarrow> int \<Rightarrow> int" where
  "minute_of_week off at = 1440 * local_weekday off at + local_minute off at"

definition window_length :: "int \<Rightarrow> int \<Rightarrow> int" where
  "window_length start fin = (if start < fin then fin - start else fin - start + 1440)"

definition covers :: "(int \<Rightarrow> int) \<Rightarrow> weekly_rule \<Rightarrow> int \<Rightarrow> bool" where
  "covers off r at =
     list_ex (\<lambda>d. (minute_of_week off at - (1440 * weekday_index d + hm_value (wr_start_local r))) mod 10080
        < window_length (hm_value (wr_start_local r)) (hm_value (wr_end_local r))) (wr_weekdays r)"

definition in_campaign :: "(int \<Rightarrow> int) \<Rightarrow> weekly_rule \<Rightarrow> int \<Rightarrow> bool" where
  "in_campaign off r at =
     (pred_option (\<lambda>s. the (date_fromisoformat s) \<le> local_ordinal off at) (wr_start_date r)
      \<and> pred_option (\<lambda>e. local_ordinal off at \<le> the (date_fromisoformat e)) (wr_end_date r))"

lemma fits_cons [simp]:
  "fits (t # ts) (c # cs) \<longleftrightarrow> (if t = CHR ''d'' then is_digit c else c = t) \<and> fits ts cs"
  "fits [] s \<longleftrightarrow> s = []" "fits (t # ts) [] \<longleftrightarrow> False"
  by (simp_all add: fits_def)

lemma char_le_int: "c \<le> d \<longleftrightarrow> (of_char c :: int) \<le> of_char d"
  by (metis less_eq_char_def of_nat_of_char of_nat_le_iff)

lemma digit_value: "is_digit c \<Longrightarrow> 48 \<le> (of_char c :: int) \<and> (of_char c :: int) \<le> 57"
  by (auto simp: is_digit_def in_range_def char_le_int)

lemma hm_range_chars:
  "in_range (CHR ''0'') (CHR ''1'') c \<Longrightarrow> 48 \<le> (of_char c :: int) \<and> (of_char c :: int) \<le> 49"
  "in_range (CHR ''0'') (CHR ''3'') c \<Longrightarrow> 48 \<le> (of_char c :: int) \<and> (of_char c :: int) \<le> 51"
  "in_range (CHR ''0'') (CHR ''5'') c \<Longrightarrow> 48 \<le> (of_char c :: int) \<and> (of_char c :: int) \<le> 53"
  by (auto simp: in_range_def char_le_int)

lemma hm_value_grammar:
  assumes "hm_grammar s"
  shows "0 \<le> hm_value s \<and> hm_value s < 1440"
proof -
  from assms have f: "fits ''dd:dd'' s" by (simp add: hm_grammar_def)
  then have "length s = 5" by (simp add: fits_length)
  then obtain a b c d e where s: "s = [a, b, c, d, e]"
    by (auto simp: numeral_eq_Suc length_Suc_conv)
  have "is_digit a" "is_digit b" "is_digit d" "is_digit e" using f by (simp_all add: s)
  moreover have "in_range (CHR ''0'') (CHR ''5'') d" using assms by (simp add: hm_grammar_def s)
  moreover have "in_range (CHR ''0'') (CHR ''1'') a \<or> (a = CHR ''2'' \<and> in_range (CHR ''0'') (CHR ''3'') b)"
    using assms by (simp add: hm_grammar_def s)
  ultimately show ?thesis
    using digit_value [of a] digit_value [of b] digit_value [of e] hm_range_chars [of a]
      hm_range_chars [of b] hm_range_chars [of d]
    by (auto simp: hm_value_def slice_def digits_value_def s)
qed

lemma hm_value_butlast: "hm_grammar (butlast s) \<Longrightarrow> hm_value (butlast s) = hm_value s"
proof -
  assume "hm_grammar (butlast s)"
  then have "length (butlast s) = 5" by (auto simp: hm_grammar_def dest: fits_length)
  then have "length s = 6" by simp
  then obtain a b c d e f where "s = [a, b, c, d, e, f]"
    by (auto simp: numeral_eq_Suc length_Suc_conv)
  then show ?thesis by (simp add: hm_value_def slice_def)
qed

lemma hm_value_bounds: "hm_match s \<Longrightarrow> 0 \<le> hm_value s \<and> hm_value s < 1440"
  using hm_value_grammar [of s] hm_value_grammar [of "butlast s"] hm_value_butlast [of s]
  by (auto simp: hm_match_def dollar_def)

lemma WEEKDAYS_nth: "0 \<le> i \<Longrightarrow> i < 7 \<Longrightarrow> WEEKDAYS ! nat i = d \<longleftrightarrow> weekday_index d = i"
proof -
  assume "0 \<le> i" "i < 7"
  then consider "i = 0" | "i = 1" | "i = 2" | "i = 3" | "i = 4" | "i = 5" | "i = 6" by linarith
  then show ?thesis by cases (cases d; simp add: WEEKDAYS_def)+
qed

lemma weekday_index_bounds [simp]: "0 \<le> weekday_index d" "weekday_index d < 7"
  by (cases d; simp)+

lemma mod_circle:
  fixes x n :: int
  assumes "- n < x" "x < n"
  shows "x mod n = (if x < 0 then x + n else x)"
proof (cases "x < 0")
  case True
  then have "x mod n = (x + n) mod n" by simp
  also have "\<dots> = x + n" using True assms by (intro mod_pos_pos_trivial) auto
  finally show ?thesis using True by simp
qed (use assms in simp)

lemma arc_cover:
  assumes m: "0 \<le> m" "m < 1440" and s: "0 \<le> s" "s < 1440" and e: "0 \<le> e" "e < 1440"
    and wd: "0 \<le> wd" "wd < 7" and d: "0 \<le> d" "d < 7"
  shows "(1440 * wd + m - (1440 * d + s)) mod 10080 < window_length s e \<longleftrightarrow>
    (if s < e then wd = d \<and> s \<le> m \<and> m < e
     else (wd = d \<and> s \<le> m) \<or> ((wd - 1) mod 7 = d \<and> m < e))"
proof -
  let ?x = "1440 * wd + m - (1440 * d + s)"
  have r: "?x mod 10080 = (if ?x < 0 then ?x + 10080 else ?x)"
    using assms by (intro mod_circle) linarith+
  have p: "(wd - 1) mod 7 = (if wd = 0 then 6 else wd - 1)"
    using wd by (auto intro: mod_pos_pos_trivial)
  consider "wd - d \<le> -6" | "-6 < wd - d \<and> wd - d < 0" | "wd = d" | "wd - d = 1" | "1 < wd - d"
    by linarith
  then show ?thesis
    unfolding r p window_length_def using assms by cases auto
qed

lemma weekly_window_spec:
  assumes "hm_match (wr_start_local r)" "hm_match (wr_end_local r)" "zs (wr_timezone r) = Some off"
  shows "weekly_window_contains zs (wr_timezone r) (wr_weekdays r) (wr_start_local r) (wr_end_local r) t
    = Inr (covers off r t)"
proof -
  let ?s = "hm_value (wr_start_local r)" and ?e = "hm_value (wr_end_local r)"
  let ?wd = "local_weekday off t" and ?m = "local_minute off t"
  have day: "WEEKDAYS ! nat ?wd \<in> set ds \<longleftrightarrow> (\<exists>d \<in> set ds. ?wd = weekday_index d)" for ds
    using WEEKDAYS_nth [of ?wd] by (metis local_weekday_bounds)
  have prev: "WEEKDAYS ! nat ((?wd - 1) mod 7) \<in> set ds \<longleftrightarrow> (\<exists>d \<in> set ds. (?wd - 1) mod 7 = weekday_index d)" for ds
    using WEEKDAYS_nth [of "(?wd - 1) mod 7"] by (metis pos_mod_bound pos_mod_sign zero_less_numeral)
  have arc: "(minute_of_week off t - (1440 * weekday_index d + ?s)) mod 10080 < window_length ?s ?e \<longleftrightarrow>
      (if ?s < ?e then ?wd = weekday_index d \<and> ?s \<le> ?m \<and> ?m < ?e
       else (?wd = weekday_index d \<and> ?s \<le> ?m) \<or> ((?wd - 1) mod 7 = weekday_index d \<and> ?m < ?e))" for d
    unfolding minute_of_week_def
    using hm_value_bounds assms(1,2) by (intro arc_cover) auto
  show ?thesis
    using assms
    by (auto simp: weekly_window_contains_def zone_of_def hm_minutes_def covers_def list_ex_iff arc
        Let_def day prev split: if_splits)
qed

lemma parse_date_ok: "date_ok a \<Longrightarrow> parse_date a = Inr (the (date_fromisoformat a))"
  by (auto simp: parse_date_def date_ok_def)

definition date_before :: "string option \<Rightarrow> int \<Rightarrow> bool" where
  \<comment> \<open>the local date lies before the campaign starts\<close>
  "date_before s d = (case s of None \<Rightarrow> False | Some a \<Rightarrow> d < the (date_fromisoformat a))"

definition date_after :: "string option \<Rightarrow> int \<Rightarrow> bool" where
  "date_after e d = (case e of None \<Rightarrow> False | Some a \<Rightarrow> d > the (date_fromisoformat a))"

lemma date_tests:
  "pred_option date_ok s \<Longrightarrow>
   (case s of None \<Rightarrow> Inr False | Some a \<Rightarrow> bind_r (parse_date a) (\<lambda>x. Inr (d < x))) = Inr (date_before s d)"
  "pred_option date_ok e \<Longrightarrow>
   (case e of None \<Rightarrow> Inr False | Some a \<Rightarrow> bind_r (parse_date a) (\<lambda>x. Inr (d > x))) = Inr (date_after e d)"
  by (cases s; simp add: date_before_def parse_date_ok) (cases e; simp add: date_after_def parse_date_ok)

lemma date_bounds_spec:
  assumes "dates_ok s e" "zs tz = Some off"
  shows "date_bounds_contain zs tz s e t
      = Inr (\<not> date_before s (local_ordinal off t) \<and> \<not> date_after e (local_ordinal off t))"
    and "date_bounds_expired zs tz s e t
      = Inr (date_before s (local_ordinal off t) \<or> date_after e (local_ordinal off t))"
proof -
  have ok: "pred_option date_ok s" "pred_option date_ok e" using assms(1) by (simp_all add: dates_ok_def)
  show "date_bounds_contain zs tz s e t
      = Inr (\<not> date_before s (local_ordinal off t) \<and> \<not> date_after e (local_ordinal off t))"
    unfolding date_bounds_contain_def Let_def zone_of_def assms(2) option.case bind_r.simps
      date_tests(1) [OF ok(1)] date_tests(2) [OF ok(2)]
    by (simp add: date_before_def date_after_def)
  show "date_bounds_expired zs tz s e t
      = Inr (date_before s (local_ordinal off t) \<or> date_after e (local_ordinal off t))"
    unfolding date_bounds_expired_def Let_def zone_of_def assms(2) option.case bind_r.simps
      date_tests(1) [OF ok(1)] date_tests(2) [OF ok(2)]
    by (simp add: date_before_def date_after_def)
qed

lemma in_campaign_dates:
  "in_campaign off r t \<longleftrightarrow> \<not> date_before (wr_start_date r) (local_ordinal off t)
     \<and> \<not> date_after (wr_end_date r) (local_ordinal off t)"
  by (cases "wr_start_date r"; cases "wr_end_date r")
    (auto simp: in_campaign_def date_before_def date_after_def)

lemma active_at_spec:
  assumes "valid_weekly_rule zs r" "zs (wr_timezone r) = Some off"
  shows "active_at fld zs r (Aware t) = Inr (covers off r t \<and> in_campaign off r t)"
    and "is_date_expired_at fld zs r (Aware t) = Inr (covers off r t \<and> \<not> in_campaign off r t)"
  using assms
  by (auto simp: active_at_def is_date_expired_at_def weekly_window_spec date_bounds_spec
      in_campaign_dates valid_weekly_rule_def)

section \<open>Properties\<close>

text \<open>
  C37: for a rule that passed construction, the two-branch test on local hour, minute, weekday and
  previous weekday is membership in an arc of the 10080-minute week: at each configured day an arc
  of the rule's length opens at the start minute, closed on the left and open on the right, across
  midnight and across the end of the week. The rule blocks exactly on covered instants whose local
  date is within the inclusive campaign dates.
\<close>

theorem weekly_blackout_covers_arc_of_week:
  assumes "mk_blackout zs r0 = Inr r" and "valid_target (wr_target r0)" and "zs (wr_timezone r) = Some off"
  shows "weekly_window_contains zs (wr_timezone r) (wr_weekdays r) (wr_start_local r) (wr_end_local r) t
      = Inr (\<exists>d \<in> set (wr_weekdays r).
          (minute_of_week off t - (1440 * weekday_index d + hm_value (wr_start_local r))) mod 10080
          < window_length (hm_value (wr_start_local r)) (hm_value (wr_end_local r)))
    \<and> blocks_at zs r (Aware t) = Inr (covers off r t \<and> in_campaign off r t)"
proof -
  have valid: "valid_weekly_rule zs r"
    using assms(1) unfolding mk_blackout_def mk_weekly_rule_Inr [OF assms(2)] by blast
  then show ?thesis
    using weekly_window_spec [of r zs off t] active_at_spec(1) [OF valid assms(3)] assms(3)
    by (simp add: blocks_at_def covers_def list_ex_iff valid_weekly_rule_def)
qed

definition utc_only :: zones where
  "utc_only tz = (if tz = ''UTC'' then Some (\<lambda>_. 0) else None)"

definition night_rule :: weekly_rule where
  "night_rule = \<lparr>wr_rule_id = ''night'', wr_target = \<lparr>at_provider = ''zai'', at_model = None, at_variant = None\<rparr>,
     wr_timezone = ''UTC'', wr_weekdays = [Fri, Sun], wr_start_local = ''22:00'', wr_end_local = ''06:30'',
     wr_reason_code = ''peak'', wr_start_date = Some ''2026-01-01'', wr_end_date = Some ''2026-06-30''\<rparr>"

lemma night_rule_valid: "mk_blackout utc_only night_rule = Inr night_rule" "valid_target (wr_target night_rule)"
  by code_simp+

theorem weekly_blackout_covers_arc_of_week_witness:
  "\<exists>b. blocks_at utc_only night_rule (Aware 0) = Inr b"
  using weekly_blackout_covers_arc_of_week [OF night_rule_valid(1,2), of "\<lambda>_. 0" 0]
  by (simp add: utc_only_def night_rule_def)

text \<open>
  a conservation blackout never goes quiet silently. At every aware instant covered by the
  weekly window exactly one of \<open>blocks_at\<close> and \<open>is_date_expired_at\<close> holds, outside the window
  neither does, and a naive instant is rejected by both with the contract error.
\<close>

theorem blackout_blocks_or_reports_expiry:
  assumes "valid_weekly_rule zs r"
  shows "(\<exists>covered blocks expired.
        weekly_window_contains zs (wr_timezone r) (wr_weekdays r) (wr_start_local r) (wr_end_local r) t = Inr covered
        \<and> blocks_at zs r (Aware t) = Inr blocks \<and> blackout_expired_at zs r (Aware t) = Inr expired
        \<and> (covered = (blocks \<noteq> expired)) \<and> \<not> (blocks \<and> expired)
        \<and> (wr_start_date r = None \<and> wr_end_date r = None \<longrightarrow> \<not> expired))
    \<and> \<not> is_ok (blocks_at zs r (Naive t)) \<and> \<not> is_ok (blackout_expired_at zs r (Naive t))"
proof -
  obtain off where off: "zs (wr_timezone r) = Some off"
    using assms by (auto simp: valid_weekly_rule_def)
  have naive: "\<not> is_ok (blocks_at zs r (Naive t))" "\<not> is_ok (blackout_expired_at zs r (Naive t))"
    by (simp_all add: blocks_at_def blackout_expired_at_def active_at_def is_date_expired_at_def
        v_aware_datetime_def)
  show ?thesis
    using naive off assms active_at_spec [OF assms off] weekly_window_spec [of r zs off t]
    by (auto simp: blocks_at_def blackout_expired_at_def valid_weekly_rule_def in_campaign_def)
qed

theorem blackout_blocks_or_reports_expiry_witness:
  "\<exists>blocks expired. blocks_at utc_only night_rule (Aware 0) = Inr blocks
     \<and> blackout_expired_at utc_only night_rule (Aware 0) = Inr expired \<and> \<not> (blocks \<and> expired)"
proof -
  have "valid_weekly_rule utc_only night_rule"
    using night_rule_valid by (simp add: mk_blackout_def mk_weekly_rule_Inr)
  from blackout_blocks_or_reports_expiry [OF this, of 0] show ?thesis by blast
qed

definition newline_rule :: weekly_rule where
  \<comment> \<open>the end time carries the newline that the pattern's \<open>$\<close> lets through\<close>
  "newline_rule = \<lparr>wr_rule_id = ''all-day'', wr_target = \<lparr>at_provider = ''zai'', at_model = None, at_variant = None\<rparr>,
     wr_timezone = ''UTC'', wr_weekdays = WEEKDAYS, wr_start_local = ''10:00'',
     wr_end_local = ''10:00'' @ [CHR 0x0A], wr_reason_code = ''peak'', wr_start_date = None, wr_end_date = None\<rparr>"

lemma newline_rule_valid: "valid_weekly_rule utc_only newline_rule" "hm_value ''10:00'' = 600"
  "hm_value (''10:00'' @ [CHR 0x0A]) = 600"
  by code_simp+

lemma weekday_of_index: "0 \<le> i \<Longrightarrow> i < 7 \<Longrightarrow> \<exists>d. weekday_index d = i"
  using WEEKDAYS_nth by blast

text \<open>
  C40: construction promises that an empty interval is rejected and is never a 24-hour blackout, but
  it compares the texts and not the times: the wall times \<open>10:00\<close> and \<open>10:00\<close> with a trailing
  newline denote the same minute, pass the check, and the rule then blocks at every instant.
\<close>

theorem equal_times_can_block_all_day:
  "mk_blackout utc_only newline_rule = Inr newline_rule
   \<and> hm_minutes (wr_start_local newline_rule) = hm_minutes (wr_end_local newline_rule)
   \<and> (\<forall>t. blocks_at utc_only newline_rule (Aware t) = Inr True)"
proof (intro conjI allI)
  show "mk_blackout utc_only newline_rule = Inr newline_rule"
    by (simp add: mk_blackout_def mk_valid_weekly_rule newline_rule_valid)
  show "hm_minutes (wr_start_local newline_rule) = hm_minutes (wr_end_local newline_rule)"
    by code_simp
  fix t
  let ?off = "\<lambda>_. 0 :: int"
  obtain d where d: "weekday_index d = local_weekday ?off t"
    using weekday_of_index local_weekday_bounds by blast
  obtain p where p: "weekday_index p = (local_weekday ?off t - 1) mod 7"
    using weekday_of_index [of "(local_weekday ?off t - 1) mod 7"] by auto
  have "covers ?off newline_rule t"
    unfolding covers_def list_ex_iff minute_of_week_def
    by (rule bexI [of _ "if 600 \<le> local_minute ?off t then d else p"])
      (simp_all add: newline_rule_def newline_rule_valid(2,3) [simplified] arc_cover d p)
  then show "blocks_at utc_only newline_rule (Aware t) = Inr True"
    using active_at_spec(1) [OF newline_rule_valid(1), of ?off] 
    by (simp add: blocks_at_def utc_only_def newline_rule_def in_campaign_def)
qed

end
