(* ===== verification/Capacity.thy ===== *)
theory Capacity
  imports Py_Time
begin

text \<open>
  capacity.py: the normalised capacity contract (schema version 3). A snapshot of one
  provider carries quota windows and diagnostics; construction enforces the invariants of
  the contract and serialisation is deterministic.
\<close>

abbreviation cap_exn :: "string \<Rightarrow> py_error" where
  "cap_exn \<equiv> CapacityValidationError"

section \<open>Frozen value sets\<close>

datatype capacity_status =
  St_ok | St_unavailable | St_auth_required | St_unsupported | St_schema_changed | St_unknown

fun status_str :: "capacity_status \<Rightarrow> string" where
  "status_str St_ok = ''ok''"
| "status_str St_unavailable = ''unavailable''"
| "status_str St_auth_required = ''auth_required''"
| "status_str St_unsupported = ''unsupported''"
| "status_str St_schema_changed = ''schema_changed''"
| "status_str St_unknown = ''unknown''"

definition STATUS_VALUES :: "capacity_status list" where
  "STATUS_VALUES =
     [St_ok, St_unavailable, St_auth_required, St_unsupported, St_schema_changed, St_unknown]"

datatype window_resource = Res_tokens | Res_time | Res_unknown

fun resource_str :: "window_resource \<Rightarrow> string" where
  "resource_str Res_tokens = ''tokens''"
| "resource_str Res_time = ''time''"
| "resource_str Res_unknown = ''unknown''"

definition RESOURCE_VALUES :: "window_resource list" where
  "RESOURCE_VALUES = [Res_tokens, Res_time, Res_unknown]"

datatype window_kind = Kind_five_hour | Kind_weekly | Kind_unknown

fun kind_str :: "window_kind \<Rightarrow> string" where
  "kind_str Kind_five_hour = ''five_hour''"
| "kind_str Kind_weekly = ''weekly''"
| "kind_str Kind_unknown = ''unknown''"

definition KIND_VALUES :: "window_kind list" where
  "KIND_VALUES = [Kind_five_hour, Kind_weekly, Kind_unknown]"

datatype diagnostic_code =
    Dc_source_unavailable | Dc_auth_required | Dc_unsupported_source | Dc_schema_changed
  | Dc_telemetry_unknown | Dc_window_semantics_unknown | Dc_percentage_unknown | Dc_reset_unknown

fun diag_str :: "diagnostic_code \<Rightarrow> string" where
  "diag_str Dc_source_unavailable = ''source_unavailable''"
| "diag_str Dc_auth_required = ''auth_required''"
| "diag_str Dc_unsupported_source = ''unsupported_source''"
| "diag_str Dc_schema_changed = ''schema_changed''"
| "diag_str Dc_telemetry_unknown = ''telemetry_unknown''"
| "diag_str Dc_window_semantics_unknown = ''window_semantics_unknown''"
| "diag_str Dc_percentage_unknown = ''percentage_unknown''"
| "diag_str Dc_reset_unknown = ''reset_unknown''"

definition DIAGNOSTIC_CODES :: "diagnostic_code list" where
  "DIAGNOSTIC_CODES =
     [Dc_source_unavailable, Dc_auth_required, Dc_unsupported_source, Dc_schema_changed,
      Dc_telemetry_unknown, Dc_window_semantics_unknown, Dc_percentage_unknown, Dc_reset_unknown]"

interpretation status_vocab: vocabulary status_str STATUS_VALUES
  by (rule vocabularyI, simp add: STATUS_VALUES_def, case_tac x, simp_all add: STATUS_VALUES_def)

interpretation resource_vocab: vocabulary resource_str RESOURCE_VALUES
  by (rule vocabularyI, simp add: RESOURCE_VALUES_def, case_tac x, simp_all add: RESOURCE_VALUES_def)

interpretation kind_vocab: vocabulary kind_str KIND_VALUES
  by (rule vocabularyI, simp add: KIND_VALUES_def, case_tac x, simp_all add: KIND_VALUES_def)

interpretation diag_vocab: vocabulary diag_str DIAGNOSTIC_CODES
  by (rule vocabularyI, simp add: DIAGNOSTIC_CODES_def, case_tac x, simp_all add: DIAGNOSTIC_CODES_def)

definition WINDOW_SCOPED_CODES :: "diagnostic_code list" where
  "WINDOW_SCOPED_CODES = [Dc_window_semantics_unknown, Dc_percentage_unknown, Dc_reset_unknown]"

definition STATUSES_WITHOUT_WINDOWS :: "capacity_status list" where
  "STATUSES_WITHOUT_WINDOWS = [St_unavailable, St_auth_required, St_unsupported, St_schema_changed]"

fun status_required_code :: "capacity_status \<Rightarrow> diagnostic_code option" where
  "status_required_code St_unavailable = Some Dc_source_unavailable"
| "status_required_code St_auth_required = Some Dc_auth_required"
| "status_required_code St_unsupported = Some Dc_unsupported_source"
| "status_required_code St_schema_changed = Some Dc_schema_changed"
| "status_required_code St_unknown = Some Dc_telemetry_unknown"
| "status_required_code St_ok = None"

fun kind_duration :: "window_kind \<Rightarrow> int option" where
  "kind_duration Kind_five_hour = Some 18000"
| "kind_duration Kind_weekly = Some 604800"
| "kind_duration Kind_unknown = None"

definition v_pct_pair :: "pyval \<Rightarrow> pyval \<Rightarrow> string \<Rightarrow> unit result" where
  "v_pct_pair used remain ctx =
     (if (used = PNone) \<noteq> (remain = PNone) then Inl (cap_exn ctx)
      else if used \<noteq> PNone then
        bind_r (v_int cap_exn (Some 0) (Some 100) used (ctx @ ''.used_percent'')) (\<lambda>u.
        bind_r (v_int cap_exn (Some 0) (Some 100) remain (ctx @ ''.remaining_percent'')) (\<lambda>r.
          if u + r \<noteq> 100 then Inl (cap_exn ctx) else Inr ()))
      else Inr ())"

section \<open>Diagnostics\<close>

record capacity_diagnostic =
  dg_code :: diagnostic_code
  dg_window_id :: "string option"

definition mk_diagnostic :: "capacity_diagnostic \<Rightarrow> capacity_diagnostic result" where
  "mk_diagnostic d =
     (if dg_code d \<in> set WINDOW_SCOPED_CODES then
        (case dg_window_id d of
           None \<Rightarrow> Inr d
         | Some wid \<Rightarrow> bind_r (v_safe_id cap_exn (PStr wid) ''diagnostic.window_id'') (\<lambda>_. Inr d))
      else if dg_window_id d \<noteq> None then Inl (cap_exn ''diagnostic'')
      else Inr d)"

definition diagnostic_from_dict :: "pyval \<Rightarrow> capacity_diagnostic result" where
  "diagnostic_from_dict d =
     bind_r (v_exact_shape cap_exn d [''code''] [''window_id''] ''diagnostic'') (\<lambda>dd.
     bind_r (v_item dd ''code'' (v_enum cap_exn diag_str DIAGNOSTIC_CODES) ''diagnostic.code'') (\<lambda>code.
     bind_r (v_opt (v_safe_id cap_exn) (py_get dd ''window_id'') ''diagnostic.window_id'') (\<lambda>wid.
       mk_diagnostic \<lparr>dg_code = code, dg_window_id = wid\<rparr>)))"

definition diagnostic_to_dict :: "capacity_diagnostic \<Rightarrow> pyval" where
  "diagnostic_to_dict d =
     obj [(''code'', Some (PStr (diag_str (dg_code d)))),
          (''window_id'', map_option PStr (dg_window_id d))]"

section \<open>Windows\<close>

record capacity_window =
  w_resource :: window_resource
  w_kind :: window_kind
  w_scope_id :: "string option"
  w_duration_seconds :: "int option"
  w_used_percent :: "int option"
  w_remaining_percent :: "int option"
  w_resets_at :: "string option"
  w_window_id :: "string option"

definition mk_window :: "capacity_window \<Rightarrow> capacity_window result" where
  "mk_window w =
     bind_r (v_opt (v_safe_id cap_exn) (opt_py PStr (w_scope_id w)) ''window.scope_id'') (\<lambda>_.
     bind_r (case w_duration_seconds w of
               None \<Rightarrow> Inr ()
             | Some dur \<Rightarrow>
                 bind_r (v_int cap_exn (Some 1) None (PInt dur) ''window.duration_seconds'') (\<lambda>dur.
                   case kind_duration (w_kind w) of
                     None \<Rightarrow> Inr ()
                   | Some fixed \<Rightarrow> if dur \<noteq> fixed then Inl (cap_exn ''window'') else Inr ())) (\<lambda>_.
     bind_r (v_pct_pair (opt_py PInt (w_used_percent w)) (opt_py PInt (w_remaining_percent w))
               ''window'') (\<lambda>_.
     bind_r (v_opt (v_ts cap_exn) (opt_py PStr (w_resets_at w)) ''window.resets_at'') (\<lambda>_.
     bind_r (v_opt (v_safe_id cap_exn) (opt_py PStr (w_window_id w)) ''window.window_id'') (\<lambda>_.
       Inr w)))))"

definition window_metadata_id :: "pyval \<Rightarrow> string option result" where
  \<comment> \<open>\<open>provider_metadata\<close> is absent or holds exactly \<open>window_id\<close>\<close>
  "window_metadata_id pm =
     (case pm of
        PNone \<Rightarrow> Inr None
      | PDict m \<Rightarrow>
          (if fst ` set m \<noteq> {''window_id''} then Inl (cap_exn ''window.provider_metadata'')
           else bind_r (v_item m ''window_id'' (v_safe_id cap_exn)
                         ''window.provider_metadata.window_id'') (\<lambda>s. Inr (Some s)))
      | _ \<Rightarrow> Inl (cap_exn ''window.provider_metadata''))"

definition WINDOW_OPTIONAL :: "string list" where
  "WINDOW_OPTIONAL = [''scope_id'', ''duration_seconds'', ''used_percent'', ''remaining_percent'',
     ''resets_at'', ''provider_metadata'']"

definition window_from_dict :: "pyval \<Rightarrow> capacity_window result" where
  "window_from_dict d =
     bind_r (v_exact_shape cap_exn d [''resource'', ''kind''] WINDOW_OPTIONAL ''window'') (\<lambda>dd.
     bind_r (window_metadata_id (py_get dd ''provider_metadata'')) (\<lambda>wid.
     bind_r (v_item dd ''resource'' (v_enum cap_exn resource_str RESOURCE_VALUES) ''window.resource'') (\<lambda>res.
     bind_r (v_item dd ''kind'' (v_enum cap_exn kind_str KIND_VALUES) ''window.kind'') (\<lambda>kind.
     bind_r (v_opt (v_safe_id cap_exn) (py_get dd ''scope_id'') ''window.scope_id'') (\<lambda>scope.
     bind_r (v_opt (v_int cap_exn (Some 1) None) (py_get dd ''duration_seconds'')
               ''window.duration_seconds'') (\<lambda>dur.
     bind_r (v_opt (v_int cap_exn (Some 0) (Some 100)) (py_get dd ''used_percent'')
               ''window.used_percent'') (\<lambda>used.
     bind_r (v_opt (v_int cap_exn (Some 0) (Some 100)) (py_get dd ''remaining_percent'')
               ''window.remaining_percent'') (\<lambda>rem.
     bind_r (v_opt (v_ts cap_exn) (py_get dd ''resets_at'') ''window.resets_at'') (\<lambda>resets.
       mk_window \<lparr>w_resource = res, w_kind = kind, w_scope_id = scope, w_duration_seconds = dur,
         w_used_percent = used, w_remaining_percent = rem, w_resets_at = resets,
         w_window_id = wid\<rparr>)))))))))"

definition window_to_dict :: "capacity_window \<Rightarrow> pyval" where
  "window_to_dict w =
     obj [(''resource'', Some (PStr (resource_str (w_resource w)))),
          (''kind'', Some (PStr (kind_str (w_kind w)))),
          (''scope_id'', map_option PStr (w_scope_id w)),
          (''duration_seconds'', map_option PInt (w_duration_seconds w)),
          (''used_percent'', map_option PInt (w_used_percent w)),
          (''remaining_percent'', map_option PInt (w_remaining_percent w)),
          (''resets_at'', map_option PStr (w_resets_at w)),
          (''provider_metadata'',
             map_option (\<lambda>i. PDict [(''window_id'', PStr i)]) (w_window_id w))]"

section \<open>Snapshots\<close>

record capacity_snapshot =
  sn_schema_version :: int
  sn_provider :: string
  sn_source :: string
  sn_retrieved_at :: string
  sn_status :: capacity_status
  sn_windows :: "capacity_window list"
  sn_diagnostics :: "capacity_diagnostic list"
  sn_plan :: "string option"

definition SCHEMA_VERSION :: int where "SCHEMA_VERSION = 3"

definition mk_snapshot :: "capacity_snapshot \<Rightarrow> capacity_snapshot result" where
  "mk_snapshot s =
     (if sn_schema_version s \<noteq> SCHEMA_VERSION then Inl (cap_exn ''schema_version'')
      else
     bind_r (v_safe_id cap_exn (PStr (sn_provider s)) ''provider'') (\<lambda>_.
     bind_r (v_safe_id cap_exn (PStr (sn_source s)) ''source'') (\<lambda>_.
     bind_r (v_ts cap_exn (PStr (sn_retrieved_at s)) ''retrieved_at'') (\<lambda>_.
     bind_r (v_opt (v_safe_id cap_exn) (opt_py PStr (sn_plan s)) ''plan'') (\<lambda>_.
       let codes = set (map dg_code (sn_diagnostics s)) in
       if sn_status s \<in> set STATUSES_WITHOUT_WINDOWS \<and> sn_windows s \<noteq> [] then Inl (cap_exn ''snapshot'')
       else if sn_status s \<noteq> St_ok \<and>
               (case status_required_code (sn_status s) of None \<Rightarrow> False | Some c \<Rightarrow> c \<notin> codes)
         then Inl (cap_exn ''snapshot'')
       else Inr s)))))"

definition SNAPSHOT_REQUIRED :: "string list" where
  "SNAPSHOT_REQUIRED = [''schema_version'', ''provider'', ''source'', ''retrieved_at'', ''status'',
     ''windows'', ''diagnostics'']"

definition snapshot_from_dict :: "pyval \<Rightarrow> capacity_snapshot result" where
  "snapshot_from_dict d =
     bind_r (v_exact_shape cap_exn d SNAPSHOT_REQUIRED [''plan''] ''snapshot'') (\<lambda>dd.
     bind_r (v_item dd ''windows'' (v_list cap_exn) ''snapshot.windows'') (\<lambda>raw_windows.
     bind_r (traverse window_from_dict raw_windows) (\<lambda>windows.
     bind_r (v_item dd ''diagnostics'' (v_list cap_exn) ''snapshot.diagnostics'') (\<lambda>raw_diagnostics.
     bind_r (traverse diagnostic_from_dict raw_diagnostics) (\<lambda>diagnostics.
     bind_r (v_item dd ''schema_version'' (v_int cap_exn None None) ''schema_version'') (\<lambda>sv.
     bind_r (v_item dd ''provider'' (v_safe_id cap_exn) ''provider'') (\<lambda>provider.
     bind_r (v_item dd ''source'' (v_safe_id cap_exn) ''source'') (\<lambda>source.
     bind_r (v_item dd ''retrieved_at'' (v_ts cap_exn) ''retrieved_at'') (\<lambda>retrieved_at.
     bind_r (v_item dd ''status'' (v_enum cap_exn status_str STATUS_VALUES) ''status'') (\<lambda>status.
     bind_r (v_opt (v_safe_id cap_exn) (py_get dd ''plan'') ''plan'') (\<lambda>plan.
       mk_snapshot \<lparr>sn_schema_version = sv, sn_provider = provider, sn_source = source,
         sn_retrieved_at = retrieved_at, sn_status = status, sn_windows = windows,
         sn_diagnostics = diagnostics, sn_plan = plan\<rparr>)))))))))))"

definition snapshot_to_dict :: "capacity_snapshot \<Rightarrow> pyval" where
  "snapshot_to_dict s =
     obj [(''schema_version'', Some (PInt (sn_schema_version s))),
          (''provider'', Some (PStr (sn_provider s))),
          (''source'', Some (PStr (sn_source s))),
          (''plan'', map_option PStr (sn_plan s)),
          (''retrieved_at'', Some (PStr (sn_retrieved_at s))),
          (''status'', Some (PStr (status_str (sn_status s)))),
          (''windows'', Some (PList (map window_to_dict (sn_windows s)))),
          (''diagnostics'', Some (PList (map diagnostic_to_dict (sn_diagnostics s))))]"

definition snapshot_validate :: "capacity_snapshot \<Rightarrow> capacity_snapshot result" where
  "snapshot_validate s = snapshot_from_dict (snapshot_to_dict s)"

section \<open>Class invariants and the serialisation contract\<close>

definition valid_diagnostic :: "capacity_diagnostic \<Rightarrow> bool" where
  "valid_diagnostic d =
     pred_option (\<lambda>wid. dg_code d \<in> set WINDOW_SCOPED_CODES \<and> safe_id_match wid) (dg_window_id d)"

definition pct_pair_ok :: "int option \<Rightarrow> int option \<Rightarrow> bool" where
  "pct_pair_ok used remain =
     (case (used, remain) of
        (None, None) \<Rightarrow> True
      | (Some u, Some r) \<Rightarrow> 0 \<le> u \<and> 0 \<le> r \<and> u + r = 100
      | _ \<Rightarrow> False)"

definition valid_window :: "capacity_window \<Rightarrow> bool" where
  "valid_window w =
     (pred_option safe_id_match (w_scope_id w)
      \<and> pred_option (\<lambda>n. 1 \<le> n \<and> pred_option ((=) n) (kind_duration (w_kind w))) (w_duration_seconds w)
      \<and> pct_pair_ok (w_used_percent w) (w_remaining_percent w)
      \<and> pred_option ts_ok (w_resets_at w)
      \<and> pred_option safe_id_match (w_window_id w))"

definition valid_snapshot :: "capacity_snapshot \<Rightarrow> bool" where
  "valid_snapshot s =
     (sn_schema_version s = 3 \<and> safe_id_match (sn_provider s) \<and> safe_id_match (sn_source s)
      \<and> ts_ok (sn_retrieved_at s) \<and> pred_option safe_id_match (sn_plan s)
      \<and> list_all valid_window (sn_windows s) \<and> list_all valid_diagnostic (sn_diagnostics s)
      \<and> (sn_status s \<in> set STATUSES_WITHOUT_WINDOWS \<longrightarrow> sn_windows s = [])
      \<and> pred_option (\<lambda>c. c \<in> set (map dg_code (sn_diagnostics s))) (status_required_code (sn_status s)))"

lemma mk_diagnostic_Inr [valid_simps]:
  "mk_diagnostic d = Inr d' \<longleftrightarrow> d' = d \<and> valid_diagnostic d"
  by (auto simp: mk_diagnostic_def valid_diagnostic_def result_simps valid_simps split: option.splits)

interpretation diagnostic_contract:
  contract "\<lambda>_. True" valid_diagnostic mk_diagnostic diagnostic_from_dict diagnostic_to_dict
proof unfold_locales
  fix r d
  show "diagnostic_from_dict d = Inr r \<Longrightarrow> valid_diagnostic r"
    by (auto simp: diagnostic_from_dict_def result_simps mk_diagnostic_Inr)
  show "valid_diagnostic r \<Longrightarrow> diagnostic_from_dict (diagnostic_to_dict r) = Inr r"
    by (cases r) (auto simp: diagnostic_from_dict_def diagnostic_to_dict_def shape_simps
        result_simps valid_simps valid_diagnostic_def elim: option.pred_mono_strong)
qed (auto simp: valid_simps)

lemma v_pct_pair_Inr [valid_simps]:
  "v_pct_pair (opt_py PInt u) (opt_py PInt r) ctx = Inr x \<longleftrightarrow> pct_pair_ok u r"
  by (cases u; cases r) (auto simp: v_pct_pair_def pct_pair_ok_def result_simps valid_simps)

lemma pct_pair_ok_bounds:
  "pct_pair_ok u r \<Longrightarrow> pred_option (\<lambda>n. 0 \<le> n \<and> n \<le> 100) u"
  "pct_pair_ok u r \<Longrightarrow> pred_option (\<lambda>n. 0 \<le> n \<and> n \<le> 100) r"
  by (auto simp: pct_pair_ok_def split: option.splits)

lemma mk_window_Inr [valid_simps]: "mk_window w = Inr w' \<longleftrightarrow> w' = w \<and> valid_window w"
  by (cases "w_duration_seconds w"; cases "kind_duration (w_kind w)")
    (auto simp: mk_window_def valid_window_def result_simps valid_simps split: if_splits)

lemma window_metadata_id_opt [valid_simps]:
  "window_metadata_id (opt_py (\<lambda>i. PDict [(''window_id'', PStr i)]) x) = Inr y \<longleftrightarrow>
     y = x \<and> pred_option safe_id_match x"
  by (cases x) (auto simp: window_metadata_id_def py_item_def result_simps valid_simps)

interpretation window_contract:
  contract "\<lambda>_. True" valid_window mk_window window_from_dict window_to_dict
proof unfold_locales
  fix r d
  show "window_from_dict d = Inr r \<Longrightarrow> valid_window r"
    by (auto simp: window_from_dict_def result_simps mk_window_Inr)
  show "valid_window r \<Longrightarrow> window_from_dict (window_to_dict r) = Inr r"
    by (cases r) (auto simp: window_from_dict_def window_to_dict_def WINDOW_OPTIONAL_def shape_simps
        result_simps valid_simps valid_window_def pct_pair_ok_bounds elim: option.pred_mono_strong)
qed (auto simp: valid_simps)

definition snapshot_parts :: "capacity_snapshot \<Rightarrow> bool" where
  "snapshot_parts s = (list_all valid_window (sn_windows s) \<and> list_all valid_diagnostic (sn_diagnostics s))"

lemma mk_snapshot_Inr [valid_simps]:
  "snapshot_parts s \<Longrightarrow> mk_snapshot s = Inr s' \<longleftrightarrow> s' = s \<and> valid_snapshot s"
  by (cases "sn_status s")
    (auto simp: mk_snapshot_def valid_snapshot_def snapshot_parts_def SCHEMA_VERSION_def Let_def
      STATUSES_WITHOUT_WINDOWS_def result_simps valid_simps)

interpretation snapshot_contract:
  contract snapshot_parts valid_snapshot mk_snapshot snapshot_from_dict snapshot_to_dict
proof unfold_locales
  fix r d
  show "snapshot_from_dict d = Inr r \<Longrightarrow> valid_snapshot r"
    by (auto simp: snapshot_from_dict_def result_simps mk_snapshot_Inr snapshot_parts_def
        dest!: window_contract.list_ok diagnostic_contract.list_ok)
  show "valid_snapshot r \<Longrightarrow> snapshot_from_dict (snapshot_to_dict r) = Inr r"
    by (cases r) (auto simp: snapshot_from_dict_def snapshot_to_dict_def SNAPSHOT_REQUIRED_def
        shape_simps result_simps valid_simps snapshot_parts_def valid_snapshot_def
        window_contract.list_from_to diagnostic_contract.list_from_to elim: option.pred_mono_strong)
  show "valid_snapshot r \<Longrightarrow> mk_snapshot r = Inr r"
    by (simp add: mk_snapshot_Inr snapshot_parts_def valid_snapshot_def)
qed (simp_all add: mk_snapshot_Inr)

end
