(* ===== verification/Model_Catalog.thy ===== *)
theory Model_Catalog
  imports Selection_Types
begin

text \<open>
  selection_types.py, second half: tri-state hard properties, capability provenance and
  assessments, catalog entries with their capacity bindings and the model catalog.
\<close>

section \<open>Model hard properties\<close>

record model_hard_properties =
  hp_input_context_tokens :: "int option"
  hp_output_tokens :: "int option"
  hp_supports_tool_use :: "bool option"
  hp_supports_vision :: "bool option"
  hp_supports_reasoning_mode :: "bool option"
  hp_privacy_tags :: "string list option"

definition HARD_PROPERTY_FIELDS :: "string list" where
  "HARD_PROPERTY_FIELDS = [''input_context_tokens'', ''output_tokens'', ''supports_tool_use'',
     ''supports_vision'', ''supports_reasoning_mode'', ''privacy_tags'']"

definition canonical_tags :: "string list \<Rightarrow> string list result" where
  \<comment> \<open>validate, reject a repetition, sort; both failures of the loop carry the same label\<close>
  "canonical_tags tags =
     (let fld = ''model_hard_properties.privacy_tags'' in
      bind_r (traverse (\<lambda>t. v_safe_id sel_exn t fld) (map PStr tags)) (\<lambda>validated.
      bind_r (seen_check (sel_exn fld) {} validated) (\<lambda>_. Inr (sort validated))))"

definition mk_hard_properties :: "model_hard_properties \<Rightarrow> model_hard_properties result" where
  "mk_hard_properties p =
     bind_r (v_opt (v_int sel_exn (Some 1) None) (opt_py PInt (hp_input_context_tokens p))
               ''model_hard_properties.input_context_tokens'') (\<lambda>_.
     bind_r (v_opt (v_int sel_exn (Some 1) None) (opt_py PInt (hp_output_tokens p))
               ''model_hard_properties.output_tokens'') (\<lambda>_.
       case hp_privacy_tags p of
         None \<Rightarrow> Inr p
       | Some tags \<Rightarrow> bind_r (canonical_tags tags) (\<lambda>ts. Inr (p\<lparr>hp_privacy_tags := Some ts\<rparr>))))"

definition hard_properties_from_dict :: "pyval \<Rightarrow> model_hard_properties result" where
  "hard_properties_from_dict d =
     bind_r (v_exact_shape sel_exn d [] HARD_PROPERTY_FIELDS ''model_hard_properties'') (\<lambda>dd.
     bind_r (v_opt (v_list_of sel_exn
                (\<lambda>tag. v_safe_id sel_exn tag ''model_hard_properties.privacy_tags''))
               (py_get dd ''privacy_tags'') ''model_hard_properties.privacy_tags'') (\<lambda>tags.
     bind_r (v_opt (v_int sel_exn (Some 1) None) (py_get dd ''input_context_tokens'')
               ''model_hard_properties.input_context_tokens'') (\<lambda>inp.
     bind_r (v_opt (v_int sel_exn (Some 1) None) (py_get dd ''output_tokens'')
               ''model_hard_properties.output_tokens'') (\<lambda>out.
     bind_r (v_opt (v_bool sel_exn) (py_get dd ''supports_tool_use'')
               ''model_hard_properties.supports_tool_use'') (\<lambda>tool.
     bind_r (v_opt (v_bool sel_exn) (py_get dd ''supports_vision'')
               ''model_hard_properties.supports_vision'') (\<lambda>vision.
     bind_r (v_opt (v_bool sel_exn) (py_get dd ''supports_reasoning_mode'')
               ''model_hard_properties.supports_reasoning_mode'') (\<lambda>reason.
       mk_hard_properties \<lparr>hp_input_context_tokens = inp, hp_output_tokens = out,
         hp_supports_tool_use = tool, hp_supports_vision = vision,
         hp_supports_reasoning_mode = reason, hp_privacy_tags = tags\<rparr>)))))))"

definition py_strings :: "string list \<Rightarrow> pyval" where
  "py_strings xs = PList (map PStr xs)"

definition hard_properties_to_dict :: "model_hard_properties \<Rightarrow> pyval" where
  "hard_properties_to_dict p =
     obj [(''input_context_tokens'', map_option PInt (hp_input_context_tokens p)),
          (''output_tokens'', map_option PInt (hp_output_tokens p)),
          (''supports_tool_use'', map_option PBool (hp_supports_tool_use p)),
          (''supports_vision'', map_option PBool (hp_supports_vision p)),
          (''supports_reasoning_mode'', map_option PBool (hp_supports_reasoning_mode p)),
          (''privacy_tags'', map_option py_strings (hp_privacy_tags p))]"

definition valid_hard_properties :: "model_hard_properties \<Rightarrow> bool" where
  "valid_hard_properties p =
     (pred_option (\<lambda>n. 1 \<le> n) (hp_input_context_tokens p)
      \<and> pred_option (\<lambda>n. 1 \<le> n) (hp_output_tokens p)
      \<and> pred_option (\<lambda>ts. list_all safe_id_match ts \<and> distinct ts \<and> sorted ts) (hp_privacy_tags p))"

lemma canonical_tags_Inr [valid_simps]:
  "canonical_tags ts = Inr us \<longleftrightarrow> list_all safe_id_match ts \<and> distinct ts \<and> us = sort ts"
  by (auto simp: canonical_tags_def Let_def result_simps valid_simps)

lemma mk_hard_properties_ok: "mk_hard_properties p = Inr q \<Longrightarrow> valid_hard_properties q"
  by (auto simp: mk_hard_properties_def valid_hard_properties_def result_simps valid_simps list_all_iff
      split: option.splits)

lemma mk_hard_properties_id: "valid_hard_properties p \<Longrightarrow> mk_hard_properties p = Inr p"
  by (cases "hp_privacy_tags p")
    (auto simp: mk_hard_properties_def valid_hard_properties_def result_simps valid_simps)

lemma v_opt_strings [valid_simps]:
  "v_opt (v_list_of exn (\<lambda>t. v_safe_id exn t f)) (opt_py py_strings x) fld = Inr y \<longleftrightarrow>
     y = x \<and> pred_option (list_all safe_id_match) x"
  by (cases x) (auto simp: py_strings_def result_simps valid_simps)

lemma v_opt_bool_wire [valid_simps]:
  "v_opt (v_bool exn) (opt_py PBool x) fld = Inr y \<longleftrightarrow> y = x"
  by (rule v_opt_truth)

interpretation hard_properties_contract:
  contract "\<lambda>_. True" valid_hard_properties mk_hard_properties hard_properties_from_dict
    hard_properties_to_dict
proof unfold_locales
  fix r d
  show "hard_properties_from_dict d = Inr r \<Longrightarrow> valid_hard_properties r"
    by (auto simp: hard_properties_from_dict_def bind_r_Inr_iff dest: mk_hard_properties_ok)
  show "valid_hard_properties r \<Longrightarrow> hard_properties_from_dict (hard_properties_to_dict r) = Inr r"
    by (cases r; frule mk_hard_properties_id)
      (auto simp: hard_properties_from_dict_def hard_properties_to_dict_def HARD_PROPERTY_FIELDS_def
        shape_simps result_simps valid_simps valid_hard_properties_def elim: option.pred_mono_strong)
qed (auto intro: mk_hard_properties_ok mk_hard_properties_id)

section \<open>Capability provenance\<close>

record evidence_ref =
  ev_source :: string
  ev_identifier :: string
  ev_version :: "string option"
  ev_date :: "string option"

definition mk_evidence :: "evidence_ref \<Rightarrow> evidence_ref result" where
  "mk_evidence e =
     bind_r (v_safe_id sel_exn (PStr (ev_source e)) ''evidence_ref.source'') (\<lambda>_.
     bind_r (v_text sel_exn 512 (PStr (ev_identifier e)) ''evidence_ref.identifier'') (\<lambda>_.
     bind_r (v_opt (v_text sel_exn 128) (opt_py PStr (ev_version e)) ''evidence_ref.version'') (\<lambda>_.
     bind_r (v_opt (v_date sel_exn) (opt_py PStr (ev_date e)) ''evidence_ref.date'') (\<lambda>_. Inr e))))"

definition evidence_from_dict :: "pyval \<Rightarrow> evidence_ref result" where
  "evidence_from_dict d =
     bind_r (v_exact_shape sel_exn d [''source'', ''identifier''] [''version'', ''date''] ''evidence_ref'') (\<lambda>dd.
     bind_r (v_opt (v_text sel_exn 128) (py_get dd ''version'') ''evidence_ref.version'') (\<lambda>version.
     bind_r (v_item dd ''source'' (v_safe_id sel_exn) ''evidence_ref.source'') (\<lambda>source.
     bind_r (v_item dd ''identifier'' (v_text sel_exn 512) ''evidence_ref.identifier'') (\<lambda>identifier.
     bind_r (v_opt (v_date sel_exn) (py_get dd ''date'') ''evidence_ref.date'') (\<lambda>date.
       mk_evidence \<lparr>ev_source = source, ev_identifier = identifier, ev_version = version,
         ev_date = date\<rparr>)))))"

definition evidence_to_dict :: "evidence_ref \<Rightarrow> pyval" where
  "evidence_to_dict e =
     obj [(''source'', Some (PStr (ev_source e))), (''identifier'', Some (PStr (ev_identifier e))),
          (''version'', map_option PStr (ev_version e)), (''date'', map_option PStr (ev_date e))]"

record human_override =
  ho_rating :: int
  ho_decided_on :: string
  ho_rationale :: string

definition mk_override :: "human_override \<Rightarrow> human_override result" where
  "mk_override h =
     bind_r (v_rating (PInt (ho_rating h)) ''human_override.rating'') (\<lambda>_.
     bind_r (v_date sel_exn (PStr (ho_decided_on h)) ''human_override.decided_on'') (\<lambda>_.
     bind_r (v_text sel_exn 2048 (PStr (ho_rationale h)) ''human_override.rationale'') (\<lambda>_. Inr h)))"

definition override_from_dict :: "pyval \<Rightarrow> human_override result" where
  "override_from_dict d =
     bind_r (v_exact_shape sel_exn d [''rating'', ''decided_on'', ''rationale''] [] ''human_override'') (\<lambda>dd.
     bind_r (v_item dd ''rating'' v_rating ''human_override.rating'') (\<lambda>rating.
     bind_r (v_item dd ''decided_on'' (v_date sel_exn) ''human_override.decided_on'') (\<lambda>decided.
     bind_r (v_item dd ''rationale'' (v_text sel_exn 2048) ''human_override.rationale'') (\<lambda>rationale.
       mk_override \<lparr>ho_rating = rating, ho_decided_on = decided, ho_rationale = rationale\<rparr>))))"

definition override_to_dict :: "human_override \<Rightarrow> pyval" where
  "override_to_dict h =
     obj [(''rating'', Some (PInt (ho_rating h))), (''decided_on'', Some (PStr (ho_decided_on h))),
          (''rationale'', Some (PStr (ho_rationale h)))]"

definition valid_evidence :: "evidence_ref \<Rightarrow> bool" where
  "valid_evidence e =
     (safe_id_match (ev_source e) \<and> text_ok 512 (ev_identifier e)
      \<and> pred_option (text_ok 128) (ev_version e) \<and> pred_option date_ok (ev_date e))"

definition valid_override :: "human_override \<Rightarrow> bool" where
  "valid_override h =
     (rating_ok (ho_rating h) \<and> date_ok (ho_decided_on h) \<and> text_ok 2048 (ho_rationale h))"

lemma mk_evidence_Inr [valid_simps]: "mk_evidence e = Inr e' \<longleftrightarrow> e' = e \<and> valid_evidence e"
  by (auto simp: mk_evidence_def valid_evidence_def result_simps valid_simps)

lemma mk_override_Inr [valid_simps]: "mk_override h = Inr h' \<longleftrightarrow> h' = h \<and> valid_override h"
  by (auto simp: mk_override_def valid_override_def result_simps valid_simps)

interpretation evidence_contract:
  contract "\<lambda>_. True" valid_evidence mk_evidence evidence_from_dict evidence_to_dict
proof unfold_locales
  fix r d
  show "evidence_from_dict d = Inr r \<Longrightarrow> valid_evidence r"
    by (auto simp: evidence_from_dict_def bind_r_Inr_iff mk_evidence_Inr)
  show "valid_evidence r \<Longrightarrow> evidence_from_dict (evidence_to_dict r) = Inr r"
    by (cases r) (auto simp: evidence_from_dict_def evidence_to_dict_def shape_simps result_simps
        valid_simps valid_evidence_def)
qed (auto simp: valid_simps)

interpretation override_contract:
  contract "\<lambda>_. True" valid_override mk_override override_from_dict override_to_dict
proof unfold_locales
  fix r d
  show "override_from_dict d = Inr r \<Longrightarrow> valid_override r"
    by (auto simp: override_from_dict_def bind_r_Inr_iff mk_override_Inr)
  show "valid_override r \<Longrightarrow> override_from_dict (override_to_dict r) = Inr r"
    by (cases r) (auto simp: override_from_dict_def override_to_dict_def shape_simps result_simps
        valid_simps valid_override_def)
qed (auto simp: valid_simps)

lemma override_to_dict_not_None [simp]: "override_to_dict h \<noteq> PNone"
  by (simp add: override_to_dict_def)

section \<open>Capability assessments\<close>

record capability_assessment =
  as_rating :: "int option"
  as_evidence :: "evidence_ref list"
  as_confidence :: "confidence option"
  as_assessed_on :: "string option"
  as_rationale :: "string option"
  as_human_override :: "human_override option"

definition mk_assessment :: "capability_assessment \<Rightarrow> capability_assessment result" where
  "mk_assessment a =
     bind_r (v_opt v_rating (opt_py PInt (as_rating a)) ''capability_assessment.rating'') (\<lambda>rating.
       let exn = sel_exn ''capability_assessment'' in
       if rating = None then
         (if as_evidence a \<noteq> [] then Inl exn
          else if as_confidence a \<noteq> None \<or> as_assessed_on a \<noteq> None \<or> as_rationale a \<noteq> None
            then Inl exn
          else if as_human_override a \<noteq> None then Inl exn
          else Inr a)
       else if as_evidence a = [] then Inl exn
       else if as_confidence a = None then Inl (sel_exn ''capability_assessment.confidence'')
       else bind_r (v_date sel_exn (opt_py PStr (as_assessed_on a))
                      ''capability_assessment.assessed_on'') (\<lambda>_.
         if as_rationale a = None then Inl exn
         else bind_r (v_text sel_exn 2048 (opt_py PStr (as_rationale a))
                        ''capability_assessment.rationale'') (\<lambda>_. Inr a)))"

definition effective_rating :: "capability_assessment \<Rightarrow> int option" where
  "effective_rating a =
     (case as_human_override a of Some h \<Rightarrow> Some (ho_rating h) | None \<Rightarrow> as_rating a)"

definition ASSESSMENT_OPTIONAL :: "string list" where
  "ASSESSMENT_OPTIONAL =
     [''evidence'', ''confidence'', ''assessed_on'', ''rationale'', ''human_override'']"

definition assessment_from_dict :: "pyval \<Rightarrow> capability_assessment result" where
  "assessment_from_dict d =
     bind_r (v_exact_shape sel_exn d [''rating''] ASSESSMENT_OPTIONAL ''capability_assessment'') (\<lambda>dd.
     bind_r (v_item dd ''rating'' (v_opt v_rating) ''capability_assessment.rating'') (\<lambda>rating.
     bind_r (v_opt (v_list_of sel_exn evidence_from_dict) (py_get dd ''evidence'')
               ''capability_assessment.evidence'') (\<lambda>evidence.
     bind_r (v_opt (\<lambda>v _. override_from_dict v) (py_get dd ''human_override'') '''') (\<lambda>override.
     bind_r (v_opt (v_enum sel_exn confidence_str CONFIDENCE_VALUES) (py_get dd ''confidence'')
               ''capability_assessment.confidence'') (\<lambda>confidence.
     bind_r (v_opt (v_date sel_exn) (py_get dd ''assessed_on'')
               ''capability_assessment.assessed_on'') (\<lambda>assessed_on.
     bind_r (v_opt (v_text sel_exn 2048) (py_get dd ''rationale'')
               ''capability_assessment.rationale'') (\<lambda>rationale.
       mk_assessment \<lparr>as_rating = rating,
         as_evidence = (case evidence of None \<Rightarrow> [] | Some es \<Rightarrow> es), as_confidence = confidence,
         as_assessed_on = assessed_on, as_rationale = rationale,
         as_human_override = override\<rparr>)))))))"

definition assessment_to_dict :: "capability_assessment \<Rightarrow> pyval" where
  "assessment_to_dict a =
     (if as_rating a = None then obj [(''rating'', Some PNone)]
      else obj [(''rating'', Some (opt_py PInt (as_rating a))),
                (''evidence'', Some (PList (map evidence_to_dict (as_evidence a)))),
                (''confidence'', Some (opt_py (\<lambda>c. PStr (confidence_str c)) (as_confidence a))),
                (''assessed_on'', Some (opt_py PStr (as_assessed_on a))),
                (''rationale'', Some (opt_py PStr (as_rationale a))),
                (''human_override'', map_option override_to_dict (as_human_override a))])"

definition unknown_assessment :: "capability_assessment \<Rightarrow> bool" where
  "unknown_assessment a =
     (as_rating a = None \<and> as_evidence a = [] \<and> as_confidence a = None \<and> as_assessed_on a = None
      \<and> as_rationale a = None \<and> as_human_override a = None)"

definition known_assessment :: "capability_assessment \<Rightarrow> bool" where
  "known_assessment a =
     (as_rating a \<noteq> None \<and> pred_option rating_ok (as_rating a) \<and> as_evidence a \<noteq> []
      \<and> list_all valid_evidence (as_evidence a) \<and> as_confidence a \<noteq> None
      \<and> as_assessed_on a \<noteq> None \<and> pred_option date_ok (as_assessed_on a)
      \<and> as_rationale a \<noteq> None \<and> pred_option (text_ok 2048) (as_rationale a)
      \<and> pred_option valid_override (as_human_override a))"

definition valid_assessment :: "capability_assessment \<Rightarrow> bool" where
  "valid_assessment a = (unknown_assessment a \<or> known_assessment a)"

definition assessment_parts :: "capability_assessment \<Rightarrow> bool" where
  "assessment_parts a =
     (list_all valid_evidence (as_evidence a) \<and> pred_option valid_override (as_human_override a))"

lemma mk_assessment_Inr [valid_simps]:
  assumes "assessment_parts a"
  shows "mk_assessment a = Inr a' \<longleftrightarrow> a' = a \<and> valid_assessment a"
  using assms
  by (cases "as_rating a"; cases "as_assessed_on a"; cases "as_rationale a")
    (auto simp: mk_assessment_def valid_assessment_def unknown_assessment_def known_assessment_def
      assessment_parts_def Let_def result_simps valid_simps)

lemma valid_assessment_parts: "valid_assessment a \<Longrightarrow> assessment_parts a"
  by (auto simp: valid_assessment_def unknown_assessment_def known_assessment_def assessment_parts_def)

lemma assessment_wire_unknown:
  "unknown_assessment a \<Longrightarrow> assessment_from_dict (assessment_to_dict a) = Inr a"
  by (cases a) (auto simp: assessment_from_dict_def assessment_to_dict_def ASSESSMENT_OPTIONAL_def
      shape_simps result_simps valid_simps unknown_assessment_def mk_assessment_def Let_def)

lemma assessment_wire_known:
  assumes "known_assessment a"
  shows "assessment_from_dict (assessment_to_dict a) = Inr a"
proof -
  from assms have parts: "assessment_parts a" and ok: "valid_assessment a"
    by (auto simp: valid_assessment_def intro: valid_assessment_parts)
  with assms show ?thesis
    by (cases a; cases "as_confidence a"; cases "as_rating a")
      (auto simp: assessment_from_dict_def assessment_to_dict_def ASSESSMENT_OPTIONAL_def
        shape_simps result_simps valid_simps known_assessment_def mk_assessment_Inr
        evidence_contract.list_from_to override_contract.opt_from_to confidence_vocab.v_enum_str)
qed

interpretation assessment_contract:
  contract assessment_parts valid_assessment mk_assessment assessment_from_dict assessment_to_dict
proof unfold_locales
  fix r d
  show "assessment_from_dict d = Inr r \<Longrightarrow> valid_assessment r"
    by (auto simp: assessment_from_dict_def bind_r_Inr_iff v_opt_Inr mk_assessment_Inr
        assessment_parts_def dest!: evidence_contract.list_of_ok override_contract.parsed_ok)
  show "valid_assessment r \<Longrightarrow> assessment_from_dict (assessment_to_dict r) = Inr r"
    unfolding valid_assessment_def
    by (auto intro: assessment_wire_unknown assessment_wire_known)
  show "valid_assessment r \<Longrightarrow> mk_assessment r = Inr r"
    by (simp add: mk_assessment_Inr valid_assessment_parts)
qed (simp add: mk_assessment_Inr)

record capability_assessments =
  av_reasoning :: capability_assessment
  av_coding :: capability_assessment
  av_scientific_methodological :: capability_assessment
  av_writing_editorial :: capability_assessment
  av_tool_use :: capability_assessment
  av_translation_multilingual :: capability_assessment

definition mk_assessments :: "capability_assessments \<Rightarrow> capability_assessments result" where
  \<comment> \<open>the six instance checks are the typing\<close>
  "mk_assessments v = Inr v"

definition assessments_from_dict :: "pyval \<Rightarrow> capability_assessments result" where
  "assessments_from_dict d =
     bind_r (v_exact_shape sel_exn d CAPABILITY_DIMENSIONS [] ''capability_assessments'') (\<lambda>dd.
     bind_r (v_item dd ''reasoning'' (\<lambda>v _. assessment_from_dict v) '''') (\<lambda>a.
     bind_r (v_item dd ''coding'' (\<lambda>v _. assessment_from_dict v) '''') (\<lambda>b.
     bind_r (v_item dd ''scientific_methodological'' (\<lambda>v _. assessment_from_dict v) '''') (\<lambda>c.
     bind_r (v_item dd ''writing_editorial'' (\<lambda>v _. assessment_from_dict v) '''') (\<lambda>e.
     bind_r (v_item dd ''tool_use'' (\<lambda>v _. assessment_from_dict v) '''') (\<lambda>f.
     bind_r (v_item dd ''translation_multilingual'' (\<lambda>v _. assessment_from_dict v) '''') (\<lambda>g.
       mk_assessments \<lparr>av_reasoning = a, av_coding = b, av_scientific_methodological = c,
         av_writing_editorial = e, av_tool_use = f, av_translation_multilingual = g\<rparr>)))))))"

definition assessments_to_dict :: "capability_assessments \<Rightarrow> pyval" where
  "assessments_to_dict v =
     obj [(''reasoning'', Some (assessment_to_dict (av_reasoning v))),
          (''coding'', Some (assessment_to_dict (av_coding v))),
          (''scientific_methodological'', Some (assessment_to_dict (av_scientific_methodological v))),
          (''writing_editorial'', Some (assessment_to_dict (av_writing_editorial v))),
          (''tool_use'', Some (assessment_to_dict (av_tool_use v))),
          (''translation_multilingual'', Some (assessment_to_dict (av_translation_multilingual v)))]"

definition valid_assessments :: "capability_assessments \<Rightarrow> bool" where
  "valid_assessments v =
     (valid_assessment (av_reasoning v) \<and> valid_assessment (av_coding v)
      \<and> valid_assessment (av_scientific_methodological v) \<and> valid_assessment (av_writing_editorial v)
      \<and> valid_assessment (av_tool_use v) \<and> valid_assessment (av_translation_multilingual v))"

interpretation assessments_contract:
  contract valid_assessments valid_assessments mk_assessments assessments_from_dict assessments_to_dict
proof unfold_locales
  fix r d
  show "assessments_from_dict d = Inr r \<Longrightarrow> valid_assessments r"
    by (auto simp: assessments_from_dict_def mk_assessments_def bind_r_Inr_iff valid_assessments_def
        dest!: assessment_contract.item_ok)
  show "valid_assessments r \<Longrightarrow> assessments_from_dict (assessments_to_dict r) = Inr r"
    by (cases r) (auto simp: assessments_from_dict_def assessments_to_dict_def mk_assessments_def
        CAPABILITY_DIMENSIONS_def shape_simps result_simps valid_assessments_def
        assessment_contract.from_to)
qed (simp_all add: mk_assessments_def)

section \<open>Catalog entries\<close>

type_synonym resource_binding = "string \<times> capacity_scope_ref list"

record model_catalog_entry =
  ce_identity :: model_identity
  ce_display_name :: string
  ce_hard_properties :: model_hard_properties
  ce_capabilities :: capability_assessments
  ce_capacity_bindings :: "capacity_scope_ref list option"
  ce_model_version :: "string option"
  ce_model_version_date :: "string option"
  ce_last_reviewed_on :: "string option"
  ce_reasoning_effort :: "reasoning_effort option"
  ce_capacity_binding_resources :: "string list option"
  ce_resource_capacity_bindings :: "resource_binding list"

definition check_resource_binding :: "string \<Rightarrow> resource_binding \<Rightarrow> unit result" where
  "check_resource_binding provider = (\<lambda>(rid, scopes).
     bind_r (v_safe_id sel_exn (PStr rid) ''resource_capacity_binding.resource_id'') (\<lambda>_.
       if scopes = [] \<or> list_ex (\<lambda>s. cs_provider s \<noteq> provider) scopes
         then Inl (sel_exn ''resource_capacity_binding'')
       else if sort_key scope_key (remdups scopes) \<noteq> scopes
         then Inl (sel_exn ''resource_capacity_binding.scopes'')
       else Inr ()))"

definition check_binding_resources :: "string list option \<Rightarrow> unit result" where
  "check_binding_resources resources =
     (case resources of
        None \<Rightarrow> Inr ()
      | Some rs \<Rightarrow>
          bind_r (each (\<lambda>r. bind_r (v_safe_id sel_exn (PStr r)
                    ''model_catalog_entry.capacity_binding_resources'') (\<lambda>_. Inr ())) rs) (\<lambda>_.
          guard_r (sort (remdups rs) = rs)
            (sel_exn ''model_catalog_entry.capacity_binding_resources'')))"

definition check_effort :: "bool option \<Rightarrow> reasoning_effort option \<Rightarrow> unit result" where
  "check_effort supports effort =
     (if supports = Some True then
        (if effort = None then Inl (sel_exn ''model_catalog_entry.reasoning_effort'') else Inr ())
      else if effort \<noteq> None then Inl (sel_exn ''model_catalog_entry.reasoning_effort'')
      else Inr ())"

fun check_bindings_loop ::
  "string \<Rightarrow> (string \<times> string) set \<Rightarrow> capacity_scope_ref list \<Rightarrow> unit result" where
  "check_bindings_loop provider seen [] = Inr ()"
| "check_bindings_loop provider seen (b # bs) =
     (if cs_provider b \<noteq> provider then Inl (sel_exn ''model_catalog_entry.capacity_bindings'')
      else if scope_key b \<in> seen then Inl (sel_exn ''model_catalog_entry.capacity_bindings'')
      else check_bindings_loop provider (insert (scope_key b) seen) bs)"

definition check_capacity_bindings :: "string \<Rightarrow> capacity_scope_ref list option \<Rightarrow> unit result" where
  "check_capacity_bindings provider bindings =
     (case bindings of
        None \<Rightarrow> Inr ()
      | Some bs \<Rightarrow>
          if bs = [] then Inl (sel_exn ''model_catalog_entry.capacity_bindings'')
          else check_bindings_loop provider {} bs)"

definition mk_entry :: "model_catalog_entry \<Rightarrow> model_catalog_entry result" where
  "mk_entry e =
     (let provider = mi_provider (ce_identity e);
          resource_ids = map fst (ce_resource_capacity_bindings e) in
      bind_r (each (check_resource_binding provider) (ce_resource_capacity_bindings e)) (\<lambda>_.
      bind_r (guard_r (resource_ids = sort (remdups resource_ids))
                (sel_exn ''resource_capacity_bindings'')) (\<lambda>_.
      bind_r (check_binding_resources (ce_capacity_binding_resources e)) (\<lambda>_.
      bind_r (guard_r (\<not> (resource_ids \<noteq> [] \<and>
                  (case ce_capacity_binding_resources e of
                     None \<Rightarrow> True | Some rs \<Rightarrow> \<not> set resource_ids \<subseteq> set rs)))
                (sel_exn ''resource_capacity_bindings'')) (\<lambda>_.
      bind_r (v_text sel_exn 128 (PStr (ce_display_name e)) ''model_catalog_entry.display_name'') (\<lambda>_.
      bind_r (check_effort (hp_supports_reasoning_mode (ce_hard_properties e))
                (ce_reasoning_effort e)) (\<lambda>_.
      bind_r (check_capacity_bindings provider (ce_capacity_bindings e)) (\<lambda>_.
      bind_r (v_opt (v_text sel_exn 64) (opt_py PStr (ce_model_version e))
                ''model_catalog_entry.model_version'') (\<lambda>_.
      bind_r (v_opt (v_date sel_exn) (opt_py PStr (ce_model_version_date e))
                ''model_catalog_entry.model_version_date'') (\<lambda>_.
      bind_r (v_opt (v_date sel_exn) (opt_py PStr (ce_last_reviewed_on e))
                ''model_catalog_entry.last_reviewed_on'') (\<lambda>_. Inr e)))))))))))"

definition resource_binding_from_dict :: "pyval \<Rightarrow> resource_binding result" where
  "resource_binding_from_dict v =
     bind_r (v_exact_shape sel_exn v [''resource_id'', ''scopes''] [] ''resource_capacity_binding'') (\<lambda>item.
     bind_r (v_item item ''scopes'' (v_list sel_exn) ''resource_capacity_binding.scopes'') (\<lambda>raw.
     bind_r (v_item item ''resource_id'' (v_safe_id sel_exn) ''resource_capacity_binding.resource_id'') (\<lambda>rid.
     bind_r (traverse scope_from_dict raw) (\<lambda>scopes. Inr (rid, scopes)))))"

definition resource_binding_to_dict :: "resource_binding \<Rightarrow> pyval" where
  "resource_binding_to_dict = (\<lambda>(rid, scopes).
     obj [(''resource_id'', Some (PStr rid)), (''scopes'', Some (PList (map scope_to_dict scopes)))])"

definition ENTRY_REQUIRED :: "string list" where
  "ENTRY_REQUIRED =
     [''identity'', ''display_name'', ''hard_properties'', ''capabilities'', ''capacity_bindings'']"

definition ENTRY_OPTIONAL :: "string list" where
  "ENTRY_OPTIONAL = [''model_version'', ''model_version_date'', ''last_reviewed_on'',
     ''reasoning_effort'', ''capacity_binding_resources'', ''resource_capacity_bindings'']"

definition entry_from_dict :: "pyval \<Rightarrow> model_catalog_entry result" where
  "entry_from_dict d =
     bind_r (v_exact_shape sel_exn d ENTRY_REQUIRED ENTRY_OPTIONAL ''model_catalog_entry'') (\<lambda>dd.
     bind_r (v_item dd ''capacity_bindings'' (v_opt (v_list_of sel_exn scope_from_dict))
               ''model_catalog_entry.capacity_bindings'') (\<lambda>bindings.
     bind_r (v_opt (v_text sel_exn 64) (py_get dd ''model_version'')
               ''model_catalog_entry.model_version'') (\<lambda>version.
     bind_r (v_opt (v_list_of sel_exn
                (\<lambda>v. v_safe_id sel_exn v ''model_catalog_entry.capacity_binding_resources''))
               (py_get dd ''capacity_binding_resources'')
               ''model_catalog_entry.capacity_binding_resources'') (\<lambda>resources.
     bind_r (v_list_of sel_exn resource_binding_from_dict
               (case map_of dd ''resource_capacity_bindings'' of None \<Rightarrow> PList [] | Some v \<Rightarrow> v)
               ''resource_capacity_bindings'') (\<lambda>per_resource.
     bind_r (v_item dd ''identity'' (\<lambda>v _. identity_from_dict v) '''') (\<lambda>identity.
     bind_r (v_item dd ''display_name'' (v_text sel_exn 128) ''model_catalog_entry.display_name'') (\<lambda>name.
     bind_r (v_item dd ''hard_properties'' (\<lambda>v _. hard_properties_from_dict v) '''') (\<lambda>hard.
     bind_r (v_item dd ''capabilities'' (\<lambda>v _. assessments_from_dict v) '''') (\<lambda>caps.
     bind_r (v_opt (v_enum sel_exn effort_str REASONING_EFFORTS) (py_get dd ''reasoning_effort'')
               ''model_catalog_entry.reasoning_effort'') (\<lambda>effort.
     bind_r (v_opt (v_date sel_exn) (py_get dd ''model_version_date'')
               ''model_catalog_entry.model_version_date'') (\<lambda>version_date.
     bind_r (v_opt (v_date sel_exn) (py_get dd ''last_reviewed_on'')
               ''model_catalog_entry.last_reviewed_on'') (\<lambda>reviewed.
       mk_entry \<lparr>ce_identity = identity, ce_display_name = name, ce_hard_properties = hard,
         ce_capabilities = caps, ce_capacity_bindings = bindings, ce_model_version = version,
         ce_model_version_date = version_date, ce_last_reviewed_on = reviewed,
         ce_reasoning_effort = effort, ce_capacity_binding_resources = resources,
         ce_resource_capacity_bindings = per_resource\<rparr>))))))))))))"

definition scopes_wire :: "capacity_scope_ref list \<Rightarrow> pyval" where
  "scopes_wire bs = PList (map scope_to_dict (sort_key scope_key bs))"

definition entry_to_dict :: "model_catalog_entry \<Rightarrow> pyval" where
  "entry_to_dict e =
     obj [(''identity'', Some (identity_to_dict (ce_identity e))),
          (''display_name'', Some (PStr (ce_display_name e))),
          (''reasoning_effort'', Some (opt_py (\<lambda>x. PStr (effort_str x)) (ce_reasoning_effort e))),
          (''hard_properties'', Some (hard_properties_to_dict (ce_hard_properties e))),
          (''capabilities'', Some (assessments_to_dict (ce_capabilities e))),
          (''capacity_bindings'', Some (opt_py scopes_wire (ce_capacity_bindings e))),
          (''model_version'', map_option PStr (ce_model_version e)),
          (''capacity_binding_resources'', map_option py_strings (ce_capacity_binding_resources e)),
          (''resource_capacity_bindings'',
             (if ce_resource_capacity_bindings e = [] then None
              else Some (PList (map resource_binding_to_dict (ce_resource_capacity_bindings e))))),
          (''model_version_date'', map_option PStr (ce_model_version_date e)),
          (''last_reviewed_on'', map_option PStr (ce_last_reviewed_on e))]"

section \<open>The catalog\<close>

record model_catalog =
  mc_catalog_version :: "int option"
  mc_updated_on :: "string option"
  mc_entries :: "model_catalog_entry list"

definition mk_catalog :: "model_catalog \<Rightarrow> model_catalog result" where
  "mk_catalog c =
     bind_r (if mc_catalog_version c = None then
               guard_r (mc_updated_on c = None) (sel_exn ''model_catalog'')
             else
               bind_r (v_int sel_exn (Some 1) None (opt_py PInt (mc_catalog_version c))
                         ''model_catalog.catalog_version'') (\<lambda>_.
               bind_r (v_date sel_exn (opt_py PStr (mc_updated_on c)) ''model_catalog.updated_on'')
                 (\<lambda>_. Inr ()))) (\<lambda>_.
     bind_r (seen_check (sel_exn ''model_catalog.entries'') {}
               (map (\<lambda>e. identity_key (ce_identity e)) (mc_entries c))) (\<lambda>_. Inr c))"

definition catalog_from_dict :: "pyval \<Rightarrow> model_catalog result" where
  "catalog_from_dict d =
     bind_r (v_exact_shape sel_exn d [''catalog_version'', ''updated_on'', ''entries''] []
               ''model_catalog'') (\<lambda>dd.
     bind_r (v_item dd ''entries'' (v_list_of sel_exn entry_from_dict) ''model_catalog.entries'') (\<lambda>entries.
     bind_r (v_item dd ''catalog_version'' (v_opt (v_int sel_exn (Some 1) None))
               ''model_catalog.catalog_version'') (\<lambda>version.
     bind_r (v_item dd ''updated_on'' (v_opt (v_date sel_exn)) ''model_catalog.updated_on'') (\<lambda>updated.
       mk_catalog \<lparr>mc_catalog_version = version, mc_updated_on = updated, mc_entries = entries\<rparr>))))"

definition entry_key :: "model_catalog_entry \<Rightarrow> string \<times> string \<times> string" where
  "entry_key e = identity_key (ce_identity e)"

definition catalog_to_dict :: "model_catalog \<Rightarrow> pyval" where
  "catalog_to_dict c =
     obj [(''catalog_version'', Some (opt_py PInt (mc_catalog_version c))),
          (''updated_on'', Some (opt_py PStr (mc_updated_on c))),
          (''entries'', Some (PList (map entry_to_dict (sort_key entry_key (mc_entries c)))))]"

section \<open>Invariants and serialisation of entries and catalogs\<close>

definition resource_binding_ok :: "string \<Rightarrow> resource_binding \<Rightarrow> bool" where
  "resource_binding_ok provider = (\<lambda>(rid, scopes).
     safe_id_match rid \<and> scopes \<noteq> [] \<and> list_all (\<lambda>s. cs_provider s = provider) scopes
     \<and> sorted (map scope_key scopes) \<and> distinct scopes)"

definition bindings_ok :: "string \<Rightarrow> capacity_scope_ref list \<Rightarrow> bool" where
  "bindings_ok provider bs =
     (bs \<noteq> [] \<and> list_all (\<lambda>s. cs_provider s = provider) bs \<and> distinct bs)"

definition resources_ok :: "string list \<Rightarrow> bool" where
  "resources_ok rs = (list_all safe_id_match rs \<and> sorted rs \<and> distinct rs)"

definition entry_parts :: "model_catalog_entry \<Rightarrow> bool" where
  "entry_parts e =
     (valid_identity (ce_identity e) \<and> valid_hard_properties (ce_hard_properties e)
      \<and> valid_assessments (ce_capabilities e)
      \<and> pred_option (list_all valid_scope) (ce_capacity_bindings e)
      \<and> list_all (\<lambda>rb. list_all valid_scope (snd rb)) (ce_resource_capacity_bindings e))"

definition ids_within :: "string list \<Rightarrow> string list option \<Rightarrow> bool" where
  "ids_within ids resources =
     (ids = [] \<or> (case resources of None \<Rightarrow> False | Some rs \<Rightarrow> set ids \<subseteq> set rs))"

definition entry_checks :: "model_catalog_entry \<Rightarrow> bool" where
  "entry_checks e =
     (let provider = mi_provider (ce_identity e); ids = map fst (ce_resource_capacity_bindings e) in
      list_all (resource_binding_ok provider) (ce_resource_capacity_bindings e)
      \<and> sorted ids \<and> distinct ids
      \<and> pred_option resources_ok (ce_capacity_binding_resources e)
      \<and> ids_within ids (ce_capacity_binding_resources e)
      \<and> text_ok 128 (ce_display_name e)
      \<and> (ce_reasoning_effort e = None) = (hp_supports_reasoning_mode (ce_hard_properties e) \<noteq> Some True)
      \<and> pred_option (bindings_ok provider) (ce_capacity_bindings e)
      \<and> pred_option (text_ok 64) (ce_model_version e)
      \<and> pred_option date_ok (ce_model_version_date e) \<and> pred_option date_ok (ce_last_reviewed_on e))"

definition valid_entry :: "model_catalog_entry \<Rightarrow> bool" where
  "valid_entry e = (entry_parts e \<and> entry_checks e)"

definition valid_catalog :: "model_catalog \<Rightarrow> bool" where
  "valid_catalog c =
     ((case mc_catalog_version c of
         None \<Rightarrow> mc_updated_on c = None
       | Some n \<Rightarrow> 1 \<le> n \<and> mc_updated_on c \<noteq> None \<and> pred_option date_ok (mc_updated_on c))
      \<and> list_all valid_entry (mc_entries c) \<and> distinct (map entry_key (mc_entries c)))"

lemma distinct_scope_keys [simp]: "distinct (map scope_key bs) = distinct bs"
  by (auto simp: distinct_map inj_on_def)

lemma check_resource_binding_Inr [valid_simps]:
  "check_resource_binding p rb = Inr u \<longleftrightarrow> resource_binding_ok p rb"
  by (cases rb) (auto simp: check_resource_binding_def resource_binding_ok_def sort_key_remdups_iff
      list_all_iff list_ex_iff result_simps valid_simps)

lemma check_binding_resources_Inr [valid_simps]:
  "check_binding_resources rs = Inr u \<longleftrightarrow> pred_option resources_ok rs"
  using sort_key_remdups_iff [of "\<lambda>x. x"]
  by (cases rs) (auto simp: check_binding_resources_def resources_ok_def list_all_iff
      result_simps valid_simps)

lemma check_effort_Inr [valid_simps]:
  "check_effort s eff = Inr u \<longleftrightarrow> (eff = None) = (s \<noteq> Some True)"
  by (auto simp: check_effort_def)

lemma check_bindings_loop_Inr:
  "check_bindings_loop p seen bs = Inr u \<longleftrightarrow>
     list_all (\<lambda>s. cs_provider s = p) bs \<and> distinct bs \<and> scope_key ` set bs \<inter> seen = {}"
  by (induction bs arbitrary: seen) auto

lemma check_capacity_bindings_Inr [valid_simps]:
  "check_capacity_bindings p bs = Inr u \<longleftrightarrow> pred_option (bindings_ok p) bs"
  by (cases bs) (auto simp: check_capacity_bindings_def bindings_ok_def check_bindings_loop_Inr)

lemma mk_entry_Inr [valid_simps]: "mk_entry e = Inr e' \<longleftrightarrow> e' = e \<and> entry_checks e"
proof -
  have ids: "ids = sort (remdups ids) \<longleftrightarrow> sorted ids \<and> distinct ids" for ids :: "string list"
    using sort_key_remdups_iff [of "\<lambda>x. x" ids] by (auto simp: distinct_remdups_id)
  have sub: "\<not> (ids \<noteq> [] \<and> (case ro of None \<Rightarrow> True | Some rs \<Rightarrow> \<not> set ids \<subseteq> set rs)) \<longleftrightarrow>
      ids_within ids ro" for ids :: "string list" and ro
    by (cases ro) (auto simp: ids_within_def)
  show ?thesis
    unfolding mk_entry_def entry_checks_def Let_def ids sub
    by (simp add: result_simps valid_simps list_all_iff) blast
qed

lemma no_resource_bindings [shape_simps]:
  "(case (if xs = [] then None else Some (PList (map f xs))) of None \<Rightarrow> PList [] | Some v \<Rightarrow> v)
     = PList (map f xs)"
  by simp

lemma resource_binding_from_to:
  "safe_id_match rid \<Longrightarrow> list_all valid_scope scopes \<Longrightarrow>
   resource_binding_from_dict (resource_binding_to_dict (rid, scopes)) = Inr (rid, scopes)"
  by (simp add: resource_binding_from_dict_def resource_binding_to_dict_def shape_simps v_item_def
      v_list_def v_safe_id_def v_str_def scope_contract.list_from_to)

lemma resource_bindings_from_to:
  "list_all (resource_binding_ok p) rbs \<Longrightarrow> list_all (\<lambda>rb. list_all valid_scope (snd rb)) rbs \<Longrightarrow>
   traverse resource_binding_from_dict (map resource_binding_to_dict rbs) = Inr rbs"
  by (rule traverse_map_Inr) (auto simp: list_all_iff resource_binding_ok_def
      intro!: resource_binding_from_to)

lemma resource_bindings_parsed:
  "v_list_of exn resource_binding_from_dict v fld = Inr rbs \<Longrightarrow>
   list_all (\<lambda>rb. list_all valid_scope (snd rb)) rbs"
  by (erule v_list_of_all) (auto simp: resource_binding_from_dict_def bind_r_Inr_iff
      dest: scope_contract.list_ok)

definition canon_entry :: "model_catalog_entry \<Rightarrow> model_catalog_entry" where
  "canon_entry e = e\<lparr>ce_capacity_bindings := map_option (sort_key scope_key) (ce_capacity_bindings e)\<rparr>"

lemma canon_entry_simps [simp]:
  "ce_identity (canon_entry e) = ce_identity e" "entry_key (canon_entry e) = entry_key e"
  by (simp_all add: canon_entry_def entry_key_def)

lemma canon_entry_checks: "entry_checks e \<Longrightarrow> entry_checks (canon_entry e)"
  by (cases "ce_capacity_bindings e")
    (auto simp: entry_checks_def canon_entry_def bindings_ok_def list_all_iff Let_def
      dest: arg_cong [where f = set])

lemma scopes_wire_field:
  "pred_option (list_all valid_scope) x \<Longrightarrow>
   v_opt (v_list_of sel_exn scope_from_dict) (opt_py scopes_wire x) fld = Inr (map_option (sort_key scope_key) x)"
  by (cases x) (auto simp: scopes_wire_def scope_contract.list_from_to list_all_iff)

lemma effort_field [valid_simps]:
  "v_opt (v_enum sel_exn effort_str REASONING_EFFORTS) (opt_py (\<lambda>x. PStr (effort_str x)) e) fld = Inr y
     \<longleftrightarrow> y = e"
  by (cases e) (auto simp: effort_vocab.v_enum_str)

lemma entry_from_to:
  assumes "valid_entry e"
  shows "entry_from_dict (entry_to_dict e) = Inr (canon_entry e)"
proof -
  from assms have parts: "entry_parts e" and checks: "entry_checks e"
    by (simp_all add: valid_entry_def)
  from checks have "mk_entry (canon_entry e) = Inr (canon_entry e)"
    by (simp add: mk_entry_Inr canon_entry_checks)
  with parts checks show ?thesis
    by (cases e)
      (auto simp: entry_from_dict_def entry_to_dict_def ENTRY_REQUIRED_def ENTRY_OPTIONAL_def
        shape_simps result_simps valid_simps entry_parts_def entry_checks_def Let_def canon_entry_def
        scopes_wire_field resource_bindings_from_to resources_ok_def
        identity_contract.from_to hard_properties_contract.from_to assessments_contract.from_to
        elim: option.pred_mono_strong)
qed

lemma entry_parsed_ok:
  assumes "entry_from_dict d = Inr e"
  shows "valid_entry e"
proof -
  from assms have "entry_parts e"
    by (auto simp: entry_from_dict_def bind_r_Inr_iff mk_entry_Inr entry_parts_def
        dest!: identity_contract.item_ok hard_properties_contract.item_ok
          assessments_contract.item_ok scope_contract.item_opt_list_ok resource_bindings_parsed)
  moreover from assms have "entry_checks e"
    by (auto simp: entry_from_dict_def bind_r_Inr_iff mk_entry_Inr)
  ultimately show ?thesis by (simp add: valid_entry_def)
qed

lemma entry_to_canon: "entry_to_dict (canon_entry e) = entry_to_dict e"
  by (cases "ce_capacity_bindings e") (simp_all add: entry_to_dict_def canon_entry_def scopes_wire_def)

interpretation entry_serial: serial valid_entry canon_entry entry_from_dict entry_to_dict
  by unfold_locales (simp_all add: entry_parsed_ok entry_from_to entry_to_canon)

definition canon_catalog :: "model_catalog \<Rightarrow> model_catalog" where
  "canon_catalog c = c\<lparr>mc_entries := map canon_entry (sort_key entry_key (mc_entries c))\<rparr>"

lemma mk_catalog_Inr [valid_simps]:
  "list_all valid_entry (mc_entries c) \<Longrightarrow> mk_catalog c = Inr c' \<longleftrightarrow> c' = c \<and> valid_catalog c"
  by (cases "mc_catalog_version c"; cases "mc_updated_on c")
    (auto simp: mk_catalog_def valid_catalog_def entry_key_def [abs_def] result_simps valid_simps)

lemma canon_catalog_valid: "valid_catalog c \<Longrightarrow> valid_catalog (canon_catalog c)"
  by (auto simp: valid_catalog_def canon_catalog_def list_all_iff distinct_map comp_def
      intro: entry_serial.ok_canon inj_onI split: option.splits)

lemma catalog_from_to:
  assumes "valid_catalog c"
  shows "catalog_from_dict (catalog_to_dict c) = Inr (canon_catalog c)"
proof -
  from canon_catalog_valid [OF assms]
  have "mk_catalog (canon_catalog c) = Inr (canon_catalog c)"
    by (simp add: mk_catalog_Inr valid_catalog_def)
  with assms show ?thesis
    by (cases c; cases "mc_catalog_version c"; cases "mc_updated_on c")
      (auto simp: catalog_from_dict_def catalog_to_dict_def shape_simps result_simps valid_simps
        valid_catalog_def canon_catalog_def entry_serial.list_from_to_canon list_all_iff)
qed

interpretation catalog_serial: serial valid_catalog canon_catalog catalog_from_dict catalog_to_dict
proof unfold_locales
  fix r d
  show "catalog_from_dict d = Inr r \<Longrightarrow> valid_catalog r"
    by (auto simp: catalog_from_dict_def bind_r_Inr_iff mk_catalog_Inr
        dest!: entry_serial.item_list_ok)
  show "valid_catalog r \<Longrightarrow> catalog_from_dict (catalog_to_dict r) = Inr (canon_catalog r)"
    by (rule catalog_from_to)
  show "catalog_to_dict (canon_catalog r) = catalog_to_dict r"
    by (simp add: catalog_to_dict_def canon_catalog_def sort_key_sorted_id comp_def entry_to_canon)
qed

end
