(* ===== verification/Samples.thy ===== *)
theory Samples
  imports Capacity Model_Catalog
begin


text \<open>
  Concrete contract values on which the witnesses of the properties evaluate: two models of one
  provider with known bindings, one with unknown applicability, and snapshots for them.
\<close>

definition sample_evidence :: evidence_ref where
  "sample_evidence = \<lparr>ev_source = ''benchmark'', ev_identifier = ''suite-1'', ev_version = None,
     ev_date = None\<rparr>"

definition rated :: "int \<Rightarrow> capability_assessment" where
  "rated n = \<lparr>as_rating = Some n, as_evidence = [sample_evidence], as_confidence = Some Conf_medium,
     as_assessed_on = Some ''2026-01-15'', as_rationale = Some ''measured'', as_human_override = None\<rparr>"

definition unrated :: capability_assessment where
  "unrated = \<lparr>as_rating = None, as_evidence = [], as_confidence = None, as_assessed_on = None,
     as_rationale = None, as_human_override = None\<rparr>"

definition sample_capabilities :: "int \<Rightarrow> capability_assessments" where
  "sample_capabilities n = \<lparr>av_reasoning = rated n, av_coding = rated n,
     av_scientific_methodological = unrated, av_writing_editorial = unrated,
     av_tool_use = rated n, av_translation_multilingual = unrated\<rparr>"

definition sample_hard :: model_hard_properties where
  "sample_hard = \<lparr>hp_input_context_tokens = Some 200000, hp_output_tokens = Some 32000,
     hp_supports_tool_use = Some True, hp_supports_vision = None,
     hp_supports_reasoning_mode = Some False, hp_privacy_tags = Some [''eu'']\<rparr>"

definition scope_a :: capacity_scope_ref where "scope_a = CapacityScopeRef ''zai'' ''coding''"

definition scope_b :: capacity_scope_ref where "scope_b = CapacityScopeRef ''zai'' ''chat''"

definition sample_entry :: "string \<Rightarrow> int \<Rightarrow> capacity_scope_ref list option \<Rightarrow> model_catalog_entry" where
  "sample_entry name n bindings =
     \<lparr>ce_identity = ModelIdentity ''zai'' name ''base'', ce_display_name = ''Model'',
       ce_hard_properties = sample_hard, ce_capabilities = sample_capabilities n,
       ce_capacity_bindings = bindings, ce_model_version = None, ce_model_version_date = None,
       ce_last_reviewed_on = None, ce_reasoning_effort = None,
       ce_capacity_binding_resources = None, ce_resource_capacity_bindings = []\<rparr>"

definition sample_window :: "window_kind \<Rightarrow> string \<Rightarrow> int \<Rightarrow> capacity_window" where
  "sample_window kind scope remaining =
     \<lparr>w_resource = Res_tokens, w_kind = kind, w_scope_id = Some scope, w_duration_seconds = None,
       w_used_percent = Some (100 - remaining), w_remaining_percent = Some remaining,
       w_resets_at = None, w_window_id = None\<rparr>"

definition sample_snapshot :: "string \<Rightarrow> capacity_window list \<Rightarrow> capacity_snapshot" where
  "sample_snapshot provider ws =
     \<lparr>sn_schema_version = 3, sn_provider = provider, sn_source = ''poll'',
       sn_retrieved_at = ''2026-02-03T10:00:00.000Z'', sn_status = St_ok, sn_windows = ws,
       sn_diagnostics = [], sn_plan = None\<rparr>"

lemma sample_entries_valid:
  "valid_entry (sample_entry ''m-one'' 4 (Some [scope_a, scope_b]))"
  "valid_entry (sample_entry ''m-two'' 3 (Some [scope_b]))"
  "valid_entry (sample_entry ''m-three'' 5 None)"
  by code_simp+

lemma sample_snapshot_valid:
  "valid_snapshot (sample_snapshot ''zai'' [sample_window Kind_weekly ''coding'' 60,
     sample_window Kind_five_hour ''chat'' 30, sample_window Kind_weekly ''other'' 0])"
  "valid_snapshot (sample_snapshot ''openai'' [])"
  by code_simp+

end
