(* ===== verification/Scarcity.thy ===== *)
theory Scarcity
  imports Samples
begin

text \<open>
  scarcity.py: the integer scarcity penalty and label, the strategic/tactical blend, the
  scarcity assessment contract and \<open>assess_scarcity\<close>, which turns a catalog entry and the
  current snapshots into one assessment.
\<close>

section \<open>Frozen value sets\<close>

datatype scarcity_label_value =
  Lb_plentiful | Lb_normal | Lb_scarce | Lb_critical | Lb_unavailable | Lb_unknown

fun label_str :: "scarcity_label_value \<Rightarrow> string" where
  "label_str Lb_plentiful = ''plentiful''"
| "label_str Lb_normal = ''normal''"
| "label_str Lb_scarce = ''scarce''"
| "label_str Lb_critical = ''critical''"
| "label_str Lb_unavailable = ''unavailable''"
| "label_str Lb_unknown = ''unknown''"

definition SCARCITY_LABELS :: "scarcity_label_value list" where
  "SCARCITY_LABELS =
     [Lb_plentiful, Lb_normal, Lb_scarce, Lb_critical, Lb_unavailable, Lb_unknown]"

datatype scarcity_state = Sc_known | Sc_unknown | Sc_unavailable

fun sstate_str :: "scarcity_state \<Rightarrow> string" where
  "sstate_str Sc_known = ''known''"
| "sstate_str Sc_unknown = ''unknown''"
| "sstate_str Sc_unavailable = ''unavailable''"

definition SCARCITY_STATES :: "scarcity_state list" where
  "SCARCITY_STATES = [Sc_known, Sc_unknown, Sc_unavailable]"

datatype scarcity_reason =
    Sr_bindings_unknown | Sr_missing_snapshot | Sr_snapshot_not_ok | Sr_missing_window
  | Sr_percentage_unknown | Sr_exhausted

fun sreason_str :: "scarcity_reason \<Rightarrow> string" where
  "sreason_str Sr_bindings_unknown = ''capacity_bindings_unknown''"
| "sreason_str Sr_missing_snapshot = ''missing_provider_snapshot''"
| "sreason_str Sr_snapshot_not_ok = ''provider_snapshot_not_ok''"
| "sreason_str Sr_missing_window = ''missing_scope_window''"
| "sreason_str Sr_percentage_unknown = ''window_percentage_unknown''"
| "sreason_str Sr_exhausted = ''capacity_exhausted''"

definition SCARCITY_REASON_CODES :: "scarcity_reason list" where
  "SCARCITY_REASON_CODES =
     [Sr_bindings_unknown, Sr_missing_snapshot, Sr_snapshot_not_ok, Sr_missing_window,
      Sr_percentage_unknown, Sr_exhausted]"

interpretation label_vocab: vocabulary label_str SCARCITY_LABELS
  by (rule vocabularyI, simp add: SCARCITY_LABELS_def, case_tac x, simp_all add: SCARCITY_LABELS_def)

interpretation sstate_vocab: vocabulary sstate_str SCARCITY_STATES
  by (rule vocabularyI, simp add: SCARCITY_STATES_def, case_tac x, simp_all add: SCARCITY_STATES_def)

interpretation sreason_vocab: vocabulary sreason_str SCARCITY_REASON_CODES
  by (rule vocabularyI, simp add: SCARCITY_REASON_CODES_def, case_tac x,
      simp_all add: SCARCITY_REASON_CODES_def)

section \<open>Window roles, blend, penalty and label\<close>

datatype window_role = Role_strategic | Role_tactical

definition window_role :: "window_resource \<Rightarrow> window_kind \<Rightarrow> window_role" where
  "window_role resource kind =
     (if kind = Kind_weekly then Role_strategic
      else if kind = Kind_five_hour then Role_tactical
      else if resource = Res_time then Role_tactical
      else Role_strategic)"

definition v_pct :: "pyval \<Rightarrow> string \<Rightarrow> int result" where
  "v_pct v fld = v_int sel_exn (Some 0) (Some 100) v fld"

definition pct_ok :: "int \<Rightarrow> bool" where "pct_ok n = (0 \<le> n \<and> n \<le> 100)"

definition WEEKLY_TO_FIVE_HOUR_RATIO :: int where "WEEKLY_TO_FIVE_HOUR_RATIO = 5"

definition BLEND_UNIT_COUNT :: int where "BLEND_UNIT_COUNT = WEEKLY_TO_FIVE_HOUR_RATIO + 1"

definition blended_effective_remaining_percent :: "int option \<Rightarrow> int option \<Rightarrow> int result" where
  "blended_effective_remaining_percent tactical strategic =
     bind_r
       (case tactical of
          None \<Rightarrow>
            (case strategic of
               None \<Rightarrow> Inl (sel_exn ''blended_effective_remaining_percent'')
             | Some s \<Rightarrow> bind_r (v_pct (PInt s) ''strategic_remaining'') (\<lambda>_. Inr (s, s)))
        | Some t \<Rightarrow>
            bind_r (v_pct (PInt t) ''tactical_remaining'') (\<lambda>_.
              case strategic of
                None \<Rightarrow> Inr (t, t)
              | Some s \<Rightarrow> bind_r (v_pct (PInt s) ''strategic_remaining'') (\<lambda>_. Inr (t, s))))
       (\<lambda>(a, b). let units = a + WEEKLY_TO_FIVE_HOUR_RATIO * b in Inr (units div BLEND_UNIT_COUNT))"

definition scarcity_penalty_units :: "int \<Rightarrow> int result" where
  "scarcity_penalty_units remaining =
     bind_r (v_pct (PInt remaining) ''remaining_percent'') (\<lambda>pct.
       let used = 100 - pct in Inr (used * used))"

definition scarcity_label :: "int \<Rightarrow> scarcity_label_value result" where
  "scarcity_label remaining =
     bind_r (v_pct (PInt remaining) ''remaining_percent'') (\<lambda>pct.
       if pct \<ge> 80 then Inr Lb_plentiful
       else if pct \<ge> 50 then Inr Lb_normal
       else if pct \<ge> 20 then Inr Lb_scarce
       else if pct \<ge> 1 then Inr Lb_critical
       else Inr Lb_unavailable)"

definition penalty_of :: "int \<Rightarrow> int" where
  "penalty_of r = (100 - r) * (100 - r)"

definition label_of :: "int \<Rightarrow> scarcity_label_value" where
  "label_of r =
     (if r \<ge> 80 then Lb_plentiful else if r \<ge> 50 then Lb_normal else if r \<ge> 20 then Lb_scarce
      else if r \<ge> 1 then Lb_critical else Lb_unavailable)"

definition blend :: "int \<Rightarrow> int \<Rightarrow> int" where
  "blend a b = (a + 5 * b) div 6"

lemma v_pct_Inr [valid_simps]: "v_pct v fld = Inr n \<longleftrightarrow> v = PInt n \<and> pct_ok n"
  by (auto simp: v_pct_def pct_ok_def valid_simps)

lemma v_pct_PInt [simp]: "pct_ok n \<Longrightarrow> v_pct (PInt n) fld = Inr n"
  by (simp add: v_pct_Inr)

lemma v_opt_pct [valid_simps]:
  "v_opt v_pct (opt_py PInt x) fld = Inr y \<longleftrightarrow> y = x \<and> pred_option pct_ok x"
  by (rule v_opt_num) (auto simp: valid_simps)

lemma penalty_Inr [valid_simps]:
  "scarcity_penalty_units r = Inr p \<longleftrightarrow> pct_ok r \<and> p = penalty_of r"
  by (auto simp: scarcity_penalty_units_def penalty_of_def Let_def result_simps valid_simps)

lemma label_Inr [valid_simps]: "scarcity_label r = Inr l \<longleftrightarrow> pct_ok r \<and> l = label_of r"
  by (auto simp: scarcity_label_def label_of_def result_simps valid_simps)

lemma blend_Inr [valid_simps]:
  "blended_effective_remaining_percent (Some a) (Some b) = Inr e \<longleftrightarrow> pct_ok a \<and> pct_ok b \<and> e = blend a b"
  "blended_effective_remaining_percent (Some a) None = Inr e \<longleftrightarrow> pct_ok a \<and> e = a"
  "blended_effective_remaining_percent None (Some b) = Inr e \<longleftrightarrow> pct_ok b \<and> e = b"
  by (auto simp: blended_effective_remaining_percent_def blend_def WEEKLY_TO_FIVE_HOUR_RATIO_def
      BLEND_UNIT_COUNT_def Let_def result_simps valid_simps)

lemma penalty_le_iff: "pct_ok a \<Longrightarrow> pct_ok b \<Longrightarrow> penalty_of a \<le> penalty_of b \<longleftrightarrow> b \<le> a"
  using power_mono_iff [of "100 - a" "100 - b" 2] by (simp add: penalty_of_def pct_ok_def power2_eq_square)

section \<open>Governing-window evidence\<close>

record governing_evidence =
  gw_scope :: capacity_scope_ref
  gw_resource :: window_resource
  gw_kind :: window_kind
  gw_remaining_percent :: int
  gw_window_id :: "string option"

definition mk_evidence_window :: "governing_evidence \<Rightarrow> governing_evidence result" where
  "mk_evidence_window g =
     bind_r (v_pct (PInt (gw_remaining_percent g)) ''governing_window.remaining_percent'') (\<lambda>_.
     bind_r (v_opt (v_safe_id sel_exn) (opt_py PStr (gw_window_id g)) ''governing_window.window_id'')
       (\<lambda>_. Inr g))"

definition evidence_window_from_dict :: "pyval \<Rightarrow> governing_evidence result" where
  "evidence_window_from_dict d =
     bind_r (v_exact_shape sel_exn d [''scope'', ''resource'', ''kind'', ''remaining_percent'']
               [''window_id''] ''governing_window'') (\<lambda>dd.
     bind_r (v_opt (v_safe_id sel_exn) (py_get dd ''window_id'') ''governing_window.window_id'') (\<lambda>wid.
     bind_r (v_item dd ''scope'' (\<lambda>v _. scope_from_dict v) '''') (\<lambda>scope.
     bind_r (v_item dd ''resource'' (v_enum sel_exn resource_str RESOURCE_VALUES)
               ''governing_window.resource'') (\<lambda>res.
     bind_r (v_item dd ''kind'' (v_enum sel_exn kind_str KIND_VALUES) ''governing_window.kind'') (\<lambda>kind.
     bind_r (v_item dd ''remaining_percent'' v_pct ''governing_window.remaining_percent'') (\<lambda>rem.
       mk_evidence_window \<lparr>gw_scope = scope, gw_resource = res, gw_kind = kind,
         gw_remaining_percent = rem, gw_window_id = wid\<rparr>))))))"

definition evidence_window_to_dict :: "governing_evidence \<Rightarrow> pyval" where
  "evidence_window_to_dict g =
     obj [(''scope'', Some (scope_to_dict (gw_scope g))),
          (''resource'', Some (PStr (resource_str (gw_resource g)))),
          (''kind'', Some (PStr (kind_str (gw_kind g)))),
          (''remaining_percent'', Some (PInt (gw_remaining_percent g))),
          (''window_id'', map_option PStr (gw_window_id g))]"

definition valid_evidence_window :: "governing_evidence \<Rightarrow> bool" where
  "valid_evidence_window g =
     (valid_scope (gw_scope g) \<and> pct_ok (gw_remaining_percent g)
      \<and> pred_option safe_id_match (gw_window_id g))"

lemma mk_evidence_window_Inr [valid_simps]:
  "valid_scope (gw_scope g) \<Longrightarrow> mk_evidence_window g = Inr g' \<longleftrightarrow> g' = g \<and> valid_evidence_window g"
  by (auto simp: mk_evidence_window_def valid_evidence_window_def result_simps valid_simps)

interpretation evidence_window_contract:
  contract "\<lambda>g. valid_scope (gw_scope g)" valid_evidence_window mk_evidence_window
    evidence_window_from_dict evidence_window_to_dict
proof unfold_locales
  fix r d
  show "evidence_window_from_dict d = Inr r \<Longrightarrow> valid_evidence_window r"
    by (auto simp: evidence_window_from_dict_def bind_r_Inr_iff mk_evidence_window_Inr
        dest!: scope_contract.item_ok)
  show "valid_evidence_window r \<Longrightarrow> evidence_window_from_dict (evidence_window_to_dict r) = Inr r"
    by (cases r) (auto simp: evidence_window_from_dict_def evidence_window_to_dict_def shape_simps
        result_simps valid_simps valid_evidence_window_def scope_contract.from_to)
  show "valid_evidence_window r \<Longrightarrow> mk_evidence_window r = Inr r"
    by (simp add: valid_evidence_window_def mk_evidence_window_Inr)
qed (simp_all add: mk_evidence_window_Inr)

lemma evidence_window_not_None [simp]: "evidence_window_to_dict g \<noteq> PNone"
  by (simp add: evidence_window_to_dict_def)

section \<open>The assessment contract\<close>

record scarcity_assessment =
  sa_state :: scarcity_state
  sa_label :: scarcity_label_value
  sa_penalty_units :: "int option"
  sa_effective_remaining_percent :: "int option"
  sa_applicable_scopes :: "capacity_scope_ref list"
  sa_governing_window :: "governing_evidence option"
  sa_reason_codes :: "scarcity_reason list"
  sa_strategic_window :: "governing_evidence option"
  sa_tactical_window :: "governing_evidence option"

definition v_reason_codes :: "scarcity_reason list \<Rightarrow> string \<Rightarrow> scarcity_reason list result" where
  "v_reason_codes codes fld =
     bind_r (seen_check (sel_exn fld) {} codes) (\<lambda>_. Inr (sort_key sreason_str codes))"

definition check_unknown_state :: "scarcity_assessment \<Rightarrow> scarcity_assessment result" where
  "check_unknown_state a =
     (let err = Inl (sel_exn ''scarcity_assessment'') in
      if sa_penalty_units a \<noteq> None \<or> sa_effective_remaining_percent a \<noteq> None then err
      else if sa_governing_window a \<noteq> None then err
      else if sa_strategic_window a \<noteq> None \<or> sa_tactical_window a \<noteq> None then err
      else if sa_label a \<noteq> Lb_unknown then err
      else if sa_reason_codes a = [] then err
      else if Sr_exhausted \<in> set (sa_reason_codes a) then err
      else if Sr_bindings_unknown \<in> set (sa_reason_codes a) then
        (if sa_reason_codes a \<noteq> [Sr_bindings_unknown] then err
         else if sa_applicable_scopes a \<noteq> [] then err else Inr a)
      else if sa_applicable_scopes a = [] then err
      else Inr a)"

definition check_role :: "governing_evidence option \<Rightarrow> window_role \<Rightarrow> unit result" where
  "check_role g role =
     (case g of
        None \<Rightarrow> Inr ()
      | Some e \<Rightarrow>
          if window_role (gw_resource e) (gw_kind e) \<noteq> role then Inl (sel_exn ''scarcity_assessment'')
          else Inr ())"

definition check_roles_state :: "scarcity_assessment \<Rightarrow> int \<Rightarrow> governing_evidence \<Rightarrow> unit result" where
  "check_roles_state a effective governing =
     (let strategic = sa_strategic_window a; tactical = sa_tactical_window a;
          exn = sel_exn ''scarcity_assessment'' in
      if sa_state a = Sc_unavailable then
        (if strategic \<noteq> None \<or> tactical \<noteq> None then Inl exn else Inr ())
      else if strategic = None \<and> tactical = None then Inl exn
      else if Some governing \<noteq> (if strategic \<noteq> None then strategic else tactical) then Inl exn
      else bind_r (blended_effective_remaining_percent
                     (map_option gw_remaining_percent tactical)
                     (map_option gw_remaining_percent strategic)) (\<lambda>expected.
        if effective \<noteq> expected then Inl exn else Inr ()))"

definition check_numeric_state :: "scarcity_assessment \<Rightarrow> scarcity_assessment result" where
  "check_numeric_state a =
     (let exn = sel_exn ''scarcity_assessment'' in
      bind_r (v_pct (opt_py PInt (sa_effective_remaining_percent a))
                ''scarcity_assessment.effective_remaining_percent'') (\<lambda>effective.
      bind_r (v_int sel_exn None None (opt_py PInt (sa_penalty_units a))
                ''scarcity_assessment.penalty_units'') (\<lambda>penalty.
      bind_r (scarcity_penalty_units effective) (\<lambda>expected_penalty.
      bind_r (guard_r (penalty = expected_penalty) exn) (\<lambda>_.
      bind_r (scarcity_label effective) (\<lambda>expected_label.
      bind_r (guard_r (sa_label a = expected_label) exn) (\<lambda>_.
      bind_r (case sa_governing_window a of
                None \<Rightarrow> Inl (sel_exn ''scarcity_assessment.governing_window'')
              | Some g \<Rightarrow> Inr g) (\<lambda>governing.
      bind_r (check_role (sa_strategic_window a) Role_strategic) (\<lambda>_.
      bind_r (check_role (sa_tactical_window a) Role_tactical) (\<lambda>_.
      bind_r (check_roles_state a effective governing) (\<lambda>_.
      bind_r (guard_r ((sa_state a = Sc_known \<and> sa_strategic_window a \<noteq> None)
                       \<or> gw_remaining_percent governing = effective) exn) (\<lambda>_.
      bind_r (guard_r (sa_applicable_scopes a \<noteq> []) exn) (\<lambda>_.
      bind_r (guard_r (gw_scope governing \<in> set (sa_applicable_scopes a)) exn) (\<lambda>_.
        if sa_state a = Sc_known then
          (if effective = 0 then Inl exn else if sa_reason_codes a \<noteq> [] then Inl exn else Inr a)
        else
          (if effective \<noteq> 0 then Inl exn
           else if Sr_exhausted \<notin> set (sa_reason_codes a) then Inl exn
           else Inr a)))))))))))))))"

definition check_state :: "scarcity_assessment \<Rightarrow> scarcity_assessment result" where
  "check_state a = (if sa_state a = Sc_unknown then check_unknown_state a else check_numeric_state a)"

definition mk_scarcity :: "scarcity_assessment \<Rightarrow> scarcity_assessment result" where
  "mk_scarcity a0 =
     bind_r (v_reason_codes (sa_reason_codes a0) ''scarcity_assessment.reason_codes'') (\<lambda>codes.
       check_state (a0\<lparr>sa_reason_codes := codes,
         sa_applicable_scopes := sort_key scope_key (sa_applicable_scopes a0)\<rparr>))"

definition SCARCITY_OPTIONAL :: "string list" where
  "SCARCITY_OPTIONAL = [''penalty_units'', ''effective_remaining_percent'', ''governing_window'',
     ''strategic_window'', ''tactical_window'']"

definition scarcity_from_dict :: "pyval \<Rightarrow> scarcity_assessment result" where
  "scarcity_from_dict d =
     bind_r (v_exact_shape sel_exn d [''state'', ''label'', ''applicable_scopes'', ''reason_codes'']
               SCARCITY_OPTIONAL ''scarcity_assessment'') (\<lambda>dd.
     bind_r (v_item dd ''applicable_scopes'' (v_list_of sel_exn scope_from_dict)
               ''scarcity_assessment.applicable_scopes'') (\<lambda>scopes.
     bind_r (v_item dd ''reason_codes'' (v_list_of sel_exn
                (\<lambda>c. v_enum sel_exn sreason_str SCARCITY_REASON_CODES c ''scarcity_assessment.reason_codes''))
               ''scarcity_assessment.reason_codes'') (\<lambda>codes.
     bind_r (v_opt (\<lambda>v _. evidence_window_from_dict v) (py_get dd ''governing_window'') '''') (\<lambda>governing.
     bind_r (v_opt (\<lambda>v _. evidence_window_from_dict v) (py_get dd ''strategic_window'') '''') (\<lambda>strategic.
     bind_r (v_opt (\<lambda>v _. evidence_window_from_dict v) (py_get dd ''tactical_window'') '''') (\<lambda>tactical.
     bind_r (v_opt (v_int sel_exn None None) (py_get dd ''penalty_units'')
               ''scarcity_assessment.penalty_units'') (\<lambda>penalty.
     bind_r (v_opt v_pct (py_get dd ''effective_remaining_percent'')
               ''scarcity_assessment.effective_remaining_percent'') (\<lambda>effective.
     bind_r (v_item dd ''state'' (v_enum sel_exn sstate_str SCARCITY_STATES)
               ''scarcity_assessment.state'') (\<lambda>state.
     bind_r (v_item dd ''label'' (v_enum sel_exn label_str SCARCITY_LABELS)
               ''scarcity_assessment.label'') (\<lambda>label.
       mk_scarcity \<lparr>sa_state = state, sa_label = label, sa_penalty_units = penalty,
         sa_effective_remaining_percent = effective, sa_applicable_scopes = scopes,
         sa_governing_window = governing, sa_reason_codes = codes,
         sa_strategic_window = strategic, sa_tactical_window = tactical\<rparr>))))))))))"

definition scarcity_to_dict :: "scarcity_assessment \<Rightarrow> pyval" where
  "scarcity_to_dict a =
     obj [(''state'', Some (PStr (sstate_str (sa_state a)))),
          (''label'', Some (PStr (label_str (sa_label a)))),
          (''penalty_units'', map_option PInt (sa_penalty_units a)),
          (''effective_remaining_percent'', map_option PInt (sa_effective_remaining_percent a)),
          (''applicable_scopes'', Some (PList (map scope_to_dict (sa_applicable_scopes a)))),
          (''governing_window'', map_option evidence_window_to_dict (sa_governing_window a)),
          (''strategic_window'', map_option evidence_window_to_dict (sa_strategic_window a)),
          (''tactical_window'', map_option evidence_window_to_dict (sa_tactical_window a)),
          (''reason_codes'', Some (PList (map (\<lambda>c. PStr (sreason_str c)) (sa_reason_codes a))))]"

subsection \<open>The three forms of an assessment\<close>

definition unknown_form :: "scarcity_assessment \<Rightarrow> bool" where
  "unknown_form a =
     (sa_penalty_units a = None \<and> sa_effective_remaining_percent a = None
      \<and> sa_governing_window a = None \<and> sa_strategic_window a = None \<and> sa_tactical_window a = None
      \<and> sa_label a = Lb_unknown \<and> sa_reason_codes a \<noteq> [] \<and> Sr_exhausted \<notin> set (sa_reason_codes a)
      \<and> (if Sr_bindings_unknown \<in> set (sa_reason_codes a)
         then sa_reason_codes a = [Sr_bindings_unknown] \<and> sa_applicable_scopes a = []
         else sa_applicable_scopes a \<noteq> []))"

definition numeric_form :: "scarcity_assessment \<Rightarrow> int \<Rightarrow> governing_evidence \<Rightarrow> bool" where
  "numeric_form a e g =
     (sa_effective_remaining_percent a = Some e \<and> sa_penalty_units a = Some (penalty_of e)
      \<and> sa_label a = label_of e \<and> sa_governing_window a = Some g
      \<and> pct_ok e \<and> gw_scope g \<in> set (sa_applicable_scopes a))"

definition role_is :: "window_role \<Rightarrow> governing_evidence \<Rightarrow> bool" where
  "role_is role g = (window_role (gw_resource g) (gw_kind g) = role)"

definition unavailable_form :: "scarcity_assessment \<Rightarrow> bool" where
  "unavailable_form a =
     (\<exists>g. numeric_form a 0 g \<and> gw_remaining_percent g = 0 \<and> sa_strategic_window a = None
        \<and> sa_tactical_window a = None \<and> Sr_exhausted \<in> set (sa_reason_codes a))"

definition known_form :: "scarcity_assessment \<Rightarrow> bool" where
  "known_form a =
     (\<exists>e g. numeric_form a e g \<and> e \<noteq> 0 \<and> sa_reason_codes a = []
        \<and> pred_option (role_is Role_strategic) (sa_strategic_window a)
        \<and> pred_option (role_is Role_tactical) (sa_tactical_window a)
        \<and> Some g = (if sa_strategic_window a \<noteq> None then sa_strategic_window a else sa_tactical_window a)
        \<and> blended_effective_remaining_percent
             (map_option gw_remaining_percent (sa_tactical_window a))
             (map_option gw_remaining_percent (sa_strategic_window a)) = Inr e)"

definition scarcity_parts :: "scarcity_assessment \<Rightarrow> bool" where
  "scarcity_parts a =
     (list_all valid_scope (sa_applicable_scopes a)
      \<and> pred_option valid_evidence_window (sa_governing_window a)
      \<and> pred_option valid_evidence_window (sa_strategic_window a)
      \<and> pred_option valid_evidence_window (sa_tactical_window a))"

definition valid_scarcity :: "scarcity_assessment \<Rightarrow> bool" where
  "valid_scarcity a =
     (scarcity_parts a \<and> sorted (map scope_key (sa_applicable_scopes a))
      \<and> sorted (map sreason_str (sa_reason_codes a)) \<and> distinct (sa_reason_codes a)
      \<and> (case sa_state a of
           Sc_unknown \<Rightarrow> unknown_form a
         | Sc_unavailable \<Rightarrow> unavailable_form a
         | Sc_known \<Rightarrow> known_form a))"

lemma v_reason_codes_Inr [valid_simps]:
  "v_reason_codes codes fld = Inr cs \<longleftrightarrow> distinct codes \<and> cs = sort_key sreason_str codes"
  by (auto simp: v_reason_codes_def result_simps)

lemma check_unknown_state_Inr: "check_unknown_state a = Inr a' \<longleftrightarrow> a' = a \<and> unknown_form a"
  unfolding check_unknown_state_def unknown_form_def Let_def by auto

lemma check_role_Inr [valid_simps]: "check_role g role = Inr u \<longleftrightarrow> pred_option (role_is role) g"
  by (cases g) (auto simp: check_role_def role_is_def)

lemma single_role_blend:
  "Some g = (if s \<noteq> None then s else t) \<Longrightarrow>
   blended_effective_remaining_percent (map_option gw_remaining_percent t)
     (map_option gw_remaining_percent s) = Inr e \<Longrightarrow> s = None \<Longrightarrow> gw_remaining_percent g = e"
  by (auto simp: valid_simps)

lemma check_roles_known:
  "sa_state a = Sc_known \<Longrightarrow> check_roles_state a e g = Inr u \<longleftrightarrow>
     Some g = (if sa_strategic_window a \<noteq> None then sa_strategic_window a else sa_tactical_window a)
     \<and> blended_effective_remaining_percent
          (map_option gw_remaining_percent (sa_tactical_window a))
          (map_option gw_remaining_percent (sa_strategic_window a)) = Inr e"
  by (cases "sa_strategic_window a"; cases "sa_tactical_window a")
    (auto simp: check_roles_state_def Let_def result_simps)

lemma check_roles_unavailable:
  "sa_state a = Sc_unavailable \<Longrightarrow> check_roles_state a e g = Inr u \<longleftrightarrow>
     sa_strategic_window a = None \<and> sa_tactical_window a = None"
  by (auto simp: check_roles_state_def Let_def)

lemma v_pct_opt: "v_pct (opt_py PInt x) fld = Inr n \<longleftrightarrow> x = Some n \<and> pct_ok n"
  by (auto simp: valid_simps)

lemma v_int_opt: "v_int exn None None (opt_py PInt x) fld = Inr n \<longleftrightarrow> x = Some n"
  by (auto simp: valid_simps)

lemma some_governing:
  "(case w of None \<Rightarrow> Inl e | Some g \<Rightarrow> Inr g) = Inr g' \<longleftrightarrow> w = Some g'"
  by (cases w) auto

lemmas numeric_state_simps = bind_r_Inr_iff guard_r_Inr_iff v_pct_opt v_int_opt some_governing
  penalty_Inr label_Inr check_role_Inr

lemma check_numeric_known:
  assumes "sa_state a = Sc_known"
  shows "check_numeric_state a = Inr a' \<longleftrightarrow> a' = a \<and> known_form a"
proof (cases "sa_strategic_window a")
  case None
  note no_strategic = this
  show ?thesis
  proof (cases "sa_tactical_window a")
    case None
    with no_strategic show ?thesis
      by (simp add: check_numeric_state_def Let_def known_form_def numeric_form_def
          numeric_state_simps check_roles_known [OF assms] assms)
  next
    case (Some t)
    with no_strategic show ?thesis
      by (simp add: check_numeric_state_def Let_def known_form_def numeric_form_def valid_simps
          numeric_state_simps check_roles_known [OF assms] assms cong: conj_cong) fastforce
  qed
next
  case (Some s)
  then show ?thesis
    by (simp add: check_numeric_state_def Let_def known_form_def numeric_form_def
        numeric_state_simps check_roles_known [OF assms] assms cong: conj_cong) fastforce
qed

lemma check_numeric_unavailable:
  assumes "sa_state a = Sc_unavailable"
  shows "check_numeric_state a = Inr a' \<longleftrightarrow> a' = a \<and> unavailable_form a"
  unfolding check_numeric_state_def Let_def unavailable_form_def numeric_form_def
  by (auto simp: numeric_state_simps check_roles_unavailable [OF assms] assms pct_ok_def
      split: if_splits)

lemma scarcity_forms:
  "check_state a = Inr a' \<longleftrightarrow> a' = a \<and> (case sa_state a of
           Sc_unknown \<Rightarrow> unknown_form a
         | Sc_unavailable \<Rightarrow> unavailable_form a
         | Sc_known \<Rightarrow> known_form a)"
  by (cases "sa_state a")
    (simp_all add: check_state_def check_unknown_state_Inr check_numeric_known check_numeric_unavailable)

definition canon_scarcity :: "scarcity_assessment \<Rightarrow> scarcity_assessment" where
  "canon_scarcity a =
     a\<lparr>sa_reason_codes := sort_key sreason_str (sa_reason_codes a),
       sa_applicable_scopes := sort_key scope_key (sa_applicable_scopes a)\<rparr>"

lemma mk_scarcity_Inr:
  assumes "scarcity_parts a"
  shows "mk_scarcity a = Inr a' \<longleftrightarrow> a' = canon_scarcity a \<and> distinct (sa_reason_codes a) \<and> valid_scarcity a'"
proof -
  have "scarcity_parts (canon_scarcity a)"
    using assms by (auto simp: scarcity_parts_def canon_scarcity_def list_all_iff)
  then show ?thesis
    by (auto simp: mk_scarcity_def bind_r_Inr_iff v_reason_codes_Inr scarcity_forms Let_def
        valid_scarcity_def canon_scarcity_def)
qed

lemma canon_scarcity_id: "valid_scarcity a \<Longrightarrow> canon_scarcity a = a"
  by (simp add: canon_scarcity_def valid_scarcity_def)

lemma valid_scarcity_parts: "valid_scarcity a \<Longrightarrow> scarcity_parts a"
  by (simp add: valid_scarcity_def)

lemma mk_valid_scarcity: "valid_scarcity a \<Longrightarrow> mk_scarcity a = Inr a"
  by (simp add: mk_scarcity_Inr valid_scarcity_parts canon_scarcity_id) (simp add: valid_scarcity_def)

lemma codes_wire:
  "traverse (\<lambda>c. v_enum sel_exn sreason_str SCARCITY_REASON_CODES c fld)
     (map (\<lambda>c. PStr (sreason_str c)) cs) = Inr cs"
  by (rule traverse_map_Inr) (rule sreason_vocab.v_enum_str)

lemma numeric_fields:
  "valid_scarcity a \<Longrightarrow> pred_option pct_ok (sa_effective_remaining_percent a)"
  by (cases "sa_state a") (auto simp: valid_scarcity_def unknown_form_def known_form_def
      unavailable_form_def numeric_form_def)

interpretation scarcity_contract:
  contract scarcity_parts valid_scarcity mk_scarcity scarcity_from_dict scarcity_to_dict
proof unfold_locales
  fix r d
  show "scarcity_from_dict d = Inr r \<Longrightarrow> valid_scarcity r"
    by (auto simp: scarcity_from_dict_def bind_r_Inr_iff mk_scarcity_Inr scarcity_parts_def
        dest!: scope_contract.item_list_ok evidence_window_contract.opt_ok)
  show "valid_scarcity r \<Longrightarrow> mk_scarcity r = Inr r" by (rule mk_valid_scarcity)
  show "valid_scarcity r \<Longrightarrow> scarcity_from_dict (scarcity_to_dict r) = Inr r"
    by (frule numeric_fields; frule mk_valid_scarcity; frule valid_scarcity_parts; cases r)
      (auto simp: scarcity_from_dict_def scarcity_to_dict_def SCARCITY_OPTIONAL_def shape_simps
        result_simps valid_simps scarcity_parts_def scope_contract.list_from_to
        evidence_window_contract.opt_from_to codes_wire
        sstate_vocab.v_enum_str label_vocab.v_enum_str)
qed (simp_all add: mk_scarcity_Inr)

section \<open>Assessing one catalog entry\<close>

type_synonym known_window = "capacity_scope_ref \<times> capacity_window \<times> int"

definition canonical_window_key ::
  "capacity_scope_ref \<Rightarrow> capacity_window \<Rightarrow> string \<times> string \<times> string \<times> string \<times> string" where
  "canonical_window_key scope w =
     (cs_provider scope, cs_scope_id scope, resource_str (w_resource w), kind_str (w_kind w),
      case w_window_id w of None \<Rightarrow> '''' | Some i \<Rightarrow> i)"

fun min_by :: "('a \<Rightarrow> 'b::linorder) \<Rightarrow> 'a \<Rightarrow> 'a list \<Rightarrow> 'a" where
  \<comment> \<open>\<open>min(x :: xs, key=f)\<close>: the first minimal element\<close>
  "min_by f x [] = x"
| "min_by f x (y # ys) = min_by f (if f y < f x then y else x) ys"

definition pick_governing :: "known_window list \<Rightarrow> known_window result" where
  "pick_governing candidates =
     bind_r (traverse (\<lambda>(_, _, r). scarcity_penalty_units r) candidates) (\<lambda>penalties.
       case penalties of
         [] \<Rightarrow> Inl (ValueError ''max'')
       | p # ps \<Rightarrow>
           (let max_penalty = fold max ps p in
            case filter (\<lambda>(_, _, r). scarcity_penalty_units r = Inr max_penalty) candidates of
              [] \<Rightarrow> Inl (ValueError ''min'')
            | c # cs \<Rightarrow> Inr (min_by (\<lambda>(s, w, _). canonical_window_key s w) c cs)))"

definition unknown_assessment_of ::
  "scarcity_reason list \<Rightarrow> capacity_scope_ref list \<Rightarrow> scarcity_assessment result" where
  "unknown_assessment_of reasons scopes =
     mk_scarcity \<lparr>sa_state = Sc_unknown, sa_label = Lb_unknown, sa_penalty_units = None,
       sa_effective_remaining_percent = None, sa_applicable_scopes = scopes,
       sa_governing_window = None, sa_reason_codes = reasons, sa_strategic_window = None,
       sa_tactical_window = None\<rparr>"

definition governing_evidence_of ::
  "capacity_scope_ref \<Rightarrow> capacity_window \<Rightarrow> int \<Rightarrow> governing_evidence result" where
  "governing_evidence_of scope w remaining =
     mk_evidence_window \<lparr>gw_scope = scope, gw_resource = w_resource w, gw_kind = w_kind w,
       gw_remaining_percent = remaining, gw_window_id = w_window_id w\<rparr>"

fun snapshots_by_provider ::
  "string \<Rightarrow> (string \<rightharpoonup> capacity_snapshot) \<Rightarrow> capacity_snapshot list \<Rightarrow>
   (string \<rightharpoonup> capacity_snapshot) result" where
  \<comment> \<open>the loop every evaluation of snapshots starts with, under the evaluation's own label\<close>
  "snapshots_by_provider fld m [] = Inr m"
| "snapshots_by_provider fld m (s # ss) =
     (if m (sn_provider s) \<noteq> None then Inl (sel_exn fld)
      else snapshots_by_provider fld (m(sn_provider s \<mapsto> s)) ss)"

text \<open>
  The scan keeps the code's set \<open>reason_codes\<close> as a list without repetitions and its list
  \<open>known_windows\<close>; the flag is the local \<open>matched\<close>.
\<close>

type_synonym scan = "scarcity_reason list \<times> known_window list"

definition add_code :: "scarcity_reason \<Rightarrow> scan \<Rightarrow> scan" where
  "add_code c = (\<lambda>(codes, known). (List.insert c codes, known))"

definition scan_window :: "capacity_scope_ref \<Rightarrow> capacity_window \<Rightarrow> bool \<times> scan \<Rightarrow> bool \<times> scan" where
  "scan_window b w = (\<lambda>(matched, codes, known).
     if w_scope_id w \<noteq> Some (cs_scope_id b) then (matched, codes, known)
     else case (w_used_percent w, w_remaining_percent w) of
            (Some _, Some r) \<Rightarrow> (True, codes, known @ [(b, w, r)])
          | _ \<Rightarrow> (True, add_code Sr_percentage_unknown (codes, known)))"

definition scan_binding ::
  "(string \<rightharpoonup> capacity_snapshot) \<Rightarrow> capacity_scope_ref \<Rightarrow> scan \<Rightarrow> scan" where
  "scan_binding m b sc =
     (case m (cs_provider b) of
        None \<Rightarrow> add_code Sr_missing_snapshot sc
      | Some s \<Rightarrow>
          if sn_status s \<noteq> St_ok then add_code Sr_snapshot_not_ok sc
          else let (matched, sc') = fold (scan_window b) (sn_windows s) (False, sc)
               in if \<not> matched then add_code Sr_missing_window sc' else sc')"

definition role_pool :: "window_role \<Rightarrow> known_window list \<Rightarrow> known_window list" where
  "role_pool role known = filter (\<lambda>(_, w, _). window_role (w_resource w) (w_kind w) = role) known"

definition representative :: "known_window list \<Rightarrow> known_window option result" where
  "representative pool =
     (if pool \<noteq> [] then bind_r (pick_governing pool) (\<lambda>t. Inr (Some t)) else Inr None)"

definition evidence_out :: "known_window option \<Rightarrow> governing_evidence option result" where
  "evidence_out rep =
     (case rep of
        None \<Rightarrow> Inr None
      | Some (s, w, r) \<Rightarrow> bind_r (governing_evidence_of s w r) (\<lambda>g. Inr (Some g)))"

definition assess_exhausted ::
  "capacity_scope_ref list \<Rightarrow> scarcity_reason list \<Rightarrow> known_window list \<Rightarrow> scarcity_assessment result" where
  "assess_exhausted bindings codes exhausted =
     bind_r (pick_governing exhausted) (\<lambda>(s, w, _).
     bind_r (governing_evidence_of s w 0) (\<lambda>g.
       mk_scarcity \<lparr>sa_state = Sc_unavailable, sa_label = Lb_unavailable,
         sa_penalty_units = Some 10000, sa_effective_remaining_percent = Some 0,
         sa_applicable_scopes = bindings, sa_governing_window = Some g,
         sa_reason_codes = sort_key sreason_str (List.insert Sr_exhausted codes),
         sa_strategic_window = None, sa_tactical_window = None\<rparr>))"

definition assess_known ::
  "capacity_scope_ref list \<Rightarrow> known_window list \<Rightarrow> scarcity_assessment result" where
  "assess_known bindings known =
     bind_r (representative (role_pool Role_strategic known)) (\<lambda>strategic.
     bind_r (representative (role_pool Role_tactical known)) (\<lambda>tactical.
     bind_r (blended_effective_remaining_percent (map_option (\<lambda>(_, _, r). r) tactical)
               (map_option (\<lambda>(_, _, r). r) strategic)) (\<lambda>effective.
     bind_r (evidence_out strategic) (\<lambda>strategic_out.
     bind_r (evidence_out tactical) (\<lambda>tactical_out.
     bind_r (case (if strategic_out \<noteq> None then strategic_out else tactical_out) of
               None \<Rightarrow> Inl (sel_exn ''assess_scarcity'')
             | Some g \<Rightarrow> Inr g) (\<lambda>governing.
     bind_r (scarcity_label effective) (\<lambda>label.
     bind_r (scarcity_penalty_units effective) (\<lambda>penalty.
       mk_scarcity \<lparr>sa_state = Sc_known, sa_label = label, sa_penalty_units = Some penalty,
         sa_effective_remaining_percent = Some effective, sa_applicable_scopes = bindings,
         sa_governing_window = Some governing, sa_reason_codes = [],
         sa_strategic_window = strategic_out, sa_tactical_window = tactical_out\<rparr>))))))))"

definition assess_scarcity ::
  "model_catalog_entry \<Rightarrow> capacity_snapshot list \<Rightarrow> scarcity_assessment result" where
  "assess_scarcity e snapshots =
     bind_r (snapshots_by_provider ''assess_scarcity.snapshots'' Map.empty snapshots) (\<lambda>m.
       case ce_capacity_bindings e of
         None \<Rightarrow> unknown_assessment_of [Sr_bindings_unknown] []
       | Some bindings \<Rightarrow>
           (let (codes, known) = fold (scan_binding m) bindings ([], []);
                exhausted = filter (\<lambda>(_, _, r). r = 0) known in
            if exhausted \<noteq> [] then assess_exhausted bindings codes exhausted
            else if codes \<noteq> [] then
              unknown_assessment_of (sort_key sreason_str codes) bindings
            else if known = [] then Inl (sel_exn ''assess_scarcity'')
            else assess_known bindings known))"

section \<open>What the scan finds\<close>

definition remaining_of :: "capacity_window \<Rightarrow> int option" where
  \<comment> \<open>the remaining percentage of a window with a usable percentage pair\<close>
  "remaining_of w = (if w_used_percent w = None then None else w_remaining_percent w)"

definition bound_windows ::
  "(string \<rightharpoonup> capacity_snapshot) \<Rightarrow> capacity_scope_ref \<Rightarrow> capacity_window list" where
  \<comment> \<open>the windows of a trustworthy snapshot that carry the scope\<close>
  "bound_windows m b =
     (case m (cs_provider b) of
        None \<Rightarrow> []
      | Some s \<Rightarrow> if sn_status s = St_ok
                  then filter (\<lambda>w. w_scope_id w = Some (cs_scope_id b)) (sn_windows s) else [])"

definition known_pairs :: "capacity_scope_ref \<Rightarrow> capacity_window list \<Rightarrow> known_window list" where
  "known_pairs b ws = List.map_filter (\<lambda>w. map_option (\<lambda>r. (b, w, r)) (remaining_of w)) ws"

definition binding_codes ::
  "(string \<rightharpoonup> capacity_snapshot) \<Rightarrow> capacity_scope_ref \<Rightarrow> scarcity_reason set" where
  "binding_codes m b =
     (case m (cs_provider b) of
        None \<Rightarrow> {Sr_missing_snapshot}
      | Some s \<Rightarrow>
          if sn_status s \<noteq> St_ok then {Sr_snapshot_not_ok}
          else (if bound_windows m b = [] then {Sr_missing_window} else {})
             \<union> (if list_ex (\<lambda>w. remaining_of w = None) (bound_windows m b)
                then {Sr_percentage_unknown} else {}))"

definition all_known :: "(string \<rightharpoonup> capacity_snapshot) \<Rightarrow> capacity_scope_ref list \<Rightarrow> known_window list" where
  "all_known m bs = concat (map (\<lambda>b. known_pairs b (bound_windows m b)) bs)"

definition all_codes :: "(string \<rightharpoonup> capacity_snapshot) \<Rightarrow> capacity_scope_ref list \<Rightarrow> scarcity_reason set" where
  "all_codes m bs = (\<Union>b \<in> set bs. binding_codes m b)"

lemma known_pairs_simps [simp]:
  "known_pairs b [] = []"
  "known_pairs b (w # ws) =
     (case remaining_of w of None \<Rightarrow> known_pairs b ws | Some r \<Rightarrow> (b, w, r) # known_pairs b ws)"
  by (simp_all add: known_pairs_def map_filter_simps split: option.splits)

lemma set_known_pairs: "set (known_pairs b ws) = {(b, w, r) | w r. w \<in> set ws \<and> remaining_of w = Some r}"
  by (induction ws) (auto split: option.splits)

lemma scan_windows:
  "\<exists>codes'. fold (scan_window b) ws (matched, codes, known) =
      (matched \<or> filter (\<lambda>w. w_scope_id w = Some (cs_scope_id b)) ws \<noteq> [], codes',
       known @ known_pairs b (filter (\<lambda>w. w_scope_id w = Some (cs_scope_id b)) ws))
    \<and> set codes' = set codes \<union>
        (if list_ex (\<lambda>w. remaining_of w = None) (filter (\<lambda>w. w_scope_id w = Some (cs_scope_id b)) ws)
         then {Sr_percentage_unknown} else {})
    \<and> (distinct codes \<longrightarrow> distinct codes')"
proof (induction ws arbitrary: matched codes known)
  case (Cons w ws)
  show ?case
  proof (cases "w_scope_id w = Some (cs_scope_id b)")
    case False
    then have "scan_window b w (matched, codes, known) = (matched, codes, known)"
      by (simp add: scan_window_def)
    with False Cons.IH [of matched codes known] show ?thesis by simp
  next
    case True
    note scoped = True
    show ?thesis
    proof (cases "remaining_of w")
      case None
      with scoped have "scan_window b w (matched, codes, known)
          = (True, List.insert Sr_percentage_unknown codes, known)"
        by (auto simp: scan_window_def remaining_of_def add_code_def split: option.splits if_splits)
      with scoped None Cons.IH [of True "List.insert Sr_percentage_unknown codes" known]
      show ?thesis by (auto split: if_splits)
    next
      case (Some r)
      with scoped have "scan_window b w (matched, codes, known) = (True, codes, known @ [(b, w, r)])"
        by (auto simp: scan_window_def remaining_of_def split: option.splits if_splits)
      with scoped Some Cons.IH [of True codes "known @ [(b, w, r)]"] show ?thesis by simp
    qed
  qed
qed simp

lemma scan_one:
  "\<exists>codes'. scan_binding m b (codes, known) = (codes', known @ known_pairs b (bound_windows m b))
    \<and> set codes' = set codes \<union> binding_codes m b \<and> (distinct codes \<longrightarrow> distinct codes')"
proof (cases "m (cs_provider b)")
  case None
  then show ?thesis
    by (auto simp: scan_binding_def bound_windows_def binding_codes_def add_code_def)
next
  case (Some s)
  show ?thesis
  proof (cases "sn_status s = St_ok")
    case False
    with Some show ?thesis
      by (auto simp: scan_binding_def bound_windows_def binding_codes_def add_code_def)
  next
    case True
    with Some scan_windows [of b "sn_windows s" False codes known] show ?thesis
      by (auto simp: scan_binding_def bound_windows_def binding_codes_def add_code_def
          split: prod.splits)
  qed
qed

lemma scan_all:
  "\<exists>codes'. fold (scan_binding m) bs (codes, known) = (codes', known @ all_known m bs)
    \<and> set codes' = set codes \<union> all_codes m bs \<and> (distinct codes \<longrightarrow> distinct codes')"
proof (induction bs arbitrary: codes known)
  case (Cons b bs)
  obtain codes' where 1: "scan_binding m b (codes, known) = (codes', known @ known_pairs b (bound_windows m b))"
    "set codes' = set codes \<union> binding_codes m b" "distinct codes \<longrightarrow> distinct codes'"
    using scan_one [of m b codes known] by blast
  with Cons.IH [of codes' "known @ known_pairs b (bound_windows m b)"] show ?case
    by (auto simp: all_known_def all_codes_def)
qed (simp add: all_known_def all_codes_def)

definition snapshot_map :: "capacity_snapshot list \<Rightarrow> (string \<rightharpoonup> capacity_snapshot)" where
  "snapshot_map ss = map_of (map (\<lambda>s. (sn_provider s, s)) ss)"

lemma snapshots_by_provider_eq:
  "snapshots_by_provider fld m ss =
     (if distinct (map sn_provider ss) \<and> sn_provider ` set ss \<inter> dom m = {}
      then Inr (m ++ snapshot_map ss) else Inl (sel_exn fld))"
proof (induction ss arbitrary: m)
  case (Cons s ss)
  have "sn_provider s \<notin> sn_provider ` set ss \<Longrightarrow>
      m(sn_provider s \<mapsto> s) ++ snapshot_map ss = m ++ snapshot_map (s # ss)"
    by (subst map_add_upd_left) (auto simp: snapshot_map_def dom_map_of_conv_image_fst)
  note upd = this
  show ?case
  proof (cases "m (sn_provider s)")
    case None
    define m' where "m' = m(sn_provider s \<mapsto> s)"
    have step: "snapshots_by_provider fld m (s # ss) = snapshots_by_provider fld m' ss"
      using None by (simp add: m'_def)
    have dom': "dom m' = insert (sn_provider s) (dom m)" by (simp add: m'_def)
    show ?thesis
      unfolding step Cons.IH dom' using None upd by (auto simp: m'_def)
  next
    case (Some s')
    then show ?thesis by (auto simp: dom_def)
  qed
qed (simp add: snapshot_map_def)

lemma snapshot_map_Some:
  "snapshot_map ss p = Some s \<Longrightarrow> s \<in> set ss \<and> sn_provider s = p"
  by (auto simp: snapshot_map_def dest: map_of_SomeD)

lemma snapshot_map_perm:
  assumes "mset ss = mset ss'" "distinct (map sn_provider ss)"
  shows "snapshot_map ss = snapshot_map ss'"
  unfolding snapshot_map_def
proof (rule map_of_inject_set [THEN iffD2])
  show "distinct (map fst (map (\<lambda>s. (sn_provider s, s)) ss))"
    using assms(2) by (simp add: comp_def)
  show "distinct (map fst (map (\<lambda>s. (sn_provider s, s)) ss'))"
    using assms distinct_map_mset [OF assms(1), of sn_provider] by (simp add: comp_def)
  show "set (map (\<lambda>s. (sn_provider s, s)) ss) = set (map (\<lambda>s. (sn_provider s, s)) ss')"
    using mset_eq_setD [OF assms(1)] by simp
qed

section \<open>The governing window\<close>

definition kw_remaining :: "known_window \<Rightarrow> int" where
  "kw_remaining = (\<lambda>(_, _, r). r)"

definition kw_rank :: "known_window \<Rightarrow> int \<times> string \<times> string \<times> string \<times> string \<times> string" where
  \<comment> \<open>least remaining first, then the canonical key\<close>
  "kw_rank = (\<lambda>(s, w, r). (r, canonical_window_key s w))"

definition evidence_of :: "known_window \<Rightarrow> governing_evidence" where
  "evidence_of = (\<lambda>(s, w, r). \<lparr>gw_scope = s, gw_resource = w_resource w, gw_kind = w_kind w,
     gw_remaining_percent = r, gw_window_id = w_window_id w\<rparr>)"

definition kw_ok :: "known_window \<Rightarrow> bool" where
  "kw_ok = (\<lambda>(s, w, r). valid_scope s \<and> pred_option safe_id_match (w_window_id w) \<and> pct_ok r)"

lemma min_by_least: "min_by f x xs \<in> set (x # xs) \<and> (\<forall>y \<in> set (x # xs). f (min_by f x xs) \<le> f y)"
proof (induction xs arbitrary: x)
  case (Cons y ys)
  define z where "z = (if f y < f x then y else x)"
  have "f z \<le> f x" "f z \<le> f y" "z \<in> {x, y}" by (auto simp: z_def)
  with Cons.IH [of z] show ?case by (auto simp flip: z_def intro: order_trans)
qed simp

lemma evidence_by_rank:
  assumes "kw_ok t" "kw_ok u" "kw_rank t = kw_rank u"
  shows "evidence_of t = evidence_of u"
  using assms
  by (cases t; cases u)
    (auto simp: kw_ok_def kw_rank_def canonical_window_key_def evidence_of_def
      dest: safe_id_nonempty intro: capacity_scope_ref.expand split: option.splits)

lemma penalties_Inr:
  "\<forall>t \<in> set ts. kw_ok t \<Longrightarrow>
   traverse (\<lambda>(_, _, r). scarcity_penalty_units r) ts = Inr (map (\<lambda>t. penalty_of (kw_remaining t)) ts)"
  by (rule traverse_total) (auto simp: kw_ok_def kw_remaining_def penalty_Inr split: prod.splits)

lemma pick_governing_least:
  assumes ne: "ts \<noteq> []" and ok: "\<forall>t \<in> set ts. kw_ok t"
  shows "\<exists>t. pick_governing ts = Inr t \<and> t \<in> set ts \<and> (\<forall>u \<in> set ts. kw_rank t \<le> kw_rank u)"
proof -
  let ?pen = "\<lambda>t. penalty_of (kw_remaining t)"
  obtain t0 ts0 where ts: "ts = t0 # ts0" using ne by (cases ts) auto
  define mx where "mx = fold max (map ?pen ts0) (?pen t0)"
  have mx: "mx = Max (?pen ` set ts)"
    using Max.set_eq_fold [of "?pen t0" "map ?pen ts0"] by (simp add: mx_def ts)
  define cs where "cs = filter (\<lambda>(_, _, r). scarcity_penalty_units r = Inr mx) ts"
  have cs: "set cs = {t \<in> set ts. ?pen t = mx}"
    using ok by (fastforce simp: cs_def kw_ok_def kw_remaining_def penalty_Inr)
  have "mx \<in> ?pen ` set ts" unfolding mx by (rule Max_in) (auto simp: ts)
  then obtain c cs' where csne: "cs = c # cs'" using cs by (cases cs) auto
  let ?t = "min_by (\<lambda>(s, w, _). canonical_window_key s w) c cs'"
  have pick: "pick_governing ts = Inr ?t"
    using csne unfolding cs_def mx_def
    by (simp add: pick_governing_def penalties_Inr [OF ok]) (simp add: ts)
  have t: "?t \<in> set cs" "\<forall>u \<in> set cs. (\<lambda>(s, w, _). canonical_window_key s w) ?t \<le> (\<lambda>(s, w, _). canonical_window_key s w) u"
    using min_by_least [of "\<lambda>(s, w, _). canonical_window_key s w" c cs'] by (simp_all add: csne)
  have tpen: "?pen ?t = mx" and tin: "?t \<in> set ts" using t(1) cs by auto
  have "kw_rank ?t \<le> kw_rank u" if u: "u \<in> set ts" for u
  proof -
    have "?pen u \<le> ?pen ?t" unfolding tpen mx using u by (intro Max_ge) auto
    then have le: "kw_remaining ?t \<le> kw_remaining u"
      using ok u tin by (auto simp: kw_ok_def kw_remaining_def penalty_le_iff split: prod.splits)
    show ?thesis
    proof (cases "kw_remaining ?t = kw_remaining u")
      case True
      then have "u \<in> set cs" using u cs tpen by simp
      with t(2) True show ?thesis
        by (auto simp: kw_rank_def kw_remaining_def less_eq_prod_def split: prod.splits)
    next
      case False
      with le show ?thesis
        by (auto simp: kw_rank_def kw_remaining_def less_eq_prod_def split: prod.splits)
    qed
  qed
  with pick tin show ?thesis by blast
qed

definition best :: "known_window list \<Rightarrow> known_window" where
  "best ts = min_by kw_rank (hd ts) (tl ts)"

lemma best_least:
  "ts \<noteq> [] \<Longrightarrow> best ts \<in> set ts \<and> (\<forall>u \<in> set ts. kw_rank (best ts) \<le> kw_rank u)"
  using min_by_least [of kw_rank "hd ts" "tl ts"] by (simp add: best_def)

lemma pick_governing_best:
  assumes "ts \<noteq> []" "\<forall>t \<in> set ts. kw_ok t"
  obtains t where "pick_governing ts = Inr t" "t \<in> set ts" "evidence_of t = evidence_of (best ts)"
    "kw_remaining t = kw_remaining (best ts)"
proof -
  obtain t where t: "pick_governing ts = Inr t" "t \<in> set ts" "\<forall>u \<in> set ts. kw_rank t \<le> kw_rank u"
    using pick_governing_least [OF assms] by blast
  have b: "best ts \<in> set ts" "\<forall>u \<in> set ts. kw_rank (best ts) \<le> kw_rank u"
    using best_least [OF assms(1)] by auto
  have rank: "kw_rank t = kw_rank (best ts)" using t b by (auto intro: antisym)
  moreover have "kw_remaining t = kw_remaining (best ts)"
    using rank by (cases t; cases "best ts") (auto simp: kw_rank_def kw_remaining_def)
  ultimately show thesis
    using that t b assms(2) evidence_by_rank [of t "best ts"] by blast
qed

lemma best_evidence_set:
  assumes "set ts = set us" "ts \<noteq> []" "\<forall>t \<in> set ts. kw_ok t"
  shows "evidence_of (best ts) = evidence_of (best us)"
proof -
  have us: "us \<noteq> []" using assms(1,2) by auto
  have "kw_rank (best ts) = kw_rank (best us)"
    using best_least [OF assms(2)] best_least [OF us] assms(1) by (auto intro: antisym)
  then show ?thesis
    using best_least [OF assms(2)] best_least [OF us] assms by (intro evidence_by_rank) auto
qed

section \<open>The assessment as one function of what is known\<close>

text \<open>
  \<open>assessment_of\<close> is the specification: it reads only the set of known windows and the set of
  incompleteness codes of the bound scopes.
\<close>

definition sorted_codes :: "scarcity_reason set \<Rightarrow> scarcity_reason list" where
  "sorted_codes C = sort_key sreason_str (filter (\<lambda>c. c \<in> C) SCARCITY_REASON_CODES)"

definition unknown_spec :: "capacity_scope_ref list \<Rightarrow> scarcity_reason set \<Rightarrow> scarcity_assessment" where
  "unknown_spec bs C = \<lparr>sa_state = Sc_unknown, sa_label = Lb_unknown, sa_penalty_units = None,
     sa_effective_remaining_percent = None, sa_applicable_scopes = sort_key scope_key bs,
     sa_governing_window = None, sa_reason_codes = sorted_codes C, sa_strategic_window = None,
     sa_tactical_window = None\<rparr>"

definition unavailable_spec ::
  "capacity_scope_ref list \<Rightarrow> scarcity_reason set \<Rightarrow> known_window list \<Rightarrow> scarcity_assessment" where
  "unavailable_spec bs C exhausted = \<lparr>sa_state = Sc_unavailable, sa_label = Lb_unavailable,
     sa_penalty_units = Some 10000, sa_effective_remaining_percent = Some 0,
     sa_applicable_scopes = sort_key scope_key bs,
     sa_governing_window = Some (evidence_of (best exhausted)),
     sa_reason_codes = sorted_codes (insert Sr_exhausted C), sa_strategic_window = None,
     sa_tactical_window = None\<rparr>"

definition representative_spec :: "window_role \<Rightarrow> known_window list \<Rightarrow> governing_evidence option" where
  "representative_spec role known =
     (let pool = role_pool role known in if pool = [] then None else Some (evidence_of (best pool)))"

definition effective_spec :: "known_window list \<Rightarrow> int" where
  "effective_spec known =
     (case (representative_spec Role_tactical known, representative_spec Role_strategic known) of
        (Some t, Some s) \<Rightarrow> blend (gw_remaining_percent t) (gw_remaining_percent s)
      | (Some t, None) \<Rightarrow> gw_remaining_percent t
      | (None, Some s) \<Rightarrow> gw_remaining_percent s
      | (None, None) \<Rightarrow> 0)"

definition known_spec :: "capacity_scope_ref list \<Rightarrow> known_window list \<Rightarrow> scarcity_assessment" where
  "known_spec bs known =
     (let e = effective_spec known; s = representative_spec Role_strategic known;
          t = representative_spec Role_tactical known in
      \<lparr>sa_state = Sc_known, sa_label = label_of e, sa_penalty_units = Some (penalty_of e),
        sa_effective_remaining_percent = Some e, sa_applicable_scopes = sort_key scope_key bs,
        sa_governing_window = (if s \<noteq> None then s else t), sa_reason_codes = [],
        sa_strategic_window = s, sa_tactical_window = t\<rparr>)"

definition exhausted_of :: "known_window list \<Rightarrow> known_window list" where
  "exhausted_of known = filter (\<lambda>t. kw_remaining t = 0) known"

definition assessment_of ::
  "(string \<rightharpoonup> capacity_snapshot) \<Rightarrow> capacity_scope_ref list option \<Rightarrow> scarcity_assessment" where
  "assessment_of m bindings =
     (case bindings of
        None \<Rightarrow> unknown_spec [] {Sr_bindings_unknown}
      | Some bs \<Rightarrow>
          (let known = all_known m bs; C = all_codes m bs in
           if exhausted_of known \<noteq> [] then unavailable_spec bs C (exhausted_of known)
           else if C \<noteq> {} then unknown_spec bs C
           else known_spec bs known))"

lemma SCARCITY_REASON_CODES_distinct: "distinct SCARCITY_REASON_CODES"
  by (simp add: SCARCITY_REASON_CODES_def)

lemma sort_codes_set: "distinct cs \<Longrightarrow> sort_key sreason_str cs = sorted_codes (set cs)"
  unfolding sorted_codes_def
proof (rule sort_key_perm_eq)
  assume "distinct cs"
  then show "mset cs = mset (filter (\<lambda>c. c \<in> set cs) SCARCITY_REASON_CODES)"
    by (subst set_eq_iff_mset_eq_distinct [symmetric])
      (auto simp: SCARCITY_REASON_CODES_distinct)
qed (rule sreason_vocab.inj_str)

lemma set_sorted_codes [simp]: "set (sorted_codes C) = C"
  by (auto simp: sorted_codes_def)

lemma sorted_codes_canonical [simp]:
  "distinct (sorted_codes C)" "sorted (map sreason_str (sorted_codes C))"
  "sort_key sreason_str (sorted_codes C) = sorted_codes C"
  by (simp_all add: sorted_codes_def SCARCITY_REASON_CODES_distinct)

lemma sorted_codes_empty_iff [simp]: "sorted_codes C = [] \<longleftrightarrow> C = {}"
  using set_sorted_codes [of C] by (metis set_empty)

lemma sorted_codes_single [simp]: "sorted_codes {c} = [c]"
  by (cases c) (simp_all add: sorted_codes_def SCARCITY_REASON_CODES_def)

lemma binding_codes_telemetry:
  "Sr_exhausted \<notin> binding_codes m b" "Sr_bindings_unknown \<notin> binding_codes m b"
  by (auto simp: binding_codes_def split: option.splits if_splits)

lemma all_codes_telemetry: "Sr_exhausted \<notin> all_codes m bs" "Sr_bindings_unknown \<notin> all_codes m bs"
  by (auto simp: all_codes_def binding_codes_telemetry)

lemma governing_evidence_of_Inr:
  "kw_ok (s, w, r) \<Longrightarrow> governing_evidence_of s w r = Inr (evidence_of (s, w, r))
     \<and> valid_evidence_window (evidence_of (s, w, r))"
  by (auto simp: governing_evidence_of_def evidence_of_def kw_ok_def mk_evidence_window_Inr
      valid_evidence_window_def)

lemma evidence_of_scope: "gw_scope (evidence_of t) = fst t" "gw_remaining_percent (evidence_of t) = kw_remaining t"
  by (simp_all add: evidence_of_def kw_remaining_def split: prod.splits)

lemma all_known_ok:
  assumes "\<forall>s \<in> ran m. valid_snapshot s" "list_all valid_scope bs" "t \<in> set (all_known m bs)"
  shows "kw_ok t" "fst t \<in> set bs"
proof -
  from assms(3) obtain b w r where t: "t = (b, w, r)" "b \<in> set bs" "w \<in> set (bound_windows m b)"
    "remaining_of w = Some r"
    by (auto simp: all_known_def set_known_pairs)
  moreover from t(3) obtain s where "m (cs_provider b) = Some s" "w \<in> set (sn_windows s)"
    by (cases "m (cs_provider b)") (auto simp: bound_windows_def split: if_splits)
  ultimately have "valid_window w"
    using assms(1) by (fastforce simp: valid_snapshot_def list_all_iff ran_def)
  with t assms(2) show "kw_ok t" "fst t \<in> set bs"
    by (auto simp: kw_ok_def valid_window_def remaining_of_def pct_pair_ok_def pct_ok_def list_all_iff
        split: option.splits if_splits)
qed

lemma no_codes_known:
  assumes "all_codes m bs = {}" "b \<in> set bs"
  shows "\<exists>t \<in> set (all_known m bs). fst t = b"
proof -
  from assms have none: "binding_codes m b = {}" by (auto simp: all_codes_def)
  then have "bound_windows m b \<noteq> []" "\<not> list_ex (\<lambda>w. remaining_of w = None) (bound_windows m b)"
    by (auto simp: binding_codes_def split: option.splits if_splits)
  then obtain w r where "w \<in> set (bound_windows m b)" "remaining_of w = Some r"
    by (cases "bound_windows m b") (auto simp: list_ex_iff)
  then have "(b, w, r) \<in> set (all_known m bs)"
    using assms(2) by (auto simp: all_known_def set_known_pairs)
  then show ?thesis by force
qed

lemma mk_scarcityI:
  "scarcity_parts a \<Longrightarrow> distinct (sa_reason_codes a) \<Longrightarrow> canon_scarcity a = a' \<Longrightarrow> valid_scarcity a' \<Longrightarrow>
   mk_scarcity a = Inr a'"
  by (simp add: mk_scarcity_Inr)

lemma list_all_sort_key [simp]: "list_all P (sort_key f xs) = list_all P xs"
  by (simp add: list_all_iff)

lemma sort_key_Nil_iff [simp]: "sort_key f xs = [] \<longleftrightarrow> xs = []"
  using set_sort [of f xs] by (metis set_empty)

definition codes_fit :: "capacity_scope_ref list \<Rightarrow> scarcity_reason set \<Rightarrow> bool" where
  "codes_fit bs C =
     (C \<noteq> {} \<and> Sr_exhausted \<notin> C \<and>
      (if Sr_bindings_unknown \<in> C then C = {Sr_bindings_unknown} \<and> bs = [] else bs \<noteq> []))"

lemma unknown_spec_valid:
  "list_all valid_scope bs \<Longrightarrow> codes_fit bs C \<Longrightarrow> valid_scarcity (unknown_spec bs C)"
  by (auto simp: valid_scarcity_def unknown_spec_def unknown_form_def scarcity_parts_def codes_fit_def)

lemma unknown_assessment_of_spec:
  assumes "list_all valid_scope bs" "codes_fit bs C"
  shows "unknown_assessment_of (sorted_codes C) bs = Inr (unknown_spec bs C)"
  unfolding unknown_assessment_of_def
  by (rule mk_scarcityI)
    (use assms unknown_spec_valid [OF assms] in
      \<open>auto simp: scarcity_parts_def canon_scarcity_def unknown_spec_def\<close>)

lemma unavailable_spec_valid:
  assumes "list_all valid_scope bs" "ts \<noteq> []" "\<forall>t \<in> set ts. kw_ok t \<and> fst t \<in> set bs \<and> kw_remaining t = 0"
  shows "valid_scarcity (unavailable_spec bs C ts)"
proof -
  have b: "best ts \<in> set ts" using best_least [OF assms(2)] by simp
  with assms(3) have "valid_evidence_window (evidence_of (best ts))"
    using governing_evidence_of_Inr by (cases "best ts") auto
  with b assms show ?thesis
    by (auto simp: valid_scarcity_def unavailable_spec_def unavailable_form_def scarcity_parts_def
        numeric_form_def evidence_of_scope pct_ok_def penalty_of_def label_of_def)
qed

lemma evidence_pick:
  assumes "ts \<noteq> []" "\<forall>t \<in> set ts. kw_ok t"
  obtains s w r where "pick_governing ts = Inr (s, w, r)" "r = kw_remaining (best ts)"
    "governing_evidence_of s w r = Inr (evidence_of (best ts))"
    "valid_evidence_window (evidence_of (best ts))"
proof -
  obtain t where t: "pick_governing ts = Inr t" "t \<in> set ts" "evidence_of t = evidence_of (best ts)"
    "kw_remaining t = kw_remaining (best ts)"
    using pick_governing_best [OF assms] by blast
  obtain s w r where eq: "t = (s, w, r)" by (cases t)
  with t(2) assms(2) have "kw_ok (s, w, r)" by blast
  from governing_evidence_of_Inr [OF this] t eq show thesis
    by (intro that [of s w r]) (auto simp: kw_remaining_def)
qed

lemma assess_exhausted_spec:
  assumes bs: "list_all valid_scope bs" and ts: "ts \<noteq> []"
    and ok: "\<forall>t \<in> set ts. kw_ok t \<and> fst t \<in> set bs \<and> kw_remaining t = 0" and "distinct codes"
  shows "assess_exhausted bs codes ts = Inr (unavailable_spec bs (set codes) ts)"
proof -
  have allok: "\<forall>t \<in> set ts. kw_ok t" using ok by blast
  obtain s w r where p: "pick_governing ts = Inr (s, w, r)" "r = kw_remaining (best ts)"
    "governing_evidence_of s w r = Inr (evidence_of (best ts))"
    "valid_evidence_window (evidence_of (best ts))"
    using evidence_pick [OF ts allok] .
  have "r = 0" using p(2) ok best_least [OF ts] by simp
  moreover have "sort_key sreason_str (List.insert Sr_exhausted codes) = sorted_codes (insert Sr_exhausted (set codes))"
    using sort_codes_set [of "List.insert Sr_exhausted codes"] \<open>distinct codes\<close> by simp
  ultimately show ?thesis
    using p bs unavailable_spec_valid [OF bs ts ok]
    by (auto simp: assess_exhausted_def intro!: mk_scarcityI
        simp: scarcity_parts_def canon_scarcity_def unavailable_spec_def)
qed

lemma representative_evidence:
  assumes "\<forall>t \<in> set known. kw_ok t"
  obtains rep where "representative (role_pool role known) = Inr rep"
    "evidence_out rep = Inr (representative_spec role known)"
    "map_option (\<lambda>(_, _, r). r) rep = map_option gw_remaining_percent (representative_spec role known)"
proof (cases "role_pool role known = []")
  case True
  then show thesis
    by (intro that [of None]) (auto simp: representative_def representative_spec_def evidence_out_def)
next
  case False
  have ok: "\<forall>t \<in> set (role_pool role known). kw_ok t" using assms by (simp add: role_pool_def)
  obtain s w r where "pick_governing (role_pool role known) = Inr (s, w, r)"
    "r = kw_remaining (best (role_pool role known))"
    "governing_evidence_of s w r = Inr (evidence_of (best (role_pool role known)))"
    using evidence_pick [OF False ok] .
  with False show thesis
    by (intro that [of "Some (s, w, r)"])
      (auto simp: representative_def representative_spec_def evidence_out_def evidence_of_scope Let_def)
qed

lemma representative_spec_facts:
  assumes "\<forall>t \<in> set known. kw_ok t \<and> fst t \<in> set bs \<and> kw_remaining t \<noteq> 0"
    and "representative_spec role known = Some g"
  shows "valid_evidence_window g" "gw_scope g \<in> set bs" "gw_remaining_percent g \<noteq> 0"
    "role_is role g"
proof -
  from assms(2) have ne: "role_pool role known \<noteq> []" and g: "g = evidence_of (best (role_pool role known))"
    by (auto simp: representative_spec_def Let_def split: if_splits)
  from best_least [OF ne] have b: "best (role_pool role known) \<in> set known"
      "role_is role (evidence_of (best (role_pool role known)))"
    by (auto simp: role_pool_def role_is_def evidence_of_def split: prod.splits)
  with assms(1) g show "valid_evidence_window g" "gw_scope g \<in> set bs" "gw_remaining_percent g \<noteq> 0"
    "role_is role g"
    using governing_evidence_of_Inr by (cases "best (role_pool role known)"; auto simp: evidence_of_scope)+
qed

lemma representative_some:
  "known \<noteq> [] \<Longrightarrow> representative_spec Role_strategic known \<noteq> None \<or> representative_spec Role_tactical known \<noteq> None"
  by (cases known)
    (auto simp: representative_spec_def role_pool_def Let_def intro: window_role.exhaust)

lemma known_spec_valid:
  assumes bs: "list_all valid_scope bs" and ne: "known \<noteq> []"
    and ok: "\<forall>t \<in> set known. kw_ok t \<and> fst t \<in> set bs \<and> kw_remaining t \<noteq> 0"
  shows "valid_scarcity (known_spec bs known)"
    and "blended_effective_remaining_percent
           (map_option gw_remaining_percent (representative_spec Role_tactical known))
           (map_option gw_remaining_percent (representative_spec Role_strategic known))
         = Inr (effective_spec known)"
    and "pct_ok (effective_spec known)"
proof -
  let ?s = "representative_spec Role_strategic known" and ?t = "representative_spec Role_tactical known"
  have facts: "valid_evidence_window g \<and> gw_scope g \<in> set bs \<and> gw_remaining_percent g \<noteq> 0 \<and> role_is role g"
    if "representative_spec role known = Some g" for role g
    using representative_spec_facts [OF ok that] by blast
  have pct: "pct_ok (gw_remaining_percent g)" if "representative_spec role known = Some g" for role g
    using facts [OF that] by (simp add: valid_evidence_window_def)
  show blend: "blended_effective_remaining_percent (map_option gw_remaining_percent ?t)
      (map_option gw_remaining_percent ?s) = Inr (effective_spec known)"
    using representative_some [OF ne] pct
    by (cases ?s; cases ?t) (auto simp: effective_spec_def valid_simps)
  show eff: "pct_ok (effective_spec known)"
    using representative_some [OF ne] pct [of Role_strategic] pct [of Role_tactical]
    by (cases ?s; cases ?t) (auto simp: effective_spec_def blend_def pct_ok_def)
  have nz: "effective_spec known \<noteq> 0"
    using representative_some [OF ne] pct [of Role_strategic] pct [of Role_tactical]
      facts [of Role_strategic] facts [of Role_tactical]
    by (cases ?s; cases ?t) (fastforce simp: effective_spec_def blend_def pct_ok_def)+
  obtain g where g: "(if ?s \<noteq> None then ?s else ?t) = Some g" "gw_scope g \<in> set bs"
    using representative_some [OF ne] facts by (cases ?s; cases ?t) auto
  have roles: "pred_option (role_is Role_strategic) ?s" "pred_option (role_is Role_tactical) ?t"
    "pred_option valid_evidence_window ?s" "pred_option valid_evidence_window ?t"
    using facts by (cases ?s; cases ?t; force)+
  show "valid_scarcity (known_spec bs known)"
    unfolding valid_scarcity_def known_form_def numeric_form_def scarcity_parts_def
    using g roles blend eff nz bs
    by (auto simp: known_spec_def Let_def intro!: exI [of _ g])
qed

lemma assess_known_spec:
  assumes bs: "list_all valid_scope bs" and ne: "known \<noteq> []"
    and ok: "\<forall>t \<in> set known. kw_ok t \<and> fst t \<in> set bs \<and> kw_remaining t \<noteq> 0"
  shows "assess_known bs known = Inr (known_spec bs known)"
proof -
  have allok: "\<forall>t \<in> set known. kw_ok t" using ok by blast
  obtain s where s: "representative (role_pool Role_strategic known) = Inr s"
    "evidence_out s = Inr (representative_spec Role_strategic known)"
    "map_option (\<lambda>(_, _, r). r) s = map_option gw_remaining_percent (representative_spec Role_strategic known)"
    using representative_evidence [OF allok] .
  obtain t where t: "representative (role_pool Role_tactical known) = Inr t"
    "evidence_out t = Inr (representative_spec Role_tactical known)"
    "map_option (\<lambda>(_, _, r). r) t = map_option gw_remaining_percent (representative_spec Role_tactical known)"
    using representative_evidence [OF allok] .
  note known = known_spec_valid [OF bs ne ok]
  have label: "scarcity_label (effective_spec known) = Inr (label_of (effective_spec known))"
    and penalty: "scarcity_penalty_units (effective_spec known) = Inr (penalty_of (effective_spec known))"
    using known(3) by (simp_all add: label_Inr penalty_Inr)
  obtain g where g: "(if representative_spec Role_strategic known \<noteq> None then representative_spec Role_strategic known
      else representative_spec Role_tactical known) = Some g"
    using representative_some [OF ne] by (cases "representative_spec Role_strategic known") auto
  show ?thesis
    unfolding assess_known_def s t bind_r.simps known(2) label penalty g option.case
    by (rule mk_scarcityI)
      (use known(1) bs g in \<open>auto simp: scarcity_parts_def canon_scarcity_def known_spec_def Let_def
          valid_scarcity_def split: if_splits\<close>)
qed

definition bindings_valid :: "capacity_scope_ref list option \<Rightarrow> bool" where
  "bindings_valid bo = pred_option (\<lambda>bs. list_all valid_scope bs \<and> bs \<noteq> []) bo"

lemma assessment_of_refines:
  assumes snaps: "list_all valid_snapshot ss" "distinct (map sn_provider ss)"
    and bind: "bindings_valid (ce_capacity_bindings e)"
  shows "assess_scarcity e ss = Inr (assessment_of (snapshot_map ss) (ce_capacity_bindings e))"
    and "valid_scarcity (assessment_of (snapshot_map ss) (ce_capacity_bindings e))"
proof -
  let ?m = "snapshot_map ss"
  have m: "snapshots_by_provider fld Map.empty ss = Inr ?m" for fld
    using snaps(2) by (simp add: snapshots_by_provider_eq)
  have ran: "\<forall>s \<in> ran ?m. valid_snapshot s"
    using snaps(1) by (auto simp: ran_def list_all_iff dest: snapshot_map_Some)
  have "assess_scarcity e ss = Inr (assessment_of ?m (ce_capacity_bindings e))
    \<and> valid_scarcity (assessment_of ?m (ce_capacity_bindings e))"
  proof (cases "ce_capacity_bindings e")
    case None
    have "codes_fit [] {Sr_bindings_unknown}" by (simp add: codes_fit_def)
    from unknown_assessment_of_spec [OF _ this] unknown_spec_valid [OF _ this] None m show ?thesis
      by (simp add: assess_scarcity_def assessment_of_def)
  next
    case (Some bs)
    with bind have bs: "list_all valid_scope bs" "bs \<noteq> []" by (auto simp: bindings_valid_def)
    obtain codes where codes: "fold (scan_binding ?m) bs ([], []) = (codes, all_known ?m bs)"
      "set codes = all_codes ?m bs" "distinct codes"
      using scan_all [of ?m bs "[]" "[]"] by auto
    have ex: "filter (\<lambda>(_, _, r). r = 0) (all_known ?m bs) = exhausted_of (all_known ?m bs)"
      by (simp add: exhausted_of_def kw_remaining_def case_prod_beta')
    have run: "assess_scarcity e ss =
        (if exhausted_of (all_known ?m bs) \<noteq> [] then assess_exhausted bs codes (exhausted_of (all_known ?m bs))
         else if codes \<noteq> [] then unknown_assessment_of (sort_key sreason_str codes) bs
         else if all_known ?m bs = [] then Inl (sel_exn ''assess_scarcity'')
         else assess_known bs (all_known ?m bs))"
      by (simp add: assess_scarcity_def m Some codes(1) ex Let_def)
    note kok = all_known_ok [OF ran bs(1)]
    consider (gone) "exhausted_of (all_known ?m bs) \<noteq> []"
      | (partial) "exhausted_of (all_known ?m bs) = []" "all_codes ?m bs \<noteq> {}"
      | (full) "exhausted_of (all_known ?m bs) = []" "all_codes ?m bs = {}" by blast
    then show ?thesis
    proof cases
      case gone
      have "\<forall>t \<in> set (exhausted_of (all_known ?m bs)). kw_ok t \<and> fst t \<in> set bs \<and> kw_remaining t = 0"
        using kok by (auto simp: exhausted_of_def)
      from assess_exhausted_spec [OF bs(1) gone this codes(3)] unavailable_spec_valid [OF bs(1) gone this]
        run gone codes(2) Some show ?thesis
        by (simp add: assessment_of_def Let_def)
    next
      case partial
      have fit: "codes_fit bs (all_codes ?m bs)"
        using partial bs by (simp add: codes_fit_def all_codes_telemetry)
      have "codes \<noteq> []" using partial(2) codes(2) by auto
      with unknown_assessment_of_spec [OF bs(1) fit] unknown_spec_valid [OF bs(1) fit] run partial codes Some
      show ?thesis by (simp add: assessment_of_def sort_codes_set Let_def)
    next
      case full
      obtain t where "t \<in> set (all_known ?m bs)"
        using no_codes_known [OF full(2), of "hd bs"] bs(2) by auto
      then have ne: "all_known ?m bs \<noteq> []" by auto
      have ok: "\<forall>t \<in> set (all_known ?m bs). kw_ok t \<and> fst t \<in> set bs \<and> kw_remaining t \<noteq> 0"
        using kok full(1) by (auto simp: exhausted_of_def filter_empty_conv)
      from assess_known_spec [OF bs(1) ne ok] known_spec_valid(1) [OF bs(1) ne ok] run full ne codes Some
      show ?thesis by (simp add: assessment_of_def Let_def)
    qed
  qed
  then show "assess_scarcity e ss = Inr (assessment_of ?m (ce_capacity_bindings e))"
    "valid_scarcity (assessment_of ?m (ce_capacity_bindings e))" by blast+
qed

section \<open>Properties\<close>

lemma valid_entry_bindings: "valid_entry e \<Longrightarrow> bindings_valid (ce_capacity_bindings e)"
  by (cases "ce_capacity_bindings e")
    (auto simp: valid_entry_def entry_parts_def entry_checks_def bindings_valid_def bindings_ok_def Let_def)

lemma assess_eval:
  assumes "valid_entry e" "list_all valid_snapshot ss"
  shows "assess_scarcity e ss =
    (if distinct (map sn_provider ss)
     then Inr (assessment_of (snapshot_map ss) (ce_capacity_bindings e))
     else Inl (sel_exn ''assess_scarcity.snapshots''))"
  using assessment_of_refines(1) [OF assms(2) _ valid_entry_bindings [OF assms(1)]]
  by (simp add: assess_scarcity_def snapshots_by_provider_eq)

lemma assess_valid:
  assumes "valid_entry e" "list_all valid_snapshot ss" "assess_scarcity e ss = Inr a"
  shows "valid_scarcity a"
  using assms assessment_of_refines(2) [OF assms(2) _ valid_entry_bindings [OF assms(1)]]
  by (auto simp: assess_eval split: if_splits)

text \<open>
  The aggregation over windows, said with minima: \<open>role_minimum\<close> is the least known remaining
  percentage of the bound windows of one role.
\<close>

definition role_minimum :: "window_role \<Rightarrow> known_window list \<Rightarrow> int option" where
  "role_minimum role known =
     (let rs = map kw_remaining (role_pool role known) in if rs = [] then None else Some (Min (set rs)))"

lemma representative_minimum:
  "map_option gw_remaining_percent (representative_spec role known) = role_minimum role known"
proof (cases "role_pool role known = []")
  case False
  let ?p = "role_pool role known"
  have least: "kw_remaining (best ?p) \<le> kw_remaining u" if "u \<in> set ?p" for u
    using best_least [OF False] that
    by (cases u; cases "best ?p") (force simp: kw_rank_def kw_remaining_def less_eq_prod_def)
  have "Min (kw_remaining ` set ?p) = kw_remaining (best ?p)"
    using least best_least [OF False] by (intro Min_eqI) auto
  with False show ?thesis
    by (simp add: representative_spec_def role_minimum_def evidence_of_scope Let_def)
qed (simp add: representative_spec_def role_minimum_def)

text \<open>
  C33: \<open>assess_scarcity\<close> implements its contract on every valid entry and every list of valid
  snapshots: it fails exactly when a provider has two snapshots, and otherwise the state is
  decided by three mutually exclusive cases over the bound windows (exhausted, else incomplete,
  else known), the scopes are kept, and a known effective percentage is the blend of the two
  role minima. The result satisfies every cross-field invariant of the assessment contract.
\<close>

theorem assess_scarcity_contract:
  assumes "valid_entry e" and "list_all valid_snapshot ss"
  shows "(\<not> distinct (map sn_provider ss) \<longrightarrow>
            assess_scarcity e ss = Inl (SelectionContractValidationError ''assess_scarcity.snapshots''))
    \<and> (distinct (map sn_provider ss) \<longrightarrow>
        (\<exists>a. assess_scarcity e ss = Inr a \<and> valid_scarcity a
          \<and> (case ce_capacity_bindings e of
               None \<Rightarrow> sa_state a = Sc_unknown \<and> sa_reason_codes a = [Sr_bindings_unknown]
             | Some bs \<Rightarrow>
                 (let known = all_known (snapshot_map ss) bs; C = all_codes (snapshot_map ss) bs in
                  set (sa_applicable_scopes a) = set bs
                  \<and> (sa_state a = Sc_unavailable \<longleftrightarrow> (\<exists>t \<in> set known. kw_remaining t = 0))
                  \<and> (sa_state a = Sc_unknown \<longleftrightarrow> (\<forall>t \<in> set known. kw_remaining t \<noteq> 0) \<and> C \<noteq> {})
                  \<and> set (sa_reason_codes a) = (if sa_state a = Sc_unavailable then insert Sr_exhausted C else C)
                  \<and> (sa_state a = Sc_known \<longrightarrow>
                      blended_effective_remaining_percent (role_minimum Role_tactical known)
                        (role_minimum Role_strategic known)
                      = Inr (the (sa_effective_remaining_percent a)))))))"
proof (cases "distinct (map sn_provider ss)")
  case True
  let ?m = "snapshot_map ss" and ?a = "assessment_of (snapshot_map ss) (ce_capacity_bindings e)"
  have run: "assess_scarcity e ss = Inr ?a" using True by (simp add: assess_eval [OF assms])
  have valid: "valid_scarcity ?a" by (rule assess_valid [OF assms run])
  have "case ce_capacity_bindings e of
      None \<Rightarrow> sa_state ?a = Sc_unknown \<and> sa_reason_codes ?a = [Sr_bindings_unknown]
    | Some bs \<Rightarrow> (let known = all_known ?m bs; C = all_codes ?m bs in
        set (sa_applicable_scopes ?a) = set bs
        \<and> (sa_state ?a = Sc_unavailable \<longleftrightarrow> (\<exists>t \<in> set known. kw_remaining t = 0))
        \<and> (sa_state ?a = Sc_unknown \<longleftrightarrow> (\<forall>t \<in> set known. kw_remaining t \<noteq> 0) \<and> C \<noteq> {})
        \<and> set (sa_reason_codes ?a) = (if sa_state ?a = Sc_unavailable then insert Sr_exhausted C else C)
        \<and> (sa_state ?a = Sc_known \<longrightarrow>
            blended_effective_remaining_percent (role_minimum Role_tactical known)
              (role_minimum Role_strategic known) = Inr (the (sa_effective_remaining_percent ?a))))"
    using valid
    by (cases "ce_capacity_bindings e")
      (auto simp: assessment_of_def unknown_spec_def unavailable_spec_def known_spec_def Let_def
        exhausted_of_def filter_empty_conv valid_scarcity_def known_form_def numeric_form_def
        representative_minimum split: if_splits)
  with True run valid show ?thesis by auto
qed (simp add: assess_eval [OF assms])

theorem assess_scarcity_contract_witness:
  "\<exists>a. assess_scarcity (sample_entry ''m-one'' 4 (Some [scope_a, scope_b]))
         [sample_snapshot ''zai'' [sample_window Kind_weekly ''coding'' 60,
            sample_window Kind_five_hour ''chat'' 30, sample_window Kind_weekly ''other'' 0],
          sample_snapshot ''openai'' []] = Inr a \<and> valid_scarcity a"
  using assess_scarcity_contract [OF sample_entries_valid(1), of
    "[sample_snapshot ''zai'' [sample_window Kind_weekly ''coding'' 60,
        sample_window Kind_five_hour ''chat'' 30, sample_window Kind_weekly ''other'' 0],
      sample_snapshot ''openai'' []]"]
  by (auto simp: sample_snapshot_valid) (simp_all add: sample_snapshot_def)

subsection \<open>What the assessment does not depend on\<close>

lemma all_known_set: "set (all_known m bs) = (\<Union>b \<in> set bs. set (known_pairs b (bound_windows m b)))"
  by (simp add: all_known_def)

lemma representative_spec_set:
  assumes "set ts = set us" "\<forall>t \<in> set ts. kw_ok t"
  shows "representative_spec role ts = representative_spec role us"
proof -
  have "set (role_pool role ts) = set (role_pool role us)" using assms(1) by (simp add: role_pool_def)
  moreover from this have "role_pool role ts = [] \<longleftrightarrow> role_pool role us = []" by (metis set_empty)
  moreover have "\<forall>t \<in> set (role_pool role ts). kw_ok t" using assms(2) by (simp add: role_pool_def)
  ultimately show ?thesis
    using best_evidence_set [of "role_pool role ts" "role_pool role us"]
    by (auto simp: representative_spec_def Let_def)
qed

lemma assessment_of_cong:
  assumes sets: "set (all_known m bs) = set (all_known m' bs')" "all_codes m bs = all_codes m' bs'"
    and scopes: "sort_key scope_key bs = sort_key scope_key bs'"
    and ok: "\<forall>t \<in> set (all_known m bs). kw_ok t"
  shows "assessment_of m (Some bs) = assessment_of m' (Some bs')"
proof -
  have ex: "set (exhausted_of (all_known m bs)) = set (exhausted_of (all_known m' bs'))"
    using sets(1) by (simp add: exhausted_of_def)
  then have exn: "exhausted_of (all_known m bs) = [] \<longleftrightarrow> exhausted_of (all_known m' bs') = []"
    by (metis set_empty)
  have "\<forall>t \<in> set (exhausted_of (all_known m bs)). kw_ok t" using ok by (simp add: exhausted_of_def)
  then have best: "exhausted_of (all_known m bs) \<noteq> [] \<Longrightarrow>
      evidence_of (best (exhausted_of (all_known m bs))) = evidence_of (best (exhausted_of (all_known m' bs')))"
    by (intro best_evidence_set ex) auto
  have roles: "representative_spec role (all_known m bs) = representative_spec role (all_known m' bs')" for role
    by (rule representative_spec_set [OF sets(1) ok])
  show ?thesis
    using sets(2) scopes exn best
    by (auto simp: assessment_of_def Let_def unavailable_spec_def unknown_spec_def known_spec_def
        effective_spec_def roles)
qed

lemma sort_scopes_perm: "mset bs = mset bs' \<Longrightarrow> sort_key scope_key bs = sort_key scope_key bs'"
  by (rule sort_key_perm_eq) (auto simp: inj_on_def)

lemma snapshot_map_valid: "list_all valid_snapshot ss \<Longrightarrow> \<forall>s \<in> ran (snapshot_map ss). valid_snapshot s"
  by (auto simp: ran_def list_all_iff dest: snapshot_map_Some)

text \<open>
  the assessment is independent of the order of the snapshots and of the order in which
  the entry lists its bindings, the governing-window evidence included.
\<close>

theorem assess_scarcity_order_independent:
  assumes "valid_entry e" and "list_all valid_snapshot ss"
    and "ce_capacity_bindings e = Some bs" and "mset bs' = mset bs" and "mset ss' = mset ss"
  shows "assess_scarcity (e\<lparr>ce_capacity_bindings := Some bs'\<rparr>) ss' = assess_scarcity e ss"
proof (cases "distinct (map sn_provider ss)")
  case True
  have ss': "list_all valid_snapshot ss'" "distinct (map sn_provider ss')"
    using assms(2) True mset_eq_setD [OF assms(5)] distinct_map_mset [OF assms(5), of sn_provider]
    by (simp_all add: list_all_iff)
  have bind: "bindings_valid (Some bs)" using valid_entry_bindings [OF assms(1)] assms(3) by simp
  then have bind': "bindings_valid (Some bs')"
    using mset_eq_setD [OF assms(4)] assms(4) by (auto simp: bindings_valid_def list_all_iff)
  have map: "snapshot_map ss' = snapshot_map ss"
    using snapshot_map_perm [OF assms(5) ss'(2)] .
  have "assessment_of (snapshot_map ss) (Some bs') = assessment_of (snapshot_map ss) (Some bs)"
  proof (rule assessment_of_cong)
    show "sort_key scope_key bs' = sort_key scope_key bs" by (rule sort_scopes_perm) (rule assms(4))
    show "\<forall>t \<in> set (all_known (snapshot_map ss) bs'). kw_ok t"
      using all_known_ok(1) [OF snapshot_map_valid [OF assms(2)]] bind'
      by (auto simp: bindings_valid_def)
  qed (use mset_eq_setD [OF assms(4)] in \<open>simp_all add: all_known_set all_codes_def\<close>)
  with assessment_of_refines(1) [OF ss', of "e\<lparr>ce_capacity_bindings := Some bs'\<rparr>"]
    assessment_of_refines(1) [OF assms(2) True, of e] bind bind' assms(3) map
  show ?thesis by simp
next
  case False
  with distinct_map_mset [OF assms(5), of sn_provider] show ?thesis
    by (simp add: assess_scarcity_def snapshots_by_provider_eq)
qed

theorem assess_scarcity_order_independent_witness:
  "assess_scarcity (sample_entry ''m-one'' 4 (Some [scope_a, scope_b])
       \<lparr>ce_capacity_bindings := Some [scope_b, scope_a]\<rparr>)
     [sample_snapshot ''openai'' [], sample_snapshot ''zai'' [sample_window Kind_weekly ''coding'' 60,
        sample_window Kind_five_hour ''chat'' 30, sample_window Kind_weekly ''other'' 0]]
   = assess_scarcity (sample_entry ''m-one'' 4 (Some [scope_a, scope_b]))
     [sample_snapshot ''zai'' [sample_window Kind_weekly ''coding'' 60,
        sample_window Kind_five_hour ''chat'' 30, sample_window Kind_weekly ''other'' 0],
      sample_snapshot ''openai'' []]"
  by (rule assess_scarcity_order_independent [OF sample_entries_valid(1), of _ "[scope_a, scope_b]"])
    (simp_all add: sample_snapshot_valid, simp add: sample_entry_def)

definition restrict_snapshot :: "capacity_scope_ref list \<Rightarrow> capacity_snapshot \<Rightarrow> capacity_snapshot" where
  \<comment> \<open>the snapshot without the windows of scopes that are not in the list\<close>
  "restrict_snapshot bs s =
     s\<lparr>sn_windows := filter (\<lambda>w. list_ex (\<lambda>b. cs_provider b = sn_provider s
         \<and> w_scope_id w = Some (cs_scope_id b)) bs) (sn_windows s)\<rparr>"

lemma restrict_snapshot_valid: "valid_snapshot s \<Longrightarrow> valid_snapshot (restrict_snapshot bs s)"
  by (auto simp: valid_snapshot_def restrict_snapshot_def list_all_iff)

lemma snapshot_map_restrict:
  "snapshot_map (map (restrict_snapshot bs) ss) p = map_option (restrict_snapshot bs) (snapshot_map ss p)"
  by (induction ss) (auto simp: snapshot_map_def restrict_snapshot_def)

lemma bound_windows_restrict:
  assumes "b \<in> set bs"
  shows "bound_windows (snapshot_map (map (restrict_snapshot bs) ss)) b = bound_windows (snapshot_map ss) b"
    and "binding_codes (snapshot_map (map (restrict_snapshot bs) ss)) b = binding_codes (snapshot_map ss) b"
proof -
  show bw: "bound_windows (snapshot_map (map (restrict_snapshot bs) ss)) b = bound_windows (snapshot_map ss) b"
    using assms snapshot_map_Some [of ss "cs_provider b"]
    by (cases "snapshot_map ss (cs_provider b)")
      (auto simp: bound_windows_def snapshot_map_restrict restrict_snapshot_def list_ex_iff
        intro!: filter_cong)
  show "binding_codes (snapshot_map (map (restrict_snapshot bs) ss)) b = binding_codes (snapshot_map ss) b"
    using bw by (cases "snapshot_map ss (cs_provider b)")
      (auto simp: binding_codes_def snapshot_map_restrict restrict_snapshot_def)
qed

text \<open>
  only the windows of the bound scopes count. Dropping every other window from the
  snapshots (a window at 0 percent of an unrelated scope, say) leaves the assessment unchanged.
\<close>

theorem unrelated_scopes_never_penalize:
  assumes "valid_entry e" and "list_all valid_snapshot ss" and "ce_capacity_bindings e = Some bs"
  shows "assess_scarcity e (map (restrict_snapshot bs) ss) = assess_scarcity e ss"
proof -
  have prov: "map sn_provider (map (restrict_snapshot bs) ss) = map sn_provider ss"
    by (simp add: restrict_snapshot_def)
  have valid: "list_all valid_snapshot (map (restrict_snapshot bs) ss)"
    using assms(2) by (auto simp: list_all_iff restrict_snapshot_valid)
  have scopes: "list_all valid_scope bs"
    using valid_entry_bindings [OF assms(1)] assms(3) by (simp add: bindings_valid_def)
  have "assessment_of (snapshot_map (map (restrict_snapshot bs) ss)) (Some bs)
      = assessment_of (snapshot_map ss) (Some bs)"
    by (rule assessment_of_cong)
      (use all_known_ok(1) [OF snapshot_map_valid [OF assms(2)] scopes] in
        \<open>simp_all add: all_known_set all_codes_def bound_windows_restrict\<close>)
  then show ?thesis
    unfolding assess_eval [OF assms(1) valid] assess_eval [OF assms(1,2)] assms(3) prov by simp
qed

theorem unrelated_scopes_never_penalize_witness:
  "assess_scarcity (sample_entry ''m-two'' 3 (Some [scope_b]))
     (map (restrict_snapshot [scope_b])
        [sample_snapshot ''zai'' [sample_window Kind_weekly ''coding'' 60,
          sample_window Kind_five_hour ''chat'' 30, sample_window Kind_weekly ''other'' 0]])
   = assess_scarcity (sample_entry ''m-two'' 3 (Some [scope_b]))
     [sample_snapshot ''zai'' [sample_window Kind_weekly ''coding'' 60,
          sample_window Kind_five_hour ''chat'' 30, sample_window Kind_weekly ''other'' 0]]"
  by (rule unrelated_scopes_never_penalize [OF sample_entries_valid(2)])
    (simp_all add: sample_snapshot_valid sample_entry_def)

subsection \<open>The integer arithmetic\<close>

lemma blend_between: "min a b \<le> blend a b \<and> blend a b \<le> max a b"
  by (auto simp: blend_def min_def max_def)

lemma blend_mono: "a \<le> a' \<Longrightarrow> b \<le> b' \<Longrightarrow> blend a b \<le> blend a' b'"
  by (simp add: blend_def zdiv_mono1)

lemma penalty_bounds: "pct_ok r \<Longrightarrow> 0 \<le> penalty_of r \<and> penalty_of r \<le> 10000"
  using penalty_le_iff [of r 0] penalty_le_iff [of 100 r] by (simp add: pct_ok_def penalty_of_def)

text \<open>
  C38: more remaining quota never costs more. For role percentages that grow pointwise, the blend
  stays between the two roles, never falls to 0 unless one of them is 0, its penalty stays within
  0..10000 and does not grow, and the label \<open>unavailable\<close> is reserved for an effective 0.
\<close>

theorem more_capacity_never_costs_more:
  assumes "blended_effective_remaining_percent (Some t) (Some s) = Inr e"
    and "blended_effective_remaining_percent (Some t') (Some s') = Inr e'"
    and "t \<le> t'" and "s \<le> s'"
  shows "min t s \<le> e \<and> e \<le> max t s \<and> (1 \<le> t \<and> 1 \<le> s \<longrightarrow> 1 \<le> e)
    \<and> (\<exists>p p' l. scarcity_penalty_units e = Inr p \<and> scarcity_penalty_units e' = Inr p'
         \<and> 0 \<le> p' \<and> p' \<le> p \<and> p \<le> 10000
         \<and> scarcity_label e = Inr l \<and> (l = Lb_unavailable \<longleftrightarrow> e = 0))"
proof -
  from assms(1,2) have e: "e = blend t s" "e' = blend t' s'" and ok: "pct_ok t" "pct_ok s" "pct_ok t'" "pct_ok s'"
    by (simp_all add: blend_Inr)
  have le: "e \<le> e'" using assms(3,4) by (simp add: e blend_mono)
  have pct: "pct_ok e" "pct_ok e'"
    using ok blend_between [of t s] blend_between [of t' s'] by (auto simp: e pct_ok_def)
  have low: "1 \<le> t \<and> 1 \<le> s \<longrightarrow> 1 \<le> e" using blend_between [of t s] by (auto simp: e)
  have label: "label_of e = Lb_unavailable \<longleftrightarrow> e = 0" using pct by (auto simp: label_of_def pct_ok_def)
  show ?thesis
    using low label le pct penalty_bounds penalty_le_iff blend_between [of t s]
    by (auto simp: e penalty_Inr label_Inr)
qed

theorem more_capacity_never_costs_more_witness:
  "blended_effective_remaining_percent (Some 30) (Some 60) = Inr 55 \<and>
   blended_effective_remaining_percent (Some 40) (Some 60) = Inr 56 \<and>
   (\<exists>p p'. scarcity_penalty_units 55 = Inr p \<and> scarcity_penalty_units 56 = Inr p' \<and> p' \<le> p)"
proof -
  have 1: "blended_effective_remaining_percent (Some 30) (Some 60) = Inr 55"
    "blended_effective_remaining_percent (Some 40) (Some 60) = Inr 56"
    by code_simp+
  with more_capacity_never_costs_more [OF 1] show ?thesis by auto
qed

text \<open>
  the assessment's wire form. Reading back what \<open>to_dict\<close> wrote restores the value, every
  parsed assessment satisfies the cross-field invariants, and constructing an assessment again
  changes nothing.
\<close>

theorem scarcity_wire_roundtrip:
  assumes "valid_scarcity a"
  shows "scarcity_from_dict (scarcity_to_dict a) = Inr a \<and> mk_scarcity a = Inr a
    \<and> (\<forall>d b. scarcity_from_dict d = Inr b \<longrightarrow> valid_scarcity b)"
  using scarcity_contract.from_to [OF assms] scarcity_contract.ok_mk [OF assms]
    scarcity_contract.parsed_ok by blast

theorem scarcity_wire_roundtrip_witness:
  "scarcity_from_dict (scarcity_to_dict (unknown_spec [scope_a] {Sr_missing_snapshot}))
     = Inr (unknown_spec [scope_a] {Sr_missing_snapshot})"
proof -
  have "valid_scarcity (unknown_spec [scope_a] {Sr_missing_snapshot})"
    by (rule unknown_spec_valid) (code_simp, simp add: codes_fit_def)
  from scarcity_wire_roundtrip [OF this] show ?thesis by simp
qed

end
