(* ===== verification/Policy.thy ===== *)
theory Policy
  imports Policy_Schedule Scarcity
begin

text \<open>
  policy.py, the decisions: the unknown-capacity modes, reservations over shared scopes, weekly
  blackouts and happy hours, replenishment visibility and the \<open>UserPolicy\<close> container.
\<close>

section \<open>Frozen value sets\<close>

datatype unknown_mode = Um_degraded | Um_strict

fun unknown_mode_str :: "unknown_mode \<Rightarrow> string" where
  "unknown_mode_str Um_degraded = ''degraded''"
| "unknown_mode_str Um_strict = ''strict''"

definition UNKNOWN_CAPACITY_MODES :: "unknown_mode list" where
  "UNKNOWN_CAPACITY_MODES = [Um_degraded, Um_strict]"

datatype replenishment_mode = Rm_ignore | Rm_advisory | Rm_recoverable

fun replenishment_mode_str :: "replenishment_mode \<Rightarrow> string" where
  "replenishment_mode_str Rm_ignore = ''ignore''"
| "replenishment_mode_str Rm_advisory = ''advisory''"
| "replenishment_mode_str Rm_recoverable = ''recoverable''"

definition REPLENISHMENT_MODES :: "replenishment_mode list" where
  "REPLENISHMENT_MODES = [Rm_ignore, Rm_advisory, Rm_recoverable]"

datatype reservation_state = Rs_known | Rs_unknown

fun reservation_state_str :: "reservation_state \<Rightarrow> string" where
  "reservation_state_str Rs_known = ''known''"
| "reservation_state_str Rs_unknown = ''unknown''"

definition RESERVATION_STATES :: "reservation_state list" where
  "RESERVATION_STATES = [Rs_known, Rs_unknown]"

definition RESERVATION_RESOURCES :: "window_resource list" where
  "RESERVATION_RESOURCES = [Res_tokens, Res_time]"

definition RESERVATION_WINDOW_KINDS :: "window_kind list" where
  "RESERVATION_WINDOW_KINDS = [Kind_five_hour, Kind_weekly]"

datatype policy_reason =
    Pr_unknown_degraded | Pr_unknown_blocked | Pr_exhausted
  | Pr_res_triggered | Pr_res_blocked | Pr_res_permitted | Pr_res_snapshot_missing
  | Pr_res_snapshot_not_ok | Pr_res_window_missing | Pr_res_percentage_unknown
  | Pr_policy_blocked | Pr_repl_available | Pr_repl_recoverable | Pr_human_action

fun preason_str :: "policy_reason \<Rightarrow> string" where
  "preason_str Pr_unknown_degraded = ''unknown_capacity_degraded''"
| "preason_str Pr_unknown_blocked = ''unknown_capacity_blocked''"
| "preason_str Pr_exhausted = ''capacity_exhausted''"
| "preason_str Pr_res_triggered = ''reservation_triggered''"
| "preason_str Pr_res_blocked = ''reservation_blocked''"
| "preason_str Pr_res_permitted = ''reservation_permitted_by_task_level''"
| "preason_str Pr_res_snapshot_missing = ''reservation_scope_snapshot_missing''"
| "preason_str Pr_res_snapshot_not_ok = ''reservation_scope_snapshot_not_ok''"
| "preason_str Pr_res_window_missing = ''reservation_window_missing''"
| "preason_str Pr_res_percentage_unknown = ''reservation_percentage_unknown''"
| "preason_str Pr_policy_blocked = ''policy_blocked''"
| "preason_str Pr_repl_available = ''replenishment_available''"
| "preason_str Pr_repl_recoverable = ''replenishment_recoverable''"
| "preason_str Pr_human_action = ''human_action_required''"

definition POLICY_REASON_CODES :: "policy_reason list" where
  "POLICY_REASON_CODES =
     [Pr_unknown_degraded, Pr_unknown_blocked, Pr_exhausted, Pr_res_triggered, Pr_res_blocked,
      Pr_res_permitted, Pr_res_snapshot_missing, Pr_res_snapshot_not_ok, Pr_res_window_missing,
      Pr_res_percentage_unknown, Pr_policy_blocked, Pr_repl_available, Pr_repl_recoverable,
      Pr_human_action]"

definition RECOVERABLE_CODES :: "policy_reason list" where
  "RECOVERABLE_CODES = [Pr_human_action, Pr_repl_available, Pr_repl_recoverable]"

interpretation unknown_mode_vocab: vocabulary unknown_mode_str UNKNOWN_CAPACITY_MODES
  by (rule vocabularyI, simp add: UNKNOWN_CAPACITY_MODES_def, case_tac x,
      simp_all add: UNKNOWN_CAPACITY_MODES_def)

interpretation replenishment_mode_vocab: vocabulary replenishment_mode_str REPLENISHMENT_MODES
  by (rule vocabularyI, simp add: REPLENISHMENT_MODES_def, case_tac x,
      simp_all add: REPLENISHMENT_MODES_def)

interpretation reservation_state_vocab: vocabulary reservation_state_str RESERVATION_STATES
  by (rule vocabularyI, simp add: RESERVATION_STATES_def, case_tac x,
      simp_all add: RESERVATION_STATES_def)

interpretation preason_vocab: vocabulary preason_str POLICY_REASON_CODES
  by (rule vocabularyI, simp add: POLICY_REASON_CODES_def, case_tac x,
      simp_all add: POLICY_REASON_CODES_def)

definition v_policy_codes :: "policy_reason list \<Rightarrow> string \<Rightarrow> policy_reason list result" where
  "v_policy_codes codes fld =
     bind_r (seen_check (sel_exn fld) {} codes) (\<lambda>_. Inr (sort_key preason_str codes))"

definition canonical_codes :: "policy_reason list \<Rightarrow> bool" where
  "canonical_codes cs = (distinct cs \<and> sorted (map preason_str cs))"

lemma v_policy_codes_Inr [valid_simps]:
  "v_policy_codes cs fld = Inr ds \<longleftrightarrow> distinct cs \<and> ds = sort_key preason_str cs"
  by (auto simp: v_policy_codes_def result_simps)

lemma canonical_codes_sort [simp]:
  "canonical_codes cs \<Longrightarrow> sort_key preason_str cs = cs"
  "distinct cs \<Longrightarrow> canonical_codes (sort_key preason_str cs)"
  by (simp_all add: canonical_codes_def)

definition codes_from :: "pyval \<Rightarrow> string \<Rightarrow> policy_reason list result" where
  \<comment> \<open>the list guard and the element check of every decision's \<open>from_dict\<close>\<close>
  "codes_from v fld =
     v_list_of sel_exn (\<lambda>c. v_enum sel_exn preason_str POLICY_REASON_CODES c fld) v fld"

definition codes_wire :: "policy_reason list \<Rightarrow> pyval" where
  "codes_wire cs = PList (map (\<lambda>c. PStr (preason_str c)) cs)"

lemma codes_from_wire [simp]: "codes_from (codes_wire cs) fld = Inr cs"
  by (simp add: codes_from_def codes_wire_def traverse_map_Inr preason_vocab.v_enum_str)

section \<open>Unknown capacity\<close>

record unknown_decision =
  uc_mode :: unknown_mode
  uc_eligible :: bool
  uc_degraded :: bool
  uc_reason_codes :: "policy_reason list"

definition check_unknown_decision :: "unknown_decision \<Rightarrow> unknown_decision result" where
  "check_unknown_decision u =
     (let err = Inl (sel_exn ''unknown_capacity''); codes = uc_reason_codes u in
      if uc_degraded u then
        (if uc_mode u \<noteq> Um_degraded \<or> \<not> uc_eligible u then err
         else if codes \<noteq> [Pr_unknown_degraded] then err else Inr u)
      else if uc_eligible u then (if codes \<noteq> [] then err else Inr u)
      else if codes = [] \<or> {Pr_unknown_blocked, Pr_exhausted} \<inter> set codes = {} then err
      else Inr u)"

definition mk_unknown_decision :: "unknown_decision \<Rightarrow> unknown_decision result" where
  "mk_unknown_decision u =
     bind_r (v_policy_codes (uc_reason_codes u) ''unknown_capacity.reason_codes'') (\<lambda>codes.
       check_unknown_decision (u\<lparr>uc_reason_codes := codes\<rparr>))"

definition unknown_decision_from_dict :: "pyval \<Rightarrow> unknown_decision result" where
  "unknown_decision_from_dict d =
     bind_r (v_exact_shape sel_exn d
               [''mode'', ''eligible_by_unknown_policy'', ''degraded'', ''reason_codes''] []
               ''unknown_capacity'') (\<lambda>dd.
     bind_r (v_item dd ''reason_codes'' codes_from ''unknown_capacity.reason_codes'') (\<lambda>codes.
     bind_r (v_item dd ''mode'' (v_enum sel_exn unknown_mode_str UNKNOWN_CAPACITY_MODES)
               ''unknown_capacity.mode'') (\<lambda>mode.
     bind_r (v_item dd ''eligible_by_unknown_policy'' (v_bool sel_exn)
               ''unknown_capacity.eligible_by_unknown_policy'') (\<lambda>el.
     bind_r (v_item dd ''degraded'' (v_bool sel_exn) ''unknown_capacity.degraded'') (\<lambda>dg.
       mk_unknown_decision \<lparr>uc_mode = mode, uc_eligible = el, uc_degraded = dg,
         uc_reason_codes = codes\<rparr>)))))"

definition unknown_decision_to_dict :: "unknown_decision \<Rightarrow> pyval" where
  "unknown_decision_to_dict u =
     obj [(''mode'', Some (PStr (unknown_mode_str (uc_mode u)))),
          (''eligible_by_unknown_policy'', Some (PBool (uc_eligible u))),
          (''degraded'', Some (PBool (uc_degraded u))),
          (''reason_codes'', Some (codes_wire (uc_reason_codes u)))]"

definition apply_unknown_capacity_mode :: "unknown_mode \<Rightarrow> scarcity_assessment \<Rightarrow> unknown_decision result" where
  "apply_unknown_capacity_mode mode a =
     (case sa_state a of
        Sc_known \<Rightarrow> mk_unknown_decision \<lparr>uc_mode = mode, uc_eligible = True, uc_degraded = False,
                      uc_reason_codes = []\<rparr>
      | Sc_unavailable \<Rightarrow> mk_unknown_decision \<lparr>uc_mode = mode, uc_eligible = False,
                            uc_degraded = False, uc_reason_codes = [Pr_exhausted]\<rparr>
      | Sc_unknown \<Rightarrow>
          (if mode = Um_degraded
           then mk_unknown_decision \<lparr>uc_mode = mode, uc_eligible = True, uc_degraded = True,
                  uc_reason_codes = [Pr_unknown_degraded]\<rparr>
           else mk_unknown_decision \<lparr>uc_mode = mode, uc_eligible = False, uc_degraded = False,
                  uc_reason_codes = [Pr_unknown_blocked]\<rparr>))"

definition unknown_decision_ok :: "unknown_decision \<Rightarrow> bool" where
  "unknown_decision_ok u =
     (if uc_degraded u
      then uc_mode u = Um_degraded \<and> uc_eligible u \<and> uc_reason_codes u = [Pr_unknown_degraded]
      else if uc_eligible u then uc_reason_codes u = []
      else {Pr_unknown_blocked, Pr_exhausted} \<inter> set (uc_reason_codes u) \<noteq> {})"

definition valid_unknown_decision :: "unknown_decision \<Rightarrow> bool" where
  "valid_unknown_decision u = (canonical_codes (uc_reason_codes u) \<and> unknown_decision_ok u)"

lemma check_unknown_decision_Inr:
  "check_unknown_decision u = Inr u' \<longleftrightarrow> u' = u \<and> unknown_decision_ok u"
  unfolding check_unknown_decision_def unknown_decision_ok_def Let_def by auto

lemma mk_unknown_decision_Inr:
  "mk_unknown_decision u = Inr u' \<longleftrightarrow> distinct (uc_reason_codes u)
     \<and> u' = u\<lparr>uc_reason_codes := sort_key preason_str (uc_reason_codes u)\<rparr> \<and> valid_unknown_decision u'"
  by (auto simp: mk_unknown_decision_def valid_unknown_decision_def bind_r_Inr_iff v_policy_codes_Inr
      check_unknown_decision_Inr)

interpretation unknown_decision_contract:
  contract "\<lambda>_. True" valid_unknown_decision mk_unknown_decision unknown_decision_from_dict
    unknown_decision_to_dict
proof unfold_locales
  fix r d
  show "unknown_decision_from_dict d = Inr r \<Longrightarrow> valid_unknown_decision r"
    by (auto simp: unknown_decision_from_dict_def bind_r_Inr_iff mk_unknown_decision_Inr)
  show ok: "valid_unknown_decision r \<Longrightarrow> mk_unknown_decision r = Inr r"
    by (simp add: mk_unknown_decision_Inr valid_unknown_decision_def) (simp add: canonical_codes_def)
  show "valid_unknown_decision r \<Longrightarrow> unknown_decision_from_dict (unknown_decision_to_dict r) = Inr r"
    by (frule ok, cases r) (auto simp: unknown_decision_from_dict_def unknown_decision_to_dict_def
        shape_simps result_simps v_bool_def unknown_mode_vocab.v_enum_str)
qed (simp add: mk_unknown_decision_Inr)

definition unknown_decision_for :: "unknown_mode \<Rightarrow> scarcity_state \<Rightarrow> unknown_decision" where
  "unknown_decision_for mode st =
     (let soft = (st = Sc_unknown \<and> mode = Um_degraded) in
      \<lparr>uc_mode = mode, uc_eligible = (st = Sc_known \<or> soft), uc_degraded = soft,
        uc_reason_codes =
          (case st of Sc_known \<Rightarrow> [] | Sc_unavailable \<Rightarrow> [Pr_exhausted]
           | Sc_unknown \<Rightarrow> if soft then [Pr_unknown_degraded] else [Pr_unknown_blocked])\<rparr>)"

lemma unknown_run:
  "apply_unknown_capacity_mode mode a = Inr (unknown_decision_for mode (sa_state a))"
  "valid_unknown_decision (unknown_decision_for mode st)"
proof -
  show "valid_unknown_decision (unknown_decision_for mode st)"
    by (cases st; cases mode)
      (simp_all add: unknown_decision_for_def valid_unknown_decision_def unknown_decision_ok_def
        canonical_codes_def)
  show "apply_unknown_capacity_mode mode a = Inr (unknown_decision_for mode (sa_state a))"
    by (cases "sa_state a"; cases mode)
      (auto simp: apply_unknown_capacity_mode_def unknown_decision_for_def mk_unknown_decision_Inr
        valid_unknown_decision_def unknown_decision_ok_def canonical_codes_def)
qed

text \<open>
  the unknown-capacity table. The decision is always constructed and is the same for every
  assessment of one state: known capacity is plainly eligible under both modes, exhausted capacity
  is blocked under both, unknown capacity is degraded-eligible in \<open>degraded\<close> and blocked in
  \<open>strict\<close>; only unknown capacity is ever degraded, and a blocked decision names its cause.
\<close>

theorem unknown_capacity_table:
  "\<exists>u. apply_unknown_capacity_mode mode a = Inr u \<and> valid_unknown_decision u \<and> uc_mode u = mode
     \<and> uc_eligible u = (sa_state a = Sc_known \<or> sa_state a = Sc_unknown \<and> mode = Um_degraded)
     \<and> uc_degraded u = (sa_state a = Sc_unknown \<and> mode = Um_degraded)
     \<and> (Pr_exhausted \<in> set (uc_reason_codes u) \<longleftrightarrow> sa_state a = Sc_unavailable)
     \<and> (Pr_unknown_blocked \<in> set (uc_reason_codes u) \<longleftrightarrow> sa_state a = Sc_unknown \<and> mode = Um_strict)
     \<and> (uc_reason_codes u = [] \<longleftrightarrow> sa_state a = Sc_known)"
  by (cases "sa_state a"; cases mode) (simp_all add: unknown_run, simp_all add: unknown_decision_for_def)

section \<open>Reservations\<close>

record reservation_rule =
  rr_rule_id :: string
  rr_scope :: capacity_scope_ref
  rr_resource :: window_resource
  rr_kind :: window_kind
  rr_when_remaining_below :: int
  rr_minimum_task_level :: task_level

definition mk_reservation_rule :: "reservation_rule \<Rightarrow> reservation_rule result" where
  "mk_reservation_rule r =
     bind_r (v_safe_id sel_exn (PStr (rr_rule_id r)) ''reservation_rule.rule_id'') (\<lambda>_.
     bind_r (v_enum sel_exn resource_str RESERVATION_RESOURCES (PStr (resource_str (rr_resource r)))
               ''reservation_rule.resource'') (\<lambda>_.
     bind_r (v_enum sel_exn kind_str RESERVATION_WINDOW_KINDS (PStr (kind_str (rr_kind r)))
               ''reservation_rule.kind'') (\<lambda>_.
     bind_r (v_int sel_exn (Some 1) (Some 100) (PInt (rr_when_remaining_below r))
               ''reservation_rule.when_remaining_below'') (\<lambda>_. Inr r))))"

definition reservation_rule_from_dict :: "pyval \<Rightarrow> reservation_rule result" where
  "reservation_rule_from_dict d =
     bind_r (v_exact_shape sel_exn d [''rule_id'', ''scope'', ''resource'', ''kind'',
               ''when_remaining_below'', ''minimum_task_level''] [] ''reservation_rule'') (\<lambda>dd.
     bind_r (v_item dd ''rule_id'' (v_safe_id sel_exn) ''reservation_rule.rule_id'') (\<lambda>rid.
     bind_r (v_item dd ''scope'' (\<lambda>v _. scope_from_dict v) '''') (\<lambda>scope.
     bind_r (v_item dd ''resource'' (v_enum sel_exn resource_str RESERVATION_RESOURCES)
               ''reservation_rule.resource'') (\<lambda>res.
     bind_r (v_item dd ''kind'' (v_enum sel_exn kind_str RESERVATION_WINDOW_KINDS)
               ''reservation_rule.kind'') (\<lambda>kind.
     bind_r (v_item dd ''when_remaining_below'' (v_int sel_exn (Some 1) (Some 100))
               ''reservation_rule.when_remaining_below'') (\<lambda>below.
     bind_r (v_item dd ''minimum_task_level'' (v_enum sel_exn level_str TASK_LEVELS)
               ''reservation_rule.minimum_task_level'') (\<lambda>level.
       mk_reservation_rule \<lparr>rr_rule_id = rid, rr_scope = scope, rr_resource = res, rr_kind = kind,
         rr_when_remaining_below = below, rr_minimum_task_level = level\<rparr>)))))))"

definition reservation_rule_to_dict :: "reservation_rule \<Rightarrow> pyval" where
  "reservation_rule_to_dict r =
     obj [(''rule_id'', Some (PStr (rr_rule_id r))), (''scope'', Some (scope_to_dict (rr_scope r))),
          (''resource'', Some (PStr (resource_str (rr_resource r)))),
          (''kind'', Some (PStr (kind_str (rr_kind r)))),
          (''when_remaining_below'', Some (PInt (rr_when_remaining_below r))),
          (''minimum_task_level'', Some (PStr (level_str (rr_minimum_task_level r))))]"

definition valid_reservation_rule :: "reservation_rule \<Rightarrow> bool" where
  "valid_reservation_rule r =
     (safe_id_match (rr_rule_id r) \<and> valid_scope (rr_scope r)
      \<and> rr_resource r \<in> set RESERVATION_RESOURCES \<and> rr_kind r \<in> set RESERVATION_WINDOW_KINDS
      \<and> 1 \<le> rr_when_remaining_below r \<and> rr_when_remaining_below r \<le> 100)"

lemma mk_reservation_rule_Inr:
  "valid_scope (rr_scope r) \<Longrightarrow> mk_reservation_rule r = Inr r' \<longleftrightarrow> r' = r \<and> valid_reservation_rule r"
  by (auto simp: mk_reservation_rule_def valid_reservation_rule_def result_simps valid_simps)

interpretation reservation_rule_contract:
  contract "\<lambda>r. valid_scope (rr_scope r)" valid_reservation_rule mk_reservation_rule
    reservation_rule_from_dict reservation_rule_to_dict
proof unfold_locales
  fix r d
  show "reservation_rule_from_dict d = Inr r \<Longrightarrow> valid_reservation_rule r"
    by (auto simp: reservation_rule_from_dict_def bind_r_Inr_iff mk_reservation_rule_Inr
        dest!: scope_contract.item_ok)
  show "valid_reservation_rule r \<Longrightarrow> mk_reservation_rule r = Inr r"
    by (simp add: mk_reservation_rule_Inr valid_reservation_rule_def)
  show "valid_reservation_rule r \<Longrightarrow> reservation_rule_from_dict (reservation_rule_to_dict r) = Inr r"
    by (cases r) (auto simp: reservation_rule_from_dict_def reservation_rule_to_dict_def shape_simps
        result_simps valid_simps valid_reservation_rule_def mk_reservation_rule_Inr
        scope_contract.from_to)
qed (simp add: mk_reservation_rule_Inr)

record reservation_decision =
  rd_rule_id :: string
  rd_state :: reservation_state
  rd_triggered :: "bool option"
  rd_blocked :: "bool option"
  rd_evidence_remaining_percent :: "int option"
  rd_reason_codes :: "policy_reason list"

definition KNOWN_CODES :: "policy_reason list" where
  "KNOWN_CODES = [Pr_res_triggered, Pr_res_blocked, Pr_res_permitted]"

definition UNKNOWN_CODES :: "policy_reason list" where
  "UNKNOWN_CODES = [Pr_res_snapshot_missing, Pr_res_snapshot_not_ok, Pr_res_window_missing,
     Pr_res_percentage_unknown]"

definition check_reservation_decision :: "reservation_decision \<Rightarrow> reservation_decision result" where
  "check_reservation_decision d =
     (let err = Inl (sel_exn ''reservation_decision''); codes = rd_reason_codes d in
      if rd_state d = Rs_unknown then
        (if rd_triggered d \<noteq> None \<or> rd_blocked d \<noteq> None \<or> rd_evidence_remaining_percent d \<noteq> None then err
         else if codes = [] \<or> \<not> set codes \<subseteq> set UNKNOWN_CODES then err
         else Inr d)
      else
        bind_r (v_bool sel_exn (opt_py PBool (rd_triggered d)) ''reservation_decision.triggered'') (\<lambda>triggered.
        bind_r (v_bool sel_exn (opt_py PBool (rd_blocked d)) ''reservation_decision.blocked'') (\<lambda>blocked.
        bind_r (v_int sel_exn (Some 0) (Some 100) (opt_py PInt (rd_evidence_remaining_percent d))
                  ''reservation_decision.evidence_remaining_percent'') (\<lambda>_.
          if \<not> set codes \<subseteq> set KNOWN_CODES then err
          else if \<not> triggered then
            (if blocked then err else if codes \<noteq> [] then err else Inr d)
          else if Pr_res_triggered \<notin> set codes then err
          else if blocked then (if Pr_res_blocked \<notin> set codes then err else Inr d)
          else if Pr_res_blocked \<in> set codes then err
          else if Pr_res_permitted \<notin> set codes then err
          else Inr d))))"

definition mk_reservation_decision :: "reservation_decision \<Rightarrow> reservation_decision result" where
  "mk_reservation_decision d =
     bind_r (v_safe_id sel_exn (PStr (rd_rule_id d)) ''reservation_decision.rule_id'') (\<lambda>_.
     bind_r (v_policy_codes (rd_reason_codes d) ''reservation_decision.reason_codes'') (\<lambda>codes.
       check_reservation_decision (d\<lparr>rd_reason_codes := codes\<rparr>)))"

definition reservation_decision_from_dict :: "pyval \<Rightarrow> reservation_decision result" where
  "reservation_decision_from_dict v =
     bind_r (v_exact_shape sel_exn v [''rule_id'', ''state'', ''reason_codes'']
               [''triggered'', ''blocked'', ''evidence_remaining_percent''] ''reservation_decision'') (\<lambda>dd.
     bind_r (v_item dd ''reason_codes'' codes_from ''reservation_decision.reason_codes'') (\<lambda>codes.
     bind_r (v_opt (v_bool sel_exn) (py_get dd ''triggered'') ''reservation_decision.triggered'') (\<lambda>trig.
     bind_r (v_opt (v_bool sel_exn) (py_get dd ''blocked'') ''reservation_decision.blocked'') (\<lambda>blocked.
     bind_r (v_opt (v_int sel_exn (Some 0) (Some 100)) (py_get dd ''evidence_remaining_percent'')
               ''reservation_decision.evidence_remaining_percent'') (\<lambda>ev.
     bind_r (v_item dd ''rule_id'' (v_safe_id sel_exn) ''reservation_decision.rule_id'') (\<lambda>rid.
     bind_r (v_item dd ''state'' (v_enum sel_exn reservation_state_str RESERVATION_STATES)
               ''reservation_decision.state'') (\<lambda>state.
       mk_reservation_decision \<lparr>rd_rule_id = rid, rd_state = state, rd_triggered = trig,
         rd_blocked = blocked, rd_evidence_remaining_percent = ev, rd_reason_codes = codes\<rparr>)))))))"

definition reservation_decision_to_dict :: "reservation_decision \<Rightarrow> pyval" where
  "reservation_decision_to_dict d =
     obj [(''rule_id'', Some (PStr (rd_rule_id d))),
          (''state'', Some (PStr (reservation_state_str (rd_state d)))),
          (''triggered'', map_option PBool (rd_triggered d)),
          (''blocked'', map_option PBool (rd_blocked d)),
          (''evidence_remaining_percent'', map_option PInt (rd_evidence_remaining_percent d)),
          (''reason_codes'', Some (codes_wire (rd_reason_codes d)))]"

definition reservation_unknown :: "string \<Rightarrow> policy_reason list \<Rightarrow> reservation_decision result" where
  "reservation_unknown rid reasons =
     mk_reservation_decision \<lparr>rd_rule_id = rid, rd_state = Rs_unknown, rd_triggered = None,
       rd_blocked = None, rd_evidence_remaining_percent = None, rd_reason_codes = reasons\<rparr>"

fun reservation_values :: "reservation_rule \<Rightarrow> capacity_window list \<Rightarrow> int list \<Rightarrow> int list option" where
  \<comment> \<open>None: the loop returned at a matching window without a percentage pair\<close>
  "reservation_values rule [] acc = Some acc"
| "reservation_values rule (w # ws) acc =
     (if w_scope_id w \<noteq> Some (cs_scope_id (rr_scope rule)) \<or> w_resource w \<noteq> rr_resource rule
         \<or> w_kind w \<noteq> rr_kind rule
      then reservation_values rule ws acc
      else case (w_used_percent w, w_remaining_percent w) of
             (Some _, Some r) \<Rightarrow> reservation_values rule ws (acc @ [r])
           | _ \<Rightarrow> None)"

definition evaluate_reservation ::
  "reservation_rule \<Rightarrow> capacity_snapshot list \<Rightarrow> task_level \<Rightarrow> reservation_decision result" where
  "evaluate_reservation rule snapshots level =
     bind_r (snapshots_by_provider ''evaluate_reservation.snapshots'' Map.empty snapshots) (\<lambda>m.
       case m (cs_provider (rr_scope rule)) of
         None \<Rightarrow> reservation_unknown (rr_rule_id rule) [Pr_res_snapshot_missing]
       | Some s \<Rightarrow>
           if sn_status s \<noteq> St_ok then reservation_unknown (rr_rule_id rule) [Pr_res_snapshot_not_ok]
           else case reservation_values rule (sn_windows s) [] of
                  None \<Rightarrow> reservation_unknown (rr_rule_id rule) [Pr_res_percentage_unknown]
                | Some [] \<Rightarrow> reservation_unknown (rr_rule_id rule) [Pr_res_window_missing]
                | Some (v # vs) \<Rightarrow>
                    (let evidence = fold min vs v;
                         triggered = (evidence < rr_when_remaining_below rule);
                         blocked = (triggered \<and> level_index level < level_index (rr_minimum_task_level rule));
                         codes = (if triggered then
                                    (if blocked then [Pr_res_triggered, Pr_res_blocked]
                                     else [Pr_res_triggered, Pr_res_permitted])
                                  else []) in
                     mk_reservation_decision \<lparr>rd_rule_id = rr_rule_id rule, rd_state = Rs_known,
                       rd_triggered = Some triggered, rd_blocked = Some blocked,
                       rd_evidence_remaining_percent = Some evidence, rd_reason_codes = codes\<rparr>))"

definition reservation_decision_ok :: "reservation_decision \<Rightarrow> bool" where
  "reservation_decision_ok d =
     (case rd_state d of
        Rs_unknown \<Rightarrow>
          rd_triggered d = None \<and> rd_blocked d = None \<and> rd_evidence_remaining_percent d = None
          \<and> rd_reason_codes d \<noteq> [] \<and> set (rd_reason_codes d) \<subseteq> set UNKNOWN_CODES
      | Rs_known \<Rightarrow>
          (case (rd_triggered d, rd_blocked d, rd_evidence_remaining_percent d) of
             (Some t, Some b, Some e) \<Rightarrow>
               0 \<le> e \<and> e \<le> 100 \<and> set (rd_reason_codes d) \<subseteq> set KNOWN_CODES
               \<and> (if \<not> t then \<not> b \<and> rd_reason_codes d = []
                  else Pr_res_triggered \<in> set (rd_reason_codes d)
                    \<and> (b \<longleftrightarrow> Pr_res_blocked \<in> set (rd_reason_codes d))
                    \<and> (\<not> b \<longrightarrow> Pr_res_permitted \<in> set (rd_reason_codes d)))
           | _ \<Rightarrow> False))"

definition valid_reservation_decision :: "reservation_decision \<Rightarrow> bool" where
  "valid_reservation_decision d =
     (safe_id_match (rd_rule_id d) \<and> canonical_codes (rd_reason_codes d) \<and> reservation_decision_ok d)"

lemma check_reservation_decision_Inr:
  "check_reservation_decision d = Inr d' \<longleftrightarrow> d' = d \<and> reservation_decision_ok d"
proof (cases "rd_state d")
  case Rs_unknown
  then show ?thesis
    by (auto simp: check_reservation_decision_def reservation_decision_ok_def Let_def)
next
  case Rs_known
  then show ?thesis
    by (cases "rd_triggered d"; cases "rd_blocked d"; cases "rd_evidence_remaining_percent d")
      (auto simp: check_reservation_decision_def reservation_decision_ok_def Let_def result_simps
        valid_simps)
qed

lemma mk_reservation_decision_Inr:
  "mk_reservation_decision d = Inr d' \<longleftrightarrow> distinct (rd_reason_codes d)
     \<and> d' = d\<lparr>rd_reason_codes := sort_key preason_str (rd_reason_codes d)\<rparr> \<and> valid_reservation_decision d'"
  by (auto simp: mk_reservation_decision_def valid_reservation_decision_def bind_r_Inr_iff
      v_policy_codes_Inr check_reservation_decision_Inr v_safe_id_Inr)

lemma mk_valid_reservation_decision:
  "valid_reservation_decision d \<Longrightarrow> mk_reservation_decision d = Inr d"
  by (simp add: mk_reservation_decision_Inr valid_reservation_decision_def)
    (simp add: canonical_codes_def)

lemma reservation_evidence_bounds:
  "reservation_decision_ok d \<Longrightarrow>
   pred_option (\<lambda>n. 0 \<le> n \<and> n \<le> 100) (rd_evidence_remaining_percent d)"
  by (cases "rd_state d"; cases "rd_evidence_remaining_percent d")
    (auto simp: reservation_decision_ok_def split: option.splits)

interpretation reservation_decision_contract:
  contract "\<lambda>_. True" valid_reservation_decision mk_reservation_decision
    reservation_decision_from_dict reservation_decision_to_dict
proof unfold_locales
  fix r d
  show "reservation_decision_from_dict d = Inr r \<Longrightarrow> valid_reservation_decision r"
    by (auto simp: reservation_decision_from_dict_def bind_r_Inr_iff mk_reservation_decision_Inr)
  show "valid_reservation_decision r \<Longrightarrow> mk_reservation_decision r = Inr r"
    by (rule mk_valid_reservation_decision)
  show "valid_reservation_decision r \<Longrightarrow> reservation_decision_from_dict (reservation_decision_to_dict r) = Inr r"
    by (frule mk_valid_reservation_decision; cases r)
      (auto simp: reservation_decision_from_dict_def reservation_decision_to_dict_def shape_simps
        result_simps valid_simps valid_reservation_decision_def reservation_state_vocab.v_enum_str
        dest: reservation_evidence_bounds)
qed (simp add: mk_reservation_decision_Inr)

definition targeted :: "reservation_rule \<Rightarrow> capacity_window \<Rightarrow> bool" where
  "targeted rule w =
     (w_scope_id w = Some (cs_scope_id (rr_scope rule)) \<and> w_resource w = rr_resource rule
      \<and> w_kind w = rr_kind rule)"

definition target_windows :: "reservation_rule \<Rightarrow> capacity_snapshot list \<Rightarrow> capacity_window list option" where
  \<comment> \<open>the rule's target windows, None without a trustworthy snapshot of the provider\<close>
  "target_windows rule ss =
     (case snapshot_map ss (cs_provider (rr_scope rule)) of
        None \<Rightarrow> None
      | Some s \<Rightarrow> if sn_status s = St_ok then Some (filter (targeted rule) (sn_windows s)) else None)"

lemma reservation_values_eq:
  "reservation_values rule ws acc =
     (if list_ex (\<lambda>w. remaining_of w = None) (filter (targeted rule) ws) then None
      else Some (acc @ map (\<lambda>w. the (remaining_of w)) (filter (targeted rule) ws)))"
  by (induction ws arbitrary: acc)
    (auto simp: targeted_def remaining_of_def split: option.splits)

lemma valid_remaining_pct: "valid_window w \<Longrightarrow> remaining_of w = Some r \<Longrightarrow> pct_ok r"
  by (auto simp: valid_window_def remaining_of_def pct_pair_ok_def pct_ok_def split: option.splits if_splits)

lemma fold_min_Min: "fold min vs (v :: int) = Min (set (v # vs))"
  by (rule Min.set_eq_fold [symmetric])

definition reservation_reading :: "reservation_rule \<Rightarrow> capacity_snapshot list \<Rightarrow> int option" where
  \<comment> \<open>the least remaining percentage of the target windows, None when it cannot be read\<close>
  "reservation_reading rule ss =
     (case target_windows rule ss of
        None \<Rightarrow> None
      | Some ws \<Rightarrow>
          if ws = [] \<or> list_ex (\<lambda>w. remaining_of w = None) ws then None
          else Some (Min (set (map (\<lambda>w. the (remaining_of w)) ws))))"

definition reservation_outcome :: "reservation_rule \<Rightarrow> int option \<Rightarrow> task_level \<Rightarrow> reservation_decision \<Rightarrow> bool" where
  "reservation_outcome rule reading level d =
     (rd_rule_id d = rr_rule_id rule
      \<and> (case reading of
           None \<Rightarrow> rd_state d = Rs_unknown
         | Some least \<Rightarrow>
             rd_state d = Rs_known \<and> rd_evidence_remaining_percent d = Some least
             \<and> rd_triggered d = Some (least < rr_when_remaining_below rule)
             \<and> rd_blocked d = Some (least < rr_when_remaining_below rule
                  \<and> level < rr_minimum_task_level rule)))"

lemma reservation_run:
  assumes "valid_reservation_rule rule" and "list_all valid_snapshot ss"
    and distinct: "distinct (map sn_provider ss)"
  shows "\<exists>d. evaluate_reservation rule ss level = Inr d \<and> valid_reservation_decision d
    \<and> reservation_outcome rule (reservation_reading rule ss) level d"
proof -
  let ?m = "snapshot_map ss"
  have m: "snapshots_by_provider fld Map.empty ss = Inr ?m" for fld
    using distinct by (simp add: snapshots_by_provider_eq)
  have rid: "safe_id_match (rr_rule_id rule)" using assms(1) by (simp add: valid_reservation_rule_def)
  have unknown: "\<exists>d. reservation_unknown (rr_rule_id rule) [c] = Inr d \<and> valid_reservation_decision d
      \<and> rd_rule_id d = rr_rule_id rule \<and> rd_state d = Rs_unknown" if "c \<in> set UNKNOWN_CODES" for c
    using that rid
    by (auto simp: reservation_unknown_def mk_reservation_decision_Inr valid_reservation_decision_def
        reservation_decision_ok_def canonical_codes_def)
  show ?thesis
  proof (cases "target_windows rule ss")
    case None
    then have "evaluate_reservation rule ss level = reservation_unknown (rr_rule_id rule) [Pr_res_snapshot_missing]
        \<or> evaluate_reservation rule ss level = reservation_unknown (rr_rule_id rule) [Pr_res_snapshot_not_ok]"
      by (auto simp: evaluate_reservation_def m target_windows_def split: option.splits if_splits)
    with None unknown [of Pr_res_snapshot_missing] unknown [of Pr_res_snapshot_not_ok]
    show ?thesis by (auto simp: UNKNOWN_CODES_def reservation_outcome_def reservation_reading_def)
  next
    case (Some ws)
    then obtain s where s: "?m (cs_provider (rr_scope rule)) = Some s" "sn_status s = St_ok"
      and ws: "ws = filter (targeted rule) (sn_windows s)"
      by (auto simp: target_windows_def split: option.splits if_splits)
    have valid: "\<forall>w \<in> set ws. valid_window w"
      using assms(2) snapshot_map_Some [OF s(1)] by (auto simp: ws list_all_iff valid_snapshot_def)
    show ?thesis
    proof (cases "ws = [] \<or> list_ex (\<lambda>w. remaining_of w = None) ws")
      case True
      then have "evaluate_reservation rule ss level = reservation_unknown (rr_rule_id rule) [Pr_res_window_missing]
          \<or> evaluate_reservation rule ss level = reservation_unknown (rr_rule_id rule) [Pr_res_percentage_unknown]"
        using s by (auto simp: evaluate_reservation_def m reservation_values_eq simp flip: ws)
      with True Some unknown [of Pr_res_window_missing] unknown [of Pr_res_percentage_unknown]
      show ?thesis by (auto simp: UNKNOWN_CODES_def reservation_outcome_def reservation_reading_def)
    next
      case False
      then obtain w ws' where cons: "ws = w # ws'" by (cases ws) auto
      let ?rs = "map (\<lambda>w. the (remaining_of w)) ws" and ?least = "Min (set (map (\<lambda>w. the (remaining_of w)) ws))"
      have "\<forall>r \<in> set ?rs. pct_ok r"
        using False valid by (auto simp: list_ex_iff intro: valid_remaining_pct)
      moreover have "?least \<in> set ?rs" by (rule Min_in) (auto simp: cons)
      ultimately have least: "0 \<le> ?least" "?least \<le> 100" by (auto simp: pct_ok_def)
      have "reservation_values rule (sn_windows s) [] = Some ?rs"
        using False by (simp add: reservation_values_eq flip: ws)
      then have run: "evaluate_reservation rule ss level =
          (let triggered = (?least < rr_when_remaining_below rule);
               blocked = (triggered \<and> level_index level < level_index (rr_minimum_task_level rule));
               codes = (if triggered then
                          (if blocked then [Pr_res_triggered, Pr_res_blocked]
                           else [Pr_res_triggered, Pr_res_permitted])
                        else []) in
           mk_reservation_decision \<lparr>rd_rule_id = rr_rule_id rule, rd_state = Rs_known,
             rd_triggered = Some triggered, rd_blocked = Some blocked,
             rd_evidence_remaining_percent = Some ?least, rd_reason_codes = codes\<rparr>)"
        using s by (simp add: evaluate_reservation_def m cons fold_min_Min Let_def)
      show ?thesis
        using Some False least rid unfolding run
        by (auto simp: Let_def mk_reservation_decision_Inr valid_reservation_decision_def
            reservation_decision_ok_def KNOWN_CODES_def less_task_level_def reservation_outcome_def
            reservation_reading_def)
    qed
  qed
qed

text \<open>
  C34: a reservation is never silently treated as not triggered. On valid inputs the evaluation is
  total but for duplicate provider snapshots; it is unknown exactly when the target cannot be read
  (no trustworthy snapshot, no target window, or a target window without a percentage pair), and
  otherwise the least remaining percentage of the target windows decides: triggered strictly below
  the threshold, blocked exactly when also the task level is below the rule's minimum.
\<close>

theorem evaluate_reservation_spec:
  assumes "valid_reservation_rule rule" and "list_all valid_snapshot ss"
  shows "(\<not> distinct (map sn_provider ss) \<longrightarrow>
           evaluate_reservation rule ss level
             = Inl (SelectionContractValidationError ''evaluate_reservation.snapshots''))
    \<and> (distinct (map sn_provider ss) \<longrightarrow>
        (\<exists>d. evaluate_reservation rule ss level = Inr d \<and> valid_reservation_decision d
          \<and> reservation_outcome rule (reservation_reading rule ss) level d))"
  using reservation_run [OF assms]
  by (auto simp: evaluate_reservation_def snapshots_by_provider_eq)

definition sample_reservation :: reservation_rule where
  "sample_reservation = \<lparr>rr_rule_id = ''keep-weekly'', rr_scope = scope_a, rr_resource = Res_tokens,
     rr_kind = Kind_weekly, rr_when_remaining_below = 70, rr_minimum_task_level = L3\<rparr>"

lemma sample_reservation_valid: "valid_reservation_rule sample_reservation"
  by code_simp

theorem evaluate_reservation_spec_witness:
  "\<exists>d. evaluate_reservation sample_reservation
     [sample_snapshot ''zai'' [sample_window Kind_weekly ''coding'' 60,
        sample_window Kind_five_hour ''chat'' 30, sample_window Kind_weekly ''other'' 0]] L1 = Inr d
   \<and> valid_reservation_decision d"
  using evaluate_reservation_spec [OF sample_reservation_valid, of
    "[sample_snapshot ''zai'' [sample_window Kind_weekly ''coding'' 60,
        sample_window Kind_five_hour ''chat'' 30, sample_window Kind_weekly ''other'' 0]]" L1]
  by (auto simp: sample_snapshot_valid)

section \<open>Blackouts and happy hours\<close>

record blackout_decision =
  bd_blocked :: bool
  bd_rule_id :: "string option"
  bd_reason_code :: "string option"
  bd_reason_codes :: "policy_reason list"

definition check_blackout_decision :: "blackout_decision \<Rightarrow> blackout_decision result" where
  "check_blackout_decision d =
     (let err = Inl (sel_exn ''blackout_decision'') in
      if bd_blocked d then
        (if bd_rule_id d = None \<or> bd_reason_code d = None then err
         else
           bind_r (v_safe_id sel_exn (opt_py PStr (bd_rule_id d)) ''blackout_decision.rule_id'') (\<lambda>_.
           bind_r (v_safe_id sel_exn (opt_py PStr (bd_reason_code d)) ''blackout_decision.reason_code'') (\<lambda>_.
             if bd_reason_codes d \<noteq> [Pr_policy_blocked] then err else Inr d)))
      else if bd_rule_id d \<noteq> None \<or> bd_reason_code d \<noteq> None then err
      else if bd_reason_codes d \<noteq> [] then err
      else Inr d)"

definition mk_blackout_decision :: "blackout_decision \<Rightarrow> blackout_decision result" where
  "mk_blackout_decision d =
     bind_r (v_policy_codes (bd_reason_codes d) ''blackout_decision.reason_codes'') (\<lambda>codes.
       check_blackout_decision (d\<lparr>bd_reason_codes := codes\<rparr>))"

definition blackout_decision_from_dict :: "pyval \<Rightarrow> blackout_decision result" where
  "blackout_decision_from_dict v =
     bind_r (v_exact_shape sel_exn v [''blocked''] [''rule_id'', ''reason_code'', ''reason_codes'']
               ''blackout_decision'') (\<lambda>dd.
     bind_r (v_opt codes_from (py_get dd ''reason_codes'') ''blackout_decision.reason_codes'') (\<lambda>codes.
     bind_r (v_opt (v_safe_id sel_exn) (py_get dd ''rule_id'') ''blackout_decision.rule_id'') (\<lambda>rid.
     bind_r (v_opt (v_safe_id sel_exn) (py_get dd ''reason_code'') ''blackout_decision.reason_code'') (\<lambda>rc.
     bind_r (v_item dd ''blocked'' (v_bool sel_exn) ''blackout_decision.blocked'') (\<lambda>blocked.
       mk_blackout_decision \<lparr>bd_blocked = blocked, bd_rule_id = rid, bd_reason_code = rc,
         bd_reason_codes = (case codes of None \<Rightarrow> [] | Some cs \<Rightarrow> cs)\<rparr>)))))"

definition nonempty_codes :: "policy_reason list \<Rightarrow> pyval option" where
  "nonempty_codes cs = (if cs = [] then None else Some (codes_wire cs))"

definition blackout_decision_to_dict :: "blackout_decision \<Rightarrow> pyval" where
  "blackout_decision_to_dict d =
     obj [(''blocked'', Some (PBool (bd_blocked d))), (''rule_id'', map_option PStr (bd_rule_id d)),
          (''reason_code'', map_option PStr (bd_reason_code d)),
          (''reason_codes'', nonempty_codes (bd_reason_codes d))]"

fun first_active ::
  "(weekly_rule \<Rightarrow> py_datetime \<Rightarrow> bool result) \<Rightarrow> weekly_rule list \<Rightarrow> model_identity \<Rightarrow> int \<Rightarrow>
   weekly_rule option result" where
  \<comment> \<open>the rule loop: the first rule whose target matches and that is active decides\<close>
  "first_active active [] i at = Inr None"
| "first_active active (r # rs) i at =
     (if target_matches (wr_target r) i then
        bind_r (active r (Aware at)) (\<lambda>b. if b then Inr (Some r) else first_active active rs i at)
      else first_active active rs i at)"

definition evaluate_blackouts ::
  "zones \<Rightarrow> weekly_rule list \<Rightarrow> model_identity \<Rightarrow> py_datetime \<Rightarrow> blackout_decision result" where
  "evaluate_blackouts zs rules i at =
     bind_r (v_aware_datetime sel_exn at ''evaluate_blackouts.at'') (\<lambda>t.
     bind_r (first_active (blocks_at zs) rules i t) (\<lambda>hit.
       case hit of
         Some r \<Rightarrow> mk_blackout_decision \<lparr>bd_blocked = True, bd_rule_id = Some (wr_rule_id r),
             bd_reason_code = Some (wr_reason_code r), bd_reason_codes = [Pr_policy_blocked]\<rparr>
       | None \<Rightarrow> mk_blackout_decision \<lparr>bd_blocked = False, bd_rule_id = None,
             bd_reason_code = None, bd_reason_codes = []\<rparr>))"

record happy_hour_decision =
  hh_preferred :: bool
  hh_rule_id :: "string option"
  hh_reason_code :: "string option"

definition mk_happy_hour_decision :: "happy_hour_decision \<Rightarrow> happy_hour_decision result" where
  "mk_happy_hour_decision d =
     (let err = Inl (sel_exn ''happy_hour_decision'') in
      if hh_preferred d then
        (if hh_rule_id d = None \<or> hh_reason_code d = None then err
         else
           bind_r (v_safe_id sel_exn (opt_py PStr (hh_rule_id d)) ''happy_hour_decision.rule_id'') (\<lambda>_.
           bind_r (v_safe_id sel_exn (opt_py PStr (hh_reason_code d)) ''happy_hour_decision.reason_code'')
             (\<lambda>_. Inr d)))
      else if hh_rule_id d \<noteq> None \<or> hh_reason_code d \<noteq> None then err
      else Inr d)"

definition happy_hour_decision_from_dict :: "pyval \<Rightarrow> happy_hour_decision result" where
  "happy_hour_decision_from_dict v =
     bind_r (v_exact_shape sel_exn v [''preferred''] [''rule_id'', ''reason_code''] ''happy_hour_decision'') (\<lambda>dd.
     bind_r (v_opt (v_safe_id sel_exn) (py_get dd ''rule_id'') ''happy_hour_decision.rule_id'') (\<lambda>rid.
     bind_r (v_opt (v_safe_id sel_exn) (py_get dd ''reason_code'') ''happy_hour_decision.reason_code'') (\<lambda>rc.
     bind_r (v_item dd ''preferred'' (v_bool sel_exn) ''happy_hour_decision.preferred'') (\<lambda>p.
       mk_happy_hour_decision \<lparr>hh_preferred = p, hh_rule_id = rid, hh_reason_code = rc\<rparr>))))"

definition happy_hour_decision_to_dict :: "happy_hour_decision \<Rightarrow> pyval" where
  "happy_hour_decision_to_dict d =
     obj [(''preferred'', Some (PBool (hh_preferred d))), (''rule_id'', map_option PStr (hh_rule_id d)),
          (''reason_code'', map_option PStr (hh_reason_code d))]"

definition evaluate_happy_hours ::
  "zones \<Rightarrow> weekly_rule list \<Rightarrow> model_identity \<Rightarrow> py_datetime \<Rightarrow> happy_hour_decision result" where
  "evaluate_happy_hours zs rules i at =
     bind_r (v_aware_datetime sel_exn at ''evaluate_happy_hours.at'') (\<lambda>t.
     bind_r (first_active (happy_hour_active_at zs) rules i t) (\<lambda>hit.
       case hit of
         Some r \<Rightarrow> mk_happy_hour_decision \<lparr>hh_preferred = True, hh_rule_id = Some (wr_rule_id r),
             hh_reason_code = Some (wr_reason_code r)\<rparr>
       | None \<Rightarrow> mk_happy_hour_decision \<lparr>hh_preferred = False, hh_rule_id = None,
             hh_reason_code = None\<rparr>))"

definition named :: "bool \<Rightarrow> string option \<Rightarrow> string option \<Rightarrow> bool" where
  "named b rid rc =
     (if b then rid \<noteq> None \<and> rc \<noteq> None \<and> pred_option safe_id_match rid \<and> pred_option safe_id_match rc
      else rid = None \<and> rc = None)"

definition valid_blackout_decision :: "blackout_decision \<Rightarrow> bool" where
  "valid_blackout_decision d =
     (named (bd_blocked d) (bd_rule_id d) (bd_reason_code d)
      \<and> bd_reason_codes d = (if bd_blocked d then [Pr_policy_blocked] else []))"

definition valid_happy_hour_decision :: "happy_hour_decision \<Rightarrow> bool" where
  "valid_happy_hour_decision d = named (hh_preferred d) (hh_rule_id d) (hh_reason_code d)"

lemma sort_single_code:
  "sort_key preason_str cs = [c] \<longleftrightarrow> cs = [c]" "sort_key preason_str cs = [] \<longleftrightarrow> cs = []"
proof -
  show "sort_key preason_str cs = [c] \<longleftrightarrow> cs = [c]"
  proof
    assume eq: "sort_key preason_str cs = [c]"
    have "length cs = 1" using arg_cong [OF eq, of length] by simp
    then obtain x where "cs = [x]" by (auto simp: length_Suc_conv)
    with eq show "cs = [c]" by simp
  qed simp
qed simp

lemma mk_blackout_decision_Inr [valid_simps]:
  "mk_blackout_decision d = Inr d' \<longleftrightarrow> d' = d \<and> valid_blackout_decision d"
  by (cases d; cases "bd_rule_id d"; cases "bd_reason_code d")
    (auto simp: mk_blackout_decision_def check_blackout_decision_def valid_blackout_decision_def
      named_def Let_def result_simps valid_simps sort_single_code split: if_splits)

lemma mk_happy_hour_decision_Inr [valid_simps]:
  "mk_happy_hour_decision d = Inr d' \<longleftrightarrow> d' = d \<and> valid_happy_hour_decision d"
  by (cases "hh_rule_id d"; cases "hh_reason_code d")
    (auto simp: mk_happy_hour_decision_def valid_happy_hour_decision_def named_def Let_def
      result_simps valid_simps)

lemma nonempty_codes_field:
  "v_opt codes_from (opt_py (\<lambda>v. v) (nonempty_codes cs)) fld = Inr (if cs = [] then None else Some cs)"
proof (cases "cs = []")
  case False
  have "v_opt codes_from (codes_wire cs) fld = bind_r (codes_from (codes_wire cs) fld) (\<lambda>x. Inr (Some x))"
    unfolding codes_wire_def by (rule v_opt_simps)
  with False show ?thesis by (simp add: nonempty_codes_def)
qed (simp add: nonempty_codes_def)

interpretation blackout_decision_contract:
  contract "\<lambda>_. True" valid_blackout_decision mk_blackout_decision blackout_decision_from_dict
    blackout_decision_to_dict
proof unfold_locales
  fix r d
  show "blackout_decision_from_dict d = Inr r \<Longrightarrow> valid_blackout_decision r"
    by (auto simp: blackout_decision_from_dict_def bind_r_Inr_iff mk_blackout_decision_Inr)
  show "valid_blackout_decision r \<Longrightarrow> blackout_decision_from_dict (blackout_decision_to_dict r) = Inr r"
    by (cases r) (auto simp: blackout_decision_from_dict_def blackout_decision_to_dict_def shape_simps
        result_simps valid_simps nonempty_codes_field valid_blackout_decision_def named_def
        split: if_splits)
qed (auto simp: valid_simps)

interpretation happy_hour_decision_contract:
  contract "\<lambda>_. True" valid_happy_hour_decision mk_happy_hour_decision happy_hour_decision_from_dict
    happy_hour_decision_to_dict
proof unfold_locales
  fix r d
  show "happy_hour_decision_from_dict d = Inr r \<Longrightarrow> valid_happy_hour_decision r"
    by (auto simp: happy_hour_decision_from_dict_def bind_r_Inr_iff mk_happy_hour_decision_Inr)
  show "valid_happy_hour_decision r \<Longrightarrow> happy_hour_decision_from_dict (happy_hour_decision_to_dict r) = Inr r"
    by (cases r) (auto simp: happy_hour_decision_from_dict_def happy_hour_decision_to_dict_def
        shape_simps result_simps valid_simps valid_happy_hour_decision_def named_def split: if_splits)
qed (auto simp: valid_simps)

section \<open>Replenishment\<close>

record replenishment_state =
  rp_provider :: string
  rp_kind :: string
  rp_available_count :: int
  rp_details_known :: bool
  rp_earliest_expiry :: "string option"
  rp_retrieved_at :: string

definition mk_replenishment_state :: "replenishment_state \<Rightarrow> replenishment_state result" where
  "mk_replenishment_state s =
     bind_r (v_policy_provider (PStr (rp_provider s)) ''replenishment_state.provider'') (\<lambda>_.
     bind_r (v_safe_id sel_exn (PStr (rp_kind s)) ''replenishment_state.kind'') (\<lambda>_.
     bind_r (v_int sel_exn (Some 0) None (PInt (rp_available_count s))
               ''replenishment_state.available_count'') (\<lambda>_.
     bind_r (v_ts sel_exn (PStr (rp_retrieved_at s)) ''replenishment_state.retrieved_at'') (\<lambda>_.
       case rp_earliest_expiry s of
         None \<Rightarrow> Inr s
       | Some e \<Rightarrow>
           bind_r (v_ts sel_exn (PStr e) ''replenishment_state.earliest_expiry'') (\<lambda>_.
             if rp_available_count s = 0 then Inl (sel_exn ''replenishment_state'')
             else if \<not> rp_details_known s then Inl (sel_exn ''replenishment_state'')
             else Inr s)))))"

definition replenishment_state_from_dict :: "pyval \<Rightarrow> replenishment_state result" where
  "replenishment_state_from_dict d =
     bind_r (v_exact_shape sel_exn d [''provider'', ''kind'', ''available_count'', ''details_known'',
               ''retrieved_at''] [''earliest_expiry''] ''replenishment_state'') (\<lambda>dd.
     bind_r (v_opt (v_ts sel_exn) (py_get dd ''earliest_expiry'')
               ''replenishment_state.earliest_expiry'') (\<lambda>expiry.
     bind_r (v_item dd ''provider'' v_policy_provider ''replenishment_state.provider'') (\<lambda>p.
     bind_r (v_item dd ''kind'' (v_safe_id sel_exn) ''replenishment_state.kind'') (\<lambda>k.
     bind_r (v_item dd ''available_count'' (v_int sel_exn (Some 0) None)
               ''replenishment_state.available_count'') (\<lambda>n.
     bind_r (v_item dd ''details_known'' (v_bool sel_exn) ''replenishment_state.details_known'') (\<lambda>dk.
     bind_r (v_item dd ''retrieved_at'' (v_ts sel_exn) ''replenishment_state.retrieved_at'') (\<lambda>at.
       mk_replenishment_state \<lparr>rp_provider = p, rp_kind = k, rp_available_count = n,
         rp_details_known = dk, rp_earliest_expiry = expiry, rp_retrieved_at = at\<rparr>)))))))"

definition replenishment_state_to_dict :: "replenishment_state \<Rightarrow> pyval" where
  "replenishment_state_to_dict s =
     obj [(''provider'', Some (PStr (rp_provider s))), (''kind'', Some (PStr (rp_kind s))),
          (''available_count'', Some (PInt (rp_available_count s))),
          (''details_known'', Some (PBool (rp_details_known s))),
          (''earliest_expiry'', map_option PStr (rp_earliest_expiry s)),
          (''retrieved_at'', Some (PStr (rp_retrieved_at s)))]"

definition valid_replenishment_state :: "replenishment_state \<Rightarrow> bool" where
  "valid_replenishment_state s =
     (safe_id_match (rp_provider s) \<and> rp_provider s \<in> set SUPPORTED_PROVIDERS
      \<and> safe_id_match (rp_kind s) \<and> 0 \<le> rp_available_count s \<and> ts_ok (rp_retrieved_at s)
      \<and> pred_option (\<lambda>e. ts_ok e \<and> rp_available_count s \<noteq> 0 \<and> rp_details_known s) (rp_earliest_expiry s))"

lemma mk_replenishment_state_Inr [valid_simps]:
  "mk_replenishment_state s = Inr s' \<longleftrightarrow> s' = s \<and> valid_replenishment_state s"
  by (cases "rp_earliest_expiry s")
    (auto simp: mk_replenishment_state_def valid_replenishment_state_def result_simps valid_simps)

interpretation replenishment_state_contract:
  contract "\<lambda>_. True" valid_replenishment_state mk_replenishment_state replenishment_state_from_dict
    replenishment_state_to_dict
proof unfold_locales
  fix r d
  show "replenishment_state_from_dict d = Inr r \<Longrightarrow> valid_replenishment_state r"
    by (auto simp: replenishment_state_from_dict_def bind_r_Inr_iff mk_replenishment_state_Inr)
  show "valid_replenishment_state r \<Longrightarrow> replenishment_state_from_dict (replenishment_state_to_dict r) = Inr r"
    by (cases r) (auto simp: replenishment_state_from_dict_def replenishment_state_to_dict_def
        shape_simps result_simps valid_simps valid_replenishment_state_def elim: option.pred_mono_strong)
qed (auto simp: valid_simps)

record replenishment_decision =
  rn_mode :: replenishment_mode
  rn_visible :: bool
  rn_available_count :: "int option"
  rn_details_known :: "bool option"
  rn_recoverable :: bool
  rn_human_action_required :: bool
  rn_reason_codes :: "policy_reason list"

definition check_replenishment_decision :: "replenishment_decision \<Rightarrow> replenishment_decision result" where
  "check_replenishment_decision d =
     (let err = Inl (sel_exn ''replenishment''); codes = rn_reason_codes d in
      if \<not> rn_visible d then
        (if rn_available_count d \<noteq> None \<or> rn_details_known d \<noteq> None then err
         else if rn_recoverable d \<or> rn_human_action_required d then err
         else if codes \<noteq> [] then err else Inr d)
      else
        bind_r (v_int sel_exn (Some 0) None (opt_py PInt (rn_available_count d))
                  ''replenishment.available_count'') (\<lambda>count.
        bind_r (v_bool sel_exn (opt_py PBool (rn_details_known d)) ''replenishment.details_known'') (\<lambda>_.
          if rn_recoverable d \<noteq> rn_human_action_required d then err
          else if rn_recoverable d then
            (if rn_mode d \<noteq> Rm_recoverable \<or> count \<le> 0 then err
             else if codes \<noteq> RECOVERABLE_CODES then err else Inr d)
          else if count > 0 then (if codes \<noteq> [Pr_repl_available] then err else Inr d)
          else if codes \<noteq> [] then err
          else Inr d)))"

definition mk_replenishment_decision :: "replenishment_decision \<Rightarrow> replenishment_decision result" where
  "mk_replenishment_decision d =
     bind_r (v_policy_codes (rn_reason_codes d) ''replenishment.reason_codes'') (\<lambda>codes.
       check_replenishment_decision (d\<lparr>rn_reason_codes := codes\<rparr>))"

definition REPLENISHMENT_OPTIONAL :: "string list" where
  "REPLENISHMENT_OPTIONAL = [''available_count'', ''details_known'', ''recoverable'',
     ''human_action_required'', ''reason_codes'']"

definition replenishment_decision_from_dict :: "pyval \<Rightarrow> replenishment_decision result" where
  "replenishment_decision_from_dict v =
     bind_r (v_exact_shape sel_exn v [''mode'', ''visible''] REPLENISHMENT_OPTIONAL ''replenishment'') (\<lambda>dd.
     bind_r (v_opt codes_from (py_get dd ''reason_codes'') ''replenishment.reason_codes'') (\<lambda>codes.
     bind_r (v_opt (v_int sel_exn (Some 0) None) (py_get dd ''available_count'')
               ''replenishment.available_count'') (\<lambda>count.
     bind_r (v_opt (v_bool sel_exn) (py_get dd ''details_known'') ''replenishment.details_known'') (\<lambda>dk.
     bind_r (v_opt (v_bool sel_exn) (py_get dd ''recoverable'') ''replenishment.recoverable'') (\<lambda>rec.
     bind_r (v_opt (v_bool sel_exn) (py_get dd ''human_action_required'')
               ''replenishment.human_action_required'') (\<lambda>human.
     bind_r (v_item dd ''mode'' (v_enum sel_exn replenishment_mode_str REPLENISHMENT_MODES)
               ''replenishment.mode'') (\<lambda>mode.
     bind_r (v_item dd ''visible'' (v_bool sel_exn) ''replenishment.visible'') (\<lambda>vis.
       mk_replenishment_decision \<lparr>rn_mode = mode, rn_visible = vis, rn_available_count = count,
         rn_details_known = dk, rn_recoverable = (rec = Some True),
         rn_human_action_required = (human = Some True),
         rn_reason_codes = (case codes of None \<Rightarrow> [] | Some cs \<Rightarrow> cs)\<rparr>))))))))"

definition replenishment_decision_to_dict :: "replenishment_decision \<Rightarrow> pyval" where
  "replenishment_decision_to_dict d =
     (let shown = (\<lambda>v. if rn_visible d then Some v else None) in
      obj [(''mode'', Some (PStr (replenishment_mode_str (rn_mode d)))),
           (''visible'', Some (PBool (rn_visible d))),
           (''available_count'', shown (opt_py PInt (rn_available_count d))),
           (''details_known'', shown (opt_py PBool (rn_details_known d))),
           (''recoverable'', shown (PBool (rn_recoverable d))),
           (''human_action_required'', shown (PBool (rn_human_action_required d))),
           (''reason_codes'', nonempty_codes (rn_reason_codes d))])"

definition visible_decision ::
  "replenishment_mode \<Rightarrow> replenishment_state \<Rightarrow> bool \<Rightarrow> policy_reason list \<Rightarrow> replenishment_decision result" where
  "visible_decision mode s recoverable codes =
     mk_replenishment_decision \<lparr>rn_mode = mode, rn_visible = True,
       rn_available_count = Some (rp_available_count s), rn_details_known = Some (rp_details_known s),
       rn_recoverable = recoverable, rn_human_action_required = recoverable,
       rn_reason_codes = codes\<rparr>"

definition apply_replenishment_mode ::
  "replenishment_mode \<Rightarrow> replenishment_state option \<Rightarrow> replenishment_decision result" where
  "apply_replenishment_mode mode state =
     (case (mode, state) of
        (Rm_advisory, Some s) \<Rightarrow>
          visible_decision mode s False (if rp_available_count s > 0 then [Pr_repl_available] else [])
      | (Rm_recoverable, Some s) \<Rightarrow>
          (if rp_available_count s > 0 then visible_decision mode s True RECOVERABLE_CODES
           else visible_decision mode s False [])
      | _ \<Rightarrow> mk_replenishment_decision \<lparr>rn_mode = mode, rn_visible = False,
               rn_available_count = None, rn_details_known = None, rn_recoverable = False,
               rn_human_action_required = False, rn_reason_codes = []\<rparr>)"

definition replenishment_decision_ok :: "replenishment_decision \<Rightarrow> bool" where
  "replenishment_decision_ok d =
     (if \<not> rn_visible d then
        rn_available_count d = None \<and> rn_details_known d = None \<and> \<not> rn_recoverable d
        \<and> \<not> rn_human_action_required d \<and> rn_reason_codes d = []
      else
        (case (rn_available_count d, rn_details_known d) of
           (Some n, Some _) \<Rightarrow>
             0 \<le> n \<and> rn_recoverable d = rn_human_action_required d
             \<and> rn_reason_codes d =
                 (if rn_recoverable d then RECOVERABLE_CODES
                  else if n > 0 then [Pr_repl_available] else [])
             \<and> (rn_recoverable d \<longrightarrow> rn_mode d = Rm_recoverable \<and> n > 0)
         | _ \<Rightarrow> False))"

definition valid_replenishment_decision :: "replenishment_decision \<Rightarrow> bool" where
  "valid_replenishment_decision d = (canonical_codes (rn_reason_codes d) \<and> replenishment_decision_ok d)"

lemma check_replenishment_decision_Inr:
  "check_replenishment_decision d = Inr d' \<longleftrightarrow> d' = d \<and> replenishment_decision_ok d"
  by (cases "rn_available_count d"; cases "rn_details_known d")
    (auto simp: check_replenishment_decision_def replenishment_decision_ok_def Let_def result_simps
      valid_simps)

lemma mk_replenishment_decision_Inr:
  "mk_replenishment_decision d = Inr d' \<longleftrightarrow> distinct (rn_reason_codes d)
     \<and> d' = d\<lparr>rn_reason_codes := sort_key preason_str (rn_reason_codes d)\<rparr> \<and> valid_replenishment_decision d'"
  by (auto simp: mk_replenishment_decision_def valid_replenishment_decision_def bind_r_Inr_iff
      v_policy_codes_Inr check_replenishment_decision_Inr)

lemma mk_valid_replenishment_decision:
  "valid_replenishment_decision d \<Longrightarrow> mk_replenishment_decision d = Inr d"
  by (simp add: mk_replenishment_decision_Inr valid_replenishment_decision_def)
    (simp add: canonical_codes_def)

lemma replenishment_decision_wire:
  assumes "valid_replenishment_decision r"
  shows "replenishment_decision_from_dict (replenishment_decision_to_dict r) = Inr r"
proof (cases "rn_visible r")
  case True
  with assms obtain n k where "rn_available_count r = Some n" "rn_details_known r = Some k" "0 \<le> n"
    by (auto simp: valid_replenishment_decision_def replenishment_decision_ok_def split: option.splits)
  with True mk_valid_replenishment_decision [OF assms] show ?thesis
    by (cases r) (auto simp: replenishment_decision_from_dict_def replenishment_decision_to_dict_def
        REPLENISHMENT_OPTIONAL_def shape_simps result_simps valid_simps nonempty_codes_field Let_def
        replenishment_mode_vocab.v_enum_str)
next
  case False
  with assms have "rn_available_count r = None" "rn_details_known r = None" "\<not> rn_recoverable r"
    "\<not> rn_human_action_required r"
    by (auto simp: valid_replenishment_decision_def replenishment_decision_ok_def)
  with False mk_valid_replenishment_decision [OF assms] show ?thesis
    by (cases r) (auto simp: replenishment_decision_from_dict_def replenishment_decision_to_dict_def
        REPLENISHMENT_OPTIONAL_def shape_simps result_simps valid_simps nonempty_codes_field Let_def
        replenishment_mode_vocab.v_enum_str)
qed

interpretation replenishment_decision_contract:
  contract "\<lambda>_. True" valid_replenishment_decision mk_replenishment_decision
    replenishment_decision_from_dict replenishment_decision_to_dict
proof unfold_locales
  fix r d
  show "replenishment_decision_from_dict d = Inr r \<Longrightarrow> valid_replenishment_decision r"
    by (auto simp: replenishment_decision_from_dict_def bind_r_Inr_iff mk_replenishment_decision_Inr)
qed (simp_all add: mk_valid_replenishment_decision replenishment_decision_wire
    mk_replenishment_decision_Inr)

section \<open>The user policy\<close>

record user_policy =
  up_policy_version :: int
  up_unknown_capacity_mode :: unknown_mode
  up_replenishment_mode :: replenishment_mode
  up_reservations :: "reservation_rule list"
  up_blackouts :: "weekly_rule list"
  up_happy_hours :: "weekly_rule list"

definition policy_rule_ids :: "user_policy \<Rightarrow> string list" where
  \<comment> \<open>the three loops share one \<open>seen\<close> set\<close>
  "policy_rule_ids p = map rr_rule_id (up_reservations p) @ map wr_rule_id (up_blackouts p)
     @ map wr_rule_id (up_happy_hours p)"

definition mk_user_policy :: "user_policy \<Rightarrow> user_policy result" where
  "mk_user_policy p =
     bind_r (v_int sel_exn (Some 1) None (PInt (up_policy_version p)) ''user_policy.policy_version'') (\<lambda>_.
     bind_r (seen_check (sel_exn ''user_policy'') {} (policy_rule_ids p)) (\<lambda>_.
       Inr (p\<lparr>up_reservations := sort_key rr_rule_id (up_reservations p),
              up_blackouts := sort_key wr_rule_id (up_blackouts p),
              up_happy_hours := sort_key wr_rule_id (up_happy_hours p)\<rparr>)))"

definition policy_apply_unknown :: "user_policy \<Rightarrow> scarcity_assessment \<Rightarrow> unknown_decision result" where
  "policy_apply_unknown p a = apply_unknown_capacity_mode (up_unknown_capacity_mode p) a"

definition policy_reservations ::
  "user_policy \<Rightarrow> capacity_snapshot list \<Rightarrow> task_level \<Rightarrow> reservation_decision list result" where
  "policy_reservations p ss level = traverse (\<lambda>r. evaluate_reservation r ss level) (up_reservations p)"

definition policy_blackouts ::
  "zones \<Rightarrow> user_policy \<Rightarrow> model_identity \<Rightarrow> py_datetime \<Rightarrow> blackout_decision result" where
  "policy_blackouts zs p i at = evaluate_blackouts zs (up_blackouts p) i at"

definition policy_happy_hours ::
  "zones \<Rightarrow> user_policy \<Rightarrow> model_identity \<Rightarrow> py_datetime \<Rightarrow> happy_hour_decision result" where
  "policy_happy_hours zs p i at = evaluate_happy_hours zs (up_happy_hours p) i at"

definition POLICY_REQUIRED :: "string list" where
  "POLICY_REQUIRED = [''policy_version'', ''unknown_capacity_mode'', ''replenishment_mode'',
     ''reservations'', ''blackouts'']"

definition user_policy_from_dict :: "zones \<Rightarrow> pyval \<Rightarrow> user_policy result" where
  "user_policy_from_dict zs d =
     bind_r (v_exact_shape sel_exn d POLICY_REQUIRED [''happy_hours''] ''user_policy'') (\<lambda>dd.
     bind_r (v_item dd ''reservations'' (v_list sel_exn) ''user_policy.reservations'') (\<lambda>raw_r.
     bind_r (v_item dd ''blackouts'' (v_list sel_exn) ''user_policy.blackouts'') (\<lambda>raw_b.
     bind_r (v_opt (v_list sel_exn) (py_get dd ''happy_hours'') ''user_policy.happy_hours'') (\<lambda>raw_h.
     bind_r (v_item dd ''policy_version'' (v_int sel_exn (Some 1) None) ''user_policy.policy_version'') (\<lambda>version.
     bind_r (v_item dd ''unknown_capacity_mode'' (v_enum sel_exn unknown_mode_str UNKNOWN_CAPACITY_MODES)
               ''user_policy.unknown_capacity_mode'') (\<lambda>um.
     bind_r (v_item dd ''replenishment_mode'' (v_enum sel_exn replenishment_mode_str REPLENISHMENT_MODES)
               ''user_policy.replenishment_mode'') (\<lambda>rm.
     bind_r (traverse reservation_rule_from_dict raw_r) (\<lambda>rs.
     bind_r (traverse (blackout_from_dict zs) raw_b) (\<lambda>bs.
     bind_r (traverse (happy_hour_from_dict zs) (case raw_h of None \<Rightarrow> [] | Some xs \<Rightarrow> xs)) (\<lambda>hs.
       mk_user_policy \<lparr>up_policy_version = version, up_unknown_capacity_mode = um,
         up_replenishment_mode = rm, up_reservations = rs, up_blackouts = bs,
         up_happy_hours = hs\<rparr>))))))))))"

definition user_policy_to_dict :: "user_policy \<Rightarrow> pyval" where
  "user_policy_to_dict p =
     obj [(''policy_version'', Some (PInt (up_policy_version p))),
          (''unknown_capacity_mode'', Some (PStr (unknown_mode_str (up_unknown_capacity_mode p)))),
          (''replenishment_mode'', Some (PStr (replenishment_mode_str (up_replenishment_mode p)))),
          (''reservations'',
             Some (PList (map reservation_rule_to_dict (sort_key rr_rule_id (up_reservations p))))),
          (''blackouts'', Some (PList (map weekly_rule_to_dict (sort_key wr_rule_id (up_blackouts p))))),
          (''happy_hours'',
             (if up_happy_hours p = [] then None
              else Some (PList (map weekly_rule_to_dict (sort_key wr_rule_id (up_happy_hours p))))))]"

definition policy_parts :: "zones \<Rightarrow> user_policy \<Rightarrow> bool" where
  "policy_parts zs p =
     (list_all valid_reservation_rule (up_reservations p) \<and> list_all (valid_weekly_rule zs) (up_blackouts p)
      \<and> list_all (valid_weekly_rule zs) (up_happy_hours p))"

definition valid_user_policy :: "zones \<Rightarrow> user_policy \<Rightarrow> bool" where
  "valid_user_policy zs p =
     (1 \<le> up_policy_version p \<and> policy_parts zs p \<and> distinct (policy_rule_ids p)
      \<and> sorted (map rr_rule_id (up_reservations p)) \<and> sorted (map wr_rule_id (up_blackouts p))
      \<and> sorted (map wr_rule_id (up_happy_hours p)))"

definition canon_policy :: "user_policy \<Rightarrow> user_policy" where
  "canon_policy p = p\<lparr>up_reservations := sort_key rr_rule_id (up_reservations p),
     up_blackouts := sort_key wr_rule_id (up_blackouts p),
     up_happy_hours := sort_key wr_rule_id (up_happy_hours p)\<rparr>"

lemma mset_policy_ids: "mset (policy_rule_ids (canon_policy p)) = mset (policy_rule_ids p)"
  by (simp add: policy_rule_ids_def canon_policy_def)

lemma mk_user_policy_Inr:
  "policy_parts zs p \<Longrightarrow> mk_user_policy p = Inr p' \<longleftrightarrow> p' = canon_policy p \<and> valid_user_policy zs p'"
  using mset_eq_imp_distinct_iff [OF mset_policy_ids [of p]]
  by (auto simp: mk_user_policy_def result_simps valid_simps valid_user_policy_def policy_parts_def
      simp flip: canon_policy_def) (simp_all add: canon_policy_def)

lemma canon_policy_id: "valid_user_policy zs p \<Longrightarrow> canon_policy p = p"
  by (simp add: canon_policy_def valid_user_policy_def)

lemma mk_valid_user_policy: "valid_user_policy zs p \<Longrightarrow> mk_user_policy p = Inr p"
proof -
  assume ok: "valid_user_policy zs p"
  then have "policy_parts zs p" by (simp add: valid_user_policy_def)
  from mk_user_policy_Inr [OF this, of p] ok canon_policy_id [OF ok] show ?thesis by simp
qed

lemma policy_happy_field:
  "v_opt (v_list sel_exn) (opt_py (\<lambda>v. v) (if xs = [] then None else Some (PList xs))) fld
     = Inr (if xs = [] then None else Some xs)"
  by (simp add: v_list_def)

interpretation user_policy_contract:
  contract "policy_parts zs" "valid_user_policy zs" mk_user_policy "user_policy_from_dict zs"
    user_policy_to_dict
  for zs :: zones
proof unfold_locales
  fix r d
  show "user_policy_from_dict zs d = Inr r \<Longrightarrow> valid_user_policy zs r"
    by (auto simp: user_policy_from_dict_def bind_r_Inr_iff mk_user_policy_Inr policy_parts_def
        dest!: reservation_rule_contract.list_ok blackout_contract.list_ok happy_hour_contract.list_ok)
  show "valid_user_policy zs r \<Longrightarrow> mk_user_policy r = Inr r" by (rule mk_valid_user_policy)
  show "valid_user_policy zs r \<Longrightarrow> user_policy_from_dict zs (user_policy_to_dict r) = Inr r"
    by (frule mk_valid_user_policy; cases r)
      (auto simp: user_policy_from_dict_def user_policy_to_dict_def POLICY_REQUIRED_def shape_simps
        result_simps valid_simps valid_user_policy_def policy_parts_def
        reservation_rule_contract.list_from_to blackout_contract.list_from_to
        happy_hour_contract.list_from_to unknown_mode_vocab.v_enum_str
        replenishment_mode_vocab.v_enum_str)
qed (simp add: mk_user_policy_Inr)

section \<open>Properties of policy evaluation\<close>

definition rule_covers :: "zones \<Rightarrow> weekly_rule \<Rightarrow> model_identity \<Rightarrow> int \<Rightarrow> bool" where
  \<comment> \<open>the rule targets the candidate, its weekly window covers the instant, its dates include it\<close>
  "rule_covers zs r i t =
     (target_matches (wr_target r) i
      \<and> (case zs (wr_timezone r) of None \<Rightarrow> False | Some off \<Rightarrow> covers off r t \<and> in_campaign off r t))"

lemma first_active_find:
  assumes "list_all (valid_weekly_rule zs) rs"
    and act: "\<And>r. valid_weekly_rule zs r \<Longrightarrow> active r (Aware t) = active_at fld zs r (Aware t)"
  shows "first_active active rs i t = Inr (find (\<lambda>r. rule_covers zs r i t) rs)"
  using assms(1)
proof (induction rs)
  case (Cons r rs)
  then have r: "valid_weekly_rule zs r" by simp
  then obtain off where off: "zs (wr_timezone r) = Some off" by (auto simp: valid_weekly_rule_def)
  from Cons act [OF r] active_at_spec(1) [OF r off] show ?case
    by (simp add: rule_covers_def off)
qed simp

lemma blackouts_find:
  "list_all (valid_weekly_rule zs) rs \<Longrightarrow>
   first_active (blocks_at zs) rs i t = Inr (find (\<lambda>r. rule_covers zs r i t) rs)"
  by (rule first_active_find) (auto simp: blocks_at_def)

lemma happy_hours_find:
  "list_all (valid_weekly_rule zs) rs \<Longrightarrow>
   first_active (happy_hour_active_at zs) rs i t = Inr (find (\<lambda>r. rule_covers zs r i t) rs)"
  by (rule first_active_find) (auto simp: happy_hour_active_at_def)

lemma find_sorted_least:
  assumes "sorted (map (f :: 'a \<Rightarrow> 'b::linorder) xs)" "find P xs = Some x" "y \<in> set xs" "P y"
  shows "x \<in> set xs \<and> P x \<and> f x \<le> f y"
  using assms by (induction xs) (auto split: if_splits)

lemma evaluate_blackouts_find:
  assumes "list_all (valid_weekly_rule zs) rs"
  shows "evaluate_blackouts zs rs i (Aware t) =
    Inr (case find (\<lambda>r. rule_covers zs r i t) rs of
           Some r \<Rightarrow> \<lparr>bd_blocked = True, bd_rule_id = Some (wr_rule_id r),
                      bd_reason_code = Some (wr_reason_code r), bd_reason_codes = [Pr_policy_blocked]\<rparr>
         | None \<Rightarrow> \<lparr>bd_blocked = False, bd_rule_id = None, bd_reason_code = None, bd_reason_codes = []\<rparr>)"
proof (cases "find (\<lambda>r. rule_covers zs r i t) rs")
  case (Some r)
  then have "r \<in> set rs" by (auto simp: find_Some_iff)
  with assms have "safe_id_match (wr_rule_id r)" "safe_id_match (wr_reason_code r)"
    by (auto simp: list_all_iff valid_weekly_rule_def)
  with Some assms show ?thesis
    by (simp add: evaluate_blackouts_def blackouts_find mk_blackout_decision_Inr
        valid_blackout_decision_def named_def)
qed (simp add: evaluate_blackouts_def blackouts_find [OF assms] mk_blackout_decision_Inr
      valid_blackout_decision_def named_def)

lemma evaluate_happy_hours_find:
  assumes "list_all (valid_weekly_rule zs) rs"
  shows "evaluate_happy_hours zs rs i (Aware t) =
    Inr (case find (\<lambda>r. rule_covers zs r i t) rs of
           Some r \<Rightarrow> \<lparr>hh_preferred = True, hh_rule_id = Some (wr_rule_id r),
                      hh_reason_code = Some (wr_reason_code r)\<rparr>
         | None \<Rightarrow> \<lparr>hh_preferred = False, hh_rule_id = None, hh_reason_code = None\<rparr>)"
proof (cases "find (\<lambda>r. rule_covers zs r i t) rs")
  case (Some r)
  then have "r \<in> set rs" by (auto simp: find_Some_iff)
  with assms have "safe_id_match (wr_rule_id r)" "safe_id_match (wr_reason_code r)"
    by (auto simp: list_all_iff valid_weekly_rule_def)
  with Some assms show ?thesis
    by (simp add: evaluate_happy_hours_def happy_hours_find mk_happy_hour_decision_Inr
        valid_happy_hour_decision_def named_def)
qed (simp add: evaluate_happy_hours_def happy_hours_find [OF assms] mk_happy_hour_decision_Inr
      valid_happy_hour_decision_def named_def)

text \<open>
  blackout evaluation of a constructed policy. At an aware instant it is total; it blocks
  exactly when some blackout rule targets the candidate, covers the instant in its own zone and
  is within its dates; and the rule it names is the one with the least rule id, so the answer does
  not depend on the order in which rules were configured. A naive instant is rejected.
\<close>

theorem policy_blackout_spec:
  assumes "valid_user_policy zs p"
  shows "(\<exists>d. policy_blackouts zs p i (Aware t) = Inr d \<and> valid_blackout_decision d
      \<and> (bd_blocked d \<longleftrightarrow> (\<exists>r \<in> set (up_blackouts p). rule_covers zs r i t))
      \<and> (\<forall>r \<in> set (up_blackouts p). rule_covers zs r i t \<longrightarrow> the (bd_rule_id d) \<le> wr_rule_id r))
    \<and> \<not> is_ok (policy_blackouts zs p i (Naive t))"
proof -
  have rules: "list_all (valid_weekly_rule zs) (up_blackouts p)" "sorted (map wr_rule_id (up_blackouts p))"
    using assms by (simp_all add: valid_user_policy_def policy_parts_def)
  have naive: "\<not> is_ok (policy_blackouts zs p i (Naive t))"
    by (simp add: policy_blackouts_def evaluate_blackouts_def v_aware_datetime_def)
  show ?thesis
  proof (cases "find (\<lambda>r. rule_covers zs r i t) (up_blackouts p)")
    case None
    then have "\<forall>r \<in> set (up_blackouts p). \<not> rule_covers zs r i t" by (auto simp: find_None_iff)
    with None naive show ?thesis
      by (auto simp: policy_blackouts_def evaluate_blackouts_find [OF rules(1)]
          valid_blackout_decision_def named_def)
  next
    case (Some r)
    then have r: "r \<in> set (up_blackouts p)" "rule_covers zs r i t" by (auto simp: find_Some_iff)
    with rules(1) have "safe_id_match (wr_rule_id r)" "safe_id_match (wr_reason_code r)"
      by (auto simp: list_all_iff valid_weekly_rule_def)
    with naive r Some find_sorted_least [OF rules(2) Some] show ?thesis
      by (auto simp: policy_blackouts_def evaluate_blackouts_find [OF rules(1)]
          valid_blackout_decision_def named_def)
  qed
qed

definition sample_policy :: user_policy where
  "sample_policy = \<lparr>up_policy_version = 1, up_unknown_capacity_mode = Um_degraded,
     up_replenishment_mode = Rm_advisory, up_reservations = [sample_reservation],
     up_blackouts = [night_rule], up_happy_hours = [night_rule\<lparr>wr_rule_id := ''cheap''\<rparr>]\<rparr>"

lemma sample_policy_valid: "valid_user_policy utc_only sample_policy"
  by code_simp

theorem policy_blackout_spec_witness:
  "\<exists>d. policy_blackouts utc_only sample_policy (ModelIdentity ''zai'' ''m-one'' ''base'') (Aware 0) = Inr d
     \<and> valid_blackout_decision d"
  using policy_blackout_spec [OF sample_policy_valid] by blast

text \<open>
  the policy container is canonical. Construction fails exactly on a version below 1 or a rule
  id repeated anywhere across the three kinds of rules; otherwise it stores each kind sorted by
  rule id, so reordering the configured rules gives the same policy and the same wire form, and
  the wire form reads back to it.
\<close>

theorem user_policy_canonical:
  assumes "policy_parts zs p" and "mset (up_reservations q) = mset (up_reservations p)"
    and "mset (up_blackouts q) = mset (up_blackouts p)" and "mset (up_happy_hours q) = mset (up_happy_hours p)"
    and "up_policy_version q = up_policy_version p"
    and "up_unknown_capacity_mode q = up_unknown_capacity_mode p"
    and "up_replenishment_mode q = up_replenishment_mode p"
  shows "(is_ok (mk_user_policy p) \<longleftrightarrow> 1 \<le> up_policy_version p \<and> distinct (policy_rule_ids p))
    \<and> (\<forall>r. mk_user_policy p = Inr r \<longrightarrow> mk_user_policy q = Inr r
         \<and> valid_user_policy zs r \<and> user_policy_from_dict zs (user_policy_to_dict r) = Inr r)"
proof -
  have ok: "is_ok (mk_user_policy p) \<longleftrightarrow> 1 \<le> up_policy_version p \<and> distinct (policy_rule_ids p)"
    by (auto simp: is_ok_iff mk_user_policy_def result_simps valid_simps)
  have ids: "mset (policy_rule_ids q) = mset (policy_rule_ids p)"
    using assms(2-4) by (simp add: policy_rule_ids_def)
  have "mk_user_policy q = Inr r \<and> valid_user_policy zs r" if run: "mk_user_policy p = Inr r" for r
  proof -
    from run have r: "r = canon_policy p" "valid_user_policy zs r" "1 \<le> up_policy_version p"
      and d: "distinct (policy_rule_ids p)"
      using mk_user_policy_Inr [OF assms(1), of r]
      by (auto simp: mk_user_policy_def result_simps valid_simps split: if_splits)
    from d have "distinct (map rr_rule_id (up_reservations p))" "distinct (map wr_rule_id (up_blackouts p))"
      "distinct (map wr_rule_id (up_happy_hours p))"
      by (simp_all add: policy_rule_ids_def)
    then have "canon_policy q = canon_policy p"
      unfolding canon_policy_def
      using assms(2-7) sort_key_perm_eq [OF assms(2), of rr_rule_id] sort_key_perm_eq [OF assms(3), of wr_rule_id]
        sort_key_perm_eq [OF assms(4), of wr_rule_id] mset_eq_setD [OF assms(2)] mset_eq_setD [OF assms(3)]
        mset_eq_setD [OF assms(4)]
      by (simp add: distinct_map)
    moreover have "distinct (policy_rule_ids q)" using d mset_eq_imp_distinct_iff [OF ids] by simp
    ultimately show ?thesis
      using r assms(5) by (simp add: mk_user_policy_def result_simps valid_simps flip: canon_policy_def)
  qed
  with ok user_policy_contract.from_to show ?thesis by blast
qed

theorem user_policy_canonical_witness:
  "user_policy_from_dict utc_only (user_policy_to_dict sample_policy) = Inr sample_policy"
proof -
  have "policy_parts utc_only sample_policy" "mk_user_policy sample_policy = Inr sample_policy"
    using sample_policy_valid mk_valid_user_policy by (auto simp: valid_user_policy_def)
  with user_policy_canonical [of utc_only sample_policy sample_policy] show ?thesis by simp
qed

lemma replenishment_run:
  assumes "valid_replenishment_state s"
  shows "\<exists>d. apply_replenishment_mode mode (Some s) = Inr d \<and> valid_replenishment_decision d
    \<and> rn_mode d = mode \<and> (rn_visible d \<longleftrightarrow> mode \<noteq> Rm_ignore)
    \<and> rn_available_count d = (if rn_visible d then Some (rp_available_count s) else None)
    \<and> (rn_recoverable d \<longleftrightarrow> mode = Rm_recoverable \<and> rp_available_count s > 0)
    \<and> rn_human_action_required d = rn_recoverable d"
proof -
  from assms have "0 \<le> rp_available_count s" by (simp add: valid_replenishment_state_def)
  moreover have "canonical_codes RECOVERABLE_CODES" by code_simp
  ultimately show ?thesis
    by (cases mode) (auto simp: apply_replenishment_mode_def visible_decision_def
        mk_replenishment_decision_Inr valid_replenishment_decision_def replenishment_decision_ok_def
        canonical_codes_def)
qed

text \<open>
  replenishment visibility. The decision is always constructed; \<open>ignore\<close> and a missing
  observation show nothing; \<open>advisory\<close> shows the facts and never marks them recoverable; only
  \<open>recoverable\<close> with a positive count is recoverable, and then a human has to act.
\<close>

theorem replenishment_visibility:
  assumes "pred_option valid_replenishment_state state"
  shows "\<exists>d. apply_replenishment_mode mode state = Inr d \<and> valid_replenishment_decision d
    \<and> rn_mode d = mode
    \<and> (rn_visible d \<longleftrightarrow> mode \<noteq> Rm_ignore \<and> state \<noteq> None)
    \<and> rn_available_count d = (if rn_visible d then map_option rp_available_count state else None)
    \<and> (rn_recoverable d \<longleftrightarrow> mode = Rm_recoverable \<and> (\<exists>s. state = Some s \<and> rp_available_count s > 0))
    \<and> rn_human_action_required d = rn_recoverable d"
proof (cases state)
  case None
  then show ?thesis
    by (cases mode) (auto simp: apply_replenishment_mode_def mk_replenishment_decision_Inr
        valid_replenishment_decision_def replenishment_decision_ok_def canonical_codes_def)
next
  case (Some s)
  with assms have "valid_replenishment_state s" by simp
  from replenishment_run [OF this, of mode] obtain d where
    "apply_replenishment_mode mode (Some s) = Inr d" "valid_replenishment_decision d"
    "rn_mode d = mode" "rn_visible d \<longleftrightarrow> mode \<noteq> Rm_ignore"
    "rn_available_count d = (if rn_visible d then Some (rp_available_count s) else None)"
    "rn_recoverable d \<longleftrightarrow> mode = Rm_recoverable \<and> rp_available_count s > 0"
    "rn_human_action_required d = rn_recoverable d" by blast
  with Some show ?thesis by (intro exI [of _ d]) simp
qed

theorem replenishment_visibility_witness:
  "\<exists>d. apply_replenishment_mode Rm_recoverable (Some \<lparr>rp_provider = ''openai'', rp_kind = ''rate_limit_reset'',
      rp_available_count = 2, rp_details_known = False, rp_earliest_expiry = None,
      rp_retrieved_at = ''2026-02-03T10:00:00.000Z''\<rparr>) = Inr d \<and> rn_recoverable d"
proof -
  let ?s = "\<lparr>rp_provider = ''openai'', rp_kind = ''rate_limit_reset'', rp_available_count = 2,
      rp_details_known = False, rp_earliest_expiry = None, rp_retrieved_at = ''2026-02-03T10:00:00.000Z''\<rparr>"
  have "pred_option valid_replenishment_state (Some ?s)" by code_simp
  from replenishment_visibility [OF this, of Rm_recoverable] show ?thesis by auto
qed

end
