(* ===== verification/Eligibility.thy ===== *)
theory Eligibility
  imports Py_Time
begin

text \<open>
  eligibility.py: the execution-eligibility report a provider produces next to its capacity
  snapshot. Only the account state \<open>eligible\<close>, without any reason code, lets unattended execution
  start.
\<close>

abbreviation el_exn :: "string \<Rightarrow> py_error" where
  "el_exn \<equiv> CapacityValidationError"

datatype eligibility_state = Es_eligible | Es_allowance_unavailable | Es_policy_blocked | Es_unknown

fun estate_str :: "eligibility_state \<Rightarrow> string" where
  "estate_str Es_eligible = ''eligible''"
| "estate_str Es_allowance_unavailable = ''allowance_unavailable''"
| "estate_str Es_policy_blocked = ''policy_blocked''"
| "estate_str Es_unknown = ''unknown''"

definition ELIGIBILITY_STATES :: "eligibility_state list" where
  "ELIGIBILITY_STATES = [Es_eligible, Es_allowance_unavailable, Es_policy_blocked, Es_unknown]"

datatype eligibility_reason =
    Er_credits_present | Er_credits_unknown | Er_usage_unknown | Er_spend_unknown
  | Er_usage_not_allowed | Er_spend_reached | Er_rate_limit | Er_individual_limit | Er_upsell
  | Er_window_exhausted | Er_tel_unavailable | Er_tel_auth | Er_tel_unsupported | Er_tel_invalid

fun ereason_str :: "eligibility_reason \<Rightarrow> string" where
  "ereason_str Er_credits_present = ''purchased_credits_present''"
| "ereason_str Er_credits_unknown = ''credits_state_unknown''"
| "ereason_str Er_usage_unknown = ''ordinary_usage_unknown''"
| "ereason_str Er_spend_unknown = ''spend_control_state_unknown''"
| "ereason_str Er_usage_not_allowed = ''ordinary_usage_not_allowed''"
| "ereason_str Er_spend_reached = ''spend_control_reached''"
| "ereason_str Er_rate_limit = ''rate_limit_reached''"
| "ereason_str Er_individual_limit = ''individual_limit_exhausted''"
| "ereason_str Er_upsell = ''upsell_present''"
| "ereason_str Er_window_exhausted = ''included_window_exhausted''"
| "ereason_str Er_tel_unavailable = ''telemetry_unavailable''"
| "ereason_str Er_tel_auth = ''telemetry_auth_required''"
| "ereason_str Er_tel_unsupported = ''telemetry_unsupported''"
| "ereason_str Er_tel_invalid = ''telemetry_invalid''"

definition ELIGIBILITY_REASON_CODES :: "eligibility_reason list" where
  "ELIGIBILITY_REASON_CODES =
     [Er_credits_present, Er_credits_unknown, Er_usage_unknown, Er_spend_unknown,
      Er_usage_not_allowed, Er_spend_reached, Er_rate_limit, Er_individual_limit, Er_upsell,
      Er_window_exhausted, Er_tel_unavailable, Er_tel_auth, Er_tel_unsupported, Er_tel_invalid]"

interpretation estate_vocab: vocabulary estate_str ELIGIBILITY_STATES
  by (rule vocabularyI, simp add: ELIGIBILITY_STATES_def, case_tac x, simp_all add: ELIGIBILITY_STATES_def)

interpretation ereason_vocab: vocabulary ereason_str ELIGIBILITY_REASON_CODES
  by (rule vocabularyI, simp add: ELIGIBILITY_REASON_CODES_def, case_tac x,
      simp_all add: ELIGIBILITY_REASON_CODES_def)

record execution_eligibility =
  ee_schema_version :: int
  ee_provider :: string
  ee_source :: string
  ee_retrieved_at :: string
  ee_state :: eligibility_state
  ee_reason_codes :: "eligibility_reason list"

definition eligibility_init ::
  "pyval \<Rightarrow> string \<Rightarrow> string \<Rightarrow> string \<Rightarrow> eligibility_state \<Rightarrow> pyval list \<Rightarrow> execution_eligibility result" where
  \<comment> \<open>\<open>__post_init__\<close>; the schema version and the codes arrive unchecked from \<open>from_dict\<close>\<close>
  "eligibility_init sv provider source retrieved state raw_codes =
     bind_r (v_int el_exn None None sv ''schema_version'') (\<lambda>sv.
     bind_r (guard_r (sv = 1) (el_exn ''schema_version'')) (\<lambda>_.
     bind_r (v_safe_id el_exn (PStr provider) ''provider'') (\<lambda>_.
     bind_r (v_safe_id el_exn (PStr source) ''source'') (\<lambda>_.
     bind_r (v_ts el_exn (PStr retrieved) ''retrieved_at'') (\<lambda>_.
     bind_r (traverse (\<lambda>c. v_enum el_exn ereason_str ELIGIBILITY_REASON_CODES c ''reason_codes.code'') raw_codes) (\<lambda>codes.
       if \<not> distinct codes then Inl (el_exn ''reason_codes'')
       else if sort_key ereason_str codes \<noteq> codes then Inl (el_exn ''reason_codes'')
       else if state = Es_eligible \<and> codes \<noteq> [] then Inl (el_exn ''state'')
       else if state \<noteq> Es_eligible \<and> codes = [] then Inl (el_exn ''state'')
       else Inr \<lparr>ee_schema_version = sv, ee_provider = provider, ee_source = source,
              ee_retrieved_at = retrieved, ee_state = state, ee_reason_codes = codes\<rparr>))))))"

definition mk_eligibility :: "execution_eligibility \<Rightarrow> execution_eligibility result" where
  "mk_eligibility e =
     eligibility_init (PInt (ee_schema_version e)) (ee_provider e) (ee_source e) (ee_retrieved_at e)
       (ee_state e) (map (\<lambda>c. PStr (ereason_str c)) (ee_reason_codes e))"

definition ELIGIBILITY_REQUIRED :: "string list" where
  "ELIGIBILITY_REQUIRED =
     [''schema_version'', ''provider'', ''source'', ''retrieved_at'', ''state'', ''reason_codes'']"

definition eligibility_from_dict :: "pyval \<Rightarrow> execution_eligibility result" where
  "eligibility_from_dict d =
     bind_r (v_exact_shape el_exn d ELIGIBILITY_REQUIRED [] ''eligibility'') (\<lambda>m.
     bind_r (v_item m ''reason_codes'' (v_list el_exn) ''reason_codes'') (\<lambda>raw.
     bind_r (py_item m ''schema_version'') (\<lambda>sv.
     bind_r (v_item m ''provider'' (v_safe_id el_exn) ''provider'') (\<lambda>provider.
     bind_r (v_item m ''source'' (v_safe_id el_exn) ''source'') (\<lambda>source.
     bind_r (v_item m ''retrieved_at'' (v_ts el_exn) ''retrieved_at'') (\<lambda>retrieved.
     bind_r (v_item m ''state'' (v_enum el_exn estate_str ELIGIBILITY_STATES) ''state'') (\<lambda>state.
       eligibility_init sv provider source retrieved state raw)))))))"

definition eligibility_to_dict :: "execution_eligibility \<Rightarrow> pyval" where
  "eligibility_to_dict e =
     obj [(''schema_version'', Some (PInt (ee_schema_version e))),
          (''provider'', Some (PStr (ee_provider e))), (''source'', Some (PStr (ee_source e))),
          (''retrieved_at'', Some (PStr (ee_retrieved_at e))),
          (''state'', Some (PStr (estate_str (ee_state e)))),
          (''reason_codes'', Some (PList (map (\<lambda>c. PStr (ereason_str c)) (ee_reason_codes e))))]"

definition eligibility_validate :: "execution_eligibility \<Rightarrow> execution_eligibility result" where
  "eligibility_validate e = eligibility_from_dict (eligibility_to_dict e)"

definition valid_eligibility :: "execution_eligibility \<Rightarrow> bool" where
  "valid_eligibility e =
     (ee_schema_version e = 1 \<and> safe_id_match (ee_provider e) \<and> safe_id_match (ee_source e)
      \<and> ts_ok (ee_retrieved_at e) \<and> distinct (ee_reason_codes e)
      \<and> sorted (map ereason_str (ee_reason_codes e))
      \<and> (ee_state e = Es_eligible \<longleftrightarrow> ee_reason_codes e = []))"

lemma ereason_wire:
  "traverse (\<lambda>c. v_enum exn ereason_str ELIGIBILITY_REASON_CODES c fld) (map (\<lambda>c. PStr (ereason_str c)) cs) = Inr cs"
  by (rule traverse_map_Inr) (rule ereason_vocab.v_enum_str)

lemma sort_id_iff: "sort_key f xs = xs \<longleftrightarrow> sorted (map (f :: 'a \<Rightarrow> 'b::linorder) xs)"
  by (metis sort_key_sorted_id sorted_sort_key)

lemma eligibility_init_Inr:
  "eligibility_init sv p s t st raw = Inr e \<Longrightarrow> valid_eligibility e"
  by (auto simp: eligibility_init_def valid_eligibility_def result_simps valid_simps sort_id_iff
      split: if_splits)

lemma mk_eligibility_Inr [valid_simps]: "mk_eligibility e = Inr e' \<longleftrightarrow> e' = e \<and> valid_eligibility e"
  by (cases e) (auto simp: mk_eligibility_def eligibility_init_def valid_eligibility_def ereason_wire
      sort_id_iff result_simps valid_simps)

interpretation eligibility_contract:
  contract "\<lambda>_. True" valid_eligibility mk_eligibility eligibility_from_dict eligibility_to_dict
proof unfold_locales
  fix r d
  show "eligibility_from_dict d = Inr r \<Longrightarrow> valid_eligibility r"
    by (auto simp: eligibility_from_dict_def bind_r_Inr_iff dest: eligibility_init_Inr)
  show "valid_eligibility r \<Longrightarrow> eligibility_from_dict (eligibility_to_dict r) = Inr r"
    using mk_eligibility_Inr [of r r]
    by (cases r) (auto simp: eligibility_from_dict_def eligibility_to_dict_def ELIGIBILITY_REQUIRED_def
        shape_simps result_simps valid_simps mk_eligibility_def valid_eligibility_def
        estate_vocab.v_enum_str)
qed (auto simp: valid_simps)

text \<open>
  an eligibility report is canonical and never permissive by accident. Whatever is parsed
  states \<open>eligible\<close> exactly when it carries no reason code, has its codes sorted without
  repetition, and survives re-validation unchanged.
\<close>

theorem eligibility_parse_spec:
  assumes "eligibility_from_dict d = Inr e"
  shows "(ee_state e = Es_eligible \<longleftrightarrow> ee_reason_codes e = [])
    \<and> distinct (ee_reason_codes e) \<and> sorted (map ereason_str (ee_reason_codes e))
    \<and> eligibility_validate e = Inr e"
  using eligibility_contract.parsed_ok [OF assms] eligibility_contract.from_to [of e]
  by (simp add: valid_eligibility_def eligibility_validate_def)

definition sample_eligibility :: "eligibility_state \<Rightarrow> eligibility_reason list \<Rightarrow> execution_eligibility" where
  "sample_eligibility st codes = \<lparr>ee_schema_version = 1, ee_provider = ''zai'', ee_source = ''poll'',
     ee_retrieved_at = ''2026-02-03T10:00:00.000Z'', ee_state = st, ee_reason_codes = codes\<rparr>"

lemma sample_eligibility_valid:
  "valid_eligibility (sample_eligibility Es_eligible [])"
  "valid_eligibility (sample_eligibility Es_unknown [Er_credits_unknown, Er_usage_unknown])"
  by code_simp+

theorem eligibility_parse_spec_witness:
  "eligibility_validate (sample_eligibility Es_eligible []) = Inr (sample_eligibility Es_eligible [])"
  using eligibility_parse_spec [OF eligibility_contract.from_to [OF sample_eligibility_valid(1)]] by simp

end
