(* ===== verification/Selector_Policy.thy ===== *)
theory Selector_Policy
  imports Policy Eligibility
begin

text \<open>
  selector.py, first part: the closed vocabularies of the selector, the \<open>SelectorPolicy\<close>
  wrapper around the user policy, and the documented neutral policy.
\<close>

section \<open>Frozen value sets\<close>

datatype selector_mode = Balanced

fun selector_mode_str :: "selector_mode \<Rightarrow> string" where
  "selector_mode_str Balanced = ''balanced''"

definition SELECTOR_MODES :: "selector_mode list" where
  "SELECTOR_MODES = [Balanced]"

datatype exclusion_stage =
    Xs_execution | Xs_policy_blackout | Xs_hard_constraint | Xs_capability | Xs_capacity
  | Xs_reservation

fun stage_str :: "exclusion_stage \<Rightarrow> string" where
  "stage_str Xs_execution = ''execution''"
| "stage_str Xs_policy_blackout = ''policy_blackout''"
| "stage_str Xs_hard_constraint = ''hard_constraint''"
| "stage_str Xs_capability = ''capability''"
| "stage_str Xs_capacity = ''capacity''"
| "stage_str Xs_reservation = ''reservation''"

definition EXCLUSION_STAGES :: "exclusion_stage list" where
  "EXCLUSION_STAGES = [Xs_execution, Xs_policy_blackout, Xs_hard_constraint, Xs_capability,
     Xs_capacity, Xs_reservation]"

fun stage_progress :: "exclusion_stage \<Rightarrow> nat" where
  \<comment> \<open>\<open>_STAGE_PROGRESS\<close>: the index in \<open>EXCLUSION_STAGES\<close>\<close>
  "stage_progress Xs_execution = 0"
| "stage_progress Xs_policy_blackout = 1"
| "stage_progress Xs_hard_constraint = 2"
| "stage_progress Xs_capability = 3"
| "stage_progress Xs_capacity = 4"
| "stage_progress Xs_reservation = 5"

datatype selection_reason =
    Se_selected_balanced | Se_no_eligible | Se_selected_degraded
  | Se_execution_unavailable | Se_execution_blocked | Se_execution_unverified
  | Se_policy_blocked | Se_hard_failed | Se_capability_failed | Se_capacity_unavailable
  | Se_capacity_unknown | Se_reservation_blocked | Se_reservation_unknown | Se_recoverable

fun selection_reason_str :: "selection_reason \<Rightarrow> string" where
  "selection_reason_str Se_selected_balanced = ''selected_balanced''"
| "selection_reason_str Se_no_eligible = ''no_eligible_candidate''"
| "selection_reason_str Se_selected_degraded = ''selected_degraded_capacity''"
| "selection_reason_str Se_execution_unavailable = ''execution_allowance_unavailable''"
| "selection_reason_str Se_execution_blocked = ''execution_policy_blocked''"
| "selection_reason_str Se_execution_unverified = ''execution_unverified''"
| "selection_reason_str Se_policy_blocked = ''policy_blocked''"
| "selection_reason_str Se_hard_failed = ''hard_constraint_failed''"
| "selection_reason_str Se_capability_failed = ''capability_failed''"
| "selection_reason_str Se_capacity_unavailable = ''capacity_unavailable''"
| "selection_reason_str Se_capacity_unknown = ''capacity_unknown_blocked''"
| "selection_reason_str Se_reservation_blocked = ''reservation_blocked''"
| "selection_reason_str Se_reservation_unknown = ''reservation_unknown''"
| "selection_reason_str Se_recoverable = ''replenishment_recoverable''"

definition SELECTION_REASON_CODES :: "selection_reason list" where
  "SELECTION_REASON_CODES =
     [Se_selected_balanced, Se_no_eligible, Se_selected_degraded, Se_execution_unavailable,
      Se_execution_blocked, Se_execution_unverified, Se_policy_blocked, Se_hard_failed,
      Se_capability_failed, Se_capacity_unavailable, Se_capacity_unknown,
      Se_reservation_blocked, Se_reservation_unknown, Se_recoverable]"

fun stage_reasons :: "exclusion_stage \<Rightarrow> selection_reason list" where
  "stage_reasons Xs_execution =
     [Se_execution_unavailable, Se_execution_blocked, Se_execution_unverified]"
| "stage_reasons Xs_policy_blackout = [Se_policy_blocked]"
| "stage_reasons Xs_hard_constraint = [Se_hard_failed]"
| "stage_reasons Xs_capability = [Se_capability_failed]"
| "stage_reasons Xs_capacity = [Se_capacity_unavailable, Se_capacity_unknown]"
| "stage_reasons Xs_reservation = [Se_reservation_blocked, Se_reservation_unknown]"

fun eligibility_primary :: "eligibility_state \<Rightarrow> selection_reason result" where
  \<comment> \<open>\<open>_ELIGIBILITY_STATE_PRIMARY[state]\<close>\<close>
  "eligibility_primary Es_allowance_unavailable = Inr Se_execution_unavailable"
| "eligibility_primary Es_policy_blocked = Inr Se_execution_blocked"
| "eligibility_primary Es_unknown = Inr Se_execution_unverified"
| "eligibility_primary Es_eligible = Inl (KeyError ''eligible'')"

interpretation selector_mode_vocab: vocabulary selector_mode_str SELECTOR_MODES
  by (rule vocabularyI, simp add: SELECTOR_MODES_def, case_tac x, simp_all add: SELECTOR_MODES_def)

interpretation stage_vocab: vocabulary stage_str EXCLUSION_STAGES
  by (rule vocabularyI, simp add: EXCLUSION_STAGES_def, case_tac x, simp_all add: EXCLUSION_STAGES_def)

interpretation selection_reason_vocab: vocabulary selection_reason_str SELECTION_REASON_CODES
  by (rule vocabularyI, simp add: SELECTION_REASON_CODES_def, case_tac x,
      simp_all add: SELECTION_REASON_CODES_def)

lemma stage_progress_inject [simp]: "stage_progress a = stage_progress b \<longleftrightarrow> a = b"
  by (cases a; cases b; simp)

text \<open>Stages are ordered by how far a candidate came before it was excluded.\<close>

instantiation exclusion_stage :: linorder
begin

definition less_eq_exclusion_stage :: "exclusion_stage \<Rightarrow> exclusion_stage \<Rightarrow> bool" where
  "less_eq_exclusion_stage a b \<longleftrightarrow> stage_progress a \<le> stage_progress b"

definition less_exclusion_stage :: "exclusion_stage \<Rightarrow> exclusion_stage \<Rightarrow> bool" where
  "less_exclusion_stage a b \<longleftrightarrow> stage_progress a < stage_progress b"

instance
  by intro_classes (auto simp: less_eq_exclusion_stage_def less_exclusion_stage_def)

end

definition v_selection_codes :: "selection_reason list \<Rightarrow> string \<Rightarrow> selection_reason list result" where
  "v_selection_codes codes fld =
     bind_r (seen_check (sel_exn fld) {} codes) (\<lambda>_. Inr (sort_key selection_reason_str codes))"

lemma v_selection_codes_Inr [valid_simps]:
  "v_selection_codes cs fld = Inr ds \<longleftrightarrow> distinct cs \<and> ds = sort_key selection_reason_str cs"
  by (auto simp: v_selection_codes_def result_simps)

section \<open>The selector policy\<close>

record selector_policy =
  sp_mode :: selector_mode
  sp_resource_policy :: user_policy
  sp_preference_order :: "model_identity list"
  sp_short_window_floor_percent :: "int option"

definition DEFAULT_SHORT_WINDOW_FLOOR_PERCENT :: int where
  "DEFAULT_SHORT_WINDOW_FLOOR_PERCENT = 10"

definition mk_selector_policy :: "selector_policy \<Rightarrow> selector_policy result" where
  "mk_selector_policy p =
     bind_r (case sp_short_window_floor_percent p of
               None \<Rightarrow> Inr ()
             | Some floor \<Rightarrow>
                 if floor < 0 \<or> floor > 100
                 then Inl (sel_exn ''selector_policy.short_window_floor_percent'') else Inr ()) (\<lambda>_.
     bind_r (seen_check (sel_exn ''selector_policy.preference_order'') {}
               (map identity_key (sp_preference_order p))) (\<lambda>_. Inr p))"

definition resolved_short_window_floor :: "selector_policy \<Rightarrow> int" where
  "resolved_short_window_floor p =
     (case sp_short_window_floor_percent p of
        Some floor \<Rightarrow> floor | None \<Rightarrow> DEFAULT_SHORT_WINDOW_FLOOR_PERCENT)"

definition selector_policy_from_dict :: "zones \<Rightarrow> pyval \<Rightarrow> selector_policy result" where
  "selector_policy_from_dict zs d =
     bind_r (v_exact_shape sel_exn d [''mode'', ''resource_policy'']
               [''preference_order'', ''short_window_floor_percent''] ''selector_policy'') (\<lambda>dd.
     bind_r (v_opt (v_list_of sel_exn identity_from_dict) (py_get dd ''preference_order'')
               ''selector_policy.preference_order'') (\<lambda>preference.
     bind_r (v_item dd ''mode'' (v_enum sel_exn selector_mode_str SELECTOR_MODES)
               ''selector_policy.mode'') (\<lambda>mode.
     bind_r (v_item dd ''resource_policy'' (\<lambda>v _. user_policy_from_dict zs v) '''') (\<lambda>rp.
     bind_r (v_opt (v_int sel_exn None None) (py_get dd ''short_window_floor_percent'')
               ''selector_policy.short_window_floor_percent'') (\<lambda>floor.
       mk_selector_policy \<lparr>sp_mode = mode, sp_resource_policy = rp,
         sp_preference_order = (case preference of None \<Rightarrow> [] | Some xs \<Rightarrow> xs),
         sp_short_window_floor_percent = floor\<rparr>)))))"

definition selector_policy_to_dict :: "selector_policy \<Rightarrow> pyval" where
  "selector_policy_to_dict p =
     obj [(''mode'', Some (PStr (selector_mode_str (sp_mode p)))),
          (''resource_policy'', Some (user_policy_to_dict (sp_resource_policy p))),
          (''preference_order'', Some (PList (map identity_to_dict (sp_preference_order p)))),
          (''short_window_floor_percent'', map_option PInt (sp_short_window_floor_percent p))]"

definition neutral_selector_policy :: "selector_policy result" where
  "neutral_selector_policy =
     bind_r (mk_user_policy \<lparr>up_policy_version = 1, up_unknown_capacity_mode = Um_degraded,
               up_replenishment_mode = Rm_advisory, up_reservations = [], up_blackouts = [],
               up_happy_hours = []\<rparr>) (\<lambda>rp.
       mk_selector_policy \<lparr>sp_mode = Balanced, sp_resource_policy = rp, sp_preference_order = [],
         sp_short_window_floor_percent = None\<rparr>)"

definition selector_policy_parts :: "zones \<Rightarrow> selector_policy \<Rightarrow> bool" where
  "selector_policy_parts zs p =
     (valid_user_policy zs (sp_resource_policy p) \<and> list_all valid_identity (sp_preference_order p))"

definition valid_selector_policy :: "zones \<Rightarrow> selector_policy \<Rightarrow> bool" where
  "valid_selector_policy zs p =
     (selector_policy_parts zs p \<and> distinct (sp_preference_order p)
      \<and> pred_option (\<lambda>n. 0 \<le> n \<and> n \<le> 100) (sp_short_window_floor_percent p))"

lemma distinct_identity_keys [simp]: "distinct (map identity_key is) = distinct is"
  by (simp add: distinct_map inj_on_def)

lemma mk_selector_policy_Inr:
  "selector_policy_parts zs p \<Longrightarrow>
   mk_selector_policy p = Inr p' \<longleftrightarrow> p' = p \<and> valid_selector_policy zs p"
  by (cases "sp_short_window_floor_percent p")
    (auto simp: mk_selector_policy_def valid_selector_policy_def result_simps)

interpretation selector_policy_contract:
  contract "selector_policy_parts zs" "valid_selector_policy zs" mk_selector_policy
    "selector_policy_from_dict zs" selector_policy_to_dict
  for zs :: zones
proof unfold_locales
  fix r d
  show "selector_policy_from_dict zs d = Inr r \<Longrightarrow> valid_selector_policy zs r"
    by (auto simp: selector_policy_from_dict_def bind_r_Inr_iff mk_selector_policy_Inr [where zs = zs]
        selector_policy_parts_def split: option.splits
        dest!: user_policy_contract.item_ok identity_contract.opt_list_ok)
  show "valid_selector_policy zs r \<Longrightarrow> selector_policy_from_dict zs (selector_policy_to_dict r) = Inr r"
    using mk_selector_policy_Inr [of zs r r]
    by (cases r) (auto simp: selector_policy_from_dict_def selector_policy_to_dict_def shape_simps
        result_simps valid_simps valid_selector_policy_def selector_policy_parts_def
        identity_contract.list_from_to user_policy_contract.from_to selector_mode_vocab.v_enum_str)
qed (auto simp: mk_selector_policy_Inr valid_selector_policy_def)

lemma neutral_policy_run:
  "neutral_selector_policy = Inr \<lparr>sp_mode = Balanced,
     sp_resource_policy = \<lparr>up_policy_version = 1, up_unknown_capacity_mode = Um_degraded,
       up_replenishment_mode = Rm_advisory, up_reservations = [], up_blackouts = [], up_happy_hours = []\<rparr>,
     sp_preference_order = [], sp_short_window_floor_percent = None\<rparr>"
  by code_simp

text \<open>
  the selector policy document. Everything a document parses to has a floor within 0 to 100
  and no repeated preference, and writing it and reading it back gives the same policy, preference
  order included; the resolved floor is then a percentage. The neutral policy is such a policy and
  restricts nothing.
\<close>

theorem selector_policy_roundtrip:
  assumes "selector_policy_from_dict zs d = Inr p"
  shows "selector_policy_from_dict zs (selector_policy_to_dict p) = Inr p
    \<and> distinct (sp_preference_order p)
    \<and> 0 \<le> resolved_short_window_floor p \<and> resolved_short_window_floor p \<le> 100
    \<and> (\<exists>n. neutral_selector_policy = Inr n \<and> valid_selector_policy zs n
         \<and> policy_rule_ids (sp_resource_policy n) = [] \<and> resolved_short_window_floor n = 10)"
proof -
  have ok: "valid_selector_policy zs p" by (rule selector_policy_contract.parsed_ok [OF assms])
  then have "0 \<le> resolved_short_window_floor p \<and> resolved_short_window_floor p \<le> 100"
    by (cases "sp_short_window_floor_percent p")
      (auto simp: valid_selector_policy_def resolved_short_window_floor_def
        DEFAULT_SHORT_WINDOW_FLOOR_PERCENT_def)
  with ok selector_policy_contract.from_to [OF ok] show ?thesis
    by (auto simp: neutral_policy_run valid_selector_policy_def selector_policy_parts_def
        valid_user_policy_def policy_parts_def policy_rule_ids_def resolved_short_window_floor_def
        DEFAULT_SHORT_WINDOW_FLOOR_PERCENT_def)
qed

definition sample_selector_policy :: selector_policy where
  "sample_selector_policy = \<lparr>sp_mode = Balanced, sp_resource_policy = sample_policy,
     sp_preference_order = [ModelIdentity ''zai'' ''m-two'' ''base''],
     sp_short_window_floor_percent = Some 40\<rparr>"

lemma sample_selector_policy_valid: "valid_selector_policy utc_only sample_selector_policy"
  by code_simp

theorem selector_policy_roundtrip_witness:
  "selector_policy_from_dict utc_only (selector_policy_to_dict sample_selector_policy)
     = Inr sample_selector_policy"
  using selector_policy_roundtrip [OF selector_policy_contract.from_to [OF sample_selector_policy_valid]]
  by simp

end
