(* ===== verification/Selector_Match.thy ===== *)
theory Selector_Match
  imports Selector_Policy
begin

text \<open>
  selector.py, matching: the monotone merge of a profile requirement with an explicit one, the
  hard-constraint evaluator over the nine constraints and capability sufficiency over effective
  ratings; then what it means, constraint by constraint, that an entry meets a requirement.
\<close>

section \<open>Requirement tightening\<close>

definition tighten_minimum :: "int option \<Rightarrow> int option \<Rightarrow> int option result" where
  "tighten_minimum base explicit =
     (case explicit of
        None \<Rightarrow> Inr base
      | Some x \<Rightarrow>
          (case base of
             None \<Rightarrow> Inr explicit
           | Some b \<Rightarrow> if x \<ge> b then Inr explicit else Inl (sel_exn ''tighten_requirement'')))"

definition tighten_identity :: "string option \<Rightarrow> string option \<Rightarrow> string option result" where
  "tighten_identity base explicit =
     (case explicit of
        None \<Rightarrow> Inr base
      | Some x \<Rightarrow>
          (case base of
             None \<Rightarrow> Inr explicit
           | Some b \<Rightarrow> if x = b then Inr explicit else Inl (sel_exn ''tighten_requirement'')))"

definition tighten_model_ref :: "model_ref option \<Rightarrow> model_ref option \<Rightarrow> model_ref option result" where
  "tighten_model_ref base explicit =
     (case explicit of
        None \<Rightarrow> Inr base
      | Some x \<Rightarrow>
          (case base of
             None \<Rightarrow> Inr explicit
           | Some b \<Rightarrow>
               if (mr_provider b, mr_model b) \<noteq> (mr_provider x, mr_model x)
               then Inl (sel_exn ''tighten_requirement'') else Inr base))"

definition tighten_minima :: "capability_minima \<Rightarrow> capability_minima \<Rightarrow> capability_minima result" where
  "tighten_minima b x =
     bind_r (tighten_minimum (cm_reasoning b) (cm_reasoning x)) (\<lambda>m1.
     bind_r (tighten_minimum (cm_coding b) (cm_coding x)) (\<lambda>m2.
     bind_r (tighten_minimum (cm_scientific_methodological b) (cm_scientific_methodological x)) (\<lambda>m3.
     bind_r (tighten_minimum (cm_writing_editorial b) (cm_writing_editorial x)) (\<lambda>m4.
     bind_r (tighten_minimum (cm_tool_use b) (cm_tool_use x)) (\<lambda>m5.
     bind_r (tighten_minimum (cm_translation_multilingual b) (cm_translation_multilingual x)) (\<lambda>m6.
       mk_minima \<lparr>cm_reasoning = m1, cm_coding = m2, cm_scientific_methodological = m3,
         cm_writing_editorial = m4, cm_tool_use = m5, cm_translation_multilingual = m6\<rparr>))))))"

definition tighten_hard :: "hard_constraints \<Rightarrow> hard_constraints \<Rightarrow> hard_constraints result" where
  "tighten_hard b x =
     bind_r (tighten_minimum (hc_minimum_input_context_tokens b) (hc_minimum_input_context_tokens x)) (\<lambda>min_in.
     bind_r (tighten_minimum (hc_minimum_output_tokens b) (hc_minimum_output_tokens x)) (\<lambda>min_out.
     bind_r (tighten_identity (hc_required_provider b) (hc_required_provider x)) (\<lambda>provider.
     bind_r (tighten_model_ref (hc_required_model b) (hc_required_model x)) (\<lambda>model.
     bind_r (tighten_identity (hc_required_variant b) (hc_required_variant x)) (\<lambda>variant.
     bind_r (tighten_identity (hc_privacy_constraint b) (hc_privacy_constraint x)) (\<lambda>privacy.
       mk_hard_constraints \<lparr>hc_minimum_input_context_tokens = min_in,
         hc_minimum_output_tokens = min_out,
         hc_requires_tool_use = (hc_requires_tool_use b \<or> hc_requires_tool_use x),
         hc_requires_vision = (hc_requires_vision b \<or> hc_requires_vision x),
         hc_requires_reasoning_mode = (hc_requires_reasoning_mode b \<or> hc_requires_reasoning_mode x),
         hc_required_provider = provider, hc_required_model = model,
         hc_required_variant = variant, hc_privacy_constraint = privacy\<rparr>))))))"

definition tighten_requirement :: "task_requirement \<Rightarrow> task_requirement \<Rightarrow> task_requirement result" where
  "tighten_requirement base explicit =
     (if level_index (tr_task_level explicit) < level_index (tr_task_level base)
      then Inl (sel_exn ''tighten_requirement'')
      else
        bind_r (tighten_minima (tr_capability_minima base) (tr_capability_minima explicit)) (\<lambda>minima.
        bind_r (tighten_hard (tr_hard_constraints base) (tr_hard_constraints explicit)) (\<lambda>hard.
          mk_requirement \<lparr>tr_task_level = tr_task_level explicit, tr_capability_minima = minima,
            tr_hard_constraints = hard\<rparr>)))"

section \<open>Hard-constraint evaluation\<close>

datatype hard_constraint_name =
    Hn_input | Hn_output | Hn_tool_use | Hn_vision | Hn_reasoning | Hn_provider | Hn_model
  | Hn_variant | Hn_privacy

fun hard_name_str :: "hard_constraint_name \<Rightarrow> string" where
  "hard_name_str Hn_input = ''minimum_input_context_tokens''"
| "hard_name_str Hn_output = ''minimum_output_tokens''"
| "hard_name_str Hn_tool_use = ''requires_tool_use''"
| "hard_name_str Hn_vision = ''requires_vision''"
| "hard_name_str Hn_reasoning = ''requires_reasoning_mode''"
| "hard_name_str Hn_provider = ''required_provider''"
| "hard_name_str Hn_model = ''required_model''"
| "hard_name_str Hn_variant = ''required_variant''"
| "hard_name_str Hn_privacy = ''privacy_constraint''"

datatype hard_failure_reason =
  Hr_unknown | Hr_insufficient | Hr_unsupported | Hr_mismatch | Hr_privacy_unknown
  | Hr_privacy_unsatisfied

fun hard_reason_str :: "hard_failure_reason \<Rightarrow> string" where
  "hard_reason_str Hr_unknown = ''unknown''"
| "hard_reason_str Hr_insufficient = ''insufficient''"
| "hard_reason_str Hr_unsupported = ''unsupported''"
| "hard_reason_str Hr_mismatch = ''mismatch''"
| "hard_reason_str Hr_privacy_unknown = ''privacy_unknown''"
| "hard_reason_str Hr_privacy_unsatisfied = ''privacy_unsatisfied''"

record hard_failure =
  hf_constraint :: hard_constraint_name
  hf_reason :: hard_failure_reason
  hf_required_value :: string
  hf_actual_value :: "string option"

definition mk_hard_failure :: "hard_failure \<Rightarrow> hard_failure result" where
  "mk_hard_failure f =
     bind_r (v_nonempty_str sel_exn (PStr (hf_required_value f)) ''hard_constraint_failure.required_value'')
       (\<lambda>_. Inr f)"

definition hard_failure_to_dict :: "hard_failure \<Rightarrow> pyval" where
  "hard_failure_to_dict f =
     obj [(''constraint'', Some (PStr (hard_name_str (hf_constraint f)))),
          (''reason'', Some (PStr (hard_reason_str (hf_reason f)))),
          (''required_value'', Some (PStr (hf_required_value f))),
          (''actual_value'', map_option PStr (hf_actual_value f))]"

fun nat_str :: "nat \<Rightarrow> string" where
  "nat_str n = (if n < 10 then [char_of (48 + n)] else nat_str (n div 10) @ [char_of (48 + n mod 10)])"

declare nat_str.simps [simp del]

definition int_str :: "int \<Rightarrow> string" where
  \<comment> \<open>\<open>str(n)\<close>\<close>
  "int_str n = (if n < 0 then CHR ''-'' # nat_str (nat (- n)) else nat_str (nat n))"

fun join :: "string \<Rightarrow> string list \<Rightarrow> string" where
  \<comment> \<open>\<open>sep.join(parts)\<close>\<close>
  "join sep [] = ''''"
| "join sep [s] = s"
| "join sep (s # t # ss) = s @ sep @ join sep (t # ss)"

abbreviation hard_failure_of ::
  "hard_constraint_name \<Rightarrow> hard_failure_reason \<Rightarrow> string \<Rightarrow> string option \<Rightarrow> hard_failure" where
  "hard_failure_of name reason required actual \<equiv>
     \<lparr>hf_constraint = name, hf_reason = reason, hf_required_value = required, hf_actual_value = actual\<rparr>"

definition numeric_failures :: "hard_constraint_name \<Rightarrow> int option \<Rightarrow> int option \<Rightarrow> hard_failure list" where
  "numeric_failures name required actual =
     (case required of
        None \<Rightarrow> []
      | Some r \<Rightarrow>
          (case actual of
             None \<Rightarrow> [hard_failure_of name Hr_unknown (int_str r) None]
           | Some a \<Rightarrow>
               if a < r then [hard_failure_of name Hr_insufficient (int_str r) (Some (int_str a))] else []))"

definition flag_failures :: "hard_constraint_name \<Rightarrow> bool \<Rightarrow> bool option \<Rightarrow> hard_failure list" where
  "flag_failures name required supported =
     (if \<not> required then []
      else case supported of
             None \<Rightarrow> [hard_failure_of name Hr_unknown ''true'' None]
           | Some b \<Rightarrow> if b then [] else [hard_failure_of name Hr_unsupported ''true'' (Some ''false'')])"

definition identity_failures :: "hard_constraints \<Rightarrow> model_identity \<Rightarrow> hard_failure list" where
  "identity_failures h i =
     (case hc_required_provider h of
        None \<Rightarrow> []
      | Some p \<Rightarrow>
          if mi_provider i \<noteq> p then [hard_failure_of Hn_provider Hr_mismatch p (Some (mi_provider i))] else [])
     @ (case hc_required_model h of
          None \<Rightarrow> []
        | Some m \<Rightarrow>
            if (mi_provider i, mi_model i) \<noteq> (mr_provider m, mr_model m)
            then [hard_failure_of Hn_model Hr_mismatch (join ''/'' [mr_provider m, mr_model m])
                    (Some (join ''/'' [mi_provider i, mi_model i]))]
            else [])
     @ (case hc_required_variant h of
          None \<Rightarrow> []
        | Some v \<Rightarrow>
            if mi_variant i \<noteq> v then [hard_failure_of Hn_variant Hr_mismatch v (Some (mi_variant i))] else [])"

definition privacy_failures :: "string option \<Rightarrow> string list option \<Rightarrow> hard_failure list" where
  "privacy_failures constraint tags =
     (case constraint of
        None \<Rightarrow> []
      | Some c \<Rightarrow>
          (case tags of
             None \<Rightarrow> [hard_failure_of Hn_privacy Hr_privacy_unknown c None]
           | Some ts \<Rightarrow>
               if c \<notin> set ts
               then [hard_failure_of Hn_privacy Hr_privacy_unsatisfied c (Some (join '','' ts))] else []))"

definition evaluate_hard_constraints ::
  "hard_constraints \<Rightarrow> model_catalog_entry \<Rightarrow> hard_failure list result" where
  "evaluate_hard_constraints h e =
     (let p = ce_hard_properties e in
      traverse mk_hard_failure
        (numeric_failures Hn_input (hc_minimum_input_context_tokens h) (hp_input_context_tokens p)
         @ numeric_failures Hn_output (hc_minimum_output_tokens h) (hp_output_tokens p)
         @ flag_failures Hn_tool_use (hc_requires_tool_use h) (hp_supports_tool_use p)
         @ flag_failures Hn_vision (hc_requires_vision h) (hp_supports_vision p)
         @ flag_failures Hn_reasoning (hc_requires_reasoning_mode h) (hp_supports_reasoning_mode p)
         @ identity_failures h (ce_identity e)
         @ privacy_failures (hc_privacy_constraint h) (hp_privacy_tags p)))"

section \<open>Capability sufficiency\<close>

datatype capability_failure_reason = Cr_unknown | Cr_below_minimum

fun capability_reason_str :: "capability_failure_reason \<Rightarrow> string" where
  "capability_reason_str Cr_unknown = ''unknown''"
| "capability_reason_str Cr_below_minimum = ''below_minimum''"

record capability_failure =
  cf_dimension :: string
  cf_required_rating :: int
  cf_actual_rating :: "int option"
  cf_reason :: capability_failure_reason

definition mk_capability_failure :: "capability_failure \<Rightarrow> capability_failure result" where
  "mk_capability_failure f =
     bind_r (guard_r (cf_dimension f \<in> set CAPABILITY_DIMENSIONS) (sel_exn ''capability_failure.dimension'')) (\<lambda>_.
     bind_r (v_int sel_exn (Some 1) None (PInt (cf_required_rating f)) ''capability_failure.required_rating'') (\<lambda>_.
     bind_r (v_opt (v_int sel_exn (Some 1) None) (opt_py PInt (cf_actual_rating f))
               ''capability_failure.actual_rating'') (\<lambda>_. Inr f)))"

definition capability_failure_to_dict :: "capability_failure \<Rightarrow> pyval" where
  "capability_failure_to_dict f =
     obj [(''dimension'', Some (PStr (cf_dimension f))),
          (''required_rating'', Some (PInt (cf_required_rating f))),
          (''reason'', Some (PStr (capability_reason_str (cf_reason f)))),
          (''actual_rating'', map_option PInt (cf_actual_rating f))]"

definition minima_items :: "capability_minima \<Rightarrow> (string \<times> int option) list" where
  "minima_items m =
     [(''reasoning'', cm_reasoning m), (''coding'', cm_coding m),
      (''scientific_methodological'', cm_scientific_methodological m),
      (''writing_editorial'', cm_writing_editorial m), (''tool_use'', cm_tool_use m),
      (''translation_multilingual'', cm_translation_multilingual m)]"

definition assessment_items :: "capability_assessments \<Rightarrow> (string \<times> capability_assessment) list" where
  "assessment_items v =
     [(''reasoning'', av_reasoning v), (''coding'', av_coding v),
      (''scientific_methodological'', av_scientific_methodological v),
      (''writing_editorial'', av_writing_editorial v), (''tool_use'', av_tool_use v),
      (''translation_multilingual'', av_translation_multilingual v)]"

fun sufficiency_loop ::
  "(string \<times> capability_assessment) list \<Rightarrow> (string \<times> int option) list \<Rightarrow>
   capability_failure list result" where
  "sufficiency_loop assessments [] = Inr []"
| "sufficiency_loop assessments ((dimension, required) # rest) =
     (case required of
        None \<Rightarrow> sufficiency_loop assessments rest
      | Some r \<Rightarrow>
          (case map_of assessments dimension of
             None \<Rightarrow> Inl (KeyError dimension)
           | Some a \<Rightarrow>
               let failed = (\<lambda>actual reason.
                 bind_r (mk_capability_failure \<lparr>cf_dimension = dimension, cf_required_rating = r,
                           cf_actual_rating = actual, cf_reason = reason\<rparr>) (\<lambda>f.
                 bind_r (sufficiency_loop assessments rest) (\<lambda>fs. Inr (f # fs)))) in
               (case effective_rating a of
                  None \<Rightarrow> failed None Cr_unknown
                | Some n \<Rightarrow>
                    if n < r then failed (Some n) Cr_below_minimum
                    else sufficiency_loop assessments rest)))"

definition evaluate_capability_sufficiency ::
  "capability_minima \<Rightarrow> capability_assessments \<Rightarrow> capability_failure list result" where
  "evaluate_capability_sufficiency m v = sufficiency_loop (assessment_items v) (minima_items m)"

definition capability_margin :: "capability_minima \<Rightarrow> capability_assessments \<Rightarrow> int result" where
  \<comment> \<open>the retired public helper: it always raises\<close>
  "capability_margin m v = Inl (sel_exn ''capability margin scoring was removed'')"

section \<open>What it means to meet a requirement\<close>

definition HARD_CONSTRAINT_NAMES :: "hard_constraint_name list" where
  "HARD_CONSTRAINT_NAMES = [Hn_input, Hn_output, Hn_tool_use, Hn_vision, Hn_reasoning, Hn_provider,
     Hn_model, Hn_variant, Hn_privacy]"

interpretation hard_name_vocab: vocabulary hard_name_str HARD_CONSTRAINT_NAMES
  by (rule vocabularyI, simp add: HARD_CONSTRAINT_NAMES_def, case_tac x,
      simp_all add: HARD_CONSTRAINT_NAMES_def)

definition at_least :: "int option \<Rightarrow> int option \<Rightarrow> bool" where
  \<comment> \<open>an unknown value never satisfies a minimum\<close>
  "at_least required actual =
     pred_option (\<lambda>r. case actual of None \<Rightarrow> False | Some a \<Rightarrow> r \<le> a) required"

fun meets :: "hard_constraint_name \<Rightarrow> hard_constraints \<Rightarrow> model_catalog_entry \<Rightarrow> bool" where
  "meets Hn_input h e = at_least (hc_minimum_input_context_tokens h) (hp_input_context_tokens (ce_hard_properties e))"
| "meets Hn_output h e = at_least (hc_minimum_output_tokens h) (hp_output_tokens (ce_hard_properties e))"
| "meets Hn_tool_use h e = (hc_requires_tool_use h \<longrightarrow> hp_supports_tool_use (ce_hard_properties e) = Some True)"
| "meets Hn_vision h e = (hc_requires_vision h \<longrightarrow> hp_supports_vision (ce_hard_properties e) = Some True)"
| "meets Hn_reasoning h e =
     (hc_requires_reasoning_mode h \<longrightarrow> hp_supports_reasoning_mode (ce_hard_properties e) = Some True)"
| "meets Hn_provider h e = pred_option (\<lambda>p. mi_provider (ce_identity e) = p) (hc_required_provider h)"
| "meets Hn_model h e =
     pred_option (\<lambda>m. ModelRef (mi_provider (ce_identity e)) (mi_model (ce_identity e)) = m) (hc_required_model h)"
| "meets Hn_variant h e = pred_option (\<lambda>v. mi_variant (ce_identity e) = v) (hc_required_variant h)"
| "meets Hn_privacy h e =
     pred_option (\<lambda>c. pred_option (\<lambda>ts. c \<in> set ts) (hp_privacy_tags (ce_hard_properties e))
       \<and> hp_privacy_tags (ce_hard_properties e) \<noteq> None) (hc_privacy_constraint h)"

definition meets_hard :: "hard_constraints \<Rightarrow> model_catalog_entry \<Rightarrow> bool" where
  "meets_hard h e = list_all (\<lambda>c. meets c h e) HARD_CONSTRAINT_NAMES"

definition rating_in :: "capability_assessments \<Rightarrow> string \<Rightarrow> int option" where
  "rating_in v dimension = Option.bind (map_of (assessment_items v) dimension) effective_rating"

definition meets_minima :: "capability_minima \<Rightarrow> capability_assessments \<Rightarrow> bool" where
  "meets_minima m v = list_all (\<lambda>(d, required). at_least required (rating_in v d)) (minima_items m)"

lemma at_least_simps [simp]:
  "at_least None a" "\<not> at_least (Some r) None" "at_least (Some r) (Some n) = (r \<le> n)"
  by (simp_all add: at_least_def)

lemma numeric_failures_names:
  "map hf_constraint (numeric_failures name r a) = (if at_least r a then [] else [name])"
  by (cases r; cases a) (auto simp: numeric_failures_def)

lemma flag_failures_names:
  "map hf_constraint (flag_failures name r s) = (if r \<longrightarrow> s = Some True then [] else [name])"
  by (cases s) (auto simp: flag_failures_def)

lemma identity_failures_names:
  "map hf_constraint (identity_failures h (ce_identity e)) =
     filter (\<lambda>c. \<not> meets c h e) [Hn_provider, Hn_model, Hn_variant]"
  by (cases "hc_required_provider h"; cases "hc_required_model h"; cases "hc_required_variant h")
    (auto simp: identity_failures_def model_ref.expand)

lemma privacy_failures_names:
  "map hf_constraint (privacy_failures (hc_privacy_constraint h) (hp_privacy_tags (ce_hard_properties e))) =
     filter (\<lambda>c. \<not> meets c h e) [Hn_privacy]"
  by (cases "hc_privacy_constraint h"; cases "hp_privacy_tags (ce_hard_properties e)")
    (auto simp: privacy_failures_def)

lemma nat_str_nonempty [simp]: "nat_str n \<noteq> []"
  by (subst nat_str.simps) simp

lemma int_str_nonempty [simp]: "int_str n \<noteq> []"
  by (simp add: int_str_def)

definition failure_ok :: "hard_failure \<Rightarrow> bool" where
  "failure_ok f =
     (hf_required_value f \<noteq> []
      \<and> (hf_actual_value f = None \<longleftrightarrow> hf_reason f \<in> {Hr_unknown, Hr_privacy_unknown}))"

lemma hard_failures_ok:
  "list_all failure_ok (numeric_failures name r a)"
  "list_all failure_ok (flag_failures name b s)"
  "valid_hard_constraints h \<Longrightarrow> list_all failure_ok (identity_failures h i)"
  "valid_hard_constraints h \<Longrightarrow> list_all failure_ok (privacy_failures (hc_privacy_constraint h) tags)"
proof -
  show "list_all failure_ok (numeric_failures name r a)"
    by (auto simp: numeric_failures_def failure_ok_def split: option.splits)
  show "list_all failure_ok (flag_failures name b s)"
    by (auto simp: flag_failures_def failure_ok_def split: option.splits)
  show "valid_hard_constraints h \<Longrightarrow> list_all failure_ok (identity_failures h i)"
    by (cases "hc_required_provider h"; cases "hc_required_model h"; cases "hc_required_variant h")
      (auto simp: identity_failures_def failure_ok_def valid_hard_constraints_def dest: safe_id_nonempty)
  show "valid_hard_constraints h \<Longrightarrow> list_all failure_ok (privacy_failures (hc_privacy_constraint h) tags)"
    by (cases "hc_privacy_constraint h"; cases tags)
      (auto simp: privacy_failures_def failure_ok_def valid_hard_constraints_def dest: safe_id_nonempty)
qed

lemma hard_constraints_run:
  assumes "valid_hard_constraints h"
  shows "\<exists>fs. evaluate_hard_constraints h e = Inr fs \<and> list_all failure_ok fs
    \<and> map hf_constraint fs = filter (\<lambda>c. \<not> meets c h e) HARD_CONSTRAINT_NAMES"
proof -
  let ?p = "ce_hard_properties e"
  define fs where "fs =
    numeric_failures Hn_input (hc_minimum_input_context_tokens h) (hp_input_context_tokens ?p)
    @ numeric_failures Hn_output (hc_minimum_output_tokens h) (hp_output_tokens ?p)
    @ flag_failures Hn_tool_use (hc_requires_tool_use h) (hp_supports_tool_use ?p)
    @ flag_failures Hn_vision (hc_requires_vision h) (hp_supports_vision ?p)
    @ flag_failures Hn_reasoning (hc_requires_reasoning_mode h) (hp_supports_reasoning_mode ?p)
    @ identity_failures h (ce_identity e) @ privacy_failures (hc_privacy_constraint h) (hp_privacy_tags ?p)"
  have ok: "list_all failure_ok fs"
    unfolding fs_def by (simp only: list_all_append hard_failures_ok assms)
  have "mk_hard_failure f = Inr f" if "f \<in> set fs" for f
    using ok that by (auto simp: list_all_iff failure_ok_def mk_hard_failure_def v_nonempty_str_def v_str_def)
  then have "traverse mk_hard_failure fs = Inr fs"
    using traverse_map_Inr [of fs mk_hard_failure "\<lambda>f. f"] by simp
  moreover have "map hf_constraint fs = filter (\<lambda>c. \<not> meets c h e) HARD_CONSTRAINT_NAMES"
    unfolding fs_def
    by (simp add: numeric_failures_names flag_failures_names identity_failures_names
        privacy_failures_names HARD_CONSTRAINT_NAMES_def)
  ultimately show ?thesis
    using ok by (auto simp: evaluate_hard_constraints_def Let_def fs_def)
qed

definition effective_ok :: "capability_assessments \<Rightarrow> bool" where
  "effective_ok v = list_all (\<lambda>(_, a). pred_option rating_ok (effective_rating a)) (assessment_items v)"

lemma sufficiency_loop_run:
  assumes "list_all (\<lambda>(_, a). pred_option rating_ok (effective_rating a)) assessments"
    and "list_all (\<lambda>(d, req). d \<in> set CAPABILITY_DIMENSIONS \<and> map_of assessments d \<noteq> None
           \<and> pred_option rating_ok req) items"
  shows "\<exists>fs. sufficiency_loop assessments items = Inr fs
    \<and> map cf_dimension fs = map fst (filter (\<lambda>(d, req).
        \<not> at_least req (Option.bind (map_of assessments d) effective_rating)) items)"
  using assms(2)
proof (induction items)
  case (Cons item items)
  obtain d req where item: "item = (d, req)" by (cases item)
  from Cons obtain fs where fs: "sufficiency_loop assessments items = Inr fs"
    "map cf_dimension fs = map fst (filter (\<lambda>(d, req).
        \<not> at_least req (Option.bind (map_of assessments d) effective_rating)) items)"
    by auto
  from Cons.prems item obtain a where a: "map_of assessments d = Some a" "d \<in> set CAPABILITY_DIMENSIONS"
    "pred_option rating_ok req" by auto
  then have "(d, a) \<in> set assessments" by (auto dest: map_of_SomeD)
  with assms(1) have r: "pred_option rating_ok (effective_rating a)" by (auto simp: list_all_iff)
  have mk: "mk_capability_failure f = Inr f"
    if "cf_dimension f = d" "rating_ok (cf_required_rating f)" "pred_option rating_ok (cf_actual_rating f)" for f
    using that a(2) by (cases "cf_actual_rating f")
      (auto simp: mk_capability_failure_def result_simps v_int_def rating_ok_def)
  show ?case
  proof (cases req)
    case None
    with fs item show ?thesis by auto
  next
    case (Some n)
    with a fs item r mk show ?thesis
      by (cases "effective_rating a") (auto simp: Let_def)
  qed
qed simp

lemma valid_assessment_effective: "valid_assessment a \<Longrightarrow> pred_option rating_ok (effective_rating a)"
  by (cases "as_human_override a")
    (auto simp: valid_assessment_def unknown_assessment_def known_assessment_def effective_rating_def
      valid_override_def)

lemma valid_assessments_effective: "valid_assessments v \<Longrightarrow> effective_ok v"
  by (simp add: valid_assessments_def effective_ok_def assessment_items_def valid_assessment_effective)

lemma capability_run:
  assumes "valid_minima m" and "valid_assessments v"
  shows "\<exists>fs. evaluate_capability_sufficiency m v = Inr fs
    \<and> map cf_dimension fs
        = map fst (filter (\<lambda>(d, req). \<not> at_least req (rating_in v d)) (minima_items m))"
  unfolding evaluate_capability_sufficiency_def rating_in_def
  using valid_assessments_effective [OF assms(2)] assms(1)
  by (intro sufficiency_loop_run)
    (simp_all add: effective_ok_def minima_items_def CAPABILITY_DIMENSIONS_def valid_minima_def
      assessment_items_def)

section \<open>What the merge of two requirements means\<close>

definition no_looser :: "int option \<Rightarrow> int option \<Rightarrow> bool" where
  "no_looser b x = pred_option (\<lambda>n. pred_option (\<lambda>m. m \<le> n) b) x"

definition agrees :: "'a option \<Rightarrow> 'a option \<Rightarrow> bool" where
  "agrees b x = pred_option (\<lambda>n. pred_option (\<lambda>m. m = n) b) x"

definition overlay :: "'a option \<Rightarrow> 'a option \<Rightarrow> 'a option" where
  "overlay b x = (case x of None \<Rightarrow> b | Some _ \<Rightarrow> x)"

lemma tighten_minimum_Inr:
  "tighten_minimum b x = Inr r \<longleftrightarrow> no_looser b x \<and> r = overlay b x"
  by (cases x; cases b) (auto simp: tighten_minimum_def no_looser_def overlay_def)

lemma tighten_identity_Inr:
  "tighten_identity b x = Inr r \<longleftrightarrow> agrees b x \<and> r = overlay b x"
  by (cases x; cases b) (auto simp: tighten_identity_def agrees_def overlay_def)

lemma tighten_model_ref_Inr:
  "tighten_model_ref b x = Inr r \<longleftrightarrow> agrees b x \<and> r = overlay b x"
  by (cases x; cases b) (auto simp: tighten_model_ref_def agrees_def overlay_def model_ref.expand)

lemma overlay_at_least:
  "no_looser b x \<Longrightarrow> at_least (overlay b x) a \<longleftrightarrow> at_least b a \<and> at_least x a"
  by (cases x; cases b; cases a) (auto simp: no_looser_def overlay_def)

lemma overlay_agrees:
  "agrees b x \<Longrightarrow> pred_option P (overlay b x) \<longleftrightarrow> pred_option P b \<and> pred_option P x"
  by (cases x; cases b) (auto simp: agrees_def overlay_def)

lemma overlay_pred: "pred_option P b \<Longrightarrow> pred_option P x \<Longrightarrow> pred_option P (overlay b x)"
  by (cases x) (auto simp: overlay_def)

definition merged_minima :: "capability_minima \<Rightarrow> capability_minima \<Rightarrow> capability_minima" where
  "merged_minima b x =
     \<lparr>cm_reasoning = overlay (cm_reasoning b) (cm_reasoning x),
       cm_coding = overlay (cm_coding b) (cm_coding x),
       cm_scientific_methodological
         = overlay (cm_scientific_methodological b) (cm_scientific_methodological x),
       cm_writing_editorial = overlay (cm_writing_editorial b) (cm_writing_editorial x),
       cm_tool_use = overlay (cm_tool_use b) (cm_tool_use x),
       cm_translation_multilingual
         = overlay (cm_translation_multilingual b) (cm_translation_multilingual x)\<rparr>"

definition merged_hard :: "hard_constraints \<Rightarrow> hard_constraints \<Rightarrow> hard_constraints" where
  "merged_hard b x =
     \<lparr>hc_minimum_input_context_tokens
         = overlay (hc_minimum_input_context_tokens b) (hc_minimum_input_context_tokens x),
       hc_minimum_output_tokens = overlay (hc_minimum_output_tokens b) (hc_minimum_output_tokens x),
       hc_requires_tool_use = (hc_requires_tool_use b \<or> hc_requires_tool_use x),
       hc_requires_vision = (hc_requires_vision b \<or> hc_requires_vision x),
       hc_requires_reasoning_mode = (hc_requires_reasoning_mode b \<or> hc_requires_reasoning_mode x),
       hc_required_provider = overlay (hc_required_provider b) (hc_required_provider x),
       hc_required_model = overlay (hc_required_model b) (hc_required_model x),
       hc_required_variant = overlay (hc_required_variant b) (hc_required_variant x),
       hc_privacy_constraint = overlay (hc_privacy_constraint b) (hc_privacy_constraint x)\<rparr>"

definition minima_no_looser :: "capability_minima \<Rightarrow> capability_minima \<Rightarrow> bool" where
  "minima_no_looser b x =
     list_all2 (\<lambda>(_, m) (_, n). no_looser m n) (minima_items b) (minima_items x)"

definition hard_no_looser :: "hard_constraints \<Rightarrow> hard_constraints \<Rightarrow> bool" where
  "hard_no_looser b x =
     (no_looser (hc_minimum_input_context_tokens b) (hc_minimum_input_context_tokens x)
      \<and> no_looser (hc_minimum_output_tokens b) (hc_minimum_output_tokens x)
      \<and> agrees (hc_required_provider b) (hc_required_provider x)
      \<and> agrees (hc_required_model b) (hc_required_model x)
      \<and> agrees (hc_required_variant b) (hc_required_variant x)
      \<and> agrees (hc_privacy_constraint b) (hc_privacy_constraint x))"

definition one_provider :: "hard_constraints \<Rightarrow> bool" where
  \<comment> \<open>a required model belongs to the required provider\<close>
  "one_provider h =
     pred_option (\<lambda>p. pred_option (\<lambda>m. mr_provider m = p) (hc_required_model h)) (hc_required_provider h)"

lemma tighten_minima_Inr:
  assumes "valid_minima b" "valid_minima x"
  shows "tighten_minima b x = Inr m \<longleftrightarrow> minima_no_looser b x \<and> m = merged_minima b x"
    and "valid_minima (merged_minima b x)"
proof -
  show v: "valid_minima (merged_minima b x)"
    using assms by (simp add: valid_minima_def merged_minima_def overlay_pred)
  show "tighten_minima b x = Inr m \<longleftrightarrow> minima_no_looser b x \<and> m = merged_minima b x"
    using v
    by (auto simp: tighten_minima_def bind_r_Inr_iff tighten_minimum_Inr mk_minima_Inr
        minima_no_looser_def minima_items_def merged_minima_def)
qed

lemma tighten_hard_Inr:
  assumes "valid_hard_constraints b" "valid_hard_constraints x"
  shows "tighten_hard b x = Inr h \<longleftrightarrow>
           hard_no_looser b x \<and> one_provider (merged_hard b x) \<and> h = merged_hard b x"
    and "one_provider (merged_hard b x) \<Longrightarrow> valid_hard_constraints (merged_hard b x)"
proof -
  have parts: "pred_option valid_model_ref (hc_required_model (merged_hard b x))"
    using assms by (simp add: merged_hard_def valid_hard_constraints_def overlay_pred)
  have v: "valid_hard_constraints (merged_hard b x) \<longleftrightarrow> one_provider (merged_hard b x)"
    using assms by (auto simp: valid_hard_constraints_def merged_hard_def one_provider_def overlay_pred)
  then show "one_provider (merged_hard b x) \<Longrightarrow> valid_hard_constraints (merged_hard b x)" by simp
  have "tighten_hard b x =
      bind_r (tighten_minimum (hc_minimum_input_context_tokens b) (hc_minimum_input_context_tokens x)) (\<lambda>_.
      bind_r (tighten_minimum (hc_minimum_output_tokens b) (hc_minimum_output_tokens x)) (\<lambda>_.
      bind_r (tighten_identity (hc_required_provider b) (hc_required_provider x)) (\<lambda>_.
      bind_r (tighten_model_ref (hc_required_model b) (hc_required_model x)) (\<lambda>_.
      bind_r (tighten_identity (hc_required_variant b) (hc_required_variant x)) (\<lambda>_.
      bind_r (tighten_identity (hc_privacy_constraint b) (hc_privacy_constraint x)) (\<lambda>_.
        mk_hard_constraints (merged_hard b x)))))))"
    by (auto simp: tighten_hard_def tighten_minimum_Inr tighten_identity_Inr tighten_model_ref_Inr
        merged_hard_def intro!: bind_r_cong)
  then show "tighten_hard b x = Inr h \<longleftrightarrow>
      hard_no_looser b x \<and> one_provider (merged_hard b x) \<and> h = merged_hard b x"
    using mk_hard_constraints_Inr [OF parts, of h] v
    by (auto simp: bind_r_Inr_iff tighten_minimum_Inr tighten_identity_Inr tighten_model_ref_Inr
        hard_no_looser_def)
qed

lemma meets_merged_hard:
  "hard_no_looser b x \<Longrightarrow> meets_hard (merged_hard b x) e \<longleftrightarrow> meets_hard b e \<and> meets_hard x e"
  by (auto simp: meets_hard_def HARD_CONSTRAINT_NAMES_def merged_hard_def hard_no_looser_def
      overlay_at_least overlay_agrees)

lemma meets_merged_minima:
  "minima_no_looser b x \<Longrightarrow> meets_minima (merged_minima b x) v \<longleftrightarrow> meets_minima b v \<and> meets_minima x v"
  by (auto simp: meets_minima_def minima_items_def merged_minima_def minima_no_looser_def overlay_at_least)

section \<open>Properties\<close>

lemma hard_passes:
  "valid_hard_constraints h \<Longrightarrow> evaluate_hard_constraints h e = Inr [] \<longleftrightarrow> meets_hard h e"
proof -
  assume "valid_hard_constraints h"
  from hard_constraints_run [OF this, of e] obtain fs where fs: "evaluate_hard_constraints h e = Inr fs"
    "map hf_constraint fs = filter (\<lambda>c. \<not> meets c h e) HARD_CONSTRAINT_NAMES" by auto
  have "fs = [] \<longleftrightarrow> map hf_constraint fs = []" by simp
  also have "\<dots> \<longleftrightarrow> meets_hard h e"
    unfolding fs(2) by (auto simp: meets_hard_def list_all_iff filter_empty_conv)
  finally show "evaluate_hard_constraints h e = Inr [] \<longleftrightarrow> meets_hard h e" using fs(1) by simp
qed

lemma capability_passes:
  assumes "valid_minima m" "valid_assessments v"
  shows "evaluate_capability_sufficiency m v = Inr [] \<longleftrightarrow> meets_minima m v"
proof -
  from capability_run [OF assms] obtain fs where fs: "evaluate_capability_sufficiency m v = Inr fs"
    "map cf_dimension fs = map fst (filter (\<lambda>(d, req). \<not> at_least req (rating_in v d)) (minima_items m))"
    by auto
  have "fs = [] \<longleftrightarrow> map cf_dimension fs = []" by simp
  also have "\<dots> \<longleftrightarrow> meets_minima m v"
    unfolding fs(2) by (auto simp: meets_minima_def list_all_iff filter_empty_conv)
  finally show ?thesis using fs(1) by simp
qed

text \<open>
  C36: the hard-constraint evaluator is exact. It is total on valid constraints, names exactly the
  constraints that the candidate does not meet, each once and in the order of the vocabulary, and
  every record has a nonempty required value and an actual value unless the fact is unknown; an
  unknown property never meets a requirement and nothing is demanded that was not required.
\<close>

theorem hard_constraints_exact:
  assumes "valid_hard_constraints h"
  shows "\<exists>fs. evaluate_hard_constraints h e = Inr fs
    \<and> map hf_constraint fs = filter (\<lambda>c. \<not> meets c h e) HARD_CONSTRAINT_NAMES
    \<and> (fs = [] \<longleftrightarrow> meets_hard h e)
    \<and> (\<forall>f \<in> set fs. hf_required_value f \<noteq> []
        \<and> (hf_actual_value f = None \<longleftrightarrow> hf_reason f \<in> {Hr_unknown, Hr_privacy_unknown}))"
  using hard_constraints_run [OF assms, of e] hard_passes [OF assms, of e]
  by (auto simp: list_all_iff failure_ok_def)

definition sample_hard_constraints :: hard_constraints where
  "sample_hard_constraints = \<lparr>hc_minimum_input_context_tokens = Some 500000,
     hc_minimum_output_tokens = Some 16000, hc_requires_tool_use = True, hc_requires_vision = True,
     hc_requires_reasoning_mode = False, hc_required_provider = Some ''zai'',
     hc_required_model = None, hc_required_variant = Some ''turbo'', hc_privacy_constraint = Some ''eu''\<rparr>"

theorem hard_constraints_exact_witness:
  "\<exists>fs. evaluate_hard_constraints sample_hard_constraints (sample_entry ''m-one'' 4 None) = Inr fs
     \<and> map hf_constraint fs = [Hn_input, Hn_vision, Hn_variant]"
proof -
  have "valid_hard_constraints sample_hard_constraints" by code_simp
  moreover have "filter (\<lambda>c. \<not> meets c sample_hard_constraints (sample_entry ''m-one'' 4 None))
      HARD_CONSTRAINT_NAMES = [Hn_input, Hn_vision, Hn_variant]" by code_simp
  ultimately show ?thesis
    using hard_constraints_exact [of sample_hard_constraints "sample_entry ''m-one'' 4 None"] by auto
qed

text \<open>
  capability sufficiency never compensates. On valid inputs it is total and names exactly the
  required dimensions whose effective rating is unknown or below the minimum, so it passes iff
  every required dimension passes on its own; a human override replaces the rating it is on. The
  retired margin helper never returns a score.
\<close>

theorem capability_sufficiency_exact:
  assumes "valid_minima m" and "valid_assessments v"
  shows "(\<exists>fs. evaluate_capability_sufficiency m v = Inr fs
      \<and> map cf_dimension fs
          = map fst (filter (\<lambda>(d, required). \<not> at_least required (rating_in v d)) (minima_items m))
      \<and> (fs = [] \<longleftrightarrow> meets_minima m v))
    \<and> (\<forall>d a h. map_of (assessment_items v) d = Some a \<and> as_human_override a = Some h \<longrightarrow>
         rating_in v d = Some (ho_rating h))
    \<and> \<not> is_ok (capability_margin m v)"
  using capability_run [OF assms] capability_passes [OF assms]
  by (auto simp: rating_in_def effective_rating_def capability_margin_def)

definition sample_minima :: "int \<Rightarrow> capability_minima" where
  "sample_minima n = \<lparr>cm_reasoning = Some n, cm_coding = None, cm_scientific_methodological = Some 1,
     cm_writing_editorial = None, cm_tool_use = Some 2, cm_translation_multilingual = None\<rparr>"

theorem capability_sufficiency_exact_witness:
  "\<exists>fs. evaluate_capability_sufficiency (sample_minima 5) (sample_capabilities 4) = Inr fs
     \<and> map cf_dimension fs = [''reasoning'', ''scientific_methodological'']"
proof -
  have "valid_minima (sample_minima 5)" "valid_assessments (sample_capabilities 4)" by code_simp+
  moreover have "map fst (filter (\<lambda>(d, required). \<not> at_least required (rating_in (sample_capabilities 4) d))
      (minima_items (sample_minima 5))) = [''reasoning'', ''scientific_methodological'']" by code_simp
  ultimately show ?thesis
    using capability_sufficiency_exact [of "sample_minima 5" "sample_capabilities 4"] by metis
qed

lemma tighten_requirement_run:
  assumes "valid_requirement b" and "valid_requirement x"
  shows "tighten_requirement b x = Inr r \<longleftrightarrow>
      tr_task_level b \<le> tr_task_level x
      \<and> minima_no_looser (tr_capability_minima b) (tr_capability_minima x)
      \<and> hard_no_looser (tr_hard_constraints b) (tr_hard_constraints x)
      \<and> one_provider (merged_hard (tr_hard_constraints b) (tr_hard_constraints x))
      \<and> r = \<lparr>tr_task_level = tr_task_level x,
              tr_capability_minima = merged_minima (tr_capability_minima b) (tr_capability_minima x),
              tr_hard_constraints = merged_hard (tr_hard_constraints b) (tr_hard_constraints x)\<rparr>"
proof -
  have v: "valid_minima (tr_capability_minima b)" "valid_minima (tr_capability_minima x)"
    "valid_hard_constraints (tr_hard_constraints b)" "valid_hard_constraints (tr_hard_constraints x)"
    using assms by (simp_all add: valid_requirement_def)
  show ?thesis
    by (auto simp: tighten_requirement_def bind_r_Inr_iff tighten_minima_Inr(1) [OF v(1,2)]
        tighten_hard_Inr(1) [OF v(3,4)] mk_requirement_def less_eq_task_level_def)
qed

definition requirement_met :: "task_requirement \<Rightarrow> model_catalog_entry \<Rightarrow> bool" where
  "requirement_met r e =
     (evaluate_hard_constraints (tr_hard_constraints r) e = Inr []
      \<and> evaluate_capability_sufficiency (tr_capability_minima r) (ce_capabilities e) = Inr [])"

lemma tightened_requirement:
  assumes "valid_requirement b" and "valid_requirement x" and "tighten_requirement b x = Inr r"
  shows "valid_requirement r" and "tr_task_level r = tr_task_level x"
    and "evaluate_hard_constraints (tr_hard_constraints r) e = Inr [] \<longleftrightarrow>
           evaluate_hard_constraints (tr_hard_constraints b) e = Inr []
           \<and> evaluate_hard_constraints (tr_hard_constraints x) e = Inr []"
    and "valid_assessments v \<Longrightarrow>
           evaluate_capability_sufficiency (tr_capability_minima r) v = Inr [] \<longleftrightarrow>
           evaluate_capability_sufficiency (tr_capability_minima b) v = Inr []
           \<and> evaluate_capability_sufficiency (tr_capability_minima x) v = Inr []"
proof -
  have v: "valid_minima (tr_capability_minima b)" "valid_minima (tr_capability_minima x)"
    "valid_hard_constraints (tr_hard_constraints b)" "valid_hard_constraints (tr_hard_constraints x)"
    using assms(1,2) by (simp_all add: valid_requirement_def)
  note facts = assms(3) [unfolded tighten_requirement_run [OF assms(1,2)]]
    tighten_minima_Inr(2) [OF v(1,2)] tighten_hard_Inr(2) [OF v(3,4)] v
  show "valid_requirement r" "tr_task_level r = tr_task_level x"
    "evaluate_hard_constraints (tr_hard_constraints r) e = Inr [] \<longleftrightarrow>
       evaluate_hard_constraints (tr_hard_constraints b) e = Inr []
       \<and> evaluate_hard_constraints (tr_hard_constraints x) e = Inr []"
    using facts by (auto simp: valid_requirement_def hard_passes meets_merged_hard)
  show "valid_assessments v \<Longrightarrow>
       evaluate_capability_sufficiency (tr_capability_minima r) v = Inr [] \<longleftrightarrow>
       evaluate_capability_sufficiency (tr_capability_minima b) v = Inr []
       \<and> evaluate_capability_sufficiency (tr_capability_minima x) v = Inr []"
    using facts by (auto simp: valid_requirement_def capability_passes meets_merged_minima)
qed

text \<open>
  C35: tightening only tightens. The merge fails exactly when the explicit requirement lowers the
  level or a minimum, contradicts an identity or privacy constraint, or when the merged provider
  and model disagree; otherwise the result is a valid requirement at the explicit level that a
  candidate passes iff it passes both requirements, by the evaluators themselves.
\<close>

theorem tighten_requirement_monotone:
  assumes "valid_requirement b" and "valid_requirement x"
  shows "(is_ok (tighten_requirement b x) \<longleftrightarrow>
      tr_task_level b \<le> tr_task_level x
      \<and> minima_no_looser (tr_capability_minima b) (tr_capability_minima x)
      \<and> hard_no_looser (tr_hard_constraints b) (tr_hard_constraints x)
      \<and> one_provider (merged_hard (tr_hard_constraints b) (tr_hard_constraints x)))
    \<and> (\<forall>r. tighten_requirement b x = Inr r \<longrightarrow>
         valid_requirement r \<and> tr_task_level r = tr_task_level x
         \<and> (\<forall>e. evaluate_hard_constraints (tr_hard_constraints r) e = Inr [] \<longleftrightarrow>
               evaluate_hard_constraints (tr_hard_constraints b) e = Inr []
               \<and> evaluate_hard_constraints (tr_hard_constraints x) e = Inr [])
         \<and> (\<forall>v. valid_assessments v \<longrightarrow>
               evaluate_capability_sufficiency (tr_capability_minima r) v = Inr [] \<longleftrightarrow>
               evaluate_capability_sufficiency (tr_capability_minima b) v = Inr []
               \<and> evaluate_capability_sufficiency (tr_capability_minima x) v = Inr []))"
proof (intro conjI allI)
  show "is_ok (tighten_requirement b x) \<longleftrightarrow>
      tr_task_level b \<le> tr_task_level x
      \<and> minima_no_looser (tr_capability_minima b) (tr_capability_minima x)
      \<and> hard_no_looser (tr_hard_constraints b) (tr_hard_constraints x)
      \<and> one_provider (merged_hard (tr_hard_constraints b) (tr_hard_constraints x))"
    by (auto simp: is_ok_iff tighten_requirement_run [OF assms])
qed (use tightened_requirement [OF assms] in blast)

definition sample_requirement :: "task_level \<Rightarrow> int \<Rightarrow> task_requirement" where
  "sample_requirement level n = \<lparr>tr_task_level = level, tr_capability_minima =
       (sample_minima n)\<lparr>cm_scientific_methodological := None\<rparr>,
     tr_hard_constraints = sample_hard_constraints\<lparr>hc_minimum_input_context_tokens := Some 1000,
       hc_requires_vision := False, hc_required_variant := None\<rparr>\<rparr>"

lemma sample_requirement_valid:
  "valid_requirement (sample_requirement L2 3)" "valid_requirement (sample_requirement L3 4)"
  by code_simp+

theorem tighten_requirement_monotone_witness:
  "is_ok (tighten_requirement (sample_requirement L2 3) (sample_requirement L3 4))
   \<and> \<not> is_ok (tighten_requirement (sample_requirement L3 4) (sample_requirement L2 3))"
proof -
  let ?b = "sample_requirement L2 3" and ?x = "sample_requirement L3 4"
  have "tr_task_level ?b \<le> tr_task_level ?x
      \<and> minima_no_looser (tr_capability_minima ?b) (tr_capability_minima ?x)
      \<and> hard_no_looser (tr_hard_constraints ?b) (tr_hard_constraints ?x)
      \<and> one_provider (merged_hard (tr_hard_constraints ?b) (tr_hard_constraints ?x))"
    by code_simp
  moreover have "\<not> tr_task_level ?x \<le> tr_task_level ?b" by code_simp
  ultimately show ?thesis
    using tighten_requirement_monotone [OF sample_requirement_valid]
      tighten_requirement_monotone [OF sample_requirement_valid(2,1)] by blast
qed

end
