(* ===== verification/Selector_Eval.thy ===== *)
theory Selector_Eval
  imports Selector_Match
begin

text \<open>
  selector.py, one candidate: the structured candidate evaluation, the frozen candidate pipeline
  (execution eligibility, blackout, hard constraints, capability, capacity, reservations, happy
  hour, short-window advisory) and the balanced ranking key.
\<close>

section \<open>The candidate evaluation\<close>

record replenishment_evaluation =
  re_state :: replenishment_state
  re_decision :: replenishment_decision

definition replenishment_evaluation_to_dict :: "replenishment_evaluation \<Rightarrow> pyval" where
  "replenishment_evaluation_to_dict r =
     obj [(''state'', Some (replenishment_state_to_dict (re_state r))),
          (''decision'', Some (replenishment_decision_to_dict (re_decision r)))]"

record candidate_evaluation =
  cv_identity :: model_identity
  cv_display_name :: string
  cv_eligible :: bool
  cv_reasoning_effort :: "reasoning_effort option"
  cv_degraded :: bool
  cv_exclusion_stage :: "exclusion_stage option"
  cv_execution_eligibility :: "execution_eligibility option"
  cv_hard_failures :: "hard_failure list"
  cv_capability_failures :: "capability_failure list"
  cv_capability_margin :: "int option"
  cv_blackout_decision :: "blackout_decision option"
  cv_happy_hour_decision :: "happy_hour_decision option"
  cv_scarcity_assessment :: "scarcity_assessment option"
  cv_unknown_decision :: "unknown_decision option"
  cv_reservation_decisions :: "reservation_decision list"
  cv_replenishment_evaluations :: "replenishment_evaluation list"
  cv_reason_codes :: "selection_reason list"
  cv_short_window_below_floor :: bool

definition check_short_window :: "candidate_evaluation \<Rightarrow> unit result" where
  "check_short_window c =
     (if \<not> cv_short_window_below_floor c then Inr ()
      else if \<not> cv_eligible c then Inl (sel_exn ''candidate_evaluation'')
      else case cv_scarcity_assessment c of
             None \<Rightarrow> Inl (sel_exn ''candidate_evaluation'')
           | Some a \<Rightarrow>
               if sa_state a \<noteq> Sc_known \<or> sa_tactical_window a = None
               then Inl (sel_exn ''candidate_evaluation'') else Inr ())"

definition check_degraded :: "candidate_evaluation \<Rightarrow> unit result" where
  "check_degraded c =
     (if \<not> cv_degraded c then Inr ()
      else case cv_unknown_decision c of
             None \<Rightarrow> Inl (sel_exn ''candidate_evaluation'')
           | Some u \<Rightarrow> if \<not> uc_degraded u then Inl (sel_exn ''candidate_evaluation'') else Inr ())"

definition check_exclusion :: "candidate_evaluation \<Rightarrow> candidate_evaluation result" where
  "check_exclusion c =
     (let err = Inl (sel_exn ''candidate_evaluation'') in
      case cv_exclusion_stage c of
        None \<Rightarrow>
          (if \<not> cv_eligible c then err
           else if cv_reason_codes c \<noteq> [] then err
           else if cv_hard_failures c \<noteq> [] \<or> cv_capability_failures c \<noteq> [] then err
           else Inr c)
      | Some stage \<Rightarrow>
          (if cv_eligible c then err
           else
             bind_r (v_selection_codes (cv_reason_codes c) ''candidate_evaluation.reason_codes'') (\<lambda>codes.
               if codes = [] then err
               else if set (stage_reasons stage) \<inter> set codes = {} then err
               else Inr (c\<lparr>cv_reason_codes := codes\<rparr>))))"

definition mk_candidate :: "candidate_evaluation \<Rightarrow> candidate_evaluation result" where
  "mk_candidate c =
     bind_r (v_nonempty_str sel_exn (PStr (cv_display_name c)) ''candidate_evaluation.display_name'') (\<lambda>_.
     bind_r (v_opt (v_int sel_exn (Some 0) None) (opt_py PInt (cv_capability_margin c))
               ''candidate_evaluation.capability_margin'') (\<lambda>_.
     bind_r (guard_r (cv_execution_eligibility c = None \<or> cv_exclusion_stage c = Some Xs_execution)
               (sel_exn ''candidate_evaluation'')) (\<lambda>_.
     bind_r (guard_r (case cv_happy_hour_decision c of
                        None \<Rightarrow> True | Some d \<Rightarrow> hh_preferred d \<and> cv_eligible c)
               (sel_exn ''candidate_evaluation'')) (\<lambda>_.
     bind_r (check_short_window c) (\<lambda>_.
     bind_r (check_degraded c) (\<lambda>_.
       check_exclusion c))))))"

definition nonempty_list :: "('a \<Rightarrow> pyval) \<Rightarrow> 'a list \<Rightarrow> pyval option" where
  "nonempty_list f xs = (if xs = [] then None else Some (PList (map f xs)))"

definition candidate_to_dict :: "candidate_evaluation \<Rightarrow> pyval" where
  "candidate_to_dict c =
     obj [(''identity'', Some (identity_to_dict (cv_identity c))),
          (''display_name'', Some (PStr (cv_display_name c))),
          (''reasoning_effort'', Some (opt_py (\<lambda>r. PStr (effort_str r)) (cv_reasoning_effort c))),
          (''eligible'', Some (PBool (cv_eligible c))),
          (''degraded'', Some (PBool (cv_degraded c))),
          (''exclusion_stage'', map_option (\<lambda>s. PStr (stage_str s)) (cv_exclusion_stage c)),
          (''execution_eligibility'', map_option eligibility_to_dict (cv_execution_eligibility c)),
          (''hard_constraint_failures'', nonempty_list hard_failure_to_dict (cv_hard_failures c)),
          (''capability_failures'', nonempty_list capability_failure_to_dict (cv_capability_failures c)),
          (''capability_margin'', map_option PInt (cv_capability_margin c)),
          (''blackout_decision'', map_option blackout_decision_to_dict (cv_blackout_decision c)),
          (''happy_hour_decision'', map_option happy_hour_decision_to_dict (cv_happy_hour_decision c)),
          (''scarcity_assessment'', map_option scarcity_to_dict (cv_scarcity_assessment c)),
          (''unknown_capacity_decision'', map_option unknown_decision_to_dict (cv_unknown_decision c)),
          (''reservation_decisions'',
             nonempty_list reservation_decision_to_dict (cv_reservation_decisions c)),
          (''replenishment_evaluations'',
             nonempty_list replenishment_evaluation_to_dict (cv_replenishment_evaluations c)),
          (''reason_codes'',
             nonempty_list (\<lambda>r. PStr (selection_reason_str r)) (cv_reason_codes c)),
          (''short_window_below_floor'', true_flag (cv_short_window_below_floor c))]"

section \<open>The candidate pipeline\<close>

definition candidate_base :: "model_catalog_entry \<Rightarrow> candidate_evaluation" where
  \<comment> \<open>the constructor call's identity arguments and the class defaults, not eligible\<close>
  "candidate_base e =
     \<lparr>cv_identity = ce_identity e, cv_display_name = ce_display_name e, cv_eligible = False,
       cv_reasoning_effort = ce_reasoning_effort e, cv_degraded = False, cv_exclusion_stage = None,
       cv_execution_eligibility = None, cv_hard_failures = [], cv_capability_failures = [],
       cv_capability_margin = None, cv_blackout_decision = None, cv_happy_hour_decision = None,
       cv_scarcity_assessment = None, cv_unknown_decision = None, cv_reservation_decisions = [],
       cv_replenishment_evaluations = [], cv_reason_codes = [], cv_short_window_below_floor = False\<rparr>"

definition recoverable_evaluation :: "replenishment_evaluation \<Rightarrow> bool" where
  "recoverable_evaluation r =
     (rn_recoverable (re_decision r) \<and> rn_human_action_required (re_decision r))"

definition replenishment_evaluations_for ::
  "replenishment_mode \<Rightarrow> string \<Rightarrow> replenishment_state list \<Rightarrow> replenishment_evaluation list result" where
  "replenishment_evaluations_for mode provider states =
     traverse (\<lambda>s. bind_r (apply_replenishment_mode mode (Some s)) (\<lambda>d.
         Inr \<lparr>re_state = s, re_decision = d\<rparr>))
       (filter (\<lambda>s. rp_provider s = provider) states)"

definition applicable_reservations ::
  "capacity_scope_ref list option \<Rightarrow> reservation_rule list \<Rightarrow> reservation_rule list" where
  "applicable_reservations bindings rules =
     (case bindings of
        None \<Rightarrow> []
      | Some bs \<Rightarrow> filter (\<lambda>r. scope_key (rr_scope r) \<in> set (map scope_key bs)) rules)"

fun reservation_primary :: "selection_reason option \<Rightarrow> reservation_decision list \<Rightarrow> selection_reason option" where
  \<comment> \<open>the fail-closed loop: unknown leaves it, a block is remembered\<close>
  "reservation_primary acc [] = acc"
| "reservation_primary acc (d # ds) =
     (if rd_state d = Rs_unknown then Some Se_reservation_unknown
      else if rd_blocked d = Some True then reservation_primary (Some Se_reservation_blocked) ds
      else reservation_primary acc ds)"

definition tactical_below :: "scarcity_assessment \<Rightarrow> int \<Rightarrow> bool" where
  "tactical_below a floor =
     (sa_state a = Sc_known
      \<and> (case sa_tactical_window a of None \<Rightarrow> False | Some g \<Rightarrow> gw_remaining_percent g < floor))"

definition happy_hour_for ::
  "zones \<Rightarrow> user_policy \<Rightarrow> model_identity \<Rightarrow> py_datetime \<Rightarrow> happy_hour_decision option result" where
  "happy_hour_for zs p i at =
     (if up_happy_hours p = [] then Inr None
      else bind_r (policy_happy_hours zs p i at) (\<lambda>d. Inr (if hh_preferred d then Some d else None)))"

definition evaluate_capacity ::
  "zones \<Rightarrow> model_catalog_entry \<Rightarrow> task_requirement \<Rightarrow> selector_policy \<Rightarrow> capacity_snapshot list \<Rightarrow>
   replenishment_state list \<Rightarrow> py_datetime \<Rightarrow> candidate_evaluation result" where
  \<comment> \<open>\<open>_evaluate_candidate\<close> from the scarcity assessment on\<close>
  "evaluate_capacity zs e req policy snapshots states at =
     (let rp = sp_resource_policy policy in
      bind_r (assess_scarcity e snapshots) (\<lambda>scarcity.
      bind_r (policy_apply_unknown rp scarcity) (\<lambda>unknown.
      bind_r (replenishment_evaluations_for (up_replenishment_mode rp) (mi_provider (ce_identity e)) states) (\<lambda>evals.
      let recoverable = list_ex recoverable_evaluation evals;
          measured = (candidate_base e)\<lparr>cv_scarcity_assessment := Some scarcity,
            cv_unknown_decision := Some unknown, cv_replenishment_evaluations := evals\<rparr> in
      if \<not> uc_eligible unknown then
        (let primary = (if sa_state scarcity = Sc_unavailable then Se_capacity_unavailable
                        else Se_capacity_unknown);
             codes = [primary] @ (if sa_state scarcity = Sc_unavailable \<and> recoverable
                                  then [Se_recoverable] else []) in
         mk_candidate (measured\<lparr>cv_exclusion_stage := Some Xs_capacity,
           cv_reason_codes := sort_key selection_reason_str codes\<rparr>))
      else
        bind_r (traverse (\<lambda>r. evaluate_reservation r snapshots (tr_task_level req))
                  (applicable_reservations (ce_capacity_bindings e) (up_reservations rp))) (\<lambda>reservations.
        let reserved = measured\<lparr>cv_reservation_decisions := reservations\<rparr> in
        case reservation_primary None reservations of
          Some primary \<Rightarrow>
            mk_candidate (reserved\<lparr>cv_exclusion_stage := Some Xs_reservation, cv_reason_codes := [primary]\<rparr>)
        | None \<Rightarrow>
            bind_r (happy_hour_for zs rp (ce_identity e) at) (\<lambda>happy.
              mk_candidate (reserved\<lparr>cv_eligible := True, cv_degraded := uc_degraded unknown,
                cv_happy_hour_decision := happy,
                cv_short_window_below_floor :=
                  tactical_below scarcity (resolved_short_window_floor policy)\<rparr>)))))))"

definition evaluate_admission ::
  "zones \<Rightarrow> model_catalog_entry \<Rightarrow> task_requirement \<Rightarrow> selector_policy \<Rightarrow> capacity_snapshot list \<Rightarrow>
   replenishment_state list \<Rightarrow> py_datetime \<Rightarrow> model_identity set option \<Rightarrow> candidate_evaluation result" where
  \<comment> \<open>\<open>_evaluate_candidate\<close> after the execution gate: blackout, hard constraints, capability\<close>
  "evaluate_admission zs e req policy snapshots states at blocked =
     (let i = ce_identity e; base = candidate_base e in
      if i \<in> (case blocked of None \<Rightarrow> {} | Some B \<Rightarrow> B) then
        mk_candidate (base\<lparr>cv_exclusion_stage := Some Xs_policy_blackout,
          cv_reason_codes := [Se_policy_blocked]\<rparr>)
      else
        bind_r (policy_blackouts zs (sp_resource_policy policy) i at) (\<lambda>blackout.
        if bd_blocked blackout then
          mk_candidate (base\<lparr>cv_exclusion_stage := Some Xs_policy_blackout,
            cv_blackout_decision := Some blackout, cv_reason_codes := [Se_policy_blocked]\<rparr>)
        else
          bind_r (evaluate_hard_constraints (tr_hard_constraints req) e) (\<lambda>hard.
          if hard \<noteq> [] then
            mk_candidate (base\<lparr>cv_exclusion_stage := Some Xs_hard_constraint,
              cv_hard_failures := hard, cv_reason_codes := [Se_hard_failed]\<rparr>)
          else
            bind_r (evaluate_capability_sufficiency (tr_capability_minima req) (ce_capabilities e)) (\<lambda>caps.
            if caps \<noteq> [] then
              mk_candidate (base\<lparr>cv_exclusion_stage := Some Xs_capability,
                cv_capability_failures := caps, cv_reason_codes := [Se_capability_failed]\<rparr>)
            else evaluate_capacity zs e req policy snapshots states at))))"

definition evaluate_candidate ::
  "zones \<Rightarrow> model_catalog_entry \<Rightarrow> task_requirement \<Rightarrow> selector_policy \<Rightarrow> capacity_snapshot list \<Rightarrow>
   replenishment_state list \<Rightarrow> py_datetime \<Rightarrow> execution_eligibility list \<Rightarrow>
   model_identity set option \<Rightarrow> candidate_evaluation result" where
  "evaluate_candidate zs e req policy snapshots states at reports blocked =
     (case find (\<lambda>r. ee_provider r = mi_provider (ce_identity e)) reports of
        Some report \<Rightarrow>
          if ee_state report \<noteq> Es_eligible then
            bind_r (eligibility_primary (ee_state report)) (\<lambda>primary.
              mk_candidate ((candidate_base e)\<lparr>cv_exclusion_stage := Some Xs_execution,
                cv_execution_eligibility := Some report, cv_reason_codes := [primary]\<rparr>))
          else evaluate_admission zs e req policy snapshots states at blocked
      | None \<Rightarrow> evaluate_admission zs e req policy snapshots states at blocked)"

section \<open>The ranking key\<close>

fun index_from :: "nat \<Rightarrow> model_identity list \<Rightarrow> model_identity \<Rightarrow> nat option" where
  "index_from n [] i = None"
| "index_from n (p # ps) i =
     (if identity_key p = identity_key i then Some n else index_from (Suc n) ps i)"

definition preference_key :: "model_identity list \<Rightarrow> model_identity \<Rightarrow> int \<times> int" where
  "preference_key order i = (case index_from 0 order i of Some n \<Rightarrow> (0, int n) | None \<Rightarrow> (1, 0))"

type_synonym ranking_key =
  "int \<times> int \<times> int \<times> (int \<times> int list) \<times> int \<times> int \<times> string \<times> string \<times> string"

definition effort_key :: "reasoning_effort option \<Rightarrow> int \<times> int list" where
  \<comment> \<open>\<open>_EffortState.KNOWN\<close> is 0, \<open>UNCONFIGURED\<close> is 1\<close>
  "effort_key effort = (case effort of None \<Rightarrow> (1, []) | Some r \<Rightarrow> (0, [effort_index r]))"

definition candidate_ranking_key ::
  "candidate_evaluation \<Rightarrow> model_identity list \<Rightarrow> reasoning_effort option \<Rightarrow> ranking_key" where
  "candidate_ranking_key c order effort =
     (let (capacity_class, penalty) =
            (case cv_scarcity_assessment c of
               Some a \<Rightarrow>
                 (case sa_penalty_units a of
                    Some units \<Rightarrow> if sa_state a = Sc_known then (0, units) else (1, 0)
                  | None \<Rightarrow> (1, 0))
             | None \<Rightarrow> (1, 0));
          happy_class = (if cv_happy_hour_decision c \<noteq> None then 0 else 1);
          (preference_class, preference_index) = preference_key order (cv_identity c);
          i = cv_identity c in
      (capacity_class, happy_class, penalty, effort_key effort, preference_class, preference_index,
       mi_provider i, mi_model i, mi_variant i))"

section \<open>The invariant of candidate evaluations\<close>

definition candidate_ok :: "candidate_evaluation \<Rightarrow> bool" where
  "candidate_ok c =
     (cv_display_name c \<noteq> [] \<and> pred_option (\<lambda>n. 0 \<le> n) (cv_capability_margin c)
      \<and> (cv_execution_eligibility c = None \<or> cv_exclusion_stage c = Some Xs_execution)
      \<and> pred_option (\<lambda>d. hh_preferred d \<and> cv_eligible c) (cv_happy_hour_decision c)
      \<and> (cv_short_window_below_floor c \<longrightarrow> cv_eligible c \<and> cv_scarcity_assessment c \<noteq> None
          \<and> pred_option (\<lambda>a. sa_state a = Sc_known \<and> sa_tactical_window a \<noteq> None) (cv_scarcity_assessment c))
      \<and> (cv_degraded c \<longrightarrow> cv_unknown_decision c \<noteq> None \<and> pred_option uc_degraded (cv_unknown_decision c))
      \<and> distinct (cv_reason_codes c) \<and> sorted (map selection_reason_str (cv_reason_codes c))
      \<and> (case cv_exclusion_stage c of
           None \<Rightarrow> cv_eligible c \<and> cv_reason_codes c = [] \<and> cv_hard_failures c = []
             \<and> cv_capability_failures c = []
         | Some stage \<Rightarrow> \<not> cv_eligible c \<and> set (stage_reasons stage) \<inter> set (cv_reason_codes c) \<noteq> {}))"

lemma check_short_window_Inr:
  "check_short_window c = Inr u \<longleftrightarrow>
     (cv_short_window_below_floor c \<longrightarrow> cv_eligible c \<and> cv_scarcity_assessment c \<noteq> None
      \<and> pred_option (\<lambda>a. sa_state a = Sc_known \<and> sa_tactical_window a \<noteq> None) (cv_scarcity_assessment c))"
  by (cases "cv_scarcity_assessment c") (auto simp: check_short_window_def)

lemma check_degraded_Inr:
  "check_degraded c = Inr u \<longleftrightarrow>
     (cv_degraded c \<longrightarrow> cv_unknown_decision c \<noteq> None \<and> pred_option uc_degraded (cv_unknown_decision c))"
  by (cases "cv_unknown_decision c") (auto simp: check_degraded_def)

lemma happy_guard:
  "(case d of None \<Rightarrow> True | Some x \<Rightarrow> hh_preferred x \<and> b) = pred_option (\<lambda>x. hh_preferred x \<and> b) d"
  by (cases d) auto

lemma mk_candidate_steps:
  "mk_candidate c = Inr c' \<longleftrightarrow>
     cv_display_name c \<noteq> [] \<and> pred_option (\<lambda>n. 0 \<le> n) (cv_capability_margin c)
     \<and> (cv_execution_eligibility c = None \<or> cv_exclusion_stage c = Some Xs_execution)
     \<and> pred_option (\<lambda>x. hh_preferred x \<and> cv_eligible c) (cv_happy_hour_decision c)
     \<and> check_short_window c = Inr () \<and> check_degraded c = Inr () \<and> check_exclusion c = Inr c'"
  unfolding mk_candidate_def bind_r_Inr_iff guard_r_Inr_iff v_nonempty_str_Inr v_opt_int happy_guard
  by auto

lemma mk_candidateI:
  assumes "candidate_ok c"
  shows "mk_candidate c = Inr c"
proof -
  have "check_exclusion c = Inr c"
    using assms by (cases "cv_exclusion_stage c")
      (auto simp: check_exclusion_def candidate_ok_def Let_def v_selection_codes_def)
  then show ?thesis
    using assms unfolding mk_candidate_steps check_short_window_Inr check_degraded_Inr candidate_ok_def
    by blast
qed

lemma mk_candidate_ok:
  assumes "mk_candidate c = Inr c'"
  shows "candidate_ok c'"
proof (cases "cv_exclusion_stage c")
  case None
  with assms have "c' = c" "candidate_ok c"
    unfolding mk_candidate_steps check_short_window_Inr check_degraded_Inr
    by (auto simp: check_exclusion_def candidate_ok_def Let_def split: if_splits)
  then show ?thesis by simp
next
  case (Some stage)
  with assms show ?thesis
    unfolding mk_candidate_steps check_short_window_Inr check_degraded_Inr
    by (auto simp: check_exclusion_def candidate_ok_def Let_def bind_r_Inr_iff v_selection_codes_Inr
        split: if_splits)
qed

section \<open>The six gates\<close>

text \<open>
  The inputs of one selection, and for each stage what it means that a catalog entry passes it.
\<close>

record selection_input =
  si_requirement :: task_requirement
  si_policy :: selector_policy
  si_snapshots :: "capacity_snapshot list"
  si_states :: "replenishment_state list"
  si_instant :: int
  si_reports :: "execution_eligibility list"
  si_blocked :: "model_identity set option"

definition valid_input :: "zones \<Rightarrow> selection_input \<Rightarrow> bool" where
  "valid_input zs x =
     (valid_requirement (si_requirement x) \<and> valid_selector_policy zs (si_policy x)
      \<and> list_all valid_snapshot (si_snapshots x) \<and> list_all valid_replenishment_state (si_states x)
      \<and> list_all valid_eligibility (si_reports x))"

definition evaluate_with :: "zones \<Rightarrow> selection_input \<Rightarrow> model_catalog_entry \<Rightarrow> candidate_evaluation result" where
  "evaluate_with zs x e =
     evaluate_candidate zs e (si_requirement x) (si_policy x) (si_snapshots x) (si_states x)
       (Aware (si_instant x)) (si_reports x) (si_blocked x)"

definition entry_assessment :: "selection_input \<Rightarrow> model_catalog_entry \<Rightarrow> scarcity_assessment" where
  "entry_assessment x e = assessment_of (snapshot_map (si_snapshots x)) (ce_capacity_bindings e)"

definition si_resource :: "selection_input \<Rightarrow> user_policy" where
  "si_resource x = sp_resource_policy (si_policy x)"

definition reservation_excludes :: "reservation_rule \<Rightarrow> int option \<Rightarrow> task_level \<Rightarrow> bool" where
  \<comment> \<open>fail closed: a reservation that cannot be read excludes\<close>
  "reservation_excludes rule reading level =
     (case reading of
        None \<Rightarrow> True
      | Some least \<Rightarrow> least < rr_when_remaining_below rule \<and> level < rr_minimum_task_level rule)"

definition entry_reservations :: "selection_input \<Rightarrow> model_catalog_entry \<Rightarrow> reservation_rule list" where
  "entry_reservations x e =
     filter (\<lambda>r. \<exists>bs \<in> set_option (ce_capacity_bindings e). rr_scope r \<in> set bs)
       (up_reservations (si_resource x))"

fun gate :: "zones \<Rightarrow> selection_input \<Rightarrow> model_catalog_entry \<Rightarrow> exclusion_stage \<Rightarrow> bool" where
  "gate zs x e Xs_execution =
     (\<forall>r \<in> set_option (find (\<lambda>r. ee_provider r = mi_provider (ce_identity e)) (si_reports x)).
        ee_state r = Es_eligible)"
| "gate zs x e Xs_policy_blackout =
     (\<not> (\<exists>B \<in> set_option (si_blocked x). ce_identity e \<in> B)
      \<and> \<not> (\<exists>r \<in> set (up_blackouts (si_resource x)). rule_covers zs r (ce_identity e) (si_instant x)))"
| "gate zs x e Xs_hard_constraint = meets_hard (tr_hard_constraints (si_requirement x)) e"
| "gate zs x e Xs_capability =
     meets_minima (tr_capability_minima (si_requirement x)) (ce_capabilities e)"
| "gate zs x e Xs_capacity =
     (let st = sa_state (entry_assessment x e) in
      st = Sc_known \<or> st = Sc_unknown \<and> up_unknown_capacity_mode (si_resource x) = Um_degraded)"
| "gate zs x e Xs_reservation =
     (\<forall>r \<in> set (entry_reservations x e).
        \<not> reservation_excludes r (reservation_reading r (si_snapshots x)) (tr_task_level (si_requirement x)))"

definition first_failed :: "zones \<Rightarrow> selection_input \<Rightarrow> model_catalog_entry \<Rightarrow> exclusion_stage option" where
  "first_failed zs x e = find (\<lambda>s. \<not> gate zs x e s) EXCLUSION_STAGES"

definition gates_open :: "zones \<Rightarrow> selection_input \<Rightarrow> model_catalog_entry \<Rightarrow> bool" where
  "gates_open zs x e = list_all (gate zs x e) EXCLUSION_STAGES"

lemma first_failed_None: "first_failed zs x e = None \<longleftrightarrow> gates_open zs x e"
  by (auto simp: first_failed_def gates_open_def find_None_iff list_all_iff)

section \<open>The pipeline implements the gates\<close>

definition recoverable_now :: "selection_input \<Rightarrow> model_catalog_entry \<Rightarrow> bool" where
  "recoverable_now x e =
     (up_replenishment_mode (si_resource x) = Rm_recoverable
      \<and> list_ex (\<lambda>s. rp_provider s = mi_provider (ce_identity e) \<and> rp_available_count s > 0) (si_states x))"

lemma traverse_exists:
  assumes "\<And>a. a \<in> set as \<Longrightarrow> \<exists>b. f a = Inr b \<and> Q a b"
  shows "\<exists>bs. traverse f as = Inr bs \<and> list_all2 Q as bs"
  using assms
proof (induction as)
  case (Cons a as)
  then obtain b bs where "f a = Inr b" "Q a b" "traverse f as = Inr bs" "list_all2 Q as bs" by force
  then show ?case by auto
qed simp

lemma replenishment_evaluations_run:
  assumes "list_all valid_replenishment_state states"
  shows "\<exists>evs. replenishment_evaluations_for mode provider states = Inr evs
    \<and> (list_ex recoverable_evaluation evs \<longleftrightarrow> mode = Rm_recoverable
        \<and> list_ex (\<lambda>s. rp_provider s = provider \<and> rp_available_count s > 0) states)"
proof -
  let ?Q = "\<lambda>s ev. recoverable_evaluation ev = (mode = Rm_recoverable \<and> rp_available_count s > 0)"
  have "\<exists>ev. bind_r (apply_replenishment_mode mode (Some s)) (\<lambda>d. Inr \<lparr>re_state = s, re_decision = d\<rparr>) = Inr ev
      \<and> ?Q s ev" if "s \<in> set (filter (\<lambda>s. rp_provider s = provider) states)" for s
  proof -
    from that assms have "valid_replenishment_state s" by (simp add: list_all_iff)
    from replenishment_run [OF this, of mode] show ?thesis
      by (elim exE) (simp add: recoverable_evaluation_def)
  qed
  then obtain evs where evs: "replenishment_evaluations_for mode provider states = Inr evs"
    "list_all2 ?Q (filter (\<lambda>s. rp_provider s = provider) states) evs"
    unfolding replenishment_evaluations_for_def
    using traverse_exists [of "filter (\<lambda>s. rp_provider s = provider) states"
        "\<lambda>s. bind_r (apply_replenishment_mode mode (Some s)) (\<lambda>d. Inr \<lparr>re_state = s, re_decision = d\<rparr>)" ?Q]
    by blast
  from evs(2) have "list_ex recoverable_evaluation evs
      = list_ex (\<lambda>s. mode = Rm_recoverable \<and> rp_available_count s > 0)
          (filter (\<lambda>s. rp_provider s = provider) states)"
    by (induction rule: list_all2_induct) auto
  with evs(1) show ?thesis by (auto simp: list_ex_iff)
qed

lemma reservation_primary_eq:
  "reservation_primary acc ds =
     (if list_ex (\<lambda>d. rd_state d = Rs_unknown) ds then Some Se_reservation_unknown
      else if list_ex (\<lambda>d. rd_blocked d = Some True) ds then Some Se_reservation_blocked else acc)"
  by (induction acc ds rule: reservation_primary.induct) auto

lemma outcome_excludes:
  "reservation_outcome r reading level d \<Longrightarrow>
   rd_state d = Rs_unknown \<or> rd_blocked d = Some True \<longleftrightarrow> reservation_excludes r reading level"
  by (cases reading) (auto simp: reservation_outcome_def reservation_excludes_def)

lemma applicable_reservations_eq:
  "applicable_reservations (ce_capacity_bindings e) (up_reservations (si_resource x)) = entry_reservations x e"
  by (cases "ce_capacity_bindings e")
    (auto simp: applicable_reservations_def entry_reservations_def intro!: filter_cong)

lemma reservations_run:
  assumes "list_all valid_reservation_rule rules" "list_all valid_snapshot ss" "distinct (map sn_provider ss)"
  shows "\<exists>ds. traverse (\<lambda>r. evaluate_reservation r ss level) rules = Inr ds
    \<and> (reservation_primary None ds = None
        \<longleftrightarrow> (\<forall>r \<in> set rules. \<not> reservation_excludes r (reservation_reading r ss) level))
    \<and> reservation_primary None ds \<in> {None, Some Se_reservation_unknown, Some Se_reservation_blocked}"
proof -
  let ?Q = "\<lambda>r d. rd_state d = Rs_unknown \<or> rd_blocked d = Some True
      \<longleftrightarrow> reservation_excludes r (reservation_reading r ss) level"
  have "\<exists>d. evaluate_reservation r ss level = Inr d \<and> ?Q r d" if "r \<in> set rules" for r
    using reservation_run [of r ss level] assms that by (auto simp: list_all_iff dest!: outcome_excludes)
  from traverse_exists [of rules "\<lambda>r. evaluate_reservation r ss level" ?Q, OF this]
  obtain ds where ds: "traverse (\<lambda>r. evaluate_reservation r ss level) rules = Inr ds" "list_all2 ?Q rules ds"
    by blast
  from ds(2) have "(\<forall>d \<in> set ds. rd_state d \<noteq> Rs_unknown \<and> rd_blocked d \<noteq> Some True)
      \<longleftrightarrow> (\<forall>r \<in> set rules. \<not> reservation_excludes r (reservation_reading r ss) level)"
    by (induction rule: list_all2_induct) auto
  with ds(1) show ?thesis by (auto simp: reservation_primary_eq list_ex_iff)
qed

lemma happy_hour_run:
  assumes "list_all (valid_weekly_rule zs) (up_happy_hours p)"
  shows "\<exists>h. happy_hour_for zs p i (Aware t) = Inr h \<and> pred_option hh_preferred h
    \<and> (h \<noteq> None \<longleftrightarrow> (\<exists>r \<in> set (up_happy_hours p). rule_covers zs r i t))"
proof (cases "find (\<lambda>r. rule_covers zs r i t) (up_happy_hours p)")
  case None
  then have "\<forall>r \<in> set (up_happy_hours p). \<not> rule_covers zs r i t" by (auto simp: find_None_iff)
  with None show ?thesis
    by (auto simp: happy_hour_for_def policy_happy_hours_def evaluate_happy_hours_find [OF assms])
next
  case (Some r)
  then have "r \<in> set (up_happy_hours p)" "rule_covers zs r i t" by (auto simp: find_Some_iff)
  with Some show ?thesis
    by (auto simp: happy_hour_for_def policy_happy_hours_def evaluate_happy_hours_find [OF assms])
qed

definition measured_stage :: "exclusion_stage option \<Rightarrow> bool" where
  \<comment> \<open>the pipeline came as far as the scarcity assessment\<close>
  "measured_stage s = (s \<in> {None, Some Xs_capacity, Some Xs_reservation})"

definition candidate_facts ::
  "zones \<Rightarrow> selection_input \<Rightarrow> model_catalog_entry \<Rightarrow> exclusion_stage option \<Rightarrow> candidate_evaluation \<Rightarrow> bool" where
  "candidate_facts zs x e stage c =
     (candidate_ok c \<and> cv_identity c = ce_identity e \<and> cv_display_name c = ce_display_name e
      \<and> cv_reasoning_effort c = ce_reasoning_effort e
      \<and> cv_exclusion_stage c = stage \<and> (cv_eligible c \<longleftrightarrow> stage = None)
      \<and> cv_scarcity_assessment c = (if measured_stage stage then Some (entry_assessment x e) else None)
      \<and> (cv_degraded c \<longleftrightarrow> stage = None \<and> sa_state (entry_assessment x e) = Sc_unknown)
      \<and> (cv_happy_hour_decision c \<noteq> None \<longleftrightarrow>
           stage = None \<and> (\<exists>r \<in> set (up_happy_hours (si_resource x)). rule_covers zs r (ce_identity e) (si_instant x)))
      \<and> (cv_short_window_below_floor c \<longleftrightarrow>
           stage = None \<and> tactical_below (entry_assessment x e) (resolved_short_window_floor (si_policy x)))
      \<and> (list_ex recoverable_evaluation (cv_replenishment_evaluations c) \<longleftrightarrow>
           measured_stage stage \<and> recoverable_now x e)
      \<and> (Se_recoverable \<in> set (cv_reason_codes c) \<longleftrightarrow>
           stage = Some Xs_capacity \<and> sa_state (entry_assessment x e) = Sc_unavailable \<and> recoverable_now x e))"

lemma valid_display_name: "valid_entry e \<Longrightarrow> ce_display_name e \<noteq> []"
  by (simp add: valid_entry_def entry_checks_def text_ok_def Let_def)

lemma valid_input_policy:
  assumes "valid_input zs x"
  shows "list_all valid_reservation_rule (up_reservations (si_resource x))"
    "list_all (valid_weekly_rule zs) (up_blackouts (si_resource x))"
    "list_all (valid_weekly_rule zs) (up_happy_hours (si_resource x))"
  using assms
  by (simp_all add: valid_input_def valid_selector_policy_def selector_policy_parts_def
      valid_user_policy_def policy_parts_def si_resource_def)

definition entry_unknown :: "selection_input \<Rightarrow> model_catalog_entry \<Rightarrow> unknown_decision" where
  "entry_unknown x e =
     unknown_decision_for (up_unknown_capacity_mode (si_resource x)) (sa_state (entry_assessment x e))"

definition measured ::
  "selection_input \<Rightarrow> model_catalog_entry \<Rightarrow> replenishment_evaluation list \<Rightarrow> candidate_evaluation" where
  "measured x e evs = (candidate_base e)\<lparr>cv_scarcity_assessment := Some (entry_assessment x e),
     cv_unknown_decision := Some (entry_unknown x e), cv_replenishment_evaluations := evs\<rparr>"

lemmas measured_simps = measured_def candidate_base_def

lemma capacity_starts:
  assumes valid: "valid_input zs x" "valid_entry e" and d: "distinct (map sn_provider (si_snapshots x))"
  shows "assess_scarcity e (si_snapshots x) = Inr (entry_assessment x e)"
    "policy_apply_unknown (si_resource x) (entry_assessment x e) = Inr (entry_unknown x e)"
    "uc_eligible (entry_unknown x e) \<longleftrightarrow> gate zs x e Xs_capacity"
    "uc_eligible (entry_unknown x e) \<Longrightarrow>
       uc_degraded (entry_unknown x e) \<longleftrightarrow> sa_state (entry_assessment x e) = Sc_unknown"
    "\<exists>evs. replenishment_evaluations_for (up_replenishment_mode (si_resource x))
        (mi_provider (ce_identity e)) (si_states x) = Inr evs
      \<and> (list_ex recoverable_evaluation evs \<longleftrightarrow> recoverable_now x e)"
proof -
  have "list_all valid_snapshot (si_snapshots x)" and states: "list_all valid_replenishment_state (si_states x)"
    using valid(1) by (simp_all add: valid_input_def)
  then show "assess_scarcity e (si_snapshots x) = Inr (entry_assessment x e)"
    using d by (simp add: assess_eval [OF valid(2)] entry_assessment_def)
  show "policy_apply_unknown (si_resource x) (entry_assessment x e) = Inr (entry_unknown x e)"
    by (simp add: policy_apply_unknown_def unknown_run entry_unknown_def)
  show "uc_eligible (entry_unknown x e) \<longleftrightarrow> gate zs x e Xs_capacity"
    "uc_eligible (entry_unknown x e) \<Longrightarrow>
       uc_degraded (entry_unknown x e) \<longleftrightarrow> sa_state (entry_assessment x e) = Sc_unknown"
    by (auto simp: unknown_decision_for_def entry_unknown_def Let_def)
  show "\<exists>evs. replenishment_evaluations_for (up_replenishment_mode (si_resource x))
        (mi_provider (ce_identity e)) (si_states x) = Inr evs
      \<and> (list_ex recoverable_evaluation evs \<longleftrightarrow> recoverable_now x e)"
    using replenishment_evaluations_run [OF states] by (auto simp: recoverable_now_def)
qed

lemma capacity_excluded:
  assumes valid: "valid_input zs x" "valid_entry e" and d: "distinct (map sn_provider (si_snapshots x))"
    and shut: "\<not> gate zs x e Xs_capacity"
  shows "\<exists>c. evaluate_capacity zs e (si_requirement x) (si_policy x) (si_snapshots x) (si_states x)
      (Aware (si_instant x)) = Inr c \<and> candidate_facts zs x e (Some Xs_capacity) c"
proof -
  note start = capacity_starts [OF valid d]
  from start(5) obtain evs where evs: "replenishment_evaluations_for (up_replenishment_mode (si_resource x))
      (mi_provider (ce_identity e)) (si_states x) = Inr evs"
    "list_ex recoverable_evaluation evs \<longleftrightarrow> recoverable_now x e" by blast
  let ?st = "sa_state (entry_assessment x e)"
  define codes where "codes = sort_key selection_reason_str
    ([if ?st = Sc_unavailable then Se_capacity_unavailable else Se_capacity_unknown]
     @ (if ?st = Sc_unavailable \<and> list_ex recoverable_evaluation evs then [Se_recoverable] else []))"
  define c where "c = (measured x e evs)\<lparr>cv_exclusion_stage := Some Xs_capacity, cv_reason_codes := codes\<rparr>"
  have codes: "distinct codes" "sorted (map selection_reason_str codes)"
    "set codes = {if ?st = Sc_unavailable then Se_capacity_unavailable else Se_capacity_unknown}
       \<union> (if ?st = Sc_unavailable \<and> list_ex recoverable_evaluation evs then {Se_recoverable} else {})"
    by (auto simp: codes_def)
  have "candidate_ok c"
    using codes valid_display_name [OF valid(2)] by (auto simp: c_def candidate_ok_def measured_simps)
  moreover from this have "evaluate_capacity zs e (si_requirement x) (si_policy x) (si_snapshots x)
      (si_states x) (Aware (si_instant x)) = Inr c"
    using shut start(3)
    by (simp add: evaluate_capacity_def si_resource_def [symmetric] start(1,2) evs(1) Let_def
        measured_def [symmetric] mk_candidateI c_def codes_def)
  ultimately show ?thesis
    using codes(3) evs(2)
    by (intro exI [of _ c]) (auto simp: candidate_facts_def measured_stage_def c_def measured_simps)
qed

lemma capacity_passed:
  assumes valid: "valid_input zs x" "valid_entry e" and d: "distinct (map sn_provider (si_snapshots x))"
    and "open": "gate zs x e Xs_capacity"
  shows "\<exists>c. evaluate_capacity zs e (si_requirement x) (si_policy x) (si_snapshots x) (si_states x)
      (Aware (si_instant x)) = Inr c
    \<and> candidate_facts zs x e (if gate zs x e Xs_reservation then None else Some Xs_reservation) c"
proof -
  note start = capacity_starts [OF valid d]
  from start(5) obtain evs where evs: "replenishment_evaluations_for (up_replenishment_mode (si_resource x))
      (mi_provider (ce_identity e)) (si_states x) = Inr evs"
    "list_ex recoverable_evaluation evs \<longleftrightarrow> recoverable_now x e" by blast
  have rules: "list_all valid_reservation_rule (entry_reservations x e)"
    using valid_input_policy(1) [OF valid(1)] by (auto simp: entry_reservations_def list_all_iff)
  have snaps: "list_all valid_snapshot (si_snapshots x)" using valid(1) by (simp add: valid_input_def)
  obtain ds where ds: "traverse (\<lambda>r. evaluate_reservation r (si_snapshots x) (tr_task_level (si_requirement x)))
      (entry_reservations x e) = Inr ds"
    and primary: "reservation_primary None ds = None \<longleftrightarrow> gate zs x e Xs_reservation"
      "reservation_primary None ds \<in> {None, Some Se_reservation_unknown, Some Se_reservation_blocked}"
    unfolding gate.simps
    by (rule exE [OF reservations_run [OF rules snaps d, of "tr_task_level (si_requirement x)"]])
      (elim conjE)
  obtain h where h: "happy_hour_for zs (si_resource x) (ce_identity e) (Aware (si_instant x)) = Inr h"
    "pred_option hh_preferred h"
    "h \<noteq> None \<longleftrightarrow> (\<exists>r \<in> set (up_happy_hours (si_resource x)). rule_covers zs r (ce_identity e) (si_instant x))"
    using happy_hour_run [OF valid_input_policy(3) [OF valid(1)]] by blast
  define reserved where "reserved = (measured x e evs)\<lparr>cv_reservation_decisions := ds\<rparr>"
  define c where "c = (case reservation_primary None ds of
      Some code \<Rightarrow> reserved\<lparr>cv_exclusion_stage := Some Xs_reservation, cv_reason_codes := [code]\<rparr>
    | None \<Rightarrow> reserved\<lparr>cv_eligible := True, cv_degraded := uc_degraded (entry_unknown x e),
        cv_happy_hour_decision := h, cv_short_window_below_floor :=
          tactical_below (entry_assessment x e) (resolved_short_window_floor (si_policy x))\<rparr>)"
  have "candidate_ok c"
    using h(2) valid_display_name [OF valid(2)] primary(2)
    by (auto simp: c_def reserved_def candidate_ok_def measured_simps tactical_below_def split: option.splits)
  moreover from this have "evaluate_capacity zs e (si_requirement x) (si_policy x) (si_snapshots x)
      (si_states x) (Aware (si_instant x)) = Inr c"
    using "open" start(3) ds h(1)
    by (auto simp: evaluate_capacity_def si_resource_def [symmetric] start(1,2) evs(1) Let_def
        measured_def [symmetric] mk_candidateI c_def reserved_def applicable_reservations_eq
        split: option.splits)
  ultimately show ?thesis
    using "open" start(3,4) primary evs(2) h(3)
    by (intro exI [of _ c]) (auto simp: candidate_facts_def measured_stage_def c_def reserved_def
        measured_simps split: option.splits)
qed


lemma capacity_run:
  assumes "valid_input zs x" "valid_entry e" "distinct (map sn_provider (si_snapshots x))"
  shows "\<exists>c. evaluate_capacity zs e (si_requirement x) (si_policy x) (si_snapshots x) (si_states x)
      (Aware (si_instant x)) = Inr c
    \<and> candidate_facts zs x e (find (\<lambda>s. \<not> gate zs x e s) [Xs_capacity, Xs_reservation]) c"
proof (cases "gate zs x e Xs_capacity")
  case True
  then have "find (\<lambda>s. \<not> gate zs x e s) [Xs_capacity, Xs_reservation]
      = (if gate zs x e Xs_reservation then None else Some Xs_reservation)" by (simp del: gate.simps)
  with capacity_passed [OF assms True] show ?thesis by (simp only:)
next
  case False
  then have "find (\<lambda>s. \<not> gate zs x e s) [Xs_capacity, Xs_reservation] = Some Xs_capacity"
    by (simp del: gate.simps)
  with capacity_excluded [OF assms False] show ?thesis by (simp only:)
qed

text \<open>A candidate excluded before its capacity was measured carries one reason and no measurement.\<close>

definition unmeasured ::
  "model_catalog_entry \<Rightarrow> exclusion_stage \<Rightarrow> selection_reason \<Rightarrow> candidate_evaluation \<Rightarrow> bool" where
  "unmeasured e s code c =
     (cv_identity c = ce_identity e \<and> cv_display_name c = ce_display_name e
      \<and> cv_reasoning_effort c = ce_reasoning_effort e \<and> \<not> cv_eligible c \<and> \<not> cv_degraded c
      \<and> cv_exclusion_stage c = Some s \<and> cv_reason_codes c = [code]
      \<and> (cv_execution_eligibility c = None \<or> s = Xs_execution) \<and> cv_capability_margin c = None
      \<and> cv_happy_hour_decision c = None \<and> cv_scarcity_assessment c = None
      \<and> cv_replenishment_evaluations c = [] \<and> \<not> cv_short_window_below_floor c)"

lemma early_exclusion:
  assumes "unmeasured e s code c" "valid_entry e" "\<not> measured_stage (Some s)"
    and code: "code \<in> set (stage_reasons s)"
  shows "\<exists>c'. mk_candidate c = Inr c' \<and> candidate_facts zs x e (Some s) c'"
proof -
  have "code \<noteq> Se_recoverable" "s \<noteq> Xs_capacity"
    using code assms(3) by (cases s, auto simp: measured_stage_def)
  moreover have "candidate_ok c"
    using assms valid_display_name [OF assms(2)] by (auto simp: candidate_ok_def unmeasured_def)
  ultimately show ?thesis
    using assms by (auto simp: candidate_facts_def unmeasured_def mk_candidateI)
qed

lemmas early_simps = unmeasured_def candidate_base_def measured_stage_def

lemma evaluate_blackouts_gate:
  assumes "valid_input zs x"
  shows "\<exists>d. policy_blackouts zs (si_resource x) i (Aware (si_instant x)) = Inr d
    \<and> (bd_blocked d \<longleftrightarrow> (\<exists>r \<in> set (up_blackouts (si_resource x)). rule_covers zs r i (si_instant x)))"
proof -
  note find = evaluate_blackouts_find [OF valid_input_policy(2) [OF assms], of i "si_instant x"]
  show ?thesis
  proof (cases "find (\<lambda>r. rule_covers zs r i (si_instant x)) (up_blackouts (si_resource x))")
    case None
    then have "\<forall>r \<in> set (up_blackouts (si_resource x)). \<not> rule_covers zs r i (si_instant x)"
      by (auto simp: find_None_iff)
    with None find show ?thesis by (auto simp: policy_blackouts_def)
  next
    case (Some r)
    then have "r \<in> set (up_blackouts (si_resource x))" "rule_covers zs r i (si_instant x)"
      by (auto simp: find_Some_iff)
    with Some find show ?thesis by (auto simp: policy_blackouts_def)
  qed
qed

lemma failed_find:
  "find P [] = None" "\<not> P y \<Longrightarrow> find P (y # ys) = find P ys" "P y \<Longrightarrow> find P (y # ys) = Some y"
  by simp_all

lemma execution_shut:
  assumes "valid_entry e"
    and report: "find (\<lambda>r. ee_provider r = mi_provider (ce_identity e)) (si_reports x) = Some r"
      "ee_state r \<noteq> Es_eligible"
  shows "\<exists>c. evaluate_with zs x e = Inr c \<and> candidate_facts zs x e (Some Xs_execution) c"
proof -
  obtain code where code: "eligibility_primary (ee_state r) = Inr code" "code \<in> set (stage_reasons Xs_execution)"
    using report(2) by (cases "ee_state r") auto
  have "\<exists>c. mk_candidate ((candidate_base e)\<lparr>cv_exclusion_stage := Some Xs_execution,
        cv_execution_eligibility := Some r, cv_reason_codes := [code]\<rparr>) = Inr c
      \<and> candidate_facts zs x e (Some Xs_execution) c"
    by (rule early_exclusion [OF _ assms(1) _ code(2)]) (simp_all add: early_simps)
  with report code(1) show ?thesis by (simp add: evaluate_with_def evaluate_candidate_def Let_def)
qed


lemma admission_run:
  assumes valid: "valid_input zs x" "valid_entry e" and d: "distinct (map sn_provider (si_snapshots x))"
  shows "\<exists>c. evaluate_admission zs e (si_requirement x) (si_policy x) (si_snapshots x) (si_states x)
      (Aware (si_instant x)) (si_blocked x) = Inr c
    \<and> candidate_facts zs x e (find (\<lambda>s. \<not> gate zs x e s)
        [Xs_policy_blackout, Xs_hard_constraint, Xs_capability, Xs_capacity, Xs_reservation]) c"
    (is "\<exists>c. ?run = Inr c \<and> candidate_facts zs x e ?stage c")
proof -
  let ?early = "\<lambda>s c. \<exists>c'. mk_candidate c = Inr c' \<and> candidate_facts zs x e (Some s) c'"
  have early: "?early s c"
    if "unmeasured e s code c" "code \<in> set (stage_reasons s)" "\<not> measured_stage (Some s)" for s code c
    by (rule early_exclusion [OF that(1) valid(2) that(3,2)])
  obtain bl where bl: "policy_blackouts zs (si_resource x) (ce_identity e) (Aware (si_instant x)) = Inr bl"
    "bd_blocked bl \<longleftrightarrow> (\<exists>r \<in> set (up_blackouts (si_resource x)). rule_covers zs r (ce_identity e) (si_instant x))"
    using evaluate_blackouts_gate [OF valid(1)] by blast
  have vr: "valid_hard_constraints (tr_hard_constraints (si_requirement x))"
    "valid_minima (tr_capability_minima (si_requirement x))" "valid_assessments (ce_capabilities e)"
    using valid by (simp_all add: valid_input_def valid_requirement_def valid_entry_def entry_parts_def)
  obtain hs where hs: "evaluate_hard_constraints (tr_hard_constraints (si_requirement x)) e = Inr hs"
    "hs = [] \<longleftrightarrow> gate zs x e Xs_hard_constraint"
    using hard_constraints_run [OF vr(1), of e] hard_passes [OF vr(1), of e] by auto
  obtain cs where cs: "evaluate_capability_sufficiency (tr_capability_minima (si_requirement x)) (ce_capabilities e) = Inr cs"
    "cs = [] \<longleftrightarrow> gate zs x e Xs_capability"
    using capability_run [OF vr(2,3)] capability_passes [OF vr(2,3)] by auto
  let ?blocked = "ce_identity e \<in> (case si_blocked x of None \<Rightarrow> {} | Some B \<Rightarrow> B)"
  have blackout: "gate zs x e Xs_policy_blackout \<longleftrightarrow> \<not> ?blocked \<and> \<not> bd_blocked bl"
    by (cases "si_blocked x") (simp_all add: bl(2))
  note run = evaluate_admission_def si_resource_def [symmetric] Let_def bl(1) hs(1) cs(1)
  consider (blocked) ?blocked | (rule) "\<not> ?blocked" "bd_blocked bl"
    | (hard) "gate zs x e Xs_policy_blackout" "\<not> gate zs x e Xs_hard_constraint"
    | (capability) "gate zs x e Xs_policy_blackout" "gate zs x e Xs_hard_constraint" "\<not> gate zs x e Xs_capability"
    | (rest) "gate zs x e Xs_policy_blackout" "gate zs x e Xs_hard_constraint" "gate zs x e Xs_capability"
    using blackout by blast
  then show ?thesis
  proof cases
    case blocked
    then have "?stage = Some Xs_policy_blackout" using blackout by (simp del: gate.simps)
    moreover have "?run = mk_candidate ((candidate_base e)\<lparr>cv_exclusion_stage := Some Xs_policy_blackout,
        cv_reason_codes := [Se_policy_blocked]\<rparr>)" using blocked by (simp add: run)
    ultimately show ?thesis
      using early [of Xs_policy_blackout Se_policy_blocked] by (simp add: early_simps del: gate.simps)
  next
    case rule
    then have "?stage = Some Xs_policy_blackout" using blackout by (simp del: gate.simps)
    moreover have "?run = mk_candidate ((candidate_base e)\<lparr>cv_exclusion_stage := Some Xs_policy_blackout,
        cv_blackout_decision := Some bl, cv_reason_codes := [Se_policy_blocked]\<rparr>)"
      using rule by (simp add: run)
    ultimately show ?thesis
      using early [of Xs_policy_blackout Se_policy_blocked] by (simp add: early_simps del: gate.simps)
  next
    case hard
    then have "?stage = Some Xs_hard_constraint" by (simp del: gate.simps)
    moreover have "?run = mk_candidate ((candidate_base e)\<lparr>cv_exclusion_stage := Some Xs_hard_constraint,
        cv_hard_failures := hs, cv_reason_codes := [Se_hard_failed]\<rparr>)"
      using hard blackout hs(2) by (simp add: run del: gate.simps)
    ultimately show ?thesis
      using early [of Xs_hard_constraint Se_hard_failed] by (simp add: early_simps del: gate.simps)
  next
    case capability
    then have "?stage = Some Xs_capability" by (simp del: gate.simps)
    moreover have "?run = mk_candidate ((candidate_base e)\<lparr>cv_exclusion_stage := Some Xs_capability,
        cv_capability_failures := cs, cv_reason_codes := [Se_capability_failed]\<rparr>)"
      using capability blackout hs(2) cs(2) by (simp add: run del: gate.simps)
    ultimately show ?thesis
      using early [of Xs_capability Se_capability_failed] by (simp add: early_simps del: gate.simps)
  next
    case rest
    then have "?stage = find (\<lambda>s. \<not> gate zs x e s) [Xs_capacity, Xs_reservation]" by (simp del: gate.simps)
    moreover have "?run = evaluate_capacity zs e (si_requirement x) (si_policy x) (si_snapshots x)
        (si_states x) (Aware (si_instant x))"
      using rest blackout hs(2) cs(2) by (simp add: run del: gate.simps)
    ultimately show ?thesis using capacity_run [OF valid d] by (simp only:)
  qed
qed

lemma first_failed_step:
  "first_failed zs x e = (if gate zs x e Xs_execution then find (\<lambda>s. \<not> gate zs x e s)
     [Xs_policy_blackout, Xs_hard_constraint, Xs_capability, Xs_capacity, Xs_reservation]
   else Some Xs_execution)"
  by (simp add: first_failed_def EXCLUSION_STAGES_def del: gate.simps)

lemma evaluate_candidate_run:
  assumes valid: "valid_input zs x" "valid_entry e" and d: "distinct (map sn_provider (si_snapshots x))"
  shows "\<exists>c. evaluate_with zs x e = Inr c \<and> candidate_facts zs x e (first_failed zs x e) c"
proof (cases "gate zs x e Xs_execution")
  case True
  then have "evaluate_with zs x e = evaluate_admission zs e (si_requirement x) (si_policy x)
      (si_snapshots x) (si_states x) (Aware (si_instant x)) (si_blocked x)"
    by (auto simp: evaluate_with_def evaluate_candidate_def split: option.splits)
  with True admission_run [OF valid d] show ?thesis by (simp only: first_failed_step if_True)
next
  case False
  then obtain r where r: "find (\<lambda>r. ee_provider r = mi_provider (ce_identity e)) (si_reports x) = Some r"
    "ee_state r \<noteq> Es_eligible" by auto
  from execution_shut [OF valid(2) r] False show ?thesis by (simp only: first_failed_step if_False)
qed

lemma all_stages:
  "(\<forall>s. P s) \<longleftrightarrow> P Xs_execution \<and> P Xs_policy_blackout \<and> P Xs_hard_constraint \<and> P Xs_capability
     \<and> P Xs_capacity \<and> P Xs_reservation"
  by (metis exclusion_stage.exhaust)

lemma first_failed_iff:
  "first_failed zs x e = Some s \<longleftrightarrow> \<not> gate zs x e s \<and> (\<forall>r < s. gate zs x e r)"
  by (cases s) (auto simp: first_failed_def EXCLUSION_STAGES_def less_exclusion_stage_def
      all_stages simp del: gate.simps)

section \<open>Properties\<close>

text \<open>
  C3: the candidate pipeline is total on valid inputs and implements the six gates in their fixed
  order: a candidate is eligible iff all gates are open, otherwise its one exclusion stage is the
  first gate that is shut; the result satisfies every cross-field rule of the contract. Happy
  hours, replenishment and the short-window advisory occur in no gate: a preference and a finish
  risk are recorded for eligible candidates only, and recoverability only explains an exclusion
  for exhausted capacity.
\<close>

theorem candidate_pipeline:
  assumes "valid_input zs x" and "valid_entry e" and "distinct (map sn_provider (si_snapshots x))"
  shows "\<exists>c. evaluate_with zs x e = Inr c \<and> candidate_ok c \<and> cv_identity c = ce_identity e
    \<and> (cv_eligible c \<longleftrightarrow> (\<forall>s. gate zs x e s))
    \<and> (\<forall>s. cv_exclusion_stage c = Some s \<longleftrightarrow> \<not> gate zs x e s \<and> (\<forall>r < s. gate zs x e r))
    \<and> (cv_degraded c \<longleftrightarrow> cv_eligible c \<and> sa_state (entry_assessment x e) = Sc_unknown)
    \<and> (cv_happy_hour_decision c \<noteq> None \<longrightarrow> cv_eligible c)
    \<and> (cv_short_window_below_floor c \<longrightarrow> cv_eligible c)
    \<and> (Se_recoverable \<in> set (cv_reason_codes c) \<longrightarrow> cv_exclusion_stage c = Some Xs_capacity)"
proof -
  obtain c where c: "evaluate_with zs x e = Inr c" "candidate_facts zs x e (first_failed zs x e) c"
    using evaluate_candidate_run [OF assms] by blast
  have all: "gates_open zs x e \<longleftrightarrow> (\<forall>s. gate zs x e s)"
    by (simp add: gates_open_def EXCLUSION_STAGES_def all_stages del: gate.simps)
  with c all show ?thesis
    by (intro exI [of _ c])
      (auto simp: candidate_facts_def first_failed_None first_failed_iff simp del: gate.simps)
qed

definition sample_input :: "capacity_snapshot list \<Rightarrow> execution_eligibility list \<Rightarrow> selection_input" where
  "sample_input snaps reports = \<lparr>si_requirement = sample_requirement L3 3,
     si_policy = sample_selector_policy, si_snapshots = snaps, si_states = [],
     si_instant = 43200000000, si_reports = reports, si_blocked = None\<rparr>"

definition sample_snaps :: "capacity_snapshot list" where
  "sample_snaps = [sample_snapshot ''zai'' [sample_window Kind_weekly ''coding'' 60,
     sample_window Kind_five_hour ''chat'' 30, sample_window Kind_weekly ''other'' 0]]"

lemma sample_input_valid:
  "valid_input utc_only (sample_input sample_snaps [])"
  "valid_input utc_only (sample_input sample_snaps [sample_eligibility Es_unknown [Er_credits_unknown]])"
  "distinct (map sn_provider (si_snapshots (sample_input sample_snaps reports)))"
proof -
  show "valid_input utc_only (sample_input sample_snaps [])" by code_simp
  show "valid_input utc_only (sample_input sample_snaps [sample_eligibility Es_unknown [Er_credits_unknown]])"
    by code_simp
  show "distinct (map sn_provider (si_snapshots (sample_input sample_snaps reports)))"
    by (simp add: sample_input_def sample_snaps_def)
qed

theorem candidate_pipeline_witness:
  "\<exists>c. evaluate_with utc_only (sample_input sample_snaps [sample_eligibility Es_unknown [Er_credits_unknown]])
      (sample_entry ''m-one'' 4 (Some [scope_a, scope_b])) = Inr c
    \<and> cv_exclusion_stage c = Some Xs_execution"
proof -
  let ?x = "sample_input sample_snaps [sample_eligibility Es_unknown [Er_credits_unknown]]"
  let ?e = "sample_entry ''m-one'' 4 (Some [scope_a, scope_b])"
  have "\<not> gate utc_only ?x ?e Xs_execution"
    by (simp add: sample_input_def sample_eligibility_def sample_entry_def)
  moreover have "\<not> r < Xs_execution" for r by (simp add: less_exclusion_stage_def)
  ultimately show ?thesis
    using candidate_pipeline [OF sample_input_valid(2) sample_entries_valid(1) sample_input_valid(3)] by blast
qed

definition known_capacity :: "candidate_evaluation \<Rightarrow> bool" where
  "known_capacity c =
     (case cv_scarcity_assessment c of
        None \<Rightarrow> False | Some a \<Rightarrow> sa_state a = Sc_known \<and> sa_penalty_units a \<noteq> None)"

definition penalty_rank :: "candidate_evaluation \<Rightarrow> int" where
  "penalty_rank c =
     (case cv_scarcity_assessment c of
        None \<Rightarrow> 0
      | Some a \<Rightarrow> if sa_state a = Sc_known then (case sa_penalty_units a of None \<Rightarrow> 0 | Some n \<Rightarrow> n) else 0)"

lemma ranking_key_eq:
  "candidate_ranking_key c order effort =
     (if known_capacity c then 0 else 1, if cv_happy_hour_decision c \<noteq> None then 0 else 1,
      penalty_rank c, effort_key effort, fst (preference_key order (cv_identity c)),
      snd (preference_key order (cv_identity c)), identity_key (cv_identity c))"
  by (simp add: candidate_ranking_key_def known_capacity_def penalty_rank_def identity_key_def Let_def
      split: option.splits prod.splits)

text \<open>
  the balanced ranking order. Equal keys mean equal identities, so the order of the candidates
  of a catalog has no ties; a candidate with known capacity precedes every candidate without,
  whatever its penalty and preference; within one knowledge class an active happy hour precedes,
  then the lower scarcity penalty, then the lower configured effort with unconfigured effort last.
\<close>

theorem ranking_key_order:
  fixes c d :: candidate_evaluation
  defines "key \<equiv> candidate_ranking_key"
  shows "(key c o1 r = key d o2 s \<longrightarrow> cv_identity c = cv_identity d)
    \<and> (known_capacity c \<and> \<not> known_capacity d \<longrightarrow> key c o1 r < key d o2 s)
    \<and> (known_capacity c = known_capacity d
        \<and> cv_happy_hour_decision c \<noteq> None \<and> cv_happy_hour_decision d = None \<longrightarrow> key c o1 r < key d o2 s)
    \<and> (known_capacity c = known_capacity d
        \<and> (cv_happy_hour_decision c = None) = (cv_happy_hour_decision d = None) \<longrightarrow>
        (penalty_rank c < penalty_rank d \<longrightarrow> key c o1 r < key d o2 s)
        \<and> (penalty_rank c = penalty_rank d \<and> r = Some q
            \<and> (case s of None \<Rightarrow> True | Some q' \<Rightarrow> effort_index q < effort_index q') \<longrightarrow>
            key c o1 r < key d o2 s))"
  unfolding key_def ranking_key_eq by (auto simp: effort_key_def split: option.splits)

theorem ranking_key_order_witness:
  "candidate_ranking_key ((candidate_base (sample_entry ''m-one'' 4 None))\<lparr>cv_scarcity_assessment :=
       Some (known_spec [scope_a] [(scope_a, sample_window Kind_weekly ''coding'' 5, 5)])\<rparr>) [] None
   < candidate_ranking_key (candidate_base (sample_entry ''m-two'' 3 None)) [ModelIdentity ''zai'' ''m-two'' ''base''] None"
  using ranking_key_order [of "(candidate_base (sample_entry ''m-one'' 4 None))\<lparr>cv_scarcity_assessment :=
       Some (known_spec [scope_a] [(scope_a, sample_window Kind_weekly ''coding'' 5, 5)])\<rparr>" "[]" None
     "candidate_base (sample_entry ''m-two'' 3 None)" "[ModelIdentity ''zai'' ''m-two'' ''base'']" None]
  by (simp add: known_capacity_def candidate_base_def known_spec_def Let_def)

end
