(* ===== verification/Selector.thy ===== *)
theory Selector
  imports Selector_Eval
begin

text \<open>
  selector.py, the decision: the \<open>SelectionDecision\<close> contract, the assembly of independently
  evaluated candidates into a ranking, and \<open>select_model\<close>.
\<close>

section \<open>Canonical instants\<close>

definition ord_ymd :: "int \<Rightarrow> int \<times> int \<times> int" where
  \<comment> \<open>the inverse of \<open>toordinal\<close>: cycles of 400, 100, 4 and 1 years, then the month\<close>
  "ord_ymd ordinal =
     (let n = ordinal - 1; n400 = n div 146097; n = n mod 146097; n100 = n div 36524;
          n = n mod 36524; n4 = n div 1461; n = n mod 1461; n1 = n div 365; n = n mod 365;
          year = n400 * 400 + 1 + n100 * 100 + n4 * 4 + n1 in
      if n1 = 4 \<or> n100 = 4 then (year - 1, 12, 31)
      else (let guess = (n + 50) div 32;
                month = (if days_before_month year guess > n then guess - 1 else guess) in
            (year, month, n - days_before_month year month + 1)))"

definition pad :: "nat \<Rightarrow> int \<Rightarrow> string" where
  "pad width n = (let s = nat_str (nat n) in replicate (width - length s) CHR ''0'' @ s)"

definition canonical_instant :: "py_datetime \<Rightarrow> string result" where
  \<comment> \<open>UTC, ISO format cut to milliseconds, with \<open>Z\<close> for the offset\<close>
  "canonical_instant at =
     bind_r (v_aware_datetime sel_exn at ''instant'') (\<lambda>t.
       let ms = t div 1000; (y, m, d) = ord_ymd (ms div 86400000 + 719163); r = ms mod 86400000 in
       Inr (pad 4 y @ ''-'' @ pad 2 m @ ''-'' @ pad 2 d @ ''T'' @ pad 2 (r div 3600000) @ '':''
         @ pad 2 (r div 60000 mod 60) @ '':'' @ pad 2 (r div 1000 mod 60) @ ''.'' @ pad 3 (r mod 1000) @ ''Z''))"

section \<open>The decision\<close>

record selection_decision =
  sd_evaluated_at :: py_datetime
  sd_requirement :: task_requirement
  sd_catalog_version :: "int option"
  sd_catalog_updated_on :: "string option"
  sd_selector_mode :: selector_mode
  sd_resource_policy_version :: int
  sd_selected :: "candidate_evaluation option"
  sd_alternatives :: "candidate_evaluation list"
  sd_excluded :: "candidate_evaluation list"
  sd_closest_candidates :: "candidate_evaluation list"
  sd_recoverable_candidates :: "candidate_evaluation list"
  sd_degraded :: bool
  sd_reason_codes :: "selection_reason list"
  sd_profile_id :: "string option"
  sd_profile_policy_version :: "int option"
  sd_preference_order :: "model_identity list"
  sd_expired_happy_hour_rules :: "string list"
  sd_expired_blackout_rules :: "string list"

abbreviation decision_error :: "'a result" where
  "decision_error \<equiv> Inl (sel_exn ''selection_decision'')"

definition check_catalog_provenance :: "selection_decision \<Rightarrow> unit result" where
  "check_catalog_provenance d =
     (if sd_catalog_version d = None then
        (if sd_catalog_updated_on d \<noteq> None then decision_error else Inr ())
      else
        bind_r (v_int sel_exn (Some 1) None (opt_py PInt (sd_catalog_version d))
                  ''selection_decision.catalog_version'') (\<lambda>_.
        bind_r (v_nonempty_str sel_exn (opt_py PStr (sd_catalog_updated_on d))
                  ''selection_decision.catalog_updated_on'') (\<lambda>_. Inr ())))"

definition check_outcome :: "selection_decision \<Rightarrow> selection_reason list \<Rightarrow> unit result" where
  "check_outcome d codes =
     (case sd_selected d of
        None \<Rightarrow>
          (if sd_alternatives d \<noteq> [] then decision_error
           else if sd_degraded d then decision_error
           else if Se_no_eligible \<notin> set codes then decision_error
           else Inr ())
      | Some s \<Rightarrow>
          (if Se_selected_balanced \<notin> set codes then decision_error
           else if \<not> set codes \<subseteq> {Se_selected_balanced, Se_selected_degraded} then decision_error
           else if sd_degraded d \<noteq> cv_degraded s then decision_error
           else each (\<lambda>a.
             if \<not> cv_eligible a then decision_error
             else if identity_key (cv_identity a) = identity_key (cv_identity s) then decision_error
             else Inr ()) (sd_alternatives d)))"

definition check_rule_ids :: "string list \<Rightarrow> string \<Rightarrow> unit result" where
  "check_rule_ids ids fld =
     bind_r (each (\<lambda>r. bind_r (v_nonempty_str sel_exn (PStr r) fld) (\<lambda>_. Inr ())) ids) (\<lambda>_.
       seen_check (sel_exn fld) {} ids)"

definition all_excluded :: "candidate_evaluation list \<Rightarrow> unit result" where
  "all_excluded cs = each (\<lambda>c. if cv_eligible c then decision_error else Inr ()) cs"

definition mk_decision :: "selection_decision \<Rightarrow> selection_decision result" where
  "mk_decision d =
     bind_r (v_aware_datetime sel_exn (sd_evaluated_at d) ''selection_decision.evaluated_at'') (\<lambda>_.
     bind_r (check_catalog_provenance d) (\<lambda>_.
     bind_r (v_int sel_exn (Some 1) None (PInt (sd_resource_policy_version d))
               ''selection_decision.resource_policy_version'') (\<lambda>_.
     bind_r (guard_r (case sd_selected d of None \<Rightarrow> True | Some s \<Rightarrow> cv_eligible s)
               (sel_exn ''selection_decision'')) (\<lambda>_.
     bind_r (v_selection_codes (sd_reason_codes d) ''selection_decision.reason_codes'') (\<lambda>codes.
     bind_r (check_outcome d codes) (\<lambda>_.
     bind_r (all_excluded (sd_excluded d)) (\<lambda>_.
     bind_r (all_excluded (sd_closest_candidates d)) (\<lambda>_.
     bind_r (all_excluded (sd_recoverable_candidates d)) (\<lambda>_.
     bind_r (seen_check (sel_exn ''selection_decision.preference_order'') {}
               (map identity_key (sd_preference_order d))) (\<lambda>_.
     bind_r (check_rule_ids (sd_expired_happy_hour_rules d)
               ''selection_decision.expired_happy_hour_rules'') (\<lambda>_.
     bind_r (check_rule_ids (sd_expired_blackout_rules d)
               ''selection_decision.expired_blackout_rules'') (\<lambda>_.
     bind_r (guard_r (sd_profile_id d \<noteq> None \<or> sd_profile_policy_version d = None)
               (sel_exn ''selection_decision'')) (\<lambda>_.
       Inr (d\<lparr>sd_reason_codes := codes,
              sd_expired_happy_hour_rules := sort (sd_expired_happy_hour_rules d),
              sd_expired_blackout_rules := sort (sd_expired_blackout_rules d)\<rparr>))))))))))))))"

definition decision_to_dict :: "selection_decision \<Rightarrow> pyval result" where
  "decision_to_dict d =
     bind_r (canonical_instant (sd_evaluated_at d)) (\<lambda>at.
       let runtime = (sd_catalog_version d = None) in
       Inr (obj
         [(''evaluated_at'', Some (PStr at)),
          (''requirement'', Some (requirement_to_dict (sd_requirement d))),
          (''catalog_version'', Some (opt_py PInt (sd_catalog_version d))),
          (''catalog_updated_on'', Some (opt_py PStr (sd_catalog_updated_on d))),
          (''selector_mode'', Some (PStr (selector_mode_str (sd_selector_mode d)))),
          (''resource_policy_version'', Some (PInt (sd_resource_policy_version d))),
          (''selected'', Some (opt_py candidate_to_dict (sd_selected d))),
          (''alternatives'', Some (PList (map candidate_to_dict (sd_alternatives d)))),
          (''excluded'', Some (PList (map candidate_to_dict (sd_excluded d)))),
          (''closest_candidates'', Some (PList (map candidate_to_dict (sd_closest_candidates d)))),
          (''recoverable_candidates'', Some (PList (map candidate_to_dict (sd_recoverable_candidates d)))),
          (''degraded'', Some (PBool (sd_degraded d))),
          (''reason_codes'', Some (PList (map (\<lambda>c. PStr (selection_reason_str c)) (sd_reason_codes d)))),
          (''decision_schema_version'', (if runtime then Some (PInt 2) else None)),
          (''selection_input_kind'', (if runtime then Some (PStr ''runtime_inventory'') else None)),
          (''profile_id'', map_option PStr (sd_profile_id d)),
          (''profile_policy_version'', map_option PInt (sd_profile_policy_version d)),
          (''preference_order'', Some (PList (map identity_to_dict (sd_preference_order d)))),
          (''expired_happy_hour_rules'', nonempty_list PStr (sd_expired_happy_hour_rules d)),
          (''expired_blackout_rules'', nonempty_list PStr (sd_expired_blackout_rules d))]))"

section \<open>Assembly\<close>

definition progress_of :: "candidate_evaluation \<Rightarrow> nat result" where
  \<comment> \<open>\<open>_STAGE_PROGRESS[candidate.exclusion_stage or ""]\<close>\<close>
  "progress_of c =
     (case cv_exclusion_stage c of None \<Rightarrow> Inl (KeyError '''') | Some s \<Rightarrow> Inr (stage_progress s))"

definition closest_candidates :: "candidate_evaluation list \<Rightarrow> candidate_evaluation list result" where
  "closest_candidates excluded =
     bind_r (traverse progress_of excluded) (\<lambda>ps.
       case ps of
         [] \<Rightarrow> Inr []
       | p # rest \<Rightarrow>
           (let best = fold max rest p in
            Inr (take 3 (map snd (filter (\<lambda>(q, _). q = best) (zip ps excluded))))))"

definition recoverable_candidate :: "candidate_evaluation \<Rightarrow> bool" where
  "recoverable_candidate c =
     (cv_exclusion_stage c = Some Xs_capacity
      \<and> (case cv_scarcity_assessment c of None \<Rightarrow> False | Some a \<Rightarrow> sa_state a = Sc_unavailable)
      \<and> list_ex recoverable_evaluation (cv_replenishment_evaluations c))"

definition expired_ids ::
  "(weekly_rule \<Rightarrow> py_datetime \<Rightarrow> bool result) \<Rightarrow> weekly_rule list \<Rightarrow> py_datetime \<Rightarrow> string list result" where
  "expired_ids expired rules at =
     bind_r (traverse (\<lambda>r. bind_r (expired r at) (\<lambda>b. Inr (r, b))) rules) (\<lambda>marked.
       Inr (sort (map (\<lambda>(r, _). wr_rule_id r) (filter snd marked))))"

definition effort_by_identity ::
  "model_catalog_entry list \<Rightarrow> model_identity \<Rightarrow> reasoning_effort option result" where
  "effort_by_identity entries i =
     (case map_of (rev (map (\<lambda>e. (ce_identity e, ce_reasoning_effort e)) entries)) i of
        None \<Rightarrow> Inl (KeyError ''effort_by_identity'') | Some r \<Rightarrow> Inr r)"

definition rank_candidates ::
  "model_catalog_entry list \<Rightarrow> model_identity list \<Rightarrow> candidate_evaluation list \<Rightarrow>
   candidate_evaluation list result" where
  \<comment> \<open>\<open>sorted(eligible, key=...)\<close>: the keys first, then a stable sort\<close>
  "rank_candidates entries order eligible =
     bind_r (traverse (\<lambda>c. bind_r (effort_by_identity entries (cv_identity c)) (\<lambda>r.
               Inr (candidate_ranking_key c order r, c))) eligible) (\<lambda>keyed.
       Inr (map snd (sort_key fst keyed)))"

definition assemble_evaluations ::
  "zones \<Rightarrow> model_catalog \<Rightarrow> task_requirement \<Rightarrow> selector_policy \<Rightarrow> py_datetime \<Rightarrow>
   candidate_evaluation list \<Rightarrow> string option \<Rightarrow> int option \<Rightarrow> selection_decision result" where
  "assemble_evaluations zs catalog req policy at evaluations profile_id profile_version =
     (let entries = sort_key entry_key (mc_entries catalog); rp = sp_resource_policy policy;
          cand_key = (\<lambda>c. identity_key (cv_identity c)) in
      if set (map entry_key entries) \<noteq> set (map cand_key evaluations)
         \<or> length entries \<noteq> length evaluations
      then Inl (sel_exn ''candidate evaluations'')
      else
        (let sorted = sort_key cand_key evaluations; excluded = filter (\<lambda>c. \<not> cv_eligible c) sorted in
         bind_r (rank_candidates entries (sp_preference_order policy) (filter cv_eligible sorted)) (\<lambda>ranked.
         let selected = (case ranked of [] \<Rightarrow> None | c # _ \<Rightarrow> Some c);
             degraded = (case selected of None \<Rightarrow> False | Some c \<Rightarrow> cv_degraded c);
             codes = (case selected of
                        None \<Rightarrow> [Se_no_eligible]
                      | Some c \<Rightarrow> sort_key selection_reason_str
                          ([Se_selected_balanced] @ (if cv_degraded c then [Se_selected_degraded] else []))) in
         bind_r (if selected \<noteq> None then Inr [] else closest_candidates excluded) (\<lambda>closest.
         bind_r (expired_ids (happy_hour_expired_at zs) (up_happy_hours rp) at) (\<lambda>expired_happy.
         bind_r (expired_ids (blackout_expired_at zs) (up_blackouts rp) at) (\<lambda>expired_black.
           mk_decision \<lparr>sd_evaluated_at = at, sd_requirement = req,
             sd_catalog_version = mc_catalog_version catalog,
             sd_catalog_updated_on = mc_updated_on catalog, sd_selector_mode = sp_mode policy,
             sd_resource_policy_version = up_policy_version rp, sd_selected = selected,
             sd_alternatives = drop 1 ranked, sd_excluded = excluded,
             sd_closest_candidates = closest,
             sd_recoverable_candidates = filter recoverable_candidate excluded,
             sd_degraded = degraded, sd_reason_codes = codes, sd_profile_id = profile_id,
             sd_profile_policy_version = profile_version,
             sd_preference_order = sp_preference_order policy,
             sd_expired_happy_hour_rules = expired_happy,
             sd_expired_blackout_rules = expired_black\<rparr>))))))"

section \<open>The selector\<close>

definition select_model ::
  "zones \<Rightarrow> model_catalog \<Rightarrow> task_requirement \<Rightarrow> selector_policy \<Rightarrow> capacity_snapshot list \<Rightarrow>
   py_datetime \<Rightarrow> replenishment_state list \<Rightarrow> execution_eligibility list \<Rightarrow> string option \<Rightarrow>
   int option \<Rightarrow> model_identity set option \<Rightarrow> selection_decision result" where
  "select_model zs catalog req policy snapshots at states reports profile_id profile_version blocked =
     bind_r (v_aware_datetime sel_exn at ''select_model.evaluated_at'') (\<lambda>_.
     bind_r (seen_check (sel_exn ''select_model.snapshots'') {} (map sn_provider snapshots)) (\<lambda>_.
     bind_r (seen_check (sel_exn ''select_model.eligibility_reports'') {} (map ee_provider reports)) (\<lambda>_.
     bind_r (seen_check (sel_exn ''select_model.replenishment_states'') {}
               (map (\<lambda>s. (rp_provider s, rp_kind s)) states)) (\<lambda>_.
     bind_r (case profile_id of
               None \<Rightarrow> Inr ()
             | Some p \<Rightarrow> bind_r (v_nonempty_str sel_exn (PStr p) ''select_model.profile_id'') (\<lambda>_. Inr ())) (\<lambda>_.
     bind_r (traverse (\<lambda>e. evaluate_candidate zs e req policy snapshots
                   (sort_key (\<lambda>s. (rp_provider s, rp_kind s)) states) at
                   (sort_key ee_provider reports) blocked)
               (sort_key entry_key (mc_entries catalog))) (\<lambda>evaluations.
       assemble_evaluations zs catalog req policy at evaluations profile_id profile_version))))))"

section \<open>One selection as a function of its inputs\<close>

definition unique_inputs :: "selection_input \<Rightarrow> bool" where
  "unique_inputs x =
     (distinct (map sn_provider (si_snapshots x)) \<and> distinct (map ee_provider (si_reports x))
      \<and> distinct (map (\<lambda>s. (rp_provider s, rp_kind s)) (si_states x)))"

definition canon_input :: "selection_input \<Rightarrow> selection_input" where
  "canon_input x = x\<lparr>si_states := sort_key (\<lambda>s. (rp_provider s, rp_kind s)) (si_states x),
     si_reports := sort_key ee_provider (si_reports x)\<rparr>"

definition select_with ::
  "zones \<Rightarrow> model_catalog \<Rightarrow> selection_input \<Rightarrow> string option \<Rightarrow> int option \<Rightarrow> selection_decision result" where
  "select_with zs catalog x pid pver =
     select_model zs catalog (si_requirement x) (si_policy x) (si_snapshots x) (Aware (si_instant x))
       (si_states x) (si_reports x) pid pver (si_blocked x)"

definition candidate_result :: "zones \<Rightarrow> selection_input \<Rightarrow> model_catalog_entry \<Rightarrow> candidate_evaluation" where
  "candidate_result zs x e = projr (evaluate_with zs (canon_input x) e)"

lemma find_key:
  "find (\<lambda>r. f r = p) xs = map_of (map (\<lambda>r. (f r, r)) xs) p"
  by (induction xs) auto

lemma find_key_sorted:
  fixes f :: "'a \<Rightarrow> 'b::linorder"
  assumes "distinct (map f xs)"
  shows "find (\<lambda>r. f r = p) (sort_key f xs) = find (\<lambda>r. f r = p) xs"
proof -
  have "map_of (map (\<lambda>r. (f r, r)) (sort_key f xs)) = map_of (map (\<lambda>r. (f r, r)) xs)"
    using assms catalog_of_sorted [OF assms]
    by (subst map_of_inject_set) (simp_all add: comp_def)
  then show ?thesis by (simp add: find_key)
qed

lemma canon_input_simps [simp]:
  "si_requirement (canon_input x) = si_requirement x" "si_policy (canon_input x) = si_policy x"
  "si_snapshots (canon_input x) = si_snapshots x" "si_instant (canon_input x) = si_instant x"
  "si_blocked (canon_input x) = si_blocked x" "si_resource (canon_input x) = si_resource x"
  "entry_assessment (canon_input x) e = entry_assessment x e"
  "entry_reservations (canon_input x) e = entry_reservations x e"
  "recoverable_now (canon_input x) e = recoverable_now x e"
  "valid_input zs (canon_input x) = valid_input zs x"
  by (simp_all add: canon_input_def si_resource_def entry_assessment_def entry_reservations_def
      recoverable_now_def valid_input_def list_ex_iff)

lemma gate_canon: "unique_inputs x \<Longrightarrow> gate zs (canon_input x) e s = gate zs x e s"
  by (cases s) (auto simp: unique_inputs_def canon_input_def find_key_sorted si_resource_def
      entry_assessment_def entry_reservations_def)

lemma first_failed_canon: "unique_inputs x \<Longrightarrow> first_failed zs (canon_input x) e = first_failed zs x e"
  by (simp add: first_failed_def gate_canon)

lemma candidate_result_facts:
  assumes "valid_input zs x" "valid_entry e" "unique_inputs x"
  shows "evaluate_with zs (canon_input x) e = Inr (candidate_result zs x e)"
    and "candidate_facts zs x e (first_failed zs x e) (candidate_result zs x e)"
proof -
  obtain c where c: "evaluate_with zs (canon_input x) e = Inr c"
    "candidate_facts zs (canon_input x) e (first_failed zs (canon_input x) e) c"
    using evaluate_candidate_run [of zs "canon_input x" e] assms by (auto simp: unique_inputs_def)
  then show "evaluate_with zs (canon_input x) e = Inr (candidate_result zs x e)"
    by (simp add: candidate_result_def)
  with c show "candidate_facts zs x e (first_failed zs x e) (candidate_result zs x e)"
    by (simp add: first_failed_canon assms(3) candidate_facts_def)
qed

lemma candidate_result_identity [simp]:
  assumes "valid_input zs x" "valid_entry e" "unique_inputs x"
  shows "cv_identity (candidate_result zs x e) = ce_identity e"
    "cv_reasoning_effort (candidate_result zs x e) = ce_reasoning_effort e"
    "cv_eligible (candidate_result zs x e) \<longleftrightarrow> gates_open zs x e"
    "cv_exclusion_stage (candidate_result zs x e) = first_failed zs x e"
  using candidate_result_facts(2) [OF assms] by (simp_all add: candidate_facts_def first_failed_None)

section \<open>Sorting by a computed key\<close>

lemma insort_map_key: "insort_key fst (f c, c) (map (\<lambda>c. (f c, c)) xs) = map (\<lambda>c. (f c, c)) (insort_key f c xs)"
  for f :: "'a \<Rightarrow> 'b::linorder"
  by (induction xs) auto

lemma sort_map_key: "sort_key fst (map (\<lambda>c. (f c, c)) xs) = map (\<lambda>c. (f c, c)) (sort_key f xs)"
  for f :: "'a \<Rightarrow> 'b::linorder"
  by (induction xs) (simp_all add: insort_map_key)

lemma traverse_pair: "(\<And>c. c \<in> set cs \<Longrightarrow> g c = Inr (h c)) \<Longrightarrow> traverse g cs = Inr (map h cs)"
  by (rule traverse_total)

lemma effort_found:
  assumes "distinct (map entry_key es)" "e \<in> set es"
  shows "effort_by_identity es (ce_identity e) = Inr (ce_reasoning_effort e)"
proof -
  have d: "distinct (map ce_identity es)"
    using assms(1) by (auto simp: distinct_map entry_key_def inj_on_def)
  have "map_of (rev (map (\<lambda>e. (ce_identity e, ce_reasoning_effort e)) es)) (ce_identity e)
      = Some (ce_reasoning_effort e)"
    using assms(2) d by (intro map_of_is_SomeI) (auto simp: comp_def simp flip: rev_map)
  then show ?thesis by (simp add: effort_by_identity_def)
qed

definition ranking :: "model_identity list \<Rightarrow> candidate_evaluation \<Rightarrow> ranking_key" where
  \<comment> \<open>the key with the effort of the candidate's own catalog entry\<close>
  "ranking order c = candidate_ranking_key c order (cv_reasoning_effort c)"

lemma rank_candidates_eq:
  assumes "distinct (map entry_key es)"
    and "\<And>c. c \<in> set cs \<Longrightarrow> \<exists>e \<in> set es. cv_identity c = ce_identity e \<and> cv_reasoning_effort c = ce_reasoning_effort e"
  shows "rank_candidates es order cs = Inr (sort_key (ranking order) cs)"
proof -
  have "effort_by_identity es (cv_identity c) = Inr (cv_reasoning_effort c)" if "c \<in> set cs" for c
    using assms(2) [OF that] effort_found [OF assms(1)] by auto
  then have "traverse (\<lambda>c. bind_r (effort_by_identity es (cv_identity c)) (\<lambda>r.
      Inr (candidate_ranking_key c order r, c))) cs = Inr (map (\<lambda>c. (ranking order c, c)) cs)"
    by (intro traverse_pair) (simp add: ranking_def)
  then show ?thesis by (simp add: rank_candidates_def sort_map_key comp_def)
qed

lemma rule_id_facts:
  assumes "valid_user_policy zs p"
  shows "distinct (map wr_rule_id (up_blackouts p))" "distinct (map wr_rule_id (up_happy_hours p))"
    "\<forall>r \<in> set (up_blackouts p) \<union> set (up_happy_hours p). wr_rule_id r \<noteq> []"
  using assms
  by (auto simp: valid_user_policy_def policy_rule_ids_def policy_parts_def list_all_iff
      valid_weekly_rule_def dest: safe_id_nonempty)

definition rule_expired :: "zones \<Rightarrow> int \<Rightarrow> weekly_rule \<Rightarrow> bool" where
  "rule_expired zs t r =
     (case zs (wr_timezone r) of None \<Rightarrow> False | Some off \<Rightarrow> covers off r t \<and> \<not> in_campaign off r t)"

definition expired_rules :: "zones \<Rightarrow> int \<Rightarrow> weekly_rule list \<Rightarrow> string list" where
  "expired_rules zs t rules = sort (map wr_rule_id (filter (rule_expired zs t) rules))"

lemma expired_ids_run:
  assumes "list_all (valid_weekly_rule zs) rules"
    and expired: "\<And>r. expired r (Aware t) = is_date_expired_at fld zs r (Aware t)"
  shows "expired_ids expired rules (Aware t) = Inr (expired_rules zs t rules)"
proof -
  have "expired r (Aware t) = Inr (rule_expired zs t r)" if "r \<in> set rules" for r
  proof -
    have r: "valid_weekly_rule zs r" using assms(1) that by (simp add: list_all_iff)
    then obtain off where "zs (wr_timezone r) = Some off" by (auto simp: valid_weekly_rule_def)
    with active_at_spec(2) [OF r this] show ?thesis by (simp add: expired rule_expired_def)
  qed
  then have "traverse (\<lambda>r. bind_r (expired r (Aware t)) (\<lambda>b. Inr (r, b))) rules
      = Inr (map (\<lambda>r. (r, rule_expired zs t r)) rules)"
    by (intro traverse_total) simp
  moreover have "map (\<lambda>(r, _). wr_rule_id r) (filter snd (map (\<lambda>r. (r, rule_expired zs t r)) rules))
      = map wr_rule_id (filter (rule_expired zs t) rules)"
    by (induction rules) auto
  ultimately show ?thesis by (simp add: expired_ids_def expired_rules_def)
qed

lemma expired_rules_ok:
  assumes "distinct (map wr_rule_id rules)" "\<forall>r \<in> set rules. wr_rule_id r \<noteq> []"
  shows "check_rule_ids (expired_rules zs t rules) fld = Inr ()" "sort (expired_rules zs t rules) = expired_rules zs t rules"
proof -
  have "distinct (map wr_rule_id (filter (rule_expired zs t) rules))"
    using assms(1) by (auto simp: distinct_map intro: inj_on_subset)
  with assms(2) show "check_rule_ids (expired_rules zs t rules) fld = Inr ()"
    by (auto simp: check_rule_ids_def expired_rules_def bind_r_Inr_iff each_Inr list_all_iff v_nonempty_str_def v_str_def)
  show "sort (expired_rules zs t rules) = expired_rules zs t rules"
    by (simp add: expired_rules_def sorted_sort_id)
qed

definition furthest :: "candidate_evaluation list \<Rightarrow> candidate_evaluation list" where
  \<comment> \<open>the excluded candidates at the furthest stage any of them reached\<close>
  "furthest cs = filter (\<lambda>c. \<forall>d \<in> set cs. the (cv_exclusion_stage d) \<le> the (cv_exclusion_stage c)) cs"

lemma filter_zip_map: "map snd (filter (\<lambda>(q, _). P q) (zip (map f cs) cs)) = filter (\<lambda>c. P (f c)) cs"
  by (induction cs) auto

lemma fold_max_Max: "fold max ns (n :: nat) = Max (set (n # ns))"
  by (rule Max.set_eq_fold [symmetric])

lemma closest_candidates_eq:
  assumes "\<forall>c \<in> set cs. cv_exclusion_stage c \<noteq> None"
  shows "closest_candidates cs = Inr (take 3 (furthest cs))"
proof -
  let ?p = "\<lambda>c. stage_progress (the (cv_exclusion_stage c))"
  have ps: "traverse progress_of cs = Inr (map ?p cs)"
    using assms by (intro traverse_total) (auto simp: progress_of_def)
  show ?thesis
  proof (cases cs)
    case (Cons d ds)
    have "fold max (map ?p ds) (?p d) = ?p c \<longleftrightarrow> (\<forall>c' \<in> set cs. ?p c' \<le> ?p c)" if "c \<in> set cs" for c
      using that unfolding fold_max_Max Cons by (subst eq_commute) (auto simp: Max_eq_iff)
    then have "filter (\<lambda>c. ?p c = fold max (map ?p ds) (?p d)) cs = furthest cs"
      unfolding furthest_def less_eq_exclusion_stage_def
      by (intro filter_cong) (auto simp: eq_commute)
    with ps Cons filter_zip_map [of "\<lambda>q. q = fold max (map ?p ds) (?p d)" ?p cs] show ?thesis
      by (simp add: closest_candidates_def Let_def)
  qed (simp add: closest_candidates_def furthest_def)
qed

section \<open>The decision as a function of the candidates\<close>

definition candidates :: "zones \<Rightarrow> model_catalog \<Rightarrow> selection_input \<Rightarrow> candidate_evaluation list" where
  "candidates zs catalog x = map (candidate_result zs x) (sort_key entry_key (mc_entries catalog))"

definition ranked_candidates :: "zones \<Rightarrow> model_catalog \<Rightarrow> selection_input \<Rightarrow> candidate_evaluation list" where
  "ranked_candidates zs catalog x =
     sort_key (ranking (sp_preference_order (si_policy x))) (filter cv_eligible (candidates zs catalog x))"

definition excluded_candidates :: "zones \<Rightarrow> model_catalog \<Rightarrow> selection_input \<Rightarrow> candidate_evaluation list" where
  "excluded_candidates zs catalog x = filter (\<lambda>c. \<not> cv_eligible c) (candidates zs catalog x)"

definition outcome_codes :: "candidate_evaluation option \<Rightarrow> selection_reason list" where
  "outcome_codes selected =
     (case selected of
        None \<Rightarrow> [Se_no_eligible]
      | Some c \<Rightarrow> if cv_degraded c then [Se_selected_balanced, Se_selected_degraded] else [Se_selected_balanced])"

definition decision_for ::
  "zones \<Rightarrow> model_catalog \<Rightarrow> selection_input \<Rightarrow> string option \<Rightarrow> int option \<Rightarrow> selection_decision" where
  "decision_for zs catalog x pid pver =
     (let ranked = ranked_candidates zs catalog x; excluded = excluded_candidates zs catalog x;
          selected = (case ranked of [] \<Rightarrow> None | c # _ \<Rightarrow> Some c) in
      \<lparr>sd_evaluated_at = Aware (si_instant x), sd_requirement = si_requirement x,
        sd_catalog_version = mc_catalog_version catalog, sd_catalog_updated_on = mc_updated_on catalog,
        sd_selector_mode = sp_mode (si_policy x),
        sd_resource_policy_version = up_policy_version (si_resource x), sd_selected = selected,
        sd_alternatives = drop 1 ranked, sd_excluded = excluded,
        sd_closest_candidates = (if selected = None then take 3 (furthest excluded) else []),
        sd_recoverable_candidates = filter recoverable_candidate excluded,
        sd_degraded = (case selected of None \<Rightarrow> False | Some c \<Rightarrow> cv_degraded c),
        sd_reason_codes = outcome_codes selected, sd_profile_id = pid, sd_profile_policy_version = pver,
        sd_preference_order = sp_preference_order (si_policy x),
        sd_expired_happy_hour_rules = expired_rules zs (si_instant x) (up_happy_hours (si_resource x)),
        sd_expired_blackout_rules = expired_rules zs (si_instant x) (up_blackouts (si_resource x))\<rparr>)"

definition valid_selection :: "zones \<Rightarrow> model_catalog \<Rightarrow> selection_input \<Rightarrow> bool" where
  "valid_selection zs catalog x = (valid_input zs x \<and> valid_catalog catalog)"

definition profile_ok :: "string option \<Rightarrow> int option \<Rightarrow> bool" where
  "profile_ok pid pver = (pid \<noteq> Some [] \<and> (pid \<noteq> None \<or> pver = None))"

lemma valid_selection_entries:
  assumes "valid_selection zs catalog x"
  shows "list_all valid_entry (mc_entries catalog)" "distinct (map entry_key (mc_entries catalog))"
    "distinct (map entry_key (sort_key entry_key (mc_entries catalog)))"
  using assms catalog_of_sorted [of entry_key "mc_entries catalog"]
  by (simp_all add: valid_selection_def valid_catalog_def)

lemma candidate_from_entry:
  assumes "valid_selection zs catalog x" "unique_inputs x" "c \<in> set (candidates zs catalog x)"
  shows "\<exists>e \<in> set (mc_entries catalog). valid_entry e \<and> c = candidate_result zs x e
    \<and> cv_identity c = ce_identity e \<and> cv_reasoning_effort c = ce_reasoning_effort e
    \<and> cv_exclusion_stage c = first_failed zs x e \<and> (cv_eligible c \<longleftrightarrow> gates_open zs x e)
    \<and> candidate_facts zs x e (first_failed zs x e) c"
proof -
  from assms(3) obtain e where e: "e \<in> set (mc_entries catalog)" "c = candidate_result zs x e"
    by (auto simp: candidates_def)
  have v: "valid_entry e" "valid_input zs x"
    using e(1) valid_selection_entries(1) [OF assms(1)] assms(1)
    by (auto simp: list_all_iff valid_selection_def)
  show ?thesis
    using e v candidate_result_identity [OF v(2,1) assms(2)] candidate_result_facts(2) [OF v(2,1) assms(2)]
    by (intro bexI [of _ e]) simp_all
qed

lemma candidate_keys:
  assumes "valid_selection zs catalog x" "unique_inputs x"
  shows "map (\<lambda>c. identity_key (cv_identity c)) (candidates zs catalog x)
    = map entry_key (sort_key entry_key (mc_entries catalog))"
proof -
  have "identity_key (cv_identity (candidate_result zs x e)) = entry_key e" if "e \<in> set (mc_entries catalog)" for e
    using that assms valid_selection_entries(1) [OF assms(1)]
    by (simp add: list_all_iff valid_selection_def entry_key_def)
  then show ?thesis by (simp add: candidates_def)
qed

lemma ranked_rank:
  assumes "valid_selection zs catalog x" "unique_inputs x"
  shows "rank_candidates (sort_key entry_key (mc_entries catalog)) order (filter cv_eligible (candidates zs catalog x))
    = Inr (sort_key (ranking order) (filter cv_eligible (candidates zs catalog x)))"
  using candidate_from_entry [OF assms]
  by (intro rank_candidates_eq valid_selection_entries(3) [OF assms(1)]) fastforce

lemma outcome_codes_sorted:
  "(case s of None \<Rightarrow> [Se_no_eligible]
    | Some c \<Rightarrow> sort_key selection_reason_str
        ([Se_selected_balanced] @ (if cv_degraded c then [Se_selected_degraded] else []))) = outcome_codes s"
  "v_selection_codes (outcome_codes s) fld = Inr (outcome_codes s)"
  by (cases s; simp add: outcome_codes_def v_selection_codes_Inr)+

lemma all_excluded_Inr: "all_excluded cs = Inr u \<longleftrightarrow> (\<forall>c \<in> set cs. \<not> cv_eligible c)"
  by (auto simp: all_excluded_def each_Inr list_all_iff)

lemma ranked_facts:
  assumes "valid_selection zs catalog x" "unique_inputs x"
  shows "distinct (map cv_identity (ranked_candidates zs catalog x))"
    "\<forall>c \<in> set (ranked_candidates zs catalog x). cv_eligible c"
    "\<forall>c \<in> set (excluded_candidates zs catalog x). \<not> cv_eligible c \<and> cv_exclusion_stage c \<noteq> None"
proof -
  have "distinct (map (\<lambda>c. identity_key (cv_identity c)) (candidates zs catalog x))"
    using candidate_keys [OF assms] valid_selection_entries(3) [OF assms(1)] by simp
  then have d: "distinct (map cv_identity (candidates zs catalog x))"
    by (auto simp: distinct_map inj_on_def)
  then have "distinct (map cv_identity (filter cv_eligible (candidates zs catalog x)))"
    by (auto simp: distinct_map intro: inj_on_subset)
  moreover have "mset (map cv_identity (ranked_candidates zs catalog x))
      = mset (map cv_identity (filter cv_eligible (candidates zs catalog x)))"
    by (simp add: ranked_candidates_def)
  ultimately show "distinct (map cv_identity (ranked_candidates zs catalog x))"
    using mset_eq_imp_distinct_iff by blast
  show "\<forall>c \<in> set (ranked_candidates zs catalog x). cv_eligible c"
    by (simp add: ranked_candidates_def)
  show "\<forall>c \<in> set (excluded_candidates zs catalog x). \<not> cv_eligible c \<and> cv_exclusion_stage c \<noteq> None"
    using candidate_from_entry [OF assms] first_failed_None
    by (fastforce simp: excluded_candidates_def)
qed

lemma outcome_checked:
  assumes "valid_selection zs catalog x" "unique_inputs x"
  shows "check_outcome (decision_for zs catalog x pid pver)
    (outcome_codes (sd_selected (decision_for zs catalog x pid pver))) = Inr ()"
proof (cases "ranked_candidates zs catalog x")
  case Nil
  then show ?thesis by (simp add: decision_for_def Let_def check_outcome_def outcome_codes_def)
next
  case (Cons c cs)
  with ranked_facts(1,2) [OF assms] have "\<forall>d \<in> set cs. cv_eligible d \<and> cv_identity d \<noteq> cv_identity c"
    by (auto simp: image_iff)
  with Cons show ?thesis
    by (auto simp: decision_for_def Let_def check_outcome_def outcome_codes_def each_Inr list_all_iff)
qed

lemma provenance_checked:
  assumes "valid_selection zs catalog x"
    and fields: "sd_catalog_version d = mc_catalog_version catalog" "sd_catalog_updated_on d = mc_updated_on catalog"
  shows "check_catalog_provenance d = Inr ()"
proof (cases "mc_catalog_version catalog")
  case None
  with assms show ?thesis by (simp add: check_catalog_provenance_def valid_selection_def valid_catalog_def)
next
  case (Some n)
  with assms obtain s where s: "mc_updated_on catalog = Some s" "date_ok s" "1 \<le> n"
    by (auto simp: valid_selection_def valid_catalog_def)
  then have "s \<noteq> []" using fits_length [OF date_ok_fits [OF s(2)]] by auto
  with s Some fields show ?thesis
    by (simp add: check_catalog_provenance_def v_int_def v_nonempty_str_def v_str_def)
qed

lemma mk_decision_checked:
  assumes "sd_evaluated_at d = Aware t" and "check_catalog_provenance d = Inr ()"
    and version: "1 \<le> sd_resource_policy_version d"
    and eligible: "case sd_selected d of None \<Rightarrow> True | Some s \<Rightarrow> cv_eligible s"
    and "v_selection_codes (sd_reason_codes d) ''selection_decision.reason_codes'' = Inr (sd_reason_codes d)"
    and "check_outcome d (sd_reason_codes d) = Inr ()" and "all_excluded (sd_excluded d) = Inr ()"
    and "all_excluded (sd_closest_candidates d) = Inr ()"
    and "all_excluded (sd_recoverable_candidates d) = Inr ()"
    and pref: "distinct (sd_preference_order d)"
    and "\<And>l. check_rule_ids (sd_expired_happy_hour_rules d) l = Inr ()"
    and "\<And>l. check_rule_ids (sd_expired_blackout_rules d) l = Inr ()"
    and "sort (sd_expired_happy_hour_rules d) = sd_expired_happy_hour_rules d"
    and "sort (sd_expired_blackout_rules d) = sd_expired_blackout_rules d"
  shows "mk_decision d =
    (if sd_profile_id d = None \<and> sd_profile_policy_version d \<noteq> None then decision_error else Inr d)"
proof -
  have v: "v_int sel_exn (Some 1) None (PInt (sd_resource_policy_version d)) l
      = Inr (sd_resource_policy_version d)" for l
    using version by (simp add: v_int_def)
  have p: "seen_check e {} (map identity_key (sd_preference_order d)) = Inr ()" for e
    using pref by simp
  have g: "guard_r (case sd_selected d of None \<Rightarrow> True | Some s \<Rightarrow> cv_eligible s) e = Inr ()" for e
    using eligible by (simp only: guard_r_def if_True)
  show ?thesis
    unfolding mk_decision_def assms(1,2,5-9,11-14) v p g v_aware_datetime_Aware bind_r.simps
    by (cases "sd_profile_id d"; cases "sd_profile_policy_version d") simp_all
qed

lemma decision_valid:
  assumes sel: "valid_selection zs catalog x" and u: "unique_inputs x"
  shows "mk_decision (decision_for zs catalog x pid pver) =
    (if pid = None \<and> pver \<noteq> None then decision_error else Inr (decision_for zs catalog x pid pver))"
proof -
  let ?d = "decision_for zs catalog x pid pver"
  have p: "valid_user_policy zs (si_resource x)" "distinct (sp_preference_order (si_policy x))"
    "1 \<le> up_policy_version (si_resource x)"
    using sel by (simp_all add: valid_selection_def valid_input_def valid_selector_policy_def
        selector_policy_parts_def si_resource_def valid_user_policy_def)
  note shape = decision_for_def Let_def
  have "sd_reason_codes ?d = outcome_codes (sd_selected ?d)" by (simp add: shape)
  moreover have "check_catalog_provenance ?d = Inr ()"
    by (rule provenance_checked [OF sel]) (simp_all add: shape)
  moreover have "case sd_selected ?d of None \<Rightarrow> True | Some s \<Rightarrow> cv_eligible s"
    using ranked_facts(2) [OF sel u] by (simp add: shape split: list.splits)
  moreover have "all_excluded (sd_excluded ?d) = Inr ()" "all_excluded (sd_closest_candidates ?d) = Inr ()"
    "all_excluded (sd_recoverable_candidates ?d) = Inr ()"
    using ranked_facts(3) [OF sel u]
    by (auto simp: all_excluded_Inr shape furthest_def dest: in_set_takeD)
  moreover have "check_rule_ids (sd_expired_happy_hour_rules ?d) l = Inr ()"
    "check_rule_ids (sd_expired_blackout_rules ?d) l = Inr ()"
    "sort (sd_expired_happy_hour_rules ?d) = sd_expired_happy_hour_rules ?d"
    "sort (sd_expired_blackout_rules ?d) = sd_expired_blackout_rules ?d" for l
    using rule_id_facts [OF p(1)] expired_rules_ok by (simp_all add: shape)
  ultimately have "mk_decision ?d = (if sd_profile_id ?d = None \<and> sd_profile_policy_version ?d \<noteq> None
      then decision_error else Inr ?d)"
    using p outcome_checked [OF sel u, of pid pver] outcome_codes_sorted(2)
    by (intro mk_decision_checked) (simp_all add: shape)
  then show ?thesis by (simp add: shape)
qed


lemma assemble_run:
  assumes sel: "valid_selection zs catalog x" and u: "unique_inputs x"
  shows "assemble_evaluations zs catalog (si_requirement x) (si_policy x) (Aware (si_instant x))
      (candidates zs catalog x) pid pver = mk_decision (decision_for zs catalog x pid pver)"
proof -
  let ?es = "sort_key entry_key (mc_entries catalog)" and ?cs = "candidates zs catalog x"
  let ?key = "\<lambda>c. identity_key (cv_identity c)"
  note keys = candidate_keys [OF sel u]
  have same: "set (map entry_key ?es) = set (map ?key ?cs)" "length ?es = length ?cs"
    using keys by (metis, metis length_map)
  have sorted: "sort_key ?key ?cs = ?cs" using keys by simp
  have ranked: "rank_candidates ?es (sp_preference_order (si_policy x)) (filter cv_eligible ?cs)
      = Inr (ranked_candidates zs catalog x)"
    by (simp add: ranked_rank [OF sel u] ranked_candidates_def)
  have closest: "closest_candidates (excluded_candidates zs catalog x)
      = Inr (take 3 (furthest (excluded_candidates zs catalog x)))"
    using ranked_facts(3) [OF sel u] by (intro closest_candidates_eq) blast
  have p: "list_all (valid_weekly_rule zs) (up_blackouts (si_resource x))"
    "list_all (valid_weekly_rule zs) (up_happy_hours (si_resource x))"
    using sel valid_input_policy by (auto simp: valid_selection_def)
  have expired: "expired_ids (happy_hour_expired_at zs) (up_happy_hours (si_resource x)) (Aware (si_instant x))
      = Inr (expired_rules zs (si_instant x) (up_happy_hours (si_resource x)))"
    "expired_ids (blackout_expired_at zs) (up_blackouts (si_resource x)) (Aware (si_instant x))
      = Inr (expired_rules zs (si_instant x) (up_blackouts (si_resource x)))"
    using p by (auto intro!: expired_ids_run simp: happy_hour_expired_at_def blackout_expired_at_def)
  show ?thesis
    using same sorted ranked closest expired
    by (cases "ranked_candidates zs catalog x")
      (simp_all add: assemble_evaluations_def decision_for_def Let_def si_resource_def [symmetric]
        excluded_candidates_def [symmetric] outcome_codes_def del: filter_filter)
qed

lemma candidates_run:
  assumes sel: "valid_selection zs catalog x" and u: "unique_inputs x"
  shows "traverse (\<lambda>e. evaluate_candidate zs e (si_requirement x) (si_policy x) (si_snapshots x)
      (sort_key (\<lambda>s. (rp_provider s, rp_kind s)) (si_states x)) (Aware (si_instant x))
      (sort_key ee_provider (si_reports x)) (si_blocked x)) (sort_key entry_key (mc_entries catalog))
    = Inr (candidates zs catalog x)"
proof -
  have "evaluate_with zs (canon_input x) e = Inr (candidate_result zs x e)" if "e \<in> set (mc_entries catalog)" for e
    using that sel valid_selection_entries(1) [OF sel] u
    by (intro candidate_result_facts(1)) (auto simp: valid_selection_def list_all_iff)
  then show ?thesis
    unfolding candidates_def by (intro traverse_total) (simp add: evaluate_with_def canon_input_def)
qed

lemma three_checks:
  "bind_r (if a then Inr () else Inl e1) (\<lambda>_. bind_r (if b then Inr () else Inl e2) (\<lambda>_.
     bind_r (if c then Inr () else Inl e3) (\<lambda>_. k)))
   = (if \<not> a then Inl e1 else if \<not> b then Inl e2 else if \<not> c then Inl e3 else k)"
  by (cases a; cases b; cases c) (simp_all only: if_True if_False bind_r.simps not_True_eq_False not_False_eq_True)

lemma select_run:
  assumes "valid_selection zs catalog x"
  shows "select_with zs catalog x pid pver =
    (if \<not> distinct (map sn_provider (si_snapshots x)) then Inl (sel_exn ''select_model.snapshots'')
     else if \<not> distinct (map ee_provider (si_reports x)) then Inl (sel_exn ''select_model.eligibility_reports'')
     else if \<not> distinct (map (\<lambda>s. (rp_provider s, rp_kind s)) (si_states x))
       then Inl (sel_exn ''select_model.replenishment_states'')
     else if pid = Some [] then Inl (sel_exn ''select_model.profile_id'')
     else if pid = None \<and> pver \<noteq> None then decision_error
     else Inr (decision_for zs catalog x pid pver))"
proof (cases "unique_inputs x")
  case True
  note d = True [unfolded unique_inputs_def, THEN conjunct1] True [unfolded unique_inputs_def, THEN conjunct2, THEN conjunct1]
    True [unfolded unique_inputs_def, THEN conjunct2, THEN conjunct2]
  have profile: "(case pid of None \<Rightarrow> Inr () | Some p \<Rightarrow>
      bind_r (v_nonempty_str sel_exn (PStr p) ''select_model.profile_id'') (\<lambda>_. Inr ()))
      = (if pid = Some [] then Inl (sel_exn ''select_model.profile_id'') else Inr ())"
    by (cases pid) (auto simp: v_nonempty_str_def v_str_def)
  have run: "select_with zs catalog x pid pver =
      bind_r (if pid = Some [] then Inl (sel_exn ''select_model.profile_id'') else Inr ()) (\<lambda>_.
        mk_decision (decision_for zs catalog x pid pver))"
    unfolding select_with_def select_model_def v_aware_datetime_Aware seen_check_empty
      bind_r.simps profile candidates_run [OF assms True] assemble_run [OF assms True] three_checks
    by (simp only: d not_True_eq_False if_False)
  show ?thesis
    unfolding run decision_valid [OF assms True] using d by (cases "pid = Some []") simp_all
next
  case False
  then show ?thesis
    unfolding select_with_def select_model_def v_aware_datetime_Aware seen_check_empty bind_r.simps
      three_checks unique_inputs_def
    by (cases "distinct (map sn_provider (si_snapshots x))";
        cases "distinct (map ee_provider (si_reports x))";
        cases "distinct (map (\<lambda>s. (rp_provider s, rp_kind s)) (si_states x))")
      (simp_all only: if_True if_False not_True_eq_False not_False_eq_True simp_thms)
qed

section \<open>Facts about a decision\<close>

lemma select_decision:
  assumes "valid_selection zs catalog x" "select_with zs catalog x pid pver = Inr d"
  shows "d = decision_for zs catalog x pid pver" "unique_inputs x"
  using assms(2) unfolding select_run [OF assms(1)] by (auto simp: unique_inputs_def split: if_splits)

lemma ranking_identity: "ranking order c = ranking order c' \<Longrightarrow> cv_identity c = cv_identity c'"
  by (simp add: ranking_def ranking_key_eq)

lemma ranked_strictly:
  assumes "valid_selection zs catalog x" "unique_inputs x"
  shows "sorted_wrt (<) (map (ranking (sp_preference_order (si_policy x))) (ranked_candidates zs catalog x))"
    (is "sorted_wrt (<) (map ?f ?rs)")
proof -
  have inj: "inj_on cv_identity (set ?rs)" "distinct ?rs"
    using ranked_facts(1) [OF assms] by (simp_all add: distinct_map)
  then have "distinct (map ?f ?rs)"
    by (auto simp: distinct_map inj_on_def dest: ranking_identity)
  moreover have "sorted (map ?f ?rs)" by (simp add: ranked_candidates_def)
  ultimately show ?thesis by (simp add: strict_sorted_iff)
qed

lemma eligible_entries:
  assumes "valid_selection zs catalog x" "unique_inputs x"
  shows "cv_identity ` set (ranked_candidates zs catalog x)
    = ce_identity ` {e \<in> set (mc_entries catalog). gates_open zs x e}"
proof -
  have v: "valid_input zs x" "\<And>e. e \<in> set (mc_entries catalog) \<Longrightarrow> valid_entry e"
    using assms(1) valid_selection_entries(1) [OF assms(1)] by (auto simp: valid_selection_def list_all_iff)
  have "set (ranked_candidates zs catalog x)
      = {c \<in> candidate_result zs x ` set (mc_entries catalog). cv_eligible c}"
    by (simp add: ranked_candidates_def candidates_def)
  then show ?thesis
    using candidate_result_identity [OF v(1) v(2) assms(2)] by (auto simp: image_iff) metis+
qed

lemma decision_lists:
  "(case sd_selected (decision_for zs catalog x pid pver) of None \<Rightarrow> [] | Some c \<Rightarrow> [c])
     @ sd_alternatives (decision_for zs catalog x pid pver) = ranked_candidates zs catalog x"
  "sd_selected (decision_for zs catalog x pid pver) = None \<longleftrightarrow> ranked_candidates zs catalog x = []"
  "sd_excluded (decision_for zs catalog x pid pver) = excluded_candidates zs catalog x"
  by (cases "ranked_candidates zs catalog x"; simp add: decision_for_def Let_def)+

lemma gates_open_all: "gates_open zs x e \<longleftrightarrow> (\<forall>s. gate zs x e s)"
  by (simp add: gates_open_def EXCLUSION_STAGES_def all_stages del: gate.simps)

section \<open>Properties\<close>

text \<open>
  C2: the selector is total on valid inputs. At an aware instant it fails exactly on two snapshots
  or two reports for one provider, two replenishment states for one provider and kind, an empty
  profile id, or a profile version without a profile; every other input has a decision, a decision
  without a selected candidate included. A naive instant is always rejected.
\<close>

theorem select_model_total:
  assumes "valid_selection zs catalog x"
  shows "(is_ok (select_with zs catalog x pid pver) \<longleftrightarrow> unique_inputs x \<and> profile_ok pid pver)
    \<and> (\<forall>err. select_with zs catalog x pid pver = Inl err \<longrightarrow>
         (\<exists>fld. err = SelectionContractValidationError fld))
    \<and> \<not> is_ok (select_model zs catalog (si_requirement x) (si_policy x) (si_snapshots x) (Naive t)
          (si_states x) (si_reports x) pid pver (si_blocked x))"
  unfolding select_run [OF assms]
  by (auto simp: unique_inputs_def profile_ok_def select_model_def v_aware_datetime_def)

lemma list_max_exists:
  fixes f :: "'a \<Rightarrow> 'b::linorder"
  assumes "xs \<noteq> []"
  shows "\<exists>c \<in> set xs. \<forall>d \<in> set xs. f d \<le> f c"
proof -
  have "Max (f ` set xs) \<in> f ` set xs" using assms by (intro Max_in) auto
  then obtain c where "c \<in> set xs" "f c = Max (f ` set xs)" by auto
  then show ?thesis by (intro bexI [of _ c] ballI) simp_all
qed

definition considered :: "selection_decision \<Rightarrow> candidate_evaluation list" where
  \<comment> \<open>the eligible candidates of a decision, best first\<close>
  "considered d = (case sd_selected d of None \<Rightarrow> [] | Some c \<Rightarrow> [c]) @ sd_alternatives d"

lemma considered_ranked:
  assumes "valid_selection zs catalog x" "select_with zs catalog x pid pver = Inr d"
  shows "considered d = ranked_candidates zs catalog x"
  using select_decision [OF assms] decision_lists(1) by (simp add: considered_def)

text \<open>
  C1: the selected candidate is admissible and best. The eligible candidates of the decision are
  exactly the catalog entries for which every gate is open (requirement, policy, capacity and
  reservations), strictly ordered by the balanced ranking key with the selected one first; nothing
  is selected iff no entry passes, and then the reason says so and nothing is relaxed.
\<close>

theorem selection_sound_and_best:
  assumes "valid_selection zs catalog x" and "select_with zs catalog x pid pver = Inr d"
  shows "cv_identity ` set (considered d)
      = ce_identity ` {e \<in> set (mc_entries catalog). \<forall>s. gate zs x e s}
    \<and> sorted_wrt (<) (map (ranking (sp_preference_order (si_policy x))) (considered d))
    \<and> (\<forall>c \<in> set (considered d). cv_eligible c)
    \<and> (sd_selected d = None \<longleftrightarrow> (\<forall>e \<in> set (mc_entries catalog). \<exists>s. \<not> gate zs x e s))
    \<and> (sd_selected d = None \<longrightarrow> sd_alternatives d = [] \<and> sd_reason_codes d = [Se_no_eligible])"
proof -
  note d = select_decision [OF assms]
  note ranked = considered_ranked [OF assms]
  have none: "sd_selected d = None \<longleftrightarrow> ranked_candidates zs catalog x = []"
    by (simp add: d(1) decision_lists(2))
  also have "\<dots> \<longleftrightarrow> cv_identity ` set (ranked_candidates zs catalog x) = {}" by simp
  also have "\<dots> \<longleftrightarrow> (\<forall>e \<in> set (mc_entries catalog). \<not> gates_open zs x e)"
    unfolding eligible_entries [OF assms(1) d(2)] by auto
  finally have iff: "sd_selected d = None \<longleftrightarrow> (\<forall>e \<in> set (mc_entries catalog). \<not> gates_open zs x e)" .
  have "sd_selected d = None \<longrightarrow> sd_alternatives d = [] \<and> sd_reason_codes d = [Se_no_eligible]"
    using none by (simp add: d(1) decision_for_def Let_def outcome_codes_def)
  with iff show ?thesis
    using eligible_entries [OF assms(1) d(2)] ranked_strictly [OF assms(1) d(2)]
      ranked_facts(2) [OF assms(1) d(2)] ranked
    by (simp add: gates_open_all del: gate.simps)
qed

text \<open>
  every catalog entry is accounted for exactly once, eligible or excluded; an excluded
  candidate carries the first gate that is shut for its entry; and the candidates reported
  recoverable are exactly the ones excluded for exhausted capacity whose provider has a visible,
  positive replenishment that a human can trigger.
\<close>

theorem selection_accounts_for_catalog:
  assumes "valid_selection zs catalog x" and "select_with zs catalog x pid pver = Inr d"
  shows "mset (map cv_identity (considered d @ sd_excluded d)) = mset (map ce_identity (mc_entries catalog))
    \<and> (\<forall>c \<in> set (sd_excluded d). \<exists>e \<in> set (mc_entries catalog). cv_identity c = ce_identity e
        \<and> (\<forall>s. cv_exclusion_stage c = Some s \<longleftrightarrow> \<not> gate zs x e s \<and> (\<forall>r < s. gate zs x e r)))
    \<and> cv_identity ` set (sd_recoverable_candidates d)
      = ce_identity ` {e \<in> set (mc_entries catalog). first_failed zs x e = Some Xs_capacity
          \<and> sa_state (entry_assessment x e) = Sc_unavailable \<and> recoverable_now x e}"
proof -
  note d = select_decision [OF assms]
  have v: "valid_input zs x" "\<And>e. e \<in> set (mc_entries catalog) \<Longrightarrow> valid_entry e"
    using assms(1) valid_selection_entries(1) [OF assms(1)] by (auto simp: valid_selection_def list_all_iff)
  have ex: "sd_excluded d = excluded_candidates zs catalog x" by (simp add: d(1) decision_lists(3))
  have "mset (map cv_identity (considered d @ sd_excluded d)) = mset (map cv_identity (candidates zs catalog x))"
    using multiset_partition [of "mset (candidates zs catalog x)" cv_eligible]
    by (simp add: considered_ranked [OF assms] ex ranked_candidates_def excluded_candidates_def
        flip: image_mset_union)
  also have "map cv_identity (candidates zs catalog x) = map ce_identity (sort_key entry_key (mc_entries catalog))"
    using candidate_result_identity(1) [OF v d(2)] by (simp add: candidates_def)
  finally have parts: "mset (map cv_identity (considered d @ sd_excluded d)) = mset (map ce_identity (mc_entries catalog))"
    by simp
  have stages: "\<exists>e \<in> set (mc_entries catalog). cv_identity c = ce_identity e
      \<and> (\<forall>s. cv_exclusion_stage c = Some s \<longleftrightarrow> \<not> gate zs x e s \<and> (\<forall>r < s. gate zs x e r))"
    if "c \<in> set (sd_excluded d)" for c
    using candidate_from_entry [OF assms(1) d(2), of c] that
    by (auto simp: ex excluded_candidates_def first_failed_iff simp del: gate.simps)
  have rec: "recoverable_candidate (candidate_result zs x e) \<longleftrightarrow> first_failed zs x e = Some Xs_capacity
      \<and> sa_state (entry_assessment x e) = Sc_unavailable \<and> recoverable_now x e"
    if "e \<in> set (mc_entries catalog)" for e
    using candidate_result_facts(2) [OF v(1) v(2) [OF that] d(2)]
    by (auto simp: recoverable_candidate_def candidate_facts_def measured_stage_def)
  have "set (sd_recoverable_candidates d) = candidate_result zs x ` {e \<in> set (mc_entries catalog).
      \<not> gates_open zs x e \<and> recoverable_candidate (candidate_result zs x e)}"
    using candidate_result_identity(3) [OF v d(2)]
    by (auto simp: d(1) decision_for_def Let_def excluded_candidates_def candidates_def)
  then have "cv_identity ` set (sd_recoverable_candidates d) = ce_identity ` {e \<in> set (mc_entries catalog).
      \<not> gates_open zs x e \<and> recoverable_candidate (candidate_result zs x e)}"
    using candidate_result_identity(1) [OF v d(2)] by (auto simp: image_iff)
  also have "{e \<in> set (mc_entries catalog). \<not> gates_open zs x e \<and> recoverable_candidate (candidate_result zs x e)}
      = {e \<in> set (mc_entries catalog). first_failed zs x e = Some Xs_capacity
          \<and> sa_state (entry_assessment x e) = Sc_unavailable \<and> recoverable_now x e}"
    using rec by (auto simp flip: first_failed_None)
  finally show ?thesis using parts stages by blast
qed

text \<open>
  a decision without a solution is explained by stage progress only. The closest candidates
  are excluded candidates, at most three, at a stage no excluded candidate got beyond, in identity
  order, and there is one as soon as the catalog has an entry; with a selection there are none.
\<close>

theorem no_solution_explained:
  assumes "valid_selection zs catalog x" and "select_with zs catalog x pid pver = Inr d"
  shows "(sd_selected d \<noteq> None \<longrightarrow> sd_closest_candidates d = [])
    \<and> (sd_selected d = None \<longrightarrow>
        length (sd_closest_candidates d) \<le> 3
        \<and> set (sd_closest_candidates d) \<subseteq> set (sd_excluded d)
        \<and> (\<forall>c \<in> set (sd_closest_candidates d). \<forall>c' \<in> set (sd_excluded d).
             the (cv_exclusion_stage c') \<le> the (cv_exclusion_stage c))
        \<and> sorted (map (\<lambda>c. identity_key (cv_identity c)) (sd_closest_candidates d))
        \<and> (mc_entries catalog \<noteq> [] \<longrightarrow> sd_closest_candidates d \<noteq> []))"
proof (cases "sd_selected d = None")
  case True
  note d = select_decision [OF assms]
  let ?ex = "excluded_candidates zs catalog x"
  have ex: "sd_excluded d = ?ex" by (simp add: d(1) decision_lists(3))
  have closest: "sd_closest_candidates d = take 3 (furthest ?ex)"
    using True by (simp add: d(1) decision_for_def Let_def)
  have "sorted (map (\<lambda>c. identity_key (cv_identity c)) (candidates zs catalog x))"
    by (simp add: candidate_keys [OF assms(1) d(2)])
  then have "sorted (map (\<lambda>c. identity_key (cv_identity c)) (take 3 (furthest ?ex)))"
    unfolding furthest_def excluded_candidates_def filter_filter take_map [symmetric]
    by (intro sorted_wrt_take sorted_filter)
  moreover have "furthest ?ex \<noteq> []" if ne: "mc_entries catalog \<noteq> []"
  proof -
    have "filter cv_eligible (candidates zs catalog x) = []"
      using True unfolding d(1) decision_lists(2) ranked_candidates_def sort_key_Nil_iff .
    then have "?ex = candidates zs catalog x" by (simp add: excluded_candidates_def filter_empty_conv)
    with ne have "?ex \<noteq> []" by (simp add: candidates_def flip: length_greater_0_conv)
    from list_max_exists [OF this, of "\<lambda>c. the (cv_exclusion_stage c)"] show ?thesis
      by (auto simp: furthest_def filter_empty_conv)
  qed
  ultimately show ?thesis
    using True closest ex by (auto simp: furthest_def dest: in_set_takeD)
next
  case False
  then have "sd_closest_candidates d = []"
    unfolding select_decision(1) [OF assms] by (auto simp: decision_for_def Let_def)
  with False show ?thesis by blast
qed

lemma known_assessment_penalty:
  "sa_state (entry_assessment x e) = Sc_known \<Longrightarrow> sa_penalty_units (entry_assessment x e) \<noteq> None"
  by (auto simp: entry_assessment_def assessment_of_def unknown_spec_def unavailable_spec_def known_spec_def
      Let_def split: option.splits if_splits)

lemma eligible_known:
  assumes "valid_selection zs catalog x" "unique_inputs x" "e \<in> set (mc_entries catalog)" "gates_open zs x e"
  shows "known_capacity (candidate_result zs x e) \<longleftrightarrow> sa_state (entry_assessment x e) = Sc_known"
    "cv_degraded (candidate_result zs x e) \<longleftrightarrow> sa_state (entry_assessment x e) = Sc_unknown"
    "sa_state (entry_assessment x e) \<in> {Sc_known, Sc_unknown}"
proof -
  have v: "valid_input zs x" "valid_entry e"
    using assms valid_selection_entries(1) [OF assms(1)] by (auto simp: valid_selection_def list_all_iff)
  have f: "candidate_facts zs x e None (candidate_result zs x e)"
    using candidate_result_facts(2) [OF v assms(2)] assms(4) by (simp flip: first_failed_None)
  then show "known_capacity (candidate_result zs x e) \<longleftrightarrow> sa_state (entry_assessment x e) = Sc_known"
    using known_assessment_penalty [of x e]
    by (auto simp: candidate_facts_def known_capacity_def measured_stage_def)
  show "cv_degraded (candidate_result zs x e) \<longleftrightarrow> sa_state (entry_assessment x e) = Sc_unknown"
    using f by (simp add: candidate_facts_def)
  have "gate zs x e Xs_capacity" using assms(4) by (simp add: gates_open_all del: gate.simps)
  then show "sa_state (entry_assessment x e) \<in> {Sc_known, Sc_unknown}" by (auto simp: Let_def)
qed

text \<open>
  degraded capacity is the last resort. A decision is degraded only if the policy mode is
  \<open>degraded\<close> and no admissible entry has known capacity; the reason codes then say so. Whenever
  some admissible entry has known capacity the selected candidate's capacity is known and not
  exhausted.
\<close>

theorem degraded_is_last_resort:
  assumes "valid_selection zs catalog x" and "select_with zs catalog x pid pver = Inr d"
  shows "(sd_degraded d \<longleftrightarrow>
      (\<exists>e \<in> set (mc_entries catalog). \<forall>s. gate zs x e s)
      \<and> (\<forall>e \<in> set (mc_entries catalog). (\<forall>s. gate zs x e s) \<longrightarrow> sa_state (entry_assessment x e) = Sc_unknown))
    \<and> (sd_degraded d \<longleftrightarrow> Se_selected_degraded \<in> set (sd_reason_codes d))
    \<and> (sd_degraded d \<longrightarrow> up_unknown_capacity_mode (si_resource x) = Um_degraded)"
proof -
  note d = select_decision [OF assms]
  let ?order = "sp_preference_order (si_policy x)" and ?rs = "ranked_candidates zs catalog x"
  have rs: "set ?rs = candidate_result zs x ` {e \<in> set (mc_entries catalog). gates_open zs x e}"
  proof -
    have "cv_eligible (candidate_result zs x e) = gates_open zs x e" if "e \<in> set (mc_entries catalog)" for e
      using that assms(1) valid_selection_entries(1) [OF assms(1)] d(2)
      by (intro candidate_result_identity(3)) (auto simp: valid_selection_def list_all_iff)
    then show ?thesis by (auto simp: ranked_candidates_def candidates_def)
  qed
  note known = eligible_known [OF assms(1) d(2)]
  have codes: "sd_degraded d \<longleftrightarrow> Se_selected_degraded \<in> set (sd_reason_codes d)"
    by (auto simp: d(1) decision_for_def Let_def outcome_codes_def split: option.splits list.splits)
  have main: "sd_degraded d \<longleftrightarrow> ?rs \<noteq> [] \<and> (\<forall>c \<in> set ?rs. cv_degraded c)"
  proof (cases ?rs)
    case (Cons c cs)
    have "cv_degraded c'" if "cv_degraded c" "c' \<in> set cs" for c'
    proof (rule ccontr)
      assume "\<not> cv_degraded c'"
      have "c \<in> set ?rs" "c' \<in> set ?rs" using Cons that(2) by simp_all
      then obtain e e' where e: "c = candidate_result zs x e" "e \<in> set (mc_entries catalog)" "gates_open zs x e"
        and e': "c' = candidate_result zs x e'" "e' \<in> set (mc_entries catalog)" "gates_open zs x e'"
        unfolding rs by blast
      from \<open>\<not> cv_degraded c'\<close> that(1) have "known_capacity c'" "\<not> known_capacity c"
        using known [OF e(2,3)] known [OF e'(2,3)] by (auto simp: e(1) e'(1))
      then have "ranking ?order c' < ranking ?order c" by (simp add: ranking_def ranking_key_eq)
      moreover have "ranking ?order c < ranking ?order c'"
        using ranked_strictly [OF assms(1) d(2)] Cons that(2) by simp
      ultimately show False by simp
    qed
    with Cons show ?thesis by (auto simp: d(1) decision_for_def Let_def)
  qed (simp add: d(1) decision_for_def Let_def)
  have mode: "up_unknown_capacity_mode (si_resource x) = Um_degraded"
    if "gates_open zs x e" "sa_state (entry_assessment x e) = Sc_unknown" for e
    using that by (auto simp: gates_open_def EXCLUSION_STAGES_def Let_def)
  have "?rs \<noteq> [] \<longleftrightarrow> set ?rs \<noteq> {}" by simp
  then have some: "?rs \<noteq> [] \<longleftrightarrow> (\<exists>e \<in> set (mc_entries catalog). gates_open zs x e)"
    unfolding rs by blast
  have all: "(\<forall>c \<in> set ?rs. cv_degraded c) \<longleftrightarrow>
      (\<forall>e \<in> set (mc_entries catalog). gates_open zs x e \<longrightarrow> sa_state (entry_assessment x e) = Sc_unknown)"
    unfolding rs using known(2) by blast
  have "sd_degraded d \<longrightarrow> up_unknown_capacity_mode (si_resource x) = Um_degraded"
    unfolding main some all using mode by blast
  with codes show ?thesis unfolding gates_open_all [symmetric] main some all by blast
qed

section \<open>What the decision does not depend on\<close>

lemma snapshots_perm:
  assumes "mset ss = mset ss'" "distinct (map sn_provider ss)"
  shows "assess_scarcity e ss = assess_scarcity e ss'"
    and "evaluate_reservation r ss level = evaluate_reservation r ss' level"
proof -
  have "distinct (map sn_provider ss')" using assms distinct_map_mset [OF assms(1)] by blast
  then have "snapshots_by_provider fld Map.empty ss = snapshots_by_provider fld Map.empty ss'" for fld
    using assms snapshot_map_perm [OF assms] by (simp add: snapshots_by_provider_eq)
  then show "assess_scarcity e ss = assess_scarcity e ss'"
    "evaluate_reservation r ss level = evaluate_reservation r ss' level"
    by (simp_all only: assess_scarcity_def evaluate_reservation_def)
qed

definition same_inputs :: "selection_input \<Rightarrow> selection_input \<Rightarrow> bool" where
  \<comment> \<open>equal up to the order of snapshots, replenishment states and reports\<close>
  "same_inputs x y =
     (si_requirement y = si_requirement x \<and> si_policy y = si_policy x \<and> si_instant y = si_instant x
      \<and> si_blocked y = si_blocked x \<and> mset (si_snapshots y) = mset (si_snapshots x)
      \<and> mset (si_states y) = mset (si_states x) \<and> mset (si_reports y) = mset (si_reports x))"

lemma same_inputs_unique: "same_inputs x y \<Longrightarrow>
   distinct (map sn_provider (si_snapshots y)) = distinct (map sn_provider (si_snapshots x))
   \<and> distinct (map ee_provider (si_reports y)) = distinct (map ee_provider (si_reports x))
   \<and> distinct (map (\<lambda>s. (rp_provider s, rp_kind s)) (si_states y))
       = distinct (map (\<lambda>s. (rp_provider s, rp_kind s)) (si_states x))"
  unfolding same_inputs_def by (intro conjI distinct_map_mset) simp_all

lemma same_inputs_candidates:
  assumes "same_inputs x y" "unique_inputs x"
  shows "evaluate_with zs (canon_input y) e = evaluate_with zs (canon_input x) e"
proof -
  have "sort_key ee_provider (si_reports y) = sort_key ee_provider (si_reports x)"
    "sort_key (\<lambda>s. (rp_provider s, rp_kind s)) (si_states y) = sort_key (\<lambda>s. (rp_provider s, rp_kind s)) (si_states x)"
    using assms same_inputs_unique [OF assms(1)]
    by (auto intro!: sort_key_perm_eq distinct_key_inj simp: same_inputs_def unique_inputs_def)
  moreover have "assess_scarcity e (si_snapshots y) = assess_scarcity e (si_snapshots x)"
    "evaluate_reservation r (si_snapshots y) level = evaluate_reservation r (si_snapshots x) level" for r level
    using assms snapshots_perm [of "si_snapshots x" "si_snapshots y"]
    by (simp_all add: same_inputs_def unique_inputs_def)
  ultimately show ?thesis
    using assms(1)
    by (simp add: evaluate_with_def canon_input_def evaluate_candidate_def evaluate_admission_def
        evaluate_capacity_def same_inputs_def cong: option.case_cong if_cong)
qed

text \<open>
  C17: the decision is a function of the sets of inputs. Listing the catalog entries, snapshots,
  replenishment states and eligibility reports in another order gives the same decision, the same
  error where the inputs are rejected.
\<close>

theorem selection_order_independent:
  assumes "valid_selection zs catalog x" and "same_inputs x y"
    and "mset entries = mset (mc_entries catalog)"
  shows "select_with zs (catalog\<lparr>mc_entries := entries\<rparr>) y pid pver = select_with zs catalog x pid pver"
proof -
  let ?c = "catalog\<lparr>mc_entries := entries\<rparr>"
  have sets: "set entries = set (mc_entries catalog)" "set (si_snapshots y) = set (si_snapshots x)"
    "set (si_states y) = set (si_states x)" "set (si_reports y) = set (si_reports x)"
    using assms(2,3) by (auto simp: same_inputs_def dest: mset_eq_setD)
  have v: "valid_selection zs ?c y"
    using assms sets distinct_map_mset [OF assms(3), of entry_key]
    by (cases "mc_catalog_version catalog") (simp_all add: valid_selection_def valid_input_def valid_catalog_def list_all_iff same_inputs_def)
  note u = same_inputs_unique [OF assms(2)]
  have same: "decision_for zs ?c y pid pver = decision_for zs catalog x pid pver" if "unique_inputs x"
  proof -
    have "sort_key entry_key entries = sort_key entry_key (mc_entries catalog)"
      using assms(3) valid_selection_entries(2) [OF v]
      by (intro sort_key_perm_eq) (auto dest: distinct_key_inj)
    moreover have "candidate_result zs y e = candidate_result zs x e" for e
      using same_inputs_candidates [OF assms(2) that] by (simp add: candidate_result_def)
    ultimately have "candidates zs ?c y = candidates zs catalog x" by (simp add: candidates_def)
    then show ?thesis
      using assms(2) by (simp add: decision_for_def ranked_candidates_def excluded_candidates_def
          same_inputs_def si_resource_def)
  qed
  show ?thesis
  proof (cases "unique_inputs x")
    case True
    show ?thesis unfolding select_run [OF v] select_run [OF assms(1)] same [OF True] using u by simp
  next
    case False
    then show ?thesis
      unfolding select_run [OF v] select_run [OF assms(1)] unique_inputs_def using u by auto
  qed
qed

definition same_rules :: "selection_input \<Rightarrow> selection_input \<Rightarrow> bool" where
  \<comment> \<open>equal but for preferences, advisory floor, happy hours and everything about replenishment\<close>
  "same_rules x y =
     (si_requirement y = si_requirement x \<and> si_snapshots y = si_snapshots x
      \<and> si_instant y = si_instant x \<and> si_reports y = si_reports x \<and> si_blocked y = si_blocked x
      \<and> up_reservations (si_resource y) = up_reservations (si_resource x)
      \<and> up_blackouts (si_resource y) = up_blackouts (si_resource x)
      \<and> up_unknown_capacity_mode (si_resource y) = up_unknown_capacity_mode (si_resource x))"

lemma same_rules_gate: "same_rules x y \<Longrightarrow> gate zs y e s = gate zs x e s"
  by (cases s) (simp_all add: same_rules_def entry_assessment_def entry_reservations_def)

text \<open>
  C18: preferences never admit anybody. Two selections over one catalog that differ only in the
  preference order, the advisory floor, the happy hours, the replenishment mode and the
  replenishment observations have the same eligible candidates; these inputs order and explain,
  they never restore a candidate that a requirement, a policy or exhausted capacity excluded.
\<close>

theorem preferences_never_admit:
  assumes "valid_selection zs catalog x" and "valid_selection zs catalog y" and "same_rules x y"
    and "select_with zs catalog x pid pver = Inr d" and "select_with zs catalog y pid' pver' = Inr d'"
  shows "cv_identity ` set (considered d') = cv_identity ` set (considered d)
    \<and> (sd_selected d' = None \<longleftrightarrow> sd_selected d = None)"
proof -
  note dx = select_decision [OF assms(1,4)] and dy = select_decision [OF assms(2,5)]
  have "gate zs y e = gate zs x e" for e by (rule ext) (rule same_rules_gate [OF assms(3)])
  then have "gates_open zs y e = gates_open zs x e" for e by (simp only: gates_open_def)
  then have *: "cv_identity ` set (considered d') = cv_identity ` set (considered d)"
    using considered_ranked [OF assms(1,4)] considered_ranked [OF assms(2,5)]
      eligible_entries [OF assms(1) dx(2)] eligible_entries [OF assms(2) dy(2)] by simp
  have "sd_selected d = None \<longleftrightarrow> considered d = []" "sd_selected d' = None \<longleftrightarrow> considered d' = []"
    unfolding considered_ranked [OF assms(1,4)] considered_ranked [OF assms(2,5)]
    unfolding dx(1) dy(1) decision_lists(2) by simp_all
  with * show ?thesis by (metis image_is_empty set_empty)
qed

section \<open>The properties at a concrete selection\<close>

definition sample_catalog :: model_catalog where
  "sample_catalog = \<lparr>mc_catalog_version = Some 1, mc_updated_on = Some ''2026-01-20'',
     mc_entries = [sample_entry ''m-three'' 5 None, sample_entry ''m-two'' 3 (Some [scope_b]),
       sample_entry ''m-one'' 4 (Some [scope_a, scope_b])]\<rparr>"

lemma sample_catalog_valid: "valid_catalog sample_catalog"
  by code_simp

lemma sample_selection_valid:
  "valid_selection utc_only sample_catalog (sample_input sample_snaps [])"
  "unique_inputs (sample_input sample_snaps [])"
  by (simp_all add: valid_selection_def sample_catalog_valid sample_input_valid unique_inputs_def)
    (simp_all add: sample_input_def sample_snaps_def)

lemma sample_runs:
  "\<exists>d. select_with utc_only sample_catalog (sample_input sample_snaps []) None None = Inr d"
  unfolding select_run [OF sample_selection_valid(1)]
  using sample_selection_valid(2) by (simp add: unique_inputs_def)

theorem select_model_total_witness:
  "is_ok (select_with utc_only sample_catalog (sample_input sample_snaps []) (Some ''writing'') (Some 2))
   \<and> \<not> is_ok (select_with utc_only sample_catalog (sample_input sample_snaps []) None (Some 2))"
  using select_model_total [OF sample_selection_valid(1), of "Some ''writing''" "Some 2"]
    select_model_total [OF sample_selection_valid(1), of None "Some 2"] sample_selection_valid(2)
  by (simp add: profile_ok_def)

definition outline ::
  "selection_decision result \<Rightarrow> (model_identity list \<times> model_identity list \<times> selection_reason list) option" where
  \<comment> \<open>eligible candidates best first, excluded candidates, reasons\<close>
  "outline r =
     (case r of
        Inl _ \<Rightarrow> None
      | Inr d \<Rightarrow> Some (map cv_identity (considered d), map cv_identity (sd_excluded d), sd_reason_codes d))"

abbreviation named_model :: "string \<Rightarrow> model_identity" where
  "named_model name \<equiv> ModelIdentity ''zai'' name ''base''"

lemma sample_outline:
  "outline (select_with utc_only sample_catalog (sample_input sample_snaps []) None None)
     = Some ([named_model ''m-one'', named_model ''m-two'', named_model ''m-three''], [], [Se_selected_balanced])"
  by code_simp

definition strict_input :: selection_input where
  \<comment> \<open>level L4 requires more than any entry offers\<close>
  "strict_input = (sample_input sample_snaps [])\<lparr>si_requirement := (sample_requirement L4 5)\<lparr>
     tr_capability_minima := sample_minima 5\<rparr>\<rparr>"

lemma strict_selection_valid:
  "valid_selection utc_only sample_catalog strict_input" "unique_inputs strict_input"
proof -
  have "valid_input utc_only strict_input" by code_simp
  then show "valid_selection utc_only sample_catalog strict_input"
    by (simp add: valid_selection_def sample_catalog_valid)
  show "unique_inputs strict_input" by code_simp
qed

lemma strict_outline:
  "outline (select_with utc_only sample_catalog strict_input None None)
     = Some ([], [named_model ''m-one'', named_model ''m-three'', named_model ''m-two''], [Se_no_eligible])"
  by code_simp

lemma outline_Some: "outline r = Some (cs, xs, codes) \<Longrightarrow>
   \<exists>d. r = Inr d \<and> map cv_identity (considered d) = cs \<and> map cv_identity (sd_excluded d) = xs
     \<and> sd_reason_codes d = codes"
  by (cases r) (auto simp: outline_def)

theorem selection_sound_and_best_witness:
  "\<exists>d c. select_with utc_only sample_catalog (sample_input sample_snaps []) None None = Inr d
     \<and> sd_selected d = Some c
     \<and> (\<forall>s. gate utc_only (sample_input sample_snaps []) (sample_entry ''m-one'' 4 (Some [scope_a, scope_b])) s)"
proof -
  obtain d where d: "select_with utc_only sample_catalog (sample_input sample_snaps []) None None = Inr d"
    "map cv_identity (considered d) = [named_model ''m-one'', named_model ''m-two'', named_model ''m-three'']"
    by (rule exE [OF outline_Some [OF sample_outline]]) (elim conjE, rule that)
  note sound = selection_sound_and_best [OF sample_selection_valid(1) d(1)]
  have "named_model ''m-one'' \<in> cv_identity ` set (considered d)"
    using arg_cong [OF d(2), of set] by simp
  then have "named_model ''m-one'' \<in> ce_identity `
      {e \<in> set (mc_entries sample_catalog). \<forall>s. gate utc_only (sample_input sample_snaps []) e s}"
    unfolding sound [THEN conjunct1] .
  then obtain e where e: "e \<in> set (mc_entries sample_catalog)" "ce_identity e = named_model ''m-one''"
    "\<forall>s. gate utc_only (sample_input sample_snaps []) e s" by (elim imageE CollectE conjE) simp
  from e(1,2) have entry: "e = sample_entry ''m-one'' 4 (Some [scope_a, scope_b])"
    by (auto simp: sample_catalog_def sample_entry_def)
  have "\<forall>s. gate utc_only (sample_input sample_snaps []) (sample_entry ''m-one'' 4 (Some [scope_a, scope_b])) s"
    using e(3) unfolding entry .
  moreover have "sd_selected d \<noteq> None"
    using d(2) sound [THEN conjunct2, THEN conjunct2, THEN conjunct2, THEN conjunct2]
    by (cases "sd_selected d") (simp_all add: considered_def)
  ultimately show ?thesis using d(1) by blast
qed

theorem selection_accounts_for_catalog_witness:
  "\<exists>d. select_with utc_only sample_catalog strict_input None None = Inr d
     \<and> mset (map cv_identity (considered d @ sd_excluded d)) = mset (map ce_identity (mc_entries sample_catalog))"
  using outline_Some [OF strict_outline] selection_accounts_for_catalog [OF strict_selection_valid(1)] by blast

theorem no_solution_explained_witness:
  "\<exists>d. select_with utc_only sample_catalog strict_input None None = Inr d
     \<and> sd_closest_candidates d \<noteq> [] \<and> length (sd_closest_candidates d) \<le> 3"
proof -
  obtain d where d: "select_with utc_only sample_catalog strict_input None None = Inr d"
    "map cv_identity (considered d) = []" 
    by (rule exE [OF outline_Some [OF strict_outline]]) (elim conjE, rule that)
  then have "sd_selected d = None" by (simp add: considered_def split: option.splits)
  with no_solution_explained [OF strict_selection_valid(1) d(1)] d(1) show ?thesis
    by (auto simp: sample_catalog_def)
qed

theorem degraded_is_last_resort_witness:
  "\<exists>d. select_with utc_only sample_catalog (sample_input sample_snaps []) None None = Inr d \<and> \<not> sd_degraded d"
proof -
  obtain d where d: "select_with utc_only sample_catalog (sample_input sample_snaps []) None None = Inr d"
    "sd_reason_codes d = [Se_selected_balanced]" 
    by (rule exE [OF outline_Some [OF sample_outline]]) (elim conjE, rule that)
  with degraded_is_last_resort [OF sample_selection_valid(1) d(1)] show ?thesis by auto
qed

theorem selection_order_independent_witness:
  "select_with utc_only (sample_catalog\<lparr>mc_entries := rev (mc_entries sample_catalog)\<rparr>)
     (sample_input sample_snaps []) None None
   = select_with utc_only sample_catalog (sample_input sample_snaps []) None None"
  by (rule selection_order_independent [OF sample_selection_valid(1)]) (simp_all add: same_inputs_def)

definition plain_input :: selection_input where
  \<comment> \<open>the sample without preferences, happy hours and floor\<close>
  "plain_input = (sample_input sample_snaps [])\<lparr>si_policy := sample_selector_policy\<lparr>
     sp_resource_policy := sample_policy\<lparr>up_happy_hours := []\<rparr>, sp_preference_order := [],
     sp_short_window_floor_percent := Some 0\<rparr>\<rparr>"

theorem preferences_never_admit_witness:
  "\<exists>d. select_with utc_only sample_catalog plain_input None None = Inr d
     \<and> cv_identity ` set (considered d) = {named_model ''m-one'', named_model ''m-two'', named_model ''m-three''}"
proof -
  obtain d where d: "select_with utc_only sample_catalog (sample_input sample_snaps []) None None = Inr d"
    "map cv_identity (considered d) = [named_model ''m-one'', named_model ''m-two'', named_model ''m-three'']"
    by (rule exE [OF outline_Some [OF sample_outline]]) (elim conjE, rule that)
  have "valid_input utc_only plain_input" by code_simp
  then have v: "valid_selection utc_only sample_catalog plain_input"
    by (simp add: valid_selection_def sample_catalog_valid)
  have "same_rules (sample_input sample_snaps []) plain_input"
    by (simp add: same_rules_def plain_input_def sample_input_def si_resource_def sample_selector_policy_def
        sample_policy_def)
  moreover have "unique_inputs plain_input" by code_simp
  then obtain d' where d': "select_with utc_only sample_catalog plain_input None None = Inr d'"
    unfolding select_run [OF v] by (simp add: unique_inputs_def)
  ultimately have "cv_identity ` set (considered d') = cv_identity ` set (considered d)"
    by (intro preferences_never_admit [OF sample_selection_valid(1) v _ d(1) d', THEN conjunct1])
  also have "\<dots> = set (map cv_identity (considered d))" by simp
  finally have "cv_identity ` set (considered d')
      = {named_model ''m-one'', named_model ''m-two'', named_model ''m-three''}"
    unfolding d(2) by (simp only: list.set)
  with d' show ?thesis by blast
qed

end
