(* ===== verification/Simulation.thy ===== *)
theory Simulation
  imports Selector
begin

text \<open>
  simulation.py: percentage overrides applied to copies of the baseline snapshots, and the pair of
  decisions, both made by \<open>select_model\<close>. The code compares windows by object identity
  (\<open>existing is window\<close>); an override applies only where exactly one position of the baseline
  tuple matches, so the object is the position, and positions never move.
\<close>

section \<open>Capacity percentage overrides\<close>

record capacity_override =
  co_provider :: string
  co_scope_id :: string
  co_resource :: window_resource
  co_kind :: window_kind
  co_remaining_percent :: int
  co_window_id :: "string option"

definition OVERRIDE_RESOURCES :: "window_resource list" where
  "OVERRIDE_RESOURCES = [Res_tokens, Res_time]"

definition OVERRIDE_KINDS :: "window_kind list" where
  "OVERRIDE_KINDS = [Kind_five_hour, Kind_weekly]"

definition mk_override_pct :: "capacity_override \<Rightarrow> capacity_override result" where
  "mk_override_pct ov =
     bind_r (v_policy_provider (PStr (co_provider ov)) ''capacity_percentage_override.provider'') (\<lambda>_.
     bind_r (v_safe_id sel_exn (PStr (co_scope_id ov)) ''capacity_percentage_override.scope_id'') (\<lambda>_.
     bind_r (v_enum sel_exn resource_str OVERRIDE_RESOURCES (PStr (resource_str (co_resource ov)))
               ''capacity_percentage_override.resource'') (\<lambda>_.
     bind_r (v_enum sel_exn kind_str OVERRIDE_KINDS (PStr (kind_str (co_kind ov)))
               ''capacity_percentage_override.kind'') (\<lambda>_.
     bind_r (v_pct (PInt (co_remaining_percent ov)) ''capacity_percentage_override.remaining_percent'') (\<lambda>_.
     bind_r (v_opt (v_safe_id sel_exn) (opt_py PStr (co_window_id ov))
               ''capacity_percentage_override.window_id'') (\<lambda>_.
       Inr ov))))))"

definition OVERRIDE_REQUIRED :: "string list" where
  "OVERRIDE_REQUIRED = [''provider'', ''scope_id'', ''resource'', ''kind'', ''remaining_percent'']"

definition capacity_override_from_dict :: "pyval \<Rightarrow> capacity_override result" where
  "capacity_override_from_dict d =
     bind_r (v_exact_shape sel_exn d OVERRIDE_REQUIRED [''window_id''] ''capacity_percentage_override'') (\<lambda>dd.
     bind_r (v_opt (v_safe_id sel_exn) (py_get dd ''window_id'')
               ''capacity_percentage_override.window_id'') (\<lambda>wid.
     bind_r (v_item dd ''provider'' v_policy_provider ''capacity_percentage_override.provider'') (\<lambda>provider.
     bind_r (v_item dd ''scope_id'' (v_safe_id sel_exn) ''capacity_percentage_override.scope_id'') (\<lambda>scope.
     bind_r (v_item dd ''resource'' (v_enum sel_exn resource_str OVERRIDE_RESOURCES)
               ''capacity_percentage_override.resource'') (\<lambda>res.
     bind_r (v_item dd ''kind'' (v_enum sel_exn kind_str OVERRIDE_KINDS)
               ''capacity_percentage_override.kind'') (\<lambda>kind.
     bind_r (v_item dd ''remaining_percent'' v_pct ''capacity_percentage_override.remaining_percent'') (\<lambda>rem.
       mk_override_pct \<lparr>co_provider = provider, co_scope_id = scope, co_resource = res, co_kind = kind,
         co_remaining_percent = rem, co_window_id = wid\<rparr>)))))))"

definition capacity_override_to_dict :: "capacity_override \<Rightarrow> pyval" where
  "capacity_override_to_dict ov =
     obj [(''provider'', Some (PStr (co_provider ov))),
          (''scope_id'', Some (PStr (co_scope_id ov))),
          (''resource'', Some (PStr (resource_str (co_resource ov)))),
          (''kind'', Some (PStr (kind_str (co_kind ov)))),
          (''remaining_percent'', Some (PInt (co_remaining_percent ov))),
          (''window_id'', map_option PStr (co_window_id ov))]"

definition valid_capacity_override :: "capacity_override \<Rightarrow> bool" where
  "valid_capacity_override ov =
     (safe_id_match (co_provider ov) \<and> co_provider ov \<in> set SUPPORTED_PROVIDERS
      \<and> safe_id_match (co_scope_id ov) \<and> co_resource ov \<in> set OVERRIDE_RESOURCES
      \<and> co_kind ov \<in> set OVERRIDE_KINDS \<and> pct_ok (co_remaining_percent ov)
      \<and> pred_option safe_id_match (co_window_id ov))"

lemma mk_override_pct_Inr [valid_simps]:
  "mk_override_pct ov = Inr ov' \<longleftrightarrow> ov' = ov \<and> valid_capacity_override ov"
  by (auto simp: mk_override_pct_def valid_capacity_override_def v_policy_provider_def v_pct_def
      pct_ok_def OVERRIDE_RESOURCES_def OVERRIDE_KINDS_def result_simps valid_simps)

interpretation capacity_override_contract:
  contract "\<lambda>_. True" valid_capacity_override mk_override_pct capacity_override_from_dict capacity_override_to_dict
proof unfold_locales
  fix r d
  show "capacity_override_from_dict d = Inr r \<Longrightarrow> valid_capacity_override r"
    by (auto simp: capacity_override_from_dict_def result_simps mk_override_pct_Inr)
  show "valid_capacity_override r \<Longrightarrow> capacity_override_from_dict (capacity_override_to_dict r) = Inr r"
    by (cases r) (auto simp: capacity_override_from_dict_def capacity_override_to_dict_def OVERRIDE_REQUIRED_def
        shape_simps result_simps valid_simps valid_capacity_override_def v_policy_provider_def v_pct_def pct_ok_def
        OVERRIDE_RESOURCES_def OVERRIDE_KINDS_def elim: option.pred_mono_strong)
qed (auto simp: valid_simps)

section \<open>The override record\<close>

record simulation_overrides =
  so_capacity_percentages :: "capacity_override list"
  so_selector_policy :: "selector_policy option"
  so_replenishment_states :: "replenishment_state list option"
  so_evaluated_at :: "py_datetime option"

abbreviation state_key :: "replenishment_state \<Rightarrow> string \<times> string" where
  "state_key s \<equiv> (rp_provider s, rp_kind s)"

definition mk_simulation_overrides :: "simulation_overrides \<Rightarrow> simulation_overrides result" where
  "mk_simulation_overrides o' =
     bind_r (case so_replenishment_states o' of
               None \<Rightarrow> Inr o'
             | Some ss \<Rightarrow>
                 bind_r (seen_check (sel_exn ''simulation_overrides.replenishment_states'') {} (map state_key ss)) (\<lambda>_.
                   Inr (o'\<lparr>so_replenishment_states := Some (sort_key state_key ss)\<rparr>))) (\<lambda>o''.
     case so_evaluated_at o' of
       None \<Rightarrow> Inr o''
     | Some at \<Rightarrow> bind_r (v_aware_datetime sel_exn at ''simulation_overrides.evaluated_at'') (\<lambda>_. Inr o''))"

definition simulation_overrides_to_dict :: "simulation_overrides \<Rightarrow> pyval result" where
  "simulation_overrides_to_dict o' =
     bind_r (case so_evaluated_at o' of
               None \<Rightarrow> Inr None
             | Some at \<Rightarrow> bind_r (canonical_instant at) (\<lambda>s. Inr (Some (PStr s)))) (\<lambda>at.
       Inr (obj [(''capacity_percentages'',
                    Some (PList (map capacity_override_to_dict (so_capacity_percentages o')))),
                 (''selector_policy'', map_option selector_policy_to_dict (so_selector_policy o')),
                 (''replenishment_states'',
                    map_option (\<lambda>ss. PList (map replenishment_state_to_dict ss)) (so_replenishment_states o')),
                 (''evaluated_at'', at)]))"

section \<open>Applying overrides\<close>

definition override_matches :: "capacity_override \<Rightarrow> capacity_window \<Rightarrow> bool" where
  "override_matches ov w =
     (w_scope_id w = Some (co_scope_id ov) \<and> w_resource w = co_resource ov \<and> w_kind w = co_kind ov
      \<and> (co_window_id ov = None \<or> w_window_id w = co_window_id ov))"

type_synonym override_key = "string \<times> string \<times> window_resource \<times> window_kind \<times> string option"

definition with_remaining :: "int \<Rightarrow> capacity_window \<Rightarrow> capacity_window" where
  "with_remaining n w = w\<lparr>w_used_percent := Some (100 - n), w_remaining_percent := Some n\<rparr>"

fun override_loop ::
  "(string \<rightharpoonup> capacity_snapshot) \<Rightarrow> capacity_override list \<Rightarrow> (string \<rightharpoonup> capacity_snapshot) \<Rightarrow>
   override_key set \<Rightarrow> (string \<rightharpoonup> capacity_snapshot) result" where
  "override_loop m [] res seen = Inr res"
| "override_loop m (ov # ovs) res seen =
     (let err = Inl (SimulationOverrideApplicationError ''apply_capacity_overrides''); p = co_provider ov in
      case m p of
        None \<Rightarrow> err
      | Some s \<Rightarrow>
          if sn_status s \<noteq> St_ok then err
          else case filter (\<lambda>(_, w). override_matches ov w) (enumerate 0 (sn_windows s)) of
                 [] \<Rightarrow> err
               | (i, w) # others \<Rightarrow>
                   if others \<noteq> [] then err
                   else if w_used_percent w = None \<or> w_remaining_percent w = None then err
                   else
                     (let key = (p, co_scope_id ov, co_resource ov, co_kind ov, w_window_id w) in
                      if key \<in> seen then err
                      else
                        bind_r (mk_window (with_remaining (co_remaining_percent ov) w)) (\<lambda>w'.
                        let base = (case res p of Some b \<Rightarrow> b | None \<Rightarrow> s) in
                        bind_r (mk_snapshot (base\<lparr>sn_windows := (sn_windows base)[i := w']\<rparr>)) (\<lambda>s'.
                          override_loop m ovs (res(p \<mapsto> s')) (insert key seen)))))"

definition apply_capacity_overrides ::
  "capacity_snapshot list \<Rightarrow> capacity_override list \<Rightarrow> capacity_snapshot list result" where
  "apply_capacity_overrides snapshots overrides =
     bind_r (snapshots_by_provider ''apply_capacity_overrides.snapshots'' Map.empty snapshots) (\<lambda>m.
     bind_r (override_loop m overrides Map.empty {}) (\<lambda>res.
       Inr (map (\<lambda>s. case res (sn_provider s) of Some s' \<Rightarrow> s' | None \<Rightarrow> s) snapshots)))"

section \<open>The two decisions\<close>

record simulation_result =
  sr_baseline :: selection_decision
  sr_simulated :: selection_decision
  sr_applied_overrides :: simulation_overrides

definition simulation_result_to_dict :: "simulation_result \<Rightarrow> pyval result" where
  "simulation_result_to_dict r =
     bind_r (decision_to_dict (sr_baseline r)) (\<lambda>b.
     bind_r (decision_to_dict (sr_simulated r)) (\<lambda>s.
     bind_r (simulation_overrides_to_dict (sr_applied_overrides r)) (\<lambda>a.
       Inr (obj [(''baseline'', Some b), (''simulated'', Some s), (''applied_overrides'', Some a)]))))"

definition simulate_selection ::
  "zones \<Rightarrow> model_catalog \<Rightarrow> task_requirement \<Rightarrow> selector_policy \<Rightarrow> capacity_snapshot list \<Rightarrow> py_datetime \<Rightarrow>
   simulation_overrides \<Rightarrow> replenishment_state list \<Rightarrow> execution_eligibility list \<Rightarrow> string option \<Rightarrow>
   int option \<Rightarrow> simulation_result result" where
  "simulate_selection zs catalog req policy snapshots at ovs states reports pid pver =
     bind_r (select_model zs catalog req policy snapshots at states reports pid pver None) (\<lambda>baseline.
     bind_r (if so_capacity_percentages ovs \<noteq> []
             then apply_capacity_overrides snapshots (so_capacity_percentages ovs)
             else Inr snapshots) (\<lambda>sim_snapshots.
     let sim_policy = (case so_selector_policy ovs of Some p \<Rightarrow> p | None \<Rightarrow> policy);
         sim_states = (case so_replenishment_states ovs of Some ss \<Rightarrow> ss | None \<Rightarrow> states);
         sim_at = (case so_evaluated_at ovs of Some t \<Rightarrow> t | None \<Rightarrow> at) in
     bind_r (select_model zs catalog req sim_policy sim_snapshots sim_at sim_states reports pid pver None) (\<lambda>simulated.
       Inr \<lparr>sr_baseline = baseline, sr_simulated = simulated, sr_applied_overrides = ovs\<rparr>)))"

section \<open>What overriding means\<close>

definition hits :: "capacity_override \<Rightarrow> capacity_snapshot \<Rightarrow> nat list" where
  "hits ov s = filter (\<lambda>i. override_matches ov (sn_windows s ! i)) [0..<length (sn_windows s)]"

definition applicable :: "(string \<rightharpoonup> capacity_snapshot) \<Rightarrow> capacity_override \<Rightarrow> bool" where
  \<comment> \<open>exactly one window of the provider's trusted snapshot matches, and its percentages are known\<close>
  "applicable m ov =
     (case m (co_provider ov) of
        None \<Rightarrow> False
      | Some s \<Rightarrow> sn_status s = St_ok \<and> length (hits ov s) = 1
          \<and> w_used_percent (sn_windows s ! hd (hits ov s)) \<noteq> None
          \<and> w_remaining_percent (sn_windows s ! hd (hits ov s)) \<noteq> None)"

definition place :: "(string \<rightharpoonup> capacity_snapshot) \<Rightarrow> capacity_override \<Rightarrow> string \<times> nat" where
  "place m ov = (co_provider ov, hd (hits ov (the (m (co_provider ov)))))"

definition overridden ::
  "(string \<rightharpoonup> capacity_snapshot) \<Rightarrow> capacity_override list \<Rightarrow> capacity_snapshot \<Rightarrow> capacity_snapshot" where
  "overridden m ovs s = s\<lparr>sn_windows := map (\<lambda>i.
     case find (\<lambda>ov. place m ov = (sn_provider s, i)) ovs of
       None \<Rightarrow> sn_windows s ! i
     | Some ov \<Rightarrow> with_remaining (co_remaining_percent ov) (sn_windows s ! i)) [0..<length (sn_windows s)]\<rparr>"

definition override_key :: "(string \<rightharpoonup> capacity_snapshot) \<Rightarrow> capacity_override \<Rightarrow> override_key" where
  "override_key m ov = (co_provider ov, co_scope_id ov, co_resource ov, co_kind ov,
     w_window_id (sn_windows (the (m (co_provider ov))) ! snd (place m ov)))"

lemma filter_enumerate:
  "filter (\<lambda>(_, w). P w) (enumerate 0 ws) = map (\<lambda>i. (i, ws ! i)) (filter (\<lambda>i. P (ws ! i)) [0..<length ws])"
proof -
  have "enumerate 0 ws = map (\<lambda>i. (i, ws ! i)) [0..<length ws]"
    by (rule nth_equalityI) (simp_all add: nth_enumerate_eq)
  then show ?thesis by (simp add: filter_map comp_def)
qed

lemma hits_range: "i \<in> set (hits ov s) \<longleftrightarrow> i < length (sn_windows s) \<and> override_matches ov (sn_windows s ! i)"
  by (auto simp: hits_def)

lemma single_hit: "length (hits ov s) = 1 \<Longrightarrow> hits ov s = [hd (hits ov s)]"
  by (cases "hits ov s") auto

lemma applicable_place:
  assumes "applicable m ov" "m (co_provider ov) = Some s"
  shows "hits ov s = [snd (place m ov)]" "snd (place m ov) < length (sn_windows s)"
    "override_matches ov (sn_windows s ! snd (place m ov))"
    "i < length (sn_windows s) \<Longrightarrow> override_matches ov (sn_windows s ! i) \<Longrightarrow> i = snd (place m ov)"
proof -
  show h: "hits ov s = [snd (place m ov)]"
    using assms single_hit [of ov s] by (simp add: applicable_def place_def)
  show "snd (place m ov) < length (sn_windows s)" "override_matches ov (sn_windows s ! snd (place m ov))"
    using hits_range [of "snd (place m ov)" ov s] by (simp_all add: h)
  show "i = snd (place m ov)" if "i < length (sn_windows s)" "override_matches ov (sn_windows s ! i)"
    using that hits_range [of i ov s] by (simp add: h)
qed

lemma override_key_place:
  assumes "applicable m a" "applicable m b"
  shows "override_key m a = override_key m b \<longleftrightarrow> place m a = place m b"
proof (cases "co_provider a = co_provider b")
  case True
  then obtain s where s: "m (co_provider a) = Some s" "m (co_provider b) = Some s"
    using assms(1) by (auto simp: applicable_def split: option.splits)
  note pa = applicable_place [OF assms(1) s(1)] and pb = applicable_place [OF assms(2) s(2)]
  show ?thesis
  proof
    assume k: "override_key m a = override_key m b"
    have "override_matches a (sn_windows s ! snd (place m b)) \<or> override_matches b (sn_windows s ! snd (place m a))"
      using k pa(3) pb(3) by (auto simp: override_key_def s override_matches_def)
    then have "snd (place m a) = snd (place m b)"
      using pa(4) [OF pb(2)] pb(4) [OF pa(2)] by auto
    then show "place m a = place m b" using True by (simp add: place_def)
  next
    assume p: "place m a = place m b"
    have "override_matches a (sn_windows s ! snd (place m a))" "override_matches b (sn_windows s ! snd (place m a))"
      using pa(3) pb(3) p by auto
    then show "override_key m a = override_key m b"
      using True p by (simp add: override_key_def s override_matches_def)
  qed
qed (simp add: override_key_def place_def)

lemma valid_with_remaining: "valid_window w \<Longrightarrow> pct_ok n \<Longrightarrow> valid_window (with_remaining n w)"
  by (simp add: valid_window_def with_remaining_def pct_pair_ok_def pct_ok_def)

lemma overridden_fields [simp]:
  "sn_provider (overridden m ovs s) = sn_provider s" "sn_status (overridden m ovs s) = sn_status s"
  "length (sn_windows (overridden m ovs s)) = length (sn_windows s)"
  "overridden m [] s = s"
  by (simp_all add: overridden_def map_nth)

lemma overridden_nth:
  "i < length (sn_windows s) \<Longrightarrow> sn_windows (overridden m ovs s) ! i =
     (case find (\<lambda>ov. place m ov = (sn_provider s, i)) ovs of
        None \<Rightarrow> sn_windows s ! i
      | Some ov \<Rightarrow> with_remaining (co_remaining_percent ov) (sn_windows s ! i))"
  by (simp add: overridden_def split: option.split)

lemma find_sound: "find P xs = Some x \<Longrightarrow> x \<in> set xs \<and> P x"
  by (induction xs) (auto split: if_splits)

lemma valid_overridden:
  assumes "valid_snapshot s" "list_all valid_capacity_override ovs"
  shows "valid_snapshot (overridden m ovs s)"
proof -
  have "valid_window (sn_windows (overridden m ovs s) ! i)" if "i < length (sn_windows s)" for i
  proof -
    have w: "valid_window (sn_windows s ! i)"
      using that assms(1) by (simp add: valid_snapshot_def list_all_length)
    have "pct_ok (co_remaining_percent ov)" if "find P ovs = Some ov" for P ov
      using find_sound [OF that] assms(2) by (auto simp: list_all_iff valid_capacity_override_def)
    then show ?thesis
      using w by (auto simp: overridden_nth [OF that] intro: valid_with_remaining split: option.split)
  qed
  then have "list_all valid_window (sn_windows (overridden m ovs s))"
    by (auto simp: list_all_length)
  then show ?thesis
    using assms(1) by (cases "sn_windows s") (auto simp: valid_snapshot_def overridden_def)
qed

definition after_overrides ::
  "(string \<rightharpoonup> capacity_snapshot) \<Rightarrow> capacity_override list \<Rightarrow> string \<rightharpoonup> capacity_snapshot" where
  "after_overrides m ovs p =
     (if p \<in> co_provider ` set ovs then map_option (overridden m ovs) (m p) else None)"

lemma after_overrides_none: "after_overrides m [] = Map.empty"
  by (simp add: after_overrides_def fun_eq_iff)

lemma find_append: "find P (xs @ ys) = (case find P xs of None \<Rightarrow> find P ys | Some x \<Rightarrow> Some x)"
  by (induction xs) auto

lemma overridden_snoc:
  assumes "place m ov \<notin> place m ` set done" "co_provider ov = sn_provider s"
    and "snd (place m ov) < length (sn_windows s)"
  shows "overridden m (done @ [ov]) s = (overridden m done s)\<lparr>sn_windows :=
    (sn_windows (overridden m done s))[snd (place m ov) :=
       with_remaining (co_remaining_percent ov) (sn_windows s ! snd (place m ov))]\<rparr>"
proof -
  have pl: "place m ov = (sn_provider s, i) \<longleftrightarrow> i = snd (place m ov)" for i
    using assms(2) by (auto simp: place_def)
  have new: "find (\<lambda>o'. place m o' = (sn_provider s, snd (place m ov))) done = None"
    using assms(1,2) by (force simp: find_None_iff place_def)
  have "sn_windows (overridden m (done @ [ov]) s) = (sn_windows (overridden m done s))[snd (place m ov) :=
       with_remaining (co_remaining_percent ov) (sn_windows s ! snd (place m ov))]"
  proof (rule nth_equalityI)
    fix i assume "i < length (sn_windows (overridden m (done @ [ov]) s))"
    then have i: "i < length (sn_windows s)" by simp
    show "sn_windows (overridden m (done @ [ov]) s) ! i = (sn_windows (overridden m done s))[snd (place m ov) :=
       with_remaining (co_remaining_percent ov) (sn_windows s ! snd (place m ov))] ! i"
    proof (cases "i = snd (place m ov)")
      case True
      then show ?thesis using assms(3) new by (simp add: overridden_nth find_append pl)
    next
      case False
      then show ?thesis
        using i by (simp add: overridden_nth find_append pl split: option.split)
    qed
  qed simp
  then show ?thesis by (simp add: overridden_def)
qed

lemma overridden_other:
  "co_provider ov \<noteq> sn_provider s \<Longrightarrow> overridden m (done @ [ov]) s = overridden m done s"
  by (auto simp: overridden_def place_def find_append split: option.split)

lemma after_overrides_snoc:
  assumes "\<And>p s. m p = Some s \<Longrightarrow> sn_provider s = p"
    and "m (co_provider ov) = Some s" "place m ov \<notin> place m ` set done"
    and "snd (place m ov) < length (sn_windows s)"
  shows "(after_overrides m done)(co_provider ov \<mapsto> (overridden m done s)\<lparr>sn_windows :=
      (sn_windows (overridden m done s))[snd (place m ov) :=
         with_remaining (co_remaining_percent ov) (sn_windows s ! snd (place m ov))]\<rparr>)
    = after_overrides m (done @ [ov])"
proof (rule ext)
  have p: "sn_provider s = co_provider ov" using assms(1,2) by simp
  note snoc = overridden_snoc [OF assms(3) p [symmetric] assms(4)]
  fix q
  show "((after_overrides m done)(co_provider ov \<mapsto> (overridden m done s)\<lparr>sn_windows :=
      (sn_windows (overridden m done s))[snd (place m ov) :=
         with_remaining (co_remaining_percent ov) (sn_windows s ! snd (place m ov))]\<rparr>)) q
    = after_overrides m (done @ [ov]) q"
  proof (cases "q = co_provider ov")
    case True
    then show ?thesis using assms(2) by (simp add: after_overrides_def snoc)
  next
    case False
    have "overridden m (done @ [ov]) s' = overridden m done s'" if "m q = Some s'" for s'
      using assms(1) [OF that] False by (intro overridden_other) simp
    then show ?thesis using False by (cases "m q") (auto simp: after_overrides_def)
  qed
qed

lemma override_loop_run:
  assumes "\<And>p s. m p = Some s \<Longrightarrow> sn_provider s = p \<and> valid_snapshot s"
    and "list_all valid_capacity_override (done @ ovs)"
    and "list_all (applicable m) done" and "distinct (map (place m) done)"
  shows "override_loop m ovs (after_overrides m done) (override_key m ` set done) =
    (if list_all (applicable m) ovs \<and> distinct (map (place m) (done @ ovs))
     then Inr (after_overrides m (done @ ovs))
     else Inl (SimulationOverrideApplicationError ''apply_capacity_overrides''))"
  using assms(2-4)
proof (induction ovs arbitrary: "done")
  case Nil
  then show ?case by simp
next
  case (Cons ov ovs)
  show ?case
  proof (cases "applicable m ov")
    case False
    then show ?thesis
      by (auto simp: applicable_def filter_enumerate hits_def Let_def length_Suc_conv
          split: option.splits list.splits)
  next
    case True
    then obtain s where s: "m (co_provider ov) = Some s" "sn_status s = St_ok"
      by (auto simp: applicable_def split: option.splits)
    note pl = applicable_place [OF True s(1)]
    let ?i = "snd (place m ov)"
    let ?w = "sn_windows s ! ?i"
    have known: "w_used_percent ?w \<noteq> None" "w_remaining_percent ?w \<noteq> None"
      using True by (simp_all add: applicable_def s place_def)
    have found: "filter (\<lambda>(_, w). override_matches ov w) (enumerate 0 (sn_windows s)) = [(?i, ?w)]"
      using pl(1) by (simp add: filter_enumerate hits_def)
    have key: "(co_provider ov, co_scope_id ov, co_resource ov, co_kind ov, w_window_id ?w) = override_key m ov"
      by (simp add: override_key_def s)
    have dup: "override_key m ov \<in> override_key m ` set done \<longleftrightarrow> place m ov \<in> place m ` set done"
      using Cons.prems(2) override_key_place [OF True] by (auto simp: list_all_iff)
    have vs: "valid_snapshot s" "sn_provider s = co_provider ov" using assms(1) [OF s(1)] by simp_all
    have vw: "valid_window ?w" using vs(1) pl(2) by (simp add: valid_snapshot_def list_all_length)
    have pct: "pct_ok (co_remaining_percent ov)" using Cons.prems(1) by (simp add: valid_capacity_override_def)
    have win: "mk_window (with_remaining (co_remaining_percent ov) ?w)
        = Inr (with_remaining (co_remaining_percent ov) ?w)"
      using valid_with_remaining [OF vw pct] by (simp add: mk_window_Inr)
    have base: "(case after_overrides m done (co_provider ov) of Some b \<Rightarrow> b | None \<Rightarrow> s) = overridden m done s"
    proof (cases "co_provider ov \<in> co_provider ` set done")
      case False
      then have "find (\<lambda>o'. place m o' = (sn_provider s, i)) done = None" for i
        using False by (auto simp: find_None_iff place_def vs(2) image_iff)
      then have "overridden m done s = s" by (simp add: overridden_def map_nth)
      then show ?thesis using False by (simp add: after_overrides_def)
    qed (simp add: after_overrides_def s)
    let ?s' = "(overridden m done s)\<lparr>sn_windows := (sn_windows (overridden m done s))[?i :=
        with_remaining (co_remaining_percent ov) ?w]\<rparr>"
    show ?thesis
    proof (cases "place m ov \<in> place m ` set done")
      case True
      then show ?thesis using dup known
        by (auto simp: s found key Let_def)
    next
      case False
      have s': "?s' = overridden m (done @ [ov]) s"
        using overridden_snoc [OF False vs(2) [symmetric] pl(2)] by simp
      have valid: "valid_snapshot ?s'"
        unfolding s' using Cons.prems(1) vs(1) by (intro valid_overridden) simp_all
      then have parts: "snapshot_parts ?s'"
        by (simp add: valid_snapshot_def snapshot_parts_def)
      have snap: "mk_snapshot ?s' = Inr ?s'" using mk_snapshot_Inr [OF parts] valid by simp
      have "override_loop m (ov # ovs) (after_overrides m done) (override_key m ` set done)
          = override_loop m ovs (after_overrides m (done @ [ov])) (override_key m ` set (done @ [ov]))"
        using False dup s
        by (simp add: known found key Let_def win base snap
            after_overrides_snoc [OF conjunct1 [OF assms(1)] s(1) False pl(2)])
      then show ?thesis
        using Cons.IH [of "done @ [ov]"] Cons.prems True False \<open>applicable m ov\<close> by simp
    qed
  qed
qed

lemma overrides_run:
  assumes "list_all valid_snapshot ss" "list_all valid_capacity_override ovs" "distinct (map sn_provider ss)"
  shows "apply_capacity_overrides ss ovs =
    (if list_all (applicable (snapshot_map ss)) ovs \<and> distinct (map (place (snapshot_map ss)) ovs)
     then Inr (map (overridden (snapshot_map ss) ovs) ss)
     else Inl (SimulationOverrideApplicationError ''apply_capacity_overrides''))"
proof -
  let ?m = "snapshot_map ss"
  have m: "snapshots_by_provider fld Map.empty ss = Inr ?m" for fld
    using assms(3) by (simp add: snapshots_by_provider_eq)
  have look: "?m (sn_provider s) = Some s" if "s \<in> set ss" for s
    using that assms(3) by (auto simp: snapshot_map_def comp_def intro!: map_of_is_SomeI)
  have ok: "sn_provider s = p \<and> valid_snapshot s" if "?m p = Some s" for p s
    using map_of_SomeD [OF that [unfolded snapshot_map_def]] assms(1) by (auto simp: list_all_iff)
  have loop: "override_loop ?m ovs Map.empty {} =
    (if list_all (applicable ?m) ovs \<and> distinct (map (place ?m) ovs) then Inr (after_overrides ?m ovs)
     else Inl (SimulationOverrideApplicationError ''apply_capacity_overrides''))"
    using override_loop_run [of ?m "[]" ovs, OF ok] assms(2) by (simp add: after_overrides_none)
  have "(case after_overrides ?m ovs (sn_provider s) of Some s' \<Rightarrow> s' | None \<Rightarrow> s) = overridden ?m ovs s"
    if "s \<in> set ss" for s
  proof (cases "sn_provider s \<in> co_provider ` set ovs")
    case False
    then have "find (\<lambda>ov. place ?m ov = (sn_provider s, i)) ovs = None" for i
      by (auto simp: find_None_iff place_def image_iff)
    then have "overridden ?m ovs s = s" by (simp add: overridden_def map_nth)
    then show ?thesis using False by (simp add: after_overrides_def)
  qed (simp add: after_overrides_def look [OF that])
  then show ?thesis by (simp add: apply_capacity_overrides_def m loop)
qed

fun is_aware :: "py_datetime \<Rightarrow> bool" where
  "is_aware (Naive t) = False"
| "is_aware (Aware t) = True"

lemma is_aware_iff: "is_aware at \<longleftrightarrow> (\<exists>t. at = Aware t)"
  by (cases at) simp_all

definition valid_overrides :: "zones \<Rightarrow> simulation_overrides \<Rightarrow> bool" where
  "valid_overrides zs o' =
     (list_all valid_capacity_override (so_capacity_percentages o')
      \<and> pred_option (valid_selector_policy zs) (so_selector_policy o')
      \<and> pred_option (\<lambda>ss. list_all valid_replenishment_state ss \<and> distinct (map state_key ss)
           \<and> sorted (map state_key ss)) (so_replenishment_states o')
      \<and> pred_option is_aware (so_evaluated_at o'))"

lemma mk_simulation_overrides_Inr:
  assumes "list_all valid_capacity_override (so_capacity_percentages o')"
    and "pred_option (valid_selector_policy zs) (so_selector_policy o')"
    and "pred_option (list_all valid_replenishment_state) (so_replenishment_states o')"
    and "mk_simulation_overrides o' = Inr o''"
  shows "valid_overrides zs o''"
  using assms
  by (cases "so_replenishment_states o'"; cases "so_evaluated_at o'")
    (auto simp: mk_simulation_overrides_def valid_overrides_def result_simps v_aware_datetime_def
      list_all_iff distinct_map split: py_datetime.splits if_splits)

definition simulated_input :: "selection_input \<Rightarrow> simulation_overrides \<Rightarrow> selection_input" where
  "simulated_input x o' = x\<lparr>
     si_snapshots := map (overridden (snapshot_map (si_snapshots x)) (so_capacity_percentages o')) (si_snapshots x),
     si_policy := (case so_selector_policy o' of Some p \<Rightarrow> p | None \<Rightarrow> si_policy x),
     si_states := (case so_replenishment_states o' of Some ss \<Rightarrow> ss | None \<Rightarrow> si_states x),
     si_instant := (case so_evaluated_at o' of Some (Aware t) \<Rightarrow> t | _ \<Rightarrow> si_instant x)\<rparr>"

definition simulate_with ::
  "zones \<Rightarrow> model_catalog \<Rightarrow> selection_input \<Rightarrow> simulation_overrides \<Rightarrow> string option \<Rightarrow> int option \<Rightarrow>
   simulation_result result" where
  "simulate_with zs catalog x o' pid pver =
     simulate_selection zs catalog (si_requirement x) (si_policy x) (si_snapshots x) (Aware (si_instant x))
       o' (si_states x) (si_reports x) pid pver"

definition overrides_apply :: "selection_input \<Rightarrow> simulation_overrides \<Rightarrow> bool" where
  "overrides_apply x o' \<longleftrightarrow>
     list_all (applicable (snapshot_map (si_snapshots x))) (so_capacity_percentages o')
     \<and> distinct (map (place (snapshot_map (si_snapshots x))) (so_capacity_percentages o'))"

lemma simulated_input_valid:
  assumes "valid_selection zs catalog x" "valid_overrides zs o'"
  shows "valid_selection zs catalog (simulated_input x o')"
  using assms
  by (auto simp: valid_selection_def valid_input_def simulated_input_def valid_overrides_def list_all_iff
      intro!: valid_overridden split: option.split)

lemma simulate_run:
  assumes "valid_selection zs catalog x" "si_blocked x = None" "valid_overrides zs o'"
  shows "simulate_with zs catalog x o' pid pver =
    bind_r (select_with zs catalog x pid pver) (\<lambda>b.
    if overrides_apply x o' then
      bind_r (select_with zs catalog (simulated_input x o') pid pver) (\<lambda>s.
        Inr \<lparr>sr_baseline = b, sr_simulated = s, sr_applied_overrides = o'\<rparr>)
    else Inl (SimulationOverrideApplicationError ''apply_capacity_overrides''))"
proof (cases "select_with zs catalog x pid pver")
  case (Inl e)
  then show ?thesis by (simp add: simulate_with_def simulate_selection_def select_with_def assms(2))
next
  case (Inr b)
  have d: "distinct (map sn_provider (si_snapshots x))"
    using select_decision(2) [OF assms(1) Inr] by (simp add: unique_inputs_def)
  have v: "list_all valid_snapshot (si_snapshots x)" "list_all valid_capacity_override (so_capacity_percentages o')"
    using assms(1,3) by (simp_all add: valid_selection_def valid_input_def valid_overrides_def)
  have snaps: "(if so_capacity_percentages o' \<noteq> []
      then apply_capacity_overrides (si_snapshots x) (so_capacity_percentages o') else Inr (si_snapshots x))
    = (if overrides_apply x o' then Inr (si_snapshots (simulated_input x o'))
       else Inl (SimulationOverrideApplicationError ''apply_capacity_overrides''))"
    by (simp add: overrides_run [OF v d] overrides_apply_def simulated_input_def map_idI)
  have at: "(case so_evaluated_at o' of Some t \<Rightarrow> t | None \<Rightarrow> Aware (si_instant x)) = Aware (si_instant (simulated_input x o'))"
    using assms(3) by (auto simp: valid_overrides_def simulated_input_def is_aware_iff split: option.split)
  have rest: "(case so_selector_policy o' of Some p \<Rightarrow> p | None \<Rightarrow> si_policy x) = si_policy (simulated_input x o')"
    "(case so_replenishment_states o' of Some ss \<Rightarrow> ss | None \<Rightarrow> si_states x) = si_states (simulated_input x o')"
    "si_requirement (simulated_input x o') = si_requirement x" "si_reports (simulated_input x o') = si_reports x"
    "si_blocked (simulated_input x o') = None"
    using assms(2) by (simp_all add: simulated_input_def)
  show ?thesis
    using Inr unfolding simulate_with_def simulate_selection_def snaps at rest(1,2)
    by (simp add: select_with_def assms(2) rest(3-5) Let_def)
qed

section \<open>Properties\<close>

text \<open>
  C39: overrides never invent telemetry. Applying them succeeds exactly when every override names
  one window of a trusted baseline snapshot whose percentages are known and no window is named
  twice; any other set is rejected as a whole. What comes out are valid snapshots that differ from
  the baseline in the percentages of the named windows only: no window is created, moved or
  dropped, and status, scope, reset and every other fact stay.
\<close>

theorem overrides_touch_only_their_windows:
  assumes "list_all valid_snapshot ss" and "list_all valid_capacity_override ovs"
    and "distinct (map sn_provider ss)"
  defines "m \<equiv> snapshot_map ss"
  shows "(is_ok (apply_capacity_overrides ss ovs) \<longleftrightarrow>
        list_all (applicable m) ovs \<and> distinct (map (place m) ovs))
    \<and> (\<forall>e. apply_capacity_overrides ss ovs = Inl e \<longrightarrow> (\<exists>fld. e = SimulationOverrideApplicationError fld))
    \<and> (\<forall>out. apply_capacity_overrides ss ovs = Inr out \<longrightarrow>
        list_all2 (\<lambda>s s'. valid_snapshot s' \<and> s'\<lparr>sn_windows := sn_windows s\<rparr> = s
          \<and> length (sn_windows s') = length (sn_windows s)
          \<and> (\<forall>i < length (sn_windows s).
                (\<exists>ov \<in> set ovs. place m ov = (sn_provider s, i)
                   \<and> sn_windows s' ! i = with_remaining (co_remaining_percent ov) (sn_windows s ! i))
                \<or> ((\<forall>ov \<in> set ovs. place m ov \<noteq> (sn_provider s, i)) \<and> sn_windows s' ! i = sn_windows s ! i)))
          ss out)"
proof -
  note run = overrides_run [OF assms(1-3), folded m_def]
  have same: "valid_snapshot (overridden m ovs s) \<and> (overridden m ovs s)\<lparr>sn_windows := sn_windows s\<rparr> = s
      \<and> length (sn_windows (overridden m ovs s)) = length (sn_windows s)
      \<and> (\<forall>i < length (sn_windows s).
          (\<exists>ov \<in> set ovs. place m ov = (sn_provider s, i)
             \<and> sn_windows (overridden m ovs s) ! i = with_remaining (co_remaining_percent ov) (sn_windows s ! i))
          \<or> ((\<forall>ov \<in> set ovs. place m ov \<noteq> (sn_provider s, i))
             \<and> sn_windows (overridden m ovs s) ! i = sn_windows s ! i))" if "s \<in> set ss" for s
  proof (intro conjI allI impI)
    show "valid_snapshot (overridden m ovs s)"
      using that assms(1,2) by (intro valid_overridden) (simp_all add: list_all_iff)
    show "(overridden m ovs s)\<lparr>sn_windows := sn_windows s\<rparr> = s" by (simp add: overridden_def)
    show "length (sn_windows (overridden m ovs s)) = length (sn_windows s)" by simp
    fix i assume i: "i < length (sn_windows s)"
    show "(\<exists>ov \<in> set ovs. place m ov = (sn_provider s, i)
             \<and> sn_windows (overridden m ovs s) ! i = with_remaining (co_remaining_percent ov) (sn_windows s ! i))
          \<or> ((\<forall>ov \<in> set ovs. place m ov \<noteq> (sn_provider s, i))
             \<and> sn_windows (overridden m ovs s) ! i = sn_windows s ! i)"
    proof (cases "find (\<lambda>ov. place m ov = (sn_provider s, i)) ovs")
      case None
      moreover from None have "\<forall>ov \<in> set ovs. place m ov \<noteq> (sn_provider s, i)"
        by (auto simp: find_None_iff)
      ultimately show ?thesis using i by (simp add: overridden_nth)
    next
      case (Some ov)
      then show ?thesis using i find_sound [OF Some] by (auto simp: overridden_nth)
    qed
  qed
  show ?thesis
    unfolding run using same by (auto simp: list_all2_map2 intro!: list.rel_refl_strong)
qed

definition sample_override :: capacity_override where
  "sample_override = \<lparr>co_provider = ''zai'', co_scope_id = ''coding'', co_resource = Res_tokens,
     co_kind = Kind_weekly, co_remaining_percent = 5, co_window_id = None\<rparr>"

definition sample_simulation :: simulation_overrides where
  "sample_simulation = \<lparr>so_capacity_percentages = [sample_override], so_selector_policy = None,
     so_replenishment_states = None, so_evaluated_at = None\<rparr>"

lemma sample_override_valid: "valid_overrides utc_only sample_simulation"
  by code_simp

lemma sample_override_applies: "overrides_apply (sample_input sample_snaps []) sample_simulation"
  by code_simp

theorem overrides_touch_only_their_windows_witness:
  "is_ok (apply_capacity_overrides sample_snaps [sample_override])
   \<and> \<not> is_ok (apply_capacity_overrides sample_snaps [sample_override, sample_override])"
proof -
  have "list_all valid_snapshot sample_snaps" "distinct (map sn_provider sample_snaps)" by code_simp+
  note ok = overrides_touch_only_their_windows [OF this(1) _ this(2), THEN conjunct1]
  have "list_all valid_capacity_override [sample_override]"
    "list_all valid_capacity_override [sample_override, sample_override]" by code_simp+
  note one = ok [OF this(1)] and two = ok [OF this(2)]
  have "list_all (applicable (snapshot_map sample_snaps)) [sample_override]" by code_simp
  then show ?thesis using one two by simp
qed

text \<open>
  a simulation is the baseline selection and the same selection on overridden inputs. It
  succeeds exactly when the baseline inputs are accepted, the overrides apply and the simulated
  inputs are accepted; both decisions are decisions of \<open>select_model\<close> on valid inputs, so every
  property of a selection holds of the simulated one too; without overrides the two are equal.
\<close>

theorem simulation_is_two_selections:
  assumes "valid_selection zs catalog x" and "si_blocked x = None" and "valid_overrides zs o'"
  shows "(is_ok (simulate_with zs catalog x o' pid pver) \<longleftrightarrow>
        unique_inputs x \<and> profile_ok pid pver \<and> overrides_apply x o')
    \<and> valid_selection zs catalog (simulated_input x o')
    \<and> (\<forall>r. simulate_with zs catalog x o' pid pver = Inr r \<longrightarrow>
        select_with zs catalog x pid pver = Inr (sr_baseline r)
        \<and> select_with zs catalog (simulated_input x o') pid pver = Inr (sr_simulated r)
        \<and> (so_capacity_percentages o' = [] \<and> so_selector_policy o' = None \<and> so_replenishment_states o' = None
            \<and> so_evaluated_at o' = None \<longrightarrow> sr_simulated r = sr_baseline r))"
proof -
  note sim = simulated_input_valid [OF assms(1,3)]
  note run = simulate_run [OF assms]
  have ok: "is_ok (select_with zs catalog y pid pver) \<longleftrightarrow> unique_inputs y \<and> profile_ok pid pver"
    if "valid_selection zs catalog y" for y
    using that by (simp add: select_run unique_inputs_def profile_ok_def)
  have unique: "unique_inputs (simulated_input x o')" if "unique_inputs x"
    using that assms(3)
    by (auto simp: unique_inputs_def simulated_input_def valid_overrides_def comp_def split: option.split)
  have plain: "simulated_input x o' = x"
    if "so_capacity_percentages o' = []" "so_selector_policy o' = None" "so_replenishment_states o' = None"
      "so_evaluated_at o' = None"
    using that by (simp add: simulated_input_def map_idI)
  have "is_ok (simulate_with zs catalog x o' pid pver) \<longleftrightarrow>
      unique_inputs x \<and> profile_ok pid pver \<and> overrides_apply x o'"
    using ok [OF assms(1)] ok [OF sim] unique unfolding run
    by (cases "select_with zs catalog x pid pver"; cases "select_with zs catalog (simulated_input x o') pid pver") auto
  then show ?thesis
    using sim plain unfolding run by (auto simp: result_simps split: if_splits)
qed

theorem simulation_is_two_selections_witness:
  "\<exists>r. simulate_with utc_only sample_catalog (sample_input sample_snaps []) sample_simulation None None = Inr r
     \<and> select_with utc_only sample_catalog (simulated_input (sample_input sample_snaps []) sample_simulation) None None
         = Inr (sr_simulated r)"
proof -
  have "si_blocked (sample_input sample_snaps []) = None" by (simp add: sample_input_def)
  note two = simulation_is_two_selections [OF sample_selection_valid(1) this sample_override_valid]
  have "is_ok (simulate_with utc_only sample_catalog (sample_input sample_snaps []) sample_simulation None None)"
    using two [THEN conjunct1, of None None] sample_selection_valid(2) sample_override_applies
    by (simp add: profile_ok_def)
  then obtain r where r: "simulate_with utc_only sample_catalog (sample_input sample_snaps []) sample_simulation None None = Inr r"
    unfolding is_ok_iff by (elim exE)
  show ?thesis
    by (rule exI [of _ r]) (use r two [THEN conjunct2, THEN conjunct2, THEN spec, THEN mp, OF r] in simp)
qed

end
