(* ===== verification/Continuation.thy ===== *)
theory Continuation
  imports Prelude
begin

text \<open>
  gateway_continuation.py: the registry of suspended backend turns. \<open>PendingContinuation\<close> objects
  are shared and mutable, so they live in a heap (a list; a reference is an index, allocation
  appends) and the registry's dictionary maps tokens to references. Each method of
  \<open>ContinuationRegistry\<close> is its critical section, a function on the world, together with the
  actions it performs after it has left the lock (\<open>mark_terminal\<close> and the cancel callbacks). The
  machine at the end interleaves critical sections and pending actions of any number of threads.

  Instants are microseconds on one axis. The clock reading of \<open>claim\<close> is its argument. A cancel
  callback is outside the module and documented never to raise: invoking it is recorded in a log.
  Of a record's fields the ones that only carry adapter and audit objects through are left out;
  the handle is kept as whether there is one.
\<close>

section \<open>Vocabulary and records\<close>

datatype continuation_state =
    Cn_waiting | Cn_resuming | Cn_completed | Cn_cancelled | Cn_expired | Cn_lost

fun continuation_state_str :: "continuation_state \<Rightarrow> string" where
  "continuation_state_str Cn_waiting = ''waiting_for_client_tool''"
| "continuation_state_str Cn_resuming = ''resuming''"
| "continuation_state_str Cn_completed = ''completed''"
| "continuation_state_str Cn_cancelled = ''cancelled''"
| "continuation_state_str Cn_expired = ''expired''"
| "continuation_state_str Cn_lost = ''lost''"

datatype rejection = Rj_not_found | Rj_expired | Rj_already_resolved

fun rejection_str :: "rejection \<Rightarrow> string" where
  "rejection_str Rj_not_found = ''not_found''"
| "rejection_str Rj_expired = ''expired''"
| "rejection_str Rj_already_resolved = ''already_resolved''"

definition MAX_PENDING_CONTINUATIONS :: int where "MAX_PENDING_CONTINUATIONS = 64"

definition MAX_TERMINAL_TOMBSTONES :: nat where "MAX_TERMINAL_TOMBSTONES = 256"

record pending_continuation =
  pc_continuation_token :: string
  pc_attempt_id :: string
  pc_resource_id :: string
  pc_channel :: string
  pc_call_id :: string
  pc_deadline :: int
  pc_created_at :: string
  pc_client_id :: string
  pc_model_echo :: string
  pc_reasoning_effort :: "string option"
  pc_tools_fingerprint :: "string option"
  pc_tool_choice_json :: "string option"
  pc_prefix_fingerprint :: string
  pc_assistant_tool_calls_digest :: string
  pc_has_handle :: bool
  pc_execution_requirements_digest :: "string option"
  pc_execution_output_ceiling :: "int option"
  pc_cancel_callback :: bool
  pc_state :: continuation_state

definition expired_at :: "int \<Rightarrow> pending_continuation \<Rightarrow> bool" where
  "expired_at now p = (now \<ge> pc_deadline p)"

datatype claim_outcome = Claim_resumed | Claim_busy | Claim_expired

definition claim_transition :: "int \<Rightarrow> pending_continuation \<Rightarrow> claim_outcome \<times> pending_continuation" where
  "claim_transition now p =
     (if pc_state p \<noteq> Cn_waiting then (Claim_busy, p)
      else if expired_at now p then (Claim_expired, p\<lparr>pc_state := Cn_expired\<rparr>)
      else (Claim_resumed, p\<lparr>pc_state := Cn_resuming\<rparr>))"

definition mark_terminal :: "continuation_state \<Rightarrow> pending_continuation \<Rightarrow> pending_continuation" where
  "mark_terminal s p = p\<lparr>pc_state := s\<rparr>"

definition mark_expired :: "pending_continuation \<Rightarrow> bool \<times> pending_continuation" where
  "mark_expired p = (pc_state p = Cn_waiting, p\<lparr>pc_state := Cn_expired\<rparr>)"

definition restore_waiting :: "pending_continuation \<Rightarrow> pending_continuation" where
  "restore_waiting p = (if pc_state p = Cn_resuming then p\<lparr>pc_state := Cn_waiting\<rparr> else p)"

section \<open>The registry and the world around it\<close>

text \<open>\<open>deque(maxlen=n)\<close>: appending to a full deque forgets its oldest entry.\<close>

definition deque_append :: "nat \<Rightarrow> 'a \<Rightarrow> 'a list \<Rightarrow> 'a list" where
  "deque_append n x xs = (let ys = xs @ [x] in drop (length ys - n) ys)"

type_synonym pc_ref = nat

record registry =
  rg_max_pending :: int
  rg_records :: "(string \<times> pc_ref) list"
  rg_tombstones :: "(string \<times> string) list"

datatype action = Mark_terminal pc_ref continuation_state | Run_cancel pc_ref

record world =
  wo_heap :: "pending_continuation list"
  wo_registry :: registry
  wo_threads :: "action list list"
  wo_cancelled :: "pc_ref list"

definition new_registry :: "int \<Rightarrow> registry result" where
  "new_registry n =
     (if n < 1 then Inl (ValueError ''continuation_registry'')
      else Inr \<lparr>rg_max_pending = n, rg_records = [], rg_tombstones = []\<rparr>)"

abbreviation obj_at :: "world \<Rightarrow> pc_ref \<Rightarrow> pending_continuation" where
  "obj_at w r \<equiv> wo_heap w ! r"

abbreviation records_of :: "world \<Rightarrow> (string \<times> pc_ref) list" where
  "records_of w \<equiv> rg_records (wo_registry w)"

abbreviation tombs_of :: "world \<Rightarrow> (string \<times> string) list" where
  "tombs_of w \<equiv> rg_tombstones (wo_registry w)"

definition set_obj :: "pc_ref \<Rightarrow> pending_continuation \<Rightarrow> world \<Rightarrow> world" where
  "set_obj r p w = w\<lparr>wo_heap := (wo_heap w)[r := p]\<rparr>"

definition pop_record :: "string \<Rightarrow> world \<Rightarrow> world" where
  \<comment> \<open>\<open>self._records.pop(token, None)\<close>\<close>
  "pop_record t w = w\<lparr>wo_registry := (wo_registry w)\<lparr>rg_records := filter (\<lambda>(k, _). k \<noteq> t) (records_of w)\<rparr>\<rparr>"

definition add_tombstone :: "string \<Rightarrow> string \<Rightarrow> world \<Rightarrow> world" where
  "add_tombstone t c w = w\<lparr>wo_registry := (wo_registry w)\<lparr>rg_tombstones :=
     deque_append MAX_TERMINAL_TOMBSTONES (t, c) (tombs_of w)\<rparr>\<rparr>"

definition cancel_actions :: "pc_ref \<Rightarrow> pending_continuation \<Rightarrow> action list" where
  "cancel_actions r p = (if pc_cancel_callback p then [Run_cancel r] else [])"

section \<open>The operations\<close>

definition gv_text :: "int \<Rightarrow> string \<Rightarrow> string \<Rightarrow> string result" where
  \<comment> \<open>\<open>v_text\<close> of gateway_validation.py\<close>
  "gv_text max_len s fld =
     (if s = [] then Inl (ValueError fld)
      else if int (length s) > max_len then Inl (ValueError fld) else Inr s)"

definition register_record :: "pc_ref \<Rightarrow> world \<Rightarrow> (bool \<times> world) result" where
  "register_record r w =
     (let p = obj_at w r in
      bind_r (v_safe_id ValueError (PStr (pc_client_id p)) ''pending_continuation.client_id'') (\<lambda>_.
      bind_r (gv_text 512 (pc_model_echo p) ''pending_continuation.model_echo'') (\<lambda>_.
        if pc_state p \<noteq> Cn_waiting then Inl (ValueError ''continuation_registry'')
        else if int (length (records_of w)) \<ge> rg_max_pending (wo_registry w) then Inr (False, w)
        else if map_of (records_of w) (pc_continuation_token p) \<noteq> None then Inr (False, w)
        else Inr (True, w\<lparr>wo_registry := (wo_registry w)\<lparr>rg_records :=
                    records_of w @ [(pc_continuation_token p, r)]\<rparr>\<rparr>))))"

definition detect :: "string \<Rightarrow> world \<Rightarrow> pc_ref option" where
  "detect t w = map_of (records_of w) t"

definition was_terminal_for :: "string \<Rightarrow> string \<Rightarrow> world \<Rightarrow> bool" where
  "was_terminal_for t c w = ((t, c) \<in> set (tombs_of w))"

definition claim :: "string \<Rightarrow> string \<Rightarrow> int \<Rightarrow> world \<Rightarrow> (rejection + pc_ref) \<times> action list \<times> world" where
  "claim t c now w =
     (case map_of (records_of w) t of
        None \<Rightarrow> (Inl (if (t, c) \<in> set (tombs_of w) then Rj_already_resolved else Rj_not_found), [], w)
      | Some r \<Rightarrow>
          (let p = obj_at w r in
           if pc_client_id p \<noteq> c then (Inl Rj_not_found, [], w)
           else
             (case claim_transition now p of
                (Claim_busy, p') \<Rightarrow> (Inl Rj_already_resolved, [], set_obj r p' w)
              | (Claim_expired, p') \<Rightarrow>
                  (Inl Rj_expired, cancel_actions r p, add_tombstone t c (pop_record t (set_obj r p' w)))
              | (Claim_resumed, p') \<Rightarrow> (Inr r, [], set_obj r p' w))))"

definition release_unclaimed :: "pc_ref \<Rightarrow> world \<Rightarrow> world" where
  "release_unclaimed r w = set_obj r (restore_waiting (obj_at w r)) w"

definition close_record :: "string \<Rightarrow> continuation_state \<Rightarrow> bool \<Rightarrow> world \<Rightarrow> (action list \<times> world) result" where
  "close_record t s cancel_backend w =
     (if s \<notin> {Cn_completed, Cn_cancelled, Cn_expired, Cn_lost} then Inl (ValueError ''continuation_registry'')
      else
        (case map_of (records_of w) t of
           None \<Rightarrow> Inr ([], add_tombstone t '''' (pop_record t w))
         | Some r \<Rightarrow>
             Inr (Mark_terminal r s # (if cancel_backend then cancel_actions r (obj_at w r) else []),
                  add_tombstone t (pc_client_id (obj_at w r)) (pop_record t w))))"

fun expire_loop :: "int \<Rightarrow> (string \<times> pc_ref) list \<Rightarrow> pc_ref list \<Rightarrow> world \<Rightarrow> pc_ref list \<times> world" where
  "expire_loop now [] expired w = (expired, w)"
| "expire_loop now ((t, r) # items) expired w =
     (let p = obj_at w r in
      if \<not> expired_at now p then expire_loop now items expired w
      else
        (let (was_waiting, p') = mark_expired p; w' = set_obj r p' (pop_record t w) in
         expire_loop now items (expired @ [r])
           (if was_waiting then w' else add_tombstone t (pc_client_id p) w')))"

definition expire_due :: "int \<Rightarrow> world \<Rightarrow> string list \<times> action list \<times> world" where
  "expire_due now w =
     (let (expired, w') = expire_loop now (records_of w) [] w in
      (map (\<lambda>r. pc_continuation_token (obj_at w' r)) expired,
       concat (map (\<lambda>r. cancel_actions r (obj_at w' r)) expired), w'))"

definition pending_count :: "world \<Rightarrow> nat" where
  "pending_count w = length (records_of w)"

section \<open>Interleaved execution\<close>

text \<open>
  A thread enters at most one critical section at a time; what it does after the section joins
  \<open>wo_threads\<close> and is executed one action at a time, in its own order, interleaved with
  everything else. \<open>Ev_suspend\<close> allocates the record it registers, as every caller does.
\<close>

datatype event =
    Ev_suspend pending_continuation
  | Ev_claim string string int
  | Ev_release pc_ref
  | Ev_close string continuation_state bool
  | Ev_expire int
  | Ev_run nat

definition alloc :: "pending_continuation \<Rightarrow> world \<Rightarrow> world" where
  "alloc p w = w\<lparr>wo_heap := wo_heap w @ [p]\<rparr>"

fun run_action :: "action \<Rightarrow> world \<Rightarrow> world" where
  "run_action (Mark_terminal r s) w = set_obj r (mark_terminal s (obj_at w r)) w"
| "run_action (Run_cancel r) w = w\<lparr>wo_cancelled := wo_cancelled w @ [r]\<rparr>"

definition spawn :: "action list \<Rightarrow> world \<Rightarrow> world" where
  "spawn acts w = (if acts = [] then w else w\<lparr>wo_threads := wo_threads w @ [acts]\<rparr>)"

definition run_thread :: "nat \<Rightarrow> world \<Rightarrow> world" where
  "run_thread i w =
     (if i < length (wo_threads w) then
        (case wo_threads w ! i of
           [] \<Rightarrow> w
         | a # rest \<Rightarrow> run_action a (w\<lparr>wo_threads := (wo_threads w)[i := rest]\<rparr>))
      else w)"

fun exec :: "event \<Rightarrow> world \<Rightarrow> world" where
  "exec (Ev_suspend p) w =
     (case register_record (length (wo_heap w)) (alloc p w) of
        Inl _ \<Rightarrow> alloc p w | Inr (_, w') \<Rightarrow> w')"
| "exec (Ev_claim t c now) w = (let (_, acts, w') = claim t c now w in spawn acts w')"
| "exec (Ev_release r) w = (if r < length (wo_heap w) then release_unclaimed r w else w)"
| "exec (Ev_close t s cancel) w =
     (case close_record t s cancel w of Inl _ \<Rightarrow> w | Inr (acts, w') \<Rightarrow> spawn acts w')"
| "exec (Ev_expire now) w = (let (_, acts, w') = expire_due now w in spawn acts w')"
| "exec (Ev_run i) w = run_thread i w"

fun exec_all :: "event list \<Rightarrow> world \<Rightarrow> world" where
  "exec_all [] w = w"
| "exec_all (e # es) w = exec_all es (exec e w)"

definition new_world :: "int \<Rightarrow> world result" where
  "new_world n = bind_r (new_registry n) (\<lambda>g.
     Inr \<lparr>wo_heap = [], wo_registry = g, wo_threads = [], wo_cancelled = []\<rparr>)"

inductive reachable :: "world \<Rightarrow> bool" where
  start: "new_world n = Inr w \<Longrightarrow> reachable w"
| event: "reachable w \<Longrightarrow> reachable (exec e w)"

section \<open>The invariant\<close>

named_theorems world_simps \<open>effect of the world updates on its parts\<close>

lemma world_parts [world_simps]:
  "wo_heap (set_obj r p w) = (wo_heap w)[r := p]"
  "wo_registry (set_obj r p w) = wo_registry w"
  "wo_threads (set_obj r p w) = wo_threads w" "wo_cancelled (set_obj r p w) = wo_cancelled w"
  "wo_heap (pop_record t w) = wo_heap w"
  "records_of (pop_record t w) = filter (\<lambda>(k, _). k \<noteq> t) (records_of w)"
  "tombs_of (pop_record t w) = tombs_of w"
  "rg_max_pending (wo_registry (pop_record t w)) = rg_max_pending (wo_registry w)"
  "wo_threads (pop_record t w) = wo_threads w" "wo_cancelled (pop_record t w) = wo_cancelled w"
  "wo_heap (add_tombstone t c w) = wo_heap w"
  "records_of (add_tombstone t c w) = records_of w"
  "tombs_of (add_tombstone t c w) = deque_append MAX_TERMINAL_TOMBSTONES (t, c) (tombs_of w)"
  "rg_max_pending (wo_registry (add_tombstone t c w)) = rg_max_pending (wo_registry w)"
  "wo_threads (add_tombstone t c w) = wo_threads w" "wo_cancelled (add_tombstone t c w) = wo_cancelled w"
  "wo_heap (alloc p w) = wo_heap w @ [p]" "wo_registry (alloc p w) = wo_registry w"
  "wo_threads (alloc p w) = wo_threads w" "wo_cancelled (alloc p w) = wo_cancelled w"
  "wo_heap (spawn acts w) = wo_heap w" "wo_registry (spawn acts w) = wo_registry w"
  "wo_cancelled (spawn acts w) = wo_cancelled w"
  "concat (wo_threads (spawn acts w)) = concat (wo_threads w) @ acts"
  by (simp_all add: set_obj_def pop_record_def add_tombstone_def alloc_def spawn_def)

lemma length_deque_append: "length (deque_append n x xs) \<le> n"
  by (simp add: deque_append_def Let_def)

lemma set_deque_append: "set (deque_append n x xs) \<subseteq> insert x (set xs)"
  unfolding deque_append_def Let_def by (rule order.trans [OF set_drop_subset]) simp

lemma last_deque_append: "0 < n \<Longrightarrow> x \<in> set (deque_append n x xs)"
  by (simp add: deque_append_def Let_def Cons_nth_drop_Suc drop_append)

definition live_refs :: "world \<Rightarrow> pc_ref set" where
  "live_refs w = snd ` set (records_of w)"

definition owed :: "pc_ref \<Rightarrow> world \<Rightarrow> nat" where
  \<comment> \<open>cancellations of a record that are done, due in some thread, or still possible\<close>
  "owed r w = count_list (wo_cancelled w) r + count_list (concat (wo_threads w)) (Run_cancel r)
     + (if r \<in> live_refs w then 1 else 0)"

definition table_ok :: "world \<Rightarrow> bool" where
  "table_ok w \<longleftrightarrow> distinct (map fst (records_of w))
     \<and> (\<forall>(t, r) \<in> set (records_of w). r < length (wo_heap w)
          \<and> pc_continuation_token (obj_at w r) = t \<and> pc_state (obj_at w r) \<in> {Cn_waiting, Cn_resuming})"

definition bounds_ok :: "world \<Rightarrow> bool" where
  "bounds_ok w \<longleftrightarrow> int (length (records_of w)) \<le> rg_max_pending (wo_registry w)
     \<and> length (tombs_of w) \<le> MAX_TERMINAL_TOMBSTONES"

definition marks :: "action list \<Rightarrow> pc_ref set" where
  "marks acts = {r. \<exists>s. Mark_terminal r s \<in> set acts}"

lemma marks_simps [simp]:
  "marks [] = {}" "marks (Mark_terminal r s # as) = insert r (marks as)"
  "marks (Run_cancel r # as) = marks as" "marks (as @ bs) = marks as \<union> marks bs"
  by (auto simp: marks_def)

definition actions_ok :: "world \<Rightarrow> bool" where
  "actions_ok w \<longleftrightarrow> (\<forall>r. owed r w \<le> 1) \<and> (\<forall>r. owed r w > 0 \<longrightarrow> r < length (wo_heap w))
     \<and> marks (concat (wo_threads w)) \<subseteq> {..<length (wo_heap w)} - live_refs w"

lemma table_okD:
  "table_ok w \<Longrightarrow> (t, r) \<in> set (records_of w) \<Longrightarrow> r < length (wo_heap w)
     \<and> pc_continuation_token (obj_at w r) = t \<and> pc_state (obj_at w r) \<in> {Cn_waiting, Cn_resuming}"
  by (auto simp: table_ok_def)

lemma table_refs_distinct: "table_ok w \<Longrightarrow> distinct (map snd (records_of w))"
proof -
  assume ok: "table_ok w"
  have "map fst (records_of w) = map (\<lambda>r. pc_continuation_token (obj_at w r)) (map snd (records_of w))"
    using ok by (auto simp: table_ok_def)
  then show ?thesis using ok by (metis distinct_map table_ok_def)
qed

lemma table_key_unique:
  "table_ok w \<Longrightarrow> (t, r) \<in> set (records_of w) \<Longrightarrow> (t, r') \<in> set (records_of w) \<Longrightarrow> r' = r"
  unfolding table_ok_def by (metis eq_key_imp_eq_value)

lemma table_ref_unique:
  "table_ok w \<Longrightarrow> (t, r) \<in> set (records_of w) \<Longrightarrow> (t', r) \<in> set (records_of w) \<Longrightarrow> t' = t"
  using table_okD by blast

subsection \<open>What the expiry loop computes\<close>

definition due_items :: "int \<Rightarrow> world \<Rightarrow> (string \<times> pc_ref) list \<Rightarrow> (string \<times> pc_ref) list" where
  "due_items now w items = filter (\<lambda>(_, r). expired_at now (obj_at w r)) items"

definition expired_tombs :: "world \<Rightarrow> (string \<times> pc_ref) list \<Rightarrow> (string \<times> string) list" where
  \<comment> \<open>only the records caught in the middle of a delivery leave a tombstone\<close>
  "expired_tombs w due =
     map (\<lambda>(t, r). (t, pc_client_id (obj_at w r))) (filter (\<lambda>(_, r). pc_state (obj_at w r) \<noteq> Cn_waiting) due)"

definition sweeps :: "world \<Rightarrow> (string \<times> pc_ref) list \<Rightarrow> world \<Rightarrow> bool" where
  \<comment> \<open>the second world is the first one without the due records\<close>
  "sweeps w due w' \<longleftrightarrow>
     length (wo_heap w') = length (wo_heap w)
     \<and> (\<forall>i. obj_at w' i = (if i \<in> snd ` set due then (obj_at w i)\<lparr>pc_state := Cn_expired\<rparr> else obj_at w i))
     \<and> records_of w' = filter (\<lambda>(k, _). k \<notin> fst ` set due) (records_of w)
     \<and> tombs_of w' = fold (deque_append MAX_TERMINAL_TOMBSTONES) (expired_tombs w due) (tombs_of w)
     \<and> rg_max_pending (wo_registry w') = rg_max_pending (wo_registry w)
     \<and> wo_threads w' = wo_threads w \<and> wo_cancelled w' = wo_cancelled w"

definition sweep_one :: "string \<Rightarrow> pc_ref \<Rightarrow> world \<Rightarrow> world" where
  "sweep_one t r w =
     (let p = obj_at w r; w' = set_obj r (p\<lparr>pc_state := Cn_expired\<rparr>) (pop_record t w) in
      if pc_state p = Cn_waiting then w' else add_tombstone t (pc_client_id p) w')"

lemma sweep_one_parts [world_simps]:
  "wo_heap (sweep_one t r w) = (wo_heap w)[r := (obj_at w r)\<lparr>pc_state := Cn_expired\<rparr>]"
  "records_of (sweep_one t r w) = filter (\<lambda>(k, _). k \<noteq> t) (records_of w)"
  "tombs_of (sweep_one t r w) = fold (deque_append MAX_TERMINAL_TOMBSTONES) (expired_tombs w [(t, r)]) (tombs_of w)"
  "rg_max_pending (wo_registry (sweep_one t r w)) = rg_max_pending (wo_registry w)"
  "wo_threads (sweep_one t r w) = wo_threads w" "wo_cancelled (sweep_one t r w) = wo_cancelled w"
  by (simp_all add: sweep_one_def Let_def world_simps expired_tombs_def)

lemma expire_loop_step:
  "expire_loop now ((t, r) # items) acc w =
     (if expired_at now (obj_at w r) then expire_loop now items (acc @ [r]) (sweep_one t r w)
      else expire_loop now items acc w)"
  by (simp add: mark_expired_def sweep_one_def Let_def)

lemma sweeps_Cons:
  assumes "r < length (wo_heap w)" "r \<notin> snd ` set due" and "sweeps (sweep_one t r w) due w'"
  shows "sweeps w ((t, r) # due) w'"
proof -
  let ?w = "sweep_one t r w"
  have obj: "obj_at ?w i = (if i = r then (obj_at w r)\<lparr>pc_state := Cn_expired\<rparr> else obj_at w i)" for i
    using assms(1) by (simp add: world_simps nth_list_update)
  have ex: "expired_tombs ?w due = expired_tombs w due"
    unfolding expired_tombs_def
    using assms(2) by (intro arg_cong2 [where f = map] filter_cong map_cong refl) (force simp: obj)+
  have "expired_tombs w ((t, r) # due) = expired_tombs w [(t, r)] @ expired_tombs w due"
    by (simp add: expired_tombs_def)
  then have tombs: "tombs_of w' = fold (deque_append MAX_TERMINAL_TOMBSTONES) (expired_tombs w ((t, r) # due)) (tombs_of w)"
    using assms(3) by (simp add: sweeps_def ex sweep_one_parts(3))
  have recs: "records_of w' = filter (\<lambda>(k, _). k \<notin> fst ` set ((t, r) # due)) (records_of w)"
    using assms(3) by (simp add: sweeps_def sweep_one_parts(2) case_prod_unfold conj_commute)
  show ?thesis
    using assms(3) tombs recs unfolding sweeps_def
    by (simp add: obj sweep_one_parts(4,5,6)) (simp add: sweep_one_parts(1))
qed

lemma expire_loop_spec:
  assumes "distinct (map snd items)" and "\<forall>(t, r) \<in> set items. r < length (wo_heap w)"
  shows "\<exists>w'. expire_loop now items acc w = (acc @ map snd (due_items now w items), w')
    \<and> sweeps w (due_items now w items) w'"
  using assms
proof (induction items arbitrary: acc w)
  case Nil
  then show ?case by (simp add: due_items_def sweeps_def expired_tombs_def)
next
  case (Cons a items)
  obtain t r where a: "a = (t, r)" by (cases a)
  have r: "r < length (wo_heap w)" "r \<notin> snd ` set items" using Cons.prems by (auto simp: a)
  have rest: "distinct (map snd items)" "\<forall>(t, r) \<in> set items. r < length (wo_heap v)"
    if "length (wo_heap v) = length (wo_heap w)" for v
    using Cons.prems that by auto
  show ?case
  proof (cases "expired_at now (obj_at w r)")
    case False
    then show ?thesis
      using Cons.IH [OF rest [OF refl]] by (simp add: a due_items_def)
  next
    case True
    let ?w = "sweep_one t r w"
    have other: "r \<noteq> snd x" if "x \<in> set items" for x
      using that r(2) by auto
    have same: "due_items now ?w items = due_items now w items"
      unfolding due_items_def
      using other by (intro filter_cong refl) (simp add: world_simps case_prod_unfold)
    have "r \<notin> snd ` set (due_items now w items)" using r(2) by (auto simp: due_items_def)
    then show ?thesis
      using Cons.IH [OF rest [of ?w], of "acc @ [r]"] r(1) True
      by (auto simp: a due_items_def [of now w "(t, r) # items"] due_items_def [of now w items, symmetric]
          expire_loop_step same world_simps intro: sweeps_Cons simp del: expire_loop.simps)
  qed
qed

subsection \<open>Every event keeps the invariant\<close>

definition registry_inv :: "world \<Rightarrow> bool" where
  "registry_inv w \<longleftrightarrow> table_ok w \<and> bounds_ok w \<and> actions_ok w"

lemma actions_ok_retire:
  assumes "actions_ok w" and "wo_cancelled w' = wo_cancelled w"
    and "length (wo_heap w') = length (wo_heap w)"
    and "live_refs w' = live_refs w - R" and "R \<subseteq> live_refs w"
    and "concat (wo_threads w') = concat (wo_threads w) @ acts"
    and "\<And>r. count_list acts (Run_cancel r) \<le> (if r \<in> R then 1 else 0)"
    and "marks acts \<subseteq> R"
  shows "actions_ok w'"
proof -
  have le: "owed r w' \<le> owed r w" for r
    using assms(7) [of r] assms(5) by (auto simp: owed_def assms(2,4,6) split: if_splits)
  have live: "r < length (wo_heap w)" if "r \<in> live_refs w" for r
    using assms(1) that by (auto simp: actions_ok_def owed_def)
  have "owed r w' \<le> 1" for r
    using le [of r] assms(1) by (auto simp: actions_ok_def intro: order.trans)
  moreover have "r < length (wo_heap w')" if "owed r w' > 0" for r
    using le [of r] that assms(1,3) by (auto simp: actions_ok_def)
  moreover have "marks (concat (wo_threads w')) \<subseteq> {..<length (wo_heap w')} - live_refs w'"
  proof -
    have "marks (concat (wo_threads w)) \<subseteq> {..<length (wo_heap w)} - live_refs w"
      using assms(1) by (simp add: actions_ok_def)
    moreover have "R \<subseteq> {..<length (wo_heap w)}" using assms(5) live by auto
    ultimately show ?thesis using assms(3,4,8) unfolding assms(6) marks_simps by auto
  qed
  ultimately show ?thesis by (auto simp: actions_ok_def)
qed

lemma actions_ok_same:
  assumes "actions_ok w" and "wo_cancelled w' = wo_cancelled w"
    and "length (wo_heap w) \<le> length (wo_heap w')"
    and "live_refs w' = live_refs w" and "concat (wo_threads w') = concat (wo_threads w)"
  shows "actions_ok w'"
proof -
  have owed: "owed r w' = owed r w" for r by (simp add: owed_def assms(2,4,5))
  have "marks (concat (wo_threads w')) \<subseteq> {..<length (wo_heap w')} - live_refs w'"
    using assms(1,3) by (auto simp: actions_ok_def assms(4,5) simp del: set_concat)
  moreover have "r < length (wo_heap w')" if "owed r w > 0" for r
    using assms(1,3) that by (auto simp: actions_ok_def intro: less_le_trans)
  ultimately show ?thesis
    using assms(1) by (simp add: actions_ok_def owed)
qed

lemma live_refs_pop:
  assumes "table_ok w" "map_of (records_of w) t = Some r"
  shows "live_refs (pop_record t w) = live_refs w - {r}" "r \<in> live_refs w"
proof -
  have m: "(t, r) \<in> set (records_of w)" using assms(2) by (rule map_of_SomeD)
  show "r \<in> live_refs w" using m by (force simp: live_refs_def)
  have only: "k = t \<longleftrightarrow> x = r" if "(k, x) \<in> set (records_of w)" for k x
  proof
    assume "x = r" then show "k = t" using table_ref_unique [OF assms(1) m] that by simp
  next
    assume "k = t" then show "x = r"
      using table_key_unique [OF assms(1) m] that by simp
  qed
  have "set (records_of (pop_record t w)) = {y \<in> set (records_of w). snd y \<noteq> r}"
    by (auto simp: world_simps dest: only [THEN iffD1, OF _ refl] only [THEN iffD2, OF _ refl])
  then show "live_refs (pop_record t w) = live_refs w - {r}" unfolding live_refs_def by auto
qed

lemma filter_records_distinct:
  "distinct (map fst xs) \<Longrightarrow> distinct (map fst (filter P xs))"
  by (metis distinct_map_filter)

lemma count_cancel_actions: "count_list (cancel_actions r p) (Run_cancel r') \<le> (if r' = r then 1 else 0)"
  by (simp add: cancel_actions_def)

lemma cancel_actions_no_mark [simp]: "marks (cancel_actions r p) = {}"
  by (simp add: cancel_actions_def)

lemma inv_start: "new_world n = Inr w \<Longrightarrow> registry_inv w"
  by (auto simp: new_world_def new_registry_def result_simps registry_inv_def table_ok_def bounds_ok_def
      actions_ok_def owed_def live_refs_def split: if_splits)

lemma inv_alloc: "registry_inv w \<Longrightarrow> registry_inv (alloc p w)"
  unfolding registry_inv_def
proof (intro conjI; elim conjE)
  assume "table_ok w" then show "table_ok (alloc p w)"
    by (fastforce simp: table_ok_def world_simps nth_append)
  assume "bounds_ok w" then show "bounds_ok (alloc p w)" by (simp add: bounds_ok_def world_simps)
  assume "actions_ok w" then show "actions_ok (alloc p w)"
    by (rule actions_ok_same) (simp_all add: world_simps live_refs_def)
qed

lemma register_cases:
  assumes "register_record r w = Inr (b, w')"
  obtains "\<not> b" "w' = w"
  | "b" "safe_id_match (pc_client_id (obj_at w r))" "pc_model_echo (obj_at w r) \<noteq> []"
    "length (pc_model_echo (obj_at w r)) \<le> 512"
    "pc_state (obj_at w r) = Cn_waiting"
    "int (length (records_of w)) < rg_max_pending (wo_registry w)"
    "map_of (records_of w) (pc_continuation_token (obj_at w r)) = None"
    "w' = w\<lparr>wo_registry := (wo_registry w)\<lparr>rg_records :=
       records_of w @ [(pc_continuation_token (obj_at w r), r)]\<rparr>\<rparr>"
  using assms
  by (auto simp: register_record_def gv_text_def Let_def result_simps valid_simps split: if_splits)

lemma inv_register:
  assumes "registry_inv w" "register_record r w = Inr (b, w')"
    and "r < length (wo_heap w)" "owed r w = 0" "r \<notin> marks (concat (wo_threads w))"
  shows "registry_inv w'"
  using assms(2)
proof (cases rule: register_cases)
  case 1
  then show ?thesis using assms(1) by simp
next
  case 2
  have "table_ok w'"
    using 2 assms(1,3) by (auto simp: registry_inv_def table_ok_def map_of_eq_None_iff)
  moreover have "bounds_ok w'" using 2 assms(1) by (simp add: registry_inv_def bounds_ok_def)
  moreover have "actions_ok w'"
  proof -
    have live: "live_refs w' = insert r (live_refs w)" by (simp add: 2(8) live_refs_def)
    have parts: "wo_heap w' = wo_heap w" "wo_threads w' = wo_threads w" "wo_cancelled w' = wo_cancelled w"
      by (simp_all add: 2(8))
    have "owed r' w' = (if r' = r then 1 else owed r' w)" for r'
      using assms(4) by (auto simp: owed_def live parts)
    then show ?thesis using assms(1,3,5) by (auto simp: registry_inv_def actions_ok_def live parts)
  qed
  ultimately show ?thesis by (simp add: registry_inv_def)
qed

lemma fresh_ref:
  assumes "registry_inv w"
  shows "owed (length (wo_heap w)) (alloc p w) = 0"
    "length (wo_heap w) \<notin> marks (concat (wo_threads (alloc p w)))"
proof -
  have "live_refs (alloc p w) = live_refs w" by (simp add: live_refs_def world_simps)
  then have "owed r (alloc p w) = owed r w" for r by (simp add: owed_def world_simps)
  then show "owed (length (wo_heap w)) (alloc p w) = 0"
    using assms by (fastforce simp: registry_inv_def actions_ok_def)
  show "length (wo_heap w) \<notin> marks (concat (wo_threads (alloc p w)))"
    using assms by (auto simp: registry_inv_def actions_ok_def world_simps)
qed

lemma inv_suspend: "registry_inv w \<Longrightarrow> registry_inv (exec (Ev_suspend p) w)"
  using inv_alloc [of w p] fresh_ref [of w p]
  by (auto split: sum.split prod.split intro: inv_register simp: world_simps)

lemma table_ok_filter:
  assumes "table_ok w" and "length (wo_heap w') = length (wo_heap w)"
    and "records_of w' = filter P (records_of w)"
    and "\<And>k r. (k, r) \<in> set (records_of w) \<Longrightarrow> P (k, r) \<Longrightarrow> obj_at w' r = obj_at w r"
  shows "table_ok w'"
  using assms by (auto simp: table_ok_def filter_records_distinct)

lemma length_records_pop: "length (filter P (records_of w)) \<le> length (records_of w)"
  by simp

lemma inv_retire:
  assumes "registry_inv w" "map_of (records_of w) t = Some r"
    and "marks acts \<subseteq> {r}" and "\<And>x. count_list acts (Run_cancel x) \<le> (if x = r then 1 else 0)"
    and "p = obj_at w r \<or> p = (obj_at w r)\<lparr>pc_state := s\<rparr>"
  shows "registry_inv (spawn acts (add_tombstone t c (pop_record t (set_obj r p w))))" (is "registry_inv ?w")
proof -
  have tab: "table_ok w" using assms(1) by (simp add: registry_inv_def)
  have m: "(t, r) \<in> set (records_of w)" using assms(2) by (rule map_of_SomeD)
  have "table_ok ?w"
    using tab
  proof (rule table_ok_filter [where P = "\<lambda>(k, _). k \<noteq> t"])
    fix k x assume "(k, x) \<in> set (records_of w)" "case (k, x) of (k, _) \<Rightarrow> k \<noteq> t"
    then have "x \<noteq> r" using table_ref_unique [OF tab m] by auto
    then show "obj_at ?w x = obj_at w x" by (simp add: world_simps)
  qed (simp_all add: world_simps)
  moreover have "bounds_ok ?w"
    using assms(1) le_trans [OF length_filter_le]
    by (auto simp: registry_inv_def bounds_ok_def world_simps length_deque_append
        intro: order.trans [of "int (length (filter _ _))" "int (length (records_of w))"])
  moreover have "actions_ok ?w"
  proof (rule actions_ok_retire [of w _ "{r}"])
    show "actions_ok w" using assms(1) by (simp add: registry_inv_def)
    show "live_refs ?w = live_refs w - {r}" "{r} \<subseteq> live_refs w"
      using live_refs_pop [OF tab assms(2)] by (simp_all add: live_refs_def world_simps)
    show "marks acts \<subseteq> {r}" by (rule assms(3))
    show "count_list acts (Run_cancel x) \<le> (if x \<in> {r} then 1 else 0)" for x
      using assms(4) [of x] by simp
  qed (simp_all add: world_simps)
  ultimately show ?thesis by (simp add: registry_inv_def)
qed

lemma inv_set_state:
  assumes "registry_inv w" "s \<in> {Cn_waiting, Cn_resuming} \<or> r \<notin> live_refs w"
  shows "registry_inv (set_obj r ((obj_at w r)\<lparr>pc_state := s\<rparr>) w)" (is "registry_inv ?w")
proof -
  have "obj_at ?w x = (if x = r \<and> x < length (wo_heap w) then (obj_at w r)\<lparr>pc_state := s\<rparr> else obj_at w x)" for x
    by (cases "r < length (wo_heap w)") (auto simp: world_simps nth_list_update list_update_beyond)
  moreover have "records_of ?w = records_of w" by (simp add: world_simps)
  ultimately have "table_ok ?w"
    using assms by (force simp: registry_inv_def table_ok_def live_refs_def world_simps)
  moreover have "bounds_ok ?w" using assms(1) by (simp add: registry_inv_def bounds_ok_def world_simps)
  moreover have "actions_ok ?w"
    by (rule actions_ok_same [of w]) (use assms(1) in \<open>simp_all add: registry_inv_def world_simps live_refs_def\<close>)
  ultimately show ?thesis by (simp add: registry_inv_def)
qed

lemma inv_spawn_Nil [simp]: "spawn [] w = w"
  by (simp add: spawn_def)

lemma set_obj_same [simp]: "set_obj r (obj_at w r) w = w"
  by (simp add: set_obj_def)

lemma inv_claim: "registry_inv w \<Longrightarrow> registry_inv (exec (Ev_claim t c now) w)"
proof (cases "map_of (records_of w) t")
  case None
  assume "registry_inv w"
  then show ?thesis using None by (simp add: claim_def)
next
  case (Some r)
  assume inv: "registry_inv w"
  have past: "registry_inv (spawn (cancel_actions r (obj_at w r)) (add_tombstone t c (pop_record t
      (set_obj r ((obj_at w r)\<lparr>pc_state := Cn_expired\<rparr>) w))))"
    by (rule inv_retire [OF inv Some]) (auto simp: count_cancel_actions)
  have go: "registry_inv (set_obj r ((obj_at w r)\<lparr>pc_state := Cn_resuming\<rparr>) w)"
    by (rule inv_set_state [OF inv]) simp
  show ?thesis
    using inv past go by (simp add: claim_def Some claim_transition_def Let_def)
qed

lemma inv_release: "registry_inv w \<Longrightarrow> registry_inv (exec (Ev_release r) w)"
  by (auto simp: release_unclaimed_def restore_waiting_def intro: inv_set_state)

lemma inv_tombstone_only:
  assumes "registry_inv w" "map_of (records_of w) t = None"
  shows "registry_inv (add_tombstone t c (pop_record t w))"
proof -
  have "filter (\<lambda>(k, _). k \<noteq> t) (records_of w) = records_of w"
    using assms(2) by (force simp: map_of_eq_None_iff intro: filter_True)
  then have recs: "records_of (add_tombstone t c (pop_record t w)) = records_of w"
    by (simp add: world_simps)
  have "actions_ok (add_tombstone t c (pop_record t w))"
    by (rule actions_ok_same [of w])
      (use assms(1) recs in \<open>simp_all add: registry_inv_def world_simps live_refs_def\<close>)
  then show ?thesis
    using assms(1) unfolding registry_inv_def
    by (simp add: table_ok_def bounds_ok_def recs) (simp add: world_simps length_deque_append)
qed

lemma inv_close: "registry_inv w \<Longrightarrow> registry_inv (exec (Ev_close t s b) w)"
proof (cases "map_of (records_of w) t")
  case None
  assume "registry_inv w"
  then show ?thesis using None by (simp add: close_record_def inv_tombstone_only)
next
  case (Some r)
  let ?acts = "Mark_terminal r s # (if b then cancel_actions r (obj_at w r) else [])"
  assume inv: "registry_inv w"
  have "registry_inv (spawn ?acts (add_tombstone t (pc_client_id (obj_at w r))
      (pop_record t (set_obj r (obj_at w r) w))))"
    by (rule inv_retire [OF inv Some]) (auto simp: cancel_actions_def)
  then show ?thesis using inv by (simp add: close_record_def Some)
qed

definition due_now :: "int \<Rightarrow> world \<Rightarrow> (string \<times> pc_ref) list" where
  "due_now now w = due_items now w (records_of w)"

lemma expire_due_run:
  assumes "table_ok w"
  obtains w' where "expire_due now w =
      (map fst (due_now now w),
       concat (map (\<lambda>r. cancel_actions r (obj_at w r)) (map snd (due_now now w))), w')"
    and "sweeps w (due_now now w) w'"
proof -
  obtain w' where loop: "expire_loop now (records_of w) [] w = (map snd (due_now now w), w')"
    and sw: "sweeps w (due_now now w) w'"
    using expire_loop_spec [OF table_refs_distinct [OF assms], of w now "[]"] assms
    by (auto simp: table_ok_def due_now_def)
  have "pc_continuation_token (obj_at w' r) = t" if "(t, r) \<in> set (due_now now w)" for t r
    using that sw table_okD [OF assms, of t r] by (auto simp: sweeps_def due_now_def due_items_def)
  then have toks: "map (\<lambda>r. pc_continuation_token (obj_at w' r)) (map snd (due_now now w)) = map fst (due_now now w)"
    by (auto simp: case_prod_unfold)
  have acts: "cancel_actions r (obj_at w' r) = cancel_actions r (obj_at w r)" for r
    using sw by (simp add: sweeps_def cancel_actions_def)
  show ?thesis
    by (rule that [OF _ sw]) (simp only: expire_due_def loop Let_def prod.case toks acts)
qed

lemma count_cancels:
  "distinct rs \<Longrightarrow> count_list (concat (map (\<lambda>r. cancel_actions r (obj_at w r)) rs)) (Run_cancel x)
     = (if x \<in> set rs \<and> pc_cancel_callback (obj_at w x) then 1 else 0)"
  by (induction rs) (auto simp: cancel_actions_def)

lemma marks_cancels [simp]: "marks (concat (map (\<lambda>r. cancel_actions r (f r)) rs)) = {}"
  by (induction rs) auto

lemma length_fold_deque:
  "length ts \<le> n \<Longrightarrow> length (fold (deque_append n) xs ts) \<le> n"
  by (induction xs arbitrary: ts) (simp_all add: length_deque_append)

lemma due_now_live:
  assumes "table_ok w"
  shows "distinct (map snd (due_now now w))" "distinct (map fst (due_now now w))"
    "set (due_now now w) = {(t, r) \<in> set (records_of w). expired_at now (obj_at w r)}"
  using table_refs_distinct [OF assms] assms
  by (auto simp: due_now_def due_items_def table_ok_def distinct_map_filter)

lemma records_swept:
  assumes "table_ok w" "sweeps w (due_now now w) w'"
  shows "records_of w' = filter (\<lambda>(_, r). \<not> expired_at now (obj_at w r)) (records_of w)"
proof -
  have "k \<notin> fst ` set (due_now now w) \<longleftrightarrow> \<not> expired_at now (obj_at w r)" if "(k, r) \<in> set (records_of w)" for k r
  proof -
    have only: "r' = r" if "(k, r') \<in> set (records_of w)" for r'
      using table_key_unique [OF assms(1) \<open>(k, r) \<in> set (records_of w)\<close> that] .
    have "k \<in> fst ` set (due_now now w) \<longleftrightarrow> (\<exists>r'. (k, r') \<in> set (records_of w) \<and> expired_at now (obj_at w r'))"
      by (auto simp: due_now_live(3) [OF assms(1)] image_iff)
    then show ?thesis using only \<open>(k, r) \<in> set (records_of w)\<close> by blast
  qed
  then show ?thesis using assms(2) by (auto simp: sweeps_def intro: filter_cong)
qed

lemma inv_sweep:
  assumes "registry_inv w" and "sweeps w (due_now now w) w'"
    and "acts = concat (map (\<lambda>r. cancel_actions r (obj_at w r)) (map snd (due_now now w)))"
  shows "registry_inv (spawn acts w')" (is "registry_inv ?w")
proof -
  have tab: "table_ok w" using assms(1) by (simp add: registry_inv_def)
  note recs = records_swept [OF tab assms(2)]
  have live: "live_refs w' = live_refs w - snd ` set (due_now now w)"
    unfolding live_refs_def recs due_now_live(3) [OF tab] by (auto simp: image_iff)
  have "table_ok ?w"
    using tab
  proof (rule table_ok_filter [where P = "\<lambda>(_, r). \<not> expired_at now (obj_at w r)"])
    show "records_of ?w = filter (\<lambda>(_, r). \<not> expired_at now (obj_at w r)) (records_of w)"
      by (simp add: recs world_simps)
    show "length (wo_heap ?w) = length (wo_heap w)" using assms(2) by (simp add: world_simps sweeps_def)
    fix k r assume "case (k, r) of (_, r) \<Rightarrow> \<not> expired_at now (obj_at w r)"
    then have "r \<notin> snd ` set (due_now now w)" by (auto simp: due_now_live(3) [OF tab])
    then show "obj_at ?w r = obj_at w r" using assms(2) by (simp add: world_simps sweeps_def)
  qed
  moreover have "bounds_ok ?w"
  proof -
    have "length (records_of w') \<le> length (records_of w)" by (simp add: recs)
    moreover have "length (tombs_of w') \<le> MAX_TERMINAL_TOMBSTONES"
      using assms(1,2) by (simp add: registry_inv_def bounds_ok_def sweeps_def length_fold_deque)
    moreover have "rg_max_pending (wo_registry w') = rg_max_pending (wo_registry w)"
      using assms(2) by (simp add: sweeps_def)
    moreover have "int (length (records_of w)) \<le> rg_max_pending (wo_registry w)"
      using assms(1) by (simp add: registry_inv_def bounds_ok_def)
    ultimately show ?thesis by (simp add: bounds_ok_def world_simps)
  qed
  moreover have "actions_ok ?w"
  proof (rule actions_ok_retire [of w _ "snd ` set (due_now now w)" acts])
    show "actions_ok w" using assms(1) by (simp add: registry_inv_def)
    show "live_refs ?w = live_refs w - snd ` set (due_now now w)"
      using live by (simp add: live_refs_def world_simps)
    show "snd ` set (due_now now w) \<subseteq> live_refs w"
      by (auto simp: due_now_live(3) [OF tab] live_refs_def)
    show "count_list acts (Run_cancel x) \<le> (if x \<in> snd ` set (due_now now w) then 1 else 0)" for x
      using count_cancels [OF due_now_live(1) [OF tab]] by (simp add: assms(3))
    show "marks acts \<subseteq> snd ` set (due_now now w)" by (simp only: assms(3) marks_cancels empty_subsetI)
    show "concat (wo_threads ?w) = concat (wo_threads w) @ acts"
      using assms(2) by (simp add: world_simps sweeps_def)
  qed (use assms(2) in \<open>simp_all add: world_simps sweeps_def\<close>)
  ultimately show ?thesis by (simp add: registry_inv_def)
qed

lemma inv_expire: "registry_inv w \<Longrightarrow> registry_inv (exec (Ev_expire now) w)"
proof -
  assume inv: "registry_inv w"
  then have "table_ok w" by (simp add: registry_inv_def)
  then obtain w' where "expire_due now w =
      (map fst (due_now now w), concat (map (\<lambda>r. cancel_actions r (obj_at w r)) (map snd (due_now now w))), w')"
    and "sweeps w (due_now now w) w'"
    by (rule expire_due_run)
  then show ?thesis using inv_sweep [OF inv] by (simp del: map_map)
qed

lemma marks_concat: "marks (concat tss) = (\<Union>ts \<in> set tss. marks ts)"
  by (auto simp: marks_def)

lemma take_thread:
  assumes "i < length tss" "tss ! i = a # rest"
  shows "count_list (concat tss) x = count_list [a] x + count_list (concat (tss[i := rest])) x"
    "marks (concat tss) = marks [a] \<union> marks (concat (tss[i := rest]))"
proof -
  have split: "tss = take i tss @ (a # rest) # drop (Suc i) tss"
    using assms by (metis id_take_nth_drop)
  have new: "tss[i := rest] = take i tss @ rest # drop (Suc i) tss"
    using assms(1) by (rule upd_conv_take_nth_drop)
  show "count_list (concat tss) x = count_list [a] x + count_list (concat (tss[i := rest])) x"
    unfolding new by (subst split) simp
  show "marks (concat tss) = marks [a] \<union> marks (concat (tss[i := rest]))"
    unfolding new by (subst split) (auto simp: marks_def)
qed

lemma inv_run:
  assumes "registry_inv w"
  shows "registry_inv (run_thread i w)"
proof (cases "i < length (wo_threads w) \<and> wo_threads w ! i \<noteq> []")
  case False
  then show ?thesis using assms by (auto simp: run_thread_def split: list.split)
next
  case True
  then obtain a rest where ar: "wo_threads w ! i = a # rest" by (metis neq_Nil_conv)
  let ?v = "w\<lparr>wo_threads := (wo_threads w)[i := rest]\<rparr>"
  have run: "run_thread i w = run_action a ?v" using True ar by (simp add: run_thread_def)
  have parts: "wo_heap ?v = wo_heap w" "wo_registry ?v = wo_registry w" "live_refs ?v = live_refs w"
    by (simp_all add: live_refs_def)
  note taken = take_thread [OF conjunct1 [OF True] ar]
  have ok: "actions_ok w" "table_ok w" "bounds_ok w" using assms by (simp_all add: registry_inv_def)
  have owed: "owed r ?v = owed r w - (if a = Run_cancel r then 1 else 0)" for r
    by (simp add: owed_def parts(3) taken(1))
  have "marks (concat (wo_threads ?v)) \<subseteq> {..<length (wo_heap w)} - live_refs w"
    using ok(1) taken(2) by (simp add: actions_ok_def)
  moreover have "owed r ?v \<le> owed r w" for r by (simp add: owed)
  ultimately have "actions_ok ?v"
    using ok(1) unfolding actions_ok_def parts by (meson less_le_trans order.trans)
  moreover have "table_ok ?v" "bounds_ok ?v" using ok(2,3) by (simp_all add: table_ok_def bounds_ok_def)
  ultimately have v: "registry_inv ?v" by (simp add: registry_inv_def)
  show ?thesis
  proof (cases a)
    case (Mark_terminal r s)
    then have "r \<notin> live_refs ?v" using ok(1) taken(2) parts(3) by (auto simp: actions_ok_def)
    then show ?thesis
      using inv_set_state [OF v, of s r] by (simp add: run Mark_terminal mark_terminal_def)
  next
    case (Run_cancel r)
    let ?u = "run_action a ?v"
    have owed': "owed x ?u = owed x w" for x
      using owed [of x] taken(1) [of "Run_cancel x"]
      by (auto simp: Run_cancel owed_def live_refs_def)
    have "actions_ok ?u"
      using ok(1) \<open>marks (concat (wo_threads ?v)) \<subseteq> _\<close>
      unfolding actions_ok_def owed' by (simp add: Run_cancel live_refs_def)
    then show ?thesis
      using ok(2,3) by (simp add: run registry_inv_def) (simp add: Run_cancel table_ok_def bounds_ok_def)
  qed
qed

lemma inv_exec: "registry_inv w \<Longrightarrow> registry_inv (exec e w)"
  using inv_suspend inv_claim inv_release inv_close inv_expire inv_run
  by (cases e) (simp_all only: exec.simps(6))

lemma reachable_inv: "reachable w \<Longrightarrow> registry_inv w"
  by (induction rule: reachable.induct) (auto intro: inv_start inv_exec)

lemma inv_exec_all: "registry_inv w \<Longrightarrow> registry_inv (exec_all es w)"
  by (induction es arbitrary: w) (auto intro: inv_exec)

section \<open>What the registry promises\<close>

lemma count_le_1_distinct: "(\<And>x. count_list xs x \<le> 1) \<Longrightarrow> distinct xs"
proof (induction xs)
  case (Cons a xs)
  have "count_list xs a = 0" using Cons.prems [of a] by simp
  moreover have "count_list xs x \<le> 1" for x using Cons.prems [of x] by (simp split: if_splits)
  ultimately show ?case using Cons.IH by (simp add: count_list_0_iff)
qed simp

lemma inv_cancelled:
  assumes "registry_inv w"
  shows "distinct (wo_cancelled w)"
    "r \<in> set (wo_cancelled w) \<Longrightarrow> r \<notin> live_refs w \<and> Run_cancel r \<notin> set (concat (wo_threads w))"
proof -
  have owed: "owed x w \<le> 1" for x using assms by (simp add: registry_inv_def actions_ok_def)
  then have le: "count_list (wo_cancelled w) x + count_list (concat (wo_threads w)) (Run_cancel x)
      + (if x \<in> live_refs w then 1 else 0) \<le> 1" for x
    by (simp only: owed_def)
  have "count_list (wo_cancelled w) x \<le> 1" for x
    using le [of x] by linarith
  then show "distinct (wo_cancelled w)" by (rule count_le_1_distinct)
  assume "r \<in> set (wo_cancelled w)"
  then have "count_list (wo_cancelled w) r \<noteq> 0" by (simp add: count_list_0_iff)
  then have "count_list (concat (wo_threads w)) (Run_cancel r) = 0 \<and> r \<notin> live_refs w"
    using le [of r] by (cases "r \<in> live_refs w"; simp only: if_True if_False; linarith)
  then show "r \<notin> live_refs w \<and> Run_cancel r \<notin> set (concat (wo_threads w))"
    unfolding count_list_0_iff by (elim conjE, intro conjI)
qed

text \<open>A record that is not waiting, or no longer registered, stays unclaimable until it is released.\<close>

definition taken :: "pc_ref \<Rightarrow> world \<Rightarrow> bool" where
  "taken r w \<longleftrightarrow> r < length (wo_heap w) \<and> (pc_state (obj_at w r) = Cn_waiting \<longrightarrow> r \<notin> live_refs w)"

lemma claim_cases:
  assumes "claim t c now w = (res, acts, w')"
  obtains "res = Inl Rj_not_found" "acts = []" "w' = w"
  | "res = Inl Rj_already_resolved" "acts = []" "w' = w"
  | r where "map_of (records_of w) t = Some r" "pc_client_id (obj_at w r) = c"
      "pc_state (obj_at w r) = Cn_waiting" "pc_deadline (obj_at w r) \<le> now"
      "res = Inl Rj_expired" "acts = cancel_actions r (obj_at w r)"
      "w' = add_tombstone t c (pop_record t (set_obj r ((obj_at w r)\<lparr>pc_state := Cn_expired\<rparr>) w))"
  | r where "map_of (records_of w) t = Some r" "pc_client_id (obj_at w r) = c"
      "pc_state (obj_at w r) = Cn_waiting" "now < pc_deadline (obj_at w r)"
      "res = Inr r" "acts = []" "w' = set_obj r ((obj_at w r)\<lparr>pc_state := Cn_resuming\<rparr>) w"
  using assms
  by (auto simp: claim_def Let_def claim_transition_def expired_at_def not_le
      split: option.splits if_splits)

lemma live_refsI: "map_of (records_of w) t = Some r \<Longrightarrow> r \<in> live_refs w"
  by (force simp: live_refs_def dest: map_of_SomeD)

lemma taken_not_claimed:
  assumes "taken r w" shows "fst (claim t c now w) \<noteq> Inr r"
proof -
  obtain res acts w' where cl: "claim t c now w = (res, acts, w')" by (metis prod_cases3)
  then have "res \<noteq> Inr r"
    using assms by (cases rule: claim_cases) (auto simp: taken_def dest: live_refsI)
  then show ?thesis by (simp add: cl)
qed

lemma taken_mono:
  assumes "taken r w" "length (wo_heap w) \<le> length (wo_heap w')" "live_refs w' \<subseteq> live_refs w"
    and "pc_state (obj_at w' r) = Cn_waiting \<Longrightarrow> pc_state (obj_at w r) = Cn_waiting \<or> r \<notin> live_refs w'"
  shows "taken r w'"
  using assms by (auto simp: taken_def)

lemma state_set_obj:
  "pc_state (obj_at (set_obj r p w) x)
     = (if x = r \<and> x < length (wo_heap w) then pc_state p else pc_state (obj_at w x))"
  by (cases "r < length (wo_heap w)") (auto simp: world_simps nth_list_update list_update_beyond)

lemma live_refs_eq: "records_of w' = records_of w \<Longrightarrow> live_refs w' = live_refs w"
  by (simp add: live_refs_def)

lemma taken_spawn [simp]: "taken r (spawn acts w) = taken r w"
  by (simp add: taken_def live_refs_def world_simps)

lemma taken_claim: "taken r w \<Longrightarrow> taken r (exec (Ev_claim t c now) w)"
proof -
  assume tk: "taken r w"
  obtain res acts w' where cl: "claim t c now w = (res, acts, w')" by (metis prod_cases3)
  have "taken r w'"
    using cl
  proof (cases rule: claim_cases)
    case (3 x)
    have "live_refs w' \<subseteq> live_refs w" by (auto simp: 3(7) live_refs_def world_simps)
    moreover have "pc_state (obj_at w' r) = Cn_waiting \<Longrightarrow> pc_state (obj_at w r) = Cn_waiting"
      by (simp add: 3(7) state_set_obj world_simps(11) world_simps(5) split: if_splits)
    ultimately show ?thesis by (intro taken_mono [OF tk]) (auto simp: 3(7) world_simps)
  next
    case (4 x)
    have "live_refs w' = live_refs w" by (simp add: 4(7) live_refs_def world_simps)
    moreover have "pc_state (obj_at w' r) = Cn_waiting \<Longrightarrow> pc_state (obj_at w r) = Cn_waiting"
      by (simp add: 4(7) state_set_obj split: if_splits)
    ultimately show ?thesis by (intro taken_mono [OF tk]) (auto simp: 4(7) world_simps)
  qed (use tk in simp_all)
  then show "taken r (exec (Ev_claim t c now) w)" by (simp add: cl)
qed

lemma taken_suspend: "taken r w \<Longrightarrow> taken r (exec (Ev_suspend p) w)"
proof -
  assume tk: "taken r w"
  then have r: "r < length (wo_heap w)" by (simp add: taken_def)
  have al: "taken r (alloc p w)"
    using tk by (auto simp: taken_def live_refs_def world_simps nth_append)
  show "taken r (exec (Ev_suspend p) w)"
  proof (cases "register_record (length (wo_heap w)) (alloc p w)")
    case (Inl e)
    then show ?thesis using al by simp
  next
    case (Inr bw)
    obtain b w' where bw: "bw = (b, w')" by (cases bw)
    have "register_record (length (wo_heap w)) (alloc p w) = Inr (b, w')" using Inr bw by simp
    then have "taken r w'"
    proof (cases rule: register_cases)
      case 1 then show ?thesis using al by simp
    next
      case 2
      have "live_refs w' = insert (length (wo_heap w)) (live_refs (alloc p w))"
        by (simp add: 2(8) live_refs_def)
      moreover have "wo_heap w' = wo_heap (alloc p w)" by (simp add: 2(8))
      ultimately show ?thesis using al r by (auto simp: taken_def)
    qed
    then show ?thesis by (simp add: Inr bw)
  qed
qed

lemma taken_close: "taken r w \<Longrightarrow> taken r (exec (Ev_close t s b) w)"
  by (rule taken_mono)
    (auto simp: close_record_def live_refs_def world_simps split: option.split)

lemma taken_expire:
  assumes "registry_inv w" "taken r w"
  shows "taken r (exec (Ev_expire now) w)"
proof -
  have tab: "table_ok w" using assms(1) by (simp add: registry_inv_def)
  obtain w' where run: "expire_due now w = (map fst (due_now now w),
      concat (map (\<lambda>r. cancel_actions r (obj_at w r)) (map snd (due_now now w))), w')"
    and sw: "sweeps w (due_now now w) w'"
    by (rule expire_due_run [OF tab])
  have "taken r w'"
  proof (rule taken_mono [OF assms(2)])
    show "length (wo_heap w) \<le> length (wo_heap w')" using sw by (simp add: sweeps_def)
    show "live_refs w' \<subseteq> live_refs w" by (auto simp: live_refs_def records_swept [OF tab sw])
    show "pc_state (obj_at w' r) = Cn_waiting \<Longrightarrow> pc_state (obj_at w r) = Cn_waiting \<or> r \<notin> live_refs w'"
      using sw by (simp add: sweeps_def split: if_splits)
  qed
  then show ?thesis by (simp add: run del: map_map)
qed

lemma taken_run:
  assumes "registry_inv w" "taken r w"
  shows "taken r (run_thread i w)"
proof (cases "i < length (wo_threads w) \<and> wo_threads w ! i \<noteq> []")
  case False
  then show ?thesis using assms(2) by (auto simp: run_thread_def split: list.split)
next
  case True
  then obtain a rest where ar: "wo_threads w ! i = a # rest" by (metis neq_Nil_conv)
  have act: "actions_ok w" using assms(1) by (simp add: registry_inv_def)
  show ?thesis
  proof (cases a)
    case (Mark_terminal x s)
    have "x \<notin> live_refs w"
      using act take_thread(2) [OF conjunct1 [OF True] ar] by (auto simp: actions_ok_def Mark_terminal)
    then have "r = x \<Longrightarrow> r \<notin> live_refs w" by simp
    then show ?thesis
      using assms(2) True ar
      by (cases "r = x") (simp_all add: run_thread_def Mark_terminal taken_def live_refs_def world_simps)
  next
    case (Run_cancel x)
    then show ?thesis using assms(2) True ar by (simp add: run_thread_def taken_def live_refs_def)
  qed
qed

lemma taken_exec:
  assumes "registry_inv w" "taken r w" "e \<noteq> Ev_release r"
  shows "taken r (exec e w)"
proof (cases e)
  case (Ev_release x)
  then show ?thesis
    using assms(2,3)
    by (auto simp: release_unclaimed_def taken_def live_refs_def state_set_obj world_simps)
qed (use assms taken_suspend taken_claim taken_close taken_expire taken_run in \<open>simp_all only: exec.simps(6)\<close>)

lemma taken_exec_all:
  "registry_inv w \<Longrightarrow> taken r w \<Longrightarrow> Ev_release r \<notin> set es \<Longrightarrow> taken r (exec_all es w)"
  by (induction es arbitrary: w) (auto intro: inv_exec taken_exec dest: not_sym)

subsection \<open>Sample worlds\<close>

lemma reachable_exec_all: "reachable w \<Longrightarrow> reachable (exec_all es w)"
  by (induction es arbitrary: w) (auto intro: reachable.event)

definition sample_pending :: "string \<Rightarrow> string \<Rightarrow> int \<Rightarrow> pending_continuation" where
  "sample_pending token client deadline = \<lparr>pc_continuation_token = token, pc_attempt_id = ''a1'',
     pc_resource_id = ''r1'', pc_channel = ''codex'', pc_call_id = ''c1'', pc_deadline = deadline,
     pc_created_at = ''2026-01-01T00:00:00.000Z'', pc_client_id = client, pc_model_echo = ''m'',
     pc_reasoning_effort = None, pc_tools_fingerprint = None, pc_tool_choice_json = None,
     pc_prefix_fingerprint = ''p'', pc_assistant_tool_calls_digest = ''d'', pc_has_handle = True,
     pc_execution_requirements_digest = None, pc_execution_output_ceiling = None,
     pc_cancel_callback = True, pc_state = Cn_waiting\<rparr>"

definition empty_world :: world where
  "empty_world = \<lparr>wo_heap = [], wo_registry = \<lparr>rg_max_pending = 64, rg_records = [], rg_tombstones = []\<rparr>,
     wo_threads = [], wo_cancelled = []\<rparr>"

definition sample_world :: world where
  \<comment> \<open>two suspensions of one client, the second in the middle of a delivery, and one of another\<close>
  "sample_world = exec_all [Ev_suspend (sample_pending ''srct-1'' ''alice'' 10),
     Ev_suspend (sample_pending ''srct-2'' ''alice'' 10), Ev_suspend (sample_pending ''srct-3'' ''bob'' 90),
     Ev_claim ''srct-2'' ''alice'' 5] empty_world"

lemma empty_world_reachable: "reachable empty_world"
proof (rule reachable.start [of MAX_PENDING_CONTINUATIONS])
  show "new_world MAX_PENDING_CONTINUATIONS = Inr empty_world"
    by (simp add: new_world_def new_registry_def MAX_PENDING_CONTINUATIONS_def empty_world_def)
qed

lemma sample_world_reachable: "reachable sample_world"
  unfolding sample_world_def by (rule reachable_exec_all [OF empty_world_reachable])

section \<open>Properties\<close>

text \<open>
  C26: whatever threads do in whatever order, the registry stays bounded and typed: never more
  records than its bound, never more than 256 tombstones, tokens unique, every registered record
  waiting or resuming under its own token; and no suspended turn is cancelled twice, nor while
  its record is still registered.
\<close>

theorem registry_bounded_and_typed:
  assumes "reachable w"
  shows "int (pending_count w) \<le> rg_max_pending (wo_registry w)
    \<and> length (tombs_of w) \<le> MAX_TERMINAL_TOMBSTONES
    \<and> distinct (map fst (records_of w))
    \<and> (\<forall>(t, r) \<in> set (records_of w). r < length (wo_heap w) \<and> pc_continuation_token (obj_at w r) = t
        \<and> pc_state (obj_at w r) \<in> {Cn_waiting, Cn_resuming})
    \<and> distinct (wo_cancelled w)
    \<and> (\<forall>r \<in> set (wo_cancelled w). r \<notin> live_refs w \<and> Run_cancel r \<notin> set (concat (wo_threads w)))"
proof -
  have inv: "registry_inv w" using assms by (rule reachable_inv)
  then have ok: "table_ok w" "bounds_ok w" by (simp_all add: registry_inv_def)
  have once: "\<forall>r \<in> set (wo_cancelled w). r \<notin> live_refs w \<and> Run_cancel r \<notin> set (concat (wo_threads w))"
    using inv_cancelled(2) [OF inv] by (rule ballI)
  show ?thesis
    using ok inv_cancelled(1) [OF inv] once unfolding table_ok_def bounds_ok_def pending_count_def
    by (elim conjE, intro conjI)
qed

theorem registry_bounded_and_typed_witness:
  "reachable sample_world \<and> int (pending_count sample_world) \<le> rg_max_pending (wo_registry sample_world)"
  using registry_bounded_and_typed [OF sample_world_reachable] sample_world_reachable
  by (elim conjE, intro conjI)

text \<open>
  C19: a tool result is delivered at most once. A successful claim is made by the owner, before
  the deadline, of a registered record that was waiting; and from then on, whatever happens in
  between, no claim by anybody obtains that record again unless it is explicitly released.
\<close>

theorem claimed_at_most_once:
  assumes "reachable w" and "claim t c now w = (Inr r, acts, w')" and "Ev_release r \<notin> set es"
  shows "detect t w = Some r \<and> pc_client_id (obj_at w r) = c \<and> now < pc_deadline (obj_at w r)
    \<and> pc_state (obj_at w r) = Cn_waiting \<and> pc_state (obj_at w' r) = Cn_resuming
    \<and> (\<forall>t' c' later. fst (claim t' c' later (exec_all es (spawn acts w'))) \<noteq> Inr r)"
proof -
  have inv: "registry_inv w" using assms(1) by (rule reachable_inv)
  have got: "map_of (records_of w) t = Some r" "pc_client_id (obj_at w r) = c"
    "pc_state (obj_at w r) = Cn_waiting" "now < pc_deadline (obj_at w r)"
    "w' = set_obj r ((obj_at w r)\<lparr>pc_state := Cn_resuming\<rparr>) w"
    using assms(2) by (cases rule: claim_cases; simp)+
  have "r < length (wo_heap w)"
    using inv table_okD map_of_SomeD [OF got(1)] by (auto simp: registry_inv_def)
  then have resuming: "pc_state (obj_at w' r) = Cn_resuming" "taken r w'"
    by (simp_all add: got(5) state_set_obj taken_def world_simps)
  have "registry_inv (spawn acts w')"
    using inv_claim [OF inv, of t c now] assms(2) by simp
  then have "taken r (exec_all es (spawn acts w'))"
    by (rule taken_exec_all) (simp_all add: resuming assms(3))
  then show ?thesis
    using got(1-4) resuming(1) taken_not_claimed by (auto simp: detect_def)
qed

lemma sample_claim:
  "claim ''srct-1'' ''alice'' 5 sample_world
     = (Inr 0, [], set_obj 0 ((obj_at sample_world 0)\<lparr>pc_state := Cn_resuming\<rparr>) sample_world)"
  by code_simp

theorem claimed_at_most_once_witness:
  "\<forall>t c later. fst (claim t c later (exec_all [Ev_close ''srct-1'' Cn_lost True, Ev_run 0, Ev_run 0]
     (spawn [] (set_obj 0 ((obj_at sample_world 0)\<lparr>pc_state := Cn_resuming\<rparr>) sample_world)))) \<noteq> Inr 0"
  by (rule claimed_at_most_once [OF sample_world_reachable sample_claim,
      of "[Ev_close ''srct-1'' Cn_lost True, Ev_run 0, Ev_run 0]",
      THEN conjunct2, THEN conjunct2, THEN conjunct2, THEN conjunct2, THEN conjunct2]) simp

text \<open>
  clients are isolated. A token of another client is answered like an unknown one and nothing
  changes; and whatever a client claims, every record of every other client keeps its state and
  its registration, and no cancellation of it is started.
\<close>

theorem clients_isolated:
  assumes "reachable w" and "claim t c now w = (res, acts, w')"
  shows "(\<forall>r. detect t w = Some r \<and> pc_client_id (obj_at w r) \<noteq> c
        \<longrightarrow> res = Inl Rj_not_found \<and> acts = [] \<and> w' = w)
    \<and> (detect t w = None \<and> \<not> was_terminal_for t c w \<longrightarrow> res = Inl Rj_not_found \<and> acts = [] \<and> w' = w)
    \<and> (\<forall>k r. (k, r) \<in> set (records_of w) \<and> pc_client_id (obj_at w r) \<noteq> c
        \<longrightarrow> (k, r) \<in> set (records_of w') \<and> obj_at w' r = obj_at w r \<and> Run_cancel r \<notin> set acts)"
proof -
  have tab: "table_ok w" using reachable_inv [OF assms(1)] by (simp add: registry_inv_def)
  have other: "(k, r) \<in> set (records_of w') \<and> obj_at w' r = obj_at w r \<and> Run_cancel r \<notin> set acts"
    if kr: "(k, r) \<in> set (records_of w)" "pc_client_id (obj_at w r) \<noteq> c" for k r
    using assms(2)
  proof (cases rule: claim_cases)
    case (3 x)
    have "x \<noteq> r" using 3(2) kr(2) by auto
    moreover have "k \<noteq> t"
      using table_key_unique [OF tab map_of_SomeD [OF 3(1)]] \<open>x \<noteq> r\<close> kr(1) by auto
    ultimately show ?thesis
      using kr by (simp add: 3(6,7) cancel_actions_def world_simps)
  next
    case (4 x)
    have "x \<noteq> r" using 4(2) kr(2) by auto
    then show ?thesis using kr by (simp add: 4(6,7) world_simps)
  qed (use kr in simp_all)
  have foreign: "res = Inl Rj_not_found \<and> acts = [] \<and> w' = w"
    if "detect t w = Some r" "pc_client_id (obj_at w r) \<noteq> c" for r
    using assms(2) that by (auto simp: claim_def detect_def Let_def)
  have unknown: "res = Inl Rj_not_found \<and> acts = [] \<and> w' = w"
    if "detect t w = None" "\<not> was_terminal_for t c w"
    using assms(2) that by (auto simp: claim_def detect_def was_terminal_for_def)
  show ?thesis using other foreign unknown by (intro conjI allI impI) (elim conjE, simp)+
qed

lemma sample_foreign_claim:
  "claim ''srct-3'' ''alice'' 5 sample_world = (Inl Rj_not_found, [], sample_world)"
  by code_simp

theorem clients_isolated_witness:
  "(''srct-3'', 2) \<in> set (records_of sample_world) \<and> pc_client_id (obj_at sample_world 2) \<noteq> ''alice''
   \<and> Run_cancel 2 \<notin> set []"
proof -
  have "(''srct-3'', 2) \<in> set (records_of sample_world)" "pc_client_id (obj_at sample_world 2) \<noteq> ''alice''"
    by code_simp+
  then show ?thesis
    using clients_isolated [OF sample_world_reachable sample_foreign_claim, THEN conjunct2, THEN conjunct2,
        rule_format, of "''srct-3''" 2] by simp
qed

section \<open>Resolution and replay\<close>

definition recent :: "nat \<Rightarrow> 'a \<Rightarrow> 'a list \<Rightarrow> bool" where
  \<comment> \<open>among the last \<open>k\<close> entries\<close>
  "recent k x ts \<longleftrightarrow> x \<in> set (take k (rev ts))"

lemma rev_deque_append: "rev (deque_append n x ts) = take n (x # rev ts)"
  proof (cases n)
  case (Suc m)
  then show ?thesis by (cases "length ts \<le> m") (simp_all add: deque_append_def Let_def rev_drop)
qed (simp add: deque_append_def)

lemma recent_deque_append:
  "recent k x ts \<Longrightarrow> Suc k \<le> n \<Longrightarrow> recent (Suc k) x (deque_append n y ts)"
  by (simp add: recent_def rev_deque_append min_absorb1)

lemma recent_fold:
  "recent k x ts \<Longrightarrow> k + length ys \<le> n \<Longrightarrow> recent (k + length ys) x (fold (deque_append n) ys ts)"
proof (induction ys arbitrary: k ts)
  case (Cons y ys)
  then show ?case using recent_deque_append [of k x ts n y] Cons.IH [of "Suc k" "deque_append n y ts"] by simp
qed simp

lemma recent_in_set: "recent k x ts \<Longrightarrow> x \<in> set ts"
  by (auto simp: recent_def dest: in_set_takeD)

lemma recent_new: "0 < n \<Longrightarrow> recent 1 x (deque_append n x ts)"
  by (cases n) (simp_all add: recent_def rev_deque_append)

lemma recent_of_fold:
  assumes "x \<in> set ys" "length ys \<le> n"
  shows "x \<in> set (fold (deque_append n) ys ts)"
proof -
  obtain as bs where ys: "ys = as @ x # bs" using assms(1) by (auto dest: split_list)
  have "recent (1 + length bs) x (fold (deque_append n) bs (deque_append n x (fold (deque_append n) as ts)))"
    using assms(2) by (intro recent_fold recent_new) (simp_all add: ys)
  then show ?thesis by (auto simp: ys dest: recent_in_set)
qed

lemma set_fold_deque: "set (fold (deque_append n) ys ts) \<subseteq> set ys \<union> set ts"
proof (induction ys arbitrary: ts)
  case (Cons y ys)
  then show ?case using set_deque_append [of n y ts] by fastforce
qed simp

lemma detect_pop [simp]: "detect t (add_tombstone k c (pop_record t w)) = None"
  by (auto simp: detect_def world_simps map_of_eq_None_iff)

lemma claim_unregistered:
  "detect t w = None \<Longrightarrow> claim t c now w
     = (Inl (if was_terminal_for t c w then Rj_already_resolved else Rj_not_found), [], w)"
  by (simp add: detect_def claim_def was_terminal_for_def)

lemma close_run:
  assumes "detect t w = Some r" "s \<in> {Cn_completed, Cn_cancelled, Cn_expired, Cn_lost}"
  shows "close_record t s b w = Inr (Mark_terminal r s # (if b then cancel_actions r (obj_at w r) else []),
      add_tombstone t (pc_client_id (obj_at w r)) (pop_record t w))"
  using assms by (auto simp: close_record_def detect_def)

text \<open>
  after its owner's continuation is closed, a replayed result is answered as already resolved
  and to every other client as not found, the record is gone, closing again cancels nothing, and
  the answer survives the next 255 resolved continuations. A state that is not terminal is refused.
\<close>

theorem closed_then_replayed:
  assumes "detect t w = Some r" and "c = pc_client_id (obj_at w r)"
  shows "(\<exists>e. close_record t Cn_waiting b w = Inl (ValueError e) \<and> close_record t Cn_resuming b w = Inl (ValueError e))
    \<and> (\<forall>s \<in> {Cn_completed, Cn_cancelled, Cn_expired, Cn_lost}. \<exists>acts w'.
         close_record t s b w = Inr (acts, w') \<and> detect t w' = None
         \<and> (\<forall>now. claim t c now w' = (Inl Rj_already_resolved, [], w'))
         \<and> (\<forall>d now. d \<noteq> c \<and> \<not> was_terminal_for t d w \<longrightarrow> claim t d now w' = (Inl Rj_not_found, [], w'))
         \<and> (\<forall>s' b'. s' \<in> {Cn_completed, Cn_cancelled, Cn_expired, Cn_lost} \<longrightarrow>
              (\<exists>w''. close_record t s' b' w' = Inr ([], w'')))
         \<and> (\<forall>later. length later < MAX_TERMINAL_TOMBSTONES \<longrightarrow>
              (t, c) \<in> set (fold (deque_append MAX_TERMINAL_TOMBSTONES) later (tombs_of w'))))"
proof (intro conjI ballI)
  show "\<exists>e. close_record t Cn_waiting b w = Inl (ValueError e) \<and> close_record t Cn_resuming b w = Inl (ValueError e)"
    by (simp add: close_record_def)
next
  fix s assume s: "s \<in> {Cn_completed, Cn_cancelled, Cn_expired, Cn_lost}"
  let ?w = "add_tombstone t c (pop_record t w)"
  have run: "\<exists>acts. close_record t s b w = Inr (acts, ?w)"
    using close_run [OF assms(1) s] by (simp add: assms(2))
  have tombs: "tombs_of ?w = deque_append MAX_TERMINAL_TOMBSTONES (t, c) (tombs_of w)"
    by (simp add: world_simps)
  have fresh: "recent 1 (t, c) (tombs_of ?w)"
    unfolding tombs by (rule recent_new) (simp add: MAX_TERMINAL_TOMBSTONES_def)
  have mine: "was_terminal_for t c ?w"
    using recent_in_set [OF fresh] by (simp add: was_terminal_for_def)
  have others: "\<not> was_terminal_for t d ?w" if "d \<noteq> c" "\<not> was_terminal_for t d w" for d
    using that set_deque_append [of MAX_TERMINAL_TOMBSTONES "(t, c)" "tombs_of w"]
    by (auto simp: was_terminal_for_def tombs)
  have again: "\<exists>w''. close_record t s' b' ?w = Inr ([], w'')"
    if "s' \<in> {Cn_completed, Cn_cancelled, Cn_expired, Cn_lost}" for s' b'
    using that detect_pop [of t t c w] by (auto simp: close_record_def detect_def)
  have kept: "(t, c) \<in> set (fold (deque_append MAX_TERMINAL_TOMBSTONES) later (tombs_of ?w))"
    if "length later < MAX_TERMINAL_TOMBSTONES" for later
    using that by (intro recent_in_set [OF recent_fold [OF fresh]]) simp
  show "\<exists>acts w'. close_record t s b w = Inr (acts, w') \<and> detect t w' = None
         \<and> (\<forall>now. claim t c now w' = (Inl Rj_already_resolved, [], w'))
         \<and> (\<forall>d now. d \<noteq> c \<and> \<not> was_terminal_for t d w \<longrightarrow> claim t d now w' = (Inl Rj_not_found, [], w'))
         \<and> (\<forall>s' b'. s' \<in> {Cn_completed, Cn_cancelled, Cn_expired, Cn_lost} \<longrightarrow>
              (\<exists>w''. close_record t s' b' w' = Inr ([], w'')))
         \<and> (\<forall>later. length later < MAX_TERMINAL_TOMBSTONES \<longrightarrow>
              (t, c) \<in> set (fold (deque_append MAX_TERMINAL_TOMBSTONES) later (tombs_of w')))"
    using run mine others again kept claim_unregistered [OF detect_pop] by auto
qed

theorem closed_then_replayed_witness:
  "\<exists>acts w'. close_record ''srct-1'' Cn_completed False sample_world = Inr (acts, w')
     \<and> claim ''srct-1'' ''alice'' 5 w' = (Inl Rj_already_resolved, [], w')"
proof -
  have "detect ''srct-1'' sample_world = Some 0" "''alice'' = pc_client_id (obj_at sample_world 0)"
    by code_simp+
  from closed_then_replayed [OF this, THEN conjunct2, THEN bspec, of Cn_completed False, OF insertI1]
  show ?thesis by (elim exE conjE) (intro exI conjI, assumption, erule spec)
qed

text \<open>
  a record that the reaper expires while it waits for its tool result is not remembered: the
  owner's late result is answered as not found. Only a record caught in the middle of a delivery,
  or expired by the claim itself, is answered as already resolved on replay.
\<close>

theorem reaper_forgets_waiting:
  assumes "reachable w" and "detect t w = Some r" and "expired_at now (obj_at w r)"
    and "rg_max_pending (wo_registry w) \<le> 256" and "c = pc_client_id (obj_at w r)" and "\<not> was_terminal_for t c w"
  shows "claim t c later (exec (Ev_expire now) w)
      = (Inl (if pc_state (obj_at w r) = Cn_waiting then Rj_not_found else Rj_already_resolved), [],
         exec (Ev_expire now) w)
    \<and> (pc_state (obj_at w r) = Cn_waiting \<longrightarrow>
        (let (res, acts, w') = claim t c now w in res = Inl Rj_expired
           \<and> claim t c later w' = (Inl Rj_already_resolved, [], w')))"
proof -
  have inv: "registry_inv w" using assms(1) by (rule reachable_inv)
  then have tab: "table_ok w" by (simp add: registry_inv_def)
  have tr: "(t, r) \<in> set (records_of w)" using assms(2) by (auto simp: detect_def dest: map_of_SomeD)
  obtain w' where run: "expire_due now w = (map fst (due_now now w),
      concat (map (\<lambda>r. cancel_actions r (obj_at w r)) (map snd (due_now now w))), w')"
    and sw: "sweeps w (due_now now w) w'"
    by (rule expire_due_run [OF tab])
  obtain acts where ex: "exec (Ev_expire now) w = spawn acts w'"
    by (simp add: run del: map_map)
  let ?w = "spawn acts w'"
  have due: "(t, r) \<in> set (due_now now w)" using tr assms(3) by (simp add: due_now_live(3) [OF tab])
  have gone: "detect t ?w = None"
    using due sw by (force simp: detect_def map_of_eq_None_iff world_simps sweeps_def)
  have tombs: "tombs_of ?w = fold (deque_append MAX_TERMINAL_TOMBSTONES) (expired_tombs w (due_now now w)) (tombs_of w)"
    using sw by (simp add: sweeps_def world_simps)
  have "was_terminal_for t c ?w \<longleftrightarrow> pc_state (obj_at w r) \<noteq> Cn_waiting"
  proof
    assume busy: "pc_state (obj_at w r) \<noteq> Cn_waiting"
    have "length (expired_tombs w (due_now now w)) \<le> length (records_of w)"
      unfolding expired_tombs_def due_now_def due_items_def
      by (simp add: order.trans [OF length_filter_le length_filter_le])
    moreover have "int (length (records_of w)) \<le> 256"
      using inv assms(4) by (simp add: registry_inv_def bounds_ok_def)
    moreover have "(t, c) \<in> set (expired_tombs w (due_now now w))"
      using due busy by (force simp: expired_tombs_def assms(5))
    ultimately show "was_terminal_for t c ?w"
      unfolding was_terminal_for_def tombs
      by (intro recent_of_fold) (simp_all add: MAX_TERMINAL_TOMBSTONES_def)
  next
    assume "was_terminal_for t c ?w"
    then have "(t, c) \<in> set (expired_tombs w (due_now now w))"
      using assms(6) subsetD [OF set_fold_deque] unfolding was_terminal_for_def tombs by (metis UnE)
    then obtain x where "(t, x) \<in> set (due_now now w)" "pc_state (obj_at w x) \<noteq> Cn_waiting"
      by (auto simp: expired_tombs_def)
    then show "pc_state (obj_at w r) \<noteq> Cn_waiting"
      using table_key_unique [OF tab tr] by (auto simp: due_now_live(3) [OF tab])
  qed
  then have reaper: "claim t c later (exec (Ev_expire now) w)
      = (Inl (if pc_state (obj_at w r) = Cn_waiting then Rj_not_found else Rj_already_resolved), [],
         exec (Ev_expire now) w)"
    unfolding ex by (subst claim_unregistered [OF gone]) simp
  have self: "(let (res, acts, w') = claim t c now w in res = Inl Rj_expired
      \<and> claim t c later w' = (Inl Rj_already_resolved, [], w'))" if "pc_state (obj_at w r) = Cn_waiting"
  proof -
    let ?v = "add_tombstone t c (pop_record t (set_obj r ((obj_at w r)\<lparr>pc_state := Cn_expired\<rparr>) w))"
    have "was_terminal_for t c ?v"
      unfolding was_terminal_for_def
      by (simp add: world_simps last_deque_append MAX_TERMINAL_TOMBSTONES_def)
    moreover have "claim t c now w = (Inl Rj_expired, cancel_actions r (obj_at w r), ?v)"
      using assms(2,3,5) that by (simp add: claim_def detect_def claim_transition_def Let_def)
    ultimately show ?thesis by (simp add: claim_unregistered)
  qed
  show ?thesis using reaper self by (intro conjI impI)
qed

theorem reaper_forgets_waiting_witness:
  "fst (claim ''srct-1'' ''alice'' 20 (exec (Ev_expire 20) sample_world)) = Inl Rj_not_found"
proof -
  have "detect ''srct-1'' sample_world = Some 0" "expired_at 20 (obj_at sample_world 0)"
    "rg_max_pending (wo_registry sample_world) \<le> 256" "''alice'' = pc_client_id (obj_at sample_world 0)"
    "\<not> was_terminal_for ''srct-1'' ''alice'' sample_world" "pc_state (obj_at sample_world 0) = Cn_waiting"
    by code_simp+
  then show ?thesis
    using reaper_forgets_waiting [OF sample_world_reachable, of "''srct-1''" 0 20 "''alice''" 20, THEN conjunct1]
    by (simp del: exec.simps)
qed

section \<open>Deadlines are enforced\<close>

lemma drain_cancels:
  "wo_threads w = ts @ [map Run_cancel rs] \<Longrightarrow> \<exists>w'. exec_all (replicate (length rs) (Ev_run (length ts))) w = w'
     \<and> wo_heap w' = wo_heap w \<and> wo_registry w' = wo_registry w \<and> wo_cancelled w' = wo_cancelled w @ rs"
proof (induction rs arbitrary: w)
  case (Cons r rs)
  let ?w = "w\<lparr>wo_threads := ts @ [map Run_cancel rs], wo_cancelled := wo_cancelled w @ [r]\<rparr>"
  have "run_thread (length ts) w = ?w" using Cons.prems by (simp add: run_thread_def)
  then show ?case using Cons.IH [of ?w] by simp
qed simp

lemma cancels_of_due:
  "concat (map (\<lambda>r. cancel_actions r (obj_at w r)) rs) = map Run_cancel (filter (\<lambda>r. pc_cancel_callback (obj_at w r)) rs)"
  by (induction rs) (simp_all add: cancel_actions_def)

text \<open>
  the reaper enforces the absolute deadline. After it has run at some instant exactly the
  records with a later deadline remain, and once the actions it leaves behind have been executed
  every other record is expired and its suspended turn has been cancelled, so no request pattern
  keeps a turn alive beyond its deadline.
\<close>

theorem reaper_enforces_deadline:
  assumes "reachable w"
  shows "\<exists>n. let i = length (wo_threads w); w' = exec_all (Ev_expire now # replicate n (Ev_run i)) w in
      records_of w' = filter (\<lambda>(_, r). now < pc_deadline (obj_at w r)) (records_of w)
      \<and> (\<forall>(t, r) \<in> set (records_of w). pc_deadline (obj_at w r) \<le> now \<longrightarrow>
            pc_state (obj_at w' r) = Cn_expired
            \<and> (pc_cancel_callback (obj_at w r) \<longrightarrow> r \<in> set (wo_cancelled w')))"
proof -
  have tab: "table_ok w" using reachable_inv [OF assms] by (simp add: registry_inv_def)
  define rs where "rs = filter (\<lambda>r. pc_cancel_callback (obj_at w r)) (map snd (due_now now w))"
  obtain w1 where run: "expire_due now w = (map fst (due_now now w), map Run_cancel rs, w1)"
    and sw: "sweeps w (due_now now w) w1"
    by (rule expire_due_run [OF tab]) (simp only: cancels_of_due rs_def)
  have recs: "records_of w1 = filter (\<lambda>(_, r). now < pc_deadline (obj_at w r)) (records_of w)"
    by (simp add: records_swept [OF tab sw] expired_at_def not_le)
  have "\<exists>w'. exec_all (replicate (length rs) (Ev_run (length (wo_threads w)))) (spawn (map Run_cancel rs) w1) = w'
      \<and> wo_heap w' = wo_heap w1 \<and> wo_registry w' = wo_registry w1 \<and> wo_cancelled w' = wo_cancelled w1 @ rs"
  proof (cases "rs = []")
    case False
    then have "wo_threads (spawn (map Run_cancel rs) w1) = wo_threads w @ [map Run_cancel rs]"
      using sw by (simp add: spawn_def sweeps_def)
    from drain_cancels [OF this] show ?thesis by (simp add: world_simps)
  qed simp
  then obtain w' where w': "exec_all (Ev_expire now # replicate (length rs) (Ev_run (length (wo_threads w)))) w = w'"
    and same: "wo_heap w' = wo_heap w1" "wo_registry w' = wo_registry w1" "wo_cancelled w' = wo_cancelled w1 @ rs"
    by (auto simp: run)
  have "pc_state (obj_at w' r) = Cn_expired \<and> (pc_cancel_callback (obj_at w r) \<longrightarrow> r \<in> set (wo_cancelled w'))"
    if "(t, r) \<in> set (records_of w)" "pc_deadline (obj_at w r) \<le> now" for t r
  proof -
    have "(t, r) \<in> set (due_now now w)" using that by (simp add: due_now_live(3) [OF tab] expired_at_def)
    then have "r \<in> set (map snd (due_now now w))" by force
    then show ?thesis using sw by (simp add: same rs_def sweeps_def)
  qed
  then show ?thesis
    using recs by (intro exI [of _ "length rs"]) (simp only: Let_def w' same split_beta, auto)
qed

theorem reaper_enforces_deadline_witness:
  "\<exists>n. let w' = exec_all (Ev_expire 20 # replicate n (Ev_run 0)) sample_world in
     records_of w' = filter (\<lambda>(_, r). 20 < pc_deadline (obj_at sample_world r)) (records_of sample_world)"
proof -
  have "length (wo_threads sample_world) = 0" by code_simp
  then show ?thesis
    using reaper_enforces_deadline [OF sample_world_reachable, of 20]
    by (simp only: Let_def) (elim exE conjE, rule exI)
qed

section \<open>An abstract specification of the registry\<close>

text \<open>
  Without a heap, threads or callbacks: what is pending is a list of tokens with their owner,
  their deadline, whether a result is being delivered and whether the turn can be cancelled; what is
  resolved is remembered in a ring of 256 entries. The table follows the code where the code and
  the documentation of \<open>was_terminal_for\<close> disagree: \<open>lease_expire\<close> remembers the leases that expire
  during a delivery, \<open>lease_expire_documented\<close> would remember all of them.
\<close>

record lease =
  le_token :: string
  le_owner :: string
  le_until :: int
  le_busy :: bool
  le_cancellable :: bool

record lease_table =
  lt_capacity :: int
  lt_leases :: "lease list"
  lt_resolved :: "(string \<times> string) list"

definition remember :: "(string \<times> string) list \<Rightarrow> lease_table \<Rightarrow> lease_table" where
  "remember xs S = S\<lparr>lt_resolved := fold (deque_append MAX_TERMINAL_TOMBSTONES) xs (lt_resolved S)\<rparr>"

definition drop_leases :: "(lease \<Rightarrow> bool) \<Rightarrow> lease_table \<Rightarrow> lease_table" where
  "drop_leases P S = S\<lparr>lt_leases := filter (\<lambda>l. \<not> P l) (lt_leases S)\<rparr>"

definition lease_new :: "pending_continuation \<Rightarrow> lease" where
  "lease_new p = \<lparr>le_token = pc_continuation_token p, le_owner = pc_client_id p, le_until = pc_deadline p,
     le_busy = False, le_cancellable = pc_cancel_callback p\<rparr>"

definition lease_acceptable :: "pending_continuation \<Rightarrow> bool" where
  \<comment> \<open>a record whose registration does not raise\<close>
  "lease_acceptable p =
     (safe_id_match (pc_client_id p) \<and> 1 \<le> length (pc_model_echo p) \<and> length (pc_model_echo p) \<le> 512
      \<and> pc_state p = Cn_waiting)"

definition lease_register :: "pending_continuation \<Rightarrow> lease_table \<Rightarrow> (bool \<times> lease_table) option" where
  \<comment> \<open>None: an exception\<close>
  "lease_register p S =
     (if \<not> lease_acceptable p then None
      else if int (length (lt_leases S)) < lt_capacity S
              \<and> pc_continuation_token p \<notin> le_token ` set (lt_leases S)
        then Some (True, S\<lparr>lt_leases := lt_leases S @ [lease_new p]\<rparr>)
      else Some (False, S))"

definition lease_cancels :: "(lease \<Rightarrow> bool) \<Rightarrow> lease_table \<Rightarrow> string list" where
  \<comment> \<open>the turns to cancel when these leases end\<close>
  "lease_cancels P S = map le_token (filter (\<lambda>l. P l \<and> le_cancellable l) (lt_leases S))"

definition lease_claim :: "string \<Rightarrow> string \<Rightarrow> int \<Rightarrow> lease_table \<Rightarrow> rejection option \<times> lease_table" where
  "lease_claim t c now S =
     (case find (\<lambda>l. le_token l = t) (lt_leases S) of
        None \<Rightarrow> (Some (if (t, c) \<in> set (lt_resolved S) then Rj_already_resolved else Rj_not_found), S)
      | Some l \<Rightarrow>
          (if le_owner l \<noteq> c then (Some Rj_not_found, S)
           else if le_busy l then (Some Rj_already_resolved, S)
           else if le_until l \<le> now then
             (Some Rj_expired, remember [(t, c)] (drop_leases (\<lambda>l. le_token l = t) S))
           else (None, S\<lparr>lt_leases := map (\<lambda>l. if le_token l = t then l\<lparr>le_busy := True\<rparr> else l) (lt_leases S)\<rparr>)))"

definition lease_close :: "string \<Rightarrow> lease_table \<Rightarrow> lease_table" where
  "lease_close t S = remember
     [(t, case find (\<lambda>l. le_token l = t) (lt_leases S) of None \<Rightarrow> '''' | Some l \<Rightarrow> le_owner l)]
     (drop_leases (\<lambda>l. le_token l = t) S)"

definition lease_expire :: "int \<Rightarrow> lease_table \<Rightarrow> lease_table" where
  "lease_expire now S = remember
     (map (\<lambda>l. (le_token l, le_owner l)) (filter (\<lambda>l. le_until l \<le> now \<and> le_busy l) (lt_leases S)))
     (drop_leases (\<lambda>l. le_until l \<le> now) S)"

definition lease_expire_documented :: "int \<Rightarrow> lease_table \<Rightarrow> lease_table" where
  \<comment> \<open>what the documentation of \<open>was_terminal_for\<close> says of expiry\<close>
  "lease_expire_documented now S = remember
     (map (\<lambda>l. (le_token l, le_owner l)) (filter (\<lambda>l. le_until l \<le> now) (lt_leases S)))
     (drop_leases (\<lambda>l. le_until l \<le> now) S)"

definition cancelled_by :: "world \<Rightarrow> action list \<Rightarrow> string list" where
  \<comment> \<open>the turns whose cancellation is among the actions a thread performs after the lock\<close>
  "cancelled_by w acts = map (\<lambda>r. pc_continuation_token (obj_at w r))
     (concat (map (\<lambda>a. case a of Run_cancel r \<Rightarrow> [r] | Mark_terminal _ _ \<Rightarrow> []) acts))"

definition lease_of :: "world \<Rightarrow> string \<times> pc_ref \<Rightarrow> lease" where
  "lease_of w = (\<lambda>(t, r). \<lparr>le_token = t, le_owner = pc_client_id (obj_at w r),
     le_until = pc_deadline (obj_at w r), le_busy = (pc_state (obj_at w r) \<noteq> Cn_waiting),
     le_cancellable = pc_cancel_callback (obj_at w r)\<rparr>)"

definition leases :: "world \<Rightarrow> lease_table" where
  "leases w = \<lparr>lt_capacity = rg_max_pending (wo_registry w), lt_leases = map (lease_of w) (records_of w), lt_resolved = tombs_of w\<rparr>"

lemma lease_of_fields [simp]:
  "le_token (lease_of w (t, r)) = t" "le_owner (lease_of w (t, r)) = pc_client_id (obj_at w r)"
  "le_until (lease_of w (t, r)) = pc_deadline (obj_at w r)"
  "le_busy (lease_of w (t, r)) = (pc_state (obj_at w r) \<noteq> Cn_waiting)"
  "le_cancellable (lease_of w (t, r)) = pc_cancel_callback (obj_at w r)"
  by (simp_all add: lease_of_def)

lemma find_lease:
  "find (\<lambda>l. le_token l = t) (map (lease_of w) xs) = map_option (\<lambda>r. lease_of w (t, r)) (map_of xs t)"
  by (induction xs) auto

lemma lease_of_cong: "obj_at w' r = obj_at w r \<Longrightarrow> lease_of w' (t, r) = lease_of w (t, r)"
  by (simp add: lease_of_def)

lemma leases_eq:
  "records_of w' = records_of w \<Longrightarrow> tombs_of w' = tombs_of w
    \<Longrightarrow> rg_max_pending (wo_registry w') = rg_max_pending (wo_registry w)
    \<Longrightarrow> (\<And>t r. (t, r) \<in> set (records_of w) \<Longrightarrow> lease_of w' (t, r) = lease_of w (t, r)) \<Longrightarrow> leases w' = leases w"
  by (auto simp: leases_def)

lemma leases_spawn [simp]: "leases (spawn acts w) = leases w"
  by (rule leases_eq) (simp_all add: world_simps lease_of_def)

lemma filter_lease_token:
  "filter (\<lambda>l. le_token l \<noteq> t) (map (lease_of w) xs) = map (lease_of w) (filter (\<lambda>(k, _). k \<noteq> t) xs)"
  by (induction xs) auto

lemma leases_pop:
  assumes "\<And>k x. (k, x) \<in> set (records_of w) \<Longrightarrow> k \<noteq> t \<Longrightarrow> obj_at w' x = obj_at w x"
    and "records_of w' = filter (\<lambda>(k, _). k \<noteq> t) (records_of w)"
    and "tombs_of w' = deque_append MAX_TERMINAL_TOMBSTONES (t, c) (tombs_of w)"
    and "rg_max_pending (wo_registry w') = rg_max_pending (wo_registry w)"
  shows "leases w' = remember [(t, c)] (drop_leases (\<lambda>l. le_token l = t) (leases w))"
  using assms
  by (auto simp: leases_def remember_def drop_leases_def filter_lease_token intro: lease_of_cong)

lemma leases_set_state:
  assumes "table_ok w" "(t, r) \<in> set (records_of w)"
  shows "leases (set_obj r ((obj_at w r)\<lparr>pc_state := s\<rparr>) w)
    = (leases w)\<lparr>lt_leases := map (\<lambda>l. if le_token l = t then l\<lparr>le_busy := (s \<noteq> Cn_waiting)\<rparr> else l)
        (lt_leases (leases w))\<rparr>"
proof -
  have r: "r < length (wo_heap w)" using table_okD [OF assms] by simp
  have "lease_of (set_obj r ((obj_at w r)\<lparr>pc_state := s\<rparr>) w) (k, x)
      = (let l = lease_of w (k, x) in if le_token l = t then l\<lparr>le_busy := (s \<noteq> Cn_waiting)\<rparr> else l)"
    if "(k, x) \<in> set (records_of w)" for k x
  proof (cases "k = t")
    case True
    then have "x = r" using table_key_unique [OF assms] that by simp
    then show ?thesis using r True by (simp add: lease_of_def world_simps)
  next
    case False
    then have "x \<noteq> r" using table_ref_unique [OF assms(1) that] assms(2) by auto
    then show ?thesis using False by (simp add: lease_of_def world_simps)
  qed
  then show ?thesis by (auto simp: leases_def world_simps Let_def)
qed

lemma leases_claim:
  assumes "table_ok w" "claim t c now w = (res, acts, w')"
  shows "lease_claim t c now (leases w) = (case res of Inl x \<Rightarrow> Some x | Inr _ \<Rightarrow> None, leases w')"
proof (cases "map_of (records_of w) t")
  case None
  then show ?thesis
    using assms(2) by (auto simp: lease_claim_def claim_def leases_def find_lease)
next
  case (Some r)
  have m: "(t, r) \<in> set (records_of w)" using Some by (rule map_of_SomeD)
  have l: "find (\<lambda>l. le_token l = t) (lt_leases (leases w)) = Some (lease_of w (t, r))"
    by (simp add: leases_def find_lease Some)
  have other: "r \<noteq> x" if "(k, x) \<in> set (records_of w)" "k \<noteq> t" for k x
    using table_ref_unique [OF assms(1) m] that by auto
  have pop: "leases (add_tombstone t c (pop_record t (set_obj r ((obj_at w r)\<lparr>pc_state := Cn_expired\<rparr>) w)))
      = remember [(t, c)] (drop_leases (\<lambda>l. le_token l = t) (leases w))"
    using other by (intro leases_pop) (simp_all add: world_simps)
  have go: "leases (set_obj r ((obj_at w r)\<lparr>pc_state := Cn_resuming\<rparr>) w)
      = (leases w)\<lparr>lt_leases := map (\<lambda>l. if le_token l = t then l\<lparr>le_busy := True\<rparr> else l) (lt_leases (leases w))\<rparr>"
    using leases_set_state [OF assms(1) m, of Cn_resuming] by simp
  show ?thesis
    using assms(2) pop go
    by (auto simp: lease_claim_def l claim_def Some Let_def claim_transition_def expired_at_def split: if_splits)
qed

lemma leases_close:
  assumes "table_ok w" "close_record t s b w = Inr (acts, w')"
  shows "leases w' = lease_close t (leases w)"
proof -
  have "w' = add_tombstone t (case map_of (records_of w) t of None \<Rightarrow> '''' | Some r \<Rightarrow> pc_client_id (obj_at w r))
      (pop_record t w)"
    using assms(2) by (auto simp: close_record_def split: if_splits option.splits)
  moreover have "leases (add_tombstone t c (pop_record t w))
      = remember [(t, c)] (drop_leases (\<lambda>l. le_token l = t) (leases w))" for c
    by (rule leases_pop) (simp_all add: world_simps)
  ultimately show ?thesis
    by (auto simp: lease_close_def leases_def find_lease split: option.split)
qed

lemma leases_expire:
  assumes "table_ok w"
  shows "leases (snd (snd (expire_due now w))) = lease_expire now (leases w)"
proof -
  obtain w' where due: "expire_due now w = (map fst (due_now now w),
      concat (map (\<lambda>r. cancel_actions r (obj_at w r)) (map snd (due_now now w))), w')"
    and sw: "sweeps w (due_now now w) w'"
    by (rule expire_due_run [OF assms])
  have run: "snd (snd (expire_due now w)) = w'" unfolding due by simp
  have recs: "records_of w' = filter (\<lambda>(_, r). \<not> pc_deadline (obj_at w r) \<le> now) (records_of w)"
    by (simp add: records_swept [OF assms sw] expired_at_def)
  have same: "lease_of w' (t, r) = lease_of w (t, r)" if "(t, r) \<in> set (records_of w')" for t r
  proof -
    have "r \<notin> snd ` set (due_now now w)"
      using that by (auto simp: recs due_now_live(3) [OF assms] expired_at_def)
    then show ?thesis using sw by (intro lease_of_cong) (simp add: sweeps_def)
  qed
  have kept: "map (lease_of w') (records_of w') = filter (\<lambda>l. \<not> le_until l \<le> now) (map (lease_of w) (records_of w))"
  proof -
    have "map (lease_of w') (records_of w') = map (lease_of w) (records_of w')" using same by auto
    then show ?thesis by (simp add: recs filter_map comp_def case_prod_unfold lease_of_def)
  qed
  have "expired_tombs w (due_now now w)
      = map (\<lambda>l. (le_token l, le_owner l)) (filter (\<lambda>l. le_until l \<le> now \<and> le_busy l) (map (lease_of w) (records_of w)))"
    by (simp add: expired_tombs_def due_now_def due_items_def filter_map comp_def case_prod_unfold
        lease_of_def expired_at_def conj_commute)
  then show ?thesis
    using sw kept by (simp add: run leases_def lease_expire_def remember_def drop_leases_def sweeps_def)
qed

lemma state_self [simp]: "pc_state p = s \<Longrightarrow> p\<lparr>pc_state := s\<rparr> = p"
  by (cases p) simp

lemma leases_run:
  assumes "registry_inv w" shows "leases (run_thread i w) = leases w"
proof (cases "i < length (wo_threads w) \<and> wo_threads w ! i \<noteq> []")
  case False
  then show ?thesis by (auto simp: run_thread_def split: list.split)
next
  case True
  then obtain a rest where ar: "wo_threads w ! i = a # rest" by (metis neq_Nil_conv)
  have act: "actions_ok w" using assms by (simp add: registry_inv_def)
  show ?thesis
  proof (cases a)
    case (Mark_terminal x s)
    have "x \<notin> live_refs w"
      using act take_thread(2) [OF conjunct1 [OF True] ar] by (auto simp: actions_ok_def Mark_terminal)
    then have "x \<noteq> r" if "(t, r) \<in> set (records_of w)" for t r
      using that by (force simp: live_refs_def)
    then show ?thesis
      using True ar by (intro leases_eq) (auto simp: run_thread_def Mark_terminal world_simps lease_of_def)
  next
    case (Run_cancel x)
    then show ?thesis
      using True ar by (intro leases_eq) (simp_all add: run_thread_def lease_of_def)
  qed
qed

lemma leases_alloc: "registry_inv w \<Longrightarrow> leases (alloc p w) = leases w"
  using table_okD by (intro leases_eq) (auto simp: world_simps registry_inv_def lease_of_def nth_append)

lemma leases_release:
  assumes tab: "table_ok w" and "detect t w = Some r"
  shows "leases (exec (Ev_release r) w) = (leases w)\<lparr>lt_leases :=
    map (\<lambda>l. if le_token l = t then l\<lparr>le_busy := False\<rparr> else l) (lt_leases (leases w))\<rparr>"
proof -
  have tr: "(t, r) \<in> set (records_of w)" using assms(2) by (auto simp: detect_def dest: map_of_SomeD)
  have r: "r < length (wo_heap w)" "pc_state (obj_at w r) \<in> {Cn_waiting, Cn_resuming}"
    using table_okD [OF tab tr] by simp_all
  have "release_unclaimed r w = set_obj r ((obj_at w r)\<lparr>pc_state := Cn_waiting\<rparr>) w"
    using r(2)
    by (cases "pc_state (obj_at w r) = Cn_waiting")
      (simp_all add: release_unclaimed_def restore_waiting_def set_obj_def state_self)
  then show ?thesis using leases_set_state [OF tab tr, of Cn_waiting] r(1) by simp
qed

lemma register_lease:
  "(case register_record r w of Inl _ \<Rightarrow> None | Inr (b, w') \<Rightarrow> Some (b, leases w'))
    = lease_register (obj_at w r) (leases w)"
proof (cases "lease_acceptable (obj_at w r)")
  case False
  have "\<nexists>x. register_record r w = Inr x"
    using False by (auto simp: register_record_def lease_acceptable_def gv_text_def Let_def bind_r_Inr_iff
        v_safe_id_Inr Suc_le_eq split: if_splits)
  then obtain e where "register_record r w = Inl e" by (cases "register_record r w") auto
  then show ?thesis using False by (simp add: lease_register_def)
next
  case True
  then have ok: "v_safe_id ValueError (PStr (pc_client_id (obj_at w r))) f = Inr (pc_client_id (obj_at w r))"
    "gv_text 512 (pc_model_echo (obj_at w r)) f = Inr (pc_model_echo (obj_at w r))"
    "pc_state (obj_at w r) = Cn_waiting" for f
    by (auto simp: lease_acceptable_def v_safe_id_Inr gv_text_def)
  have token: "pc_continuation_token (obj_at w r) \<notin> le_token ` set (lt_leases (leases w))
      \<longleftrightarrow> map_of (records_of w) (pc_continuation_token (obj_at w r)) = None"
    by (force simp: leases_def map_of_eq_None_iff)
  have new: "lease_of w (pc_continuation_token (obj_at w r), r) = lease_new (obj_at w r)"
    using ok(3) by (simp add: lease_of_def lease_new_def)
  show ?thesis
    using True ok token new
    by (auto simp: register_record_def lease_register_def Let_def leases_def lease_of_def)
qed

lemma suspend_lease:
  assumes "registry_inv w"
  shows "leases (exec (Ev_suspend p) w)
    = (case lease_register p (leases w) of None \<Rightarrow> leases w | Some (_, S) \<Rightarrow> S)"
proof -
  have p: "obj_at (alloc p w) (length (wo_heap w)) = p" by (simp add: world_simps)
  show ?thesis
    using register_lease [of "length (wo_heap w)" "alloc p w"]
    by (cases "register_record (length (wo_heap w)) (alloc p w)")
      (auto simp: p leases_alloc [OF assms] dest: sym)
qed

subsection \<open>What the operations answer and whom they cancel\<close>

lemma cancelled_by_simps [simp]:
  "cancelled_by w [] = []" "cancelled_by w (Run_cancel r # as) = pc_continuation_token (obj_at w r) # cancelled_by w as"
  "cancelled_by w (Mark_terminal r s # as) = cancelled_by w as"
  by (simp_all add: cancelled_by_def)

lemma cancelled_by_action:
  "cancelled_by w (cancel_actions r p) = (if pc_cancel_callback p then [pc_continuation_token (obj_at w r)] else [])"
  by (simp add: cancel_actions_def)

lemma filter_key:
  "distinct (map fst xs) \<Longrightarrow> filter (\<lambda>x. fst x = t) xs = (case map_of xs t of None \<Rightarrow> [] | Some r \<Rightarrow> [(t, r)])"
proof (induction xs)
  case (Cons x xs)
  have "filter (\<lambda>x. fst x = t) xs = []" if t: "fst x = t"
  proof -
    have "t \<notin> fst ` set xs" using Cons.prems t by simp
    then show ?thesis unfolding filter_empty_conv by (metis imageI)
  qed
  with Cons show ?case by (cases x) auto
qed simp

lemma lease_cancels_token:
  assumes "table_ok w"
  shows "lease_cancels (\<lambda>l. le_token l = t) (leases w) =
    (case map_of (records_of w) t of None \<Rightarrow> [] | Some r \<Rightarrow> if pc_cancel_callback (obj_at w r) then [t] else [])"
proof -
  have "filter (\<lambda>x. fst x = t \<and> pc_cancel_callback (obj_at w (snd x))) (records_of w)
      = filter (\<lambda>x. pc_cancel_callback (obj_at w (snd x))) (filter (\<lambda>x. fst x = t) (records_of w))"
    by (simp add: conj_commute)
  also have "filter (\<lambda>x. fst x = t) (records_of w) = (case map_of (records_of w) t of None \<Rightarrow> [] | Some r \<Rightarrow> [(t, r)])"
    using assms by (intro filter_key) (simp add: table_ok_def)
  finally show ?thesis
    by (simp add: lease_cancels_def leases_def filter_map comp_def case_prod_unfold lease_of_def split: option.split)
qed

lemma claim_cancels:
  assumes "table_ok w" "claim t c now w = (res, acts, w')"
  shows "cancelled_by w acts = (if res = Inl Rj_expired then lease_cancels (\<lambda>l. le_token l = t) (leases w) else [])"
proof (cases "map_of (records_of w) t")
  case None
  then show ?thesis using assms(2) by (auto simp: claim_def split: if_splits)
next
  case (Some r)
  then have "pc_continuation_token (obj_at w r) = t" using table_okD [OF assms(1)] by (auto dest: map_of_SomeD)
  then show ?thesis
    using assms(2) Some
    by (auto simp: claim_def Let_def claim_transition_def lease_cancels_token [OF assms(1)] cancelled_by_action
        split: if_splits)
qed

lemma close_cancels:
  assumes "table_ok w" "close_record t s b w = Inr (acts, w')"
  shows "cancelled_by w acts = (if b then lease_cancels (\<lambda>l. le_token l = t) (leases w) else [])"
proof (cases "map_of (records_of w) t")
  case None
  then show ?thesis using assms by (auto simp: close_record_def lease_cancels_token split: if_splits)
next
  case (Some r)
  then have "pc_continuation_token (obj_at w r) = t" using table_okD [OF assms(1)] by (auto dest: map_of_SomeD)
  then show ?thesis
    using assms(2) Some
    by (auto simp: close_record_def lease_cancels_token [OF assms(1)] cancelled_by_action split: if_splits)
qed

lemma expire_answers:
  assumes "table_ok w" "expire_due now w = (tokens, acts, w')"
  shows "tokens = map le_token (filter (\<lambda>l. le_until l \<le> now) (lt_leases (leases w)))"
    and "cancelled_by w acts = lease_cancels (\<lambda>l. le_until l \<le> now) (leases w)"
    and "leases w' = lease_expire now (leases w)"
proof -
  have run: "tokens = map fst (due_now now w)"
    "acts = concat (map (\<lambda>r. cancel_actions r (obj_at w r)) (map snd (due_now now w)))"
    by (rule expire_due_run [OF assms(1), of now]; simp add: assms(2))+
  show "tokens = map le_token (filter (\<lambda>l. le_until l \<le> now) (lt_leases (leases w)))"
    by (simp add: run(1) due_now_def due_items_def leases_def filter_map comp_def case_prod_unfold lease_of_def
        expired_at_def)
  have "cancelled_by w (map Run_cancel rs) = map (\<lambda>r. pc_continuation_token (obj_at w r)) rs" for rs
    by (induction rs) simp_all
  then have "cancelled_by w acts = map (\<lambda>r. pc_continuation_token (obj_at w r))
      (filter (\<lambda>r. pc_cancel_callback (obj_at w r)) (map snd (due_now now w)))"
    unfolding run(2) cancels_of_due by simp
  also have "\<dots> = map fst (filter (\<lambda>x. pc_cancel_callback (obj_at w (snd x))) (due_now now w))"
  proof -
    have "pc_continuation_token (obj_at w (snd x)) = fst x" if "x \<in> set (due_now now w)" for x
      using that table_okD [OF assms(1), of "fst x" "snd x"] by (simp add: due_now_live(3) [OF assms(1)] due_now_def due_items_def)
    then show ?thesis by (simp add: filter_map comp_def)
  qed
  also have "\<dots> = lease_cancels (\<lambda>l. le_until l \<le> now) (leases w)"
    by (simp add: lease_cancels_def due_now_def due_items_def leases_def filter_map comp_def case_prod_unfold
        lease_of_def expired_at_def conj_commute)
  finally show "cancelled_by w acts = lease_cancels (\<lambda>l. le_until l \<le> now) (leases w)" .
  show "leases w' = lease_expire now (leases w)" using leases_expire [OF assms(1), of now] assms(2) by simp
qed

text \<open>Where the table and the documentation of \<open>was_terminal_for\<close> part.\<close>

lemma documented_agrees:
  "\<forall>l \<in> set (lt_leases S). le_until l \<le> now \<longrightarrow> le_busy l \<Longrightarrow> lease_expire_documented now S = lease_expire now S"
  unfolding lease_expire_documented_def lease_expire_def
  by (intro arg_cong2 [where f = remember] arg_cong2 [where f = map] filter_cong refl) auto

lemma find_expired:
  assumes "distinct (map le_token ls)" "l \<in> set ls" "le_until l \<le> now"
  shows "find (\<lambda>m. le_token m = le_token l) (filter (\<lambda>m. \<not> le_until m \<le> now) ls) = None"
proof -
  have "m = l" if "m \<in> set ls" "le_token m = le_token l" for m
    using that assms(1,2) by (auto simp: distinct_map inj_on_def)
  with assms(3) show ?thesis by (auto simp: find_None_iff)
qed

lemma expired_forgotten:
  assumes "distinct (map le_token (lt_leases S))" "l \<in> set (lt_leases S)" "le_until l \<le> now" "\<not> le_busy l"
    and "(le_token l, le_owner l) \<notin> set (lt_resolved S)"
  shows "fst (lease_claim (le_token l) (le_owner l) later (lease_expire now S)) = Some Rj_not_found"
    and "length (lt_leases S) \<le> 256 \<Longrightarrow>
      fst (lease_claim (le_token l) (le_owner l) later (lease_expire_documented now S)) = Some Rj_already_resolved"
proof -
  let ?busy = "map (\<lambda>l. (le_token l, le_owner l)) (filter (\<lambda>l. le_until l \<le> now \<and> le_busy l) (lt_leases S))"
  let ?all = "map (\<lambda>l. (le_token l, le_owner l)) (filter (\<lambda>l. le_until l \<le> now) (lt_leases S))"
  have same: "m = l" if "m \<in> set (lt_leases S)" "le_token m = le_token l" for m
    using that assms(1,2) by (auto simp: distinct_map inj_on_def)
  have "(le_token l, le_owner l) \<notin> set ?busy"
  proof
    assume "(le_token l, le_owner l) \<in> set ?busy"
    then obtain m where "m \<in> set (lt_leases S)" "le_token m = le_token l" "le_busy m" by auto
    with same [of m] assms(4) show False by simp
  qed
  then have "(le_token l, le_owner l) \<notin> set (fold (deque_append MAX_TERMINAL_TOMBSTONES) ?busy (lt_resolved S))"
    using assms(5) set_fold_deque [of MAX_TERMINAL_TOMBSTONES ?busy "lt_resolved S"] by blast
  then show "fst (lease_claim (le_token l) (le_owner l) later (lease_expire now S)) = Some Rj_not_found"
    using find_expired [OF assms(1-3)]
    by (simp add: lease_claim_def lease_expire_def remember_def drop_leases_def)
  assume "length (lt_leases S) \<le> 256"
  then have "length ?all \<le> MAX_TERMINAL_TOMBSTONES"
    using le_trans [OF length_filter_le, of "lt_leases S" 256] by (simp add: MAX_TERMINAL_TOMBSTONES_def)
  moreover have "(le_token l, le_owner l) \<in> set ?all" using assms(2,3) by auto
  ultimately have "(le_token l, le_owner l) \<in> set (fold (deque_append MAX_TERMINAL_TOMBSTONES) ?all (lt_resolved S))"
    by (intro recent_of_fold)
  then show "fst (lease_claim (le_token l) (le_owner l) later (lease_expire_documented now S)) = Some Rj_already_resolved"
    using find_expired [OF assms(1-3)]
    by (simp add: lease_claim_def lease_expire_documented_def remember_def drop_leases_def)
qed

lemma reaper_forgets_leases:
  assumes "reachable w" and "l \<in> set (lt_leases (leases w))" "le_until l \<le> now" "\<not> le_busy l"
    and "(le_token l, le_owner l) \<notin> set (lt_resolved (leases w))"
  shows "fst (claim (le_token l) (le_owner l) later (exec (Ev_expire now) w)) = Inl Rj_not_found"
    and "lt_capacity (leases w) \<le> 256 \<Longrightarrow>
      fst (lease_claim (le_token l) (le_owner l) later (lease_expire_documented now (leases w))) = Some Rj_already_resolved"
proof -
  have inv: "registry_inv w" using assms(1) by (rule reachable_inv)
  then have tab: "table_ok w" by (simp add: registry_inv_def)
  have "map le_token (lt_leases (leases w)) = map fst (records_of w)"
    by (simp add: leases_def comp_def case_prod_unfold lease_of_def)
  then have tokens: "distinct (map le_token (lt_leases (leases w)))" using tab by (simp add: table_ok_def)
  let ?w = "exec (Ev_expire now) w"
  have "registry_inv ?w" using reachable.event [OF assms(1)] by (rule reachable_inv)
  then have tab': "table_ok ?w" by (simp add: registry_inv_def)
  obtain res acts w' where run: "claim (le_token l) (le_owner l) later ?w = (res, acts, w')"
    by (cases "claim (le_token l) (le_owner l) later ?w") auto
  have "leases ?w = lease_expire now (leases w)"
    by (simp add: leases_expire [OF tab, symmetric] case_prod_unfold Let_def)
  then have "fst (lease_claim (le_token l) (le_owner l) later (leases ?w)) = Some Rj_not_found"
    using expired_forgotten(1) [OF tokens assms(2-5)] by simp
  then have "res = Inl Rj_not_found"
    using leases_claim [OF tab' run] by (cases res) auto
  then show "fst (claim (le_token l) (le_owner l) later ?w) = Inl Rj_not_found" unfolding run by simp
  assume "lt_capacity (leases w) \<le> 256"
  then have "length (lt_leases (leases w)) \<le> 256"
    using inv by (simp add: leases_def registry_inv_def bounds_ok_def)
  then show "fst (lease_claim (le_token l) (le_owner l) later (lease_expire_documented now (leases w)))
      = Some Rj_already_resolved"
    by (rule expired_forgotten(2) [OF tokens assms(2-5)])
qed

text \<open>
  C25: the registry implements the lease table. Under every interleaving each critical section
  has exactly the effect, the answer and the cancellations of the abstract operation. Registering
  raises exactly for a record with an invalid client, model echo or state, and otherwise answers
  whether there was room and the token was free, appending the lease if so. Claiming answers as the
  table does and cancels exactly the turn it expires. Closing raises exactly for a state that is not
  terminal, and cancels the turn only on request. The reaper returns exactly the due tokens, in
  order of registration, cancels those of them that can be cancelled, and leaves the table without
  them. Releasing makes a pending lease free again, and the actions that threads perform after
  leaving the lock are invisible. The effect of the reaper differs from the documentation of
  \<open>was_terminal_for\<close> (a replay after expiry is a conflict) exactly for turns that expire while they
  wait: if none does, the documented table results; one that does, and was not resolved before, is
  answered as not found, where the documented table answers already resolved.
\<close>

theorem registry_refines_leases:
  assumes "reachable w"
  shows "(\<forall>r. (case register_record r w of Inl _ \<Rightarrow> None | Inr (b, w') \<Rightarrow> Some (b, leases w'))
        = lease_register (obj_at w r) (leases w))
    \<and> leases (exec (Ev_suspend p) w) = (case lease_register p (leases w) of None \<Rightarrow> leases w | Some (_, S) \<Rightarrow> S)
    \<and> (\<forall>res acts w'. claim t c now w = (res, acts, w') \<longrightarrow>
        lease_claim t c now (leases w) = (case res of Inl x \<Rightarrow> Some x | Inr _ \<Rightarrow> None, leases w')
        \<and> cancelled_by w acts = (if res = Inl Rj_expired then lease_cancels (\<lambda>l. le_token l = t) (leases w) else []))
    \<and> (\<forall>s b. is_ok (close_record t s b w) = (s \<in> {Cn_completed, Cn_cancelled, Cn_expired, Cn_lost}))
    \<and> (\<forall>s b acts w'. close_record t s b w = Inr (acts, w') \<longrightarrow> leases w' = lease_close t (leases w)
        \<and> cancelled_by w acts = (if b then lease_cancels (\<lambda>l. le_token l = t) (leases w) else []))
    \<and> (\<forall>tokens acts w'. expire_due now w = (tokens, acts, w') \<longrightarrow>
        tokens = map le_token (filter (\<lambda>l. le_until l \<le> now) (lt_leases (leases w)))
        \<and> cancelled_by w acts = lease_cancels (\<lambda>l. le_until l \<le> now) (leases w)
        \<and> leases w' = lease_expire now (leases w))
    \<and> leases (exec (Ev_expire now) w) = lease_expire now (leases w)
    \<and> leases (exec (Ev_run i) w) = leases w
    \<and> (\<forall>r. detect t w = Some r \<longrightarrow> leases (exec (Ev_release r) w) = (leases w)\<lparr>lt_leases :=
          map (\<lambda>l. if le_token l = t then l\<lparr>le_busy := False\<rparr> else l) (lt_leases (leases w))\<rparr>)
    \<and> ((\<forall>l \<in> set (lt_leases (leases w)). le_until l \<le> now \<longrightarrow> le_busy l)
        \<longrightarrow> leases (exec (Ev_expire now) w) = lease_expire_documented now (leases w))
    \<and> (\<forall>l \<in> set (lt_leases (leases w)). le_until l \<le> now \<and> \<not> le_busy l
          \<and> (le_token l, le_owner l) \<notin> set (lt_resolved (leases w)) \<longrightarrow>
        fst (claim (le_token l) (le_owner l) later (exec (Ev_expire now) w)) = Inl Rj_not_found
        \<and> (lt_capacity (leases w) \<le> 256 \<longrightarrow>
            fst (lease_claim (le_token l) (le_owner l) later (lease_expire_documented now (leases w)))
              = Some Rj_already_resolved))"
proof -
  have inv: "registry_inv w" using assms by (rule reachable_inv)
  then have tab: "table_ok w" by (simp add: registry_inv_def)
  have ex: "leases (exec (Ev_expire now) w) = lease_expire now (leases w)"
    by (simp add: leases_expire [OF tab, symmetric] case_prod_unfold Let_def)
  have run: "leases (exec (Ev_run i) w) = leases w" using leases_run [OF inv] by simp
  have close: "is_ok (close_record t s b w) = (s \<in> {Cn_completed, Cn_cancelled, Cn_expired, Cn_lost})" for s b
    by (auto simp: close_record_def is_ok_def split: option.split)
  show ?thesis
    by (intro conjI allI ballI impI; (elim conjE)?)
      (rule register_lease suspend_lease [OF inv] leases_claim [OF tab] claim_cancels [OF tab] close
        leases_close [OF tab] close_cancels [OF tab] expire_answers [OF tab] ex run
        leases_release [OF tab] trans [OF ex documented_agrees [symmetric]] reaper_forgets_leases [OF assms]; assumption)+
qed

theorem registry_refines_leases_witness:
  "leases (exec (Ev_expire 20) sample_world) = lease_expire 20 (leases sample_world)
   \<and> fst (expire_due 20 sample_world) = [''srct-1'', ''srct-2'']
   \<and> fst (claim ''srct-1'' ''alice'' 20 (exec (Ev_expire 20) sample_world)) = Inl Rj_not_found"
proof -
  note refines = registry_refines_leases [OF sample_world_reachable, where now = 20 and later = 20]
  have due: "map le_token (filter (\<lambda>l. le_until l \<le> 20) (lt_leases (leases sample_world))) = [''srct-1'', ''srct-2'']" by code_simp
  have "fst (expire_due 20 sample_world) = [''srct-1'', ''srct-2'']"
    using refines due by (cases "expire_due 20 sample_world") (simp del: exec.simps)
  moreover have "\<exists>l \<in> set (lt_leases (leases sample_world)). le_token l = ''srct-1'' \<and> le_owner l = ''alice''
      \<and> le_until l \<le> 20 \<and> \<not> le_busy l \<and> (le_token l, le_owner l) \<notin> set (lt_resolved (leases sample_world))"
    by code_simp
  then obtain l where l: "l \<in> set (lt_leases (leases sample_world))" "le_token l = ''srct-1''" "le_owner l = ''alice''"
      "le_until l \<le> 20 \<and> \<not> le_busy l \<and> (le_token l, le_owner l) \<notin> set (lt_resolved (leases sample_world))"
    by blast
  have "fst (claim (le_token l) (le_owner l) 20 (exec (Ev_expire 20) sample_world)) = Inl Rj_not_found"
    by (rule refines [THEN conjunct2, THEN conjunct2, THEN conjunct2, THEN conjunct2, THEN conjunct2,
        THEN conjunct2, THEN conjunct2, THEN conjunct2, THEN conjunct2, THEN conjunct2, THEN bspec, OF l(1),
        THEN mp, OF l(4), THEN conjunct1])
  then have "fst (claim ''srct-1'' ''alice'' 20 (exec (Ev_expire 20) sample_world)) = Inl Rj_not_found"
    unfolding l(2,3) .
  ultimately show ?thesis using refines by blast
qed

end
