(* ===== verification/Timestamps.thy ===== *)
theory Timestamps
  imports Py_Time
begin

text \<open>
  Instants of canonical timestamps, as resource_state.py computes with them: a canonical string
  denotes a number of milliseconds, and the code freely mixes comparisons of instants with
  comparisons of strings (\<open>min\<close> over reset instants, sorting keys, the evidence interval). The
  theory proves that the two orders agree on canonical timestamps.
\<close>

definition ts_to_datetime :: "string \<Rightarrow> int" where
  \<comment> \<open>\<open>datetime.fromisoformat(value[:-1] + "+00:00")\<close> in milliseconds; the day is the ordinal\<close>
  "ts_to_datetime s =
     ymd_ordinal (digits_value (slice 0 4 s)) (digits_value (slice 5 2 s)) (digits_value (slice 8 2 s)) * 86400000
     + digits_value (slice 11 2 s) * 3600000 + digits_value (slice 14 2 s) * 60000
     + digits_value (slice 17 2 s) * 1000 + digits_value (slice 20 3 s)"

definition age_ms :: "string \<Rightarrow> string \<Rightarrow> int" where
  \<comment> \<open>\<open>(later - earlier).total_seconds()\<close> in milliseconds. The float of the code is within 0.0001 s of
    the exact value for years 1 to 9999, and whole seconds are exact, so comparing it with an
    integer number of seconds agrees with comparing milliseconds.\<close>
  "age_ms later earlier = ts_to_datetime later - ts_to_datetime earlier"

section \<open>Digits\<close>

abbreviation digits :: "string \<Rightarrow> bool" where
  "digits s \<equiv> list_all is_digit s"

lemma is_digit_value: "is_digit c \<longleftrightarrow> 48 \<le> (of_char c :: int) \<and> (of_char c :: int) \<le> 57"
proof -
  have "is_digit c \<longleftrightarrow> 48 \<le> (of_char c :: nat) \<and> (of_char c :: nat) \<le> 57"
    by (simp add: is_digit_def in_range_def less_eq_char_def)
  then show ?thesis by (simp flip: of_nat_of_char [where ?'a = int])
qed

lemma digits_value_snoc: "digits_value (s @ [c]) = 10 * digits_value s + (of_char c - 48)"
  by (simp add: digits_value_def)

lemma digits_value_bounds:
  "digits s \<Longrightarrow> 0 \<le> digits_value s \<and> digits_value s < 10 ^ length s"
proof (induction s rule: rev_induct)
  case (snoc c s)
  then have "0 \<le> digits_value s" "digits_value s < 10 ^ length s"
    "48 \<le> (of_char c :: int)" "(of_char c :: int) \<le> 57"
    by (simp_all add: is_digit_value)
  then show ?case by (simp add: digits_value_snoc)
qed (simp add: digits_value_def)

lemma digits_value_Cons: 
  "digits_value (c # s) = (of_char c - 48) * 10 ^ length s + digits_value s"
proof (induction s rule: rev_induct)
  case (snoc d s)
  then show ?case
    using digits_value_snoc [of "c # s" d] by (simp add: digits_value_snoc algebra_simps)
qed (simp add: digits_value_def)

lemma char_less_int: "c < d \<longleftrightarrow> (of_char c :: int) < of_char d"
  by (simp add: less_char_def del: less_char_simp flip: of_nat_of_char [where ?'a = int])

lemma digits_less_iff:
  assumes "digits s" "digits t" "length s = length t"
  shows "s < t \<longleftrightarrow> digits_value s < digits_value t"
  using assms
proof (induction s arbitrary: t)
  case Nil
  then show ?case by simp
next
  case (Cons c s)
  then obtain d t' where t: "t = d # t'" by (cases t) auto
  let ?P = "(10 :: int) ^ length s"
  have ih: "s < t' \<longleftrightarrow> digits_value s < digits_value t'" using Cons t by simp
  have b: "0 \<le> digits_value s" "digits_value s < ?P" "0 \<le> digits_value t'" "digits_value t' < ?P"
    using Cons.prems t digits_value_bounds [of s] digits_value_bounds [of t'] by auto
  have len: "length t' = length s" using Cons.prems t by simp
  consider "c < d" | "c = d" | "d < c" by fastforce
  then show ?case
  proof cases
    case 1
    then have "(of_char c :: int) + 1 \<le> of_char d" by (simp add: char_less_int)
    then have "((of_char c :: int) - 48 + 1) * ?P \<le> (of_char d - 48) * ?P"
      by (intro mult_right_mono) simp_all
    then have "digits_value (c # s) < digits_value (d # t')"
      using b len by (simp add: digits_value_Cons algebra_simps)
    then show ?thesis using 1 t by simp
  next
    case 2
    then show ?thesis using t ih len by (simp add: digits_value_Cons)
  next
    case 3
    then have "(of_char d :: int) + 1 \<le> of_char c" by (simp add: char_less_int)
    then have "((of_char d :: int) - 48 + 1) * ?P \<le> (of_char c - 48) * ?P"
      by (intro mult_right_mono) simp_all
    then have "digits_value (d # t') < digits_value (c # s)"
      using b len by (simp add: digits_value_Cons algebra_simps)
    then show ?thesis using 3 t by (auto dest: less_asym)
  qed
qed

section \<open>Days\<close>

lemma month_cases:
  assumes "1 \<le> (m :: int)" "m \<le> 12"
  shows "m \<in> {1,2,3,4,5,6,7,8,9,10,11,12}"
proof -
  have "m \<in> {1..12}" using assms by simp
  then show ?thesis by (simp only: set_upto [symmetric]) (simp add: upto.simps)
qed

lemma days_before_month_Suc:
  assumes "1 \<le> m" "m < 12"
  shows "days_before_month y (m + 1) = days_before_month y m + days_in_month y m"
  using month_cases [of m] assms by (auto simp: days_before_month_def days_in_month_def)

lemma days_before_month_step:
  assumes "m < n" "1 \<le> m" "n \<le> 12"
  shows "days_before_month y m + days_in_month y m \<le> days_before_month y n"
  using assms
proof (induction rule: int_gr_induct)
  case base
  then show ?case by (simp add: days_before_month_Suc)
next
  case (step n)
  moreover have "0 \<le> days_in_month y n" by (simp add: days_in_month_def)
  ultimately show ?case by (simp add: days_before_month_Suc)
qed

lemma days_in_year_bounds:
  assumes "1 \<le> m" "m \<le> 12"
  shows "0 \<le> days_before_month y m"
    and "days_before_month y m + days_in_month y m \<le> 365 + (if is_leap y then 1 else 0)"
proof -
  note month_cases [OF assms]
  then show "0 \<le> days_before_month y m"
    "days_before_month y m + days_in_month y m \<le> 365 + (if is_leap y then 1 else 0)"
    by (auto simp: days_before_month_def days_in_month_def)
qed

lemma div_pred:
  assumes "0 < k"
  shows "(n :: int) div k = (n - 1) div k + (if n mod k = 0 then 1 else 0)"
proof (cases "n mod k = 0")
  case True
  then have "n - 1 = k * (n div k - 1) + (k - 1)"
    using div_mult_mod_eq [of n k] by (simp add: algebra_simps)
  then have "(n - 1) div k = n div k - 1"
    by (rule int_div_pos_eq) (use assms in simp_all)
  then show ?thesis using True by simp
next
  case False
  have "0 \<le> n mod k" "n mod k < k" using assms by simp_all
  moreover have "n - 1 = k * (n div k) + (n mod k - 1)"
    using div_mult_mod_eq [of n k] by (simp add: algebra_simps)
  then have "(n - 1) div k = n div k"
    by (rule int_div_pos_eq) (use False calculation in linarith)+
  then show ?thesis using False by simp
qed

lemma leap_count:
  fixes A B C a b c y :: int
  assumes "A = a + (if p then 1 else 0)" "B = b + (if q then 1 else 0)" "C = c + (if r then 1 else 0)"
    and "r \<Longrightarrow> q" "q \<Longrightarrow> p"
  shows "y * 365 + A - B + C =
    (y - 1) * 365 + a - b + c + 365 + (if p \<and> (q \<longrightarrow> r) then 1 else 0)"
  using assms by (auto split: if_splits)

lemma days_before_year_Suc:
  "days_before_year (y + 1) = days_before_year y + 365 + (if is_leap y then 1 else 0)"
proof -
  have "(y :: int) mod 400 = 0 \<Longrightarrow> y mod 100 = 0" "y mod 100 = 0 \<Longrightarrow> y mod 4 = 0"
    using dvd_trans [of "100 :: int" 400 y] dvd_trans [of "4 :: int" 100 y]
    by (simp_all add: mod_eq_0_iff_dvd)
  note leap_count [OF div_pred [of 4 y] div_pred [of 100 y] div_pred [of 400 y] this(1) this(2), of y]
  moreover have "is_leap y = (y mod 4 = 0 \<and> (y mod 100 = 0 \<longrightarrow> y mod 400 = 0))"
    by (simp only: is_leap_def imp_conv_disj)
  ultimately show ?thesis by (simp only: days_before_year_def Let_def add_diff_cancel_right' zero_less_numeral)
qed

lemma days_before_year_mono: "x \<le> y \<Longrightarrow> days_before_year x \<le> days_before_year y"
proof (induction rule: int_ge_induct)
  case (step y)
  then show ?case using days_before_year_Suc [of y] by (auto split: if_splits)
qed simp

lemma ymd_ordinal_less:
  assumes "valid_ymd y m d" "valid_ymd y' m' d'" "(y, m, d) < (y', m', d')"
  shows "ymd_ordinal y m d < ymd_ordinal y' m' d'"
proof -
  have v: "1 \<le> m" "m \<le> 12" "1 \<le> d" "d \<le> days_in_month y m"
    "1 \<le> m'" "m' \<le> 12" "1 \<le> d'" "d' \<le> days_in_month y' m'"
    using assms by (simp_all add: valid_ymd_def)
  consider "y < y'" | "y = y'" "m < m'" | "y = y'" "m = m'" "d < d'"
    using assms(3) by (simp add: less_prod_simp) linarith
  then show ?thesis
  proof cases
    case 1
    then have "days_before_year (y + 1) \<le> days_before_year y'" by (simp add: days_before_year_mono)
    then show ?thesis
      using days_in_year_bounds [of m y] days_in_year_bounds(1) [of m' y'] v
        days_before_year_Suc [of y] by (simp add: ymd_ordinal_def)
  next
    case 2
    then show ?thesis
      using days_before_month_step [of m m' y] v by (simp add: ymd_ordinal_def)
  next
    case 3
    then show ?thesis by (simp add: ymd_ordinal_def)
  qed
qed

section \<open>Timestamp order\<close>

lemma fits_append:
  "fits (a @ b) s \<Longrightarrow> fits a (take (length a) s) \<and> fits b (drop (length a) s)"
  by (auto simp: fits_def list_all2_append1 split del: if_split)

lemma fits_digits: "fits (replicate n (CHR ''d'')) s \<Longrightarrow> digits s \<and> length s = n"
  by (induction n arbitrary: s) (auto simp: fits_def list_all2_Cons1)

lemma take_drop_less:
  fixes s t :: string
  assumes "length s = length t"
  shows "s < t \<longleftrightarrow> take n s < take n t \<or> take n s = take n t \<and> drop n s < drop n t"
  using assms
proof (induction n arbitrary: s t)
  case (Suc n)
  show ?case
  proof (cases s)
    case Nil
    then show ?thesis using Suc.prems by simp
  next
    case (Cons c s')
    then obtain d t' where t: "t = d # t'" using Suc.prems by (cases t) auto
    then have "s' < t' \<longleftrightarrow> take n s' < take n t' \<or> take n s' = take n t' \<and> drop n s' < drop n t'"
      using Suc.prems Cons by (intro Suc.IH) simp
    then show ?thesis using Cons t by auto
  qed
qed simp

lemma field_less:
  assumes "fits (replicate n (CHR ''d'') @ c # r) s" "fits (replicate n (CHR ''d'') @ c # r) t"
    and "c \<noteq> CHR ''d''"
  shows "s < t \<longleftrightarrow> digits_value (take n s) < digits_value (take n t)
    \<or> digits_value (take n s) = digits_value (take n t) \<and> drop (Suc n) s < drop (Suc n) t"
    and "fits r (drop (Suc n) s)" "fits r (drop (Suc n) t)"
    and "digits (take n s)" "digits (take n t)" "length (take n s) = n" "length (take n t) = n"
proof -
  have len: "length s = length t" using assms(1,2) by (auto dest!: fits_length)
  note fs = fits_append [OF assms(1), simplified] and ft = fits_append [OF assms(2), simplified]
  show d: "digits (take n s)" "digits (take n t)" and l: "length (take n s) = n" "length (take n t) = n"
    using fs ft by (blast dest: fits_digits)+
  obtain s' t' where st: "drop n s = c # s'" "drop n t = c # t'" "fits r s'" "fits r t'"
    using fs ft assms(3) by (auto simp: fits_def list_all2_Cons1)
  have tl: "drop (Suc n) s = s'" "drop (Suc n) t = t'"
    using st(1,2) by (simp_all add: drop_Suc drop_tl tl_drop [symmetric])
  show "fits r (drop (Suc n) s)" "fits r (drop (Suc n) t)" using st tl by simp_all
  have "take n s = take n t \<longleftrightarrow> digits_value (take n s) = digits_value (take n t)"
    using digits_less_iff [OF d] digits_less_iff [OF d(2,1)] l by fastforce
  then show "s < t \<longleftrightarrow> digits_value (take n s) < digits_value (take n t)
    \<or> digits_value (take n s) = digits_value (take n t) \<and> drop (Suc n) s < drop (Suc n) t"
    using take_drop_less [OF len, of n] digits_less_iff [OF d] l st(1,2) tl by simp
qed

lemma slice_butlast:
  "length s = 24 \<Longrightarrow> i + n \<le> 23 \<Longrightarrow> slice i n (butlast s @ z) = slice i n s"
  by (auto simp: slice_def butlast_conv_take drop_take)

definition ts_fields :: "string \<Rightarrow> (int \<times> int \<times> int) \<times> int \<times> int \<times> int \<times> int" where
  "ts_fields s =
     ((digits_value (slice 0 4 s), digits_value (slice 5 2 s), digits_value (slice 8 2 s)),
      digits_value (slice 11 2 s), digits_value (slice 14 2 s), digits_value (slice 17 2 s),
      digits_value (slice 20 3 s))"

lemma ts_fields_bounds:
  assumes "ts_ok s" "ts_fields s = ((y, m, d), hh, mm, ss, ms)"
  shows "valid_ymd y m d" "hh \<le> 23" "mm \<le> 59" "ss \<le> 59"
proof -
  have len: "length s = 24" using ts_ok_fits [OF assms(1)] by (auto dest: fits_length)
  have "iso_utc (butlast s @ ''+00:00'')" using assms(1) by (simp add: ts_ok_def)
  then show "valid_ymd y m d" "hh \<le> 23" "mm \<le> 59" "ss \<le> 59"
    using assms(2) len by (simp_all add: iso_utc_def ts_fields_def slice_butlast)
qed

lemma fits_ts_template:
  "fits ''dddd-dd-ddTdd:dd:dd.dddZ'' s =
     fits (replicate 4 (CHR ''d'') @ CHR ''-'' # replicate 2 (CHR ''d'') @ CHR ''-'' #
       replicate 2 (CHR ''d'') @ CHR ''T'' # replicate 2 (CHR ''d'') @ CHR '':'' #
       replicate 2 (CHR ''d'') @ CHR '':'' # replicate 2 (CHR ''d'') @ CHR ''.'' #
       replicate 3 (CHR ''d'') @ CHR ''Z'' # []) s"
  by (simp add: numeral_eq_Suc)

lemma ts_fields_nonneg:
  assumes "ts_ok s" "ts_fields s = ((y, m, d), hh, mm, ss, ms)"
  shows "0 \<le> hh" "0 \<le> mm" "0 \<le> ss" "0 \<le> ms" "ms \<le> 999"
proof -
  note f0 = ts_ok_fits [OF assms(1), unfolded fits_ts_template]
  note f1 = field_less(2) [OF f0 f0, simplified]
  note f2 = field_less(2) [OF f1 f1, simplified]
  note f3 = field_less(2) [OF f2 f2, simplified]
  note f4 = field_less(2) [OF f3 f3, simplified]
  note f5 = field_less(2) [OF f4 f4, simplified]
  note f6 = field_less(2) [OF f5 f5, simplified]
  have d: "digits (slice 11 2 s)" "digits (slice 14 2 s)" "digits (slice 17 2 s)" "digits (slice 20 3 s)"
    "length (slice 20 3 s) = 3"
    using field_less(4,6) [OF f3 f3, simplified] field_less(4,6) [OF f4 f4, simplified]
      field_less(4,6) [OF f5 f5, simplified] field_less(4,6) [OF f6 f6, simplified]
    by (simp_all add: slice_def)
  show "0 \<le> hh" "0 \<le> mm" "0 \<le> ss" "0 \<le> ms" "ms \<le> 999"
    using digits_value_bounds [OF d(1)] digits_value_bounds [OF d(2)] digits_value_bounds [OF d(3)]
      digits_value_bounds [OF d(4)] d(5) assms(2) by (simp_all add: ts_fields_def)
qed

lemma ts_less_fields:
  assumes "ts_ok s" "ts_ok t"
  shows "s < t \<longleftrightarrow> ts_fields s < ts_fields t"
proof -
  note f0 = ts_ok_fits [OF assms(1), unfolded fits_ts_template]
    ts_ok_fits [OF assms(2), unfolded fits_ts_template]
  note l0 = field_less(1) [OF f0, simplified] and f1 = field_less(2,3) [OF f0, simplified]
  note l1 = field_less(1) [OF f1, simplified] and f2 = field_less(2,3) [OF f1, simplified]
  note l2 = field_less(1) [OF f2, simplified] and f3 = field_less(2,3) [OF f2, simplified]
  note l3 = field_less(1) [OF f3, simplified] and f4 = field_less(2,3) [OF f3, simplified]
  note l4 = field_less(1) [OF f4, simplified] and f5 = field_less(2,3) [OF f4, simplified]
  note l5 = field_less(1) [OF f5, simplified] and f6 = field_less(2,3) [OF f5, simplified]
  note l6 = field_less(1) [OF f6, simplified] and f7 = field_less(2,3) [OF f6, simplified]
  have "\<not> drop 24 s < drop 24 t" using f7 by (simp add: fits_def)
  then have l6': "drop 20 s < drop 20 t \<longleftrightarrow> digits_value (take 3 (drop 20 s)) < digits_value (take 3 (drop 20 t))"
    using l6 by simp
  show ?thesis
    unfolding l0 l1 l2 l3 l4 l5 l6'
    by (auto simp: ts_fields_def slice_def less_prod_def')
qed

lemma ts_to_datetime_fields:
  "ts_fields s = ((y, m, d), hh, mm, ss, ms) \<Longrightarrow>
   ts_to_datetime s = ymd_ordinal y m d * 86400000 + hh * 3600000 + mm * 60000 + ss * 1000 + ms"
  by (simp add: ts_fields_def ts_to_datetime_def)

lemma prod_lex:
  fixes a c :: "'a :: linorder" and b d :: "'b :: linorder"
  shows "(a, b) < (c, d) \<longleftrightarrow> a < c \<or> a = c \<and> b < d"
  by (auto simp: less_prod_def')

lemma ts_less_imp:
  assumes "ts_ok s" "ts_ok t" "s < t"
  shows "ts_to_datetime s < ts_to_datetime t"
proof -
  obtain y m d hh mm ss ms where s: "ts_fields s = ((y, m, d), hh, mm, ss, ms)"
    by (metis prod_cases5 surj_pair)
  obtain y' m' d' hh' mm' ss' ms' where t: "ts_fields t = ((y', m', d'), hh', mm', ss', ms')"
    by (metis prod_cases5 surj_pair)
  note bs = ts_fields_bounds [OF assms(1) s] ts_fields_nonneg [OF assms(1) s]
  note bt = ts_fields_bounds [OF assms(2) t] ts_fields_nonneg [OF assms(2) t]
  note tt = ts_to_datetime_fields [OF s] ts_to_datetime_fields [OF t]
  have "ts_fields s < ts_fields t" using assms ts_less_fields by blast
  then consider "(y, m, d) < (y', m', d')"
    | "(y, m, d) = (y', m', d')" "(hh, mm, ss, ms) < (hh', mm', ss', ms')"
    unfolding s t prod_lex [of "(y, m, d)"] by blast
  then show ?thesis
  proof cases
    case 1
    have "ymd_ordinal y m d + 1 \<le> ymd_ordinal y' m' d'"
      using ymd_ordinal_less [OF bs(1) bt(1) 1] by simp
    then have "ymd_ordinal y m d * 86400000 + 86400000 \<le> ymd_ordinal y' m' d' * 86400000" by linarith
    moreover have "hh * 3600000 + mm * 60000 + ss * 1000 + ms < 86400000" using bs by linarith
    moreover have "0 \<le> hh' * 3600000 + mm' * 60000 + ss' * 1000 + ms'" using bt by linarith
    ultimately show ?thesis using tt by linarith
  next
    case 2
    then show ?thesis using bs bt tt by auto
  qed
qed

lemma ts_less_iff:
  "ts_ok s \<Longrightarrow> ts_ok t \<Longrightarrow> s < t \<longleftrightarrow> ts_to_datetime s < ts_to_datetime t"
  using ts_less_imp [of s t] ts_less_imp [of t s] by (metis less_asym' neqE order_less_irrefl)

lemma ts_le_iff:
  "ts_ok s \<Longrightarrow> ts_ok t \<Longrightarrow> s \<le> t \<longleftrightarrow> ts_to_datetime s \<le> ts_to_datetime t"
  using ts_less_iff [of t s] by (simp add: not_less [symmetric])

lemma age_nonneg_iff:
  "ts_ok s \<Longrightarrow> ts_ok t \<Longrightarrow> 0 \<le> age_ms t s \<longleftrightarrow> s \<le> t"
  by (simp add: ts_le_iff age_ms_def)

lemma canonical_timestamp_order_parts:
  assumes "ts_ok s" "ts_ok t"
  shows "s < t \<longleftrightarrow> ts_to_datetime s < ts_to_datetime t"
    and "s = t \<longleftrightarrow> ts_to_datetime s = ts_to_datetime t"
    and "0 \<le> age_ms t s \<longleftrightarrow> s \<le> t"
  using ts_less_iff [OF assms] ts_less_iff [OF assms(2,1)] age_nonneg_iff [OF assms]
  by auto

text \<open>
  On canonical timestamps the order of strings is the order of the instants they denote, for every
  year 1 to 9999, month length and leap year: the code may take \<open>min\<close> of reset strings, sort by
  timestamps and compare interval bounds as text, and agrees with its own arithmetic on instants.
  Two canonical timestamps denote the same instant only when they are the same string.
\<close>

theorem canonical_timestamp_order:
  assumes "ts_ok s" "ts_ok t"
  shows "(s < t \<longleftrightarrow> ts_to_datetime s < ts_to_datetime t)
    \<and> (s = t \<longleftrightarrow> ts_to_datetime s = ts_to_datetime t) \<and> (0 \<le> age_ms t s \<longleftrightarrow> s \<le> t)"
  using canonical_timestamp_order_parts [OF assms] by blast


theorem canonical_timestamp_order_witness:
  "ts_to_datetime ''2024-02-29T23:59:59.999Z'' < ts_to_datetime ''2024-03-01T00:00:00.000Z''"
proof -
  have "ts_ok ''2024-02-29T23:59:59.999Z''" "ts_ok ''2024-03-01T00:00:00.000Z''" by code_simp+
  from canonical_timestamp_order [OF this] show ?thesis by simp
qed

end
