(* ===== verification/Resource_Types.thy ===== *)
theory Resource_Types
  imports Capacity Timestamps
begin

text \<open>
  resource_state.py, the documents: quota facts, costs, promotions, resource identities, execution
  capabilities, health, the versioned observation, the shared normalisation from a capacity
  snapshot, and the worker report. Unlike capacity.py these classes reject unsorted collections
  instead of sorting them, so construction never changes a value.
\<close>

context vocabulary
begin

lemma v_opt_enum [valid_simps]:
  "v_opt (v_enum exn str members) (opt_py (\<lambda>x. PStr (str x)) e) fld = Inr y \<longleftrightarrow> y = e"
  by (cases e) (auto simp: bind_r_Inr_iff v_enum_Inr)

end

section \<open>Frozen value sets\<close>

datatype execution_channel = Ch_server_direct_http | Ch_worker_bridged | Ch_local_app_adapter

fun channel_str :: "execution_channel \<Rightarrow> string" where
  "channel_str Ch_server_direct_http = ''server_direct_http''"
| "channel_str Ch_worker_bridged = ''worker_bridged''"
| "channel_str Ch_local_app_adapter = ''local_app_adapter''"

definition EXECUTION_CHANNELS :: "execution_channel list" where
  "EXECUTION_CHANNELS = [Ch_server_direct_http, Ch_worker_bridged, Ch_local_app_adapter]"

definition WORKER_REPORTABLE_CHANNELS :: "execution_channel list" where
  "WORKER_REPORTABLE_CHANNELS = [Ch_worker_bridged, Ch_local_app_adapter]"

datatype entitlement_class =
    En_subscription_included | En_promotional | En_payg_metered | En_prepaid_credits
  | En_local_ungated | En_unknown

fun entitlement_str :: "entitlement_class \<Rightarrow> string" where
  "entitlement_str En_subscription_included = ''subscription_included''"
| "entitlement_str En_promotional = ''promotional''"
| "entitlement_str En_payg_metered = ''payg_metered''"
| "entitlement_str En_prepaid_credits = ''prepaid_credits''"
| "entitlement_str En_local_ungated = ''local_ungated''"
| "entitlement_str En_unknown = ''unknown''"

definition ENTITLEMENT_CLASSES :: "entitlement_class list" where
  "ENTITLEMENT_CLASSES = [En_subscription_included, En_promotional, En_payg_metered,
     En_prepaid_credits, En_local_ungated, En_unknown]"

datatype observation_class =
  Ob_direct_observation | Ob_provider_telemetry | Ob_estimate | Ob_local_limit | Ob_unknown

fun observation_str :: "observation_class \<Rightarrow> string" where
  "observation_str Ob_direct_observation = ''direct_observation''"
| "observation_str Ob_provider_telemetry = ''provider_telemetry''"
| "observation_str Ob_estimate = ''estimate''"
| "observation_str Ob_local_limit = ''local_limit''"
| "observation_str Ob_unknown = ''unknown''"

definition OBSERVATION_CLASSES :: "observation_class list" where
  "OBSERVATION_CLASSES =
     [Ob_direct_observation, Ob_provider_telemetry, Ob_estimate, Ob_local_limit, Ob_unknown]"

definition RESOURCE_HEALTH_STATUSES :: "capacity_status list" where
  "RESOURCE_HEALTH_STATUSES =
     [St_ok, St_unavailable, St_auth_required, St_unsupported, St_schema_changed, St_unknown]"

fun health_required_diagnostic :: "capacity_status \<Rightarrow> diagnostic_code option" where
  "health_required_diagnostic St_unavailable = Some Dc_source_unavailable"
| "health_required_diagnostic St_auth_required = Some Dc_auth_required"
| "health_required_diagnostic St_unsupported = Some Dc_unsupported_source"
| "health_required_diagnostic St_schema_changed = Some Dc_schema_changed"
| "health_required_diagnostic St_unknown = Some Dc_telemetry_unknown"
| "health_required_diagnostic St_ok = None"

datatype freshness_state = Fr_fresh | Fr_stale | Fr_never_observed

fun freshness_str :: "freshness_state \<Rightarrow> string" where
  "freshness_str Fr_fresh = ''fresh''"
| "freshness_str Fr_stale = ''stale''"
| "freshness_str Fr_never_observed = ''never_observed''"

definition FRESHNESS_STATES :: "freshness_state list" where
  "FRESHNESS_STATES = [Fr_fresh, Fr_stale, Fr_never_observed]"

interpretation channel_vocab: vocabulary channel_str EXECUTION_CHANNELS
  by (rule vocabularyI, simp add: EXECUTION_CHANNELS_def, case_tac x, simp_all add: EXECUTION_CHANNELS_def)

interpretation entitlement_vocab: vocabulary entitlement_str ENTITLEMENT_CLASSES
  by (rule vocabularyI, simp add: ENTITLEMENT_CLASSES_def, case_tac x, simp_all add: ENTITLEMENT_CLASSES_def)

interpretation observation_vocab: vocabulary observation_str OBSERVATION_CLASSES
  by (rule vocabularyI, simp add: OBSERVATION_CLASSES_def, case_tac x, simp_all add: OBSERVATION_CLASSES_def)

interpretation health_vocab: vocabulary status_str RESOURCE_HEALTH_STATUSES
  by (rule vocabularyI, simp add: RESOURCE_HEALTH_STATUSES_def, case_tac x,
      simp_all add: RESOURCE_HEALTH_STATUSES_def)

interpretation freshness_vocab: vocabulary freshness_str FRESHNESS_STATES
  by (rule vocabularyI, simp add: FRESHNESS_STATES_def, case_tac x, simp_all add: FRESHNESS_STATES_def)

section \<open>Shared validators\<close>

definition v_sorted_unique :: "string list \<Rightarrow> string \<Rightarrow> unit result" where
  "v_sorted_unique values label =
     (if values \<noteq> sort values then Inl (cap_exn label)
      else if card (set values) \<noteq> length values then Inl (cap_exn label)
      else Inr ())"

lemma v_sorted_unique_Inr [valid_simps]:
  "v_sorted_unique xs l = Inr u \<longleftrightarrow> sorted xs \<and> distinct xs"
proof -
  have "xs = sort xs \<longleftrightarrow> sorted xs"
    by (metis sorted_sort sorted_sort_id)
  then show ?thesis
    by (auto simp: v_sorted_unique_def distinct_card card_distinct)
qed

lemma key_sorted_iff:
  fixes f :: "'a \<Rightarrow> 'b :: linorder"
  shows "sort_key f xs = xs \<longleftrightarrow> sorted (map f xs)"
  by (metis sort_key_sorted_id sorted_sort_key)

definition age_or_reject :: "string \<Rightarrow> string \<Rightarrow> string \<Rightarrow> int result" where
  "age_or_reject later earlier ctx =
     (let age = age_ms later earlier in if age < 0 then Inl (cap_exn ctx) else Inr age)"

lemma age_or_reject_Inr [result_simps]:
  "age_or_reject later earlier ctx = Inr a \<longleftrightarrow> a = age_ms later earlier \<and> 0 \<le> a"
  by (auto simp: age_or_reject_def Let_def)

section \<open>Canonical ordering keys\<close>

fun diagnostic_sort_key_order :: "window_resource \<Rightarrow> int" where
  "diagnostic_sort_key_order Res_tokens = 0"
| "diagnostic_sort_key_order Res_time = 1"
| "diagnostic_sort_key_order Res_unknown = 2"

fun window_kind_order :: "window_kind \<Rightarrow> int" where
  "window_kind_order Kind_five_hour = 0"
| "window_kind_order Kind_weekly = 1"
| "window_kind_order Kind_unknown = 2"

definition or_empty :: "string option \<Rightarrow> string" where
  "or_empty x = (case x of None \<Rightarrow> [] | Some s \<Rightarrow> s)"

definition or_minus_one :: "int option \<Rightarrow> int" where
  "or_minus_one x = (case x of None \<Rightarrow> -1 | Some n \<Rightarrow> n)"

record quota_fact =
  qf_observation_class :: observation_class
  qf_window :: capacity_window

type_synonym quota_key = "string \<times> int \<times> string \<times> int \<times> string \<times> string \<times> string \<times> int \<times> string \<times> int \<times> int"

definition quota_fact_sort_key :: "quota_fact \<Rightarrow> quota_key" where
  "quota_fact_sort_key f = (let window = qf_window f in
     (observation_str (qf_observation_class f),
      diagnostic_sort_key_order (w_resource window), resource_str (w_resource window),
      window_kind_order (w_kind window), kind_str (w_kind window),
      or_empty (w_scope_id window), or_empty (w_window_id window),
      or_minus_one (w_duration_seconds window), or_empty (w_resets_at window),
      or_minus_one (w_used_percent window), or_minus_one (w_remaining_percent window)))"

definition diagnostic_sort_key :: "capacity_diagnostic \<Rightarrow> string \<times> string" where
  "diagnostic_sort_key d = (diag_str (dg_code d), or_empty (dg_window_id d))"

section \<open>Quota and cost facts\<close>

definition mk_quota_fact :: "quota_fact \<Rightarrow> quota_fact result" where
  \<comment> \<open>both checks of \<open>__post_init__\<close> hold of every typed value\<close>
  "mk_quota_fact f =
     bind_r (v_enum cap_exn observation_str OBSERVATION_CLASSES
               (PStr (observation_str (qf_observation_class f))) ''quota_fact.observation_class'') (\<lambda>_.
       Inr f)"

definition quota_fact_from_dict :: "pyval \<Rightarrow> quota_fact result" where
  "quota_fact_from_dict d =
     bind_r (v_exact_shape cap_exn d [''observation_class'', ''window''] [] ''quota_fact'') (\<lambda>dd.
     bind_r (v_item dd ''observation_class'' (v_enum cap_exn observation_str OBSERVATION_CLASSES)
               ''quota_fact.observation_class'') (\<lambda>oc.
     bind_r (v_item dd ''window'' (\<lambda>v _. window_from_dict v) ''window'') (\<lambda>w.
       mk_quota_fact \<lparr>qf_observation_class = oc, qf_window = w\<rparr>)))"

definition quota_fact_to_dict :: "quota_fact \<Rightarrow> pyval" where
  "quota_fact_to_dict f =
     obj [(''observation_class'', Some (PStr (observation_str (qf_observation_class f)))),
          (''window'', Some (window_to_dict (qf_window f)))]"

definition valid_quota_fact :: "quota_fact \<Rightarrow> bool" where
  "valid_quota_fact f = valid_window (qf_window f)"

lemma mk_quota_fact_Inr [valid_simps]: "mk_quota_fact f = Inr f' \<longleftrightarrow> f' = f"
  by (auto simp: mk_quota_fact_def)

interpretation quota_fact_contract:
  contract valid_quota_fact valid_quota_fact mk_quota_fact quota_fact_from_dict quota_fact_to_dict
proof unfold_locales
  fix r d
  show "quota_fact_from_dict d = Inr r \<Longrightarrow> valid_quota_fact r"
    by (auto simp: quota_fact_from_dict_def bind_r_Inr_iff valid_simps valid_quota_fact_def
        dest!: window_contract.item_ok)
  show "valid_quota_fact r \<Longrightarrow> quota_fact_from_dict (quota_fact_to_dict r) = Inr r"
    by (cases r) (auto simp: quota_fact_from_dict_def quota_fact_to_dict_def shape_simps result_simps
        valid_simps valid_quota_fact_def window_contract.from_to)
qed (simp_all add: valid_simps)

record resource_cost =
  rc_observation_class :: observation_class
  rc_input :: "int option"
  rc_output :: "int option"

definition v_amount :: "pyval \<Rightarrow> string \<Rightarrow> int option result" where
  "v_amount = v_opt (v_int cap_exn (Some 0) None)"

definition mk_cost :: "resource_cost \<Rightarrow> resource_cost result" where
  "mk_cost c =
     bind_r (v_amount (opt_py PInt (rc_input c)) ''cost.input_micro_usd_per_mtoken'') (\<lambda>_.
     bind_r (v_amount (opt_py PInt (rc_output c)) ''cost.output_micro_usd_per_mtoken'') (\<lambda>_.
       if rc_input c = None \<and> rc_output c = None then Inl (cap_exn ''cost'') else Inr c))"

definition cost_from_dict :: "pyval \<Rightarrow> resource_cost result" where
  "cost_from_dict d =
     bind_r (v_exact_shape cap_exn d [''observation_class'']
               [''input_micro_usd_per_mtoken'', ''output_micro_usd_per_mtoken''] ''cost'') (\<lambda>dd.
     bind_r (v_item dd ''observation_class'' (v_enum cap_exn observation_str OBSERVATION_CLASSES)
               ''cost.observation_class'') (\<lambda>oc.
     bind_r (v_amount (py_get dd ''input_micro_usd_per_mtoken'') ''cost.input_micro_usd_per_mtoken'') (\<lambda>i.
     bind_r (v_amount (py_get dd ''output_micro_usd_per_mtoken'') ''cost.output_micro_usd_per_mtoken'') (\<lambda>out.
       mk_cost \<lparr>rc_observation_class = oc, rc_input = i, rc_output = out\<rparr>))))"

definition cost_to_dict :: "resource_cost \<Rightarrow> pyval" where
  "cost_to_dict c =
     obj [(''observation_class'', Some (PStr (observation_str (rc_observation_class c)))),
          (''input_micro_usd_per_mtoken'', map_option PInt (rc_input c)),
          (''output_micro_usd_per_mtoken'', map_option PInt (rc_output c))]"

definition valid_cost :: "resource_cost \<Rightarrow> bool" where
  "valid_cost c =
     (pred_option (\<lambda>n. 0 \<le> n) (rc_input c) \<and> pred_option (\<lambda>n. 0 \<le> n) (rc_output c)
      \<and> (rc_input c \<noteq> None \<or> rc_output c \<noteq> None))"

lemma mk_cost_Inr [valid_simps]: "mk_cost c = Inr c' \<longleftrightarrow> c' = c \<and> valid_cost c"
  by (auto simp: mk_cost_def v_amount_def valid_cost_def result_simps valid_simps)

interpretation cost_contract: contract "\<lambda>_. True" valid_cost mk_cost cost_from_dict cost_to_dict
proof unfold_locales
  fix r d
  show "cost_from_dict d = Inr r \<Longrightarrow> valid_cost r"
    by (auto simp: cost_from_dict_def bind_r_Inr_iff mk_cost_Inr)
  show "valid_cost r \<Longrightarrow> cost_from_dict (cost_to_dict r) = Inr r"
    by (cases r) (auto simp: cost_from_dict_def cost_to_dict_def v_amount_def shape_simps result_simps
        valid_simps valid_cost_def)
qed (simp_all add: valid_simps)

section \<open>Promotions\<close>

record promotion_observation =
  po_source :: string
  po_observed_at :: string
  po_channel :: "execution_channel option"
  po_provider :: "string option"
  po_model :: "string option"
  po_plan :: "string option"
  po_valid_from :: "string option"
  po_valid_until :: "string option"
  po_timezone :: "string option"

type_synonym promotion_key =
  "string \<times> string \<times> string \<times> string \<times> string \<times> string \<times> string \<times> string \<times> string"

definition promotion_sort_key :: "promotion_observation \<Rightarrow> promotion_key" where
  "promotion_sort_key p =
     (po_source p, po_observed_at p, or_empty (map_option channel_str (po_channel p)),
      or_empty (po_provider p), or_empty (po_model p), or_empty (po_plan p),
      or_empty (po_valid_from p), or_empty (po_valid_until p), or_empty (po_timezone p))"

definition mk_promotion :: "promotion_observation \<Rightarrow> promotion_observation result" where
  "mk_promotion p =
     bind_r (v_safe_id cap_exn (PStr (po_source p)) ''promotion.source'') (\<lambda>_.
     bind_r (v_ts cap_exn (PStr (po_observed_at p)) ''promotion.observed_at'') (\<lambda>_.
     bind_r (v_opt (v_safe_id cap_exn) (opt_py PStr (po_provider p)) ''promotion.provider'') (\<lambda>_.
     bind_r (v_opt (v_safe_id cap_exn) (opt_py PStr (po_model p)) ''promotion.model'') (\<lambda>_.
     bind_r (v_opt (v_safe_id cap_exn) (opt_py PStr (po_plan p)) ''promotion.plan'') (\<lambda>_.
     bind_r (v_opt (v_ts cap_exn) (opt_py PStr (po_valid_from p)) ''promotion.valid_from'') (\<lambda>_.
     bind_r (v_opt (v_ts cap_exn) (opt_py PStr (po_valid_until p)) ''promotion.valid_until'') (\<lambda>_.
     bind_r (v_opt (v_safe_id cap_exn) (opt_py PStr (po_timezone p)) ''promotion.timezone'') (\<lambda>_.
       case (po_valid_from p, po_valid_until p) of
         (Some from, Some until) \<Rightarrow>
           (if age_ms until from < 0 then Inl (cap_exn ''promotion'') else Inr p)
       | _ \<Rightarrow> Inr p))))))))"

definition PROMOTION_OPTIONAL :: "string list" where
  "PROMOTION_OPTIONAL = [''channel'', ''provider'', ''model'', ''plan'', ''valid_from'',
     ''valid_until'', ''timezone'']"

definition promotion_from_dict :: "pyval \<Rightarrow> promotion_observation result" where
  "promotion_from_dict d =
     bind_r (v_exact_shape cap_exn d [''source'', ''observed_at''] PROMOTION_OPTIONAL ''promotion'') (\<lambda>dd.
     bind_r (v_item dd ''source'' (v_safe_id cap_exn) ''promotion.source'') (\<lambda>source.
     bind_r (v_item dd ''observed_at'' (v_ts cap_exn) ''promotion.observed_at'') (\<lambda>observed_at.
     bind_r (v_opt (v_enum cap_exn channel_str EXECUTION_CHANNELS) (py_get dd ''channel'')
               ''promotion.channel'') (\<lambda>channel.
     bind_r (v_opt (v_safe_id cap_exn) (py_get dd ''provider'') ''promotion.provider'') (\<lambda>provider.
     bind_r (v_opt (v_safe_id cap_exn) (py_get dd ''model'') ''promotion.model'') (\<lambda>model.
     bind_r (v_opt (v_safe_id cap_exn) (py_get dd ''plan'') ''promotion.plan'') (\<lambda>plan.
     bind_r (v_opt (v_ts cap_exn) (py_get dd ''valid_from'') ''promotion.valid_from'') (\<lambda>valid_from.
     bind_r (v_opt (v_ts cap_exn) (py_get dd ''valid_until'') ''promotion.valid_until'') (\<lambda>valid_until.
     bind_r (v_opt (v_safe_id cap_exn) (py_get dd ''timezone'') ''promotion.timezone'') (\<lambda>timezone.
       mk_promotion \<lparr>po_source = source, po_observed_at = observed_at, po_channel = channel,
         po_provider = provider, po_model = model, po_plan = plan, po_valid_from = valid_from,
         po_valid_until = valid_until, po_timezone = timezone\<rparr>))))))))))"

definition promotion_to_dict :: "promotion_observation \<Rightarrow> pyval" where
  "promotion_to_dict p =
     obj [(''source'', Some (PStr (po_source p))),
          (''observed_at'', Some (PStr (po_observed_at p))),
          (''channel'', map_option (\<lambda>c. PStr (channel_str c)) (po_channel p)),
          (''provider'', map_option PStr (po_provider p)),
          (''model'', map_option PStr (po_model p)),
          (''plan'', map_option PStr (po_plan p)),
          (''valid_from'', map_option PStr (po_valid_from p)),
          (''valid_until'', map_option PStr (po_valid_until p)),
          (''timezone'', map_option PStr (po_timezone p))]"

definition interval_ok :: "string option \<Rightarrow> string option \<Rightarrow> bool" where
  "interval_ok x y = (case (x, y) of (Some from, Some until) \<Rightarrow> from \<le> until | _ \<Rightarrow> True)"

definition valid_promotion :: "promotion_observation \<Rightarrow> bool" where
  "valid_promotion p =
     (safe_id_match (po_source p) \<and> ts_ok (po_observed_at p)
      \<and> pred_option safe_id_match (po_provider p) \<and> pred_option safe_id_match (po_model p)
      \<and> pred_option safe_id_match (po_plan p) \<and> pred_option ts_ok (po_valid_from p)
      \<and> pred_option ts_ok (po_valid_until p) \<and> pred_option safe_id_match (po_timezone p)
      \<and> interval_ok (po_valid_from p) (po_valid_until p))"

lemma mk_promotion_Inr [valid_simps]: "mk_promotion p = Inr p' \<longleftrightarrow> p' = p \<and> valid_promotion p"
proof -
  have "ts_ok x \<Longrightarrow> ts_ok y \<Longrightarrow> age_ms y x < 0 \<longleftrightarrow> \<not> x \<le> y" for x y
    using age_nonneg_iff [of x y] by (metis not_le)
  then show ?thesis
    by (cases "po_valid_from p"; cases "po_valid_until p")
      (auto simp: mk_promotion_def valid_promotion_def interval_ok_def result_simps valid_simps)
qed

interpretation promotion_contract:
  contract "\<lambda>_. True" valid_promotion mk_promotion promotion_from_dict promotion_to_dict
proof unfold_locales
  fix r d
  show "promotion_from_dict d = Inr r \<Longrightarrow> valid_promotion r"
    by (auto simp: promotion_from_dict_def bind_r_Inr_iff mk_promotion_Inr)
  show "valid_promotion r \<Longrightarrow> promotion_from_dict (promotion_to_dict r) = Inr r"
    by (cases r) (auto simp: promotion_from_dict_def promotion_to_dict_def PROMOTION_OPTIONAL_def
        shape_simps result_simps valid_simps valid_promotion_def)
qed (simp_all add: valid_simps)

section \<open>Resource identity\<close>

record resource_identity =
  ri_resource_id :: string
  ri_channel :: execution_channel
  ri_provider :: string
  ri_model :: string
  ri_entitlement :: entitlement_class
  ri_variant :: "string option"
  ri_quota_pool_ids :: "string list"

definition mk_resource_identity :: "resource_identity \<Rightarrow> resource_identity result" where
  "mk_resource_identity i =
     bind_r (v_safe_id cap_exn (PStr (ri_resource_id i)) ''resource_identity.resource_id'') (\<lambda>_.
     bind_r (v_safe_id cap_exn (PStr (ri_provider i)) ''resource_identity.provider'') (\<lambda>_.
     bind_r (v_safe_id cap_exn (PStr (ri_model i)) ''resource_identity.model'') (\<lambda>_.
     bind_r (v_opt (v_safe_id cap_exn) (opt_py PStr (ri_variant i)) ''resource_identity.variant'') (\<lambda>_.
     bind_r (traverse (\<lambda>p. v_safe_id cap_exn p ''resource_identity.quota_pool_ids'')
               (map PStr (ri_quota_pool_ids i))) (\<lambda>pools.
     bind_r (v_sorted_unique pools ''resource_identity.quota_pool_ids'') (\<lambda>_.
       Inr i))))))"

definition v_list_or_empty :: "(string \<Rightarrow> py_error) \<Rightarrow> pyval \<Rightarrow> string \<Rightarrow> pyval list result" where
  \<comment> \<open>\<open>()\<close> for a missing member, else the \<open>isinstance(raw, list)\<close> guard\<close>
  "v_list_or_empty exn v fld = (case v of PNone \<Rightarrow> Inr [] | _ \<Rightarrow> v_list exn v fld)"

definition resource_identity_from_dict :: "pyval \<Rightarrow> resource_identity result" where
  "resource_identity_from_dict d =
     bind_r (v_exact_shape cap_exn d [''resource_id'', ''channel'', ''provider'', ''model'', ''entitlement'']
               [''variant'', ''quota_pool_ids''] ''resource_identity'') (\<lambda>dd.
     bind_r (v_list_or_empty cap_exn (py_get dd ''quota_pool_ids'') ''resource_identity.quota_pool_ids'') (\<lambda>raw.
     bind_r (v_item dd ''resource_id'' (v_safe_id cap_exn) ''resource_identity.resource_id'') (\<lambda>rid.
     bind_r (v_item dd ''channel'' (v_enum cap_exn channel_str EXECUTION_CHANNELS)
               ''resource_identity.channel'') (\<lambda>channel.
     bind_r (v_item dd ''provider'' (v_safe_id cap_exn) ''resource_identity.provider'') (\<lambda>provider.
     bind_r (v_item dd ''model'' (v_safe_id cap_exn) ''resource_identity.model'') (\<lambda>model.
     bind_r (v_item dd ''entitlement'' (v_enum cap_exn entitlement_str ENTITLEMENT_CLASSES)
               ''resource_identity.entitlement'') (\<lambda>entitlement.
     bind_r (v_opt (v_safe_id cap_exn) (py_get dd ''variant'') ''resource_identity.variant'') (\<lambda>variant.
     bind_r (traverse (\<lambda>p. v_safe_id cap_exn p ''resource_identity.quota_pool_ids'') raw) (\<lambda>pools.
       mk_resource_identity \<lparr>ri_resource_id = rid, ri_channel = channel, ri_provider = provider,
         ri_model = model, ri_entitlement = entitlement, ri_variant = variant,
         ri_quota_pool_ids = pools\<rparr>)))))))))"

definition nonempty :: "('a \<Rightarrow> pyval) \<Rightarrow> 'a list \<Rightarrow> pyval option" where
  \<comment> \<open>\<open>if self.xs: out[k] = [...]\<close>\<close>
  "nonempty g xs = (if xs = [] then None else Some (PList (map g xs)))"

definition resource_identity_to_dict :: "resource_identity \<Rightarrow> pyval" where
  "resource_identity_to_dict i =
     obj [(''resource_id'', Some (PStr (ri_resource_id i))),
          (''channel'', Some (PStr (channel_str (ri_channel i)))),
          (''provider'', Some (PStr (ri_provider i))),
          (''model'', Some (PStr (ri_model i))),
          (''entitlement'', Some (PStr (entitlement_str (ri_entitlement i)))),
          (''variant'', map_option PStr (ri_variant i)),
          (''quota_pool_ids'', nonempty PStr (ri_quota_pool_ids i))]"

definition valid_resource_identity :: "resource_identity \<Rightarrow> bool" where
  "valid_resource_identity i =
     (safe_id_match (ri_resource_id i) \<and> safe_id_match (ri_provider i) \<and> safe_id_match (ri_model i)
      \<and> pred_option safe_id_match (ri_variant i) \<and> list_all safe_id_match (ri_quota_pool_ids i)
      \<and> sorted (ri_quota_pool_ids i) \<and> distinct (ri_quota_pool_ids i))"

lemma mk_resource_identity_Inr [valid_simps]:
  "mk_resource_identity i = Inr i' \<longleftrightarrow> i' = i \<and> valid_resource_identity i"
  by (auto simp: mk_resource_identity_def valid_resource_identity_def result_simps valid_simps)

lemma v_list_or_empty_nonempty [shape_simps]:
  "v_list_or_empty exn (opt_py (\<lambda>v. v) (nonempty g xs)) fld = Inr (map g xs)"
  by (simp add: nonempty_def v_list_or_empty_def v_list_def)

interpretation resource_identity_contract:
  contract "\<lambda>_. True" valid_resource_identity mk_resource_identity resource_identity_from_dict
    resource_identity_to_dict
proof unfold_locales
  fix r d
  show "resource_identity_from_dict d = Inr r \<Longrightarrow> valid_resource_identity r"
    by (auto simp: resource_identity_from_dict_def bind_r_Inr_iff mk_resource_identity_Inr)
  show "valid_resource_identity r \<Longrightarrow> resource_identity_from_dict (resource_identity_to_dict r) = Inr r"
    by (cases r) (auto simp: resource_identity_from_dict_def resource_identity_to_dict_def
        shape_simps result_simps valid_simps valid_resource_identity_def)
qed (simp_all add: valid_simps)

section \<open>Execution capabilities\<close>

subsection \<open>Runtime versions (runtime\_version.py)\<close>

definition is_alnum :: "char \<Rightarrow> bool" where
  "is_alnum c = (is_digit c \<or> in_range (CHR ''a'') (CHR ''z'') c \<or> in_range (CHR ''A'') (CHR ''Z'') c)"

fun runs :: "(char \<Rightarrow> bool) \<Rightarrow> (char \<Rightarrow> bool) \<Rightarrow> bool \<Rightarrow> string \<Rightarrow> bool" where
  \<comment> \<open>non-empty runs of \<open>p\<close> characters with single separators between them\<close>
  "runs p sep seen [] = seen"
| "runs p sep seen (c # cs) =
     (if p c then runs p sep True cs else sep c \<and> seen \<and> runs p sep False cs)"

definition identifiers :: "string \<Rightarrow> bool" where
  \<comment> \<open>\<^verbatim>\<open>[0-9A-Za-z]+(?:[.-][0-9A-Za-z]+)*\<close>\<close>
  "identifiers = runs is_alnum (\<lambda>c. c = CHR ''.'' \<or> c = CHR ''-'') False"

definition version_re :: "string \<Rightarrow> bool" where
  \<comment> \<open>\<open>_VERSION.fullmatch\<close>: three numbers, then an optional \<open>-\<close> part and an optional \<open>+\<close> part.
    Numbers contain neither sign and the \<open>-\<close> part contains no \<open>+\<close>, so the first \<open>+\<close> opens the last
    part and the first \<open>-\<close> before it the middle one.\<close>
  "version_re s =
     (let main = takeWhile (\<lambda>c. c \<noteq> CHR ''+'') s; build = dropWhile (\<lambda>c. c \<noteq> CHR ''+'') s;
          core = takeWhile (\<lambda>c. c \<noteq> CHR ''-'') main; pre = dropWhile (\<lambda>c. c \<noteq> CHR ''-'') main in
      runs is_digit (\<lambda>c. c = CHR ''.'') False core \<and> length (filter (\<lambda>c. c = CHR ''.'') core) = 2
      \<and> (pre = [] \<or> identifiers (tl pre)) \<and> (build = [] \<or> identifiers (tl build)))"

definition version_ok :: "string \<Rightarrow> bool" where
  "version_ok s = (length s \<le> 64 \<and> version_re s)"

definition validate_runtime_version :: "pyval \<Rightarrow> string option" where
  \<comment> \<open>None is the \<open>ValueError\<close>\<close>
  "validate_runtime_version v =
     (case v of PStr s \<Rightarrow> (if length s > 64 \<or> \<not> version_re s then None else Some s) | _ \<Rightarrow> None)"

definition v_runtime_version :: "pyval \<Rightarrow> string \<Rightarrow> string result" where
  "v_runtime_version v fld =
     (case validate_runtime_version v of None \<Rightarrow> Inl (cap_exn fld) | Some s \<Rightarrow> Inr s)"

lemma v_runtime_version_Inr [valid_simps]:
  "v_runtime_version v fld = Inr s \<longleftrightarrow> v = PStr s \<and> version_ok s"
  by (cases v) (auto simp: v_runtime_version_def validate_runtime_version_def version_ok_def
      split: option.splits)

lemma v_opt_runtime_version [valid_simps]:
  "v_opt v_runtime_version (opt_py PStr x) fld = Inr y \<longleftrightarrow> y = x \<and> pred_option version_ok x"
  by (rule v_opt_str) (auto simp: valid_simps)

subsection \<open>The record\<close>

record execution_capabilities =
  ec_streaming :: "bool option"
  ec_tool_calls :: "bool option"
  ec_structured_output :: "bool option"
  ec_reasoning_controls :: "bool option"
  ec_usage_reporting :: "bool option"
  ec_cancellation :: "bool option"
  ec_context_limit_tokens :: "int option"
  ec_output_limit_tokens :: "int option"
  ec_output_limit_control :: "bool option"
  ec_evidence_ref :: "string option"
  ec_evidence_valid_until :: "string option"
  ec_evidence_verified_at :: "string option"
  ec_evidence_runtime_version :: "string option"

definition unknown_capabilities :: execution_capabilities where
  \<comment> \<open>\<open>ExecutionCapabilities()\<close>\<close>
  "unknown_capabilities = \<lparr>ec_streaming = None, ec_tool_calls = None, ec_structured_output = None,
     ec_reasoning_controls = None, ec_usage_reporting = None, ec_cancellation = None,
     ec_context_limit_tokens = None, ec_output_limit_tokens = None, ec_output_limit_control = None,
     ec_evidence_ref = None, ec_evidence_valid_until = None, ec_evidence_verified_at = None,
     ec_evidence_runtime_version = None\<rparr>"

definition v_token_limit :: "pyval \<Rightarrow> string \<Rightarrow> int option result" where
  "v_token_limit = v_opt (v_int cap_exn (Some 1) None)"

definition check_context_evidence :: "execution_capabilities \<Rightarrow> unit result" where
  "check_context_evidence c =
     (case ec_evidence_ref c of
        None \<Rightarrow>
          (if ec_evidence_valid_until c \<noteq> None \<or> ec_evidence_verified_at c \<noteq> None
              \<or> ec_evidence_runtime_version c \<noteq> None then Inl (cap_exn ''capabilities'') else Inr ())
      | Some ref \<Rightarrow>
          bind_r (v_safe_id cap_exn (PStr ref) ''capabilities.context_evidence_ref'') (\<lambda>_.
          bind_r (v_runtime_version (opt_py PStr (ec_evidence_runtime_version c))
                    ''capabilities.context_evidence_runtime_version'') (\<lambda>_.
          bind_r (v_ts cap_exn (opt_py PStr (ec_evidence_valid_until c))
                    ''capabilities.context_evidence_valid_until'') (\<lambda>until.
          bind_r (v_ts cap_exn (opt_py PStr (ec_evidence_verified_at c))
                    ''capabilities.context_evidence_verified_at'') (\<lambda>verified.
            if verified \<ge> until then Inl (cap_exn ''capabilities'')
            else if ec_context_limit_tokens c = None then Inl (cap_exn ''capabilities'')
            else Inr ())))))"

definition mk_capabilities :: "execution_capabilities \<Rightarrow> execution_capabilities result" where
  "mk_capabilities c =
     bind_r (v_token_limit (opt_py PInt (ec_context_limit_tokens c)) ''capabilities.context_limit_tokens'') (\<lambda>_.
     bind_r (v_token_limit (opt_py PInt (ec_output_limit_tokens c)) ''capabilities.output_limit_tokens'') (\<lambda>_.
     bind_r (check_context_evidence c) (\<lambda>_. Inr c)))"

definition CAPABILITIES_OPTIONAL :: "string list" where
  "CAPABILITIES_OPTIONAL = [''streaming'', ''tool_calls'', ''structured_output'', ''reasoning_controls'',
     ''usage_reporting'', ''cancellation'', ''context_limit_tokens'', ''output_limit_tokens'',
     ''output_limit_control'', ''context_evidence_ref'', ''context_evidence_valid_until'',
     ''context_evidence_verified_at'', ''context_evidence_runtime_version'']"

definition capabilities_from_dict :: "pyval \<Rightarrow> execution_capabilities result" where
  "capabilities_from_dict d =
     bind_r (v_exact_shape cap_exn d [] CAPABILITIES_OPTIONAL ''capabilities'') (\<lambda>dd.
     bind_r (v_opt (v_bool cap_exn) (py_get dd ''streaming'') ''capabilities.streaming'') (\<lambda>streaming.
     bind_r (v_opt (v_bool cap_exn) (py_get dd ''tool_calls'') ''capabilities.tool_calls'') (\<lambda>tool_calls.
     bind_r (v_opt (v_bool cap_exn) (py_get dd ''structured_output'')
               ''capabilities.structured_output'') (\<lambda>structured_output.
     bind_r (v_opt (v_bool cap_exn) (py_get dd ''reasoning_controls'')
               ''capabilities.reasoning_controls'') (\<lambda>reasoning_controls.
     bind_r (v_opt (v_bool cap_exn) (py_get dd ''usage_reporting'')
               ''capabilities.usage_reporting'') (\<lambda>usage_reporting.
     bind_r (v_opt (v_bool cap_exn) (py_get dd ''cancellation'') ''capabilities.cancellation'') (\<lambda>cancellation.
     bind_r (v_token_limit (py_get dd ''context_limit_tokens'') ''capabilities.context_limit_tokens'') (\<lambda>ctx.
     bind_r (v_token_limit (py_get dd ''output_limit_tokens'') ''capabilities.output_limit_tokens'') (\<lambda>out.
     bind_r (v_opt (v_bool cap_exn) (py_get dd ''output_limit_control'')
               ''capabilities.output_limit_control'') (\<lambda>control.
     bind_r (v_opt (v_safe_id cap_exn) (py_get dd ''context_evidence_ref'')
               ''capabilities.context_evidence_ref'') (\<lambda>ref.
     bind_r (v_opt (v_ts cap_exn) (py_get dd ''context_evidence_valid_until'')
               ''capabilities.context_evidence_valid_until'') (\<lambda>until.
     bind_r (v_opt (v_ts cap_exn) (py_get dd ''context_evidence_verified_at'')
               ''capabilities.context_evidence_verified_at'') (\<lambda>verified.
     bind_r (v_opt v_runtime_version (py_get dd ''context_evidence_runtime_version'')
               ''capabilities.context_evidence_runtime_version'') (\<lambda>version.
       mk_capabilities \<lparr>ec_streaming = streaming, ec_tool_calls = tool_calls,
         ec_structured_output = structured_output, ec_reasoning_controls = reasoning_controls,
         ec_usage_reporting = usage_reporting, ec_cancellation = cancellation,
         ec_context_limit_tokens = ctx, ec_output_limit_tokens = out,
         ec_output_limit_control = control, ec_evidence_ref = ref, ec_evidence_valid_until = until,
         ec_evidence_verified_at = verified, ec_evidence_runtime_version = version\<rparr>))))))))))))))"

definition capabilities_to_dict :: "execution_capabilities \<Rightarrow> pyval" where
  "capabilities_to_dict c = (let evidenced = (ec_evidence_ref c \<noteq> None) in
     obj [(''streaming'', map_option PBool (ec_streaming c)),
          (''tool_calls'', map_option PBool (ec_tool_calls c)),
          (''structured_output'', map_option PBool (ec_structured_output c)),
          (''reasoning_controls'', map_option PBool (ec_reasoning_controls c)),
          (''usage_reporting'', map_option PBool (ec_usage_reporting c)),
          (''cancellation'', map_option PBool (ec_cancellation c)),
          (''context_limit_tokens'', map_option PInt (ec_context_limit_tokens c)),
          (''output_limit_tokens'', map_option PInt (ec_output_limit_tokens c)),
          (''output_limit_control'', map_option PBool (ec_output_limit_control c)),
          (''context_evidence_ref'', map_option PStr (ec_evidence_ref c)),
          (''context_evidence_valid_until'',
             if evidenced then Some (opt_py PStr (ec_evidence_valid_until c)) else None),
          (''context_evidence_verified_at'',
             if evidenced then Some (opt_py PStr (ec_evidence_verified_at c)) else None),
          (''context_evidence_runtime_version'',
             if evidenced then Some (opt_py PStr (ec_evidence_runtime_version c)) else None)])"

definition valid_evidence_interval :: "execution_capabilities \<Rightarrow> bool" where
  "valid_evidence_interval c =
     (case (ec_evidence_ref c, ec_evidence_runtime_version c, ec_evidence_verified_at c,
            ec_evidence_valid_until c) of
        (None, None, None, None) \<Rightarrow> True
      | (Some ref, Some version, Some verified, Some until) \<Rightarrow>
          safe_id_match ref \<and> version_ok version \<and> ts_ok verified \<and> ts_ok until \<and> verified < until
          \<and> ec_context_limit_tokens c \<noteq> None
      | _ \<Rightarrow> False)"

definition valid_capabilities :: "execution_capabilities \<Rightarrow> bool" where
  "valid_capabilities c =
     (pred_option (\<lambda>n. 1 \<le> n) (ec_context_limit_tokens c)
      \<and> pred_option (\<lambda>n. 1 \<le> n) (ec_output_limit_tokens c) \<and> valid_evidence_interval c)"

lemma check_context_evidence_Inr [valid_simps]:
  "check_context_evidence c = Inr u \<longleftrightarrow> valid_evidence_interval c"
  by (cases "ec_evidence_ref c"; cases "ec_evidence_runtime_version c";
      cases "ec_evidence_verified_at c"; cases "ec_evidence_valid_until c")
    (auto simp: check_context_evidence_def valid_evidence_interval_def result_simps valid_simps not_le)

lemma mk_capabilities_Inr [valid_simps]:
  "mk_capabilities c = Inr c' \<longleftrightarrow> c' = c \<and> valid_capabilities c"
  by (auto simp: mk_capabilities_def valid_capabilities_def v_token_limit_def result_simps valid_simps)

lemma evidence_member [shape_simps]:
  "opt_py (\<lambda>v. v) (if e then Some (opt_py PStr x) else None) = opt_py PStr (if e then x else None)"
  by simp

lemma unknown_capabilities_valid [simp]: "valid_capabilities unknown_capabilities"
  by (simp add: valid_capabilities_def unknown_capabilities_def valid_evidence_interval_def)

lemma capabilities_wire:
  assumes "valid_capabilities r"
  shows "capabilities_from_dict (capabilities_to_dict r) = Inr r"
proof (cases "ec_evidence_ref r")
  case None
  with assms show ?thesis
    by (cases r) (auto simp: capabilities_from_dict_def capabilities_to_dict_def
        CAPABILITIES_OPTIONAL_def v_token_limit_def shape_simps result_simps valid_simps
        valid_capabilities_def valid_evidence_interval_def Let_def split: option.splits)
next
  case (Some ref)
  with assms show ?thesis
    by (cases r) (auto simp: capabilities_from_dict_def capabilities_to_dict_def
        CAPABILITIES_OPTIONAL_def v_token_limit_def shape_simps result_simps valid_simps
        valid_capabilities_def valid_evidence_interval_def Let_def split: option.splits)
qed

interpretation capabilities_contract:
  contract "\<lambda>_. True" valid_capabilities mk_capabilities capabilities_from_dict capabilities_to_dict
proof unfold_locales
  fix r d
  show "capabilities_from_dict d = Inr r \<Longrightarrow> valid_capabilities r"
    by (auto simp: capabilities_from_dict_def bind_r_Inr_iff mk_capabilities_Inr)
  show "valid_capabilities r \<Longrightarrow> capabilities_from_dict (capabilities_to_dict r) = Inr r"
    by (rule capabilities_wire)
qed (simp_all add: valid_simps)

section \<open>The output-eligibility rule\<close>

datatype output_limit_code =
  Output_limit_unknown | Output_limit_insufficient | Output_limit_unenforceable

definition known_output_limits :: "execution_capabilities \<Rightarrow> int option \<Rightarrow> bool \<Rightarrow> int list" where
  "known_output_limits c hard variant_resolved =
     (if variant_resolved then List.map_filter (\<lambda>x. x) [hard, ec_output_limit_tokens c]
      else case ec_output_limit_tokens c of Some n \<Rightarrow> [n] | None \<Rightarrow> [])"

definition py_min :: "'a :: linorder list \<Rightarrow> 'a" where
  \<comment> \<open>\<open>min(xs)\<close> of a non-empty sequence\<close>
  "py_min xs = fold min (tl xs) (hd xs)"

definition route_output_code ::
  "execution_capabilities \<Rightarrow> int option \<Rightarrow> int option \<Rightarrow> bool \<Rightarrow> bool \<Rightarrow> output_limit_code option" where
  "route_output_code c hard requested variant_resolved enforce_limit =
     (case requested of
        None \<Rightarrow> None
      | Some req \<Rightarrow>
          (let known = known_output_limits c hard variant_resolved in
           if known = [] then Some Output_limit_unknown
           else if py_min known < req then Some Output_limit_insufficient
           else if enforce_limit \<and> ec_output_limit_control c = Some False
                   \<and> (\<not> variant_resolved \<or> hard = None \<or> (case hard of None \<Rightarrow> False | Some h \<Rightarrow> req < h))
             then Some Output_limit_unenforceable
           else None))"

lemma fold_min_le: "fold min xs a \<le> (x :: 'a :: linorder) \<longleftrightarrow> a \<le> x \<or> (\<exists>y \<in> set xs. y \<le> x)"
  by (induction xs arbitrary: a) (auto simp: min_le_iff_disj)

lemma py_min_le: "xs \<noteq> [] \<Longrightarrow> py_min xs \<le> x \<longleftrightarrow> (\<exists>y \<in> set xs. y \<le> x)"
  by (cases xs) (auto simp: py_min_def fold_min_le)

lemma fold_min_in: "fold min xs a \<in> insert (a :: 'a :: linorder) (set xs)"
  by (induction xs arbitrary: a) (auto simp: min_def)

lemma py_min_in: "xs \<noteq> [] \<Longrightarrow> py_min xs \<in> set xs"
  using fold_min_in [of "tl xs" "hd xs"] by (cases xs) (auto simp: py_min_def)

lemma py_min_less: "xs \<noteq> [] \<Longrightarrow> py_min xs < x \<longleftrightarrow> (\<exists>y \<in> set xs. y < x)"
proof
  assume "xs \<noteq> []" "\<exists>y \<in> set xs. y < x"
  then obtain y where "y < x" "py_min xs \<le> y" by (auto simp: py_min_le)
  then show "py_min xs < x" by simp
qed (blast intro: py_min_in)

lemma set_known_output_limits [simp]:
  "set (known_output_limits c hard r) =
     set_option (ec_output_limit_tokens c) \<union> (if r then set_option hard else {})"
  by (auto simp: known_output_limits_def map_filter_simps split: option.splits)

section \<open>Health\<close>

record resource_health =
  rh_status :: capacity_status
  rh_diagnostics :: "capacity_diagnostic list"

definition mk_health :: "resource_health \<Rightarrow> resource_health result" where
  "mk_health h =
     (if sort_key diagnostic_sort_key (rh_diagnostics h) \<noteq> rh_diagnostics h
        then Inl (cap_exn ''health.diagnostics'')
      else case health_required_diagnostic (rh_status h) of
        Some c \<Rightarrow> (if c \<notin> set (map dg_code (rh_diagnostics h)) then Inl (cap_exn ''health'') else Inr h)
      | None \<Rightarrow> Inr h)"

definition health_from_dict :: "pyval \<Rightarrow> resource_health result" where
  "health_from_dict d =
     bind_r (v_exact_shape cap_exn d [''status''] [''diagnostics''] ''health'') (\<lambda>dd.
     bind_r (v_list_or_empty cap_exn (py_get dd ''diagnostics'') ''health.diagnostics'') (\<lambda>raw.
     bind_r (traverse diagnostic_from_dict raw) (\<lambda>diagnostics.
     bind_r (v_item dd ''status'' (v_enum cap_exn status_str RESOURCE_HEALTH_STATUSES) ''health.status'') (\<lambda>status.
       mk_health \<lparr>rh_status = status, rh_diagnostics = diagnostics\<rparr>))))"

definition health_to_dict :: "resource_health \<Rightarrow> pyval" where
  "health_to_dict h =
     obj [(''status'', Some (PStr (status_str (rh_status h)))),
          (''diagnostics'', nonempty diagnostic_to_dict (rh_diagnostics h))]"

definition health_parts :: "resource_health \<Rightarrow> bool" where
  "health_parts h = list_all valid_diagnostic (rh_diagnostics h)"

definition valid_health :: "resource_health \<Rightarrow> bool" where
  "valid_health h =
     (health_parts h \<and> sorted (map diagnostic_sort_key (rh_diagnostics h))
      \<and> pred_option (\<lambda>c. c \<in> set (map dg_code (rh_diagnostics h))) (health_required_diagnostic (rh_status h)))"

lemma mk_health_Inr [valid_simps]:
  "health_parts h \<Longrightarrow> mk_health h = Inr h' \<longleftrightarrow> h' = h \<and> valid_health h"
  by (auto simp: mk_health_def valid_health_def key_sorted_iff split: option.splits)

interpretation health_contract:
  contract health_parts valid_health mk_health health_from_dict health_to_dict
proof unfold_locales
  fix r d
  show "health_from_dict d = Inr r \<Longrightarrow> valid_health r"
    by (auto simp: health_from_dict_def bind_r_Inr_iff health_parts_def mk_health_Inr
        dest!: diagnostic_contract.list_ok)
  show "valid_health r \<Longrightarrow> health_from_dict (health_to_dict r) = Inr r"
    by (cases r) (auto simp: health_from_dict_def health_to_dict_def shape_simps result_simps
        valid_simps health_parts_def valid_health_def diagnostic_contract.list_from_to)
  show "valid_health r \<Longrightarrow> mk_health r = Inr r"
    by (simp add: mk_health_Inr valid_health_def)
qed (simp_all add: mk_health_Inr)

section \<open>The observation\<close>

record resource_state_snapshot =
  rs_schema_version :: int
  rs_identity :: resource_identity
  rs_observed_at :: string
  rs_health :: resource_health
  rs_quota_facts :: "quota_fact list"
  rs_promotions :: "promotion_observation list"

definition RESOURCE_STATE_SCHEMA_VERSION :: int where "RESOURCE_STATE_SCHEMA_VERSION = 1"

definition mk_resource_snapshot :: "resource_state_snapshot \<Rightarrow> resource_state_snapshot result" where
  "mk_resource_snapshot s =
     (if rs_schema_version s \<noteq> RESOURCE_STATE_SCHEMA_VERSION then Inl (cap_exn ''schema_version'')
      else
     bind_r (v_ts cap_exn (PStr (rs_observed_at s)) ''snapshot.observed_at'') (\<lambda>_.
       if sort_key quota_fact_sort_key (rs_quota_facts s) \<noteq> rs_quota_facts s
         then Inl (cap_exn ''snapshot.quota_facts'')
       else if sort_key promotion_sort_key (rs_promotions s) \<noteq> rs_promotions s
         then Inl (cap_exn ''snapshot.promotions'')
       else Inr s))"

definition RESOURCE_SNAPSHOT_REQUIRED :: "string list" where
  "RESOURCE_SNAPSHOT_REQUIRED =
     [''schema_version'', ''identity'', ''observed_at'', ''health'', ''quota_facts'', ''promotions'']"

definition resource_snapshot_from_dict :: "pyval \<Rightarrow> resource_state_snapshot result" where
  "resource_snapshot_from_dict d =
     bind_r (v_exact_shape cap_exn d RESOURCE_SNAPSHOT_REQUIRED [] ''resource_state_snapshot'') (\<lambda>dd.
     bind_r (v_item dd ''quota_facts'' (v_list cap_exn) ''snapshot.quota_facts'') (\<lambda>raw_facts.
     bind_r (v_item dd ''promotions'' (v_list cap_exn) ''snapshot.promotions'') (\<lambda>raw_promotions.
     bind_r (v_item dd ''identity'' (\<lambda>v _. resource_identity_from_dict v) ''identity'') (\<lambda>identity.
     bind_r (v_item dd ''observed_at'' (v_ts cap_exn) ''snapshot.observed_at'') (\<lambda>observed_at.
     bind_r (v_item dd ''health'' (\<lambda>v _. health_from_dict v) ''health'') (\<lambda>health.
     bind_r (traverse quota_fact_from_dict raw_facts) (\<lambda>facts.
     bind_r (traverse promotion_from_dict raw_promotions) (\<lambda>promotions.
     bind_r (v_item dd ''schema_version'' (v_int cap_exn None None) ''schema_version'') (\<lambda>sv.
       mk_resource_snapshot \<lparr>rs_schema_version = sv, rs_identity = identity, rs_observed_at = observed_at,
         rs_health = health, rs_quota_facts = facts, rs_promotions = promotions\<rparr>)))))))))"

definition resource_snapshot_to_dict :: "resource_state_snapshot \<Rightarrow> pyval" where
  "resource_snapshot_to_dict s =
     obj [(''schema_version'', Some (PInt (rs_schema_version s))),
          (''identity'', Some (resource_identity_to_dict (rs_identity s))),
          (''observed_at'', Some (PStr (rs_observed_at s))),
          (''health'', Some (health_to_dict (rs_health s))),
          (''quota_facts'', Some (PList (map quota_fact_to_dict (rs_quota_facts s)))),
          (''promotions'', Some (PList (map promotion_to_dict (rs_promotions s))))]"

definition resource_snapshot_validate :: "resource_state_snapshot \<Rightarrow> resource_state_snapshot result" where
  "resource_snapshot_validate s = resource_snapshot_from_dict (resource_snapshot_to_dict s)"

definition resource_snapshot_parts :: "resource_state_snapshot \<Rightarrow> bool" where
  "resource_snapshot_parts s =
     (valid_resource_identity (rs_identity s) \<and> valid_health (rs_health s)
      \<and> list_all valid_quota_fact (rs_quota_facts s) \<and> list_all valid_promotion (rs_promotions s))"

definition valid_resource_snapshot :: "resource_state_snapshot \<Rightarrow> bool" where
  "valid_resource_snapshot s =
     (rs_schema_version s = 1 \<and> ts_ok (rs_observed_at s) \<and> resource_snapshot_parts s
      \<and> sorted (map quota_fact_sort_key (rs_quota_facts s))
      \<and> sorted (map promotion_sort_key (rs_promotions s)))"

lemma mk_resource_snapshot_Inr [valid_simps]:
  "resource_snapshot_parts s \<Longrightarrow>
   mk_resource_snapshot s = Inr s' \<longleftrightarrow> s' = s \<and> valid_resource_snapshot s"
  by (auto simp: mk_resource_snapshot_def valid_resource_snapshot_def key_sorted_iff
      RESOURCE_STATE_SCHEMA_VERSION_def result_simps valid_simps)

interpretation resource_snapshot_contract:
  contract resource_snapshot_parts valid_resource_snapshot mk_resource_snapshot
    resource_snapshot_from_dict resource_snapshot_to_dict
proof unfold_locales
  fix r d
  show "resource_snapshot_from_dict d = Inr r \<Longrightarrow> valid_resource_snapshot r"
    by (auto simp: resource_snapshot_from_dict_def bind_r_Inr_iff resource_snapshot_parts_def
        mk_resource_snapshot_Inr dest!: quota_fact_contract.list_ok promotion_contract.list_ok
        resource_identity_contract.item_ok health_contract.item_ok)
  show "valid_resource_snapshot r \<Longrightarrow> resource_snapshot_from_dict (resource_snapshot_to_dict r) = Inr r"
    by (cases r) (auto simp: resource_snapshot_from_dict_def resource_snapshot_to_dict_def
        RESOURCE_SNAPSHOT_REQUIRED_def shape_simps result_simps valid_simps resource_snapshot_parts_def
        valid_resource_snapshot_def quota_fact_contract.list_from_to promotion_contract.list_from_to
        resource_identity_contract.from_to health_contract.from_to)
  show "valid_resource_snapshot r \<Longrightarrow> mk_resource_snapshot r = Inr r"
    by (simp add: mk_resource_snapshot_Inr valid_resource_snapshot_def)
qed (simp_all add: mk_resource_snapshot_Inr)

section \<open>The shared normalisation\<close>

definition resource_snapshot_from_capacity ::
  "capacity_snapshot \<Rightarrow> resource_identity \<Rightarrow> promotion_observation list \<Rightarrow> string
    \<Rightarrow> resource_state_snapshot result" where
  "resource_snapshot_from_capacity s identity promotions quota_observation_class =
     bind_r (v_enum cap_exn observation_str OBSERVATION_CLASSES (PStr quota_observation_class)
               ''quota_observation_class'') (\<lambda>oc.
       if sn_provider s \<noteq> ri_provider identity then Inl (cap_exn ''resource_snapshot_from_capacity'')
       else
     bind_r (traverse (\<lambda>w. mk_quota_fact \<lparr>qf_observation_class = oc, qf_window = w\<rparr>) (sn_windows s)) (\<lambda>facts.
     bind_r (mk_health \<lparr>rh_status = sn_status s, rh_diagnostics = sn_diagnostics s\<rparr>) (\<lambda>health.
       mk_resource_snapshot \<lparr>rs_schema_version = RESOURCE_STATE_SCHEMA_VERSION, rs_identity = identity,
         rs_observed_at = sn_retrieved_at s, rs_health = health,
         rs_quota_facts = sort_key quota_fact_sort_key facts,
         rs_promotions = sort_key promotion_sort_key promotions\<rparr>)))"

section \<open>Worker reports\<close>

record worker_state_report =
  wr_schema_version :: int
  wr_worker_id :: string
  wr_reported_at :: string
  wr_resources :: "resource_state_snapshot list"

definition WORKER_REPORT_SCHEMA_VERSION :: int where "WORKER_REPORT_SCHEMA_VERSION = 1"

definition check_reported :: "string \<Rightarrow> resource_state_snapshot \<Rightarrow> unit result" where
  "check_reported reported_at s =
     (if ri_channel (rs_identity s) \<notin> set WORKER_REPORTABLE_CHANNELS then Inl (cap_exn ''worker_report'')
      else if age_ms reported_at (rs_observed_at s) < 0 then Inl (cap_exn ''worker_report'')
      else Inr ())"

definition mk_worker_report :: "worker_state_report \<Rightarrow> worker_state_report result" where
  "mk_worker_report r =
     (if wr_schema_version r \<noteq> WORKER_REPORT_SCHEMA_VERSION then Inl (cap_exn ''schema_version'')
      else
     bind_r (v_safe_id cap_exn (PStr (wr_worker_id r)) ''worker_report.worker_id'') (\<lambda>_.
     bind_r (v_ts cap_exn (PStr (wr_reported_at r)) ''worker_report.reported_at'') (\<lambda>_.
     bind_r (v_sorted_unique (map (\<lambda>s. ri_resource_id (rs_identity s)) (wr_resources r))
               ''worker_report.resources'') (\<lambda>_.
     bind_r (each (check_reported (wr_reported_at r)) (wr_resources r)) (\<lambda>_.
       Inr r)))))"

definition worker_report_from_dict :: "pyval \<Rightarrow> worker_state_report result" where
  "worker_report_from_dict d =
     bind_r (v_exact_shape cap_exn d [''schema_version'', ''worker_id'', ''reported_at'', ''resources''] []
               ''worker_state_report'') (\<lambda>dd.
     bind_r (v_item dd ''resources'' (v_list cap_exn) ''worker_report.resources'') (\<lambda>raw.
     bind_r (v_item dd ''worker_id'' (v_safe_id cap_exn) ''worker_report.worker_id'') (\<lambda>worker_id.
     bind_r (v_item dd ''reported_at'' (v_ts cap_exn) ''worker_report.reported_at'') (\<lambda>reported_at.
     bind_r (traverse resource_snapshot_from_dict raw) (\<lambda>resources.
     bind_r (v_item dd ''schema_version'' (v_int cap_exn None None) ''schema_version'') (\<lambda>sv.
       mk_worker_report \<lparr>wr_schema_version = sv, wr_worker_id = worker_id,
         wr_reported_at = reported_at, wr_resources = resources\<rparr>))))))"

definition worker_report_to_dict :: "worker_state_report \<Rightarrow> pyval" where
  "worker_report_to_dict r =
     obj [(''schema_version'', Some (PInt (wr_schema_version r))),
          (''worker_id'', Some (PStr (wr_worker_id r))),
          (''reported_at'', Some (PStr (wr_reported_at r))),
          (''resources'', Some (PList (map resource_snapshot_to_dict (wr_resources r))))]"

definition worker_report_validate :: "worker_state_report \<Rightarrow> worker_state_report result" where
  "worker_report_validate r = worker_report_from_dict (worker_report_to_dict r)"

definition worker_report_parts :: "worker_state_report \<Rightarrow> bool" where
  "worker_report_parts r = list_all valid_resource_snapshot (wr_resources r)"

definition valid_worker_report :: "worker_state_report \<Rightarrow> bool" where
  "valid_worker_report r =
     (wr_schema_version r = 1 \<and> safe_id_match (wr_worker_id r) \<and> ts_ok (wr_reported_at r)
      \<and> worker_report_parts r
      \<and> sorted (map (\<lambda>s. ri_resource_id (rs_identity s)) (wr_resources r))
      \<and> distinct (map (\<lambda>s. ri_resource_id (rs_identity s)) (wr_resources r))
      \<and> list_all (\<lambda>s. ri_channel (rs_identity s) \<in> set WORKER_REPORTABLE_CHANNELS
            \<and> rs_observed_at s \<le> wr_reported_at r) (wr_resources r))"

lemma check_reported_ok:
  "ts_ok t \<Longrightarrow> list_all valid_resource_snapshot ss \<Longrightarrow>
   list_all (\<lambda>s. check_reported t s = Inr ()) ss \<longleftrightarrow>
   list_all (\<lambda>s. ri_channel (rs_identity s) \<in> set WORKER_REPORTABLE_CHANNELS \<and> rs_observed_at s \<le> t) ss"
  using age_nonneg_iff [of _ t]
  by (auto simp: list_all_iff check_reported_def valid_resource_snapshot_def not_less [symmetric])

lemma mk_worker_report_Inr [valid_simps]:
  "worker_report_parts r \<Longrightarrow> mk_worker_report r = Inr r' \<longleftrightarrow> r' = r \<and> valid_worker_report r"
  using check_reported_ok [of "wr_reported_at r" "wr_resources r"]
  by (auto simp: mk_worker_report_def valid_worker_report_def worker_report_parts_def
      WORKER_REPORT_SCHEMA_VERSION_def result_simps valid_simps)

interpretation worker_report_contract:
  contract worker_report_parts valid_worker_report mk_worker_report worker_report_from_dict
    worker_report_to_dict
proof unfold_locales
  fix r d
  show "worker_report_from_dict d = Inr r \<Longrightarrow> valid_worker_report r"
    by (auto simp: worker_report_from_dict_def bind_r_Inr_iff worker_report_parts_def
        mk_worker_report_Inr dest!: resource_snapshot_contract.list_ok)
  show "valid_worker_report r \<Longrightarrow> worker_report_from_dict (worker_report_to_dict r) = Inr r"
    by (cases r) (auto simp: worker_report_from_dict_def worker_report_to_dict_def shape_simps
        result_simps valid_simps worker_report_parts_def valid_worker_report_def
        resource_snapshot_contract.list_from_to simp del: mk_worker_report_Inr
        simp: mk_worker_report_Inr)
  show "valid_worker_report r \<Longrightarrow> mk_worker_report r = Inr r"
    by (simp add: mk_worker_report_Inr valid_worker_report_def)
qed (simp_all add: mk_worker_report_Inr)

section \<open>What normalisation and the output rule guarantee\<close>

definition known_limits :: "execution_capabilities \<Rightarrow> int option \<Rightarrow> bool \<Rightarrow> int set" where
  \<comment> \<open>the limits that are known: the channel's, and the variant's once it is resolved\<close>
  "known_limits c hard r = set_option (ec_output_limit_tokens c) \<union> (if r then set_option hard else {})"

lemma route_output_cases:
  "route_output_code c hard (Some n) r e =
    (if known_limits c hard r = {} then Some Output_limit_unknown
     else if \<exists>k \<in> known_limits c hard r. k < n then Some Output_limit_insufficient
     else if e \<and> ec_output_limit_control c = Some False \<and> \<not> (r \<and> hard \<noteq> None \<and> the hard \<le> n)
       then Some Output_limit_unenforceable else None)"
proof -
  let ?ks = "known_output_limits c hard r"
  have ks: "set ?ks = known_limits c hard r" by (simp add: known_limits_def)
  then have ne: "?ks = [] \<longleftrightarrow> known_limits c hard r = {}" by (metis set_empty)
  have lt: "?ks \<noteq> [] \<Longrightarrow> py_min ?ks < n \<longleftrightarrow> (\<exists>k \<in> known_limits c hard r. k < n)"
    using py_min_less [of ?ks n] ks by simp
  have hd: "(\<not> r \<or> hard = None \<or> (case hard of None \<Rightarrow> False | Some h \<Rightarrow> n < h)) \<longleftrightarrow>
    \<not> (r \<and> hard \<noteq> None \<and> the hard \<le> n)"
    by (cases hard) auto
  show ?thesis
    unfolding route_output_code_def option.case Let_def hd
    by (cases "?ks = []") (simp_all only: ne lt if_True if_False refl simp_thms)
qed

lemma hard_is_least:
  "\<forall>k \<in> known_limits c hard r. n \<le> k \<Longrightarrow>
   (r \<and> hard \<noteq> None \<and> the hard \<le> n) = (r \<and> hard = Some n)"
  by (cases hard) (auto simp: known_limits_def)

lemma route_output_code_spec_parts:
  "route_output_code c hard None r e = None"
  "route_output_code c hard (Some n) r e = None \<longleftrightarrow>
     known_limits c hard r \<noteq> {} \<and> (\<forall>k \<in> known_limits c hard r. n \<le> k)
     \<and> (e \<and> ec_output_limit_control c = Some False \<longrightarrow> r \<and> hard = Some n)"
  "route_output_code c hard (Some n) r e = Some Output_limit_unknown \<longleftrightarrow> known_limits c hard r = {}"
  "route_output_code c hard (Some n) r e = Some Output_limit_insufficient \<longleftrightarrow>
     (\<exists>k \<in> known_limits c hard r. k < n)"
proof -
  show "route_output_code c hard None r e = None" by (simp add: route_output_code_def)
  show "route_output_code c hard (Some n) r e = Some Output_limit_unknown \<longleftrightarrow> known_limits c hard r = {}"
    "route_output_code c hard (Some n) r e = Some Output_limit_insufficient \<longleftrightarrow>
     (\<exists>k \<in> known_limits c hard r. k < n)"
    unfolding route_output_cases by auto
  let ?le = "\<forall>k \<in> known_limits c hard r. n \<le> k"
  have ex: "(\<exists>k \<in> known_limits c hard r. k < n) \<longleftrightarrow> \<not> ?le" by (auto simp: not_le)
  show "route_output_code c hard (Some n) r e = None \<longleftrightarrow>
     known_limits c hard r \<noteq> {} \<and> ?le
     \<and> (e \<and> ec_output_limit_control c = Some False \<longrightarrow> r \<and> hard = Some n)"
  proof (cases ?le)
    case True
    show ?thesis unfolding route_output_cases ex hard_is_least [OF True] using True by simp
  next
    case False
    then show ?thesis unfolding route_output_cases ex by (simp only: simp_thms if_True) simp
  qed
qed

text \<open>
  C32: A route is admitted for a requested output exactly when nothing was requested, or some limit is
  known, every known limit accommodates the request and - on a channel that is known not to carry
  limits, when the limit has to be enforced - the request is exactly the proven hard maximum of the
  resolved variant. An unknown limit alone is never an admission, and the two failures are told
  apart: insufficient when a known limit is below the request, unenforceable otherwise.
\<close>

theorem route_output_code_spec:
  "route_output_code c hard None r e = None
   \<and> (route_output_code c hard (Some n) r e = None \<longleftrightarrow>
       known_limits c hard r \<noteq> {} \<and> (\<forall>k \<in> known_limits c hard r. n \<le> k)
       \<and> (e \<and> ec_output_limit_control c = Some False \<longrightarrow> r \<and> hard = Some n))
   \<and> (route_output_code c hard (Some n) r e = Some Output_limit_unknown \<longleftrightarrow> known_limits c hard r = {})
   \<and> (route_output_code c hard (Some n) r e = Some Output_limit_insufficient \<longleftrightarrow>
       (\<exists>k \<in> known_limits c hard r. k < n))"
  by (intro conjI route_output_code_spec_parts)


lemma traverse_quota_facts:
  "traverse (\<lambda>w. mk_quota_fact \<lparr>qf_observation_class = oc, qf_window = w\<rparr>) ws =
     Inr (map (\<lambda>w. \<lparr>qf_observation_class = oc, qf_window = w\<rparr>) ws)"
  by (rule traverse_total) (simp add: mk_quota_fact_Inr)

lemma set_map_mset_window:
  "mset (map qf_window (sort_key k (map (\<lambda>w. \<lparr>qf_observation_class = oc, qf_window = w\<rparr>) ws))) = mset ws"
  by (simp add: mset_map multiset.map_comp comp_def)

definition normalised :: "capacity_snapshot \<Rightarrow> resource_identity \<Rightarrow> promotion_observation list
    \<Rightarrow> observation_class \<Rightarrow> resource_state_snapshot" where
  "normalised s identity promotions oc =
     \<lparr>rs_schema_version = 1, rs_identity = identity, rs_observed_at = sn_retrieved_at s,
      rs_health = \<lparr>rh_status = sn_status s, rh_diagnostics = sn_diagnostics s\<rparr>,
      rs_quota_facts = sort_key quota_fact_sort_key
        (map (\<lambda>w. \<lparr>qf_observation_class = oc, qf_window = w\<rparr>) (sn_windows s)),
      rs_promotions = sort_key promotion_sort_key promotions\<rparr>"

lemma health_diagnostic_same [simp]: "health_required_diagnostic s = status_required_code s"
  by (cases s) simp_all

lemma normalised_valid:
  assumes "valid_snapshot s" "valid_resource_identity i" "list_all valid_promotion ps"
    and "sorted (map diagnostic_sort_key (sn_diagnostics s))"
  shows "valid_resource_snapshot (normalised s i ps oc)"
  using assms
  by (auto simp: valid_resource_snapshot_def resource_snapshot_parts_def normalised_def valid_snapshot_def
      valid_health_def health_parts_def valid_quota_fact_def list_all_iff)

lemma normalise_run:
  assumes "valid_snapshot s" "valid_resource_identity i" "list_all valid_promotion ps"
  shows "resource_snapshot_from_capacity s i ps (observation_str oc) =
    (if sn_provider s \<noteq> ri_provider i then Inl (cap_exn ''resource_snapshot_from_capacity'')
     else if \<not> sorted (map diagnostic_sort_key (sn_diagnostics s)) then Inl (cap_exn ''health.diagnostics'')
     else Inr (normalised s i ps oc))"
proof (cases "sn_provider s = ri_provider i \<and> sorted (map diagnostic_sort_key (sn_diagnostics s))")
  case True
  let ?h = "\<lparr>rh_status = sn_status s, rh_diagnostics = sn_diagnostics s\<rparr>"
  have n: "valid_resource_snapshot (normalised s i ps oc)" using normalised_valid assms True by blast
  then have "valid_health ?h" by (simp add: valid_resource_snapshot_def resource_snapshot_parts_def normalised_def)
  then have h: "mk_health ?h = Inr ?h" by (rule health_contract.ok_mk)
  have "mk_resource_snapshot (normalised s i ps oc) = Inr (normalised s i ps oc)"
    using n by (rule resource_snapshot_contract.ok_mk)
  then show ?thesis
    using True h by (simp add: resource_snapshot_from_capacity_def traverse_quota_facts normalised_def
        RESOURCE_STATE_SCHEMA_VERSION_def)
next
  case False
  then show ?thesis
    by (auto simp: resource_snapshot_from_capacity_def traverse_quota_facts mk_health_def key_sorted_iff)
qed

lemma normalisation_preserves_parts:
  assumes "valid_snapshot s" "valid_resource_identity i" "list_all valid_promotion ps"
  shows "(\<exists>o'. resource_snapshot_from_capacity s i ps (observation_str oc) = Inr o') \<longleftrightarrow>
      sn_provider s = ri_provider i \<and> sorted (map diagnostic_sort_key (sn_diagnostics s))"
    and "resource_snapshot_from_capacity s i ps (observation_str oc) = Inr o' \<Longrightarrow>
      valid_resource_snapshot o' \<and> rs_identity o' = i \<and> rs_observed_at o' = sn_retrieved_at s
      \<and> rh_status (rs_health o') = sn_status s \<and> rh_diagnostics (rs_health o') = sn_diagnostics s
      \<and> mset (map qf_window (rs_quota_facts o')) = mset (sn_windows s)
      \<and> (\<forall>f \<in> set (rs_quota_facts o'). qf_observation_class f = oc)
      \<and> mset (rs_promotions o') = mset ps"
proof -
  note run = normalise_run [OF assms, of oc]
  show "(\<exists>o'. resource_snapshot_from_capacity s i ps (observation_str oc) = Inr o') \<longleftrightarrow>
      sn_provider s = ri_provider i \<and> sorted (map diagnostic_sort_key (sn_diagnostics s))"
    unfolding run by simp
  assume "resource_snapshot_from_capacity s i ps (observation_str oc) = Inr o'"
  then have o': "o' = normalised s i ps oc" and "sorted (map diagnostic_sort_key (sn_diagnostics s))"
    unfolding run by (simp_all split: if_splits)
  with assms have "valid_resource_snapshot o'" by (simp add: normalised_valid)
  with o' show "valid_resource_snapshot o' \<and> rs_identity o' = i \<and> rs_observed_at o' = sn_retrieved_at s
      \<and> rh_status (rs_health o') = sn_status s \<and> rh_diagnostics (rs_health o') = sn_diagnostics s
      \<and> mset (map qf_window (rs_quota_facts o')) = mset (sn_windows s)
      \<and> (\<forall>f \<in> set (rs_quota_facts o'). qf_observation_class f = oc)
      \<and> mset (rs_promotions o') = mset ps"
    using set_map_mset_window [of quota_fact_sort_key oc "sn_windows s"]
    by (auto simp: normalised_def)
qed

text \<open>
  Normalising a valid capacity snapshot keeps its status, its diagnostics, its observation time and
  exactly its windows, each under the given observation class, in a valid observation whatever the
  order of the windows. It fails exactly on a provider mismatch and on a snapshot whose diagnostics
  are not in canonical order, which capacity.py does not require.
\<close>

theorem normalisation_preserves:
  assumes "valid_snapshot s" "valid_resource_identity i" "list_all valid_promotion ps"
  shows "((\<exists>ob. resource_snapshot_from_capacity s i ps (observation_str oc) = Inr ob) \<longleftrightarrow>
      sn_provider s = ri_provider i \<and> sorted (map diagnostic_sort_key (sn_diagnostics s)))
    \<and> (\<forall>ob. resource_snapshot_from_capacity s i ps (observation_str oc) = Inr ob \<longrightarrow>
      valid_resource_snapshot ob \<and> rs_identity ob = i \<and> rs_observed_at ob = sn_retrieved_at s
      \<and> rh_status (rs_health ob) = sn_status s \<and> rh_diagnostics (rs_health ob) = sn_diagnostics s
      \<and> mset (map qf_window (rs_quota_facts ob)) = mset (sn_windows s)
      \<and> (\<forall>f \<in> set (rs_quota_facts ob). qf_observation_class f = oc)
      \<and> mset (rs_promotions ob) = mset ps)"
  using normalisation_preserves_parts [OF assms, of oc] by blast


definition capped_channel :: execution_capabilities where
  "capped_channel = unknown_capabilities
     \<lparr>ec_output_limit_tokens := Some 8192, ec_output_limit_control := Some False\<rparr>"

theorem route_output_code_spec_witness:
  "route_output_code capped_channel (Some 4096) (Some 4096) True True = None
   \<and> route_output_code capped_channel (Some 4096) (Some 4000) True True \<noteq> None
   \<and> route_output_code capped_channel (Some 4096) (Some 9000) True True = Some Output_limit_insufficient"
  using route_output_code_spec [of capped_channel "Some 4096" True True 4096]
    route_output_code_spec [of capped_channel "Some 4096" True True 4000]
    route_output_code_spec [of capped_channel "Some 4096" True True 9000]
  by (simp add: known_limits_def capped_channel_def)

definition sample_window :: "window_kind \<Rightarrow> int \<Rightarrow> string option \<Rightarrow> capacity_window" where
  "sample_window kind used resets = \<lparr>w_resource = Res_tokens, w_kind = kind, w_scope_id = None,
     w_duration_seconds = kind_duration kind, w_used_percent = Some used,
     w_remaining_percent = Some (100 - used), w_resets_at = resets, w_window_id = None\<rparr>"

definition sample_capacity :: capacity_snapshot where
  "sample_capacity = \<lparr>sn_schema_version = 3, sn_provider = ''acme'', sn_source = ''api'',
     sn_retrieved_at = ''2026-03-01T10:00:00.000Z'', sn_status = St_ok,
     sn_windows = [sample_window Kind_weekly 40 None,
       sample_window Kind_five_hour 90 (Some ''2026-03-01T12:00:00.000Z'')],
     sn_diagnostics = [], sn_plan = None\<rparr>"

definition sample_resource :: "string list \<Rightarrow> resource_identity" where
  "sample_resource pools = \<lparr>ri_resource_id = ''r1'', ri_channel = Ch_server_direct_http,
     ri_provider = ''acme'', ri_model = ''big'', ri_entitlement = En_payg_metered, ri_variant = None,
     ri_quota_pool_ids = pools\<rparr>"

lemma sample_capacity_valid: "valid_snapshot sample_capacity"
  by code_simp

lemma sample_resource_valid: "valid_resource_identity (sample_resource [])"
  by code_simp

theorem normalisation_preserves_witness:
  "\<exists>o'. resource_snapshot_from_capacity sample_capacity (sample_resource []) [] ''provider_telemetry'' = Inr o'
     \<and> mset (map qf_window (rs_quota_facts o')) = mset (sn_windows sample_capacity)"
proof -
  note n = normalisation_preserves [OF sample_capacity_valid sample_resource_valid, of "[]" Ob_provider_telemetry,
    simplified]
  have "sn_provider sample_capacity = ri_provider (sample_resource [])"
    "sorted (map diagnostic_sort_key (sn_diagnostics sample_capacity))"
    by (simp_all add: sample_capacity_def sample_resource_def)
  with n [THEN conjunct1] obtain o' where
    "resource_snapshot_from_capacity sample_capacity (sample_resource []) [] ''provider_telemetry'' = Inr o'"
    by blast
  with n [THEN conjunct2] show ?thesis unfolding mset_map by blast
qed

end
