(* ===== verification/Resource_Registry.thy ===== *)
theory Resource_Registry
  imports Resource_Types "HOL-Library.AList"
begin

text \<open>
  resource_state.py, the registry: the read model (registry entries, quota-pool groups, registry
  snapshots), administrator registrations, the freshness rule and the in-memory \<open>ResourceRegistry\<close>.

  The registry is a record of two dictionaries (association lists in insertion order) and the
  revision. A mutating operation returns its result together with the registry it leaves behind, so
  that what a raised exception leaves unchanged is a statement about the code. The injected clock is
  an argument: the readings the operation takes, in order; a clock is documented to produce canonical
  timestamps.
\<close>

section \<open>Registry entries\<close>

definition identity_observation_key ::
  "resource_identity \<Rightarrow> string \<times> execution_channel \<times> string \<times> string \<times> entitlement_class \<times> string option" where
  "identity_observation_key i =
     (ri_resource_id i, ri_channel i, ri_provider i, ri_model i, ri_entitlement i, ri_variant i)"

lemma identity_key_pools:
  "identity_observation_key i = identity_observation_key j \<Longrightarrow>
   ri_quota_pool_ids i = ri_quota_pool_ids j \<Longrightarrow> i = j"
  by (cases i; cases j) (simp add: identity_observation_key_def)

record resource_registry_entry =
  rn_identity :: resource_identity
  rn_freshness_ttl_seconds :: int
  rn_poll_interval_seconds :: "int option"
  rn_capabilities :: execution_capabilities
  rn_cost :: "resource_cost option"
  rn_observation :: "resource_state_snapshot option"
  rn_freshness :: freshness_state
  rn_refresh_due :: bool

definition v_poll :: "pyval \<Rightarrow> string \<Rightarrow> int option result" where
  "v_poll = v_opt (v_int cap_exn (Some 1) None)"

definition match_observation ::
  "resource_identity \<Rightarrow> resource_state_snapshot option \<Rightarrow> string \<Rightarrow> unit result" where
  "match_observation identity observation label =
     (case observation of
        None \<Rightarrow> Inr ()
      | Some ob \<Rightarrow>
          if identity_observation_key (rs_identity ob) \<noteq> identity_observation_key identity
          then Inl (cap_exn label) else Inr ())"

definition mk_registry_entry :: "resource_registry_entry \<Rightarrow> resource_registry_entry result" where
  "mk_registry_entry e =
     bind_r (v_int cap_exn (Some 1) None (PInt (rn_freshness_ttl_seconds e))
               ''registry_entry.freshness_ttl_seconds'') (\<lambda>_.
     bind_r (v_poll (opt_py PInt (rn_poll_interval_seconds e)) ''registry_entry.poll_interval_seconds'') (\<lambda>_.
     bind_r (match_observation (rn_identity e) (rn_observation e) ''registry_entry'') (\<lambda>_.
       if rn_observation e = None \<and> rn_freshness e \<noteq> Fr_never_observed then Inl (cap_exn ''registry_entry'')
       else if rn_observation e \<noteq> None \<and> rn_freshness e = Fr_never_observed
         then Inl (cap_exn ''registry_entry'')
       else Inr e)))"

definition registry_entry_from_dict :: "pyval \<Rightarrow> resource_registry_entry result" where
  "registry_entry_from_dict d =
     bind_r (v_exact_shape cap_exn d
               [''identity'', ''freshness_ttl_seconds'', ''observation'', ''freshness'', ''refresh_due'']
               [''poll_interval_seconds'', ''capabilities'', ''cost''] ''registry_entry'') (\<lambda>dd.
     bind_r (v_item dd ''identity'' (\<lambda>v _. resource_identity_from_dict v) ''identity'') (\<lambda>identity.
     bind_r (v_poll (py_get dd ''poll_interval_seconds'') ''registry_entry.poll_interval_seconds'') (\<lambda>poll.
     bind_r (v_opt (\<lambda>v _. capabilities_from_dict v) (py_get dd ''capabilities'') ''capabilities'') (\<lambda>caps.
     bind_r (v_opt (\<lambda>v _. cost_from_dict v) (py_get dd ''cost'') ''cost'') (\<lambda>cost.
     bind_r (v_item dd ''observation'' (v_opt (\<lambda>v _. resource_snapshot_from_dict v)) ''observation'') (\<lambda>ob.
     bind_r (v_item dd ''freshness'' (v_enum cap_exn freshness_str FRESHNESS_STATES)
               ''registry_entry.freshness'') (\<lambda>freshness.
     bind_r (v_item dd ''freshness_ttl_seconds'' (v_int cap_exn (Some 1) None)
               ''registry_entry.freshness_ttl_seconds'') (\<lambda>ttl.
     bind_r (match_observation identity ob ''registry_entry'') (\<lambda>_.
     bind_r (v_item dd ''refresh_due'' (v_bool cap_exn) ''registry_entry.refresh_due'') (\<lambda>due.
       mk_registry_entry \<lparr>rn_identity = identity, rn_freshness_ttl_seconds = ttl,
         rn_poll_interval_seconds = poll,
         rn_capabilities = (case caps of None \<Rightarrow> unknown_capabilities | Some c \<Rightarrow> c),
         rn_cost = cost, rn_observation = ob, rn_freshness = freshness,
         rn_refresh_due = due\<rparr>))))))))))"

definition registry_entry_to_dict :: "resource_registry_entry \<Rightarrow> pyval" where
  "registry_entry_to_dict e = (let caps = capabilities_to_dict (rn_capabilities e) in
     obj [(''identity'', Some (resource_identity_to_dict (rn_identity e))),
          (''freshness_ttl_seconds'', Some (PInt (rn_freshness_ttl_seconds e))),
          (''poll_interval_seconds'', map_option PInt (rn_poll_interval_seconds e)),
          (''capabilities'', if caps = PDict [] then None else Some caps),
          (''cost'', map_option cost_to_dict (rn_cost e)),
          (''observation'', Some (opt_py resource_snapshot_to_dict (rn_observation e))),
          (''freshness'', Some (PStr (freshness_str (rn_freshness e)))),
          (''refresh_due'', Some (PBool (rn_refresh_due e)))])"

definition entry_parts :: "resource_registry_entry \<Rightarrow> bool" where
  "entry_parts e =
     (valid_resource_identity (rn_identity e) \<and> valid_capabilities (rn_capabilities e)
      \<and> pred_option valid_cost (rn_cost e) \<and> pred_option valid_resource_snapshot (rn_observation e))"

definition valid_registry_entry :: "resource_registry_entry \<Rightarrow> bool" where
  "valid_registry_entry e =
     (entry_parts e \<and> 1 \<le> rn_freshness_ttl_seconds e
      \<and> pred_option (\<lambda>n. 1 \<le> n) (rn_poll_interval_seconds e)
      \<and> pred_option (\<lambda>ob. identity_observation_key (rs_identity ob)
            = identity_observation_key (rn_identity e)) (rn_observation e)
      \<and> (rn_observation e = None \<longleftrightarrow> rn_freshness e = Fr_never_observed))"

lemma match_observation_Inr [valid_simps]:
  "match_observation i ob l = Inr u \<longleftrightarrow>
     pred_option (\<lambda>x. identity_observation_key (rs_identity x) = identity_observation_key i) ob"
  by (cases ob) (auto simp: match_observation_def)

lemma mk_registry_entry_Inr [valid_simps]:
  "entry_parts e \<Longrightarrow> mk_registry_entry e = Inr e' \<longleftrightarrow> e' = e \<and> valid_registry_entry e"
  by (auto simp: mk_registry_entry_def valid_registry_entry_def v_poll_def result_simps valid_simps)

lemma no_capabilities:
  assumes "valid_capabilities c" "capabilities_to_dict c = PDict []"
  shows "c = unknown_capabilities"
proof -
  have "capabilities_to_dict unknown_capabilities = PDict []"
    by (simp add: capabilities_to_dict_def unknown_capabilities_def obj_def obj_fields_simps)
  then show ?thesis
    using capabilities_contract.same_wire_iff [OF assms(1) unknown_capabilities_valid] assms(2) by simp
qed

lemma capabilities_member:
  assumes "valid_capabilities c"
  shows "v_opt (\<lambda>v fld. capabilities_from_dict v)
      (opt_py (\<lambda>v. v) (if capabilities_to_dict c = PDict [] then None else Some (capabilities_to_dict c))) fld =
    Inr (if capabilities_to_dict c = PDict [] then None else Some c)"
proof (cases "capabilities_to_dict c = PDict []")
  case False
  have "capabilities_to_dict c \<noteq> PNone" by (simp add: capabilities_to_dict_def Let_def)
  with False assms show ?thesis by (auto simp: v_opt_Inr capabilities_contract.from_to)
qed simp

lemma registry_entry_wire:
  assumes "valid_registry_entry e"
  shows "registry_entry_from_dict (registry_entry_to_dict e) = Inr e"
proof -
  have cost: "cost_to_dict c \<noteq> PNone" and snap: "resource_snapshot_to_dict s \<noteq> PNone" for c s
    by (simp_all add: cost_to_dict_def resource_snapshot_to_dict_def)
  have v: "valid_resource_identity (rn_identity e)" "valid_capabilities (rn_capabilities e)"
    "pred_option valid_cost (rn_cost e)" "pred_option valid_resource_snapshot (rn_observation e)"
    using assms by (simp_all add: valid_registry_entry_def entry_parts_def)
  have caps: "capabilities_to_dict (rn_capabilities e) = PDict [] \<longrightarrow> rn_capabilities e = unknown_capabilities"
    using no_capabilities [OF v(2)] by auto
  have mk: "mk_registry_entry e = Inr e"
    using assms by (simp add: valid_registry_entry_def mk_registry_entry_Inr)
  show ?thesis
    using assms mk caps
    by (cases e) (simp add: registry_entry_from_dict_def registry_entry_to_dict_def Let_def shape_simps
        result_simps valid_simps v_poll_def valid_registry_entry_def entry_parts_def
        resource_identity_contract.from_to capabilities_member cost_contract.opt_from_to [OF _ cost]
        resource_snapshot_contract.opt_from_to [OF _ snap])
qed

interpretation registry_entry_contract:
  contract entry_parts valid_registry_entry mk_registry_entry registry_entry_from_dict registry_entry_to_dict
proof unfold_locales
  fix r d
  show "registry_entry_from_dict d = Inr r \<Longrightarrow> valid_registry_entry r"
    by (auto simp: registry_entry_from_dict_def bind_r_Inr_iff v_item_Inr entry_parts_def
        mk_registry_entry_Inr split: option.splits dest!: resource_identity_contract.parsed_ok
        capabilities_contract.opt_ok cost_contract.opt_ok resource_snapshot_contract.opt_ok)
  show "valid_registry_entry r \<Longrightarrow> mk_registry_entry r = Inr r"
    by (simp add: mk_registry_entry_Inr valid_registry_entry_def)
qed (simp_all add: mk_registry_entry_Inr registry_entry_wire)

section \<open>Quota pools\<close>

record quota_pool_group =
  qp_pool_id :: string
  qp_resource_ids :: "string list"

definition mk_pool_group :: "quota_pool_group \<Rightarrow> quota_pool_group result" where
  "mk_pool_group g =
     bind_r (v_safe_id cap_exn (PStr (qp_pool_id g)) ''quota_pool_group.pool_id'') (\<lambda>_.
     bind_r (traverse (\<lambda>v. v_safe_id cap_exn v ''quota_pool_group.resource_ids'')
               (map PStr (qp_resource_ids g))) (\<lambda>members.
     bind_r (v_sorted_unique members ''quota_pool_group.resource_ids'') (\<lambda>_.
       if members = [] then Inl (cap_exn ''quota_pool_group'') else Inr g)))"

definition pool_group_from_dict :: "pyval \<Rightarrow> quota_pool_group result" where
  "pool_group_from_dict d =
     bind_r (v_exact_shape cap_exn d [''pool_id'', ''resource_ids''] [] ''quota_pool_group'') (\<lambda>dd.
     bind_r (v_item dd ''resource_ids'' (v_list cap_exn) ''quota_pool_group.resource_ids'') (\<lambda>raw.
     bind_r (v_item dd ''pool_id'' (v_safe_id cap_exn) ''quota_pool_group.pool_id'') (\<lambda>pool_id.
     bind_r (traverse (\<lambda>v. v_safe_id cap_exn v ''quota_pool_group.resource_ids'') raw) (\<lambda>members.
       mk_pool_group \<lparr>qp_pool_id = pool_id, qp_resource_ids = members\<rparr>))))"

definition pool_group_to_dict :: "quota_pool_group \<Rightarrow> pyval" where
  "pool_group_to_dict g =
     obj [(''pool_id'', Some (PStr (qp_pool_id g))),
          (''resource_ids'', Some (PList (map PStr (qp_resource_ids g))))]"

definition valid_pool_group :: "quota_pool_group \<Rightarrow> bool" where
  "valid_pool_group g =
     (safe_id_match (qp_pool_id g) \<and> list_all safe_id_match (qp_resource_ids g)
      \<and> sorted (qp_resource_ids g) \<and> distinct (qp_resource_ids g) \<and> qp_resource_ids g \<noteq> [])"

lemma mk_pool_group_Inr [valid_simps]: "mk_pool_group g = Inr g' \<longleftrightarrow> g' = g \<and> valid_pool_group g"
  by (auto simp: mk_pool_group_def valid_pool_group_def result_simps valid_simps)

interpretation pool_group_contract:
  contract "\<lambda>_. True" valid_pool_group mk_pool_group pool_group_from_dict pool_group_to_dict
proof unfold_locales
  fix r d
  show "pool_group_from_dict d = Inr r \<Longrightarrow> valid_pool_group r"
    by (auto simp: pool_group_from_dict_def bind_r_Inr_iff mk_pool_group_Inr)
  show "valid_pool_group r \<Longrightarrow> pool_group_from_dict (pool_group_to_dict r) = Inr r"
    by (cases r) (auto simp: pool_group_from_dict_def pool_group_to_dict_def shape_simps result_simps
        valid_simps valid_pool_group_def)
qed (simp_all add: valid_simps)

type_synonym pool_members = "(string \<times> string list) list"

fun add_member :: "string \<Rightarrow> string \<Rightarrow> pool_members \<Rightarrow> pool_members" where
  \<comment> \<open>\<open>derived.setdefault(pool_id, []).append(resource_id)\<close>\<close>
  "add_member pool rid [] = [(pool, [rid])]"
| "add_member pool rid ((p, ms) # rest) =
     (if p = pool then (p, ms @ [rid]) # rest else (p, ms) # add_member pool rid rest)"

definition add_resource :: "resource_identity \<Rightarrow> pool_members \<Rightarrow> pool_members" where
  "add_resource i acc = fold (\<lambda>pool. add_member pool (ri_resource_id i)) (ri_quota_pool_ids i) acc"

definition derive_members :: "resource_identity list \<Rightarrow> pool_members" where
  "derive_members is = fold add_resource is []"

definition pools_of :: "pool_members \<Rightarrow> quota_pool_group list result" where
  \<comment> \<open>\<open>tuple(QuotaPoolGroup(...) for pool_id, members in sorted(derived.items()))\<close>\<close>
  "pools_of members =
     traverse (\<lambda>(pool, ms). mk_pool_group \<lparr>qp_pool_id = pool, qp_resource_ids = sort ms\<rparr>)
       (sort_key fst members)"

section \<open>Registry snapshots\<close>

record registry_snapshot =
  gs_schema_version :: int
  gs_revision :: int
  gs_generated_at :: string
  gs_entries :: "resource_registry_entry list"
  gs_quota_pools :: "quota_pool_group list"

definition REGISTRY_SCHEMA_VERSION :: int where "REGISTRY_SCHEMA_VERSION = 1"

definition entry_id :: "resource_registry_entry \<Rightarrow> string" where
  "entry_id e = ri_resource_id (rn_identity e)"

definition mk_registry_snapshot :: "registry_snapshot \<Rightarrow> registry_snapshot result" where
  "mk_registry_snapshot g =
     (if gs_schema_version g \<noteq> REGISTRY_SCHEMA_VERSION then Inl (cap_exn ''schema_version'')
      else
     bind_r (v_int cap_exn (Some 0) None (PInt (gs_revision g)) ''registry_snapshot.revision'') (\<lambda>_.
     bind_r (v_ts cap_exn (PStr (gs_generated_at g)) ''registry_snapshot.generated_at'') (\<lambda>_.
     bind_r (v_sorted_unique (map entry_id (gs_entries g)) ''registry_snapshot.entries'') (\<lambda>_.
     bind_r (v_sorted_unique (map qp_pool_id (gs_quota_pools g)) ''registry_snapshot.quota_pools'') (\<lambda>_.
     bind_r (pools_of (derive_members (map rn_identity (gs_entries g)))) (\<lambda>expected.
       if expected \<noteq> gs_quota_pools g then Inl (cap_exn ''registry_snapshot.quota_pools'')
       else Inr g))))))"

definition registry_snapshot_from_dict :: "pyval \<Rightarrow> registry_snapshot result" where
  "registry_snapshot_from_dict d =
     bind_r (v_exact_shape cap_exn d
               [''schema_version'', ''revision'', ''generated_at'', ''entries'', ''quota_pools''] []
               ''registry_snapshot'') (\<lambda>dd.
     bind_r (v_item dd ''entries'' (v_list cap_exn) ''registry_snapshot.entries'') (\<lambda>raw_entries.
     bind_r (v_item dd ''quota_pools'' (v_list cap_exn) ''registry_snapshot.quota_pools'') (\<lambda>raw_pools.
     bind_r (v_item dd ''generated_at'' (v_ts cap_exn) ''registry_snapshot.generated_at'') (\<lambda>generated_at.
     bind_r (traverse registry_entry_from_dict raw_entries) (\<lambda>entries.
     bind_r (traverse pool_group_from_dict raw_pools) (\<lambda>pools.
     bind_r (v_item dd ''schema_version'' (v_int cap_exn None None) ''schema_version'') (\<lambda>sv.
     bind_r (guard_r (sv = REGISTRY_SCHEMA_VERSION) (cap_exn ''schema_version'')) (\<lambda>_.
     bind_r (v_item dd ''revision'' (v_int cap_exn (Some 0) None) ''registry_snapshot.revision'') (\<lambda>revision.
       mk_registry_snapshot \<lparr>gs_schema_version = sv, gs_revision = revision,
         gs_generated_at = generated_at, gs_entries = entries, gs_quota_pools = pools\<rparr>)))))))))"

definition registry_snapshot_to_dict :: "registry_snapshot \<Rightarrow> pyval" where
  "registry_snapshot_to_dict g =
     obj [(''schema_version'', Some (PInt (gs_schema_version g))),
          (''revision'', Some (PInt (gs_revision g))),
          (''generated_at'', Some (PStr (gs_generated_at g))),
          (''entries'', Some (PList (map registry_entry_to_dict (gs_entries g)))),
          (''quota_pools'', Some (PList (map pool_group_to_dict (gs_quota_pools g))))]"

definition registry_snapshot_parts :: "registry_snapshot \<Rightarrow> bool" where
  "registry_snapshot_parts g =
     (list_all valid_registry_entry (gs_entries g) \<and> list_all valid_pool_group (gs_quota_pools g))"

definition valid_registry_snapshot :: "registry_snapshot \<Rightarrow> bool" where
  "valid_registry_snapshot g =
     (gs_schema_version g = 1 \<and> 0 \<le> gs_revision g \<and> ts_ok (gs_generated_at g)
      \<and> registry_snapshot_parts g
      \<and> sorted (map entry_id (gs_entries g)) \<and> distinct (map entry_id (gs_entries g))
      \<and> sorted (map qp_pool_id (gs_quota_pools g)) \<and> distinct (map qp_pool_id (gs_quota_pools g))
      \<and> pools_of (derive_members (map rn_identity (gs_entries g))) = Inr (gs_quota_pools g))"

lemma mk_registry_snapshot_Inr [valid_simps]:
  "registry_snapshot_parts g \<Longrightarrow>
   mk_registry_snapshot g = Inr g' \<longleftrightarrow> g' = g \<and> valid_registry_snapshot g"
  by (auto simp: mk_registry_snapshot_def valid_registry_snapshot_def REGISTRY_SCHEMA_VERSION_def
      bind_r_Inr_iff valid_simps)

interpretation registry_snapshot_contract:
  contract registry_snapshot_parts valid_registry_snapshot mk_registry_snapshot
    registry_snapshot_from_dict registry_snapshot_to_dict
proof unfold_locales
  fix r d
  show "registry_snapshot_from_dict d = Inr r \<Longrightarrow> valid_registry_snapshot r"
    by (auto simp: registry_snapshot_from_dict_def bind_r_Inr_iff registry_snapshot_parts_def
        mk_registry_snapshot_Inr dest!: registry_entry_contract.list_ok pool_group_contract.list_ok)
  show mk: "valid_registry_snapshot r \<Longrightarrow> mk_registry_snapshot r = Inr r"
    by (simp add: mk_registry_snapshot_Inr valid_registry_snapshot_def)
  assume v: "valid_registry_snapshot r"
  then have "list_all valid_registry_entry (gs_entries r)" "list_all valid_pool_group (gs_quota_pools r)"
    "gs_schema_version r = 1" "0 \<le> gs_revision r" "ts_ok (gs_generated_at r)"
    by (simp_all add: valid_registry_snapshot_def registry_snapshot_parts_def)
  with mk [OF v] show "registry_snapshot_from_dict (registry_snapshot_to_dict r) = Inr r"
    by (cases r) (simp add: registry_snapshot_from_dict_def registry_snapshot_to_dict_def shape_simps
        result_simps valid_simps REGISTRY_SCHEMA_VERSION_def registry_entry_contract.list_from_to
        pool_group_contract.list_from_to)
qed (simp_all add: mk_registry_snapshot_Inr)

subsection \<open>The derivation of the pools\<close>

definition pool_members_of :: "resource_identity list \<Rightarrow> string \<Rightarrow> string list" where
  "pool_members_of is p = map ri_resource_id (filter (\<lambda>i. p \<in> set (ri_quota_pool_ids i)) is)"

definition derived_pools :: "resource_identity list \<Rightarrow> quota_pool_group list" where
  \<comment> \<open>one group per pool that some identity names, holding the identities that name it\<close>
  "derived_pools is =
     map (\<lambda>p. \<lparr>qp_pool_id = p, qp_resource_ids = sort (pool_members_of is p)\<rparr>)
       (sort (remdups (concat (map ri_quota_pool_ids is))))"

lemma keys_add_member [simp]: "fst ` set (add_member p r m) = insert p (fst ` set m)"
  by (induction p r m rule: add_member.induct) auto

lemma distinct_add_member: "distinct (map fst m) \<Longrightarrow> distinct (map fst (add_member p r m))"
  by (induction p r m rule: add_member.induct) auto

lemma map_of_add_member:
  "map_of (add_member p r m) q =
     (if q = p then Some ((case map_of m q of None \<Rightarrow> [] | Some ms \<Rightarrow> ms) @ [r]) else map_of m q)"
  by (induction p r m rule: add_member.induct) auto

lemma add_resource_keys:
  "distinct (map fst m) \<Longrightarrow> distinct (map fst (add_resource i m))"
  "fst ` set (add_resource i m) = set (ri_quota_pool_ids i) \<union> fst ` set m"
proof -
  have "distinct (map fst m) \<Longrightarrow> distinct (map fst (fold (\<lambda>pool. add_member pool r) ps m))"
    "fst ` set (fold (\<lambda>pool. add_member pool r) ps m) = set ps \<union> fst ` set m" for ps r
    by (induction ps arbitrary: m) (auto simp: distinct_add_member)
  then show "distinct (map fst m) \<Longrightarrow> distinct (map fst (add_resource i m))"
    "fst ` set (add_resource i m) = set (ri_quota_pool_ids i) \<union> fst ` set m"
    by (simp_all add: add_resource_def)
qed

lemma map_of_add_resource:
  assumes "distinct (ri_quota_pool_ids i)"
  shows "map_of (add_resource i m) q =
     (if q \<in> set (ri_quota_pool_ids i)
      then Some ((case map_of m q of None \<Rightarrow> [] | Some ms \<Rightarrow> ms) @ [ri_resource_id i]) else map_of m q)"
proof -
  have "distinct ps \<Longrightarrow> map_of (fold (\<lambda>pool. add_member pool r) ps m) q =
     (if q \<in> set ps then Some ((case map_of m q of None \<Rightarrow> [] | Some ms \<Rightarrow> ms) @ [r]) else map_of m q)"
    for ps r
    by (induction ps arbitrary: m) (auto simp: map_of_add_member)
  with assms show ?thesis by (simp add: add_resource_def)
qed

lemma derive_members_spec:
  assumes "list_all valid_resource_identity is"
  shows "distinct (map fst (derive_members is))"
    and "fst ` set (derive_members is) = set (concat (map ri_quota_pool_ids is))"
    and "map_of (derive_members is) p =
      (if pool_members_of is p = [] then None else Some (pool_members_of is p))"
proof -
  have "distinct (map fst (derive_members is))
    \<and> fst ` set (derive_members is) = set (concat (map ri_quota_pool_ids is))
    \<and> (\<forall>p. map_of (derive_members is) p =
         (if pool_members_of is p = [] then None else Some (pool_members_of is p)))"
    using assms
  proof (induction "is" rule: rev_induct)
    case Nil
    then show ?case by (simp add: derive_members_def pool_members_of_def)
  next
    case (snoc i "is")
    have d: "derive_members (is @ [i]) = add_resource i (derive_members is)"
      by (simp add: derive_members_def)
    have "distinct (ri_quota_pool_ids i)" using snoc.prems by (simp add: valid_resource_identity_def)
    with snoc show ?case
      unfolding d by (auto simp: add_resource_keys map_of_add_resource pool_members_of_def)
  qed
  then show "distinct (map fst (derive_members is))"
    "fst ` set (derive_members is) = set (concat (map ri_quota_pool_ids is))"
    "map_of (derive_members is) p =
      (if pool_members_of is p = [] then None else Some (pool_members_of is p))" by blast+
qed

lemma sorted_items:
  fixes m :: "('k :: linorder \<times> 'v) list"
  assumes "distinct (map fst m)"
  shows "sort_key fst m = map (\<lambda>k. (k, the (map_of m k))) (sort (remdups (map fst m)))"
proof -
  have "map fst (sort_key fst m) = sort (map fst m)"
    by (rule sorted_distinct_set_unique) (use assms in \<open>simp_all add: sorted_sort_key distinct_map\<close>)
  moreover have "map (\<lambda>k. (k, the (map_of m k))) (map fst (sort_key fst m)) = sort_key fst m"
    using assms unfolding map_map by (intro map_idI) (auto simp: map_of_eq_Some_iff)
  ultimately show ?thesis using assms by (simp add: distinct_remdups_id)
qed

lemma sort_empty_iff [simp]: "sort xs = [] \<longleftrightarrow> xs = []"
  by (metis mset_sort mset_zero_iff)

lemma derived_pools_run:
  assumes "list_all valid_resource_identity is" "distinct (map ri_resource_id is)"
  shows "pools_of (derive_members is) = Inr (derived_pools is)"
    and "list_all valid_pool_group (derived_pools is)"
    and "map qp_pool_id (derived_pools is) = sort (remdups (concat (map ri_quota_pool_ids is)))"
proof -
  note d = derive_members_spec [OF assms(1)]
  let ?ps = "sort (remdups (concat (map ri_quota_pool_ids is)))"
  have keys: "sort (remdups (map fst (derive_members is))) = ?ps"
    by (rule sorted_distinct_set_unique) (use d(2) in simp_all)
  have ne: "pool_members_of is p \<noteq> []" if "p \<in> set ?ps" for p
    using that by (auto simp: pool_members_of_def filter_empty_conv)
  have items: "sort_key fst (derive_members is) = map (\<lambda>p. (p, pool_members_of is p)) ?ps"
    unfolding sorted_items [OF d(1)] keys using ne d(3) by simp
  have ok: "valid_pool_group \<lparr>qp_pool_id = p, qp_resource_ids = sort (pool_members_of is p)\<rparr>"
    if "p \<in> set ?ps" for p
    using that ne [OF that] assms
    by (auto simp: valid_pool_group_def pool_members_of_def list_all_iff valid_resource_identity_def
        distinct_map intro: inj_on_subset)
  show "pools_of (derive_members is) = Inr (derived_pools is)"
    unfolding pools_of_def items derived_pools_def
    using ok by (simp add: traverse_Inr_iff list_all2_map1 list_all2_map2 mk_pool_group_Inr
        list_all2_same)
  show "list_all valid_pool_group (derived_pools is)"
    using ok by (auto simp: derived_pools_def list_all_iff)
  show "map qp_pool_id (derived_pools is) = ?ps" by (simp add: derived_pools_def comp_def)
qed

section \<open>Registrations\<close>

record resource_registration =
  rg_identity :: resource_identity
  rg_freshness_ttl_seconds :: int
  rg_poll_interval_seconds :: "int option"
  rg_capabilities :: execution_capabilities
  rg_cost :: "resource_cost option"

definition mk_registration :: "resource_registration \<Rightarrow> resource_registration result" where
  "mk_registration r =
     bind_r (v_int cap_exn (Some 1) None (PInt (rg_freshness_ttl_seconds r))
               ''registration.freshness_ttl_seconds'') (\<lambda>_.
     bind_r (v_poll (opt_py PInt (rg_poll_interval_seconds r)) ''registration.poll_interval_seconds'') (\<lambda>_.
       Inr r))"

definition registration_parts :: "resource_registration \<Rightarrow> bool" where
  "registration_parts r =
     (valid_resource_identity (rg_identity r) \<and> valid_capabilities (rg_capabilities r)
      \<and> pred_option valid_cost (rg_cost r))"

definition valid_registration :: "resource_registration \<Rightarrow> bool" where
  "valid_registration r =
     (registration_parts r \<and> 1 \<le> rg_freshness_ttl_seconds r
      \<and> pred_option (\<lambda>n. 1 \<le> n) (rg_poll_interval_seconds r))"

lemma mk_registration_Inr [valid_simps]:
  "registration_parts r \<Longrightarrow> mk_registration r = Inr r' \<longleftrightarrow> r' = r \<and> valid_registration r"
  by (auto simp: mk_registration_def valid_registration_def v_poll_def result_simps valid_simps)

section \<open>Freshness\<close>

definition window_reset_instants :: "resource_state_snapshot \<Rightarrow> string list result" where
  "window_reset_instants ob =
     traverse (\<lambda>r. v_ts cap_exn (PStr r) ''quota_fact.window.resets_at'')
       (List.map_filter (\<lambda>f. w_resets_at (qf_window f)) (rs_quota_facts ob))"

definition reset_crossed :: "string list \<Rightarrow> string \<Rightarrow> bool" where
  "reset_crossed resets now = list_ex (\<lambda>reset. age_ms now reset \<ge> 0) resets"

definition classify_freshness ::
  "string \<Rightarrow> string \<Rightarrow> int \<Rightarrow> string option \<Rightarrow> freshness_state result" where
  "classify_freshness observed_at now ttl earliest_reset_at =
     bind_r (v_ts cap_exn (PStr observed_at) ''observed_at'') (\<lambda>_.
     bind_r (v_ts cap_exn (PStr now) ''now'') (\<lambda>_.
     bind_r (v_int cap_exn (Some 1) None (PInt ttl) ''freshness_ttl_seconds'') (\<lambda>_.
     bind_r (age_or_reject now observed_at ''classify_freshness'') (\<lambda>age.
       if age > ttl * 1000 then Inr Fr_stale
       else case earliest_reset_at of
         None \<Rightarrow> Inr Fr_fresh
       | Some r \<Rightarrow> bind_r (v_ts cap_exn (PStr r) ''earliest_reset_at'') (\<lambda>_.
           if age_ms now r \<ge> 0 then Inr Fr_stale else Inr Fr_fresh)))))"

section \<open>The registry\<close>

record resource_registry =
  reg_registrations :: "(string \<times> resource_registration) list"
  reg_observations :: "(string \<times> resource_state_snapshot) list"
  reg_revision :: int

definition empty_registry :: resource_registry where
  "empty_registry = \<lparr>reg_registrations = [], reg_observations = [], reg_revision = 0\<rparr>"

type_synonym readings = "nat \<Rightarrow> string"

definition registered :: "resource_registry \<Rightarrow> string \<Rightarrow> resource_registration option" where
  \<comment> \<open>\<open>self._registrations.get(resource_id)\<close>\<close>
  "registered st rid = map_of (reg_registrations st) rid"

definition observed :: "resource_registry \<Rightarrow> string \<Rightarrow> resource_state_snapshot option" where
  "observed st rid = map_of (reg_observations st) rid"

definition is_registered :: "resource_registry \<Rightarrow> string \<Rightarrow> bool" where
  "is_registered st rid = (registered st rid \<noteq> None)"

definition register :: "resource_registration \<Rightarrow> resource_registry \<Rightarrow> unit result \<times> resource_registry" where
  "register r st =
     (let rid = ri_resource_id (rg_identity r) in
      if is_registered st rid then (Inl (cap_exn ''registry''), st)
      else (Inr (), st\<lparr>reg_registrations := AList.update rid r (reg_registrations st),
                       reg_revision := reg_revision st + 1\<rparr>))"

definition checked_observation :: "string \<Rightarrow> resource_registry \<Rightarrow> resource_state_snapshot \<Rightarrow> unit result" where
  "checked_observation reading st s =
     (case registered st (ri_resource_id (rs_identity s)) of
        None \<Rightarrow> Inl (cap_exn ''registry'')
      | Some r \<Rightarrow>
          if identity_observation_key (rs_identity s) \<noteq> identity_observation_key (rg_identity r)
          then Inl (cap_exn ''registry'')
          else bind_r (age_or_reject reading (rs_observed_at s) ''registry'') (\<lambda>_. Inr ()))"

definition canonical_observation ::
  "resource_registry \<Rightarrow> resource_state_snapshot \<Rightarrow> resource_state_snapshot result" where
  \<comment> \<open>the rebuilt snapshot of both mutators when the pool ids differ\<close>
  "canonical_observation st s =
     (case registered st (ri_resource_id (rs_identity s)) of
        None \<Rightarrow> Inr s
      | Some r \<Rightarrow>
          if ri_quota_pool_ids (rs_identity s) \<noteq> ri_quota_pool_ids (rg_identity r)
          then mk_resource_snapshot \<lparr>rs_schema_version = rs_schema_version s,
                 rs_identity = rg_identity r, rs_observed_at = rs_observed_at s,
                 rs_health = rs_health s, rs_quota_facts = rs_quota_facts s,
                 rs_promotions = rs_promotions s\<rparr>
          else Inr s)"

definition store_observation :: "resource_state_snapshot \<Rightarrow> resource_registry \<Rightarrow> resource_registry" where
  "store_observation s st =
     st\<lparr>reg_observations := AList.update (ri_resource_id (rs_identity s)) s (reg_observations st)\<rparr>"

definition bump :: "resource_registry \<Rightarrow> resource_registry" where
  "bump st = st\<lparr>reg_revision := reg_revision st + 1\<rparr>"

definition apply_snapshot ::
  "readings \<Rightarrow> resource_state_snapshot \<Rightarrow> resource_registry \<Rightarrow> unit result \<times> resource_registry" where
  "apply_snapshot clock snapshot st =
     (case canonical_observation st snapshot of
        Inl e \<Rightarrow> (Inl e, st)
      | Inr s \<Rightarrow>
          (case checked_observation (clock 0) st s of
             Inl e \<Rightarrow> (Inl e, st)
           | Inr _ \<Rightarrow> (Inr (), bump (store_observation s st))))"

fun canonical_loop ::
  "readings \<Rightarrow> resource_registry \<Rightarrow> nat \<Rightarrow> resource_state_snapshot list \<Rightarrow> resource_state_snapshot list
    \<Rightarrow> resource_state_snapshot list result" where
  \<comment> \<open>the first loop of \<open>apply_worker_report\<close>; \<open>acc\<close> is \<open>canonical\<close>\<close>
  "canonical_loop clock st k acc [] = Inr acc"
| "canonical_loop clock st k acc (s # rest) =
     bind_r (canonical_observation st s) (\<lambda>c.
     bind_r (checked_observation (clock k) st c) (\<lambda>_.
       canonical_loop clock st (Suc k) (acc @ [c]) rest))"

definition apply_worker_report ::
  "readings \<Rightarrow> worker_state_report \<Rightarrow> resource_registry \<Rightarrow> unit result \<times> resource_registry" where
  "apply_worker_report clock report st =
     (case canonical_loop clock st 0 [] (wr_resources report) of
        Inl e \<Rightarrow> (Inl e, st)
      | Inr canonical \<Rightarrow> (Inr (), bump (fold store_observation canonical st)))"

definition current_instant :: "string option \<Rightarrow> string \<Rightarrow> string result" where
  \<comment> \<open>\<open>self._clock() if now is None else _v_ts(now, "now")\<close>\<close>
  "current_instant now reading =
     (case now of None \<Rightarrow> Inr reading | Some t \<Rightarrow> v_ts cap_exn (PStr t) ''now'')"

definition resource_due ::
  "string \<Rightarrow> resource_registration \<Rightarrow> resource_state_snapshot option \<Rightarrow> string \<Rightarrow> bool result" where
  \<comment> \<open>\<open>_entry_refresh_due\<close> and the body of the loop of \<open>refresh_due\<close>, which differ in the message\<close>
  "resource_due ctx r ob now =
     (case rg_poll_interval_seconds r of
        None \<Rightarrow> Inr False
      | Some poll \<Rightarrow>
          (case ob of
             None \<Rightarrow> Inr True
           | Some s \<Rightarrow>
               bind_r (age_or_reject now (rs_observed_at s) ctx) (\<lambda>age.
                 if age \<ge> poll * 1000 then Inr True
                 else bind_r (window_reset_instants s) (\<lambda>resets. Inr (reset_crossed resets now)))))"

definition refresh_due :: "string option \<Rightarrow> string \<Rightarrow> resource_registry \<Rightarrow> string list result" where
  "refresh_due now reading st =
     bind_r (current_instant now reading) (\<lambda>current.
     bind_r (traverse (\<lambda>rid. bind_r (resource_due ''refresh_due''
                 (the (registered st rid)) (observed st rid) current) (\<lambda>due. Inr (rid, due)))
               (sort (map fst (reg_registrations st)))) (\<lambda>flags.
       Inr (map fst (filter snd flags))))"

definition entry_freshness ::
  "resource_registration \<Rightarrow> resource_state_snapshot option \<Rightarrow> string \<Rightarrow> freshness_state result" where
  "entry_freshness r ob now =
     (case ob of
        None \<Rightarrow> Inr Fr_never_observed
      | Some s \<Rightarrow>
          bind_r (window_reset_instants s) (\<lambda>resets.
            classify_freshness (rs_observed_at s) now (rg_freshness_ttl_seconds r)
              (if resets = [] then None else Some (py_min resets))))"

definition read_entry ::
  "resource_registry \<Rightarrow> string \<Rightarrow> string \<Rightarrow> resource_registry_entry result" where
  \<comment> \<open>the body of the loop of \<open>registry_snapshot\<close>\<close>
  "read_entry st now rid =
     (let r = the (registered st rid); ob = observed st rid in
      bind_r (entry_freshness r ob now) (\<lambda>freshness.
      bind_r (resource_due ''registry read'' r ob now) (\<lambda>due.
        mk_registry_entry \<lparr>rn_identity = rg_identity r,
          rn_freshness_ttl_seconds = rg_freshness_ttl_seconds r,
          rn_poll_interval_seconds = rg_poll_interval_seconds r,
          rn_capabilities = rg_capabilities r, rn_cost = rg_cost r, rn_observation = ob,
          rn_freshness = freshness, rn_refresh_due = due\<rparr>)))"

definition read_registry :: "string option \<Rightarrow> string \<Rightarrow> resource_registry \<Rightarrow> registry_snapshot result" where
  \<comment> \<open>\<open>registry_snapshot\<close>\<close>
  "read_registry now reading st =
     bind_r (current_instant now reading) (\<lambda>generated_at.
     let rids = sort (map fst (reg_registrations st)) in
     bind_r (traverse (read_entry st generated_at) rids) (\<lambda>entries.
     bind_r (pools_of (derive_members (map (\<lambda>rid. rg_identity (the (registered st rid))) rids))) (\<lambda>pools.
       mk_registry_snapshot \<lparr>gs_schema_version = REGISTRY_SCHEMA_VERSION, gs_revision = reg_revision st,
         gs_generated_at = generated_at, gs_entries = entries, gs_quota_pools = pools\<rparr>)))"

section \<open>The registry as a machine\<close>

datatype registry_op =
    Op_register resource_registration
  | Op_snapshot readings resource_state_snapshot
  | Op_report readings worker_state_report

fun run_op :: "registry_op \<Rightarrow> resource_registry \<Rightarrow> unit result \<times> resource_registry" where
  "run_op (Op_register r) = register r"
| "run_op (Op_snapshot clock s) = apply_snapshot clock s"
| "run_op (Op_report clock w) = apply_worker_report clock w"

definition clock_ok :: "readings \<Rightarrow> bool" where
  "clock_ok clock = (\<forall>k. ts_ok (clock k))"

fun op_typed :: "registry_op \<Rightarrow> bool" where
  \<comment> \<open>arguments are constructed objects, clocks produce canonical timestamps\<close>
  "op_typed (Op_register r) = valid_registration r"
| "op_typed (Op_snapshot clock s) = (clock_ok clock \<and> valid_resource_snapshot s)"
| "op_typed (Op_report clock w) = (clock_ok clock \<and> valid_worker_report w)"

inductive registry_reachable :: "resource_registry \<Rightarrow> bool" where
  start: "registry_reachable empty_registry"
| step: "registry_reachable st \<Longrightarrow> op_typed op \<Longrightarrow> registry_reachable (snd (run_op op st))"

definition registry_inv :: "resource_registry \<Rightarrow> bool" where
  "registry_inv st =
     (distinct (map fst (reg_registrations st)) \<and> distinct (map fst (reg_observations st))
      \<and> (\<forall>k r. registered st k = Some r \<longrightarrow> k = ri_resource_id (rg_identity r) \<and> valid_registration r)
      \<and> (\<forall>k s. observed st k = Some s \<longrightarrow> valid_resource_snapshot s
            \<and> (\<exists>r. registered st k = Some r \<and> rs_identity s = rg_identity r))
      \<and> int (length (reg_registrations st)) \<le> reg_revision st)"

lemma registered_update [simp]:
  "registered (st\<lparr>reg_observations := ob\<rparr>) = registered st"
  "registered (st\<lparr>reg_revision := n\<rparr>) = registered st"
  "observed (st\<lparr>reg_revision := n\<rparr>) = observed st"
  "observed (st\<lparr>reg_registrations := rs\<rparr>) = observed st"
  by (simp_all add: registered_def observed_def fun_eq_iff)

lemma registered_store [simp]:
  "registered (store_observation s st) = registered st" "registered (bump st) = registered st"
  "observed (bump st) = observed st"
  "observed (store_observation s st) = (observed st)(ri_resource_id (rs_identity s) \<mapsto> s)"
  by (simp_all add: store_observation_def bump_def observed_def update_conv' fun_eq_iff)

lemma reg_of_store [simp]:
  "reg_registrations (store_observation s st) = reg_registrations st"
  "reg_revision (store_observation s st) = reg_revision st"
  by (simp_all add: store_observation_def)

lemma registered_fold_store [simp]:
  "registered (fold store_observation ss st) = registered st"
  "reg_registrations (fold store_observation ss st) = reg_registrations st"
  "reg_revision (fold store_observation ss st) = reg_revision st"
  by (induction ss arbitrary: st) (simp_all add: store_observation_def)

lemma inv_registered:
  "registry_inv st \<Longrightarrow> registered st k = Some r \<Longrightarrow> k = ri_resource_id (rg_identity r) \<and> valid_registration r"
  by (simp add: registry_inv_def)

lemma inv_observed:
  "registry_inv st \<Longrightarrow> observed st k = Some s \<Longrightarrow>
   valid_resource_snapshot s \<and> (\<exists>r. registered st k = Some r \<and> rs_identity s = rg_identity r)"
  by (simp add: registry_inv_def)

subsection \<open>Which observations are admitted\<close>

definition admits :: "resource_registration \<Rightarrow> string \<Rightarrow> resource_state_snapshot \<Rightarrow> bool" where
  \<comment> \<open>what the two checks amount to: an identity with other pool ids is replaced before it is compared\<close>
  "admits r reading s =
     (rs_observed_at s \<le> reading
      \<and> (ri_quota_pool_ids (rs_identity s) \<noteq> ri_quota_pool_ids (rg_identity r)
         \<or> identity_observation_key (rs_identity s) = identity_observation_key (rg_identity r)))"

abbreviation rehomed :: "resource_registration \<Rightarrow> resource_state_snapshot \<Rightarrow> resource_state_snapshot" where
  "rehomed r s \<equiv> s\<lparr>rs_identity := rg_identity r\<rparr>"

lemma rehomed_valid:
  "valid_registration r \<Longrightarrow> valid_resource_snapshot s \<Longrightarrow> valid_resource_snapshot (rehomed r s)"
  by (simp add: valid_resource_snapshot_def resource_snapshot_parts_def valid_registration_def
      registration_parts_def)

lemma canonical_observation_run:
  assumes "registry_inv st" "valid_resource_snapshot s"
    and "registered st (ri_resource_id (rs_identity s)) = Some r"
  shows "canonical_observation st s = Inr
    (if ri_quota_pool_ids (rs_identity s) \<noteq> ri_quota_pool_ids (rg_identity r) then rehomed r s else s)"
proof -
  have "valid_resource_snapshot (rehomed r s)"
    using assms inv_registered rehomed_valid by blast
  then have "mk_resource_snapshot (rehomed r s) = Inr (rehomed r s)"
    by (rule resource_snapshot_contract.ok_mk)
  then show ?thesis using assms(3) by (cases s) (simp add: canonical_observation_def)
qed

lemma checked_observation_Inr:
  "registered st (ri_resource_id (rs_identity s)) = Some r \<Longrightarrow>
   checked_observation reading st s = Inr u \<longleftrightarrow>
     identity_observation_key (rs_identity s) = identity_observation_key (rg_identity r)
     \<and> 0 \<le> age_ms reading (rs_observed_at s)"
  by (auto simp: checked_observation_def bind_r_Inr_iff age_or_reject_Inr)

lemma admit_iff:
  assumes inv: "registry_inv st" and s: "valid_resource_snapshot s" and t: "ts_ok reading"
  shows "(canonical_observation st s = Inr c \<and> checked_observation reading st c = Inr ()) \<longleftrightarrow>
    (\<exists>r. registered st (ri_resource_id (rs_identity s)) = Some r \<and> admits r reading s \<and> c = rehomed r s)"
proof (cases "registered st (ri_resource_id (rs_identity s))")
  case None
  then show ?thesis by (auto simp: canonical_observation_def checked_observation_def)
next
  case (Some r)
  have rid: "ri_resource_id (rg_identity r) = ri_resource_id (rs_identity s)"
    using inv_registered [OF inv Some] by simp
  have ts: "0 \<le> age_ms reading (rs_observed_at s) \<longleftrightarrow> rs_observed_at s \<le> reading"
    using s t by (intro age_nonneg_iff) (simp_all add: valid_resource_snapshot_def)
  have same: "ri_quota_pool_ids (rs_identity s) = ri_quota_pool_ids (rg_identity r) \<Longrightarrow>
    identity_observation_key (rs_identity s) = identity_observation_key (rg_identity r) \<Longrightarrow> rehomed r s = s"
    using identity_key_pools by fastforce
  show ?thesis
  proof (cases "ri_quota_pool_ids (rs_identity s) = ri_quota_pool_ids (rg_identity r)")
    case True
    then show ?thesis
      unfolding canonical_observation_run [OF inv s Some]
      using Some ts same checked_observation_Inr [OF Some] by (auto simp: admits_def)
  next
    case False
    have "checked_observation reading st (rehomed r s) = Inr () \<longleftrightarrow> rs_observed_at s \<le> reading"
      using checked_observation_Inr [of st "rehomed r s" r] Some rid ts by simp
    then show ?thesis
      unfolding canonical_observation_run [OF inv s Some]
      using Some False by (auto simp: admits_def)
  qed
qed

lemma apply_snapshot_run:
  assumes "registry_inv st" "valid_resource_snapshot s" "ts_ok (clock 0)"
  shows "registered st (ri_resource_id (rs_identity s)) = Some r \<Longrightarrow> admits r (clock 0) s \<Longrightarrow>
      apply_snapshot clock s st = (Inr (), bump (store_observation (rehomed r s) st))"
    and "\<not> (\<exists>r. registered st (ri_resource_id (rs_identity s)) = Some r \<and> admits r (clock 0) s) \<Longrightarrow>
      \<exists>e. apply_snapshot clock s st = (Inl e, st)"
proof -
  note iff = admit_iff [OF assms]
  show "registered st (ri_resource_id (rs_identity s)) = Some r \<Longrightarrow> admits r (clock 0) s \<Longrightarrow>
      apply_snapshot clock s st = (Inr (), bump (store_observation (rehomed r s) st))"
    using iff [of "rehomed r s"] by (simp add: apply_snapshot_def)
  assume "\<not> (\<exists>r. registered st (ri_resource_id (rs_identity s)) = Some r \<and> admits r (clock 0) s)"
  with iff have "\<not> (canonical_observation st s = Inr c \<and> checked_observation (clock 0) st c = Inr ())" for c
    by blast
  then show "\<exists>e. apply_snapshot clock s st = (Inl e, st)"
    by (auto simp: apply_snapshot_def split: sum.splits)
qed

definition admissible :: "resource_registry \<Rightarrow> string \<Rightarrow> resource_state_snapshot \<Rightarrow> bool" where
  "admissible st reading s =
     (case registered st (ri_resource_id (rs_identity s)) of None \<Rightarrow> False | Some r \<Rightarrow> admits r reading s)"

definition home :: "resource_registry \<Rightarrow> resource_state_snapshot \<Rightarrow> resource_state_snapshot" where
  \<comment> \<open>the observation as it is stored: under the registered identity\<close>
  "home st s =
     (case registered st (ri_resource_id (rs_identity s)) of None \<Rightarrow> s | Some r \<Rightarrow> rehomed r s)"

lemma admissible_iff:
  assumes "registry_inv st" "valid_resource_snapshot s" "ts_ok reading"
  shows "(canonical_observation st s = Inr c \<and> checked_observation reading st c = Inr ()) \<longleftrightarrow>
    admissible st reading s \<and> c = home st s"
  unfolding admit_iff [OF assms] by (auto simp: admissible_def home_def split: option.splits)

lemma apply_snapshot_eq:
  assumes "registry_inv st" "valid_resource_snapshot s" "ts_ok (clock 0)"
  shows "admissible st (clock 0) s \<Longrightarrow>
      apply_snapshot clock s st = (Inr (), bump (store_observation (home st s) st))"
    and "\<not> admissible st (clock 0) s \<Longrightarrow> \<exists>e. apply_snapshot clock s st = (Inl e, st)"
  using apply_snapshot_run [OF assms(1,2), of clock] assms(3)
  by (auto simp: admissible_def home_def split: option.splits)

lemma canonical_loop_run:
  assumes "registry_inv st" "list_all valid_resource_snapshot ss" "clock_ok clock"
  shows "\<forall>i < length ss. admissible st (clock (k + i)) (ss ! i) \<Longrightarrow>
      canonical_loop clock st k acc ss = Inr (acc @ map (home st) ss)"
    and "\<not> (\<forall>i < length ss. admissible st (clock (k + i)) (ss ! i)) \<Longrightarrow>
      \<exists>e. canonical_loop clock st k acc ss = Inl e"
proof -
  have "canonical_loop clock st k acc ss = Inr cs \<longleftrightarrow>
    (\<forall>i < length ss. admissible st (clock (k + i)) (ss ! i)) \<and> cs = acc @ map (home st) ss" for cs
    using assms(2)
  proof (induction ss arbitrary: k acc)
    case (Cons s ss)
    have iff: "(canonical_observation st s = Inr c \<and> checked_observation (clock k) st c = Inr ()) \<longleftrightarrow>
      admissible st (clock k) s \<and> c = home st s" for c
      using assms Cons.prems by (intro admissible_iff) (simp_all add: clock_ok_def)
    have all: "(\<forall>i < length (s # ss). admissible st (clock (k + i)) ((s # ss) ! i)) \<longleftrightarrow>
      admissible st (clock k) s \<and> (\<forall>i < length ss. admissible st (clock (Suc k + i)) (ss ! i))"
      by (simp add: All_less_Suc2)
    show ?case
      unfolding canonical_loop.simps bind_r_Inr_iff all
      using iff Cons by auto
  qed auto
  then show "\<forall>i < length ss. admissible st (clock (k + i)) (ss ! i) \<Longrightarrow>
      canonical_loop clock st k acc ss = Inr (acc @ map (home st) ss)"
    "\<not> (\<forall>i < length ss. admissible st (clock (k + i)) (ss ! i)) \<Longrightarrow>
      \<exists>e. canonical_loop clock st k acc ss = Inl e"
    by (blast, metis sum.exhaust)
qed

subsection \<open>The invariant\<close>

lemma inv_empty: "registry_inv empty_registry"
  by (simp add: registry_inv_def empty_registry_def registered_def observed_def)

lemma inv_bump: "registry_inv st \<Longrightarrow> registry_inv (bump st)"
  unfolding registry_inv_def by (simp add: bump_def)

lemma inv_store:
  assumes inv: "registry_inv st" and s: "valid_resource_snapshot s"
    and r: "registered st k = Some r" "rs_identity s = rg_identity r"
  shows "registry_inv (store_observation s st)"
proof -
  have k: "k = ri_resource_id (rs_identity s)" using inv_registered [OF inv r(1)] r(2) by simp
  have "distinct (map fst (reg_observations (store_observation s st)))"
    using inv by (simp add: registry_inv_def store_observation_def distinct_update)
  moreover have "valid_resource_snapshot q \<and> (\<exists>r. registered st j = Some r \<and> rs_identity q = rg_identity r)"
    if "((observed st)(k \<mapsto> s)) j = Some q" for j q
    using that s r inv_observed [OF inv, of j q] by (cases "j = k") auto
  ultimately show ?thesis
    using inv k unfolding registry_inv_def by (simp add: reg_of_store)
qed

lemma length_update:
  "length (AList.update k v al) = (if k \<in> fst ` set al then length al else Suc (length al))"
  by (induction al) auto

lemma registry_inv_register:
  assumes inv: "registry_inv st" and r: "valid_registration r"
  shows "registry_inv (snd (register r st))"
proof (cases "is_registered st (ri_resource_id (rg_identity r))")
  case False
  let ?k = "ri_resource_id (rg_identity r)"
  have new: "registered st ?k = None" using False by (simp add: is_registered_def)
  then have "?k \<notin> fst ` set (reg_registrations st)" by (simp add: registered_def map_of_eq_None_iff)
  then have len: "length (AList.update ?k r (reg_registrations st)) = Suc (length (reg_registrations st))"
    by (simp add: length_update)
  let ?st = "snd (register r st)"
  have reg: "registered ?st = (registered st)(?k \<mapsto> r)" "observed ?st = observed st"
    using False by (simp_all add: register_def Let_def registered_def observed_def update_conv' fun_eq_iff)
  have "j = ri_resource_id (rg_identity q) \<and> valid_registration q" if "registered ?st j = Some q" for j q
    using that r inv_registered [OF inv, of j q] by (cases "j = ?k") (auto simp: reg)
  moreover have "valid_resource_snapshot q
      \<and> (\<exists>r'. registered ?st j = Some r' \<and> rs_identity q = rg_identity r')"
    if "observed st j = Some q" for j q
    using inv_observed [OF inv that] new by (auto simp: reg)
  moreover have "distinct (map fst (reg_registrations ?st))" "distinct (map fst (reg_observations ?st))"
    "int (length (reg_registrations ?st)) \<le> reg_revision ?st"
    using inv False len by (simp_all add: register_def Let_def registry_inv_def distinct_update)
  ultimately show ?thesis
    unfolding registry_inv_def reg(2) by (intro conjI allI impI; blast)
qed (simp add: register_def inv)

lemma home_facts:
  assumes "registry_inv st" "valid_resource_snapshot s" "admissible st t s"
  obtains r where "registered st (ri_resource_id (rs_identity s)) = Some r" "home st s = rehomed r s"
    "valid_resource_snapshot (home st s)" "rs_identity (home st s) = rg_identity r"
    "ri_resource_id (rs_identity (home st s)) = ri_resource_id (rs_identity s)"
proof -
  obtain r where r: "registered st (ri_resource_id (rs_identity s)) = Some r"
    using assms(3) by (auto simp: admissible_def split: option.splits)
  have "valid_registration r" "ri_resource_id (rg_identity r) = ri_resource_id (rs_identity s)"
    using inv_registered [OF assms(1) r] by simp_all
  with r assms(2) rehomed_valid show ?thesis by (intro that) (simp_all add: home_def)
qed

lemma inv_fold_store:
  assumes "registry_inv st" "list_all valid_resource_snapshot ss" "\<forall>s \<in> set ss. \<exists>t. admissible st t s"
    and "registry_inv st'" "registered st' = registered st"
  shows "registry_inv (fold store_observation (map (home st) ss) st')"
  using assms(2-)
proof (induction ss arbitrary: st')
  case (Cons s ss)
  obtain t where t: "admissible st t s" using Cons.prems(2) by auto
  have s: "valid_resource_snapshot s" using Cons.prems by simp
  obtain r where r: "registered st (ri_resource_id (rs_identity s)) = Some r"
    "valid_resource_snapshot (home st s)" "rs_identity (home st s) = rg_identity r"
    by (rule home_facts [OF assms(1) s t])
  then have "registry_inv (store_observation (home st s) st')"
    using Cons.prems by (intro inv_store [of st' _ "ri_resource_id (rs_identity s)" r]) simp_all
  then show ?case using Cons by simp
qed simp

lemma all_nth_admissible:
  "\<forall>i < length ss. admissible st (clock (k + i)) (ss ! i) \<Longrightarrow> \<forall>s \<in> set ss. \<exists>t. admissible st t s"
  by (metis in_set_conv_nth)

lemma apply_report_run:
  assumes "registry_inv st" "valid_worker_report w" "clock_ok clock"
  shows "\<forall>i < length (wr_resources w). admissible st (clock i) (wr_resources w ! i) \<Longrightarrow>
      apply_worker_report clock w st =
        (Inr (), bump (fold store_observation (map (home st) (wr_resources w)) st))"
    and "\<not> (\<forall>i < length (wr_resources w). admissible st (clock i) (wr_resources w ! i)) \<Longrightarrow>
      \<exists>e. apply_worker_report clock w st = (Inl e, st)"
proof -
  have "list_all valid_resource_snapshot (wr_resources w)"
    using assms(2) by (simp add: valid_worker_report_def worker_report_parts_def)
  note run = canonical_loop_run [OF assms(1) this assms(3), of 0 "[]", simplified]
  show "\<forall>i < length (wr_resources w). admissible st (clock i) (wr_resources w ! i) \<Longrightarrow>
      apply_worker_report clock w st =
        (Inr (), bump (fold store_observation (map (home st) (wr_resources w)) st))"
    using run(1) by (simp add: apply_worker_report_def)
  assume "\<not> (\<forall>i < length (wr_resources w). admissible st (clock i) (wr_resources w ! i))"
  then obtain e where "canonical_loop clock st 0 [] (wr_resources w) = Inl e" using run(2) by blast
  then show "\<exists>e. apply_worker_report clock w st = (Inl e, st)" by (simp add: apply_worker_report_def)
qed

lemma run_op_inv:
  assumes inv: "registry_inv st" and op: "op_typed op"
  shows "registry_inv (snd (run_op op st))"
proof (cases op)
  case (Op_register r)
  then show ?thesis using assms registry_inv_register by simp
next
  case (Op_snapshot clock s)
  then have s: "valid_resource_snapshot s" "ts_ok (clock 0)" using op by (simp_all add: clock_ok_def)
  show ?thesis
  proof (cases "admissible st (clock 0) s")
    case True
    obtain r where "registered st (ri_resource_id (rs_identity s)) = Some r"
      "valid_resource_snapshot (home st s)" "rs_identity (home st s) = rg_identity r"
      by (rule home_facts [OF inv s(1) True])
    then have "registry_inv (store_observation (home st s) st)" by (intro inv_store [OF inv])
    then show ?thesis using apply_snapshot_eq(1) [OF inv s(1), of clock] s(2) True Op_snapshot
      by (simp add: inv_bump)
  next
    case False
    then show ?thesis using apply_snapshot_eq(2) [OF inv s(1), of clock] s(2) inv Op_snapshot by auto
  qed
next
  case (Op_report clock w)
  then have w: "valid_worker_report w" "clock_ok clock" using op by simp_all
  show ?thesis
  proof (cases "\<forall>i < length (wr_resources w). admissible st (clock i) (wr_resources w ! i)")
    case True
    have "registry_inv (fold store_observation (map (home st) (wr_resources w)) st)"
      using w all_nth_admissible [of "wr_resources w" st clock 0] True inv
      by (intro inv_fold_store) (simp_all add: valid_worker_report_def worker_report_parts_def)
    then show ?thesis using apply_report_run(1) [OF inv w True] Op_report by (simp add: inv_bump)
  next
    case False
    then show ?thesis using apply_report_run(2) [OF inv w] inv Op_report by auto
  qed
qed

lemma registry_reachable_inv: "registry_reachable st \<Longrightarrow> registry_inv st"
  by (induction rule: registry_reachable.induct) (simp_all add: inv_empty run_op_inv)

lemma run_op_effect:
  assumes inv: "registry_inv st" and op: "op_typed op"
  shows "(\<exists>e. run_op op st = (Inl e, st)) \<or>
    (fst (run_op op st) = Inr () \<and> reg_revision (snd (run_op op st)) = reg_revision st + 1
     \<and> (\<forall>k r. registered st k = Some r \<longrightarrow> registered (snd (run_op op st)) k = Some r)
     \<and> (\<forall>k. observed st k \<noteq> None \<longrightarrow> observed (snd (run_op op st)) k \<noteq> None))"
proof (cases op)
  case (Op_register r)
  then show ?thesis
    by (auto simp: register_def Let_def is_registered_def registered_def observed_def update_conv')
next
  case (Op_snapshot clock s)
  then have s: "valid_resource_snapshot s" "ts_ok (clock 0)" using op by (simp_all add: clock_ok_def)
  then show ?thesis
    using apply_snapshot_eq [OF inv s(1), of clock] Op_snapshot
    by (cases "admissible st (clock 0) s") (auto simp: bump_def)
next
  case (Op_report clock w)
  then have w: "valid_worker_report w" "clock_ok clock" using op by simp_all
  have keep: "observed s k \<noteq> None \<Longrightarrow> observed (fold store_observation ss s) k \<noteq> None" for s ss k
    by (induction ss arbitrary: s) auto
  show ?thesis
    using apply_report_run [OF inv w] Op_report keep
    by (cases "\<forall>i < length (wr_resources w). admissible st (clock i) (wr_resources w ! i)")
      (auto simp: bump_def simp del: not_None_eq)
qed

section \<open>What the registry guarantees\<close>

definition sample_registration :: resource_registration where
  "sample_registration = \<lparr>rg_identity = sample_resource [], rg_freshness_ttl_seconds = 600,
     rg_poll_interval_seconds = Some 300, rg_capabilities = unknown_capabilities, rg_cost = None\<rparr>"

definition sample_registry :: resource_registry where
  "sample_registry = snd (register sample_registration empty_registry)"

definition sample_clock :: readings where
  "sample_clock k = ''2026-03-01T10:05:00.000Z''"

definition sample_observation :: resource_state_snapshot where
  "sample_observation = normalised sample_capacity (sample_resource []) [] Ob_provider_telemetry"

lemma sample_registration_valid: "valid_registration sample_registration"
  by code_simp

lemma sample_registry_inv: "registry_inv sample_registry"
  unfolding sample_registry_def by (intro registry_inv_register inv_empty sample_registration_valid)

lemma sample_reachable: "registry_reachable sample_registry"
  using registry_reachable.step [OF registry_reachable.start, of "Op_register sample_registration"]
  by (simp add: sample_registry_def sample_registration_valid)

lemma sample_clock_ok: "clock_ok sample_clock"
proof -
  have "ts_ok ''2026-03-01T10:05:00.000Z''" by code_simp
  then show ?thesis by (simp add: clock_ok_def sample_clock_def)
qed

lemma sample_observation_valid: "valid_resource_snapshot sample_observation"
  unfolding sample_observation_def
  by (rule normalised_valid [OF sample_capacity_valid sample_resource_valid])
    (simp_all add: sample_capacity_def)

lemma registry_state_sound_parts:
  assumes "registry_reachable st"
  shows "observed st k = Some s \<Longrightarrow>
      valid_resource_snapshot s \<and> (\<exists>r. registered st k = Some r \<and> rs_identity s = rg_identity r)"
    and "registered st k = Some r \<Longrightarrow> valid_registration r \<and> ri_resource_id (rg_identity r) = k"
    and "0 \<le> reg_revision st"
    and "op_typed op \<Longrightarrow> (\<exists>e. run_op op st = (Inl e, st)) \<or>
      (fst (run_op op st) = Inr () \<and> reg_revision (snd (run_op op st)) = reg_revision st + 1
       \<and> (\<forall>k r. registered st k = Some r \<longrightarrow> registered (snd (run_op op st)) k = Some r)
       \<and> (\<forall>k. observed st k \<noteq> None \<longrightarrow> observed (snd (run_op op st)) k \<noteq> None))"
proof -
  note inv = registry_reachable_inv [OF assms]
  show "observed st k = Some s \<Longrightarrow>
      valid_resource_snapshot s \<and> (\<exists>r. registered st k = Some r \<and> rs_identity s = rg_identity r)"
    by (rule inv_observed [OF inv])
  show "registered st k = Some r \<Longrightarrow> valid_registration r \<and> ri_resource_id (rg_identity r) = k"
    using inv_registered [OF inv] by simp
  have "int (length (reg_registrations st)) \<le> reg_revision st" using inv by (simp add: registry_inv_def)
  then show "0 \<le> reg_revision st" by linarith
qed (rule run_op_effect [OF registry_reachable_inv [OF assms]])

text \<open>
  C27: In every state the registry reaches from empty, whatever operations ran and failed, each stored
  observation is a valid document of a registered resource and carries exactly the registered
  identity, pool ids included; every registration is valid and filed under its own id; and an
  operation either raises and leaves the registry exactly as it was, or succeeds, moves the revision
  by one, keeps every registration as it is and never removes an observation.
\<close>

theorem registry_state_sound:
  assumes "registry_reachable st"
  shows "(\<forall>k s. observed st k = Some s \<longrightarrow>
        valid_resource_snapshot s \<and> (\<exists>r. registered st k = Some r \<and> rs_identity s = rg_identity r))
    \<and> (\<forall>k r. registered st k = Some r \<longrightarrow> valid_registration r \<and> ri_resource_id (rg_identity r) = k)
    \<and> 0 \<le> reg_revision st
    \<and> (\<forall>op. op_typed op \<longrightarrow> (\<exists>e. run_op op st = (Inl e, st)) \<or>
        (fst (run_op op st) = Inr () \<and> reg_revision (snd (run_op op st)) = reg_revision st + 1
         \<and> (\<forall>k r. registered st k = Some r \<longrightarrow> registered (snd (run_op op st)) k = Some r)
         \<and> (\<forall>k. observed st k \<noteq> None \<longrightarrow> observed (snd (run_op op st)) k \<noteq> None)))"
  using registry_state_sound_parts [OF assms] by meson


theorem registry_state_sound_witness:
  "0 \<le> reg_revision sample_registry \<and>
   valid_registration sample_registration \<and> ri_resource_id (rg_identity sample_registration) = ''r1''"
  using registry_state_sound [OF sample_reachable]
  by (simp add: sample_registry_def register_def Let_def is_registered_def registered_def
      empty_registry_def sample_registration_def sample_resource_def)

text \<open>
  An observation is accepted exactly when its resource is registered, it is not dated after the
  clock reading, and either its pool ids differ from the registered ones or its identity agrees with
  the registered identity in every other field. It is then stored under the registered identity,
  with health, quota facts, promotions and instant as reported, and no other resource changes.
\<close>

theorem observation_admission:
  assumes "registry_reachable st" "valid_resource_snapshot s" "clock_ok clock"
  shows "fst (apply_snapshot clock s st) = Inr () \<longleftrightarrow>
      (\<exists>r. registered st (ri_resource_id (rs_identity s)) = Some r \<and> rs_observed_at s \<le> clock 0
         \<and> (ri_quota_pool_ids (rs_identity s) \<noteq> ri_quota_pool_ids (rg_identity r)
            \<or> identity_observation_key (rs_identity s) = identity_observation_key (rg_identity r)))"
    and "fst (apply_snapshot clock s st) = Inr () \<Longrightarrow>
      observed (snd (apply_snapshot clock s st)) = (observed st)
        (ri_resource_id (rs_identity s) \<mapsto>
           s\<lparr>rs_identity := rg_identity (the (registered st (ri_resource_id (rs_identity s))))\<rparr>)"
proof -
  note inv = registry_reachable_inv [OF assms(1)]
  have t: "ts_ok (clock 0)" using assms(3) by (simp add: clock_ok_def)
  note run = apply_snapshot_eq [OF inv assms(2), of clock, OF t]
  have adm: "admissible st (clock 0) s \<longleftrightarrow>
      (\<exists>r. registered st (ri_resource_id (rs_identity s)) = Some r \<and> rs_observed_at s \<le> clock 0
         \<and> (ri_quota_pool_ids (rs_identity s) \<noteq> ri_quota_pool_ids (rg_identity r)
            \<or> identity_observation_key (rs_identity s) = identity_observation_key (rg_identity r)))"
    by (auto simp: admissible_def admits_def split: option.splits)
  have ok: "fst (apply_snapshot clock s st) = Inr () \<longleftrightarrow> admissible st (clock 0) s"
    using run by fastforce
  then show "fst (apply_snapshot clock s st) = Inr () \<longleftrightarrow>
      (\<exists>r. registered st (ri_resource_id (rs_identity s)) = Some r \<and> rs_observed_at s \<le> clock 0
         \<and> (ri_quota_pool_ids (rs_identity s) \<noteq> ri_quota_pool_ids (rg_identity r)
            \<or> identity_observation_key (rs_identity s) = identity_observation_key (rg_identity r)))"
    using adm by simp
  assume "fst (apply_snapshot clock s st) = Inr ()"
  then have a: "admissible st (clock 0) s" using ok by simp
  obtain r where "registered st (ri_resource_id (rs_identity s)) = Some r" "home st s = rehomed r s"
    "ri_resource_id (rs_identity (home st s)) = ri_resource_id (rs_identity s)"
    by (rule home_facts [OF inv assms(2) a])
  then show "observed (snd (apply_snapshot clock s st)) = (observed st)
        (ri_resource_id (rs_identity s) \<mapsto>
           s\<lparr>rs_identity := rg_identity (the (registered st (ri_resource_id (rs_identity s))))\<rparr>)"
    using run(1) [OF a] by simp
qed

theorem observation_admission_witness:
  "fst (apply_snapshot sample_clock sample_observation sample_registry) = Inr ()"
proof -
  have "rs_observed_at sample_observation \<le> sample_clock 0"
    by (simp add: sample_observation_def normalised_def sample_capacity_def sample_clock_def)
  then show ?thesis
    using observation_admission(1) [OF sample_reachable sample_observation_valid sample_clock_ok]
    by (simp add: sample_registry_def register_def Let_def is_registered_def registered_def
        empty_registry_def sample_registration_def sample_resource_def sample_observation_def normalised_def)
qed

fun apply_each :: "readings \<Rightarrow> nat \<Rightarrow> resource_state_snapshot list \<Rightarrow> resource_registry \<Rightarrow> resource_registry" where
  "apply_each clock k [] st = st"
| "apply_each clock k (s # ss) st =
     apply_each clock (Suc k) ss (snd (apply_snapshot (\<lambda>_. clock k) s st))"

lemma fold_store_observed:
  "observed (fold store_observation ss st) = fold (\<lambda>s m. m(ri_resource_id (rs_identity s) \<mapsto> s)) ss (observed st)"
  by (induction ss arbitrary: st) simp_all

lemma admissible_cong: "registered st' = registered st \<Longrightarrow> admissible st' = admissible st"
  by (simp add: admissible_def fun_eq_iff)

lemma home_cong: "registered st' = registered st \<Longrightarrow> home st' = home st"
  by (simp add: home_def fun_eq_iff)

lemma store_bump: "store_observation s (bump q) = bump (store_observation s q)"
  by (simp add: store_observation_def bump_def)

lemma apply_each_run:
  assumes "registry_inv st" "list_all valid_resource_snapshot ss" "clock_ok clock"
    and "\<forall>i < length ss. admissible st (clock (k + i)) (ss ! i)"
  shows "reg_observations (apply_each clock k ss st)
      = reg_observations (fold store_observation (map (home st) ss) st)
    \<and> reg_registrations (apply_each clock k ss st) = reg_registrations st"
  using assms
proof (induction ss arbitrary: st k)
  case (Cons s ss)
  let ?st = "bump (store_observation (home st s) st)"
  have t: "ts_ok (clock k)" using Cons.prems(3) by (simp add: clock_ok_def)
  have a: "admissible st (clock k) s" using Cons.prems(4) by (auto simp: All_less_Suc2)
  have s: "valid_resource_snapshot s" using Cons.prems(2) by simp
  have run: "apply_snapshot (\<lambda>_. clock k) s st = (Inr (), ?st)"
    using apply_snapshot_eq(1) [OF Cons.prems(1) s, of "\<lambda>_. clock k"] t a by simp
  have inv: "registry_inv ?st"
    using run_op_inv [OF Cons.prems(1), of "Op_snapshot (\<lambda>_. clock k) s"] run s t
    by (simp add: clock_ok_def)
  have reg: "registered ?st = registered st" by simp
  have "\<forall>i < length ss. admissible ?st (clock (Suc k + i)) (ss ! i)"
    using Cons.prems(4) by (simp add: admissible_cong [OF reg] All_less_Suc2)
  note ih = Cons.IH [OF inv _ Cons.prems(3) this]
  have fold_obs: "reg_observations (fold store_observation cs (bump q))
    = reg_observations (fold store_observation cs q)" for cs q
    by (induction cs arbitrary: q) (simp_all add: store_bump, simp add: bump_def)
  show ?case
    using ih Cons.prems(2) by (simp add: run home_cong [OF reg] fold_obs) (simp add: bump_def)
qed simp

lemma report_all_or_nothing_parts:
  assumes "registry_reachable st" "valid_worker_report w" "clock_ok clock"
  defines "ss \<equiv> wr_resources w"
  shows "\<not> (\<forall>i < length ss. admissible st (clock i) (ss ! i)) \<Longrightarrow>
      \<exists>e. apply_worker_report clock w st = (Inl e, st)"
    and "\<forall>i < length ss. admissible st (clock i) (ss ! i) \<Longrightarrow>
      fst (apply_worker_report clock w st) = Inr ()
      \<and> reg_observations (snd (apply_worker_report clock w st)) = reg_observations (apply_each clock 0 ss st)
      \<and> reg_registrations (snd (apply_worker_report clock w st)) = reg_registrations st
      \<and> reg_revision (snd (apply_worker_report clock w st)) = reg_revision st + 1"
    and "k \<notin> (\<lambda>s. ri_resource_id (rs_identity s)) ` set ss \<Longrightarrow>
      observed (snd (apply_worker_report clock w st)) k = observed st k"
proof -
  note inv = registry_reachable_inv [OF assms(1)]
  have ss: "list_all valid_resource_snapshot ss"
    using assms(2) by (simp add: valid_worker_report_def worker_report_parts_def ss_def)
  note run = apply_report_run [OF inv assms(2,3), folded ss_def]
  show "\<not> (\<forall>i < length ss. admissible st (clock i) (ss ! i)) \<Longrightarrow>
      \<exists>e. apply_worker_report clock w st = (Inl e, st)" by (rule run(2))
  show "\<forall>i < length ss. admissible st (clock i) (ss ! i) \<Longrightarrow>
      fst (apply_worker_report clock w st) = Inr ()
      \<and> reg_observations (snd (apply_worker_report clock w st)) = reg_observations (apply_each clock 0 ss st)
      \<and> reg_registrations (snd (apply_worker_report clock w st)) = reg_registrations st
      \<and> reg_revision (snd (apply_worker_report clock w st)) = reg_revision st + 1"
    using run(1) apply_each_run [OF inv ss assms(3), of 0] by (simp add: bump_def)
  assume k: "k \<notin> (\<lambda>s. ri_resource_id (rs_identity s)) ` set ss"
  have "fold (\<lambda>s m. m(ri_resource_id (rs_identity s) \<mapsto> s)) (map (home st) qs) m k = m k"
    if "set qs \<subseteq> set ss" "\<forall>s \<in> set qs. \<exists>t. admissible st t s" for qs m
    using that
  proof (induction qs arbitrary: m)
    case (Cons q qs)
    obtain t where "admissible st t q" using Cons.prems(2) by auto
    moreover have "valid_resource_snapshot q" using Cons.prems(1) ss by (auto simp: list_all_iff)
    ultimately have "ri_resource_id (rs_identity (home st q)) = ri_resource_id (rs_identity q)"
      using home_facts [OF inv] by metis
    moreover have "ri_resource_id (rs_identity q) \<noteq> k" using Cons.prems(1) k by auto
    ultimately show ?case using Cons by simp
  qed simp
  then show "observed (snd (apply_worker_report clock w st)) k = observed st k"
    using run all_nth_admissible [of ss st clock 0]
    by (cases "\<forall>i < length ss. admissible st (clock i) (ss ! i)") (auto simp: fold_store_observed)
qed

text \<open>
  C30: A worker report is applied to every resource it names or to none: if one of its observations
  would be rejected at its clock reading, the report raises and the registry is unchanged; otherwise
  the registry holds exactly what applying the observations one by one would leave, except that the
  revision moves once. Resources the report does not name keep their observation.
\<close>

theorem report_all_or_nothing:
  assumes "registry_reachable st" "valid_worker_report w" "clock_ok clock"
  shows "(if \<forall>i < length (wr_resources w). admissible st (clock i) (wr_resources w ! i)
     then fst (apply_worker_report clock w st) = Inr ()
       \<and> reg_observations (snd (apply_worker_report clock w st))
           = reg_observations (apply_each clock 0 (wr_resources w) st)
       \<and> reg_registrations (snd (apply_worker_report clock w st)) = reg_registrations st
       \<and> reg_revision (snd (apply_worker_report clock w st)) = reg_revision st + 1
     else \<exists>e. apply_worker_report clock w st = (Inl e, st))
    \<and> (\<forall>k. k \<notin> (\<lambda>s. ri_resource_id (rs_identity s)) ` set (wr_resources w) \<longrightarrow>
         observed (snd (apply_worker_report clock w st)) k = observed st k)"
  using report_all_or_nothing_parts [OF assms] by (simp only: split: if_split) blast


definition foreign_observation :: resource_state_snapshot where
  \<comment> \<open>what a worker could report under the id of the sample resource: another backend on its own channel\<close>
  "foreign_observation = sample_observation\<lparr>rs_identity :=
     \<lparr>ri_resource_id = ''r1'', ri_channel = Ch_worker_bridged, ri_provider = ''other'',
      ri_model = ''tiny'', ri_entitlement = En_local_ungated, ri_variant = None,
      ri_quota_pool_ids = [''p'']\<rparr>\<rparr>"

definition foreign_report :: worker_state_report where
  "foreign_report = \<lparr>wr_schema_version = 1, wr_worker_id = ''w1'',
     wr_reported_at = ''2026-03-01T10:01:00.000Z'', wr_resources = [foreign_observation]\<rparr>"

lemma foreign_observation_valid: "valid_resource_snapshot foreign_observation"
proof -
  have "valid_resource_identity (rs_identity foreign_observation)"
    by (simp add: foreign_observation_def) code_simp
  then show ?thesis
    using sample_observation_valid
    by (simp add: foreign_observation_def valid_resource_snapshot_def resource_snapshot_parts_def)
qed

lemma foreign_report_valid: "valid_worker_report foreign_report"
proof -
  have "safe_id_match ''w1''" "ts_ok ''2026-03-01T10:01:00.000Z''" by code_simp+
  moreover have "rs_observed_at foreign_observation \<le> ''2026-03-01T10:01:00.000Z''"
    "ri_channel (rs_identity foreign_observation) \<in> set WORKER_REPORTABLE_CHANNELS"
    by (simp_all add: foreign_observation_def sample_observation_def normalised_def sample_capacity_def
        WORKER_REPORTABLE_CHANNELS_def)
  ultimately show ?thesis
    using foreign_observation_valid
    by (simp add: valid_worker_report_def foreign_report_def worker_report_parts_def)
qed

lemma foreign_admissible: "admissible sample_registry (sample_clock 0) foreign_observation"
  by (simp add: admissible_def admits_def sample_registry_def register_def Let_def is_registered_def
      registered_def empty_registry_def sample_registration_def sample_resource_def
      foreign_observation_def sample_observation_def normalised_def sample_capacity_def sample_clock_def)

theorem report_all_or_nothing_witness:
  "fst (apply_worker_report sample_clock foreign_report sample_registry) = Inr ()
   \<and> reg_revision (snd (apply_worker_report sample_clock foreign_report sample_registry)) = 2"
proof -
  have "\<forall>i < length (wr_resources foreign_report).
      admissible sample_registry (sample_clock i) (wr_resources foreign_report ! i)"
    using foreign_admissible by (simp add: foreign_report_def sample_clock_def)
  then have "fst (apply_worker_report sample_clock foreign_report sample_registry) = Inr ()"
    "reg_revision (snd (apply_worker_report sample_clock foreign_report sample_registry))
      = reg_revision sample_registry + 1"
    using report_all_or_nothing [OF sample_reachable foreign_report_valid sample_clock_ok]
    by (simp_all only: if_True)
  moreover have "reg_revision sample_registry = 1"
    by (simp add: sample_registry_def register_def Let_def is_registered_def registered_def empty_registry_def)
  ultimately show ?thesis by simp
qed

text \<open>
  C28: Pool ids are meant to be the only part of an identity the match ignores, but an observation whose
  pool ids differ from the registered ones gets the registered identity before it is compared, so
  nothing else is compared at all: whatever channel, provider, model, entitlement and variant an
  observation of the id states, some choice of its pool ids gets its health and quota facts stored as
  those of the registered resource. By a worker report this reaches resources registered as server
  direct, which no worker may report.
\<close>

theorem foreign_observation_accepted:
  assumes "registry_reachable st" "registered st k = Some r" "clock_ok clock"
    and "valid_resource_snapshot s" "ri_resource_id (rs_identity s) = k" "rs_observed_at s \<le> clock 0"
  shows "\<exists>pools. let s' = s\<lparr>rs_identity := (rs_identity s)\<lparr>ri_quota_pool_ids := pools\<rparr>\<rparr> in
      valid_resource_snapshot s' \<and> fst (apply_snapshot clock s' st) = Inr ()
      \<and> observed (snd (apply_snapshot clock s' st)) k = Some (s\<lparr>rs_identity := rg_identity r\<rparr>)"
proof -
  note inv = registry_reachable_inv [OF assms(1)]
  define pools where "pools = (if ri_quota_pool_ids (rg_identity r) = [] then [''p''] else [])"
  define s' where "s' = s\<lparr>rs_identity := (rs_identity s)\<lparr>ri_quota_pool_ids := pools\<rparr>\<rparr>"
  have p: "safe_id_match ''p''" by code_simp
  have v: "valid_resource_snapshot s'"
    using assms(4) p by (simp add: s'_def pools_def valid_resource_snapshot_def
        resource_snapshot_parts_def valid_resource_identity_def)
  have k: "ri_resource_id (rs_identity s') = k" using assms(5) by (simp add: s'_def)
  have "ri_quota_pool_ids (rs_identity s') \<noteq> ri_quota_pool_ids (rg_identity r)"
    by (simp add: s'_def pools_def)
  then have a: "admissible st (clock 0) s'"
    using assms(2,6) k by (simp add: admissible_def admits_def) (simp add: s'_def)
  have "ts_ok (clock 0)" using assms(3) by (simp add: clock_ok_def)
  from apply_snapshot_eq(1) [OF inv v, of clock, OF this a]
  have "apply_snapshot clock s' st = (Inr (), bump (store_observation (home st s') st))" .
  moreover have "home st s' = s\<lparr>rs_identity := rg_identity r\<rparr>"
    using assms(2) k by (simp add: home_def) (simp add: s'_def)
  moreover have "ri_resource_id (rg_identity r) = k" using inv_registered [OF inv assms(2)] by simp
  ultimately show ?thesis using v by (intro exI [of _ pools]) (simp add: Let_def flip: s'_def)
qed

theorem foreign_observation_accepted_witness:
  "\<exists>s. ri_provider (rs_identity s) = ''other'' \<and> ri_channel (rs_identity s) = Ch_worker_bridged
     \<and> fst (apply_snapshot sample_clock s sample_registry) = Inr ()
     \<and> (\<exists>q. observed (snd (apply_snapshot sample_clock s sample_registry)) ''r1'' = Some q
          \<and> ri_provider (rs_identity q) = ''acme'' \<and> ri_channel (rs_identity q) = Ch_server_direct_http)"
proof -
  have "registered sample_registry ''r1'' = Some sample_registration"
    by (simp add: sample_registry_def register_def Let_def is_registered_def registered_def
        empty_registry_def sample_registration_def sample_resource_def)
  moreover have "ri_resource_id (rs_identity foreign_observation) = ''r1''"
    "rs_observed_at foreign_observation \<le> sample_clock 0"
    by (simp_all add: foreign_observation_def sample_observation_def normalised_def sample_capacity_def
        sample_clock_def)
  ultimately obtain pools where
    "let s' = foreign_observation\<lparr>rs_identity := (rs_identity foreign_observation)\<lparr>ri_quota_pool_ids := pools\<rparr>\<rparr> in
      valid_resource_snapshot s' \<and> fst (apply_snapshot sample_clock s' sample_registry) = Inr ()
      \<and> observed (snd (apply_snapshot sample_clock s' sample_registry)) ''r1''
        = Some (foreign_observation\<lparr>rs_identity := rg_identity sample_registration\<rparr>)"
    using foreign_observation_accepted [OF sample_reachable _ sample_clock_ok foreign_observation_valid] by blast
  then show ?thesis
    by (intro exI [of _ "foreign_observation\<lparr>rs_identity :=
        (rs_identity foreign_observation)\<lparr>ri_quota_pool_ids := pools\<rparr>\<rparr>"])
      (simp add: Let_def, simp add: foreign_observation_def sample_registration_def sample_resource_def)
qed

section \<open>Freshness, and reading the registry\<close>

definition resets_of :: "resource_state_snapshot \<Rightarrow> string list" where
  "resets_of ob = List.map_filter (\<lambda>f. w_resets_at (qf_window f)) (rs_quota_facts ob)"

definition reset_reached :: "resource_state_snapshot \<Rightarrow> string \<Rightarrow> bool" where
  \<comment> \<open>the reset instant of some window is not after \<open>now\<close>\<close>
  "reset_reached ob now = (\<exists>f \<in> set (rs_quota_facts ob). \<exists>t. w_resets_at (qf_window f) = Some t \<and> t \<le> now)"

lemma resets_ok:
  assumes "valid_resource_snapshot ob"
  shows "list_all ts_ok (resets_of ob)" "window_reset_instants ob = Inr (resets_of ob)"
proof -
  show ok: "list_all ts_ok (resets_of ob)"
    using assms unfolding resets_of_def List.map_filter_def
    by (auto simp: list_all_iff valid_resource_snapshot_def resource_snapshot_parts_def
        valid_quota_fact_def valid_window_def dest!: bspec)
  show "window_reset_instants ob = Inr (resets_of ob)"
    unfolding window_reset_instants_def resets_of_def [symmetric]
    using ok traverse_total [of "resets_of ob"
      "\<lambda>r. v_ts cap_exn (PStr r) ''quota_fact.window.resets_at''" "\<lambda>x. x"]
    by (simp add: list_all_iff v_ts_Inr)
qed

lemma set_resets_of:
  "set (resets_of ob) = {t. \<exists>f \<in> set (rs_quota_facts ob). w_resets_at (qf_window f) = Some t}"
  by (force simp: resets_of_def List.map_filter_def)

lemma reset_crossed_iff:
  assumes "valid_resource_snapshot ob" "ts_ok now"
  shows "reset_crossed (resets_of ob) now \<longleftrightarrow> reset_reached ob now"
    and "resets_of ob \<noteq> [] \<Longrightarrow> age_ms now (py_min (resets_of ob)) \<ge> 0 \<longleftrightarrow> reset_reached ob now"
proof -
  have ok: "\<And>x. x \<in> set (resets_of ob) \<Longrightarrow> ts_ok x"
    using resets_ok(1) [OF assms(1)] by (simp add: list_all_iff)
  have rr: "reset_reached ob now \<longleftrightarrow> (\<exists>t \<in> set (resets_of ob). t \<le> now)"
    unfolding reset_reached_def set_resets_of by blast
  show "reset_crossed (resets_of ob) now \<longleftrightarrow> reset_reached ob now"
    unfolding rr reset_crossed_def list_ex_iff using ok assms(2) by (auto simp: age_nonneg_iff)
  assume ne: "resets_of ob \<noteq> []"
  have "ts_ok (py_min (resets_of ob))" by (rule ok [OF py_min_in [OF ne]])
  then show "age_ms now (py_min (resets_of ob)) \<ge> 0 \<longleftrightarrow> reset_reached ob now"
    unfolding rr using assms(2) py_min_le [OF ne, of now] by (simp add: age_nonneg_iff)
qed

definition stale_at :: "int \<Rightarrow> resource_state_snapshot \<Rightarrow> string \<Rightarrow> bool" where
  "stale_at ttl ob now = (ttl * 1000 < age_ms now (rs_observed_at ob) \<or> reset_reached ob now)"

lemma entry_freshness_run:
  assumes r: "valid_registration r" and ob: "valid_resource_snapshot ob" and t: "ts_ok now"
  shows "entry_freshness r None now = Inr Fr_never_observed"
    and "entry_freshness r (Some ob) now =
      (if rs_observed_at ob \<le> now
       then Inr (if stale_at (rg_freshness_ttl_seconds r) ob now then Fr_stale else Fr_fresh)
       else Inl (cap_exn ''classify_freshness''))"
proof -
  have o: "ts_ok (rs_observed_at ob)" using ob by (simp add: valid_resource_snapshot_def)
  have v: "v_ts cap_exn (PStr x) fld = Inr x" if "ts_ok x" for x fld using that by (simp add: v_ts_Inr)
  have i: "v_int cap_exn (Some 1) None (PInt (rg_freshness_ttl_seconds r)) fld = Inr (rg_freshness_ttl_seconds r)" for fld
    using r by (simp add: v_int_Inr valid_registration_def)
  have age: "age_ms now (rs_observed_at ob) < 0 \<longleftrightarrow> \<not> rs_observed_at ob \<le> now"
    using age_nonneg_iff [OF o t] by (metis not_le)
  have mn: "resets_of ob \<noteq> [] \<Longrightarrow> ts_ok (py_min (resets_of ob))"
    using py_min_in [of "resets_of ob"] resets_ok(1) [OF ob] by (simp add: list_all_iff)
  have nr: "resets_of ob = [] \<Longrightarrow> \<not> reset_reached ob now"
    using reset_crossed_iff(1) [OF ob t] by (simp add: reset_crossed_def)
  show "entry_freshness r None now = Inr Fr_never_observed" by (simp add: entry_freshness_def)
  show "entry_freshness r (Some ob) now =
      (if rs_observed_at ob \<le> now
       then Inr (if stale_at (rg_freshness_ttl_seconds r) ob now then Fr_stale else Fr_fresh)
       else Inl (cap_exn ''classify_freshness''))"
    using nr mn reset_crossed_iff(2) [OF ob t]
    by (cases "resets_of ob = []")
      (simp_all add: entry_freshness_def resets_ok(2) [OF ob] classify_freshness_def v [OF o] v [OF t] v i
        age_or_reject_def Let_def age stale_at_def)
qed

definition due_at :: "int option \<Rightarrow> resource_state_snapshot option \<Rightarrow> string \<Rightarrow> bool" where
  "due_at poll ob now =
     (case poll of
        None \<Rightarrow> False
      | Some p \<Rightarrow>
          (case ob of
             None \<Rightarrow> True
           | Some s \<Rightarrow> p * 1000 \<le> age_ms now (rs_observed_at s) \<or> reset_reached s now))"

lemma resource_due_run:
  assumes "pred_option valid_resource_snapshot ob" "ts_ok now"
    and "pred_option (\<lambda>s. rs_observed_at s \<le> now) ob"
  shows "resource_due ctx r ob now = Inr (due_at (rg_poll_interval_seconds r) ob now)"
proof (cases "rg_poll_interval_seconds r"; cases ob)
  fix p s
  assume p: "rg_poll_interval_seconds r = Some p" and s: "ob = Some s"
  then have v: "valid_resource_snapshot s" "rs_observed_at s \<le> now" using assms by simp_all
  then have "0 \<le> age_ms now (rs_observed_at s)"
    using age_nonneg_iff [of "rs_observed_at s" now] assms(2) by (simp add: valid_resource_snapshot_def)
  then show ?thesis
    using p s reset_crossed_iff(1) [OF v(1) assms(2)] resets_ok(2) [OF v(1)]
    by (simp add: resource_due_def due_at_def age_or_reject_def Let_def)
qed (simp_all add: resource_due_def due_at_def)

definition entry_of :: "resource_registry \<Rightarrow> string \<Rightarrow> string \<Rightarrow> resource_registry_entry" where
  \<comment> \<open>the entry of a registered resource: registration facts, last observation, evaluated state\<close>
  "entry_of st now rid =
     (let r = the (registered st rid); ob = observed st rid in
      \<lparr>rn_identity = rg_identity r, rn_freshness_ttl_seconds = rg_freshness_ttl_seconds r,
       rn_poll_interval_seconds = rg_poll_interval_seconds r, rn_capabilities = rg_capabilities r,
       rn_cost = rg_cost r, rn_observation = ob,
       rn_freshness = (case ob of None \<Rightarrow> Fr_never_observed
         | Some s \<Rightarrow> if stale_at (rg_freshness_ttl_seconds r) s now then Fr_stale else Fr_fresh),
       rn_refresh_due = due_at (rg_poll_interval_seconds r) ob now\<rparr>)"

lemma read_entry_run:
  assumes inv: "registry_inv st" and t: "ts_ok now" and r: "registered st rid = Some r"
  shows "pred_option (\<lambda>s. rs_observed_at s \<le> now) (observed st rid) \<Longrightarrow>
      read_entry st now rid = Inr (entry_of st now rid) \<and> valid_registry_entry (entry_of st now rid)"
    and "\<not> pred_option (\<lambda>s. rs_observed_at s \<le> now) (observed st rid) \<Longrightarrow>
      \<exists>e. read_entry st now rid = Inl e"
proof -
  have vr: "valid_registration r" using inv_registered [OF inv r] by simp
  have vo: "pred_option valid_resource_snapshot (observed st rid)"
    using inv_observed [OF inv] by (cases "observed st rid") auto
  show "\<exists>e. read_entry st now rid = Inl e" if "\<not> pred_option (\<lambda>s. rs_observed_at s \<le> now) (observed st rid)"
    using that vo r entry_freshness_run(2) [OF vr _ t]
    by (cases "observed st rid") (auto simp: read_entry_def Let_def)
  assume past: "pred_option (\<lambda>s. rs_observed_at s \<le> now) (observed st rid)"
  note due = resource_due_run [OF vo t past, of "''registry read''" r]
  have same: "pred_option (\<lambda>ob. identity_observation_key (rs_identity ob) = identity_observation_key (rg_identity r))
    (observed st rid)"
    using inv_observed [OF inv, of rid] r by (cases "observed st rid") auto
  have v: "valid_registry_entry (entry_of st now rid)"
    using vr vo r same
    by (cases "observed st rid") (auto simp: valid_registry_entry_def entry_parts_def entry_of_def Let_def
        valid_registration_def registration_parts_def)
  moreover have "entry_freshness r (observed st rid) now = Inr (rn_freshness (entry_of st now rid))"
    using entry_freshness_run [OF vr _ t] sample_observation_valid vo past r
    by (cases "observed st rid") (auto simp: entry_of_def Let_def)
  ultimately show "read_entry st now rid = Inr (entry_of st now rid) \<and> valid_registry_entry (entry_of st now rid)"
    using registry_entry_contract.ok_mk [OF v] r due
    by (simp add: read_entry_def entry_of_def Let_def)
qed

definition registered_ids :: "resource_registry \<Rightarrow> string list" where
  "registered_ids st = sort (map fst (reg_registrations st))"

definition reading_of :: "resource_registry \<Rightarrow> string \<Rightarrow> registry_snapshot" where
  \<comment> \<open>what a successful read returns\<close>
  "reading_of st now =
     \<lparr>gs_schema_version = 1, gs_revision = reg_revision st, gs_generated_at = now,
      gs_entries = map (entry_of st now) (registered_ids st),
      gs_quota_pools = derived_pools (map (\<lambda>rid. rg_identity (the (registered st rid))) (registered_ids st))\<rparr>"

lemma registered_ids_facts:
  assumes "registry_inv st"
  shows "sorted (registered_ids st)" "distinct (registered_ids st)"
    and "rid \<in> set (registered_ids st) \<longleftrightarrow> registered st rid \<noteq> None"
  using assms
  by (simp_all add: registered_ids_def registry_inv_def registered_def map_of_eq_None_iff)

lemma reading_of_valid:
  assumes inv: "registry_inv st" and t: "ts_ok now"
    and past: "\<forall>k s. observed st k = Some s \<longrightarrow> rs_observed_at s \<le> now"
  shows "valid_registry_snapshot (reading_of st now)"
    and "pools_of (derive_members (map (\<lambda>rid. rg_identity (the (registered st rid))) (registered_ids st))) =
      Inr (gs_quota_pools (reading_of st now))"
proof -
  note ids = registered_ids_facts [OF inv]
  let ?is = "map (\<lambda>rid. rg_identity (the (registered st rid))) (registered_ids st)"
  have ident: "ri_resource_id (rg_identity (the (registered st rid))) = rid
      \<and> valid_resource_identity (rg_identity (the (registered st rid)))"
    if "rid \<in> set (registered_ids st)" for rid
    using that ids(3) inv_registered [OF inv, of rid]
    by (auto simp: valid_registration_def registration_parts_def)
  then have rids: "map ri_resource_id ?is = registered_ids st"
    and vi: "list_all valid_resource_identity ?is"
    by (simp_all add: map_idI list_all_iff)
  note pools = derived_pools_run [OF vi, unfolded rids, OF ids(2)]
  have "valid_registry_entry (entry_of st now rid)" if rid: "rid \<in> set (registered_ids st)" for rid
  proof -
    obtain r where "registered st rid = Some r" using rid ids(3) by auto
    then show ?thesis using read_entry_run(1) [OF inv t] past by (cases "observed st rid") auto
  qed
  then have "list_all valid_registry_entry (gs_entries (reading_of st now))"
    by (simp add: reading_of_def list_all_iff)
  moreover have "map entry_id (gs_entries (reading_of st now)) = registered_ids st"
    "map rn_identity (gs_entries (reading_of st now)) = ?is"
    using ident by (auto simp: reading_of_def entry_id_def entry_of_def Let_def intro: map_idI)
  moreover have "0 \<le> reg_revision st" using inv unfolding registry_inv_def by linarith
  ultimately show "valid_registry_snapshot (reading_of st now)"
    using ids pools t
    by (simp add: valid_registry_snapshot_def registry_snapshot_parts_def)
      (simp add: reading_of_def)
  show "pools_of (derive_members ?is) = Inr (gs_quota_pools (reading_of st now))"
    using pools(1) by (simp add: reading_of_def)
qed

definition read_at :: "string option \<Rightarrow> string \<Rightarrow> string" where
  "read_at now reading = (case now of None \<Rightarrow> reading | Some t \<Rightarrow> t)"

lemma current_instant_ok:
  "ts_ok (read_at now reading) \<Longrightarrow> current_instant now reading = Inr (read_at now reading)"
  by (auto simp: current_instant_def read_at_def v_ts_Inr split: option.splits)

lemma read_registry_run:
  assumes inv: "registry_inv st" and t: "ts_ok (read_at now reading)"
  defines "at \<equiv> read_at now reading"
  shows "\<forall>k s. observed st k = Some s \<longrightarrow> rs_observed_at s \<le> at \<Longrightarrow>
      read_registry now reading st = Inr (reading_of st at)"
    and "observed st k = Some s \<Longrightarrow> \<not> rs_observed_at s \<le> at \<Longrightarrow>
      \<exists>e. read_registry now reading st = Inl e"
proof -
  have t': "ts_ok at" using t by (simp add: at_def)
  note ids = registered_ids_facts [OF inv]
  note cur = current_instant_ok [OF t, folded at_def]
  have entry: "registered st rid \<noteq> None" if "rid \<in> set (registered_ids st)" for rid
    using that ids(3) by simp
  show "read_registry now reading st = Inr (reading_of st at)"
    if past: "\<forall>k s. observed st k = Some s \<longrightarrow> rs_observed_at s \<le> at"
  proof -
    have "read_entry st at rid = Inr (entry_of st at rid)" if "rid \<in> set (registered_ids st)" for rid
      using entry [OF that] read_entry_run(1) [OF inv t', of rid] past
      by (cases "observed st rid") auto
    then have "traverse (read_entry st at) (registered_ids st) = Inr (map (entry_of st at) (registered_ids st))"
      by (rule traverse_total)
    moreover note v = reading_of_valid [OF inv t' past]
    moreover have "mk_registry_snapshot (reading_of st at) = Inr (reading_of st at)"
      by (rule registry_snapshot_contract.ok_mk [OF v(1)])
    ultimately show ?thesis
      by (simp add: read_registry_def cur Let_def registered_ids_def [symmetric] REGISTRY_SCHEMA_VERSION_def)
        (simp add: reading_of_def)
  qed
  assume ob: "observed st k = Some s" and future: "\<not> rs_observed_at s \<le> at"
  obtain r where r: "registered st k = Some r" using inv_observed [OF inv ob] by blast
  then have "k \<in> set (registered_ids st)" using ids(3) by simp
  moreover obtain e where e: "read_entry st at k = Inl e"
    using read_entry_run(2) [OF inv t' r] ob future by auto
  ultimately have "traverse (read_entry st at) (registered_ids st) \<noteq> Inr ys" for ys
    by (auto simp: traverse_Inr_iff list_all2_conv_all_nth in_set_conv_nth)
  then obtain e' where "traverse (read_entry st at) (registered_ids st) = Inl e'"
    by (metis sum.exhaust)
  then show "\<exists>e. read_registry now reading st = Inl e"
    by (simp add: read_registry_def cur Let_def registered_ids_def [symmetric])
qed

lemma refresh_due_run:
  assumes inv: "registry_inv st" and t: "ts_ok (read_at now reading)"
    and past: "\<forall>k s. observed st k = Some s \<longrightarrow> rs_observed_at s \<le> read_at now reading"
  shows "refresh_due now reading st = Inr (map entry_id
    (filter rn_refresh_due (gs_entries (reading_of st (read_at now reading)))))"
proof -
  let ?at = "read_at now reading"
  note ids = registered_ids_facts [OF inv]
  let ?due = "\<lambda>rid. rn_refresh_due (entry_of st ?at rid)"
  have "bind_r (resource_due ''refresh_due'' (the (registered st rid)) (observed st rid) ?at) (\<lambda>due. Inr (rid, due))
      = Inr (rid, ?due rid)" for rid
  proof -
    have "pred_option valid_resource_snapshot (observed st rid)"
      "pred_option (\<lambda>s. rs_observed_at s \<le> ?at) (observed st rid)"
      using inv_observed [OF inv, of rid] past by (cases "observed st rid"; auto)+
    from resource_due_run [OF this(1) t this(2)] show ?thesis by (simp add: entry_of_def Let_def)
  qed
  then have "traverse (\<lambda>rid. bind_r (resource_due ''refresh_due'' (the (registered st rid)) (observed st rid) ?at)
      (\<lambda>due. Inr (rid, due))) (registered_ids st) = Inr (map (\<lambda>rid. (rid, ?due rid)) (registered_ids st))"
    by (intro traverse_total)
  moreover have "entry_id (entry_of st ?at rid) = rid" if "rid \<in> set (registered_ids st)" for rid
    using that ids(3) inv_registered [OF inv, of rid] by (auto simp: entry_id_def entry_of_def Let_def)
  then have "map (\<lambda>rid. entry_id (entry_of st ?at rid)) (filter ?due (registered_ids st))
      = filter ?due (registered_ids st)"
    by (intro map_idI) simp
  ultimately show ?thesis
    by (simp add: refresh_due_def current_instant_ok [OF t] registered_ids_def [symmetric] reading_of_def
        filter_map comp_def)
qed

lemma registry_read_spec_parts:
  assumes "registry_reachable st" "ts_ok (read_at now reading)"
  shows "(\<exists>g. read_registry now reading st = Inr g) \<longleftrightarrow>
      (\<forall>k s. observed st k = Some s \<longrightarrow> rs_observed_at s \<le> read_at now reading)"
    and "read_registry now reading st = Inr g \<Longrightarrow>
      valid_registry_snapshot g \<and> gs_revision g = reg_revision st \<and> gs_generated_at g = read_at now reading
      \<and> map entry_id (gs_entries g) = sort (map fst (reg_registrations st))
      \<and> refresh_due now reading st = Inr (map entry_id (filter rn_refresh_due (gs_entries g)))"
    and "read_registry now reading st = Inr g \<Longrightarrow> e \<in> set (gs_entries g) \<Longrightarrow>
      \<exists>r. registered st (entry_id e) = Some r \<and> rn_identity e = rg_identity r
        \<and> rn_freshness_ttl_seconds e = rg_freshness_ttl_seconds r
        \<and> rn_observation e = observed st (entry_id e)
        \<and> (rn_freshness e = Fr_never_observed \<longleftrightarrow> observed st (entry_id e) = None)
        \<and> (rn_freshness e = Fr_fresh \<longleftrightarrow> (\<exists>s. observed st (entry_id e) = Some s
             \<and> age_ms (read_at now reading) (rs_observed_at s) \<le> rg_freshness_ttl_seconds r * 1000
             \<and> \<not> reset_reached s (read_at now reading)))"
proof -
  let ?at = "read_at now reading"
  note inv = registry_reachable_inv [OF assms(1)]
  note ids = registered_ids_facts [OF inv]
  note run = read_registry_run [OF inv assms(2)]
  show iff: "(\<exists>g. read_registry now reading st = Inr g) \<longleftrightarrow>
      (\<forall>k s. observed st k = Some s \<longrightarrow> rs_observed_at s \<le> ?at)"
    using run by (metis sum.distinct(1))
  assume g: "read_registry now reading st = Inr g"
  then have past: "\<forall>k s. observed st k = Some s \<longrightarrow> rs_observed_at s \<le> ?at" using iff by blast
  with run(1) g have eq: "g = reading_of st ?at" by simp
  have id: "entry_id (entry_of st ?at rid) = rid" if "rid \<in> set (registered_ids st)" for rid
    using that ids(3) inv_registered [OF inv, of rid] by (auto simp: entry_id_def entry_of_def Let_def)
  then have "map entry_id (gs_entries g) = registered_ids st"
    unfolding eq by (simp add: reading_of_def map_idI)
  then show "valid_registry_snapshot g \<and> gs_revision g = reg_revision st \<and> gs_generated_at g = ?at
      \<and> map entry_id (gs_entries g) = sort (map fst (reg_registrations st))
      \<and> refresh_due now reading st = Inr (map entry_id (filter rn_refresh_due (gs_entries g)))"
    using reading_of_valid(1) [OF inv assms(2) past] refresh_due_run [OF inv assms(2) past]
    unfolding eq registered_ids_def by (simp add: reading_of_def)
  assume "e \<in> set (gs_entries g)"
  then obtain rid where rid: "rid \<in> set (registered_ids st)" "e = entry_of st ?at rid"
    unfolding eq by (auto simp: reading_of_def)
  then obtain r where "registered st rid = Some r" using ids(3) by auto
  then show "\<exists>r. registered st (entry_id e) = Some r \<and> rn_identity e = rg_identity r
        \<and> rn_freshness_ttl_seconds e = rg_freshness_ttl_seconds r
        \<and> rn_observation e = observed st (entry_id e)
        \<and> (rn_freshness e = Fr_never_observed \<longleftrightarrow> observed st (entry_id e) = None)
        \<and> (rn_freshness e = Fr_fresh \<longleftrightarrow> (\<exists>s. observed st (entry_id e) = Some s
             \<and> age_ms ?at (rs_observed_at s) \<le> rg_freshness_ttl_seconds r * 1000
             \<and> \<not> reset_reached s ?at))"
    using id [OF rid(1)] rid(2)
    by (cases "observed st rid") (auto simp: entry_of_def Let_def stale_at_def)
qed

text \<open>
  C29: Reading a reachable registry at a canonical instant succeeds exactly when no stored observation is
  dated after it. The reading is a valid document with the current revision, one entry per
  registered resource in the order of ids, each with the registration's identity and policy and the
  last observation; an entry is never_observed exactly without one, and fresh exactly when the
  observation's age is within the registered TTL and no window's reset instant has been reached. The
  refresh flags are the answer of \<open>refresh_due\<close> at the same instant.
\<close>

theorem registry_read_spec:
  assumes "registry_reachable st" "ts_ok (read_at now reading)"
  shows "((\<exists>g. read_registry now reading st = Inr g) \<longleftrightarrow>
      (\<forall>k s. observed st k = Some s \<longrightarrow> rs_observed_at s \<le> read_at now reading))
    \<and> (\<forall>g. read_registry now reading st = Inr g \<longrightarrow>
      valid_registry_snapshot g \<and> gs_revision g = reg_revision st \<and> gs_generated_at g = read_at now reading
      \<and> map entry_id (gs_entries g) = sort (map fst (reg_registrations st))
      \<and> refresh_due now reading st = Inr (map entry_id (filter rn_refresh_due (gs_entries g)))
      \<and> (\<forall>e \<in> set (gs_entries g). \<exists>r. registered st (entry_id e) = Some r \<and> rn_identity e = rg_identity r
        \<and> rn_freshness_ttl_seconds e = rg_freshness_ttl_seconds r
        \<and> rn_observation e = observed st (entry_id e)
        \<and> (rn_freshness e = Fr_never_observed \<longleftrightarrow> observed st (entry_id e) = None)
        \<and> (rn_freshness e = Fr_fresh \<longleftrightarrow> (\<exists>s. observed st (entry_id e) = Some s
             \<and> age_ms (read_at now reading) (rs_observed_at s) \<le> rg_freshness_ttl_seconds r * 1000
             \<and> \<not> reset_reached s (read_at now reading)))))"
proof (intro conjI allI impI ballI)
  fix g e
  assume "read_registry now reading st = Inr g" "e \<in> set (gs_entries g)"
  then show "\<exists>r. registered st (entry_id e) = Some r \<and> rn_identity e = rg_identity r
        \<and> rn_freshness_ttl_seconds e = rg_freshness_ttl_seconds r
        \<and> rn_observation e = observed st (entry_id e)
        \<and> (rn_freshness e = Fr_never_observed \<longleftrightarrow> observed st (entry_id e) = None)
        \<and> (rn_freshness e = Fr_fresh \<longleftrightarrow> (\<exists>s. observed st (entry_id e) = Some s
             \<and> age_ms (read_at now reading) (rs_observed_at s) \<le> rg_freshness_ttl_seconds r * 1000
             \<and> \<not> reset_reached s (read_at now reading)))"
    by (rule registry_read_spec_parts(3) [OF assms])
qed (use registry_read_spec_parts(1,2) [OF assms] in blast)+


lemma sample_never_observed: "observed sample_registry k = None"
  by (simp add: sample_registry_def register_def Let_def is_registered_def registered_def observed_def
      empty_registry_def)

theorem registry_read_spec_witness:
  "\<exists>g. read_registry None ''2026-03-01T10:05:00.000Z'' sample_registry = Inr g
     \<and> map entry_id (gs_entries g) = [''r1'']
     \<and> refresh_due None ''2026-03-01T10:05:00.000Z'' sample_registry
         = Inr (map entry_id (filter rn_refresh_due (gs_entries g)))"
proof -
  have "ts_ok (read_at None ''2026-03-01T10:05:00.000Z'')" by code_simp
  note spec = registry_read_spec [OF sample_reachable this]
  obtain g where "read_registry None ''2026-03-01T10:05:00.000Z'' sample_registry = Inr g"
    using spec [THEN conjunct1] sample_never_observed by auto
  moreover have "sort (map fst (reg_registrations sample_registry)) = [''r1'']"
    by (simp add: sample_registry_def register_def Let_def is_registered_def registered_def
        empty_registry_def sample_registration_def sample_resource_def)
  ultimately show ?thesis using spec [THEN conjunct2] by metis
qed

lemma staleness_permanent_parts:
  assumes "valid_registration r" "valid_resource_snapshot ob" "ts_ok t1" "ts_ok t2" "t1 \<le> t2"
  shows "entry_freshness r (Some ob) t1 = Inr Fr_stale \<Longrightarrow> entry_freshness r (Some ob) t2 = Inr Fr_stale"
    and "t1 < rs_observed_at ob \<longleftrightarrow> (\<exists>e. entry_freshness r (Some ob) t1 = Inl e)"
    and "resource_due ctx r (Some ob) t1 = Inr True \<Longrightarrow> resource_due ctx r (Some ob) t2 = Inr True"
    and "rs_observed_at ob \<le> t1 \<Longrightarrow> reset_reached ob t1 \<Longrightarrow> rg_poll_interval_seconds r \<noteq> None \<Longrightarrow>
      entry_freshness r (Some ob) t1 = Inr Fr_stale \<and> resource_due ctx r (Some ob) t1 = Inr True"
proof -
  note run1 = entry_freshness_run(2) [OF assms(1,2,3)] and run2 = entry_freshness_run(2) [OF assms(1,2,4)]
  have age: "age_ms t1 x \<le> age_ms t2 x" for x
    using ts_le_iff [OF assms(3,4)] assms(5) by (simp add: age_ms_def)
  have reset: "reset_reached ob t1 \<Longrightarrow> reset_reached ob t2"
    using assms(5) by (auto simp: reset_reached_def intro: order_trans)
  have stale: "stale_at n ob t1 \<Longrightarrow> stale_at n ob t2" for n
    using age [of "rs_observed_at ob"] reset by (auto simp: stale_at_def)
  have due: "rs_observed_at ob \<le> t \<Longrightarrow> ts_ok t \<Longrightarrow>
      resource_due ctx r (Some ob) t = Inr (due_at (rg_poll_interval_seconds r) (Some ob) t)" for t
    using resource_due_run [of "Some ob" t ctx r] assms(2) by simp
  have nd: "resource_due ctx r (Some ob) t1 = Inr True \<Longrightarrow> rs_observed_at ob \<le> t1"
    using age_nonneg_iff [of "rs_observed_at ob" t1] assms(2,3)
    by (cases "rg_poll_interval_seconds r")
      (auto simp: resource_due_def bind_r_Inr_iff age_or_reject_Inr valid_resource_snapshot_def)
  show "entry_freshness r (Some ob) t1 = Inr Fr_stale \<Longrightarrow> entry_freshness r (Some ob) t2 = Inr Fr_stale"
    unfolding run1 run2 using stale assms(5) by (auto split: if_splits)
  show "t1 < rs_observed_at ob \<longleftrightarrow> (\<exists>e. entry_freshness r (Some ob) t1 = Inl e)"
    unfolding run1 by (auto simp: not_le)
  show "resource_due ctx r (Some ob) t2 = Inr True" if "resource_due ctx r (Some ob) t1 = Inr True"
    using that nd [OF that] due [of t1] due [of t2] assms(3-5) age [of "rs_observed_at ob"] reset
    by (auto simp: due_at_def split: option.splits)
  show "entry_freshness r (Some ob) t1 = Inr Fr_stale \<and> resource_due ctx r (Some ob) t1 = Inr True"
    if "rs_observed_at ob \<le> t1" "reset_reached ob t1" "rg_poll_interval_seconds r \<noteq> None"
    unfolding run1 due [OF that(1) assms(3)] using that by (auto simp: stale_at_def due_at_def)
qed

text \<open>
  Staleness is permanent: an observation that is stale at one instant is stale at every later one, and
  becomes due for refresh no later than it becomes stale by a reached reset. Only a new observation
  makes a resource fresh again. An observation is never evaluated before its own instant.
\<close>

theorem staleness_permanent:
  assumes "valid_registration r" "valid_resource_snapshot ob" "ts_ok t1" "ts_ok t2" "t1 \<le> t2"
  shows "(entry_freshness r (Some ob) t1 = Inr Fr_stale \<longrightarrow> entry_freshness r (Some ob) t2 = Inr Fr_stale)
    \<and> (t1 < rs_observed_at ob \<longleftrightarrow> (\<exists>e. entry_freshness r (Some ob) t1 = Inl e))
    \<and> (resource_due ctx r (Some ob) t1 = Inr True \<longrightarrow> resource_due ctx r (Some ob) t2 = Inr True)
    \<and> (rs_observed_at ob \<le> t1 \<and> reset_reached ob t1 \<and> rg_poll_interval_seconds r \<noteq> None \<longrightarrow>
      entry_freshness r (Some ob) t1 = Inr Fr_stale \<and> resource_due ctx r (Some ob) t1 = Inr True)"
  using staleness_permanent_parts [OF assms] by meson


theorem staleness_permanent_witness:
  "entry_freshness sample_registration (Some sample_observation) ''2026-03-01T12:00:00.000Z'' = Inr Fr_stale
   \<and> entry_freshness sample_registration (Some sample_observation) ''2026-03-02T00:00:00.000Z'' = Inr Fr_stale
   \<and> resource_due ''x'' sample_registration (Some sample_observation) ''2026-03-01T12:00:00.000Z'' = Inr True"
proof -
  have t: "ts_ok ''2026-03-01T12:00:00.000Z''" "ts_ok ''2026-03-02T00:00:00.000Z''" by code_simp+
  have le: "''2026-03-01T12:00:00.000Z'' \<le> ''2026-03-02T00:00:00.000Z''" by simp
  note perm = staleness_permanent [OF sample_registration_valid sample_observation_valid t le]
  have "rs_observed_at sample_observation \<le> ''2026-03-01T12:00:00.000Z''"
    "rg_poll_interval_seconds sample_registration \<noteq> None"
    by (simp_all add: sample_observation_def normalised_def sample_capacity_def sample_registration_def)
  moreover have "reset_reached sample_observation ''2026-03-01T12:00:00.000Z''"
    by (simp add: reset_reached_def sample_observation_def normalised_def sample_capacity_def sample_window_def)
  ultimately show ?thesis using perm by blast
qed

lemma quota_pools_exact_parts:
  assumes "registry_reachable st" "ts_ok (read_at now reading)" "read_registry now reading st = Inr g"
  shows "p \<in> qp_pool_id ` set (gs_quota_pools g) \<longleftrightarrow>
      (\<exists>k r. registered st k = Some r \<and> p \<in> set (ri_quota_pool_ids (rg_identity r)))"
    and "q \<in> set (gs_quota_pools g) \<Longrightarrow> k \<in> set (qp_resource_ids q) \<longleftrightarrow>
      (\<exists>r. registered st k = Some r \<and> qp_pool_id q \<in> set (ri_quota_pool_ids (rg_identity r)))"
    and "distinct (map qp_pool_id (gs_quota_pools g))"
    and "op_typed op \<Longrightarrow> (\<forall>r. op \<noteq> Op_register r) \<Longrightarrow>
      read_registry now' reading' (snd (run_op op st)) = Inr g' \<Longrightarrow> ts_ok (read_at now' reading') \<Longrightarrow>
      gs_quota_pools g' = gs_quota_pools g"
proof -
  note inv = registry_reachable_inv [OF assms(1)]
  note ids = registered_ids_facts [OF inv]
  have reading: "g' = reading_of st' (read_at n t)"
    if "registry_inv st'" "ts_ok (read_at n t)" "read_registry n t st' = Inr g'" for st' n t g'
    using read_registry_run [OF that(1,2)] that(3) by (metis sum.distinct(1) sum.inject(2))
  let ?is = "map (\<lambda>rid. rg_identity (the (registered st rid))) (registered_ids st)"
  have g: "gs_quota_pools g = derived_pools ?is"
    using reading [OF inv assms(2,3)] by (simp add: reading_of_def)
  have named: "(\<exists>i \<in> set ?is. ri_resource_id i = k \<and> p \<in> set (ri_quota_pool_ids i)) \<longleftrightarrow>
      (\<exists>r. registered st k = Some r \<and> p \<in> set (ri_quota_pool_ids (rg_identity r)))" for k p
    using ids(3) inv_registered [OF inv] by auto
  have "p \<in> qp_pool_id ` set (derived_pools ?is) \<longleftrightarrow> (\<exists>i \<in> set ?is. p \<in> set (ri_quota_pool_ids i))" for p
    by (simp add: derived_pools_def image_image)
  then show "p \<in> qp_pool_id ` set (gs_quota_pools g) \<longleftrightarrow>
      (\<exists>k r. registered st k = Some r \<and> p \<in> set (ri_quota_pool_ids (rg_identity r)))"
    unfolding g using named [of _ p] by blast
  assume "q \<in> set (gs_quota_pools g)"
  then have "qp_resource_ids q = sort (pool_members_of ?is (qp_pool_id q))"
    unfolding g by (auto simp: derived_pools_def)
  then have "k \<in> set (qp_resource_ids q) \<longleftrightarrow> (\<exists>i \<in> set ?is. ri_resource_id i = k \<and> qp_pool_id q \<in> set (ri_quota_pool_ids i))"
    by (auto simp: pool_members_of_def)
  then show "k \<in> set (qp_resource_ids q) \<longleftrightarrow>
      (\<exists>r. registered st k = Some r \<and> qp_pool_id q \<in> set (ri_quota_pool_ids (rg_identity r)))"
    unfolding named .
next
  note inv = registry_reachable_inv [OF assms(1)]
  have reading: "g' = reading_of st' (read_at n t)"
    if "registry_inv st'" "ts_ok (read_at n t)" "read_registry n t st' = Inr g'" for st' n t g'
    using read_registry_run [OF that(1,2)] that(3) by (metis sum.distinct(1) sum.inject(2))
  note v = reading_of_valid(1) [OF inv assms(2)]
  show "distinct (map qp_pool_id (gs_quota_pools g))"
    using reading [OF inv assms(2,3)] by (simp add: reading_of_def derived_pools_def comp_def)
  assume op: "op_typed op" "\<forall>r. op \<noteq> Op_register r" "ts_ok (read_at now' reading')"
    "read_registry now' reading' (snd (run_op op st)) = Inr g'"
  have same: "reg_registrations (snd (run_op op st)) = reg_registrations st"
    using op(2) by (cases op) (auto simp: apply_snapshot_def apply_worker_report_def bump_def split: sum.splits)
  have "g' = reading_of (snd (run_op op st)) (read_at now' reading')"
    by (rule reading [OF run_op_inv [OF inv op(1)] op(3,4)])
  moreover have "g = reading_of st (read_at now reading)" by (rule reading [OF inv assms(2,3)])
  ultimately show "gs_quota_pools g' = gs_quota_pools g"
    using same by (simp add: reading_of_def registered_ids_def registered_def)
qed

text \<open>
  Quota pools in a reading are exactly the registered ones: a group exists for a pool exactly when
  some registration names the pool, and its members are the ids, each once and in order, whose
  registration names it. No observation or report can create, widen or drop a pool.
\<close>

theorem quota_pools_exact:
  assumes "registry_reachable st" "ts_ok (read_at now reading)" "read_registry now reading st = Inr g"
  shows "(\<forall>p. p \<in> qp_pool_id ` set (gs_quota_pools g) \<longleftrightarrow>
      (\<exists>k r. registered st k = Some r \<and> p \<in> set (ri_quota_pool_ids (rg_identity r))))
    \<and> (\<forall>q \<in> set (gs_quota_pools g). \<forall>k. k \<in> set (qp_resource_ids q) \<longleftrightarrow>
      (\<exists>r. registered st k = Some r \<and> qp_pool_id q \<in> set (ri_quota_pool_ids (rg_identity r))))
    \<and> distinct (map qp_pool_id (gs_quota_pools g))
    \<and> (\<forall>op now' reading' g'. op_typed op \<and> (\<forall>r. op \<noteq> Op_register r)
        \<and> read_registry now' reading' (snd (run_op op st)) = Inr g' \<and> ts_ok (read_at now' reading')
        \<longrightarrow> gs_quota_pools g' = gs_quota_pools g)"
proof (intro conjI allI impI ballI)
  show "p \<in> qp_pool_id ` set (gs_quota_pools g) \<longleftrightarrow>
      (\<exists>k r. registered st k = Some r \<and> p \<in> set (ri_quota_pool_ids (rg_identity r)))" for p
    by (rule quota_pools_exact_parts(1) [OF assms])
  show "k \<in> set (qp_resource_ids q) \<longleftrightarrow>
      (\<exists>r. registered st k = Some r \<and> qp_pool_id q \<in> set (ri_quota_pool_ids (rg_identity r)))"
    if "q \<in> set (gs_quota_pools g)" for q k
    using that by (rule quota_pools_exact_parts(2) [OF assms])
  show "distinct (map qp_pool_id (gs_quota_pools g))" by (rule quota_pools_exact_parts(3) [OF assms])
  show "gs_quota_pools g' = gs_quota_pools g"
    if "op_typed op \<and> (\<forall>r. op \<noteq> Op_register r)
        \<and> read_registry now' reading' (snd (run_op op st)) = Inr g' \<and> ts_ok (read_at now' reading')"
    for op now' reading' g'
    using that by (intro quota_pools_exact_parts(4) [OF assms, of op now' reading']) simp_all
qed


definition pooled_registration :: resource_registration where
  "pooled_registration = sample_registration\<lparr>rg_identity := sample_resource [''p'']\<rparr>"

definition pooled_registry :: resource_registry where
  "pooled_registry = snd (register pooled_registration empty_registry)"

lemma pooled_reachable: "registry_reachable pooled_registry"
proof -
  have "valid_registration pooled_registration" by code_simp
  then show ?thesis
    using registry_reachable.step [OF registry_reachable.start, of "Op_register pooled_registration"]
    by (simp add: pooled_registry_def)
qed

lemma pooled_facts:
  "registered pooled_registry k = (if k = ''r1'' then Some pooled_registration else None)"
  "observed pooled_registry k = None"
  by (simp_all add: pooled_registry_def register_def Let_def is_registered_def registered_def observed_def
      empty_registry_def pooled_registration_def sample_registration_def sample_resource_def)

theorem quota_pools_exact_witness:
  "\<exists>g. read_registry None ''2026-03-01T10:05:00.000Z'' pooled_registry = Inr g
     \<and> ''p'' \<in> qp_pool_id ` set (gs_quota_pools g) \<and> ''q'' \<notin> qp_pool_id ` set (gs_quota_pools g)"
proof -
  have t: "ts_ok (read_at None ''2026-03-01T10:05:00.000Z'')" by code_simp
  obtain g where g: "read_registry None ''2026-03-01T10:05:00.000Z'' pooled_registry = Inr g"
    using read_registry_run(1) [OF registry_reachable_inv [OF pooled_reachable] t] pooled_facts(2) by auto
  show ?thesis
    using g quota_pools_exact [OF pooled_reachable t g, THEN conjunct1, rule_format, of "''p''"]
      quota_pools_exact [OF pooled_reachable t g, THEN conjunct1, rule_format, of "''q''"]
    by (simp add: pooled_facts(1) pooled_registration_def sample_resource_def)
qed

lemma registry_reading_roundtrip_parts:
  assumes "registry_reachable st" "ts_ok (read_at now reading)" "read_registry now reading st = Inr g"
  shows "registry_snapshot_from_dict (registry_snapshot_to_dict g) = Inr g"
    and "valid_registry_snapshot h \<Longrightarrow> registry_snapshot_to_dict h = registry_snapshot_to_dict g \<Longrightarrow> h = g"
    and "registry_snapshot_from_dict d = Inr h \<Longrightarrow>
      list_all (\<lambda>e. pred_option (\<lambda>s. identity_observation_key (rs_identity s)
          = identity_observation_key (rn_identity e)) (rn_observation e)) (gs_entries h)
      \<and> pools_of (derive_members (map rn_identity (gs_entries h))) = Inr (gs_quota_pools h)"
proof -
  note inv = registry_reachable_inv [OF assms(1)]
  have "g = reading_of st (read_at now reading)"
    "\<forall>k s. observed st k = Some s \<longrightarrow> rs_observed_at s \<le> read_at now reading"
    using read_registry_run [OF inv assms(2)] assms(3) by (metis sum.distinct(1) sum.inject(2))+
  then have v: "valid_registry_snapshot g" using reading_of_valid(1) [OF inv assms(2)] by simp
  then show "registry_snapshot_from_dict (registry_snapshot_to_dict g) = Inr g"
    by (rule registry_snapshot_contract.from_to)
  show "valid_registry_snapshot h \<Longrightarrow> registry_snapshot_to_dict h = registry_snapshot_to_dict g \<Longrightarrow> h = g"
    using registry_snapshot_contract.same_wire_iff [OF _ v] by blast
  assume "registry_snapshot_from_dict d = Inr h"
  then have "valid_registry_snapshot h" by (rule registry_snapshot_contract.parsed_ok)
  then show "list_all (\<lambda>e. pred_option (\<lambda>s. identity_observation_key (rs_identity s)
          = identity_observation_key (rn_identity e)) (rn_observation e)) (gs_entries h)
      \<and> pools_of (derive_members (map rn_identity (gs_entries h))) = Inr (gs_quota_pools h)"
    by (simp add: valid_registry_snapshot_def registry_snapshot_parts_def valid_registry_entry_def list_all_iff)
qed

text \<open>
  C31: Every reading of a reachable registry is a wire document: parsing its serialised form gives the
  same reading back, with every observation, capability, cost and pool, and two readings have the
  same serialised form only when they are equal. A parsed document satisfies the whole contract, so
  an entry whose observation belongs to another resource or whose pools are not the derived ones is
  never read.
\<close>

theorem registry_reading_roundtrip:
  assumes "registry_reachable st" "ts_ok (read_at now reading)" "read_registry now reading st = Inr g"
  shows "registry_snapshot_from_dict (registry_snapshot_to_dict g) = Inr g
    \<and> (\<forall>h. valid_registry_snapshot h \<and> registry_snapshot_to_dict h = registry_snapshot_to_dict g \<longrightarrow> h = g)
    \<and> (\<forall>d h. registry_snapshot_from_dict d = Inr h \<longrightarrow>
      list_all (\<lambda>e. pred_option (\<lambda>s. identity_observation_key (rs_identity s)
          = identity_observation_key (rn_identity e)) (rn_observation e)) (gs_entries h)
      \<and> pools_of (derive_members (map rn_identity (gs_entries h))) = Inr (gs_quota_pools h))"
  using registry_reading_roundtrip_parts [OF assms] by meson


theorem registry_reading_roundtrip_witness:
  "\<exists>g. read_registry None ''2026-03-01T10:05:00.000Z'' pooled_registry = Inr g
     \<and> registry_snapshot_from_dict (registry_snapshot_to_dict g) = Inr g"
proof -
  have t: "ts_ok (read_at None ''2026-03-01T10:05:00.000Z'')" by code_simp
  obtain g where g: "read_registry None ''2026-03-01T10:05:00.000Z'' pooled_registry = Inr g"
    using read_registry_run(1) [OF registry_reachable_inv [OF pooled_reachable] t] pooled_facts(2) by auto
  then show ?thesis using registry_reading_roundtrip [OF pooled_reachable t g] by blast
qed

end
