(* ===== verification/Route_Types.thy ===== *)
theory Route_Types
  imports Resource_Registry Selector
begin

text \<open>
  routing_core.py, the input contracts: spending limit, administrator constraints, client
  authorization, routing profile, pinned target, request binding and compatibility cell. Every
  class has its construction (\<open>mk_*\<close>), parser and serialiser; all of them keep what they are
  given, so that reading back is the identity.
\<close>

abbreviation rt_exn :: "string \<Rightarrow> py_error" where
  "rt_exn \<equiv> RouteContractValidationError"

section \<open>Frozen value sets\<close>

datatype compat_feature =
    Fe_roles_history | Fe_streaming | Fe_tool_calls | Fe_tool_results | Fe_structured_output
  | Fe_reasoning_controls | Fe_context_limits | Fe_error_semantics | Fe_usage_reporting
  | Fe_cancellation

fun feature_str :: "compat_feature \<Rightarrow> string" where
  "feature_str Fe_roles_history = ''roles_history''"
| "feature_str Fe_streaming = ''streaming''"
| "feature_str Fe_tool_calls = ''tool_calls''"
| "feature_str Fe_tool_results = ''tool_results''"
| "feature_str Fe_structured_output = ''structured_output''"
| "feature_str Fe_reasoning_controls = ''reasoning_controls''"
| "feature_str Fe_context_limits = ''context_limits''"
| "feature_str Fe_error_semantics = ''error_semantics''"
| "feature_str Fe_usage_reporting = ''usage_reporting''"
| "feature_str Fe_cancellation = ''cancellation''"

definition COMPAT_FEATURES :: "compat_feature list" where
  "COMPAT_FEATURES = [Fe_roles_history, Fe_streaming, Fe_tool_calls, Fe_tool_results,
     Fe_structured_output, Fe_reasoning_controls, Fe_context_limits, Fe_error_semantics,
     Fe_usage_reporting, Fe_cancellation]"

datatype cell_value = Cell_PASS | Cell_PARTIAL | Cell_UNSUPPORTED | Cell_UNKNOWN

fun cell_str :: "cell_value \<Rightarrow> string" where
  "cell_str Cell_PASS = ''PASS''"
| "cell_str Cell_PARTIAL = ''PARTIAL''"
| "cell_str Cell_UNSUPPORTED = ''UNSUPPORTED''"
| "cell_str Cell_UNKNOWN = ''UNKNOWN''"

definition COMPAT_CELL_VALUES :: "cell_value list" where
  "COMPAT_CELL_VALUES = [Cell_PASS, Cell_PARTIAL, Cell_UNSUPPORTED, Cell_UNKNOWN]"

definition METERED_ENTITLEMENTS :: "entitlement_class list" where
  "METERED_ENTITLEMENTS = [En_payg_metered, En_prepaid_credits]"

interpretation feature_vocab: vocabulary feature_str COMPAT_FEATURES
  by (rule vocabularyI, simp add: COMPAT_FEATURES_def, case_tac x, simp_all add: COMPAT_FEATURES_def)

interpretation cell_vocab: vocabulary cell_str COMPAT_CELL_VALUES
  by (rule vocabularyI, simp add: COMPAT_CELL_VALUES_def, case_tac x, simp_all add: COMPAT_CELL_VALUES_def)

section \<open>Validators\<close>

definition v_sorted_safe_ids :: "string list option \<Rightarrow> pyval list \<Rightarrow> string \<Rightarrow> string list result" where
  "v_sorted_safe_ids allowed vs fld =
     bind_r (traverse (\<lambda>v. v_safe_id rt_exn v fld) vs) (\<lambda>ids.
       if card (set ids) \<noteq> length ids then Inl (rt_exn fld)
       else if ids \<noteq> sort ids then Inl (rt_exn fld)
       else if (case allowed of None \<Rightarrow> False | Some A \<Rightarrow> \<not> list_all (\<lambda>i. i \<in> set A) ids)
         then Inl (rt_exn fld)
       else Inr ids)"

definition id_list_field :: "string list option \<Rightarrow> pyval \<Rightarrow> string \<Rightarrow> string list result" where
  "id_list_field allowed v fld =
     bind_r (v_list rt_exn v fld) (\<lambda>vs. v_sorted_safe_ids allowed vs fld)"

definition enums_of :: "('a \<Rightarrow> string) \<Rightarrow> 'a list \<Rightarrow> string list \<Rightarrow> 'a list" where
  \<comment> \<open>strings of a closed set read as its constructors\<close>
  "enums_of str members ids = map (\<lambda>s. the (find (\<lambda>x. str x = s) members)) ids"

definition v_sorted_enums ::
  "('a \<Rightarrow> string) \<Rightarrow> 'a list \<Rightarrow> pyval list \<Rightarrow> string \<Rightarrow> 'a list result" where
  \<comment> \<open>\<open>_v_sorted_safe_ids\<close> with \<open>allowed\<close> a closed set\<close>
  "v_sorted_enums str members vs fld =
     bind_r (v_sorted_safe_ids (Some (map str members)) vs fld) (\<lambda>ids. Inr (enums_of str members ids))"

definition enum_list_field :: "('a \<Rightarrow> string) \<Rightarrow> 'a list \<Rightarrow> pyval \<Rightarrow> string \<Rightarrow> 'a list result" where
  "enum_list_field str members v fld =
     bind_r (v_list rt_exn v fld) (\<lambda>vs. v_sorted_enums str members vs fld)"

definition sorted_ids :: "string list \<Rightarrow> bool" where
  "sorted_ids ids = (list_all safe_id_match ids \<and> sorted ids \<and> distinct ids)"

definition sorted_by :: "('a \<Rightarrow> string) \<Rightarrow> 'a list \<Rightarrow> bool" where
  "sorted_by str xs = (sorted (map str xs) \<and> distinct xs)"

lemma sort_eq_iff: "xs = sort xs \<longleftrightarrow> sorted (xs :: 'a :: linorder list)"
  by (metis sorted_sort sorted_sort_id)

lemma map_PStr_eq [valid_simps]: "map PStr xs = map PStr ys \<longleftrightarrow> xs = ys"
  by (simp add: inj_map_eq_map inj_def)

lemma v_sorted_safe_ids_Inr [valid_simps]:
  "v_sorted_safe_ids allowed vs fld = Inr ids \<longleftrightarrow>
     vs = map PStr ids \<and> sorted_ids ids \<and> pred_option (\<lambda>A. set ids \<subseteq> set A) allowed"
proof -
  have t: "traverse (\<lambda>v. v_safe_id rt_exn v fld) vs = Inr is \<longleftrightarrow>
      vs = map PStr is \<and> list_all safe_id_match is" for "is"
  proof -
    have "list_all2 (\<lambda>v i. v = PStr i \<and> safe_id_match i) vs is \<longleftrightarrow> vs = map PStr is \<and> list_all safe_id_match is"
      by (induction vs "is" rule: list_induct2') auto
    then show ?thesis by (simp add: traverse_Inr_iff v_safe_id_Inr)
  qed
  show ?thesis
    by (cases allowed)
      (auto simp: v_sorted_safe_ids_def bind_r_Inr_iff t sorted_ids_def sort_eq_iff list_all_iff
        distinct_card dest: card_distinct split: if_splits)
qed

lemma id_list_field_Inr [valid_simps]:
  "id_list_field allowed v fld = Inr ids \<longleftrightarrow>
     v = PList (map PStr ids) \<and> sorted_ids ids \<and> pred_option (\<lambda>A. set ids \<subseteq> set A) allowed"
  by (auto simp: id_list_field_def result_simps valid_simps)

context vocabulary
begin

lemma map_PStr_str_eq [valid_simps]:
  "map (\<lambda>x. PStr (str x)) xs = map (\<lambda>x. PStr (str x)) ys \<longleftrightarrow> xs = ys"
  by (simp add: inj_map_eq_map inj_def)

lemma enums_of_str [simp]: "enums_of str members (map str xs) = xs"
proof -
  have "find (\<lambda>y. str y = str x) members = Some x" for x by (simp only: find_str) simp
  then show ?thesis by (simp add: enums_of_def comp_def)
qed

lemma enums_of_in: "set ids \<subseteq> str ` set members \<Longrightarrow> map str (enums_of str members ids) = ids"
proof (induction ids)
  case (Cons i ids)
  then obtain x where "i = str x" by auto
  with Cons show ?case
    using find_str [of "str x" members x] by (simp add: enums_of_def)
qed (simp add: enums_of_def)

lemma v_sorted_enums_Inr [valid_simps]:
  assumes safe: "\<And>x. safe_id_match (str x)"
  shows "v_sorted_enums str members vs fld = Inr xs \<longleftrightarrow> vs = map (\<lambda>x. PStr (str x)) xs \<and> sorted_by str xs"
proof
  assume "v_sorted_enums str members vs fld = Inr xs"
  then obtain ids where "vs = map PStr ids" "sorted_ids ids" "set ids \<subseteq> str ` set members"
    "xs = enums_of str members ids"
    by (auto simp: v_sorted_enums_def bind_r_Inr_iff v_sorted_safe_ids_Inr)
  moreover from this have ids: "map str xs = ids" by (simp add: enums_of_in)
  ultimately have "vs = map PStr (map str xs)" "sorted (map str xs) \<and> distinct (map str xs)"
    by (simp_all only: ids sorted_ids_def simp_thms)
  then show "vs = map (\<lambda>x. PStr (str x)) xs \<and> sorted_by str xs"
    by (simp add: sorted_by_def distinct_map comp_def)
next
  assume xs: "vs = map (\<lambda>x. PStr (str x)) xs \<and> sorted_by str xs"
  have "distinct (map str xs)" using xs by (simp add: sorted_by_def distinct_map inj_str)
  then have "sorted_ids (map str xs)" using xs by (simp add: sorted_ids_def sorted_by_def list_all_iff safe)
  moreover have "set (map str xs) \<subseteq> set (map str members)" by auto
  moreover have "vs = map PStr (map str xs)" using xs by simp
  ultimately have "v_sorted_safe_ids (Some (map str members)) vs fld = Inr (map str xs)"
    by (simp only: v_sorted_safe_ids_Inr option.pred_inject simp_thms)
  then show "v_sorted_enums str members vs fld = Inr xs"
    by (simp add: v_sorted_enums_def)
qed

lemma enum_list_field_Inr [valid_simps]:
  assumes "\<And>x. safe_id_match (str x)"
  shows "enum_list_field str members v fld = Inr xs \<longleftrightarrow>
    v = PList (map (\<lambda>x. PStr (str x)) xs) \<and> sorted_by str xs"
  by (auto simp: enum_list_field_def bind_r_Inr_iff v_list_Inr v_sorted_enums_Inr [OF assms])

end

lemma channel_safe [simp]: "safe_id_match (channel_str c)"
  by (cases c; hypsubst; code_simp)

lemma entitlement_safe [simp]: "safe_id_match (entitlement_str c)"
  by (cases c; hypsubst; code_simp)

lemmas grant_enums [valid_simps] =
  channel_vocab.v_sorted_enums_Inr [OF channel_safe] channel_vocab.enum_list_field_Inr [OF channel_safe]
  entitlement_vocab.v_sorted_enums_Inr [OF entitlement_safe]
  entitlement_vocab.enum_list_field_Inr [OF entitlement_safe]

definition instant_of_ts :: "string \<Rightarrow> int" where
  \<comment> \<open>a canonical timestamp as microseconds since 1970, the unit of evaluation instants\<close>
  "instant_of_ts s = (ts_to_datetime s - 719163 * 86400000) * 1000"

definition parse_canonical_ts :: "string \<Rightarrow> string \<Rightarrow> int result" where
  \<comment> \<open>the \<open>ValueError\<close> of \<open>fromisoformat\<close> is not converted\<close>
  "parse_canonical_ts s fld =
     (if \<not> ts_re s then Inl (rt_exn fld)
      else if iso_utc (butlast s @ ''+00:00'') then Inr (instant_of_ts s)
      else Inl (ValueError fld))"

lemma parse_canonical_ts_Inr [valid_simps]:
  "parse_canonical_ts s fld = Inr t \<longleftrightarrow> ts_ok s \<and> t = instant_of_ts s"
  by (auto simp: parse_canonical_ts_def ts_ok_def)

section \<open>Authorization layers\<close>

record spending_limit =
  sl_micro_usd_per_mtoken_max :: int

definition mk_spending_limit :: "spending_limit \<Rightarrow> spending_limit result" where
  "mk_spending_limit l =
     bind_r (v_int rt_exn (Some 0) None (PInt (sl_micro_usd_per_mtoken_max l))
               ''spending_limit.micro_usd_per_mtoken_max'') (\<lambda>_. Inr l)"

definition spending_limit_from_dict :: "pyval \<Rightarrow> spending_limit result" where
  "spending_limit_from_dict d =
     bind_r (v_exact_shape rt_exn d [''micro_usd_per_mtoken_max''] [] ''spending_limit'') (\<lambda>dd.
     bind_r (v_item dd ''micro_usd_per_mtoken_max'' (v_int rt_exn (Some 0) None)
               ''spending_limit.micro_usd_per_mtoken_max'') (\<lambda>n.
       mk_spending_limit \<lparr>sl_micro_usd_per_mtoken_max = n\<rparr>))"

definition spending_limit_to_dict :: "spending_limit \<Rightarrow> pyval" where
  "spending_limit_to_dict l = obj [(''micro_usd_per_mtoken_max'', Some (PInt (sl_micro_usd_per_mtoken_max l)))]"

definition valid_spending_limit :: "spending_limit \<Rightarrow> bool" where
  "valid_spending_limit l = (0 \<le> sl_micro_usd_per_mtoken_max l)"

lemma mk_spending_limit_Inr [valid_simps]:
  "mk_spending_limit l = Inr l' \<longleftrightarrow> l' = l \<and> valid_spending_limit l"
  by (auto simp: mk_spending_limit_def valid_spending_limit_def result_simps valid_simps)

interpretation spending_limit_contract: contract "\<lambda>_. True" valid_spending_limit mk_spending_limit
    spending_limit_from_dict spending_limit_to_dict
proof unfold_locales
  fix r d
  show "spending_limit_from_dict d = Inr r \<Longrightarrow> valid_spending_limit r"
    by (auto simp: spending_limit_from_dict_def bind_r_Inr_iff mk_spending_limit_Inr)
  show "valid_spending_limit r \<Longrightarrow> spending_limit_from_dict (spending_limit_to_dict r) = Inr r"
    by (cases r) (auto simp: spending_limit_from_dict_def spending_limit_to_dict_def shape_simps
        result_simps valid_simps valid_spending_limit_def)
qed (simp_all add: valid_simps)

text \<open>
  The client class repeats the five members of the administrator class and adds two flags; the
  shared members are checked, read and written by the same definitions under the label of the
  class.
\<close>

record administrator_constraints =
  ac_allowed_providers :: "string list option"
  ac_allowed_channels :: "execution_channel list option"
  ac_allowed_entitlements :: "entitlement_class list option"
  ac_blocked_resource_ids :: "string list"
  ac_spend_limit :: "spending_limit option"

record client_authorization = administrator_constraints +
  ca_inference_only :: bool
  ca_strict_no_payg :: bool

definition opt_each :: "('a \<Rightarrow> 'b result) \<Rightarrow> 'a option \<Rightarrow> unit result" where
  \<comment> \<open>\<open>if x is not None: check(x)\<close>\<close>
  "opt_each f x = (case x of None \<Rightarrow> Inr () | Some y \<Rightarrow> bind_r (f y) (\<lambda>_. Inr ()))"

lemma opt_each_Inr [result_simps]: "opt_each f x = Inr u \<longleftrightarrow> pred_option (\<lambda>y. \<exists>z. f y = Inr z) x"
  by (cases x) (auto simp: opt_each_def bind_r_Inr_iff)

definition check_grant :: "string \<Rightarrow> 'a administrator_constraints_scheme \<Rightarrow> unit result" where
  "check_grant label g =
     bind_r (opt_each (\<lambda>xs. v_sorted_safe_ids None (map PStr xs) (label @ ''.allowed_providers''))
               (ac_allowed_providers g)) (\<lambda>_.
     bind_r (opt_each (\<lambda>xs. v_sorted_enums channel_str EXECUTION_CHANNELS
                 (map (\<lambda>c. PStr (channel_str c)) xs) (label @ ''.allowed_channels''))
               (ac_allowed_channels g)) (\<lambda>_.
     bind_r (opt_each (\<lambda>xs. v_sorted_enums entitlement_str ENTITLEMENT_CLASSES
                 (map (\<lambda>c. PStr (entitlement_str c)) xs) (label @ ''.allowed_entitlements''))
               (ac_allowed_entitlements g)) (\<lambda>_.
     bind_r (v_sorted_safe_ids None (map PStr (ac_blocked_resource_ids g))
               (label @ ''.blocked_resource_ids'')) (\<lambda>_. Inr ()))))"

definition GRANT_FIELDS :: "string list" where
  "GRANT_FIELDS = [''allowed_providers'', ''allowed_channels'', ''allowed_entitlements'',
     ''blocked_resource_ids'', ''spend_limit'']"

definition empty_if_null :: "(pyval \<Rightarrow> string \<Rightarrow> 'a list result) \<Rightarrow> pyval \<Rightarrow> string \<Rightarrow> 'a list result" where
  \<comment> \<open>\<open>() if not _optional_present(dd, k) else f(dd[k])\<close>\<close>
  "empty_if_null f v fld = (case v of PNone \<Rightarrow> Inr [] | _ \<Rightarrow> f v fld)"

definition read_grant :: "string \<Rightarrow> pymap \<Rightarrow> administrator_constraints result" where
  "read_grant label dd =
     bind_r (v_opt (id_list_field None) (py_get dd ''allowed_providers'')
               (label @ ''.allowed_providers'')) (\<lambda>providers.
     bind_r (v_opt (enum_list_field channel_str EXECUTION_CHANNELS) (py_get dd ''allowed_channels'')
               (label @ ''.allowed_channels'')) (\<lambda>channels.
     bind_r (v_opt (enum_list_field entitlement_str ENTITLEMENT_CLASSES)
               (py_get dd ''allowed_entitlements'') (label @ ''.allowed_entitlements'')) (\<lambda>entitlements.
     bind_r (empty_if_null (id_list_field None) (py_get dd ''blocked_resource_ids'')
               (label @ ''.blocked_resource_ids'')) (\<lambda>blocked.
     bind_r (v_opt (\<lambda>v fld. spending_limit_from_dict v) (py_get dd ''spend_limit'') ''spending_limit'') (\<lambda>limit.
       Inr \<lparr>ac_allowed_providers = providers, ac_allowed_channels = channels,
         ac_allowed_entitlements = entitlements, ac_blocked_resource_ids = blocked,
         ac_spend_limit = limit\<rparr>)))))"

definition strings_wire :: "('a \<Rightarrow> string) \<Rightarrow> 'a list \<Rightarrow> pyval" where
  "strings_wire str xs = PList (map (\<lambda>x. PStr (str x)) xs)"

definition grant_fields :: "'a administrator_constraints_scheme \<Rightarrow> (string \<times> pyval option) list" where
  "grant_fields g =
     [(''allowed_providers'', map_option (strings_wire (\<lambda>s. s)) (ac_allowed_providers g)),
      (''allowed_channels'', map_option (strings_wire channel_str) (ac_allowed_channels g)),
      (''allowed_entitlements'', map_option (strings_wire entitlement_str) (ac_allowed_entitlements g)),
      (''blocked_resource_ids'', nonempty PStr (ac_blocked_resource_ids g)),
      (''spend_limit'', map_option spending_limit_to_dict (ac_spend_limit g))]"

definition mk_admin :: "administrator_constraints \<Rightarrow> administrator_constraints result" where
  "mk_admin g = bind_r (check_grant ''administrator_constraints'' g) (\<lambda>_. Inr g)"

definition admin_from_dict :: "pyval \<Rightarrow> administrator_constraints result" where
  "admin_from_dict d =
     bind_r (v_exact_shape rt_exn d [] GRANT_FIELDS ''administrator_constraints'') (\<lambda>dd.
     bind_r (read_grant ''administrator_constraints'' dd) mk_admin)"

definition admin_to_dict :: "administrator_constraints \<Rightarrow> pyval" where
  "admin_to_dict g = obj (grant_fields g)"

definition bool_or_false :: "pymap \<Rightarrow> string \<Rightarrow> string \<Rightarrow> bool result" where
  \<comment> \<open>\<open>_v_bool(dd.get(key, False), fld)\<close>: an explicit null is rejected\<close>
  "bool_or_false dd key fld =
     (if py_has dd key then v_item dd key (v_bool rt_exn) fld else Inr False)"

definition mk_client :: "client_authorization \<Rightarrow> client_authorization result" where
  "mk_client c = bind_r (check_grant ''client_authorization'' c) (\<lambda>_. Inr c)"

definition client_from_dict :: "pyval \<Rightarrow> client_authorization result" where
  "client_from_dict d =
     bind_r (v_exact_shape rt_exn d [] (GRANT_FIELDS @ [''inference_only'', ''strict_no_payg''])
               ''client_authorization'') (\<lambda>dd.
     bind_r (read_grant ''client_authorization'' dd) (\<lambda>g.
     bind_r (bool_or_false dd ''inference_only'' ''client_authorization.inference_only'') (\<lambda>io.
     bind_r (bool_or_false dd ''strict_no_payg'' ''client_authorization.strict_no_payg'') (\<lambda>np.
       mk_client (administrator_constraints.extend g
         (client_authorization.fields io np))))))"

definition client_to_dict :: "client_authorization \<Rightarrow> pyval" where
  "client_to_dict c = obj (grant_fields c @
     [(''inference_only'', true_flag (ca_inference_only c)),
      (''strict_no_payg'', true_flag (ca_strict_no_payg c))])"

definition valid_grant :: "'a administrator_constraints_scheme \<Rightarrow> bool" where
  "valid_grant g =
     (pred_option sorted_ids (ac_allowed_providers g)
      \<and> pred_option (sorted_by channel_str) (ac_allowed_channels g)
      \<and> pred_option (sorted_by entitlement_str) (ac_allowed_entitlements g)
      \<and> sorted_ids (ac_blocked_resource_ids g)
      \<and> pred_option valid_spending_limit (ac_spend_limit g))"

definition grant_parts :: "'a administrator_constraints_scheme \<Rightarrow> bool" where
  "grant_parts g = pred_option valid_spending_limit (ac_spend_limit g)"

lemma check_grant_Inr [valid_simps]:
  "grant_parts g \<Longrightarrow> check_grant label g = Inr u \<longleftrightarrow> valid_grant g"
  by (cases "ac_allowed_providers g"; cases "ac_allowed_channels g"; cases "ac_allowed_entitlements g")
    (auto simp: check_grant_def valid_grant_def grant_parts_def bind_r_Inr_iff opt_each_Inr valid_simps)

lemma empty_if_null_nonempty [shape_simps]:
  "empty_if_null f (opt_py (\<lambda>v. v) (nonempty PStr xs)) fld =
     (if xs = [] then Inr [] else f (PList (map PStr xs)) fld)"
  by (simp add: empty_if_null_def nonempty_def)

lemma spending_limit_wire_some [simp]: "spending_limit_to_dict l \<noteq> PNone"
  by (simp add: spending_limit_to_dict_def)

lemma read_grant_fields:
  assumes g: "valid_grant g" and fs: "\<And>k. k \<in> set GRANT_FIELDS \<Longrightarrow>
      map_of (obj_fields fs) k = map_of (obj_fields (grant_fields g)) k"
  shows "read_grant label (obj_fields fs) =
    Inr \<lparr>ac_allowed_providers = ac_allowed_providers g, ac_allowed_channels = ac_allowed_channels g,
      ac_allowed_entitlements = ac_allowed_entitlements g,
      ac_blocked_resource_ids = ac_blocked_resource_ids g, ac_spend_limit = ac_spend_limit g\<rparr>"
proof -
  have get: "py_get (obj_fields fs) ''allowed_providers'' = opt_py (strings_wire (\<lambda>s. s)) (ac_allowed_providers g)"
    "py_get (obj_fields fs) ''allowed_channels'' = opt_py (strings_wire channel_str) (ac_allowed_channels g)"
    "py_get (obj_fields fs) ''allowed_entitlements'' = opt_py (strings_wire entitlement_str) (ac_allowed_entitlements g)"
    "py_get (obj_fields fs) ''blocked_resource_ids'' = opt_py (\<lambda>v. v) (nonempty PStr (ac_blocked_resource_ids g))"
    "py_get (obj_fields fs) ''spend_limit'' = opt_py spending_limit_to_dict (ac_spend_limit g)"
    by (simp_all add: py_get_def fs GRANT_FIELDS_def grant_fields_def shape_simps)
  have "v_opt (id_list_field None) (opt_py (strings_wire (\<lambda>s. s)) (ac_allowed_providers g)) fld
      = Inr (ac_allowed_providers g)" for fld
    using g by (cases "ac_allowed_providers g")
      (auto simp: strings_wire_def v_opt_Inr bind_r_Inr_iff valid_simps valid_grant_def)
  moreover have "v_opt (enum_list_field channel_str EXECUTION_CHANNELS)
      (opt_py (strings_wire channel_str) (ac_allowed_channels g)) fld = Inr (ac_allowed_channels g)" for fld
    using g by (cases "ac_allowed_channels g")
      (auto simp: strings_wire_def v_opt_Inr bind_r_Inr_iff valid_simps valid_grant_def)
  moreover have "v_opt (enum_list_field entitlement_str ENTITLEMENT_CLASSES)
      (opt_py (strings_wire entitlement_str) (ac_allowed_entitlements g)) fld = Inr (ac_allowed_entitlements g)" for fld
    using g by (cases "ac_allowed_entitlements g")
      (auto simp: strings_wire_def v_opt_Inr bind_r_Inr_iff valid_simps valid_grant_def)
  moreover have "empty_if_null (id_list_field None) (opt_py (\<lambda>v. v) (nonempty PStr (ac_blocked_resource_ids g))) fld
      = Inr (ac_blocked_resource_ids g)" for fld
    using g by (simp add: shape_simps valid_grant_def valid_simps)
  moreover have "v_opt (\<lambda>v fld. spending_limit_from_dict v) (opt_py spending_limit_to_dict (ac_spend_limit g)) fld
      = Inr (ac_spend_limit g)" for fld
    using g by (intro spending_limit_contract.opt_from_to) (simp_all add: valid_grant_def)
  ultimately show ?thesis
    by (simp add: read_grant_def get)
qed

lemma read_grant_parts: "read_grant label dd = Inr g \<Longrightarrow> grant_parts g"
  by (auto simp: read_grant_def bind_r_Inr_iff grant_parts_def dest!: spending_limit_contract.opt_ok)

lemma grant_wire_keys: "(k, v) \<in> set (grant_fields g) \<Longrightarrow> k \<in> set GRANT_FIELDS"
  by (auto simp: grant_fields_def GRANT_FIELDS_def)

lemma valid_grant_parts: "valid_grant g \<Longrightarrow> grant_parts g"
  by (simp add: valid_grant_def grant_parts_def)

interpretation admin_contract: contract grant_parts valid_grant mk_admin admin_from_dict admin_to_dict
proof unfold_locales
  fix r r' :: administrator_constraints and d
  show "grant_parts r \<Longrightarrow> mk_admin r = Inr r' \<Longrightarrow> valid_grant r'"
    by (auto simp: mk_admin_def bind_r_Inr_iff check_grant_Inr)
  show "valid_grant r \<Longrightarrow> mk_admin r = Inr r"
    by (simp add: mk_admin_def bind_r_Inr_iff check_grant_Inr valid_grant_parts)
  show "admin_from_dict d = Inr r \<Longrightarrow> valid_grant r"
    by (auto simp: admin_from_dict_def mk_admin_def bind_r_Inr_iff check_grant_Inr dest!: read_grant_parts)
  assume r: "valid_grant r"
  have "v_exact_shape rt_exn (obj (grant_fields r)) [] GRANT_FIELDS l = Inr (obj_fields (grant_fields r))" for l
    by (rule v_exact_shape_obj) (auto simp: list_all_iff dest: grant_wire_keys)
  moreover have "read_grant l (obj_fields (grant_fields r)) = Inr r" for l
    using read_grant_fields [OF r, of "grant_fields r"] by simp
  ultimately show "admin_from_dict (admin_to_dict r) = Inr r"
    using r by (simp add: admin_from_dict_def admin_to_dict_def mk_admin_def bind_r_Inr_iff check_grant_Inr
        valid_grant_parts)
qed

lemma bool_or_false_Inr [valid_simps]:
  "bool_or_false dd k fld = Inr b \<longleftrightarrow> map_of dd k = Some (PBool b) \<or> map_of dd k = None \<and> \<not> b"
  by (auto simp: bool_or_false_def py_has_def v_item_def py_item_def valid_simps split: option.splits)

lemma true_flag_read: "true_flag b = Some (PBool c) \<or> true_flag b = None \<and> \<not> c \<longleftrightarrow> c = b"
  by (auto simp: true_flag_def)

lemma client_fields: "administrator_constraints.extend
    (administrator_constraints.truncate c) (client_authorization.fields (ca_inference_only c) (ca_strict_no_payg c)) = c"
  by (cases c) (simp add: administrator_constraints.defs client_authorization.defs)

interpretation client_contract:
  contract grant_parts valid_grant mk_client client_from_dict client_to_dict
proof unfold_locales
  fix r r' :: client_authorization and d
  have parts: "grant_parts (administrator_constraints.extend g x) = grant_parts g" for g :: administrator_constraints
    and x :: "\<lparr>ca_inference_only :: bool, ca_strict_no_payg :: bool\<rparr>"
    by (simp add: grant_parts_def administrator_constraints.defs)
  show "grant_parts r \<Longrightarrow> mk_client r = Inr r' \<Longrightarrow> valid_grant r'"
    by (auto simp: mk_client_def bind_r_Inr_iff check_grant_Inr)
  show "valid_grant r \<Longrightarrow> mk_client r = Inr r"
    by (simp add: mk_client_def bind_r_Inr_iff check_grant_Inr valid_grant_parts)
  show "client_from_dict d = Inr r \<Longrightarrow> valid_grant r"
    by (auto simp: client_from_dict_def mk_client_def bind_r_Inr_iff check_grant_Inr parts
        dest!: read_grant_parts)
  assume r: "valid_grant r"
  define fs where "fs = grant_fields r @ [(''inference_only'', true_flag (ca_inference_only r)),
    (''strict_no_payg'', true_flag (ca_strict_no_payg r))]"
  have shape: "v_exact_shape rt_exn (obj fs) [] (GRANT_FIELDS @ [''inference_only'', ''strict_no_payg'']) l
      = Inr (obj_fields fs)" for l
    by (rule v_exact_shape_obj) (auto simp: list_all_iff fs_def dest: grant_wire_keys)
  have "read_grant l (obj_fields fs) = Inr \<lparr>ac_allowed_providers = ac_allowed_providers r,
      ac_allowed_channels = ac_allowed_channels r, ac_allowed_entitlements = ac_allowed_entitlements r,
      ac_blocked_resource_ids = ac_blocked_resource_ids r, ac_spend_limit = ac_spend_limit r\<rparr>" for l
    by (rule read_grant_fields [OF r]) (auto simp: fs_def grant_fields_def GRANT_FIELDS_def shape_simps)
  then have grant: "read_grant l (obj_fields fs) = Inr (administrator_constraints.truncate r)" for l
    by (simp add: administrator_constraints.truncate_def)
  have flags: "bool_or_false (obj_fields fs) ''inference_only'' l = Inr (ca_inference_only r)"
    "bool_or_false (obj_fields fs) ''strict_no_payg'' l = Inr (ca_strict_no_payg r)" for l
    by (simp_all add: bool_or_false_Inr fs_def grant_fields_def shape_simps true_flag_read)
  show "client_from_dict (client_to_dict r) = Inr r"
    using r unfolding client_from_dict_def client_to_dict_def fs_def [symmetric]
    by (simp add: shape grant flags client_fields mk_client_def bind_r_Inr_iff check_grant_Inr valid_grant_parts)
qed

section \<open>The configured routing profile\<close>

record client_routing_profile =
  cp_profile_id :: string
  cp_allowed_providers :: "string list option"

definition mk_routing_profile :: "client_routing_profile \<Rightarrow> client_routing_profile result" where
  "mk_routing_profile p =
     bind_r (v_safe_id rt_exn (PStr (cp_profile_id p)) ''client_routing_profile.profile_id'') (\<lambda>_.
     bind_r (opt_each (\<lambda>xs. v_sorted_safe_ids None (map PStr xs) ''client_routing_profile.allowed_providers'')
               (cp_allowed_providers p)) (\<lambda>_. Inr p))"

definition routing_profile_from_dict :: "pyval \<Rightarrow> client_routing_profile result" where
  "routing_profile_from_dict d =
     bind_r (v_exact_shape rt_exn d [''profile_id''] [''allowed_providers''] ''client_routing_profile'') (\<lambda>dd.
     bind_r (v_item dd ''profile_id'' (v_safe_id rt_exn) ''client_routing_profile.profile_id'') (\<lambda>pid.
     bind_r (v_opt (id_list_field None) (py_get dd ''allowed_providers'')
               ''client_routing_profile.allowed_providers'') (\<lambda>providers.
       mk_routing_profile \<lparr>cp_profile_id = pid, cp_allowed_providers = providers\<rparr>)))"

definition routing_profile_to_dict :: "client_routing_profile \<Rightarrow> pyval" where
  "routing_profile_to_dict p =
     obj [(''profile_id'', Some (PStr (cp_profile_id p))),
          (''allowed_providers'', map_option (strings_wire (\<lambda>s. s)) (cp_allowed_providers p))]"

definition valid_routing_profile :: "client_routing_profile \<Rightarrow> bool" where
  "valid_routing_profile p =
     (safe_id_match (cp_profile_id p) \<and> pred_option sorted_ids (cp_allowed_providers p))"

lemma mk_routing_profile_Inr [valid_simps]:
  "mk_routing_profile p = Inr p' \<longleftrightarrow> p' = p \<and> valid_routing_profile p"
  by (cases "cp_allowed_providers p")
    (auto simp: mk_routing_profile_def valid_routing_profile_def result_simps valid_simps)

interpretation routing_profile_contract: contract "\<lambda>_. True" valid_routing_profile mk_routing_profile
    routing_profile_from_dict routing_profile_to_dict
proof unfold_locales
  fix r d
  show "routing_profile_from_dict d = Inr r \<Longrightarrow> valid_routing_profile r"
    by (auto simp: routing_profile_from_dict_def bind_r_Inr_iff mk_routing_profile_Inr)
  assume r: "valid_routing_profile r"
  have "v_opt (id_list_field None) (opt_py (strings_wire (\<lambda>s. s)) (cp_allowed_providers r)) fld
      = Inr (cp_allowed_providers r)" for fld
    using r by (cases "cp_allowed_providers r")
      (auto simp: strings_wire_def v_opt_Inr bind_r_Inr_iff valid_simps valid_routing_profile_def)
  with r show "routing_profile_from_dict (routing_profile_to_dict r) = Inr r"
    by (auto simp: routing_profile_from_dict_def routing_profile_to_dict_def shape_simps
        result_simps valid_simps valid_routing_profile_def)
qed (simp_all add: valid_simps)

section \<open>Pins and request binding\<close>

record pinned_target =
  pt_resource_id :: string
  pt_model :: model_identity
  pt_decision_id :: "string option"
  pt_reasoning_effort :: "string option"

definition mk_pinned_target :: "pinned_target \<Rightarrow> pinned_target result" where
  "mk_pinned_target p =
     bind_r (v_safe_id rt_exn (PStr (pt_resource_id p)) ''pinned_target.resource_id'') (\<lambda>_.
     bind_r (v_opt (v_safe_id rt_exn) (opt_py PStr (pt_decision_id p)) ''pinned_target.decision_id'') (\<lambda>_.
     bind_r (v_opt (v_safe_id rt_exn) (opt_py PStr (pt_reasoning_effort p))
               ''pinned_target.reasoning_effort'') (\<lambda>_. Inr p)))"

definition pinned_target_from_dict :: "pyval \<Rightarrow> pinned_target result" where
  "pinned_target_from_dict d =
     bind_r (v_exact_shape rt_exn d [''resource_id'', ''model''] [''decision_id'', ''reasoning_effort'']
               ''pinned_target'') (\<lambda>dd.
     bind_r (v_item dd ''resource_id'' (v_safe_id rt_exn) ''pinned_target.resource_id'') (\<lambda>rid.
     bind_r (v_item dd ''model'' (\<lambda>v _. identity_from_dict v) ''model'') (\<lambda>model.
     bind_r (v_opt (v_safe_id rt_exn) (py_get dd ''decision_id'') ''pinned_target.decision_id'') (\<lambda>did.
     bind_r (v_opt (v_safe_id rt_exn) (py_get dd ''reasoning_effort'') ''pinned_target.reasoning_effort'') (\<lambda>effort.
       mk_pinned_target \<lparr>pt_resource_id = rid, pt_model = model, pt_decision_id = did,
         pt_reasoning_effort = effort\<rparr>)))))"

definition pinned_target_to_dict :: "pinned_target \<Rightarrow> pyval" where
  "pinned_target_to_dict p =
     obj [(''resource_id'', Some (PStr (pt_resource_id p))),
          (''model'', Some (identity_to_dict (pt_model p))),
          (''decision_id'', map_option PStr (pt_decision_id p)),
          (''reasoning_effort'', map_option PStr (pt_reasoning_effort p))]"

definition valid_pinned_target :: "pinned_target \<Rightarrow> bool" where
  "valid_pinned_target p =
     (safe_id_match (pt_resource_id p) \<and> valid_identity (pt_model p)
      \<and> pred_option safe_id_match (pt_decision_id p) \<and> pred_option safe_id_match (pt_reasoning_effort p))"

lemma mk_pinned_target_Inr [valid_simps]:
  "valid_identity (pt_model p) \<Longrightarrow> mk_pinned_target p = Inr p' \<longleftrightarrow> p' = p \<and> valid_pinned_target p"
  by (auto simp: mk_pinned_target_def valid_pinned_target_def result_simps valid_simps)

interpretation pinned_target_contract: contract "\<lambda>p. valid_identity (pt_model p)" valid_pinned_target
    mk_pinned_target pinned_target_from_dict pinned_target_to_dict
proof unfold_locales
  fix r d
  show "pinned_target_from_dict d = Inr r \<Longrightarrow> valid_pinned_target r"
    by (auto simp: pinned_target_from_dict_def bind_r_Inr_iff mk_pinned_target_Inr
        dest!: identity_contract.item_ok)
  show "valid_pinned_target r \<Longrightarrow> mk_pinned_target r = Inr r"
    by (simp add: mk_pinned_target_Inr valid_pinned_target_def)
  show "valid_pinned_target r \<Longrightarrow> pinned_target_from_dict (pinned_target_to_dict r) = Inr r"
    by (cases r) (auto simp: pinned_target_from_dict_def pinned_target_to_dict_def shape_simps
        result_simps valid_simps valid_pinned_target_def identity_contract.from_to)
qed (simp add: mk_pinned_target_Inr)

record request_binding =
  rb_requires_tool_calls :: bool
  rb_requires_structured_output :: bool
  rb_requires_streaming :: bool
  rb_requires_reasoning_controls :: bool
  rb_minimum_input_context_tokens :: "int option"
  rb_maximum_output_tokens :: "int option"
  rb_profile_alias :: "string option"
  rb_explicit_model :: "model_ref option"
  rb_explicit_variant :: "string option"
  rb_pinned_target :: "pinned_target option"

definition empty_binding :: request_binding where
  \<comment> \<open>\<open>RequestBinding()\<close>\<close>
  "empty_binding = \<lparr>rb_requires_tool_calls = False, rb_requires_structured_output = False,
     rb_requires_streaming = False, rb_requires_reasoning_controls = False,
     rb_minimum_input_context_tokens = None, rb_maximum_output_tokens = None, rb_profile_alias = None,
     rb_explicit_model = None, rb_explicit_variant = None, rb_pinned_target = None\<rparr>"

definition v_tokens :: "pyval \<Rightarrow> string \<Rightarrow> int option result" where
  \<comment> \<open>\<open>_v_opt_int(value, fld, lo=1)\<close>\<close>
  "v_tokens = v_opt (v_int rt_exn (Some 1) None)"

definition request_bool_field :: "pymap \<Rightarrow> string \<Rightarrow> bool result" where
  "request_bool_field d key =
     (if \<not> py_has d key then Inr False else v_item d key (v_bool rt_exn) (''request_binding.'' @ key))"

definition mk_request_binding :: "request_binding \<Rightarrow> request_binding result" where
  "mk_request_binding r =
     bind_r (v_tokens (opt_py PInt (rb_minimum_input_context_tokens r))
               ''request_binding.minimum_input_context_tokens'') (\<lambda>_.
     bind_r (v_tokens (opt_py PInt (rb_maximum_output_tokens r))
               ''request_binding.maximum_output_tokens'') (\<lambda>_.
     bind_r (v_opt (v_safe_id rt_exn) (opt_py PStr (rb_profile_alias r)) ''request_binding.profile_alias'') (\<lambda>_.
     bind_r (v_opt (v_safe_id rt_exn) (opt_py PStr (rb_explicit_variant r)) ''request_binding.explicit_variant'') (\<lambda>_.
       if rb_profile_alias r \<noteq> None \<and> rb_explicit_model r \<noteq> None
       then Inl (rt_exn ''request_binding'') else Inr r))))"

definition REQUEST_BINDING_FIELDS :: "string list" where
  "REQUEST_BINDING_FIELDS = [''requires_tool_calls'', ''requires_structured_output'',
     ''requires_streaming'', ''requires_reasoning_controls'', ''minimum_input_context_tokens'',
     ''maximum_output_tokens'', ''profile_alias'', ''explicit_model'', ''explicit_variant'',
     ''pinned_target'']"

definition request_binding_from_dict :: "pyval \<Rightarrow> request_binding result" where
  "request_binding_from_dict d =
     bind_r (v_exact_shape rt_exn d [] REQUEST_BINDING_FIELDS ''request_binding'') (\<lambda>dd.
     bind_r (v_opt (\<lambda>v fld. model_ref_from_dict v) (py_get dd ''explicit_model'') ''model_ref'') (\<lambda>model.
     bind_r (v_opt (\<lambda>v fld. pinned_target_from_dict v) (py_get dd ''pinned_target'') ''pinned_target'') (\<lambda>pin.
     bind_r (request_bool_field dd ''requires_tool_calls'') (\<lambda>tools.
     bind_r (request_bool_field dd ''requires_structured_output'') (\<lambda>structured.
     bind_r (request_bool_field dd ''requires_streaming'') (\<lambda>streaming.
     bind_r (request_bool_field dd ''requires_reasoning_controls'') (\<lambda>reasoning.
     bind_r (v_tokens (py_get dd ''minimum_input_context_tokens'')
               ''request_binding.minimum_input_context_tokens'') (\<lambda>min_in.
     bind_r (v_tokens (py_get dd ''maximum_output_tokens'')
               ''request_binding.maximum_output_tokens'') (\<lambda>max_out.
     bind_r (v_opt (v_safe_id rt_exn) (py_get dd ''profile_alias'') ''request_binding.profile_alias'') (\<lambda>alias.
     bind_r (v_opt (v_safe_id rt_exn) (py_get dd ''explicit_variant'') ''request_binding.explicit_variant'') (\<lambda>variant.
       mk_request_binding \<lparr>rb_requires_tool_calls = tools, rb_requires_structured_output = structured,
         rb_requires_streaming = streaming, rb_requires_reasoning_controls = reasoning,
         rb_minimum_input_context_tokens = min_in, rb_maximum_output_tokens = max_out,
         rb_profile_alias = alias, rb_explicit_model = model, rb_explicit_variant = variant,
         rb_pinned_target = pin\<rparr>)))))))))))"

definition request_binding_to_dict :: "request_binding \<Rightarrow> pyval" where
  "request_binding_to_dict r =
     obj [(''requires_tool_calls'', true_flag (rb_requires_tool_calls r)),
          (''requires_structured_output'', true_flag (rb_requires_structured_output r)),
          (''requires_streaming'', true_flag (rb_requires_streaming r)),
          (''requires_reasoning_controls'', true_flag (rb_requires_reasoning_controls r)),
          (''minimum_input_context_tokens'', map_option PInt (rb_minimum_input_context_tokens r)),
          (''maximum_output_tokens'', map_option PInt (rb_maximum_output_tokens r)),
          (''profile_alias'', map_option PStr (rb_profile_alias r)),
          (''explicit_model'', map_option model_ref_to_dict (rb_explicit_model r)),
          (''explicit_variant'', map_option PStr (rb_explicit_variant r)),
          (''pinned_target'', map_option pinned_target_to_dict (rb_pinned_target r))]"

definition request_binding_parts :: "request_binding \<Rightarrow> bool" where
  "request_binding_parts r =
     (pred_option valid_model_ref (rb_explicit_model r)
      \<and> pred_option valid_pinned_target (rb_pinned_target r))"

definition valid_request_binding :: "request_binding \<Rightarrow> bool" where
  "valid_request_binding r =
     (request_binding_parts r
      \<and> pred_option (\<lambda>n. 1 \<le> n) (rb_minimum_input_context_tokens r)
      \<and> pred_option (\<lambda>n. 1 \<le> n) (rb_maximum_output_tokens r)
      \<and> pred_option safe_id_match (rb_profile_alias r)
      \<and> pred_option safe_id_match (rb_explicit_variant r)
      \<and> (rb_profile_alias r = None \<or> rb_explicit_model r = None))"

lemma v_tokens_Inr [valid_simps]:
  "v_tokens (opt_py PInt x) fld = Inr y \<longleftrightarrow> y = x \<and> pred_option (\<lambda>n. 1 \<le> n) x"
  by (auto simp: v_tokens_def valid_simps)

lemma mk_request_binding_Inr [valid_simps]:
  "request_binding_parts r \<Longrightarrow> mk_request_binding r = Inr r' \<longleftrightarrow> r' = r \<and> valid_request_binding r"
  by (auto simp: mk_request_binding_def valid_request_binding_def bind_r_Inr_iff valid_simps)

lemma request_bool_field_flag [valid_simps]:
  "map_of d k = true_flag b \<Longrightarrow> request_bool_field d k = Inr b"
  by (cases b) (simp_all add: request_bool_field_def true_flag_def py_has_def v_item_def py_item_def v_bool_def)

lemma request_binding_wire:
  assumes "valid_request_binding r"
  shows "request_binding_from_dict (request_binding_to_dict r) = Inr r"
proof -
  have m: "v_opt (\<lambda>v fld. model_ref_from_dict v) (opt_py model_ref_to_dict x) l = Inr x"
    if "pred_option valid_model_ref x" for x l
    using that by (rule model_ref_contract.opt_from_to) (simp add: model_ref_to_dict_def)
  have p: "v_opt (\<lambda>v fld. pinned_target_from_dict v) (opt_py pinned_target_to_dict x) l = Inr x"
    if "pred_option valid_pinned_target x" for x l
    using that by (rule pinned_target_contract.opt_from_to) (simp add: pinned_target_to_dict_def)
  have "mk_request_binding r = Inr r"
    using assms by (simp add: mk_request_binding_Inr valid_request_binding_def)
  with assms show ?thesis
    by (cases r) (auto simp: request_binding_from_dict_def request_binding_to_dict_def
        REQUEST_BINDING_FIELDS_def shape_simps bind_r_Inr_iff m p valid_simps
        valid_request_binding_def request_binding_parts_def)
qed

interpretation request_binding_contract: contract request_binding_parts valid_request_binding
    mk_request_binding request_binding_from_dict request_binding_to_dict
proof unfold_locales
  fix r d
  show "request_binding_from_dict d = Inr r \<Longrightarrow> valid_request_binding r"
    by (auto simp: request_binding_from_dict_def bind_r_Inr_iff mk_request_binding_Inr
        request_binding_parts_def dest!: model_ref_contract.opt_ok pinned_target_contract.opt_ok)
  show "valid_request_binding r \<Longrightarrow> mk_request_binding r = Inr r"
    by (simp add: mk_request_binding_Inr valid_request_binding_def)
  show "valid_request_binding r \<Longrightarrow> request_binding_from_dict (request_binding_to_dict r) = Inr r"
    by (rule request_binding_wire)
qed (simp add: mk_request_binding_Inr)

section \<open>Compatibility cells\<close>

record compatibility_cell =
  cc_channel :: execution_channel
  cc_provider :: string
  cc_model :: string
  cc_feature :: compat_feature
  cc_value :: cell_value
  cc_adapter :: string
  cc_adapter_version :: string
  cc_evidence :: evidence_ref
  cc_variant :: "string option"

definition mk_cell :: "compatibility_cell \<Rightarrow> compatibility_cell result" where
  "mk_cell c =
     bind_r (v_safe_id rt_exn (PStr (cc_provider c)) ''compatibility_cell.provider'') (\<lambda>_.
     bind_r (v_safe_id rt_exn (PStr (cc_model c)) ''compatibility_cell.model'') (\<lambda>_.
     bind_r (v_safe_id rt_exn (PStr (cc_adapter c)) ''compatibility_cell.adapter'') (\<lambda>_.
     bind_r (v_text rt_exn 128 (PStr (cc_adapter_version c)) ''compatibility_cell.adapter_version'') (\<lambda>_.
     bind_r (v_opt (v_safe_id rt_exn) (opt_py PStr (cc_variant c)) ''compatibility_cell.variant'') (\<lambda>_.
       Inr c)))))"

definition CELL_REQUIRED :: "string list" where
  "CELL_REQUIRED = [''channel'', ''provider'', ''model'', ''feature'', ''value'', ''adapter'',
     ''adapter_version'', ''evidence'']"

definition cell_from_dict :: "pyval \<Rightarrow> compatibility_cell result" where
  "cell_from_dict d =
     bind_r (v_exact_shape rt_exn d CELL_REQUIRED [''variant''] ''compatibility_cell'') (\<lambda>dd.
     bind_r (v_item dd ''channel'' (v_enum rt_exn channel_str EXECUTION_CHANNELS)
               ''compatibility_cell.channel'') (\<lambda>channel.
     bind_r (v_item dd ''provider'' (v_safe_id rt_exn) ''compatibility_cell.provider'') (\<lambda>provider.
     bind_r (v_item dd ''model'' (v_safe_id rt_exn) ''compatibility_cell.model'') (\<lambda>model.
     bind_r (v_item dd ''feature'' (v_enum rt_exn feature_str COMPAT_FEATURES)
               ''compatibility_cell.feature'') (\<lambda>feature.
     bind_r (v_item dd ''value'' (v_enum rt_exn cell_str COMPAT_CELL_VALUES)
               ''compatibility_cell.value'') (\<lambda>val.
     bind_r (v_item dd ''adapter'' (v_safe_id rt_exn) ''compatibility_cell.adapter'') (\<lambda>adapter.
     bind_r (v_item dd ''adapter_version'' (v_text rt_exn 128) ''compatibility_cell.adapter_version'') (\<lambda>version.
     bind_r (v_item dd ''evidence'' (\<lambda>v _. evidence_from_dict v) ''evidence'') (\<lambda>evidence.
     bind_r (v_opt (v_safe_id rt_exn) (py_get dd ''variant'') ''compatibility_cell.variant'') (\<lambda>variant.
       mk_cell \<lparr>cc_channel = channel, cc_provider = provider, cc_model = model, cc_feature = feature,
         cc_value = val, cc_adapter = adapter, cc_adapter_version = version, cc_evidence = evidence,
         cc_variant = variant\<rparr>))))))))))"

definition cell_to_dict :: "compatibility_cell \<Rightarrow> pyval" where
  "cell_to_dict c =
     obj [(''channel'', Some (PStr (channel_str (cc_channel c)))),
          (''provider'', Some (PStr (cc_provider c))),
          (''model'', Some (PStr (cc_model c))),
          (''feature'', Some (PStr (feature_str (cc_feature c)))),
          (''value'', Some (PStr (cell_str (cc_value c)))),
          (''adapter'', Some (PStr (cc_adapter c))),
          (''adapter_version'', Some (PStr (cc_adapter_version c))),
          (''evidence'', Some (evidence_to_dict (cc_evidence c))),
          (''variant'', map_option PStr (cc_variant c))]"

definition valid_cell :: "compatibility_cell \<Rightarrow> bool" where
  "valid_cell c =
     (safe_id_match (cc_provider c) \<and> safe_id_match (cc_model c) \<and> safe_id_match (cc_adapter c)
      \<and> text_ok 128 (cc_adapter_version c) \<and> valid_evidence (cc_evidence c)
      \<and> pred_option safe_id_match (cc_variant c))"

lemma mk_cell_Inr [valid_simps]:
  "valid_evidence (cc_evidence c) \<Longrightarrow> mk_cell c = Inr c' \<longleftrightarrow> c' = c \<and> valid_cell c"
  by (auto simp: mk_cell_def valid_cell_def result_simps valid_simps)

interpretation cell_contract: contract "\<lambda>c. valid_evidence (cc_evidence c)" valid_cell mk_cell
    cell_from_dict cell_to_dict
proof unfold_locales
  fix r d
  show "cell_from_dict d = Inr r \<Longrightarrow> valid_cell r"
    by (auto simp: cell_from_dict_def bind_r_Inr_iff mk_cell_Inr dest!: evidence_contract.item_ok)
  show "valid_cell r \<Longrightarrow> mk_cell r = Inr r"
    by (simp add: mk_cell_Inr valid_cell_def)
  show "valid_cell r \<Longrightarrow> cell_from_dict (cell_to_dict r) = Inr r"
    by (cases r) (auto simp: cell_from_dict_def cell_to_dict_def CELL_REQUIRED_def shape_simps
        result_simps valid_simps valid_cell_def evidence_contract.from_to)
qed (simp add: mk_cell_Inr)

end
