(* ===== verification/Assurance.thy ===== *)
theory Assurance
  imports Resource_Types
begin

text \<open>
  execution_assurance.py: the control scope, the non-paid control evidence and the refusal codes of
  an assurance. Evidence timestamps are arbitrary text; \<open>datetime.fromisoformat\<close> on text ending in
  \<open>Z\<close> is the parameter \<open>utc\<close>, giving microseconds since 1970 or None for the exception.
\<close>

type_synonym iso_parser = "string \<Rightarrow> int option"

definition NON_PAID_MODES :: "string set" where
  "NON_PAID_MODES = {''payg'', ''purchased_credit'', ''paid_overflow'', ''unaccounted_paid_helper''}"

datatype refusal_code =
    No_payg_source_mismatch | No_payg_evidence_unavailable | No_payg_binding_changed
  | No_payg_path_unverified | No_payg_path_incomplete | No_payg_evidence_invalid
  | No_payg_evidence_expired | No_payg_access_mode_forbidden | No_payg_evidence_stale

fun refusal_str :: "refusal_code \<Rightarrow> string" where
  "refusal_str No_payg_source_mismatch = ''no_payg_source_mismatch''"
| "refusal_str No_payg_evidence_unavailable = ''no_payg_evidence_unavailable''"
| "refusal_str No_payg_binding_changed = ''no_payg_binding_changed''"
| "refusal_str No_payg_path_unverified = ''no_payg_path_unverified''"
| "refusal_str No_payg_path_incomplete = ''no_payg_path_incomplete''"
| "refusal_str No_payg_evidence_invalid = ''no_payg_evidence_invalid''"
| "refusal_str No_payg_evidence_expired = ''no_payg_evidence_expired''"
| "refusal_str No_payg_access_mode_forbidden = ''no_payg_access_mode_forbidden''"
| "refusal_str No_payg_evidence_stale = ''no_payg_evidence_stale''"

definition NON_PAID_REFUSAL_CODES :: "refusal_code list" where
  "NON_PAID_REFUSAL_CODES = [No_payg_source_mismatch, No_payg_evidence_unavailable,
     No_payg_binding_changed, No_payg_path_unverified, No_payg_path_incomplete,
     No_payg_evidence_invalid, No_payg_evidence_expired, No_payg_access_mode_forbidden,
     No_payg_evidence_stale]"

interpretation refusal_vocab: vocabulary refusal_str NON_PAID_REFUSAL_CODES
  by (rule vocabularyI, simp add: NON_PAID_REFUSAL_CODES_def, case_tac x,
      simp_all add: NON_PAID_REFUSAL_CODES_def)

definition utc_instant :: "iso_parser \<Rightarrow> string \<Rightarrow> int option" where
  \<comment> \<open>\<open>_utc\<close>; None is an exception\<close>
  "utc_instant utc s = (if s = [] \<or> last s \<noteq> CHR ''Z'' then None else utc s)"

record execution_control_scope =
  es_resource :: resource_identity
  es_adapter_name :: string
  es_adapter_version :: string
  es_instance_token :: string
  es_control_revision :: "string option"

record non_paid_evidence =
  np_scope :: execution_control_scope
  np_evidence_class :: string
  np_observed_at :: string
  np_valid_until :: string
  np_control_reference :: string
  np_controlled_modes :: "string set"

record execution_assurance =
  xa_current_scope :: execution_control_scope
  xa_evidence :: "non_paid_evidence option"

definition evidence_refusal :: "iso_parser \<Rightarrow> non_paid_evidence \<Rightarrow> int \<Rightarrow> int \<Rightarrow> refusal_code list" where
  \<comment> \<open>the timestamps of the evidence; \<open>now\<close> in microseconds, \<open>max_age\<close> in seconds. The code compares
    \<open>total_seconds()\<close>, a float that is exact to the microsecond for ages below 2^32 seconds.\<close>
  "evidence_refusal utc p now max_age =
     (case (utc_instant utc (np_observed_at p), utc_instant utc (np_valid_until p)) of
        (Some observed, Some expires) \<Rightarrow>
          (if observed > now \<or> expires \<le> observed then [No_payg_evidence_invalid]
           else if now \<ge> expires then [No_payg_evidence_expired]
           else if now - observed > max_age * 1000000 then [No_payg_evidence_stale]
           else [])
      | _ \<Rightarrow> [No_payg_evidence_invalid])"

definition refusal_codes ::
  "iso_parser \<Rightarrow> execution_assurance \<Rightarrow> resource_identity \<Rightarrow> int \<Rightarrow> int \<Rightarrow> refusal_code list" where
  "refusal_codes utc a resource now max_age =
     (if es_resource (xa_current_scope a) \<noteq> resource then [No_payg_source_mismatch]
      else if es_control_revision (xa_current_scope a) = None then [No_payg_evidence_unavailable]
      else case xa_evidence a of
        None \<Rightarrow> [No_payg_evidence_unavailable]
      | Some p \<Rightarrow>
          (if np_scope p \<noteq> xa_current_scope a then [No_payg_binding_changed]
           else if np_evidence_class p \<noteq> ''verified_control'' then [No_payg_path_unverified]
           else if np_control_reference p = [] \<or> es_control_revision (np_scope p) \<in> {None, Some []}
             then [No_payg_evidence_unavailable]
           else if \<not> np_controlled_modes p \<subseteq> NON_PAID_MODES then [No_payg_evidence_invalid]
           else if np_controlled_modes p \<noteq> NON_PAID_MODES then [No_payg_path_incomplete]
           else evidence_refusal utc p now max_age))"

definition assurance_to_dict :: "iso_parser \<Rightarrow> execution_assurance \<Rightarrow> int \<Rightarrow> int \<Rightarrow> pyval" where
  "assurance_to_dict utc a now max_age =
     (let resource = es_resource (xa_current_scope a); codes = refusal_codes utc a resource now max_age in
      obj [(''schema_version'', Some (PInt 1)),
           (''resource_id'', Some (PStr (ri_resource_id resource))),
           (''admission_enforcement'', Some (PStr (if codes = [] then ''verified_non_paid_control'' else ''unverified''))),
           (''provider_billing'', Some (PStr ''unknown'')),
           (''total_task_cost'', Some (PStr ''unknown'')),
           (''reason_codes'', Some (PList (map (\<lambda>c. PStr (refusal_str c)) codes)))])"

section \<open>When an assurance is accepted\<close>

definition evidence_current :: "iso_parser \<Rightarrow> non_paid_evidence \<Rightarrow> int \<Rightarrow> int \<Rightarrow> bool" where
  \<comment> \<open>observed not later than now, not expired, not older than the freshness bound\<close>
  "evidence_current utc p now max_age =
     (\<exists>observed expires. utc_instant utc (np_observed_at p) = Some observed
        \<and> utc_instant utc (np_valid_until p) = Some expires
        \<and> observed \<le> now \<and> now < expires \<and> now \<le> observed + max_age * 1000000)"

definition verified_non_paid ::
  "iso_parser \<Rightarrow> execution_assurance \<Rightarrow> resource_identity \<Rightarrow> int \<Rightarrow> int \<Rightarrow> bool" where
  \<comment> \<open>evidence of exactly the current incarnation, covering every non-paid mode, current\<close>
  "verified_non_paid utc a resource now max_age =
     (es_resource (xa_current_scope a) = resource
      \<and> (\<exists>p rev. xa_evidence a = Some p \<and> np_scope p = xa_current_scope a
          \<and> es_control_revision (xa_current_scope a) = Some rev \<and> rev \<noteq> []
          \<and> np_evidence_class p = ''verified_control'' \<and> np_control_reference p \<noteq> []
          \<and> np_controlled_modes p = NON_PAID_MODES \<and> evidence_current utc p now max_age))"

lemma evidence_refusal_Nil: "evidence_refusal utc p now max_age = [] \<longleftrightarrow> evidence_current utc p now max_age"
  by (auto simp: evidence_refusal_def evidence_current_def split: option.splits if_splits)

lemma refusal_codes_Nil: "refusal_codes utc a r now max_age = [] \<longleftrightarrow> verified_non_paid utc a r now max_age"
  by (auto simp: refusal_codes_def verified_non_paid_def evidence_refusal_Nil split: option.splits)

lemma refusal_codes_le_one: "length (refusal_codes utc a r now max_age) \<le> 1"
  by (auto simp: refusal_codes_def evidence_refusal_def split: option.splits)

end
