(* ===== verification/Route_Gates.thy ===== *)
theory Route_Gates
  imports Route_Types Assurance
begin

text \<open>
  routing_core.py, the gate pipeline of one registry resource: effective authorization, binding to
  catalog identities, authorization, availability and compatibility, and the promotion preference.
\<close>

section \<open>Reason codes and stages\<close>

datatype route_stage =
  Stg_binding | Stg_authorization | Stg_availability | Stg_compatibility | Stg_capacity | Stg_policy

fun route_stage_str :: "route_stage \<Rightarrow> string" where
  "route_stage_str Stg_binding = ''binding''"
| "route_stage_str Stg_authorization = ''authorization''"
| "route_stage_str Stg_availability = ''availability''"
| "route_stage_str Stg_compatibility = ''compatibility''"
| "route_stage_str Stg_capacity = ''capacity''"
| "route_stage_str Stg_policy = ''policy''"

definition ROUTE_EXCLUSION_STAGES :: "route_stage list" where
  "ROUTE_EXCLUSION_STAGES = [Stg_binding, Stg_authorization, Stg_availability, Stg_compatibility,
     Stg_capacity, Stg_policy]"

datatype target_code =
    Tc_capability_unassessed | Tc_reasoning_effort_unverified
  | Tc_unauthorized_provider | Tc_unauthorized_channel | Tc_unauthorized_entitlement
  | Tc_resource_blocked | Tc_spend_limit_exceeded | Tc_spend_limit_unverifiable
  | Tc_resource_stale | Tc_resource_never_observed | Tc_resource_unhealthy | Tc_execution_ineligible
  | Tc_worker_continuation_unavailable | Tc_adapter_unavailable
  | Tc_compatibility_unsupported | Tc_compatibility_unknown | Tc_context_limit_unknown
  | Tc_context_limit_insufficient | Tc_output_limit_unknown | Tc_output_limit_insufficient
  | Tc_output_limit_unenforceable
  | Tc_capacity_unavailable | Tc_capacity_unknown_blocked
  | Tc_policy_blocked | Tc_reservation_blocked | Tc_reservation_unknown
  | Tc_refusal refusal_code

fun target_code_str :: "target_code \<Rightarrow> string" where
  "target_code_str Tc_capability_unassessed = ''capability_unassessed''"
| "target_code_str Tc_reasoning_effort_unverified = ''reasoning_effort_unverified''"
| "target_code_str Tc_unauthorized_provider = ''unauthorized_provider''"
| "target_code_str Tc_unauthorized_channel = ''unauthorized_channel''"
| "target_code_str Tc_unauthorized_entitlement = ''unauthorized_entitlement''"
| "target_code_str Tc_resource_blocked = ''resource_blocked''"
| "target_code_str Tc_spend_limit_exceeded = ''spend_limit_exceeded''"
| "target_code_str Tc_spend_limit_unverifiable = ''spend_limit_unverifiable''"
| "target_code_str Tc_resource_stale = ''resource_stale''"
| "target_code_str Tc_resource_never_observed = ''resource_never_observed''"
| "target_code_str Tc_resource_unhealthy = ''resource_unhealthy''"
| "target_code_str Tc_execution_ineligible = ''execution_ineligible''"
| "target_code_str Tc_worker_continuation_unavailable = ''worker_continuation_unavailable''"
| "target_code_str Tc_adapter_unavailable = ''adapter_unavailable''"
| "target_code_str Tc_compatibility_unsupported = ''compatibility_unsupported''"
| "target_code_str Tc_compatibility_unknown = ''compatibility_unknown''"
| "target_code_str Tc_context_limit_unknown = ''context_limit_unknown''"
| "target_code_str Tc_context_limit_insufficient = ''context_limit_insufficient''"
| "target_code_str Tc_output_limit_unknown = ''output_limit_unknown''"
| "target_code_str Tc_output_limit_insufficient = ''output_limit_insufficient''"
| "target_code_str Tc_output_limit_unenforceable = ''output_limit_unenforceable''"
| "target_code_str Tc_capacity_unavailable = ''capacity_unavailable''"
| "target_code_str Tc_capacity_unknown_blocked = ''capacity_unknown_blocked''"
| "target_code_str Tc_policy_blocked = ''policy_blocked''"
| "target_code_str Tc_reservation_blocked = ''reservation_blocked''"
| "target_code_str Tc_reservation_unknown = ''reservation_unknown''"
| "target_code_str (Tc_refusal r) = refusal_str r"

definition refusals :: "target_code list" where
  "refusals = map Tc_refusal NON_PAID_REFUSAL_CODES"

fun route_stage_reasons :: "route_stage \<Rightarrow> target_code list" where
  \<comment> \<open>\<open>_STAGE_REASONS\<close>\<close>
  "route_stage_reasons Stg_binding = [Tc_capability_unassessed, Tc_reasoning_effort_unverified]"
| "route_stage_reasons Stg_authorization =
     [Tc_unauthorized_provider, Tc_unauthorized_channel, Tc_unauthorized_entitlement,
      Tc_resource_blocked, Tc_spend_limit_exceeded, Tc_spend_limit_unverifiable] @ refusals"
| "route_stage_reasons Stg_availability =
     [Tc_resource_stale, Tc_resource_never_observed, Tc_resource_unhealthy, Tc_execution_ineligible,
      Tc_worker_continuation_unavailable, Tc_adapter_unavailable]"
| "route_stage_reasons Stg_compatibility =
     [Tc_compatibility_unsupported, Tc_compatibility_unknown, Tc_context_limit_unknown,
      Tc_context_limit_insufficient, Tc_output_limit_unknown, Tc_output_limit_insufficient,
      Tc_output_limit_unenforceable]"
| "route_stage_reasons Stg_capacity = [Tc_capacity_unavailable, Tc_capacity_unknown_blocked]"
| "route_stage_reasons Stg_policy = [Tc_policy_blocked, Tc_reservation_blocked, Tc_reservation_unknown]"

definition TARGET_EXCLUSION_REASON_CODES :: "target_code list" where
  "TARGET_EXCLUSION_REASON_CODES = concat (map route_stage_reasons ROUTE_EXCLUSION_STAGES)"

interpretation stage_vocab: vocabulary route_stage_str ROUTE_EXCLUSION_STAGES
  by (rule vocabularyI, simp add: ROUTE_EXCLUSION_STAGES_def, case_tac x,
      simp_all add: ROUTE_EXCLUSION_STAGES_def)

interpretation target_vocab: vocabulary target_code_str TARGET_EXCLUSION_REASON_CODES
proof (rule vocabularyI)
  show "distinct (map target_code_str TARGET_EXCLUSION_REASON_CODES)" by code_simp
  fix x :: target_code
  show "x \<in> set TARGET_EXCLUSION_REASON_CODES"
    using refusal_vocab.members_complete
    by (cases x) (simp_all add: TARGET_EXCLUSION_REASON_CODES_def ROUTE_EXCLUSION_STAGES_def refusals_def)
qed

section \<open>Effective authorization\<close>

record effective_authorization =
  ea_allowed_providers :: "string set option"
  ea_allowed_channels :: "execution_channel set option"
  ea_allowed_entitlements :: "entitlement_class set option"
  ea_blocked_resource_ids :: "string set"
  ea_spend_limit :: "spending_limit option"
  ea_strict_no_payg :: bool

definition intersect_optional :: "'a list option \<Rightarrow> 'a list option \<Rightarrow> 'a set option" where
  "intersect_optional a b =
     (case a of
        None \<Rightarrow> (case b of None \<Rightarrow> None | Some ys \<Rightarrow> Some (set ys))
      | Some xs \<Rightarrow> (case b of None \<Rightarrow> Some (set xs) | Some ys \<Rightarrow> Some (set xs \<inter> set ys)))"

definition narrow_by :: "'a set option \<Rightarrow> 'a set \<Rightarrow> 'a set" where
  \<comment> \<open>\<open>s if allowed is None else allowed & s\<close>\<close>
  "narrow_by allowed s = (case allowed of None \<Rightarrow> s | Some A \<Rightarrow> A \<inter> s)"

definition least_limit :: "spending_limit list \<Rightarrow> spending_limit option" where
  \<comment> \<open>\<open>min(limits, key=...) if limits else None\<close>: the first least one\<close>
  "least_limit ls =
     (case ls of
        [] \<Rightarrow> None
      | l # rest \<Rightarrow> Some (foldl (\<lambda>a b. if sl_micro_usd_per_mtoken_max b < sl_micro_usd_per_mtoken_max a
                                   then b else a) l rest))"

definition compute_authorization ::
  "administrator_constraints \<Rightarrow> client_authorization \<Rightarrow> client_routing_profile option \<Rightarrow>
   effective_authorization" where
  \<comment> \<open>\<open>_effective_authorization\<close>\<close>
  "compute_authorization admin client profile =
     (let providers = intersect_optional (ac_allowed_providers admin) (ac_allowed_providers client);
          providers' = (case profile of
              None \<Rightarrow> providers
            | Some p \<Rightarrow> (case cp_allowed_providers p of
                          None \<Rightarrow> providers | Some ps \<Rightarrow> Some (narrow_by providers (set ps))));
          limit = least_limit (List.map_filter (\<lambda>l. l) [ac_spend_limit admin, ac_spend_limit client]);
          channels = intersect_optional (ac_allowed_channels admin) (ac_allowed_channels client);
          channels' = (if ca_inference_only client
                       then Some (narrow_by channels {Ch_server_direct_http}) else channels) in
      \<lparr>ea_allowed_providers = providers', ea_allowed_channels = channels',
        ea_allowed_entitlements =
          intersect_optional (ac_allowed_entitlements admin) (ac_allowed_entitlements client),
        ea_blocked_resource_ids = set (ac_blocked_resource_ids admin) \<union> set (ac_blocked_resource_ids client),
        ea_spend_limit = limit, ea_strict_no_payg = ca_strict_no_payg client\<rparr>)"

section \<open>Binding\<close>

definition binds :: "resource_identity \<Rightarrow> int option \<Rightarrow> model_catalog_entry \<Rightarrow> bool" where
  "binds r version e =
     (mi_provider (ce_identity e) = ri_provider r \<and> mi_model (ce_identity e) = ri_model r
      \<and> (ri_variant r = None \<or> ri_variant r = Some (mi_variant (ce_identity e)))
      \<and> (version \<noteq> None \<or> ri_variant r \<noteq> None \<or> mi_variant (ce_identity e) = ''unconfigured''
         \<or> (case ce_capacity_binding_resources e of
              None \<Rightarrow> False | Some rs \<Rightarrow> ri_resource_id r \<in> set rs)))"

definition bind_identities :: "resource_registry_entry \<Rightarrow> model_catalog \<Rightarrow> model_identity list" where
  "bind_identities entry catalog =
     map ce_identity (filter (binds (rn_identity entry) (mc_catalog_version catalog)) (mc_entries catalog))"

section \<open>Authorization\<close>

definition spend_limit_codes :: "resource_registry_entry \<Rightarrow> spending_limit \<Rightarrow> target_code list" where
  "spend_limit_codes entry limit =
     (if ri_entitlement (rn_identity entry) \<notin> set METERED_ENTITLEMENTS then
        (if ri_entitlement (rn_identity entry) = En_unknown then [Tc_spend_limit_unverifiable] else [])
      else case rn_cost entry of
        None \<Rightarrow> [Tc_spend_limit_unverifiable]
      | Some cost \<Rightarrow>
          (let prices = List.map_filter (\<lambda>p. p) [rc_input cost, rc_output cost] in
           if prices = [] then [Tc_spend_limit_unverifiable]
           else if list_ex (\<lambda>p. p > sl_micro_usd_per_mtoken_max limit) prices then [Tc_spend_limit_exceeded]
           else []))"

definition outside :: "'a \<Rightarrow> 'a set option \<Rightarrow> bool" where
  \<comment> \<open>\<open>allowed is not None and x not in allowed\<close>\<close>
  "outside x allowed = (case allowed of None \<Rightarrow> False | Some A \<Rightarrow> x \<notin> A)"

definition no_payg_codes ::
  "iso_parser \<Rightarrow> resource_registry_entry \<Rightarrow> execution_assurance list \<Rightarrow> int option \<Rightarrow> target_code list" where
  "no_payg_codes utc entry assurances assessed_at =
     (let identity = rn_identity entry in
      if ri_entitlement identity \<in> set METERED_ENTITLEMENTS then [Tc_refusal No_payg_access_mode_forbidden]
      else if ri_entitlement identity = En_unknown then [Tc_refusal No_payg_path_unverified]
      else case (filter (\<lambda>a. es_resource (xa_current_scope a) = identity) assurances, assessed_at) of
             ([a], Some now) \<Rightarrow>
               map Tc_refusal (refusal_codes utc a identity now (rn_freshness_ttl_seconds entry))
           | _ \<Rightarrow> [Tc_refusal No_payg_evidence_unavailable])"

definition authorization_failure_codes ::
  "iso_parser \<Rightarrow> resource_registry_entry \<Rightarrow> effective_authorization \<Rightarrow> execution_assurance list \<Rightarrow>
   int option \<Rightarrow> target_code list" where
  \<comment> \<open>in fixed order\<close>
  "authorization_failure_codes utc entry eff assurances assessed_at =
     (let identity = rn_identity entry in
      (if outside (ri_provider identity) (ea_allowed_providers eff) then [Tc_unauthorized_provider] else [])
      @ (if outside (ri_channel identity) (ea_allowed_channels eff) then [Tc_unauthorized_channel] else [])
      @ (if outside (ri_entitlement identity) (ea_allowed_entitlements eff)
         then [Tc_unauthorized_entitlement] else [])
      @ (if ri_resource_id identity \<in> ea_blocked_resource_ids eff then [Tc_resource_blocked] else [])
      @ (case ea_spend_limit eff of None \<Rightarrow> [] | Some limit \<Rightarrow> spend_limit_codes entry limit)
      @ (if ea_strict_no_payg eff then no_payg_codes utc entry assurances assessed_at else []))"

section \<open>Availability\<close>

definition availability_failure_codes ::
  "resource_registry_entry \<Rightarrow> execution_eligibility list \<Rightarrow> target_code list" where
  "availability_failure_codes entry reports =
     (case rn_freshness entry of
        Fr_never_observed \<Rightarrow> [Tc_resource_never_observed]
      | Fr_stale \<Rightarrow> [Tc_resource_stale]
      | Fr_fresh \<Rightarrow> [])
     @ (case rn_observation entry of
          None \<Rightarrow> []
        | Some ob \<Rightarrow> if rh_status (rs_health ob) \<noteq> St_ok then [Tc_resource_unhealthy] else [])
     @ (case find (\<lambda>r. ee_provider r = ri_provider (rn_identity entry)) reports of
          None \<Rightarrow> []
        | Some r \<Rightarrow> if ee_state r \<noteq> Es_eligible then [Tc_execution_ineligible] else [])"

section \<open>Compatibility\<close>

definition cell_applies :: "resource_identity \<Rightarrow> compat_feature \<Rightarrow> compatibility_cell \<Rightarrow> bool" where
  "cell_applies r feature c =
     (cc_channel c = ri_channel r \<and> cc_provider c = ri_provider r \<and> cc_model c = ri_model r
      \<and> cc_feature c = feature)"

fun lookup_loop ::
  "resource_identity \<Rightarrow> compat_feature \<Rightarrow> compatibility_cell option \<Rightarrow> compatibility_cell option \<Rightarrow>
   compatibility_cell list \<Rightarrow> compatibility_cell option" where
  \<comment> \<open>the loop of \<open>_lookup_cell\<close> over \<open>specific\<close> and \<open>backend\<close>: the last match of each kind\<close>
  "lookup_loop r f specific backend [] = (if specific \<noteq> None then specific else backend)"
| "lookup_loop r f specific backend (c # cs) =
     (if cell_applies r f c then
        (if cc_variant c = None then lookup_loop r f specific (Some c) cs
         else if ri_variant r \<noteq> None \<and> cc_variant c = ri_variant r then lookup_loop r f (Some c) backend cs
         else lookup_loop r f specific backend cs)
      else lookup_loop r f specific backend cs)"

definition lookup_cell ::
  "compatibility_cell list \<Rightarrow> resource_identity \<Rightarrow> compat_feature \<Rightarrow> compatibility_cell option" where
  "lookup_cell cells r f = lookup_loop r f None None cells"

definition REQUEST_FEATURE_MAP :: "((request_binding \<Rightarrow> bool) \<times> compat_feature) list" where
  "REQUEST_FEATURE_MAP = [(rb_requires_tool_calls, Fe_tool_calls),
     (rb_requires_structured_output, Fe_structured_output), (rb_requires_streaming, Fe_streaming),
     (rb_requires_reasoning_controls, Fe_reasoning_controls)]"

definition required_features :: "request_binding \<Rightarrow> bool \<Rightarrow> compat_feature list" where
  "required_features request reasoning =
     map snd (filter (\<lambda>(flag, f). flag request \<or> (f = Fe_reasoning_controls \<and> reasoning)) REQUEST_FEATURE_MAP)"

definition feature_failure ::
  "compatibility_cell list \<Rightarrow> resource_identity \<Rightarrow> compat_feature \<Rightarrow>
   (target_code \<times> compat_feature \<times> cell_value option) option" where
  "feature_failure cells r f =
     (case lookup_cell cells r f of
        None \<Rightarrow> Some (Tc_compatibility_unknown, f, None)
      | Some c \<Rightarrow>
          (case cc_value c of
             Cell_UNKNOWN \<Rightarrow> Some (Tc_compatibility_unknown, f, Some Cell_UNKNOWN)
           | Cell_UNSUPPORTED \<Rightarrow> Some (Tc_compatibility_unsupported, f, Some Cell_UNSUPPORTED)
           | _ \<Rightarrow> None))"

fun output_code :: "output_limit_code \<Rightarrow> target_code" where
  "output_code Output_limit_unknown = Tc_output_limit_unknown"
| "output_code Output_limit_insufficient = Tc_output_limit_insufficient"
| "output_code Output_limit_unenforceable = Tc_output_limit_unenforceable"

definition context_codes :: "int option \<Rightarrow> int option \<Rightarrow> target_code list" where
  "context_codes minimum limit =
     (case minimum of
        None \<Rightarrow> []
      | Some m \<Rightarrow>
          (case limit of
             None \<Rightarrow> [Tc_context_limit_unknown]
           | Some l \<Rightarrow> if l < m then [Tc_context_limit_insufficient] else []))"

type_synonym compat_outcome = "target_code list \<times> compat_feature option \<times> cell_value option"

definition compatibility_failure ::
  "resource_registry_entry \<Rightarrow> request_binding \<Rightarrow> compatibility_cell list \<Rightarrow> task_requirement \<Rightarrow>
   int option \<times> bool \<Rightarrow> bool \<Rightarrow> compat_outcome" where
  "compatibility_failure entry request cells req output_context reasoning =
     (let (hard, resolved) = output_context;
          failures = List.map_filter (feature_failure cells (rn_identity entry))
                       (required_features request reasoning);
          caps = rn_capabilities entry; hc = tr_hard_constraints req;
          codes = map fst failures
            @ context_codes (hc_minimum_input_context_tokens hc) (ec_context_limit_tokens caps)
            @ map output_code (case route_output_code caps hard (rb_maximum_output_tokens request) resolved True of
                                 None \<Rightarrow> [] | Some c \<Rightarrow> [c])
            @ map output_code (case route_output_code caps hard (hc_minimum_output_tokens hc) resolved False of
                                 None \<Rightarrow> [] | Some c \<Rightarrow> [c]);
          first = (case failures of [] \<Rightarrow> (None, None) | (_, f, v) # _ \<Rightarrow> (Some f, v)) in
      (sort_key target_code_str (remdups codes), fst first, snd first))"

definition effective_variant :: "request_binding \<Rightarrow> resource_identity \<Rightarrow> string option" where
  "effective_variant request r =
     (case rb_explicit_variant request of
        Some v \<Rightarrow> Some v
      | None \<Rightarrow>
          (case rb_pinned_target request of
             Some p \<Rightarrow> Some (mi_variant (pt_model p))
           | None \<Rightarrow>
               (case rb_explicit_model request of
                  Some m \<Rightarrow> (if mr_provider m = ri_provider r \<and> mr_model m = ri_model r
                             then ri_variant r else None)
                | None \<Rightarrow> None)))"

definition request_output_context ::
  "request_binding \<Rightarrow> resource_registry_entry \<Rightarrow> model_catalog \<Rightarrow> int option \<times> bool" where
  "request_output_context request entry catalog =
     (let r = rn_identity entry in
      case effective_variant request r of
        None \<Rightarrow> (None, False)
      | Some v \<Rightarrow>
          (case find (\<lambda>e. ce_identity e = ModelIdentity (ri_provider r) (ri_model r) v) (mc_entries catalog) of
             None \<Rightarrow> (None, True)
           | Some e \<Rightarrow> (hp_output_tokens (ce_hard_properties e), True)))"

section \<open>Promotion preference\<close>

definition promotion_matches :: "promotion_observation \<Rightarrow> resource_registry_entry \<Rightarrow> bool" where
  "promotion_matches p entry =
     (let r = rn_identity entry in
      if po_plan p \<noteq> None then False
      else if po_channel p \<noteq> None \<and> po_channel p \<noteq> Some (ri_channel r) then False
      else if po_provider p \<noteq> None \<and> po_provider p \<noteq> Some (ri_provider r) then False
      else if po_model p \<noteq> None \<and> po_model p \<noteq> Some (ri_model r) then False
      else True)"

definition parse_bound :: "string option \<Rightarrow> string \<Rightarrow> int option result" where
  "parse_bound x fld =
     (case x of None \<Rightarrow> Inr None | Some s \<Rightarrow> bind_r (parse_canonical_ts s fld) (\<lambda>t. Inr (Some t)))"

datatype promotion_phase = Promo_active | Promo_expired | Promo_upcoming

definition promotion_phase_at :: "int \<Rightarrow> promotion_observation \<Rightarrow> promotion_phase result" where
  "promotion_phase_at at p =
     bind_r (parse_bound (po_valid_from p) ''promotion.valid_from'') (\<lambda>from.
     bind_r (parse_bound (po_valid_until p) ''promotion.valid_until'') (\<lambda>until.
       Inr (if (case until of None \<Rightarrow> False | Some u \<Rightarrow> u < at) then Promo_expired
            else if (case from of None \<Rightarrow> False | Some f \<Rightarrow> f > at) then Promo_upcoming
            else Promo_active)))"

definition promotion_preference ::
  "resource_registry_entry \<Rightarrow> int \<Rightarrow> (string list \<times> string list) result" where
  \<comment> \<open>active and expired sources, sorted\<close>
  "promotion_preference entry at =
     (case rn_observation entry of
        None \<Rightarrow> Inr ([], [])
      | Some ob \<Rightarrow>
          bind_r (traverse (\<lambda>p. bind_r (promotion_phase_at at p) (\<lambda>ph. Inr (ph, po_source p)))
                    (filter (\<lambda>p. promotion_matches p entry) (rs_promotions ob))) (\<lambda>phases.
            Inr (sort (remdups (map snd (filter (\<lambda>(ph, _). ph = Promo_active) phases))),
                 sort (remdups (map snd (filter (\<lambda>(ph, _). ph = Promo_expired) phases))))))"

section \<open>The gate of one resource\<close>

record resource_gate =
  ga_entry :: resource_registry_entry
  ga_bound_identities :: "model_identity list"
  ga_qualified :: bool
  ga_stage :: "route_stage option"
  ga_reason_codes :: "target_code list"
  ga_health_status :: "capacity_status option"
  ga_compatibility_feature :: "compat_feature option"
  ga_compatibility_value :: "cell_value option"
  ga_eligibility :: "execution_eligibility option"
  ga_promotion_sources :: "string list"

record gate_inputs =
  \<comment> \<open>the arguments of \<open>_evaluate_resource\<close> but the entry\<close>
  gi_catalog :: model_catalog
  gi_effective :: effective_authorization
  gi_request :: request_binding
  gi_cells :: "compatibility_cell list"
  gi_requirement :: task_requirement
  gi_reports :: "execution_eligibility list"
  gi_evaluated_at :: int
  gi_continuation_ids :: "string set option"
  gi_reasoning_required :: bool
  gi_assurances :: "execution_assurance list"
  gi_require_effort :: bool
  gi_adapter_ids :: "string set option"
  gi_mi_blocked :: "model_identity set"
  gi_mi_effort :: "model_identity set"

definition instant_text :: "int \<Rightarrow> string" where
  \<comment> \<open>\<open>canonical_instant(evaluated_at)\<close> of an aware instant\<close>
  "instant_text at = (case canonical_instant (Aware at) of Inr s \<Rightarrow> s | Inl _ \<Rightarrow> [])"

definition evidence_lapsed :: "execution_capabilities \<Rightarrow> int \<Rightarrow> bool" where
  "evidence_lapsed c at =
     (case ec_evidence_valid_until c of
        None \<Rightarrow> False
      | Some until \<Rightarrow>
          instant_text at \<ge> until
          \<or> (case ec_evidence_verified_at c of None \<Rightarrow> False | Some v \<Rightarrow> instant_text at < v))"

definition strip_context :: "resource_registry_entry \<Rightarrow> int \<Rightarrow> resource_registry_entry result" where
  \<comment> \<open>the two \<open>replace\<close> calls construct again\<close>
  "strip_context entry at =
     (if evidence_lapsed (rn_capabilities entry) at then
        bind_r (mk_capabilities ((rn_capabilities entry)\<lparr>ec_context_limit_tokens := None,
            ec_evidence_ref := None, ec_evidence_valid_until := None, ec_evidence_verified_at := None,
            ec_evidence_runtime_version := None\<rparr>)) (\<lambda>c.
          mk_registry_entry (entry\<lparr>rn_capabilities := c\<rparr>))
      else Inr entry)"

definition gate_of :: "resource_registry_entry \<Rightarrow> model_identity list \<Rightarrow> string list \<Rightarrow> resource_gate" where
  \<comment> \<open>a qualified gate with the class defaults\<close>
  "gate_of entry bound promotions =
     \<lparr>ga_entry = entry, ga_bound_identities = bound, ga_qualified = True, ga_stage = None,
       ga_reason_codes = [], ga_health_status = None, ga_compatibility_feature = None,
       ga_compatibility_value = None, ga_eligibility = None, ga_promotion_sources = promotions\<rparr>"

definition shut_gate ::
  "resource_registry_entry \<Rightarrow> model_identity list \<Rightarrow> string list \<Rightarrow> route_stage \<Rightarrow> target_code list \<Rightarrow>
   resource_gate" where
  "shut_gate entry bound promotions stage codes =
     (gate_of entry bound promotions)\<lparr>ga_qualified := False, ga_stage := Some stage,
       ga_reason_codes := codes\<rparr>"

definition live_availability_codes :: "gate_inputs \<Rightarrow> resource_registry_entry \<Rightarrow> target_code list" where
  "live_availability_codes x entry =
     (let rid = ri_resource_id (rn_identity entry) in
      sort_key target_code_str
        (availability_failure_codes entry (gi_reports x)
         @ (if outside rid (gi_adapter_ids x) then [Tc_adapter_unavailable] else [])
         @ (if rb_requires_tool_calls (gi_request x) \<and> ri_channel (rn_identity entry) = Ch_worker_bridged
               \<and> (case gi_continuation_ids x of None \<Rightarrow> True | Some A \<Rightarrow> rid \<notin> A)
            then [Tc_worker_continuation_unavailable] else [])))"

definition compatibility_with :: "gate_inputs \<Rightarrow> resource_registry_entry \<Rightarrow> bool \<Rightarrow> compat_outcome" where
  "compatibility_with x entry reasoning =
     compatibility_failure entry (gi_request x) (gi_cells x) (gi_requirement x)
       (request_output_context (gi_request x) entry (gi_catalog x)) reasoning"

definition effort_evidenced :: "model_catalog \<Rightarrow> model_catalog_entry \<Rightarrow> string \<Rightarrow> bool" where
  \<comment> \<open>a configured effort that the catalog vouches for on this resource\<close>
  "effort_evidenced catalog e rid =
     (ce_reasoning_effort e \<noteq> None
      \<and> (mc_catalog_version catalog \<noteq> None
         \<or> (case ce_capacity_binding_resources e of None \<Rightarrow> False | Some rs \<Rightarrow> rid \<in> set rs)))"

definition effort_failure ::
  "gate_inputs \<Rightarrow> resource_registry_entry \<Rightarrow> model_identity \<Rightarrow> (model_identity \<times> compat_outcome) result" where
  "effort_failure x entry i =
     (case find (\<lambda>e. ce_identity e = i) (mc_entries (gi_catalog x)) of
        None \<Rightarrow> Inl (StopIteration ''catalog.entries'')
      | Some e \<Rightarrow>
          Inr (i, compatibility_with x entry
                 (gi_reasoning_required x
                  \<or> (effort_evidenced (gi_catalog x) e (ri_resource_id (rn_identity entry))
                     \<and> (gi_require_effort x \<or> i \<in> gi_mi_effort x)))))"

definition compatibility_gate ::
  "gate_inputs \<Rightarrow> resource_registry_entry \<Rightarrow> model_identity list \<Rightarrow> string list \<Rightarrow> resource_gate result" where
  \<comment> \<open>the compatibility stage with its per-identity effort check\<close>
  "compatibility_gate x entry bound promotions =
     (let shut = (\<lambda>(codes, feature, val). (shut_gate entry bound promotions Stg_compatibility codes)
            \<lparr>ga_compatibility_feature := feature, ga_compatibility_value := val\<rparr>);
          failure = compatibility_with x entry (gi_reasoning_required x) in
      if fst failure \<noteq> [] then Inr (shut failure)
      else if gi_require_effort x \<or> list_ex (\<lambda>i. i \<in> gi_mi_effort x) bound then
        bind_r (traverse (effort_failure x entry) bound) (\<lambda>outcomes.
        let usable = map fst (filter (\<lambda>(_, f). fst f = []) outcomes) in
        if usable = [] then
          (case find (\<lambda>(_, f). fst f \<noteq> []) outcomes of
             None \<Rightarrow> Inl (AssertionError ''effort_failure'')
           | Some (_, f) \<Rightarrow> Inr (shut f))
        else Inr (gate_of entry usable promotions))
      else Inr (gate_of entry bound promotions))"

definition evaluate_resource ::
  "iso_parser \<Rightarrow> gate_inputs \<Rightarrow> resource_registry_entry \<Rightarrow> resource_gate result" where
  "evaluate_resource utc x entry0 =
     bind_r (strip_context entry0 (gi_evaluated_at x)) (\<lambda>entry.
     let bound = bind_identities entry (gi_catalog x) in
     bind_r (promotion_preference entry (gi_evaluated_at x)) (\<lambda>(promotions, _).
     if bound = [] then Inr (shut_gate entry [] promotions Stg_binding [Tc_capability_unassessed])
     else
       let codes = authorization_failure_codes utc entry (gi_effective x) (gi_assurances x)
             (Some (gi_evaluated_at x)) in
       if codes \<noteq> [] then Inr (shut_gate entry bound promotions Stg_authorization codes)
       else
         let usable = filter (\<lambda>i. i \<notin> gi_mi_blocked x) bound in
         if usable = [] then Inr (shut_gate entry bound promotions Stg_authorization [Tc_resource_blocked])
         else
           let unavailable = live_availability_codes x entry in
           if unavailable \<noteq> [] then
             Inr ((shut_gate entry usable promotions Stg_availability unavailable)
               \<lparr>ga_health_status := map_option (\<lambda>ob. rh_status (rs_health ob)) (rn_observation entry),
                 ga_eligibility := find (\<lambda>r. ee_provider r = ri_provider (rn_identity entry)
                   \<and> ee_state r \<noteq> Es_eligible) (gi_reports x)\<rparr>)
           else compatibility_gate x entry usable promotions))"

end
