(* ===== verification/Route_Outputs.thy ===== *)
theory Route_Outputs
  imports Route_Gates
begin

text \<open>
  routing_core.py, the output contracts: route target, typed exclusion, route decision and admission
  decision, with their cross-field checks and wire forms. The decision identifier is the first 32
  digits of SHA-256 over the canonical JSON rendering; the digest function is the parameter \<open>sha\<close>.
\<close>

section \<open>Route targets\<close>

record route_target =
  tg_resource :: resource_identity
  tg_model :: model_identity
  tg_quota_pools :: "string list"
  tg_routing_profile :: "string option"
  tg_promotion_sources :: "string list"
  tg_shares_pool :: bool
  tg_evidence_ref :: "string option"
  tg_evidence_valid_until :: "string option"
  tg_evidence_verified_at :: "string option"
  tg_evidence_runtime_version :: "string option"
  tg_context_limit_tokens :: "int option"
  tg_reasoning_effort :: "string option"

definition check_target_evidence :: "route_target \<Rightarrow> unit result" where
  "check_target_evidence t =
     (case tg_evidence_ref t of
        None \<Rightarrow>
          (if tg_evidence_valid_until t \<noteq> None \<or> tg_evidence_verified_at t \<noteq> None
              \<or> tg_evidence_runtime_version t \<noteq> None \<or> tg_context_limit_tokens t \<noteq> None
           then Inl (rt_exn ''route_target'') else Inr ())
      | Some evidence \<Rightarrow>
          bind_r (v_safe_id rt_exn (PStr evidence) ''route_target.context_evidence_ref'') (\<lambda>_.
          case (tg_evidence_valid_until t, tg_evidence_verified_at t, tg_evidence_runtime_version t,
                tg_context_limit_tokens t) of
            (Some until, Some verified, Some version, Some limit) \<Rightarrow>
              (if validate_runtime_version (PStr version) = None then Inl (rt_exn ''route_target'')
               else
                 bind_r (parse_canonical_ts until ''route_target.context_evidence_valid_until'') (\<lambda>_.
                 bind_r (parse_canonical_ts verified ''route_target.context_evidence_verified_at'') (\<lambda>_.
                 if verified \<ge> until then Inl (rt_exn ''route_target'')
                 else bind_r (v_int rt_exn (Some 1) None (PInt limit) ''route_target.context_limit_tokens'')
                        (\<lambda>_. Inr ()))))
          | _ \<Rightarrow> Inl (rt_exn ''route_target'')))"

definition mk_route_target :: "route_target \<Rightarrow> route_target result" where
  "mk_route_target t =
     bind_r (v_sorted_safe_ids None (map PStr (tg_quota_pools t)) ''route_target.quota_pools'') (\<lambda>_.
     bind_r (v_opt (v_safe_id rt_exn) (opt_py PStr (tg_routing_profile t)) ''route_target.routing_profile'') (\<lambda>_.
     bind_r (v_sorted_safe_ids None (map PStr (tg_promotion_sources t)) ''route_target.promotion_sources'') (\<lambda>_.
     bind_r (check_target_evidence t) (\<lambda>_.
     bind_r (v_opt (v_safe_id rt_exn) (opt_py PStr (tg_reasoning_effort t)) ''route_target.reasoning_effort'') (\<lambda>_.
       Inr t)))))"

definition target_evidence_to_dict :: "route_target \<Rightarrow> pyval" where
  "target_evidence_to_dict t =
     PDict [(''kind'', PStr ''administrator_attested''),
            (''reference'', opt_py PStr (tg_evidence_ref t)),
            (''valid_until'', opt_py PStr (tg_evidence_valid_until t)),
            (''input_tokens'', opt_py PInt (tg_context_limit_tokens t)),
            (''verified_at'', opt_py PStr (tg_evidence_verified_at t)),
            (''runtime_version'', opt_py PStr (tg_evidence_runtime_version t))]"

definition route_target_to_dict :: "route_target \<Rightarrow> pyval" where
  "route_target_to_dict t =
     obj [(''resource'', Some (resource_identity_to_dict (tg_resource t))),
          (''model'', Some (identity_to_dict (tg_model t))),
          (''quota_pools'', Some (PList (map PStr (tg_quota_pools t)))),
          (''routing_profile'', map_option PStr (tg_routing_profile t)),
          (''promotion_sources'', nonempty PStr (tg_promotion_sources t)),
          (''shares_quota_pool_with_selected'', true_flag (tg_shares_pool t)),
          (''context_evidence'',
             (if tg_evidence_ref t = None then None else Some (target_evidence_to_dict t))),
          (''reasoning_effort'', map_option PStr (tg_reasoning_effort t))]"

definition target_evidence_ok :: "route_target \<Rightarrow> bool" where
  "target_evidence_ok t =
     (case (tg_evidence_ref t, tg_evidence_valid_until t, tg_evidence_verified_at t,
            tg_evidence_runtime_version t, tg_context_limit_tokens t) of
        (None, None, None, None, None) \<Rightarrow> True
      | (Some ref, Some until, Some verified, Some version, Some limit) \<Rightarrow>
          safe_id_match ref \<and> version_ok version \<and> ts_ok until \<and> ts_ok verified \<and> verified < until
          \<and> 1 \<le> limit
      | _ \<Rightarrow> False)"

definition valid_route_target :: "route_target \<Rightarrow> bool" where
  "valid_route_target t =
     (valid_resource_identity (tg_resource t) \<and> valid_identity (tg_model t)
      \<and> sorted_ids (tg_quota_pools t) \<and> pred_option safe_id_match (tg_routing_profile t)
      \<and> sorted_ids (tg_promotion_sources t) \<and> target_evidence_ok t
      \<and> pred_option safe_id_match (tg_reasoning_effort t))"

lemma validate_runtime_version_PStr:
  "validate_runtime_version (PStr s) = None \<longleftrightarrow> \<not> version_ok s"
  by (auto simp: validate_runtime_version_def version_ok_def)

lemma check_target_evidence_Inr [valid_simps]:
  "check_target_evidence t = Inr u \<longleftrightarrow> target_evidence_ok t"
  by (cases "tg_evidence_ref t"; cases "tg_evidence_valid_until t"; cases "tg_evidence_verified_at t";
      cases "tg_evidence_runtime_version t"; cases "tg_context_limit_tokens t")
    (auto simp: check_target_evidence_def target_evidence_ok_def bind_r_Inr_iff valid_simps
      validate_runtime_version_PStr not_le)

lemma mk_route_target_Inr [valid_simps]:
  "valid_resource_identity (tg_resource t) \<Longrightarrow> valid_identity (tg_model t) \<Longrightarrow>
   mk_route_target t = Inr t' \<longleftrightarrow> t' = t \<and> valid_route_target t"
  by (auto simp: mk_route_target_def valid_route_target_def bind_r_Inr_iff valid_simps)

subsection \<open>Pins of a target\<close>

definition pin_of_target :: "route_target \<Rightarrow> string option \<Rightarrow> pinned_target result" where
  \<comment> \<open>\<open>PinnedTarget.from_route_target\<close>\<close>
  "pin_of_target t decision_id =
     mk_pinned_target \<lparr>pt_resource_id = ri_resource_id (tg_resource t), pt_model = tg_model t,
       pt_decision_id = decision_id, pt_reasoning_effort = tg_reasoning_effort t\<rparr>"

definition ROUTE_TARGET_OPTIONAL :: "string list" where
  "ROUTE_TARGET_OPTIONAL = [''routing_profile'', ''promotion_sources'',
     ''shares_quota_pool_with_selected'', ''context_evidence'', ''reasoning_effort'']"

definition pin_of_target_dict :: "pyval \<Rightarrow> string option \<Rightarrow> pinned_target result" where
  \<comment> \<open>\<open>PinnedTarget.from_route_target_dict\<close>\<close>
  "pin_of_target_dict d decision_id =
     bind_r (v_exact_shape rt_exn d [''resource'', ''model'', ''quota_pools''] ROUTE_TARGET_OPTIONAL
               ''route_target'') (\<lambda>dd.
     bind_r (v_item dd ''resource'' (\<lambda>v fld. case v of PDict m \<Rightarrow> Inr m | _ \<Rightarrow> Inl (rt_exn fld))
               ''route_target.resource'') (\<lambda>resource.
     bind_r (v_safe_id rt_exn (py_get resource ''resource_id'') ''route_target.resource.resource_id'') (\<lambda>rid.
     bind_r (v_item dd ''model'' (\<lambda>v _. identity_from_dict v) ''model'') (\<lambda>model.
     bind_r (v_opt (v_safe_id rt_exn) (py_get dd ''reasoning_effort'') ''route_target.reasoning_effort'') (\<lambda>effort.
       mk_pinned_target \<lparr>pt_resource_id = rid, pt_model = model, pt_decision_id = decision_id,
         pt_reasoning_effort = effort\<rparr>)))))"

section \<open>Target exclusions\<close>

record target_exclusion =
  tx_resource_id :: string
  tx_stage :: route_stage
  tx_reason_codes :: "string list"
  tx_channel :: "execution_channel option"
  tx_provider :: "string option"
  tx_model :: "string option"
  tx_variant :: "string option"
  tx_health_status :: "capacity_status option"
  tx_freshness :: "freshness_state option"
  tx_compatibility_feature :: "compat_feature option"
  tx_compatibility_value :: "cell_value option"
  tx_eligibility :: "execution_eligibility option"

definition stage_reason_strs :: "route_stage \<Rightarrow> string set" where
  "stage_reason_strs s = target_code_str ` set (route_stage_reasons s)"

definition mk_exclusion_from :: "pyval list \<Rightarrow> target_exclusion \<Rightarrow> target_exclusion result" where
  \<comment> \<open>\<open>__post_init__\<close> with the codes as they arrive: \<open>from_dict\<close> passes them unchecked\<close>
  "mk_exclusion_from raw x =
     bind_r (v_safe_id rt_exn (PStr (tx_resource_id x)) ''target_exclusion.resource_id'') (\<lambda>_.
     bind_r (v_sorted_safe_ids None raw ''target_exclusion.reason_codes'') (\<lambda>codes.
     if codes = [] then Inl (rt_exn ''target_exclusion'')
     else if stage_reason_strs (tx_stage x) \<inter> set codes = {} then Inl (rt_exn ''target_exclusion'')
     else
     bind_r (v_opt (v_safe_id rt_exn) (opt_py PStr (tx_provider x)) ''target_exclusion.provider'') (\<lambda>_.
     bind_r (v_opt (v_safe_id rt_exn) (opt_py PStr (tx_model x)) ''target_exclusion.model'') (\<lambda>_.
     bind_r (v_opt (v_safe_id rt_exn) (opt_py PStr (tx_variant x)) ''target_exclusion.variant'') (\<lambda>_.
     if tx_compatibility_feature x \<noteq> None \<and> tx_stage x \<noteq> Stg_compatibility
       then Inl (rt_exn ''target_exclusion'')
     else if tx_eligibility x \<noteq> None \<and> tx_stage x \<noteq> Stg_availability
       then Inl (rt_exn ''target_exclusion'')
     else Inr (x\<lparr>tx_reason_codes := codes\<rparr>))))))"

definition mk_exclusion :: "target_exclusion \<Rightarrow> target_exclusion result" where
  "mk_exclusion x = mk_exclusion_from (map PStr (tx_reason_codes x)) x"

definition EXCLUSION_OPTIONAL :: "string list" where
  "EXCLUSION_OPTIONAL = [''channel'', ''provider'', ''model'', ''variant'', ''health_status'',
     ''freshness'', ''compatibility_feature'', ''compatibility_value'', ''execution_eligibility'']"

definition exclusion_from_dict :: "pyval \<Rightarrow> target_exclusion result" where
  "exclusion_from_dict d =
     bind_r (v_exact_shape rt_exn d [''resource_id'', ''stage'', ''reason_codes''] EXCLUSION_OPTIONAL
               ''target_exclusion'') (\<lambda>dd.
     bind_r (v_item dd ''reason_codes'' (v_list rt_exn) ''target_exclusion.reason_codes'') (\<lambda>raw.
     bind_r (v_opt (\<lambda>v fld. eligibility_from_dict v) (py_get dd ''execution_eligibility'')
               ''execution_eligibility'') (\<lambda>eligibility.
     bind_r (v_item dd ''resource_id'' (v_safe_id rt_exn) ''target_exclusion.resource_id'') (\<lambda>rid.
     bind_r (v_item dd ''stage'' (v_enum rt_exn route_stage_str ROUTE_EXCLUSION_STAGES)
               ''target_exclusion.stage'') (\<lambda>stage.
     bind_r (v_opt (v_enum rt_exn channel_str EXECUTION_CHANNELS) (py_get dd ''channel'')
               ''target_exclusion.channel'') (\<lambda>channel.
     bind_r (v_opt (v_safe_id rt_exn) (py_get dd ''provider'') ''target_exclusion.provider'') (\<lambda>provider.
     bind_r (v_opt (v_safe_id rt_exn) (py_get dd ''model'') ''target_exclusion.model'') (\<lambda>model.
     bind_r (v_opt (v_safe_id rt_exn) (py_get dd ''variant'') ''target_exclusion.variant'') (\<lambda>variant.
     bind_r (v_opt (v_enum rt_exn status_str RESOURCE_HEALTH_STATUSES) (py_get dd ''health_status'')
               ''target_exclusion.health_status'') (\<lambda>health.
     bind_r (v_opt (v_enum rt_exn freshness_str FRESHNESS_STATES) (py_get dd ''freshness'')
               ''target_exclusion.freshness'') (\<lambda>freshness.
     bind_r (v_opt (v_enum rt_exn feature_str COMPAT_FEATURES) (py_get dd ''compatibility_feature'')
               ''target_exclusion.compatibility_feature'') (\<lambda>feature.
     bind_r (v_opt (v_enum rt_exn cell_str COMPAT_CELL_VALUES) (py_get dd ''compatibility_value'')
               ''target_exclusion.compatibility_value'') (\<lambda>val.
       mk_exclusion_from raw \<lparr>tx_resource_id = rid, tx_stage = stage, tx_reason_codes = [],
         tx_channel = channel, tx_provider = provider, tx_model = model, tx_variant = variant,
         tx_health_status = health, tx_freshness = freshness, tx_compatibility_feature = feature,
         tx_compatibility_value = val, tx_eligibility = eligibility\<rparr>)))))))))))))"

definition exclusion_to_dict :: "target_exclusion \<Rightarrow> pyval" where
  "exclusion_to_dict x =
     obj [(''resource_id'', Some (PStr (tx_resource_id x))),
          (''stage'', Some (PStr (route_stage_str (tx_stage x)))),
          (''reason_codes'', Some (PList (map PStr (tx_reason_codes x)))),
          (''channel'', map_option (\<lambda>c. PStr (channel_str c)) (tx_channel x)),
          (''provider'', map_option PStr (tx_provider x)),
          (''model'', map_option PStr (tx_model x)),
          (''variant'', map_option PStr (tx_variant x)),
          (''health_status'', map_option (\<lambda>c. PStr (status_str c)) (tx_health_status x)),
          (''freshness'', map_option (\<lambda>c. PStr (freshness_str c)) (tx_freshness x)),
          (''compatibility_feature'', map_option (\<lambda>c. PStr (feature_str c)) (tx_compatibility_feature x)),
          (''compatibility_value'', map_option (\<lambda>c. PStr (cell_str c)) (tx_compatibility_value x)),
          (''execution_eligibility'', map_option eligibility_to_dict (tx_eligibility x))]"

definition exclusion_parts :: "target_exclusion \<Rightarrow> bool" where
  "exclusion_parts x = pred_option valid_eligibility (tx_eligibility x)"

definition valid_exclusion :: "target_exclusion \<Rightarrow> bool" where
  "valid_exclusion x =
     (exclusion_parts x \<and> safe_id_match (tx_resource_id x) \<and> sorted_ids (tx_reason_codes x)
      \<and> stage_reason_strs (tx_stage x) \<inter> set (tx_reason_codes x) \<noteq> {}
      \<and> pred_option safe_id_match (tx_provider x) \<and> pred_option safe_id_match (tx_model x)
      \<and> pred_option safe_id_match (tx_variant x)
      \<and> (tx_compatibility_feature x = None \<or> tx_stage x = Stg_compatibility)
      \<and> (tx_eligibility x = None \<or> tx_stage x = Stg_availability))"

lemma mk_exclusion_from_run:
  assumes "exclusion_parts x" and "sorted_ids codes"
  shows "mk_exclusion_from (map PStr codes) x = Inr x' \<longleftrightarrow>
    x' = x\<lparr>tx_reason_codes := codes\<rparr> \<and> valid_exclusion (x\<lparr>tx_reason_codes := codes\<rparr>)"
proof -
  have "v_sorted_safe_ids None (map PStr codes) l = Inr codes" for l
    using assms(2) by (simp add: v_sorted_safe_ids_Inr)
  moreover have "codes = [] \<Longrightarrow> stage_reason_strs s \<inter> set codes = {}" for s by simp
  ultimately show ?thesis
    using assms by (auto simp: mk_exclusion_from_def bind_r_Inr_iff valid_simps valid_exclusion_def
        exclusion_parts_def)
qed

lemma mk_exclusion_from_Inr:
  assumes "exclusion_parts x"
  shows "mk_exclusion_from raw x = Inr x' \<longleftrightarrow>
     (\<exists>codes. raw = map PStr codes \<and> x' = x\<lparr>tx_reason_codes := codes\<rparr> \<and> valid_exclusion x')"
proof
  assume r: "mk_exclusion_from raw x = Inr x'"
  then obtain codes where "raw = map PStr codes" "sorted_ids codes"
    by (auto simp: mk_exclusion_from_def bind_r_Inr_iff v_sorted_safe_ids_Inr)
  with r show "\<exists>codes. raw = map PStr codes \<and> x' = x\<lparr>tx_reason_codes := codes\<rparr> \<and> valid_exclusion x'"
    using mk_exclusion_from_run [OF assms, of codes x'] by auto
next
  assume "\<exists>codes. raw = map PStr codes \<and> x' = x\<lparr>tx_reason_codes := codes\<rparr> \<and> valid_exclusion x'"
  then obtain codes where c: "raw = map PStr codes" "x' = x\<lparr>tx_reason_codes := codes\<rparr>" "valid_exclusion x'"
    by blast
  then have "sorted_ids codes" by (simp add: valid_exclusion_def)
  with c show "mk_exclusion_from raw x = Inr x'"
    using mk_exclusion_from_run [OF assms, of codes x'] by simp
qed

lemma mk_exclusion_Inr [valid_simps]:
  "exclusion_parts x \<Longrightarrow> mk_exclusion x = Inr x' \<longleftrightarrow> x' = x \<and> valid_exclusion x"
proof -
  assume "exclusion_parts x"
  moreover have "x = x\<lparr>tx_reason_codes := tx_reason_codes x\<rparr>" by simp
  ultimately show ?thesis
    by (auto simp: mk_exclusion_def mk_exclusion_from_Inr map_PStr_eq)
qed

lemma exclusion_wire:
  assumes "valid_exclusion x"
  shows "exclusion_from_dict (exclusion_to_dict x) = Inr x"
proof -
  have e: "v_opt (\<lambda>v fld. eligibility_from_dict v) (opt_py eligibility_to_dict y) l = Inr y"
    if "pred_option valid_eligibility y" for y l
    using that by (rule eligibility_contract.opt_from_to) (simp add: eligibility_to_dict_def)
  have enum: "opt_py (\<lambda>v. v) (map_option (\<lambda>c. PStr (f c)) y) = opt_py (\<lambda>c. PStr (f c)) y" for f :: "'a \<Rightarrow> string" and y
    by (cases y) simp_all
  have "mk_exclusion_from (map PStr (tx_reason_codes x)) (x\<lparr>tx_reason_codes := []\<rparr>) = Inr x"
    using assms mk_exclusion_from_run [of "x\<lparr>tx_reason_codes := []\<rparr>" "tx_reason_codes x" x]
    by (simp add: exclusion_parts_def valid_exclusion_def)
  with assms show ?thesis
    by (cases x) (auto simp: exclusion_from_dict_def exclusion_to_dict_def EXCLUSION_OPTIONAL_def
        shape_simps bind_r_Inr_iff e enum valid_simps result_simps valid_exclusion_def exclusion_parts_def)
qed

interpretation exclusion_contract: contract exclusion_parts valid_exclusion mk_exclusion
    exclusion_from_dict exclusion_to_dict
proof unfold_locales
  fix r d
  show "exclusion_from_dict d = Inr r \<Longrightarrow> valid_exclusion r"
    by (auto simp: exclusion_from_dict_def bind_r_Inr_iff mk_exclusion_from_Inr exclusion_parts_def
        dest!: eligibility_contract.opt_ok)
  show "valid_exclusion r \<Longrightarrow> mk_exclusion r = Inr r"
    by (simp add: mk_exclusion_Inr valid_exclusion_def)
  show "valid_exclusion r \<Longrightarrow> exclusion_from_dict (exclusion_to_dict r) = Inr r"
    by (rule exclusion_wire)
qed (simp add: mk_exclusion_Inr)

section \<open>Canonical JSON and the decision identifier\<close>

definition hex_digit :: "nat \<Rightarrow> char" where
  "hex_digit n = ''0123456789abcdef'' ! n"

definition json_char :: "char \<Rightarrow> string" where
  \<comment> \<open>the escapes of \<open>json.dumps\<close> with \<open>ensure_ascii\<close>\<close>
  "json_char c = (let n = (of_char c :: nat) in
     if c = CHR 0x22 then [CHR 0x5C, CHR 0x22]
     else if c = CHR 0x5C then [CHR 0x5C, CHR 0x5C]
     else if n = 10 then [CHR 0x5C, CHR ''n'']
     else if n = 13 then [CHR 0x5C, CHR ''r'']
     else if n = 9 then [CHR 0x5C, CHR ''t'']
     else if n = 12 then [CHR 0x5C, CHR ''f'']
     else if n = 8 then [CHR 0x5C, CHR ''b'']
     else if n < 32 \<or> 126 < n then [CHR 0x5C] @ ''u00'' @ [hex_digit (n div 16), hex_digit (n mod 16)]
     else [c])"

definition json_string :: "string \<Rightarrow> string" where
  "json_string s = [CHR 0x22] @ concat (map json_char s) @ [CHR 0x22]"

fun json_text :: "pyval \<Rightarrow> string" where
  \<comment> \<open>\<open>json.dumps(v, sort_keys=True, separators=(",", ":"))\<close>; no \<open>to_dict\<close> builds a \<open>POther\<close>\<close>
  "json_text PNone = ''null''"
| "json_text (PBool b) = (if b then ''true'' else ''false'')"
| "json_text (PInt i) = int_str i"
| "json_text (PStr s) = json_string s"
| "json_text (PList vs) = ''['' @ join '','' (map json_text vs) @ '']''"
| "json_text (PDict m) =
     ''{'' @ join '','' (map (\<lambda>(k, t). json_string k @ '':'' @ t)
               (sort_key fst (map (\<lambda>(k, v). (k, json_text v)) m))) @ ''}''"
| "json_text (POther t) = t"

definition derive_decision_id :: "(string \<Rightarrow> string) \<Rightarrow> pyval \<Rightarrow> string" where
  "derive_decision_id sha content = ''rd-'' @ take 32 (sha (json_text content))"

section \<open>The route decision\<close>

datatype route_status = Route_selected | Route_no_solution

fun route_status_str :: "route_status \<Rightarrow> string" where
  "route_status_str Route_selected = ''selected''"
| "route_status_str Route_no_solution = ''no_solution''"

definition ROUTE_REASON_CODES :: "string list" where
  "ROUTE_REASON_CODES = [''route_selected'', ''no_eligible_target'', ''pinned_request_failed'',
     ''pin_target_not_found'', ''pin_model_not_found'']"

record route_decision =
  ro_status :: route_status
  ro_selection :: selection_decision
  ro_registry_revision :: int
  ro_registry_generated_at :: string
  ro_target :: "route_target option"
  ro_alternatives :: "route_target list"
  ro_unroutable :: "model_identity list"
  ro_exclusions :: "target_exclusion list"
  ro_expired_promotions :: "string list"
  ro_pinned :: bool
  ro_reason_codes :: "string list"
  ro_decision_id :: "string option"
  ro_schema_version :: int

definition route_content :: "route_decision \<Rightarrow> pymap result" where
  \<comment> \<open>\<open>_content_dict\<close>\<close>
  "route_content d =
     bind_r (decision_to_dict (ro_selection d)) (\<lambda>selection.
       Inr
         [(''schema_version'', PInt (ro_schema_version d)),
          (''status'', PStr (route_status_str (ro_status d))),
          (''selection'', selection),
          (''registry_revision'', PInt (ro_registry_revision d)),
          (''registry_generated_at'', PStr (ro_registry_generated_at d)),
          (''target'', opt_py route_target_to_dict (ro_target d)),
          (''target_alternatives'', PList (map route_target_to_dict (ro_alternatives d))),
          (''unroutable_identities'', PList (map identity_to_dict (ro_unroutable d))),
          (''target_exclusions'', PList (map exclusion_to_dict (ro_exclusions d))),
          (''expired_promotions'', PList (map PStr (ro_expired_promotions d))),
          (''pinned'', PBool (ro_pinned d)),
          (''reason_codes'', PList (map PStr (ro_reason_codes d)))])"

definition check_route_outcome :: "route_decision \<Rightarrow> string list \<Rightarrow> unit result" where
  "check_route_outcome d codes =
     (let err = Inl (rt_exn ''route_decision'') in
      case ro_status d of
        Route_selected \<Rightarrow>
          (case ro_target d of
             None \<Rightarrow> err
           | Some t \<Rightarrow>
               if tg_shares_pool t then err
               else if set codes \<noteq> {''route_selected''} then err
               else Inr ())
      | Route_no_solution \<Rightarrow>
          (if ro_target d \<noteq> None \<or> ro_alternatives d \<noteq> [] then err
           else if ''no_eligible_target'' \<notin> set codes then err
           else if ro_pinned d \<and> ''pinned_request_failed'' \<notin> set codes then err
           else Inr ()))"

definition mk_route_decision :: "(string \<Rightarrow> string) \<Rightarrow> route_decision \<Rightarrow> route_decision result" where
  "mk_route_decision sha d =
     bind_r (v_int rt_exn (Some 1) None (PInt (ro_schema_version d)) ''route_decision.schema_version'') (\<lambda>sv.
     bind_r (guard_r (sv = 1 \<or> sv = 2) (rt_exn ''route_decision.schema_version'')) (\<lambda>_.
     bind_r (guard_r (sv = (if sd_catalog_version (ro_selection d) = None then 2 else 1))
               (rt_exn ''route_decision.schema_version'')) (\<lambda>_.
     bind_r (v_int rt_exn (Some 0) None (PInt (ro_registry_revision d)) ''route_decision.registry_revision'') (\<lambda>_.
     bind_r (v_text rt_exn 64 (PStr (ro_registry_generated_at d)) ''route_decision.registry_generated_at'') (\<lambda>_.
     bind_r (parse_canonical_ts (ro_registry_generated_at d) ''route_decision.registry_generated_at'') (\<lambda>_.
     bind_r (guard_r (distinct (map identity_key (ro_unroutable d)))
               (rt_exn ''route_decision.unroutable_identities'')) (\<lambda>_.
     bind_r (v_sorted_safe_ids None (map PStr (ro_expired_promotions d))
               ''route_decision.expired_promotions'') (\<lambda>_.
     bind_r (v_sorted_safe_ids (Some ROUTE_REASON_CODES) (map PStr (ro_reason_codes d))
               ''route_decision.reason_codes'') (\<lambda>codes.
     bind_r (check_route_outcome d codes) (\<lambda>_.
       let d = d\<lparr>ro_reason_codes := codes\<rparr> in
       case ro_decision_id d of
         None \<Rightarrow> bind_r (route_content d) (\<lambda>content.
                   Inr (d\<lparr>ro_decision_id := Some (derive_decision_id sha (PDict content))\<rparr>))
       | Some i \<Rightarrow> bind_r (v_safe_id rt_exn (PStr i) ''route_decision.decision_id'') (\<lambda>_. Inr d)))))))))))"

definition route_decision_to_dict :: "route_decision \<Rightarrow> pyval result" where
  "route_decision_to_dict d =
     (case ro_decision_id d of
        None \<Rightarrow> Inl (rt_exn ''route_decision'')
      | Some i \<Rightarrow>
          bind_r (route_content d) (\<lambda>content. Inr (PDict (content @ [(''decision_id'', PStr i)]))))"

section \<open>The admission decision\<close>

definition ADMISSION_REASON_CODES :: "string list" where
  "ADMISSION_REASON_CODES = [''admission_approved'', ''admission_rejected'', ''pin_target_not_found'',
     ''pinned_model_not_bound'', ''pinned_request_failed'', ''hard_constraint_failed'',
     ''capability_failed'', ''reasoning_effort_unverified'', ''capacity_failed'', ''policy_failed'']"

record admission_decision =
  am_resource_id :: string
  am_approved :: bool
  am_reason_codes :: "string list"
  am_target :: "route_target option"
  am_exclusion :: "target_exclusion option"
  am_bound_decision_id :: "string option"

definition mk_admission :: "admission_decision \<Rightarrow> admission_decision result" where
  "mk_admission a =
     (let err = Inl (rt_exn ''admission_decision'') in
     bind_r (v_safe_id rt_exn (PStr (am_resource_id a)) ''admission_decision.resource_id'') (\<lambda>_.
     bind_r (v_sorted_safe_ids
               (Some (ADMISSION_REASON_CODES @ map target_code_str TARGET_EXCLUSION_REASON_CODES))
               (map PStr (am_reason_codes a)) ''admission_decision.reason_codes'') (\<lambda>codes.
     if codes = [] then err
     else if am_approved a \<and> am_target a = None then err
     else if am_approved a \<and> am_exclusion a \<noteq> None then err
     else if am_approved a \<and> ''admission_approved'' \<notin> set codes then err
     else if \<not> am_approved a \<and> am_target a \<noteq> None then err
     else if \<not> am_approved a \<and> ''admission_rejected'' \<notin> set codes then err
     else
     bind_r (v_opt (v_safe_id rt_exn) (opt_py PStr (am_bound_decision_id a))
               ''admission_decision.bound_decision_id'') (\<lambda>_.
       Inr (a\<lparr>am_reason_codes := codes\<rparr>)))))"

definition admission_to_dict :: "admission_decision \<Rightarrow> pyval" where
  "admission_to_dict a =
     obj [(''resource_id'', Some (PStr (am_resource_id a))),
          (''approved'', Some (PBool (am_approved a))),
          (''reason_codes'', Some (PList (map PStr (am_reason_codes a)))),
          (''target'', map_option route_target_to_dict (am_target a)),
          (''exclusion'', map_option exclusion_to_dict (am_exclusion a)),
          (''bound_decision_id'', map_option PStr (am_bound_decision_id a))]"

end
