(* ===== verification/Routing.thy ===== *)
theory Routing
  imports Route_Outputs
begin

text \<open>
  routing_core.py, the request bundle and the pipeline: construction of \<open>RouteRequest\<close>, the merged
  requirement, the narrowed catalog view, \<open>route_request\<close> over a versioned catalog and over a
  runtime inventory, and \<open>admit_pinned_target\<close>. Catalog identities stand for their key triples,
  which determine them. Requests carry no MI admission; the two fields that an admission leaves
  behind (\<open>mi_blocked\<close>, \<open>mi_channels\<close>) are modelled.
\<close>

section \<open>The request bundle\<close>

record route_env =
  nv_zones :: zones
  nv_utc :: iso_parser
  nv_sha :: "string \<Rightarrow> string"

record route_request =
  rq_catalog :: model_catalog
  rq_profiles :: task_profile_catalog
  rq_registry :: registry_snapshot
  rq_policy :: selector_policy
  rq_evaluated_at :: py_datetime
  rq_snapshots :: "capacity_snapshot list"
  rq_states :: "replenishment_state list"
  rq_reports :: "execution_eligibility list"
  rq_cells :: "compatibility_cell list"
  rq_admin :: administrator_constraints
  rq_client :: client_authorization
  rq_profile :: "client_routing_profile option"
  rq_request :: request_binding
  rq_profile_version :: "int option"
  rq_require_effort :: bool
  rq_adapter_ids :: "string set option"
  rq_continuation_ids :: "string set option"
  rq_candidates :: "model_identity list option"
  rq_task_requirement :: "task_requirement option"
  rq_assurances :: "execution_assurance list"
  rq_mi_blocked :: "model_identity set"
  rq_mi_channels :: "(model_identity \<times> string option) list"

definition no_minima :: capability_minima where
  \<comment> \<open>\<open>CapabilityMinima()\<close>\<close>
  "no_minima = \<lparr>cm_reasoning = None, cm_coding = None, cm_scientific_methodological = None,
     cm_writing_editorial = None, cm_tool_use = None, cm_translation_multilingual = None\<rparr>"

definition no_hard :: hard_constraints where
  \<comment> \<open>\<open>HardConstraints()\<close>\<close>
  "no_hard = \<lparr>hc_minimum_input_context_tokens = None, hc_minimum_output_tokens = None,
     hc_requires_tool_use = False, hc_requires_vision = False, hc_requires_reasoning_mode = False,
     hc_required_provider = None, hc_required_model = None, hc_required_variant = None,
     hc_privacy_constraint = None\<rparr>"

definition structural_requirement :: "task_level \<Rightarrow> request_binding \<Rightarrow> task_requirement result" where
  "structural_requirement level r =
     bind_r (mk_hard_constraints (no_hard\<lparr>hc_requires_tool_use := rb_requires_tool_calls r,
         hc_requires_reasoning_mode := rb_requires_reasoning_controls r,
         hc_minimum_input_context_tokens := rb_minimum_input_context_tokens r,
         hc_minimum_output_tokens := rb_maximum_output_tokens r\<rparr>)) (\<lambda>hard.
       mk_requirement \<lparr>tr_task_level = level, tr_capability_minima = no_minima,
         tr_hard_constraints = hard\<rparr>)"

definition base_requirement :: "route_request \<Rightarrow> task_requirement result" where
  "base_requirement q =
     bind_r (case rq_profile q of
               Some p \<Rightarrow> resolve (rq_profiles q) (cp_profile_id p)
             | None \<Rightarrow> Inr \<lparr>tr_task_level = L0, tr_capability_minima = no_minima,
                         tr_hard_constraints = no_hard\<rparr>) (\<lambda>base.
       case rq_task_requirement q of
         None \<Rightarrow> Inr base
       | Some t \<Rightarrow> if rq_profile q \<noteq> None then tighten_requirement base t else Inr t)"

definition resolve_requirement :: "route_request \<Rightarrow> (task_requirement \<times> string option) result" where
  "resolve_requirement q =
     bind_r (base_requirement q) (\<lambda>base.
     bind_r (structural_requirement (tr_task_level base) (rq_request q)) (\<lambda>structural.
     bind_r (tighten_requirement base structural) (\<lambda>req.
       Inr (req, map_option cp_profile_id (rq_profile q)))))"

definition or_zero :: "int option \<Rightarrow> int" where
  \<comment> \<open>\<open>x or 0\<close>\<close>
  "or_zero x = (case x of None \<Rightarrow> 0 | Some n \<Rightarrow> n)"

definition min_context :: "task_requirement \<Rightarrow> int" where
  "min_context t = or_zero (hc_minimum_input_context_tokens (tr_hard_constraints t))"

definition raise_context :: "int \<Rightarrow> request_binding \<Rightarrow> request_binding result" where
  \<comment> \<open>\<open>if context:\<close> store it and construct the binding again\<close>
  "raise_context n r =
     (if n \<noteq> 0 then mk_request_binding (r\<lparr>rb_minimum_input_context_tokens := Some n\<rparr>) else Inr r)"

definition apply_task_requirement :: "route_request \<Rightarrow> task_requirement \<Rightarrow> route_request result" where
  \<comment> \<open>the last block of \<open>__post_init__\<close>; the wire round trip of the binding is its construction\<close>
  "apply_task_requirement q t =
     (let r = rq_request q; floor = max (or_zero (rb_minimum_input_context_tokens r)) (min_context t) in
     bind_r (case rq_profile q of
               None \<Rightarrow> Inr floor
             | Some p \<Rightarrow> bind_r (resolve (rq_profiles q) (cp_profile_id p)) (\<lambda>b.
                          Inr (max floor (min_context b)))) (\<lambda>floor.
     bind_r (raise_context floor r) (\<lambda>r1.
     bind_r (resolve_requirement (q\<lparr>rq_request := r1\<rparr>)) (\<lambda>(resolved, _).
     let hard = tr_hard_constraints resolved in
     if hc_requires_vision hard then Inl (rt_exn ''task_requirement.requires_vision'')
     else if (case (hc_minimum_output_tokens hard, rb_maximum_output_tokens r1) of
                (Some m, Some x) \<Rightarrow> x < m | _ \<Rightarrow> False)
       then Inl (rt_exn ''task_requirement.minimum_output_tokens'')
     else
       let context = max (or_zero (rb_minimum_input_context_tokens r1))
             (or_zero (hc_minimum_input_context_tokens hard));
           flagged = r1\<lparr>rb_requires_tool_calls := rb_requires_tool_calls r1 \<or> hc_requires_tool_use hard,
             rb_requires_reasoning_controls := rb_requires_reasoning_controls r1
               \<or> hc_requires_reasoning_mode hard\<rparr> in
       bind_r (mk_request_binding (if context \<noteq> 0
                 then flagged\<lparr>rb_minimum_input_context_tokens := Some context\<rparr> else flagged)) (\<lambda>r2.
         Inr (q\<lparr>rq_request := r2\<rparr>))))))"

type_synonym cell_key = "string \<times> string \<times> string \<times> string \<times> string"

definition cell_sort_key :: "compatibility_cell \<Rightarrow> cell_key" where
  "cell_sort_key c =
     (channel_str (cc_channel c), cc_provider c, cc_model c, or_empty (cc_variant c), feature_str (cc_feature c))"

definition cell_key ::
  "compatibility_cell \<Rightarrow> execution_channel \<times> string \<times> string \<times> string option \<times> compat_feature" where
  "cell_key c = (cc_channel c, cc_provider c, cc_model c, cc_variant c, cc_feature c)"

definition mk_route_request :: "route_request \<Rightarrow> route_request result" where
  "mk_route_request q =
     bind_r (each (\<lambda>(_, channel). bind_r (v_opt (v_safe_id rt_exn) (opt_py PStr channel)
                ''route_request.mi_channels.channel'') (\<lambda>_. Inr ())) (rq_mi_channels q)) (\<lambda>_.
     bind_r (guard_r (case rq_candidates q of
                        None \<Rightarrow> True
                      | Some cs \<Rightarrow> distinct cs \<and> set cs \<subseteq> set (map ce_identity (mc_entries (rq_catalog q))))
               (rt_exn ''route_request.candidate_identities'')) (\<lambda>_.
     bind_r (v_aware_datetime rt_exn (rq_evaluated_at q) ''route_request.evaluated_at'') (\<lambda>at.
     bind_r (guard_r (\<not> (mc_catalog_version (rq_catalog q) = None \<and> rq_states q \<noteq> []))
               (rt_exn ''replenishment_states'')) (\<lambda>_.
     bind_r (seen_check (rt_exn ''route_request.eligibility_reports'') {} (map ee_provider (rq_reports q))) (\<lambda>_.
     bind_r (seen_check (rt_exn ''route_request.compatibility_cells'') {} (map cell_key (rq_cells q))) (\<lambda>_.
     bind_r (guard_r (\<not> (rb_profile_alias (rq_request q) \<noteq> None \<and> rq_profile q = None))
               (rt_exn ''route_request'')) (\<lambda>_.
     bind_r (v_opt (v_int rt_exn (Some 1) None) (opt_py PInt (rq_profile_version q))
               ''route_request.profile_policy_version'') (\<lambda>_.
     bind_r (parse_canonical_ts (gs_generated_at (rq_registry q))
               ''route_request.registry_snapshot.generated_at'') (\<lambda>generated.
     if at < generated then Inl (rt_exn ''route_request'')
     else
       let q = q\<lparr>rq_reports := sort_key ee_provider (rq_reports q),
                rq_cells := sort_key cell_sort_key (rq_cells q)\<rparr> in
       case rq_task_requirement q of
         None \<Rightarrow> Inr q
       | Some t \<Rightarrow> apply_task_requirement q t)))))))))"

definition at_of :: "route_request \<Rightarrow> int" where
  \<comment> \<open>construction admits aware instants only\<close>
  "at_of q = (case rq_evaluated_at q of Aware t \<Rightarrow> t | Naive t \<Rightarrow> t)"

section \<open>Gates of a request\<close>

definition effective_of :: "route_request \<Rightarrow> effective_authorization" where
  "effective_of q = compute_authorization (rq_admin q) (rq_client q) (rq_profile q)"

definition reports_of :: "route_request \<Rightarrow> execution_eligibility list" where
  "reports_of q = (if mc_catalog_version (rq_catalog q) = None then [] else rq_reports q)"

definition mi_blocked_for :: "route_request \<Rightarrow> resource_registry_entry \<Rightarrow> model_identity set" where
  "mi_blocked_for q entry =
     rq_mi_blocked q \<union> set (map fst (filter (\<lambda>(_, c). c \<noteq> Some (channel_str (ri_channel (rn_identity entry))))
       (rq_mi_channels q)))"

definition candidate_requires_reasoning ::
  "route_request \<Rightarrow> resource_registry_entry \<Rightarrow> model_catalog_entry \<Rightarrow> bool" where
  "candidate_requires_reasoning q entry e =
     (let r = rn_identity entry; i = ce_identity e in
      (case rq_candidates q of None \<Rightarrow> False | Some cs \<Rightarrow> i \<in> set cs)
      \<and> mi_provider i = ri_provider r \<and> mi_model i = ri_model r
      \<and> (ri_variant r = None \<or> ri_variant r = Some (mi_variant i))
      \<and> (ri_variant r \<noteq> None
         \<or> (ri_channel r = Ch_worker_bridged
            \<and> (case lookup_cell (rq_cells q) r Fe_reasoning_controls of
                 None \<Rightarrow> False | Some c \<Rightarrow> cc_value c \<in> {Cell_PASS, Cell_PARTIAL})))
      \<and> effort_evidenced (rq_catalog q) e (ri_resource_id r))"

definition gate_inputs_of ::
  "route_request \<Rightarrow> task_requirement \<Rightarrow> request_binding \<Rightarrow> resource_registry_entry \<Rightarrow> gate_inputs" where
  \<comment> \<open>what both entry points pass\<close>
  "gate_inputs_of q req binding entry =
     \<lparr>gi_catalog = rq_catalog q, gi_effective = effective_of q, gi_request = binding,
       gi_cells = rq_cells q, gi_requirement = req, gi_reports = reports_of q,
       gi_evaluated_at = at_of q, gi_continuation_ids = rq_continuation_ids q,
       gi_reasoning_required = False, gi_assurances = rq_assurances q, gi_require_effort = False,
       gi_adapter_ids = rq_adapter_ids q, gi_mi_blocked = mi_blocked_for q entry,
       gi_mi_effort = set (map fst (rq_mi_channels q))\<rparr>"

definition route_gate :: "route_env \<Rightarrow> route_request \<Rightarrow> task_requirement \<Rightarrow> resource_registry_entry \<Rightarrow>
   resource_gate result" where
  "route_gate nv q req entry =
     evaluate_resource (nv_utc nv)
       ((gate_inputs_of q req (rq_request q) entry)
         \<lparr>gi_reasoning_required := rq_candidates q \<noteq> None
            \<and> list_ex (candidate_requires_reasoning q entry) (mc_entries (rq_catalog q)),
          gi_require_effort := rq_require_effort q\<rparr>) entry"

definition gate_id :: "resource_gate \<Rightarrow> string" where
  "gate_id g = ri_resource_id (rn_identity (ga_entry g))"

definition route_gates :: "route_env \<Rightarrow> route_request \<Rightarrow> task_requirement \<Rightarrow> resource_gate list result" where
  "route_gates nv q req =
     bind_r (traverse (route_gate nv q req) (gs_entries (rq_registry q))) (\<lambda>gates.
       Inr (sort_key gate_id gates))"

definition qualified_for :: "resource_gate list \<Rightarrow> model_identity \<Rightarrow> resource_gate list" where
  \<comment> \<open>\<open>qualified_by_identity[key]\<close>\<close>
  "qualified_for gates i = filter (\<lambda>g. ga_qualified g \<and> i \<in> set (ga_bound_identities g)) gates"

definition order_key :: "resource_gate \<Rightarrow> int \<times> string" where
  "order_key g = ((if ga_promotion_sources g \<noteq> [] then 0 else 1), gate_id g)"

definition mk_target_of :: "resource_gate \<Rightarrow> model_identity \<Rightarrow> string option \<Rightarrow> bool \<Rightarrow> reasoning_effort option \<Rightarrow>
   route_target result" where
  \<comment> \<open>\<open>_route_target\<close>\<close>
  "mk_target_of g i profile shares effort =
     (let r = rn_identity (ga_entry g); c = rn_capabilities (ga_entry g) in
      mk_route_target \<lparr>tg_resource = r, tg_model = i, tg_quota_pools = ri_quota_pool_ids r,
        tg_routing_profile = profile, tg_promotion_sources = ga_promotion_sources g,
        tg_shares_pool = shares, tg_evidence_ref = ec_evidence_ref c,
        tg_evidence_valid_until = ec_evidence_valid_until c,
        tg_evidence_verified_at = ec_evidence_verified_at c,
        tg_evidence_runtime_version = ec_evidence_runtime_version c,
        tg_context_limit_tokens = (if ec_evidence_ref c \<noteq> None then ec_context_limit_tokens c else None),
        tg_reasoning_effort = map_option effort_str effort\<rparr>)"

definition exclusion_of :: "resource_gate \<Rightarrow> target_exclusion result" where
  \<comment> \<open>\<open>_target_exclusion\<close> of a gate that did not qualify\<close>
  "exclusion_of g =
     (let e = ga_entry g; r = rn_identity e in
      case ga_stage g of
        None \<Rightarrow> Inl (rt_exn ''target_exclusion.stage'')
      | Some stage \<Rightarrow>
          mk_exclusion \<lparr>tx_resource_id = ri_resource_id r, tx_stage = stage,
            tx_reason_codes = map target_code_str (ga_reason_codes g), tx_channel = Some (ri_channel r),
            tx_provider = Some (ri_provider r), tx_model = Some (ri_model r), tx_variant = None,
            tx_health_status = ga_health_status g, tx_freshness = Some (rn_freshness e),
            tx_compatibility_feature = ga_compatibility_feature g,
            tx_compatibility_value = ga_compatibility_value g, tx_eligibility = ga_eligibility g\<rparr>)"

section \<open>The narrowed catalog view\<close>

definition known_minimum :: "int option list \<Rightarrow> int option" where
  \<comment> \<open>\<open>min(xs) if xs and all(v is not None for v in xs) else None\<close>\<close>
  "known_minimum xs = (if xs \<noteq> [] \<and> None \<notin> set xs then Some (py_min (map the xs)) else None)"

definition bounded_by :: "int option \<Rightarrow> int option \<Rightarrow> int option" where
  "bounded_by hard bound =
     (case bound of
        None \<Rightarrow> hard
      | Some b \<Rightarrow> (case hard of None \<Rightarrow> Some b | Some h \<Rightarrow> Some (min h b)))"

definition tool_support :: "bool option \<Rightarrow> bool option list \<Rightarrow> bool \<Rightarrow> bool option" where
  "tool_support hard tools requested =
     (if hard = Some False \<or> Some False \<in> set tools then Some False
      else if requested \<and> tools \<noteq> [] then Some True
      else if tools \<noteq> [] \<and> list_all (\<lambda>v. v = Some True) tools then Some True
      else hard)"

definition matching_gates :: "route_request \<Rightarrow> resource_gate list \<Rightarrow> model_identity \<Rightarrow> resource_gate list" where
  "matching_gates q gates i =
     filter (\<lambda>g. case rb_pinned_target (rq_request q) of
                   None \<Rightarrow> True | Some p \<Rightarrow> gate_id g = pt_resource_id p) (qualified_for gates i)"

definition vouched_for :: "model_catalog_entry \<Rightarrow> resource_gate \<Rightarrow> bool" where
  \<comment> \<open>the resource is among the entry's capacity binding resources\<close>
  "vouched_for e g = (case ce_capacity_binding_resources e of None \<Rightarrow> False | Some rs \<Rightarrow> gate_id g \<in> set rs)"

definition restrict_effort :: "resource_gate list \<Rightarrow> model_catalog_entry \<Rightarrow> model_catalog_entry result" where
  "restrict_effort gs e =
     (case gs of
        [g] \<Rightarrow>
          (if ce_reasoning_effort e \<noteq> None \<and> \<not> vouched_for e g then
             bind_r (mk_hard_properties ((ce_hard_properties e)\<lparr>hp_supports_reasoning_mode := None\<rparr>)) (\<lambda>hard.
               mk_entry (e\<lparr>ce_reasoning_effort := None, ce_hard_properties := hard\<rparr>))
           else Inr e)
      | _ \<Rightarrow> Inr e)"

definition restrict_bindings :: "resource_gate list \<Rightarrow> model_catalog_entry \<Rightarrow> model_catalog_entry result" where
  "restrict_bindings gs e =
     (case gs of
        [g] \<Rightarrow> mk_entry (e\<lparr>ce_capacity_bindings :=
                  map_of (rev (ce_resource_capacity_bindings e)) (gate_id g)\<rparr>)
      | _ \<Rightarrow>
          (if ce_capacity_bindings e \<noteq> None
              \<and> (ce_capacity_binding_resources e = None \<or> list_ex (\<lambda>g. \<not> vouched_for e g) gs)
           then mk_entry (e\<lparr>ce_capacity_bindings := None\<rparr>) else Inr e))"

definition runtime_entry ::
  "route_request \<Rightarrow> resource_gate list \<Rightarrow> model_catalog_entry \<Rightarrow> model_catalog_entry result" where
  \<comment> \<open>one entry of a runtime inventory, restricted to what its qualified resources offer\<close>
  "runtime_entry q gates e =
     (let gs = matching_gates q gates (ce_identity e); hard = ce_hard_properties e;
          caps = map (\<lambda>g. rn_capabilities (ga_entry g)) gs in
      bind_r (mk_hard_properties (hard
          \<lparr>hp_supports_tool_use := tool_support (hp_supports_tool_use hard) (map ec_tool_calls caps)
             (rb_requires_tool_calls (rq_request q)),
           hp_input_context_tokens := bounded_by (hp_input_context_tokens hard)
             (known_minimum (map ec_context_limit_tokens caps)),
           hp_output_tokens := bounded_by (hp_output_tokens hard)
             (known_minimum (map ec_output_limit_tokens caps))\<rparr>)) (\<lambda>hard.
      bind_r (mk_entry (e\<lparr>ce_hard_properties := hard\<rparr>)) (\<lambda>e.
      bind_r (restrict_effort gs e) (\<lambda>e.
        restrict_bindings gs e))))"

definition narrowed_catalog ::
  "route_request \<Rightarrow> model_identity list \<Rightarrow> resource_gate list \<Rightarrow> model_catalog result" where
  "narrowed_catalog q routable gates =
     (let keys = (case rq_candidates q of None \<Rightarrow> routable | Some cs \<Rightarrow> filter (\<lambda>i. i \<in> set cs) routable);
          kept = filter (\<lambda>e. ce_identity e \<in> set keys) (mc_entries (rq_catalog q)) in
      bind_r (if mc_catalog_version (rq_catalog q) = None then traverse (runtime_entry q gates) kept
              else Inr kept) (\<lambda>entries.
        mk_catalog \<lparr>mc_catalog_version = mc_catalog_version (rq_catalog q),
          mc_updated_on = mc_updated_on (rq_catalog q), mc_entries = sort_key entry_key entries\<rparr>))"

definition run_selection ::
  "route_env \<Rightarrow> route_request \<Rightarrow> model_catalog \<Rightarrow> task_requirement \<Rightarrow> string option \<Rightarrow>
   capacity_snapshot list option \<Rightarrow> selection_decision result" where
  "run_selection nv q catalog req profile_id resource_snapshots =
     select_model (nv_zones nv) catalog req (rq_policy q)
       (case resource_snapshots of None \<Rightarrow> rq_snapshots q | Some ss \<Rightarrow> ss) (rq_evaluated_at q)
       (rq_states q) (case resource_snapshots of None \<Rightarrow> rq_reports q | Some _ \<Rightarrow> []) profile_id
       (if rq_profile q \<noteq> None then rq_profile_version q else None) (Some (rq_mi_blocked q))"

definition resource_snapshots :: "resource_gate \<Rightarrow> model_catalog_entry \<Rightarrow> capacity_snapshot list result" where
  "resource_snapshots g e =
     (case (rn_observation (ga_entry g), ce_capacity_bindings e) of
        (Some ob, Some bindings) \<Rightarrow>
          (let scopes = map cs_scope_id bindings;
               windows = map qf_window (filter (\<lambda>f. qf_observation_class f = Ob_provider_telemetry
                   \<and> (case w_scope_id (qf_window f) of None \<Rightarrow> False | Some s \<Rightarrow> s \<in> set scopes))
                 (rs_quota_facts ob)) in
           bind_r (mk_snapshot \<lparr>sn_schema_version = 3, sn_provider = ri_provider (rn_identity (ga_entry g)),
               sn_source = ''resource-observation'', sn_retrieved_at = rs_observed_at ob,
               sn_status = rh_status (rs_health ob), sn_windows = windows,
               sn_diagnostics = rh_diagnostics (rs_health ob), sn_plan = None\<rparr>) (\<lambda>s. Inr [s]))
      | _ \<Rightarrow> Inr [])"

section \<open>Folds that may raise\<close>

fun fold_r :: "('s \<Rightarrow> 'a \<Rightarrow> 's result) \<Rightarrow> 's \<Rightarrow> 'a list \<Rightarrow> 's result" where
  "fold_r f s [] = Inr s"
| "fold_r f s (x # xs) = bind_r (f s x) (\<lambda>s'. fold_r f s' xs)"

section \<open>Competition inside one identity of a runtime inventory\<close>

record route_candidate =
  rk_key :: "ranking_key \<times> int \<times> string"
  rk_gate :: resource_gate
  rk_entry :: model_catalog_entry
  rk_evaluation :: candidate_evaluation

record key_scan =
  ks_candidates :: "route_candidate list"
  ks_fallback :: "model_catalog_entry option"
  ks_fallback_evaluation :: "candidate_evaluation option"
  ks_exclusions :: "target_exclusion list"

definition resource_exclusion ::
  "resource_gate \<Rightarrow> model_catalog_entry \<Rightarrow> route_stage \<Rightarrow> string list \<Rightarrow> target_exclusion result" where
  \<comment> \<open>a \<open>TargetExclusion\<close> of the loop over resources\<close>
  "resource_exclusion g e stage codes =
     mk_exclusion \<lparr>tx_resource_id = gate_id g, tx_stage = stage, tx_reason_codes = codes,
       tx_channel = Some (ri_channel (rn_identity (ga_entry g))),
       tx_provider = Some (mi_provider (ce_identity e)), tx_model = Some (mi_model (ce_identity e)),
       tx_variant = Some (mi_variant (ce_identity e)), tx_health_status = None, tx_freshness = None,
       tx_compatibility_feature = None, tx_compatibility_value = None, tx_eligibility = None\<rparr>"

fun rejected_stage :: "exclusion_stage option \<Rightarrow> route_stage option" where
  "rejected_stage (Some Xs_capacity) = Some Stg_capacity"
| "rejected_stage (Some Xs_policy_blackout) = Some Stg_policy"
| "rejected_stage (Some Xs_reservation) = Some Stg_policy"
| "rejected_stage _ = None"

definition rejected_codes :: "candidate_evaluation \<Rightarrow> route_stage \<Rightarrow> string list" where
  \<comment> \<open>\<open>sorted(set(rejected.reason_codes) & _STAGE_REASONS[stage])\<close>\<close>
  "rejected_codes c stage =
     sort (remdups (filter (\<lambda>s. s \<in> stage_reason_strs stage) (map selection_reason_str (cv_reason_codes c))))"

definition note_rejection ::
  "resource_gate \<Rightarrow> model_catalog_entry \<Rightarrow> candidate_evaluation \<Rightarrow> key_scan \<Rightarrow> key_scan result" where
  "note_rejection g e c s =
     (let s = (if ks_fallback_evaluation s = None then s\<lparr>ks_fallback_evaluation := Some c\<rparr> else s) in
      case rejected_stage (cv_exclusion_stage c) of
        None \<Rightarrow> Inr s
      | Some stage \<Rightarrow>
          (let codes = rejected_codes c stage in
           if codes = [] then Inr s
           else bind_r (resource_exclusion g e stage codes) (\<lambda>x.
                  Inr (s\<lparr>ks_exclusions := ks_exclusions s @ [x]\<rparr>))))"

definition scan_gate ::
  "route_env \<Rightarrow> route_request \<Rightarrow> route_request \<Rightarrow> task_requirement \<Rightarrow> string option \<Rightarrow> resource_gate option \<Rightarrow>
   model_identity \<Rightarrow> key_scan \<Rightarrow> resource_gate \<Rightarrow> key_scan result" where
  \<comment> \<open>the body of the loop over \<open>qualified_by_identity[key]\<close>; \<open>one\<close> is \<open>one_model\<close>\<close>
  "scan_gate nv q one req profile_id pinned i s g =
     (if (case pinned of None \<Rightarrow> False | Some p \<Rightarrow> gate_id g \<noteq> gate_id p) then Inr s
      else
      bind_r (narrowed_catalog one [i] [g]) (\<lambda>local.
      case mc_entries local of
        [] \<Rightarrow> Inr s
      | e # _ \<Rightarrow>
          (let pin_effort = (case rb_pinned_target (rq_request q) of
                               None \<Rightarrow> None | Some p \<Rightarrow> pt_reasoning_effort p) in
           if pin_effort \<noteq> None \<and> map_option effort_str (ce_reasoning_effort e) \<noteq> pin_effort then
             bind_r (resource_exclusion g e Stg_binding [''reasoning_effort_unverified'']) (\<lambda>x.
               Inr (s\<lparr>ks_exclusions := ks_exclusions s @ [x]\<rparr>))
           else
             (let s = (if ks_fallback s = None then s\<lparr>ks_fallback := Some e\<rparr> else s) in
              bind_r (resource_snapshots g e) (\<lambda>snapshots.
              bind_r (run_selection nv q local req profile_id (Some snapshots)) (\<lambda>evaluated.
              case sd_selected evaluated of
                Some c \<Rightarrow>
                  Inr (s\<lparr>ks_candidates := ks_candidates s @
                    [\<lparr>rk_key = (candidate_ranking_key c (sp_preference_order (rq_policy q))
                          (ce_reasoning_effort e), order_key g),
                       rk_gate = g, rk_entry = e, rk_evaluation = c\<rparr>]\<rparr>)
              | None \<Rightarrow>
                  (case sd_excluded evaluated of
                     [] \<Rightarrow> Inr s
                   | c # _ \<Rightarrow> note_rejection g e c s)))))))"

record runtime_scan =
  us_entries :: "model_catalog_entry list"
  us_evaluations :: "candidate_evaluation list"
  us_gates :: "(model_identity \<times> resource_gate list) list"
  us_exclusions :: "target_exclusion list"

definition scan_key ::
  "route_env \<Rightarrow> route_request \<Rightarrow> task_requirement \<Rightarrow> string option \<Rightarrow> resource_gate option \<Rightarrow>
   resource_gate list \<Rightarrow> runtime_scan \<Rightarrow> model_identity \<Rightarrow> runtime_scan result" where
  \<comment> \<open>the body of the loop over \<open>sorted(routable_keys)\<close>\<close>
  "scan_key nv q req profile_id pinned gates u i =
     (case find (\<lambda>e. ce_identity e = i) (mc_entries (rq_catalog q)) of
        None \<Rightarrow> Inl (KeyError ''entries_by_key'')
      | Some entry \<Rightarrow>
          bind_r (mk_catalog \<lparr>mc_catalog_version = None, mc_updated_on = None, mc_entries = [entry]\<rparr>) (\<lambda>single.
          bind_r (mk_route_request (q\<lparr>rq_catalog := single\<rparr>)) (\<lambda>one.
          bind_r (fold_r (scan_gate nv q one req profile_id pinned i)
                    \<lparr>ks_candidates = [], ks_fallback = None, ks_fallback_evaluation = None,
                      ks_exclusions = []\<rparr> (qualified_for gates i)) (\<lambda>s.
          let u = u\<lparr>us_exclusions := us_exclusions u @ ks_exclusions s\<rparr> in
          case sort_key rk_key (ks_candidates s) of
            winner # rest \<Rightarrow>
              Inr (u\<lparr>us_entries := us_entries u @ [rk_entry winner],
                     us_gates := us_gates u @ [(i, map rk_gate (winner # rest))],
                     us_evaluations := us_evaluations u @ [rk_evaluation winner]\<rparr>)
          | [] \<Rightarrow>
              (case ks_fallback s of
                 None \<Rightarrow> Inr u
               | Some f \<Rightarrow>
                   (case ks_fallback_evaluation s of
                      None \<Rightarrow> Inl (rt_exn ''resource evaluation'')
                    | Some c \<Rightarrow>
                        Inr (u\<lparr>us_entries := us_entries u @ [f],
                               us_evaluations := us_evaluations u @ [c]\<rparr>)))))))"

section \<open>Pins\<close>

record pin_outcome =
  px_codes :: "string list"
  px_routable :: "model_identity list"
  px_gate :: "resource_gate option"

definition apply_target_pin :: "resource_gate list \<Rightarrow> pinned_target option \<Rightarrow> model_identity list \<Rightarrow> pin_outcome" where
  "apply_target_pin gates pin routable =
     (case pin of
        None \<Rightarrow> \<lparr>px_codes = [], px_routable = routable, px_gate = None\<rparr>
      | Some p \<Rightarrow>
          (case find (\<lambda>g. gate_id g = pt_resource_id p) gates of
             None \<Rightarrow> \<lparr>px_codes = [''pinned_request_failed'', ''pin_target_not_found''], px_routable = [],
                       px_gate = None\<rparr>
           | Some g \<Rightarrow>
               (if \<not> ga_qualified g
                then \<lparr>px_codes = [''pinned_request_failed''], px_routable = [], px_gate = Some g\<rparr>
                else \<lparr>px_codes = [], px_routable = filter (\<lambda>i. i = pt_model p) (ga_bound_identities g),
                       px_gate = Some g\<rparr>)))"

definition pin_selects :: "model_ref option \<Rightarrow> string option \<Rightarrow> model_identity \<Rightarrow> bool" where
  "pin_selects model variant i =
     ((case model of None \<Rightarrow> True | Some m \<Rightarrow> mi_provider i = mr_provider m \<and> mi_model i = mr_model m)
      \<and> (case variant of None \<Rightarrow> True | Some v \<Rightarrow> mi_variant i = v))"

definition apply_model_pin ::
  "model_catalog \<Rightarrow> model_ref option \<Rightarrow> string option \<Rightarrow> pin_outcome \<Rightarrow> pin_outcome" where
  "apply_model_pin catalog model variant x =
     (if model = None \<and> variant = None then x
      else
        (let kept = filter (pin_selects model variant) (px_routable x) in
         if kept = [] then
           x\<lparr>px_routable := [],
             px_codes := px_codes x @ [''pinned_request_failed'']
               @ (if model \<noteq> None \<and> \<not> list_ex (\<lambda>e. pin_selects model None (ce_identity e)) (mc_entries catalog)
                  then [''pin_model_not_found''] else [])\<rparr>
         else x\<lparr>px_routable := kept\<rparr>))"

definition pins_of :: "route_request \<Rightarrow> resource_gate list \<Rightarrow> pin_outcome" where
  "pins_of q gates =
     (let b = rq_request q;
          routable = remdups (concat (map ga_bound_identities (filter ga_qualified gates))) in
      apply_model_pin (rq_catalog q) (rb_explicit_model b) (rb_explicit_variant b)
        (apply_target_pin gates (rb_pinned_target b) routable))"

definition has_pin :: "route_request \<Rightarrow> bool" where
  "has_pin q = (let b = rq_request q in
     rb_pinned_target b \<noteq> None \<or> rb_explicit_model b \<noteq> None \<or> rb_explicit_variant b \<noteq> None)"

section \<open>The route decision\<close>

definition exclusion_sort_key :: "target_exclusion \<Rightarrow> string \<times> string \<times> string \<times> string" where
  "exclusion_sort_key x =
     (tx_resource_id x, or_empty (tx_model x), or_empty (tx_variant x), route_stage_str (tx_stage x))"

definition expired_promotion_sources :: "resource_gate list \<Rightarrow> int \<Rightarrow> string list result" where
  "expired_promotion_sources gates at =
     bind_r (traverse (\<lambda>g. promotion_preference (ga_entry g) at) gates) (\<lambda>ps.
       Inr (sort (remdups (concat (map snd ps)))))"

definition target_effort :: "route_request \<Rightarrow> model_identity \<Rightarrow> resource_gate \<Rightarrow> reasoning_effort option result" where
  "target_effort q i g =
     (if mc_catalog_version (rq_catalog q) \<noteq> None then Inr None
      else bind_r (narrowed_catalog q [i] [g]) (\<lambda>scoped.
             Inr (case mc_entries scoped of [] \<Rightarrow> None | e # _ \<Rightarrow> ce_reasoning_effort e)))"

definition route_targets ::
  "route_request \<Rightarrow> model_identity \<Rightarrow> string option \<Rightarrow> resource_gate option \<Rightarrow> resource_gate list \<Rightarrow>
   (route_target \<times> route_target list) result" where
  \<comment> \<open>the target and its alternatives\<close>
  "route_targets q i profile_id pinned selected_gates =
     (case pinned of
        Some p \<Rightarrow>
          (case find (\<lambda>g. gate_id g = gate_id p) selected_gates of
             None \<Rightarrow> Inl (rt_exn ''route_request'')
           | Some g \<Rightarrow> bind_r (target_effort q i g) (\<lambda>effort.
                       bind_r (mk_target_of g i profile_id False effort) (\<lambda>t. Inr (t, []))))
      | None \<Rightarrow>
          (case selected_gates of
             [] \<Rightarrow> Inl (KeyError ''selected_gates'')
           | g # rest \<Rightarrow>
               (let pools = set (ri_quota_pool_ids (rn_identity (ga_entry g))) in
                bind_r (traverse (\<lambda>h. bind_r (target_effort q i h) (\<lambda>effort.
                    mk_target_of h i profile_id
                      (set (ri_quota_pool_ids (rn_identity (ga_entry h))) \<inter> pools \<noteq> {}) effort)) rest) (\<lambda>alternatives.
                bind_r (target_effort q i g) (\<lambda>effort.
                bind_r (mk_target_of g i profile_id False effort) (\<lambda>t. Inr (t, alternatives)))))))"

definition schema_of :: "route_request \<Rightarrow> int" where
  "schema_of q = (if mc_catalog_version (rq_catalog q) = None then 2 else 1)"

definition no_solution_decision ::
  "route_env \<Rightarrow> route_request \<Rightarrow> selection_decision \<Rightarrow> target_exclusion list \<Rightarrow> model_identity list \<Rightarrow>
   string list \<Rightarrow> string list \<Rightarrow> bool \<Rightarrow> route_decision result" where
  "no_solution_decision nv q selection exclusions unroutable expired codes pinned =
     mk_route_decision (nv_sha nv)
       \<lparr>ro_status = Route_no_solution, ro_selection = selection,
         ro_registry_revision = gs_revision (rq_registry q),
         ro_registry_generated_at = gs_generated_at (rq_registry q), ro_target = None,
         ro_alternatives = [], ro_unroutable = unroutable, ro_exclusions = exclusions,
         ro_expired_promotions = expired, ro_pinned = pinned, ro_reason_codes = codes,
         ro_decision_id = None, ro_schema_version = schema_of q\<rparr>"

record model_level =
  \<comment> \<open>the model-level selection and what the target level needs of it\<close>
  ml_selection :: selection_decision
  ml_exclusions :: "target_exclusion list"
  ml_gates :: "model_identity \<Rightarrow> resource_gate list option"

definition select_versioned ::
  "route_env \<Rightarrow> route_request \<Rightarrow> task_requirement \<Rightarrow> string option \<Rightarrow> pin_outcome \<Rightarrow> resource_gate list \<Rightarrow>
   model_level result" where
  "select_versioned nv q req profile_id px gates =
     bind_r (narrowed_catalog q (px_routable px) gates) (\<lambda>narrowed.
     bind_r (run_selection nv q narrowed req profile_id None) (\<lambda>selection.
       Inr \<lparr>ml_selection = selection, ml_exclusions = [],
             ml_gates = (\<lambda>i. case qualified_for gates i of
                               [] \<Rightarrow> None | gs \<Rightarrow> Some (sort_key order_key gs))\<rparr>))"

definition select_runtime ::
  "route_env \<Rightarrow> route_request \<Rightarrow> task_requirement \<Rightarrow> string option \<Rightarrow> pin_outcome \<Rightarrow> resource_gate list \<Rightarrow>
   model_level result" where
  "select_runtime nv q req profile_id px gates =
     bind_r (fold_r (scan_key nv q req profile_id (px_gate px) gates)
               \<lparr>us_entries = [], us_evaluations = [], us_gates = [], us_exclusions = []\<rparr>
               (sort (px_routable px))) (\<lambda>u.
     bind_r (mk_catalog \<lparr>mc_catalog_version = None, mc_updated_on = None, mc_entries = us_entries u\<rparr>) (\<lambda>narrowed.
     bind_r (assemble_evaluations (nv_zones nv) narrowed req (rq_policy q) (rq_evaluated_at q)
               (us_evaluations u) profile_id
               (if rq_profile q \<noteq> None then rq_profile_version q else None)) (\<lambda>selection.
       Inr \<lparr>ml_selection = selection, ml_exclusions = us_exclusions u,
             ml_gates = map_of (us_gates u)\<rparr>)))"

definition route_request_decision :: "route_env \<Rightarrow> route_request \<Rightarrow> route_decision result" where
  \<comment> \<open>\<open>route_request\<close> of a request without MI admission\<close>
  "route_request_decision nv q =
     bind_r (resolve_requirement q) (\<lambda>(req, profile_id).
     bind_r (route_gates nv q req) (\<lambda>gates.
     let px = pins_of q gates in
     bind_r ((if mc_catalog_version (rq_catalog q) = None then select_runtime else select_versioned)
               nv q req profile_id px gates) (\<lambda>ml.
     bind_r (traverse exclusion_of (filter (\<lambda>g. \<not> ga_qualified g) gates)) (\<lambda>shut.
     let exclusions = sort_key exclusion_sort_key (shut @ ml_exclusions ml);
         unroutable = sort (filter (\<lambda>i. i \<notin> set (px_routable px))
                              (map ce_identity (mc_entries (rq_catalog q)))) in
     bind_r (expired_promotion_sources gates (at_of q)) (\<lambda>expired.
     case sd_selected (ml_selection ml) of
       None \<Rightarrow>
         no_solution_decision nv q (ml_selection ml) exclusions unroutable expired
           (sort (remdups (''no_eligible_target'' # px_codes px
              @ (if has_pin q then [''pinned_request_failed''] else [])))) (has_pin q)
     | Some c \<Rightarrow>
         (case ml_gates ml (cv_identity c) of
            None \<Rightarrow> Inl (KeyError ''selected_gates'')
          | Some selected_gates \<Rightarrow>
              bind_r (route_targets q (cv_identity c) profile_id (px_gate px) selected_gates) (\<lambda>(target, alternatives).
                mk_route_decision (nv_sha nv)
                  \<lparr>ro_status = Route_selected, ro_selection = ml_selection ml,
                    ro_registry_revision = gs_revision (rq_registry q),
                    ro_registry_generated_at = gs_generated_at (rq_registry q),
                    ro_target = Some target, ro_alternatives = alternatives, ro_unroutable = unroutable,
                    ro_exclusions = exclusions, ro_expired_promotions = expired, ro_pinned = has_pin q,
                    ro_reason_codes = [''route_selected''], ro_decision_id = None,
                    ro_schema_version = schema_of q\<rparr>)))))))"

section \<open>Admission of a pinned target\<close>

definition rejection_of :: "pinned_target \<Rightarrow> string list \<Rightarrow> target_exclusion option \<Rightarrow> admission_decision result" where
  "rejection_of p codes exclusion =
     mk_admission \<lparr>am_resource_id = pt_resource_id p, am_approved = False, am_reason_codes = codes,
       am_target = None, am_exclusion = exclusion, am_bound_decision_id = pt_decision_id p\<rparr>"

definition pin_contradicts :: "request_binding \<Rightarrow> pinned_target \<Rightarrow> bool" where
  "pin_contradicts b p =
     ((case rb_pinned_target b of
         None \<Rightarrow> False
       | Some r \<Rightarrow> pt_resource_id r \<noteq> pt_resource_id p \<or> pt_model r \<noteq> pt_model p)
      \<or> (case rb_explicit_model b of
           None \<Rightarrow> False
         | Some m \<Rightarrow> mr_provider m \<noteq> mi_provider (pt_model p) \<or> mr_model m \<noteq> mi_model (pt_model p))
      \<or> (rb_explicit_variant b \<noteq> None \<and> rb_explicit_variant b \<noteq> Some (mi_variant (pt_model p))))"

definition admit_on_capacity ::
  "route_env \<Rightarrow> route_request \<Rightarrow> task_requirement \<Rightarrow> string option \<Rightarrow> resource_gate \<Rightarrow> model_catalog \<Rightarrow>
   model_catalog_entry \<Rightarrow> string option result" where
  \<comment> \<open>the runtime check of capacity and policy: the rejection code, if any\<close>
  "admit_on_capacity nv q req profile_id g admitted e =
     (if mc_catalog_version (rq_catalog q) \<noteq> None then Inr None
      else
        bind_r (resource_snapshots g e) (\<lambda>snapshots.
        bind_r (run_selection nv q admitted req profile_id (Some snapshots)) (\<lambda>checked.
          Inr (if sd_selected checked \<noteq> None then None
               else Some (case sd_excluded checked of
                            [] \<Rightarrow> ''policy_failed''
                          | c # _ \<Rightarrow> if cv_exclusion_stage c = Some Xs_capacity
                                     then ''capacity_failed'' else ''policy_failed'')))))"

definition admit_bound ::
  "route_env \<Rightarrow> route_request \<Rightarrow> pinned_target \<Rightarrow> task_requirement \<Rightarrow> string option \<Rightarrow> resource_gate \<Rightarrow>
   admission_decision result" where
  \<comment> \<open>admission behind the gates: binding, effort, hard constraints, capability, capacity\<close>
  "admit_bound nv q p req profile_id g =
     (if pt_model p \<notin> set (ga_bound_identities g)
        then rejection_of p [''admission_rejected'', ''pinned_model_not_bound''] None
      else
      bind_r (narrowed_catalog q [pt_model p] [g]) (\<lambda>admitted.
      case mc_entries admitted of
        [] \<Rightarrow> rejection_of p [''admission_rejected'', ''pinned_model_not_bound''] None
      | e # _ \<Rightarrow>
          (if pt_reasoning_effort p \<noteq> None
              \<and> map_option effort_str (ce_reasoning_effort e) \<noteq> pt_reasoning_effort p
             then rejection_of p [''admission_rejected'', ''reasoning_effort_unverified''] None
           else
           bind_r (evaluate_hard_constraints (tr_hard_constraints req) e) (\<lambda>hard.
           if hard \<noteq> [] then rejection_of p [''admission_rejected'', ''hard_constraint_failed''] None
           else
           bind_r (evaluate_capability_sufficiency (tr_capability_minima req) (ce_capabilities e)) (\<lambda>caps.
           if caps \<noteq> [] then rejection_of p [''admission_rejected'', ''capability_failed''] None
           else
           bind_r (admit_on_capacity nv q req profile_id g admitted e) (\<lambda>failed.
           case failed of
             Some code \<Rightarrow> rejection_of p (sort [''admission_rejected'', code]) None
           | None \<Rightarrow>
               bind_r (mk_target_of g (pt_model p) profile_id False
                         (if mc_catalog_version (rq_catalog q) = None then ce_reasoning_effort e else None)) (\<lambda>target.
                 mk_admission \<lparr>am_resource_id = pt_resource_id p, am_approved = True,
                   am_reason_codes = [''admission_approved''], am_target = Some target,
                   am_exclusion = None, am_bound_decision_id = pt_decision_id p\<rparr>)))))))"

definition admission_gate ::
  "route_env \<Rightarrow> route_request \<Rightarrow> task_requirement \<Rightarrow> request_binding \<Rightarrow> resource_registry_entry \<Rightarrow>
   resource_gate result" where
  "admission_gate nv q req binding entry =
     evaluate_resource (nv_utc nv) (gate_inputs_of q req binding entry) entry"

definition admit_pinned_target :: "route_env \<Rightarrow> route_request \<Rightarrow> pinned_target \<Rightarrow> admission_decision result" where
  "admit_pinned_target nv q p =
     bind_r (resolve_requirement q) (\<lambda>(req, profile_id).
     if pin_contradicts (rq_request q) p
       then rejection_of p [''admission_rejected'', ''pinned_request_failed''] None
     else
     bind_r (mk_request_binding ((rq_request q)\<lparr>rb_pinned_target := Some p,
               rb_explicit_variant := Some (mi_variant (pt_model p))\<rparr>)) (\<lambda>binding.
     case find (\<lambda>e. entry_id e = pt_resource_id p) (gs_entries (rq_registry q)) of
       None \<Rightarrow> rejection_of p [''admission_rejected'', ''pin_target_not_found''] None
     | Some entry \<Rightarrow>
         bind_r (admission_gate nv q req binding entry) (\<lambda>g.
         if \<not> ga_qualified g \<or> ga_bound_identities g = [] then
           bind_r (exclusion_of g) (\<lambda>x.
             rejection_of p (sort (''admission_rejected'' # map target_code_str (ga_reason_codes g))) (Some x))
         else admit_bound nv q p req profile_id g)))"

end
