(* ===== verification/Route_Gate_Spec.thy ===== *)
theory Route_Gate_Spec
  imports Route_Gates
begin

text \<open>
  What the gates of one resource decide: the effective authorization is the conjunction of its
  layers, the pipeline stops at the first shut stage with codes of that stage, and promotions never
  change the outcome.
\<close>

section \<open>Authorization\<close>

lemma map_filter_id [simp]: "List.map_filter (\<lambda>x. x) xs = map the (filter (\<lambda>x. x \<noteq> None) xs)"
  by (induction xs) (auto simp: map_filter_simps)

definition layer :: "'a administrator_constraints_scheme \<Rightarrow> effective_authorization" where
  \<comment> \<open>one grant layer on its own\<close>
  "layer g = \<lparr>ea_allowed_providers = map_option set (ac_allowed_providers g),
     ea_allowed_channels = map_option set (ac_allowed_channels g),
     ea_allowed_entitlements = map_option set (ac_allowed_entitlements g),
     ea_blocked_resource_ids = set (ac_blocked_resource_ids g), ea_spend_limit = ac_spend_limit g,
     ea_strict_no_payg = False\<rparr>"

definition authorized ::
  "iso_parser \<Rightarrow> execution_assurance list \<Rightarrow> int \<Rightarrow> effective_authorization \<Rightarrow> resource_registry_entry \<Rightarrow> bool" where
  "authorized utc assurances at eff entry \<longleftrightarrow>
     authorization_failure_codes utc entry eff assurances (Some at) = []"

definition within_limit :: "spending_limit \<Rightarrow> resource_registry_entry \<Rightarrow> bool" where
  \<comment> \<open>no marginal spend, or every known price below the ceiling and at least one known\<close>
  "within_limit l entry =
     (case ri_entitlement (rn_identity entry) of
        En_subscription_included \<Rightarrow> True | En_promotional \<Rightarrow> True | En_local_ungated \<Rightarrow> True
      | En_unknown \<Rightarrow> False
      | _ \<Rightarrow> (\<exists>cost \<in> set_option (rn_cost entry). (rc_input cost \<noteq> None \<or> rc_output cost \<noteq> None)
            \<and> pred_option (\<lambda>p. p \<le> sl_micro_usd_per_mtoken_max l) (rc_input cost)
            \<and> pred_option (\<lambda>p. p \<le> sl_micro_usd_per_mtoken_max l) (rc_output cost)))"

definition no_payg_ok ::
  "iso_parser \<Rightarrow> execution_assurance list \<Rightarrow> int \<Rightarrow> resource_registry_entry \<Rightarrow> bool" where
  \<comment> \<open>an unmetered resource with exactly one assurance, whose evidence is accepted\<close>
  "no_payg_ok utc assurances at entry =
     (ri_entitlement (rn_identity entry) \<in> {En_subscription_included, En_promotional, En_local_ungated}
      \<and> (case filter (\<lambda>a. es_resource (xa_current_scope a) = rn_identity entry) assurances of
            [a] \<Rightarrow> verified_non_paid utc a (rn_identity entry) at (rn_freshness_ttl_seconds entry)
          | _ \<Rightarrow> False))"

lemma spend_limit_codes_Nil: "spend_limit_codes entry l = [] \<longleftrightarrow> within_limit l entry"
proof (cases "rn_cost entry")
  case None
  then show ?thesis
    by (cases "ri_entitlement (rn_identity entry)")
      (simp_all add: spend_limit_codes_def within_limit_def METERED_ENTITLEMENTS_def)
next
  case (Some cost)
  then show ?thesis
    by (cases "ri_entitlement (rn_identity entry)"; cases "rc_input cost"; cases "rc_output cost")
      (auto simp: spend_limit_codes_def within_limit_def METERED_ENTITLEMENTS_def)
qed

lemma no_payg_codes_Nil: "no_payg_codes utc entry as (Some at) = [] \<longleftrightarrow> no_payg_ok utc as at entry"
  by (cases "ri_entitlement (rn_identity entry)")
    (auto simp: no_payg_codes_def no_payg_ok_def METERED_ENTITLEMENTS_def Let_def refusal_codes_Nil
      split: list.splits)

lemma authorized_iff:
  "authorized utc as at eff entry \<longleftrightarrow>
     (let r = rn_identity entry in
      \<not> outside (ri_provider r) (ea_allowed_providers eff)
      \<and> \<not> outside (ri_channel r) (ea_allowed_channels eff)
      \<and> \<not> outside (ri_entitlement r) (ea_allowed_entitlements eff)
      \<and> ri_resource_id r \<notin> ea_blocked_resource_ids eff
      \<and> pred_option (\<lambda>l. within_limit l entry) (ea_spend_limit eff)
      \<and> (ea_strict_no_payg eff \<longrightarrow> no_payg_ok utc as at entry))"
  by (cases "ea_spend_limit eff")
    (auto simp: authorized_def authorization_failure_codes_def Let_def spend_limit_codes_Nil no_payg_codes_Nil)

lemma outside_intersect:
  "outside x (intersect_optional a b) \<longleftrightarrow> outside x (map_option set a) \<or> outside x (map_option set b)"
  by (cases a; cases b) (simp_all add: outside_def intersect_optional_def)

lemma outside_narrow: "outside x (Some (narrow_by A s)) \<longleftrightarrow> outside x A \<or> x \<notin> s"
  by (cases A) (simp_all add: outside_def narrow_by_def)

lemma within_limit_mono:
  "sl_micro_usd_per_mtoken_max l \<le> sl_micro_usd_per_mtoken_max k \<Longrightarrow> within_limit l entry \<Longrightarrow> within_limit k entry"
  by (cases "ri_entitlement (rn_identity entry)")
    (auto simp: within_limit_def intro: order_trans elim!: option.pred_mono_strong)

lemma least_limit_within:
  "pred_option (\<lambda>l. within_limit l entry) (least_limit (List.map_filter (\<lambda>l. l) [a, b])) \<longleftrightarrow>
     pred_option (\<lambda>l. within_limit l entry) a \<and> pred_option (\<lambda>l. within_limit l entry) b"
proof (cases "a = None \<or> b = None")
  case True
  then show ?thesis by (cases a; cases b) (simp_all add: least_limit_def)
next
  case False
  then obtain l k where lk: "a = Some l" "b = Some k" by auto
  show ?thesis
    using within_limit_mono [of l k entry] within_limit_mono [of k l entry]
    by (cases "sl_micro_usd_per_mtoken_max k < sl_micro_usd_per_mtoken_max l")
      (auto simp: least_limit_def lk)
qed

definition client_flags_ok ::
  "iso_parser \<Rightarrow> execution_assurance list \<Rightarrow> int \<Rightarrow> client_authorization \<Rightarrow> resource_registry_entry \<Rightarrow> bool" where
  \<comment> \<open>the two client flags: inference-only transport, verified non-paid control\<close>
  "client_flags_ok utc assurances at client entry =
     ((ca_inference_only client \<longrightarrow> ri_channel (rn_identity entry) = Ch_server_direct_http)
      \<and> (ca_strict_no_payg client \<longrightarrow> no_payg_ok utc assurances at entry))"

lemma layers_conjunction:
  "authorized utc as at (compute_authorization admin client profile) entry \<longleftrightarrow>
     authorized utc as at (layer admin) entry \<and> authorized utc as at (layer client) entry
     \<and> client_flags_ok utc as at client entry
     \<and> (\<forall>p ps. profile = Some p \<and> cp_allowed_providers p = Some ps
          \<longrightarrow> ri_provider (rn_identity entry) \<in> set ps)"
proof -
  have p: "outside x (ea_allowed_providers (compute_authorization admin client profile)) \<longleftrightarrow>
      outside x (map_option set (ac_allowed_providers admin)) \<or> outside x (map_option set (ac_allowed_providers client))
      \<or> (\<exists>p ps. profile = Some p \<and> cp_allowed_providers p = Some ps \<and> x \<notin> set ps)" for x
    by (auto simp: compute_authorization_def Let_def outside_intersect outside_narrow split: option.splits)
  have c: "outside x (ea_allowed_channels (compute_authorization admin client profile)) \<longleftrightarrow>
      outside x (map_option set (ac_allowed_channels admin)) \<or> outside x (map_option set (ac_allowed_channels client))
      \<or> (ca_inference_only client \<and> x \<noteq> Ch_server_direct_http)" for x
    by (simp add: compute_authorization_def Let_def outside_intersect outside_narrow)
  have o: "ea_allowed_entitlements (compute_authorization admin client profile)
        = intersect_optional (ac_allowed_entitlements admin) (ac_allowed_entitlements client)"
      "ea_blocked_resource_ids (compute_authorization admin client profile)
        = set (ac_blocked_resource_ids admin) \<union> set (ac_blocked_resource_ids client)"
      "ea_spend_limit (compute_authorization admin client profile)
        = least_limit (List.map_filter (\<lambda>l. l) [ac_spend_limit admin, ac_spend_limit client])"
      "ea_strict_no_payg (compute_authorization admin client profile) = ca_strict_no_payg client"
    by (simp_all add: compute_authorization_def Let_def)
  show ?thesis
    unfolding authorized_iff Let_def p c o outside_intersect least_limit_within
    by (auto simp: layer_def client_flags_ok_def)
qed

section \<open>Availability\<close>

definition available :: "gate_inputs \<Rightarrow> resource_registry_entry \<Rightarrow> bool" where
  \<comment> \<open>observed, fresh, healthy, not refused by a report, served by a live adapter and, for tool
    calls on a bridged worker, with a live continuation session\<close>
  "available x e =
     (let r = rn_identity e in
      rn_freshness e = Fr_fresh
      \<and> pred_option (\<lambda>ob. rh_status (rs_health ob) = St_ok) (rn_observation e)
      \<and> pred_option (\<lambda>rep. ee_state rep = Es_eligible)
          (find (\<lambda>rep. ee_provider rep = ri_provider r) (gi_reports x))
      \<and> \<not> outside (ri_resource_id r) (gi_adapter_ids x)
      \<and> (rb_requires_tool_calls (gi_request x) \<and> ri_channel r = Ch_worker_bridged
         \<longrightarrow> (\<exists>A \<in> set_option (gi_continuation_ids x). ri_resource_id r \<in> A)))"

lemma sort_key_Nil [simp]: "sort_key f xs = [] \<longleftrightarrow> xs = []"
  by (metis length_0_conv length_sort)

lemma optional_code_Nil:
  "(case z of None \<Rightarrow> [] | Some y \<Rightarrow> if P y then [c] else []) = [] \<longleftrightarrow> pred_option (\<lambda>y. \<not> P y) z"
  by (cases z) simp_all

lemma availability_Nil:
  "availability_failure_codes e reports = [] \<longleftrightarrow>
     rn_freshness e = Fr_fresh
     \<and> pred_option (\<lambda>ob. rh_status (rs_health ob) = St_ok) (rn_observation e)
     \<and> pred_option (\<lambda>rep. ee_state rep = Es_eligible)
         (find (\<lambda>rep. ee_provider rep = ri_provider (rn_identity e)) reports)"
  by (cases "rn_freshness e") (simp_all add: availability_failure_codes_def optional_code_Nil)

lemma live_availability_Nil: "live_availability_codes x e = [] \<longleftrightarrow> available x e"
  by (cases "gi_continuation_ids x")
    (auto simp: live_availability_codes_def availability_Nil available_def Let_def)

lemma optional_code_set:
  "set (case z of None \<Rightarrow> [] | Some y \<Rightarrow> if P y then [c] else []) \<subseteq> {c}"
  by (cases z) auto

lemma availability_codes_set:
  "set (availability_failure_codes e reports)
     \<subseteq> {Tc_resource_never_observed, Tc_resource_stale, Tc_resource_unhealthy, Tc_execution_ineligible}"
proof -
  have "set (case rn_freshness e of Fr_never_observed \<Rightarrow> [Tc_resource_never_observed]
      | Fr_stale \<Rightarrow> [Tc_resource_stale] | Fr_fresh \<Rightarrow> []) \<subseteq> {Tc_resource_never_observed, Tc_resource_stale}"
    by (cases "rn_freshness e") simp_all
  moreover note optional_code_set [of "\<lambda>ob. rh_status (rs_health ob) \<noteq> St_ok" Tc_resource_unhealthy "rn_observation e"]
  moreover note optional_code_set [of "\<lambda>r. ee_state r \<noteq> Es_eligible" Tc_execution_ineligible
      "find (\<lambda>r. ee_provider r = ri_provider (rn_identity e)) reports"]
  ultimately show ?thesis unfolding availability_failure_codes_def set_append by blast
qed

lemma live_availability_stage: "set (live_availability_codes x e) \<subseteq> set (route_stage_reasons Stg_availability)"
  using availability_codes_set [of e "gi_reports x"]
  by (auto simp: live_availability_codes_def Let_def)

lemma authorization_stage:
  "set (authorization_failure_codes utc e eff as at) \<subseteq> set (route_stage_reasons Stg_authorization)"
proof -
  have r: "Tc_refusal c \<in> set refusals" for c
    using refusal_vocab.members_complete by (simp add: refusals_def)
  have s: "set (spend_limit_codes e l) \<subseteq> {Tc_spend_limit_unverifiable, Tc_spend_limit_exceeded}" for l
    by (auto simp: spend_limit_codes_def split: option.splits)
  have n: "set (no_payg_codes utc e as at) \<subseteq> set refusals"
    using r by (auto simp: no_payg_codes_def Let_def split: list.splits option.splits)
  have "set (case ea_spend_limit eff of None \<Rightarrow> [] | Some l \<Rightarrow> spend_limit_codes e l)
      \<subseteq> {Tc_spend_limit_unverifiable, Tc_spend_limit_exceeded}"
    using s by (auto split: option.splits)
  with n show ?thesis
    by (auto simp: authorization_failure_codes_def Let_def)
qed

section \<open>Compatibility\<close>

lemma lookup_loop_Some:
  "lookup_loop r f specific backend cs = Some c \<Longrightarrow>
     specific = Some c \<or> (specific = None \<and> backend = Some c)
     \<or> (c \<in> set cs \<and> cell_applies r f c \<and> (cc_variant c = None \<or> cc_variant c = ri_variant r))"
  by (induction r f specific backend cs rule: lookup_loop.induct) (auto split: if_splits)

lemma lookup_cell_Some:
  "lookup_cell cells r f = Some c \<Longrightarrow>
     c \<in> set cells \<and> cell_applies r f c \<and> (cc_variant c = None \<or> cc_variant c = ri_variant r)"
  unfolding lookup_cell_def by (drule lookup_loop_Some) auto

definition applicable ::
  "resource_identity \<Rightarrow> compat_feature \<Rightarrow> string option \<Rightarrow> compatibility_cell list \<Rightarrow> compatibility_cell list" where
  \<comment> \<open>the cells of the matrix for a resource, a feature and a variant (None: backend level)\<close>
  "applicable r f v cells = filter (\<lambda>c. cell_applies r f c \<and> cc_variant c = v) cells"

definition last_or :: "'a option \<Rightarrow> 'a list \<Rightarrow> 'a option" where
  "last_or d xs = (if xs = [] then d else Some (last xs))"

lemma lookup_loop_eq:
  "lookup_loop r f specific backend cs =
     (let s = (if ri_variant r = None then specific else last_or specific (applicable r f (ri_variant r) cs));
          b = last_or backend (applicable r f None cs) in
      if s \<noteq> None then s else b)"
  by (induction cs arbitrary: specific backend) (auto simp: last_or_def applicable_def Let_def)

lemma lookup_cell_eq:
  "lookup_cell cells r f =
     (let s = (if ri_variant r = None then None else last_or None (applicable r f (ri_variant r) cells));
          b = last_or None (applicable r f None cells) in
      if s \<noteq> None then s else b)"
  by (simp add: lookup_cell_def lookup_loop_eq)

definition feature_served :: "compatibility_cell list \<Rightarrow> resource_identity \<Rightarrow> compat_feature \<Rightarrow> bool" where
  "feature_served cells r f \<longleftrightarrow> (\<exists>c \<in> set_option (lookup_cell cells r f). cc_value c \<in> {Cell_PASS, Cell_PARTIAL})"

definition context_fits :: "int option \<Rightarrow> int option \<Rightarrow> bool" where
  "context_fits minimum limit \<longleftrightarrow> pred_option (\<lambda>m. \<exists>l \<in> set_option limit. m \<le> l) minimum"

definition compatible :: "gate_inputs \<Rightarrow> resource_registry_entry \<Rightarrow> bool \<Rightarrow> bool" where
  \<comment> \<open>every required feature served, the context large enough, the output limit satisfiable\<close>
  "compatible x e reasoning =
     (let caps = rn_capabilities e; hc = tr_hard_constraints (gi_requirement x);
          (hard, resolved) = request_output_context (gi_request x) e (gi_catalog x) in
      (\<forall>f \<in> set (required_features (gi_request x) reasoning). feature_served (gi_cells x) (rn_identity e) f)
      \<and> context_fits (hc_minimum_input_context_tokens hc) (ec_context_limit_tokens caps)
      \<and> route_output_code caps hard (rb_maximum_output_tokens (gi_request x)) resolved True = None
      \<and> route_output_code caps hard (hc_minimum_output_tokens hc) resolved False = None)"

lemma feature_failure_None: "feature_failure cells r f = None \<longleftrightarrow> feature_served cells r f"
  by (auto simp: feature_failure_def feature_served_def split: option.splits cell_value.splits)

lemma map_filter_Nil_iff: "List.map_filter g xs = [] \<longleftrightarrow> (\<forall>x \<in> set xs. g x = None)"
  by (induction xs) (auto simp: map_filter_simps split: option.splits)

lemma context_codes_Nil: "context_codes m l = [] \<longleftrightarrow> context_fits m l"
  by (auto simp: context_codes_def context_fits_def split: option.splits)

lemma compatibility_Nil: "fst (compatibility_with x e reasoning) = [] \<longleftrightarrow> compatible x e reasoning"
  by (auto simp: compatibility_with_def compatibility_failure_def compatible_def Let_def
      map_filter_Nil_iff feature_failure_None context_codes_Nil split: prod.splits option.splits)

lemma map_filter_set: "set (List.map_filter g xs) = {y. \<exists>x \<in> set xs. g x = Some y}"
  by (induction xs) (auto simp: map_filter_simps split: option.splits)

lemma compatibility_stage:
  "set (fst (compatibility_with x e reasoning)) \<subseteq> set (route_stage_reasons Stg_compatibility)"
proof -
  have f: "fst y \<in> {Tc_compatibility_unknown, Tc_compatibility_unsupported}"
    if "feature_failure cells r f = Some y" for cells r f y
    using that by (auto simp: feature_failure_def split: option.splits cell_value.splits)
  have o: "output_code c \<in> set (route_stage_reasons Stg_compatibility)" for c by (cases c) simp_all
  have c: "set (context_codes m l) \<subseteq> set (route_stage_reasons Stg_compatibility)" for m l
    by (auto simp: context_codes_def split: option.splits)
  show ?thesis
    using o c by (fastforce simp: compatibility_with_def compatibility_failure_def Let_def map_filter_set
        split: prod.splits option.splits dest: f)
qed

lemma compatibility_codes_sorted:
  "sorted_by target_code_str (fst (compatibility_with x e reasoning))"
  by (auto simp: compatibility_with_def compatibility_failure_def sorted_by_def Let_def split: prod.splits)

section \<open>Promotions\<close>

definition promotion_over :: "int \<Rightarrow> promotion_observation \<Rightarrow> bool" where
  "promotion_over at p \<longleftrightarrow> (\<exists>u. po_valid_until p = Some u \<and> instant_of_ts u < at)"

definition promotion_running :: "int \<Rightarrow> promotion_observation \<Rightarrow> bool" where
  "promotion_running at p \<longleftrightarrow>
     \<not> promotion_over at p \<and> (\<forall>f. po_valid_from p = Some f \<longrightarrow> instant_of_ts f \<le> at)"

definition matching_promotions :: "resource_registry_entry \<Rightarrow> promotion_observation list" where
  "matching_promotions e =
     (case rn_observation e of None \<Rightarrow> [] | Some ob \<Rightarrow> filter (\<lambda>p. promotion_matches p e) (rs_promotions ob))"

definition sources_where :: "(promotion_observation \<Rightarrow> bool) \<Rightarrow> resource_registry_entry \<Rightarrow> string list" where
  "sources_where P e = sort (remdups (map po_source (filter P (matching_promotions e))))"

lemma parse_bound_ok: "pred_option ts_ok x \<Longrightarrow> parse_bound x fld = Inr (map_option instant_of_ts x)"
  by (cases x) (simp_all add: parse_bound_def bind_r_Inr_iff parse_canonical_ts_Inr)

lemma promotion_phase_run:
  "valid_promotion p \<Longrightarrow> promotion_phase_at at p =
     Inr (if promotion_over at p then Promo_expired
          else if promotion_running at p then Promo_active else Promo_upcoming)"
  by (auto simp: promotion_phase_at_def parse_bound_ok valid_promotion_def promotion_over_def
      promotion_running_def split: option.splits)

lemma promotion_preference_run:
  assumes "pred_option (list_all valid_promotion \<circ> rs_promotions) (rn_observation e)"
  shows "promotion_preference e at =
    Inr (sources_where (promotion_running at) e, sources_where (promotion_over at) e)"
proof (cases "rn_observation e")
  case None
  then show ?thesis by (simp add: promotion_preference_def sources_where_def matching_promotions_def)
next
  case (Some ob)
  define phase where "phase p = (if promotion_over at p then Promo_expired
    else if promotion_running at p then Promo_active else Promo_upcoming)" for p
  have run: "traverse (\<lambda>p. bind_r (promotion_phase_at at p) (\<lambda>ph. Inr (ph, po_source p)))
      (matching_promotions e) = Inr (map (\<lambda>p. (phase p, po_source p)) (matching_promotions e))"
    using assms Some by (intro traverse_total)
      (auto simp: matching_promotions_def list_all_iff promotion_phase_run phase_def)
  have f: "map snd (filter (\<lambda>(ph, _). P ph) (map (\<lambda>p. (phase p, po_source p)) ps))
      = map po_source (filter (\<lambda>p. P (phase p)) ps)" for P and ps
    by (induction ps) auto
  have "filter (\<lambda>p. phase p = Promo_active) ps = filter (promotion_running at) ps"
    "filter (\<lambda>p. phase p = Promo_expired) ps = filter (promotion_over at) ps" for ps
    by (rule filter_cong; simp add: phase_def promotion_running_def)+
  with run Some show ?thesis
    by (simp add: promotion_preference_def sources_where_def matching_promotions_def f)
qed

section \<open>The pipeline\<close>

definition current_entry :: "resource_registry_entry \<Rightarrow> int \<Rightarrow> resource_registry_entry" where
  \<comment> \<open>the entry without context evidence that does not cover the instant\<close>
  "current_entry e at =
     (if evidence_lapsed (rn_capabilities e) at then
        e\<lparr>rn_capabilities := (rn_capabilities e)\<lparr>ec_context_limit_tokens := None, ec_evidence_ref := None,
          ec_evidence_valid_until := None, ec_evidence_verified_at := None,
          ec_evidence_runtime_version := None\<rparr>\<rparr>
      else e)"

lemma current_entry_simps [simp]:
  "rn_identity (current_entry e at) = rn_identity e"
  "rn_observation (current_entry e at) = rn_observation e"
  "rn_freshness (current_entry e at) = rn_freshness e"
  "rn_cost (current_entry e at) = rn_cost e"
  "rn_freshness_ttl_seconds (current_entry e at) = rn_freshness_ttl_seconds e"
  by (simp_all add: current_entry_def)

lemma current_entry_valid: "valid_registry_entry e \<Longrightarrow> valid_registry_entry (current_entry e at)"
  by (auto simp: current_entry_def valid_registry_entry_def Resource_Registry.entry_parts_def
      valid_capabilities_def valid_evidence_interval_def)

lemma strip_context_run:
  assumes "valid_registry_entry e"
  shows "strip_context e at = Inr (current_entry e at)"
proof (cases "evidence_lapsed (rn_capabilities e) at")
  case True
  let ?c = "(rn_capabilities e)\<lparr>ec_context_limit_tokens := None, ec_evidence_ref := None,
    ec_evidence_valid_until := None, ec_evidence_verified_at := None, ec_evidence_runtime_version := None\<rparr>"
  from True have ce: "current_entry e at = e\<lparr>rn_capabilities := ?c\<rparr>" by (simp add: current_entry_def)
  from current_entry_valid [OF assms, of at] have v: "valid_registry_entry (e\<lparr>rn_capabilities := ?c\<rparr>)"
    by (simp only: ce)
  then have "mk_capabilities ?c = Inr ?c"
    by (simp add: mk_capabilities_Inr valid_registry_entry_def Resource_Registry.entry_parts_def)
  moreover have "mk_registry_entry (e\<lparr>rn_capabilities := ?c\<rparr>) = Inr (e\<lparr>rn_capabilities := ?c\<rparr>)"
    using v by (simp add: mk_registry_entry_Inr valid_registry_entry_def)
  ultimately show ?thesis using True ce by (simp add: strip_context_def)
next
  case False
  then show ?thesis by (simp add: strip_context_def current_entry_def)
qed

definition effort_needed :: "gate_inputs \<Rightarrow> resource_registry_entry \<Rightarrow> model_identity \<Rightarrow> bool" where
  \<comment> \<open>reasoning controls are required of this identity on this resource\<close>
  "effort_needed x e i \<longleftrightarrow>
     gi_reasoning_required x
     \<or> (\<exists>c \<in> set (mc_entries (gi_catalog x)). ce_identity c = i
          \<and> effort_evidenced (gi_catalog x) c (ri_resource_id (rn_identity e))
          \<and> (gi_require_effort x \<or> i \<in> gi_mi_effort x))"

definition unblocked :: "gate_inputs \<Rightarrow> resource_registry_entry \<Rightarrow> model_identity list" where
  "unblocked x e = filter (\<lambda>i. i \<notin> gi_mi_blocked x) (bind_identities e (gi_catalog x))"

definition served_identities :: "gate_inputs \<Rightarrow> resource_registry_entry \<Rightarrow> model_identity list" where
  "served_identities x e = filter (\<lambda>i. compatible x e (effort_needed x e i)) (unblocked x e)"

definition first_shut ::
  "iso_parser \<Rightarrow> gate_inputs \<Rightarrow> resource_registry_entry \<Rightarrow> route_stage option" where
  "first_shut utc x e =
     (if bind_identities e (gi_catalog x) = [] then Some Stg_binding
      else if \<not> authorized utc (gi_assurances x) (gi_evaluated_at x) (gi_effective x) e \<or> unblocked x e = []
        then Some Stg_authorization
      else if \<not> available x e then Some Stg_availability
      else if served_identities x e = [] then Some Stg_compatibility
      else None)"

definition gate_wf :: "gate_inputs \<Rightarrow> resource_registry_entry \<Rightarrow> bool" where
  "gate_wf x e \<longleftrightarrow> valid_registry_entry e \<and> distinct (map ce_identity (mc_entries (gi_catalog x)))"

lemma bind_identities_catalog: "set (bind_identities e c) \<subseteq> ce_identity ` set (mc_entries c)"
  by (auto simp: bind_identities_def)

lemma compatible_mono: "compatible x e True \<Longrightarrow> compatible x e b"
proof -
  assume c: "compatible x e True"
  have "set (required_features q b) \<subseteq> set (required_features q True)" for q
    by (auto simp: required_features_def)
  with c show ?thesis by (auto simp: compatible_def Let_def split: prod.splits)
qed

lemma effort_failure_run:
  assumes "distinct (map ce_identity (mc_entries (gi_catalog x)))" "i \<in> ce_identity ` set (mc_entries (gi_catalog x))"
  shows "effort_failure x e i = Inr (i, compatibility_with x e (effort_needed x e i))"
proof -
  from assms(2) obtain c where c: "find (\<lambda>c. ce_identity c = i) (mc_entries (gi_catalog x)) = Some c"
    by (cases "find (\<lambda>c. ce_identity c = i) (mc_entries (gi_catalog x))") (auto simp: find_None_iff)
  then have in_c: "c \<in> set (mc_entries (gi_catalog x))" "ce_identity c = i"
    by (auto simp: find_Some_iff)
  then have "d = c" if "d \<in> set (mc_entries (gi_catalog x))" "ce_identity d = i" for d
    using that assms(1) by (metis distinct_map inj_on_eq_iff)
  with in_c have "effort_needed x e i \<longleftrightarrow> gi_reasoning_required x
      \<or> (effort_evidenced (gi_catalog x) c (ri_resource_id (rn_identity e))
         \<and> (gi_require_effort x \<or> i \<in> gi_mi_effort x))"
    unfolding effort_needed_def by blast
  with c show ?thesis by (simp add: effort_failure_def)
qed

lemma effort_needed_only:
  "\<not> gi_require_effort x \<Longrightarrow> i \<notin> gi_mi_effort x \<Longrightarrow> effort_needed x e i = gi_reasoning_required x"
  by (auto simp: effort_needed_def)

lemma effort_needed_least: "compatible x e (effort_needed x e i) \<Longrightarrow> compatible x e (gi_reasoning_required x)"
proof (cases "effort_needed x e i")
  case True
  then show "compatible x e (effort_needed x e i) \<Longrightarrow> ?thesis" by (auto dest: compatible_mono)
next
  case False
  then have "\<not> gi_reasoning_required x" by (auto simp: effort_needed_def)
  with False show "compatible x e (effort_needed x e i) \<Longrightarrow> ?thesis" by simp
qed

lemma traverse_effort:
  assumes "gate_wf x e0" and "set bound \<subseteq> ce_identity ` set (mc_entries (gi_catalog x))"
  shows "traverse (effort_failure x e) bound
    = Inr (map (\<lambda>i. (i, compatibility_with x e (effort_needed x e i))) bound)"
  using assms by (intro traverse_total effort_failure_run) (auto simp: gate_wf_def)

definition gate_details :: "gate_inputs \<Rightarrow> resource_gate \<Rightarrow> bool" where
  \<comment> \<open>the explanation carried by a shut gate fits its stage\<close>
  "gate_details x g \<longleftrightarrow>
     (\<forall>s. ga_stage g = Some s \<longrightarrow>
        ga_reason_codes g \<noteq> [] \<and> set (ga_reason_codes g) \<subseteq> set (route_stage_reasons s)
        \<and> (s \<noteq> Stg_authorization \<longrightarrow> sorted (map target_code_str (ga_reason_codes g)))
        \<and> (ga_compatibility_feature g \<noteq> None \<longrightarrow> s = Stg_compatibility)
        \<and> (ga_eligibility g \<noteq> None \<longrightarrow> s = Stg_availability)
        \<and> set_option (ga_eligibility g) \<subseteq> set (gi_reports x))"

definition gate_outcome ::
  "gate_inputs \<Rightarrow> resource_registry_entry \<Rightarrow> string list \<Rightarrow> route_stage option \<Rightarrow> resource_gate \<Rightarrow> bool" where
  "gate_outcome x e ps stage g \<longleftrightarrow>
     ga_entry g = e \<and> ga_promotion_sources g = ps \<and> ga_stage g = stage
     \<and> (ga_qualified g \<longleftrightarrow> stage = None)
     \<and> (stage = None \<longrightarrow> ga_bound_identities g = served_identities x e) \<and> gate_details x g"

lemmas gate_record_simps = gate_outcome_def gate_details_def shut_gate_def gate_of_def

lemma compatibility_shut:
  assumes "\<not> compatible x e b" and "compatibility_with x e b = (codes, feature, val)"
  shows "gate_outcome x e ps (Some Stg_compatibility)
    ((shut_gate e bound ps Stg_compatibility codes)
       \<lparr>ga_compatibility_feature := feature, ga_compatibility_value := val\<rparr>)"
  using assms compatibility_Nil [of x e b] compatibility_stage [of x e b] compatibility_codes_sorted [of x e b]
  by (simp add: gate_record_simps sorted_by_def)

lemma open_gate_outcome: "gate_outcome x e ps None (gate_of e (served_identities x e) ps)"
  by (simp add: gate_record_simps)

lemma compatibility_gate_run:
  assumes wf: "gate_wf x e0" and bound: "unblocked x e \<noteq> []"
  shows "\<exists>g. compatibility_gate x e (unblocked x e) ps = Inr g
    \<and> gate_outcome x e ps (if served_identities x e = [] then Some Stg_compatibility else None) g"
proof (cases "compatible x e (gi_reasoning_required x)")
  case False
  obtain codes feature val where f: "compatibility_with x e (gi_reasoning_required x) = (codes, feature, val)"
    by (cases "compatibility_with x e (gi_reasoning_required x)")
  from False have "served_identities x e = []"
    by (auto simp: served_identities_def filter_empty_conv dest: effort_needed_least)
  with False compatibility_shut [OF False f] f compatibility_Nil [of x e "gi_reasoning_required x"]
  show ?thesis by (simp add: compatibility_gate_def Let_def)
next
  case True
  then have codes: "fst (compatibility_with x e (gi_reasoning_required x)) = []" by (simp add: compatibility_Nil)
  show ?thesis
  proof (cases "gi_require_effort x \<or> list_ex (\<lambda>i. i \<in> gi_mi_effort x) (unblocked x e)")
    case False
    then have "served_identities x e = unblocked x e"
      using True by (auto simp: served_identities_def list_ex_iff effort_needed_only intro!: filter_True)
    with False codes have "compatibility_gate x e (unblocked x e) ps = Inr (gate_of e (served_identities x e) ps)"
      by (simp add: compatibility_gate_def Let_def)
    with bound open_gate_outcome [of x e ps] \<open>served_identities x e = unblocked x e\<close> show ?thesis by simp
  next
    case effort: True
    let ?out = "map (\<lambda>i. (i, compatibility_with x e (effort_needed x e i))) (unblocked x e)"
    have cat: "set (unblocked x e) \<subseteq> ce_identity ` set (mc_entries (gi_catalog x))"
      using bind_identities_catalog by (auto simp: unblocked_def)
    have usable: "map fst (filter (\<lambda>(_, f). fst f = []) ?out) = served_identities x e"
      by (simp add: filter_map comp_def served_identities_def compatibility_Nil)
    have usable_Nil: "filter (\<lambda>(_, f). fst f = []) ?out = [] \<longleftrightarrow> served_identities x e = []"
      by (simp only: usable [symmetric] map_is_Nil_conv)
    show ?thesis
    proof (cases "served_identities x e = []")
      case False
      with codes effort have "compatibility_gate x e (unblocked x e) ps = Inr (gate_of e (served_identities x e) ps)"
        by (simp add: compatibility_gate_def Let_def traverse_effort [OF wf cat] usable usable_Nil del: map_map filter_map)
      with False open_gate_outcome [of x e ps] show ?thesis by simp
    next
      case none: True
      from bound obtain i where i: "i \<in> set (unblocked x e)" by (meson last_in_set)
      with none have "\<not> compatible x e (effort_needed x e i)"
        by (auto simp: served_identities_def filter_empty_conv)
      with i have "find (\<lambda>(_, f). fst f \<noteq> []) ?out \<noteq> None"
        by (auto simp: find_None_iff compatibility_Nil)
      then obtain j f where f: "find (\<lambda>(_, f). fst f \<noteq> []) ?out = Some (j, f)" by auto
      then have jf: "f = compatibility_with x e (effort_needed x e j)" "fst f \<noteq> []"
        by (auto simp: find_Some_iff)
      obtain cs feature val where v: "f = (cs, feature, val)" by (cases f)
      from jf have "\<not> compatible x e (effort_needed x e j)" by (simp add: compatibility_Nil)
      from compatibility_shut [OF this] jf(1) v have "gate_outcome x e ps (Some Stg_compatibility)
          ((shut_gate e (unblocked x e) ps Stg_compatibility cs)
            \<lparr>ga_compatibility_feature := feature, ga_compatibility_value := val\<rparr>)" by simp
      with codes effort none f v show ?thesis
        by (simp add: compatibility_gate_def Let_def traverse_effort [OF wf cat] usable_Nil
            del: map_map filter_map)
    qed
  qed
qed

lemma valid_entry_promotions:
  "valid_registry_entry e \<Longrightarrow> pred_option (list_all valid_promotion \<circ> rs_promotions) (rn_observation e)"
  by (cases "rn_observation e")
    (simp_all add: valid_registry_entry_def Resource_Registry.entry_parts_def valid_resource_snapshot_def
      resource_snapshot_parts_def)

lemma evaluate_resource_eq:
  fixes x :: gate_inputs and utc :: iso_parser
  assumes "valid_registry_entry e"
  defines "at \<equiv> gi_evaluated_at x" and "c \<equiv> current_entry e (gi_evaluated_at x)"
  defines "ps \<equiv> sources_where (promotion_running at) c" and "bound \<equiv> bind_identities c (gi_catalog x)"
    and "codes \<equiv> authorization_failure_codes utc c (gi_effective x) (gi_assurances x) (Some at)"
  shows "evaluate_resource utc x e =
     (if bound = [] then Inr (shut_gate c [] ps Stg_binding [Tc_capability_unassessed])
      else if codes \<noteq> [] then Inr (shut_gate c bound ps Stg_authorization codes)
      else if unblocked x c = [] then Inr (shut_gate c bound ps Stg_authorization [Tc_resource_blocked])
      else if live_availability_codes x c \<noteq> [] then
        Inr ((shut_gate c (unblocked x c) ps Stg_availability (live_availability_codes x c))
          \<lparr>ga_health_status := map_option (\<lambda>ob. rh_status (rs_health ob)) (rn_observation c),
            ga_eligibility := find (\<lambda>r. ee_provider r = ri_provider (rn_identity c)
              \<and> ee_state r \<noteq> Es_eligible) (gi_reports x)\<rparr>)
      else compatibility_gate x c (unblocked x c) ps)"
proof -
  have "strip_context e at = Inr c" by (simp add: strip_context_run [OF assms(1)] c_def at_def)
  moreover have "promotion_preference c at = Inr (ps, sources_where (promotion_over at) c)"
    unfolding ps_def
    by (rule promotion_preference_run) (use valid_entry_promotions [OF assms(1)] in \<open>simp add: c_def\<close>)
  ultimately show ?thesis
    by (simp add: evaluate_resource_def at_def [symmetric] unblocked_def bound_def codes_def Let_def)
qed

lemma evaluate_resource_run:
  assumes wf: "gate_wf x e"
  defines "at \<equiv> gi_evaluated_at x" and "c \<equiv> current_entry e (gi_evaluated_at x)"
  shows "\<exists>g. evaluate_resource utc x e = Inr g
    \<and> gate_outcome x c (sources_where (promotion_running at) c) (first_shut utc x c) g"
proof -
  have v: "valid_registry_entry e" using wf by (simp add: gate_wf_def)
  have cwf: "gate_wf x c" using wf by (simp add: gate_wf_def current_entry_valid c_def)
  let ?ps = "sources_where (promotion_running at) c"
  let ?bound = "bind_identities c (gi_catalog x)"
  let ?auth = "authorization_failure_codes utc c (gi_effective x) (gi_assurances x) (Some at)"
  note run = evaluate_resource_eq [OF v, of utc x, folded at_def c_def]
  consider (binding) "?bound = []" | (auth) "?bound \<noteq> []" "?auth \<noteq> []"
    | (blocked) "?bound \<noteq> []" "?auth = []" "unblocked x c = []"
    | (unavailable) "?bound \<noteq> []" "?auth = []" "unblocked x c \<noteq> []" "live_availability_codes x c \<noteq> []"
    | (compat) "?bound \<noteq> []" "?auth = []" "unblocked x c \<noteq> []" "live_availability_codes x c = []"
    by blast
  then show ?thesis
  proof cases
    case binding
    then show ?thesis by (simp add: run first_shut_def gate_record_simps)
  next
    case auth
    then show ?thesis using authorization_stage [of utc c "gi_effective x" "gi_assurances x" "Some at"]
      by (simp add: run first_shut_def authorized_def gate_record_simps at_def)
  next
    case blocked
    then show ?thesis by (simp add: run first_shut_def gate_record_simps)
  next
    case unavailable
    let ?f = "find (\<lambda>r. ee_provider r = ri_provider (rn_identity c) \<and> ee_state r \<noteq> Es_eligible) (gi_reports x)"
    have "set_option ?f \<subseteq> set (gi_reports x)"
      by (cases ?f) (auto simp: find_Some_iff)
    moreover have "sorted (map target_code_str (live_availability_codes x c))"
      by (simp add: live_availability_codes_def Let_def)
    ultimately show ?thesis
      using unavailable live_availability_stage [of x c]
      by (simp add: run first_shut_def authorized_def live_availability_Nil [symmetric] gate_record_simps at_def)
  next
    case compat
    then have "first_shut utc x c = (if served_identities x c = [] then Some Stg_compatibility else None)"
      by (simp add: first_shut_def authorized_def live_availability_Nil [symmetric] at_def)
    with compat compatibility_gate_run [OF cwf compat(3), of ?ps] show ?thesis by (simp add: run)
  qed
qed

section \<open>Concrete inputs\<close>

definition route_resource :: "string \<Rightarrow> string option \<Rightarrow> resource_identity" where
  "route_resource name variant = \<lparr>ri_resource_id = name, ri_channel = Ch_server_direct_http,
     ri_provider = ''zai'', ri_model = ''m-two'', ri_entitlement = En_subscription_included,
     ri_variant = variant, ri_quota_pool_ids = [''pool-a'']\<rparr>"

definition open_promotion :: promotion_observation where
  "open_promotion = \<lparr>po_source = ''announcement'', po_observed_at = ''1970-01-01T09:00:00.000Z'',
     po_channel = None, po_provider = Some ''zai'', po_model = None, po_plan = None, po_valid_from = None,
     po_valid_until = Some ''1970-01-02T00:00:00.000Z'', po_timezone = None\<rparr>"

definition route_entry :: "string \<Rightarrow> promotion_observation list \<Rightarrow> resource_registry_entry" where
  "route_entry name promotions =
     \<lparr>rn_identity = route_resource name (Some ''base''), rn_freshness_ttl_seconds = 600,
       rn_poll_interval_seconds = None, rn_capabilities = unknown_capabilities, rn_cost = None,
       rn_observation = Some \<lparr>rs_schema_version = 1,
         rs_identity = route_resource name (Some ''base''),
         rs_observed_at = ''1970-01-01T11:55:00.000Z'', rs_health = \<lparr>rh_status = St_ok, rh_diagnostics = []\<rparr>,
         rs_quota_facts = [], rs_promotions = promotions\<rparr>,
       rn_freshness = Fr_fresh, rn_refresh_due = False\<rparr>"

definition open_grant :: administrator_constraints where
  "open_grant = \<lparr>ac_allowed_providers = None, ac_allowed_channels = None, ac_allowed_entitlements = None,
     ac_blocked_resource_ids = [], ac_spend_limit = None\<rparr>"

definition client_grant :: "string list option \<Rightarrow> execution_channel list option \<Rightarrow> client_authorization" where
  "client_grant providers channels = \<lparr>ac_allowed_providers = providers, ac_allowed_channels = channels,
     ac_allowed_entitlements = None, ac_blocked_resource_ids = [], ac_spend_limit = None,
     ca_inference_only = False, ca_strict_no_payg = False\<rparr>"

definition route_requirement :: task_requirement where
  "route_requirement = (sample_requirement L3 3)\<lparr>tr_hard_constraints :=
     (tr_hard_constraints (sample_requirement L3 3))\<lparr>hc_minimum_input_context_tokens := None,
       hc_minimum_output_tokens := None\<rparr>\<rparr>"

definition route_inputs :: "client_authorization \<Rightarrow> request_binding \<Rightarrow> gate_inputs" where
  "route_inputs client binding =
     \<lparr>gi_catalog = sample_catalog, gi_effective = compute_authorization open_grant client None,
       gi_request = binding, gi_cells = [], gi_requirement = route_requirement, gi_reports = [],
       gi_evaluated_at = 43200000000, gi_continuation_ids = None, gi_reasoning_required = False,
       gi_assurances = [], gi_require_effort = False, gi_adapter_ids = None, gi_mi_blocked = {},
       gi_mi_effort = {}\<rparr>"

definition no_utc :: iso_parser where "no_utc s = None"

lemma route_entry_valid:
  "valid_registry_entry (route_entry ''r-one'' [])" "valid_registry_entry (route_entry ''r-one'' [open_promotion])"
  by code_simp+

lemma route_inputs_wf:
  "gate_wf (route_inputs client binding) (route_entry ''r-one'' [])"
  "gate_wf (route_inputs client binding) (route_entry ''r-one'' [open_promotion])"
  by (simp_all add: gate_wf_def route_entry_valid)
    (simp_all add: route_inputs_def sample_catalog_def sample_entry_def)

section \<open>Properties\<close>

text \<open>
  C16: The effective authorization is exactly the conjunction of its layers. A resource passes the
  authorization gate under the combined grant if and only if it passes under the administrator's
  constraints alone, under the client's grant alone, satisfies the two client flags (inference-only
  transport, verified non-paid control) and the provider list of the routing profile. No layer can
  therefore widen what another one refuses, spending ceilings included.
\<close>

theorem authorization_is_conjunction:
  "authorized utc as at (compute_authorization admin client profile) entry \<longleftrightarrow>
     authorized utc as at (layer admin) entry \<and> authorized utc as at (layer client) entry
     \<and> client_flags_ok utc as at client entry
     \<and> pred_option (\<lambda>p. pred_option (\<lambda>ps. ri_provider (rn_identity entry) \<in> set ps) (cp_allowed_providers p)) profile"
  unfolding layers_conjunction by (auto simp: pred_option_def split: option.splits)

text \<open>
  C21: The gate pipeline implements its specification, on every registry entry whatever the inputs:
  the resource qualifies exactly if some catalog identity is bound, the resource is authorized and not
  blocked, available, and serves at least one unblocked identity; then it is bound to precisely the
  identities it serves. Otherwise the gate carries the first shut stage in the frozen order with a
  non-empty list of that stage's reason codes. Context evidence counts only inside its validity
  interval.
\<close>

theorem resource_gate_pipeline:
  assumes "gate_wf x e"
  shows "\<exists>g. evaluate_resource utc x e = Inr g
    \<and> ga_stage g = first_shut utc x (current_entry e (gi_evaluated_at x))
    \<and> ga_qualified g = (first_shut utc x (current_entry e (gi_evaluated_at x)) = None)
    \<and> (if ga_qualified g
       then ga_bound_identities g = served_identities x (current_entry e (gi_evaluated_at x))
       else ga_reason_codes g \<noteq> []
            \<and> set (ga_reason_codes g) \<subseteq> set (route_stage_reasons (the (ga_stage g))))"
proof -
  obtain g where g: "evaluate_resource utc x e = Inr g"
      "gate_outcome x (current_entry e (gi_evaluated_at x))
         (sources_where (promotion_running (gi_evaluated_at x)) (current_entry e (gi_evaluated_at x)))
         (first_shut utc x (current_entry e (gi_evaluated_at x))) g"
    using evaluate_resource_run [OF assms, of utc] by blast
  show ?thesis
    by (rule exI [of _ g], cases "first_shut utc x (current_entry e (gi_evaluated_at x))")
      (use g in \<open>simp_all add: gate_outcome_def gate_details_def\<close>)
qed

theorem resource_gate_pipeline_witness:
  "\<exists>g g'. evaluate_resource no_utc (route_inputs (client_grant None None) empty_binding) (route_entry ''r-one'' []) = Inr g
     \<and> ga_qualified g \<and> ga_bound_identities g = [ModelIdentity ''zai'' ''m-two'' ''base'']
     \<and> evaluate_resource no_utc (route_inputs (client_grant (Some []) None) empty_binding) (route_entry ''r-one'' []) = Inr g'
     \<and> ga_stage g' = Some Stg_authorization"
proof -
  let ?open = "route_inputs (client_grant None None) empty_binding"
  let ?shut = "route_inputs (client_grant (Some []) None) empty_binding"
  let ?e = "current_entry (route_entry ''r-one'' []) 43200000000"
  have at: "gi_evaluated_at (route_inputs c b) = 43200000000" for c b by (simp add: route_inputs_def)
  have "first_shut no_utc ?open ?e = None" "first_shut no_utc ?shut ?e = Some Stg_authorization"
    "served_identities ?open ?e = [ModelIdentity ''zai'' ''m-two'' ''base'']"
    by code_simp+
  then show ?thesis
    using resource_gate_pipeline [OF route_inputs_wf(1) [of "client_grant None None" empty_binding], of no_utc]
      resource_gate_pipeline [OF route_inputs_wf(1) [of "client_grant (Some []) None" empty_binding], of no_utc]
    by (auto simp: at)
qed

definition with_promotions ::
  "promotion_observation list \<Rightarrow> resource_registry_entry \<Rightarrow> resource_registry_entry" where
  \<comment> \<open>the entry with other promotions observed\<close>
  "with_promotions ps e =
     e\<lparr>rn_observation := map_option (\<lambda>ob. ob\<lparr>rs_promotions := ps\<rparr>) (rn_observation e)\<rparr>"

definition verdict ::
  "resource_gate \<Rightarrow> model_identity list \<times> route_stage option \<times> target_code list \<times> capacity_status option
     \<times> compat_outcome \<times> execution_eligibility option" where
  \<comment> \<open>everything a gate decides but the promotion preference\<close>
  "verdict g = (ga_bound_identities g, ga_stage g, ga_reason_codes g, ga_health_status g,
     (ga_reason_codes g, ga_compatibility_feature g, ga_compatibility_value g), ga_eligibility g)"

lemma with_promotions_simps [simp]:
  "rn_identity (with_promotions ps e) = rn_identity e" "rn_cost (with_promotions ps e) = rn_cost e"
  "rn_freshness (with_promotions ps e) = rn_freshness e"
  "rn_capabilities (with_promotions ps e) = rn_capabilities e"
  "rn_freshness_ttl_seconds (with_promotions ps e) = rn_freshness_ttl_seconds e"
  "map_option (\<lambda>ob. rh_status (rs_health ob)) (rn_observation (with_promotions ps e))
     = map_option (\<lambda>ob. rh_status (rs_health ob)) (rn_observation e)"
  "(case rn_observation (with_promotions ps e) of None \<Rightarrow> [] | Some ob \<Rightarrow>
      if rh_status (rs_health ob) \<noteq> St_ok then [c] else [])
     = (case rn_observation e of None \<Rightarrow> [] | Some ob \<Rightarrow> if rh_status (rs_health ob) \<noteq> St_ok then [c] else [])"
  by (simp_all add: with_promotions_def option.map_comp comp_def split: option.splits)

lemma current_with_promotions: "current_entry (with_promotions ps e) at = with_promotions ps (current_entry e at)"
  by (simp add: current_entry_def with_promotions_def)

lemma gates_ignore_promotions:
  "bind_identities (with_promotions ps e) c = bind_identities e c"
  "authorization_failure_codes utc (with_promotions ps e) eff as at = authorization_failure_codes utc e eff as at"
  "unblocked x (with_promotions ps e) = unblocked x e"
  "live_availability_codes x (with_promotions ps e) = live_availability_codes x e"
  "compatibility_with x (with_promotions ps e) b = compatibility_with x e b"
  "effort_failure x (with_promotions ps e) i = effort_failure x e i"
proof -
  show "bind_identities (with_promotions ps e) c = bind_identities e c" for c
    by (simp add: bind_identities_def)
  then show "unblocked x (with_promotions ps e) = unblocked x e" by (simp add: unblocked_def)
  have n: "no_payg_codes utc (with_promotions ps e) as at = no_payg_codes utc e as at"
    by (cases at; cases "filter (\<lambda>a. es_resource (xa_current_scope a) = rn_identity e) as")
      (auto simp: no_payg_codes_def Let_def split: list.split)
  have s: "spend_limit_codes (with_promotions ps e) = spend_limit_codes e"
    by (rule ext) (simp add: spend_limit_codes_def)
  show "authorization_failure_codes utc (with_promotions ps e) eff as at = authorization_failure_codes utc e eff as at"
    by (cases "ea_spend_limit eff") (simp_all add: authorization_failure_codes_def n s Let_def)
  show "live_availability_codes x (with_promotions ps e) = live_availability_codes x e"
    by (simp add: live_availability_codes_def availability_failure_codes_def)
  show c: "compatibility_with x (with_promotions ps e) b = compatibility_with x e b" for b
    by (simp add: compatibility_with_def compatibility_failure_def request_output_context_def)
  then show "effort_failure x (with_promotions ps e) i = effort_failure x e i"
    by (simp add: effort_failure_def split: option.splits)
qed

lemma shut_verdict:
  "verdict (shut_gate e b ps s cs) = verdict (shut_gate e' b ps' s cs)"
  "verdict (gate_of e b ps) = verdict (gate_of e' b ps')"
  by (simp_all add: verdict_def shut_gate_def gate_of_def)

lemma compatibility_verdict:
  assumes "compatibility_gate x e bound ps = Inr g" "compatibility_gate x (with_promotions qs e) bound ps' = Inr g'"
  shows "verdict g' = verdict g \<and> ga_qualified g' = ga_qualified g"
proof -
  have effort: "effort_failure x (with_promotions qs e) = effort_failure x e"
    by (rule ext) (rule gates_ignore_promotions)
  show ?thesis
    using assms by (auto simp: compatibility_gate_def Let_def gates_ignore_promotions effort bind_r_Inr_iff
        verdict_def shut_gate_def gate_of_def split: if_splits prod.splits option.splits)
qed

text \<open>
  C22: Promotions are observations, never proof of eligibility: replacing the promotions observed on a
  resource changes nothing about its gate but the recorded promotion sources. It neither admits nor
  excludes the resource, and the bound identities, stage, reason codes and details are the same.
\<close>

theorem promotions_never_admit:
  assumes "gate_wf x e" and "gate_wf x (with_promotions ps e)"
  shows "\<exists>g g'. evaluate_resource utc x e = Inr g \<and> evaluate_resource utc x (with_promotions ps e) = Inr g'
    \<and> ga_qualified g' = ga_qualified g \<and> verdict g' = verdict g"
proof -
  let ?at = "gi_evaluated_at x"
  obtain g where g: "evaluate_resource utc x e = Inr g" using evaluate_resource_run [OF assms(1)] by blast
  obtain g' where g': "evaluate_resource utc x (with_promotions ps e) = Inr g'"
    using evaluate_resource_run [OF assms(2)] by blast
  have v: "valid_registry_entry e" "valid_registry_entry (with_promotions ps e)"
    using assms by (simp_all add: gate_wf_def)
  note eqs = g [unfolded evaluate_resource_eq [OF v(1)]]
    g' [unfolded evaluate_resource_eq [OF v(2)] current_with_promotions gates_ignore_promotions]
  have "ga_qualified g' = ga_qualified g \<and> verdict g' = verdict g"
    using eqs by (auto split: if_splits dest: compatibility_verdict
        simp: verdict_def shut_gate_def gate_of_def)
  with g g' show ?thesis by blast
qed

theorem promotions_never_admit_witness:
  "\<exists>g g'. evaluate_resource no_utc (route_inputs (client_grant None None) empty_binding) (route_entry ''r-one'' []) = Inr g
     \<and> evaluate_resource no_utc (route_inputs (client_grant None None) empty_binding)
           (route_entry ''r-one'' [open_promotion]) = Inr g'
     \<and> ga_qualified g' = ga_qualified g \<and> verdict g' = verdict g"
proof -
  have "route_entry ''r-one'' [open_promotion] = with_promotions [open_promotion] (route_entry ''r-one'' [])"
    by (simp add: route_entry_def with_promotions_def)
  then show ?thesis
    using promotions_never_admit [OF route_inputs_wf(1) [of "client_grant None None" empty_binding],
        where ps = "[open_promotion]"] route_inputs_wf(2) by simp
qed

text \<open>
  C23: The compatibility matrix is read with the documented precedence. With at most one cell per key,
  a feature is served exactly if the cell of the resource's own variant says PASS or PARTIAL, or there
  is no such cell and the backend-level cell does; a cell of another variant, or of any variant for an
  unqualified resource, never counts, and a missing cell fails closed.
\<close>

theorem compatibility_cell_precedence:
  assumes "distinct (map (\<lambda>c. (cc_channel c, cc_provider c, cc_model c, cc_variant c, cc_feature c)) cells)"
  shows "feature_served cells r f \<longleftrightarrow>
    (if ri_variant r \<noteq> None \<and> (\<exists>c \<in> set cells. cell_applies r f c \<and> cc_variant c = ri_variant r)
     then \<exists>c \<in> set cells. cell_applies r f c \<and> cc_variant c = ri_variant r \<and> cc_value c \<in> {Cell_PASS, Cell_PARTIAL}
     else \<exists>c \<in> set cells. cell_applies r f c \<and> cc_variant c = None \<and> cc_value c \<in> {Cell_PASS, Cell_PARTIAL})"
proof -
  have unique: "c = d" if "c \<in> set cells" "d \<in> set cells" "cell_applies r f c" "cell_applies r f d"
      "cc_variant c = cc_variant d" for c d
    using that assms by (auto simp: distinct_map cell_applies_def dest!: inj_onD [of _ _ c d])
  have last: "last_or None (applicable r f v cells) = Some c \<longleftrightarrow>
      c \<in> set cells \<and> cell_applies r f c \<and> cc_variant c = v" for c v
  proof
    assume l: "last_or None (applicable r f v cells) = Some c"
    then have "c \<in> set (applicable r f v cells)" by (auto simp: last_or_def split: if_splits intro: last_in_set)
    then show "c \<in> set cells \<and> cell_applies r f c \<and> cc_variant c = v" by (simp add: applicable_def)
  next
    assume c: "c \<in> set cells \<and> cell_applies r f c \<and> cc_variant c = v"
    then have "c \<in> set (applicable r f v cells)" by (simp add: applicable_def)
    then have ne: "applicable r f v cells \<noteq> []" by auto
    have "last (applicable r f v cells) \<in> set cells \<and> cell_applies r f (last (applicable r f v cells))
        \<and> cc_variant (last (applicable r f v cells)) = v"
      using last_in_set [OF ne] unfolding applicable_def set_filter by blast
    with c have "last (applicable r f v cells) = c" by (blast intro: unique)
    with ne show "last_or None (applicable r f v cells) = Some c" by (simp add: last_or_def)
  qed
  have none: "last_or None (applicable r f v cells) = None \<longleftrightarrow>
      \<not> (\<exists>c \<in> set cells. cell_applies r f c \<and> cc_variant c = v)" for v
    by (auto simp: last_or_def applicable_def filter_empty_conv)
  let ?usable = "\<lambda>c. cc_value c \<in> {Cell_PASS, Cell_PARTIAL}"
  have usable: "(\<exists>c \<in> set_option (last_or None (applicable r f v cells)). ?usable c) \<longleftrightarrow>
      (\<exists>c \<in> set cells. cell_applies r f c \<and> cc_variant c = v \<and> ?usable c)" for v
    unfolding Bex_def elem_set last by blast
  have pick: "lookup_cell cells r f =
      last_or None (applicable r f (if ri_variant r \<noteq> None \<and> last_or None (applicable r f (ri_variant r) cells) \<noteq> None
                                    then ri_variant r else None) cells)"
    by (cases "ri_variant r") (simp_all add: lookup_cell_eq Let_def)
  show ?thesis unfolding feature_served_def pick usable none by (auto split: if_splits)
qed

definition matrix_cell :: "string option \<Rightarrow> cell_value \<Rightarrow> compatibility_cell" where
  "matrix_cell variant v = \<lparr>cc_channel = Ch_server_direct_http, cc_provider = ''zai'', cc_model = ''m-two'',
     cc_feature = Fe_streaming, cc_value = v, cc_adapter = ''adapter'', cc_adapter_version = ''1'',
     cc_evidence = sample_evidence, cc_variant = variant\<rparr>"

theorem compatibility_cell_precedence_witness:
  "\<not> feature_served [matrix_cell None Cell_PASS, matrix_cell (Some ''base'') Cell_UNSUPPORTED]
       (route_resource ''r-one'' (Some ''base'')) Fe_streaming
   \<and> feature_served [matrix_cell None Cell_PASS, matrix_cell (Some ''base'') Cell_UNSUPPORTED]
       (route_resource ''r-one'' None) Fe_streaming"
proof -
  let ?cells = "[matrix_cell None Cell_PASS, matrix_cell (Some ''base'') Cell_UNSUPPORTED]"
  have "distinct (map (\<lambda>c. (cc_channel c, cc_provider c, cc_model c, cc_variant c, cc_feature c)) ?cells)"
    by (simp add: matrix_cell_def)
  note p = compatibility_cell_precedence [OF this]
  show ?thesis unfolding p by (simp add: matrix_cell_def route_resource_def cell_applies_def)
qed

end
