(* ===== verification/Route_Spec.thy ===== *)
theory Route_Spec
  imports Routing Route_Gate_Spec "HOL-Library.Sublist"
begin

text \<open>
  What a route decision and an admission guarantee: targets come from open gates of the registry,
  pins are honoured or reported, and the selection inside a decision is the one of the selector.
\<close>

section \<open>Well-formed requests and the gates of their resources\<close>

definition route_wf :: "route_request \<Rightarrow> bool" where
  \<comment> \<open>what the contracts of the registry snapshot and the catalog give\<close>
  "route_wf q =
     (list_all valid_registry_entry (gs_entries (rq_registry q))
      \<and> distinct (map entry_id (gs_entries (rq_registry q)))
      \<and> distinct (map ce_identity (mc_entries (rq_catalog q))))"

definition inputs_for :: "route_request \<Rightarrow> task_requirement \<Rightarrow> resource_registry_entry \<Rightarrow> gate_inputs" where
  "inputs_for q req e =
     (gate_inputs_of q req (rq_request q) e)
       \<lparr>gi_reasoning_required := rq_candidates q \<noteq> None
          \<and> list_ex (candidate_requires_reasoning q e) (mc_entries (rq_catalog q)),
        gi_require_effort := rq_require_effort q\<rparr>"

abbreviation seen_entry :: "route_request \<Rightarrow> resource_registry_entry \<Rightarrow> resource_registry_entry" where
  "seen_entry q e \<equiv> current_entry e (at_of q)"

definition shut_at ::
  "route_env \<Rightarrow> route_request \<Rightarrow> task_requirement \<Rightarrow> resource_registry_entry \<Rightarrow> route_stage option" where
  "shut_at nv q req e = first_shut (nv_utc nv) (inputs_for q req e) (seen_entry q e)"

definition serves ::
  "route_env \<Rightarrow> route_request \<Rightarrow> task_requirement \<Rightarrow> resource_registry_entry \<Rightarrow> model_identity list" where
  \<comment> \<open>the identities that an open resource serves\<close>
  "serves nv q req e =
     (if shut_at nv q req e = None then served_identities (inputs_for q req e) (seen_entry q e) else [])"

definition the_gate ::
  "route_env \<Rightarrow> route_request \<Rightarrow> task_requirement \<Rightarrow> resource_registry_entry \<Rightarrow> resource_gate" where
  "the_gate nv q req e = projr (route_gate nv q req e)"

lemma inputs_for_simps [simp]:
  "gi_catalog (inputs_for q req e) = rq_catalog q" "gi_evaluated_at (inputs_for q req e) = at_of q"
  "gi_effective (inputs_for q req e) = effective_of q" "gi_assurances (inputs_for q req e) = rq_assurances q"
  "gi_request (inputs_for q req e) = rq_request q" "gi_reports (inputs_for q req e) = reports_of q"
  "gi_requirement (inputs_for q req e) = req"
  by (simp_all add: inputs_for_def gate_inputs_of_def)

lemma route_wf_gate: "route_wf q \<Longrightarrow> e \<in> set (gs_entries (rq_registry q)) \<Longrightarrow> gate_wf (inputs_for q req e) e"
  by (simp add: route_wf_def gate_wf_def list_all_iff)

lemma the_gate_run:
  assumes "route_wf q" and "e \<in> set (gs_entries (rq_registry q))"
  shows "route_gate nv q req e = Inr (the_gate nv q req e)"
    and "gate_outcome (inputs_for q req e) (seen_entry q e)
           (sources_where (promotion_running (at_of q)) (seen_entry q e)) (shut_at nv q req e) (the_gate nv q req e)"
proof -
  have "route_gate nv q req e = evaluate_resource (nv_utc nv) (inputs_for q req e) e"
    by (simp add: route_gate_def inputs_for_def)
  with evaluate_resource_run [OF route_wf_gate [OF assms], of "nv_utc nv"]
  obtain g where g: "route_gate nv q req e = Inr g"
    "gate_outcome (inputs_for q req e) (seen_entry q e)
       (sources_where (promotion_running (at_of q)) (seen_entry q e)) (shut_at nv q req e) g"
    by (auto simp: shut_at_def)
  then show "route_gate nv q req e = Inr (the_gate nv q req e)"
    "gate_outcome (inputs_for q req e) (seen_entry q e)
       (sources_where (promotion_running (at_of q)) (seen_entry q e)) (shut_at nv q req e) (the_gate nv q req e)"
    by (simp_all add: the_gate_def)
qed

lemma the_gate_facts:
  assumes "route_wf q" and "e \<in> set (gs_entries (rq_registry q))"
  shows "ga_entry (the_gate nv q req e) = seen_entry q e"
    and "ga_stage (the_gate nv q req e) = shut_at nv q req e"
    and "ga_qualified (the_gate nv q req e) \<longleftrightarrow> shut_at nv q req e = None"
    and "ga_qualified (the_gate nv q req e) \<Longrightarrow> ga_bound_identities (the_gate nv q req e) = serves nv q req e"
    and "gate_id (the_gate nv q req e) = entry_id e"
    and "gate_details (inputs_for q req e) (the_gate nv q req e)"
    and "ga_promotion_sources (the_gate nv q req e)
           = sources_where (promotion_running (at_of q)) (seen_entry q e)"
  using the_gate_run(2) [OF assms, of req nv]
  by (auto simp: gate_outcome_def serves_def gate_id_def entry_id_def)

definition registry_gates :: "route_env \<Rightarrow> route_request \<Rightarrow> task_requirement \<Rightarrow> resource_gate list" where
  "registry_gates nv q req = map (the_gate nv q req) (sort_key entry_id (gs_entries (rq_registry q)))"

lemma sort_key_map:
  fixes k :: "'b \<Rightarrow> 'c::linorder"
  assumes "\<And>x. x \<in> set xs \<Longrightarrow> k (f x) = j x"
  shows "sort_key k (map f xs) = map f (sort_key j xs)"
  using assms
proof (induction xs)
  case (Cons x xs)
  have "insort_key k (f x) (map f ys) = map f (insort_key j x ys)" if "set ys \<subseteq> set xs" for ys
    using that Cons.prems by (induction ys) auto
  with Cons show ?case by simp
qed simp

lemma route_gates_run:
  assumes "route_wf q"
  shows "route_gates nv q req = Inr (registry_gates nv q req)"
proof -
  have "traverse (route_gate nv q req) (gs_entries (rq_registry q))
      = Inr (map (the_gate nv q req) (gs_entries (rq_registry q)))"
    using assms by (intro traverse_total the_gate_run(1))
  then show ?thesis
    using the_gate_facts(5) [OF assms]
    by (simp add: route_gates_def registry_gates_def sort_key_map [where j = entry_id])
qed

lemma registry_gates_mem:
  "g \<in> set (registry_gates nv q req) \<longleftrightarrow> (\<exists>e \<in> set (gs_entries (rq_registry q)). g = the_gate nv q req e)"
  by (auto simp: registry_gates_def)

definition serving_gate ::
  "route_env \<Rightarrow> route_request \<Rightarrow> task_requirement \<Rightarrow> model_identity \<Rightarrow> resource_gate \<Rightarrow> bool" where
  \<comment> \<open>the gate of a registered resource that serves an identity\<close>
  "serving_gate nv q req i g =
     (\<exists>e \<in> set (gs_entries (rq_registry q)). g = the_gate nv q req e \<and> i \<in> set (serves nv q req e))"

lemma serves_open: "i \<in> set (serves nv q req e) \<Longrightarrow> shut_at nv q req e = None"
  by (simp add: serves_def split: if_splits)

lemma qualified_for_mem:
  assumes "route_wf q"
  shows "g \<in> set (qualified_for (registry_gates nv q req) i) \<longleftrightarrow> serving_gate nv q req i g"
  using the_gate_facts(3,4) [OF assms, of _ nv req] serves_open [of i nv q req]
  by (auto simp: qualified_for_def registry_gates_mem serving_gate_def)

definition routable :: "route_env \<Rightarrow> route_request \<Rightarrow> task_requirement \<Rightarrow> model_identity \<Rightarrow> bool" where
  "routable nv q req i = (\<exists>e \<in> set (gs_entries (rq_registry q)). i \<in> set (serves nv q req e))"

lemma qualified_identities:
  assumes "route_wf q"
  shows "i \<in> set (concat (map ga_bound_identities (filter ga_qualified (registry_gates nv q req))))
    \<longleftrightarrow> routable nv q req i"
  using the_gate_facts(3,4) [OF assms, of _ nv req] serves_open [of i nv q req]
  by (auto simp: registry_gates_mem routable_def)

section \<open>Pins\<close>

definition pinned_to :: "route_request \<Rightarrow> string \<Rightarrow> model_identity \<Rightarrow> bool" where
  \<comment> \<open>a resource and an identity agree with every pin of the request\<close>
  "pinned_to q rid i =
     (pred_option (\<lambda>p. rid = pt_resource_id p \<and> i = pt_model p) (rb_pinned_target (rq_request q))
      \<and> pin_selects (rb_explicit_model (rq_request q)) (rb_explicit_variant (rq_request q)) i)"

lemma entries_unique:
  assumes "route_wf q" "d \<in> set (gs_entries (rq_registry q))" "e \<in> set (gs_entries (rq_registry q))"
    "entry_id d = entry_id e"
  shows "d = e"
  using assms inj_onD [of entry_id "set (gs_entries (rq_registry q))" d e] by (simp add: route_wf_def distinct_map)

lemma gate_ids_unique:
  assumes "route_wf q" "g \<in> set (registry_gates nv q req)" "h \<in> set (registry_gates nv q req)" "gate_id g = gate_id h"
  shows "g = h"
proof -
  obtain d e where de: "d \<in> set (gs_entries (rq_registry q))" "e \<in> set (gs_entries (rq_registry q))"
      "g = the_gate nv q req d" "h = the_gate nv q req e"
    using assms(2,3) by (auto simp: registry_gates_mem)
  with assms(4) have "entry_id d = entry_id e" by (simp add: the_gate_facts(5) [OF assms(1)])
  with de entries_unique [OF assms(1) de(1,2)] show ?thesis by simp
qed

lemma apply_model_pin_routable:
  "set (px_routable (apply_model_pin cat m v x)) = {i \<in> set (px_routable x). pin_selects m v i}"
  by (auto simp: apply_model_pin_def Let_def filter_empty_conv pin_selects_def)

lemma apply_model_pin_gate [simp]: "px_gate (apply_model_pin cat m v x) = px_gate x"
  by (simp add: apply_model_pin_def Let_def)

lemma apply_target_pin_gate:
  "px_gate (apply_target_pin gates pin ids) =
     (case pin of None \<Rightarrow> None | Some p \<Rightarrow> find (\<lambda>g. gate_id g = pt_resource_id p) gates)"
  by (cases pin; cases "find (\<lambda>g. gate_id g = pt_resource_id (the pin)) gates")
    (auto simp: apply_target_pin_def)

lemma pins_gate:
  "px_gate (pins_of q gates) =
     (case rb_pinned_target (rq_request q) of None \<Rightarrow> None
      | Some p \<Rightarrow> find (\<lambda>g. gate_id g = pt_resource_id p) gates)"
  by (simp add: pins_of_def Let_def apply_target_pin_gate)

lemma find_map_in: "(\<And>x. x \<in> set xs \<Longrightarrow> P (f x) = Q x) \<Longrightarrow> find P (map f xs) = map_option f (find Q xs)"
  by (induction xs) auto

lemma find_gate:
  assumes "route_wf q"
  shows "find (\<lambda>g. gate_id g = rid) (registry_gates nv q req) =
    map_option (the_gate nv q req) (find (\<lambda>e. entry_id e = rid) (gs_entries (rq_registry q)))"
proof -
  have "find (\<lambda>g. gate_id g = rid) (registry_gates nv q req)
      = map_option (the_gate nv q req) (find (\<lambda>e. entry_id e = rid) (sort_key entry_id (gs_entries (rq_registry q))))"
    unfolding registry_gates_def by (rule find_map_in) (simp add: the_gate_facts(5) [OF assms])
  with assms show ?thesis by (simp add: route_wf_def find_key_sorted)
qed

lemma target_pin_routable:
  assumes "route_wf q"
  shows "i \<in> set (px_routable (apply_target_pin (registry_gates nv q req) pin
           (remdups (concat (map ga_bound_identities (filter ga_qualified (registry_gates nv q req)))))))
    \<longleftrightarrow> (\<exists>e \<in> set (gs_entries (rq_registry q)). i \<in> set (serves nv q req e)
          \<and> pred_option (\<lambda>p. entry_id e = pt_resource_id p \<and> i = pt_model p) pin)"
proof (cases pin)
  case None
  then show ?thesis
    using qualified_identities [OF assms, of i nv req] by (simp add: apply_target_pin_def routable_def)
next
  case (Some p)
  let ?find = "find (\<lambda>e. entry_id e = pt_resource_id p) (gs_entries (rq_registry q))"
  show ?thesis
  proof (cases ?find)
    case None
    then have none: "entry_id d \<noteq> pt_resource_id p" if "d \<in> set (gs_entries (rq_registry q))" for d
      using that by (auto simp: find_None_iff)
    have "px_routable (apply_target_pin (registry_gates nv q req) pin ids) = []" for ids
      by (simp add: apply_target_pin_def find_gate [OF assms] Some None)
    with Some none show ?thesis by auto
  next
    case e: (Some e)
    then have mem: "e \<in> set (gs_entries (rq_registry q))" "entry_id e = pt_resource_id p"
      by (auto simp: find_Some_iff)
    have unique: "d = e" if "d \<in> set (gs_entries (rq_registry q))" "entry_id d = pt_resource_id p" for d
      using entries_unique [OF assms that(1) mem(1)] that(2) mem(2) by simp
    note facts = the_gate_facts [OF assms mem(1), where nv = nv and req = req]
    show ?thesis
    proof (cases "shut_at nv q req e = None")
      case True
      with Some e mem facts(3,4) show ?thesis
        by (auto simp: apply_target_pin_def find_gate [OF assms] dest: unique)
    next
      case False
      then have "serves nv q req d = []" if "d \<in> set (gs_entries (rq_registry q))" "entry_id d = pt_resource_id p" for d
        using unique [OF that] False unfolding serves_def by (simp only: if_False)
      moreover have "px_routable (apply_target_pin (registry_gates nv q req) pin ids) = []" for ids
        using False facts(3) by (simp add: apply_target_pin_def find_gate [OF assms] Some e)
      ultimately show ?thesis by (auto simp: Some)
    qed
  qed
qed

lemma pins_routable:
  assumes "route_wf q"
  shows "i \<in> set (px_routable (pins_of q (registry_gates nv q req))) \<longleftrightarrow>
    (\<exists>e \<in> set (gs_entries (rq_registry q)). i \<in> set (serves nv q req e) \<and> pinned_to q (entry_id e) i)"
  using target_pin_routable [OF assms, of i nv req "rb_pinned_target (rq_request q)"]
  by (auto simp: pins_of_def Let_def apply_model_pin_routable pinned_to_def)

section \<open>The selection inside a decision\<close>

lemma mk_catalog_Inr_eq: "mk_catalog c = Inr c' \<Longrightarrow> c' = c"
  by (auto simp: mk_catalog_def bind_r_Inr_iff split: if_splits)

lemma restrict_identity:
  "restrict_effort gs e = Inr e' \<Longrightarrow> ce_identity e' = ce_identity e"
  "restrict_bindings gs e = Inr e' \<Longrightarrow> ce_identity e' = ce_identity e"
  by (auto simp: restrict_effort_def restrict_bindings_def bind_r_Inr_iff mk_entry_Inr
      split: list.splits if_splits)

lemma runtime_entry_identity: "runtime_entry q gates e = Inr e' \<Longrightarrow> ce_identity e' = ce_identity e"
  by (auto simp: runtime_entry_def Let_def bind_r_Inr_iff mk_entry_Inr dest!: restrict_identity)

lemma traverse_identities:
  assumes "traverse f xs = Inr ys" and "\<And>x y. f x = Inr y \<Longrightarrow> ce_identity y = ce_identity x"
  shows "map ce_identity ys = map ce_identity xs"
  using assms by (auto simp: traverse_Inr_iff list_all2_conv_all_nth intro!: nth_equalityI)

lemma narrowed_identities:
  assumes "narrowed_catalog q keys gates = Inr c"
  shows "ce_identity ` set (mc_entries c) = {i \<in> ce_identity ` set (mc_entries (rq_catalog q)). i \<in> set keys
      \<and> pred_option (\<lambda>cs. i \<in> set cs) (rq_candidates q)}"
    and "mc_catalog_version c = mc_catalog_version (rq_catalog q)"
proof -
  let ?keys = "case rq_candidates q of None \<Rightarrow> keys | Some cs \<Rightarrow> filter (\<lambda>i. i \<in> set cs) keys"
  let ?kept = "filter (\<lambda>e. ce_identity e \<in> set ?keys) (mc_entries (rq_catalog q))"
  obtain es where es: "(if mc_catalog_version (rq_catalog q) = None then traverse (runtime_entry q gates) ?kept
        else Inr ?kept) = Inr es"
      "c = \<lparr>mc_catalog_version = mc_catalog_version (rq_catalog q), mc_updated_on = mc_updated_on (rq_catalog q),
            mc_entries = sort_key entry_key es\<rparr>"
    using assms by (auto simp: narrowed_catalog_def Let_def bind_r_Inr_iff dest!: mk_catalog_Inr_eq)
  have "map ce_identity es = map ce_identity ?kept"
  proof (cases "mc_catalog_version (rq_catalog q) = None")
    case True
    with es(1) show ?thesis using traverse_identities runtime_entry_identity by (metis (no_types, lifting))
  next
    case False
    then have "?kept = es" using es(1) by (simp only: False if_False sum.inject)
    then show ?thesis by simp
  qed
  then have "ce_identity ` set es = ce_identity ` set ?kept" by (metis list.set_map)
  with es(2) show "ce_identity ` set (mc_entries c) = {i \<in> ce_identity ` set (mc_entries (rq_catalog q)).
      i \<in> set keys \<and> pred_option (\<lambda>cs. i \<in> set cs) (rq_candidates q)}"
    by (cases "rq_candidates q") auto
  show "mc_catalog_version c = mc_catalog_version (rq_catalog q)" by (simp add: es(2))
qed

lemma mk_decision_keeps:
  "mk_decision d = Inr d' \<Longrightarrow> sd_selected d' = sd_selected d \<and> sd_catalog_version d' = sd_catalog_version d
     \<and> sd_excluded d' = sd_excluded d \<and> sd_alternatives d' = sd_alternatives d"
  by (auto simp: mk_decision_def bind_r_Inr_iff)

lemma rank_candidates_set:
  assumes "rank_candidates entries order cs = Inr ranked"
  shows "set ranked = set cs"
proof -
  obtain keyed where k: "traverse (\<lambda>c. bind_r (effort_by_identity entries (cv_identity c)) (\<lambda>r.
      Inr (candidate_ranking_key c order r, c))) cs = Inr keyed" "ranked = map snd (sort_key fst keyed)"
    using assms by (auto simp: rank_candidates_def bind_r_Inr_iff)
  have "map snd keyed = cs"
  proof -
    have "list_all2 (\<lambda>c k. c = snd k) cs keyed"
      using k(1) unfolding traverse_Inr_iff by (rule list_all2_mono) (auto simp: bind_r_Inr_iff)
    then show ?thesis by (auto simp: list_all2_conv_all_nth intro!: nth_equalityI)
  qed
  then have "snd ` set keyed = set cs" by (metis list.set_map)
  with k(2) show ?thesis by simp
qed

lemma assemble_selected:
  assumes "assemble_evaluations zs catalog req policy at evs pid pver = Inr d" and "sd_selected d = Some c"
  shows "c \<in> set evs" and "cv_eligible c" and "cv_identity c \<in> ce_identity ` set (mc_entries catalog)"
proof -
  let ?sorted = "sort_key (\<lambda>c. identity_key (cv_identity c)) evs"
  obtain ranked where ranked: "rank_candidates (sort_key entry_key (mc_entries catalog)) (sp_preference_order policy)
        (filter cv_eligible ?sorted) = Inr ranked" "sd_selected d = (case ranked of [] \<Rightarrow> None | c # _ \<Rightarrow> Some c)"
    using assms(1)
    by (auto simp: assemble_evaluations_def Let_def bind_r_Inr_iff dest!: mk_decision_keeps split: if_splits)
  then have "c \<in> set ranked" using assms(2) by (cases ranked) auto
  then have mem: "c \<in> set (filter cv_eligible ?sorted)" using rank_candidates_set [OF ranked(1)] by simp
  then show "c \<in> set evs" "cv_eligible c" by auto
  have "set (map entry_key (sort_key entry_key (mc_entries catalog)))
      = set (map (\<lambda>c. identity_key (cv_identity c)) evs)"
    using assms(1) by (auto simp: assemble_evaluations_def Let_def split: if_splits)
  with \<open>c \<in> set evs\<close> have "identity_key (cv_identity c) \<in> entry_key ` set (mc_entries catalog)" by auto
  then show "cv_identity c \<in> ce_identity ` set (mc_entries catalog)"
    by (auto simp: entry_key_def)
qed

lemma run_selection_selected:
  assumes "run_selection nv q catalog req pid sn = Inr d" and "sd_selected d = Some c"
  shows "cv_identity c \<in> ce_identity ` set (mc_entries catalog)" and "cv_eligible c"
  using assms by (auto simp: run_selection_def select_model_def bind_r_Inr_iff dest: assemble_selected)

section \<open>The gates behind a selected identity\<close>

lemma fold_r_prefix:
  assumes "fold_r f s xs = Inr s'" and "P done s"
    and "\<And>ys x s t. x \<in> set xs \<Longrightarrow> P ys s \<Longrightarrow> f s x = Inr t \<Longrightarrow> P (ys @ [x]) t"
  shows "P (done @ xs) s'"
  using assms
proof (induction xs arbitrary: s "done")
  case (Cons x xs)
  then obtain t where t: "f s x = Inr t" "fold_r f t xs = Inr s'" by (auto simp: bind_r_Inr_iff)
  with Cons.prems(2,3) have "P (done @ [x]) t" by auto
  from Cons.IH [OF t(2) this] Cons.prems(3) show ?case by simp
qed simp

lemma fold_r_step: "fold_r f s xs = Inr t \<Longrightarrow> x \<in> set xs \<Longrightarrow> \<exists>u v. f u x = Inr v"
  by (induction xs arbitrary: s) (auto simp: bind_r_Inr_iff)

definition pin_admits :: "resource_gate option \<Rightarrow> resource_gate \<Rightarrow> bool" where
  "pin_admits pinned g = pred_option (\<lambda>p. gate_id g = gate_id p) pinned"

definition competing :: "route_request \<Rightarrow> resource_gate option \<Rightarrow> model_identity \<Rightarrow> route_candidate \<Rightarrow> bool" where
  \<comment> \<open>a resource that competes for an identity was selected for exactly that identity\<close>
  "competing q pinned i k =
     (pin_admits pinned (rk_gate k) \<and> pred_option (\<lambda>cs. i \<in> set cs) (rq_candidates q)
      \<and> cv_identity (rk_evaluation k) = i \<and> cv_eligible (rk_evaluation k))"

lemma note_rejection_candidates:
  "note_rejection g e c s = Inr t \<Longrightarrow> ks_candidates t = ks_candidates s"
  by (auto simp: note_rejection_def Let_def bind_r_Inr_iff split: option.splits if_splits)

lemma pin_admits_neg: "(case pinned of None \<Rightarrow> False | Some p \<Rightarrow> gate_id g \<noteq> gate_id p) \<longleftrightarrow> \<not> pin_admits pinned g"
  by (cases pinned) (simp_all add: pin_admits_def)

lemma scan_gate_candidates:
  assumes "scan_gate nv q one req pid pinned i s g = Inr t" and "rq_candidates one = rq_candidates q"
  shows "ks_candidates t = ks_candidates s
    \<or> (\<exists>k. ks_candidates t = ks_candidates s @ [k] \<and> rk_gate k = g \<and> competing q pinned i k)"
proof (cases "pin_admits pinned g")
  case False
  with assms(1) show ?thesis unfolding scan_gate_def pin_admits_neg by simp
next
  case True
  obtain local where local: "narrowed_catalog one [i] [g] = Inr local"
    using assms(1) True unfolding scan_gate_def pin_admits_neg by (auto simp: bind_r_Inr_iff)
  show ?thesis
  proof (cases "mc_entries local")
    case Nil
    with assms(1) True local show ?thesis unfolding scan_gate_def pin_admits_neg by simp
  next
    case (Cons e es)
    then have "ce_identity e \<in> ce_identity ` set (mc_entries local)" by simp
    then have cand: "pred_option (\<lambda>cs. i \<in> set cs) (rq_candidates q)"
      unfolding narrowed_identities(1) [OF local] by (auto simp: assms(2))
    have only: "cv_identity c = i \<and> cv_eligible c"
      if "run_selection nv q local req pid sn = Inr d" "sd_selected d = Some c" for sn d c
      using run_selection_selected [OF that] unfolding narrowed_identities(1) [OF local] by simp
    show ?thesis
      using assms(1) True local Cons cand unfolding scan_gate_def pin_admits_neg
      by (auto simp: bind_r_Inr_iff Let_def competing_def split: if_splits option.splits list.splits
          dest!: note_rejection_candidates only)
  qed
qed

lemma scan_candidates:
  assumes "fold_r (scan_gate nv q one req pid pinned i)
      \<lparr>ks_candidates = [], ks_fallback = None, ks_fallback_evaluation = None, ks_exclusions = []\<rparr> gs = Inr s"
    and "rq_candidates one = rq_candidates q"
  shows "subseq (map rk_gate (ks_candidates s)) gs" and "list_all (competing q pinned i) (ks_candidates s)"
proof -
  let ?P = "\<lambda>ys s. subseq (map rk_gate (ks_candidates s)) ys \<and> list_all (competing q pinned i) (ks_candidates s)"
  have "?P ([] @ gs) s"
  proof (rule fold_r_prefix [where P = ?P, OF assms(1)])
    fix ys x s t
    assume "?P ys s" "scan_gate nv q one req pid pinned i s x = Inr t"
    with scan_gate_candidates [OF this(2) assms(2)] show "?P (ys @ [x]) t"
      by (auto intro: list_emb_append_mono list_emb_prefix)
  qed simp
  then show "subseq (map rk_gate (ks_candidates s)) gs" "list_all (competing q pinned i) (ks_candidates s)"
    by simp_all
qed

lemma subseq_set: "subseq xs ys \<Longrightarrow> set xs \<subseteq> set ys"
  by (auto simp: subseq_conv_nths dest: in_set_nthsD)

definition backs ::
  "route_request \<Rightarrow> resource_gate option \<Rightarrow> resource_gate list \<Rightarrow> model_identity \<Rightarrow> resource_gate list \<Rightarrow> bool" where
  \<comment> \<open>the gates listed for an identity: some of those that serve it, in agreement with the pin\<close>
  "backs q pinned gates i gs =
     (gs \<noteq> [] \<and> distinct gs \<and> set gs \<subseteq> set (qualified_for gates i) \<and> list_all (pin_admits pinned) gs
      \<and> pred_option (\<lambda>cs. i \<in> set cs) (rq_candidates q))"

lemma mk_route_request_candidates: "mk_route_request q = Inr q' \<Longrightarrow> rq_candidates q' = rq_candidates q"
  by (auto simp: mk_route_request_def apply_task_requirement_def bind_r_Inr_iff Let_def split: if_splits option.splits)

lemma scan_key_run:
  assumes "scan_key nv q req pid pinned gates u i = Inr v"
  obtains single one s where "mk_route_request (q\<lparr>rq_catalog := single\<rparr>) = Inr one"
    "fold_r (scan_gate nv q one req pid pinned i)
       \<lparr>ks_candidates = [], ks_fallback = None, ks_fallback_evaluation = None, ks_exclusions = []\<rparr>
       (qualified_for gates i) = Inr s"
    "us_exclusions v = us_exclusions u @ ks_exclusions s"
    "us_gates v = (case sort_key rk_key (ks_candidates s) of [] \<Rightarrow> us_gates u
       | winner # rest \<Rightarrow> us_gates u @ [(i, map rk_gate (winner # rest))])"
proof -
  obtain entry where entry: "find (\<lambda>e. ce_identity e = i) (mc_entries (rq_catalog q)) = Some entry"
    using assms by (cases "find (\<lambda>e. ce_identity e = i) (mc_entries (rq_catalog q))") (simp_all add: scan_key_def)
  obtain single one s where s: "mk_route_request (q\<lparr>rq_catalog := single\<rparr>) = Inr one"
      "fold_r (scan_gate nv q one req pid pinned i)
         \<lparr>ks_candidates = [], ks_fallback = None, ks_fallback_evaluation = None, ks_exclusions = []\<rparr>
         (qualified_for gates i) = Inr s"
      "(let u = u\<lparr>us_exclusions := us_exclusions u @ ks_exclusions s\<rparr> in
        case sort_key rk_key (ks_candidates s) of
            winner # rest \<Rightarrow>
              Inr (u\<lparr>us_entries := us_entries u @ [rk_entry winner],
                     us_gates := us_gates u @ [(i, map rk_gate (winner # rest))],
                     us_evaluations := us_evaluations u @ [rk_evaluation winner]\<rparr>)
          | [] \<Rightarrow>
              (case ks_fallback s of
                 None \<Rightarrow> Inr u
               | Some f \<Rightarrow>
                   (case ks_fallback_evaluation s of
                      None \<Rightarrow> Inl (rt_exn ''resource evaluation'')
                    | Some c \<Rightarrow>
                        Inr (u\<lparr>us_entries := us_entries u @ [f],
                               us_evaluations := us_evaluations u @ [c]\<rparr>)))) = Inr v"
    using assms unfolding scan_key_def entry option.case bind_r_Inr_iff by blast
  have "us_exclusions v = us_exclusions u @ ks_exclusions s
    \<and> us_gates v = (case sort_key rk_key (ks_candidates s) of [] \<Rightarrow> us_gates u
       | winner # rest \<Rightarrow> us_gates u @ [(i, map rk_gate (winner # rest))])"
  proof (cases "sort_key rk_key (ks_candidates s)")
    case Nil
    then show ?thesis
      using s(3) by (cases "ks_fallback s"; cases "ks_fallback_evaluation s") (auto simp: Let_def)
  next
    case (Cons w ws)
    then show ?thesis using s(3) by (auto simp: Let_def)
  qed
  with that s(1,2) show thesis by blast
qed

lemma scan_key_gates:
  assumes "scan_key nv q req pid pinned gates u i = Inr v" and "distinct gates"
  shows "(us_gates v = us_gates u
      \<or> (\<exists>gs. us_gates v = us_gates u @ [(i, gs)] \<and> backs q pinned gates i gs))"
proof -
  obtain single one s where s: "mk_route_request (q\<lparr>rq_catalog := single\<rparr>) = Inr one"
      "fold_r (scan_gate nv q one req pid pinned i)
         \<lparr>ks_candidates = [], ks_fallback = None, ks_fallback_evaluation = None, ks_exclusions = []\<rparr>
         (qualified_for gates i) = Inr s"
      "us_gates v = (case sort_key rk_key (ks_candidates s) of [] \<Rightarrow> us_gates u
         | winner # rest \<Rightarrow> us_gates u @ [(i, map rk_gate (winner # rest))])"
    by (rule scan_key_run [OF assms(1)]) (rule that)
  have c: "rq_candidates one = rq_candidates q" using mk_route_request_candidates [OF s(1)] by simp
  note cands = scan_candidates [OF s(2) c]
  have distinct: "distinct (map rk_gate (ks_candidates s))"
    using cands(1) assms(2) by (auto simp: qualified_for_def subseq_conv_nths distinct_nthsI)
  show ?thesis
  proof (cases "sort_key rk_key (ks_candidates s)")
    case Nil
    with s(3) show ?thesis by simp
  next
    case (Cons w ws)
    let ?gs = "map rk_gate (w # ws)"
    have gates: "us_gates v = us_gates u @ [(i, ?gs)]"
      using s(3) by (simp add: Cons)
    have "set ?gs = rk_gate ` set (ks_candidates s)"
      using Cons by (metis list.set_map set_sort)
    moreover have "distinct ?gs"
      using distinct Cons by (metis distinct_map distinct_sort set_sort)
    moreover have "rk_gate ` set (ks_candidates s) \<subseteq> set (qualified_for gates i)"
      using subseq_set [OF cands(1)] by simp
    moreover have "ks_candidates s \<noteq> []" using Cons by auto
    ultimately have "backs q pinned gates i ?gs"
      using cands(2) by (cases "ks_candidates s") (auto simp: backs_def list_all_iff competing_def)
    with gates show ?thesis by blast
  qed
qed

lemma scan_keys_gates:
  assumes "fold_r (scan_key nv q req pid pinned gates) u keys = Inr v" and "us_gates u = []"
    and "distinct gates" and "(i, gs) \<in> set (us_gates v)"
  shows "i \<in> set keys" and "backs q pinned gates i gs"
proof -
  let ?P = "\<lambda>ys u. \<forall>(i, gs) \<in> set (us_gates u). i \<in> set ys \<and> backs q pinned gates i gs"
  have "?P ([] @ keys) v"
  proof (rule fold_r_prefix [where P = ?P, OF assms(1)])
    fix ys x s t
    assume "?P ys s" "scan_key nv q req pid pinned gates s x = Inr t"
    with scan_key_gates [OF this(2) assms(3)] show "?P (ys @ [x]) t" by auto
  qed (simp add: assms(2))
  with assms(4) show "i \<in> set keys" "backs q pinned gates i gs" by auto
qed

lemma gate_ids_distinct: "route_wf q \<Longrightarrow> distinct (map gate_id (registry_gates nv q req))"
proof -
  assume wf: "route_wf q"
  have "map gate_id (registry_gates nv q req) = map entry_id (sort_key entry_id (gs_entries (rq_registry q)))"
    using the_gate_facts(5) [OF wf] by (simp add: registry_gates_def)
  moreover have "distinct (map entry_id (sort_key entry_id (gs_entries (rq_registry q))))"
    using wf by (simp add: route_wf_def distinct_map)
  ultimately show ?thesis by simp
qed

lemma registry_gates_distinct: "route_wf q \<Longrightarrow> distinct (registry_gates nv q req)"
  using gate_ids_distinct [of q nv req] by (simp add: distinct_map)

definition select_level where
  "select_level nv q =
     (if mc_catalog_version (rq_catalog q) = None then select_runtime else select_versioned) nv q"

lemma sort_set_keys: "set (sort xs) = set xs" by simp

lemma selected_backs:
  assumes wf: "route_wf q"
    and gates_def: "gates = registry_gates nv q req"
    and level: "select_level nv q req pid px gates = Inr ml"
    and c: "sd_selected (ml_selection ml) = Some c" "ml_gates ml (cv_identity c) = Some gs"
  shows "cv_eligible c" and "cv_identity c \<in> set (px_routable px)"
    and "gs \<noteq> []" and "distinct gs" and "set gs \<subseteq> set (qualified_for gates (cv_identity c))"
    and "pred_option (\<lambda>cs. cv_identity c \<in> set cs) (rq_candidates q)"
    and "mc_catalog_version (rq_catalog q) = None \<Longrightarrow> list_all (pin_admits (px_gate px)) gs"
    and "mc_catalog_version (rq_catalog q) \<noteq> None \<Longrightarrow> gs = sort_key order_key (qualified_for gates (cv_identity c))"
proof -
  have all: "cv_eligible c \<and> cv_identity c \<in> set (px_routable px) \<and> gs \<noteq> [] \<and> distinct gs
      \<and> set gs \<subseteq> set (qualified_for gates (cv_identity c))
      \<and> pred_option (\<lambda>cs. cv_identity c \<in> set cs) (rq_candidates q)
      \<and> (mc_catalog_version (rq_catalog q) = None \<longrightarrow> list_all (pin_admits (px_gate px)) gs)
      \<and> (mc_catalog_version (rq_catalog q) \<noteq> None
          \<longrightarrow> gs = sort_key order_key (qualified_for gates (cv_identity c)))"
  proof (cases "mc_catalog_version (rq_catalog q) = None")
    case True
    with level have level': "select_runtime nv q req pid px gates = Inr ml" by (simp add: select_level_def)
    obtain u cat sel where u: "fold_r (scan_key nv q req pid (px_gate px) gates)
          \<lparr>us_entries = [], us_evaluations = [], us_gates = [], us_exclusions = []\<rparr> (sort (px_routable px)) = Inr u"
        "assemble_evaluations (nv_zones nv) cat req (rq_policy q) (rq_evaluated_at q) (us_evaluations u) pid
           (if rq_profile q \<noteq> None then rq_profile_version q else None) = Inr sel"
        "ml_selection ml = sel" "ml_gates ml = map_of (us_gates u)"
      using level' by (auto simp: select_runtime_def bind_r_Inr_iff)
    have mem: "(cv_identity c, gs) \<in> set (us_gates u)" using c(2) u(4) by (simp add: map_of_SomeD)
    have d: "distinct gates" unfolding gates_def by (rule registry_gates_distinct [OF wf])
    from scan_keys_gates [OF u(1) _ d mem] have "cv_identity c \<in> set (sort (px_routable px))"
        "backs q (px_gate px) gates (cv_identity c) gs" by simp_all
    moreover have "cv_eligible c" using assemble_selected(2) [OF u(2)] c(1) u(3) by simp
    ultimately show ?thesis using True by (simp add: backs_def sort_set_keys)
  next
    case False
    with level have level': "select_versioned nv q req pid px gates = Inr ml" by (simp add: select_level_def)
    then obtain cat sel where s: "narrowed_catalog q (px_routable px) gates = Inr cat"
        "run_selection nv q cat req pid None = Inr sel" "ml_selection ml = sel"
        "ml_gates ml = (\<lambda>i. case qualified_for gates i of [] \<Rightarrow> None | gs \<Rightarrow> Some (sort_key order_key gs))"
      by (auto simp: select_versioned_def bind_r_Inr_iff)
    have sel: "cv_identity c \<in> ce_identity ` set (mc_entries cat)" "cv_eligible c"
      using run_selection_selected [OF s(2)] c(1) s(3) by simp_all
    have gs: "qualified_for gates (cv_identity c) \<noteq> []" "gs = sort_key order_key (qualified_for gates (cv_identity c))"
      using c(2) s(4) by (auto split: list.splits)
    have "distinct gs"
      using registry_gates_distinct [OF wf] by (simp add: gs(2) qualified_for_def gates_def)
    with sel gs False show ?thesis
      unfolding narrowed_identities(1) [OF s(1)] by (simp del: not_None_eq)
  qed
  then show "cv_eligible c" "cv_identity c \<in> set (px_routable px)" "gs \<noteq> []" "distinct gs"
    "set gs \<subseteq> set (qualified_for gates (cv_identity c))"
    "pred_option (\<lambda>cs. cv_identity c \<in> set cs) (rq_candidates q)"
    "mc_catalog_version (rq_catalog q) = None \<Longrightarrow> list_all (pin_admits (px_gate px)) gs"
    "mc_catalog_version (rq_catalog q) \<noteq> None \<Longrightarrow> gs = sort_key order_key (qualified_for gates (cv_identity c))"
    by blast+
qed

section \<open>Targets\<close>

lemma mk_route_target_eq: "mk_route_target t = Inr t' \<Longrightarrow> t' = t"
  by (auto simp: mk_route_target_def bind_r_Inr_iff)

definition target_of :: "resource_gate \<Rightarrow> model_identity \<Rightarrow> route_target \<Rightarrow> bool" where
  "target_of g i t = (tg_resource t = rn_identity (ga_entry g) \<and> tg_model t = i
     \<and> tg_promotion_sources t = ga_promotion_sources g)"

lemma mk_target_of_fields: "mk_target_of g i pid shares effort = Inr t \<Longrightarrow> target_of g i t \<and> tg_shares_pool t = shares"
  by (auto simp: mk_target_of_def Let_def target_of_def dest!: mk_route_target_eq)

lemma traverse_targets:
  assumes "traverse (\<lambda>h. bind_r (target_effort q i h) (\<lambda>effort. mk_target_of h i pid (shares h) effort)) gs = Inr ts"
  shows "list_all2 (\<lambda>g t. target_of g i t \<and> tg_shares_pool t = shares g) gs ts"
  using assms unfolding traverse_Inr_iff
  by (rule list_all2_mono) (auto simp: bind_r_Inr_iff dest: mk_target_of_fields)

definition shares_pool :: "route_target \<Rightarrow> route_target \<Rightarrow> bool" where
  "shares_pool t a = (set (ri_quota_pool_ids (tg_resource a)) \<inter> set (ri_quota_pool_ids (tg_resource t)) \<noteq> {})"

lemma route_targets_run:
  assumes "route_targets q i pid pinned gs = Inr (t, alts)"
  shows "\<exists>g hs. target_of g i t \<and> list_all2 (\<lambda>h a. target_of h i a) hs alts \<and> \<not> tg_shares_pool t
    \<and> list_all (\<lambda>a. tg_shares_pool a = shares_pool t a) alts
    \<and> (case pinned of None \<Rightarrow> gs = g # hs
       | Some p \<Rightarrow> g \<in> set gs \<and> gate_id g = gate_id p \<and> hs = [])"
proof (cases pinned)
  case None
  with assms obtain g hs where gs: "gs = g # hs" by (cases gs) (auto simp: route_targets_def)
  let ?shares = "\<lambda>h. set (ri_quota_pool_ids (rn_identity (ga_entry h)))
      \<inter> set (ri_quota_pool_ids (rn_identity (ga_entry g))) \<noteq> {}"
  obtain effort where e: "traverse (\<lambda>h. bind_r (target_effort q i h) (\<lambda>effort.
        mk_target_of h i pid (?shares h) effort)) hs = Inr alts"
      "mk_target_of g i pid False effort = Inr t"
    using assms None gs by (auto simp: route_targets_def bind_r_Inr_iff Let_def)
  have t: "target_of g i t" "\<not> tg_shares_pool t" using mk_target_of_fields [OF e(2)] by auto
  have alts: "list_all2 (\<lambda>h a. target_of h i a \<and> tg_shares_pool a = ?shares h) hs alts"
    by (rule traverse_targets [OF e(1)])
  then have "list_all2 (\<lambda>h a. target_of h i a) hs alts" by (rule list_all2_mono) simp
  moreover from alts t(1) have "list_all (\<lambda>a. tg_shares_pool a = shares_pool t a) alts"
    by (auto simp: list_all2_conv_all_nth list_all_length shares_pool_def target_of_def)
  ultimately show ?thesis using t gs None by (intro exI [of _ g] exI [of _ hs]) simp
next
  case (Some p)
  obtain g where g: "find (\<lambda>g. gate_id g = gate_id p) gs = Some g"
    using assms Some by (cases "find (\<lambda>g. gate_id g = gate_id p) gs") (auto simp: route_targets_def)
  then have mem: "g \<in> set gs" "gate_id g = gate_id p" by (auto simp: find_Some_iff)
  obtain effort where "mk_target_of g i pid False effort = Inr t" "alts = []"
    using assms Some g by (auto simp: route_targets_def bind_r_Inr_iff)
  with mem mk_target_of_fields Some show ?thesis by (intro exI [of _ g] exI [of _ "[]"]) auto
qed

lemma mk_route_decision_keeps:
  "mk_route_decision sha d = Inr d' \<Longrightarrow> ro_target d' = ro_target d \<and> ro_alternatives d' = ro_alternatives d
     \<and> ro_selection d' = ro_selection d \<and> ro_unroutable d' = ro_unroutable d \<and> ro_exclusions d' = ro_exclusions d
     \<and> ro_status d' = ro_status d \<and> ro_pinned d' = ro_pinned d \<and> ro_expired_promotions d' = ro_expired_promotions d
     \<and> ro_reason_codes d' = ro_reason_codes d"
  by (auto simp: mk_route_decision_def bind_r_Inr_iff v_sorted_safe_ids_Inr map_PStr_eq Let_def split: option.splits)

section \<open>The steps of a decision\<close>

definition route_outcome ::
  "route_env \<Rightarrow> route_request \<Rightarrow> string option \<Rightarrow> pin_outcome \<Rightarrow> model_level \<Rightarrow> target_exclusion list \<Rightarrow>
   string list \<Rightarrow> route_decision result" where
  \<comment> \<open>the decision once the selection, the exclusions of shut gates and the expired promotions are known\<close>
  "route_outcome nv q pid px ml shut expired =
     (let exclusions = sort_key exclusion_sort_key (shut @ ml_exclusions ml);
         unroutable = sort (filter (\<lambda>i. i \<notin> set (px_routable px)) (map ce_identity (mc_entries (rq_catalog q)))) in
     case sd_selected (ml_selection ml) of
       None \<Rightarrow>
         no_solution_decision nv q (ml_selection ml) exclusions unroutable expired
           (sort (remdups (''no_eligible_target'' # px_codes px
              @ (if has_pin q then [''pinned_request_failed''] else [])))) (has_pin q)
     | Some c \<Rightarrow>
         (case ml_gates ml (cv_identity c) of
            None \<Rightarrow> Inl (KeyError ''selected_gates'')
          | Some selected_gates \<Rightarrow>
              bind_r (route_targets q (cv_identity c) pid (px_gate px) selected_gates) (\<lambda>(target, alternatives).
                mk_route_decision (nv_sha nv)
                  \<lparr>ro_status = Route_selected, ro_selection = ml_selection ml,
                    ro_registry_revision = gs_revision (rq_registry q),
                    ro_registry_generated_at = gs_generated_at (rq_registry q),
                    ro_target = Some target, ro_alternatives = alternatives, ro_unroutable = unroutable,
                    ro_exclusions = exclusions, ro_expired_promotions = expired, ro_pinned = has_pin q,
                    ro_reason_codes = [''route_selected''], ro_decision_id = None,
                    ro_schema_version = schema_of q\<rparr>)))"

lemma route_decision_eq:
  assumes wf: "route_wf q" and req: "resolve_requirement q = Inr (req, pid)"
    and gates: "gates = registry_gates nv q req"
  shows "route_request_decision nv q =
    bind_r (select_level nv q req pid (pins_of q gates) gates) (\<lambda>ml.
    bind_r (traverse exclusion_of (filter (\<lambda>g. \<not> ga_qualified g) gates)) (\<lambda>shut.
    bind_r (expired_promotion_sources gates (at_of q)) (\<lambda>expired.
      route_outcome nv q pid (pins_of q gates) ml shut expired)))"
proof -
  have g: "route_gates nv q req = Inr gates" unfolding gates by (rule route_gates_run [OF wf])
  show ?thesis
    unfolding route_request_decision_def req g bind_r.simps prod.case Let_def route_outcome_def select_level_def ..
qed

lemma route_decision_steps:
  assumes wf: "route_wf q" and req: "resolve_requirement q = Inr (req, pid)"
    and run: "route_request_decision nv q = Inr d"
  defines "gates \<equiv> registry_gates nv q req"
  obtains ml shut expired where
    "select_level nv q req pid (pins_of q gates) gates = Inr ml"
    "traverse exclusion_of (filter (\<lambda>g. \<not> ga_qualified g) gates) = Inr shut"
    "expired_promotion_sources gates (at_of q) = Inr expired"
    "ro_selection d = ml_selection ml" "ro_pinned d = has_pin q"
    "ro_exclusions d = sort_key exclusion_sort_key (shut @ ml_exclusions ml)"
    "ro_unroutable d = sort (filter (\<lambda>i. i \<notin> set (px_routable (pins_of q gates)))
       (map ce_identity (mc_entries (rq_catalog q))))"
    "case sd_selected (ml_selection ml) of
       None \<Rightarrow> ro_status d = Route_no_solution \<and> ro_target d = None \<and> ro_alternatives d = []
         \<and> ro_reason_codes d = sort (remdups (''no_eligible_target'' # px_codes (pins_of q gates)
              @ (if has_pin q then [''pinned_request_failed''] else [])))
     | Some c \<Rightarrow> ro_status d = Route_selected
         \<and> (\<exists>gs t. ml_gates ml (cv_identity c) = Some gs \<and> ro_target d = Some t
             \<and> route_targets q (cv_identity c) pid (px_gate (pins_of q gates)) gs = Inr (t, ro_alternatives d))"
proof -
  let ?px = "pins_of q gates"
  obtain ml shut expired where s: "select_level nv q req pid ?px gates = Inr ml"
      "traverse exclusion_of (filter (\<lambda>g. \<not> ga_qualified g) gates) = Inr shut"
      "expired_promotion_sources gates (at_of q) = Inr expired"
    and d: "route_outcome nv q pid ?px ml shut expired = Inr d"
    using run unfolding route_decision_eq [OF wf req meta_eq_to_obj_eq [OF gates_def]] bind_r_Inr_iff by iprover
  show thesis
  proof (cases "sd_selected (ml_selection ml)")
    case None
    note k = d [unfolded route_outcome_def None option.case no_solution_decision_def Let_def, THEN mk_route_decision_keeps,
        unfolded route_decision.select_convs]
    show thesis by (rule that [OF s]) (use k None in \<open>simp_all only: option.case simp_thms\<close>)
  next
    case (Some c)
    then obtain gs where gs: "ml_gates ml (cv_identity c) = Some gs"
      using d by (cases "ml_gates ml (cv_identity c)") (simp_all add: route_outcome_def Some Let_def)
    obtain t alts where t: "route_targets q (cv_identity c) pid (px_gate ?px) gs = Inr (t, alts)"
      using d gs by (cases "route_targets q (cv_identity c) pid (px_gate ?px) gs") (auto simp: route_outcome_def Let_def Some)
    note k = d [unfolded route_outcome_def Some option.case gs t bind_r.simps prod.case Let_def, THEN mk_route_decision_keeps,
        unfolded route_decision.select_convs]
    show thesis by (rule that [OF s]) (use k Some gs t in \<open>simp_all only: option.case simp_thms, blast?\<close>)
  qed
qed

section \<open>Selected targets are executable and honour the pins\<close>

definition executable_target ::
  "route_env \<Rightarrow> route_request \<Rightarrow> task_requirement \<Rightarrow> route_target \<Rightarrow> bool" where
  \<comment> \<open>a registered resource whose gates are open for the model, in agreement with every pin\<close>
  "executable_target nv q req t =
     (\<exists>e \<in> set (gs_entries (rq_registry q)). tg_resource t = rn_identity e
        \<and> tg_model t \<in> set (serves nv q req e) \<and> pinned_to q (entry_id e) (tg_model t))"

definition target_id :: "route_target \<Rightarrow> string" where
  "target_id t = ri_resource_id (tg_resource t)"

lemma pinned_gate:
  assumes "route_wf q" and "i \<in> set (px_routable (pins_of q (registry_gates nv q req)))"
  shows "case px_gate (pins_of q (registry_gates nv q req)) of
      None \<Rightarrow> rb_pinned_target (rq_request q) = None
    | Some g \<Rightarrow> pred_option (\<lambda>p. gate_id g = pt_resource_id p) (rb_pinned_target (rq_request q))"
proof (cases "rb_pinned_target (rq_request q)")
  case None
  then show ?thesis by (simp add: pins_gate)
next
  case (Some p)
  let ?find = "find (\<lambda>g. gate_id g = pt_resource_id p) (registry_gates nv q req)"
  obtain e where e: "e \<in> set (gs_entries (rq_registry q))" "entry_id e = pt_resource_id p"
    using assms(2) Some unfolding pins_routable [OF assms(1)] by (auto simp: pinned_to_def)
  then have "gate_id (the_gate nv q req e) = pt_resource_id p" by (simp add: the_gate_facts(5) [OF assms(1)])
  moreover have "the_gate nv q req e \<in> set (registry_gates nv q req)" using e by (auto simp: registry_gates_mem)
  ultimately obtain g where g: "?find = Some g" by (cases ?find) (auto simp: find_None_iff)
  then have "gate_id g = pt_resource_id p" by (auto simp: find_Some_iff)
  with g show ?thesis by (simp add: pins_gate Some)
qed

lemma pinned_everywhere:
  assumes "route_wf q" and "i \<in> set (px_routable (pins_of q (registry_gates nv q req)))"
    and "pred_option (\<lambda>p. rid = pt_resource_id p) (rb_pinned_target (rq_request q))"
  shows "pinned_to q rid i"
  using assms(2,3) unfolding pins_routable [OF assms(1)]
  by (cases "rb_pinned_target (rq_request q)") (auto simp: pinned_to_def)

lemma serving_target:
  assumes "route_wf q" and "serving_gate nv q req i g" and "target_of g i t" and "pinned_to q (gate_id g) i"
  shows "executable_target nv q req t \<and> tg_model t = i \<and> target_id t = gate_id g"
proof -
  obtain e where e: "e \<in> set (gs_entries (rq_registry q))" "g = the_gate nv q req e" "i \<in> set (serves nv q req e)"
    using assms(2) by (auto simp: serving_gate_def)
  note facts = the_gate_facts [OF assms(1) e(1), where nv = nv and req = req]
  have "rn_identity (ga_entry g) = rn_identity e" using facts(1) e(2) by simp
  with assms(3,4) e facts(5) show ?thesis
    by (auto simp: executable_target_def target_of_def target_id_def gate_id_def)
qed

lemma list_all2_targets:
  assumes "list_all2 (\<lambda>h a. target_of h i a) hs alts"
    and "\<And>h a. h \<in> set hs \<Longrightarrow> target_of h i a \<Longrightarrow> P a \<and> f a = k h"
  shows "list_all P alts \<and> map f alts = map k hs"
  using assms by (induction rule: list_all2_induct) auto

lemma selected_targets:
  assumes wf: "route_wf q" and gates: "gates = registry_gates nv q req"
    and level: "select_level nv q req pid (pins_of q gates) gates = Inr ml"
    and c: "sd_selected (ml_selection ml) = Some c" "ml_gates ml (cv_identity c) = Some gs"
    and run: "route_targets q (cv_identity c) pid (px_gate (pins_of q gates)) gs = Inr (t, alts)"
  shows "list_all (\<lambda>a. executable_target nv q req a \<and> tg_model a = cv_identity c) (t # alts)
    \<and> distinct (map target_id (t # alts)) \<and> \<not> tg_shares_pool t
    \<and> list_all (\<lambda>a. tg_shares_pool a = shares_pool t a) alts
    \<and> (rb_pinned_target (rq_request q) = None \<longrightarrow> map target_id (t # alts) = map gate_id gs)"
proof -
  let ?i = "cv_identity c" and ?px = "pins_of q gates"
  note backs = selected_backs [OF wf gates level c]
  have serving: "serving_gate nv q req ?i g" if "g \<in> set gs" for g
    using backs(5) that qualified_for_mem [OF wf, of g nv req] gates by auto
  obtain g hs where g: "target_of g ?i t" "list_all2 (\<lambda>h a. target_of h ?i a) hs alts" "\<not> tg_shares_pool t"
      "list_all (\<lambda>a. tg_shares_pool a = shares_pool t a) alts"
      "case px_gate ?px of None \<Rightarrow> gs = g # hs | Some p \<Rightarrow> g \<in> set gs \<and> gate_id g = gate_id p \<and> hs = []"
    using route_targets_run [OF run] by blast
  note pin = pinned_gate [OF wf backs(2) [unfolded gates], folded gates]
  have split: "set (g # hs) \<subseteq> set gs"
      "\<forall>h \<in> set (g # hs). pred_option (\<lambda>p. gate_id h = pt_resource_id p) (rb_pinned_target (rq_request q))"
      "distinct (g # hs)" "rb_pinned_target (rq_request q) = None \<Longrightarrow> gs = g # hs"
    using g(5) pin backs(4) by (cases "px_gate ?px"; auto simp: pins_gate split: option.splits)+
  have target: "(executable_target nv q req a \<and> tg_model a = ?i) \<and> target_id a = gate_id h"
    if "h \<in> set (g # hs)" "target_of h ?i a" for h a
  proof -
    have "pinned_to q (gate_id h) ?i"
      using split(2) that(1) by (intro pinned_everywhere [OF wf backs(2) [unfolded gates]]) blast
    moreover have "serving_gate nv q req ?i h" using split(1) that(1) serving by blast
    ultimately show ?thesis using serving_target [OF wf _ that(2)] by blast
  qed
  have alts: "list_all (\<lambda>a. executable_target nv q req a \<and> tg_model a = ?i) alts \<and> map target_id alts = map gate_id hs"
    by (rule list_all2_targets [OF g(2)]) (rule target, simp_all)
  have "inj_on gate_id (set gates)"
    using gate_ids_unique [OF wf] gates by (auto intro!: inj_onI)
  moreover have "set (g # hs) \<subseteq> set gates"
    using split(1) backs(5) by (auto simp: qualified_for_def)
  ultimately have "distinct (map gate_id (g # hs))"
    using split(3) by (auto simp: distinct_map dest: inj_on_subset)
  with target [OF _ g(1)] alts g(3,4) split(4) show ?thesis by simp
qed

section \<open>A concrete request\<close>

definition sample_env :: route_env where
  "sample_env = \<lparr>nv_zones = utc_only, nv_utc = no_utc, nv_sha = (\<lambda>_. replicate 64 CHR ''0'')\<rparr>"

definition route_registry :: registry_snapshot where
  "route_registry = \<lparr>gs_schema_version = 1, gs_revision = 3, gs_generated_at = ''1970-01-01T11:59:00.000Z'',
     gs_entries = [route_entry ''r-one'' [], route_entry ''r-two'' [open_promotion]],
     gs_quota_pools = [\<lparr>qp_pool_id = ''pool-a'', qp_resource_ids = [''r-one'', ''r-two'']\<rparr>]\<rparr>"

definition sample_route :: "client_authorization \<Rightarrow> request_binding \<Rightarrow> route_request" where
  "sample_route client binding =
     \<lparr>rq_catalog = sample_catalog, rq_profiles = TaskProfileCatalog [], rq_registry = route_registry,
       rq_policy = sample_selector_policy, rq_evaluated_at = Aware 43200000000, rq_snapshots = sample_snaps,
       rq_states = [], rq_reports = [], rq_cells = [], rq_admin = open_grant, rq_client = client,
       rq_profile = None, rq_request = binding, rq_profile_version = None, rq_require_effort = False,
       rq_adapter_ids = None, rq_continuation_ids = None, rq_candidates = None, rq_task_requirement = None,
       rq_assurances = [], rq_mi_blocked = {}, rq_mi_channels = []\<rparr>"

definition pin_r_one :: request_binding where
  "pin_r_one = empty_binding\<lparr>rb_pinned_target := Some \<lparr>pt_resource_id = ''r-one'',
     pt_model = ModelIdentity ''zai'' ''m-two'' ''base'', pt_decision_id = None, pt_reasoning_effort = None\<rparr>\<rparr>"

section \<open>Exclusions\<close>

subsection \<open>The codes of the first shut stage\<close>

definition shut_codes :: "iso_parser \<Rightarrow> gate_inputs \<Rightarrow> resource_registry_entry \<Rightarrow> target_code list" where
  \<comment> \<open>what the first shut stage reports: the failures of that stage and of no other\<close>
  "shut_codes utc x e =
     (if bind_identities e (gi_catalog x) = [] then [Tc_capability_unassessed]
      else if \<not> authorized utc (gi_assurances x) (gi_evaluated_at x) (gi_effective x) e
        then authorization_failure_codes utc e (gi_effective x) (gi_assurances x) (Some (gi_evaluated_at x))
      else if unblocked x e = [] then [Tc_resource_blocked]
      else if \<not> available x e then live_availability_codes x e
      else if \<not> compatible x e (gi_reasoning_required x) then fst (compatibility_with x e (gi_reasoning_required x))
      else fst (compatibility_with x e (effort_needed x e (hd (unblocked x e)))))"

lemma compatibility_gate_codes:
  assumes wf: "gate_wf x e0" and bound: "unblocked x e \<noteq> []" and none: "served_identities x e = []"
    and run: "compatibility_gate x e (unblocked x e) ps = Inr g"
  shows "ga_reason_codes g = fst (compatibility_with x e
    (if compatible x e (gi_reasoning_required x) then effort_needed x e (hd (unblocked x e)) else gi_reasoning_required x))"
proof (cases "compatible x e (gi_reasoning_required x)")
  case False
  then have "fst (compatibility_with x e (gi_reasoning_required x)) \<noteq> []" by (simp add: compatibility_Nil)
  with run False show ?thesis
    by (auto simp: compatibility_gate_def Let_def shut_gate_def split: prod.splits)
next
  case True
  then have codes: "fst (compatibility_with x e (gi_reasoning_required x)) = []" by (simp add: compatibility_Nil)
  obtain i rest where first_id: "unblocked x e = i # rest" using bound by (cases "unblocked x e") auto
  have fails: "\<not> compatible x e (effort_needed x e j)" if "j \<in> set (unblocked x e)" for j
    using none that by (auto simp: served_identities_def filter_empty_conv)
  have effort: "gi_require_effort x \<or> list_ex (\<lambda>i. i \<in> gi_mi_effort x) (unblocked x e)"
  proof (rule ccontr)
    assume "\<not> ?thesis"
    then have "effort_needed x e i = gi_reasoning_required x" by (intro effort_needed_only) (auto simp: first_id list_ex_iff)
    with fails [of i] True show False by (simp add: first_id)
  qed
  let ?out = "map (\<lambda>i. (i, compatibility_with x e (effort_needed x e i))) (unblocked x e)"
  have cat: "set (unblocked x e) \<subseteq> ce_identity ` set (mc_entries (gi_catalog x))"
    using bind_identities_catalog by (auto simp: unblocked_def)
  have shut: "filter (\<lambda>(_, f). fst f = []) ?out = []"
    using fails by (auto simp: filter_empty_conv compatibility_Nil)
  have first: "find (\<lambda>(_, f). fst f \<noteq> []) ?out = Some (i, compatibility_with x e (effort_needed x e i))"
    using fails [of i] by (simp add: first_id compatibility_Nil)
  have hd: "hd (unblocked x e) = i" by (simp add: first_id)
  obtain cs feature val where v: "compatibility_with x e (effort_needed x e i) = (cs, feature, val)"
    by (cases "compatibility_with x e (effort_needed x e i)")
  show ?thesis
    using run True codes effort shut first v hd
    by (simp add: compatibility_gate_def Let_def traverse_effort [OF wf cat] shut_gate_def
        del: map_map filter_map list_ex_iff) auto
qed

lemma evaluate_resource_codes:
  assumes wf: "gate_wf x e" and run: "evaluate_resource utc x e = Inr g"
    and shut: "first_shut utc x (current_entry e (gi_evaluated_at x)) \<noteq> None"
  shows "ga_reason_codes g = shut_codes utc x (current_entry e (gi_evaluated_at x))"
proof -
  define c where "c = current_entry e (gi_evaluated_at x)"
  have v: "valid_registry_entry e" using wf by (simp add: gate_wf_def)
  have cwf: "gate_wf x c" using wf by (simp add: gate_wf_def current_entry_valid c_def)
  let ?auth = "authorization_failure_codes utc c (gi_effective x) (gi_assurances x) (Some (gi_evaluated_at x))"
  note eq = run [unfolded evaluate_resource_eq [OF v, of utc x, folded c_def]]
  consider (binding) "bind_identities c (gi_catalog x) = []" | (auth) "bind_identities c (gi_catalog x) \<noteq> []" "?auth \<noteq> []"
    | (blocked) "bind_identities c (gi_catalog x) \<noteq> []" "?auth = []" "unblocked x c = []"
    | (unavailable) "bind_identities c (gi_catalog x) \<noteq> []" "?auth = []" "unblocked x c \<noteq> []" "live_availability_codes x c \<noteq> []"
    | (compat) "bind_identities c (gi_catalog x) \<noteq> []" "?auth = []" "unblocked x c \<noteq> []" "live_availability_codes x c = []"
    by blast
  then have "ga_reason_codes g = shut_codes utc x c"
  proof cases
    case compat
    then have "served_identities x c = []"
      using shut by (auto simp: first_shut_def authorized_def live_availability_Nil [symmetric] c_def [symmetric] split: if_splits)
    moreover have "compatibility_gate x c (unblocked x c) (sources_where (promotion_running (gi_evaluated_at x)) c) = Inr g"
      using eq compat by simp
    ultimately show ?thesis
      using compatibility_gate_codes [OF cwf compat(3)] compat
      by (simp add: shut_codes_def authorized_def live_availability_Nil [symmetric])
  qed (use eq in \<open>auto simp: shut_codes_def authorized_def live_availability_Nil [symmetric] shut_gate_def\<close>)
  then show ?thesis by (simp add: c_def)
qed

lemma the_gate_codes:
  assumes "route_wf q" and "e \<in> set (gs_entries (rq_registry q))" and "shut_at nv q req e \<noteq> None"
  shows "ga_reason_codes (the_gate nv q req e) = shut_codes (nv_utc nv) (inputs_for q req e) (seen_entry q e)"
proof -
  have "evaluate_resource (nv_utc nv) (inputs_for q req e) e = Inr (the_gate nv q req e)"
    using the_gate_run(1) [OF assms(1,2), of nv req] by (simp add: route_gate_def inputs_for_def)
  from evaluate_resource_codes [OF route_wf_gate [OF assms(1,2)] this] assms(3)
  show ?thesis by (simp add: shut_at_def)
qed

subsection \<open>Shut resources\<close>

definition explains :: "resource_gate \<Rightarrow> target_exclusion \<Rightarrow> bool" where
  "explains g x \<longleftrightarrow> tx_resource_id x = gate_id g \<and> ga_stage g = Some (tx_stage x)
     \<and> tx_reason_codes x = map target_code_str (ga_reason_codes g)
     \<and> tx_provider x = Some (ri_provider (rn_identity (ga_entry g)))
     \<and> tx_model x = Some (ri_model (rn_identity (ga_entry g))) \<and> tx_variant x = None"

lemma mk_exclusion_eq: "mk_exclusion x = Inr x' \<Longrightarrow> x' = x"
  by (auto simp: mk_exclusion_def mk_exclusion_from_def bind_r_Inr_iff v_sorted_safe_ids_Inr map_PStr_eq
      split: if_splits)

lemma exclusion_of_explains: "exclusion_of g = Inr x \<Longrightarrow> explains g x"
  by (cases "ga_stage g") (auto simp: exclusion_of_def explains_def Let_def gate_id_def dest!: mk_exclusion_eq)

lemma list_all2_matched:
  "list_all2 P xs ys \<Longrightarrow> x \<in> set xs \<Longrightarrow> \<exists>y \<in> set ys. P x y"
  "list_all2 P xs ys \<Longrightarrow> z \<in> set ys \<Longrightarrow> \<exists>x \<in> set xs. P x z"
  by (induction rule: list_all2_induct) auto

definition explained_by ::
  "route_env \<Rightarrow> route_request \<Rightarrow> task_requirement \<Rightarrow> resource_registry_entry \<Rightarrow> target_exclusion \<Rightarrow> bool" where
  \<comment> \<open>an exclusion that names a shut resource, its first shut stage and exactly the codes of that stage\<close>
  "explained_by nv q req e x =
     (tx_resource_id x = entry_id e \<and> shut_at nv q req e = Some (tx_stage x)
      \<and> tx_reason_codes x = map target_code_str (shut_codes (nv_utc nv) (inputs_for q req e) (seen_entry q e))
      \<and> tx_reason_codes x \<noteq> [] \<and> set (tx_reason_codes x) \<subseteq> stage_reason_strs (tx_stage x)
      \<and> tx_provider x = Some (ri_provider (rn_identity e)) \<and> tx_model x = Some (ri_model (rn_identity e))
      \<and> tx_variant x = None)"

lemma shut_explained:
  assumes wf: "route_wf q" and e: "e \<in> set (gs_entries (rq_registry q))" and x: "explains (the_gate nv q req e) x"
  shows "explained_by nv q req e x"
proof -
  note facts = the_gate_facts [OF wf e, where nv = nv and req = req]
  from x facts(2,5) have stage: "tx_resource_id x = entry_id e" "shut_at nv q req e = Some (tx_stage x)"
    by (simp_all add: explains_def)
  have codes: "tx_reason_codes x = map target_code_str (ga_reason_codes (the_gate nv q req e))"
    using x by (simp add: explains_def)
  moreover have "ga_reason_codes (the_gate nv q req e) = shut_codes (nv_utc nv) (inputs_for q req e) (seen_entry q e)"
    using the_gate_codes [OF wf e, of nv req] stage(2) by simp
  moreover from facts(6) x have "tx_reason_codes x \<noteq> []" "set (tx_reason_codes x) \<subseteq> stage_reason_strs (tx_stage x)"
    by (auto simp: gate_details_def explains_def stage_reason_strs_def)
  moreover have "rn_identity (ga_entry (the_gate nv q req e)) = rn_identity e" using facts(1) by simp
  moreover have "tx_provider x = Some (ri_provider (rn_identity e))" "tx_model x = Some (ri_model (rn_identity e))"
    "tx_variant x = None" using x calculation(5) by (simp_all add: explains_def)
  ultimately show ?thesis using stage unfolding explained_by_def by metis
qed

lemma filter_matched:
  assumes "list_all2 P gs xs" and "\<And>g x. g \<in> set gs \<Longrightarrow> P g x \<Longrightarrow> f x = k g" and "distinct (map k gs)" and "g \<in> set gs"
  shows "\<exists>x. filter (\<lambda>x. f x = k g) xs = [x] \<and> P g x"
  using assms
proof (induction rule: list_all2_induct)
  case (Cons h gs x xs)
  have rest: "map f xs = map k gs"
    using Cons.hyps(2) Cons.prems(1) by (auto simp: list_all2_conv_all_nth intro!: nth_equalityI)
  show ?case
  proof (cases "g = h")
    case True
    have "k g \<notin> set (map k gs)" using Cons.prems(2) True by simp
    then have "k g \<notin> set (map f xs)" unfolding rest .
    then have "f y \<noteq> k g" if "y \<in> set xs" for y using that by (metis image_eqI list.set_map)
    then have "filter (\<lambda>x. f x = k g) xs = []" by (simp add: filter_empty_conv)
    then show ?thesis using Cons.hyps(1) Cons.prems(1) True by simp
  next
    case False
    then have g: "g \<in> set gs" using Cons.prems(3) by simp
    have "k h \<notin> k ` set gs" using Cons.prems(2) by simp
    then have "f x \<noteq> k g" using g Cons.hyps(1) Cons.prems(1) by force
    then show ?thesis using Cons g by simp
  qed
qed simp

lemma gate_exclusions:
  assumes wf: "route_wf q"
    and shut: "traverse exclusion_of (filter (\<lambda>g. \<not> ga_qualified g) (registry_gates nv q req)) = Inr xs"
  shows "\<And>e. e \<in> set (gs_entries (rq_registry q)) \<Longrightarrow> shut_at nv q req e \<noteq> None
      \<Longrightarrow> \<exists>x. filter (\<lambda>x. tx_resource_id x = entry_id e) xs = [x] \<and> explained_by nv q req e x"
    and "\<And>x. x \<in> set xs \<Longrightarrow> \<exists>e \<in> set (gs_entries (rq_registry q)). explained_by nv q req e x"
    and "distinct (map tx_resource_id xs)"
proof -
  let ?shut = "filter (\<lambda>g. \<not> ga_qualified g) (registry_gates nv q req)"
  have all: "list_all2 explains ?shut xs"
    using shut unfolding traverse_Inr_iff by (rule list_all2_mono) (rule exclusion_of_explains)
  have ids: "distinct (map gate_id ?shut)" using gate_ids_distinct [OF wf] by (rule distinct_map_filter)
  show "\<exists>x. filter (\<lambda>x. tx_resource_id x = entry_id e) xs = [x] \<and> explained_by nv q req e x"
    if e: "e \<in> set (gs_entries (rq_registry q))" "shut_at nv q req e \<noteq> None" for e
  proof -
    have "the_gate nv q req e \<in> set ?shut"
      using e the_gate_facts(3) [OF wf e(1), of nv req] by (auto simp: registry_gates_mem)
    from filter_matched [OF all _ ids this, of tx_resource_id] show ?thesis
      using the_gate_facts(5) [OF wf e(1), of nv req] shut_explained [OF wf e(1)] by (auto simp: explains_def)
  qed
  show "\<exists>e \<in> set (gs_entries (rq_registry q)). explained_by nv q req e x" if x: "x \<in> set xs" for x
  proof -
    obtain g where "g \<in> set (registry_gates nv q req)" "explains g x"
      using list_all2_matched(2) [OF all x] by auto
    then obtain e where "e \<in> set (gs_entries (rq_registry q))" "explains (the_gate nv q req e) x"
      by (auto simp: registry_gates_mem)
    with shut_explained [OF wf this] show ?thesis by blast
  qed
  have "map tx_resource_id xs = map gate_id ?shut"
    using all by (auto simp: list_all2_conv_all_nth explains_def intro!: nth_equalityI)
  with ids show "distinct (map tx_resource_id xs)" by simp
qed

subsection \<open>Identities that an open resource loses\<close>

definition exclusion_subject :: "target_exclusion \<Rightarrow> string \<times> string option \<times> string option \<times> string option" where
  "exclusion_subject x = (tx_resource_id x, tx_provider x, tx_model x, tx_variant x)"

definition rejects_identity :: "model_identity \<Rightarrow> target_exclusion \<Rightarrow> bool" where
  \<comment> \<open>an exclusion of the competition inside one identity: the effort pin, the capacity or the policy\<close>
  "rejects_identity i x =
     (tx_provider x = Some (mi_provider i) \<and> tx_model x = Some (mi_model i) \<and> tx_variant x = Some (mi_variant i)
      \<and> tx_stage x \<in> {Stg_binding, Stg_capacity, Stg_policy}
      \<and> tx_reason_codes x \<noteq> [] \<and> set (tx_reason_codes x) \<subseteq> stage_reason_strs (tx_stage x))"

lemma rejects_unique: "rejects_identity i x \<Longrightarrow> rejects_identity j y \<Longrightarrow> exclusion_subject x = exclusion_subject y \<Longrightarrow> i = j"
  by (cases i; cases j) (auto simp: rejects_identity_def exclusion_subject_def)

lemma resource_exclusion_rejects:
  assumes "resource_exclusion g e stage codes = Inr x" "stage \<in> {Stg_binding, Stg_capacity, Stg_policy}"
    "set codes \<subseteq> stage_reason_strs stage \<or> (\<exists>c. codes = [c])"
  shows "tx_resource_id x = gate_id g \<and> rejects_identity (ce_identity e) x"
proof -
  note run = assms(1) [unfolded resource_exclusion_def]
  note x = mk_exclusion_eq [OF run]
  have "codes \<noteq> [] \<and> stage_reason_strs stage \<inter> set codes \<noteq> {}"
    using run by (auto simp: mk_exclusion_def mk_exclusion_from_def bind_r_Inr_iff v_sorted_safe_ids_Inr map_PStr_eq
        split: if_splits)
  with assms(2,3) show ?thesis by (auto simp: x rejects_identity_def)
qed

lemma note_rejection_exclusions:
  assumes "note_rejection g e c s = Inr t"
  shows "ks_exclusions t = ks_exclusions s
    \<or> (\<exists>x. ks_exclusions t = ks_exclusions s @ [x] \<and> tx_resource_id x = gate_id g \<and> rejects_identity (ce_identity e) x)"
proof (cases "rejected_stage (cv_exclusion_stage c)")
  case None
  with assms show ?thesis by (auto simp: note_rejection_def Let_def)
next
  case (Some stage)
  then have stage: "stage \<in> {Stg_binding, Stg_capacity, Stg_policy}"
    by (cases "cv_exclusion_stage c" rule: rejected_stage.cases) auto
  have codes: "set (rejected_codes c stage) \<subseteq> stage_reason_strs stage" by (auto simp: rejected_codes_def)
  from assms Some have "ks_exclusions t = ks_exclusions s
      \<or> (\<exists>x. ks_exclusions t = ks_exclusions s @ [x] \<and> resource_exclusion g e stage (rejected_codes c stage) = Inr x)"
    by (auto simp: note_rejection_def Let_def bind_r_Inr_iff split: if_splits)
  with resource_exclusion_rejects [OF _ stage disjI1 [OF codes]] show ?thesis by blast
qed

lemma scan_gate_exclusions:
  assumes "scan_gate nv q one req pid pinned i s g = Inr t"
  shows "ks_exclusions t = ks_exclusions s
    \<or> (\<exists>x. ks_exclusions t = ks_exclusions s @ [x] \<and> tx_resource_id x = gate_id g \<and> rejects_identity i x)"
proof (cases "pin_admits pinned g")
  case False
  with assms show ?thesis unfolding scan_gate_def pin_admits_neg by simp
next
  case True
  obtain local where local: "narrowed_catalog one [i] [g] = Inr local"
    using assms True unfolding scan_gate_def pin_admits_neg by (auto simp: bind_r_Inr_iff)
  show ?thesis
  proof (cases "mc_entries local")
    case Nil
    with assms True local show ?thesis unfolding scan_gate_def pin_admits_neg by simp
  next
    case (Cons e es)
    then have "ce_identity e \<in> ce_identity ` set (mc_entries local)" by simp
    then have e: "ce_identity e = i" unfolding narrowed_identities(1) [OF local] by simp
    show ?thesis
      using assms True local Cons e resource_exclusion_rejects [of g e Stg_binding "[''reasoning_effort_unverified'']"]
      unfolding scan_gate_def pin_admits_neg
      by (auto simp: bind_r_Inr_iff Let_def split: if_splits option.splits list.splits
          dest!: note_rejection_exclusions)
  qed
qed

lemma scan_key_exclusions:
  assumes "scan_key nv q req pid pinned gates u i = Inr v"
  shows "\<exists>xs. us_exclusions v = us_exclusions u @ xs \<and> list_all (rejects_identity i) xs
    \<and> subseq (map tx_resource_id xs) (map gate_id (qualified_for gates i))"
proof -
  obtain one s where s: "fold_r (scan_gate nv q one req pid pinned i)
         \<lparr>ks_candidates = [], ks_fallback = None, ks_fallback_evaluation = None, ks_exclusions = []\<rparr>
         (qualified_for gates i) = Inr s"
      "us_exclusions v = us_exclusions u @ ks_exclusions s"
    by (rule scan_key_run [OF assms]) (rule that)
  let ?P = "\<lambda>ys s. list_all (rejects_identity i) (ks_exclusions s)
    \<and> subseq (map tx_resource_id (ks_exclusions s)) (map gate_id ys)"
  have "?P ([] @ qualified_for gates i) s"
  proof (rule fold_r_prefix [where P = ?P, OF s(1)])
    fix ys x s t
    assume "?P ys s" "scan_gate nv q one req pid pinned i s x = Inr t"
    with scan_gate_exclusions [OF this(2)] show "?P (ys @ [x]) t"
      by (auto intro: list_emb_append_mono list_emb_prefix)
  qed simp
  with s(2) show ?thesis by auto
qed

definition runtime_exclusion :: "resource_gate list \<Rightarrow> model_identity \<Rightarrow> target_exclusion \<Rightarrow> bool" where
  "runtime_exclusion gates i x =
     (rejects_identity i x \<and> (\<exists>g \<in> set (qualified_for gates i). tx_resource_id x = gate_id g))"

lemma scan_keys_exclusions:
  assumes "fold_r (scan_key nv q req pid pinned gates) u keys = Inr v" and "us_exclusions u = []"
    and "distinct (map gate_id gates)" and "distinct keys"
  shows "distinct (map exclusion_subject (us_exclusions v))"
    and "\<And>x. x \<in> set (us_exclusions v) \<Longrightarrow> \<exists>i \<in> set keys. runtime_exclusion gates i x"
proof -
  let ?P = "\<lambda>ys u. distinct ys \<longrightarrow> distinct (map exclusion_subject (us_exclusions u))
    \<and> (\<forall>x \<in> set (us_exclusions u). \<exists>i \<in> set ys. runtime_exclusion gates i x)"
  have "?P ([] @ keys) v"
  proof (rule fold_r_prefix [where P = ?P, OF assms(1)])
    fix ys i u w
    assume P: "?P ys u" and run: "scan_key nv q req pid pinned gates u i = Inr w"
    obtain xs where xs: "us_exclusions w = us_exclusions u @ xs" "list_all (rejects_identity i) xs"
      "subseq (map tx_resource_id xs) (map gate_id (qualified_for gates i))"
      using scan_key_exclusions [OF run] by blast
    have own: "runtime_exclusion gates i x" if "x \<in> set xs" for x
      using that xs(2) subseq_set [OF xs(3)] by (fastforce simp: runtime_exclusion_def list_all_iff)
    have "distinct (map gate_id (qualified_for gates i))"
      using assms(3) by (simp add: qualified_for_def distinct_map_filter)
    then have "distinct (map tx_resource_id xs)" using xs(3) by (auto simp: subseq_conv_nths distinct_nthsI)
    then have here: "distinct (map exclusion_subject xs)"
      by (auto simp: distinct_map inj_on_def exclusion_subject_def)
    show "?P (ys @ [i]) w"
    proof (rule impI, rule conjI)
      assume "distinct (ys @ [i])"
      then have ys: "distinct ys" "i \<notin> set ys" by simp_all
      have apart: "exclusion_subject x \<noteq> exclusion_subject y" if "x \<in> set (us_exclusions u)" "y \<in> set xs" for x y
      proof
        assume same: "exclusion_subject x = exclusion_subject y"
        have "\<exists>j \<in> set ys. runtime_exclusion gates j x" using P ys(1) that(1) by blast
        then obtain j where j: "j \<in> set ys" "rejects_identity j x" unfolding runtime_exclusion_def by blast
        have "rejects_identity i y" using xs(2) that(2) by (simp add: list_all_iff)
        from rejects_unique [OF j(2) this same] j(1) ys(2) show False by simp
      qed
      then have "exclusion_subject ` set (us_exclusions u) \<inter> exclusion_subject ` set xs = {}" by blast
      then show "distinct (map exclusion_subject (us_exclusions w))" using P ys(1) here by (simp add: xs(1))
      show "\<forall>x \<in> set (us_exclusions w). \<exists>j \<in> set (ys @ [i]). runtime_exclusion gates j x"
        using P ys(1) own by (auto simp: xs(1))
    qed
  qed (simp add: assms(2))
  with assms(4) show "distinct (map exclusion_subject (us_exclusions v))"
    "\<And>x. x \<in> set (us_exclusions v) \<Longrightarrow> \<exists>i \<in> set keys. runtime_exclusion gates i x"
    by simp_all
qed

lemma serves_distinct: "route_wf q \<Longrightarrow> distinct (serves nv q req e)"
  by (simp add: serves_def served_identities_def unblocked_def bind_identities_def route_wf_def distinct_map_filter)

lemma gate_identities_distinct:
  assumes "route_wf q" and "g \<in> set (registry_gates nv q req)" and "ga_qualified g"
  shows "distinct (ga_bound_identities g)"
  using assms the_gate_facts(4) [OF assms(1)] serves_distinct [OF assms(1)] by (auto simp: registry_gates_mem)

lemma routable_distinct:
  assumes "route_wf q"
  shows "distinct (px_routable (pins_of q (registry_gates nv q req)))"
proof -
  let ?gates = "registry_gates nv q req"
  have target: "distinct (px_routable (apply_target_pin ?gates pin (remdups xs)))" for pin xs
  proof (cases pin)
    case (Some p)
    show ?thesis
    proof (cases "find (\<lambda>g. gate_id g = pt_resource_id p) ?gates")
      case g: (Some g)
      then have "g \<in> set ?gates" by (auto simp: find_Some_iff)
      then have "ga_qualified g \<Longrightarrow> distinct (ga_bound_identities g)" by (rule gate_identities_distinct [OF assms])
      then show ?thesis by (simp add: apply_target_pin_def Some g)
    qed (simp add: apply_target_pin_def Some)
  qed (simp add: apply_target_pin_def)
  have "distinct (px_routable x) \<Longrightarrow> distinct (px_routable (apply_model_pin cat m v x))" for cat m v x
    by (simp add: apply_model_pin_def Let_def)
  with target show ?thesis by (simp add: pins_of_def Let_def)
qed

lemma level_exclusions:
  assumes wf: "route_wf q"
    and level: "select_level nv q req pid (pins_of q (registry_gates nv q req)) (registry_gates nv q req) = Inr ml"
  shows "distinct (map exclusion_subject (ml_exclusions ml))"
    and "\<And>x. x \<in> set (ml_exclusions ml) \<Longrightarrow> mc_catalog_version (rq_catalog q) = None
      \<and> (\<exists>e \<in> set (gs_entries (rq_registry q)). tx_resource_id x = entry_id e
           \<and> (\<exists>i \<in> set (serves nv q req e). rejects_identity i x))"
proof -
  let ?gates = "registry_gates nv q req"
  have "distinct (map exclusion_subject (ml_exclusions ml))
    \<and> (\<forall>x \<in> set (ml_exclusions ml). mc_catalog_version (rq_catalog q) = None
          \<and> (\<exists>i. runtime_exclusion ?gates i x))"
  proof (cases "mc_catalog_version (rq_catalog q) = None")
    case True
    then obtain u where u: "fold_r (scan_key nv q req pid (px_gate (pins_of q ?gates)) ?gates)
          \<lparr>us_entries = [], us_evaluations = [], us_gates = [], us_exclusions = []\<rparr>
          (sort (px_routable (pins_of q ?gates))) = Inr u" "ml_exclusions ml = us_exclusions u"
      using level by (auto simp: select_level_def select_runtime_def bind_r_Inr_iff)
    note ids = gate_ids_distinct [OF wf, of nv req]
    note scan = scan_keys_exclusions [OF u(1) _ ids]
    show ?thesis using scan routable_distinct [OF wf, of nv req] True by (force simp: u(2))
  next
    case False
    then have "ml_exclusions ml = []"
      using level by (auto simp: select_level_def select_versioned_def bind_r_Inr_iff)
    then show ?thesis by simp
  qed
  moreover have "\<exists>e \<in> set (gs_entries (rq_registry q)). tx_resource_id x = entry_id e
      \<and> (\<exists>i \<in> set (serves nv q req e). rejects_identity i x)" if rx: "runtime_exclusion ?gates i x" for i x
  proof -
    obtain g where g: "rejects_identity i x" "serving_gate nv q req i g" "tx_resource_id x = gate_id g"
      using rx unfolding runtime_exclusion_def Bex_def qualified_for_mem [OF wf] by blast
    then obtain e where "e \<in> set (gs_entries (rq_registry q))" "g = the_gate nv q req e" "i \<in> set (serves nv q req e)"
      unfolding serving_gate_def by blast
    with g show ?thesis using the_gate_facts(5) [OF wf, of e nv req] by (intro bexI [of _ e]) auto
  qed
  ultimately show "distinct (map exclusion_subject (ml_exclusions ml))"
    "\<And>x. x \<in> set (ml_exclusions ml) \<Longrightarrow> mc_catalog_version (rq_catalog q) = None
      \<and> (\<exists>e \<in> set (gs_entries (rq_registry q)). tx_resource_id x = entry_id e
           \<and> (\<exists>i \<in> set (serves nv q req e). rejects_identity i x))"
    by blast+
qed

lemma decision_selected:
  assumes "route_wf q" and "resolve_requirement q = Inr (req, pid)"
    and "route_request_decision nv q = Inr d" and "ro_target d = Some t"
  obtains ml c gs where
    "select_level nv q req pid (pins_of q (registry_gates nv q req)) (registry_gates nv q req) = Inr ml"
    "ro_selection d = ml_selection ml"
    "sd_selected (ml_selection ml) = Some c" "ml_gates ml (cv_identity c) = Some gs"
    "route_targets q (cv_identity c) pid (px_gate (pins_of q (registry_gates nv q req))) gs = Inr (t, ro_alternatives d)"
proof (rule route_decision_steps [OF assms(1-3)])
  let ?gates = "registry_gates nv q req"
  fix ml
  assume level: "select_level nv q req pid (pins_of q ?gates) ?gates = Inr ml" "ro_selection d = ml_selection ml"
    and out: "case sd_selected (ml_selection ml) of
      None \<Rightarrow> ro_status d = Route_no_solution \<and> ro_target d = None \<and> ro_alternatives d = []
        \<and> ro_reason_codes d = sort (remdups (''no_eligible_target'' # px_codes (pins_of q ?gates)
             @ (if has_pin q then [''pinned_request_failed''] else [])))
    | Some c \<Rightarrow> ro_status d = Route_selected
        \<and> (\<exists>gs t. ml_gates ml (cv_identity c) = Some gs \<and> ro_target d = Some t
            \<and> route_targets q (cv_identity c) pid (px_gate (pins_of q ?gates)) gs = Inr (t, ro_alternatives d))"
  show thesis
    using out assms(4) by (cases "sd_selected (ml_selection ml)") (auto intro: that [OF level])
qed

lemma alternatives_need_target:
  assumes "route_wf q" and "resolve_requirement q = Inr (req, pid)" and "route_request_decision nv q = Inr d"
    and "ro_target d = None"
  shows "ro_alternatives d = []"
  by (rule route_decision_steps [OF assms(1-3)]) (use assms(4) in \<open>auto split: option.splits\<close>)

section \<open>Properties\<close>

text \<open>
  C5: A route decision only ever names executable targets. When a decision has a target, its model is
  the candidate the embedded selection chose, that candidate is eligible and among the candidate
  identities of the request; the target and every alternative are registered resources whose gates are
  all open for exactly that model, in agreement with every pin of the request, and no resource is named
  twice. Quota pools shared with the selected target are flagged exactly. With a target pin there is
  no alternative.
\<close>

theorem route_target_sound:
  assumes "route_wf q" and "resolve_requirement q = Inr (req, pid)"
    and "route_request_decision nv q = Inr d" and "ro_target d = Some t"
  shows "\<exists>c. sd_selected (ro_selection d) = Some c \<and> cv_eligible c
    \<and> pred_option (\<lambda>cs. cv_identity c \<in> set cs) (rq_candidates q)
    \<and> list_all (\<lambda>a. executable_target nv q req a \<and> tg_model a = cv_identity c) (t # ro_alternatives d)
    \<and> distinct (map target_id (t # ro_alternatives d))
    \<and> \<not> tg_shares_pool t \<and> list_all (\<lambda>a. tg_shares_pool a = shares_pool t a) (ro_alternatives d)
    \<and> (rb_pinned_target (rq_request q) = None \<or> ro_alternatives d = [])"
proof -
  let ?gates = "registry_gates nv q req"
  obtain ml c gs where
    s: "select_level nv q req pid (pins_of q ?gates) ?gates = Inr ml" "ro_selection d = ml_selection ml"
      "sd_selected (ml_selection ml) = Some c" "ml_gates ml (cv_identity c) = Some gs"
      "route_targets q (cv_identity c) pid (px_gate (pins_of q ?gates)) gs = Inr (t, ro_alternatives d)"
    by (rule decision_selected [OF assms])
  note backs = selected_backs [OF assms(1) refl s(1,3,4)]
  note targets = selected_targets [OF assms(1) refl s(1,3,4,5)]
  have "rb_pinned_target (rq_request q) = None \<or> ro_alternatives d = []"
    using targets by (cases "rb_pinned_target (rq_request q)"; cases "ro_alternatives d")
      (auto simp: executable_target_def pinned_to_def target_id_def entry_id_def)
  with s(2,3) backs(1,6) targets show ?thesis by auto
qed

text \<open>
  C20: No registered resource disappears silently. For every resource with a shut gate exactly one
  exclusion of the decision names it, with its first shut stage and exactly the codes that stage
  reports. Every other exclusion is one of a catalog without a version: it names an open resource and
  an identity this resource serves, which lost the competition inside the identity to the effort pin,
  the capacity or the policy. No resource and identity are excluded twice. The identities reported as
  unroutable are, once each, exactly the identities of the catalog that no open resource serves in
  agreement with the pins.
\<close>

theorem route_accounts_for_registry:
  assumes "route_wf q" and "resolve_requirement q = Inr (req, pid)" and "route_request_decision nv q = Inr d"
  shows "(\<forall>e \<in> set (gs_entries (rq_registry q)). shut_at nv q req e = None
        \<or> (\<exists>x. filter (\<lambda>x. tx_resource_id x = entry_id e) (ro_exclusions d) = [x] \<and> explained_by nv q req e x))
    \<and> (\<forall>x \<in> set (ro_exclusions d). \<exists>e \<in> set (gs_entries (rq_registry q)). tx_resource_id x = entry_id e
        \<and> (explained_by nv q req e x
           \<or> (mc_catalog_version (rq_catalog q) = None \<and> shut_at nv q req e = None
              \<and> (\<exists>i \<in> set (serves nv q req e). rejects_identity i x))))
    \<and> distinct (map exclusion_subject (ro_exclusions d))
    \<and> distinct (ro_unroutable d)
    \<and> set (ro_unroutable d) = {i \<in> ce_identity ` set (mc_entries (rq_catalog q)).
        \<not> (\<exists>e \<in> set (gs_entries (rq_registry q)). i \<in> set (serves nv q req e) \<and> pinned_to q (entry_id e) i)}"
proof -
  let ?gates = "registry_gates nv q req"
  obtain ml shut where
    s: "select_level nv q req pid (pins_of q ?gates) ?gates = Inr ml"
      "traverse exclusion_of (filter (\<lambda>g. \<not> ga_qualified g) ?gates) = Inr shut"
      "ro_exclusions d = sort_key exclusion_sort_key (shut @ ml_exclusions ml)"
      "ro_unroutable d = sort (filter (\<lambda>i. i \<notin> set (px_routable (pins_of q ?gates)))
         (map ce_identity (mc_entries (rq_catalog q))))"
    by (rule route_decision_steps [OF assms]) (rule that)
  note shut = gate_exclusions [OF assms(1) s(2)] and rejected = level_exclusions [OF assms(1) s(1)]
  have once: "\<exists>x. filter (\<lambda>x. tx_resource_id x = entry_id e) (ro_exclusions d) = [x] \<and> explained_by nv q req e x"
    if e: "e \<in> set (gs_entries (rq_registry q))" "shut_at nv q req e \<noteq> None" for e
  proof -
    have "tx_resource_id x \<noteq> entry_id e" if "x \<in> set (ml_exclusions ml)" for x
      using rejected(2) [OF that] entries_unique [OF assms(1) e(1)] serves_open e(2) by metis
    then have "filter (\<lambda>x. tx_resource_id x = entry_id e) (ml_exclusions ml) = []" by (simp add: filter_empty_conv)
    then show ?thesis
      using shut(1) [OF e] unfolding s(3) filter_sort filter_append by auto
  qed
  have each: "\<exists>e \<in> set (gs_entries (rq_registry q)). tx_resource_id x = entry_id e
      \<and> (explained_by nv q req e x \<or> (mc_catalog_version (rq_catalog q) = None \<and> shut_at nv q req e = None
            \<and> (\<exists>i \<in> set (serves nv q req e). rejects_identity i x)))" if "x \<in> set (ro_exclusions d)" for x
  proof -
    have "x \<in> set shut \<or> x \<in> set (ml_exclusions ml)" using that by (simp add: s(3))
    then show ?thesis
    proof
      assume "x \<in> set shut"
      then obtain e where "e \<in> set (gs_entries (rq_registry q))" "explained_by nv q req e x" using shut(2) by blast
      then show ?thesis by (intro bexI [of _ e]) (auto simp: explained_by_def)
    next
      assume "x \<in> set (ml_exclusions ml)"
      with rejected(2) serves_open show ?thesis by blast
    qed
  qed
  have "tx_variant x = None" if "x \<in> set shut" for x
    using shut(2) [OF that] by (auto simp: explained_by_def)
  moreover have "tx_variant x \<noteq> None" if "x \<in> set (ml_exclusions ml)" for x
    using rejected(2) [OF that] by (auto simp: rejects_identity_def)
  ultimately have apart: "exclusion_subject x \<noteq> exclusion_subject y" if "x \<in> set shut" "y \<in> set (ml_exclusions ml)" for x y
    using that by (force simp: exclusion_subject_def)
  have "distinct (map exclusion_subject shut)"
    using shut(3) by (auto simp: distinct_map inj_on_def exclusion_subject_def)
  moreover from apart have "exclusion_subject ` set shut \<inter> exclusion_subject ` set (ml_exclusions ml) = {}" by blast
  ultimately have "distinct (map exclusion_subject (shut @ ml_exclusions ml))"
    using rejected(1) by (simp only: map_append distinct_append set_map)
  then have subjects': "distinct (map exclusion_subject (ro_exclusions d))"
    unfolding s(3) distinct_map distinct_sort set_sort .
  have unroutable: "distinct (ro_unroutable d)"
    using assms(1) by (simp add: s(4) route_wf_def distinct_filter)
  have "set (ro_unroutable d) = {i \<in> ce_identity ` set (mc_entries (rq_catalog q)).
      \<not> (\<exists>e \<in> set (gs_entries (rq_registry q)). i \<in> set (serves nv q req e) \<and> pinned_to q (entry_id e) i)}"
    unfolding s(4) by (simp add: pins_routable [OF assms(1)] set_eq_iff)
  with once each subjects' unroutable show ?thesis by blast
qed

definition target_ids :: "route_decision result \<Rightarrow> (string \<times> string list) option" where
  "target_ids r = (case r of Inl _ \<Rightarrow> None
     | Inr d \<Rightarrow> map_option (\<lambda>t. (target_id t, map target_id (ro_alternatives d))) (ro_target d))"

lemma target_ids_Some:
  "target_ids r = Some (i, is) \<Longrightarrow> \<exists>d t. r = Inr d \<and> ro_target d = Some t \<and> target_id t = i
     \<and> map target_id (ro_alternatives d) = is"
  by (auto simp: target_ids_def split: sum.splits)

lemma sample_route_wf: "route_wf (sample_route client binding)"
proof -
  have "list_all valid_registry_entry (gs_entries route_registry)
      \<and> distinct (map entry_id (gs_entries route_registry))
      \<and> distinct (map ce_identity (mc_entries sample_catalog))"
    by code_simp
  then show ?thesis by (simp add: route_wf_def sample_route_def)
qed

lemma sample_route_open_runs:
  "target_ids (route_request_decision sample_env (sample_route (client_grant None None) empty_binding))
     = Some (''r-two'', [''r-one''])"
  by code_simp

lemma sample_route_pinned_runs:
  "target_ids (route_request_decision sample_env (sample_route (client_grant None None) pin_r_one))
     = Some (''r-one'', [])"
  by code_simp

lemma sample_requirement_runs:
  "\<exists>req pid. resolve_requirement (sample_route client empty_binding) = Inr (req, pid)"
  "\<exists>req pid. resolve_requirement (sample_route client pin_r_one) = Inr (req, pid)"
proof -
  have "is_ok (resolve_requirement (sample_route (client_grant None None) empty_binding))"
    "is_ok (resolve_requirement (sample_route (client_grant None None) pin_r_one))" by code_simp+
  moreover have "resolve_requirement (sample_route client b) = resolve_requirement (sample_route (client_grant None None) b)" for b
    by (simp add: sample_route_def resolve_requirement_def base_requirement_def)
  ultimately show "\<exists>req pid. resolve_requirement (sample_route client empty_binding) = Inr (req, pid)"
    "\<exists>req pid. resolve_requirement (sample_route client pin_r_one) = Inr (req, pid)"
    by (auto simp: is_ok_iff)
qed

theorem route_target_sound_witness:
  "\<exists>d t req. route_request_decision sample_env (sample_route (client_grant None None) empty_binding) = Inr d
     \<and> ro_target d = Some t \<and> target_id t = ''r-two'' \<and> map target_id (ro_alternatives d) = [''r-one'']
     \<and> list_all (executable_target sample_env (sample_route (client_grant None None) empty_binding) req)
         (t # ro_alternatives d)"
proof -
  obtain req pid where r: "resolve_requirement (sample_route (client_grant None None) empty_binding) = Inr (req, pid)"
    using sample_requirement_runs(1) by blast
  obtain d t where d: "route_request_decision sample_env (sample_route (client_grant None None) empty_binding) = Inr d"
      "ro_target d = Some t" "target_id t = ''r-two''" "map target_id (ro_alternatives d) = [''r-one'']"
    using target_ids_Some [OF sample_route_open_runs] by (elim exE conjE) (rule that)
  with route_target_sound [OF sample_route_wf r d(1,2)] show ?thesis
    by (intro exI [of _ d] exI [of _ t] exI [of _ req]) (auto simp: list_all_iff)
qed

theorem route_accounts_for_registry_witness:
  "\<exists>d. route_request_decision sample_env (sample_route (client_grant (Some []) None) empty_binding) = Inr d
     \<and> (\<exists>x. filter (\<lambda>x. tx_resource_id x = ''r-one'') (ro_exclusions d) = [x] \<and> tx_stage x = Stg_authorization
          \<and> tx_reason_codes x \<noteq> [])"
proof -
  let ?q = "sample_route (client_grant (Some []) None) empty_binding"
  obtain req pid where r: "resolve_requirement ?q = Inr (req, pid)"
    using sample_requirement_runs(1) by blast
  have "is_ok (route_request_decision sample_env ?q)" by code_simp
  then obtain d where d: "route_request_decision sample_env ?q = Inr d" by (auto simp: is_ok_iff)
  let ?e = "route_entry ''r-one'' []"
  have e: "?e \<in> set (gs_entries (rq_registry ?q))" by (simp add: sample_route_def route_registry_def)
  have "projr (resolve_requirement ?q) = (req, pid)" by (simp add: r)
  moreover have "shut_at sample_env ?q (fst (projr (resolve_requirement ?q))) ?e = Some Stg_authorization"
    by code_simp
  ultimately have "shut_at sample_env ?q req ?e = Some Stg_authorization" by simp
  moreover have "entry_id ?e = ''r-one''" by (simp add: entry_id_def route_entry_def route_resource_def)
  moreover have "shut_at sample_env ?q req ?e = None
      \<or> (\<exists>x. filter (\<lambda>x. tx_resource_id x = entry_id ?e) (ro_exclusions d) = [x] \<and> explained_by sample_env ?q req ?e x)"
    using route_accounts_for_registry [OF sample_route_wf r d] e by blast
  ultimately show ?thesis using d by (auto simp: explained_by_def)
qed

text \<open>
  C24: Candidate identities and a runtime inventory do not mix. Over a catalog without a version, a
  request that names more than one candidate identity never gets a decision once some identity is
  routable: the competition inside one identity rebuilds the request over a catalog of that identity
  alone, and construction refuses every candidate identity that this catalog does not have.
\<close>

theorem runtime_candidates_refused:
  assumes "route_wf q" and "resolve_requirement q = Inr (req, pid)"
    and "mc_catalog_version (rq_catalog q) = None" and "rq_candidates q = Some cs"
    and "e \<in> set (gs_entries (rq_registry q))" and "i \<in> set (serves nv q req e)" and "pinned_to q (entry_id e) i"
    and "j \<in> set cs" and "j \<noteq> i"
  shows "\<not> is_ok (route_request_decision nv q)"
proof
  assume "is_ok (route_request_decision nv q)"
  then obtain d where d: "route_request_decision nv q = Inr d" by (auto simp: is_ok_iff)
  let ?gates = "registry_gates nv q req" and ?px = "pins_of q (registry_gates nv q req)"
  obtain ml where "select_level nv q req pid ?px ?gates = Inr ml"
    by (rule route_decision_steps [OF assms(1,2) d]) (rule that)
  then obtain u where u: "fold_r (scan_key nv q req pid (px_gate ?px) ?gates)
      \<lparr>us_entries = [], us_evaluations = [], us_gates = [], us_exclusions = []\<rparr> (sort (px_routable ?px)) = Inr u"
    using assms(3) by (auto simp: select_level_def select_runtime_def bind_r_Inr_iff)
  have "i \<in> set (sort (px_routable ?px))"
    using assms(5-7) pins_routable [OF assms(1), of i nv req] by auto
  with fold_r_step [OF u] obtain v w where "scan_key nv q req pid (px_gate ?px) ?gates v i = Inr w" by blast
  then obtain entry single one where s: "ce_identity entry = i"
      "mk_catalog \<lparr>mc_catalog_version = None, mc_updated_on = None, mc_entries = [entry]\<rparr> = Inr single"
      "mk_route_request (q\<lparr>rq_catalog := single\<rparr>) = Inr one"
    by (auto simp: scan_key_def bind_r_Inr_iff find_Some_iff split: option.splits)
  then have "set cs \<subseteq> {i}"
    using assms(4) mk_catalog_Inr_eq [OF s(2)] by (auto simp: mk_route_request_def bind_r_Inr_iff guard_r_def split: if_splits)
  with assms(8,9) show False by blast
qed

definition runtime_catalog :: model_catalog where
  "runtime_catalog = sample_catalog\<lparr>mc_catalog_version := None, mc_updated_on := None\<rparr>"

definition runtime_route :: "model_identity list option \<Rightarrow> route_request" where
  "runtime_route cs = (sample_route (client_grant None None) empty_binding)
     \<lparr>rq_catalog := runtime_catalog, rq_candidates := cs\<rparr>"

theorem runtime_candidates_refused_witness:
  "\<not> is_ok (route_request_decision sample_env
       (runtime_route (Some (map ce_identity (mc_entries runtime_catalog)))))
   \<and> target_ids (route_request_decision sample_env (runtime_route None)) = Some (''r-two'', [''r-one''])
   \<and> is_ok (mk_route_request (runtime_route (Some (map ce_identity (mc_entries runtime_catalog)))))"
proof -
  let ?q = "runtime_route (Some (map ce_identity (mc_entries runtime_catalog)))"
  let ?i = "ModelIdentity ''zai'' ''m-two'' ''base''"
  have wf: "route_wf ?q"
    using sample_route_wf [of "client_grant None None" empty_binding]
    by (simp add: route_wf_def runtime_route_def sample_route_def runtime_catalog_def)
  have "is_ok (resolve_requirement ?q)" by code_simp
  then obtain req pid where r: "resolve_requirement ?q = Inr (req, pid)" by (auto simp: is_ok_iff)
  have "?i \<in> set (serves sample_env ?q (fst (projr (resolve_requirement ?q))) (route_entry ''r-one'' []))" by code_simp
  then have i: "?i \<in> set (serves sample_env ?q req (route_entry ''r-one'' []))" by (simp add: r)
  have e: "route_entry ''r-one'' [] \<in> set (gs_entries (rq_registry ?q))"
    by (simp add: runtime_route_def sample_route_def route_registry_def)
  have p: "pinned_to ?q (entry_id (route_entry ''r-one'' [])) ?i"
    by (simp add: pinned_to_def pin_selects_def runtime_route_def sample_route_def empty_binding_def)
  have v: "mc_catalog_version (rq_catalog ?q) = None"
    "rq_candidates ?q = Some (map ce_identity (mc_entries runtime_catalog))"
    by (simp_all add: runtime_route_def runtime_catalog_def)
  have j: "ModelIdentity ''zai'' ''m-one'' ''base'' \<in> set (map ce_identity (mc_entries runtime_catalog))"
    "ModelIdentity ''zai'' ''m-one'' ''base'' \<noteq> ?i"
    by (simp_all add: runtime_catalog_def sample_catalog_def sample_entry_def)
  have "\<not> is_ok (route_request_decision sample_env ?q)"
    by (rule runtime_candidates_refused [OF wf r v e i p j])
  moreover have "target_ids (route_request_decision sample_env (runtime_route None)) = Some (''r-two'', [''r-one''])"
    by code_simp
  moreover have "is_ok (mk_route_request ?q)" by code_simp
  ultimately show ?thesis by blast
qed

end
