(* ===== verification/Route_Total.thy ===== *)
theory Route_Total
  imports Route_Spec
begin

text \<open>
  Route decisions over a versioned catalog: when they exist, what they select, and when a pinned
  target is admitted. A valid request is what its class and the classes of its members construct.
\<close>

section \<open>Valid requests\<close>

definition valid_route_request :: "route_env \<Rightarrow> route_request \<Rightarrow> bool" where
  "valid_route_request nv q =
     (valid_catalog (rq_catalog q) \<and> valid_profile_catalog (rq_profiles q)
      \<and> valid_registry_snapshot (rq_registry q) \<and> valid_selector_policy (nv_zones nv) (rq_policy q)
      \<and> (case rq_evaluated_at q of Aware _ \<Rightarrow> True | Naive _ \<Rightarrow> False)
      \<and> list_all valid_snapshot (rq_snapshots q) \<and> list_all valid_replenishment_state (rq_states q)
      \<and> list_all valid_eligibility (rq_reports q) \<and> distinct (map ee_provider (rq_reports q))
      \<and> pred_option valid_routing_profile (rq_profile q) \<and> valid_request_binding (rq_request q)
      \<and> pred_option valid_requirement (rq_task_requirement q))"

lemma valid_request_wf: "valid_route_request nv q \<Longrightarrow> route_wf q"
proof -
  assume v: "valid_route_request nv q"
  then have "distinct (map identity_key (map ce_identity (mc_entries (rq_catalog q))))"
    by (simp add: valid_route_request_def valid_catalog_def entry_key_def [abs_def] comp_def)
  then have "distinct (map ce_identity (mc_entries (rq_catalog q)))" by (rule distinct_map [THEN iffD1, THEN conjunct1])
  with v show ?thesis
    by (simp add: route_wf_def valid_route_request_def valid_registry_snapshot_def registry_snapshot_parts_def)
qed

lemma valid_request_instant: "valid_route_request nv q \<Longrightarrow> rq_evaluated_at q = Aware (at_of q)"
  by (cases "rq_evaluated_at q") (auto simp: valid_route_request_def at_of_def)

section \<open>The merged requirement\<close>

lemma structural_run:
  "valid_request_binding r \<Longrightarrow> structural_requirement level r = Inr s \<Longrightarrow> valid_requirement s"
  by (auto simp: structural_requirement_def bind_r_Inr_iff valid_simps mk_requirement_def valid_requirement_def
      no_minima_def no_hard_def valid_minima_def minima_items_def)

lemma base_requirement_valid:
  assumes "valid_route_request nv q" and "base_requirement q = Inr b"
  shows "valid_requirement b"
proof -
  obtain p where p: "(case rq_profile q of Some p \<Rightarrow> resolve (rq_profiles q) (cp_profile_id p)
        | None \<Rightarrow> Inr \<lparr>tr_task_level = L0, tr_capability_minima = no_minima, tr_hard_constraints = no_hard\<rparr>) = Inr p"
      "(case rq_task_requirement q of None \<Rightarrow> Inr p
        | Some t \<Rightarrow> if rq_profile q \<noteq> None then tighten_requirement p t else Inr t) = Inr b"
    using assms(2) unfolding base_requirement_def bind_r_Inr_iff by blast
  have vp: "valid_requirement p"
  proof (cases "rq_profile q")
    case None
    with p(1) show ?thesis
      by (auto simp: valid_requirement_def no_minima_def no_hard_def valid_minima_def minima_items_def
          valid_hard_constraints_def)
  next
    case (Some r)
    with p(1) assms(1) show ?thesis
      by (auto simp: resolve_def resolve_in_Inr valid_route_request_def valid_profile_catalog_def valid_profile_def
          list_all_iff)
  qed
  show ?thesis
  proof (cases "rq_task_requirement q")
    case None
    with p vp show ?thesis by simp
  next
    case (Some t)
    with assms(1) have "valid_requirement t" by (simp add: valid_route_request_def)
    with p(2) Some vp tightened_requirement(1) [OF vp this] show ?thesis
      by (auto split: if_splits)
  qed
qed

lemma resolved_requirement:
  assumes "valid_route_request nv q" and "resolve_requirement q = Inr (req, pid)"
  shows "valid_requirement req" and "pid = map_option cp_profile_id (rq_profile q)"
    and "pred_option safe_id_match pid"
proof -
  obtain b s where b: "base_requirement q = Inr b"
      "structural_requirement (tr_task_level b) (rq_request q) = Inr s" "tighten_requirement b s = Inr req"
      "pid = map_option cp_profile_id (rq_profile q)"
    using assms(2) by (auto simp: resolve_requirement_def bind_r_Inr_iff)
  have "valid_requirement b" by (rule base_requirement_valid [OF assms(1) b(1)])
  moreover have "valid_requirement s"
    using assms(1) b(2) by (auto simp: valid_route_request_def intro: structural_run)
  ultimately show "valid_requirement req" using b(3) by (rule tightened_requirement(1))
  show "pid = map_option cp_profile_id (rq_profile q)" by (rule b(4))
  then show "pred_option safe_id_match pid"
    using assms(1) by (cases "rq_profile q") (auto simp: valid_route_request_def valid_routing_profile_def)
qed

section \<open>Texts\<close>

definition plain :: "char \<Rightarrow> bool" where
  "plain c = (let n = (of_char c :: nat) in 33 \<le> n \<and> n \<le> 126)"

lemma plain_text: "list_all plain s \<Longrightarrow> s \<noteq> [] \<Longrightarrow> length s \<le> n \<Longrightarrow> text_ok n s"
proof -
  assume s: "list_all plain s" "s \<noteq> []" "length s \<le> n"
  have c: "\<not> is_cc c \<and> \<not> is_space c" if "plain c" for c
    using that by (auto simp: plain_def is_cc_def is_space_def Let_def)
  have "plain (hd s)" "plain (last s)" using s by (simp_all add: list_all_iff)
  with s c show ?thesis by (auto simp: text_ok_def list_ex_iff list_all_iff)
qed

lemma fits_plain: "fits tmpl s \<Longrightarrow> list_all plain tmpl \<Longrightarrow> list_all plain s"
proof -
  have d: "is_digit c \<Longrightarrow> plain c" for c by (auto simp: is_digit_def in_range_def plain_def less_eq_char_def)
  have "list_all2 (\<lambda>t c. if t = CHR ''d'' then is_digit c else c = t) tmpl s \<Longrightarrow> list_all plain tmpl
      \<Longrightarrow> list_all plain s"
    by (induction rule: list_all2_induct) (auto simp: d split: if_splits)
  then show "fits tmpl s \<Longrightarrow> list_all plain tmpl \<Longrightarrow> list_all plain s" by (simp add: fits_def)
qed

lemma ts_text: "ts_ok s \<Longrightarrow> text_ok 64 s"
proof -
  assume "ts_ok s"
  then have f: "fits ''dddd-dd-ddTdd:dd:dd.dddZ'' s" by (rule ts_ok_fits)
  have "list_all plain ''dddd-dd-ddTdd:dd:dd.dddZ''" by code_simp
  from fits_plain [OF f this] fits_length [OF f] show ?thesis by (intro plain_text) auto
qed

section \<open>Selection over the narrowed catalog\<close>

definition selection_of :: "route_request \<Rightarrow> task_requirement \<Rightarrow> selection_input" where
  \<comment> \<open>the selector inputs of a versioned request\<close>
  "selection_of q req =
     \<lparr>si_requirement = req, si_policy = rq_policy q, si_snapshots = rq_snapshots q, si_states = rq_states q,
       si_instant = at_of q, si_reports = rq_reports q, si_blocked = Some (rq_mi_blocked q)\<rparr>"

definition profile_version :: "route_request \<Rightarrow> int option" where
  "profile_version q = (if rq_profile q \<noteq> None then rq_profile_version q else None)"

definition routable_in_view :: "route_request \<Rightarrow> resource_gate list \<Rightarrow> model_catalog_entry \<Rightarrow> bool" where
  "routable_in_view q gates e =
     (ce_identity e \<in> set (px_routable (pins_of q gates))
      \<and> pred_option (\<lambda>cs. ce_identity e \<in> set cs) (rq_candidates q))"

definition route_view :: "route_request \<Rightarrow> resource_gate list \<Rightarrow> model_catalog" where
  \<comment> \<open>the versioned catalog without the identities that narrowing removes\<close>
  "route_view q gates = \<lparr>mc_catalog_version = mc_catalog_version (rq_catalog q),
     mc_updated_on = mc_updated_on (rq_catalog q),
     mc_entries = sort_key entry_key (filter (routable_in_view q gates) (mc_entries (rq_catalog q)))\<rparr>"

lemma route_view_valid:
  assumes "valid_route_request nv q"
  shows "valid_catalog (route_view q gates)"
proof -
  have v: "valid_catalog (rq_catalog q)" using assms by (simp add: valid_route_request_def)
  let ?es = "filter (routable_in_view q gates) (mc_entries (rq_catalog q))"
  have "distinct (map entry_key ?es)" using v by (auto simp: valid_catalog_def intro: distinct_map_filter)
  then have "distinct (map entry_key (sort_key entry_key ?es))"
    using catalog_of_sorted [of entry_key ?es] by simp
  with v show ?thesis
    by (cases "mc_catalog_version (rq_catalog q)") (simp_all add: valid_catalog_def route_view_def list_all_iff)
qed

lemma narrowed_run:
  assumes "valid_route_request nv q" and "mc_catalog_version (rq_catalog q) \<noteq> None"
  shows "narrowed_catalog q (px_routable (pins_of q gates)) gates = Inr (route_view q gates)"
proof -
  let ?keys = "case rq_candidates q of None \<Rightarrow> px_routable (pins_of q gates)
      | Some cs \<Rightarrow> filter (\<lambda>i. i \<in> set cs) (px_routable (pins_of q gates))"
  have "filter (\<lambda>e. ce_identity e \<in> set ?keys) (mc_entries (rq_catalog q))
      = filter (routable_in_view q gates) (mc_entries (rq_catalog q))"
    by (cases "rq_candidates q") (auto simp: routable_in_view_def intro!: filter_cong)
  then have "narrowed_catalog q (px_routable (pins_of q gates)) gates = mk_catalog (route_view q gates)"
    unfolding narrowed_catalog_def Let_def if_not_P [OF assms(2)] bind_r.simps
    by (simp add: route_view_def)
  also have "\<dots> = Inr (route_view q gates)"
    using route_view_valid [OF assms(1), of gates]
    by (simp add: mk_catalog_Inr valid_catalog_def)
  finally show ?thesis .
qed

lemma selection_of_valid:
  assumes "valid_route_request nv q" and "resolve_requirement q = Inr (req, pid)"
  shows "valid_selection (nv_zones nv) (route_view q gates) (selection_of q req)"
  using assms route_view_valid [OF assms(1), of gates] resolved_requirement(1) [OF assms]
  by (simp add: valid_selection_def valid_input_def selection_of_def valid_route_request_def)

definition unambiguous :: "route_request \<Rightarrow> bool" where
  \<comment> \<open>one snapshot per provider, one replenishment state per provider and kind\<close>
  "unambiguous q = (distinct (map sn_provider (rq_snapshots q))
     \<and> distinct (map (\<lambda>s. (rp_provider s, rp_kind s)) (rq_states q)))"

definition route_selection ::
  "route_env \<Rightarrow> route_request \<Rightarrow> task_requirement \<Rightarrow> string option \<Rightarrow> selection_decision" where
  "route_selection nv q req pid =
     decision_for (nv_zones nv) (route_view q (registry_gates nv q req)) (selection_of q req) pid (profile_version q)"

lemma run_selection_run:
  assumes "valid_route_request nv q" and "resolve_requirement q = Inr (req, pid)"
  shows "(if unambiguous q then run_selection nv q (route_view q (registry_gates nv q req)) req pid None
        = Inr (route_selection nv q req pid)
      else \<not> is_ok (run_selection nv q (route_view q (registry_gates nv q req)) req pid None))"
proof -
  let ?cat = "route_view q (registry_gates nv q req)"
  note facts = resolved_requirement [OF assms]
  have sel: "run_selection nv q ?cat req pid None
      = select_with (nv_zones nv) ?cat (selection_of q req) pid (profile_version q)"
    by (simp add: run_selection_def select_with_def selection_of_def profile_version_def
        valid_request_instant [OF assms(1)])
  have "\<not> safe_id_match []" by code_simp
  then have "pid \<noteq> Some []" using facts(3) by auto
  moreover have "pid = None \<Longrightarrow> profile_version q = None" using facts(2) by (simp add: profile_version_def)
  moreover have "distinct (map ee_provider (rq_reports q))" using assms(1) by (simp add: valid_route_request_def)
  ultimately show ?thesis
    unfolding sel select_run [OF selection_of_valid [OF assms]]
    by (auto simp: selection_of_def unambiguous_def route_selection_def profile_version_def)
qed

lemma select_versioned_run:
  assumes "valid_route_request nv q" and "resolve_requirement q = Inr (req, pid)"
    and "mc_catalog_version (rq_catalog q) \<noteq> None"
  defines "gates \<equiv> registry_gates nv q req"
  shows "select_level nv q req pid (pins_of q gates) gates = Inr ml \<longleftrightarrow>
    unambiguous q \<and> ml = \<lparr>ml_selection = route_selection nv q req pid, ml_exclusions = [],
      ml_gates = (\<lambda>i. case qualified_for gates i of [] \<Rightarrow> None | gs \<Rightarrow> Some (sort_key order_key gs))\<rparr>"
  using run_selection_run [OF assms(1,2)]
  unfolding select_level_def if_not_P [OF assms(3)] select_versioned_def gates_def
    narrowed_run [OF assms(1,3)] bind_r.simps
  by (cases "unambiguous q") (auto simp: is_ok_iff bind_r_Inr_iff)

section \<open>Exclusions and targets that construct\<close>

definition explainable :: "resource_gate \<Rightarrow> bool" where
  "explainable g = sorted_ids (map target_code_str (ga_reason_codes g))"

lemma route_entries:
  assumes "valid_route_request nv q" and "e \<in> set (gs_entries (rq_registry q))"
  shows "valid_registry_entry e" and "valid_registry_entry (seen_entry q e)"
    and "valid_resource_identity (rn_identity e)" and "valid_capabilities (rn_capabilities (seen_entry q e))"
proof -
  show v: "valid_registry_entry e"
    using assms by (simp add: valid_route_request_def valid_registry_snapshot_def registry_snapshot_parts_def list_all_iff)
  then show c: "valid_registry_entry (seen_entry q e)" by (rule current_entry_valid)
  from v c show "valid_resource_identity (rn_identity e)" "valid_capabilities (rn_capabilities (seen_entry q e))"
    by (simp_all add: valid_registry_entry_def Resource_Registry.entry_parts_def)
qed

lemma exclusion_run:
  assumes v: "valid_route_request nv q" and e: "e \<in> set (gs_entries (rq_registry q))"
    and shut: "\<not> ga_qualified (the_gate nv q req e)"
  shows "is_ok (exclusion_of (the_gate nv q req e)) \<longleftrightarrow> explainable (the_gate nv q req e)"
proof -
  let ?g = "the_gate nv q req e"
  note wf = valid_request_wf [OF v]
  note facts = the_gate_facts [OF wf e, where nv = nv and req = req]
  obtain s where s: "ga_stage ?g = Some s" using shut facts(2,3) by auto
  note d = facts(6) [unfolded gate_details_def, THEN spec, THEN mp, OF s]
  have ident: "rn_identity (ga_entry ?g) = rn_identity e" by (simp add: facts(1))
  have el: "pred_option valid_eligibility (ga_eligibility ?g)"
    using d v by (cases "ga_eligibility ?g")
      (auto simp: valid_route_request_def reports_of_def list_all_iff split: if_splits)
  have common: "stage_reason_strs s \<inter> set (map target_code_str (ga_reason_codes ?g)) \<noteq> {}"
    using d by (cases "ga_reason_codes ?g") (auto simp: stage_reason_strs_def)
  show ?thesis
    using s ident el common d route_entries(3) [OF v e]
    by (auto simp: exclusion_of_def Let_def is_ok_iff mk_exclusion_Inr exclusion_parts_def valid_exclusion_def
        explainable_def valid_resource_identity_def)
qed

lemma traverse_ok_iff: "is_ok (traverse f xs) \<longleftrightarrow> (\<forall>x \<in> set xs. is_ok (f x))"
  by (induction xs) (auto simp: is_ok_iff bind_r_Inr_iff)

lemma exclusions_run:
  assumes v: "valid_route_request nv q"
  shows "is_ok (traverse exclusion_of (filter (\<lambda>g. \<not> ga_qualified g) (registry_gates nv q req))) \<longleftrightarrow>
    (\<forall>e \<in> set (gs_entries (rq_registry q)). shut_at nv q req e = None \<or> explainable (the_gate nv q req e))"
proof -
  have "set (filter (\<lambda>g. \<not> ga_qualified g) (registry_gates nv q req)) =
      the_gate nv q req ` {e \<in> set (gs_entries (rq_registry q)). shut_at nv q req e \<noteq> None}"
    using the_gate_facts(3) [OF valid_request_wf [OF v], of _ nv req] by (auto simp: registry_gates_def)
  moreover have "is_ok (exclusion_of (the_gate nv q req e)) \<longleftrightarrow> explainable (the_gate nv q req e)"
    if "e \<in> set (gs_entries (rq_registry q))" "shut_at nv q req e \<noteq> None" for e
    using exclusion_run [OF v that(1)] that the_gate_facts(3) [OF valid_request_wf [OF v] that(1), of nv req] by simp
  ultimately show ?thesis unfolding traverse_ok_iff by auto
qed

lemma sources_sorted_ids:
  assumes "valid_registry_entry e"
  shows "sorted_ids (sources_where P e)"
proof -
  have "safe_id_match (po_source p)" if "p \<in> set (matching_promotions e)" for p
    using that valid_entry_promotions [OF assms]
    by (cases "rn_observation e") (auto simp: matching_promotions_def list_all_iff valid_promotion_def)
  then show ?thesis by (auto simp: sorted_ids_def sources_where_def list_all_iff)
qed

lemma target_evidence_valid:
  assumes "valid_capabilities c"
  shows "target_evidence_ok (t\<lparr>tg_evidence_ref := ec_evidence_ref c, tg_evidence_valid_until := ec_evidence_valid_until c,
      tg_evidence_verified_at := ec_evidence_verified_at c,
      tg_evidence_runtime_version := ec_evidence_runtime_version c,
      tg_context_limit_tokens := (if ec_evidence_ref c \<noteq> None then ec_context_limit_tokens c else None)\<rparr>)"
  using assms
  by (cases "ec_evidence_ref c"; cases "ec_evidence_runtime_version c"; cases "ec_evidence_verified_at c";
      cases "ec_evidence_valid_until c"; cases "ec_context_limit_tokens c")
    (auto simp: valid_capabilities_def valid_evidence_interval_def target_evidence_ok_def)

lemma target_run:
  assumes v: "valid_route_request nv q" and e: "e \<in> set (gs_entries (rq_registry q))"
    and i: "valid_identity i" and pid: "pred_option safe_id_match pid"
    and effort: "pred_option safe_id_match (map_option effort_str effort)"
  shows "is_ok (mk_target_of (the_gate nv q req e) i pid shares effort)"
proof -
  let ?g = "the_gate nv q req e" and ?c = "rn_capabilities (seen_entry q e)"
  note facts = the_gate_facts [OF valid_request_wf [OF v] e, where nv = nv and req = req]
  define t where "t = \<lparr>tg_resource = rn_identity e, tg_model = i, tg_quota_pools = ri_quota_pool_ids (rn_identity e),
    tg_routing_profile = pid, tg_promotion_sources = ga_promotion_sources ?g, tg_shares_pool = shares,
    tg_evidence_ref = ec_evidence_ref ?c, tg_evidence_valid_until = ec_evidence_valid_until ?c,
    tg_evidence_verified_at = ec_evidence_verified_at ?c,
    tg_evidence_runtime_version = ec_evidence_runtime_version ?c,
    tg_context_limit_tokens = (if ec_evidence_ref ?c \<noteq> None then ec_context_limit_tokens ?c else None),
    tg_reasoning_effort = map_option effort_str effort\<rparr>"
  have run: "mk_target_of ?g i pid shares effort = mk_route_target t"
    by (simp add: mk_target_of_def t_def Let_def facts(1))
  have "sorted_ids (ga_promotion_sources ?g)"
    unfolding facts(7) by (rule sources_sorted_ids [OF route_entries(2) [OF v e]])
  moreover have "target_evidence_ok t"
    using target_evidence_valid [OF route_entries(4) [OF v e], of t] by (simp add: t_def)
  ultimately have "valid_route_target t"
    using route_entries(3) [OF v e] i pid effort
    by (simp add: valid_route_target_def t_def valid_resource_identity_def sorted_ids_def)
  then show ?thesis
    unfolding run by (auto simp: is_ok_iff mk_route_target_Inr valid_route_target_def)
qed

lemma expired_run:
  assumes v: "valid_route_request nv q"
  shows "\<exists>ids. expired_promotion_sources (registry_gates nv q req) (at_of q) = Inr ids \<and> sorted_ids ids"
proof -
  note wf = valid_request_wf [OF v]
  have run: "promotion_preference (ga_entry g) (at_of q)
      = Inr (sources_where (promotion_running (at_of q)) (ga_entry g), sources_where (promotion_over (at_of q)) (ga_entry g))
      \<and> sorted_ids (sources_where (promotion_over (at_of q)) (ga_entry g))"
    if g: "g \<in> set (registry_gates nv q req)" for g
  proof -
    obtain e where e: "e \<in> set (gs_entries (rq_registry q))" "ga_entry g = seen_entry q e"
      using g the_gate_facts(1) [OF wf] by (auto simp: registry_gates_mem)
    note entry = route_entries(2) [OF v e(1)]
    show ?thesis
      unfolding e(2) using promotion_preference_run [OF valid_entry_promotions [OF entry]] sources_sorted_ids [OF entry]
      by blast
  qed
  have "traverse (\<lambda>g. promotion_preference (ga_entry g) (at_of q)) (registry_gates nv q req)
      = Inr (map (\<lambda>g. (sources_where (promotion_running (at_of q)) (ga_entry g),
                       sources_where (promotion_over (at_of q)) (ga_entry g))) (registry_gates nv q req))"
    using run by (intro traverse_total) blast
  then show ?thesis
    using run by (auto simp: expired_promotion_sources_def sorted_ids_def list_all_iff comp_def)
qed

section \<open>The decision\<close>

definition PIN_CODES :: "string list" where
  "PIN_CODES = [''pinned_request_failed'', ''pin_target_not_found'', ''pin_model_not_found'']"

lemma pin_codes: "set (px_codes (pins_of q gates)) \<subseteq> set PIN_CODES"
proof -
  have members: "''pinned_request_failed'' \<in> set PIN_CODES" "''pin_target_not_found'' \<in> set PIN_CODES"
    "''pin_model_not_found'' \<in> set PIN_CODES" by (simp_all add: PIN_CODES_def)
  have "set (px_codes (apply_target_pin gates pin ids)) \<subseteq> set PIN_CODES" for pin ids
    using members by (cases pin; cases "find (\<lambda>g. gate_id g = pt_resource_id (the pin)) gates")
      (simp_all add: apply_target_pin_def)
  moreover have "set (px_codes x) \<subseteq> set PIN_CODES \<Longrightarrow> set (px_codes (apply_model_pin cat m u x)) \<subseteq> set PIN_CODES"
    for cat m u x
    using members by (simp add: apply_model_pin_def Let_def subset_iff)
  ultimately show ?thesis by (simp add: pins_of_def Let_def)
qed

lemma no_solution_codes:
  assumes "set cs \<subseteq> set PIN_CODES"
  shows "sorted_ids (sort (remdups (''no_eligible_target'' # cs)))"
    and "set (sort (remdups (''no_eligible_target'' # cs))) \<subseteq> set ROUTE_REASON_CODES"
proof -
  have ok: "list_all safe_id_match (''no_eligible_target'' # PIN_CODES)"
    "list_all (\<lambda>c. c \<in> set ROUTE_REASON_CODES) (''no_eligible_target'' # PIN_CODES)" by code_simp+
  have sub: "set (n # cs) \<subseteq> set (n # PIN_CODES)" for n using assms by auto
  have all: "list_all P (n # cs)" if "list_all P (n # PIN_CODES)" for P n
    using that sub [of n] unfolding list_all_iff by (meson subsetD)
  note sorted_simps = list_all_iff set_sort set_remdups sorted_sort distinct_sort distinct_remdups simp_thms
  show "sorted_ids (sort (remdups (''no_eligible_target'' # cs)))"
    using all [OF ok(1)] unfolding sorted_ids_def by (simp only: sorted_simps)
  show "set (sort (remdups (''no_eligible_target'' # cs))) \<subseteq> set ROUTE_REASON_CODES"
    using all [OF ok(2)] unfolding list_all_iff set_sort set_remdups by (rule_tac subsetI, simp only:)
qed

lemma decision_content: "is_ok (decision_to_dict (d\<lparr>sd_evaluated_at := Aware t\<rparr>))"
  by (simp add: decision_to_dict_def canonical_instant_def Let_def is_ok_iff bind_r_Inr_iff split: prod.split)

lemma route_decision_run:
  assumes v: "valid_route_request nv q" and "mc_catalog_version (rq_catalog q) \<noteq> None"
    and sel: "ro_selection d = route_selection nv q req pid" and schema: "ro_schema_version d = schema_of q"
    and reg: "ro_registry_revision d = gs_revision (rq_registry q)"
      "ro_registry_generated_at d = gs_generated_at (rq_registry q)"
    and unroutable: "distinct (ro_unroutable d)" and expired: "sorted_ids (ro_expired_promotions d)"
    and codes: "sorted_ids (ro_reason_codes d)" "set (ro_reason_codes d) \<subseteq> set ROUTE_REASON_CODES"
    and outcome: "check_route_outcome d (ro_reason_codes d) = Inr ()" and id: "ro_decision_id d = None"
  shows "is_ok (mk_route_decision (nv_sha nv) d)"
proof -
  have "sd_catalog_version (ro_selection d) \<noteq> None" "ro_schema_version d = 1"
    using assms(2) by (simp_all add: sel route_selection_def decision_for_def Let_def route_view_def schema schema_of_def)
  moreover have "0 \<le> ro_registry_revision d" "ts_ok (ro_registry_generated_at d)"
    using v by (simp_all add: reg valid_route_request_def valid_registry_snapshot_def)
  moreover have "distinct (map identity_key (ro_unroutable d))"
    using unroutable by (simp add: distinct_map inj_on_def)
  moreover have "is_ok (decision_to_dict (ro_selection d))"
    using decision_content [of "at_of q" "ro_selection d"]
    by (simp add: sel route_selection_def decision_for_def Let_def selection_of_def)
  then have "is_ok (route_content d)" by (auto simp: route_content_def is_ok_iff bind_r_Inr_iff)
  ultimately show ?thesis
    using expired codes outcome id
    by (auto simp: mk_route_decision_def is_ok_iff bind_r_Inr_iff valid_simps result_simps ts_text Let_def)
qed

lemma route_targets_exist:
  assumes v: "valid_route_request nv q" and versioned: "mc_catalog_version (rq_catalog q) \<noteq> None"
    and i: "valid_identity i" and pid: "pred_option safe_id_match pid"
    and gs: "gs \<noteq> []" "\<And>g. g \<in> set gs \<Longrightarrow> \<exists>e \<in> set (gs_entries (rq_registry q)). g = the_gate nv q req e"
    and pinned: "\<And>p. pinned = Some p \<Longrightarrow> \<exists>g \<in> set gs. gate_id g = gate_id p"
  shows "is_ok (route_targets q i pid pinned gs)"
proof -
  have target: "is_ok (mk_target_of g i pid shares None)" if "g \<in> set gs" for g shares
    using gs(2) [OF that] target_run [OF v _ i pid, of _ None req shares] by auto
  have effort: "target_effort q i g = Inr None" for g
    unfolding target_effort_def if_P [OF versioned] ..
  show ?thesis
  proof (cases pinned)
    case None
    obtain g rest where g: "gs = g # rest" using gs(1) by (cases gs) auto
    have "is_ok (traverse (\<lambda>h. mk_target_of h i pid (shares h) None) rest)" for shares
      unfolding traverse_ok_iff using target g by simp
    then show ?thesis
      using target [of g False] by (simp add: route_targets_def None g effort is_ok_iff bind_r_Inr_iff Let_def)
  next
    case (Some p)
    then obtain g where g: "find (\<lambda>g. gate_id g = gate_id p) gs = Some g"
      using pinned [OF Some] by (cases "find (\<lambda>g. gate_id g = gate_id p) gs") (auto simp: find_None_iff)
    then have "g \<in> set gs" by (auto simp: find_Some_iff)
    with target [of g False] show ?thesis
      by (auto simp: route_targets_def Some g effort is_ok_iff bind_r_Inr_iff)
  qed
qed

lemma view_identities:
  "ce_identity ` set (mc_entries (route_view q gates)) = {i \<in> ce_identity ` set (mc_entries (rq_catalog q)).
     i \<in> set (px_routable (pins_of q gates)) \<and> pred_option (\<lambda>cs. i \<in> set cs) (rq_candidates q)}"
  by (auto simp: route_view_def routable_in_view_def)

lemma route_selection_selected:
  assumes "valid_route_request nv q" and "resolve_requirement q = Inr (req, pid)" and "unambiguous q"
    and "sd_selected (route_selection nv q req pid) = Some c"
  shows "cv_identity c \<in> ce_identity ` set (mc_entries (route_view q (registry_gates nv q req)))"
    and "valid_identity (cv_identity c)"
proof -
  have "run_selection nv q (route_view q (registry_gates nv q req)) req pid None = Inr (route_selection nv q req pid)"
    using run_selection_run [OF assms(1,2)] assms(3) by simp
  from run_selection_selected(1) [OF this assms(4)]
  show mem: "cv_identity c \<in> ce_identity ` set (mc_entries (route_view q (registry_gates nv q req)))" .
  with route_view_valid [OF assms(1), of "registry_gates nv q req"] show "valid_identity (cv_identity c)"
    by (auto simp: valid_catalog_def list_all_iff valid_entry_def entry_parts_def)
qed

lemma selected_outcome:
  assumes v: "valid_route_request nv q" and req: "resolve_requirement q = Inr (req, pid)"
    and versioned: "mc_catalog_version (rq_catalog q) \<noteq> None" and u: "unambiguous q"
    and gates: "gates = registry_gates nv q req"
    and c: "sd_selected (route_selection nv q req pid) = Some c"
  shows "is_ok (route_targets q (cv_identity c) pid (px_gate (pins_of q gates))
      (sort_key order_key (qualified_for gates (cv_identity c))))"
    and "qualified_for gates (cv_identity c) \<noteq> []"
proof -
  let ?i = "cv_identity c" and ?px = "pins_of q gates"
  note wf = valid_request_wf [OF v]
  have routable: "?i \<in> set (px_routable ?px)"
    using route_selection_selected(1) [OF v req u c] unfolding view_identities gates by blast
  then obtain e where e: "e \<in> set (gs_entries (rq_registry q))" "?i \<in> set (serves nv q req e)" "pinned_to q (entry_id e) ?i"
    unfolding gates pins_routable [OF wf] by blast
  then have mem: "the_gate nv q req e \<in> set (qualified_for gates ?i)"
    unfolding gates qualified_for_mem [OF wf] serving_gate_def by blast
  then show "qualified_for gates ?i \<noteq> []" by auto
  have pin: "\<exists>g \<in> set (sort_key order_key (qualified_for gates ?i)). gate_id g = gate_id p"
    if p: "px_gate ?px = Some p" for p
  proof -
    obtain r where r: "rb_pinned_target (rq_request q) = Some r" "gate_id p = pt_resource_id r"
      using p by (auto simp: pins_gate find_Some_iff split: option.splits)
    with e(3) have "entry_id e = gate_id p" by (simp add: pinned_to_def)
    then show ?thesis using mem the_gate_facts(5) [OF wf e(1), of nv req] by auto
  qed
  show "is_ok (route_targets q ?i pid (px_gate ?px) (sort_key order_key (qualified_for gates ?i)))"
  proof (rule route_targets_exist [OF v versioned route_selection_selected(2) [OF v req u c] resolved_requirement(3) [OF v req]])
    show "sort_key order_key (qualified_for gates ?i) \<noteq> []" using mem by auto
    show "\<exists>e \<in> set (gs_entries (rq_registry q)). g = the_gate nv q req e"
      if "g \<in> set (sort_key order_key (qualified_for gates ?i))" for g
      using that by (auto simp: gates qualified_for_def registry_gates_mem)
  qed (rule pin)
qed

lemma outcome_run:
  assumes v: "valid_route_request nv q" and req: "resolve_requirement q = Inr (req, pid)"
    and versioned: "mc_catalog_version (rq_catalog q) \<noteq> None" and u: "unambiguous q"
    and gates: "gates = registry_gates nv q req"
    and level: "select_level nv q req pid (pins_of q gates) gates = Inr ml" and expired: "sorted_ids expired"
  shows "is_ok (route_outcome nv q pid (pins_of q gates) ml shut expired)"
proof -
  note ml = level [unfolded gates select_versioned_run [OF v req versioned], THEN conjunct2]
  let ?sel = "route_selection nv q req pid"
  have distinct: "distinct (filter P (map ce_identity (mc_entries (rq_catalog q))))" for P
    using valid_request_wf [OF v] by (simp add: route_wf_def)
  note run = route_decision_run [OF v versioned, of _ req pid]
  show ?thesis
  proof (cases "sd_selected ?sel")
    case None
    have pins: "set (px_codes (pins_of q gates) @ (if has_pin q then [''pinned_request_failed''] else [])) \<subseteq> set PIN_CODES"
      using pin_codes [of q gates] by (cases "has_pin q") (simp_all add: PIN_CODES_def)
    note codes = no_solution_codes [OF pins]
    note codes = codes(1) codes(2) [unfolded set_sort set_remdups, simplified]
    show ?thesis
      unfolding route_outcome_def ml model_level.select_convs None option.case Let_def no_solution_decision_def
      by (rule run) (simp_all add: codes distinct expired check_route_outcome_def Let_def del: remdups.simps)
  next
    case (Some c)
    note sel = selected_outcome [OF v req versioned u gates Some]
    obtain t alts where t: "route_targets q (cv_identity c) pid (px_gate (pins_of q gates))
        (sort_key order_key (qualified_for gates (cv_identity c))) = Inr (t, alts)"
      using sel(1) by (auto simp: is_ok_iff)
    have shares: "\<not> tg_shares_pool t" using route_targets_run [OF t] by blast
    have gs: "(case qualified_for gates (cv_identity c) of [] \<Rightarrow> None | gs \<Rightarrow> Some (sort_key order_key gs))
        = Some (sort_key order_key (qualified_for gates (cv_identity c)))"
      using sel(2) by (cases "qualified_for gates (cv_identity c)") simp_all
    have code: "sorted_ids [''route_selected'']" "''route_selected'' \<in> set ROUTE_REASON_CODES" by code_simp+
    show ?thesis
      unfolding route_outcome_def ml model_level.select_convs Some option.case gates [symmetric] gs t bind_r.simps
        prod.case Let_def
      by (rule run) (simp_all add: code distinct expired shares check_route_outcome_def Let_def)
  qed
qed

section \<open>Properties\<close>

text \<open>
  C4: Over a versioned catalog a valid request gets a decision unless its inputs are ambiguous (two
  snapshots of one provider or two replenishment states of one kind) or some resource with a shut gate
  fails with codes that are not in strictly ascending order. The second case is a defect: a resource that
  violates several authorization layers collects its codes in evaluation order, the typed exclusion
  refuses that list, and the whole decision is lost with the resource.
\<close>

theorem versioned_route_total:
  assumes "valid_route_request nv q" and "resolve_requirement q = Inr (req, pid)"
    and "mc_catalog_version (rq_catalog q) \<noteq> None"
  shows "is_ok (route_request_decision nv q) \<longleftrightarrow>
    unambiguous q \<and> (\<forall>e \<in> set (gs_entries (rq_registry q)).
       shut_at nv q req e = None \<or> explainable (the_gate nv q req e))"
proof -
  let ?gates = "registry_gates nv q req"
  note eq = route_decision_eq [OF valid_request_wf [OF assms(1)] assms(2) refl]
  obtain expired where expired: "expired_promotion_sources ?gates (at_of q) = Inr expired" "sorted_ids expired"
    using expired_run [OF assms(1)] by blast
  have level: "unambiguous q \<longleftrightarrow> is_ok (select_level nv q req pid (pins_of q ?gates) ?gates)"
    unfolding is_ok_iff select_versioned_run [OF assms] by blast
  note outcome = outcome_run [OF assms _ refl _ expired(2)]
  show ?thesis
    unfolding eq exclusions_run [OF assms(1), symmetric] level
    using outcome level by (auto simp: is_ok_iff bind_r_Inr_iff expired(1))
qed

theorem versioned_route_total_witness:
  "is_ok (route_request_decision sample_env (sample_route (client_grant None None) empty_binding))
   \<and> (\<exists>req. \<exists>e \<in> set (gs_entries (rq_registry (sample_route (client_grant (Some []) (Some [])) empty_binding))).
        \<not> explainable (the_gate sample_env (sample_route (client_grant (Some []) (Some [])) empty_binding) req e))"
proof
  show "is_ok (route_request_decision sample_env (sample_route (client_grant None None) empty_binding))" by code_simp
  let ?q = "sample_route (client_grant (Some []) (Some [])) empty_binding"
  have v: "valid_route_request sample_env ?q" by code_simp
  have u: "unambiguous ?q" by code_simp
  have versioned: "mc_catalog_version (rq_catalog ?q) \<noteq> None" by code_simp
  have fails: "\<not> is_ok (route_request_decision sample_env ?q)" by code_simp
  obtain req pid where r: "resolve_requirement ?q = Inr (req, pid)" using sample_requirement_runs(1) by blast
  show "\<exists>req. \<exists>e \<in> set (gs_entries (rq_registry ?q)). \<not> explainable (the_gate sample_env ?q req e)"
    using versioned_route_total [OF v r versioned] fails u by blast
qed

end
