(* ===== verification/Admission.thy ===== *)
theory Admission
  imports Route_Total
begin

text \<open>
  \<open>admit_pinned_target\<close> over a versioned catalog: the exact condition of an approval, and that every
  target a route decision names is admitted when the client pins it against the same inputs.
\<close>

section \<open>The specification\<close>

definition approves :: "admission_decision result \<Rightarrow> bool" where
  "approves r \<longleftrightarrow> (\<exists>a. r = Inr a \<and> am_approved a)"

definition admission_inputs ::
  "route_request \<Rightarrow> task_requirement \<Rightarrow> pinned_target \<Rightarrow> resource_registry_entry \<Rightarrow> gate_inputs" where
  \<comment> \<open>the gate inputs with the pin and its exact variant bound into the request\<close>
  "admission_inputs q req p e =
     gate_inputs_of q req ((rq_request q)\<lparr>rb_pinned_target := Some p,
       rb_explicit_variant := Some (mi_variant (pt_model p))\<rparr>) e"

definition admits ::
  "route_env \<Rightarrow> route_request \<Rightarrow> task_requirement \<Rightarrow> pinned_target \<Rightarrow> resource_registry_entry \<Rightarrow> bool" where
  \<comment> \<open>every gate of the resource is open and it serves the pinned identity\<close>
  "admits nv q req p e =
     (first_shut (nv_utc nv) (admission_inputs q req p e) (seen_entry q e) = None
      \<and> pt_model p \<in> set (served_identities (admission_inputs q req p e) (seen_entry q e)))"

definition sufficient :: "route_request \<Rightarrow> task_requirement \<Rightarrow> pinned_target \<Rightarrow> model_catalog_entry \<Rightarrow> bool" where
  \<comment> \<open>a candidate entry of the pinned identity that meets the requirement with the pinned effort\<close>
  "sufficient q req p c =
     (ce_identity c = pt_model p \<and> pred_option (\<lambda>cs. pt_model p \<in> set cs) (rq_candidates q)
      \<and> (pt_reasoning_effort p = None \<or> map_option effort_str (ce_reasoning_effort c) = pt_reasoning_effort p)
      \<and> meets_hard (tr_hard_constraints req) c \<and> meets_minima (tr_capability_minima req) (ce_capabilities c))"

definition admissible_pin :: "route_env \<Rightarrow> route_request \<Rightarrow> task_requirement \<Rightarrow> pinned_target \<Rightarrow> bool" where
  "admissible_pin nv q req p =
     (\<not> pin_contradicts (rq_request q) p
      \<and> (\<exists>e \<in> set (gs_entries (rq_registry q)). entry_id e = pt_resource_id p \<and> admits nv q req p e)
      \<and> (\<exists>c \<in> set (mc_entries (rq_catalog q)). sufficient q req p c))"

lemma approves_simps [simp]:
  "\<not> approves (Inl e)" "approves (Inr a) = am_approved a" "\<not> approves (rejection_of p codes x)"
  "approves (if b then r else r') = (if b then approves r else approves r')"
  by (auto simp: approves_def rejection_of_def mk_admission_def Let_def bind_r_Inr_iff split: if_splits)

lemma approves_bind: "approves (bind_r r f) \<longleftrightarrow> (\<exists>y. r = Inr y \<and> approves (f y))"
  by (auto simp: approves_def bind_r_Inr_iff)

section \<open>The narrowed catalog of one identity\<close>

lemma filter_unique:
  assumes "distinct (map f xs)" and "\<And>x. P x \<Longrightarrow> f x = a"
  shows "filter P xs = (case find P xs of None \<Rightarrow> [] | Some x \<Rightarrow> [x])"
  using assms(1)
proof (induction xs)
  case (Cons x xs)
  then show ?case
  proof (cases "P x")
    case True
    then have "\<not> P y" if "y \<in> set xs" for y
      using Cons.prems that assms(2) by (metis distinct.simps(2) image_eqI list.map(2) list.set_map)
    with True show ?thesis by (simp add: filter_empty_conv)
  qed simp
qed simp

definition candidate_entry :: "route_request \<Rightarrow> model_identity \<Rightarrow> model_catalog_entry option" where
  "candidate_entry q i =
     find (\<lambda>c. ce_identity c = i \<and> pred_option (\<lambda>cs. i \<in> set cs) (rq_candidates q)) (mc_entries (rq_catalog q))"

lemma sorted_catalog_valid:
  assumes "valid_catalog c"
  shows "valid_catalog \<lparr>mc_catalog_version = mc_catalog_version c, mc_updated_on = mc_updated_on c,
    mc_entries = sort_key entry_key (filter P (mc_entries c))\<rparr>"
proof -
  have "distinct (map entry_key (filter P (mc_entries c)))"
    using assms by (auto simp: valid_catalog_def intro: distinct_map_filter)
  then have "distinct (map entry_key (sort_key entry_key (filter P (mc_entries c))))"
    using catalog_of_sorted [of entry_key "filter P (mc_entries c)"] by simp
  with assms show ?thesis
    by (cases "mc_catalog_version c") (simp_all add: valid_catalog_def list_all_iff)
qed

lemma narrowed_single:
  assumes v: "valid_route_request nv q" and versioned: "mc_catalog_version (rq_catalog q) \<noteq> None"
  shows "\<exists>c. narrowed_catalog q [i] gs = Inr c
    \<and> mc_entries c = (case candidate_entry q i of None \<Rightarrow> [] | Some e \<Rightarrow> [e])"
proof -
  let ?keys = "case rq_candidates q of None \<Rightarrow> [i] | Some cs \<Rightarrow> filter (\<lambda>j. j \<in> set cs) [i]"
  let ?P = "\<lambda>c. ce_identity c = i \<and> pred_option (\<lambda>cs. i \<in> set cs) (rq_candidates q)"
  have "filter (\<lambda>e. ce_identity e \<in> set ?keys) (mc_entries (rq_catalog q)) = filter ?P (mc_entries (rq_catalog q))"
    by (cases "rq_candidates q") (auto intro!: filter_cong)
  moreover have "filter ?P (mc_entries (rq_catalog q)) = (case candidate_entry q i of None \<Rightarrow> [] | Some e \<Rightarrow> [e])"
    unfolding candidate_entry_def
    by (rule filter_unique [of ce_identity]) (use valid_request_wf [OF v] in \<open>auto simp: route_wf_def\<close>)
  moreover have "mk_catalog \<lparr>mc_catalog_version = mc_catalog_version (rq_catalog q),
      mc_updated_on = mc_updated_on (rq_catalog q),
      mc_entries = sort_key entry_key (filter ?P (mc_entries (rq_catalog q)))\<rparr>
    = Inr \<lparr>mc_catalog_version = mc_catalog_version (rq_catalog q), mc_updated_on = mc_updated_on (rq_catalog q),
      mc_entries = sort_key entry_key (filter ?P (mc_entries (rq_catalog q)))\<rparr>"
    using sorted_catalog_valid [of "rq_catalog q" ?P] v
    by (simp add: mk_catalog_Inr valid_catalog_def valid_route_request_def)
  ultimately show ?thesis
    unfolding narrowed_catalog_def Let_def if_not_P [OF versioned] bind_r.simps
    by (cases "candidate_entry q i") simp_all
qed

section \<open>Behind the gates\<close>

lemma candidate_entry_Some:
  "candidate_entry q i = Some c \<Longrightarrow> c \<in> set (mc_entries (rq_catalog q)) \<and> ce_identity c = i
     \<and> pred_option (\<lambda>cs. i \<in> set cs) (rq_candidates q)"
  by (auto simp: candidate_entry_def find_Some_iff)

lemma sufficient_candidate:
  assumes "route_wf q"
  shows "(\<exists>c \<in> set (mc_entries (rq_catalog q)). sufficient q req p c)
    \<longleftrightarrow> (\<exists>c. candidate_entry q (pt_model p) = Some c \<and> sufficient q req p c)"
proof
  assume "\<exists>c \<in> set (mc_entries (rq_catalog q)). sufficient q req p c"
  then obtain c where c: "c \<in> set (mc_entries (rq_catalog q))" "sufficient q req p c" by blast
  then have id: "ce_identity c = pt_model p" "pred_option (\<lambda>cs. pt_model p \<in> set cs) (rq_candidates q)"
    by (simp_all add: sufficient_def)
  with c(1) obtain d where d: "candidate_entry q (pt_model p) = Some d"
    by (cases "candidate_entry q (pt_model p)") (auto simp: candidate_entry_def find_None_iff)
  have "d = c"
    using assms candidate_entry_Some [OF d] c(1) id(1) unfolding route_wf_def distinct_map by (metis inj_onD)
  with c(2) d show "\<exists>c. candidate_entry q (pt_model p) = Some c \<and> sufficient q req p c" by blast
qed (auto dest: candidate_entry_Some)

lemma admit_bound_approves:
  assumes v: "valid_route_request nv q" and versioned: "mc_catalog_version (rq_catalog q) \<noteq> None"
    and req: "valid_requirement req"
    and target: "\<exists>t. mk_target_of g (pt_model p) pid False None = Inr t" and p: "valid_pinned_target p"
  shows "approves (admit_bound nv q p req pid g) \<longleftrightarrow>
    pt_model p \<in> set (ga_bound_identities g) \<and> (\<exists>c \<in> set (mc_entries (rq_catalog q)). sufficient q req p c)"
proof -
  obtain cat where cat: "narrowed_catalog q [pt_model p] [g] = Inr cat"
      "mc_entries cat = (case candidate_entry q (pt_model p) of None \<Rightarrow> [] | Some e \<Rightarrow> [e])"
    using narrowed_single [OF v versioned] by blast
  note iff = sufficient_candidate [OF valid_request_wf [OF v], of req p]
  show ?thesis
  proof (cases "candidate_entry q (pt_model p)")
    case None
    then show ?thesis unfolding iff by (simp add: admit_bound_def cat)
  next
    case (Some c)
    note c = candidate_entry_Some [OF Some]
    have vc: "valid_entry c" using v c by (simp add: valid_route_request_def valid_catalog_def list_all_iff)
    have req_parts: "valid_hard_constraints (tr_hard_constraints req)" "valid_minima (tr_capability_minima req)"
      using req by (simp_all add: valid_requirement_def)
    have "valid_assessments (ce_capabilities c)" using vc by (simp add: valid_entry_def entry_parts_def)
    note caps = capability_run [OF req_parts(2) this] capability_passes [OF req_parts(2) this]
    note hard = hard_constraints_run [OF req_parts(1), of c] hard_passes [OF req_parts(1), of c]
    obtain hs where hs: "evaluate_hard_constraints (tr_hard_constraints req) c = Inr hs"
        "hs = [] \<longleftrightarrow> meets_hard (tr_hard_constraints req) c" using hard by auto
    obtain fs where fs: "evaluate_capability_sufficiency (tr_capability_minima req) (ce_capabilities c) = Inr fs"
        "fs = [] \<longleftrightarrow> meets_minima (tr_capability_minima req) (ce_capabilities c)" using caps by auto
    obtain t where t: "mk_target_of g (pt_model p) pid False None = Inr t" using target by blast
    have code: "sorted_ids [''admission_approved'']" "''admission_approved'' \<in> set ADMISSION_REASON_CODES" by code_simp+
    let ?a = "\<lparr>am_resource_id = pt_resource_id p, am_approved = True, am_reason_codes = [''admission_approved''],
      am_target = Some t, am_exclusion = None, am_bound_decision_id = pt_decision_id p\<rparr>"
    have "mk_admission ?a = Inr ?a"
      using p code by (auto simp: mk_admission_def Let_def bind_r_Inr_iff valid_simps valid_pinned_target_def
          intro!: exI [of _ "[''admission_approved'']"])
    then have final: "approves (mk_admission ?a)" by simp
    show ?thesis
      unfolding iff using final
      by (simp add: admit_bound_def cat Some hs fs admit_on_capacity_def versioned t sufficient_def c
          del: not_None_eq)
  qed
qed

section \<open>The gate of the pinned resource\<close>

lemma admission_gate_run:
  assumes "route_wf q" and "e \<in> set (gs_entries (rq_registry q))"
  shows "\<exists>g. evaluate_resource (nv_utc nv) (gate_inputs_of q req b e) e = Inr g
    \<and> gate_outcome (gate_inputs_of q req b e) (seen_entry q e)
        (sources_where (promotion_running (at_of q)) (seen_entry q e))
        (first_shut (nv_utc nv) (gate_inputs_of q req b e) (seen_entry q e)) g"
proof -
  have "gate_wf (gate_inputs_of q req b e) e"
    using assms by (simp add: route_wf_def gate_wf_def list_all_iff gate_inputs_of_def)
  moreover have "gi_evaluated_at (gate_inputs_of q req b e) = at_of q" by (simp add: gate_inputs_of_def)
  ultimately show ?thesis using evaluate_resource_run [of "gate_inputs_of q req b e" e "nv_utc nv"] by simp
qed

lemma admission_target:
  assumes v: "valid_route_request nv q" and e: "e \<in> set (gs_entries (rq_registry q))"
    and "valid_identity i" and "pred_option safe_id_match pid"
    and out: "gate_outcome x (seen_entry q e) (sources_where (promotion_running (at_of q)) (seen_entry q e)) s g"
  shows "\<exists>t. mk_target_of g i pid False None = Inr t"
proof -
  note facts = the_gate_facts [OF valid_request_wf [OF v] e, where nv = nv]
  have "mk_target_of g i pid False None = mk_target_of (the_gate nv q req e) i pid False None" for req
    using out by (simp add: mk_target_of_def Let_def gate_outcome_def facts)
  moreover have "is_ok (mk_target_of (the_gate nv q req e) i pid False None)" for req
    by (rule target_run [OF v e assms(3,4)]) simp
  ultimately show ?thesis unfolding is_ok_iff by metis
qed

lemma admission_binding:
  assumes "valid_route_request nv q" and "valid_pinned_target p"
  shows "mk_request_binding ((rq_request q)\<lparr>rb_pinned_target := Some p,
      rb_explicit_variant := Some (mi_variant (pt_model p))\<rparr>)
    = Inr ((rq_request q)\<lparr>rb_pinned_target := Some p, rb_explicit_variant := Some (mi_variant (pt_model p))\<rparr>)"
proof -
  have "safe_id_match (mi_variant (pt_model p))"
    using assms(2) by (cases "pt_model p") (auto simp: valid_pinned_target_def valid_identity_def)
  with assms show ?thesis
    by (simp add: mk_request_binding_Inr valid_route_request_def valid_request_binding_def request_binding_parts_def)
qed

lemma approves_behind_gate:
  assumes "\<not> approves r" and "approves r' \<longleftrightarrow> i \<in> set bound \<and> enough" and "open \<Longrightarrow> bound = served"
  shows "approves (if \<not> open \<or> bound = [] then r else r') \<longleftrightarrow> open \<and> i \<in> set served \<and> enough"
  using assms by (cases "open"; cases "bound = []") simp_all

lemma admission_approves:
  assumes v: "valid_route_request nv q" and req: "resolve_requirement q = Inr (req, pid)"
    and versioned: "mc_catalog_version (rq_catalog q) \<noteq> None" and p: "valid_pinned_target p"
  shows "approves (admit_pinned_target nv q p) \<longleftrightarrow> admissible_pin nv q req p"
proof -
  note wf = valid_request_wf [OF v]
  let ?find = "find (\<lambda>e. entry_id e = pt_resource_id p) (gs_entries (rq_registry q))"
  note run = admit_pinned_target_def req bind_r.simps prod.case admission_binding [OF v p]
  consider (contradicts) "pin_contradicts (rq_request q) p" | (missing) "\<not> pin_contradicts (rq_request q) p" "?find = None"
    | (found) e where "\<not> pin_contradicts (rq_request q) p" "?find = Some e" by (cases ?find) auto
  then show ?thesis
  proof cases
    case contradicts
    then show ?thesis unfolding run by (simp add: admissible_pin_def)
  next
    case missing
    then show ?thesis
      unfolding run if_not_P [OF missing(1)] missing(2) option.case
      using missing(2) by (auto simp: admissible_pin_def find_None_iff)
  next
    case (found e)
    then have e: "e \<in> set (gs_entries (rq_registry q))" "entry_id e = pt_resource_id p" by (auto simp: find_Some_iff)
    have unique: "d = e" if "d \<in> set (gs_entries (rq_registry q))" "entry_id d = pt_resource_id p" for d
      using entries_unique [OF wf that(1) e(1)] that(2) e(2) by simp
    obtain g where g: "admission_gate nv q req ((rq_request q)\<lparr>rb_pinned_target := Some p,
          rb_explicit_variant := Some (mi_variant (pt_model p))\<rparr>) e = Inr g"
      and out: "gate_outcome (admission_inputs q req p e) (seen_entry q e)
          (sources_where (promotion_running (at_of q)) (seen_entry q e))
          (first_shut (nv_utc nv) (admission_inputs q req p e) (seen_entry q e)) g"
      using admission_gate_run [OF wf e(1), where nv = nv and req = req and b = "(rq_request q)\<lparr>rb_pinned_target := Some p,
          rb_explicit_variant := Some (mi_variant (pt_model p))\<rparr>"]
      unfolding admission_gate_def admission_inputs_def by blast
    have i: "valid_identity (pt_model p)" using p by (simp add: valid_pinned_target_def)
    note bound = admit_bound_approves [OF v versioned resolved_requirement(1) [OF v req]
        admission_target [OF v e(1) i resolved_requirement(3) [OF v req] out] p]
    have gate: "ga_qualified g \<longleftrightarrow> first_shut (nv_utc nv) (admission_inputs q req p e) (seen_entry q e) = None"
      "ga_qualified g \<Longrightarrow> ga_bound_identities g = served_identities (admission_inputs q req p e) (seen_entry q e)"
      using out unfolding gate_outcome_def by iprover+
    obtain r where r: "admit_pinned_target nv q p
          = (if \<not> ga_qualified g \<or> ga_bound_identities g = [] then r else admit_bound nv q p req pid g)"
        "\<not> approves r"
    proof
      show "admit_pinned_target nv q p = (if \<not> ga_qualified g \<or> ga_bound_identities g = []
          then bind_r (exclusion_of g) (\<lambda>x. rejection_of p
            (sort (''admission_rejected'' # map target_code_str (ga_reason_codes g))) (Some x))
          else admit_bound nv q p req pid g)"
        unfolding run if_not_P [OF found(1)] found(2) option.case g ..
    qed (simp add: approves_bind)
    have "approves (admit_pinned_target nv q p) \<longleftrightarrow> admits nv q req p e
        \<and> (\<exists>c \<in> set (mc_entries (rq_catalog q)). sufficient q req p c)"
      unfolding r(1) admits_def gate(1) [symmetric] conj_assoc
      by (rule approves_behind_gate [OF r(2) bound gate(2)])
    also have "\<dots> \<longleftrightarrow> admissible_pin nv q req p"
      unfolding admissible_pin_def using e found(1) unique by metis
    finally show ?thesis .
  qed
qed

section \<open>What an approval carries\<close>

definition approval :: "(admission_decision \<Rightarrow> bool) \<Rightarrow> admission_decision result \<Rightarrow> bool" where
  \<comment> \<open>a property of the decision, if it is an approval\<close>
  "approval P r \<longleftrightarrow> (\<forall>a. r = Inr a \<longrightarrow> am_approved a \<longrightarrow> P a)"

lemma approval_simps:
  "approval P (rejection_of p codes x)"
  "approval P (if b then r else r') \<longleftrightarrow> (if b then approval P r else approval P r')"
  "approval P (bind_r m f) \<longleftrightarrow> (\<forall>y. m = Inr y \<longrightarrow> approval P (f y))"
  using approves_simps(3) [of p codes x] by (auto simp: approval_def approves_def bind_r_Inr_iff)

definition target_at :: "pinned_target \<Rightarrow> resource_identity \<Rightarrow> admission_decision \<Rightarrow> bool" where
  "target_at p r a \<longleftrightarrow> (\<exists>t. am_target a = Some t \<and> tg_resource t = r \<and> tg_model t = pt_model p \<and> \<not> tg_shares_pool t)
     \<and> am_resource_id a = pt_resource_id p \<and> am_bound_decision_id a = pt_decision_id p"

lemma mk_admission_keeps:
  "mk_admission a = Inr a' \<Longrightarrow> am_target a' = am_target a \<and> am_resource_id a' = am_resource_id a
     \<and> am_bound_decision_id a' = am_bound_decision_id a"
  by (auto simp: mk_admission_def Let_def bind_r_Inr_iff split: if_splits)

lemma admit_bound_target: "approval (target_at p (rn_identity (ga_entry g))) (admit_bound nv q p req pid g)"
proof -
  have "approval (target_at p (rn_identity (ga_entry g))) (mk_admission \<lparr>am_resource_id = pt_resource_id p,
      am_approved = True, am_reason_codes = codes, am_target = Some t, am_exclusion = None,
      am_bound_decision_id = pt_decision_id p\<rparr>)"
    if "mk_target_of g (pt_model p) pid False effort = Inr t" for effort t codes
    using mk_target_of_fields [OF that]
    by (auto simp: approval_def target_at_def target_of_def dest!: mk_admission_keeps)
  then show ?thesis
    by (simp add: admit_bound_def approval_simps Let_def split: list.split option.split)
qed

lemma admission_gate_entry:
  "route_wf q \<Longrightarrow> e \<in> set (gs_entries (rq_registry q)) \<Longrightarrow> admission_gate nv q req b e = Inr g \<Longrightarrow>
     rn_identity (ga_entry g) = rn_identity e"
  using admission_gate_run [of q e nv req b] by (auto simp: admission_gate_def gate_outcome_def)

lemma approval_target:
  assumes "route_wf q"
  shows "approval (\<lambda>a. \<exists>e \<in> set (gs_entries (rq_registry q)). entry_id e = pt_resource_id p
    \<and> target_at p (rn_identity e) a) (admit_pinned_target nv q p)"
proof -
  let ?P = "\<lambda>a. \<exists>e \<in> set (gs_entries (rq_registry q)). entry_id e = pt_resource_id p \<and> target_at p (rn_identity e) a"
  have "approval ?P (admit_bound nv q p req pid g)"
    if e: "find (\<lambda>e. entry_id e = pt_resource_id p) (gs_entries (rq_registry q)) = Some e"
      and g: "admission_gate nv q req b e = Inr g" for e req b pid g
  proof -
    have mem: "e \<in> set (gs_entries (rq_registry q))" "entry_id e = pt_resource_id p" using e by (auto simp: find_Some_iff)
    show ?thesis
      using admit_bound_target [of p g nv q req pid] mem admission_gate_entry [OF assms mem(1) g]
      by (auto simp: approval_def)
  qed
  then show ?thesis
    by (auto simp: admit_pinned_target_def approval_simps split: prod.split option.split)
qed

section \<open>A recommendation is admitted\<close>

lemma requested_output:
  assumes v: "valid_route_request nv q" and req: "resolve_requirement q = Inr (req, pid)"
    and n: "rb_maximum_output_tokens (rq_request q) = Some n"
  shows "hc_minimum_output_tokens (tr_hard_constraints req) = Some n"
proof -
  obtain b s where b: "base_requirement q = Inr b"
      "structural_requirement (tr_task_level b) (rq_request q) = Inr s" "tighten_requirement b s = Inr req"
    using req by (auto simp: resolve_requirement_def bind_r_Inr_iff)
  have "valid_requirement b" by (rule base_requirement_valid [OF v b(1)])
  moreover have "valid_requirement s"
    using v b(2) by (auto simp: valid_route_request_def intro: structural_run)
  moreover have "hc_minimum_output_tokens (tr_hard_constraints s) = Some n"
    using v b(2) n by (auto simp: structural_requirement_def bind_r_Inr_iff valid_simps mk_requirement_def
        valid_route_request_def valid_request_binding_def no_hard_def)
  ultimately show ?thesis
    using b(3) by (simp add: tighten_requirement_run merged_hard_def overlay_def)
qed

lemma output_resolved:
  assumes "route_output_code caps None requested False b = None"
    and "\<And>n. requested = Some n \<Longrightarrow> \<exists>h. hard = Some h \<and> n \<le> h"
  shows "route_output_code caps hard requested True b = None"
proof (cases requested)
  case None
  then show ?thesis by (simp add: route_output_code_spec_parts)
next
  case (Some n)
  then show ?thesis
    using assms by (auto simp: route_output_code_spec_parts known_limits_def)
qed

lemma admission_context:
  assumes wf: "route_wf q" and c: "c \<in> set (mc_entries (rq_catalog q))"
    and binds: "binds (rn_identity e) version c" and pinned: "pinned_to q (entry_id e) (ce_identity c)"
    and p: "pt_model p = ce_identity c"
  shows "request_output_context (gi_request (admission_inputs q req p e)) (seen_entry q e) (rq_catalog q)
      = (hp_output_tokens (ce_hard_properties c), True)"
    and "request_output_context (rq_request q) (seen_entry q e) (rq_catalog q)
      \<in> {(None, False), (hp_output_tokens (ce_hard_properties c), True)}"
proof -
  let ?r = "rn_identity e" and ?i = "ce_identity c"
  have i: "ModelIdentity (ri_provider ?r) (ri_model ?r) (mi_variant ?i) = ?i"
    using binds by (cases ?i) (simp add: binds_def)
  have "find (\<lambda>d. ce_identity d = ?i) (mc_entries (rq_catalog q)) = Some c"
  proof (cases "find (\<lambda>d. ce_identity d = ?i) (mc_entries (rq_catalog q))")
    case None
    with c show ?thesis by (auto simp: find_None_iff)
  next
    case (Some d)
    then have "d \<in> set (mc_entries (rq_catalog q))" "ce_identity d = ?i" by (auto simp: find_Some_iff)
    with wf c have "d = c" unfolding route_wf_def distinct_map by (metis inj_onD)
    with Some show ?thesis by simp
  qed
  then have ctx: "request_output_context b (seen_entry q e) (rq_catalog q)
      = (hp_output_tokens (ce_hard_properties c), True)" if "effective_variant b ?r = Some (mi_variant ?i)" for b
    using that i by (simp add: request_output_context_def)
  show "request_output_context (gi_request (admission_inputs q req p e)) (seen_entry q e) (rq_catalog q)
      = (hp_output_tokens (ce_hard_properties c), True)"
    by (rule ctx) (simp add: admission_inputs_def gate_inputs_of_def effective_variant_def p)
  have "effective_variant (rq_request q) ?r \<in> {None, Some (mi_variant ?i)}"
    using pinned binds
    by (auto simp: effective_variant_def pinned_to_def pin_selects_def binds_def split: option.splits)
  moreover have "request_output_context b (seen_entry q e) (rq_catalog q) = (None, False)"
    if "effective_variant b ?r = None" for b
    using that by (simp add: request_output_context_def)
  ultimately show "request_output_context (rq_request q) (seen_entry q e) (rq_catalog q)
      \<in> {(None, False), (hp_output_tokens (ce_hard_properties c), True)}"
    using ctx by blast
qed

lemma effort_needed_admission:
  "effort_needed (admission_inputs q req p e) c i \<Longrightarrow> effort_needed (inputs_for q req e) c i"
  by (auto simp: effort_needed_def admission_inputs_def inputs_for_def gate_inputs_of_def)

lemma features_mono:
  "set (required_features (gi_request (admission_inputs q req p e)) b) \<subseteq> set (required_features (rq_request q) b')"
  if "b \<longrightarrow> b'"
  using that by (auto simp: required_features_def REQUEST_FEATURE_MAP_def admission_inputs_def gate_inputs_of_def)

lemma compatible_when_pinned:
  assumes v: "valid_route_request nv q" and req: "resolve_requirement q = Inr (req, pid)"
    and c: "c \<in> set (mc_entries (rq_catalog q))" and binds: "binds (rn_identity e) version c"
    and pinned: "pinned_to q (entry_id e) (ce_identity c)" and p: "pt_model p = ce_identity c"
    and hard: "meets_hard (tr_hard_constraints req) c"
    and compat: "compatible (inputs_for q req e) (seen_entry q e) b" and less: "b' \<longrightarrow> b"
  shows "compatible (admission_inputs q req p e) (seen_entry q e) b'"
proof -
  let ?hc = "tr_hard_constraints req" and ?out = "hp_output_tokens (ce_hard_properties c)"
  note ctx = admission_context [OF valid_request_wf [OF v] c binds pinned p]
  have floor: "\<exists>h. ?out = Some h \<and> n \<le> h" if "hc_minimum_output_tokens ?hc = Some n" for n
  proof -
    have "meets Hn_output ?hc c" using hard by (simp add: meets_hard_def HARD_CONSTRAINT_NAMES_def del: meets.simps)
    with that show ?thesis by (cases ?out) simp_all
  qed
  have ceiling: "\<exists>h. ?out = Some h \<and> n \<le> h" if "rb_maximum_output_tokens (rq_request q) = Some n" for n
    by (rule floor [OF requested_output [OF v req that]])
  have fields: "gi_catalog (admission_inputs q req p e) = rq_catalog q" "gi_requirement (admission_inputs q req p e) = req"
    "gi_cells (admission_inputs q req p e) = gi_cells (inputs_for q req e)"
    "rb_maximum_output_tokens (gi_request (admission_inputs q req p e)) = rb_maximum_output_tokens (rq_request q)"
    by (simp_all add: admission_inputs_def gate_inputs_of_def inputs_for_def)
  obtain hard' resolved where r: "request_output_context (rq_request q) (seen_entry q e) (rq_catalog q) = (hard', resolved)"
    by (cases "request_output_context (rq_request q) (seen_entry q e) (rq_catalog q)")
  note codes = compat [unfolded compatible_def Let_def inputs_for_simps r prod.case]
  have "route_output_code (rn_capabilities (seen_entry q e)) ?out (rb_maximum_output_tokens (rq_request q)) True True = None"
    "route_output_code (rn_capabilities (seen_entry q e)) ?out (hc_minimum_output_tokens ?hc) True False = None"
    using codes ctx(2) r output_resolved [OF _ ceiling] output_resolved [OF _ floor] by auto
  with codes features_mono [OF less, of q req p e] show ?thesis
    unfolding compatible_def Let_def fields ctx(1) prod.case by auto
qed

lemma target_admits:
  assumes v: "valid_route_request nv q" and req: "resolve_requirement q = Inr (req, pid)"
    and e: "e \<in> set (gs_entries (rq_registry q))" and serves: "ce_identity c \<in> set (serves nv q req e)"
    and c: "c \<in> set (mc_entries (rq_catalog q))" and pinned: "pinned_to q (entry_id e) (ce_identity c)"
    and p: "pt_model p = ce_identity c" and hard: "meets_hard (tr_hard_constraints req) c"
  shows "admits nv q req p e"
proof -
  let ?x = "inputs_for q req e" and ?y = "admission_inputs q req p e" and ?e = "seen_entry q e" and ?i = "ce_identity c"
  have open_gate: "first_shut (nv_utc nv) ?x ?e = None" and served: "?i \<in> set (served_identities ?x ?e)"
    using serves serves_open [OF serves] by (simp_all add: serves_def shut_at_def)
  have same: "bind_identities ?e (gi_catalog ?y) = bind_identities ?e (gi_catalog ?x)" "unblocked ?y ?e = unblocked ?x ?e"
    "authorized (nv_utc nv) (gi_assurances ?y) (gi_evaluated_at ?y) (gi_effective ?y) ?e
      = authorized (nv_utc nv) (gi_assurances ?x) (gi_evaluated_at ?x) (gi_effective ?x) ?e"
    "available ?y ?e = available ?x ?e"
    by (simp_all add: unblocked_def available_def admission_inputs_def inputs_for_def gate_inputs_of_def)
  have mem: "?i \<in> set (unblocked ?x ?e)" and compat: "compatible ?x ?e (effort_needed ?x ?e ?i)"
    using served by (simp_all add: served_identities_def)
  have binds: "binds (rn_identity e) (mc_catalog_version (rq_catalog q)) c"
  proof -
    obtain d where d: "d \<in> set (mc_entries (rq_catalog q))" "ce_identity d = ?i"
        "binds (rn_identity e) (mc_catalog_version (rq_catalog q)) d"
      using mem by (auto simp: unblocked_def bind_identities_def)
    moreover have "d = c"
      using valid_request_wf [OF v] c d(1,2) unfolding route_wf_def distinct_map by (metis inj_onD)
    ultimately show ?thesis by simp
  qed
  have "compatible ?y ?e (effort_needed ?y ?e ?i)"
    by (rule compatible_when_pinned [OF v req c binds pinned p hard compat]) (use effort_needed_admission in blast)
  then have served': "?i \<in> set (served_identities ?y ?e)" using mem same(2) by (simp add: served_identities_def)
  then have "served_identities ?y ?e \<noteq> []" by auto
  with open_gate have "first_shut (nv_utc nv) ?y ?e = None"
    unfolding first_shut_def same by (auto split: if_splits)
  with served' p show ?thesis by (simp add: admits_def)
qed

lemma targets_without_effort:
  assumes versioned: "mc_catalog_version (rq_catalog q) \<noteq> None"
    and run: "route_targets q i pid pinned gs = Inr (t, alts)"
  shows "\<forall>a \<in> set (t # alts). tg_reasoning_effort a = None"
proof -
  have effort: "target_effort q i g = Inr None" for g unfolding target_effort_def if_P [OF versioned] ..
  have made: "tg_reasoning_effort a = None" if "mk_target_of g i pid shares None = Inr a" for g shares a
    using that by (auto simp: mk_target_of_def Let_def dest!: mk_route_target_eq)
  have all: "\<forall>a \<in> set as. tg_reasoning_effort a = None"
    if "traverse (\<lambda>h. mk_target_of h i pid (shares h) None) hs = Inr as" for shares hs as
    using list_all2_matched(2) [OF that [unfolded traverse_Inr_iff]] made by blast
  show ?thesis
    using run made all by (auto simp: route_targets_def effort bind_r_Inr_iff Let_def split: option.splits list.splits)
qed

lemma selected_entry:
  assumes v: "valid_route_request nv q" and req: "resolve_requirement q = Inr (req, pid)" and u: "unambiguous q"
    and c: "sd_selected (route_selection nv q req pid) = Some cand"
  shows "\<exists>c \<in> set (mc_entries (rq_catalog q)). ce_identity c = cv_identity cand
    \<and> meets_hard (tr_hard_constraints req) c \<and> meets_minima (tr_capability_minima req) (ce_capabilities c)
    \<and> pred_option (\<lambda>cs. ce_identity c \<in> set cs) (rq_candidates q)"
proof -
  let ?view = "route_view q (registry_gates nv q req)"
  have unique: "unique_inputs (selection_of q req)"
    using u v by (simp add: unique_inputs_def selection_of_def unambiguous_def valid_route_request_def)
  have "cand \<in> set (ranked_candidates (nv_zones nv) ?view (selection_of q req))"
    using c by (auto simp: route_selection_def decision_for_def Let_def split: list.splits)
  then have "cv_identity cand \<in> cv_identity ` set (ranked_candidates (nv_zones nv) ?view (selection_of q req))"
    by (rule imageI)
  then obtain c where c: "c \<in> set (mc_entries ?view)" "ce_identity c = cv_identity cand"
      "gates_open (nv_zones nv) (selection_of q req) c"
    unfolding eligible_entries [OF selection_of_valid [OF v req] unique] by auto
  have "gate (nv_zones nv) (selection_of q req) c Xs_hard_constraint" "gate (nv_zones nv) (selection_of q req) c Xs_capability"
    using c(3) unfolding gates_open_all by blast+
  then have "meets_hard (tr_hard_constraints req) c" "meets_minima (tr_capability_minima req) (ce_capabilities c)"
    by (simp_all add: selection_of_def)
  moreover have "c \<in> set (mc_entries (rq_catalog q))" "pred_option (\<lambda>cs. ce_identity c \<in> set cs) (rq_candidates q)"
    using c(1) by (auto simp: route_view_def routable_in_view_def)
  ultimately show ?thesis using c(2) by blast
qed

lemma decision_targets:
  assumes v: "valid_route_request nv q" and req: "resolve_requirement q = Inr (req, pid)"
    and versioned: "mc_catalog_version (rq_catalog q) \<noteq> None"
    and run: "route_request_decision nv q = Inr d" and t: "t \<in> set_option (ro_target d) \<union> set (ro_alternatives d)"
  shows "executable_target nv q req t \<and> tg_reasoning_effort t = None
    \<and> (\<exists>c \<in> set (mc_entries (rq_catalog q)). ce_identity c = tg_model t
         \<and> meets_hard (tr_hard_constraints req) c \<and> meets_minima (tr_capability_minima req) (ce_capabilities c)
         \<and> pred_option (\<lambda>cs. ce_identity c \<in> set cs) (rq_candidates q))"
proof -
  note wf = valid_request_wf [OF v]
  let ?gates = "registry_gates nv q req"
  obtain t0 where t0: "ro_target d = Some t0"
    using t alternatives_need_target [OF wf req run] by (cases "ro_target d") auto
  obtain ml cand gs where level: "select_level nv q req pid (pins_of q ?gates) ?gates = Inr ml"
    and cand: "sd_selected (ml_selection ml) = Some cand" and gs: "ml_gates ml (cv_identity cand) = Some gs"
      "route_targets q (cv_identity cand) pid (px_gate (pins_of q ?gates)) gs = Inr (t0, ro_alternatives d)"
    by (rule decision_selected [OF wf req run t0])
  have mem: "t \<in> set (t0 # ro_alternatives d)" using t t0 by auto
  have ml: "unambiguous q" "ml_selection ml = route_selection nv q req pid"
    using level unfolding select_versioned_run [OF v req versioned] by simp_all
  have "executable_target nv q req t \<and> tg_model t = cv_identity cand"
    using selected_targets [OF wf refl level cand gs] mem unfolding list_all_iff by blast
  with targets_without_effort [OF versioned gs(2)] mem
    selected_entry [OF v req ml(1) cand [unfolded ml(2)]] show ?thesis by auto
qed

section \<open>Properties\<close>

text \<open>
  C7: Admission is exact. Over a versioned catalog a valid pin is approved if and only if it agrees with
  the pins of the request, names a registered resource whose gates are all open and which serves the
  pinned identity at this instant, and that identity is a candidate of the catalog that meets the merged
  requirement with the pinned effort. No ranking, preference or capacity observation takes part. An
  approval carries exactly the pinned resource with exactly the pinned identity, and echoes the
  decision identifier of the pin.
\<close>

theorem admission_exact:
  assumes "valid_route_request nv q" and "resolve_requirement q = Inr (req, pid)"
    and "mc_catalog_version (rq_catalog q) \<noteq> None" and "valid_pinned_target p"
  shows "((\<exists>a. admit_pinned_target nv q p = Inr a \<and> am_approved a) \<longleftrightarrow> admissible_pin nv q req p)
    \<and> (\<forall>a. admit_pinned_target nv q p = Inr a \<longrightarrow> am_approved a \<longrightarrow>
         (\<exists>e \<in> set (gs_entries (rq_registry q)). entry_id e = pt_resource_id p \<and> target_at p (rn_identity e) a))"
  using admission_approves [OF assms] approval_target [OF valid_request_wf [OF assms(1)], of p nv]
  unfolding approves_def approval_def by blast

text \<open>
  C6: A recommendation is executable. Over a versioned catalog, every target that a route decision names,
  the selected one and each alternative, can be pinned with the decision's identifier and is then
  approved by admission against the same inputs, although the pin resolves the exact variant and so
  brings the variant's own output limit into the compatibility gate.
\<close>

theorem recommendation_admitted:
  assumes "valid_route_request nv q" and "resolve_requirement q = Inr (req, pid)"
    and "mc_catalog_version (rq_catalog q) \<noteq> None"
    and "route_request_decision nv q = Inr d" and "t \<in> set_option (ro_target d) \<union> set (ro_alternatives d)"
    and "pred_option safe_id_match decision_id"
  shows "\<exists>p a. pin_of_target t decision_id = Inr p \<and> admit_pinned_target nv q p = Inr a \<and> am_approved a"
proof -
  from decision_targets [OF assms(1-5)] obtain e c
    where e: "e \<in> set (gs_entries (rq_registry q))" "tg_resource t = rn_identity e"
        "tg_model t \<in> set (serves nv q req e)" "pinned_to q (entry_id e) (tg_model t)"
      and c: "c \<in> set (mc_entries (rq_catalog q))" "ce_identity c = tg_model t"
        "meets_hard (tr_hard_constraints req) c" "meets_minima (tr_capability_minima req) (ce_capabilities c)"
        "pred_option (\<lambda>cs. ce_identity c \<in> set cs) (rq_candidates q)" and effort: "tg_reasoning_effort t = None"
    unfolding executable_target_def by blast
  define p where "p = \<lparr>pt_resource_id = ri_resource_id (tg_resource t), pt_model = tg_model t,
    pt_decision_id = decision_id, pt_reasoning_effort = tg_reasoning_effort t\<rparr>"
  have rid: "pt_resource_id p = entry_id e" and model: "pt_model p = ce_identity c"
    by (simp_all add: p_def e(2) entry_id_def c(2))
  have "valid_identity (ce_identity c)"
    using assms(1) c(1) by (auto simp: valid_route_request_def valid_catalog_def list_all_iff valid_entry_def entry_parts_def)
  moreover have "safe_id_match (entry_id e)"
    using route_entries(3) [OF assms(1) e(1)] by (simp add: valid_resource_identity_def entry_id_def)
  ultimately have vp: "valid_pinned_target p"
    using assms(6) rid model by (simp add: valid_pinned_target_def p_def effort)
  have pin: "pin_of_target t decision_id = Inr p"
    using pinned_target_contract.ok_mk [OF vp] by (simp add: pin_of_target_def p_def)
  have "\<not> pin_contradicts (rq_request q) p"
    using e(4) rid model c(2)
    by (auto simp: pin_contradicts_def pinned_to_def pin_selects_def split: option.splits)
  moreover have "admits nv q req p e"
    by (rule target_admits [OF assms(1,2) e(1) _ c(1) _ model c(3)]) (simp_all add: c(2) e(3,4))
  moreover have "sufficient q req p c" using c model by (simp add: sufficient_def p_def effort)
  ultimately have "admissible_pin nv q req p" using e(1) c(1) rid unfolding admissible_pin_def by metis
  then show ?thesis
    using admission_approves [OF assms(1-3) vp] pin unfolding approves_def by blast
qed

theorem admission_exact_witness:
  "\<not> approves (admit_pinned_target sample_env (sample_route (client_grant None None) empty_binding)
       \<lparr>pt_resource_id = ''r-nine'', pt_model = ModelIdentity ''zai'' ''m-two'' ''high'', pt_decision_id = None,
         pt_reasoning_effort = None\<rparr>)"
proof -
  let ?q = "sample_route (client_grant None None) empty_binding"
  let ?p = "\<lparr>pt_resource_id = ''r-nine'', pt_model = ModelIdentity ''zai'' ''m-two'' ''high'', pt_decision_id = None,
    pt_reasoning_effort = None\<rparr>"
  have v: "valid_route_request sample_env ?q" and versioned: "mc_catalog_version (rq_catalog ?q) \<noteq> None"
    and p: "valid_pinned_target ?p" by code_simp+
  obtain req pid where r: "resolve_requirement ?q = Inr (req, pid)" using sample_requirement_runs(1) by blast
  have "\<forall>e \<in> set (gs_entries (rq_registry ?q)). entry_id e \<noteq> ''r-nine''" by code_simp
  then have "\<not> admissible_pin sample_env ?q req ?p" by (auto simp: admissible_pin_def)
  then show ?thesis using admission_exact [OF v r versioned p] unfolding approves_def by blast
qed

theorem recommendation_admitted_witness:
  "\<exists>d t p a. route_request_decision sample_env (sample_route (client_grant None None) empty_binding) = Inr d
     \<and> ro_target d = Some t \<and> target_id t = ''r-two'' \<and> pin_of_target t (Some ''decision-1'') = Inr p
     \<and> admit_pinned_target sample_env (sample_route (client_grant None None) empty_binding) p = Inr a \<and> am_approved a"
proof -
  let ?q = "sample_route (client_grant None None) empty_binding"
  have v: "valid_route_request sample_env ?q" and versioned: "mc_catalog_version (rq_catalog ?q) \<noteq> None"
    and id: "pred_option safe_id_match (Some ''decision-1'')" by code_simp+
  obtain req pid where r: "resolve_requirement ?q = Inr (req, pid)" using sample_requirement_runs(1) by blast
  obtain d t where d: "route_request_decision sample_env ?q = Inr d" "ro_target d = Some t" "target_id t = ''r-two''"
    using target_ids_Some [OF sample_route_open_runs] by (elim exE conjE) (rule that)
  then have "t \<in> set_option (ro_target d) \<union> set (ro_alternatives d)" by simp
  from recommendation_admitted [OF v r versioned d(1) this id] d show ?thesis by blast
qed

end
