(* ===== verification/Route_Public.thy ===== *)
theory Route_Public
  imports Route_Spec
begin

text \<open>
  routing_core.py, the projection of a decision for a client: \<open>public_route_document\<close> and
  \<open>executable_quality_requirement\<close>. No resource identifier leaves in the public document unless the
  effective authorization of the client covers the resource.
\<close>

section \<open>Updating a document\<close>

definition dict_set :: "pymap \<Rightarrow> string \<Rightarrow> pyval \<Rightarrow> pymap" where
  \<comment> \<open>\<open>m[k] = v\<close>: in place, or at the end\<close>
  "dict_set m k v = (if py_has m k then map (\<lambda>(j, u). (j, if j = k then v else u)) m else m @ [(k, v)])"

fun dict_items :: "pyval \<Rightarrow> pymap" where
  "dict_items (PDict m) = m"
| "dict_items _ = []"

section \<open>The projection\<close>

definition visible_entries :: "route_env \<Rightarrow> route_request \<Rightarrow> resource_registry_entry list" where
  "visible_entries nv q =
     filter (\<lambda>e. authorization_failure_codes (nv_utc nv) e (effective_of q) (rq_assurances q) (Some (at_of q)) = [])
       (gs_entries (rq_registry q))"

definition visible_identities :: "route_env \<Rightarrow> route_request \<Rightarrow> model_identity list" where
  "visible_identities nv q = concat (map (\<lambda>e. bind_identities e (rq_catalog q)) (visible_entries nv q))"

definition public_rules :: "string \<Rightarrow> weekly_rule list \<Rightarrow> string list \<Rightarrow> model_identity list \<Rightarrow> pymap \<Rightarrow> pymap" where
  \<comment> \<open>the expired rules whose target covers a visible identity\<close>
  "public_rules field rules expired visible m =
     (if py_has m field then
        dict_set m field (PList (map PStr (filter (\<lambda>i. list_ex (\<lambda>r. wr_rule_id r = i
          \<and> list_ex (target_matches (wr_target r)) visible) rules) expired)))
      else m)"

definition public_selection :: "route_request \<Rightarrow> selection_decision \<Rightarrow> model_identity list \<Rightarrow> pyval result" where
  "public_selection q s visible =
     bind_r (decision_to_dict s) (\<lambda>d.
       let m = dict_set (dict_items d) ''preference_order''
             (PList (map identity_to_dict (filter (\<lambda>i. i \<in> set visible) (sd_preference_order s))));
           policy = sp_resource_policy (rq_policy q) in
       Inr (PDict (public_rules ''expired_blackout_rules'' (up_blackouts policy) (sd_expired_blackout_rules s) visible
         (public_rules ''expired_happy_hour_rules'' (up_happy_hours policy) (sd_expired_happy_hour_rules s) visible m))))"

definition public_exclusion :: "string set \<Rightarrow> target_exclusion \<Rightarrow> pyval" where
  "public_exclusion visible_ids x =
     (if tx_resource_id x \<in> visible_ids then exclusion_to_dict x
      else PDict [(''resource_id'', PStr ''restricted''), (''stage'', PStr (route_stage_str (tx_stage x))),
        (''reason_codes'', PList (map PStr (tx_reason_codes x)))])"

definition public_route_document :: "route_env \<Rightarrow> route_request \<Rightarrow> route_decision \<Rightarrow> pyval result" where
  "public_route_document nv q d =
     (let entries = visible_entries nv q; visible = visible_identities nv q in
      bind_r (route_decision_to_dict d) (\<lambda>doc.
      let m = dict_set (dict_items doc) ''unroutable_identities''
            (PList (map identity_to_dict (filter (\<lambda>i. i \<in> set visible) (ro_unroutable d)))) in
      bind_r (public_selection q (ro_selection d) visible) (\<lambda>selection.
      let m = dict_set (dict_set m ''selection'' selection) ''target_exclusions''
            (PList (map (public_exclusion (set (map entry_id entries))) (ro_exclusions d))) in
      bind_r (traverse (\<lambda>e. promotion_preference e (at_of q)) entries) (\<lambda>ps.
        Inr (PDict (dict_set m ''expired_promotions''
          (PList (map PStr (sort (remdups (concat (map snd ps))))))))))))"

definition executable_quality :: "route_request \<Rightarrow> task_requirement result" where
  \<comment> \<open>\<open>executable_quality_requirement\<close>: both \<open>replace\<close> calls construct again\<close>
  "executable_quality q =
     bind_r (mk_request_binding ((rq_request q)\<lparr>rb_maximum_output_tokens := None\<rparr>)) (\<lambda>b.
     bind_r (mk_route_request (q\<lparr>rq_request := b\<rparr>)) (\<lambda>quality.
     bind_r (resolve_requirement quality) (\<lambda>(req, _). Inr req)))"

section \<open>Disclosure\<close>

fun discloses :: "string \<Rightarrow> pyval \<Rightarrow> bool" where
  \<comment> \<open>somewhere in the document the key \<open>resource_id\<close> carries the text\<close>
  "discloses s (PDict m) = list_ex (\<lambda>kv. fst kv = ''resource_id'' \<and> snd kv = PStr s \<or> discloses s (snd kv)) m"
| "discloses s (PList vs) = list_ex (discloses s) vs"
| "discloses s _ = False"

definition entry_discloses :: "string \<Rightarrow> string \<times> pyval \<Rightarrow> bool" where
  "entry_discloses s kv \<longleftrightarrow> fst kv = ''resource_id'' \<and> snd kv = PStr s \<or> discloses s (snd kv)"

lemma discloses_dict: "discloses s (PDict m) \<longleftrightarrow> list_ex (entry_discloses s) m"
  by (simp add: entry_discloses_def [abs_def])

lemma dict_set_entries:
  "kv \<in> set (dict_set m k v) \<Longrightarrow> kv = (k, v) \<or> (fst kv \<noteq> k \<and> kv \<in> set m)"
  by (cases "map_of m k") (auto simp: dict_set_def py_has_def map_of_eq_None_iff split: if_splits)

lemma dict_set_discloses:
  assumes "list_ex (entry_discloses s) (dict_set m k v)"
  shows "list_ex (\<lambda>kv. fst kv \<noteq> k \<and> entry_discloses s kv) m \<or> entry_discloses s (k, v)"
proof -
  obtain kv where "kv \<in> set (dict_set m k v)" "entry_discloses s kv" using assms by (auto simp: list_ex_iff)
  with dict_set_entries [of kv m k v] show ?thesis by (auto simp: list_ex_iff)
qed

lemma obj_discloses:
  "discloses s (obj fs) \<longleftrightarrow> list_ex (\<lambda>(k, x). k = ''resource_id'' \<and> x = Some (PStr s)
     \<or> (\<exists>v \<in> set_option x. discloses s v)) fs"
proof -
  have "list_ex (entry_discloses s) (obj_fields fs)
      \<longleftrightarrow> list_ex (\<lambda>(k, x). k = ''resource_id'' \<and> x = Some (PStr s) \<or> (\<exists>v \<in> set_option x. discloses s v)) fs"
    by (induction fs) (auto simp: obj_fields_def entry_discloses_def map_filter_simps split: option.splits)
  then show ?thesis by (simp add: obj_def discloses_dict del: discloses.simps(1))
qed

lemma discloses_opt: "discloses s (opt_py f x) \<longleftrightarrow> (\<exists>y \<in> set_option x. discloses s (f y))"
  by (cases x) simp_all

lemma discloses_parts:
  "(\<exists>v \<in> set_option (nonempty f xs). discloses s v) \<longleftrightarrow> list_ex (discloses s \<circ> f) xs"
  "(\<exists>v \<in> set_option (nonempty_list f xs). discloses s v) \<longleftrightarrow> list_ex (discloses s \<circ> f) xs"
  "(\<exists>v \<in> set_option (true_flag b). discloses s v) \<longleftrightarrow> False"
  "(\<exists>v \<in> set_option (nonempty_codes cs). discloses s v) \<longleftrightarrow> False"
  "discloses s (codes_wire cs) \<longleftrightarrow> False"
  by (auto simp: nonempty_def nonempty_list_def true_flag_def nonempty_codes_def codes_wire_def list_ex_iff)

lemma discloses_map: "(\<exists>v \<in> set_option (map_option f x). discloses s v) \<longleftrightarrow> (\<exists>y \<in> set_option x. discloses s (f y))"
  by (cases x) simp_all

named_theorems undisclosed

lemmas disclosure = obj_discloses discloses_opt discloses_parts discloses_map list_ex_iff

lemma undisclosed_contracts [undisclosed]:
  "\<not> discloses s (identity_to_dict i)" "\<not> discloses s (model_ref_to_dict r)"
  "\<not> discloses s (minima_to_dict m)" "\<not> discloses s (hard_constraints_to_dict h)"
  "\<not> discloses s (scope_to_dict c)"
  by (auto simp: identity_to_dict_def model_ref_to_dict_def minima_to_dict_def hard_constraints_to_dict_def
      scope_to_dict_def disclosure)

lemma undisclosed_requirement [undisclosed]: "\<not> discloses s (requirement_to_dict r)"
  by (auto simp: requirement_to_dict_def disclosure undisclosed)

lemma undisclosed_evaluations [undisclosed]:
  "\<not> discloses s (eligibility_to_dict e)" "\<not> discloses s (hard_failure_to_dict h)"
  "\<not> discloses s (capability_failure_to_dict c)" "\<not> discloses s (blackout_decision_to_dict b)"
  "\<not> discloses s (happy_hour_decision_to_dict y)" "\<not> discloses s (unknown_decision_to_dict u)"
  "\<not> discloses s (reservation_decision_to_dict r)" "\<not> discloses s (evidence_window_to_dict g)"
  by (auto simp: eligibility_to_dict_def hard_failure_to_dict_def capability_failure_to_dict_def
      blackout_decision_to_dict_def happy_hour_decision_to_dict_def unknown_decision_to_dict_def
      reservation_decision_to_dict_def evidence_window_to_dict_def disclosure undisclosed)

lemma undisclosed_states [undisclosed]:
  "\<not> discloses s (replenishment_state_to_dict x)" "\<not> discloses s (replenishment_decision_to_dict d)"
  by (auto simp: replenishment_state_to_dict_def replenishment_decision_to_dict_def Let_def disclosure
      split: if_splits)

lemma undisclosed_assessments [undisclosed]:
  "\<not> discloses s (scarcity_to_dict a)" "\<not> discloses s (replenishment_evaluation_to_dict r)"
  by (auto simp: scarcity_to_dict_def replenishment_evaluation_to_dict_def disclosure undisclosed)

lemma undisclosed_candidate [undisclosed]: "\<not> discloses s (candidate_to_dict c)"
  by (auto simp: candidate_to_dict_def disclosure undisclosed)

lemma undisclosed_decision:
  "decision_to_dict d = Inr v \<Longrightarrow> \<not> discloses s v"
  by (auto simp: decision_to_dict_def bind_r_Inr_iff Let_def disclosure undisclosed split: if_splits)

lemma undisclosed_lists:
  "(\<And>x. \<not> discloses s (f x)) \<Longrightarrow> \<not> discloses s (PList (map f xs))"
  by (simp add: list_ex_iff)

lemma target_discloses: "discloses s (route_target_to_dict t) \<longleftrightarrow> s = ri_resource_id (tg_resource t)"
proof -
  have "discloses s (resource_identity_to_dict r) \<longleftrightarrow> s = ri_resource_id r" for r
    by (auto simp: resource_identity_to_dict_def disclosure)
  moreover have "\<not> discloses s (target_evidence_to_dict t)"
    by (simp add: target_evidence_to_dict_def disclosure)
  ultimately show ?thesis by (auto simp: route_target_to_dict_def disclosure undisclosed)
qed

lemma exclusion_discloses: "discloses s (exclusion_to_dict x) \<longleftrightarrow> s = tx_resource_id x"
  by (auto simp: exclusion_to_dict_def disclosure undisclosed)

lemma public_exclusion_discloses:
  "discloses s (public_exclusion ids x) \<Longrightarrow> s = ''restricted'' \<or> s \<in> ids"
  by (auto simp: public_exclusion_def exclusion_discloses list_ex_iff split: if_splits)

lemma dict_set_quiet:
  "\<not> discloses s (PDict m) \<Longrightarrow> \<not> discloses s v \<Longrightarrow> k \<noteq> ''resource_id'' \<Longrightarrow> \<not> discloses s (PDict (dict_set m k v))"
  unfolding discloses_dict using dict_set_discloses [of s m k v] by (auto simp: entry_discloses_def list_ex_iff)

lemma public_rules_quiet:
  "\<not> discloses s (PDict m) \<Longrightarrow> k \<noteq> ''resource_id'' \<Longrightarrow> \<not> discloses s (PDict (public_rules k rules ids vis m))"
  unfolding public_rules_def by (simp add: dict_set_quiet list_ex_iff del: discloses.simps(1))

lemma public_selection_quiet:
  assumes "public_selection q d vis = Inr v"
  shows "\<not> discloses s v"
proof -
  obtain w where w: "decision_to_dict d = Inr w" using assms by (auto simp: public_selection_def bind_r_Inr_iff)
  have "\<not> discloses s (PDict (dict_items w))"
    using undisclosed_decision [OF w, of s] by (cases w) simp_all
  then have "\<not> discloses s (PDict (dict_set (dict_items w) ''preference_order''
      (PList (map identity_to_dict (filter (\<lambda>i. i \<in> set vis) (sd_preference_order d))))))"
    by (rule dict_set_quiet) (simp_all add: list_ex_iff undisclosed)
  moreover have "v = PDict (public_rules ''expired_blackout_rules'' (up_blackouts (sp_resource_policy (rq_policy q)))
      (sd_expired_blackout_rules d) vis (public_rules ''expired_happy_hour_rules''
        (up_happy_hours (sp_resource_policy (rq_policy q))) (sd_expired_happy_hour_rules d) vis
        (dict_set (dict_items w) ''preference_order''
          (PList (map identity_to_dict (filter (\<lambda>i. i \<in> set vis) (sd_preference_order d)))))))"
    using assms w by (simp add: public_selection_def Let_def)
  ultimately show ?thesis by (simp add: public_rules_quiet del: discloses.simps(1))
qed

lemma decision_document_entries:
  assumes "route_decision_to_dict d = Inr doc" and "kv \<in> set (dict_items doc)" and "entry_discloses s kv"
  shows "fst kv \<in> {''selection'', ''target_exclusions'', ''unroutable_identities''}
    \<or> (\<exists>t \<in> set_option (ro_target d) \<union> set (ro_alternatives d). s = ri_resource_id (tg_resource t))"
proof -
  obtain sel i where "doc = PDict ([(''schema_version'', PInt (ro_schema_version d)),
          (''status'', PStr (route_status_str (ro_status d))), (''selection'', sel),
          (''registry_revision'', PInt (ro_registry_revision d)),
          (''registry_generated_at'', PStr (ro_registry_generated_at d)),
          (''target'', opt_py route_target_to_dict (ro_target d)),
          (''target_alternatives'', PList (map route_target_to_dict (ro_alternatives d))),
          (''unroutable_identities'', PList (map identity_to_dict (ro_unroutable d))),
          (''target_exclusions'', PList (map exclusion_to_dict (ro_exclusions d))),
          (''expired_promotions'', PList (map PStr (ro_expired_promotions d))),
          (''pinned'', PBool (ro_pinned d)),
          (''reason_codes'', PList (map PStr (ro_reason_codes d)))] @ [(''decision_id'', PStr i)])"
    using assms(1) by (auto simp: route_decision_to_dict_def route_content_def bind_r_Inr_iff split: option.splits)
  with assms(2,3) show ?thesis
    by (auto simp: entry_discloses_def discloses_opt target_discloses list_ex_iff)
qed

lemma public_document_discloses:
  assumes doc: "public_route_document nv q d = Inr doc" and s: "discloses s doc"
  shows "s = ''restricted'' \<or> s \<in> entry_id ` set (visible_entries nv q)
    \<or> (\<exists>t \<in> set_option (ro_target d) \<union> set (ro_alternatives d). s = ri_resource_id (tg_resource t))"
proof -
  obtain w sel ps where w: "route_decision_to_dict d = Inr w"
    and sel: "public_selection q (ro_selection d) (visible_identities nv q) = Inr sel"
    and d: "doc = PDict (dict_set (dict_set (dict_set (dict_set (dict_items w) ''unroutable_identities''
        (PList (map identity_to_dict (filter (\<lambda>i. i \<in> set (visible_identities nv q)) (ro_unroutable d)))))
        ''selection'' sel) ''target_exclusions'' (PList (map (public_exclusion (set (map entry_id (visible_entries nv q))))
          (ro_exclusions d)))) ''expired_promotions'' (PList (map PStr ps)))"
    using doc unfolding public_route_document_def Let_def bind_r_Inr_iff by auto
  obtain kv where kv: "kv \<in> set (dict_items doc)" "entry_discloses s kv"
    using s unfolding d discloses_dict by (auto simp: list_ex_iff)
  note steps = kv(1) [unfolded d, simplified, THEN dict_set_entries]
  have quiet: "\<not> discloses s sel" by (rule public_selection_quiet [OF sel])
  consider (exclusions) "kv = (''target_exclusions'', PList (map (public_exclusion (set (map entry_id (visible_entries nv q))))
        (ro_exclusions d)))"
    | (kept) "kv \<in> set (dict_items w)" "fst kv \<notin> {''selection'', ''target_exclusions'', ''unroutable_identities''}"
    using steps kv(2) quiet
    by (auto dest!: dict_set_entries simp: entry_discloses_def list_ex_iff undisclosed)
  then show ?thesis
  proof cases
    case exclusions
    with kv(2) show ?thesis by (auto simp: entry_discloses_def list_ex_iff dest!: public_exclusion_discloses)
  next
    case kept
    with decision_document_entries [OF w kept(1) kv(2)] show ?thesis by blast
  qed
qed

section \<open>Properties\<close>

lemma authorized_seen: "authorized utc as at eff (current_entry e t) = authorized utc as at eff e"
proof -
  have "within_limit l (current_entry e t) = within_limit l e" for l
    unfolding within_limit_def current_entry_simps ..
  moreover have "no_payg_ok utc as at (current_entry e t) = no_payg_ok utc as at e"
    unfolding no_payg_ok_def current_entry_simps ..
  ultimately show ?thesis by (simp add: authorized_iff Let_def)
qed

lemma visible_iff:
  "e \<in> set (visible_entries nv q) \<longleftrightarrow> e \<in> set (gs_entries (rq_registry q))
     \<and> authorized (nv_utc nv) (rq_assurances q) (at_of q) (effective_of q) e"
  by (simp add: visible_entries_def authorized_def)

lemma target_visible:
  assumes wf: "route_wf q" and req: "resolve_requirement q = Inr (req, pid)" and run: "route_request_decision nv q = Inr d"
    and t: "t \<in> set_option (ro_target d) \<union> set (ro_alternatives d)"
  shows "ri_resource_id (tg_resource t) \<in> entry_id ` set (visible_entries nv q)"
proof -
  obtain t0 where t0: "ro_target d = Some t0"
    using t alternatives_need_target [OF wf req run] by (cases "ro_target d") auto
  obtain ml c gs where s: "select_level nv q req pid (pins_of q (registry_gates nv q req)) (registry_gates nv q req) = Inr ml"
      "sd_selected (ml_selection ml) = Some c" "ml_gates ml (cv_identity c) = Some gs"
      "route_targets q (cv_identity c) pid (px_gate (pins_of q (registry_gates nv q req))) gs = Inr (t0, ro_alternatives d)"
    by (rule decision_selected [OF wf req run t0])
  have "t \<in> set (t0 # ro_alternatives d)" using t t0 by auto
  then obtain e where e: "e \<in> set (gs_entries (rq_registry q))" "tg_resource t = rn_identity e"
      "tg_model t \<in> set (serves nv q req e)"
    using selected_targets [OF wf refl s] unfolding list_all_iff executable_target_def by blast
  have "first_shut (nv_utc nv) (inputs_for q req e) (seen_entry q e) = None"
    using serves_open [OF e(3)] by (simp add: shut_at_def)
  then have "authorized (nv_utc nv) (rq_assurances q) (at_of q) (effective_of q) e"
    by (simp add: first_shut_def authorized_seen split: if_splits)
  with e show ?thesis by (auto simp: visible_iff entry_id_def)
qed

text \<open>
  C8: The public document discloses authorized resources only. Wherever in the document, at any depth,
  the key \<open>resource_id\<close> carries a text, that text is the placeholder \<open>restricted\<close> or the identifier of a
  registered resource which the effective authorization of the client covers at the evaluation instant,
  whichever gate the resource failed. The embedded selection and its candidates carry no resource
  identifier at all.
\<close>

theorem public_document_authorized:
  assumes "route_wf q" and "resolve_requirement q = Inr (req, pid)" and "route_request_decision nv q = Inr d"
    and "public_route_document nv q d = Inr doc" and "discloses s doc"
  shows "s = ''restricted'' \<or> (\<exists>e \<in> set (gs_entries (rq_registry q)). entry_id e = s
    \<and> authorized (nv_utc nv) (rq_assurances q) (at_of q) (effective_of q) e)"
proof -
  have "s = ''restricted'' \<or> s \<in> entry_id ` set (visible_entries nv q)"
    using public_document_discloses [OF assms(4,5)] target_visible [OF assms(1-3)] by blast
  then show ?thesis unfolding image_iff visible_iff Bex_def by blast
qed

theorem public_document_authorized_witness:
  "\<exists>d doc. route_request_decision sample_env (sample_route (client_grant (Some []) None) empty_binding) = Inr d
     \<and> public_route_document sample_env (sample_route (client_grant (Some []) None) empty_binding) d = Inr doc
     \<and> tx_resource_id ` set (ro_exclusions d) = {''r-one'', ''r-two''} \<and> \<not> discloses ''r-one'' doc"
proof -
  let ?q = "sample_route (client_grant (Some []) None) empty_binding"
  obtain req pid where r: "resolve_requirement ?q = Inr (req, pid)" using sample_requirement_runs(1) by blast
  have "case route_request_decision sample_env ?q of Inl _ \<Rightarrow> False
    | Inr d \<Rightarrow> map tx_resource_id (ro_exclusions d) = [''r-one'', ''r-two''] \<and> is_ok (public_route_document sample_env ?q d)"
    by code_simp
  then obtain d doc where d: "route_request_decision sample_env ?q = Inr d"
      "map tx_resource_id (ro_exclusions d) = [''r-one'', ''r-two'']" "public_route_document sample_env ?q d = Inr doc"
    by (auto simp: is_ok_iff split: sum.splits)
  have "list_all (\<lambda>e. authorization_failure_codes (nv_utc sample_env) e (effective_of ?q) (rq_assurances ?q)
      (Some (at_of ?q)) \<noteq> []) (gs_entries (rq_registry ?q))" by code_simp
  then have "\<not> discloses ''r-one'' doc"
    using public_document_authorized [OF sample_route_wf r d(1,3), of "''r-one''"]
    by (auto simp: list_all_iff authorized_def)
  moreover have "tx_resource_id ` set (ro_exclusions d) = set (map tx_resource_id (ro_exclusions d))" by simp
  ultimately show ?thesis using d by (auto simp del: set_map)
qed

end
