(* ===== verification/Model_Inventory.thy ===== *)
theory Model_Inventory
  imports Resource_Types
begin

text \<open>
  model_inventory.py: the bounded discovery document a worker reports (the models its execution
  sources advertise) and the derived resource identity both sides compute from it. Parsing starts
  from the decoded value (the JSON decoder of \<open>parse\<close> is the standard library's). Every object of
  the document is a record with its construction (\<open>mk_*\<close>), parser and serialiser; the closed
  vocabularies of kinds and authentication states are datatypes.
\<close>

section \<open>Vocabularies and bounds\<close>

datatype source_auth_state = Au_authenticated | Au_auth_required | Au_unverified | Au_unavailable

fun auth_state_str :: "source_auth_state \<Rightarrow> string" where
  "auth_state_str Au_authenticated = ''authenticated''"
| "auth_state_str Au_auth_required = ''auth_required''"
| "auth_state_str Au_unverified = ''unverified''"
| "auth_state_str Au_unavailable = ''unavailable''"

definition SOURCE_AUTH_STATES :: "source_auth_state list" where
  "SOURCE_AUTH_STATES = [Au_authenticated, Au_auth_required, Au_unverified, Au_unavailable]"

datatype source_kind = Codex_subscription | Zcode_subscription

fun source_kind_str :: "source_kind \<Rightarrow> string" where
  "source_kind_str Codex_subscription = ''codex_subscription''"
| "source_kind_str Zcode_subscription = ''zcode_subscription''"

definition SOURCE_KINDS :: "source_kind list" where
  "SOURCE_KINDS = [Codex_subscription, Zcode_subscription]"

interpretation auth_state_vocab: vocabulary auth_state_str SOURCE_AUTH_STATES
  by (rule vocabularyI, simp add: SOURCE_AUTH_STATES_def, case_tac x, simp_all add: SOURCE_AUTH_STATES_def)

interpretation source_kind_vocab: vocabulary source_kind_str SOURCE_KINDS
  by (rule vocabularyI, simp add: SOURCE_KINDS_def, case_tac x, simp_all add: SOURCE_KINDS_def)

definition MODEL_INVENTORY_SCHEMA_VERSION :: int where "MODEL_INVENTORY_SCHEMA_VERSION = 2"
definition MAX_SOURCES_PER_REPORT :: nat where "MAX_SOURCES_PER_REPORT = 8"
definition MAX_MODELS_PER_SOURCE :: nat where "MAX_MODELS_PER_SOURCE = 64"
definition MAX_EFFORTS_PER_MODEL :: nat where "MAX_EFFORTS_PER_MODEL = 8"
definition MAX_RUNTIME_VERSION :: nat where "MAX_RUNTIME_VERSION = 64"
definition SOURCE_ID_MAX_LENGTH :: nat where "SOURCE_ID_MAX_LENGTH = 20"
definition SLUG_MAX_LENGTH :: nat where "SLUG_MAX_LENGTH = 35"

lemmas inventory_bounds = MAX_SOURCES_PER_REPORT_def MAX_MODELS_PER_SOURCE_def MAX_EFFORTS_PER_MODEL_def
  MAX_RUNTIME_VERSION_def SOURCE_ID_MAX_LENGTH_def SLUG_MAX_LENGTH_def

abbreviation inv_exn :: "string \<Rightarrow> py_error" where
  "inv_exn \<equiv> ModelInventoryError"

definition reraise :: "string \<Rightarrow> 'a result \<Rightarrow> 'a result" where
  \<comment> \<open>\<open>except ModelInventoryError: raise\<close>, then \<open>except ValueError: raise ModelInventoryError(label)\<close>\<close>
  "reraise label r = (case r of Inl (ValueError _) \<Rightarrow> Inl (inv_exn label) | _ \<Rightarrow> r)"

definition relabel :: "string \<Rightarrow> 'a result \<Rightarrow> 'a result" where
  \<comment> \<open>\<open>except (ModelInventoryError, ValueError): raise ModelInventoryError(label)\<close>\<close>
  "relabel label r =
     (case r of Inl (ValueError _) \<Rightarrow> Inl (inv_exn label)
      | Inl (ModelInventoryError _) \<Rightarrow> Inl (inv_exn label) | _ \<Rightarrow> r)"

lemma reraise_Inr [result_simps]: "reraise l r = Inr x \<longleftrightarrow> r = Inr x"
  by (auto simp: reraise_def split: sum.splits py_error.splits)

lemma relabel_Inr [result_simps]: "relabel l r = Inr x \<longleftrightarrow> r = Inr x"
  by (auto simp: relabel_def split: sum.splits py_error.splits)

section \<open>Derived resource identities\<close>

definition source_resource_id :: "string \<Rightarrow> string \<Rightarrow> string option \<Rightarrow> string result" where
  "source_resource_id source_id slug effort =
     (if length source_id > SOURCE_ID_MAX_LENGTH then Inl (inv_exn ''source_id'')
      else if CHR '':'' \<in> set source_id \<or> (case effort of None \<Rightarrow> False | Some e \<Rightarrow> CHR '':'' \<in> set e)
        then Inl (inv_exn ''source and effort identifiers'')
      else if effort = None \<and> CHR '':'' \<in> set slug then Inl (inv_exn ''an effort-less source model'')
      else
        (let combined = source_id @ '':'' @ slug
               @ (case effort of None \<Rightarrow> [] | Some e \<Rightarrow> if e = [] then [] else '':'' @ e) in
         bind_r (v_safe_id ValueError (PStr combined) ''source_resource_id'') (\<lambda>_. Inr combined)))"

definition py_partition :: "char \<Rightarrow> string \<Rightarrow> string \<times> bool \<times> string" where
  \<comment> \<open>\<open>s.partition(c)\<close>: before, whether \<open>c\<close> occurs, after\<close>
  "py_partition c s = (takeWhile (\<lambda>x. x \<noteq> c) s, c \<in> set s, tl (dropWhile (\<lambda>x. x \<noteq> c) s))"

definition is_source_resource_id :: "string \<Rightarrow> bool" where
  "is_source_resource_id rid =
     (let (head, sep, tail) = py_partition (CHR '':'') rid in
      sep \<and> head \<noteq> [] \<and> tail \<noteq> [] \<and> length head \<le> SOURCE_ID_MAX_LENGTH)"

section \<open>Discovered models\<close>

record discovered_model =
  dm_slug :: string
  dm_reasoning_efforts :: "string list"

fun efforts_loop :: "string set \<Rightarrow> string list \<Rightarrow> string list result" where
  "efforts_loop seen [] = Inr []"
| "efforts_loop seen (e # es) =
     bind_r (v_safe_id ValueError (PStr e) ''discovered_model.reasoning_efforts'') (\<lambda>name.
       if name \<in> seen then Inl (inv_exn ''discovered_model'')
       else bind_r (efforts_loop (insert name seen) es) (\<lambda>names. Inr (name # names)))"

definition mk_discovered_model :: "discovered_model \<Rightarrow> discovered_model result" where
  "mk_discovered_model m =
     reraise ''discovered_model''
       (if length (dm_slug m) > SLUG_MAX_LENGTH then Inl (inv_exn ''discovered_model.slug'')
        else bind_r (v_safe_id ValueError (PStr (dm_slug m)) ''discovered_model.slug'') (\<lambda>slug.
          if length (dm_reasoning_efforts m) > MAX_EFFORTS_PER_MODEL then Inl (inv_exn ''discovered_model'')
          else bind_r (efforts_loop {} (dm_reasoning_efforts m)) (\<lambda>efforts.
            if length efforts > MAX_EFFORTS_PER_MODEL then Inl (inv_exn ''discovered_model'')
            else Inr \<lparr>dm_slug = slug, dm_reasoning_efforts = efforts\<rparr>)))"

definition discovered_model_to_dict :: "discovered_model \<Rightarrow> pyval" where
  "discovered_model_to_dict m =
     obj [(''slug'', Some (PStr (dm_slug m))),
          (''reasoning_efforts'', Some (PList (map PStr (dm_reasoning_efforts m))))]"

definition discovered_model_from_dict :: "pyval \<Rightarrow> discovered_model result" where
  "discovered_model_from_dict d =
     bind_r (v_exact_shape ValueError d [''slug'', ''reasoning_efforts''] [] ''discovered_model'') (\<lambda>dd.
     bind_r (v_item dd ''reasoning_efforts'' (v_list inv_exn) ''discovered_model.reasoning_efforts'') (\<lambda>raw.
     bind_r (v_item dd ''slug'' (v_str ValueError) ''discovered_model.slug'') (\<lambda>slug.
     bind_r (traverse (\<lambda>v. v_str ValueError v ''discovered_model.reasoning_efforts'') raw) (\<lambda>efforts.
       mk_discovered_model \<lparr>dm_slug = slug, dm_reasoning_efforts = efforts\<rparr>))))"

definition valid_discovered_model :: "discovered_model \<Rightarrow> bool" where
  "valid_discovered_model m =
     (length (dm_slug m) \<le> SLUG_MAX_LENGTH \<and> safe_id_match (dm_slug m)
      \<and> length (dm_reasoning_efforts m) \<le> MAX_EFFORTS_PER_MODEL
      \<and> list_all safe_id_match (dm_reasoning_efforts m) \<and> distinct (dm_reasoning_efforts m))"

lemma efforts_loop_Inr:
  "efforts_loop seen es = Inr names \<longleftrightarrow>
     names = es \<and> list_all safe_id_match es \<and> distinct es \<and> set es \<inter> seen = {}"
  by (induction es arbitrary: seen names) (auto simp: result_simps valid_simps)

lemma mk_discovered_model_Inr [valid_simps]:
  "mk_discovered_model m = Inr m' \<longleftrightarrow> m' = m \<and> valid_discovered_model m"
  by (cases m) (auto simp: mk_discovered_model_def valid_discovered_model_def efforts_loop_Inr
      result_simps valid_simps)

lemma traverse_v_str [valid_simps]:
  "traverse (\<lambda>v. v_str exn v fld) (map PStr xs) = Inr ys \<longleftrightarrow> ys = xs"
  by (induction xs arbitrary: ys) (auto simp: result_simps valid_simps)

interpretation discovered_model_contract:
  contract "\<lambda>_. True" valid_discovered_model mk_discovered_model discovered_model_from_dict
    discovered_model_to_dict
proof unfold_locales
  fix r d
  show "discovered_model_from_dict d = Inr r \<Longrightarrow> valid_discovered_model r"
    by (auto simp: discovered_model_from_dict_def bind_r_Inr_iff mk_discovered_model_Inr)
  show "valid_discovered_model r \<Longrightarrow>
      discovered_model_from_dict (discovered_model_to_dict r) = Inr r"
    by (cases r) (auto simp: discovered_model_from_dict_def discovered_model_to_dict_def shape_simps
        result_simps valid_simps)
qed (simp_all add: valid_simps)

section \<open>Source inventories\<close>

record source_inventory =
  si_source_id :: string
  si_adapter_id :: string
  si_kind :: source_kind
  si_observed_at :: string
  si_auth_state :: source_auth_state
  si_runtime_name :: string
  si_runtime_version :: string
  si_runtime_version_exact :: bool
  si_models :: "discovered_model list"

definition parse_canonical_moment :: "pyval \<Rightarrow> string \<Rightarrow> string result" where
  \<comment> \<open>the pattern only: the calendar is not consulted\<close>
  "parse_canonical_moment v fld =
     bind_r (v_str ValueError v fld) (\<lambda>text. if \<not> ts_re text then Inl (inv_exn fld) else Inr text)"

definition mk_source_inventory :: "source_inventory \<Rightarrow> source_inventory result" where
  "mk_source_inventory s =
     bind_r (v_safe_id ValueError (PStr (si_source_id s)) ''source_inventory.source_id'') (\<lambda>_.
     bind_r (v_safe_id ValueError (PStr (si_adapter_id s)) ''source_inventory.adapter_id'') (\<lambda>_.
     bind_r (parse_canonical_moment (PStr (si_observed_at s)) ''source_inventory.observed_at'') (\<lambda>_.
     bind_r (v_safe_id ValueError (PStr (si_runtime_name s)) ''source_inventory.runtime_name'') (\<lambda>_.
       if length (si_runtime_version s) > MAX_RUNTIME_VERSION
         then Inl (inv_exn ''source_inventory.runtime_version'')
       else if si_runtime_version_exact s
               \<and> validate_runtime_version (PStr (si_runtime_version s)) = None
         then Inl (inv_exn ''source_inventory'')
       else if length (si_models s) > MAX_MODELS_PER_SOURCE then Inl (inv_exn ''source_inventory'')
       else if card (set (map dm_slug (si_models s))) \<noteq> length (si_models s)
         then Inl (inv_exn ''source_inventory'')
       else Inr (s\<lparr>si_models := sort_key dm_slug (si_models s)\<rparr>)))))"

definition source_inventory_to_dict :: "source_inventory \<Rightarrow> pyval" where
  "source_inventory_to_dict s =
     obj [(''source_id'', Some (PStr (si_source_id s))),
          (''adapter_id'', Some (PStr (si_adapter_id s))),
          (''kind'', Some (PStr (source_kind_str (si_kind s)))),
          (''observed_at'', Some (PStr (si_observed_at s))),
          (''auth_state'', Some (PStr (auth_state_str (si_auth_state s)))),
          (''runtime_name'', Some (PStr (si_runtime_name s))),
          (''runtime_version'', Some (PStr (si_runtime_version s))),
          (''models'', Some (PList (map discovered_model_to_dict (si_models s)))),
          (''runtime_version_exact'', if si_runtime_version_exact s then Some (PBool True) else None)]"

definition SOURCE_INVENTORY_REQUIRED :: "string list" where
  "SOURCE_INVENTORY_REQUIRED = [''source_id'', ''adapter_id'', ''kind'', ''observed_at'', ''auth_state'',
     ''runtime_name'', ''runtime_version'', ''models'']"

definition py_get_default :: "pymap \<Rightarrow> string \<Rightarrow> pyval \<Rightarrow> pyval" where
  \<comment> \<open>\<open>m.get(k, default)\<close>\<close>
  "py_get_default m k dflt = (case map_of m k of None \<Rightarrow> dflt | Some v \<Rightarrow> v)"

definition source_inventory_validated :: "pyval \<Rightarrow> source_inventory result" where
  "source_inventory_validated d =
     bind_r (v_exact_shape ValueError d SOURCE_INVENTORY_REQUIRED [''runtime_version_exact'']
               ''source_inventory'') (\<lambda>dd.
     bind_r (v_item dd ''models'' (v_list inv_exn) ''source_inventory.models'') (\<lambda>raw.
       if length raw > MAX_MODELS_PER_SOURCE then Inl (inv_exn ''source_inventory'')
       else relabel ''source_inventory''
        (bind_r (v_item dd ''source_id'' (v_str ValueError) ''source_inventory.source_id'') (\<lambda>source_id.
         bind_r (v_item dd ''adapter_id'' (v_str ValueError) ''source_inventory.adapter_id'') (\<lambda>adapter_id.
         bind_r (v_item dd ''kind'' (v_enum ValueError source_kind_str SOURCE_KINDS)
                   ''source_inventory.kind'') (\<lambda>kind.
         bind_r (v_item dd ''observed_at'' (v_str ValueError) ''source_inventory.observed_at'') (\<lambda>observed_at.
         bind_r (v_item dd ''auth_state'' (v_enum ValueError auth_state_str SOURCE_AUTH_STATES)
                   ''source_inventory.auth_state'') (\<lambda>auth_state.
         bind_r (v_item dd ''runtime_name'' (v_str ValueError) ''source_inventory.runtime_name'') (\<lambda>name.
         bind_r (v_item dd ''runtime_version'' (v_str ValueError) ''source_inventory.runtime_version'') (\<lambda>version.
         bind_r (traverse discovered_model_from_dict raw) (\<lambda>models.
         bind_r (v_bool ValueError (py_get_default dd ''runtime_version_exact'' (PBool False))
                   ''source_inventory.runtime_version_exact'') (\<lambda>exact.
           mk_source_inventory \<lparr>si_source_id = source_id, si_adapter_id = adapter_id, si_kind = kind,
             si_observed_at = observed_at, si_auth_state = auth_state, si_runtime_name = name,
             si_runtime_version = version, si_runtime_version_exact = exact,
             si_models = models\<rparr>))))))))))))"

definition source_inventory_from_dict :: "pyval \<Rightarrow> source_inventory result" where
  "source_inventory_from_dict d = reraise ''source_inventory'' (source_inventory_validated d)"

definition source_inventory_parts :: "source_inventory \<Rightarrow> bool" where
  "source_inventory_parts s = list_all valid_discovered_model (si_models s)"

definition source_inventory_checks :: "source_inventory \<Rightarrow> bool" where
  "source_inventory_checks s =
     (safe_id_match (si_source_id s) \<and> safe_id_match (si_adapter_id s) \<and> ts_re (si_observed_at s)
      \<and> safe_id_match (si_runtime_name s) \<and> length (si_runtime_version s) \<le> MAX_RUNTIME_VERSION
      \<and> (si_runtime_version_exact s \<longrightarrow> version_ok (si_runtime_version s))
      \<and> length (si_models s) \<le> MAX_MODELS_PER_SOURCE \<and> distinct (map dm_slug (si_models s)))"

definition valid_source_inventory :: "source_inventory \<Rightarrow> bool" where
  "valid_source_inventory s =
     (source_inventory_parts s \<and> source_inventory_checks s \<and> sorted (map dm_slug (si_models s)))"

lemma mk_source_inventory_Inr [valid_simps]:
  "mk_source_inventory s = Inr s' \<longleftrightarrow>
     s' = s\<lparr>si_models := sort_key dm_slug (si_models s)\<rparr> \<and> source_inventory_checks s"
proof -
  have distinct: "card (set (map dm_slug ms)) = length ms \<longleftrightarrow> distinct (map dm_slug ms)" for ms
    using distinct_card [of "map dm_slug ms"] card_distinct [of "map dm_slug ms"] by auto
  have version: "validate_runtime_version (PStr v) \<noteq> None \<longleftrightarrow> version_ok v" for v
    by (simp add: validate_runtime_version_def version_ok_def)
  show ?thesis
    unfolding mk_source_inventory_def source_inventory_checks_def
    by (auto simp: parse_canonical_moment_def distinct version [symmetric] result_simps valid_simps
        simp del: set_map)
qed

lemma distinct_map_sort_key [simp]: "distinct (map f (sort_key g xs)) = distinct (map f xs)"
  by (rule distinct_map_mset) simp

lemma mk_source_inventory_ok:
  "source_inventory_parts s \<Longrightarrow> mk_source_inventory s = Inr s' \<Longrightarrow> valid_source_inventory s'"
  by (auto simp: mk_source_inventory_Inr valid_source_inventory_def source_inventory_parts_def
      source_inventory_checks_def list_all_iff)

lemma exact_member [shape_simps]:
  "py_get_default (obj_fields fs) k (PBool False) =
     (case map_of (obj_fields fs) k of None \<Rightarrow> PBool False | Some v \<Rightarrow> v)"
  by (simp add: py_get_default_def)

interpretation source_inventory_contract:
  contract source_inventory_parts valid_source_inventory mk_source_inventory source_inventory_from_dict
    source_inventory_to_dict
proof unfold_locales
  fix r d
  show "source_inventory_from_dict d = Inr r \<Longrightarrow> valid_source_inventory r"
    by (auto simp: source_inventory_from_dict_def source_inventory_validated_def bind_r_Inr_iff
        reraise_Inr relabel_Inr source_inventory_parts_def split: if_splits
        dest!: discovered_model_contract.list_ok mk_source_inventory_ok [rotated])
  show mk: "valid_source_inventory r \<Longrightarrow> mk_source_inventory r = Inr r"
    by (simp add: mk_source_inventory_Inr valid_source_inventory_def)
  assume ok: "valid_source_inventory r"
  then have "list_all valid_discovered_model (si_models r)" "length (si_models r) \<le> MAX_MODELS_PER_SOURCE"
    by (simp_all add: valid_source_inventory_def source_inventory_parts_def source_inventory_checks_def)
  then show "source_inventory_from_dict (source_inventory_to_dict r) = Inr r"
    using mk [OF ok]
    by (cases r; cases "si_runtime_version_exact r")
      (simp_all add: source_inventory_from_dict_def source_inventory_validated_def
        source_inventory_to_dict_def SOURCE_INVENTORY_REQUIRED_def shape_simps reraise_Inr relabel_Inr
        v_item_def v_list_def v_str_def v_bool_def discovered_model_contract.list_from_to)
qed (rule mk_source_inventory_ok)

section \<open>The report\<close>

record inventory_report =
  ir_schema_version :: int
  ir_worker_id :: string
  ir_sources :: "source_inventory list"

definition new_inventory_report ::
  "string \<Rightarrow> source_inventory list \<Rightarrow> int option \<Rightarrow> inventory_report result" where
  \<comment> \<open>\<open>ModelInventoryReport(worker_id, sources, schema_version=...)\<close>\<close>
  "new_inventory_report worker_id sources schema =
     (let version = (case schema of Some v \<Rightarrow> v
                     | None \<Rightarrow> if list_ex si_runtime_version_exact sources then 2 else 1) in
      if version \<noteq> 1 \<and> version \<noteq> MODEL_INVENTORY_SCHEMA_VERSION
        then Inl (inv_exn ''inventory.schema_version'')
      else if version = 1 \<and> list_ex si_runtime_version_exact sources then Inl (inv_exn ''inventory'')
      else bind_r (v_safe_id ValueError (PStr worker_id) ''inventory.worker_id'') (\<lambda>_.
        if length sources > MAX_SOURCES_PER_REPORT then Inl (inv_exn ''inventory'')
        else if card (set (map si_source_id sources)) \<noteq> length sources then Inl (inv_exn ''inventory'')
        else if card (set (map si_adapter_id sources)) \<noteq> length sources then Inl (inv_exn ''inventory'')
        else Inr \<lparr>ir_schema_version = version, ir_worker_id = worker_id,
                   ir_sources = sort_key si_source_id sources\<rparr>))"

definition report_source :: "inventory_report \<Rightarrow> string \<Rightarrow> source_inventory option" where
  "report_source r source_id = find (\<lambda>s. si_source_id s = source_id) (ir_sources r)"

definition inventory_report_to_dict :: "inventory_report \<Rightarrow> pyval" where
  "inventory_report_to_dict r =
     obj [(''schema_version'', Some (PInt (ir_schema_version r))),
          (''worker_id'', Some (PStr (ir_worker_id r))),
          (''sources'', Some (PList (map source_inventory_to_dict (ir_sources r))))]"

definition carries_marker :: "pyval \<Rightarrow> bool" where
  "carries_marker item = (case item of PDict m \<Rightarrow> py_has m ''runtime_version_exact'' | _ \<Rightarrow> False)"

definition inventory_report_validated :: "pyval \<Rightarrow> inventory_report result" where
  "inventory_report_validated d =
     bind_r (v_exact_shape ValueError d [''schema_version'', ''worker_id'', ''sources''] [] ''inventory'') (\<lambda>dd.
     bind_r (v_item dd ''sources'' (v_list inv_exn) ''inventory.sources'') (\<lambda>raw.
       if length raw > MAX_SOURCES_PER_REPORT then Inl (inv_exn ''inventory'')
       else if py_get dd ''schema_version'' \<in> {PInt 1, PBool True} \<and> list_ex carries_marker raw
         then Inl (inv_exn ''inventory'')
       else relabel ''inventory''
        (bind_r (v_item dd ''worker_id'' (v_str ValueError) ''inventory.worker_id'') (\<lambda>worker_id.
         bind_r (v_item dd ''schema_version'' (v_int ValueError None None) ''inventory.schema_version'') (\<lambda>version.
         bind_r (traverse source_inventory_from_dict raw) (\<lambda>sources.
           new_inventory_report worker_id sources (Some version)))))))"

definition inventory_report_from_dict :: "pyval \<Rightarrow> inventory_report result" where
  "inventory_report_from_dict d = reraise ''inventory'' (inventory_report_validated d)"

definition inventory_report_checks :: "inventory_report \<Rightarrow> bool" where
  "inventory_report_checks r =
     (ir_schema_version r \<in> {1, 2}
      \<and> (ir_schema_version r = 1 \<longrightarrow> \<not> list_ex si_runtime_version_exact (ir_sources r))
      \<and> safe_id_match (ir_worker_id r) \<and> length (ir_sources r) \<le> MAX_SOURCES_PER_REPORT
      \<and> distinct (map si_source_id (ir_sources r)) \<and> distinct (map si_adapter_id (ir_sources r)))"

definition inventory_report_parts :: "inventory_report \<Rightarrow> bool" where
  "inventory_report_parts r = list_all valid_source_inventory (ir_sources r)"

definition valid_inventory_report :: "inventory_report \<Rightarrow> bool" where
  "valid_inventory_report r =
     (inventory_report_parts r \<and> inventory_report_checks r \<and> sorted (map si_source_id (ir_sources r)))"

definition mk_inventory_report :: "inventory_report \<Rightarrow> inventory_report result" where
  "mk_inventory_report r =
     new_inventory_report (ir_worker_id r) (ir_sources r) (Some (ir_schema_version r))"

lemma mk_inventory_report_Inr [valid_simps]:
  "mk_inventory_report r = Inr r' \<longleftrightarrow>
     r' = r\<lparr>ir_sources := sort_key si_source_id (ir_sources r)\<rparr> \<and> inventory_report_checks r"
proof -
  have distinct: "card (set (map f ss)) = length ss \<longleftrightarrow> distinct (map f ss)"
    for f :: "source_inventory \<Rightarrow> string" and ss
    using distinct_card [of "map f ss"] card_distinct [of "map f ss"] by auto
  show ?thesis
    unfolding mk_inventory_report_def new_inventory_report_def inventory_report_checks_def
    by (cases r) (auto simp: Let_def distinct MODEL_INVENTORY_SCHEMA_VERSION_def result_simps valid_simps
        simp del: set_map)
qed

lemma mk_inventory_report_ok:
  "inventory_report_parts r \<Longrightarrow> mk_inventory_report r = Inr r' \<Longrightarrow> valid_inventory_report r'"
  by (auto simp: mk_inventory_report_Inr valid_inventory_report_def inventory_report_parts_def
      inventory_report_checks_def list_all_iff list_ex_iff)

lemma marker_of_wire:
  "carries_marker (source_inventory_to_dict s) = si_runtime_version_exact s"
  by (simp add: carries_marker_def source_inventory_to_dict_def obj_def py_has_obj shape_simps)

interpretation inventory_report_contract:
  contract inventory_report_parts valid_inventory_report mk_inventory_report inventory_report_from_dict
    inventory_report_to_dict
proof unfold_locales
  fix r d
  have new: "new_inventory_report w ss (Some v) =
      mk_inventory_report \<lparr>ir_schema_version = v, ir_worker_id = w, ir_sources = ss\<rparr>" for w ss v
    by (simp add: mk_inventory_report_def)
  show "inventory_report_from_dict d = Inr r \<Longrightarrow> valid_inventory_report r"
    by (auto simp: inventory_report_from_dict_def inventory_report_validated_def bind_r_Inr_iff new
        reraise_Inr relabel_Inr inventory_report_parts_def split: if_splits
        dest!: source_inventory_contract.list_ok mk_inventory_report_ok [rotated])
  show mk: "valid_inventory_report r \<Longrightarrow> mk_inventory_report r = Inr r"
    by (simp add: mk_inventory_report_Inr valid_inventory_report_def)
  assume ok: "valid_inventory_report r"
  have ex: "list_ex carries_marker (map source_inventory_to_dict ss) = list_ex si_runtime_version_exact ss" for ss
    by (induction ss) (simp_all add: marker_of_wire)
  from ok have "list_all valid_source_inventory (ir_sources r)"
    "length (ir_sources r) \<le> MAX_SOURCES_PER_REPORT"
    "ir_schema_version r = 1 \<longrightarrow> \<not> list_ex si_runtime_version_exact (ir_sources r)"
    by (simp_all add: valid_inventory_report_def inventory_report_parts_def inventory_report_checks_def)
  then show "inventory_report_from_dict (inventory_report_to_dict r) = Inr r"
    using mk [OF ok]
    by (cases r) (auto simp: inventory_report_from_dict_def inventory_report_validated_def
        inventory_report_to_dict_def ex new shape_simps result_simps reraise_Inr relabel_Inr
        v_item_def v_list_def v_str_def v_int_def source_inventory_contract.list_from_to
        simp del: mk_inventory_report_Inr)
qed (rule mk_inventory_report_ok)

end
