(* ===== verification/Source_Config.thy ===== *)
theory Source_Config
  imports Model_Inventory Timestamps
begin

text \<open>
  server_config.py, the execution-source domain: the administrator's configuration of one source
  (\<open>SourceConfig\<close>) and the attested context bounds it may carry (\<open>SourceContextEvidence\<close>), with
  construction, parser and serialiser.
\<close>

abbreviation cfg_exn :: "string \<Rightarrow> py_error" where
  "cfg_exn \<equiv> ServerConfigError"

section \<open>Attested context bounds\<close>

record source_context_evidence =
  sx_model :: string
  sx_variant :: string
  sx_runtime_version :: string
  sx_input_tokens :: int
  sx_evidence_ref :: string
  sx_valid_until :: string
  sx_verified_at :: string

definition strptime_ms :: "string \<Rightarrow> int option" where
  \<comment> \<open>\<open>datetime.strptime(s, "%Y-%m-%dT%H:%M:%S.%fZ")\<close> on a string the timestamp pattern let through,
    in milliseconds. The fields have fixed width there, so what is left to fail is a field out of
    range, or the newline that \<open>$\<close> lets through: exactly the strings that are no canonical timestamp.\<close>
  "strptime_ms s = (if ts_ok s then Some (ts_to_datetime s) else None)"

definition ms_per_365_days :: int where "ms_per_365_days = 365 * 86400000"

definition context_interval :: "string \<Rightarrow> string \<Rightarrow> unit result" where
  \<comment> \<open>the try block over the two timestamps\<close>
  "context_interval valid_until verified_at =
     (let failed = Inl (cfg_exn ''source_context.valid_until'') in
      if \<not> ts_re valid_until then failed
      else case strptime_ms valid_until of None \<Rightarrow> failed
      | Some until \<Rightarrow>
          if \<not> ts_re verified_at then failed
          else case strptime_ms verified_at of None \<Rightarrow> failed
          | Some verified \<Rightarrow>
              if verified \<ge> until \<or> until - verified > ms_per_365_days then failed else Inr ())"

definition mk_context_evidence :: "source_context_evidence \<Rightarrow> source_context_evidence result" where
  "mk_context_evidence x =
     bind_r (v_safe_id ValueError (PStr (sx_model x)) ''source_context.model'') (\<lambda>_.
     bind_r (v_safe_id ValueError (PStr (sx_variant x)) ''source_context.variant'') (\<lambda>_.
       if validate_runtime_version (PStr (sx_runtime_version x)) = None
         then Inl (cfg_exn ''source_context.runtime_version'')
       else
     bind_r (v_safe_id ValueError (PStr (sx_evidence_ref x)) ''source_context.evidence_ref'') (\<lambda>_.
       if take 6 (sx_evidence_ref x) \<noteq> ''local:'' then Inl (cfg_exn ''source_context.evidence_ref'')
       else
     bind_r (v_int ValueError (Some 1) None (PInt (sx_input_tokens x)) ''source_context.input_tokens'') (\<lambda>_.
     bind_r (context_interval (sx_valid_until x) (sx_verified_at x)) (\<lambda>_. Inr x)))))"

definition CONTEXT_EVIDENCE_REQUIRED :: "string list" where
  "CONTEXT_EVIDENCE_REQUIRED = [''model'', ''variant'', ''runtime_version'', ''input_tokens'',
     ''evidence_ref'', ''valid_until'', ''verified_at'']"

definition context_evidence_from_dict :: "pyval \<Rightarrow> source_context_evidence result" where
  "context_evidence_from_dict v =
     bind_r (v_exact_shape ValueError v CONTEXT_EVIDENCE_REQUIRED [] ''source_context'') (\<lambda>dd.
     bind_r (v_item dd ''model'' (v_str ValueError) ''source_context.model'') (\<lambda>model.
     bind_r (v_item dd ''variant'' (v_str ValueError) ''source_context.variant'') (\<lambda>variant.
     bind_r (v_item dd ''runtime_version'' (v_str ValueError) ''source_context.runtime_version'') (\<lambda>version.
     bind_r (v_item dd ''input_tokens'' (v_int ValueError (Some 1) None) ''source_context.input_tokens'') (\<lambda>tokens.
     bind_r (v_item dd ''evidence_ref'' (v_str ValueError) ''source_context.evidence_ref'') (\<lambda>ref.
     bind_r (v_item dd ''valid_until'' (v_str ValueError) ''source_context.valid_until'') (\<lambda>until.
     bind_r (v_item dd ''verified_at'' (v_str ValueError) ''source_context.verified_at'') (\<lambda>verified.
       mk_context_evidence \<lparr>sx_model = model, sx_variant = variant, sx_runtime_version = version,
         sx_input_tokens = tokens, sx_evidence_ref = ref, sx_valid_until = until,
         sx_verified_at = verified\<rparr>))))))))"

definition context_evidence_to_dict :: "source_context_evidence \<Rightarrow> pyval" where
  "context_evidence_to_dict x =
     obj [(''model'', Some (PStr (sx_model x))), (''variant'', Some (PStr (sx_variant x))),
          (''runtime_version'', Some (PStr (sx_runtime_version x))),
          (''input_tokens'', Some (PInt (sx_input_tokens x))),
          (''evidence_ref'', Some (PStr (sx_evidence_ref x))),
          (''valid_until'', Some (PStr (sx_valid_until x))),
          (''verified_at'', Some (PStr (sx_verified_at x)))]"

definition valid_context_evidence :: "source_context_evidence \<Rightarrow> bool" where
  "valid_context_evidence x =
     (safe_id_match (sx_model x) \<and> safe_id_match (sx_variant x) \<and> version_ok (sx_runtime_version x)
      \<and> safe_id_match (sx_evidence_ref x) \<and> take 6 (sx_evidence_ref x) = ''local:''
      \<and> 1 \<le> sx_input_tokens x \<and> ts_ok (sx_valid_until x) \<and> ts_ok (sx_verified_at x)
      \<and> ts_to_datetime (sx_verified_at x) < ts_to_datetime (sx_valid_until x)
      \<and> ts_to_datetime (sx_valid_until x) - ts_to_datetime (sx_verified_at x) \<le> ms_per_365_days)"

lemma context_interval_Inr [valid_simps]:
  "context_interval u v = Inr w \<longleftrightarrow>
     ts_ok u \<and> ts_ok v \<and> ts_to_datetime v < ts_to_datetime u
     \<and> ts_to_datetime u - ts_to_datetime v \<le> ms_per_365_days"
  by (auto simp: context_interval_def Let_def strptime_ms_def ts_ok_def)

lemma mk_context_evidence_Inr [valid_simps]:
  "mk_context_evidence x = Inr x' \<longleftrightarrow> x' = x \<and> valid_context_evidence x"
proof -
  have version: "validate_runtime_version (PStr v) = None \<longleftrightarrow> \<not> version_ok v" for v
    by (simp add: validate_runtime_version_def version_ok_def)
  show ?thesis
    by (auto simp: mk_context_evidence_def valid_context_evidence_def version result_simps valid_simps)
qed

interpretation context_evidence_contract:
  contract "\<lambda>_. True" valid_context_evidence mk_context_evidence context_evidence_from_dict
    context_evidence_to_dict
proof unfold_locales
  fix r d
  show "context_evidence_from_dict d = Inr r \<Longrightarrow> valid_context_evidence r"
    by (auto simp: context_evidence_from_dict_def bind_r_Inr_iff mk_context_evidence_Inr)
  assume ok: "valid_context_evidence r"
  then have "1 \<le> sx_input_tokens r" by (simp add: valid_context_evidence_def)
  with ok show "context_evidence_from_dict (context_evidence_to_dict r) = Inr r"
    by (cases r) (simp add: context_evidence_from_dict_def context_evidence_to_dict_def
        CONTEXT_EVIDENCE_REQUIRED_def shape_simps v_item_def v_str_def v_int_def mk_context_evidence_Inr)
qed (simp_all add: valid_simps)

section \<open>Source configuration\<close>

record source_config =
  sc_source_id :: string
  sc_kind :: source_kind
  sc_label :: string
  sc_worker_id :: string
  sc_entitlement :: entitlement_class
  sc_quota_pool_id :: "string option"
  sc_auto_adopt :: bool
  sc_allowed_tracks :: "string list"
  sc_allowed_models :: "string list"
  sc_capacity_scope_ids :: "string list"
  sc_context_evidence :: "source_context_evidence list"

fun source_provider :: "source_kind \<Rightarrow> string" where
  "source_provider Codex_subscription = ''openai''"
| "source_provider Zcode_subscription = ''zai''"

definition check_track :: "string \<Rightarrow> unit result" where
  "check_track track_id =
     (let (provider, sep, track) = py_partition (CHR ''/'') track_id in
      if \<not> sep then Inl (cfg_exn ''source.allowed_tracks'')
      else
        bind_r (v_safe_id ValueError (PStr provider) ''source.allowed_tracks.provider'') (\<lambda>_.
        bind_r (v_safe_id ValueError (PStr track) ''source.allowed_tracks.track'') (\<lambda>_. Inr ())))"

definition check_id :: "string \<Rightarrow> string \<Rightarrow> unit result" where
  "check_id fld s = bind_r (v_safe_id ValueError (PStr s) fld) (\<lambda>_. Inr ())"

definition evidence_key :: "source_context_evidence \<Rightarrow> string \<times> string" where
  "evidence_key x = (sx_model x, sx_variant x)"

definition mk_source_config :: "source_config \<Rightarrow> source_config result" where
  "mk_source_config c =
     (if length (sc_source_id c) > SOURCE_ID_MAX_LENGTH then Inl (cfg_exn ''source.source_id'')
      else
     bind_r (check_id ''source.source_id'' (sc_source_id c)) (\<lambda>_.
       if CHR '':'' \<in> set (sc_source_id c) then Inl (cfg_exn ''source.source_id'')
       else if sc_entitlement c \<noteq> En_subscription_included then Inl (cfg_exn ''source.entitlement'')
       else if sc_label c = [] \<or> length (sc_label c) > 200 then Inl (cfg_exn ''source.label'')
       else
     bind_r (check_id ''source.worker_id'' (sc_worker_id c)) (\<lambda>_.
     bind_r (case sc_quota_pool_id c of None \<Rightarrow> Inr () | Some p \<Rightarrow> check_id ''source.quota_pool_id'' p) (\<lambda>_.
     bind_r (each check_track (sc_allowed_tracks c)) (\<lambda>_.
       if length (sc_allowed_models c) > 64 then Inl (cfg_exn ''source.allowed_models'')
       else
     bind_r (each (check_id ''source.allowed_models'') (sc_allowed_models c)) (\<lambda>_.
       if card (set (sc_allowed_models c)) \<noteq> length (sc_allowed_models c)
         then Inl (cfg_exn ''source.allowed_models'')
       else if length (sc_capacity_scope_ids c) > 64 then Inl (cfg_exn ''source.capacity_scope_ids'')
       else
     bind_r (each (check_id ''source.capacity_scope_ids'') (sc_capacity_scope_ids c)) (\<lambda>_.
       if sort (remdups (sc_capacity_scope_ids c)) \<noteq> sc_capacity_scope_ids c
         then Inl (cfg_exn ''source.capacity_scope_ids'')
       else if length (sc_context_evidence c) > 64 then Inl (cfg_exn ''source.context_evidence'')
       else if card (set (map evidence_key (sc_context_evidence c))) \<noteq> length (sc_context_evidence c)
         then Inl (cfg_exn ''source.context_evidence'')
       else Inr c)))))))"

definition pool_id :: "source_config \<Rightarrow> string" where
  "pool_id c = (case sc_quota_pool_id c of Some p \<Rightarrow> p | None \<Rightarrow> ''pool-'' @ sc_source_id c)"

definition config_provider :: "source_config \<Rightarrow> string" where
  "config_provider c = source_provider (sc_kind c)"

definition source_config_to_dict :: "source_config \<Rightarrow> pyval" where
  "source_config_to_dict c =
     obj [(''source_id'', Some (PStr (sc_source_id c))),
          (''kind'', Some (PStr (source_kind_str (sc_kind c)))),
          (''label'', Some (PStr (sc_label c))),
          (''worker_id'', Some (PStr (sc_worker_id c))),
          (''entitlement'', Some (PStr (entitlement_str (sc_entitlement c)))),
          (''auto_adopt'', Some (PBool (sc_auto_adopt c))),
          (''quota_pool_id'', map_option PStr (sc_quota_pool_id c)),
          (''allowed_tracks'', nonempty PStr (sc_allowed_tracks c)),
          (''allowed_models'', nonempty PStr (sc_allowed_models c)),
          (''capacity_scope_ids'', nonempty PStr (sc_capacity_scope_ids c)),
          (''context_evidence'', nonempty context_evidence_to_dict (sc_context_evidence c))]"

definition SOURCE_CONFIG_OPTIONAL :: "string list" where
  "SOURCE_CONFIG_OPTIONAL = [''entitlement'', ''quota_pool_id'', ''auto_adopt'', ''allowed_tracks'',
     ''allowed_models'', ''capacity_scope_ids'', ''context_evidence'']"

definition v_strings_or_empty :: "pyval \<Rightarrow> string \<Rightarrow> string list result" where
  \<comment> \<open>\<open>()\<close> for None, else the array guard and \<open>v_str\<close> of every item\<close>
  "v_strings_or_empty v fld =
     bind_r (v_list_or_empty cfg_exn v fld) (traverse (\<lambda>x. v_str ValueError x fld))"

definition v_present :: "pymap \<Rightarrow> string \<Rightarrow> (pyval \<Rightarrow> 'a result) \<Rightarrow> 'a \<Rightarrow> 'a result" where
  \<comment> \<open>\<open>f(dd[k]) if k in dd else default\<close>\<close>
  "v_present dd k f dflt = (case map_of dd k of None \<Rightarrow> Inr dflt | Some v \<Rightarrow> f v)"

definition as_config_error :: "'a result \<Rightarrow> 'a result" where
  \<comment> \<open>\<open>except ServerConfigError: raise\<close>, then \<open>except ValueError: raise ServerConfigError(...)\<close>\<close>
  "as_config_error r = (case r of Inl (ValueError _) \<Rightarrow> Inl (cfg_exn ''source'') | _ \<Rightarrow> r)"

definition source_config_from_dict :: "pyval \<Rightarrow> source_config result" where
  "source_config_from_dict d =
     bind_r (v_exact_shape ValueError d [''source_id'', ''kind'', ''label'', ''worker_id'']
               SOURCE_CONFIG_OPTIONAL ''source'') (\<lambda>dd.
     bind_r (v_strings_or_empty (py_get dd ''allowed_tracks'') ''source.allowed_tracks'') (\<lambda>tracks.
     bind_r (v_strings_or_empty (py_get dd ''allowed_models'') ''source.allowed_models'') (\<lambda>models.
     bind_r (v_strings_or_empty (py_get dd ''capacity_scope_ids'') ''source.capacity_scope_ids'') (\<lambda>scopes.
     bind_r (v_list_of cfg_exn context_evidence_from_dict (py_get_default dd ''context_evidence'' (PList []))
               ''source.context_evidence'') (\<lambda>evidence.
       as_config_error
        (bind_r (v_item dd ''source_id'' (v_str ValueError) ''source.source_id'') (\<lambda>source_id.
         bind_r (v_item dd ''kind'' (v_enum ValueError source_kind_str SOURCE_KINDS) ''source.kind'') (\<lambda>kind.
         bind_r (v_item dd ''label'' (v_str ValueError) ''source.label'') (\<lambda>label.
         bind_r (v_item dd ''worker_id'' (v_str ValueError) ''source.worker_id'') (\<lambda>worker_id.
         bind_r (v_present dd ''entitlement'' (\<lambda>v. v_enum ValueError entitlement_str ENTITLEMENT_CLASSES v
                   ''source.entitlement'') En_subscription_included) (\<lambda>entitlement.
         bind_r (v_present dd ''quota_pool_id'' (\<lambda>v. bind_r (v_str ValueError v ''source.quota_pool_id'')
                   (\<lambda>s. Inr (Some s))) None) (\<lambda>pool.
         bind_r (v_present dd ''auto_adopt'' (\<lambda>v. v_bool ValueError v ''source.auto_adopt'') True) (\<lambda>auto.
           mk_source_config \<lparr>sc_source_id = source_id, sc_kind = kind, sc_label = label,
             sc_worker_id = worker_id, sc_entitlement = entitlement, sc_quota_pool_id = pool,
             sc_auto_adopt = auto, sc_allowed_tracks = tracks, sc_allowed_models = models,
             sc_capacity_scope_ids = scopes, sc_context_evidence = evidence\<rparr>)))))))))))))"

section \<open>The invariant of a live configuration\<close>

definition track_ok :: "string \<Rightarrow> bool" where
  "track_ok t = (let (provider, sep, track) = py_partition (CHR ''/'') t in
     sep \<and> safe_id_match provider \<and> safe_id_match track)"

definition source_config_parts :: "source_config \<Rightarrow> bool" where
  "source_config_parts c = list_all valid_context_evidence (sc_context_evidence c)"

definition source_config_checks :: "source_config \<Rightarrow> bool" where
  "source_config_checks c =
     (length (sc_source_id c) \<le> SOURCE_ID_MAX_LENGTH \<and> safe_id_match (sc_source_id c)
      \<and> CHR '':'' \<notin> set (sc_source_id c) \<and> sc_entitlement c = En_subscription_included
      \<and> sc_label c \<noteq> [] \<and> length (sc_label c) \<le> 200 \<and> safe_id_match (sc_worker_id c)
      \<and> pred_option safe_id_match (sc_quota_pool_id c) \<and> list_all track_ok (sc_allowed_tracks c)
      \<and> length (sc_allowed_models c) \<le> 64 \<and> list_all safe_id_match (sc_allowed_models c)
      \<and> distinct (sc_allowed_models c) \<and> length (sc_capacity_scope_ids c) \<le> 64
      \<and> list_all safe_id_match (sc_capacity_scope_ids c) \<and> sorted (sc_capacity_scope_ids c)
      \<and> distinct (sc_capacity_scope_ids c) \<and> length (sc_context_evidence c) \<le> 64
      \<and> distinct (map evidence_key (sc_context_evidence c)))"

definition valid_source_config :: "source_config \<Rightarrow> bool" where
  "valid_source_config c = (source_config_parts c \<and> source_config_checks c)"

lemma check_id_Inr [valid_simps]: "check_id fld s = Inr u \<longleftrightarrow> safe_id_match s"
  by (auto simp: check_id_def result_simps valid_simps)

lemma check_track_Inr [valid_simps]: "check_track t = Inr u \<longleftrightarrow> track_ok t"
  by (auto simp: check_track_def track_ok_def result_simps valid_simps split: prod.splits)

lemma opt_id_Inr [valid_simps]:
  "(case p of None \<Rightarrow> Inr x | Some q \<Rightarrow> check_id fld q) = Inr u \<longleftrightarrow> pred_option safe_id_match p"
  by (cases p) (auto simp: valid_simps)

lemma card_set_length: "card (set xs) = length xs \<longleftrightarrow> distinct xs"
  using distinct_card [of xs] card_distinct [of xs] by auto

lemma card_map_length: "card (set (map f xs)) = length xs \<longleftrightarrow> distinct (map f xs)"
  using card_set_length [of "map f xs"] by simp

lemma if_Inl_Inr: "(if b then Inl e else r) = Inr x \<longleftrightarrow> \<not> b \<and> r = Inr x"
  by simp

lemma sort_remdups_iff: "sort (remdups xs) = (xs :: 'a :: linorder list) \<longleftrightarrow> sorted xs \<and> distinct xs"
  using sort_key_remdups_iff [of "\<lambda>x. x" xs] by simp

lemma bind_unit_Inr: "bind_r m (\<lambda>_. r) = Inr x \<longleftrightarrow> m = Inr () \<and> r = Inr x"
  for m :: "unit result"
  by (cases m) auto

lemma mk_source_config_Inr [valid_simps]:
  "mk_source_config c = Inr c' \<longleftrightarrow> c' = c \<and> source_config_checks c"
  unfolding mk_source_config_def source_config_checks_def if_Inl_Inr bind_unit_Inr
    check_id_Inr opt_id_Inr each_Inr check_track_Inr card_set_length card_map_length sort_remdups_iff
  by (auto simp: not_less)

lemma as_config_error_Inr [result_simps]: "as_config_error r = Inr x \<longleftrightarrow> r = Inr x"
  by (auto simp: as_config_error_def split: sum.splits py_error.splits)

lemma strings_member [shape_simps]:
  "v_strings_or_empty (opt_py (\<lambda>v. v) (nonempty PStr xs)) fld = Inr xs"
  by (simp add: v_strings_or_empty_def v_list_or_empty_nonempty valid_simps)

lemma present_member [shape_simps]:
  "v_present (obj_fields fs) k f dflt =
     (case map_of (obj_fields fs) k of None \<Rightarrow> Inr dflt | Some v \<Rightarrow> f v)"
  by (simp add: v_present_def)

lemma default_member [shape_simps]:
  "py_get_default (obj_fields fs) k (PList []) =
     (case map_of (obj_fields fs) k of None \<Rightarrow> PList [] | Some v \<Rightarrow> v)"
  by (simp add: py_get_default_def)

lemma evidence_list_member [shape_simps]:
  "(case nonempty f xs of None \<Rightarrow> PList [] | Some v \<Rightarrow> v) = PList (map f xs)"
  by (simp add: nonempty_def)

interpretation source_config_contract:
  contract source_config_parts valid_source_config mk_source_config source_config_from_dict
    source_config_to_dict
proof unfold_locales
  fix r r' d
  show "source_config_parts r \<Longrightarrow> mk_source_config r = Inr r' \<Longrightarrow> valid_source_config r'"
    by (simp add: mk_source_config_Inr valid_source_config_def)
  show "valid_source_config r \<Longrightarrow> mk_source_config r = Inr r"
    by (simp add: mk_source_config_Inr valid_source_config_def)
  show "source_config_from_dict d = Inr r \<Longrightarrow> valid_source_config r"
    by (auto simp: source_config_from_dict_def bind_r_Inr_iff as_config_error_Inr mk_source_config_Inr
        valid_source_config_def source_config_parts_def dest!: context_evidence_contract.list_of_ok)
  assume "valid_source_config r"
  then have "mk_source_config r = Inr r" "list_all valid_context_evidence (sc_context_evidence r)"
    by (simp_all add: mk_source_config_Inr valid_source_config_def source_config_parts_def)
  then show "source_config_from_dict (source_config_to_dict r) = Inr r"
    by (cases r; cases "sc_quota_pool_id r")
      (simp_all add: source_config_from_dict_def source_config_to_dict_def SOURCE_CONFIG_OPTIONAL_def
        shape_simps as_config_error_Inr v_item_def v_str_def v_bool_def
        context_evidence_contract.list_from_to)
qed

end
