(* ===== verification/Execution_Sources.thy ===== *)
theory Execution_Sources
  imports Source_Config Resource_Registry Model_Catalog
begin

text \<open>
  execution_sources.py: the server's half of discovery. \<open>SourceRegistry\<close> keeps one mutable state per
  configured source; an inventory report adopts models into exact derived resources or retires
  them, and the projections (registrations, catalog entries, ownership, the source view) read the
  state. The registry is passed explicitly. An operation that mutates before it raises returns the
  state it leaves behind beside its result. Dictionaries are association lists in insertion order;
  \<open>retired\<close>, whose values are all None, is the list of its keys.
\<close>

section \<open>Vocabulary\<close>

definition RETIRE_AFTER_MISSES :: int where "RETIRE_AFTER_MISSES = 3"
definition MAX_RETAINED_RETIRED :: nat where "MAX_RETAINED_RETIRED = 64"
definition MAX_SLUG_LENGTH :: nat where "MAX_SLUG_LENGTH = 40"
definition PLAN_LANE_VARIANT :: string where "PLAN_LANE_VARIANT = ''plan''"

datatype adoption_state = Ad_discovered | Ad_routable | Ad_retired

fun adoption_state_str :: "adoption_state \<Rightarrow> string" where
  "adoption_state_str Ad_discovered = ''discovered''"
| "adoption_state_str Ad_routable = ''routable''"
| "adoption_state_str Ad_retired = ''retired''"

datatype adoption_exclusion =
    Ex_model_not_allowed | Ex_legacy_track_policy | Ex_plan_lane_unverified | Ex_adoption_disabled
  | Ex_source_not_authenticated | Ex_effort_not_reported

fun adoption_exclusion_str :: "adoption_exclusion \<Rightarrow> string" where
  "adoption_exclusion_str Ex_model_not_allowed = ''model_not_allowed''"
| "adoption_exclusion_str Ex_legacy_track_policy = ''legacy_track_policy''"
| "adoption_exclusion_str Ex_plan_lane_unverified = ''plan_lane_unverified''"
| "adoption_exclusion_str Ex_adoption_disabled = ''adoption_disabled''"
| "adoption_exclusion_str Ex_source_not_authenticated = ''source_not_authenticated''"
| "adoption_exclusion_str Ex_effort_not_reported = ''effort_not_reported''"

fun adapter_prefix :: "source_kind \<Rightarrow> string" where
  \<comment> \<open>\<open>_ADAPTER_PREFIX_BY_KIND\<close>\<close>
  "adapter_prefix Codex_subscription = ''codex''"
| "adapter_prefix Zcode_subscription = ''zcode''"

fun surface_capabilities :: "source_kind \<Rightarrow> pymap" where
  \<comment> \<open>\<open>CODEX_SURFACE_CAPABILITIES\<close> and \<open>ZCODE_SURFACE_CAPABILITIES\<close> through \<open>_SURFACE_CAPABILITIES_BY_KIND\<close>\<close>
  "surface_capabilities Codex_subscription =
     [(''streaming'', PBool True), (''tool_calls'', PBool True), (''structured_output'', PBool True),
      (''reasoning_controls'', PBool True), (''usage_reporting'', PBool True),
      (''cancellation'', PBool True), (''output_limit_control'', PBool False)]"
| "surface_capabilities Zcode_subscription =
     [(''streaming'', PBool False), (''tool_calls'', PBool False), (''structured_output'', PBool False),
      (''reasoning_controls'', PBool False), (''usage_reporting'', PNone),
      (''cancellation'', PBool True), (''output_limit_control'', PBool False)]"

definition policy_effort :: "string \<Rightarrow> bool" where
  \<comment> \<open>\<open>effort in REASONING_EFFORTS\<close>\<close>
  "policy_effort e = (e \<in> set (map effort_str REASONING_EFFORTS))"

section \<open>State\<close>

record adoption_decision =
  ad_slug :: string
  ad_state :: adoption_state
  ad_reason :: "adoption_exclusion option"
  ad_resource_id :: "string option"
  ad_efforts :: "string list"

record source_state =
  ss_config :: source_config
  ss_inventory :: "source_inventory option"
  ss_routable :: "string set"
  ss_adopted :: "(string \<times> string list) list"
  ss_miss_counts :: "(string \<times> int) list"
  ss_retired :: "string list"
  ss_decisions :: "adoption_decision list"

record source_registry =
  sr_ttl :: int
  sr_sources :: "(string \<times> source_state) list"

definition new_source_state :: "source_config \<Rightarrow> source_state" where
  "new_source_state config = \<lparr>ss_config = config, ss_inventory = None, ss_routable = {}, ss_adopted = [],
     ss_miss_counts = [], ss_retired = [], ss_decisions = []\<rparr>"

definition new_source_registry :: "int \<Rightarrow> source_registry" where
  "new_source_registry ttl = \<lparr>sr_ttl = ttl, sr_sources = []\<rparr>"

section \<open>Configuration\<close>

fun sync_loop ::
  "source_config list \<Rightarrow> (string \<times> source_state) list \<Rightarrow> (string \<times> source_state) list
     \<Rightarrow> (string \<times> source_state) list" where
  \<comment> \<open>the surviving state object is shared by the old and the new dictionary, so assigning its
    configuration shows in both\<close>
  "sync_loop [] old kept = kept"
| "sync_loop (config # configs) old kept =
     (let sid = sc_source_id config;
          existing = (case map_of old sid of
              None \<Rightarrow> None
            | Some st \<Rightarrow>
                if sc_worker_id (ss_config st) \<noteq> sc_worker_id config
                   \<or> sc_kind (ss_config st) \<noteq> sc_kind config then None else Some st)
      in case existing of
           None \<Rightarrow> sync_loop configs old (AList.update sid (new_source_state config) kept)
         | Some st \<Rightarrow>
             (let st' = st\<lparr>ss_config := config\<rparr> in
              sync_loop configs (AList.update sid st' old) (AList.update sid st' kept)))"

definition sync_configuration :: "source_config list \<Rightarrow> source_registry \<Rightarrow> source_registry" where
  "sync_configuration configs reg = reg\<lparr>sr_sources := sync_loop configs (sr_sources reg) []\<rparr>"

definition has_source :: "source_registry \<Rightarrow> string \<Rightarrow> bool" where
  "has_source reg source_id = (map_of (sr_sources reg) source_id \<noteq> None)"

section \<open>Adoption\<close>

definition derived_id :: "string \<Rightarrow> string \<Rightarrow> string option \<Rightarrow> string result" where
  \<comment> \<open>\<open>_resource_id\<close>\<close>
  "derived_id source_id slug effort =
     (if length slug > MAX_SLUG_LENGTH then Inl (SourceAdoptionError ''discovered slug'')
      else source_resource_id source_id slug effort)"

definition current_exclusion :: "source_config \<Rightarrow> string \<Rightarrow> adoption_exclusion option" where
  "current_exclusion config slug =
     (if \<not> sc_auto_adopt config then Some Ex_adoption_disabled
      else if sc_allowed_tracks config \<noteq> [] then Some Ex_legacy_track_policy
      else if slug \<notin> set (sc_allowed_models config) then Some Ex_model_not_allowed
      else None)"

definition plan_managed :: "source_config \<Rightarrow> bool" where
  "plan_managed config = (sc_kind config = Zcode_subscription)"

definition adoption_exclusion_of ::
  "source_config \<Rightarrow> source_auth_state \<Rightarrow> discovered_model \<Rightarrow> adoption_exclusion option" where
  \<comment> \<open>the guards of the model loop in order; None is the adopting path\<close>
  "adoption_exclusion_of config auth m =
     (let authenticated = (auth = Au_authenticated);
          healthy = (auth = Au_authenticated \<or> auth = Au_unverified);
          slug = dm_slug m; efforts = dm_reasoning_efforts m in
      if \<not> sc_auto_adopt config then Some Ex_adoption_disabled
      else if sc_allowed_tracks config \<noteq> [] then Some Ex_legacy_track_policy
      else if slug \<notin> set (sc_allowed_models config) then Some Ex_model_not_allowed
      else if plan_managed config \<and> (slug \<noteq> ''plan-managed'' \<or> efforts \<noteq> []) then Some Ex_plan_lane_unverified
      else if plan_managed config \<and> \<not> healthy then Some Ex_source_not_authenticated
      else if \<not> plan_managed config \<and> \<not> authenticated then Some Ex_source_not_authenticated
      else if \<not> plan_managed config \<and> \<not> list_ex policy_effort efforts then Some Ex_effort_not_reported
      else None)"

definition decision_of ::
  "discovered_model \<Rightarrow> adoption_exclusion option \<Rightarrow> string option \<Rightarrow> adoption_decision" where
  "decision_of m reason rid =
     \<lparr>ad_slug = dm_slug m, ad_state = (if reason = None then Ad_routable else Ad_discovered),
      ad_reason = reason, ad_resource_id = rid, ad_efforts = dm_reasoning_efforts m\<rparr>"

definition adopt_model ::
  "source_config \<Rightarrow> discovered_model \<Rightarrow> source_state \<Rightarrow> source_state \<times> adoption_decision result" where
  \<comment> \<open>the adopting path: every derived id is computed before the adoption state changes\<close>
  "adopt_model config m st =
     (let slug = dm_slug m; sid = sc_source_id config in
      if plan_managed config then
        (case derived_id sid slug None of
           Inl e \<Rightarrow> (st, Inl e)
         | Inr rid \<Rightarrow> (st\<lparr>ss_adopted := AList.update slug [] (ss_adopted st)\<rparr>,
                      Inr (decision_of m None (Some rid))))
      else
        (let policy_efforts = sort (filter policy_effort (dm_reasoning_efforts m)) in
         case traverse (\<lambda>e. derived_id sid slug (Some e)) policy_efforts of
           Inl e \<Rightarrow> (st, Inl e)
         | Inr _ \<Rightarrow>
             (let st' = st\<lparr>ss_adopted := AList.update slug (dm_reasoning_efforts m) (ss_adopted st)\<rparr> in
              (st', bind_r (derived_id sid slug (Some (hd policy_efforts)))
                      (\<lambda>rid. Inr (decision_of m None (Some rid)))))))"

fun decide_loop ::
  "source_config \<Rightarrow> source_auth_state \<Rightarrow> discovered_model list \<Rightarrow> source_state
     \<Rightarrow> string set \<Rightarrow> adoption_decision list
     \<Rightarrow> source_state \<times> (string set \<times> adoption_decision list) result" where
  "decide_loop config auth [] st routable decisions = (st, Inr (routable, decisions))"
| "decide_loop config auth (m # ms) st routable decisions =
     (case adoption_exclusion_of config auth m of
        Some reason \<Rightarrow>
          decide_loop config auth ms st routable (decisions @ [decision_of m (Some reason) None])
      | None \<Rightarrow>
          (case adopt_model config m st of
             (st', Inl e) \<Rightarrow> (st', Inl e)
           | (st', Inr d) \<Rightarrow>
               decide_loop config auth ms st' (insert (dm_slug m) routable) (decisions @ [d])))"

function trim_retired :: "string list \<Rightarrow> string list" where
  \<comment> \<open>\<open>while len(retired) > MAX: retired.pop(next(iter(retired)))\<close>\<close>
  "trim_retired xs = (if length xs > MAX_RETAINED_RETIRED then trim_retired (tl xs) else xs)"
  by pat_completeness auto
termination
  by (relation "measure length") (auto simp: MAX_RETAINED_RETIRED_def)

declare trim_retired.simps [simp del]

definition count_miss :: "string \<Rightarrow> source_state \<Rightarrow> source_state" where
  "count_miss slug st =
     (let misses = (case map_of (ss_miss_counts st) slug of None \<Rightarrow> 0 | Some n \<Rightarrow> n) + 1 in
      if misses \<ge> RETIRE_AFTER_MISSES then
        st\<lparr>ss_adopted := AList.delete slug (ss_adopted st),
           ss_retired := trim_retired (if slug \<in> set (ss_retired st) then ss_retired st
                                       else ss_retired st @ [slug]),
           ss_miss_counts := AList.delete slug (ss_miss_counts st)\<rparr>
      else st\<lparr>ss_miss_counts := AList.update slug misses (ss_miss_counts st)\<rparr>)"

definition clear_misses :: "string \<Rightarrow> source_state \<Rightarrow> source_state" where
  "clear_misses slug st =
     st\<lparr>ss_miss_counts := AList.delete slug (ss_miss_counts st),
        ss_retired := filter (\<lambda>s. s \<noteq> slug) (ss_retired st)\<rparr>"

definition adopted_slugs :: "source_state \<Rightarrow> string list" where
  "adopted_slugs st = map fst (ss_adopted st)"

definition retirement_pass :: "string set \<Rightarrow> source_state \<Rightarrow> source_state" where
  \<comment> \<open>the block under \<open>if authenticated\<close>, but for the assignment of \<open>routable\<close>; the second loop runs
    over a set, in an order that cannot matter\<close>
  "retirement_pass present st =
     (let missed = sort (remdups (filter (\<lambda>s. s \<notin> present) (adopted_slugs st)));
          st' = fold count_miss missed st;
          seen = filter (\<lambda>s. s \<in> present) (adopted_slugs st') in
      fold clear_misses seen st')"

definition decide :: "source_inventory \<Rightarrow> source_state \<Rightarrow> source_state \<times> adoption_decision list result" where
  "decide si st =
     (case decide_loop (ss_config st) (si_auth_state si) (si_models si) st {} [] of
        (st', Inl e) \<Rightarrow> (st', Inl e)
      | (st', Inr (routable, decisions)) \<Rightarrow>
          (let present = set (map dm_slug (si_models si));
               st'' = (if si_auth_state si = Au_authenticated
                       then (retirement_pass present st')\<lparr>ss_routable := routable\<rparr> else st') in
           (st''\<lparr>ss_decisions := decisions\<rparr>, Inr decisions)))"

definition serves_source :: "string \<Rightarrow> source_inventory \<Rightarrow> source_config \<Rightarrow> bool" where
  \<comment> \<open>the report is the configured worker's, through the configured adapter instance\<close>
  "serves_source worker_id si config =
     (worker_id = sc_worker_id config \<and> si_kind si = sc_kind config
      \<and> si_adapter_id si = adapter_prefix (sc_kind config) @ '':'' @ sc_source_id config)"

fun apply_loop ::
  "string \<Rightarrow> source_inventory list \<Rightarrow> source_registry \<Rightarrow> adoption_decision list
     \<Rightarrow> source_registry \<times> adoption_decision list result" where
  "apply_loop worker_id [] reg decisions = (reg, Inr decisions)"
| "apply_loop worker_id (si # sis) reg decisions =
     (case map_of (sr_sources reg) (si_source_id si) of
        None \<Rightarrow> apply_loop worker_id sis reg decisions
      | Some st \<Rightarrow>
          if \<not> serves_source worker_id si (ss_config st) then apply_loop worker_id sis reg decisions
          else
            (case decide si (st\<lparr>ss_inventory := Some si\<rparr>) of (st', r) \<Rightarrow>
               (let reg' = reg\<lparr>sr_sources := AList.update (si_source_id si) st' (sr_sources reg)\<rparr> in
                case r of
                  Inl e \<Rightarrow> (reg', Inl e)
                | Inr ds \<Rightarrow> apply_loop worker_id sis reg' (decisions @ ds))))"

definition apply_inventory ::
  "inventory_report \<Rightarrow> source_registry \<Rightarrow> source_registry \<times> adoption_decision list result" where
  "apply_inventory report reg = apply_loop (ir_worker_id report) (ir_sources report) reg []"

section \<open>Projections\<close>

definition offered_variants ::
  "(string list \<Rightarrow> string list) \<Rightarrow> source_state \<Rightarrow> (string \<times> string option) list" where
  \<comment> \<open>the inner loops of both projections: the adopted, still granted models in order; an effort-less
    model offers the lane itself, any other one offers its policy efforts in the given order\<close>
  "offered_variants order st =
     (if ss_inventory st = None then []
      else concat (map (\<lambda>slug.
        if current_exclusion (ss_config st) slug \<noteq> None then []
        else (case map_of (ss_adopted st) slug of
                None \<Rightarrow> []
              | Some efforts \<Rightarrow>
                  if efforts = [] then [(slug, None)]
                  else map (\<lambda>e. (slug, Some e)) (order (filter policy_effort efforts))))
        (sort (adopted_slugs st))))"

definition sorted_states :: "source_registry \<Rightarrow> source_state list" where
  \<comment> \<open>\<open>for source_id in sorted(self._sources)\<close>\<close>
  "sorted_states reg = map snd (sort_key fst (sr_sources reg))"

definition offers ::
  "(string list \<Rightarrow> string list) \<Rightarrow> source_registry \<Rightarrow> (source_state \<times> string \<times> string option) list" where
  "offers order reg = concat (map (\<lambda>st. map (Pair st) (offered_variants order st)) (sorted_states reg))"

definition evidence_facts :: "source_context_evidence \<Rightarrow> pymap" where
  "evidence_facts x =
     [(''context_limit_tokens'', PInt (sx_input_tokens x)),
      (''context_evidence_ref'', PStr (sx_evidence_ref x)),
      (''context_evidence_valid_until'', PStr (sx_valid_until x)),
      (''context_evidence_verified_at'', PStr (sx_verified_at x)),
      (''context_evidence_runtime_version'', PStr (sx_runtime_version x))]"

definition applicable_evidence :: "source_state \<Rightarrow> string \<Rightarrow> string \<Rightarrow> source_context_evidence option" where
  "applicable_evidence st slug variant =
     find (\<lambda>x. sx_model x = slug \<and> sx_variant x = variant
        \<and> (case ss_inventory st of
             None \<Rightarrow> False
           | Some si \<Rightarrow> si_runtime_version_exact si \<and> sx_runtime_version x = si_runtime_version si))
       (sc_context_evidence (ss_config st))"

definition source_capabilities :: "source_state \<Rightarrow> string \<Rightarrow> string \<Rightarrow> execution_capabilities result" where
  "source_capabilities st slug variant =
     capabilities_from_dict (PDict (surface_capabilities (sc_kind (ss_config st))
       @ (case applicable_evidence st slug variant of None \<Rightarrow> [] | Some x \<Rightarrow> evidence_facts x)))"

definition lane_variant :: "string option \<Rightarrow> string" where
  "lane_variant effort = (case effort of None \<Rightarrow> PLAN_LANE_VARIANT | Some e \<Rightarrow> e)"

definition derived_registration ::
  "int \<Rightarrow> source_state \<Rightarrow> string \<Rightarrow> string option \<Rightarrow> resource_registration result" where
  "derived_registration ttl st slug effort =
     (let config = ss_config st in
      bind_r (derived_id (sc_source_id config) slug effort) (\<lambda>rid.
      bind_r (mk_resource_identity \<lparr>ri_resource_id = rid, ri_channel = Ch_worker_bridged,
                ri_provider = config_provider config, ri_model = slug,
                ri_entitlement = sc_entitlement config, ri_variant = effort,
                ri_quota_pool_ids = [pool_id config]\<rparr>) (\<lambda>identity.
      bind_r (source_capabilities st slug (lane_variant effort)) (\<lambda>capabilities.
        mk_registration \<lparr>rg_identity = identity, rg_freshness_ttl_seconds = ttl,
          rg_poll_interval_seconds = None, rg_capabilities = capabilities, rg_cost = None\<rparr>))))"

definition derived_registrations :: "source_registry \<Rightarrow> resource_registration list result" where
  "derived_registrations reg =
     traverse (\<lambda>(st, slug, effort). derived_registration (sr_ttl reg) st slug effort) (offers sort reg)"

definition split_resource_id :: "string \<Rightarrow> (string \<times> string) option" where
  "split_resource_id rid =
     (let (head, sep, tail) = py_partition (CHR '':'') rid in
      if \<not> sep \<or> head = [] \<or> tail = [] \<or> length head > SOURCE_ID_MAX_LENGTH then None
      else Some (head, tail))"

definition owner_of :: "source_registry \<Rightarrow> string \<Rightarrow> string option" where
  "owner_of reg rid =
     (case split_resource_id rid of
        None \<Rightarrow> None
      | Some (source_id, _) \<Rightarrow>
          map_option (\<lambda>st. sc_worker_id (ss_config st)) (map_of (sr_sources reg) source_id))"

definition adapter_of :: "source_registry \<Rightarrow> string \<Rightarrow> string option" where
  "adapter_of reg rid =
     (case split_resource_id rid of
        None \<Rightarrow> None
      | Some (source_id, _) \<Rightarrow>
          map_option (\<lambda>st. adapter_prefix (sc_kind (ss_config st)) @ '':'' @ source_id)
            (map_of (sr_sources reg) source_id))"

definition retained_model_lifecycle :: "source_registry \<Rightarrow> (string \<times> string \<times> string) list" where
  "retained_model_lifecycle reg =
     concat (map (\<lambda>(source_id, st). map (\<lambda>(slug, lifecycle). (source_id, slug, lifecycle))
       (sort (map (\<lambda>(slug, _). (slug, ''retained_missing'')) (ss_miss_counts st)
              @ map (\<lambda>slug. (slug, ''retired'')) (ss_retired st))))
       (sort_key fst (sr_sources reg)))"

end
