(* ===== verification/Source_Spec.thy ===== *)
theory Source_Spec
  imports Execution_Sources
begin

text \<open>
  Properties of the source registry: which identifiers the derived resources have, what every
  reachable registry satisfies, that adopted resources were advertised and are granted, and that a
  model is retired after exactly three authenticated misses.
\<close>

section \<open>Derived identifiers\<close>

definition effort_suffix :: "string option \<Rightarrow> string" where
  "effort_suffix effort = (case effort of None \<Rightarrow> [] | Some e \<Rightarrow> if e = [] then [] else '':'' @ e)"

lemma source_resource_id_Inr:
  "source_resource_id sid slug effort = Inr rid \<longleftrightarrow>
     rid = sid @ '':'' @ slug @ effort_suffix effort \<and> safe_id_match rid
     \<and> length sid \<le> SOURCE_ID_MAX_LENGTH \<and> CHR '':'' \<notin> set sid
     \<and> pred_option (\<lambda>e. CHR '':'' \<notin> set e) effort \<and> (effort = None \<longrightarrow> CHR '':'' \<notin> set slug)"
  by (cases effort) (auto simp: source_resource_id_def effort_suffix_def Let_def result_simps valid_simps)

lemma derived_id_Inr:
  "derived_id sid slug effort = Inr rid \<longleftrightarrow>
     length slug \<le> MAX_SLUG_LENGTH \<and> source_resource_id sid slug effort = Inr rid"
  by (auto simp: derived_id_def)

lemma partition_first:
  "c \<notin> set xs \<Longrightarrow> py_partition c (xs @ c # ys) = (xs, True, ys)"
  by (induction xs) (auto simp: py_partition_def)

lemma first_separator_unique:
  "xs @ c # ys = xs' @ c # ys' \<Longrightarrow> c \<notin> set xs \<Longrightarrow> c \<notin> set xs' \<Longrightarrow> xs = xs' \<and> ys = ys'"
  for c :: char
  by (metis partition_first prod.inject)

lemma last_separator_unique:
  fixes c :: char
  assumes "xs @ c # ys = xs' @ c # ys'" "c \<notin> set ys" "c \<notin> set ys'"
  shows "xs = xs' \<and> ys = ys'"
proof -
  have "rev ys @ c # rev xs = rev ys' @ c # rev xs'"
    using arg_cong [OF assms(1), of rev] by simp
  then have "rev ys = rev ys' \<and> rev xs = rev xs'"
    using assms(2,3) by (intro first_separator_unique) auto
  then show ?thesis by simp
qed

lemma effort_suffix_cases:
  assumes "slug @ effort_suffix e = slug' @ effort_suffix e'"
    and "pred_option (\<lambda>e. CHR '':'' \<notin> set e) e" "pred_option (\<lambda>e. CHR '':'' \<notin> set e) e'"
    and "e = None \<longrightarrow> CHR '':'' \<notin> set slug" "e' = None \<longrightarrow> CHR '':'' \<notin> set slug'"
    and "e \<noteq> Some []" "e' \<noteq> Some []"
  shows "slug = slug' \<and> e = e'"
proof (cases e)
  case None
  have "e' = None"
  proof (rule ccontr)
    assume "e' \<noteq> None"
    then obtain x where "e' = Some x" "x \<noteq> []" using assms(7) by auto
    then have "CHR '':'' \<in> set (slug' @ effort_suffix e')" by (simp add: effort_suffix_def)
    then show False using assms(1,4) None by (simp add: effort_suffix_def flip: assms(1))
  qed
  with None assms(1) show ?thesis by (simp add: effort_suffix_def)
next
  case (Some x)
  then have x: "x \<noteq> []" "CHR '':'' \<notin> set x" using assms by auto
  then have colon: "CHR '':'' \<in> set (slug @ effort_suffix e)" using Some by (simp add: effort_suffix_def)
  obtain y where y: "e' = Some y"
    using assms(5) colon [unfolded assms(1)] by (cases e') (auto simp: effort_suffix_def)
  then have y': "y \<noteq> []" "CHR '':'' \<notin> set y" using assms by auto
  have "slug @ CHR '':'' # x = slug' @ CHR '':'' # y"
    using assms(1) Some y x y' by (simp add: effort_suffix_def)
  then show ?thesis using last_separator_unique x y' Some y by metis
qed

lemma derived_id_inject:
  assumes "derived_id s m e = Inr rid" "derived_id s' m' e' = Inr rid" "e \<noteq> Some []" "e' \<noteq> Some []"
  shows "s = s' \<and> m = m' \<and> e = e'"
proof -
  note ids = assms(1,2) [unfolded derived_id_Inr source_resource_id_Inr]
  have "s @ CHR '':'' # (m @ effort_suffix e) = s' @ CHR '':'' # (m' @ effort_suffix e')"
    using ids by simp
  then have "s = s' \<and> m @ effort_suffix e = m' @ effort_suffix e'"
    using ids by (intro first_separator_unique) auto
  moreover from this have "m = m' \<and> e = e'"
    using ids assms(3,4) by (intro effort_suffix_cases) auto
  ultimately show ?thesis by simp
qed

lemma split_derived_id:
  assumes "derived_id s m e = Inr rid" "s \<noteq> []" "m \<noteq> []"
  shows "split_resource_id rid = Some (s, m @ effort_suffix e)"
  using assms by (auto simp: derived_id_Inr source_resource_id_Inr split_resource_id_def partition_first)

subsection \<open>When an identifier is accepted\<close>

definition newline_free :: "string \<Rightarrow> bool" where
  "newline_free s = (CHR 0x0A \<notin> set s)"

lemma newline_free_grammar: "safe_id_match s \<Longrightarrow> newline_free s \<Longrightarrow> id_grammar s"
  by (auto simp: safe_id_match_def dollar_def newline_free_def dest: last_in_set)

lemma id_first_rest: "id_first c \<Longrightarrow> id_rest c"
  by (simp add: id_rest_def)

lemma id_grammar_rest: "id_grammar s \<Longrightarrow> list_all id_rest s"
  by (cases s) (auto simp: id_grammar_def id_first_rest)

lemma id_grammar_append:
  assumes "id_grammar s" "list_all id_rest t" "length s + length t \<le> 64"
  shows "id_grammar (s @ t)"
  using assms by (cases s) (auto simp: id_grammar_def)

lemma id_rest_colon [simp]: "id_rest (CHR '':'')"
  by (simp add: id_rest_def)

lemma policy_effort_ok:
  assumes "policy_effort e"
  shows "e \<noteq> []" "length e \<le> 7" "CHR '':'' \<notin> set e" "list_all id_rest e" "safe_id_match e"
proof -
  obtain x where x: "e = effort_str x" using assms by (auto simp: policy_effort_def)
  show "e \<noteq> []" "length e \<le> 7" "CHR '':'' \<notin> set e" using x by (cases x; simp)+
  show "list_all id_rest e" using x by (cases x) (simp_all, code_simp+)
  show "safe_id_match e" using x by (cases x) (simp_all, code_simp+)
qed

lemma derived_id_accepted:
  assumes "safe_id_match sid" "newline_free sid" "CHR '':'' \<notin> set sid" "length sid \<le> SOURCE_ID_MAX_LENGTH"
    and "safe_id_match slug" "newline_free slug" "length slug \<le> SLUG_MAX_LENGTH"
    and "case effort of None \<Rightarrow> CHR '':'' \<notin> set slug | Some e \<Rightarrow> policy_effort e"
  shows "\<exists>rid. derived_id sid slug effort = Inr rid"
proof -
  define t where "t = CHR '':'' # slug @ effort_suffix effort"
  have suffix: "list_all id_rest (effort_suffix effort)" "length (effort_suffix effort) \<le> 8"
    using assms(8) policy_effort_ok by (auto simp: effort_suffix_def split: option.splits)
  have slug: "list_all id_rest slug"
    using newline_free_grammar [OF assms(5,6)] by (rule id_grammar_rest)
  have "id_grammar (sid @ t)"
    using newline_free_grammar [OF assms(1,2)] slug suffix assms(4,7)
    by (intro id_grammar_append) (auto simp: t_def inventory_bounds)
  then have "safe_id_match (sid @ t)" by (simp add: safe_id_match_def dollar_def)
  then have "derived_id sid slug effort = Inr (sid @ t)"
    using assms policy_effort_ok(3)
    by (auto simp: derived_id_Inr source_resource_id_Inr t_def inventory_bounds MAX_SLUG_LENGTH_def
        split: option.splits)
  then show ?thesis by blast
qed

section \<open>What a report says of a source\<close>

datatype source_event = Ev_configure "source_config list" | Ev_inventory inventory_report

definition reports :: "source_event list \<Rightarrow> inventory_report set" where
  "reports tr = {rep. Ev_inventory rep \<in> set tr}"

definition accepted_auth :: "source_config \<Rightarrow> source_auth_state \<Rightarrow> bool" where
  \<comment> \<open>the authentication gate of the source's kind\<close>
  "accepted_auth config auth =
     (auth = Au_authenticated \<or> (plan_managed config \<and> auth = Au_unverified))"

definition lists_model :: "source_inventory \<Rightarrow> string \<Rightarrow> string list \<Rightarrow> bool" where
  "lists_model si slug efforts =
     (\<exists>m \<in> set (si_models si). dm_slug m = slug \<and> dm_reasoning_efforts m = efforts)"

definition advertised :: "source_event list \<Rightarrow> source_config \<Rightarrow> string \<Rightarrow> string list \<Rightarrow> bool" where
  \<comment> \<open>the configured worker reported, through the source's adapter and past its authentication gate,
    exactly this model with exactly these efforts\<close>
  "advertised tr config slug efforts =
     (\<exists>rep \<in> reports tr. \<exists>si \<in> set (ir_sources rep).
        si_source_id si = sc_source_id config \<and> serves_source (ir_worker_id rep) si config
        \<and> accepted_auth config (si_auth_state si) \<and> lists_model si slug efforts)"

definition lane_ok :: "source_config \<Rightarrow> string \<Rightarrow> string list \<Rightarrow> bool" where
  \<comment> \<open>what an adopted model of the source looks like\<close>
  "lane_ok config slug efforts =
     (safe_id_match slug \<and> distinct efforts
      \<and> (if plan_managed config then
           slug = ''plan-managed'' \<and> efforts = [] \<and> is_ok (derived_id (sc_source_id config) slug None)
         else list_ex policy_effort efforts
           \<and> list_all (\<lambda>e. is_ok (derived_id (sc_source_id config) slug (Some e)))
               (filter policy_effort efforts)))"

definition misses_ok :: "source_state \<Rightarrow> bool" where
  "misses_ok st =
     (distinct (map fst (ss_miss_counts st))
      \<and> list_all (\<lambda>(slug, n). slug \<in> set (adopted_slugs st) \<and> 1 \<le> n \<and> n < RETIRE_AFTER_MISSES)
          (ss_miss_counts st))"

definition retired_ok :: "source_state \<Rightarrow> bool" where
  "retired_ok st = (distinct (ss_retired st) \<and> length (ss_retired st) \<le> MAX_RETAINED_RETIRED)"

definition adopted_ok :: "source_event list \<Rightarrow> source_state \<Rightarrow> bool" where
  "adopted_ok tr st =
     (distinct (adopted_slugs st)
      \<and> list_all (\<lambda>(slug, efforts). lane_ok (ss_config st) slug efforts
                     \<and> advertised tr (ss_config st) slug efforts) (ss_adopted st))"

definition state_ok :: "source_event list \<Rightarrow> source_state \<Rightarrow> bool" where
  "state_ok tr st =
     (valid_source_config (ss_config st) \<and> adopted_ok tr st \<and> misses_ok st \<and> retired_ok st)"

definition sources_ok :: "source_event list \<Rightarrow> (string \<times> source_state) list \<Rightarrow> bool" where
  "sources_ok tr xs =
     (distinct (map fst xs)
      \<and> list_all (\<lambda>(sid, st). sid = sc_source_id (ss_config st) \<and> state_ok tr st) xs)"

definition registry_ok :: "source_event list \<Rightarrow> source_registry \<Rightarrow> bool" where
  "registry_ok tr reg = sources_ok tr (sr_sources reg)"

section \<open>Every step keeps the invariant\<close>

subsection \<open>Association lists\<close>

lemma list_all_updateI: "P (k, v) \<Longrightarrow> list_all P xs \<Longrightarrow> list_all P (AList.update k v xs)"
  by (induction xs) auto

lemma list_all_deleteI: "list_all P xs \<Longrightarrow> list_all P (AList.delete k xs)"
  by (auto simp: list_all_iff AList.delete_eq)

lemma distinct_fst_delete: "distinct (map fst xs) \<Longrightarrow> distinct (map fst (AList.delete k xs))"
  by (induction xs) (auto simp: AList.delete_eq)

lemma fst_update: "fst ` set (AList.update k v xs) = insert k (fst ` set xs)"
  by (induction xs) auto

lemma fst_delete: "fst ` set (AList.delete k xs) = fst ` set xs - {k}"
  by (auto simp: AList.delete_eq image_iff)

lemma set_delete: "set (AList.delete k xs) = {p \<in> set xs. fst p \<noteq> k}"
  by (auto simp: AList.delete_eq)

subsection \<open>Monotonicity in the trace\<close>

lemma advertised_mono: "advertised tr c s e \<Longrightarrow> set tr \<subseteq> set tr' \<Longrightarrow> advertised tr' c s e"
  by (fastforce simp: advertised_def reports_def)

lemma state_ok_mono: "state_ok tr st \<Longrightarrow> set tr \<subseteq> set tr' \<Longrightarrow> state_ok tr' st"
  by (auto simp: state_ok_def adopted_ok_def list_all_iff intro: advertised_mono)

lemma registry_ok_mono: "registry_ok tr reg \<Longrightarrow> set tr \<subseteq> set tr' \<Longrightarrow> registry_ok tr' reg"
  by (auto simp: registry_ok_def sources_ok_def list_all_iff intro: state_ok_mono)

subsection \<open>Configuration\<close>

lemma lane_of_same_source:
  "sc_source_id c' = sc_source_id c \<Longrightarrow> sc_kind c' = sc_kind c \<Longrightarrow> lane_ok c' = lane_ok c"
  by (intro ext) (simp add: lane_ok_def plan_managed_def)

lemma advertised_same_source:
  "sc_source_id c' = sc_source_id c \<Longrightarrow> sc_kind c' = sc_kind c \<Longrightarrow> sc_worker_id c' = sc_worker_id c \<Longrightarrow>
   advertised tr c' = advertised tr c"
  by (intro ext) (simp add: advertised_def serves_source_def accepted_auth_def plan_managed_def)

lemma reconfigured_ok:
  assumes "state_ok tr st" "valid_source_config c" "sc_source_id c = sc_source_id (ss_config st)"
    "sc_kind (ss_config st) = sc_kind c" "sc_worker_id (ss_config st) = sc_worker_id c"
  shows "state_ok tr (st\<lparr>ss_config := c\<rparr>)"
proof -
  have same: "lane_ok c = lane_ok (ss_config st)" "advertised tr c = advertised tr (ss_config st)"
    by (rule lane_of_same_source advertised_same_source; simp add: assms)+
  show ?thesis
    using assms(1,2)
    by (simp add: state_ok_def adopted_ok_def misses_ok_def retired_ok_def adopted_slugs_def same)
qed

lemma new_state_ok: "valid_source_config c \<Longrightarrow> state_ok tr (new_source_state c)"
  by (simp add: state_ok_def adopted_ok_def misses_ok_def retired_ok_def adopted_slugs_def
      new_source_state_def)

lemma new_state_config [simp]: "ss_config (new_source_state c) = c"
  by (simp add: new_source_state_def)

lemma sources_ok_update:
  "sources_ok tr xs \<Longrightarrow> state_ok tr st \<Longrightarrow> sid = sc_source_id (ss_config st) \<Longrightarrow>
   sources_ok tr (AList.update sid st xs)"
  by (auto simp: sources_ok_def intro: list_all_updateI distinct_update)

lemma sources_ok_lookup:
  "sources_ok tr xs \<Longrightarrow> map_of xs sid = Some st \<Longrightarrow> sid = sc_source_id (ss_config st) \<and> state_ok tr st"
  by (auto simp: sources_ok_def list_all_iff dest!: map_of_SomeD)

lemma sync_loop_ok:
  "sources_ok tr old \<Longrightarrow> sources_ok tr kept \<Longrightarrow> list_all valid_source_config cs \<Longrightarrow>
   sources_ok tr (sync_loop cs old kept)"
proof (induction cs old kept rule: sync_loop.induct)
  case (2 config configs old kept)
  let ?existing = "case map_of old (sc_source_id config) of None \<Rightarrow> None
    | Some st \<Rightarrow> if sc_worker_id (ss_config st) \<noteq> sc_worker_id config
        \<or> sc_kind (ss_config st) \<noteq> sc_kind config then None else Some st"
  show ?case
  proof (cases ?existing)
    case None
    then show ?thesis
      using 2 by (simp add: Let_def new_state_ok sources_ok_update)
  next
    case (Some st)
    then have st: "map_of old (sc_source_id config) = Some st" "sc_kind (ss_config st) = sc_kind config"
      "sc_worker_id (ss_config st) = sc_worker_id config"
      by (auto split: option.splits if_splits)
    then have "state_ok tr (st\<lparr>ss_config := config\<rparr>)"
      using 2(3,5) sources_ok_lookup [OF 2(3) st(1)] by (intro reconfigured_ok) auto
    then show ?thesis
      using 2 Some by (simp add: Let_def sources_ok_update)
  qed
qed simp

subsection \<open>Adoption\<close>

lemma adoption_exclusion_None:
  assumes "adoption_exclusion_of c auth m = None"
  shows "current_exclusion c (dm_slug m) = None" "accepted_auth c auth"
    "plan_managed c \<Longrightarrow> dm_slug m = ''plan-managed'' \<and> dm_reasoning_efforts m = []"
    "\<not> plan_managed c \<Longrightarrow> list_ex policy_effort (dm_reasoning_efforts m)"
  using assms
  by (auto simp: adoption_exclusion_of_def current_exclusion_def accepted_auth_def Let_def split: if_splits)

definition with_adopted :: "discovered_model \<Rightarrow> source_state \<Rightarrow> source_state" where
  "with_adopted m st =
     st\<lparr>ss_adopted := AList.update (dm_slug m) (dm_reasoning_efforts m) (ss_adopted st)\<rparr>"

lemma with_adopted_simps [simp]:
  "ss_config (with_adopted m st) = ss_config st"
  "ss_miss_counts (with_adopted m st) = ss_miss_counts st"
  "ss_retired (with_adopted m st) = ss_retired st"
  "ss_inventory (with_adopted m st) = ss_inventory st"
  "set (adopted_slugs (with_adopted m st)) = insert (dm_slug m) (set (adopted_slugs st))"
  by (simp_all add: with_adopted_def adopted_slugs_def fst_update)

lemma sort_filter_nonempty: "list_ex P xs \<Longrightarrow> sort (filter P xs) \<noteq> ([] :: 'a :: linorder list)"
  by (auto simp: list_ex_iff filter_empty_conv simp flip: set_empty)

lemma traverse_all_ok: "traverse f xs = Inr ys \<Longrightarrow> x \<in> set xs \<Longrightarrow> is_ok (f x)"
  by (induction xs arbitrary: ys) (auto simp: result_simps)

lemma adopt_model_cases:
  assumes none: "adoption_exclusion_of c auth m = None"
    and run: "adopt_model c m st = (st', r)"
  obtains (failed) e where "r = Inl e" "st' = st"
  | (adopted) rid where "r = Inr (decision_of m None (Some rid))" "st' = with_adopted m st"
      "valid_discovered_model m \<longrightarrow> lane_ok c (dm_slug m) (dm_reasoning_efforts m)"
proof (cases "plan_managed c")
  case plan: True
  note m = adoption_exclusion_None(3) [OF none plan]
  show ?thesis
  proof (cases "derived_id (sc_source_id c) (dm_slug m) None")
    case (Inl e)
    with run plan show ?thesis by (intro failed) (auto simp: adopt_model_def Let_def)
  next
    case (Inr rid)
    with run plan m have "r = Inr (decision_of m None (Some rid))" "st' = with_adopted m st"
      by (auto simp: adopt_model_def Let_def with_adopted_def)
    then show ?thesis
      using plan m Inr by (intro adopted) (auto simp: lane_ok_def valid_discovered_model_def)
  qed
next
  case physical: False
  let ?efforts = "sort (filter policy_effort (dm_reasoning_efforts m))"
  let ?ids = "traverse (\<lambda>e. derived_id (sc_source_id c) (dm_slug m) (Some e)) ?efforts"
  note some = adoption_exclusion_None(4) [OF none physical]
  show ?thesis
  proof (cases ?ids)
    case (Inl e)
    with run physical show ?thesis by (intro failed) (auto simp: adopt_model_def Let_def)
  next
    case (Inr ids)
    have all: "is_ok (derived_id (sc_source_id c) (dm_slug m) (Some e))" if "e \<in> set ?efforts" for e
      by (rule traverse_all_ok [OF Inr that])
    have "hd ?efforts \<in> set ?efforts" using sort_filter_nonempty [OF some] by (rule hd_in_set)
    then obtain rid where "derived_id (sc_source_id c) (dm_slug m) (Some (hd ?efforts)) = Inr rid"
      using all by (auto simp: is_ok_iff simp del: set_sort)
    then have "r = Inr (decision_of m None (Some rid))" "st' = with_adopted m st"
      using run physical Inr by (auto simp: adopt_model_def Let_def with_adopted_def)
    then show ?thesis
      using physical some all
      by (intro adopted) (auto simp: lane_ok_def valid_discovered_model_def list_all_iff)
  qed
qed

lemma with_adopted_ok:
  assumes "state_ok tr st" "lane_ok (ss_config st) (dm_slug m) (dm_reasoning_efforts m)"
    "advertised tr (ss_config st) (dm_slug m) (dm_reasoning_efforts m)"
  shows "state_ok tr (with_adopted m st)"
proof -
  have "adopted_ok tr (with_adopted m st)"
    using assms by (auto simp: state_ok_def adopted_ok_def adopted_slugs_def with_adopted_def
        intro!: list_all_updateI distinct_update)
  moreover have "misses_ok (with_adopted m st)"
    using assms(1) by (auto simp: state_ok_def misses_ok_def list_all_iff)
  ultimately show ?thesis
    using assms(1) by (simp add: state_ok_def retired_ok_def)
qed

text \<open>The loop over the models changes nothing but the adopted models.\<close>

definition only_adopts :: "source_state \<Rightarrow> source_state \<Rightarrow> bool" where
  "only_adopts st st' =
     (ss_config st' = ss_config st \<and> ss_miss_counts st' = ss_miss_counts st
      \<and> ss_retired st' = ss_retired st \<and> ss_inventory st' = ss_inventory st
      \<and> set (adopted_slugs st) \<subseteq> set (adopted_slugs st'))"

lemma decide_loop_ok:
  assumes "state_ok tr st" "list_all valid_discovered_model ms" "c = ss_config st"
    "\<And>m. m \<in> set ms \<Longrightarrow> accepted_auth c auth \<Longrightarrow> advertised tr c (dm_slug m) (dm_reasoning_efforts m)"
    "decide_loop c auth ms st routable ds = (st', r)"
  shows "state_ok tr st' \<and> only_adopts st st'
    \<and> set (adopted_slugs st') \<subseteq> set (adopted_slugs st) \<union> dm_slug ` set ms"
  using assms
proof (induction ms arbitrary: st routable ds)
  case Nil
  then show ?case by (simp add: only_adopts_def)
next
  case (Cons m ms)
  show ?case
  proof (cases "adoption_exclusion_of c auth m")
    case None
    obtain st1 r1 where run: "adopt_model c m st = (st1, r1)" by fastforce
    from None run show ?thesis
    proof (cases rule: adopt_model_cases)
      case failed
      then show ?thesis using Cons.prems None run by (auto simp: only_adopts_def)
    next
      case (adopted rid)
      have "advertised tr c (dm_slug m) (dm_reasoning_efforts m)"
        using Cons.prems(4) adoption_exclusion_None(2) [OF None] by simp
      then have ok: "state_ok tr st1"
        using Cons.prems(1-3) adopted with_adopted_ok by simp
      have "decide_loop c auth ms st1 (insert (dm_slug m) routable)
          (ds @ [decision_of m None (Some rid)]) = (st', r)"
        using Cons.prems(5) None run adopted by simp
      from Cons.IH [OF ok _ _ _ this] show ?thesis
        using Cons.prems adopted by (auto simp: only_adopts_def)
    qed
  next
    case (Some reason)
    then show ?thesis
      using Cons.IH [OF Cons.prems(1), of routable "ds @ [decision_of m (Some reason) None]"] Cons.prems by auto
  qed
qed

subsection \<open>Misses and retirement\<close>

lemma trim_retired_eq: "trim_retired xs = drop (length xs - MAX_RETAINED_RETIRED) xs"
proof (induction xs rule: trim_retired.induct)
  case (1 xs)
  show ?case
  proof (cases "length xs > MAX_RETAINED_RETIRED")
    case True
    then obtain n where n: "length xs - MAX_RETAINED_RETIRED = Suc n"
      by (cases "length xs - MAX_RETAINED_RETIRED") auto
    then have "length (tl xs) - MAX_RETAINED_RETIRED = n" by simp
    then show ?thesis using 1 True n by (subst trim_retired.simps) (simp add: drop_Suc)
  qed (subst trim_retired.simps, simp)
qed

lemma trim_retired_bounds:
  "length (trim_retired xs) \<le> MAX_RETAINED_RETIRED" "distinct xs \<Longrightarrow> distinct (trim_retired xs)"
  by (auto simp: trim_retired_eq)

definition misses_of :: "source_state \<Rightarrow> string \<Rightarrow> int" where
  "misses_of st slug = (case map_of (ss_miss_counts st) slug of None \<Rightarrow> 0 | Some n \<Rightarrow> n)"

lemma count_miss_frame [simp]:
  "ss_config (count_miss s st) = ss_config st" "ss_inventory (count_miss s st) = ss_inventory st"
  by (simp_all add: count_miss_def Let_def)

lemma count_miss_adopted:
  "set (adopted_slugs (count_miss s st)) =
     (if misses_of st s + 1 \<ge> RETIRE_AFTER_MISSES then set (adopted_slugs st) - {s}
      else set (adopted_slugs st))"
  by (auto simp: count_miss_def Let_def misses_of_def adopted_slugs_def fst_delete)

lemma count_miss_misses:
  "misses_of (count_miss s st) t =
     (if t \<noteq> s then misses_of st t
      else if misses_of st s + 1 \<ge> RETIRE_AFTER_MISSES then 0 else misses_of st s + 1)"
  by (auto simp: count_miss_def Let_def misses_of_def AList.update_conv' AList.delete_conv')

lemma misses_nonneg: "misses_ok st \<Longrightarrow> 0 \<le> misses_of st s"
  by (auto simp: misses_ok_def misses_of_def list_all_iff split: option.splits dest!: map_of_SomeD)

lemma misses_bound: "misses_ok st \<Longrightarrow> misses_of st s < RETIRE_AFTER_MISSES"
  by (auto simp: misses_ok_def misses_of_def list_all_iff RETIRE_AFTER_MISSES_def
      split: option.splits dest!: map_of_SomeD)

lemma count_miss_ok:
  assumes ok: "state_ok tr st" and s: "s \<in> set (adopted_slugs st)"
  shows "state_ok tr (count_miss s st)"
proof (cases "misses_of st s + 1 \<ge> RETIRE_AFTER_MISSES")
  case True
  then have st: "count_miss s st = st\<lparr>ss_adopted := AList.delete s (ss_adopted st),
       ss_retired := trim_retired (if s \<in> set (ss_retired st) then ss_retired st else ss_retired st @ [s]),
       ss_miss_counts := AList.delete s (ss_miss_counts st)\<rparr>"
    by (simp add: count_miss_def misses_of_def Let_def)
  have "adopted_ok tr (count_miss s st)"
    using ok by (auto simp: st state_ok_def adopted_ok_def adopted_slugs_def
        intro: list_all_deleteI distinct_fst_delete)
  moreover have "misses_ok (count_miss s st)"
    using ok by (auto simp: st state_ok_def misses_ok_def adopted_slugs_def list_all_iff fst_delete
        set_delete intro: distinct_fst_delete)
  moreover have "retired_ok (count_miss s st)"
    using ok trim_retired_bounds by (auto simp: st state_ok_def retired_ok_def)
  ultimately show ?thesis using ok by (simp add: state_ok_def)
next
  case False
  then have st: "count_miss s st = st\<lparr>ss_miss_counts := AList.update s (misses_of st s + 1) (ss_miss_counts st)\<rparr>"
    by (simp add: count_miss_def misses_of_def Let_def)
  have "misses_ok st" using ok by (simp add: state_ok_def)
  then have "misses_ok (count_miss s st)"
    using s False misses_nonneg [of st s]
    by (auto simp: st misses_ok_def adopted_slugs_def intro!: list_all_updateI distinct_update)
  then show ?thesis
    using ok by (simp add: st state_ok_def adopted_ok_def adopted_slugs_def retired_ok_def)
qed

lemma fold_count_miss_ok:
  "state_ok tr st \<Longrightarrow> set ss \<subseteq> set (adopted_slugs st) \<Longrightarrow> distinct ss \<Longrightarrow>
   state_ok tr (fold count_miss ss st)"
proof (induction ss arbitrary: st)
  case (Cons s ss)
  then have "state_ok tr (count_miss s st)" by (simp add: count_miss_ok)
  moreover have "set ss \<subseteq> set (adopted_slugs (count_miss s st))"
    using Cons.prems by (auto simp: count_miss_adopted)
  ultimately show ?case using Cons by simp
qed simp

lemma fold_count_miss_other:
  "t \<notin> set ss \<Longrightarrow> misses_of (fold count_miss ss st) t = misses_of st t
     \<and> (t \<in> set (adopted_slugs (fold count_miss ss st)) \<longleftrightarrow> t \<in> set (adopted_slugs st))"
  by (induction ss arbitrary: st) (auto simp: count_miss_misses count_miss_adopted)

lemma fold_count_miss_at:
  assumes "t \<in> set ss" "distinct ss"
  shows "misses_of (fold count_miss ss st) t = misses_of (count_miss t st) t
    \<and> (t \<in> set (adopted_slugs (fold count_miss ss st)) \<longleftrightarrow> t \<in> set (adopted_slugs (count_miss t st)))"
  using assms
proof (induction ss arbitrary: st)
  case (Cons s ss)
  show ?case
  proof (cases "s = t")
    case True
    then show ?thesis using Cons.prems fold_count_miss_other [of t ss "count_miss t st"] by simp
  next
    case False
    then show ?thesis
      using Cons by (simp add: count_miss_misses count_miss_adopted)
  qed
qed simp

lemma clear_misses_frame [simp]:
  "ss_config (clear_misses s st) = ss_config st" "ss_inventory (clear_misses s st) = ss_inventory st"
  "ss_adopted (clear_misses s st) = ss_adopted st" "adopted_slugs (clear_misses s st) = adopted_slugs st"
  by (simp_all add: clear_misses_def adopted_slugs_def)

lemma clear_misses_ok: "state_ok tr st \<Longrightarrow> state_ok tr (clear_misses s st)"
  by (auto simp: state_ok_def adopted_ok_def misses_ok_def retired_ok_def clear_misses_def adopted_slugs_def
      intro: list_all_deleteI distinct_fst_delete le_trans [OF length_filter_le])

lemma clear_misses_misses: "misses_of (clear_misses s st) t = (if t = s then 0 else misses_of st t)"
  by (simp add: clear_misses_def misses_of_def AList.delete_conv')

lemma fold_clear_ok: "state_ok tr st \<Longrightarrow> state_ok tr (fold clear_misses ss st)"
  by (induction ss arbitrary: st) (auto intro: clear_misses_ok)

lemma fold_clear_frame [simp]:
  "ss_config (fold clear_misses ss st) = ss_config st"
  "ss_inventory (fold clear_misses ss st) = ss_inventory st"
  "adopted_slugs (fold clear_misses ss st) = adopted_slugs st"
  by (induction ss arbitrary: st) simp_all

lemma fold_clear_misses:
  "misses_of (fold clear_misses ss st) t = (if t \<in> set ss then 0 else misses_of st t)"
  by (induction ss arbitrary: st) (auto simp: clear_misses_misses)

lemma retirement_pass_ok: "state_ok tr st \<Longrightarrow> state_ok tr (retirement_pass present st)"
  by (auto simp: retirement_pass_def Let_def intro!: fold_clear_ok fold_count_miss_ok)

lemma fold_count_miss_frame [simp]:
  "ss_config (fold count_miss ss st) = ss_config st" "ss_inventory (fold count_miss ss st) = ss_inventory st"
  by (induction ss arbitrary: st) simp_all

lemma retirement_pass_frame [simp]:
  "ss_config (retirement_pass present st) = ss_config st"
  "ss_inventory (retirement_pass present st) = ss_inventory st"
  by (simp_all add: retirement_pass_def Let_def)

lemma retirement_pass_missed:
  assumes "s \<in> set (adopted_slugs st)" "s \<notin> present"
  shows "s \<in> set (adopted_slugs (retirement_pass present st)) \<longleftrightarrow> misses_of st s + 1 < RETIRE_AFTER_MISSES"
    and "misses_of st s + 1 < RETIRE_AFTER_MISSES \<Longrightarrow>
      misses_of (retirement_pass present st) s = misses_of st s + 1"
proof -
  let ?missed = "sort (remdups (filter (\<lambda>s. s \<notin> present) (adopted_slugs st)))"
  have "s \<in> set ?missed" "distinct ?missed" using assms by auto
  note at = fold_count_miss_at [OF this, of st]
  show "s \<in> set (adopted_slugs (retirement_pass present st)) \<longleftrightarrow> misses_of st s + 1 < RETIRE_AFTER_MISSES"
    using at assms by (auto simp: retirement_pass_def Let_def count_miss_adopted)
  show "misses_of (retirement_pass present st) s = misses_of st s + 1"
    if "misses_of st s + 1 < RETIRE_AFTER_MISSES"
    using at assms that by (auto simp: retirement_pass_def Let_def fold_clear_misses count_miss_misses)
qed

lemma retirement_pass_seen:
  assumes "s \<in> set (adopted_slugs st)" "s \<in> present"
  shows "s \<in> set (adopted_slugs (retirement_pass present st))"
    and "misses_of (retirement_pass present st) s = 0"
proof -
  let ?missed = "sort (remdups (filter (\<lambda>s. s \<notin> present) (adopted_slugs st)))"
  have "s \<notin> set ?missed" using assms by auto
  note other = fold_count_miss_other [OF this, of st]
  show "s \<in> set (adopted_slugs (retirement_pass present st))"
    using other assms by (simp add: retirement_pass_def Let_def)
  then show "misses_of (retirement_pass present st) s = 0"
    using assms by (simp add: retirement_pass_def Let_def fold_clear_misses)
qed

lemma retirement_pass_absent:
  "s \<notin> set (adopted_slugs st) \<Longrightarrow> s \<notin> set (adopted_slugs (retirement_pass present st))"
  using fold_count_miss_other [of s "sort (remdups (filter (\<lambda>s. s \<notin> present) (adopted_slugs st)))" st]
  by (simp add: retirement_pass_def Let_def)

subsection \<open>Reports\<close>

lemma set_decisions_ok [simp]:
  "state_ok tr (st\<lparr>ss_decisions := ds\<rparr>) = state_ok tr st"
  "state_ok tr (st\<lparr>ss_routable := r\<rparr>) = state_ok tr st"
  "state_ok tr (st\<lparr>ss_inventory := i\<rparr>) = state_ok tr st"
  by (simp_all add: state_ok_def adopted_ok_def misses_ok_def retired_ok_def adopted_slugs_def)

lemma field_updates [simp]:
  "adopted_slugs (st\<lparr>ss_decisions := ds\<rparr>) = adopted_slugs st"
  "adopted_slugs (st\<lparr>ss_routable := r\<rparr>) = adopted_slugs st"
  "adopted_slugs (st\<lparr>ss_inventory := i\<rparr>) = adopted_slugs st"
  "misses_of (st\<lparr>ss_decisions := ds\<rparr>) s = misses_of st s"
  "misses_of (st\<lparr>ss_routable := r\<rparr>) s = misses_of st s"
  "misses_of (st\<lparr>ss_inventory := i\<rparr>) s = misses_of st s"
  by (simp_all add: adopted_slugs_def misses_of_def)

text \<open>The reports the registry may see: \<open>advertised_by\<close> says that the inventory is part of the trace.\<close>

definition reported :: "source_event list \<Rightarrow> string \<Rightarrow> source_inventory \<Rightarrow> bool" where
  "reported tr worker si = (\<exists>rep \<in> reports tr. ir_worker_id rep = worker \<and> si \<in> set (ir_sources rep))"

lemma reported_advertised:
  assumes "reported tr worker si" "serves_source worker si c" "si_source_id si = sc_source_id c"
    "accepted_auth c (si_auth_state si)" "m \<in> set (si_models si)"
  shows "advertised tr c (dm_slug m) (dm_reasoning_efforts m)"
  using assms by (auto simp: reported_def advertised_def lists_model_def)

lemma decide_ok:
  assumes st: "state_ok tr st" and si: "valid_source_inventory si" "reported tr worker si"
    "serves_source worker si (ss_config st)" "si_source_id si = sc_source_id (ss_config st)"
    and run: "decide si st = (st', r)"
  shows "state_ok tr st' \<and> ss_config st' = ss_config st"
proof -
  obtain st1 r1 where loop: "decide_loop (ss_config st) (si_auth_state si) (si_models si) st {} [] = (st1, r1)"
    by fastforce
  have "state_ok tr st1 \<and> only_adopts st st1
      \<and> set (adopted_slugs st1) \<subseteq> set (adopted_slugs st) \<union> dm_slug ` set (si_models si)"
    using st si reported_advertised [OF si(2-4)]
    by (intro decide_loop_ok [OF st _ refl _ loop])
      (auto simp: valid_source_inventory_def source_inventory_parts_def)
  then show ?thesis
    using run loop retirement_pass_ok
    by (auto simp: decide_def only_adopts_def Let_def split: sum.splits if_splits)
qed

lemma apply_loop_ok:
  assumes "sources_ok tr (sr_sources reg)" "list_all valid_source_inventory sis"
    "\<And>si. si \<in> set sis \<Longrightarrow> reported tr worker si"
  shows "sources_ok tr (sr_sources (fst (apply_loop worker sis reg ds)))"
  using assms
proof (induction sis arbitrary: reg ds)
  case (Cons si sis)
  show ?case
  proof (cases "map_of (sr_sources reg) (si_source_id si)")
    case None
    then show ?thesis using Cons by simp
  next
    case (Some st)
    note st = sources_ok_lookup [OF Cons.prems(1) Some]
    show ?thesis
    proof (cases "serves_source worker si (ss_config st)")
      case False
      then show ?thesis using Cons Some by simp
    next
      case True
      obtain st' r where run: "decide si (st\<lparr>ss_inventory := Some si\<rparr>) = (st', r)" by fastforce
      have "state_ok tr st' \<and> ss_config st' = ss_config st"
        using decide_ok [OF _ _ _ _ _ run, of tr worker] st True Cons.prems by auto
      then have "sources_ok tr (AList.update (si_source_id si) st' (sr_sources reg))"
        using st Cons.prems(1) by (intro sources_ok_update) auto
      then show ?thesis using Cons Some True run by (cases r) (auto simp: Let_def)
    qed
  qed
qed simp

definition source_step :: "source_event \<Rightarrow> source_registry \<Rightarrow> source_registry" where
  "source_step ev reg =
     (case ev of
        Ev_configure configs \<Rightarrow> sync_configuration configs reg
      | Ev_inventory report \<Rightarrow> fst (apply_inventory report reg))"

text \<open>
  The registries the server can hold: a new one with a positive freshness bound, then any sequence
  of configurations and reports that were constructed. A report whose application raises is a step
  too: what it mutated before stays.
\<close>

inductive sources_reach :: "source_event list \<Rightarrow> source_registry \<Rightarrow> bool" where
  new: "1 \<le> ttl \<Longrightarrow> sources_reach [] (new_source_registry ttl)"
| configure: "sources_reach tr reg \<Longrightarrow> list_all valid_source_config configs \<Longrightarrow>
    sources_reach (tr @ [Ev_configure configs]) (source_step (Ev_configure configs) reg)"
| report: "sources_reach tr reg \<Longrightarrow> valid_inventory_report report \<Longrightarrow>
    sources_reach (tr @ [Ev_inventory report]) (source_step (Ev_inventory report) reg)"

lemma apply_loop_ttl [simp]: "sr_ttl (fst (apply_loop worker sis reg ds)) = sr_ttl reg"
proof (induction sis arbitrary: reg ds)
  case (Cons si sis)
  obtain st' r where "decide si ((the (map_of (sr_sources reg) (si_source_id si)))\<lparr>ss_inventory := Some si\<rparr>)
      = (st', r)" by fastforce
  then show ?case using Cons by (cases r) (auto simp: Let_def split: option.splits)
qed simp

lemma reach_ok: "sources_reach tr reg \<Longrightarrow> registry_ok tr reg \<and> 1 \<le> sr_ttl reg"
proof (induction rule: sources_reach.induct)
  case (new ttl)
  then show ?case by (simp add: registry_ok_def sources_ok_def new_source_registry_def)
next
  case (configure tr reg configs)
  then have "sources_ok (tr @ [Ev_configure configs]) (sr_sources reg)"
    using registry_ok_mono [of tr reg "tr @ [Ev_configure configs]"] by (auto simp: registry_ok_def)
  then show ?case
    using configure sync_loop_ok [of _ "sr_sources reg" "[]"]
    by (auto simp: source_step_def sync_configuration_def registry_ok_def sources_ok_def)
next
  case (report tr reg rep)
  then have "sources_ok (tr @ [Ev_inventory rep]) (sr_sources reg)"
    using registry_ok_mono [of tr reg "tr @ [Ev_inventory rep]"] by (auto simp: registry_ok_def)
  then show ?case
    using report(2,3) apply_loop_ok [of "tr @ [Ev_inventory rep]" reg "ir_sources rep" "ir_worker_id rep"]
    by (auto simp: source_step_def apply_inventory_def registry_ok_def valid_inventory_report_def
        inventory_report_parts_def reported_def reports_def)
qed

section \<open>Reports are applied completely\<close>

definition clean_inventory :: "source_inventory \<Rightarrow> bool" where
  \<comment> \<open>no identifier ends in the newline the identifier pattern lets through\<close>
  "clean_inventory si =
     (newline_free (si_source_id si) \<and> list_all (\<lambda>m. newline_free (dm_slug m)) (si_models si))"

lemma adopt_model_total:
  assumes none: "adoption_exclusion_of c auth m = None" and c: "valid_source_config c"
    "newline_free (sc_source_id c)" and m: "valid_discovered_model m" "newline_free (dm_slug m)"
  shows "\<exists>st' d. adopt_model c m st = (st', Inr d)"
proof -
  have sid: "safe_id_match (sc_source_id c)" "CHR '':'' \<notin> set (sc_source_id c)"
    "length (sc_source_id c) \<le> SOURCE_ID_MAX_LENGTH"
    using c by (simp_all add: valid_source_config_def source_config_checks_def)
  have slug: "safe_id_match (dm_slug m)" "length (dm_slug m) \<le> SLUG_MAX_LENGTH"
    using m by (simp_all add: valid_discovered_model_def)
  show ?thesis
  proof (cases "plan_managed c")
    case True
    then have "CHR '':'' \<notin> set (dm_slug m)" using adoption_exclusion_None(3) [OF none] by simp
    then show ?thesis
      using derived_id_accepted [of "sc_source_id c" "dm_slug m" None] sid slug c m True
      by (auto simp: adopt_model_def Let_def)
  next
    case False
    let ?es = "sort (filter policy_effort (dm_reasoning_efforts m))"
    have ok: "\<exists>rid. derived_id (sc_source_id c) (dm_slug m) (Some e) = Inr rid" if "policy_effort e" for e
      using derived_id_accepted [of "sc_source_id c" "dm_slug m" "Some e"] sid slug c m that by simp
    then obtain f where f: "\<And>e. policy_effort e \<Longrightarrow> derived_id (sc_source_id c) (dm_slug m) (Some e) = Inr (f e)"
      by metis
    have "traverse (\<lambda>e. derived_id (sc_source_id c) (dm_slug m) (Some e)) ?es = Inr (map f ?es)"
      by (rule traverse_total) (simp add: f)
    moreover have "policy_effort (hd ?es)"
      using hd_in_set [OF sort_filter_nonempty [OF adoption_exclusion_None(4) [OF none False]]] by simp
    ultimately show ?thesis using False f by (simp add: adopt_model_def Let_def)
  qed
qed

lemma decide_loop_total:
  assumes "valid_source_config c" "newline_free (sc_source_id c)"
    "list_all valid_discovered_model ms" "list_all (\<lambda>m. newline_free (dm_slug m)) ms"
  shows "\<exists>st' x. decide_loop c auth ms st routable ds = (st', Inr x)"
  using assms
proof (induction ms arbitrary: st routable ds)
  case (Cons m ms)
  show ?case
  proof (cases "adoption_exclusion_of c auth m")
    case None
    then obtain st' d where "adopt_model c m st = (st', Inr d)"
      using adopt_model_total [OF None Cons.prems(1,2), of st] Cons.prems(3,4) by auto
    then show ?thesis using Cons None by simp
  qed (use Cons in simp)
qed simp

lemma decide_total:
  assumes "valid_source_config (ss_config st)" "newline_free (sc_source_id (ss_config st))"
    "valid_source_inventory si" "clean_inventory si"
  shows "\<exists>st' ds. decide si st = (st', Inr ds)"
proof -
  obtain st1 x where "decide_loop (ss_config st) (si_auth_state si) (si_models si) st {} [] = (st1, Inr x)"
    using decide_loop_total [OF assms(1,2), of "si_models si" "si_auth_state si" st "{}" "[]"] assms(3,4)
    by (auto simp: valid_source_inventory_def source_inventory_parts_def clean_inventory_def)
  then show ?thesis by (cases x) (simp add: decide_def Let_def)
qed

lemma apply_loop_total:
  assumes "sources_ok tr (sr_sources reg)" "list_all valid_source_inventory sis"
    "list_all clean_inventory sis" "\<And>si. si \<in> set sis \<Longrightarrow> reported tr worker si"
  shows "\<exists>ds'. snd (apply_loop worker sis reg ds) = Inr ds'"
  using assms
proof (induction sis arbitrary: reg ds)
  case (Cons si sis)
  show ?case
  proof (cases "map_of (sr_sources reg) (si_source_id si)")
    case None
    then show ?thesis using Cons by simp
  next
    case (Some st)
    note st = sources_ok_lookup [OF Cons.prems(1) Some]
    show ?thesis
    proof (cases "serves_source worker si (ss_config st)")
      case False
      then show ?thesis using Cons Some by simp
    next
      case True
      obtain st' ds1 where run: "decide si (st\<lparr>ss_inventory := Some si\<rparr>) = (st', Inr ds1)"
        using decide_total [of "st\<lparr>ss_inventory := Some si\<rparr>" si] st Cons.prems
        by (auto simp: state_ok_def clean_inventory_def)
      have "state_ok tr st' \<and> ss_config st' = ss_config st"
        using decide_ok [OF _ _ _ _ _ run, of tr worker] st True Cons.prems by auto
      then have "sources_ok tr (AList.update (si_source_id si) st' (sr_sources reg))"
        using st Cons.prems(1) by (intro sources_ok_update) auto
      then show ?thesis using Cons Some True run by (auto simp: Let_def)
    qed
  qed
qed simp

section \<open>Retirement\<close>

definition absent_from :: "source_inventory \<Rightarrow> string \<Rightarrow> bool" where
  "absent_from si slug = (slug \<notin> set (map dm_slug (si_models si)))"

lemma decide_unseen:
  assumes st: "state_ok tr st" and si: "valid_source_inventory si" "reported tr worker si"
    "serves_source worker si (ss_config st)" "si_source_id si = sc_source_id (ss_config st)"
    and run: "decide si st = (st', Inr ds)"
    and auth: "si_auth_state si = Au_authenticated" and absent: "absent_from si slug"
  shows "slug \<in> set (adopted_slugs st') \<longleftrightarrow>
      slug \<in> set (adopted_slugs st) \<and> misses_of st slug + 1 < RETIRE_AFTER_MISSES"
    and "slug \<in> set (adopted_slugs st') \<Longrightarrow> misses_of st' slug = misses_of st slug + 1"
proof -
  obtain st1 r1 where loop: "decide_loop (ss_config st) (si_auth_state si) (si_models si) st {} [] = (st1, r1)"
    by fastforce
  have adopts: "only_adopts st st1"
    "set (adopted_slugs st1) \<subseteq> set (adopted_slugs st) \<union> dm_slug ` set (si_models si)"
    using st si reported_advertised [OF si(2-4)]
      decide_loop_ok [OF st _ refl _ loop]
    by (auto simp: valid_source_inventory_def source_inventory_parts_def)
  then have same: "slug \<in> set (adopted_slugs st1) \<longleftrightarrow> slug \<in> set (adopted_slugs st)"
    "misses_of st1 slug = misses_of st slug"
    using absent by (auto simp: only_adopts_def absent_from_def misses_of_def)
  let ?present = "set (map dm_slug (si_models si))"
  have st': "adopted_slugs st' = adopted_slugs (retirement_pass ?present st1)"
    "misses_of st' slug = misses_of (retirement_pass ?present st1) slug"
    using run loop auth by (auto simp: decide_def Let_def split: sum.splits)
  have out: "slug \<notin> ?present" using absent by (simp add: absent_from_def)
  show "slug \<in> set (adopted_slugs st') \<longleftrightarrow>
      slug \<in> set (adopted_slugs st) \<and> misses_of st slug + 1 < RETIRE_AFTER_MISSES"
    using retirement_pass_missed(1) [of slug st1, OF _ out] retirement_pass_absent [of slug st1 ?present]
      same st' by metis
  then show "slug \<in> set (adopted_slugs st') \<Longrightarrow> misses_of st' slug = misses_of st slug + 1"
    using retirement_pass_missed(2) [of slug st1, OF _ out] same st' by metis
qed

lemma apply_loop_other:
  "sid \<notin> si_source_id ` set sis \<Longrightarrow>
   map_of (sr_sources (fst (apply_loop worker sis reg ds))) sid = map_of (sr_sources reg) sid"
proof (induction sis arbitrary: reg ds)
  case (Cons si sis)
  show ?case
  proof (cases "map_of (sr_sources reg) (si_source_id si)")
    case (Some st)
    obtain st' r where "decide si (st\<lparr>ss_inventory := Some si\<rparr>) = (st', r)" by fastforce
    then show ?thesis using Cons Some by (cases r) (auto simp: Let_def AList.update_conv')
  qed (use Cons in simp)
qed simp

lemma apply_loop_at:
  assumes "sources_ok tr (sr_sources reg)" "list_all valid_source_inventory sis"
    "list_all clean_inventory sis" "\<And>si. si \<in> set sis \<Longrightarrow> reported tr worker si"
    "distinct (map si_source_id sis)" "si \<in> set sis" "map_of (sr_sources reg) (si_source_id si) = Some st"
    "serves_source worker si (ss_config st)"
  shows "\<exists>st' ds'. decide si (st\<lparr>ss_inventory := Some si\<rparr>) = (st', Inr ds')
    \<and> map_of (sr_sources (fst (apply_loop worker sis reg ds))) (si_source_id si) = Some st'"
  using assms
proof (induction sis arbitrary: reg ds)
  case (Cons sj sis)
  note prems = Cons.prems
  show ?case
  proof (cases "map_of (sr_sources reg) (si_source_id sj)")
    case None
    then have "si \<noteq> sj" using prems(7) by auto
    then show ?thesis using Cons None by simp
  next
    case (Some stj)
    note stj = sources_ok_lookup [OF prems(1) Some]
    show ?thesis
    proof (cases "serves_source worker sj (ss_config stj)")
      case False
      then have "si \<noteq> sj" using prems(7,8) Some by auto
      then show ?thesis using Cons Some False by simp
    next
      case True
      obtain st' ds1 where run: "decide sj (stj\<lparr>ss_inventory := Some sj\<rparr>) = (st', Inr ds1)"
        using decide_total [of "stj\<lparr>ss_inventory := Some sj\<rparr>" sj] stj prems
        by (auto simp: state_ok_def clean_inventory_def)
      let ?reg = "reg\<lparr>sr_sources := AList.update (si_source_id sj) st' (sr_sources reg)\<rparr>"
      show ?thesis
      proof (cases "si = sj")
        case True
        moreover have "si_source_id sj \<notin> si_source_id ` set sis" using prems(5) by simp
        ultimately show ?thesis
          using run Some prems(7,8) apply_loop_other [of "si_source_id sj" sis worker ?reg "ds @ ds1"]
          by (simp add: Let_def AList.update_conv')
      next
        case False
        then have other: "si \<in> set sis" using prems(6) by simp
        have "si_source_id sj \<notin> si_source_id ` set sis" using prems(5) by simp
        with other have diff: "si_source_id si \<noteq> si_source_id sj" by (metis imageI)
        have "state_ok tr st' \<and> ss_config st' = ss_config stj"
          using decide_ok [OF _ _ _ _ _ run, of tr worker] stj True prems by auto
        then have "sources_ok tr (sr_sources ?reg)"
          using stj prems(1) by (simp add: sources_ok_update)
        then show ?thesis
          using Cons.IH [of ?reg "ds @ ds1"] prems other diff Some True run
          by (simp add: Let_def AList.update_conv')
      qed
    qed
  qed
qed simp

definition clean_report :: "inventory_report \<Rightarrow> bool" where
  "clean_report report = list_all clean_inventory (ir_sources report)"

definition confirms_absence :: "inventory_report \<Rightarrow> source_config \<Rightarrow> string \<Rightarrow> bool" where
  \<comment> \<open>an authenticated observation of this source that does not list the model\<close>
  "confirms_absence report c slug =
     list_ex (\<lambda>si. si_source_id si = sc_source_id c \<and> serves_source (ir_worker_id report) si c
        \<and> si_auth_state si = Au_authenticated \<and> absent_from si slug) (ir_sources report)"

lemma report_in_trace:
  assumes "registry_ok tr reg" "valid_inventory_report report"
  defines "tr' \<equiv> tr @ [Ev_inventory report]"
  shows "sources_ok tr' (sr_sources reg)" "list_all valid_source_inventory (ir_sources report)"
    "distinct (map si_source_id (ir_sources report))"
    "si \<in> set (ir_sources report) \<Longrightarrow> reported tr' (ir_worker_id report) si"
  using assms registry_ok_mono [of tr reg tr']
  by (auto simp: registry_ok_def valid_inventory_report_def inventory_report_parts_def
      inventory_report_checks_def reported_def reports_def)

definition run_reports :: "inventory_report list \<Rightarrow> source_registry \<Rightarrow> source_registry" where
  "run_reports reps reg = fold (\<lambda>rep reg. fst (apply_inventory rep reg)) reps reg"

definition absence_progress :: "source_config \<Rightarrow> string \<Rightarrow> int \<Rightarrow> source_registry \<Rightarrow> bool" where
  \<comment> \<open>after \<open>k\<close> misses: still adopted with the count \<open>k\<close>, or retired\<close>
  "absence_progress c slug k reg =
     (case map_of (sr_sources reg) (sc_source_id c) of
        None \<Rightarrow> False
      | Some st \<Rightarrow> ss_config st = c
          \<and> (if k < RETIRE_AFTER_MISSES then slug \<in> set (adopted_slugs st) \<and> misses_of st slug = k
             else slug \<notin> set (adopted_slugs st)))"

lemma absence_step:
  assumes reach: "sources_reach tr reg" and progress: "absence_progress c slug k reg" and k: "0 \<le> k"
    and rep: "valid_inventory_report rep" "clean_report rep" "confirms_absence rep c slug"
  shows "absence_progress c slug (k + 1) (fst (apply_inventory rep reg))"
proof -
  let ?tr = "tr @ [Ev_inventory rep]"
  note ok = conjunct1 [OF reach_ok [OF reach]]
  note in_trace = report_in_trace [OF ok rep(1)]
  obtain si where si: "si \<in> set (ir_sources rep)" "si_source_id si = sc_source_id c"
    "serves_source (ir_worker_id rep) si c" "si_auth_state si = Au_authenticated" "absent_from si slug"
    using rep(3) by (auto simp: confirms_absence_def list_ex_iff)
  obtain st where st: "map_of (sr_sources reg) (sc_source_id c) = Some st" "ss_config st = c"
    using progress by (auto simp: absence_progress_def split: option.splits)
  have clean: "list_all clean_inventory (ir_sources rep)" using rep(2) by (simp add: clean_report_def)
  obtain st' ds where run: "decide si (st\<lparr>ss_inventory := Some si\<rparr>) = (st', Inr ds)"
    and at: "map_of (sr_sources (fst (apply_inventory rep reg))) (si_source_id si) = Some st'"
    using apply_loop_at [OF in_trace(1,2) clean in_trace(4) in_trace(3) si(1), of st "[]"] st si
    unfolding apply_inventory_def by auto
  have valid: "valid_source_inventory si" using in_trace(2) si(1) by (simp add: list_all_iff)
  have stok: "state_ok ?tr (st\<lparr>ss_inventory := Some si\<rparr>)"
    using sources_ok_lookup [OF in_trace(1) st(1)] by simp
  have args: "serves_source (ir_worker_id rep) si (ss_config (st\<lparr>ss_inventory := Some si\<rparr>))"
    "si_source_id si = sc_source_id (ss_config (st\<lparr>ss_inventory := Some si\<rparr>))"
    using si st by simp_all
  note unseen = decide_unseen [OF stok valid in_trace(4) [OF si(1)] args run si(4,5)]
  have c: "ss_config st' = c"
    using decide_ok [OF stok valid in_trace(4) [OF si(1)] args run] st by simp
  show ?thesis
  proof (cases "k < RETIRE_AFTER_MISSES")
    case True
    then have "slug \<in> set (adopted_slugs st)" "misses_of st slug = k"
      using progress st by (simp_all add: absence_progress_def)
    then show ?thesis using c at si(2) unseen by (simp add: absence_progress_def)
  next
    case False
    then have "slug \<notin> set (adopted_slugs st)" using progress st by (simp add: absence_progress_def)
    then show ?thesis using False c at si(2) unseen(1) by (simp add: absence_progress_def)
  qed
qed

lemma absence_progress_run:
  "sources_reach tr reg \<Longrightarrow> absence_progress c slug k reg \<Longrightarrow> 0 \<le> k \<Longrightarrow>
   list_all (\<lambda>rep. valid_inventory_report rep \<and> clean_report rep \<and> confirms_absence rep c slug) reps \<Longrightarrow>
   absence_progress c slug (k + int (length reps)) (run_reports reps reg)"
proof (induction reps arbitrary: tr reg k)
  case (Cons rep reps)
  have reach: "sources_reach (tr @ [Ev_inventory rep]) (fst (apply_inventory rep reg))"
    using sources_reach.report [OF Cons.prems(1), of rep] Cons.prems(4) by (simp add: source_step_def)
  have "absence_progress c slug (k + 1) (fst (apply_inventory rep reg))"
    using absence_step [OF Cons.prems(1-3)] Cons.prems(4) by simp
  from Cons.IH [OF reach this] show ?case
    using Cons.prems by (simp add: run_reports_def algebra_simps)
qed (simp add: run_reports_def)

end
