(* ===== verification/Source_Catalog.thy ===== *)
theory Source_Catalog
  imports Execution_Sources
begin

text \<open>
  execution_sources.py, the catalog side: the catalog extended with the adopted identities
  (\<open>derived_catalog_entries\<close>), administrator-configured identities (\<open>add_configured_resources\<close>)
  and the read-only source view.
\<close>

section \<open>Entries without model facts\<close>

definition no_assessment :: capability_assessment where
  \<comment> \<open>\<open>CapabilityAssessment(rating=None)\<close>\<close>
  "no_assessment = \<lparr>as_rating = None, as_evidence = [], as_confidence = None, as_assessed_on = None,
     as_rationale = None, as_human_override = None\<rparr>"

definition no_assessments :: capability_assessments where
  "no_assessments = \<lparr>av_reasoning = no_assessment, av_coding = no_assessment,
     av_scientific_methodological = no_assessment, av_writing_editorial = no_assessment,
     av_tool_use = no_assessment, av_translation_multilingual = no_assessment\<rparr>"

definition no_hard_properties :: "bool option \<Rightarrow> model_hard_properties" where
  \<comment> \<open>\<open>ModelHardProperties(supports_reasoning_mode=...)\<close>\<close>
  "no_hard_properties reasoning = \<lparr>hp_input_context_tokens = None, hp_output_tokens = None,
     hp_supports_tool_use = None, hp_supports_vision = None, hp_supports_reasoning_mode = reasoning,
     hp_privacy_tags = None\<rparr>"

definition bare_entry ::
  "model_identity \<Rightarrow> string \<Rightarrow> bool option \<Rightarrow> reasoning_effort option \<Rightarrow> capacity_scope_ref list option
     \<Rightarrow> model_catalog_entry" where
  \<comment> \<open>an entry whose other attributes are the defaults\<close>
  "bare_entry identity name reasoning effort bindings =
     \<lparr>ce_identity = identity, ce_display_name = name, ce_hard_properties = no_hard_properties reasoning,
      ce_capabilities = no_assessments, ce_capacity_bindings = bindings, ce_model_version = None,
      ce_model_version_date = None, ce_last_reviewed_on = None, ce_reasoning_effort = effort,
      ce_capacity_binding_resources = None, ce_resource_capacity_bindings = []\<rparr>"

definition new_scope :: "string \<Rightarrow> string \<Rightarrow> capacity_scope_ref result" where
  "new_scope provider scope = mk_scope (CapacityScopeRef provider scope)"

definition config_scopes :: "source_config \<Rightarrow> capacity_scope_ref list result" where
  "config_scopes config = traverse (new_scope (config_provider config)) (sc_capacity_scope_ids config)"

definition effort_of :: "string \<Rightarrow> reasoning_effort option" where
  \<comment> \<open>a policy effort name as its constructor\<close>
  "effort_of e = find (\<lambda>x. effort_str x = e) REASONING_EFFORTS"

definition discovered_entry :: "string \<Rightarrow> string option \<Rightarrow> source_config \<Rightarrow> model_catalog_entry result" where
  "discovered_entry slug effort config =
     bind_r (mk_identity (ModelIdentity (config_provider config) slug (lane_variant effort))) (\<lambda>identity.
     bind_r (mk_hard_properties (no_hard_properties (Some (effort \<noteq> None)))) (\<lambda>_.
     bind_r (if sc_capacity_scope_ids config = [] then Inr None
             else bind_r (config_scopes config) (\<lambda>scopes. Inr (Some scopes))) (\<lambda>bindings.
       mk_entry (bare_entry identity slug (Some (effort \<noteq> None)) (Option.bind effort effort_of) bindings))))"

section \<open>The extended catalog\<close>

type_synonym catalog_key = "string \<times> string \<times> string"

text \<open>
  The three dictionaries the loop fills with \<open>setdefault\<close>: a key that was never set has the empty
  value, and the loop only reads keys it has set.
\<close>

record catalog_pass =
  cp_existing :: "catalog_key set"
  cp_extra :: "model_catalog_entry list"
  cp_scopes_by_identity :: "catalog_key \<Rightarrow> string list set"
  cp_resources_by_identity :: "catalog_key \<Rightarrow> string set"
  cp_resource_scopes :: "catalog_key \<Rightarrow> (string \<times> capacity_scope_ref list) list"

definition offer_key :: "source_config \<Rightarrow> string \<Rightarrow> string option \<Rightarrow> catalog_key" where
  "offer_key config slug effort = (config_provider config, slug, lane_variant effort)"

definition note_offer ::
  "source_state \<Rightarrow> string \<Rightarrow> string option \<Rightarrow> catalog_pass \<Rightarrow> catalog_pass result" where
  \<comment> \<open>the body of the innermost loop\<close>
  "note_offer st slug effort p =
     (let config = ss_config st; key = offer_key config slug effort in
      bind_r (derived_id (sc_source_id config) slug effort) (\<lambda>rid.
      bind_r (if sc_capacity_scope_ids config = [] then Inr (cp_resource_scopes p)
              else bind_r (config_scopes config) (\<lambda>scopes.
                Inr ((cp_resource_scopes p)(key := AList.update rid scopes (cp_resource_scopes p key))))) (\<lambda>bound.
        let p' = p\<lparr>cp_scopes_by_identity :=
                     (cp_scopes_by_identity p)(key :=
                        insert (sc_capacity_scope_ids config) (cp_scopes_by_identity p key)),
                   cp_resources_by_identity :=
                     (cp_resources_by_identity p)(key := insert rid (cp_resources_by_identity p key)),
                   cp_resource_scopes := bound\<rparr> in
        if key \<in> cp_existing p then Inr p'
        else bind_r (discovered_entry slug effort config) (\<lambda>entry.
          Inr (p'\<lparr>cp_existing := insert key (cp_existing p), cp_extra := cp_extra p @ [entry]\<rparr>)))))"

fun note_offers ::
  "(source_state \<times> string \<times> string option) list \<Rightarrow> catalog_pass \<Rightarrow> catalog_pass result" where
  "note_offers [] p = Inr p"
| "note_offers ((st, slug, effort) # rest) p = bind_r (note_offer st slug effort p) (note_offers rest)"

definition bind_entry :: "catalog_pass \<Rightarrow> model_catalog_entry \<Rightarrow> model_catalog_entry result" where
  \<comment> \<open>the \<open>replace\<close> that attaches the capacity bindings: only unanimous ones are kept\<close>
  "bind_entry p e =
     (let key = entry_key e in
      mk_entry (e\<lparr>ce_capacity_bindings :=
                    (if card (cp_scopes_by_identity p key) = 1 then ce_capacity_bindings e else None),
                  ce_capacity_binding_resources :=
                    Some (sorted_list_of_set (cp_resources_by_identity p key)),
                  ce_resource_capacity_bindings := sort_key fst (cp_resource_scopes p key)\<rparr>))"

definition new_catalog_pass :: "model_catalog \<Rightarrow> catalog_pass" where
  "new_catalog_pass base =
     \<lparr>cp_existing = set (map entry_key (mc_entries base)), cp_extra = [],
      cp_scopes_by_identity = (\<lambda>_. {}), cp_resources_by_identity = (\<lambda>_. {}),
      cp_resource_scopes = (\<lambda>_. [])\<rparr>"

definition derived_catalog_entries :: "model_catalog \<Rightarrow> source_registry \<Rightarrow> model_catalog result" where
  "derived_catalog_entries base reg =
     bind_r (note_offers (offers (\<lambda>efforts. efforts) reg) (new_catalog_pass base)) (\<lambda>p.
       if cp_extra p = [] then Inr base
       else bind_r (traverse (bind_entry p) (cp_extra p)) (\<lambda>extra.
         mk_catalog (base\<lparr>mc_entries := mc_entries base @ extra\<rparr>)))"

section \<open>Administrator-configured identities\<close>

fun configured_loop ::
  "resource_registration list \<Rightarrow> catalog_key set \<Rightarrow> model_catalog_entry list
     \<Rightarrow> model_catalog_entry list result" where
  "configured_loop [] existing extra = Inr extra"
| "configured_loop (r # rs) existing extra =
     (let identity = rg_identity r;
          variant = (case ri_variant identity of Some v \<Rightarrow> v | None \<Rightarrow> ''unconfigured'');
          key = (ri_provider identity, ri_model identity, variant) in
      if key \<in> existing then configured_loop rs existing extra
      else
        bind_r (mk_identity (ModelIdentity (ri_provider identity) (ri_model identity) variant)) (\<lambda>mid.
        bind_r (mk_entry (bare_entry mid (ri_model identity) None None None)) (\<lambda>entry.
          configured_loop rs (insert key existing) (extra @ [entry]))))"

definition add_configured_resources ::
  "model_catalog \<Rightarrow> resource_registration list \<Rightarrow> model_catalog result" where
  "add_configured_resources base registrations =
     (if mc_catalog_version base \<noteq> None then Inr base
      else
        bind_r (configured_loop (sort_key (\<lambda>r. ri_resource_id (rg_identity r)) registrations)
                  (set (map entry_key (mc_entries base))) []) (\<lambda>extra.
          mk_catalog \<lparr>mc_catalog_version = None, mc_updated_on = None,
                      mc_entries = mc_entries base @ extra\<rparr>))"

section \<open>The source view\<close>

record model_view =
  mv_slug :: string
  mv_state :: adoption_state
  mv_reason :: "string option"
  mv_reasoning_efforts :: "string list"

record source_view =
  sv_source_id :: string
  sv_label :: string
  sv_kind :: source_kind
  sv_worker_id :: string
  sv_connected :: bool
  sv_source_authenticated :: source_auth_state
  sv_runtime_name :: "string option"
  sv_runtime_version :: "string option"
  sv_runtime_version_exact :: bool
  sv_observed_at :: "string option"
  sv_models :: "model_view list"
  sv_routable :: nat
  sv_restricted :: nat
  sv_discovered :: nat
  sv_retired :: "string list"

definition source_decision_for :: "adoption_decision list \<Rightarrow> string \<Rightarrow> adoption_decision option" where
  "source_decision_for decisions slug = find (\<lambda>d. ad_slug d = slug) decisions"

definition state_for :: "source_state \<Rightarrow> string \<Rightarrow> adoption_state" where
  "state_for st slug =
     (case source_decision_for (ss_decisions st) slug of
        Some d \<Rightarrow> ad_state d
      | None \<Rightarrow> if slug \<in> set (ss_retired st) then Ad_retired else Ad_discovered)"

definition RESTRICTED_REASONS :: "adoption_exclusion list" where
  "RESTRICTED_REASONS = [Ex_model_not_allowed, Ex_legacy_track_policy, Ex_adoption_disabled]"

datatype view_reason = Vr_exclusion adoption_exclusion | Vr_awaiting_inventory_refresh

fun view_reason_str :: "view_reason \<Rightarrow> string" where
  "view_reason_str (Vr_exclusion x) = adoption_exclusion_str x"
| "view_reason_str Vr_awaiting_inventory_refresh = ''awaiting_inventory_refresh''"

definition view_reason_of :: "source_state \<Rightarrow> string \<Rightarrow> view_reason option" where
  "view_reason_of st slug =
     (case current_exclusion (ss_config st) slug of
        Some x \<Rightarrow> Some (Vr_exclusion x)
      | None \<Rightarrow>
          (case source_decision_for (ss_decisions st) slug of
             None \<Rightarrow> None
           | Some d \<Rightarrow>
               if \<exists>x \<in> set RESTRICTED_REASONS. ad_reason d = Some x
               then Some Vr_awaiting_inventory_refresh else None))"

definition effective_state :: "source_state \<Rightarrow> string \<Rightarrow> adoption_state" where
  "effective_state st slug =
     (if view_reason_of st slug \<noteq> None then Ad_discovered else state_for st slug)"

definition model_view_of :: "source_state \<Rightarrow> discovered_model \<Rightarrow> model_view" where
  "model_view_of st m =
     \<lparr>mv_slug = dm_slug m, mv_state = effective_state st (dm_slug m),
      mv_reason =
        (case view_reason_of st (dm_slug m) of
           Some r \<Rightarrow> Some (view_reason_str r)
         | None \<Rightarrow>
             (case source_decision_for (ss_decisions st) (dm_slug m) of
                None \<Rightarrow> None | Some d \<Rightarrow> map_option adoption_exclusion_str (ad_reason d))),
      mv_reasoning_efforts = dm_reasoning_efforts m\<rparr>"

definition counts_restricted :: "source_state \<Rightarrow> string \<Rightarrow> bool" where
  "counts_restricted st slug =
     (effective_state st slug \<noteq> Ad_routable
      \<and> (\<exists>x \<in> set RESTRICTED_REASONS. view_reason_of st slug = Some (Vr_exclusion x)))"

definition source_view_of :: "source_state \<Rightarrow> string \<Rightarrow> source_view" where
  "source_view_of st source_id =
     (let config = ss_config st; si = ss_inventory st;
          models = (case si of None \<Rightarrow> [] | Some i \<Rightarrow> si_models i);
          slugs = map dm_slug models in
      \<lparr>sv_source_id = source_id, sv_label = (if sc_label config = [] then source_id else sc_label config),
       sv_kind = sc_kind config, sv_worker_id = sc_worker_id config, sv_connected = (si \<noteq> None),
       sv_source_authenticated = (case si of None \<Rightarrow> Au_unverified | Some i \<Rightarrow> si_auth_state i),
       sv_runtime_name = map_option si_runtime_name si,
       sv_runtime_version = map_option si_runtime_version si,
       sv_runtime_version_exact = (case si of None \<Rightarrow> False | Some i \<Rightarrow> si_runtime_version_exact i),
       sv_observed_at = map_option si_observed_at si,
       sv_models = map (model_view_of st) models,
       sv_routable = length (filter (\<lambda>s. effective_state st s = Ad_routable) slugs),
       sv_restricted = length (filter (counts_restricted st) slugs),
       sv_discovered = length (filter (\<lambda>s. effective_state st s \<noteq> Ad_routable
                                         \<and> \<not> counts_restricted st s) slugs),
       sv_retired = sort (ss_retired st)\<rparr>)"

definition source_views :: "source_registry \<Rightarrow> source_view list" where
  "source_views reg =
     map (\<lambda>(source_id, st). source_view_of st source_id) (sort_key fst (sr_sources reg))"

end
