(* ===== verification/Source_Resources.thy ===== *)
theory Source_Resources
  imports Source_Spec Source_Catalog
begin

text \<open>
  What the server offers from the source registry: the derived registrations exist, are valid and
  have distinct identifiers, every one of them is granted and was advertised, and the theorems that
  state the contract of adoption and retirement, with the inputs that exercise them.
\<close>

section \<open>Offers\<close>

lemma distinct_concat_map:
  assumes "distinct xs" "\<And>x. x \<in> set xs \<Longrightarrow> distinct (f x)"
    "\<And>x y. x \<in> set xs \<Longrightarrow> y \<in> set xs \<Longrightarrow> x \<noteq> y \<Longrightarrow> set (f x) \<inter> set (f y) = {}"
  shows "distinct (concat (map f xs))"
  using assms
proof (induction xs)
  case (Cons x xs)
  have "set (f x) \<inter> set (concat (map f xs)) = {}"
    using Cons.prems(1,3) by fastforce
  then show ?case using Cons by simp
qed simp

lemma in_concat_map: "y \<in> set (concat (map g xs)) \<longleftrightarrow> (\<exists>x \<in> set xs. y \<in> set (g x))"
  by simp

lemma adopted_lookup: "s \<in> set (adopted_slugs st) \<longleftrightarrow> map_of (ss_adopted st) s \<noteq> None"
  by (simp add: adopted_slugs_def map_of_eq_None_iff)

definition offered :: "source_state \<Rightarrow> string \<Rightarrow> string option \<Rightarrow> bool" where
  \<comment> \<open>the source currently offers the model (with this effort)\<close>
  "offered st slug effort =
     (ss_inventory st \<noteq> None \<and> current_exclusion (ss_config st) slug = None
      \<and> (\<exists>efforts. map_of (ss_adopted st) slug = Some efforts
           \<and> (case effort of None \<Rightarrow> efforts = []
              | Some e \<Rightarrow> e \<in> set efforts \<and> policy_effort e)))"

lemma offered_variants_iff:
  assumes "\<And>xs. set (order xs) = set xs"
  shows "(slug, effort) \<in> set (offered_variants order st) \<longleftrightarrow> offered st slug effort"
proof -
  let ?at = "\<lambda>s. if current_exclusion (ss_config st) s \<noteq> None then []
    else (case map_of (ss_adopted st) s of None \<Rightarrow> []
      | Some efforts \<Rightarrow> if efforts = [] then [(s, None)]
          else map (\<lambda>e. (s, Some e)) (order (filter policy_effort efforts)))"
  have own: "fst p = s" if "p \<in> set (?at s)" for p s
    using that by (auto split: if_splits option.splits)
  have here: "(slug, effort) \<in> set (?at slug) \<longleftrightarrow> current_exclusion (ss_config st) slug = None
      \<and> (\<exists>efforts. map_of (ss_adopted st) slug = Some efforts
           \<and> (case effort of None \<Rightarrow> efforts = [] | Some e \<Rightarrow> e \<in> set efforts \<and> policy_effort e))"
    by (cases effort; cases "map_of (ss_adopted st) slug") (auto simp: assms)
  have "(slug, effort) \<in> set (offered_variants order st) \<longleftrightarrow>
      ss_inventory st \<noteq> None \<and> (\<exists>s \<in> set (adopted_slugs st). (slug, effort) \<in> set (?at s))"
    unfolding offered_variants_def by (cases "ss_inventory st = None") (simp_all only: in_concat_map set_sort if_True if_False simp_thms list.set empty_iff)
  also have "\<dots> \<longleftrightarrow> ss_inventory st \<noteq> None \<and> slug \<in> set (adopted_slugs st)
      \<and> (slug, effort) \<in> set (?at slug)"
  proof -
    have "s = slug" if "(slug, effort) \<in> set (?at s)" for s using own [OF that] by simp
    then show ?thesis by blast
  qed
  finally show ?thesis
    unfolding here offered_def adopted_lookup by blast
qed

lemma offered_variants_distinct:
  assumes st: "state_ok tr st" and order: "\<And>xs. set (order xs) = set xs"
    "\<And>xs. distinct xs \<Longrightarrow> distinct (order xs)"
  shows "distinct (offered_variants order st)"
proof (cases "ss_inventory st")
  case (Some si)
  have keys: "distinct (adopted_slugs st)" and lanes: "\<And>s es. map_of (ss_adopted st) s = Some es \<Longrightarrow> distinct es"
    using st by (auto simp: state_ok_def adopted_ok_def lane_ok_def list_all_iff dest!: map_of_SomeD)
  show ?thesis
    unfolding offered_variants_def Some
  proof (simp, rule distinct_concat_map, goal_cases)
    case 1
    then show ?case using keys by simp
  next
    case (2 s)
    then show ?case using lanes order by (auto simp: distinct_map inj_on_def split: option.splits)
  qed (auto split: option.splits if_splits)
qed (simp add: offered_variants_def)

lemma sorted_states_set:
  "distinct (map fst (sr_sources reg)) \<Longrightarrow>
   st \<in> set (sorted_states reg) \<longleftrightarrow> (\<exists>sid. map_of (sr_sources reg) sid = Some st)"
  by (force simp: sorted_states_def)

lemma offers_iff:
  assumes "sources_ok tr (sr_sources reg)" "\<And>xs. set (order xs) = set xs"
  shows "(st, slug, effort) \<in> set (offers order reg) \<longleftrightarrow>
    map_of (sr_sources reg) (sc_source_id (ss_config st)) = Some st \<and> offered st slug effort"
proof -
  have "st \<in> set (sorted_states reg) \<longleftrightarrow> map_of (sr_sources reg) (sc_source_id (ss_config st)) = Some st"
    using assms(1) sources_ok_lookup [OF assms(1)]
    by (auto simp: sorted_states_set sources_ok_def)
  then show ?thesis
    using offered_variants_iff [OF assms(2), of slug effort st] by (auto simp: offers_def)
qed

lemma offers_distinct:
  assumes "sources_ok tr (sr_sources reg)" "\<And>xs. set (order xs) = set xs"
    "\<And>xs. distinct xs \<Longrightarrow> distinct (order xs)"
  shows "distinct (offers order reg)"
proof -
  have keys: "distinct (map fst (sr_sources reg))" using assms(1) by (simp add: sources_ok_def)
  have "distinct (map (\<lambda>st. sc_source_id (ss_config st)) (sorted_states reg))"
  proof -
    have "map (\<lambda>st. sc_source_id (ss_config st)) (sorted_states reg) = map fst (sort_key fst (sr_sources reg))"
      using assms(1) by (auto simp: sorted_states_def sources_ok_def list_all_iff)
    then show ?thesis using keys by simp
  qed
  then have "distinct (sorted_states reg)" by (simp add: distinct_map)
  then show ?thesis
    unfolding offers_def
  proof (rule distinct_concat_map, goal_cases)
    case (1 st)
    then obtain sid where "map_of (sr_sources reg) sid = Some st" using keys by (auto simp: sorted_states_set)
    then have "state_ok tr st" using sources_ok_lookup [OF assms(1)] by blast
    then show ?case using offered_variants_distinct [OF _ assms(2,3)] by (simp add: distinct_map inj_on_def)
  qed auto
qed

section \<open>Registrations\<close>

lemma surface_keys: "map fst (surface_capabilities k) =
  [''streaming'', ''tool_calls'', ''structured_output'', ''reasoning_controls'', ''usage_reporting'',
   ''cancellation'', ''output_limit_control'']"
  by (cases k) simp_all

lemma source_capabilities_ok:
  assumes "valid_source_config (ss_config st)"
  shows "\<exists>c. source_capabilities st slug variant = Inr c \<and> valid_capabilities c"
proof -
  have ev: "valid_context_evidence x" if "applicable_evidence st slug variant = Some x" for x
    using assms that
    by (auto simp: applicable_evidence_def find_Some_iff valid_source_config_def source_config_parts_def
        list_all_length)
  have "is_ok (source_capabilities st slug variant)"
  proof (cases "applicable_evidence st slug variant")
    case None
    then show ?thesis
      by (cases "sc_kind (ss_config st)")
        (simp_all add: source_capabilities_def is_ok_def capabilities_from_dict_def v_exact_shape_def
          CAPABILITIES_OPTIONAL_def py_get_def v_bool_def v_token_limit_def mk_capabilities_def
          check_context_evidence_def)
  next
    case (Some x)
    note x = ev [OF Some, unfolded valid_context_evidence_def]
    then have "\<not> sx_valid_until x \<le> sx_verified_at x"
      using ts_less_iff [of "sx_verified_at x" "sx_valid_until x"] by auto
    moreover have "v_safe_id cap_exn (PStr (sx_evidence_ref x)) f = Inr (sx_evidence_ref x)"
      "v_ts cap_exn (PStr (sx_valid_until x)) f = Inr (sx_valid_until x)"
      "v_ts cap_exn (PStr (sx_verified_at x)) f = Inr (sx_verified_at x)"
      "v_runtime_version (PStr (sx_runtime_version x)) f = Inr (sx_runtime_version x)"
      "v_int cap_exn (Some 1) None (PInt (sx_input_tokens x)) f = Inr (sx_input_tokens x)" for f
      using x by (simp_all add: valid_simps)
    ultimately show ?thesis
      using Some
      by (cases "sc_kind (ss_config st)")
        (simp_all add: source_capabilities_def evidence_facts_def is_ok_def capabilities_from_dict_def
          v_exact_shape_def CAPABILITIES_OPTIONAL_def py_get_def v_bool_def v_token_limit_def
          mk_capabilities_def check_context_evidence_def)
  qed
  then show ?thesis
    by (auto simp: is_ok_iff source_capabilities_def dest: capabilities_contract.parsed_ok)
qed

lemma source_provider_ok [simp]: "safe_id_match (config_provider c)"
  unfolding config_provider_def by (cases "sc_kind c") (simp_all, code_simp+)

lemma pool_id_ok:
  assumes "valid_source_config c"
  shows "safe_id_match (pool_id c)"
proof (cases "sc_quota_pool_id c")
  case None
  have sid: "safe_id_match (sc_source_id c)" "length (sc_source_id c) \<le> 20"
    using assms by (simp_all add: valid_source_config_def source_config_checks_def inventory_bounds)
  have pool: "id_grammar ''pool-''" by code_simp
  have grammar: "id_grammar (''pool-'' @ s)" if "id_grammar s" "length s \<le> 20" for s
    using that by (intro id_grammar_append [OF pool]) (auto intro: id_grammar_rest)
  have "safe_id_match (''pool-'' @ sc_source_id c)"
    using sid grammar [of "sc_source_id c"] grammar [of "butlast (sc_source_id c)"]
    unfolding safe_id_match_def dollar_def by (auto simp: butlast_append)
  then show ?thesis using None by (simp add: pool_id_def)
next
  case (Some p)
  then show ?thesis using assms by (simp add: pool_id_def valid_source_config_def source_config_checks_def)
qed

definition registration_of ::
  "int \<Rightarrow> source_state \<Rightarrow> string \<Rightarrow> string option \<Rightarrow> string \<Rightarrow> execution_capabilities \<Rightarrow> resource_registration" where
  "registration_of ttl st slug effort rid caps =
     \<lparr>rg_identity = \<lparr>ri_resource_id = rid, ri_channel = Ch_worker_bridged,
        ri_provider = config_provider (ss_config st), ri_model = slug,
        ri_entitlement = sc_entitlement (ss_config st), ri_variant = effort,
        ri_quota_pool_ids = [pool_id (ss_config st)]\<rparr>,
      rg_freshness_ttl_seconds = ttl, rg_poll_interval_seconds = None, rg_capabilities = caps,
      rg_cost = None\<rparr>"

lemma derived_registration_Inr:
  "derived_registration ttl st slug effort = Inr r \<longleftrightarrow>
     (\<exists>rid caps. derived_id (sc_source_id (ss_config st)) slug effort = Inr rid
        \<and> source_capabilities st slug (lane_variant effort) = Inr caps
        \<and> valid_resource_identity (rg_identity (registration_of ttl st slug effort rid caps))
        \<and> 1 \<le> ttl \<and> r = registration_of ttl st slug effort rid caps)"
  unfolding derived_registration_def Let_def
  by (auto simp: bind_r_Inr_iff mk_resource_identity_Inr mk_registration_def v_poll_def registration_of_def
      v_int_Inr)

lemma offered_lane:
  assumes "state_ok tr st" "offered st slug effort"
  shows "\<exists>efforts. lane_ok (ss_config st) slug efforts \<and> advertised tr (ss_config st) slug efforts
    \<and> (case effort of None \<Rightarrow> efforts = [] \<and> plan_managed (ss_config st)
       | Some e \<Rightarrow> e \<in> set efforts \<and> policy_effort e)
    \<and> (\<exists>rid. derived_id (sc_source_id (ss_config st)) slug effort = Inr rid)"
proof -
  obtain efforts where e: "map_of (ss_adopted st) slug = Some efforts"
    "case effort of None \<Rightarrow> efforts = [] | Some e \<Rightarrow> e \<in> set efforts \<and> policy_effort e"
    using assms(2) by (auto simp: offered_def)
  then have lane: "lane_ok (ss_config st) slug efforts" "advertised tr (ss_config st) slug efforts"
    using assms(1) by (auto simp: state_ok_def adopted_ok_def list_all_iff dest!: map_of_SomeD)
  show ?thesis
  proof (cases effort)
    case None
    then have "plan_managed (ss_config st)"
      using e lane by (auto simp: lane_ok_def split: if_splits)
    then show ?thesis using None e lane by (auto simp: lane_ok_def is_ok_iff)
  next
    case (Some x)
    then have "\<not> plan_managed (ss_config st)" using e lane by (auto simp: lane_ok_def)
    then have "is_ok (derived_id (sc_source_id (ss_config st)) slug (Some x))"
      using Some e lane by (auto simp: lane_ok_def list_all_iff)
    then show ?thesis using Some e lane by (auto simp: is_ok_iff)
  qed
qed

lemma derived_registration_ok:
  assumes st: "state_ok tr st" and offer: "offered st slug effort" and ttl: "1 \<le> ttl"
  shows "\<exists>r. derived_registration ttl st slug effort = Inr r \<and> valid_registration r
    \<and> derived_id (sc_source_id (ss_config st)) slug effort = Inr (ri_resource_id (rg_identity r))"
proof -
  have config: "valid_source_config (ss_config st)" using st by (simp add: state_ok_def)
  obtain efforts rid where lane: "lane_ok (ss_config st) slug efforts"
    and effort: "case effort of None \<Rightarrow> efforts = [] \<and> plan_managed (ss_config st)
       | Some e \<Rightarrow> e \<in> set efforts \<and> policy_effort e"
    and rid: "derived_id (sc_source_id (ss_config st)) slug effort = Inr rid"
    using offered_lane [OF st offer] by blast
  obtain caps where caps: "source_capabilities st slug (lane_variant effort) = Inr caps" "valid_capabilities caps"
    using source_capabilities_ok [OF config] by blast
  have "safe_id_match rid" using rid unfolding derived_id_Inr source_resource_id_Inr by blast
  moreover have "safe_id_match slug" using lane by (simp add: lane_ok_def)
  moreover have "pred_option safe_id_match effort"
    using effort policy_effort_ok(5) by (cases effort) auto
  ultimately have "valid_resource_identity (rg_identity (registration_of ttl st slug effort rid caps))"
    using pool_id_ok [OF config] by (simp add: registration_of_def valid_resource_identity_def)
  then show ?thesis
    using rid caps ttl
    by (intro exI [of _ "registration_of ttl st slug effort rid caps"])
      (simp add: derived_registration_Inr valid_registration_def registration_parts_def registration_of_def)
qed

lemma traverse_ok_list: "(\<And>x. x \<in> set xs \<Longrightarrow> \<exists>y. f x = Inr y \<and> P x y) \<Longrightarrow>
  \<exists>ys. traverse f xs = Inr ys \<and> list_all2 P xs ys"
proof (induction xs)
  case (Cons x xs)
  then obtain y ys where "f x = Inr y" "P x y" "traverse f xs = Inr ys" "list_all2 P xs ys" by force
  then show ?case by (intro exI [of _ "y # ys"]) simp
qed simp

lemma list_all2_member: "list_all2 P xs ys \<Longrightarrow> y \<in> set ys \<Longrightarrow> \<exists>x \<in> set xs. P x y"
  by (induction rule: list_all2_induct) auto

lemma list_all2_distinct:
  assumes "list_all2 P xs ys" "distinct xs"
    "\<And>x y x' y'. x \<in> set xs \<Longrightarrow> x' \<in> set xs \<Longrightarrow> P x y \<Longrightarrow> P x' y' \<Longrightarrow> f y = f y' \<Longrightarrow> x = x'"
  shows "distinct (map f ys)"
  using assms
proof (induction rule: list_all2_induct)
  case (Cons x xs y ys)
  have "f y \<noteq> f y'" if y': "y' \<in> set ys" for y'
  proof -
    obtain x' where "x' \<in> set xs" "P x' y'"
      using list_all2_member [OF Cons.hyps(2) y'] by blast
    then show ?thesis using Cons.prems Cons.hyps(1) by (metis distinct.simps(2) list.set_intros)
  qed
  then have "f y \<notin> set (map f ys)" by auto
  moreover have "distinct (map f ys)"
    by (rule Cons.IH) (use Cons.prems in \<open>simp, metis list.set_intros(2)\<close>)
  ultimately show ?case by simp
qed simp

definition derived_from :: "source_state \<times> string \<times> string option \<Rightarrow> resource_registration \<Rightarrow> bool" where
  "derived_from = (\<lambda>(st, slug, effort) r. valid_registration r
     \<and> derived_id (sc_source_id (ss_config st)) slug effort = Inr (ri_resource_id (rg_identity r)))"

lemma derived_registrations_exist:
  assumes ok: "registry_ok tr reg" and ttl: "1 \<le> sr_ttl reg"
  shows "\<exists>regs. derived_registrations reg = Inr regs \<and> list_all2 derived_from (offers sort reg) regs"
  unfolding derived_registrations_def
proof (rule traverse_ok_list)
  fix x assume x: "x \<in> set (offers sort reg)"
  obtain st slug effort where xe: "x = (st, slug, effort)" by (cases x)
  have sources: "sources_ok tr (sr_sources reg)" using ok by (simp add: registry_ok_def)
  then have at: "map_of (sr_sources reg) (sc_source_id (ss_config st)) = Some st" "offered st slug effort"
    using offers_iff [of tr reg sort st slug effort] x xe by simp_all
  have "state_ok tr st" using sources_ok_lookup [OF sources at(1)] by blast
  from derived_registration_ok [OF this at(2) ttl]
  show "\<exists>y. (case x of (st, slug, effort) \<Rightarrow> derived_registration (sr_ttl reg) st slug effort) = Inr y
      \<and> derived_from x y"
    by (simp add: derived_from_def xe)
qed

lemma registration_origin:
  assumes "derived_registrations reg = Inr regs" "r \<in> set regs"
  obtains st slug effort where "(st, slug, effort) \<in> set (offers sort reg)"
    "derived_registration (sr_ttl reg) st slug effort = Inr r"
proof -
  have "list_all2 (\<lambda>x y. (case x of (st, slug, effort) \<Rightarrow> derived_registration (sr_ttl reg) st slug effort)
      = Inr y) (offers sort reg) regs"
    using assms(1) by (simp add: derived_registrations_def traverse_Inr_iff)
  from list_all2_member [OF this assms(2)] that show thesis by auto
qed

lemma derived_ids_distinct:
  assumes ok: "registry_ok tr reg" and regs: "list_all2 derived_from (offers sort reg) regs"
  shows "distinct (map (\<lambda>r. ri_resource_id (rg_identity r)) regs)"
proof (rule list_all2_distinct [OF regs])
  have sources: "sources_ok tr (sr_sources reg)" using ok by (simp add: registry_ok_def)
  then show "distinct (offers sort reg)" by (rule offers_distinct) auto
  fix x y x' y'
  assume mem: "x \<in> set (offers sort reg)" "x' \<in> set (offers sort reg)"
    and derived: "derived_from x y" "derived_from x' y'"
    and same: "ri_resource_id (rg_identity y) = ri_resource_id (rg_identity y')"
  obtain st slug effort st' slug' effort' where [simp]: "x = (st, slug, effort)" "x' = (st', slug', effort')"
    by (cases x; cases x')
  have at: "map_of (sr_sources reg) (sc_source_id (ss_config st)) = Some st" "offered st slug effort"
    "map_of (sr_sources reg) (sc_source_id (ss_config st')) = Some st'" "offered st' slug' effort'"
    using offers_iff [OF sources, of sort] mem by auto
  then have nonempty: "effort \<noteq> Some []" "effort' \<noteq> Some []"
    using policy_effort_ok(1) [of "[]"] by (auto simp: offered_def)
  have ids: "derived_id (sc_source_id (ss_config st)) slug effort = Inr (ri_resource_id (rg_identity y))"
    "derived_id (sc_source_id (ss_config st')) slug' effort' = Inr (ri_resource_id (rg_identity y))"
    using derived same by (simp_all add: derived_from_def)
  note inject = derived_id_inject [OF ids nonempty]
  have "Some st = Some st'" using at(1,3) inject by metis
  with inject show "x = x'" by simp
qed

section \<open>Listings without a policy effort\<close>

definition lists_without_policy_effort :: "inventory_report \<Rightarrow> source_config \<Rightarrow> string \<Rightarrow> bool" where
  \<comment> \<open>an authenticated observation of this source that lists the model, but with no policy effort\<close>
  "lists_without_policy_effort report c slug =
     list_ex (\<lambda>si. si_source_id si = sc_source_id c \<and> serves_source (ir_worker_id report) si c
        \<and> si_auth_state si = Au_authenticated
        \<and> list_ex (\<lambda>m. dm_slug m = slug \<and> \<not> list_ex policy_effort (dm_reasoning_efforts m)) (si_models si))
       (ir_sources report)"

definition lane_shadowed :: "string \<Rightarrow> string list \<Rightarrow> source_state \<Rightarrow> bool" where
  \<comment> \<open>refused by the last decision, but neither withdrawn nor retired nor counted as missing\<close>
  "lane_shadowed slug efforts st =
     ((\<exists>d \<in> set (ss_decisions st). ad_slug d = slug \<and> ad_reason d = Some Ex_effort_not_reported)
      \<and> slug \<notin> ss_routable st \<and> map_of (ss_adopted st) slug = Some efforts
      \<and> misses_of st slug = 0 \<and> slug \<notin> set (ss_retired st))"

lemma adopt_model_other:
  "adopt_model c m st = (st', r) \<Longrightarrow> slug \<noteq> dm_slug m \<Longrightarrow>
   map_of (ss_adopted st') slug = map_of (ss_adopted st) slug"
  by (auto simp: adopt_model_def Let_def AList.update_conv' split: if_splits sum.splits)

lemma decide_loop_other:
  assumes "decide_loop c auth ms st routable ds = (st', Inr (rt, ds'))" "slug \<notin> dm_slug ` set ms"
  shows "map_of (ss_adopted st') slug = map_of (ss_adopted st) slug \<and> (slug \<in> rt \<longleftrightarrow> slug \<in> routable)
    \<and> set ds \<subseteq> set ds'"
  using assms
proof (induction ms arbitrary: st routable ds)
  case (Cons m ms)
  show ?case
  proof (cases "adoption_exclusion_of c auth m")
    case None
    obtain st1 r1 where run: "adopt_model c m st = (st1, r1)" by fastforce
    then obtain d where "r1 = Inr d" using Cons.prems None by (cases r1) auto
    with Cons.prems None run
    have "decide_loop c auth ms st1 (insert (dm_slug m) routable) (ds @ [d]) = (st', Inr (rt, ds'))" by simp
    from Cons.IH [OF this] show ?thesis using Cons.prems(2) adopt_model_other [OF run, of slug] by auto
  next
    case (Some reason)
    then have "decide_loop c auth ms st routable (ds @ [decision_of m (Some reason) None]) = (st', Inr (rt, ds'))"
      using Cons.prems(1) by simp
    from Cons.IH [OF this] show ?thesis using Cons.prems(2) by auto
  qed
qed simp

lemma decide_loop_refused:
  assumes "decide_loop c auth ms st routable ds = (st', Inr (rt, ds'))" "m \<in> set ms"
    "distinct (map dm_slug ms)" "adoption_exclusion_of c auth m = Some reason" "dm_slug m \<notin> routable"
  shows "map_of (ss_adopted st') (dm_slug m) = map_of (ss_adopted st) (dm_slug m) \<and> dm_slug m \<notin> rt
    \<and> decision_of m (Some reason) None \<in> set ds'"
  using assms
proof (induction ms arbitrary: st routable ds)
  case (Cons n ms)
  show ?case
  proof (cases "n = m")
    case True
    then have "decide_loop c auth ms st routable (ds @ [decision_of m (Some reason) None]) = (st', Inr (rt, ds'))"
      using Cons.prems(1,4) by simp
    from decide_loop_other [OF this, of "dm_slug m"] show ?thesis using Cons.prems(3,5) True by auto
  next
    case False
    then have m: "m \<in> set ms" using Cons.prems(2) by simp
    have "dm_slug n \<notin> dm_slug ` set ms" using Cons.prems(3) by simp
    then have slug: "dm_slug m \<noteq> dm_slug n" using m by (metis imageI)
    show ?thesis
    proof (cases "adoption_exclusion_of c auth n")
      case None
      obtain st1 r1 where run: "adopt_model c n st = (st1, r1)" by fastforce
      then obtain d where "r1 = Inr d" using Cons.prems(1) None by (cases r1) auto
      with Cons.prems(1) None run
      have "decide_loop c auth ms st1 (insert (dm_slug n) routable) (ds @ [d]) = (st', Inr (rt, ds'))" by simp
      from Cons.IH [OF this m _ Cons.prems(4)] show ?thesis
        using Cons.prems(3,5) slug adopt_model_other [OF run slug] by simp
    next
      case (Some r)
      then have "decide_loop c auth ms st routable (ds @ [decision_of n (Some r) None]) = (st', Inr (rt, ds'))"
        using Cons.prems(1) by simp
      from Cons.IH [OF this m _ Cons.prems(4,5)] show ?thesis using Cons.prems(3) by simp
    qed
  qed
qed simp

lemma count_miss_lane:
  "t \<noteq> s \<Longrightarrow> map_of (ss_adopted (count_miss s st)) t = map_of (ss_adopted st) t"
  by (simp add: count_miss_def Let_def AList.delete_conv')

lemma fold_count_miss_lane:
  "t \<notin> set ss \<Longrightarrow> map_of (ss_adopted (fold count_miss ss st)) t = map_of (ss_adopted st) t"
  by (induction ss arbitrary: st) (auto simp: count_miss_lane)

lemma fold_clear_adopted [simp]: "ss_adopted (fold clear_misses ss st) = ss_adopted st"
  by (induction ss arbitrary: st) simp_all

lemma fold_clear_retired:
  "set (ss_retired (fold clear_misses ss st)) = set (ss_retired st) - set ss"
  by (induction ss arbitrary: st) (auto simp: clear_misses_def)

lemma retirement_pass_present:
  assumes "t \<in> present" "map_of (ss_adopted st) t = Some efforts"
  shows "map_of (ss_adopted (retirement_pass present st)) t = Some efforts"
    and "misses_of (retirement_pass present st) t = 0" "t \<notin> set (ss_retired (retirement_pass present st))"
proof -
  let ?missed = "sort (remdups (filter (\<lambda>s. s \<notin> present) (adopted_slugs st)))"
  have "map_of (ss_adopted (fold count_miss ?missed st)) t = Some efforts"
    using fold_count_miss_lane [of t ?missed st] assms by simp
  moreover from this have "t \<in> set (adopted_slugs (fold count_miss ?missed st))"
    by (simp add: adopted_lookup)
  ultimately show "map_of (ss_adopted (retirement_pass present st)) t = Some efforts"
    "t \<notin> set (ss_retired (retirement_pass present st))"
    using assms(1) by (simp_all add: retirement_pass_def Let_def fold_clear_retired)
  show "misses_of (retirement_pass present st) t = 0"
    using retirement_pass_seen(2) [of t st present] assms by (simp add: adopted_lookup)
qed

lemma decide_Inr:
  assumes "decide si st = (st', Inr ds)"
  obtains st1 rt ds1 where "decide_loop (ss_config st) (si_auth_state si) (si_models si) st {} [] = (st1, Inr (rt, ds1))"
    "st' = (if si_auth_state si = Au_authenticated
       then (retirement_pass (set (map dm_slug (si_models si))) st1)\<lparr>ss_routable := rt\<rparr> else st1)\<lparr>ss_decisions := ds1\<rparr>"
proof -
  obtain st1 r where loop: "decide_loop (ss_config st) (si_auth_state si) (si_models si) st {} [] = (st1, r)"
    by fastforce
  then obtain x where "r = Inr x" using assms by (cases r) (auto simp: decide_def)
  then show thesis using that [of st1 "fst x" "snd x"] loop assms by (cases x) (auto simp: decide_def Let_def)
qed

lemma adopt_model_inventory: "adopt_model c m st = (st', r) \<Longrightarrow> ss_inventory st' = ss_inventory st"
  by (auto simp: adopt_model_def Let_def split: if_splits sum.splits)

lemma decide_loop_inventory:
  "decide_loop c auth ms st routable ds = (st', r) \<Longrightarrow> ss_inventory st' = ss_inventory st"
proof (induction ms arbitrary: st routable ds)
  case (Cons m ms)
  obtain st1 r1 where run: "adopt_model c m st = (st1, r1)" by fastforce
  from Cons adopt_model_inventory [OF run] show ?case
    by (cases "adoption_exclusion_of c auth m"; cases r1) (simp_all add: run)
qed simp

lemma decide_inventory: "decide si st = (st', Inr ds) \<Longrightarrow> ss_inventory st' = ss_inventory st"
  by (erule decide_Inr) (drule decide_loop_inventory, simp)

lemma decide_without_effort:
  assumes "decide si st = (st', Inr ds)" "valid_source_inventory si" "si_auth_state si = Au_authenticated"
    and "\<not> plan_managed (ss_config st)" "current_exclusion (ss_config st) slug = None"
    and "map_of (ss_adopted st) slug = Some efforts"
    and "m \<in> set (si_models si)" "dm_slug m = slug" "\<not> list_ex policy_effort (dm_reasoning_efforts m)"
  shows "lane_shadowed slug efforts st'"
proof -
  obtain st1 rt ds1 where loop: "decide_loop (ss_config st) Au_authenticated (si_models si) st {} [] = (st1, Inr (rt, ds1))"
    and st': "st' = (retirement_pass (set (map dm_slug (si_models si))) st1)\<lparr>ss_routable := rt, ss_decisions := ds1\<rparr>"
    using decide_Inr [OF assms(1)] unfolding assms(3) by auto
  have refused: "adoption_exclusion_of (ss_config st) Au_authenticated m = Some Ex_effort_not_reported"
    using assms(4,5,8,9) by (auto simp: adoption_exclusion_of_def current_exclusion_def split: if_splits)
  have "distinct (map dm_slug (si_models si))"
    using assms(2) by (simp add: valid_source_inventory_def source_inventory_checks_def)
  note kept = decide_loop_refused [OF loop assms(7) this refused]
  have "map_of (ss_adopted st1) slug = Some efforts" using kept assms(6,8) by simp
  note pass = retirement_pass_present [OF _ this, of "set (map dm_slug (si_models si))"]
  have "\<exists>d \<in> set ds1. ad_slug d = slug \<and> ad_reason d = Some Ex_effort_not_reported"
    using kept assms(8) by (intro bexI [of _ "decision_of m (Some Ex_effort_not_reported) None"])
      (simp_all add: decision_of_def)
  moreover have "slug \<in> set (map dm_slug (si_models si))" using assms(7,8) by auto
  ultimately show ?thesis
    using kept pass assms(8) by (simp add: lane_shadowed_def st')
qed

definition keeps_lane :: "source_config \<Rightarrow> string \<Rightarrow> string list \<Rightarrow> source_registry \<Rightarrow> bool" where
  "keeps_lane c slug efforts reg = (\<exists>st. map_of (sr_sources reg) (sc_source_id c) = Some st
     \<and> ss_config st = c \<and> map_of (ss_adopted st) slug = Some efforts)"

lemma keeps_lane_step:
  assumes reach: "sources_reach tr reg" and lane: "keeps_lane c slug efforts reg"
    and c: "\<not> plan_managed c" "current_exclusion c slug = None"
    and rep: "valid_inventory_report rep" "clean_report rep" "lists_without_policy_effort rep c slug"
  obtains st' where "map_of (sr_sources (fst (apply_inventory rep reg))) (sc_source_id c) = Some st'"
    "ss_config st' = c" "lane_shadowed slug efforts st'" "ss_inventory st' \<noteq> None"
proof -
  note in_trace = report_in_trace [OF conjunct1 [OF reach_ok [OF reach]] rep(1)]
  obtain si m where si: "si \<in> set (ir_sources rep)" "si_source_id si = sc_source_id c"
    "serves_source (ir_worker_id rep) si c" "si_auth_state si = Au_authenticated"
    and m: "m \<in> set (si_models si)" "dm_slug m = slug" "\<not> list_ex policy_effort (dm_reasoning_efforts m)"
    using rep(3) by (auto simp: lists_without_policy_effort_def list_ex_iff)
  obtain st where st: "map_of (sr_sources reg) (sc_source_id c) = Some st" "ss_config st = c"
    "map_of (ss_adopted st) slug = Some efforts"
    using lane by (auto simp: keeps_lane_def)
  let ?st = "st\<lparr>ss_inventory := Some si\<rparr>"
  have clean: "list_all clean_inventory (ir_sources rep)" using rep(2) by (simp add: clean_report_def)
  obtain st' ds where run: "decide si ?st = (st', Inr ds)"
    and at: "map_of (sr_sources (fst (apply_inventory rep reg))) (si_source_id si) = Some st'"
    using apply_loop_at [OF in_trace(1,2) clean in_trace(4) in_trace(3) si(1), of st "[]"] st si
    unfolding apply_inventory_def by auto
  have valid: "valid_source_inventory si" using in_trace(2) si(1) by (simp add: list_all_iff)
  have "lane_shadowed slug efforts st'"
    using decide_without_effort [OF run valid si(4) _ _ _ m] st c by simp
  moreover have "ss_config st' = c"
  proof -
    have "state_ok (tr @ [Ev_inventory rep]) ?st" using sources_ok_lookup [OF in_trace(1) st(1)] by simp
    moreover have "serves_source (ir_worker_id rep) si (ss_config ?st)" "si_source_id si = sc_source_id (ss_config ?st)"
      using si st(2) by simp_all
    ultimately show ?thesis using decide_ok [OF _ valid in_trace(4) [OF si(1)] _ _ run] st(2) by simp
  qed
  moreover have "ss_inventory st' \<noteq> None" using decide_inventory [OF run] by simp
  ultimately show thesis using that at si(2) by simp
qed

lemma keeps_lane_run:
  "sources_reach tr reg \<Longrightarrow> keeps_lane c slug efforts reg \<Longrightarrow> \<not> plan_managed c \<Longrightarrow>
   current_exclusion c slug = None \<Longrightarrow>
   list_all (\<lambda>rep. valid_inventory_report rep \<and> clean_report rep \<and> lists_without_policy_effort rep c slug) reps \<Longrightarrow>
   keeps_lane c slug efforts (run_reports reps reg)"
proof (induction reps arbitrary: tr reg)
  case (Cons rep reps)
  have reach: "sources_reach (tr @ [Ev_inventory rep]) (fst (apply_inventory rep reg))"
    using sources_reach.report [OF Cons.prems(1), of rep] Cons.prems(5) by (simp add: source_step_def)
  have "keeps_lane c slug efforts (fst (apply_inventory rep reg))"
    by (rule keeps_lane_step [OF Cons.prems(1-4), of rep])
      (use Cons.prems(5) in \<open>auto simp: keeps_lane_def lane_shadowed_def\<close>)
  from Cons.IH [OF reach this Cons.prems(3,4)] show ?case using Cons.prems(5) by (simp add: run_reports_def)
qed (simp add: run_reports_def)

lemma run_reports_reach:
  "sources_reach tr reg \<Longrightarrow> list_all valid_inventory_report reps \<Longrightarrow>
   sources_reach (tr @ map Ev_inventory reps) (run_reports reps reg)"
proof (induction reps arbitrary: tr reg)
  case (Cons rep reps)
  then show ?case
    using Cons.IH [OF sources_reach.report [OF Cons.prems(1), of rep]]
    by (simp add: run_reports_def source_step_def)
qed (simp add: run_reports_def)

lemma adopted_lane:
  "sources_reach tr reg \<Longrightarrow> map_of (sr_sources reg) sid = Some st \<Longrightarrow> map_of (ss_adopted st) slug = Some efforts
     \<Longrightarrow> \<not> plan_managed (ss_config st) \<Longrightarrow> list_ex policy_effort efforts"
  using reach_ok [of tr reg] sources_ok_lookup [of tr "sr_sources reg" sid st]
  by (auto simp: registry_ok_def state_ok_def adopted_ok_def lane_ok_def list_all_iff dest!: map_of_SomeD)

lemma list_all2_source: "list_all2 P xs ys \<Longrightarrow> x \<in> set xs \<Longrightarrow> \<exists>y \<in> set ys. P x y"
  by (induction rule: list_all2_induct) auto

lemma offer_registered:
  assumes "sources_reach tr reg" "derived_registrations reg = Inr regs"
    and "map_of (sr_sources reg) (sc_source_id (ss_config st)) = Some st" "offered st slug effort"
  shows "\<exists>r \<in> set regs. ri_model (rg_identity r) = slug \<and> ri_variant (rg_identity r) = effort
    \<and> derived_id (sc_source_id (ss_config st)) slug effort = Inr (ri_resource_id (rg_identity r))"
proof -
  have "sources_ok tr (sr_sources reg)" using reach_ok [OF assms(1)] by (simp add: registry_ok_def)
  then have mem: "(st, slug, effort) \<in> set (offers sort reg)"
    using offers_iff [of tr reg sort st slug effort] assms(3,4) by simp
  have "list_all2 (\<lambda>x y. (case x of (st, slug, effort) \<Rightarrow> derived_registration (sr_ttl reg) st slug effort)
      = Inr y) (offers sort reg) regs"
    using assms(2) by (simp add: derived_registrations_def traverse_Inr_iff)
  from list_all2_source [OF this mem]
  obtain r where r: "r \<in> set regs" "derived_registration (sr_ttl reg) st slug effort = Inr r" by auto
  then show ?thesis by (intro bexI [of _ r]) (auto simp: derived_registration_Inr registration_of_def)
qed

section \<open>A configured deployment\<close>

definition codex_config :: source_config where
  "codex_config = \<lparr>sc_source_id = ''cx'', sc_kind = Codex_subscription, sc_label = ''Codex'',
     sc_worker_id = ''w1'', sc_entitlement = En_subscription_included, sc_quota_pool_id = None,
     sc_auto_adopt = True, sc_allowed_tracks = [], sc_allowed_models = [''gpt-a''],
     sc_capacity_scope_ids = [], sc_context_evidence = []\<rparr>"

definition plan_config :: source_config where
  "plan_config = \<lparr>sc_source_id = ''zc'', sc_kind = Zcode_subscription, sc_label = ''ZCode'',
     sc_worker_id = ''w1'', sc_entitlement = En_subscription_included, sc_quota_pool_id = None,
     sc_auto_adopt = True, sc_allowed_tracks = [], sc_allowed_models = [''plan-managed''],
     sc_capacity_scope_ids = [''plan''], sc_context_evidence = []\<rparr>"

definition listing :: "(string \<times> string list) list \<Rightarrow> source_inventory" where
  "listing models = \<lparr>si_source_id = ''cx'', si_adapter_id = ''codex:cx'', si_kind = Codex_subscription,
     si_observed_at = ''2026-09-28T10:00:00.000Z'', si_auth_state = Au_authenticated,
     si_runtime_name = ''codex'', si_runtime_version = ''1.2.3'', si_runtime_version_exact = False,
     si_models = map (\<lambda>(s, es). \<lparr>dm_slug = s, dm_reasoning_efforts = es\<rparr>) models\<rparr>"

definition plan_listing :: source_inventory where
  "plan_listing = \<lparr>si_source_id = ''zc'', si_adapter_id = ''zcode:zc'', si_kind = Zcode_subscription,
     si_observed_at = ''2026-09-28T10:00:00.000Z'', si_auth_state = Au_unverified,
     si_runtime_name = ''zcode'', si_runtime_version = ''3.14.3'', si_runtime_version_exact = False,
     si_models = [\<lparr>dm_slug = ''plan-managed'', dm_reasoning_efforts = []\<rparr>]\<rparr>"

definition report_listing :: "source_inventory list \<Rightarrow> inventory_report" where
  "report_listing sources = \<lparr>ir_schema_version = 1, ir_worker_id = ''w1'', ir_sources = sources\<rparr>"

definition first_report :: inventory_report where
  "first_report = report_listing [listing [(''gpt-a'', [''low'', ''turbo'', ''high''])], plan_listing]"

definition empty_report :: inventory_report where
  "empty_report = report_listing [listing []]"

definition start_trace :: "source_event list" where
  "start_trace = [Ev_configure [codex_config, plan_config], Ev_inventory first_report]"

definition adopted_registry :: source_registry where
  "adopted_registry = fold source_step start_trace (new_source_registry 900)"

lemma sample_configs_valid: "list_all valid_source_config [codex_config, plan_config]"
  by code_simp

lemma sample_reports_valid:
  "valid_inventory_report first_report" "valid_inventory_report empty_report"
  by code_simp+

lemma adopted_registry_reach: "sources_reach start_trace adopted_registry"
  using sources_reach.report [OF sources_reach.configure [OF sources_reach.new [of 900] sample_configs_valid]
      sample_reports_valid(1)]
  by (simp add: start_trace_def adopted_registry_def)

definition adopted_codex :: source_state where
  "adopted_codex = the (map_of (sr_sources adopted_registry) ''cx'')"

lemma adopted_codex_state:
  "map_of (sr_sources adopted_registry) ''cx'' = Some adopted_codex \<and> ss_config adopted_codex = codex_config
   \<and> ''gpt-a'' \<in> set (adopted_slugs adopted_codex) \<and> misses_of adopted_codex ''gpt-a'' = 0"
  by code_simp

lemma adopted_ids:
  "map_sum id (map (\<lambda>r. ri_resource_id (rg_identity r))) (derived_registrations adopted_registry) =
     Inr [''cx:gpt-a:high'', ''cx:gpt-a:low'', ''zc:plan-managed'']"
  by code_simp

section \<open>Properties\<close>

text \<open>C9: every registration the source registry offers comes from a configured source that
  currently grants the model (adoption on, no legacy track restriction, the model on the allowlist)
  and whose own worker has reported the model through the source's adapter, past the authentication
  gate of its kind; a resource with a variant binds an effort that report listed and the policy
  vocabulary knows, a resource without one is the effort-less plan lane. Its identifier resolves to
  that worker and that adapter.\<close>

theorem derived_resources_granted_and_advertised:
  assumes "sources_reach tr reg" "derived_registrations reg = Inr regs" "r \<in> set regs"
  shows "\<exists>c efforts. let i = rg_identity r in
    map_option ss_config (map_of (sr_sources reg) (sc_source_id c)) = Some c
    \<and> sc_auto_adopt c \<and> sc_allowed_tracks c = [] \<and> ri_model i \<in> set (sc_allowed_models c)
    \<and> advertised tr c (ri_model i) efforts
    \<and> (case ri_variant i of None \<Rightarrow> plan_managed c \<and> efforts = []
       | Some e \<Rightarrow> e \<in> set efforts \<and> policy_effort e)
    \<and> derived_id (sc_source_id c) (ri_model i) (ri_variant i) = Inr (ri_resource_id i)
    \<and> ri_provider i = config_provider c
    \<and> owner_of reg (ri_resource_id i) = Some (sc_worker_id c)
    \<and> adapter_of reg (ri_resource_id i)
        = Some (adapter_prefix (sc_kind c) @ '':'' @ sc_source_id c)"
proof -
  have sources: "sources_ok tr (sr_sources reg)"
    using reach_ok [OF assms(1)] by (simp add: registry_ok_def)
  obtain st slug effort where mem: "(st, slug, effort) \<in> set (offers sort reg)"
    and r: "derived_registration (sr_ttl reg) st slug effort = Inr r"
    using registration_origin [OF assms(2,3)] by blast
  have st: "map_of (sr_sources reg) (sc_source_id (ss_config st)) = Some st" and offer: "offered st slug effort"
    using mem offers_iff [OF sources, of sort] by simp_all
  have ok: "state_ok tr st" using sources_ok_lookup [OF sources st] by blast
  obtain efforts where lane: "lane_ok (ss_config st) slug efforts" "advertised tr (ss_config st) slug efforts"
    "case effort of None \<Rightarrow> efforts = [] \<and> plan_managed (ss_config st)
       | Some e \<Rightarrow> e \<in> set efforts \<and> policy_effort e"
    using offered_lane [OF ok offer] by blast
  obtain rid caps where id: "derived_id (sc_source_id (ss_config st)) slug effort = Inr rid"
    and reg: "r = registration_of (sr_ttl reg) st slug effort rid caps"
    using r by (auto simp: derived_registration_Inr)
  have "sc_source_id (ss_config st) \<noteq> []" "slug \<noteq> []"
    using ok lane(1) by (auto simp: state_ok_def valid_source_config_def source_config_checks_def lane_ok_def
        dest: safe_id_nonempty)
  then have split: "split_resource_id rid = Some (sc_source_id (ss_config st), slug @ effort_suffix effort)"
    by (rule split_derived_id [OF id])
  have grant: "sc_auto_adopt (ss_config st)" "sc_allowed_tracks (ss_config st) = []"
    "slug \<in> set (sc_allowed_models (ss_config st))"
    using offer by (auto simp: offered_def current_exclusion_def split: if_splits)
  show ?thesis
    using st lane id grant split
    by (intro exI [of _ "ss_config st"] exI [of _ efforts])
      (simp add: reg registration_of_def owner_of_def adapter_of_def split: option.splits)
qed

theorem derived_resources_granted_and_advertised_witness:
  "\<exists>c efforts. map_option ss_config (map_of (sr_sources adopted_registry) (sc_source_id c)) = Some c
    \<and> advertised start_trace c ''gpt-a'' efforts \<and> ''high'' \<in> set efforts
    \<and> ''gpt-a'' \<in> set (sc_allowed_models c)"
proof -
  obtain regs where regs: "derived_registrations adopted_registry = Inr regs"
    "map (\<lambda>r. ri_resource_id (rg_identity r)) regs = [''cx:gpt-a:high'', ''cx:gpt-a:low'', ''zc:plan-managed'']"
    using adopted_ids by (cases "derived_registrations adopted_registry") auto
  have "\<exists>r. derived_registrations adopted_registry = Inr regs \<and> r \<in> set regs
      \<and> ri_model (rg_identity r) = ''gpt-a'' \<and> ri_variant (rg_identity r) = Some ''high''"
  proof -
    have "map_sum id (map (\<lambda>r. (ri_model (rg_identity r), ri_variant (rg_identity r))))
        (derived_registrations adopted_registry) =
      Inr [(''gpt-a'', Some ''high''), (''gpt-a'', Some ''low''), (''plan-managed'', None)]"
      by code_simp
    then show ?thesis using regs by auto
  qed
  then obtain r where r: "r \<in> set regs" "ri_model (rg_identity r) = ''gpt-a''"
    "ri_variant (rg_identity r) = Some ''high''" by blast
  from derived_resources_granted_and_advertised [OF adopted_registry_reach regs(1) r(1)] r(2,3)
  show ?thesis by (auto simp: Let_def)
qed

text \<open>C12: whatever was configured and reported, deriving the registrations never raises: each of
  them is a valid registration and no two have the same resource identifier, so that all of them can
  be registered.\<close>

theorem derived_registrations_total:
  assumes "sources_reach tr reg"
  shows "\<exists>regs. derived_registrations reg = Inr regs \<and> list_all valid_registration regs
    \<and> distinct (map (\<lambda>r. ri_resource_id (rg_identity r)) regs)"
proof -
  note ok = reach_ok [OF assms]
  obtain regs where regs: "derived_registrations reg = Inr regs" "list_all2 derived_from (offers sort reg) regs"
    using derived_registrations_exist ok by blast
  have "list_all valid_registration regs"
    using list_all2_member [OF regs(2)] by (auto simp: list_all_iff derived_from_def)
  then show ?thesis using regs derived_ids_distinct ok by blast
qed

theorem derived_registrations_total_witness:
  "\<exists>regs. derived_registrations adopted_registry = Inr regs
    \<and> distinct (map (\<lambda>r. ri_resource_id (rg_identity r)) regs) \<and> length regs = 3"
proof -
  have "map_sum id length (derived_registrations adopted_registry) = Inr 3" by code_simp
  with derived_registrations_total [OF adopted_registry_reach] show ?thesis by auto
qed

text \<open>C10: a model that is adopted and has no misses stays adopted through fewer than three
  consecutive authenticated observations of its source that do not list it, and is retired by the
  third: reports whose identifiers are free of a trailing newline are applied completely, so that the
  outcome after any number of them is determined.\<close>

theorem retired_after_exactly_three_misses:
  assumes "sources_reach tr reg" "map_of (sr_sources reg) (sc_source_id c) = Some st" "ss_config st = c"
    and "slug \<in> set (adopted_slugs st)" "misses_of st slug = 0"
    and "\<forall>rep \<in> set reps. valid_inventory_report rep \<and> clean_report rep \<and> confirms_absence rep c slug"
  shows "\<exists>st'. map_of (sr_sources (run_reports reps reg)) (sc_source_id c) = Some st'
    \<and> (slug \<in> set (adopted_slugs st') \<longleftrightarrow> length reps < 3)"
proof -
  have "absence_progress c slug 0 reg"
    using assms(2-5) by (simp add: absence_progress_def RETIRE_AFTER_MISSES_def)
  from absence_progress_run [OF assms(1) this, of reps]
  have "absence_progress c slug (int (length reps)) (run_reports reps reg)"
    using assms(6) by (simp add: list_all_iff)
  then show ?thesis
    by (auto simp: absence_progress_def RETIRE_AFTER_MISSES_def split: option.splits if_splits)
qed

theorem retired_after_exactly_three_misses_witness:
  "(\<exists>st. map_of (sr_sources (run_reports [empty_report, empty_report] adopted_registry)) ''cx'' = Some st
      \<and> ''gpt-a'' \<in> set (adopted_slugs st))
   \<and> (\<exists>st. map_of (sr_sources (run_reports [empty_report, empty_report, empty_report] adopted_registry)) ''cx''
        = Some st \<and> ''gpt-a'' \<notin> set (adopted_slugs st))"
proof -
  have cx: "sc_source_id codex_config = ''cx''" by (simp add: codex_config_def)
  have absent: "valid_inventory_report empty_report \<and> clean_report empty_report
      \<and> confirms_absence empty_report codex_config ''gpt-a''"
    by code_simp
  note retire = retired_after_exactly_three_misses [OF adopted_registry_reach, of codex_config adopted_codex
      "''gpt-a''", unfolded cx]
  have "\<forall>rep \<in> set [empty_report, empty_report]. valid_inventory_report rep \<and> clean_report rep
      \<and> confirms_absence rep codex_config ''gpt-a''" using absent by simp
  moreover have "\<forall>rep \<in> set [empty_report, empty_report, empty_report]. valid_inventory_report rep
      \<and> clean_report rep \<and> confirms_absence rep codex_config ''gpt-a''" using absent by simp
  ultimately show ?thesis
    using retire [of "[empty_report, empty_report]"] retire [of "[empty_report, empty_report, empty_report]"]
      adopted_codex_state by auto
qed

text \<open>C13: in every reachable registry the bookkeeping of a source is bounded: pending misses are
  one or two and belong to adopted models, at most 64 retired models are remembered, without
  repetition, and every adopted model of a plan source is its single effort-less lane while every
  other adopted model was reported with at least one policy effort.\<close>

theorem source_bookkeeping_bounded:
  assumes "sources_reach tr reg" "map_of (sr_sources reg) sid = Some st"
  shows "sid = sc_source_id (ss_config st) \<and> valid_source_config (ss_config st)
    \<and> (\<forall>(slug, n) \<in> set (ss_miss_counts st). slug \<in> set (adopted_slugs st) \<and> 1 \<le> n \<and> n \<le> 2)
    \<and> distinct (ss_retired st) \<and> length (ss_retired st) \<le> 64
    \<and> (\<forall>(slug, efforts) \<in> set (ss_adopted st). advertised tr (ss_config st) slug efforts
         \<and> (if plan_managed (ss_config st) then slug = ''plan-managed'' \<and> efforts = []
            else list_ex policy_effort efforts))"
proof -
  have "sources_ok tr (sr_sources reg)" using reach_ok [OF assms(1)] by (simp add: registry_ok_def)
  from sources_ok_lookup [OF this assms(2)] show ?thesis
    by (force simp: state_ok_def adopted_ok_def misses_ok_def retired_ok_def lane_ok_def list_all_iff
        RETIRE_AFTER_MISSES_def MAX_RETAINED_RETIRED_def split: if_splits)
qed

theorem source_bookkeeping_bounded_witness:
  "length (ss_retired adopted_codex) \<le> 64 \<and> valid_source_config (ss_config adopted_codex)"
  using source_bookkeeping_bounded [OF adopted_registry_reach conjunct1 [OF adopted_codex_state]] by simp

text \<open>C15: the document a worker sends is bounded whatever it contains: a report that parses has at
  most 8 sources with distinct identities, at most 64 models each, at most 8 distinct efforts per
  model and slugs of at most 35 characters, and writing it and reading it back gives it again.\<close>

theorem parsed_report_bounded:
  assumes "inventory_report_from_dict d = Inr report"
  shows "length (ir_sources report) \<le> 8 \<and> distinct (map si_source_id (ir_sources report))
    \<and> (\<forall>si \<in> set (ir_sources report). length (si_models si) \<le> 64 \<and> distinct (map dm_slug (si_models si))
        \<and> (\<forall>m \<in> set (si_models si). length (dm_slug m) \<le> 35 \<and> length (dm_reasoning_efforts m) \<le> 8
             \<and> distinct (dm_reasoning_efforts m)))
    \<and> inventory_report_from_dict (inventory_report_to_dict report) = Inr report"
proof -
  have "valid_inventory_report report" using assms by (rule inventory_report_contract.parsed_ok)
  then show ?thesis
    by (auto simp: inventory_report_contract.from_to valid_inventory_report_def inventory_report_parts_def
        inventory_report_checks_def valid_source_inventory_def source_inventory_parts_def
        source_inventory_checks_def valid_discovered_model_def inventory_bounds list_all_iff)
qed

theorem parsed_report_bounded_witness:
  "\<exists>report. inventory_report_from_dict (inventory_report_to_dict first_report) = Inr report
    \<and> length (ir_sources report) = 2 \<and> length (ir_sources report) \<le> 8"
proof -
  have read: "inventory_report_from_dict (inventory_report_to_dict first_report) = Inr first_report"
    by (rule inventory_report_contract.from_to) (rule sample_reports_valid)
  have "length (ir_sources first_report) = 2" by (simp add: first_report_def report_listing_def)
  then show ?thesis using parsed_report_bounded [OF read] read by simp
qed

text \<open>C14: take any reachable registry, a source of it that is not plan managed, and a model that
  the source has adopted and still grants. After any number of authenticated observations of the
  source (at least one) that go on listing the model, but with no policy effort at all, the model is
  called not adoptable by the last decision and is not among the routable ones; yet it keeps exactly
  the efforts it was adopted with, it has no miss and is not retired, and every policy effort of the
  old listing still has its derived registration, although none of these reports advertises one.\<close>

theorem unadvertised_effort_stays_offered:
  assumes "sources_reach tr reg" "map_of (sr_sources reg) (sc_source_id c) = Some st" "ss_config st = c"
    and "\<not> plan_managed c" "current_exclusion c slug = None" "map_of (ss_adopted st) slug = Some efforts"
    and "reps \<noteq> []"
    and "\<forall>rep \<in> set reps. valid_inventory_report rep \<and> clean_report rep \<and> lists_without_policy_effort rep c slug"
  shows "\<exists>st' regs. map_of (sr_sources (run_reports reps reg)) (sc_source_id c) = Some st'
    \<and> (\<exists>d \<in> set (ss_decisions st'). ad_slug d = slug \<and> ad_reason d = Some Ex_effort_not_reported)
    \<and> slug \<notin> ss_routable st'
    \<and> map_of (ss_adopted st') slug = Some efforts \<and> misses_of st' slug = 0 \<and> slug \<notin> set (ss_retired st')
    \<and> derived_registrations (run_reports reps reg) = Inr regs \<and> list_ex policy_effort efforts
    \<and> (\<forall>e \<in> set efforts. policy_effort e \<longrightarrow> (\<exists>r \<in> set regs. ri_model (rg_identity r) = slug
         \<and> ri_variant (rg_identity r) = Some e
         \<and> derived_id (sc_source_id c) slug (Some e) = Inr (ri_resource_id (rg_identity r))))"
proof -
  obtain early last where reps: "reps = early @ [last]" using assms(7) by (metis rev_exhaust)
  let ?reg = "run_reports early reg"
  have reach: "sources_reach (tr @ map Ev_inventory early) ?reg"
    using assms(8) by (intro run_reports_reach [OF assms(1)]) (simp add: reps list_all_iff)
  have "keeps_lane c slug efforts ?reg"
    using assms by (intro keeps_lane_run [OF assms(1)]) (auto simp: keeps_lane_def reps list_all_iff)
  moreover have "valid_inventory_report last" "clean_report last" "lists_without_policy_effort last c slug"
    using assms(8) by (simp_all add: reps)
  ultimately obtain st' where st': "map_of (sr_sources (run_reports reps reg)) (sc_source_id c) = Some st'"
    "ss_config st' = c" "lane_shadowed slug efforts st'" "ss_inventory st' \<noteq> None"
    by (rule keeps_lane_step [OF reach _ assms(4,5)]) (simp_all add: reps run_reports_def)
  have reach': "sources_reach (tr @ map Ev_inventory reps) (run_reports reps reg)"
    using assms(8) by (intro run_reports_reach [OF assms(1)]) (simp add: list_all_iff)
  obtain regs where regs: "derived_registrations (run_reports reps reg) = Inr regs"
    using derived_registrations_exist reach_ok [OF reach'] by blast
  have offer: "offered st' slug (Some e)" if "e \<in> set efforts" "policy_effort e" for e
    using st' that assms(5) by (simp add: offered_def lane_shadowed_def)
  have "\<exists>r \<in> set regs. ri_model (rg_identity r) = slug \<and> ri_variant (rg_identity r) = Some e
      \<and> derived_id (sc_source_id c) slug (Some e) = Inr (ri_resource_id (rg_identity r))"
    if "e \<in> set efforts" "policy_effort e" for e
    using offer_registered [OF reach' regs, of st' slug "Some e"] offer [OF that] st'(1,2) by simp
  moreover have "list_ex policy_effort efforts"
    using adopted_lane [OF assms(1,2,6)] assms(3,4) by simp
  ultimately show ?thesis
    using st' regs unfolding lane_shadowed_def by blast
qed

theorem unadvertised_effort_stays_offered_witness:
  "let report = report_listing [listing [(''gpt-a'', [''turbo''])]] in
   \<exists>regs. derived_registrations (run_reports [report, report, report, report] adopted_registry) = Inr regs
     \<and> (\<exists>r \<in> set regs. ri_model (rg_identity r) = ''gpt-a'' \<and> ri_variant (rg_identity r) = Some ''high'')"
proof -
  let ?r = "report_listing [listing [(''gpt-a'', [''turbo''])]]"
  have cx: "sc_source_id codex_config = ''cx''" by (simp add: codex_config_def)
  have lane: "map_of (sr_sources adopted_registry) ''cx'' = Some adopted_codex" "ss_config adopted_codex = codex_config"
    using adopted_codex_state by simp_all
  have old: "map_of (ss_adopted adopted_codex) ''gpt-a'' = Some [''low'', ''turbo'', ''high'']"
    "\<not> plan_managed codex_config" "current_exclusion codex_config ''gpt-a'' = None" "policy_effort ''high''"
    by code_simp+
  have "valid_inventory_report ?r \<and> clean_report ?r \<and> lists_without_policy_effort ?r codex_config ''gpt-a''"
    by code_simp
  then have "\<forall>rep \<in> set [?r, ?r, ?r, ?r]. valid_inventory_report rep \<and> clean_report rep
      \<and> lists_without_policy_effort rep codex_config ''gpt-a''" by simp
  from unadvertised_effort_stays_offered [OF adopted_registry_reach _ lane(2) old(2,3,1) _ this, unfolded cx, OF lane(1)]
  show ?thesis using old(4) by (auto simp: Let_def)
qed

end
