(* ===== verification/Source_Catalog_Spec.thy ===== *)
theory Source_Catalog_Spec
  imports Source_Resources
begin

text \<open>
  The catalog extended with the adopted identities: extending a valid catalog never raises, keeps
  its entries in front and unchanged, and has an entry for every derived registration.
\<close>

section \<open>Names\<close>

lemma id_rest_range:
  assumes "id_rest c"
  shows "45 \<le> (of_char c :: nat) \<and> (of_char c :: nat) \<le> 122"
  using assms by (auto simp: id_rest_def id_first_def in_range_def less_eq_char_def)

lemma id_rest_plain: "id_rest c \<Longrightarrow> \<not> is_cc c \<and> \<not> is_space c"
  using id_rest_range [of c] by (auto simp: is_cc_def is_space_def Let_def)

lemma id_text:
  assumes "list_all id_rest s" "s \<noteq> []" "length s \<le> n"
  shows "text_ok n s"
proof -
  have "id_rest (hd s)" "id_rest (last s)" using assms by (auto simp: list_all_iff)
  then show ?thesis
    using assms id_rest_plain by (auto simp: text_ok_def list_ex_iff list_all_iff)
qed

lemma policy_effort_suffix:
  assumes "policy_effort e"
  shows "last (x @ effort_suffix (Some e)) \<noteq> CHR 0x0A"
proof -
  have "e \<noteq> []" "id_rest (last e)"
    using policy_effort_ok(1,4) [OF assms] by (simp_all add: list_all_iff)
  then show ?thesis using id_rest_range [of "last e"] by (auto simp: effort_suffix_def)
qed

lemma offered_slug_text:
  assumes st: "state_ok tr st" and offer: "offered st slug effort"
  shows "text_ok 128 slug" "safe_id_match slug"
proof -
  obtain efforts rid where lane: "lane_ok (ss_config st) slug efforts"
    and kind: "case effort of None \<Rightarrow> efforts = [] \<and> plan_managed (ss_config st)
       | Some e \<Rightarrow> e \<in> set efforts \<and> policy_effort e"
    and id: "derived_id (sc_source_id (ss_config st)) slug effort = Inr rid"
    using offered_lane [OF st offer] by blast
  show safe: "safe_id_match slug" using lane by (simp add: lane_ok_def)
  show "text_ok 128 slug"
  proof (cases effort)
    case None
    then have slug: "slug = ''plan-managed''" using lane kind by (simp add: lane_ok_def)
    show ?thesis unfolding slug by code_simp
  next
    case (Some e)
    let ?rid = "sc_source_id (ss_config st) @ '':'' @ slug @ effort_suffix (Some e)"
    have rid: "safe_id_match ?rid" and len: "length slug \<le> 128"
      using id Some unfolding derived_id_Inr source_resource_id_Inr MAX_SLUG_LENGTH_def by auto
    have "last ?rid \<noteq> CHR 0x0A"
      using policy_effort_suffix [of e "sc_source_id (ss_config st) @ '':'' @ slug"] kind Some by simp
    then have "id_grammar ?rid" using rid by (simp add: safe_id_match_def dollar_def)
    then have "list_all id_rest slug" using id_grammar_rest by fastforce
    then show ?thesis using len safe_id_nonempty [OF safe] by (intro id_text) auto
  qed
qed

section \<open>One offer\<close>

definition scopes_of :: "source_config \<Rightarrow> capacity_scope_ref list" where
  "scopes_of c = map (CapacityScopeRef (config_provider c)) (sc_capacity_scope_ids c)"

lemma config_scopes_ok:
  assumes "valid_source_config c"
  shows "config_scopes c = Inr (scopes_of c)" "list_all valid_scope (scopes_of c)"
    "sorted (map scope_key (scopes_of c))" "distinct (scopes_of c)"
    "list_all (\<lambda>s. cs_provider s = config_provider c) (scopes_of c)"
proof -
  have ids: "list_all safe_id_match (sc_capacity_scope_ids c)" "sorted (sc_capacity_scope_ids c)"
    "distinct (sc_capacity_scope_ids c)"
    using assms by (simp_all add: valid_source_config_def source_config_checks_def)
  then have "new_scope (config_provider c) s = Inr (CapacityScopeRef (config_provider c) s)"
    if "s \<in> set (sc_capacity_scope_ids c)" for s
    using that by (simp add: new_scope_def mk_scope_Inr valid_scope_def list_all_iff)
  then show "config_scopes c = Inr (scopes_of c)"
    unfolding config_scopes_def scopes_of_def by (rule traverse_total)
  show "list_all valid_scope (scopes_of c)"
    using ids by (simp add: scopes_of_def valid_scope_def list_all_iff)
  show "distinct (scopes_of c)"
    using ids by (simp add: scopes_of_def distinct_map inj_on_def)
  show "sorted (map scope_key (scopes_of c))"
    using ids(2) by (simp add: scopes_of_def scope_key_def comp_def sorted_map less_eq_prod_def
        sorted_wrt_map)
qed (simp add: scopes_of_def list_all_iff)

lemma no_assessment_valid [simp]: "valid_assessments no_assessments"
  by (simp add: valid_assessments_def no_assessments_def valid_assessment_def unknown_assessment_def
      no_assessment_def)

lemma no_hard_valid [simp]: "valid_hard_properties (no_hard_properties r)"
  by (simp add: valid_hard_properties_def no_hard_properties_def)

lemma mk_no_hard [simp]: "mk_hard_properties (no_hard_properties r) = Inr (no_hard_properties r)"
  by (simp add: mk_hard_properties_def no_hard_properties_def)

lemma effort_of_policy: "policy_effort e \<Longrightarrow> \<exists>x. effort_of e = Some x"
  using effort_vocab.find_str [of e REASONING_EFFORTS]
  by (auto simp: policy_effort_def effort_of_def)

lemma discovered_entry_ok:
  assumes st: "state_ok tr st" and offer: "offered st slug effort"
  shows "\<exists>e. discovered_entry slug effort (ss_config st) = Inr e \<and> valid_entry e
    \<and> entry_key e = offer_key (ss_config st) slug effort"
proof -
  let ?c = "ss_config st"
  have c: "valid_source_config ?c" using st by (simp add: state_ok_def)
  note scopes = config_scopes_ok [OF c]
  note slug = offered_slug_text [OF st offer]
  have variant: "safe_id_match (lane_variant effort)"
  proof (cases effort)
    case None
    show ?thesis unfolding None lane_variant_def by code_simp
  qed (use offer policy_effort_ok(5) in \<open>auto simp: lane_variant_def offered_def\<close>)
  define bindings where
    "bindings = (if sc_capacity_scope_ids ?c = [] then None else Some (scopes_of ?c))"
  define e where "e = bare_entry (ModelIdentity (config_provider ?c) slug (lane_variant effort)) slug
    (Some (effort \<noteq> None)) (Option.bind effort effort_of) bindings"
  have eff: "(Option.bind effort effort_of = None) = (effort = None)"
    using offer effort_of_policy by (cases effort) (auto simp: offered_def)
  have "bindings \<noteq> None \<Longrightarrow> scopes_of ?c \<noteq> []" by (auto simp: bindings_def scopes_of_def)
  then have checks: "entry_checks e"
    using slug scopes eff
    by (auto simp: entry_checks_def e_def bare_entry_def no_hard_properties_def Let_def ids_within_def
        bindings_ok_def bindings_def)
  have parts: "entry_parts e"
    using slug scopes variant
    by (simp add: Model_Catalog.entry_parts_def e_def bare_entry_def valid_identity_def bindings_def)
  have bound: "(if sc_capacity_scope_ids ?c = [] then Inr None
      else bind_r (config_scopes ?c) (\<lambda>scopes. Inr (Some scopes))) = Inr bindings"
    by (simp add: bindings_def scopes)
  have "mk_identity (ModelIdentity (config_provider ?c) slug (lane_variant effort)) =
      Inr (ModelIdentity (config_provider ?c) slug (lane_variant effort))"
    using slug variant by (simp add: mk_identity_Inr valid_identity_def)
  moreover have "mk_entry e = Inr e" using checks by (simp add: mk_entry_Inr)
  ultimately have "discovered_entry slug effort ?c = Inr e"
    unfolding discovered_entry_def bound by (simp add: e_def)
  then show ?thesis
    using checks parts by (simp add: valid_entry_def e_def bare_entry_def entry_key_def identity_key_def offer_key_def)
qed

section \<open>The pass over all offers\<close>

definition bindings_sound :: "catalog_pass \<Rightarrow> catalog_key \<Rightarrow> bool" where
  "bindings_sound p k =
     (finite (cp_resources_by_identity p k) \<and> (\<forall>rid \<in> cp_resources_by_identity p k. safe_id_match rid)
      \<and> distinct (map fst (cp_resource_scopes p k))
      \<and> fst ` set (cp_resource_scopes p k) \<subseteq> cp_resources_by_identity p k
      \<and> list_all (\<lambda>rb. resource_binding_ok (fst k) rb \<and> list_all valid_scope (snd rb)) (cp_resource_scopes p k))"

definition pass_ok :: "model_catalog \<Rightarrow> catalog_pass \<Rightarrow> bool" where
  "pass_ok base p =
     ((\<forall>k. bindings_sound p k) \<and> list_all valid_entry (cp_extra p) \<and> distinct (map entry_key (cp_extra p))
      \<and> set (map entry_key (mc_entries base)) \<inter> set (map entry_key (cp_extra p)) = {}
      \<and> cp_existing p = set (map entry_key (mc_entries base)) \<union> set (map entry_key (cp_extra p)))"

lemma new_pass_ok: "pass_ok base (new_catalog_pass base)"
  by (simp add: pass_ok_def bindings_sound_def new_catalog_pass_def)

definition noted :: "source_config \<Rightarrow> catalog_key \<Rightarrow> string \<Rightarrow> catalog_pass \<Rightarrow> catalog_pass" where
  \<comment> \<open>what a noted offer adds to the three dictionaries\<close>
  "noted c key rid p =
     p\<lparr>cp_scopes_by_identity :=
         (cp_scopes_by_identity p)(key := insert (sc_capacity_scope_ids c) (cp_scopes_by_identity p key)),
       cp_resources_by_identity :=
         (cp_resources_by_identity p)(key := insert rid (cp_resources_by_identity p key)),
       cp_resource_scopes :=
         (if sc_capacity_scope_ids c = [] then cp_resource_scopes p
          else (cp_resource_scopes p)(key := AList.update rid (scopes_of c) (cp_resource_scopes p key)))\<rparr>"

lemma noted_simps [simp]:
  "cp_extra (noted c key rid p) = cp_extra p" "cp_existing (noted c key rid p) = cp_existing p"
  by (simp_all add: noted_def)

lemma noted_sound:
  assumes p: "bindings_sound p k" and c: "valid_source_config c" and rid: "safe_id_match rid"
    and key: "fst key = config_provider c"
  shows "bindings_sound (noted c key rid p) k"
proof (cases "k = key")
  case False
  then show ?thesis using p by (simp add: bindings_sound_def noted_def)
next
  case True
  note scopes = config_scopes_ok [OF c]
  have binding: "resource_binding_ok (fst key) (rid, scopes_of c)" if "sc_capacity_scope_ids c \<noteq> []"
    using rid scopes that key by (simp add: resource_binding_ok_def scopes_of_def)
  show ?thesis
    using p True rid binding scopes(2)
    by (auto simp: bindings_sound_def noted_def fst_update intro!: list_all_updateI distinct_update)
qed

lemma note_offer_ok:
  assumes st: "state_ok tr st" and offer: "offered st slug effort" and p: "pass_ok base p"
  shows "\<exists>p'. note_offer st slug effort p = Inr p' \<and> pass_ok base p'
    \<and> insert (offer_key (ss_config st) slug effort) (cp_existing p) = cp_existing p'"
proof -
  let ?c = "ss_config st" and ?key = "offer_key (ss_config st) slug effort"
  have c: "valid_source_config ?c" using st by (simp add: state_ok_def)
  obtain rid where rid: "derived_id (sc_source_id ?c) slug effort = Inr rid"
    using offered_lane [OF st offer] by blast
  then have safe: "safe_id_match rid" unfolding derived_id_Inr source_resource_id_Inr by blast
  have key: "fst ?key = config_provider ?c" by (simp add: offer_key_def)
  let ?p = "noted ?c ?key rid p"
  have sound: "\<forall>k. bindings_sound ?p k"
    using p noted_sound [OF _ c safe key] by (simp add: pass_ok_def)
  have step: "note_offer st slug effort p =
      (if ?key \<in> cp_existing p then Inr ?p
       else bind_r (discovered_entry slug effort ?c) (\<lambda>entry.
         Inr (?p\<lparr>cp_existing := insert ?key (cp_existing p), cp_extra := cp_extra p @ [entry]\<rparr>)))"
    by (simp add: note_offer_def Let_def rid noted_def config_scopes_ok [OF c])
  show ?thesis
  proof (cases "?key \<in> cp_existing p")
    case True
    then show ?thesis using step sound p by (auto simp: pass_ok_def)
  next
    case False
    obtain e where e: "discovered_entry slug effort ?c = Inr e" "valid_entry e" "entry_key e = ?key"
      using discovered_entry_ok [OF st offer] by blast
    let ?q = "?p\<lparr>cp_existing := insert ?key (cp_existing p), cp_extra := cp_extra p @ [e]\<rparr>"
    have "\<forall>k. bindings_sound ?q k" using sound by (simp add: bindings_sound_def)
    then have "pass_ok base ?q" using p False e by (auto simp: pass_ok_def)
    then show ?thesis using step False e by (intro exI [of _ ?q]) simp
  qed
qed

lemma note_offers_ok:
  assumes "pass_ok base p" "\<And>st slug effort. (st, slug, effort) \<in> set os \<Longrightarrow> state_ok tr st \<and> offered st slug effort"
  shows "\<exists>p'. note_offers os p = Inr p' \<and> pass_ok base p' \<and> cp_existing p \<subseteq> cp_existing p'
    \<and> (\<forall>(st, slug, effort) \<in> set os. offer_key (ss_config st) slug effort \<in> cp_existing p')"
  using assms
proof (induction os arbitrary: p)
  case (Cons o1 os)
  obtain st slug effort where o1: "o1 = (st, slug, effort)" by (cases o1)
  have "state_ok tr st" "offered st slug effort" using Cons.prems(2) [of st slug effort] o1 by simp_all
  from note_offer_ok [OF this Cons.prems(1)] obtain p1 where p1: "note_offer st slug effort p = Inr p1"
    "pass_ok base p1" "insert (offer_key (ss_config st) slug effort) (cp_existing p) = cp_existing p1"
    by blast
  from Cons.IH [OF p1(2)] Cons.prems(2) obtain p2 where p2: "note_offers os p1 = Inr p2" "pass_ok base p2"
    "cp_existing p1 \<subseteq> cp_existing p2"
    "\<forall>(st, slug, effort) \<in> set os. offer_key (ss_config st) slug effort \<in> cp_existing p2"
    by auto
  then show ?case using p1 o1 by auto
qed auto

section \<open>The result\<close>

lemma bind_entry_ok:
  assumes p: "pass_ok base p" and e: "valid_entry e"
  shows "\<exists>e'. bind_entry p e = Inr e' \<and> valid_entry e' \<and> entry_key e' = entry_key e"
proof -
  let ?k = "entry_key e" and ?R = "cp_resources_by_identity p (entry_key e)"
    and ?B = "cp_resource_scopes p (entry_key e)"
  have sound: "bindings_sound p ?k" using p unfolding pass_ok_def by blast
  have provider: "fst ?k = mi_provider (ce_identity e)" by (simp add: entry_key_def identity_key_def)
  define q where "q = e\<lparr>ce_capacity_bindings :=
      (if card (cp_scopes_by_identity p ?k) = 1 then ce_capacity_bindings e else None),
    ce_capacity_binding_resources := Some (sorted_list_of_set ?R),
    ce_resource_capacity_bindings := sort_key fst ?B\<rparr>"
  have "entry_checks q"
    using e sound
    by (auto simp: q_def valid_entry_def entry_checks_def Let_def bindings_sound_def provider
        resources_ok_def ids_within_def list_all_iff)
  moreover have "Model_Catalog.entry_parts q"
    using e sound
    by (auto simp: q_def valid_entry_def Model_Catalog.entry_parts_def bindings_sound_def list_all_iff)
  moreover have "bind_entry p e = mk_entry q" by (simp add: bind_entry_def Let_def q_def)
  moreover have "entry_key q = ?k" by (simp add: q_def entry_key_def)
  ultimately show ?thesis by (auto simp: mk_entry_Inr valid_entry_def)
qed

lemma bind_entries_ok:
  assumes "pass_ok base p" "list_all valid_entry es"
  shows "\<exists>es'. traverse (bind_entry p) es = Inr es' \<and> list_all valid_entry es'
    \<and> map entry_key es' = map entry_key es"
  using assms(2)
proof (induction es)
  case (Cons e es)
  obtain e' where "bind_entry p e = Inr e'" "valid_entry e'" "entry_key e' = entry_key e"
    using bind_entry_ok [OF assms(1), of e] Cons.prems by auto
  then show ?case using Cons by auto
qed simp

text \<open>C11: extending a valid catalog with the adopted identities never raises; the result is a valid
  catalog that begins with the old entries, unchanged, and has an entry under the identity of every
  resource the registry offers (the effort, or the plan qualifier of an effort-less lane), so that
  routing finds a model for each derived registration.\<close>

theorem derived_catalog_covers_resources:
  assumes "sources_reach tr reg" "valid_catalog base"
  shows "\<exists>cat regs extra. derived_catalog_entries base reg = Inr cat \<and> valid_catalog cat
    \<and> mc_entries cat = mc_entries base @ extra \<and> mc_catalog_version cat = mc_catalog_version base
    \<and> derived_registrations reg = Inr regs
    \<and> (\<forall>r \<in> set regs. let i = rg_identity r in
         (ri_provider i, ri_model i, lane_variant (ri_variant i)) \<in> entry_key ` set (mc_entries cat))"
proof -
  note ok = reach_ok [OF assms(1)]
  have sources: "sources_ok tr (sr_sources reg)" using ok by (simp add: registry_ok_def)
  have offers: "state_ok tr st \<and> offered st slug effort" if "(st, slug, effort) \<in> set (offers (\<lambda>xs. xs) reg)"
    for st slug effort
    using that offers_iff [OF sources, of "\<lambda>xs. xs"] sources_ok_lookup [OF sources] by auto
  obtain p where p: "note_offers (offers (\<lambda>xs. xs) reg) (new_catalog_pass base) = Inr p" "pass_ok base p"
    "\<forall>(st, slug, effort) \<in> set (offers (\<lambda>xs. xs) reg). offer_key (ss_config st) slug effort \<in> cp_existing p"
    using note_offers_ok [OF new_pass_ok, of "offers (\<lambda>xs. xs) reg" tr] offers by blast
  obtain regs where regs: "derived_registrations reg = Inr regs"
    using derived_registrations_exist ok by blast
  have keys: "(ri_provider (rg_identity r), ri_model (rg_identity r), lane_variant (ri_variant (rg_identity r)))
      \<in> cp_existing p" if member: "r \<in> set regs" for r
  proof -
    obtain st slug effort where mem: "(st, slug, effort) \<in> set (offers sort reg)"
      and r: "derived_registration (sr_ttl reg) st slug effort = Inr r"
      using registration_origin [OF regs member] by blast
    have "(st, slug, effort) \<in> set (offers (\<lambda>xs. xs) reg)"
      using mem offers_iff [OF sources, of sort] offers_iff [OF sources, of "\<lambda>xs. xs"] by simp
    then have "offer_key (ss_config st) slug effort \<in> cp_existing p" using p(3) by auto
    then show ?thesis
      using r by (auto simp: derived_registration_Inr registration_of_def offer_key_def)
  qed
  obtain extra where extra: "traverse (bind_entry p) (cp_extra p) = Inr extra" "list_all valid_entry extra"
    "map entry_key extra = map entry_key (cp_extra p)"
    using bind_entries_ok [OF p(2), of "cp_extra p"] p(2) unfolding pass_ok_def by blast
  define cat where "cat = base\<lparr>mc_entries := mc_entries base @ extra\<rparr>"
  have same: "set (map entry_key (mc_entries cat)) = cp_existing p"
  proof -
    have "map entry_key (mc_entries cat) = map entry_key (mc_entries base) @ map entry_key (cp_extra p)"
      by (simp add: cat_def extra(3) del: map_map)
    then show ?thesis using p(2) unfolding pass_ok_def by (metis set_append)
  qed
  have "distinct (map entry_key (mc_entries cat))"
    using assms(2) p(2) by (simp add: cat_def extra(3) pass_ok_def valid_catalog_def del: set_map)
  then have valid: "valid_catalog cat"
    using assms(2) extra(2) by (auto simp: cat_def valid_catalog_def split: option.splits)
  have "derived_catalog_entries base reg = Inr cat"
  proof (cases "cp_extra p = []")
    case True
    then have "extra = []" using extra(1) by simp
    then show ?thesis using p(1) True by (simp add: derived_catalog_entries_def cat_def)
  next
    case False
    have "list_all valid_entry (mc_entries cat)" using valid by (simp add: valid_catalog_def)
    then have "mk_catalog cat = Inr cat" using valid by (simp add: mk_catalog_Inr)
    then show ?thesis using p(1) False extra(1) by (simp add: derived_catalog_entries_def cat_def)
  qed
  then show ?thesis
    using valid regs keys same
    by (intro exI [of _ cat] exI [of _ regs] exI [of _ extra]) (simp add: cat_def Let_def image_Un)
qed

definition empty_catalog :: model_catalog where
  "empty_catalog = \<lparr>mc_catalog_version = None, mc_updated_on = None, mc_entries = []\<rparr>"

theorem derived_catalog_covers_resources_witness:
  "\<exists>cat. derived_catalog_entries empty_catalog adopted_registry = Inr cat \<and> valid_catalog cat
    \<and> (''openai'', ''gpt-a'', ''high'') \<in> entry_key ` set (mc_entries cat)
    \<and> (''zai'', ''plan-managed'', ''plan'') \<in> entry_key ` set (mc_entries cat)"
proof -
  have "valid_catalog empty_catalog" by (simp add: valid_catalog_def empty_catalog_def)
  from derived_catalog_covers_resources [OF adopted_registry_reach this] obtain cat regs where
    cat: "derived_catalog_entries empty_catalog adopted_registry = Inr cat" "valid_catalog cat"
    and regs: "derived_registrations adopted_registry = Inr regs"
    and keys: "\<And>r. r \<in> set regs \<Longrightarrow> (ri_provider (rg_identity r), ri_model (rg_identity r),
        lane_variant (ri_variant (rg_identity r))) \<in> entry_key ` set (mc_entries cat)"
    by (auto simp: Let_def)
  have "map_sum id (map (\<lambda>r. (ri_provider (rg_identity r), ri_model (rg_identity r),
      lane_variant (ri_variant (rg_identity r))))) (derived_registrations adopted_registry) =
    Inr [(''openai'', ''gpt-a'', ''high''), (''openai'', ''gpt-a'', ''low''), (''zai'', ''plan-managed'', ''plan'')]"
    by code_simp
  then have listed: "map (\<lambda>r. (ri_provider (rg_identity r), ri_model (rg_identity r),
      lane_variant (ri_variant (rg_identity r)))) regs =
    [(''openai'', ''gpt-a'', ''high''), (''openai'', ''gpt-a'', ''low''), (''zai'', ''plan-managed'', ''plan'')]"
    using regs by simp
  have "set (map (\<lambda>r. (ri_provider (rg_identity r), ri_model (rg_identity r),
      lane_variant (ri_variant (rg_identity r)))) regs) \<subseteq> entry_key ` set (mc_entries cat)"
    using keys by auto
  then have "(''openai'', ''gpt-a'', ''high'') \<in> entry_key ` set (mc_entries cat)
      \<and> (''zai'', ''plan-managed'', ''plan'') \<in> entry_key ` set (mc_entries cat)"
    unfolding listed by simp
  then show ?thesis using cat by blast
qed

end
