(* ===== verification/Spec2Isabelle.thy ===== *)
theory Spec2Isabelle
  imports Simulation Continuation Resource_Registry Admission Route_Public Source_Catalog_Spec
begin

text \<open>
  scarcity-router: the deterministic selection and routing core, the resource registry and the registry
  of suspended turns.

  The program decides which model should serve a task. It reads normalised capacity snapshots of
  the providers, a catalog of models with hard properties and human-assessed capabilities, an
  execution-eligibility report per model, a user policy and a task requirement; it returns one
  \<open>SelectionDecision\<close> that ranks the eligible models and explains every exclusion. Around the
  decision sit an offline simulator (the same decision on edited snapshots), a registry of the
  execution resources with the observations their workers and providers report, a registry of the
  execution sources that adopts the models workers discover into such resources, a routing core, which
  narrows the catalog to what some authorized, available and compatible resource serves, selects over
  that view and names the resource, and a gateway, which keeps backend turns suspended between a tool
  call and its result.

  \<^bold>\<open>Theories and the code they model\<close> (all paths under src/scarcity_router/)

  \<^item> \<open>Prelude\<close>: decoded Python values, results (\<open>py_error + 'a\<close>, one constructor per exception
    class of errors.py, carrying the field label), the validators \<open>_v_*\<close> every contract module
    repeats, closed vocabularies, serialised records. Locales \<open>vocabulary\<close>, \<open>serial\<close>, \<open>contract\<close>.
  \<^item> \<open>Py_Time\<close>: calendar dates, canonical timestamps, aware and naive instants.
  \<^item> \<open>Capacity\<close> (capacity.py): diagnostics, quota windows, provider snapshots.
  \<^item> \<open>Selection_Types\<close>, \<open>Model_Catalog\<close> (selection_types.py): identities, requirements, profiles;
    hard properties, assessments, catalog entries, the catalog. \<open>Samples\<close> holds concrete values.
  \<^item> \<open>Scarcity\<close> (scarcity.py): integer penalty and label, strategic/tactical blend, the assessment
    contract and \<open>assess_scarcity\<close>.
  \<^item> \<open>Policy_Schedule\<close>, \<open>Policy\<close> (policy.py): weekly windows, blackouts and happy hours; reservations,
    unknown-capacity modes, replenishment visibility, \<open>UserPolicy\<close>.
  \<^item> \<open>Eligibility\<close> (eligibility.py): the execution-eligibility report.
  \<^item> \<open>Selector_Policy\<close>, \<open>Selector_Match\<close>, \<open>Selector_Eval\<close>, \<open>Selector\<close> (selector.py): selector policy;
    requirement tightening, hard constraints, capability sufficiency; one candidate through the
    ordered gates and its ranking key; assembly of the decision and \<open>select_model\<close>.
  \<^item> \<open>Simulation\<close> (simulation.py): percentage overrides and the pair of decisions.
  \<^item> \<open>Timestamps\<close>: canonical timestamps as instants and their chronological order.
  \<^item> \<open>Resource_Types\<close>, \<open>Resource_Registry\<close> (resource_state.py, runtime_version.py): identities, execution
    capabilities, health, observations and worker reports; the registry and every operation on it.
  \<^item> \<open>Route_Types\<close>, \<open>Route_Gates\<close>, \<open>Route_Outputs\<close>, \<open>Routing\<close> (routing_core.py): grants, pins, request
    bindings and compatibility cells; effective authorization and the gate pipeline of one resource;
    targets, exclusions, route and admission decisions; the request bundle, \<open>route_request\<close> over a
    versioned catalog and over a runtime inventory, and \<open>admit_pinned_target\<close>. \<open>Assurance\<close>
    (execution_assurance.py) holds the evidence of the non-paid guarantee the authorization reads.
  \<^item> \<open>Route_Gate_Spec\<close>, \<open>Route_Spec\<close>, \<open>Route_Total\<close>, \<open>Admission\<close>: what the gates, the route decision
    and the admission guarantee. \<open>Route_Public\<close>: the projection of a decision for its client.
  \<^item> \<open>Model_Inventory\<close> (model_inventory.py): the discovery document and derived identifiers;
    \<open>Source_Config\<close> (server_config.py, the source domain); \<open>Execution_Sources\<close>, \<open>Source_Catalog\<close>
    (execution_sources.py): adoption, retirement and every projection of \<open>SourceRegistry\<close>.
  \<^item> \<open>Source_Spec\<close>, \<open>Source_Resources\<close>, \<open>Source_Catalog_Spec\<close>: what the source registry guarantees.
  \<^item> \<open>Continuation\<close> (gateway_continuation.py): the registry of suspended turns.

  \<^bold>\<open>How state and operations correspond\<close>

  A frozen dataclass is a \<open>record\<close>; its \<open>__post_init__\<close> is \<open>mk_<class>\<close>, from decoded values to a
  result; \<open>from_dict\<close> and \<open>to_dict\<close> keep their names. What construction guarantees is a Boolean
  predicate (\<open>valid_window\<close>, \<open>valid_entry\<close> and so on), and the interpretation of \<open>contract\<close> for the class
  proves that parsing yields only values with the predicate, that each such value survives
  serialisation, and hence that \<open>to_dict\<close> is injective on them. Where \<open>__post_init__\<close> sorts or
  removes duplicates the interpretation is of \<open>serial\<close>, with the canonical form as a function. A
  closed set of strings is a datatype with its rendering, interpreted in \<open>vocabulary\<close>. Every raise is
  an \<open>Inl\<close> branch in the order of the code's checks.

  The registry's \<open>PendingContinuation\<close> objects are shared and mutable, so \<open>Continuation\<close> keeps them in
  a heap (a list; a reference is an index). Each public method is one critical section under the
  registry's lock, a function on the world, and leaves the actions it performs after unlocking
  (\<open>mark_terminal\<close>, cancel callbacks) in a list of pending actions; \<open>reachable\<close> interleaves sections
  and pending actions of any number of threads arbitrarily. Clock readings are arguments, in
  microseconds.

  The source registry is passed explicitly; an operation that mutates before it raises returns the
  state it leaves beside its result. \<open>sources_reach\<close> is the closure of a new registry under
  configurations and reports, with the trace of both.

  \<^bold>\<open>What the lemmas show\<close>

  \<^item> Contracts: types and round trips of every serialised record (interpretations of \<open>contract\<close> and
    \<open>serial\<close>; theorems \<open>user_policy_canonical\<close>, \<open>selector_policy_roundtrip\<close>,
    \<open>scarcity_wire_roundtrip\<close>, \<open>eligibility_parse_spec\<close>).
  \<^item> Scarcity: total on valid inputs, order independent, blind to scopes a model is not bound to, the
    blend between its inputs and the penalty antitone in the remaining percentage.
  \<^item> Policy: a weekly blackout is membership in an arc of the 10080-minute week; reservations,
    unknown-capacity modes and replenishment visibility against their specification tables.
  \<^item> Selector: \<open>evaluate_candidate\<close> refines the ordered gates; the decision's eligible list is exactly
    the admitted entries in strictly ascending key order; preferences never admit or exclude;
    tightening is monotone; the decision does not depend on input order; it is total up to the listed
    errors.
  \<^item> Simulation: an override touches exactly the one window it names; a simulation is two selections.
  \<^item> Registry: every reachable registry is sound, readings are exact, worker reports are atomic,
    staleness is permanent; \<open>foreign_observation_accepted\<close> proves that an observation of a foreign
    identity can be accepted.
  \<^item> Routing: effective authorization is the conjunction of its layers, the resource pipeline stops at
    the first shut stage, promotions never admit; every target of a decision comes from an open gate
    and honours the pin, every resource with a shut gate is named by exactly one exclusion with its
    first shut stage and that stage's codes; \<open>versioned_route_total\<close> says
    exactly when a decision exists and \<open>runtime_candidates_refused\<close> proves a request the runtime
    branch cannot answer. Admission is exact and approves whatever a decision recommends; the public
    document names authorized resources only.
  \<^item> Sources: every derived resource is granted and was advertised by its own worker, identifiers are
    injective and resolve to that worker, deriving registrations and the catalog is total, a model is
    retired by exactly the third authenticated miss, the bookkeeping and the wire document are bounded;
    \<open>unadvertised_effort_stays_offered\<close> proves of every reachable registry that efforts no longer
    advertised stay on offer as long as the model itself goes on being listed.
  \<^item> Continuation: at most one successful claim per lease, client isolation, bounds, deadlines, replay
    answers, and a refinement of the abstract lease table with the exact effect, answer and
    cancellations of every operation. The table follows the code: turns that expire while they wait
    are forgotten, against the documentation of \<open>was_terminal_for\<close>.

  \<^bold>\<open>Parameters and bounds\<close>

  The time-zone database is the parameter \<open>zones\<close> (zone name to UTC offset at each instant, None for a
  name that does not load). A routing environment (\<open>route_env\<close>) adds the parser of free-form evidence
  timestamps and the digest behind a decision identifier; no property assumes anything of them.
  Cancel callbacks are outside the registry's module and only logged. The
  registry's bounds are the code's, 64 pending continuations and 256 tombstones. No definition uses
  fuel: every loop of the modelled code runs over a finite list and is structural recursion, except
  the trimming of retired models, a \<open>function\<close> whose measure is the length of the list. At most 64
  retired models are kept, and the caps of the discovery document are those of model_inventory.py.
  Integers are Python's unbounded ones. Strings are lists of code points below 256.

  \<^bold>\<open>Not modelled\<close>

  \<^item> Texts of error messages beyond the field label, and \<open>fingerprint\<close> methods (SHA-256 of JSON text).
  \<^item> \<open>datetime.fromisoformat\<close> on free-form text (\<open>SimulationOverrides.from_dict\<close>); only strings the
    code's own regular expressions admit are parsed.
  \<^item> HTTP servers and clients, SQLite storage, HTML pages, TLS, subprocess workers, provider
    acquisition, command line, MCP and tooling under src/tools: input and output around the core.
  \<^item> The branches of routing_core.py that read a machine-interface admission (\<open>_mi_inputs\<close>,
    \<open>receive_execution_assurance\<close>, \<open>source_call_facts\<close>) need the consumer of mi_consumer.py, which is
    not modelled; requests carry the two fields an admission leaves behind.
  \<^item> \<open>ModelInventoryReport.parse\<close> on bytes: the model starts from the decoded JSON value.
  \<^item> Kernel requirements, the selection application, the control plane that calls the source registry
    and the coordinator of the gateway are left out: they join the modelled parts through files,
    sockets, threads and SQLite.
\<close>

end
